(* ===== verification/Hex_Utils.thy ===== *)
theory Hex_Utils
  imports Prelude
begin

text \<open>
  \<open>src/src/hex_utils.rs\<close>: hexadecimal text to bytes and back, and the public key parser built on it.
  \<open>PublicKey::from_slice\<close> belongs to the \<open>bitcoin\<close> crate and is a parameter.
\<close>

section \<open>Decoding\<close>

text \<open>The three byte ranges of the \<open>match\<close> in \<open>to_vec\<close>.\<close>

definition hex_nibble :: "u8 \<Rightarrow> u8 option" where
  "hex_nibble c =
     (if 65 \<le> c \<and> c \<le> 70 then Some (c - 65 + 10)
      else if 97 \<le> c \<and> c \<le> 102 then Some (c - 97 + 10)
      else if 48 \<le> c \<and> c \<le> 57 then Some (c - 48)
      else None)"

text \<open>The loop: \<open>idx\<close> counts the characters read, \<open>b\<close> holds the nibble waiting for its partner.\<close>

fun to_vec_loop :: "nat \<Rightarrow> u8 \<Rightarrow> bytes \<Rightarrow> bytes \<Rightarrow> bytes option" where
  "to_vec_loop idx b out [] = Some out"
| "to_vec_loop idx b out (c # cs) =
     (case hex_nibble c of
        None \<Rightarrow> None
      | Some d \<Rightarrow>
          (let b' = push_bit 4 b OR d in
           if odd idx then to_vec_loop (Suc idx) 0 (out @ [b']) cs
           else to_vec_loop (Suc idx) b' out cs))"

definition to_vec :: "string \<Rightarrow> bytes option" where
  "to_vec hex = to_vec_loop 0 0 [] (as_bytes hex)"

section \<open>Encoding\<close>

definition hex_digit :: "u8 \<Rightarrow> char" where
  "hex_digit n = (if n < 10 then char_of (48 + unat n) else char_of (87 + unat n))"

text \<open>The format \<open>{:02x}\<close> of one byte, and the loop over the bytes.\<close>

definition hex_byte :: "u8 \<Rightarrow> string" where
  "hex_byte v = [hex_digit (drop_bit 4 v), hex_digit (v AND 15)]"

fun hex_str :: "bytes \<Rightarrow> string" where
  "hex_str [] = []"
| "hex_str (v # vs) = hex_byte v @ hex_str vs"

section \<open>Public keys\<close>

text \<open>
  The slice \<open>&hex[0..33 * 2]\<close> panics when the text is shorter than 66 bytes; longer text is cut.
\<close>

definition to_compressed_pubkey :: "(bytes \<Rightarrow> 'pk option) \<Rightarrow> string \<Rightarrow> (unit, 'pk option) outcome" where
  "to_compressed_pubkey from_slice hex =
     (if length hex < 66 then Panic
      else case to_vec (take 66 hex) of
             None \<Rightarrow> Ok None
           | Some data \<Rightarrow> Ok (from_slice data))"

section \<open>Lemmas\<close>

lemma nibble_bound: "hex_nibble c = Some d \<Longrightarrow> d < 16"
  by (auto simp: hex_nibble_def word_less_nat_alt word_le_nat_alt unat_sub unat_word_ariths
      split: if_splits)

lemma hex_nibble_digit:
  assumes "n < 16"
  shows "hex_nibble (word_of_nat (of_char (hex_digit n))) = Some n"
proof -
  have n: "unat n < 16" using assms by (simp add: word_less_nat_alt)
  show ?thesis
  proof (cases "n < 10")
    case True
    then have "unat n < 10" by (simp add: word_less_nat_alt)
    moreover from this have c: "word_of_nat (of_char (hex_digit n)) = 48 + n"
      using True by (simp add: hex_digit_def)
    ultimately show ?thesis
      unfolding c by (simp add: hex_nibble_def word_le_nat_alt unat_word_ariths)
  next
    case False
    then have "10 \<le> unat n" by (simp add: word_less_nat_alt)
    moreover have c: "word_of_nat (of_char (hex_digit n)) = 87 + n"
      using False n by (simp add: hex_digit_def)
    ultimately show ?thesis
      using n unfolding c by (simp add: hex_nibble_def word_le_nat_alt unat_word_ariths)
  qed
qed

lemma high_nibble_bound: "drop_bit 4 (v :: u8) < 16"
  using unat_of_u8_bound [of v]
  by (simp add: word_less_nat_alt unat_drop_bit_eq unat_div drop_bit_eq_div)

lemma low_nibble_bound: "(v :: u8) AND 15 < 16"
proof -
  have "v AND 15 \<le> 15" by (rule word_and_le1)
  then show ?thesis by (simp add: word_less_nat_alt word_le_nat_alt)
qed

lemma nibbles_join: "push_bit 4 (drop_bit 4 v) OR (v AND 15) = (v :: u8)"
proof -
  have "(15 :: u8) = mask 4" by (simp add: mask_eq_exp_minus_1)
  then show ?thesis by (simp add: bit_eq_iff bit_simps) (auto simp: bit_simps)
qed

lemma to_vec_loop_byte:
  "even idx \<Longrightarrow>
   to_vec_loop idx 0 out (as_bytes (hex_byte v) @ cs) = to_vec_loop (Suc (Suc idx)) 0 (out @ [v]) cs"
  by (simp add: as_bytes_def hex_byte_def hex_nibble_digit high_nibble_bound low_nibble_bound
      nibbles_join Let_def)

lemma to_vec_loop_hex_str:
  "even idx \<Longrightarrow> to_vec_loop idx 0 out (as_bytes (hex_str bs)) = Some (out @ bs)"
proof (induction bs arbitrary: idx out)
  case (Cons v vs)
  have "as_bytes (hex_str (v # vs)) = as_bytes (hex_byte v) @ as_bytes (hex_str vs)"
    by (simp add: as_bytes_def)
  with Cons show ?case by (simp add: to_vec_loop_byte)
qed (simp add: as_bytes_def)

lemma to_vec_loop_length:
  "to_vec_loop idx b out cs = Some r \<Longrightarrow>
   length r = length out + (if odd idx then Suc (length cs) div 2 else length cs div 2)"
  by (induction idx b out cs rule: to_vec_loop.induct)
     (auto simp: Let_def split: option.splits if_splits)

lemma to_vec_loop_None_iff:
  "to_vec_loop idx b out cs = None \<longleftrightarrow> (\<exists>c \<in> set cs. hex_nibble c = None)"
  by (induction idx b out cs rule: to_vec_loop.induct)
     (auto simp: Let_def split: option.splits)

lemma length_hex_str: "length (hex_str bs) = 2 * length bs"
  by (induction bs) (auto simp: hex_byte_def)

lemma hex_str_inj [simp]: "hex_str a = hex_str b \<longleftrightarrow> a = b"
  using to_vec_loop_hex_str [of 0 "[]" a] to_vec_loop_hex_str [of 0 "[]" b]
  by (metis append_Nil even_zero option.inject)

lemma hex_digit_char:
  "c \<in> set (hex_str bs) \<Longrightarrow> (48 \<le> (of_char c :: nat) \<and> (of_char c :: nat) \<le> 57) \<or> (97 \<le> (of_char c :: nat) \<and> (of_char c :: nat) \<le> 102)"
proof (induction bs)
  case (Cons v vs)
  have digit: "(48 \<le> (of_char (hex_digit n) :: nat) \<and> (of_char (hex_digit n) :: nat) \<le> 57) \<or>
      (97 \<le> (of_char (hex_digit n) :: nat) \<and> (of_char (hex_digit n) :: nat) \<le> 102)" if "n < 16" for n :: u8
  proof -
    have n: "unat n < 16" using that by (simp add: word_less_nat_alt)
    show ?thesis
    proof (cases "n < 10")
      case True
      then have "unat n < 10" by (simp add: word_less_nat_alt)
      with True show ?thesis by (simp add: hex_digit_def)
    next
      case False
      then have "10 \<le> unat n" by (simp add: word_less_nat_alt)
      with False n show ?thesis by (simp add: hex_digit_def)
    qed
  qed
  from Cons.prems consider "c = hex_digit (drop_bit 4 v)" | "c = hex_digit (v AND 15)" | "c \<in> set (hex_str vs)"
    by (auto simp: hex_byte_def)
  then show ?case
    by cases (use digit high_nibble_bound low_nibble_bound Cons.IH in blast)+
qed simp

lemma hex_str_no_char:
  assumes "(of_char c :: nat) < 48 \<or> (57 :: nat) < of_char c \<and> (of_char c :: nat) < 97 \<or> (102 :: nat) < of_char c"
  shows "c \<notin> set (hex_str bs)"
  using assms hex_digit_char [of c bs] by linarith

section \<open>Properties\<close>

text \<open>Decoding the printed form of any byte sequence gives the bytes back.\<close>

theorem to_vec_hex_str: "to_vec (hex_str bs) = Some bs"
  by (simp add: to_vec_def to_vec_loop_hex_str)

text \<open>
  Decoding fails exactly when some byte is not a hexadecimal digit, and a successful decoding
  has half as many bytes as the text has characters, rounded down: the last digit of a text of odd
  length is read and dropped.
\<close>

theorem to_vec_result:
  "(to_vec s = None \<longleftrightarrow> (\<exists>c \<in> set (as_bytes s). hex_nibble c = None)) \<and>
   (case to_vec s of None \<Rightarrow> True | Some bs \<Rightarrow> length bs = length s div 2)"
  using to_vec_loop_length [of 0 0 "[]" "as_bytes s"]
  by (auto simp: to_vec_def to_vec_loop_None_iff split: option.splits)

text \<open>
  Parsing a public key panics exactly on text shorter than 66 characters; on longer text it
  depends on the first 66 characters only, and on the hexadecimal form of 33 bytes followed by
  anything it is what \<open>PublicKey::from_slice\<close> makes of those bytes.
\<close>

theorem to_compressed_pubkey_result:
  "(to_compressed_pubkey f s = Panic \<longleftrightarrow> length s < 66) \<and>
   (length bs = 33 \<longrightarrow> to_compressed_pubkey f (hex_str bs @ rest) = Ok (f bs))"
  by (auto simp: to_compressed_pubkey_def length_hex_str to_vec_def to_vec_loop_hex_str
      split: option.splits)

theorem to_compressed_pubkey_result_witness:
  "length (replicate 33 (2 :: u8)) = 33 \<and>
   to_compressed_pubkey Some (hex_str (replicate 33 2) @ ''@host'') = Ok (Some (replicate 33 2))"
  using to_compressed_pubkey_result [of Some "[]" "replicate 33 2" "''@host''"] by simp

end
