(* ===== verification/Node_Types.thy ===== *)
theory Node_Types
  imports Prelude Hex_Utils
begin

text \<open>
  The data the prober's modules share: payment bookkeeping (\<open>src/src/main.rs\<close>), the rows of the
  attempt table and the files the prober reads and writes (\<open>src/src/cli.rs\<close>), and the parts of the
  Lightning library's routing types the prober fills in or inspects
  (\<open>lightning/src/routing/router.rs\<close>, \<open>gossip.rs\<close>). A public key, payment hash, preimage or secret is
  its byte string.
\<close>

section \<open>Payments\<close>

datatype HTLCStatus = Pending | Succeeded | Failed

type_synonym MillisatAmount = "u64 option"

record PaymentInfo =
  preimage :: "bytes option"
  secret :: "bytes option"
  status :: HTLCStatus
  amt_msat :: MillisatAmount

type_synonym PaymentInfoStorage = "(bytes \<times> PaymentInfo) list"

definition show_millisat_amount :: "MillisatAmount \<Rightarrow> string" where
  "show_millisat_amount a = (case a of Some amt \<Rightarrow> to_string amt | None \<Rightarrow> ''unknown'')"

definition show_htlc_status :: "HTLCStatus \<Rightarrow> string" where
  "show_htlc_status s =
     (case s of Pending \<Rightarrow> ''pending'' | Succeeded \<Rightarrow> ''succeeded'' | Failed \<Rightarrow> ''failed'')"

section \<open>Routes\<close>

record RouteHop =
  pubkey :: bytes
  supports_variable_length_onion :: bool
  short_channel_id :: u64
  fee_msat :: u64
  cltv_expiry_delta :: u32

type_synonym route = "RouteHop list list"

record RoutingFees =
  base_msat :: u32
  proportional_millionths :: u32

record RouteHintHop =
  src_node_id :: bytes
  hint_short_channel_id :: u64
  fees :: RoutingFees
  hint_cltv_expiry_delta :: u16
  htlc_minimum_msat :: "u64 option"
  htlc_maximum_msat :: "u64 option"

type_synonym RouteHint = "RouteHintHop list"

record RouteParameters =
  payee_pubkey :: bytes
  route_hints :: "RouteHint list"
  final_value_msat :: u64
  final_cltv_expiry_delta :: u32

section \<open>Probing data\<close>

text \<open>One candidate funding output, as the scraper writes it and \<open>probeall\<close> reads it.\<close>

record Transaction =
  block_height :: u64
  tx_id :: string
  block_index :: u64
  transaction_index :: u64
  amount :: u64

text \<open>An address at which a node can be reached.\<close>

datatype NetAddress =
    IPv4 bytes u16
  | IPv6 bytes u16
  | OnionV2 bytes
  | OnionV3 bytes u16 u8 u16

text \<open>A row of the \<open>attempt\<close> table; the date is the clock's reading, an opaque number.\<close>

record Attempt =
  target_pubkey :: string
  guess_pubkey :: string
  channel_id :: string
  result :: string
  date_found :: nat

record AttemptResult =
  res_target_pubkey :: string
  res_other_pubkey :: string
  res_channel_id :: string
  res_transaction_id_output :: string
  res_amount :: u64
  res_block_open :: u32
  res_date_found :: nat

datatype Network = Bitcoin | Testnet | Regtest | Signet

text \<open>\<open>PublicKey\<close> prints as the lower-case hexadecimal form of its serialisation.\<close>

abbreviation pubkey_to_string :: "bytes \<Rightarrow> string" where
  "pubkey_to_string pk \<equiv> hex_str pk"

end
