(* ===== verification/Scid.thy ===== *)
theory Scid
  imports Prelude
begin

text \<open>
  Short channel ids: block height, transaction index and output index packed into 64 bits. The
  prober has its own unchecked packer (\<open>src/src/probe.rs\<close>); the Lightning library has the checked one
  (\<open>lightning/src/util/scid_utils.rs\<close>), and both share the three extractors.
\<close>

section \<open>The prober's codec\<close>

definition MAX_SCID_BLOCK :: u64 where "MAX_SCID_BLOCK = 0x00ffffff"
definition MAX_SCID_TX_INDEX :: u64 where "MAX_SCID_TX_INDEX = 0x00ffffff"
definition MAX_SCID_VOUT_INDEX :: u64 where "MAX_SCID_VOUT_INDEX = 0xffff"

definition scid_from_parts :: "u64 \<Rightarrow> u64 \<Rightarrow> u64 \<Rightarrow> u64" where
  "scid_from_parts block tx_index vout_index =
     (push_bit 40 block OR push_bit 16 tx_index) OR vout_index"

definition block_from_scid :: "u64 \<Rightarrow> u32" where
  "block_from_scid short_channel_id = ucast (drop_bit 40 short_channel_id)"

definition tx_index_from_scid :: "u64 \<Rightarrow> u32" where
  "tx_index_from_scid short_channel_id =
     ucast (drop_bit 16 short_channel_id AND MAX_SCID_TX_INDEX)"

definition vout_from_scid :: "u64 \<Rightarrow> u16" where
  "vout_from_scid short_channel_id = ucast (short_channel_id AND MAX_SCID_VOUT_INDEX)"

section \<open>The library's checked packer\<close>

datatype ShortChannelIdError = BlockOverflow | TxIndexOverflow | VoutIndexOverflow

definition scid_from_parts_checked :: "u64 \<Rightarrow> u64 \<Rightarrow> u64 \<Rightarrow> (ShortChannelIdError, u64) outcome" where
  "scid_from_parts_checked block tx_index vout_index =
     (if block > MAX_SCID_BLOCK then Err BlockOverflow
      else if tx_index > MAX_SCID_TX_INDEX then Err TxIndexOverflow
      else if vout_index > MAX_SCID_VOUT_INDEX then Err VoutIndexOverflow
      else Ok ((push_bit 40 block OR push_bit 16 tx_index) OR vout_index))"

section \<open>Lemmas\<close>

text \<open>The parts that fit their fields, in the form bit reasoning uses.\<close>

definition scid_parts_ok :: "u64 \<Rightarrow> u64 \<Rightarrow> u64 \<Rightarrow> bool" where
  "scid_parts_ok block tx_index vout_index \<longleftrightarrow>
     block \<le> MAX_SCID_BLOCK \<and> tx_index \<le> MAX_SCID_TX_INDEX \<and> vout_index \<le> MAX_SCID_VOUT_INDEX"

lemmas scid_max_defs = MAX_SCID_BLOCK_def MAX_SCID_TX_INDEX_def MAX_SCID_VOUT_INDEX_def

lemma scid_mask_eqs:
  "(0x00ffffff :: u64) = mask 24" "(0xffff :: u64) = mask 16"
  by (simp_all add: mask_eq_exp_minus_1)

lemma le_mask_take_bit: "(w :: 'n::len word) \<le> mask n \<longleftrightarrow> take_bit n w = w"
proof
  assume "w \<le> mask n"
  then have "uint w \<le> uint (mask n :: 'n word)" by (simp add: word_le_def)
  also have "\<dots> < 2 ^ n" using and_mask_lt_2p [of "mask n :: 'n word" n] by simp
  finally show "take_bit n w = w" by (simp add: take_bit_eq_mask mask_eq_iff)
next
  assume "take_bit n w = w"
  then have "w AND mask n = w" by (simp add: take_bit_eq_mask)
  then show "w \<le> mask n" by (metis word_and_le1)
qed

lemma bit_above_mask:
  assumes "(w :: 'n::len word) \<le> mask n" and "bit w k"
  shows "k < n"
proof -
  from assms(1) have "take_bit n w = w" by (simp add: le_mask_take_bit)
  with assms(2) have "bit (take_bit n w) k" by simp
  then show ?thesis by (simp add: bit_simps)
qed

lemma scid_parts_okD:
  assumes "scid_parts_ok b t v"
  shows "bit b k \<Longrightarrow> k < 24" and "bit t k \<Longrightarrow> k < 24" and "bit v k \<Longrightarrow> k < 16"
  using assms by (auto simp: scid_parts_ok_def scid_max_defs scid_mask_eqs dest: bit_above_mask)

lemma drop_block:
  "scid_parts_ok b t v \<Longrightarrow> drop_bit 40 (scid_from_parts b t v) = b"
  by (rule bit_word_eqI) (auto simp: scid_from_parts_def bit_simps dest: scid_parts_okD)

lemma mask_tx_index:
  "scid_parts_ok b t v \<Longrightarrow> drop_bit 16 (scid_from_parts b t v) AND MAX_SCID_TX_INDEX = t"
  unfolding MAX_SCID_TX_INDEX_def scid_mask_eqs
  by (rule bit_word_eqI) (auto simp: scid_from_parts_def bit_simps dest: scid_parts_okD)

lemma mask_vout:
  "scid_parts_ok b t v \<Longrightarrow> scid_from_parts b t v AND MAX_SCID_VOUT_INDEX = v"
  unfolding MAX_SCID_VOUT_INDEX_def scid_mask_eqs
  by (rule bit_word_eqI) (auto simp: scid_from_parts_def bit_simps dest: scid_parts_okD)

lemmas scid_fields [simp] = drop_block mask_tx_index mask_vout

lemma scid_from_parts_inj:
  assumes "scid_parts_ok b t v" and "scid_parts_ok b' t' v'"
    and "scid_from_parts b t v = scid_from_parts b' t' v'"
  shows "b = b' \<and> t = t' \<and> v = v'"
  using assms by (metis drop_block mask_tx_index mask_vout)

lemma ucast_u32_id:
  "(w :: u64) \<le> 0x00ffffff \<Longrightarrow> ucast (ucast w :: u32) = w"
  unfolding scid_mask_eqs
  by (rule bit_word_eqI) (auto simp: bit_simps dest: bit_above_mask)

lemma ucast_u16_id:
  "(w :: u64) \<le> 0xffff \<Longrightarrow> ucast (ucast w :: u16) = w"
  unfolding scid_mask_eqs
  by (rule bit_word_eqI) (auto simp: bit_simps dest: bit_above_mask)

lemma scid_vout_block:
  assumes "scid_parts_ok b t v"
  shows "ucast (vout_from_scid (scid_from_parts b t v)) = v"
    and "ucast (block_from_scid (scid_from_parts b t v)) = b"
proof -
  have "b \<le> 0x00ffffff" "v \<le> 0xffff"
    using assms by (simp_all add: scid_parts_ok_def scid_max_defs)
  with assms show "ucast (vout_from_scid (scid_from_parts b t v)) = v"
    and "ucast (block_from_scid (scid_from_parts b t v)) = b"
    by (simp_all add: block_from_scid_def vout_from_scid_def ucast_u32_id ucast_u16_id)
qed

lemma scid_checked: "scid_parts_ok b t v \<Longrightarrow> scid_from_parts_checked b t v = Ok (scid_from_parts b t v)"
  by (simp add: scid_from_parts_checked_def scid_from_parts_def scid_parts_ok_def not_less)

section \<open>Properties\<close>

text \<open>
  Packing parts that fit their fields and extracting them gives the parts back, so two different
  positions in the chain never share a short channel id.
\<close>

theorem scid_round_trip:
  assumes "scid_parts_ok b t v"
  shows "ucast (block_from_scid (scid_from_parts b t v)) = b \<and>
         ucast (tx_index_from_scid (scid_from_parts b t v)) = t \<and>
         ucast (vout_from_scid (scid_from_parts b t v)) = v"
proof -
  have "t \<le> 0x00ffffff" using assms by (simp add: scid_parts_ok_def scid_max_defs)
  with assms show ?thesis
    by (simp add: scid_vout_block tx_index_from_scid_def ucast_u32_id)
qed

theorem scid_round_trip_witness:
  "scid_parts_ok 684110 1500 1 \<and>
   ucast (block_from_scid (scid_from_parts 684110 1500 1)) = (684110 :: u64) \<and>
   ucast (tx_index_from_scid (scid_from_parts 684110 1500 1)) = (1500 :: u64) \<and>
   ucast (vout_from_scid (scid_from_parts 684110 1500 1)) = (1 :: u64)"
proof -
  have ok: "scid_parts_ok 684110 1500 1" by (simp add: scid_parts_ok_def scid_max_defs)
  show ?thesis using ok scid_round_trip [OF ok] by blast
qed

text \<open>
  Every 64-bit number is the short channel id of its three extracted fields: the extractors lose
  nothing.
\<close>

theorem scid_of_fields:
  "scid_from_parts (ucast (block_from_scid s)) (ucast (tx_index_from_scid s)) (ucast (vout_from_scid s)) = s"
proof (rule bit_word_eqI)
  fix n
  assume "n < LENGTH(64)"
  then show "bit (scid_from_parts (ucast (block_from_scid s)) (ucast (tx_index_from_scid s))
      (ucast (vout_from_scid s))) n = bit s n"
    unfolding block_from_scid_def tx_index_from_scid_def vout_from_scid_def scid_from_parts_def
      scid_max_defs scid_mask_eqs
    by (cases "n < 40") (auto simp: bit_simps)
qed

text \<open>
  The library's packer accepts exactly the parts that fit and then agrees with the prober's; it
  reports the first field that overflows. Where it refuses, the prober's packer still answers: an
  output index of 65536 gives the short channel id of output 0 of the next transaction.
\<close>

theorem scid_checked_refines:
  "scid_from_parts_checked b t v =
     (if scid_parts_ok b t v then Ok (scid_from_parts b t v)
      else Err (if b > MAX_SCID_BLOCK then BlockOverflow
                else if t > MAX_SCID_TX_INDEX then TxIndexOverflow else VoutIndexOverflow)) \<and>
   scid_from_parts b 0 0x10000 = scid_from_parts b 1 0 \<and>
   scid_from_parts_checked 700000 0 0x10000 = Err VoutIndexOverflow"
  by (auto simp: scid_from_parts_checked_def scid_from_parts_def scid_parts_ok_def not_less
      scid_max_defs)

end
