(* ===== verification/Probe.thy ===== *)
theory Probe
  imports Node_Types Scid
begin

text \<open>
  \<open>src/src/probe.rs\<close>: one probe. A route is requested to a guessed node with a route hint that says
  the target node has a channel with the guessed short channel id; a payment with a hash nobody knows
  the preimage of is then sent along it. Route finding (\<open>find_route\<close>), sending (\<open>send_payment\<close>), key
  parsing, hashing and the random preimage are parameters.
\<close>

section \<open>Environment\<close>

record probe_env =
  pk_from_str :: "string \<Rightarrow> bytes option"
  sha256 :: "bytes \<Rightarrow> bytes"
  find_route :: "RouteParameters \<Rightarrow> route option"
  send_payment :: "route \<Rightarrow> bytes \<Rightarrow> bool"

datatype probe_error = ChannelIdNotANumber | NoRoute

section \<open>Operations\<close>

definition find_routes :: "probe_env \<Rightarrow> string \<Rightarrow> RouteHint list \<Rightarrow> (probe_error, route) outcome" where
  "find_routes env payee private_routes =
     (case pk_from_str env payee of
        None \<Rightarrow> Err NoRoute
      | Some their_pubkey \<Rightarrow>
          (case find_route env
                  \<lparr>payee_pubkey = their_pubkey, route_hints = private_routes,
                   final_value_msat = 1000, final_cltv_expiry_delta = 40\<rparr> of
             None \<Rightarrow> Err NoRoute
           | Some route \<Rightarrow> Ok route))"

definition probe_hint :: "bytes \<Rightarrow> u64 \<Rightarrow> RouteHint list" where
  "probe_hint source_pubkey chan_id =
     [[\<lparr>src_node_id = source_pubkey, hint_short_channel_id = chan_id,
        fees = \<lparr>base_msat = 1000, proportional_millionths = 1\<rparr>,
        hint_cltv_expiry_delta = 40, htlc_minimum_msat = None, htlc_maximum_msat = None\<rparr>]]"

definition probe_payment_info :: "bytes \<Rightarrow> PaymentInfo" where
  "probe_payment_info fake_preimage =
     \<lparr>preimage = Some fake_preimage, secret = None, status = Pending, amt_msat = Some 10000\<rparr>"

text \<open>
  The whole call: the result and the pending-payment table it leaves. The entry is inserted before
  the payment is sent and taken out again when sending fails.
\<close>

definition probe ::
  "probe_env \<Rightarrow> bytes \<Rightarrow> string \<Rightarrow> string \<Rightarrow> string \<Rightarrow> PaymentInfoStorage \<Rightarrow>
   (probe_error, unit) outcome \<times> PaymentInfoStorage" where
  "probe env fake_preimage pubkey_str channel_id_str pubkey_guess pending_payment_state =
     (case pk_from_str env pubkey_str of
        None \<Rightarrow> (Panic, pending_payment_state)
      | Some source_pubkey \<Rightarrow>
          (case parse_u64 channel_id_str of
             None \<Rightarrow> (Err ChannelIdNotANumber, pending_payment_state)
           | Some chan_id \<Rightarrow>
               (let payment_hash = sha256 env fake_preimage in
                case find_routes env pubkey_guess (probe_hint source_pubkey chan_id) of
                  Ok route \<Rightarrow>
                    (let state = hm_insert payment_hash (probe_payment_info fake_preimage)
                                   pending_payment_state in
                     if send_payment env route payment_hash then (Ok (), state)
                     else (Err NoRoute, hm_remove payment_hash state))
                | Err e \<Rightarrow> (Err NoRoute, pending_payment_state)
                | Panic \<Rightarrow> (Panic, pending_payment_state))))"

section \<open>Lemmas\<close>

lemma find_routes_not_Panic [simp]: "find_routes env payee hints \<noteq> Panic"
  by (simp add: find_routes_def split: option.splits)

lemma probe_OkD:
  assumes "probe env pre pk chan guess pend = (Ok (), pend')"
  shows "\<exists>src c route. pk_from_str env pk = Some src \<and> parse_u64 chan = Some c \<and>
    find_routes env guess (probe_hint src c) = Ok route \<and> send_payment env route (sha256 env pre) \<and>
    pend' = hm_insert (sha256 env pre) (probe_payment_info pre) pend"
  using assms by (auto simp: probe_def Let_def split: option.splits outcome.splits if_splits)

lemma probe_Err_pending:
  assumes "probe env pre pk chan guess pend = (Err e, pend')"
  shows "pend' = pend \<or> pend' = hm_remove (sha256 env pre) (hm_insert (sha256 env pre) (probe_payment_info pre) pend)"
  using assms by (auto simp: probe_def Let_def split: option.splits outcome.splits if_splits)

lemma probe_Panic_iff:
  "fst (probe env pre pk chan guess pend) = Panic \<longleftrightarrow> pk_from_str env pk = None"
  by (auto simp: probe_def Let_def split: option.splits outcome.splits if_splits)

lemma probe_distinct:
  assumes "distinct (map fst pend)"
  shows "distinct (map fst (snd (probe env pre pk chan guess pend)))"
  using assms by (auto simp: probe_def Let_def split: option.splits outcome.splits)

lemma remove_insert_fresh:
  "map_of m k = None \<Longrightarrow> hm_remove k (hm_insert k v m) = m"
  by (induction m) (auto simp: hm_remove_def filter_id_conv map_of_eq_None_iff image_iff
      split: if_splits)

lemma probe_length:
  "length (snd (probe env pre pk chan guess pend)) \<le> Suc (length pend)"
  using length_hm_insert [of "sha256 env pre" "probe_payment_info pre" pend]
    length_hm_remove [of "sha256 env pre" "hm_insert (sha256 env pre) (probe_payment_info pre) pend"]
  by (auto simp: probe_def Let_def split: option.splits outcome.splits)

section \<open>Properties\<close>

text \<open>
  C16. A probe that succeeds asked the router for a route to the guessed key of 1000 msat whose only
  hint is the guessed channel of the target node, sent a payment along what it got, and left exactly
  one new pending entry, under the hash of the preimage it drew; it never touches another entry.
\<close>

theorem probe_success:
  assumes "probe env pre pk chan guess pend = (Ok (), pend')"
  shows "\<exists>src c g route. pk_from_str env pk = Some src \<and> parse_u64 chan = Some c \<and>
    pk_from_str env guess = Some g \<and>
    find_route env \<lparr>payee_pubkey = g,
       route_hints = [[\<lparr>src_node_id = src, hint_short_channel_id = c,
          fees = \<lparr>base_msat = 1000, proportional_millionths = 1\<rparr>, hint_cltv_expiry_delta = 40,
          htlc_minimum_msat = None, htlc_maximum_msat = None\<rparr>]],
       final_value_msat = 1000, final_cltv_expiry_delta = 40\<rparr> = Some route \<and>
    send_payment env route (sha256 env pre) \<and>
    map_of pend' = (map_of pend)(sha256 env pre \<mapsto> probe_payment_info pre)"
  using probe_OkD [OF assms]
  by (auto simp: find_routes_def probe_hint_def split: option.splits)

definition probe_demo_env :: probe_env where
  "probe_demo_env = \<lparr>pk_from_str = (\<lambda>s. if length s = 66 then to_vec s else None),
     sha256 = (\<lambda>bs. bs), find_route = (\<lambda>p. Some [[]]), send_payment = (\<lambda>r h. True)\<rparr>"

lemma probe_demo_run:
  "probe probe_demo_env [7] (hex_str (replicate 33 2)) ''42'' (hex_str (replicate 33 3)) [] =
   (Ok (), [([7], probe_payment_info [7])])"
proof -
  have p: "parse_u64 ''42'' = Some 42"
    by (simp add: parse_u64_def parse_unsigned_def char_digit_def)
  show ?thesis
    by (simp add: probe_def probe_demo_env_def find_routes_def p to_vec_def to_vec_loop_hex_str
        length_hex_str)
qed

theorem probe_success_witness:
  "\<exists>src c g route. pk_from_str probe_demo_env (hex_str (replicate 33 2)) = Some src \<and>
    parse_u64 ''42'' = Some c \<and> pk_from_str probe_demo_env (hex_str (replicate 33 3)) = Some g \<and>
    find_route probe_demo_env \<lparr>payee_pubkey = g,
       route_hints = [[\<lparr>src_node_id = src, hint_short_channel_id = c,
          fees = \<lparr>base_msat = 1000, proportional_millionths = 1\<rparr>, hint_cltv_expiry_delta = 40,
          htlc_minimum_msat = None, htlc_maximum_msat = None\<rparr>]],
       final_value_msat = 1000, final_cltv_expiry_delta = 40\<rparr> = Some route \<and>
    send_payment probe_demo_env route (sha256 probe_demo_env [7]) \<and>
    map_of [([7], probe_payment_info [7])] =
      (map_of [])(sha256 probe_demo_env [7] \<mapsto> probe_payment_info [7])"
  using probe_success [OF probe_demo_run] .

text \<open>
  A probe that fails leaves the pending table as it was, provided the random preimage's hash was
  not already pending; a probe panics exactly when the target key does not parse.
\<close>

theorem probe_failure:
  assumes "map_of pend (sha256 env pre) = None"
  shows "(fst (probe env pre pk chan guess pend) \<noteq> Ok () \<longrightarrow>
           snd (probe env pre pk chan guess pend) = pend) \<and>
         (fst (probe env pre pk chan guess pend) = Panic \<longleftrightarrow> pk_from_str env pk = None)"
  using assms
  by (auto simp: probe_Panic_iff)
     (auto simp: probe_def Let_def remove_insert_fresh split: option.splits outcome.splits if_splits)

theorem probe_failure_witness:
  "map_of [([1], probe_payment_info [1])] (sha256 probe_demo_env [7]) = None \<and>
   snd (probe probe_demo_env [7] (hex_str (replicate 33 2)) ''x'' ''g'' [([1], probe_payment_info [1])]) =
     [([1], probe_payment_info [1])]"
proof -
  have h: "map_of [([1], probe_payment_info [1])] (sha256 probe_demo_env [7]) = None"
    by (simp add: probe_demo_env_def)
  have "fst (probe probe_demo_env [7] (hex_str (replicate 33 2)) ''x'' ''g''
      [([1], probe_payment_info [1])]) \<noteq> Ok ()"
    by (auto simp: probe_def probe_demo_env_def parse_u64_def parse_unsigned_def char_digit_def
        split: option.splits)
  with h probe_failure [OF h, of "hex_str (replicate 33 2)" "''x''" "''g''"]
  show ?thesis by blast
qed

end
