(* ===== verification/Events.thy ===== *)
theory Events
  imports Node_Types
begin

text \<open>
  \<open>handle_ldk_events\<close> of \<open>src/src/main.rs\<close>: what the node does with each event of the Lightning
  library. The handler reads and writes three payment tables and the \<open>attempt\<close> table; what it asks
  other components to do (claim funds, broadcast a transaction, forward HTLCs later, hand a funding
  transaction back) is the list of effects it returns. Console and log output is left out. The answers
  of \<open>bitcoind\<close>, of the key manager and of transaction decoding are parameters.
\<close>

section \<open>Events, effects and state\<close>

datatype PaymentPurpose = InvoicePayment "bytes option" bytes | SpontaneousPayment bytes

datatype 'o event =
    FundingGenerationReady bytes bytes u64 bytes
  | PaymentReceived bytes PaymentPurpose u64
  | PaymentClaimed bytes PaymentPurpose u64
  | PaymentSent bytes bytes "u64 option"
  | OpenChannelRequest
  | PaymentPathSuccessful
  | PaymentPathFailed "RouteHop list" "u16 option"
  | PaymentFailed bytes
  | PaymentForwarded "u64 option" bool
  | PendingHTLCsForwardable u64
  | SpendableOutputs "'o list"
  | ChannelClosed bytes
  | DiscardFunding

datatype 'tx effect =
    FundingTransactionGenerated bytes bytes 'tx
  | ClaimFunds bytes
  | ForwardHTLCsAfter u64 u64
  | BroadcastTransaction 'tx

record ('o, 'tx) ldk_env =
  script_address :: "Network \<Rightarrow> bytes \<Rightarrow> string option"
  create_raw_transaction :: "string \<Rightarrow> u64 \<Rightarrow> string"
  fund_raw_transaction :: "string \<Rightarrow> string"
  sign_raw_transaction_with_wallet :: "string \<Rightarrow> string \<times> bool"
  tx_deserialize :: "bytes \<Rightarrow> 'tx option"
  new_address_script :: bytes
  normal_feerate :: u32
  spend_spendable_outputs :: "'o list \<Rightarrow> bytes \<Rightarrow> u32 \<Rightarrow> 'tx option"
  clock :: nat

record node_state =
  inbound_payments :: PaymentInfoStorage
  outbound_payments :: PaymentInfoStorage
  pending_payments :: PaymentInfoStorage
  attempt_table :: "Attempt list"

type_synonym 'tx handled = "(unit, node_state \<times> 'tx effect list) outcome"

section \<open>Handlers\<close>

definition on_funding_generation_ready ::
  "('o, 'tx) ldk_env \<Rightarrow> Network \<Rightarrow> bytes \<Rightarrow> bytes \<Rightarrow> u64 \<Rightarrow> bytes \<Rightarrow> node_state \<Rightarrow> 'tx handled" where
  "on_funding_generation_ready env network temporary_channel_id counterparty_node_id
     channel_value_satoshis output_script s =
     (case script_address env network output_script of
        None \<Rightarrow> Panic
      | Some addr \<Rightarrow>
          (let raw_tx = create_raw_transaction env addr channel_value_satoshis;
               funded_tx = fund_raw_transaction env raw_tx;
               signed_tx = sign_raw_transaction_with_wallet env funded_tx in
           if \<not> snd signed_tx then Panic
           else case to_vec (fst signed_tx) of
                  None \<Rightarrow> Panic
                | Some raw \<Rightarrow>
                    (case tx_deserialize env raw of
                       None \<Rightarrow> Panic
                     | Some final_tx \<Rightarrow>
                         Ok (s, [FundingTransactionGenerated temporary_channel_id
                                   counterparty_node_id final_tx]))))"

definition on_payment_received :: "PaymentPurpose \<Rightarrow> node_state \<Rightarrow> 'tx handled" where
  "on_payment_received purpose s =
     (let payment_preimage =
            (case purpose of InvoicePayment p _ \<Rightarrow> p | SpontaneousPayment p \<Rightarrow> Some p) in
      case payment_preimage of None \<Rightarrow> Panic | Some p \<Rightarrow> Ok (s, [ClaimFunds p]))"

definition claimed_info :: "PaymentPurpose \<Rightarrow> bytes option \<times> bytes option" where
  "claimed_info purpose =
     (case purpose of
        InvoicePayment payment_preimage payment_secret \<Rightarrow> (payment_preimage, Some payment_secret)
      | SpontaneousPayment p \<Rightarrow> (Some p, None))"

definition on_payment_claimed :: "bytes \<Rightarrow> PaymentPurpose \<Rightarrow> u64 \<Rightarrow> node_state \<Rightarrow> 'tx handled" where
  "on_payment_claimed payment_hash purpose amount_msat s =
     (let (payment_preimage, payment_secret) = claimed_info purpose;
          payments = inbound_payments s;
          entry = (case map_of payments payment_hash of
                     Some payment \<Rightarrow>
                       payment\<lparr>status := Succeeded, preimage := payment_preimage,
                               secret := payment_secret\<rparr>
                   | None \<Rightarrow>
                       \<lparr>preimage = payment_preimage, secret = payment_secret, status = Succeeded,
                        amt_msat = Some amount_msat\<rparr>) in
      Ok (s\<lparr>inbound_payments := hm_insert payment_hash entry payments\<rparr>, []))"

definition on_payment_sent :: "bytes \<Rightarrow> bytes \<Rightarrow> node_state \<Rightarrow> 'tx handled" where
  "on_payment_sent payment_preimage payment_hash s =
     Ok (s\<lparr>outbound_payments :=
           map (\<lambda>(hash, payment).
                  (hash, if hash = payment_hash
                         then payment\<lparr>preimage := Some payment_preimage, status := Succeeded\<rparr>
                         else payment))
               (outbound_payments s)\<rparr>, [])"

text \<open>The error codes a probe is answered with, and the names the table records.\<close>

definition classify_error_code :: "u16 \<Rightarrow> string" where
  "classify_error_code error_code =
     (if error_code = 0x400f then ''incorrect_or_unknown_payment_details''
      else if error_code = 0x100c then ''fee_insufficient''
      else if error_code = 0xc005 then ''invalid_onion_hmac''
      else if error_code = 0x100d then ''incorrect_cltv_expiry''
      else if error_code = 0x100b then ''amount_below_minimum''
      else if error_code = 0x400a then ''unknown_next_peer''
      else ''unknown'')"

definition on_payment_path_failed ::
  "nat \<Rightarrow> RouteHop list \<Rightarrow> u16 option \<Rightarrow> node_state \<Rightarrow> 'tx handled" where
  "on_payment_path_failed now path error_code s =
     (if path = [] then Panic
      else let last_hop = last path; rest = butlast path in
        if length rest < 1 then Ok (s, [])
        else case error_code of
               None \<Rightarrow> Ok (s, [])
             | Some code \<Rightarrow>
                 (let attempt =
                        \<lparr>target_pubkey = pubkey_to_string (pubkey (last rest)),
                         guess_pubkey = pubkey_to_string (pubkey last_hop),
                         channel_id = to_string (short_channel_id last_hop),
                         result = classify_error_code code,
                         date_found = now\<rparr> in
                  Ok (s\<lparr>attempt_table := attempt_table s @ [attempt]\<rparr>, [])))"

definition on_payment_failed :: "bytes \<Rightarrow> node_state \<Rightarrow> 'tx handled" where
  "on_payment_failed payment_hash s =
     (if hm_contains payment_hash (pending_payments s)
      then Ok (s\<lparr>pending_payments := hm_remove payment_hash (pending_payments s)\<rparr>, [])
      else Ok (s, []))"

text \<open>\<open>gen_range(min, min * 5)\<close> panics unless its bounds are in order.\<close>

definition on_pending_htlcs_forwardable :: "u64 \<Rightarrow> node_state \<Rightarrow> 'tx handled" where
  "on_pending_htlcs_forwardable min_ms s =
     (if min_ms < min_ms * 5 then Ok (s, [ForwardHTLCsAfter min_ms (min_ms * 5)]) else Panic)"

definition on_spendable_outputs :: "('o, 'tx) ldk_env \<Rightarrow> 'o list \<Rightarrow> node_state \<Rightarrow> 'tx handled" where
  "on_spendable_outputs env outputs s =
     (case spend_spendable_outputs env outputs (new_address_script env) (normal_feerate env) of
        None \<Rightarrow> Panic
      | Some spending_tx \<Rightarrow> Ok (s, [BroadcastTransaction spending_tx]))"

fun handle_ldk_events ::
  "('o, 'tx) ldk_env \<Rightarrow> Network \<Rightarrow> 'o event \<Rightarrow> node_state \<Rightarrow> 'tx handled" where
  "handle_ldk_events env network (FundingGenerationReady tmp cp sats script) s =
     on_funding_generation_ready env network tmp cp sats script s"
| "handle_ldk_events env network (PaymentReceived hash purpose amt) s = on_payment_received purpose s"
| "handle_ldk_events env network (PaymentClaimed hash purpose amt) s =
     on_payment_claimed hash purpose amt s"
| "handle_ldk_events env network (PaymentSent pre hash fee) s = on_payment_sent pre hash s"
| "handle_ldk_events env network OpenChannelRequest s = Ok (s, [])"
| "handle_ldk_events env network PaymentPathSuccessful s = Ok (s, [])"
| "handle_ldk_events env network (PaymentPathFailed path code) s =
     on_payment_path_failed (clock env) path code s"
| "handle_ldk_events env network (PaymentFailed hash) s = on_payment_failed hash s"
| "handle_ldk_events env network (PaymentForwarded fee onchain) s = Ok (s, [])"
| "handle_ldk_events env network (PendingHTLCsForwardable t) s = on_pending_htlcs_forwardable t s"
| "handle_ldk_events env network (SpendableOutputs outs) s = on_spendable_outputs env outs s"
| "handle_ldk_events env network (ChannelClosed chan) s = Ok (s, [])"
| "handle_ldk_events env network DiscardFunding s = Ok (s, [])"

section \<open>Lemmas\<close>

lemmas handler_defs =
  on_funding_generation_ready_def on_payment_received_def on_payment_claimed_def
  on_payment_sent_def on_payment_path_failed_def on_payment_failed_def
  on_pending_htlcs_forwardable_def on_spendable_outputs_def

definition tables_ok :: "node_state \<Rightarrow> bool" where
  "tables_ok s \<longleftrightarrow> distinct (map fst (inbound_payments s)) \<and>
     distinct (map fst (outbound_payments s)) \<and> distinct (map fst (pending_payments s))"

lemma handle_tables_ok:
  assumes "handle_ldk_events env n e s = Ok (s', effs)" and "tables_ok s"
  shows "tables_ok s'"
proof (cases e)
  case (PaymentSent p h f)
  have "map fst (map (\<lambda>(hash, payment). (hash, g hash payment)) xs) = map fst xs" for g xs
    by (induction xs) auto
  with assms PaymentSent show ?thesis
    by (auto simp: on_payment_sent_def tables_ok_def comp_def case_prod_unfold)
qed (use assms in \<open>auto simp: handler_defs tables_ok_def Let_def split: option.splits if_splits
      prod.splits PaymentPurpose.splits\<close>)

lemma handle_frame_pending:
  "handle_ldk_events env n e s = Ok (s', effs) \<Longrightarrow>
   pending_payments s' =
     (case e of PaymentFailed h \<Rightarrow> hm_remove h (pending_payments s) | _ \<Rightarrow> pending_payments s)"
proof (cases e)
  case (PaymentFailed h)
  have "map_of m h = None \<Longrightarrow> hm_remove h m = m" for m :: PaymentInfoStorage
    by (auto simp: hm_remove_def filter_id_conv map_of_eq_None_iff image_iff)
  then show "handle_ldk_events env n e s = Ok (s', effs) \<Longrightarrow> ?thesis"
    using PaymentFailed
    by (auto simp: on_payment_failed_def hm_contains_def split: if_splits)
qed (auto simp: handler_defs Let_def split: option.splits if_splits prod.splits
      PaymentPurpose.splits)

lemma classify_unknown_iff:
  "classify_error_code code = ''unknown'' \<longleftrightarrow>
   code \<notin> {0x400f, 0x100c, 0xc005, 0x100d, 0x100b, 0x400a}"
  by (simp add: classify_error_code_def)

section \<open>Properties\<close>

text \<open>
  The answer to a probe becomes one row: for a failed path of at least two hops with an error
  code, the target recorded is the node before last, the guess is the last node, the channel is the
  last hop's, and the name of the code is recorded; a shorter path or a missing code records nothing,
  and an empty path panics. Nothing else of the node's state changes.
\<close>

theorem path_failed_records_attempt:
  "handle_ldk_events env n (PaymentPathFailed (hops @ [target, guess]) (Some code)) s =
     Ok (s\<lparr>attempt_table := attempt_table s @
           [\<lparr>target_pubkey = hex_str (pubkey target), guess_pubkey = hex_str (pubkey guess),
             channel_id = to_string (short_channel_id guess), result = classify_error_code code,
             date_found = clock env\<rparr>]\<rparr>, []) \<and>
   handle_ldk_events env n (PaymentPathFailed [guess] (Some code)) s = Ok (s, []) \<and>
   handle_ldk_events env n (PaymentPathFailed (hops @ [guess]) None) s = Ok (s, []) \<and>
   handle_ldk_events env n (PaymentPathFailed [] c) s = Panic"
  by (simp add: on_payment_path_failed_def butlast_append)

text \<open>
  The seven names the table can hold are told apart: two codes get the same name exactly when
  they are equal or neither is one of the six codes the prober knows.
\<close>

theorem classify_distinguishes:
  "classify_error_code a = classify_error_code b \<longleftrightarrow>
   a = b \<or> (a \<notin> {0x400f, 0x100c, 0xc005, 0x100d, 0x100b, 0x400a} \<and>
            b \<notin> {0x400f, 0x100c, 0xc005, 0x100d, 0x100b, 0x400a})"
proof (cases "a \<in> {0x400f, 0x100c, 0xc005, 0x100d, 0x100b, 0x400a}")
  case True
  then show ?thesis by (elim insertE) (auto simp: classify_error_code_def)
next
  case False
  then show ?thesis by (auto simp: classify_error_code_def)
qed

text \<open>
  Each event touches only its own table. The pending table changes on \<open>PaymentFailed\<close> only, and
  loses exactly that payment; the attempt table only ever grows, by one row, on a failed path; keys
  stay unique in every table.
\<close>

theorem handler_frames:
  assumes "handle_ldk_events env n e s = Ok (s', effs)" and "tables_ok s"
  shows "tables_ok s' \<and>
    map_of (pending_payments s') =
      (case e of PaymentFailed h \<Rightarrow> (map_of (pending_payments s))(h := None)
               | _ \<Rightarrow> map_of (pending_payments s)) \<and>
    (\<exists>rows. attempt_table s' = attempt_table s @ rows \<and> length rows \<le> 1) \<and>
    ((\<nexists>h p a. e = PaymentClaimed h p a) \<longrightarrow> inbound_payments s' = inbound_payments s) \<and>
    ((\<nexists>p h f. e = PaymentSent p h f) \<longrightarrow> outbound_payments s' = outbound_payments s)"
proof -
  have rows: "\<exists>rows. attempt_table s' = attempt_table s @ rows \<and> length rows \<le> 1"
    using assms(1)
    by (cases e) (auto simp: handler_defs Let_def split: option.splits if_splits prod.splits
        PaymentPurpose.splits)
  have tabs: "((\<nexists>h p a. e = PaymentClaimed h p a) \<longrightarrow> inbound_payments s' = inbound_payments s) \<and>
    ((\<nexists>p h f. e = PaymentSent p h f) \<longrightarrow> outbound_payments s' = outbound_payments s)"
    using assms(1)
    by (cases e) (auto simp: handler_defs Let_def split: option.splits if_splits prod.splits
        PaymentPurpose.splits)
  have "map_of (pending_payments s') =
      (case e of PaymentFailed h \<Rightarrow> (map_of (pending_payments s))(h := None)
               | _ \<Rightarrow> map_of (pending_payments s))"
    using handle_frame_pending [OF assms(1)] by (cases e) simp_all
  with rows tabs handle_tables_ok [OF assms] show ?thesis by blast
qed

definition demo_ldk_env :: "(unit, unit) ldk_env" where
  "demo_ldk_env = \<lparr>script_address = (\<lambda>n s. None), create_raw_transaction = (\<lambda>a v. []),
     fund_raw_transaction = (\<lambda>t. t), sign_raw_transaction_with_wallet = (\<lambda>t. (t, True)),
     tx_deserialize = (\<lambda>b. None), new_address_script = [], normal_feerate = 2000,
     spend_spendable_outputs = (\<lambda>outs a f. None), clock = 5\<rparr>"

definition demo_node_state :: node_state where
  "demo_node_state = \<lparr>inbound_payments = [], outbound_payments = [],
     pending_payments = [([7], \<lparr>preimage = Some [1], secret = None, status = Pending,
                               amt_msat = Some 10000\<rparr>)], attempt_table = []\<rparr>"

theorem handler_frames_witness:
  "tables_ok demo_node_state \<and>
   map_of (pending_payments (demo_node_state\<lparr>pending_payments := []\<rparr>)) =
     (map_of (pending_payments demo_node_state))([7] := None)"
proof -
  have run: "handle_ldk_events demo_ldk_env Testnet (PaymentFailed [7]) demo_node_state =
      Ok (demo_node_state\<lparr>pending_payments := []\<rparr>, [])"
    by (simp add: on_payment_failed_def demo_node_state_def hm_contains_def hm_remove_def)
  have ok: "tables_ok demo_node_state" by (simp add: tables_ok_def demo_node_state_def)
  show ?thesis using ok handler_frames [OF run ok] by simp
qed

text \<open>
  A claimed payment ends up in the inbound table as succeeded, with the preimage and secret of
  the event: an invoice entry keeps its amount, a payment seen for the first time gets the event's.
\<close>

theorem claimed_payment_recorded:
  "\<exists>s' info. handle_ldk_events env n (PaymentClaimed h purpose amt) s = Ok (s', []) \<and>
     map_of (inbound_payments s') = (map_of (inbound_payments s))(h \<mapsto> info) \<and>
     status info = Succeeded \<and> preimage info = fst (claimed_info purpose) \<and>
     secret info = snd (claimed_info purpose) \<and>
     amt_msat info = (case map_of (inbound_payments s) h of Some old \<Rightarrow> amt_msat old | None \<Rightarrow> Some amt)"
  by (auto simp: on_payment_claimed_def Let_def split: option.splits prod.splits)

end
