(* ===== verification/Attempts.thy ===== *)
theory Attempts
  imports Events Scid
begin

text \<open>
  The attempt table read back (\<open>src/src/cli.rs\<close>): \<open>get_attempts_found\<close>, \<open>get_attempts_str\<close> and the
  \<open>dump_results\<close> command, which joins the recorded attempts with the candidate transactions by short
  channel id. A \<open>SELECT *\<close> over the table is the list of its rows in insertion order.
\<close>

section \<open>Reading the table\<close>

fun get_attempts_found :: "Attempt list \<Rightarrow> Attempt list" where
  "get_attempts_found [] = []"
| "get_attempts_found (attempt # rows) =
     (if result attempt = ''unknown'' \<or> result attempt = ''unknown_next_peer''
      then get_attempts_found rows
      else attempt # get_attempts_found rows)"

definition attempt_key :: "string \<Rightarrow> string \<Rightarrow> string" where
  "attempt_key target chan = target @ '':'' @ chan"

fun get_attempts_str_loop :: "(string \<times> string) list \<Rightarrow> Attempt list \<Rightarrow> (string \<times> string) list" where
  "get_attempts_str_loop attempts [] = attempts"
| "get_attempts_str_loop attempts (attempt # rows) =
     (if result attempt = ''unknown'' then get_attempts_str_loop attempts rows
      else get_attempts_str_loop
             (hm_insert (attempt_key (target_pubkey attempt) (channel_id attempt))
                        (result attempt) attempts) rows)"

definition get_attempts_str :: "Attempt list \<Rightarrow> (string \<times> string) list" where
  "get_attempts_str rows = get_attempts_str_loop [] rows"

section \<open>Dumping results\<close>

definition transaction_scid :: "Transaction \<Rightarrow> u64" where
  "transaction_scid tx = scid_from_parts (block_height tx) (block_index tx) (transaction_index tx)"

text \<open>The map from short channel ids to transactions; a later file or line replaces an earlier one.\<close>

fun index_transactions :: "(u64 \<rightharpoonup> Transaction) \<Rightarrow> Transaction list \<Rightarrow> (u64 \<rightharpoonup> Transaction)" where
  "index_transactions m [] = m"
| "index_transactions m (tx # txs) = index_transactions (m(transaction_scid tx \<mapsto> tx)) txs"

definition dump_result :: "(u64 \<rightharpoonup> Transaction) \<Rightarrow> Attempt \<Rightarrow> (unit, AttemptResult) outcome" where
  "dump_result txs attempt =
     (case parse_u64 (channel_id attempt) of
        None \<Rightarrow> Panic
      | Some scid \<Rightarrow>
          (let (output, amt) =
                 (case txs scid of
                    Some utxo \<Rightarrow> (tx_id utxo @ '':'' @ to_string (vout_from_scid scid), amount utxo)
                  | None \<Rightarrow> ([], 0)) in
           Ok \<lparr>res_target_pubkey = target_pubkey attempt,
               res_other_pubkey =
                 (if result attempt = ''incorrect_or_unknown_payment_details''
                  then guess_pubkey attempt else []),
               res_channel_id = channel_id attempt,
               res_transaction_id_output = output,
               res_amount = amt,
               res_block_open = block_from_scid scid,
               res_date_found = date_found attempt\<rparr>))"

fun dump_results_loop :: "(u64 \<rightharpoonup> Transaction) \<Rightarrow> Attempt list \<Rightarrow> (unit, AttemptResult list) outcome" where
  "dump_results_loop txs [] = Ok []"
| "dump_results_loop txs (a # as) =
     and_then (dump_result txs a) (\<lambda>r. map_ok (\<lambda>rs. r # rs) (dump_results_loop txs as))"

definition dump_results :: "Transaction list \<Rightarrow> Attempt list \<Rightarrow> (unit, AttemptResult list) outcome" where
  "dump_results files rows = dump_results_loop (index_transactions Map.empty files) (get_attempts_found rows)"

section \<open>Lemmas\<close>

lemma get_attempts_found_filter:
  "get_attempts_found rows =
     filter (\<lambda>a. result a \<noteq> ''unknown'' \<and> result a \<noteq> ''unknown_next_peer'') rows"
  by (induction rows) auto

lemma attempt_key_inj:
  assumes "CHR '':'' \<notin> set c" and "CHR '':'' \<notin> set c'"
  shows "attempt_key t c = attempt_key t' c' \<longleftrightarrow> t = t' \<and> c = c'"
proof
  assume "attempt_key t c = attempt_key t' c'"
  then have "rsplit2 CHR '':'' (t @ CHR '':'' # c) = rsplit2 CHR '':'' (t' @ CHR '':'' # c')"
    by (simp add: attempt_key_def)
  with assms show "t = t' \<and> c = c'" by (simp add: rsplit2_append_sep)
qed simp

lemma to_string_no_colon [simp]: "CHR '':'' \<notin> set (to_string w)"
  by (simp add: to_string_def show_nat_no_char)

lemma map_of_get_attempts_str_loop:
  "map_of (get_attempts_str_loop m rows) k \<noteq> None \<longleftrightarrow>
   map_of m k \<noteq> None \<or>
   (\<exists>a \<in> set rows. result a \<noteq> ''unknown'' \<and> k = attempt_key (target_pubkey a) (channel_id a))"
  by (induction m rows rule: get_attempts_str_loop.induct) auto

lemma get_attempts_str_contains:
  "hm_contains k (get_attempts_str rows) \<longleftrightarrow>
   (\<exists>a \<in> set rows. result a \<noteq> ''unknown'' \<and> k = attempt_key (target_pubkey a) (channel_id a))"
  using map_of_get_attempts_str_loop [of "[]" rows k]
  by (simp add: hm_contains_def get_attempts_str_def)

lemma index_transactions_snoc:
  "index_transactions m (txs @ [tx]) = (index_transactions m txs)(transaction_scid tx \<mapsto> tx)"
  by (induction txs arbitrary: m) simp_all

lemma index_transactions_lookup:
  "index_transactions Map.empty txs scid = find (\<lambda>tx. transaction_scid tx = scid) (rev txs)"
  by (induction txs rule: rev_induct) (simp_all add: index_transactions_snoc)

lemma find_unique:
  assumes "x \<in> set xs" "P x" and unique: "\<And>y. y \<in> set xs \<Longrightarrow> P y \<Longrightarrow> y = x"
  shows "find P xs = Some x"
proof (cases "find P xs")
  case None
  with assms(1,2) show ?thesis by (simp add: find_None_iff)
next
  case (Some y)
  then have "y \<in> set xs" "P y" by (auto simp: find_Some_iff)
  with unique have "y = x" by blast
  with Some show ?thesis by simp
qed

lemma dump_results_loop_Ok:
  assumes "\<forall>a \<in> set as. parse_u64 (channel_id a) \<noteq> None"
  shows "\<exists>rs. dump_results_loop txs as = Ok rs \<and> length rs = length as \<and>
    (\<forall>i < length as. dump_result txs (as ! i) = Ok (rs ! i))"
  using assms
proof (induction as)
  case (Cons a as)
  then obtain rs where rs: "dump_results_loop txs as = Ok rs" "length rs = length as"
    "\<forall>i < length as. dump_result txs (as ! i) = Ok (rs ! i)" by auto
  from Cons.prems obtain r where r: "dump_result txs a = Ok r"
    by (auto simp: dump_result_def Let_def case_prod_unfold)
  have "\<forall>i < length (a # as). dump_result txs ((a # as) ! i) = Ok ((r # rs) ! i)"
    using r rs(3) by (auto simp: nth_Cons split: nat.splits)
  with r rs show ?case by simp
qed simp

section \<open>Properties\<close>

text \<open>
  The keys \<open>target:channel\<close> that mark a pair as done are in one-to-one correspondence with pairs
  of a target and a channel number, and a pair is marked exactly when some row for it has a result
  other than \<open>unknown\<close>.
\<close>

theorem attempted_iff_recorded:
  assumes "\<forall>a \<in> set rows. \<exists>c :: u64. channel_id a = to_string c"
  shows "hm_contains (attempt_key target (to_string (c :: u64))) (get_attempts_str rows) \<longleftrightarrow>
    (\<exists>a \<in> set rows. target_pubkey a = target \<and> channel_id a = to_string c \<and> result a \<noteq> ''unknown'')"
proof -
  have "attempt_key target (to_string c) = attempt_key (target_pubkey a) (channel_id a) \<longleftrightarrow>
      target_pubkey a = target \<and> channel_id a = to_string c" if "a \<in> set rows" for a
    using assms that by (auto simp: attempt_key_inj)
  then show ?thesis by (auto simp: get_attempts_str_contains)
qed

definition demo_row :: "string \<Rightarrow> u64 \<Rightarrow> Attempt" where
  "demo_row res c = \<lparr>target_pubkey = ''02ab'', guess_pubkey = ''03cd'', channel_id = to_string c,
     result = res, date_found = 0\<rparr>"

theorem attempted_iff_recorded_witness:
  "\<not> hm_contains (attempt_key ''02ab'' (to_string (9 :: u64)))
       (get_attempts_str [demo_row ''unknown_next_peer'' 7, demo_row ''unknown'' 9])"
proof -
  have h: "\<forall>a \<in> set [demo_row ''unknown_next_peer'' 7, demo_row ''unknown'' 9].
      \<exists>c :: u64. channel_id a = to_string c" by (auto simp: demo_row_def)
  show ?thesis
    using attempted_iff_recorded [OF h, of "''02ab''" 9] by (auto simp: demo_row_def)
qed

text \<open>
  Once a probe of a target's channel has been answered with a code the prober knows, the pair is
  marked as attempted, and stays marked whatever events follow; an answer with another code does not
  mark it.
\<close>

theorem answered_probe_is_marked:
  assumes "handle_ldk_events env n (PaymentPathFailed (hops @ [target, guess]) (Some code)) s = Ok (s', effs)"
  shows "(classify_error_code code \<noteq> ''unknown'' \<longrightarrow>
      hm_contains (attempt_key (hex_str (pubkey target)) (to_string (short_channel_id guess)))
        (get_attempts_str (attempt_table s' @ later))) \<and>
    (classify_error_code code = ''unknown'' \<longrightarrow>
      get_attempts_str (attempt_table s') = get_attempts_str (attempt_table s))"
proof -
  let ?row = "\<lparr>target_pubkey = hex_str (pubkey target), guess_pubkey = hex_str (pubkey guess),
      channel_id = to_string (short_channel_id guess), result = classify_error_code code,
      date_found = clock env\<rparr>"
  have s': "attempt_table s' = attempt_table s @ [?row]"
    using assms by (auto simp: on_payment_path_failed_def butlast_append)
  have "get_attempts_str_loop m (rows @ [?row]) = get_attempts_str_loop m rows"
    if "classify_error_code code = ''unknown''" for m rows
    using that by (induction m rows rule: get_attempts_str_loop.induct) auto
  then have same: "get_attempts_str (attempt_table s') = get_attempts_str (attempt_table s)"
    if "classify_error_code code = ''unknown''"
    using that by (simp add: get_attempts_str_def s')
  show ?thesis
    by (auto simp: same) (auto simp: get_attempts_str_contains s')
qed

definition demo_hop :: "bytes \<Rightarrow> u64 \<Rightarrow> RouteHop" where
  "demo_hop pk c = \<lparr>pubkey = pk, supports_variable_length_onion = True, short_channel_id = c,
     fee_msat = 1000, cltv_expiry_delta = 40\<rparr>"

theorem answered_probe_is_marked_witness:
  "\<exists>s'. handle_ldk_events demo_ldk_env Testnet
      (PaymentPathFailed ([] @ [demo_hop [2] 1, demo_hop [3] 42]) (Some 0x400a)) demo_node_state = Ok (s', []) \<and>
    hm_contains (attempt_key (hex_str [2]) (to_string (42 :: u64))) (get_attempts_str (attempt_table s' @ []))"
proof -
  have "\<exists>s'. handle_ldk_events demo_ldk_env Testnet
      (PaymentPathFailed ([] @ [demo_hop [2] 1, demo_hop [3] 42]) (Some 0x400a)) demo_node_state = Ok (s', [])"
    by (simp add: on_payment_path_failed_def Let_def)
  then obtain s' where run: "handle_ldk_events demo_ldk_env Testnet
      (PaymentPathFailed ([] @ [demo_hop [2] 1, demo_hop [3] 42]) (Some 0x400a)) demo_node_state = Ok (s', [])"
    by blast
  have "classify_error_code 0x400a \<noteq> ''unknown''" by (simp add: classify_error_code_def)
  then show ?thesis
    using run answered_probe_is_marked [OF run, of "[]"] by (auto simp: demo_hop_def)
qed

text \<open>
  Dumping the results of a table whose channels are printed numbers never panics and gives one
  result per row that is neither \<open>unknown\<close> nor \<open>unknown_next_peer\<close>, in the table's order.
\<close>

theorem dump_results_complete:
  assumes "\<forall>a \<in> set rows. \<exists>c :: u64. channel_id a = to_string c"
  shows "\<exists>rs. dump_results txs rows = Ok rs \<and>
    map res_channel_id rs = map channel_id (get_attempts_found rows) \<and>
    map res_target_pubkey rs = map target_pubkey (get_attempts_found rows)"
proof -
  have "\<forall>a \<in> set (get_attempts_found rows). parse_u64 (channel_id a) \<noteq> None"
    using assms by (auto simp: get_attempts_found_filter)
  then obtain rs where rs: "dump_results txs rows = Ok rs"
    "length rs = length (get_attempts_found rows)"
    "\<forall>i < length (get_attempts_found rows).
      dump_result (index_transactions Map.empty txs) (get_attempts_found rows ! i) = Ok (rs ! i)"
    using dump_results_loop_Ok by (metis dump_results_def)
  have "res_channel_id r = channel_id a \<and> res_target_pubkey r = target_pubkey a"
    if "dump_result m a = Ok r" for m a r
    using that by (auto simp: dump_result_def split: option.splits prod.splits)
  with rs show ?thesis by (auto intro!: nth_equalityI)
qed

theorem dump_results_complete_witness:
  "\<exists>rs. dump_results [] [demo_row ''fee_insufficient'' 7, demo_row ''unknown'' 9] = Ok rs \<and>
    map res_channel_id rs = [to_string (7 :: u64)]"
proof -
  have h: "\<forall>a \<in> set [demo_row ''fee_insufficient'' 7, demo_row ''unknown'' 9].
      \<exists>c :: u64. channel_id a = to_string c" by (auto simp: demo_row_def)
  show ?thesis using dump_results_complete [OF h, of "[]"] by (auto simp: demo_row_def)
qed

text \<open>
  The result of a row whose channel is the short channel id of exactly one candidate transaction
  with fitting parts carries that transaction's id and output index, its amount and its block height.
\<close>

theorem dump_result_names_output:
  assumes "scid_parts_ok (block_height tx) (block_index tx) (transaction_index tx)"
    and "tx \<in> set txs" and "\<forall>tx' \<in> set txs. transaction_scid tx' = transaction_scid tx \<longrightarrow> tx' = tx"
    and "channel_id a = to_string (transaction_scid tx)"
  shows "\<exists>r. dump_result (index_transactions Map.empty txs) a = Ok r \<and>
    (\<exists>v :: u16. ucast v = transaction_index tx \<and> res_transaction_id_output r = tx_id tx @ '':'' @ to_string v) \<and>
    res_amount r = amount tx \<and> ucast (res_block_open r) = block_height tx"
proof -
  have "find (\<lambda>t. transaction_scid t = transaction_scid tx) (rev txs) = Some tx"
    using assms(2,3) by (intro find_unique) auto
  then have look: "index_transactions Map.empty txs (transaction_scid tx) = Some tx"
    by (simp add: index_transactions_lookup)
  have f: "ucast (vout_from_scid (transaction_scid tx)) = transaction_index tx"
    "ucast (block_from_scid (transaction_scid tx)) = block_height tx"
    using scid_vout_block [OF assms(1)] by (simp_all add: transaction_scid_def)
  show ?thesis
    using look f by (auto simp: dump_result_def assms(4))
qed

definition demo_tx :: "u64 \<Rightarrow> u64 \<Rightarrow> Transaction" where
  "demo_tx idx amt = \<lparr>block_height = 684110, tx_id = ''d176'', block_index = idx, transaction_index = 1,
     amount = amt\<rparr>"

theorem dump_result_names_output_witness:
  "\<exists>r. dump_result (index_transactions Map.empty [demo_tx 7 500000])
      (demo_row ''fee_insufficient'' (transaction_scid (demo_tx 7 500000))) = Ok r \<and> res_amount r = 500000"
proof -
  have ok: "scid_parts_ok (block_height (demo_tx 7 500000)) (block_index (demo_tx 7 500000))
      (transaction_index (demo_tx 7 500000))"
    by (simp add: demo_tx_def scid_parts_ok_def scid_max_defs)
  have "channel_id (demo_row ''fee_insufficient'' (transaction_scid (demo_tx 7 500000))) =
      to_string (transaction_scid (demo_tx 7 500000))" by (simp add: demo_row_def)
  with dump_result_names_output [OF ok, of "[demo_tx 7 500000]"] show ?thesis
    by (auto simp: demo_tx_def)
qed

end
