(* ===== verification/Prober.thy ===== *)
theory Prober
  imports Probe Attempts "HOL-Library.Multiset"
begin

text \<open>
  The \<open>probeall\<close> command of \<open>src/src/cli.rs\<close>: loading nodes and candidate transactions, choosing what
  to probe, and the probing loop, which runs beside the event handler and the interrupt handler. The
  loop is a machine with an explicit program point; a run is a list of actions, so every interleaving
  of the prober's thread with events and interrupts is a run.
\<close>

section \<open>Loading\<close>

text \<open>
  Reading a file gives its text or an I/O error. The error branches print \<open>e.into_inner().unwrap()\<close>,
  which panics unless the error carries an inner error, as errors of the operating system do not.
\<close>

datatype file_read = FileText string | ReadFailed "string option"

definition print_inner_error :: "string option \<Rightarrow> 'a \<Rightarrow> (unit, 'a) outcome" where
  "print_inner_error inner a = (case inner of None \<Rightarrow> Panic | Some e \<Rightarrow> Ok a)"

text \<open>The transaction files of a directory: unreadable or malformed ones are skipped.\<close>

fun load_transactions ::
  "(string \<Rightarrow> Transaction list option) \<Rightarrow> Transaction list \<Rightarrow> file_read list \<Rightarrow>
   (unit, Transaction list) outcome" where
  "load_transactions from_json txs [] = Ok txs"
| "load_transactions from_json txs (f # fs) =
     (case f of
        ReadFailed e \<Rightarrow> and_then (print_inner_error e ()) (\<lambda>_. load_transactions from_json txs fs)
      | FileText tx_data \<Rightarrow>
          (case from_json tx_data of
             None \<Rightarrow> load_transactions from_json txs fs
           | Some new_txs \<Rightarrow> load_transactions from_json (txs @ new_txs) fs))"

text \<open>\<open>None\<close> is the early \<open>continue\<close> back to the prompt.\<close>

definition load_nodes ::
  "(string \<Rightarrow> string list option) \<Rightarrow> bytes list \<Rightarrow> string \<Rightarrow> file_read \<Rightarrow>
   (unit, string list option) outcome" where
  "load_nodes nodes_from_json graph_nodes nodepath node_file =
     (if nodepath = ''all'' then Ok (Some (map hex_str graph_nodes))
      else case node_file of
             ReadFailed e \<Rightarrow> print_inner_error e None
           | FileText node_data \<Rightarrow> Ok (nodes_from_json node_data))"

text \<open>\<open>sort_by\<close> with the reversed comparison of heights: a stable sort, highest block first.\<close>

definition sort_recent_first :: "Transaction list \<Rightarrow> Transaction list" where
  "sort_recent_first txs = sort_key (\<lambda>tx. 2 ^ 64 - 1 - unat (block_height tx)) txs"

section \<open>Choosing what to probe\<close>

record probe_config =
  probetype :: string
  public_channels :: "u64 list"
  set_of_attempts :: "(string \<times> string) list"
  candidates :: "Transaction list"

definition pubkey_guess :: string where
  "pubkey_guess = ''03b2c32c46e0b4b720c4f45f02a0cc4c5475df7ce4d5b1ab563961b1681c6917d6''"

datatype tx_decision = Skip_Assumptions | Skip_Public | Skip_Attempted | Do_Probe u64

definition decide_tx :: "probe_config \<Rightarrow> string \<Rightarrow> Transaction \<Rightarrow> tx_decision" where
  "decide_tx cfg node tx =
     (if probetype cfg = ''assumptions'' \<and> (amount tx mod 10000 \<noteq> 0 \<or> transaction_index tx > 1)
      then Skip_Assumptions
      else let scid = scid_from_parts (block_height tx) (block_index tx) (transaction_index tx) in
        if scid \<in> set (public_channels cfg) then Skip_Public
        else if hm_contains (attempt_key node (to_string scid)) (set_of_attempts cfg)
             then Skip_Attempted
        else Do_Probe scid)"

record probeall_inputs =
  in_probetype :: "string option"
  in_nodepath :: "string option"
  in_txpath :: "string option"
  in_graph_nodes :: "bytes list"
  in_graph_channels :: "u64 list"
  in_node_file :: file_read
  in_tx_dir :: "string option + file_read list"
  in_rows :: "Attempt list"

definition probeall_prepare ::
  "(string \<Rightarrow> string list option) \<Rightarrow> (string \<Rightarrow> Transaction list option) \<Rightarrow> probeall_inputs \<Rightarrow>
   (unit, (probe_config \<times> string list) option) outcome" where
  "probeall_prepare nodes_from_json txs_from_json inp =
     (case (in_probetype inp, in_nodepath inp, in_txpath inp) of
        (Some ptype, Some nodepath, Some txpath) \<Rightarrow>
          and_then (load_nodes nodes_from_json (in_graph_nodes inp) nodepath (in_node_file inp))
            (\<lambda>nodes.
               case nodes of
                 None \<Rightarrow> Ok None
               | Some ns \<Rightarrow>
                   (case in_tx_dir inp of
                      Inl e \<Rightarrow> print_inner_error e None
                    | Inr files \<Rightarrow>
                        and_then (load_transactions txs_from_json [] files)
                          (\<lambda>txs. Ok (Some (\<lparr>probetype = ptype,
                                            public_channels = in_graph_channels inp,
                                            set_of_attempts = get_attempts_str (in_rows inp),
                                            candidates = sort_recent_first txs\<rparr>, ns)))))
      | _ \<Rightarrow> Ok None)"

section \<open>The probing loop\<close>

text \<open>
  Program points: before the next node; before the next candidate of a node (the wait loop); inside
  the retry loop for one channel; done; or the process has ended (panic or second interrupt).
\<close>

datatype prober_pc =
    NodeStart "string list"
  | TxLoop string "Transaction list" "string list"
  | Probing string u64 "Transaction list" "string list"
  | Finished
  | Aborted

record prober_sys =
  pc :: prober_pc
  node :: node_state
  running :: nat
  probes :: "(string \<times> u64) list"

text \<open>
  One step of the prober's thread, with the environment as it is at that moment and the random bytes
  drawn. \<open>probes\<close> logs the probes that were sent; the program does not keep it.
\<close>

definition max_pending :: nat where "max_pending = 30"

fun prober_step :: "probe_config \<Rightarrow> probe_env \<Rightarrow> bytes \<Rightarrow> prober_sys \<Rightarrow> prober_sys" where
  "prober_step cfg env pre s =
     (case pc s of
        NodeStart [] \<Rightarrow> s\<lparr>pc := Finished\<rparr>
      | NodeStart (n # ns) \<Rightarrow>
          (case find_routes env n [] of
             Ok route \<Rightarrow> s\<lparr>pc := TxLoop n (candidates cfg) ns\<rparr>
           | _ \<Rightarrow> s\<lparr>pc := NodeStart ns\<rparr>)
      | TxLoop n [] ns \<Rightarrow> s\<lparr>pc := NodeStart ns\<rparr>
      | TxLoop n (tx # txs) ns \<Rightarrow>
          if running s > 0 then s\<lparr>pc := NodeStart ns\<rparr>
          else if length (pending_payments (node s)) > max_pending then s
          else (case decide_tx cfg n tx of
                  Do_Probe scid \<Rightarrow> s\<lparr>pc := Probing n scid txs ns\<rparr>
                | _ \<Rightarrow> s\<lparr>pc := TxLoop n txs ns\<rparr>)
      | Probing n scid txs ns \<Rightarrow>
          (case probe env pre n (to_string scid) pubkey_guess (pending_payments (node s)) of
             (Ok _, pend) \<Rightarrow>
               s\<lparr>pc := TxLoop n txs ns, node := (node s)\<lparr>pending_payments := pend\<rparr>,
                 probes := probes s @ [(n, scid)]\<rparr>
           | (Err _, pend) \<Rightarrow> s\<lparr>node := (node s)\<lparr>pending_payments := pend\<rparr>\<rparr>
           | (Panic, pend) \<Rightarrow> s\<lparr>pc := Aborted\<rparr>)
      | Finished \<Rightarrow> s
      | Aborted \<Rightarrow> s)"

text \<open>The interrupt handler: the first interrupt raises the counter, the second ends the process.\<close>

definition on_ctrlc :: "prober_sys \<Rightarrow> prober_sys" where
  "on_ctrlc s = (if running s = 0 then s\<lparr>running := 1\<rparr> else s\<lparr>running := Suc (running s), pc := Aborted\<rparr>)"

definition on_event :: "('o, 'tx) ldk_env \<Rightarrow> Network \<Rightarrow> 'o event \<Rightarrow> prober_sys \<Rightarrow> prober_sys" where
  "on_event env network e s =
     (case handle_ldk_events env network e (node s) of
        Ok (n', effs) \<Rightarrow> s\<lparr>node := n'\<rparr>
      | _ \<Rightarrow> s\<lparr>pc := Aborted\<rparr>)"

datatype ('o, 'tx) action =
    ThreadStep probe_env bytes
  | LdkEvent "('o, 'tx) ldk_env" Network "'o event"
  | CtrlC

fun sys_step :: "probe_config \<Rightarrow> prober_sys \<Rightarrow> ('o, 'tx) action \<Rightarrow> prober_sys" where
  "sys_step cfg s (ThreadStep env pre) = prober_step cfg env pre s"
| "sys_step cfg s (LdkEvent env network e) =
     (if pc s = Aborted then s else on_event env network e s)"
| "sys_step cfg s CtrlC = (if pc s = Aborted then s else on_ctrlc s)"

declare prober_step.simps [simp del]

abbreviation sys_run :: "probe_config \<Rightarrow> prober_sys \<Rightarrow> ('o, 'tx) action list \<Rightarrow> prober_sys" where
  "sys_run cfg s acts \<equiv> foldl (sys_step cfg) s acts"

definition prober_start :: "node_state \<Rightarrow> string list \<Rightarrow> prober_sys" where
  "prober_start n nodes = \<lparr>pc = NodeStart nodes, node = n, running = 0, probes = []\<rparr>"

text \<open>The states a run of the command can reach.\<close>

inductive prober_reachable :: "probe_config \<Rightarrow> prober_sys \<Rightarrow> prober_sys \<Rightarrow> bool" for cfg s0 where
  reach_start: "prober_reachable cfg s0 s0"
| reach_step: "prober_reachable cfg s0 s \<Longrightarrow> prober_reachable cfg s0 (sys_step cfg s (act :: (unit, unit) action))"

section \<open>What should be probed\<close>

fun wanted_probes :: "probe_config \<Rightarrow> string \<Rightarrow> Transaction list \<Rightarrow> (string \<times> u64) list" where
  "wanted_probes cfg n [] = []"
| "wanted_probes cfg n (tx # txs) =
     (case decide_tx cfg n tx of
        Do_Probe scid \<Rightarrow> (n, scid) # wanted_probes cfg n txs
      | _ \<Rightarrow> wanted_probes cfg n txs)"

definition plan :: "probe_config \<Rightarrow> string list \<Rightarrow> (string \<times> u64) list" where
  "plan cfg nodes = concat (map (\<lambda>n. wanted_probes cfg n (candidates cfg)) nodes)"

section \<open>Lemmas\<close>

lemma probe_Err_length:
  "probe env pre pk chan guess pend = (Err e, pend') \<Longrightarrow> length pend' \<le> length pend"
  using probe_Err_pending [of env pre pk chan guess pend e pend'] length_hm_remove [of _ pend]
  by (auto simp: hm_remove_insert)

lemma probe_Ok_length:
  "probe env pre pk chan guess pend = (Ok u, pend') \<Longrightarrow> length pend' \<le> Suc (length pend)"
  using probe_length [of env pre pk chan guess pend] by simp

definition allowed :: "probe_config \<Rightarrow> string \<Rightarrow> u64 \<Rightarrow> bool" where
  "allowed cfg n scid \<longleftrightarrow> (\<exists>tx \<in> set (candidates cfg). decide_tx cfg n tx = Do_Probe scid)"

text \<open>What holds of the program point and the pending table together in every reachable state.\<close>

fun pc_ok :: "probe_config \<Rightarrow> nat \<Rightarrow> prober_pc \<Rightarrow> bool" where
  "pc_ok cfg pending (TxLoop n txs ns) = (set txs \<subseteq> set (candidates cfg))"
| "pc_ok cfg pending (Probing n scid txs ns) =
     (set txs \<subseteq> set (candidates cfg) \<and> allowed cfg n scid \<and> pending \<le> max_pending)"
| "pc_ok cfg pending p = True"

definition prober_inv :: "probe_config \<Rightarrow> prober_sys \<Rightarrow> bool" where
  "prober_inv cfg s \<longleftrightarrow>
     length (pending_payments (node s)) \<le> Suc max_pending \<and>
     pc_ok cfg (length (pending_payments (node s))) (pc s) \<and>
     (\<forall>(n, scid) \<in> set (probes s). allowed cfg n scid)"

lemma pc_ok_mono: "pc_ok cfg n p \<Longrightarrow> m \<le> n \<Longrightarrow> pc_ok cfg m p"
  by (cases p) auto

lemma prober_step_NodeStart:
  assumes "pc s = NodeStart ns"
  shows "prober_step cfg env pre s = s\<lparr>pc := Finished\<rparr> \<or>
    (\<exists>n ns'. ns = n # ns' \<and> (prober_step cfg env pre s = s\<lparr>pc := NodeStart ns'\<rparr> \<or>
       prober_step cfg env pre s = s\<lparr>pc := TxLoop n (candidates cfg) ns'\<rparr>))"
  using assms by (auto simp: prober_step.simps split: list.splits outcome.splits)

lemma prober_step_Probing:
  assumes "pc s = Probing n scid txs ns"
  shows "(\<exists>pend. probe env pre n (to_string scid) pubkey_guess (pending_payments (node s)) = (Ok (), pend) \<and>
      prober_step cfg env pre s =
        s\<lparr>pc := TxLoop n txs ns, node := (node s)\<lparr>pending_payments := pend\<rparr>,
          probes := probes s @ [(n, scid)]\<rparr>) \<or>
    (\<exists>e pend. probe env pre n (to_string scid) pubkey_guess (pending_payments (node s)) = (Err e, pend) \<and>
      prober_step cfg env pre s = s\<lparr>node := (node s)\<lparr>pending_payments := pend\<rparr>\<rparr>) \<or>
    prober_step cfg env pre s = s\<lparr>pc := Aborted\<rparr>"
proof (cases "probe env pre n (to_string scid) pubkey_guess (pending_payments (node s))")
  case (Pair r pend)
  with assms show ?thesis by (cases r) (auto simp: prober_step.simps)
qed

lemma prober_step_TxLoop:
  assumes "pc s = TxLoop n txs ns"
  shows "prober_step cfg env pre s = s\<lparr>pc := NodeStart ns\<rparr> \<or> prober_step cfg env pre s = s \<or>
    (\<exists>tx txs'. txs = tx # txs' \<and> running s = 0 \<and> length (pending_payments (node s)) \<le> max_pending \<and>
      (prober_step cfg env pre s = s\<lparr>pc := TxLoop n txs' ns\<rparr> \<or>
       (\<exists>scid. decide_tx cfg n tx = Do_Probe scid \<and>
          prober_step cfg env pre s = s\<lparr>pc := Probing n scid txs' ns\<rparr>)))"
  using assms by (auto simp: prober_step.simps split: list.splits tx_decision.splits)

lemma prober_step_inv:
  assumes "prober_inv cfg s"
  shows "prober_inv cfg (prober_step cfg env pre s)"
proof (cases "pc s")
  case (NodeStart ns)
  then show ?thesis
    using assms prober_step_NodeStart [OF NodeStart, of cfg env pre] by (auto simp: prober_inv_def)
next
  case (TxLoop n txs ns)
  then show ?thesis
    using assms prober_step_TxLoop [OF TxLoop, of cfg env pre]
    by (auto simp: prober_inv_def allowed_def)
next
  case (Probing n scid txs ns)
  from assms Probing have pend: "length (pending_payments (node s)) \<le> max_pending"
    by (simp add: prober_inv_def)
  show ?thesis
    using prober_step_Probing [OF Probing, of env pre cfg]
  proof (elim disjE exE conjE)
    fix p assume r: "probe env pre n (to_string scid) pubkey_guess (pending_payments (node s)) = (Ok (), p)"
      and eq: "prober_step cfg env pre s =
        s\<lparr>pc := TxLoop n txs ns, node := (node s)\<lparr>pending_payments := p\<rparr>,
          probes := probes s @ [(n, scid)]\<rparr>"
    have "length p \<le> Suc max_pending" using probe_Ok_length [OF r] pend by simp
    with assms Probing show ?thesis by (auto simp: prober_inv_def eq)
  next
    fix e p assume r: "probe env pre n (to_string scid) pubkey_guess (pending_payments (node s)) = (Err e, p)"
      and eq: "prober_step cfg env pre s = s\<lparr>node := (node s)\<lparr>pending_payments := p\<rparr>\<rparr>"
    have "length p \<le> max_pending" using probe_Err_length [OF r] pend by simp
    with assms Probing show ?thesis by (auto simp: prober_inv_def eq)
  next
    assume "prober_step cfg env pre s = s\<lparr>pc := Aborted\<rparr>"
    with assms show ?thesis by (auto simp: prober_inv_def)
  qed
qed (use assms in \<open>auto simp: prober_step.simps\<close>)

lemma handle_pending_shrinks:
  assumes "handle_ldk_events env n e s = Ok (s', effs)"
  shows "length (pending_payments s') \<le> length (pending_payments s)"
  using handle_frame_pending [OF assms] length_hm_remove [of _ "pending_payments s"]
  by (auto split: event.splits)

lemma on_event_inv:
  assumes "prober_inv cfg s"
  shows "prober_inv cfg (on_event env n e s)"
proof (cases "handle_ldk_events env n e (node s)")
  case (Ok r)
  obtain n' effs where r: "r = (n', effs)" by (cases r)
  with Ok have le: "length (pending_payments n') \<le> length (pending_payments (node s))"
    by (auto intro: handle_pending_shrinks)
  with assms have "pc_ok cfg (length (pending_payments n')) (pc s)"
    by (auto simp: prober_inv_def elim: pc_ok_mono)
  with assms le show ?thesis by (auto simp: on_event_def Ok r prober_inv_def)
qed (use assms in \<open>auto simp: on_event_def prober_inv_def\<close>)

lemma on_ctrlc_inv: "prober_inv cfg s \<Longrightarrow> prober_inv cfg (on_ctrlc s)"
  by (auto simp: on_ctrlc_def prober_inv_def)

lemma sys_step_inv: "prober_inv cfg s \<Longrightarrow> prober_inv cfg (sys_step cfg s act)"
  by (cases act) (auto simp: prober_step_inv on_event_inv on_ctrlc_inv)

lemma sys_run_inv: "prober_inv cfg s \<Longrightarrow> prober_inv cfg (sys_run cfg s acts)"
  by (induction acts arbitrary: s) (auto intro: sys_step_inv)

lemma prober_start_inv:
  "length (pending_payments n) \<le> Suc max_pending \<Longrightarrow> prober_inv cfg (prober_start n nodes)"
  by (simp add: prober_inv_def prober_start_def)

lemma prober_reachable_inv:
  assumes "prober_reachable cfg s0 s" and "prober_inv cfg s0"
  shows "prober_inv cfg s"
  using assms by (induction rule: prober_reachable.induct) (auto intro: sys_step_inv)

lemma sys_run_reachable:
  "prober_reachable cfg s0 (sys_run cfg s0 (acts :: (unit, unit) action list))"
  by (induction acts rule: rev_induct) (auto intro: prober_reachable.intros)

lemma sys_step_Aborted: "pc s = Aborted \<Longrightarrow> sys_step cfg s act = s"
  by (cases act) (simp_all add: prober_step.simps)

lemma sys_run_Aborted: "pc s = Aborted \<Longrightarrow> sys_run cfg s acts = s"
  by (induction acts) (simp_all add: sys_step_Aborted)

lemma wanted_probes_allowed:
  "set txs \<subseteq> set (candidates cfg) \<Longrightarrow> (n, scid) \<in> set (wanted_probes cfg m txs) \<Longrightarrow> allowed cfg n scid \<and> n = m"
  by (induction txs) (auto simp: allowed_def split: tx_decision.splits)

lemma decide_tx_Do_Probe:
  "decide_tx cfg n tx = Do_Probe scid \<longleftrightarrow>
   scid = transaction_scid tx \<and> scid \<notin> set (public_channels cfg) \<and>
   \<not> hm_contains (attempt_key n (to_string scid)) (set_of_attempts cfg) \<and>
   (probetype cfg = ''assumptions'' \<longrightarrow> amount tx mod 10000 = 0 \<and> transaction_index tx \<le> 1)"
  by (auto simp: decide_tx_def Let_def transaction_scid_def not_less)

text \<open>
  An environment in which every key parses, every route is found and every payment is accepted.
\<close>

definition willing_env :: probe_env where
  "willing_env = \<lparr>pk_from_str = Some \<circ> as_bytes, sha256 = (\<lambda>bs. bs), find_route = (\<lambda>p. Some [[]]),
     send_payment = (\<lambda>r h. True)\<rparr>"

definition quiet_ldk_env :: "(unit, unit) ldk_env" where
  "quiet_ldk_env = \<lparr>script_address = (\<lambda>n s. None), create_raw_transaction = (\<lambda>a v. []),
     fund_raw_transaction = (\<lambda>t. t), sign_raw_transaction_with_wallet = (\<lambda>t. (t, True)),
     tx_deserialize = (\<lambda>b. None), new_address_script = [], normal_feerate = 2000,
     spend_spendable_outputs = (\<lambda>outs a f. None), clock = 5\<rparr>"

lemma probe_willing:
  "probe willing_env pre n (to_string (scid :: u64)) g pend =
   (Ok (), hm_insert pre (probe_payment_info pre) pend)"
  by (simp add: probe_def willing_env_def find_routes_def)

lemma on_event_PaymentFailed:
  "on_event env nw (PaymentFailed h) s =
     s\<lparr>node := (node s)\<lparr>pending_payments := hm_remove h (pending_payments (node s))\<rparr>\<rparr>"
proof -
  have "map_of m h = None \<Longrightarrow> hm_remove h m = m" for m :: PaymentInfoStorage
    by (auto simp: hm_remove_def filter_id_conv map_of_eq_None_iff image_iff)
  then show ?thesis by (auto simp: on_event_def on_payment_failed_def hm_contains_def)
qed

lemma hm_remove_fresh: "map_of m h = None \<Longrightarrow> hm_remove h m = m"
  by (auto simp: hm_remove_def filter_id_conv map_of_eq_None_iff image_iff)

lemma same_pending [simp]: "n\<lparr>pending_payments := pending_payments n\<rparr> = n"
  by simp

lemma same_node [simp]: "s\<lparr>node := node s\<rparr> = s"
  by simp

text \<open>States in which the prober can go on: not interrupted, room in the pending table.\<close>

definition can_go_on :: "bytes \<Rightarrow> prober_sys \<Rightarrow> bool" where
  "can_go_on pre s \<longleftrightarrow> running s = 0 \<and> length (pending_payments (node s)) \<le> max_pending \<and>
     map_of (pending_payments (node s)) pre = None"

lemma can_go_on_update [simp]:
  "can_go_on pre (s\<lparr>pc := p\<rparr>) = can_go_on pre s"
  "can_go_on pre (s\<lparr>probes := q\<rparr>) = can_go_on pre s"
  by (simp_all add: can_go_on_def)

text \<open>Two thread steps and the failure of the payment: one channel probed, the table as before.\<close>

lemma run_one_probe:
  assumes "can_go_on pre s" and "pc s = TxLoop n (tx # txs) ns" and "decide_tx cfg n tx = Do_Probe scid"
  shows "sys_run cfg s [ThreadStep willing_env pre, ThreadStep willing_env pre,
      LdkEvent quiet_ldk_env Testnet (PaymentFailed pre)] =
    s\<lparr>pc := TxLoop n txs ns, probes := probes s @ [(n, scid)]\<rparr>"
  using assms
  by (simp add: prober_step.simps can_go_on_def on_event_PaymentFailed probe_willing hm_remove_insert
      hm_remove_fresh)

lemma run_skip:
  assumes "can_go_on pre s" and "pc s = TxLoop n (tx # txs) ns" and "\<nexists>scid. decide_tx cfg n tx = Do_Probe scid"
  shows "sys_run cfg s [ThreadStep willing_env pre] = s\<lparr>pc := TxLoop n txs ns\<rparr>"
  using assms by (auto simp: prober_step.simps can_go_on_def split: tx_decision.splits)

lemma run_node:
  assumes "can_go_on pre s" and "pc s = TxLoop n txs ns"
  shows "\<exists>acts :: (unit, unit) action list. sys_run cfg s acts =
    s\<lparr>pc := NodeStart ns, probes := probes s @ wanted_probes cfg n txs\<rparr>"
  using assms
proof (induction txs arbitrary: s)
  case Nil
  then show ?case
    by (intro exI [of _ "[ThreadStep willing_env pre]"]) (simp add: prober_step.simps)
next
  case (Cons tx txs)
  show ?case
  proof (cases "\<exists>scid. decide_tx cfg n tx = Do_Probe scid")
    case True
    then obtain scid where d: "decide_tx cfg n tx = Do_Probe scid" by blast
    let ?s = "s\<lparr>pc := TxLoop n txs ns, probes := probes s @ [(n, scid)]\<rparr>"
    obtain acts :: "(unit, unit) action list" where acts: "sys_run cfg ?s acts =
        ?s\<lparr>pc := NodeStart ns, probes := probes ?s @ wanted_probes cfg n txs\<rparr>"
      using Cons.IH [of ?s] Cons.prems(1) by auto
    show ?thesis
      using run_one_probe [OF Cons.prems d] acts d
      by (intro exI [of _ "[ThreadStep willing_env pre, ThreadStep willing_env pre,
            LdkEvent quiet_ldk_env Testnet (PaymentFailed pre)] @ acts"])
         (simp only: foldl_append, simp)
  next
    case False
    let ?s = "s\<lparr>pc := TxLoop n txs ns\<rparr>"
    obtain acts :: "(unit, unit) action list" where acts: "sys_run cfg ?s acts =
        ?s\<lparr>pc := NodeStart ns, probes := probes ?s @ wanted_probes cfg n txs\<rparr>"
      using Cons.IH [of ?s] Cons.prems(1) by auto
    have "wanted_probes cfg n (tx # txs) = wanted_probes cfg n txs"
      using False by (auto split: tx_decision.splits)
    then show ?thesis
      using run_skip [OF Cons.prems False] acts
      by (intro exI [of _ "[ThreadStep willing_env pre] @ acts"]) (simp only: foldl_append, simp)
  qed
qed

lemma run_all:
  assumes "can_go_on pre s" and "pc s = NodeStart nodes"
  shows "\<exists>acts :: (unit, unit) action list. sys_run cfg s acts =
    s\<lparr>pc := Finished, probes := probes s @ plan cfg nodes\<rparr>"
  using assms
proof (induction nodes arbitrary: s)
  case Nil
  then show ?case
    by (intro exI [of _ "[ThreadStep willing_env pre]"]) (simp add: prober_step.simps plan_def)
next
  case (Cons n ns)
  let ?s1 = "s\<lparr>pc := TxLoop n (candidates cfg) ns\<rparr>"
  have step: "sys_run cfg s [ThreadStep willing_env pre] = ?s1"
    using Cons.prems by (simp add: prober_step.simps find_routes_def willing_env_def)
  let ?s2 = "?s1\<lparr>pc := NodeStart ns, probes := probes ?s1 @ wanted_probes cfg n (candidates cfg)\<rparr>"
  obtain acts1 :: "(unit, unit) action list" where a1: "sys_run cfg ?s1 acts1 = ?s2"
    using run_node [of pre ?s1 n "candidates cfg" ns cfg] Cons.prems(1) by auto
  obtain acts2 :: "(unit, unit) action list" where a2: "sys_run cfg ?s2 acts2 =
      ?s2\<lparr>pc := Finished, probes := probes ?s2 @ plan cfg ns\<rparr>"
    using Cons.IH [of ?s2] Cons.prems(1) by auto
  show ?case
    using step a1 a2
    by (intro exI [of _ "[ThreadStep willing_env pre] @ acts1 @ acts2"])
       (simp only: foldl_append, simp add: plan_def)
qed

section \<open>Properties\<close>

text \<open>
  C1. However the prober's thread, events and interrupts interleave, never more than 31 payments are
  pending, and every probe that was sent is of a candidate transaction's short channel id that is not
  a public channel, has not been answered before, and meets the assumptions when they are asked for.
\<close>

theorem prober_safety:
  assumes "prober_reachable cfg (prober_start n nodes) s" and "length (pending_payments n) \<le> 31"
  shows "length (pending_payments (node s)) \<le> 31 \<and>
    (\<forall>(t, scid) \<in> set (probes s). \<exists>tx \<in> set (candidates cfg). scid = transaction_scid tx \<and>
       scid \<notin> set (public_channels cfg) \<and>
       \<not> hm_contains (attempt_key t (to_string scid)) (set_of_attempts cfg) \<and>
       (probetype cfg = ''assumptions'' \<longrightarrow> amount tx mod 10000 = 0 \<and> transaction_index tx \<le> 1))"
proof -
  have "prober_inv cfg s"
    using prober_reachable_inv [OF assms(1)] assms(2) prober_start_inv [of n cfg nodes]
    by (simp add: max_pending_def)
  then show ?thesis
    by (auto simp: prober_inv_def max_pending_def allowed_def decide_tx_Do_Probe)
qed

definition demo_cfg :: probe_config where
  "demo_cfg = \<lparr>probetype = ''assumptions'', public_channels = [], set_of_attempts = [],
     candidates = [demo_tx 7 500000, demo_tx 8 123]\<rparr>"

theorem prober_safety_witness:
  "\<exists>s. prober_reachable demo_cfg (prober_start demo_node_state [''02ab'']) s \<and>
     probes s = [(''02ab'', transaction_scid (demo_tx 7 500000))] \<and>
     length (pending_payments (node s)) \<le> 31"
proof -
  have go: "can_go_on [9] (prober_start demo_node_state [''02ab''])"
    by (simp add: can_go_on_def prober_start_def demo_node_state_def max_pending_def)
  obtain acts :: "(unit, unit) action list" where run:
    "sys_run demo_cfg (prober_start demo_node_state [''02ab'']) acts =
     (prober_start demo_node_state [''02ab''])\<lparr>pc := Finished, probes := [] @ plan demo_cfg [''02ab'']\<rparr>"
    using run_all [OF go, of "[''02ab'']" demo_cfg] by (auto simp: prober_start_def)
  let ?s = "sys_run demo_cfg (prober_start demo_node_state [''02ab'']) acts"
  have r: "prober_reachable demo_cfg (prober_start demo_node_state [''02ab'']) ?s"
    by (rule sys_run_reachable)
  have "plan demo_cfg [''02ab''] = [(''02ab'', transaction_scid (demo_tx 7 500000))]"
    by (simp add: plan_def demo_cfg_def demo_tx_def decide_tx_def transaction_scid_def hm_contains_def)
  then have "probes ?s = [(''02ab'', transaction_scid (demo_tx 7 500000))]"
    unfolding run by simp
  with r prober_safety [OF r] show ?thesis by (auto simp: demo_node_state_def)
qed

text \<open>
  C32. The prober can always finish: from the start, with room in the pending table, there is a run in
  which it sends exactly the planned probes in the planned order, node by node, and stops.
\<close>

theorem prober_can_finish:
  assumes "length (pending_payments n) \<le> 30" and "map_of (pending_payments n) pre = None"
  shows "\<exists>s. prober_reachable cfg (prober_start n nodes) s \<and> pc s = Finished \<and>
    probes s = plan cfg nodes \<and> node s = n"
proof -
  have "can_go_on pre (prober_start n nodes)"
    using assms by (simp add: can_go_on_def prober_start_def max_pending_def)
  then obtain acts :: "(unit, unit) action list" where run: "sys_run cfg (prober_start n nodes) acts =
      (prober_start n nodes)\<lparr>pc := Finished, probes := [] @ plan cfg nodes\<rparr>"
    using run_all [of pre "prober_start n nodes" nodes cfg] by (auto simp: prober_start_def)
  moreover have "prober_reachable cfg (prober_start n nodes) (sys_run cfg (prober_start n nodes) acts)"
    by (rule sys_run_reachable)
  ultimately show ?thesis by (auto simp: prober_start_def)
qed

theorem prober_can_finish_witness:
  "\<exists>s. prober_reachable demo_cfg (prober_start demo_node_state [''02ab'']) s \<and> pc s = Finished \<and>
     probes s = plan demo_cfg [''02ab''] \<and> node s = demo_node_state"
  by (rule prober_can_finish [of demo_node_state "[9]"]) (simp_all add: demo_node_state_def)


definition stubborn_env :: probe_env where
  "stubborn_env = willing_env\<lparr>find_route := (\<lambda>p. None)\<rparr>"

definition stubborn_actions :: "(unit, unit) action list" where
  "stubborn_actions = [ThreadStep stubborn_env [1], CtrlC, ThreadStep stubborn_env [2]]"


text \<open>Probes the thread may still send once it has been interrupted.\<close>

fun in_flight_probe :: "prober_pc \<Rightarrow> nat" where
  "in_flight_probe (Probing n scid txs ns) = 1"
| "in_flight_probe p = 0"

lemma interrupted_step:
  assumes "running s > 0"
  shows "running (sys_step cfg s act) > 0 \<and>
    length (probes (sys_step cfg s act)) + in_flight_probe (pc (sys_step cfg s act)) \<le>
      length (probes s) + in_flight_probe (pc s)"
proof (cases act)
  case (ThreadStep env pre)
  show ?thesis
  proof (cases "pc s")
    case (NodeStart ns)
    with ThreadStep assms prober_step_NodeStart [OF NodeStart, of cfg env pre] show ?thesis by auto
  next
    case (TxLoop n txs ns)
    with ThreadStep assms prober_step_TxLoop [OF TxLoop, of cfg env pre] show ?thesis by auto
  next
    case (Probing n scid txs ns)
    with ThreadStep assms prober_step_Probing [OF Probing, of env pre cfg] show ?thesis by auto
  qed (use ThreadStep assms in \<open>auto simp: prober_step.simps\<close>)
qed (use assms in \<open>auto simp: on_event_def on_ctrlc_def split: outcome.splits\<close>)

text \<open>
  After an interrupt the prober sends at most one more probe, the one whose retry loop it is in,
  and none when it is elsewhere, whatever happens next.
\<close>

theorem interrupt_stops_probing:
  assumes "running s > 0"
  shows "length (probes (sys_run cfg s acts)) \<le> length (probes s) + in_flight_probe (pc s)"
  using assms
proof (induction acts arbitrary: s)
  case (Cons act acts)
  from interrupted_step [OF Cons.prems, of cfg act]
  have "running (sys_step cfg s act) > 0"
    and le: "length (probes (sys_step cfg s act)) + in_flight_probe (pc (sys_step cfg s act)) \<le>
      length (probes s) + in_flight_probe (pc s)" by auto
  with Cons.IH [of "sys_step cfg s act"] show ?case by (simp add: le_trans)
qed simp

theorem interrupt_stops_probing_witness:
  "length (probes (sys_run demo_cfg ((prober_start demo_node_state [''02ab''])\<lparr>running := 1\<rparr>)
      [ThreadStep willing_env [1], ThreadStep willing_env [2] :: (unit, unit) action])) \<le> 0"
  using interrupt_stops_probing [of "(prober_start demo_node_state [''02ab''])\<lparr>running := 1\<rparr>" demo_cfg
      "[ThreadStep willing_env [1], ThreadStep willing_env [2] :: (unit, unit) action]"]
  by (simp add: prober_start_def)

text \<open>
  Candidates are probed from the highest block down; transactions of the same block keep the
  order of the files, and none is lost or repeated.
\<close>

theorem sort_recent_first_correct:
  "mset (sort_recent_first txs) = mset txs \<and>
   sorted_wrt (\<lambda>a b. block_height a \<ge> block_height b) (sort_recent_first txs) \<and>
   filter (\<lambda>tx. block_height tx = h) (sort_recent_first txs) = filter (\<lambda>tx. block_height tx = h) txs"
proof -
  let ?k = "\<lambda>tx. 2 ^ 64 - 1 - unat (block_height tx)"
  have key: "?k a \<le> ?k b \<longleftrightarrow> block_height b \<le> block_height a" for a b :: Transaction
    using unat_of_u64_numeral_bound [of "block_height a"] unat_of_u64_numeral_bound [of "block_height b"]
    by (simp add: word_le_nat_alt) linarith
  have "sorted_wrt (\<lambda>a b. ?k a \<le> ?k b) (sort_recent_first txs)"
    using sorted_sort_key [of ?k txs] by (simp add: sort_recent_first_def sorted_map)
  then have "sorted_wrt (\<lambda>a b. block_height a \<ge> block_height b) (sort_recent_first txs)"
    by (rule sorted_wrt_mono_rel [rotated]) (simp only: key)
  moreover have "filter (\<lambda>tx. block_height tx = h) (sort_recent_first txs) = filter (\<lambda>tx. block_height tx = h) txs"
  proof -
    have eq: "block_height tx = h \<longleftrightarrow> ?k tx = 2 ^ 64 - 1 - unat h" for tx :: Transaction
      using unat_of_u64_numeral_bound [of "block_height tx"] unat_of_u64_numeral_bound [of h]
      by (simp add: word_unat_eq_iff) linarith
    show ?thesis unfolding sort_recent_first_def eq by (rule sort_key_stable)
  qed
  ultimately show ?thesis by (simp add: sort_recent_first_def)
qed

lemma load_transactions_result:
  "load_transactions from_json txs files =
     (if ReadFailed None \<in> set files then Panic
      else Ok (txs @ concat (map (\<lambda>f. case f of FileText t \<Rightarrow> (case from_json t of Some ts \<Rightarrow> ts | None \<Rightarrow> [])
                                            | ReadFailed _ \<Rightarrow> []) files)))"
  by (induction from_json txs files rule: load_transactions.induct)
     (auto simp: print_inner_error_def split: file_read.splits option.splits)

text \<open>
  Loading skips files that do not parse, but an operating-system error on the node file, on the
  transaction directory or on one of its files ends the process instead of the command: the error
  branch unwraps an inner error such errors do not have. Without such an error the command starts with
  every transaction of every file that parses.
\<close>

theorem probeall_prepare_result:
  assumes "in_probetype inp = Some ptype" and "in_nodepath inp = Some path" and "in_txpath inp = Some txpath"
    and "path \<noteq> ''all''"
  shows "(in_node_file inp = ReadFailed None \<longrightarrow> probeall_prepare nj tj inp = Panic) \<and>
    (in_node_file inp = FileText t \<and> nj t = Some ns \<and> in_tx_dir inp = Inr files \<longrightarrow>
       (ReadFailed None \<in> set files \<longrightarrow> probeall_prepare nj tj inp = Panic) \<and>
       (ReadFailed None \<notin> set files \<longrightarrow>
          (\<exists>cfg. probeall_prepare nj tj inp = Ok (Some (cfg, ns)) \<and>
             (\<forall>text ts tx. FileText text \<in> set files \<and> tj text = Some ts \<and> tx \<in> set ts \<longrightarrow>
                tx \<in> set (candidates cfg)))))"
  using assms
  by (auto simp: probeall_prepare_def load_nodes_def print_inner_error_def load_transactions_result
      sort_recent_first_def Bex_def intro!: bexI)

definition demo_inputs :: "file_read \<Rightarrow> file_read list \<Rightarrow> probeall_inputs" where
  "demo_inputs nodefile files = \<lparr>in_probetype = Some ''assumptions'', in_nodepath = Some ''nodes.json'',
     in_txpath = Some ''data'', in_graph_nodes = [], in_graph_channels = [], in_node_file = nodefile,
     in_tx_dir = Inr files, in_rows = []\<rparr>"

theorem probeall_prepare_result_witness:
  "probeall_prepare (\<lambda>t. Some [t]) (\<lambda>t. Some []) (demo_inputs (FileText ''02ab'') [ReadFailed None]) = Panic"
  using probeall_prepare_result [of "demo_inputs (FileText ''02ab'') [ReadFailed None]" "''assumptions''"
      "''nodes.json''" "''data''" "\<lambda>t. Some [t]" "\<lambda>t. Some []" "''02ab''" "[''02ab'']" "[ReadFailed None]"]
  by (simp add: demo_inputs_def)

end
