(* ===== verification/Disk.thy ===== *)
theory Disk
  imports Prelude
begin

text \<open>
  The file writing routines of \<open>src/src/disk.rs\<close> over a small model of a file system with a write
  cache: a file's contents are safe once it has been synced, a directory's entries once the directory
  has been synced. \<open>possible_after_crash\<close> says what may be found under a name after a power loss.
\<close>

section \<open>File system\<close>

record file_state =
  f_content :: bytes
  f_synced :: bool

record dir_state =
  entries :: "(string \<times> file_state) list"
  durable :: "(string \<times> file_state) list"

type_synonym fs = "string \<rightharpoonup> dir_state"

datatype io_error = NotFound | AlreadyExists | InvalidData | OtherError

datatype fs_op =
    CreateDirAll string
  | CreateFile string string
  | OpenOverwrite string string
  | WriteData string string bytes
  | AppendData string string bytes
  | SyncFile string string
  | Rename string string string
  | SyncDir string
  | RemoveDirAll string
  | CreateDir string

definition empty_dir :: dir_state where
  "empty_dir = \<lparr>entries = [], durable = []\<rparr>"

definition lookup_file :: "fs \<Rightarrow> string \<Rightarrow> string \<Rightarrow> file_state option" where
  "lookup_file fs d name = (case fs d of None \<Rightarrow> None | Some dir \<Rightarrow> map_of (entries dir) name)"

definition set_file :: "fs \<Rightarrow> string \<Rightarrow> dir_state \<Rightarrow> string \<Rightarrow> file_state \<Rightarrow> fs" where
  "set_file fs d dir name f = fs(d \<mapsto> dir\<lparr>entries := hm_insert name f (entries dir)\<rparr>)"

text \<open>
  \<open>OpenOverwrite\<close> is an open for writing that creates the file but does not truncate it, and
  \<open>WriteData\<close> writes from the start of the file: what the old contents have beyond the new stays.
\<close>

fun fs_apply :: "fs_op \<Rightarrow> fs \<Rightarrow> (io_error, fs) outcome" where
  "fs_apply (CreateDirAll d) fs = (case fs d of None \<Rightarrow> Ok (fs(d \<mapsto> empty_dir)) | Some _ \<Rightarrow> Ok fs)"
| "fs_apply (CreateFile d name) fs =
     (case fs d of
        None \<Rightarrow> Err NotFound
      | Some dir \<Rightarrow> Ok (set_file fs d dir name \<lparr>f_content = [], f_synced = False\<rparr>))"
| "fs_apply (OpenOverwrite d name) fs =
     (case fs d of
        None \<Rightarrow> Err NotFound
      | Some dir \<Rightarrow>
          (case map_of (entries dir) name of
             None \<Rightarrow> Ok (set_file fs d dir name \<lparr>f_content = [], f_synced = False\<rparr>)
           | Some _ \<Rightarrow> Ok fs))"
| "fs_apply (WriteData d name bs) fs =
     (case fs d of
        None \<Rightarrow> Err NotFound
      | Some dir \<Rightarrow>
          (case map_of (entries dir) name of
             None \<Rightarrow> Err NotFound
           | Some f \<Rightarrow>
               Ok (set_file fs d dir name
                     \<lparr>f_content = bs @ drop (length bs) (f_content f), f_synced = False\<rparr>)))"
| "fs_apply (AppendData d name bs) fs =
     (case fs d of
        None \<Rightarrow> Err NotFound
      | Some dir \<Rightarrow>
          (case map_of (entries dir) name of
             None \<Rightarrow> Ok (set_file fs d dir name \<lparr>f_content = bs, f_synced = False\<rparr>)
           | Some f \<Rightarrow>
               Ok (set_file fs d dir name \<lparr>f_content = f_content f @ bs, f_synced = False\<rparr>)))"
| "fs_apply (SyncFile d name) fs =
     (case fs d of
        None \<Rightarrow> Err NotFound
      | Some dir \<Rightarrow>
          (case map_of (entries dir) name of
             None \<Rightarrow> Err NotFound
           | Some f \<Rightarrow> Ok (set_file fs d dir name (f\<lparr>f_synced := True\<rparr>))))"
| "fs_apply (Rename d old new) fs =
     (case fs d of
        None \<Rightarrow> Err NotFound
      | Some dir \<Rightarrow>
          (case map_of (entries dir) old of
             None \<Rightarrow> Err NotFound
           | Some f \<Rightarrow>
               Ok (fs(d \<mapsto> dir\<lparr>entries := hm_insert new f (hm_remove old (entries dir))\<rparr>))))"
| "fs_apply (SyncDir d) fs =
     (case fs d of
        None \<Rightarrow> Err NotFound
      | Some dir \<Rightarrow> Ok (fs(d \<mapsto> dir\<lparr>durable := entries dir\<rparr>)))"
| "fs_apply (RemoveDirAll d) fs =
     (case fs d of None \<Rightarrow> Err NotFound | Some _ \<Rightarrow> Ok (fs(d := None)))"
| "fs_apply (CreateDir d) fs =
     (case fs d of None \<Rightarrow> Ok (fs(d \<mapsto> empty_dir)) | Some _ \<Rightarrow> Err AlreadyExists)"

text \<open>A sequence of calls, each under the \<open>?\<close> operator.\<close>

fun fs_run :: "fs_op list \<Rightarrow> fs \<Rightarrow> (io_error, fs) outcome" where
  "fs_run [] fs = Ok fs"
| "fs_run (op # ops) fs = and_then (fs_apply op fs) (fs_run ops)"

text \<open>What may be under a name after a power loss; \<open>None\<close> is no file.\<close>

definition file_after_crash :: "file_state option \<Rightarrow> bytes option \<Rightarrow> bool" where
  "file_after_crash f c =
     (case f of
        None \<Rightarrow> c = None
      | Some f \<Rightarrow> (\<exists>bs. c = Some bs \<and> (f_synced f \<longrightarrow> bs = f_content f)))"

definition possible_after_crash :: "fs \<Rightarrow> string \<Rightarrow> string \<Rightarrow> bytes option \<Rightarrow> bool" where
  "possible_after_crash fs d name c =
     (case fs d of
        None \<Rightarrow> c = None
      | Some dir \<Rightarrow> file_after_crash (map_of (entries dir) name) c \<or>
                    file_after_crash (map_of (durable dir) name) c)"

section \<open>Writing a file atomically\<close>

definition tmp_name :: "string \<Rightarrow> string" where
  "tmp_name filename = filename @ ''.tmp''"

text \<open>The system calls of \<open>write_to_file\<close>, in order.\<close>

definition write_to_file_ops :: "string \<Rightarrow> string \<Rightarrow> bytes \<Rightarrow> fs_op list" where
  "write_to_file_ops path filename data =
     [CreateDirAll path,
      CreateFile path (tmp_name filename),
      WriteData path (tmp_name filename) data,
      SyncFile path (tmp_name filename),
      Rename path (tmp_name filename) filename,
      SyncDir path]"

definition write_to_file :: "string \<Rightarrow> string \<Rightarrow> bytes \<Rightarrow> fs \<Rightarrow> (io_error, fs) outcome" where
  "write_to_file path filename data = fs_run (write_to_file_ops path filename data)"

section \<open>Writing the network graph and the scorer\<close>

text \<open>
  \<open>persist_network\<close> and \<open>persist_scorer\<close> share this shape: open the temporary file without truncating
  it, write, rename, without syncing.
\<close>

definition persist_via_tmp_ops :: "string \<Rightarrow> string \<Rightarrow> bytes \<Rightarrow> fs_op list" where
  "persist_via_tmp_ops path filename data =
     [OpenOverwrite path (tmp_name filename),
      WriteData path (tmp_name filename) data,
      Rename path (tmp_name filename) filename]"

definition persist_network :: "string \<Rightarrow> string \<Rightarrow> bytes \<Rightarrow> fs \<Rightarrow> (io_error, fs) outcome" where
  "persist_network path filename graph = fs_run (persist_via_tmp_ops path filename graph)"

definition persist_scorer :: "string \<Rightarrow> string \<Rightarrow> bytes \<Rightarrow> fs \<Rightarrow> (io_error, fs) outcome" where
  "persist_scorer path filename scorer = fs_run (persist_via_tmp_ops path filename scorer)"

text \<open>Reading back: a missing or unreadable file gives a fresh graph or scorer.\<close>

definition read_network :: "(bytes \<Rightarrow> 'g option) \<Rightarrow> 'g \<Rightarrow> string \<Rightarrow> string \<Rightarrow> fs \<Rightarrow> 'g" where
  "read_network graph_read fresh path filename fs =
     (case lookup_file fs path filename of
        None \<Rightarrow> fresh
      | Some f \<Rightarrow> (case graph_read (f_content f) of Some graph \<Rightarrow> graph | None \<Rightarrow> fresh))"

definition read_scorer :: "(bytes \<Rightarrow> 'g option) \<Rightarrow> 'g \<Rightarrow> string \<Rightarrow> string \<Rightarrow> fs \<Rightarrow> 'g" where
  "read_scorer scorer_read fresh path filename fs =
     (case lookup_file fs path filename of
        None \<Rightarrow> fresh
      | Some f \<Rightarrow> (case scorer_read (f_content f) of Some scorer \<Rightarrow> scorer | None \<Rightarrow> fresh))"

section \<open>Lemmas\<close>

lemma tmp_name_neq [simp]: "tmp_name n \<noteq> n" "n \<noteq> tmp_name n"
  by (simp_all add: tmp_name_def)

lemma hm_insert_insert [simp]: "hm_insert k v (hm_insert k u m) = hm_insert k v m"
  by (induction m) auto

text \<open>The states of \<open>write_to_file\<close> after each of its calls.\<close>

definition dir_or_empty :: "fs \<Rightarrow> string \<Rightarrow> dir_state" where
  "dir_or_empty fs d = (case fs d of None \<Rightarrow> empty_dir | Some dir \<Rightarrow> dir)"

lemma fs_run_append: "fs_run (xs @ ys) fs = and_then (fs_run xs fs) (fs_run ys)"
proof (induction xs arbitrary: fs)
  case (Cons op xs)
  then show ?case by (cases "fs_apply op fs") auto
qed simp

definition wf_stage :: "fs \<Rightarrow> string \<Rightarrow> (string \<times> file_state) list \<Rightarrow> (string \<times> file_state) list \<Rightarrow> fs" where
  "wf_stage fs d es dur = fs(d \<mapsto> \<lparr>entries = es, durable = dur\<rparr>)"

lemma create_dir_all_stage:
  "fs_apply (CreateDirAll d) fs = Ok (wf_stage fs d (entries (dir_or_empty fs d)) (durable (dir_or_empty fs d)))"
  by (auto simp: wf_stage_def dir_or_empty_def empty_dir_def split: option.splits)

lemma stage_simps [simp]:
  "fs_apply (CreateFile d name) (wf_stage fs d es dur) =
     Ok (wf_stage fs d (hm_insert name \<lparr>f_content = [], f_synced = False\<rparr> es) dur)"
  "map_of es name = Some f \<Longrightarrow> fs_apply (WriteData d name bs) (wf_stage fs d es dur) =
     Ok (wf_stage fs d (hm_insert name
          \<lparr>f_content = bs @ drop (length bs) (f_content f), f_synced = False\<rparr> es) dur)"
  "map_of es name = Some f \<Longrightarrow> fs_apply (SyncFile d name) (wf_stage fs d es dur) =
     Ok (wf_stage fs d (hm_insert name (f\<lparr>f_synced := True\<rparr>) es) dur)"
  "map_of es name = Some f \<Longrightarrow> fs_apply (Rename d name new) (wf_stage fs d es dur) =
     Ok (wf_stage fs d (hm_insert new f (hm_remove name es)) dur)"
  "fs_apply (SyncDir d) (wf_stage fs d es dur) = Ok (wf_stage fs d es es)"
  by (simp_all add: wf_stage_def set_file_def)

lemma write_to_file_result:
  "write_to_file d name data fs =
     Ok (let es = hm_insert name \<lparr>f_content = data, f_synced = True\<rparr>
                    (hm_remove (tmp_name name) (entries (dir_or_empty fs d)))
         in wf_stage fs d es es)"
  by (simp add: write_to_file_def write_to_file_ops_def create_dir_all_stage Let_def
      hm_remove_insert del: fs_apply.simps)

lemma wf_stage_crash:
  "possible_after_crash (wf_stage fs d es dur) d name c \<longleftrightarrow>
     file_after_crash (map_of es name) c \<or> file_after_crash (map_of dur name) c"
  by (simp add: possible_after_crash_def wf_stage_def)

lemma dir_or_empty_crash:
  "possible_after_crash fs d name c \<longleftrightarrow>
     file_after_crash (map_of (entries (dir_or_empty fs d)) name) c \<or>
     file_after_crash (map_of (durable (dir_or_empty fs d)) name) c"
  by (auto simp: possible_after_crash_def dir_or_empty_def empty_dir_def file_after_crash_def
      split: option.splits)

lemma file_after_crash_synced [simp]:
  "file_after_crash (Some \<lparr>f_content = bs, f_synced = True\<rparr>) c \<longleftrightarrow> c = Some bs"
  by (auto simp: file_after_crash_def)

lemma length_write_to_file_ops: "length (write_to_file_ops d name data) = 6"
  by (simp add: write_to_file_ops_def)

section \<open>The interface the persisters rely on\<close>

text \<open>The files of a directory with their contents.\<close>

definition dir_map :: "fs \<Rightarrow> string \<Rightarrow> string \<rightharpoonup> bytes" where
  "dir_map fs d name = map_option f_content (lookup_file fs d name)"

text \<open>
  A way of storing a file: it succeeds, stores the data under the name, leaves no temporary file, and
  touches nothing else.
\<close>

locale file_store =
  fixes put :: "string \<Rightarrow> string \<Rightarrow> bytes \<Rightarrow> fs \<Rightarrow> (io_error, fs) outcome"
  assumes put_total: "\<exists>fs'. put d name data fs = Ok fs'"
    and put_map: "put d name data fs = Ok fs' \<Longrightarrow>
      dir_map fs' d = (dir_map fs d)(tmp_name name := None, name \<mapsto> data)"
    and put_dir: "put d name data fs = Ok fs' \<Longrightarrow> fs' d \<noteq> None"
    and put_other: "put d name data fs = Ok fs' \<Longrightarrow> d' \<noteq> d \<Longrightarrow> fs' d' = fs d'"
begin

lemma put_get: "put d name data fs = Ok fs' \<Longrightarrow> dir_map fs' d name = Some data"
  by (simp add: put_map)

lemma put_other_map: "put d name data fs = Ok fs' \<Longrightarrow> d' \<noteq> d \<Longrightarrow> dir_map fs' d' = dir_map fs d'"
  by (rule ext) (simp add: dir_map_def lookup_file_def put_other)

lemma put_fresh:
  "put d name data fs = Ok fs' \<Longrightarrow> dir_map fs d (tmp_name name) = None \<Longrightarrow>
   dir_map fs' d = (dir_map fs d)(name \<mapsto> data)"
  by (auto simp: put_map fun_eq_iff)

lemma put_obtain:
  obtains fs' where "put d name data fs = Ok fs'"
  using put_total by blast

end

lemma lookup_dir_or_empty: "lookup_file fs d name = map_of (entries (dir_or_empty fs d)) name"
  by (simp add: lookup_file_def dir_or_empty_def empty_dir_def split: option.splits)

lemma lookup_wf_stage [simp]: "lookup_file (wf_stage fs d es dur) d name = map_of es name"
  by (simp add: lookup_file_def wf_stage_def)

lemma lookup_wf_stage_other: "d' \<noteq> d \<Longrightarrow> lookup_file (wf_stage fs d es dur) d' name = lookup_file fs d' name"
  by (simp add: lookup_file_def wf_stage_def)

interpretation atomic: file_store write_to_file
proof
  fix d name data and fs fs' :: fs
  show "\<exists>fs'. write_to_file d name data fs = Ok fs'"
    by (simp add: write_to_file_result)
  assume "write_to_file d name data fs = Ok fs'"
  then obtain es where
    es: "es = hm_insert name \<lparr>f_content = data, f_synced = True\<rparr>
               (hm_remove (tmp_name name) (entries (dir_or_empty fs d)))"
    and fs': "fs' = wf_stage fs d es es"
    by (simp add: write_to_file_result Let_def)
  show "dir_map fs' d = (dir_map fs d)(tmp_name name := None, name \<mapsto> data)"
    by (rule ext) (simp add: fs' es dir_map_def lookup_dir_or_empty [of fs])
  show "fs' d \<noteq> None" by (simp add: fs' wf_stage_def)
  show "d' \<noteq> d \<Longrightarrow> fs' d' = fs d'" for d'
    by (simp add: fs' wf_stage_def)
qed

section \<open>Properties\<close>



text \<open>
  After \<open>write_to_file\<close> the file holds the data, its temporary file is gone, and every other file
  of the directory and every other directory is untouched.
\<close>

theorem write_to_file_functional:
  "\<exists>fs'. write_to_file d name data fs = Ok fs' \<and>
     lookup_file fs' d name = Some \<lparr>f_content = data, f_synced = True\<rparr> \<and>
     lookup_file fs' d (tmp_name name) = None \<and>
     (\<forall>other. other \<noteq> name \<and> other \<noteq> tmp_name name \<longrightarrow> lookup_file fs' d other = lookup_file fs d other) \<and>
     (\<forall>d'. d' \<noteq> d \<longrightarrow> fs' d' = fs d')"
  by (simp add: write_to_file_result Let_def lookup_dir_or_empty [of fs]) (simp add: wf_stage_def)

theorem write_to_file_functional_witness:
  "\<exists>fs'. write_to_file ''.ldk/monitors'' ''m'' [1, 2]
      [''.ldk/monitors'' \<mapsto> \<lparr>entries = [(''x'', \<lparr>f_content = [9], f_synced = True\<rparr>)], durable = []\<rparr>] = Ok fs' \<and>
    lookup_file fs' ''.ldk/monitors'' ''x'' = Some \<lparr>f_content = [9], f_synced = True\<rparr>"
proof -
  let ?fs = "[''.ldk/monitors'' \<mapsto> \<lparr>entries = [(''x'', \<lparr>f_content = [9], f_synced = True\<rparr>)], durable = []\<rparr>]"
  obtain fs' where fs': "write_to_file ''.ldk/monitors'' ''m'' [1, 2] ?fs = Ok fs'"
    "\<forall>other. other \<noteq> ''m'' \<and> other \<noteq> tmp_name ''m'' \<longrightarrow>
       lookup_file fs' ''.ldk/monitors'' other = lookup_file ?fs ''.ldk/monitors'' other"
    using write_to_file_functional [of "''.ldk/monitors''" "''m''" "[1, 2]" ?fs] by blast
  have "lookup_file fs' ''.ldk/monitors'' ''x'' = lookup_file ?fs ''.ldk/monitors'' ''x''"
    using fs'(2) by (simp add: tmp_name_def)
  with fs'(1) show ?thesis by (simp add: lookup_file_def)
qed

text \<open>
  Saving the network graph is weaker. When no temporary file is left over, a reader finds the
  graph that was written; but a longer temporary file left by an interrupted save is not truncated, so
  the saved file ends with its old tail, and because nothing is synced before the rename a crash after
  the save may leave arbitrary contents.
\<close>

theorem persist_network_result:
  assumes "fs d = Some dir"
  shows "\<exists>fs'. persist_network d name graph fs = Ok fs' \<and>
    (map_of (entries dir) (tmp_name name) = None \<longrightarrow>
       read_network Some fresh d name fs' = graph) \<and>
    (\<forall>stale. map_of (entries dir) (tmp_name name) = Some stale \<longrightarrow>
       read_network Some fresh d name fs' = graph @ drop (length graph) (f_content stale)) \<and>
    (\<forall>bs. possible_after_crash fs' d name (Some bs))"
proof -
  have fs: "fs = wf_stage fs d (entries dir) (durable dir)"
    using assms by (auto simp: wf_stage_def fun_eq_iff)
  show ?thesis
  proof (cases "map_of (entries dir) (tmp_name name)")
    case None
    then have "fs_apply (OpenOverwrite d (tmp_name name)) fs =
        Ok (wf_stage fs d (hm_insert (tmp_name name) \<lparr>f_content = [], f_synced = False\<rparr> (entries dir)) (durable dir))"
      using assms by (cases dir) (simp add: wf_stage_def set_file_def)
    with None show ?thesis
      by (simp add: persist_network_def persist_via_tmp_ops_def wf_stage_crash read_network_def
          file_after_crash_def del: fs_apply.simps)
  next
    case (Some stale)
    then have open_ok: "fs_apply (OpenOverwrite d (tmp_name name)) fs = Ok (wf_stage fs d (entries dir) (durable dir))"
      using assms fs by simp
    with Some show ?thesis
      by (simp add: persist_network_def persist_via_tmp_ops_def wf_stage_crash read_network_def
          file_after_crash_def del: fs_apply.simps)
  qed
qed

theorem persist_network_result_witness:
  "\<exists>fs'. persist_network ''.ldk'' ''network_graph'' [1, 2]
      [''.ldk'' \<mapsto> \<lparr>entries = [(''network_graph.tmp'', \<lparr>f_content = [7, 8, 9], f_synced = False\<rparr>)], durable = []\<rparr>] = Ok fs' \<and>
    read_network Some [] ''.ldk'' ''network_graph'' fs' = [1, 2, 9]"
proof -
  let ?dir = "\<lparr>entries = [(''network_graph.tmp'', \<lparr>f_content = [7, 8, 9], f_synced = False\<rparr>)], durable = []\<rparr>"
  show ?thesis
    using persist_network_result [of "[''.ldk'' \<mapsto> ?dir]" "''.ldk''" ?dir "''network_graph''" "[1, 2]" "[]"]
    by (auto simp: tmp_name_def)
qed

end
