(* ===== verification/Peers.thy ===== *)
theory Peers
  imports Disk Node_Types
begin

text \<open>
  Peers: \<open>parse_peer_info\<close> and the connection routines of \<open>src/src/cli.rs\<close>, the peer file and the
  logger of \<open>src/src/disk.rs\<close>. \<open>PublicKey::from_slice\<close> and name resolution are parameters; a socket
  address is the text that resolution gives. Files hold text, one character per byte.
\<close>

section \<open>Peer descriptions\<close>

record peer_env =
  from_slice :: "bytes \<Rightarrow> bytes option"
  resolve :: "string \<Rightarrow> string option"

definition parse_peer_info :: "peer_env \<Rightarrow> string \<Rightarrow> (io_error, bytes \<times> string) outcome" where
  "parse_peer_info env peer_pubkey_and_ip_addr =
     (case split_on CHR ''@'' peer_pubkey_and_ip_addr of
        pubkey_str # peer_addr_str # rest \<Rightarrow>
          (case resolve env peer_addr_str of
             None \<Rightarrow> Err OtherError
           | Some peer_addr \<Rightarrow>
               (case to_compressed_pubkey (from_slice env) pubkey_str of
                  Ok (Some pk) \<Rightarrow> Ok (pk, peer_addr)
                | Ok None \<Rightarrow> Err OtherError
                | _ \<Rightarrow> Panic))
      | _ \<Rightarrow> Err OtherError)"

section \<open>The peer file\<close>

definition str_of_bytes :: "bytes \<Rightarrow> string" where
  "str_of_bytes bs = map (\<lambda>b. char_of (unat b)) bs"

definition persist_channel_peer :: "string \<Rightarrow> string \<Rightarrow> string \<Rightarrow> fs \<Rightarrow> (io_error, fs) outcome" where
  "persist_channel_peer dir name peer_info fs =
     fs_apply (AppendData dir name (as_bytes (peer_info @ [CHR 0x0A]))) fs"

text \<open>\<open>BufRead::lines\<close>: the line ends are dropped, with a carriage return before a line feed.\<close>

definition strip_cr :: "string \<Rightarrow> string" where
  "strip_cr l = (if l \<noteq> [] \<and> last l = CHR 0x0D then butlast l else l)"

fun lines_acc :: "string \<Rightarrow> string \<Rightarrow> string list" where
  "lines_acc w [] = (if w = [] then [] else [w])"
| "lines_acc w (c # cs) = (if c = CHR 0x0A then strip_cr w # lines_acc [] cs else lines_acc (w @ [c]) cs)"

fun read_peers_loop ::
  "peer_env \<Rightarrow> (bytes \<times> string) list \<Rightarrow> string list \<Rightarrow> (io_error, (bytes \<times> string) list) outcome" where
  "read_peers_loop env peer_data [] = Ok peer_data"
| "read_peers_loop env peer_data (line # ls) =
     (case parse_peer_info env line of
        Ok (pk, socket_addr) \<Rightarrow> read_peers_loop env (hm_insert pk socket_addr peer_data) ls
      | Err e \<Rightarrow> Err e
      | Panic \<Rightarrow> Panic)"

definition read_channel_peer_data ::
  "peer_env \<Rightarrow> string \<Rightarrow> string \<Rightarrow> fs \<Rightarrow> (io_error, (bytes \<times> string) list) outcome" where
  "read_channel_peer_data env dir name fs =
     (case lookup_file fs dir name of
        None \<Rightarrow> Ok []
      | Some f \<Rightarrow> read_peers_loop env [] (lines_acc [] (str_of_bytes (f_content f))))"

section \<open>The logger\<close>

datatype Level = Gossip | Trace | Debug | Info | Warn | Error

definition show_level :: "Level \<Rightarrow> string" where
  "show_level l =
     (case l of Gossip \<Rightarrow> ''GOSSIP'' | Trace \<Rightarrow> ''TRACE'' | Debug \<Rightarrow> ''DEBUG'' | Info \<Rightarrow> ''INFO''
      | Warn \<Rightarrow> ''WARN'' | Error \<Rightarrow> ''ERROR'')"

record log_record =
  log_level :: Level
  log_args :: string
  log_module_path :: string
  log_line :: u32

definition pad_right :: "nat \<Rightarrow> string \<Rightarrow> string" where
  "pad_right n s = s @ replicate (n - length s) CHR '' ''"

definition logger_new :: "string \<Rightarrow> fs \<Rightarrow> (io_error, string \<times> fs) outcome" where
  "logger_new data_dir fs =
     (let logs_path = data_dir @ ''/logs'' in
      map_ok (\<lambda>fs'. (logs_path, fs')) (fs_apply (CreateDirAll logs_path) fs))"

definition logger_log :: "string \<Rightarrow> string \<Rightarrow> log_record \<Rightarrow> fs \<Rightarrow> (io_error, fs) outcome" where
  "logger_log data_dir now r fs =
     (if show_level (log_level r) \<noteq> ''INFO'' \<and> show_level (log_level r) \<noteq> ''WARN'' then Ok fs
      else let log = now @ '' '' @ pad_right 5 (show_level (log_level r)) @ '' ['' @ log_module_path r @
                       '':'' @ to_string (log_line r) @ ''] '' @ log_args r @ [CHR 0x0A]
           in case fs_apply (AppendData data_dir ''logs.txt'' (as_bytes log)) fs of
                Ok fs' \<Rightarrow> Ok fs'
              | _ \<Rightarrow> Panic)"

section \<open>Connecting\<close>

text \<open>
  \<open>do_connect_peer\<close> after the connection was opened: each entry of the list is one round of its loop,
  whether the connection was closed and which peers had completed the handshake. \<open>None\<close> is still
  waiting.
\<close>

fun await_handshake :: "bytes \<Rightarrow> (bool \<times> bytes list) list \<Rightarrow> (unit, unit) outcome option" where
  "await_handshake pk [] = None"
| "await_handshake pk ((closed, peers) # rounds) =
     (if closed then Some (Err ())
      else if pk \<in> set peers then Some (Ok ())
      else await_handshake pk rounds)"

definition do_connect_peer ::
  "bool \<Rightarrow> bytes \<Rightarrow> (bool \<times> bytes list) list \<Rightarrow> (unit, unit) outcome option" where
  "do_connect_peer opened pk rounds = (if opened then await_handshake pk rounds else Some (Err ()))"

text \<open>
  The result, and whether the task that reconnects every ten seconds is started; \<open>connect\<close> is the
  outcome of \<open>do_connect_peer\<close>.
\<close>

definition connect_peer_if_necessary ::
  "bytes list \<Rightarrow> bytes \<Rightarrow> (unit, unit) outcome \<Rightarrow> (unit, unit) outcome \<times> bool" where
  "connect_peer_if_necessary peers pk connect =
     (if pk \<in> set peers then (Ok (), False) else (connect, True))"

definition reconnect_tick :: "bytes list \<Rightarrow> bytes \<Rightarrow> bool" where
  "reconnect_tick connected_node_ids pk = (pk \<notin> set connected_node_ids)"

section \<open>Lemmas\<close>

lemma lines_acc_line: "CHR 0x0A \<notin> set l \<Longrightarrow> lines_acc w (l @ CHR 0x0A # rest) = strip_cr (w @ l) # lines_acc [] rest"
  by (induction l arbitrary: w) auto

lemma lines_acc_concat:
  assumes "\<forall>l\<in>set ls. CHR 0x0A \<notin> set l \<and> strip_cr l = l"
  shows "lines_acc [] (concat (map (\<lambda>l. l @ [CHR 0x0A]) ls)) = ls"
  using assms by (induction ls) (auto simp: lines_acc_line)

lemma str_of_bytes_as_bytes [simp]: "str_of_bytes (as_bytes s) = s"
  by (auto simp: str_of_bytes_def as_bytes_def unat_of_nat intro!: map_idI)

lemma as_bytes_append: "as_bytes (a @ b) = as_bytes a @ as_bytes b"
  by (simp add: as_bytes_def)

fun persist_peers :: "string \<Rightarrow> string \<Rightarrow> string list \<Rightarrow> fs \<Rightarrow> (io_error, fs) outcome" where
  "persist_peers dir name [] fs = Ok fs"
| "persist_peers dir name (i # is) fs =
     and_then (persist_channel_peer dir name i fs) (persist_peers dir name is)"

lemma persist_peers_content:
  assumes "fs dir \<noteq> None"
  shows "\<exists>fs'. persist_peers dir name infos fs = Ok fs' \<and> fs' dir \<noteq> None \<and>
    (infos \<noteq> [] \<longrightarrow> dir_map fs' dir name =
       Some ((case dir_map fs dir name of None \<Rightarrow> [] | Some c \<Rightarrow> c) @
             as_bytes (concat (map (\<lambda>l. l @ [CHR 0x0A]) infos)))) \<and>
    (infos = [] \<longrightarrow> fs' = fs)"
  using assms
proof (induction infos arbitrary: fs)
  case (Cons i infos)
  obtain dirst where d: "fs dir = Some dirst" using Cons.prems by blast
  let ?old = "case dir_map fs dir name of None \<Rightarrow> [] | Some c \<Rightarrow> c"
  have "\<exists>fs1. persist_channel_peer dir name i fs = Ok fs1 \<and> fs1 dir \<noteq> None \<and>
      dir_map fs1 dir name = Some (?old @ as_bytes (i @ [CHR 0x0A]))"
    using d by (cases "map_of (entries dirst) name")
      (simp_all add: persist_channel_peer_def set_file_def dir_map_def lookup_file_def)
  then obtain fs1 where p: "persist_channel_peer dir name i fs = Ok fs1" "fs1 dir \<noteq> None"
    "dir_map fs1 dir name = Some (?old @ as_bytes (i @ [CHR 0x0A]))" by blast
  then show ?case using Cons.IH [of fs1] by (cases "infos = []") (auto simp: as_bytes_def)
qed simp

lemma read_peers_loop_Ok:
  assumes "\<forall>l\<in>set ls. \<exists>e. parse_peer_info env l = Ok e"
  shows "read_peers_loop env m ls =
    Ok (foldl (\<lambda>m l. case parse_peer_info env l of Ok (pk, a) \<Rightarrow> hm_insert pk a m | _ \<Rightarrow> m) m ls)"
  using assms by (induction ls arbitrary: m) (auto split: prod.splits)

lemma foldl_insert_other:
  assumes "\<forall>l\<in>set ls. \<forall>a. f l \<noteq> Ok (k, a)"
  shows "map_of (foldl (\<lambda>m l. case f l of Ok (k, a) \<Rightarrow> hm_insert k a m | _ \<Rightarrow> m) m ls) k = map_of m k"
  using assms
proof (induction ls arbitrary: m)
  case (Cons l ls)
  then show ?case by (cases "f l") (auto split: prod.splits)
qed simp

lemma read_saved_peers:
  assumes "dir_map fs dir name = Some (as_bytes (concat (map (\<lambda>l. l @ [CHR 0x0A]) infos)))"
    and "\<forall>l\<in>set infos. CHR 0x0A \<notin> set l \<and> CHR 0x0D \<notin> set l"
  shows "read_channel_peer_data env dir name fs = read_peers_loop env [] infos"
proof -
  have "strip_cr l = l" if "CHR 0x0D \<notin> set l" for l
    using that by (metis last_in_set strip_cr_def)
  then have "lines_acc [] (concat (map (\<lambda>l. l @ [CHR 0x0A]) infos)) = infos"
    using assms(2) by (intro lines_acc_concat) auto
  then show ?thesis
    using assms(1) by (auto simp: read_channel_peer_data_def dir_map_def)
qed

lemma parse_peer_info_format:
  assumes "length pk = 33" "CHR ''@'' \<notin> set addr" "resolve env addr = Some a" "from_slice env pk = Some k"
  shows "parse_peer_info env (hex_str pk @ ''@'' @ addr) = Ok (k, a)"
proof -
  have "CHR ''@'' \<notin> set (hex_str pk)" by (rule hex_str_no_char) simp
  with assms show ?thesis
    by (simp add: parse_peer_info_def split_on_append_sep split_on_no_sep to_compressed_pubkey_def
        length_hex_str to_vec_def to_vec_loop_hex_str)
qed

section \<open>Properties\<close>

text \<open>
  Peers saved when channels are opened are found again: after any series of saves of well-formed
  descriptions without line ends into a new file, reading it yields for every saved key the address of
  its last description.
\<close>

theorem peer_data_round_trip:
  assumes "fs dir \<noteq> None" and "dir_map fs dir name = None"
    and "\<forall>l\<in>set infos. CHR 0x0A \<notin> set l \<and> CHR 0x0D \<notin> set l \<and> (\<exists>e. parse_peer_info env l = Ok e)"
  shows "\<exists>fs' peers. persist_peers dir name infos fs = Ok fs' \<and>
    read_channel_peer_data env dir name fs' = Ok peers \<and>
    (\<forall>pre i post pk a. infos = pre @ i # post \<and> parse_peer_info env i = Ok (pk, a) \<and>
       (\<forall>j\<in>set post. \<forall>a'. parse_peer_info env j \<noteq> Ok (pk, a')) \<longrightarrow> map_of peers pk = Some a)"
proof -
  let ?ins = "\<lambda>m l. case parse_peer_info env l of Ok (pk, a) \<Rightarrow> hm_insert pk a m | _ \<Rightarrow> m"
  obtain fs' where fs': "persist_peers dir name infos fs = Ok fs'"
    "infos \<noteq> [] \<longrightarrow> dir_map fs' dir name = Some (as_bytes (concat (map (\<lambda>l. l @ [CHR 0x0A]) infos)))"
    "infos = [] \<longrightarrow> fs' = fs"
    using persist_peers_content [of fs dir name infos] assms(1,2) by auto
  have "read_channel_peer_data env dir name fs' = Ok (foldl ?ins [] infos)"
  proof (cases "infos = []")
    case True
    with fs'(3) assms(2) show ?thesis by (simp add: read_channel_peer_data_def dir_map_def)
  next
    case False
    then have "read_channel_peer_data env dir name fs' = read_peers_loop env [] infos"
      using fs'(2) assms(3) by (intro read_saved_peers) auto
    then show ?thesis using assms(3) by (simp add: read_peers_loop_Ok)
  qed
  moreover have "map_of (foldl ?ins [] infos) pk = Some a"
    if "infos = pre @ i # post" "parse_peer_info env i = Ok (pk, a)"
      "\<forall>j\<in>set post. \<forall>a'. parse_peer_info env j \<noteq> Ok (pk, a')" for pre i post pk a
    using that foldl_insert_other [of post "parse_peer_info env" pk] by simp
  ultimately show ?thesis using fs'(1) by blast
qed

theorem peer_data_round_trip_witness:
  "\<exists>(pk :: bytes) fs' peers. length pk = 33 \<and>
     persist_peers ''.ldk'' ''p'' [hex_str pk @ ''@h:1'', hex_str pk @ ''@h:2''] [''.ldk'' \<mapsto> empty_dir] = Ok fs' \<and>
     read_channel_peer_data \<lparr>from_slice = Some, resolve = Some\<rparr> ''.ldk'' ''p'' fs' = Ok peers \<and>
     map_of peers pk = Some ''h:2''"
proof -
  let ?env = "\<lparr>from_slice = Some, resolve = Some\<rparr>"
  obtain pk :: bytes where len: "length pk = 33" using length_replicate [of 33 "0 :: u8"] by metis
  let ?i1 = "hex_str pk @ ''@h:1''" and ?i2 = "hex_str pk @ ''@h:2''"
  have no: "CHR 0x0A \<notin> set (hex_str pk)" "CHR 0x0D \<notin> set (hex_str pk)"
    by (rule hex_str_no_char, simp)+
  have p: "parse_peer_info ?env ?i1 = Ok (pk, ''h:1'')" "parse_peer_info ?env ?i2 = Ok (pk, ''h:2'')"
    using parse_peer_info_format [OF len, of "''h:1''" ?env] parse_peer_info_format [OF len, of "''h:2''" ?env]
    by simp_all
  have "\<exists>fs' peers. persist_peers ''.ldk'' ''p'' [?i1, ?i2] [''.ldk'' \<mapsto> empty_dir] = Ok fs' \<and>
    read_channel_peer_data ?env ''.ldk'' ''p'' fs' = Ok peers \<and>
    (\<forall>pre i post pk a. [?i1, ?i2] = pre @ i # post \<and> parse_peer_info ?env i = Ok (pk, a) \<and>
       (\<forall>j\<in>set post. \<forall>a'. parse_peer_info ?env j \<noteq> Ok (pk, a')) \<longrightarrow> map_of peers pk = Some a)"
  proof (rule peer_data_round_trip)
    show "\<forall>l\<in>set [?i1, ?i2]. CHR 0x0A \<notin> set l \<and> CHR 0x0D \<notin> set l \<and> (\<exists>e. parse_peer_info ?env l = Ok e)"
      using no p by simp
  qed (simp_all add: dir_map_def lookup_file_def empty_dir_def)
  then obtain fs' peers where "persist_peers ''.ldk'' ''p'' [?i1, ?i2] [''.ldk'' \<mapsto> empty_dir] = Ok fs'"
    "read_channel_peer_data ?env ''.ldk'' ''p'' fs' = Ok peers"
    and m: "\<And>pre i post pk a. [?i1, ?i2] = pre @ i # post \<Longrightarrow> parse_peer_info ?env i = Ok (pk, a) \<Longrightarrow>
       (\<forall>j\<in>set post. \<forall>a'. parse_peer_info ?env j \<noteq> Ok (pk, a')) \<Longrightarrow> map_of peers pk = Some a"
    by blast
  moreover have "map_of peers pk = Some ''h:2''"
    by (rule m [of "[?i1]" ?i2 "[]"]) (use p in simp_all)
  ultimately show ?thesis using len by blast
qed

end
