(* ===== verification/Cli.thy ===== *)
theory Cli
  imports Prober Peers
begin

text \<open>
  The command line of \<open>src/src/cli.rs\<close>: one definition per command of \<open>poll_for_user_input\<close>, the
  functions they call, and the loop over input lines. What the commands ask of the Lightning library is
  logged as \<open>calls\<close>, its answers come from the environment, and what is printed is kept as lines; a
  line that quotes a library error is kept up to the quotation. \<open>probeall\<close> hands over to the machine of
  \<open>Prober\<close>.
\<close>

section \<open>Environment and state\<close>

record Invoice =
  inv_payment_hash :: bytes
  inv_payment_secret :: bytes
  inv_amount_msat :: "u64 option"

datatype PaymentError = InvoiceError | RoutingError | SendingError

datatype Currency = BitcoinMain | BitcoinTestnet | RegtestCoin | SignetCoin

record ChannelDetails =
  chan_id :: bytes
  chan_funding_txid :: "string option"
  chan_counterparty :: bytes
  chan_scid :: "u64 option"
  is_channel_ready :: bool
  channel_value_satoshis :: u64
  balance_msat :: u64
  outbound_capacity_msat :: u64
  inbound_capacity_msat :: u64
  unspendable_punishment_reserve :: "u64 option"
  is_usable :: bool
  is_public :: bool

record cli_env =
  peer :: peer_env
  our_node_id :: bytes
  peer_node_ids :: "bytes list"
  connect_outcome :: "bytes \<Rightarrow> string \<Rightarrow> (unit, unit) outcome"
  create_channel_ok :: "bytes \<Rightarrow> u64 \<Rightarrow> bool \<Rightarrow> bool"
  invoice_from_str :: "string \<Rightarrow> Invoice option"
  pay_invoice :: "Invoice \<Rightarrow> PaymentError option"
  pay_pubkey :: "bytes \<Rightarrow> bytes \<Rightarrow> u64 \<Rightarrow> u32 \<Rightarrow> PaymentError option"
  secure_random_bytes :: bytes
  create_invoice :: "Currency \<Rightarrow> u64 \<Rightarrow> string \<Rightarrow> u32 \<Rightarrow> Invoice option"
  close_ok :: "bytes \<Rightarrow> bytes \<Rightarrow> bool"
  channels :: "ChannelDetails list"
  peer_alias :: "bytes \<Rightarrow> string option"
  sign_message :: "bytes \<Rightarrow> string"
  probing :: probe_env
  fake_preimage :: bytes
  ldk_data_dir :: string
  cli_network :: Network
  nodes_json :: "string \<Rightarrow> string list option"
  txs_json :: "string \<Rightarrow> Transaction list option"
  read_file :: "string \<Rightarrow> file_read"
  read_tx_dir :: "string \<Rightarrow> string option + file_read list"
  graph_nodes :: "bytes list"
  graph_channels :: "u64 list"
  results_writable :: "string \<Rightarrow> bool"

datatype cli_call =
    Connect bytes string
  | KeepConnected bytes string
  | CreateChannel bytes u64 bool
  | PayInvoice Invoice
  | PayPubkey bytes bytes u64 u32
  | CreateInvoice Currency u64 string u32
  | CloseChannel bytes bytes
  | ForceCloseChannel bytes bytes
  | SendFakePayment route bytes
  | WriteResults string "AttemptResult list"

record cli_state =
  cli_node :: node_state
  cli_fs :: fs
  console :: "string list"
  calls :: "cli_call list"

definition say :: "string \<Rightarrow> cli_state \<Rightarrow> cli_state" where
  "say l s = s\<lparr>console := console s @ [l]\<rparr>"

definition call :: "cli_call \<Rightarrow> cli_state \<Rightarrow> cli_state" where
  "call c s = s\<lparr>calls := calls s @ [c]\<rparr>"

type_synonym command_result = "(unit, cli_state) outcome"

text \<open>\<open>words.next()\<close>\<close>

definition word :: "string list \<Rightarrow> nat \<Rightarrow> string option" where
  "word ws n = (if n < length ws then Some (ws ! n) else None)"

section \<open>Channels\<close>

definition open_channel :: "cli_env \<Rightarrow> bytes \<Rightarrow> u64 \<Rightarrow> bool \<Rightarrow> cli_state \<Rightarrow> bool \<times> cli_state" where
  "open_channel env peer_pubkey channel_amt_sat announced_channel s =
     (let s1 = call (CreateChannel peer_pubkey channel_amt_sat announced_channel) s in
      if create_channel_ok env peer_pubkey channel_amt_sat announced_channel
      then (True, say (''EVENT: initiated channel with peer '' @ hex_str peer_pubkey @ ''. '') s1)
      else (False, say ''ERROR: failed to open channel: '' s1))"

text \<open>\<open>connect_peer_if_necessary\<close> with its calls and messages.\<close>

definition connect_peer :: "cli_env \<Rightarrow> bytes \<Rightarrow> string \<Rightarrow> cli_state \<Rightarrow> bool \<times> cli_state" where
  "connect_peer env pk peer_addr s =
     (case connect_peer_if_necessary (peer_node_ids env) pk (connect_outcome env pk peer_addr) of
        (res, spawned) \<Rightarrow>
          if spawned
          then let s1 = call (Connect pk peer_addr) s;
                   s2 = (if res = Ok () then s1 else say ''ERROR: failed to connect to peer'' s1)
               in (res = Ok (), call (KeepConnected pk peer_addr) s2)
          else (res = Ok (), s))"

definition cmd_openchannel :: "cli_env \<Rightarrow> string list \<Rightarrow> cli_state \<Rightarrow> command_result" where
  "cmd_openchannel env ws s =
     (case (word ws 0, word ws 1) of
        (Some peer_pubkey_and_ip_addr, Some channel_value_sat) \<Rightarrow>
          (case parse_peer_info (peer env) peer_pubkey_and_ip_addr of
             Panic \<Rightarrow> Panic
           | Err e \<Rightarrow> Ok (say ''ERROR: peer info'' s)
           | Ok (pk, peer_addr) \<Rightarrow>
               (case parse_u64 channel_value_sat of
                  None \<Rightarrow> Ok (say ''ERROR: channel amount must be a number'' s)
                | Some chan_amt_sat \<Rightarrow>
                    (case connect_peer env pk peer_addr s of
                       (False, s1) \<Rightarrow> Ok s1
                     | (True, s1) \<Rightarrow>
                         (let announce =
                                (case word ws 2 of
                                   None \<Rightarrow> Some False
                                 | Some w \<Rightarrow>
                                     if w = ''--public'' \<or> w = ''--public=true'' then Some True
                                     else if w = ''--public=false'' then Some False
                                     else None) in
                          case announce of
                            None \<Rightarrow> Ok (say ''ERROR: invalid `--public` command format. Valid formats: `--public`, `--public=true` `--public=false`'' s1)
                          | Some announce_channel \<Rightarrow>
                              (case open_channel env pk chan_amt_sat announce_channel s1 of
                                 (False, s2) \<Rightarrow> Ok s2
                               | (True, s2) \<Rightarrow>
                                   (case persist_channel_peer (ldk_data_dir env) ''channel_peer_data''
                                           peer_pubkey_and_ip_addr (cli_fs s2) of
                                      Ok fs' \<Rightarrow> Ok (s2\<lparr>cli_fs := fs'\<rparr>)
                                    | Err _ \<Rightarrow> Ok s2
                                    | Panic \<Rightarrow> Panic))))))
      | _ \<Rightarrow> Ok (say ''ERROR: openchannel has 2 required arguments: `openchannel pubkey@host:port channel_amt_satoshis` [--public]'' s))"

definition cmd_connectpeer :: "cli_env \<Rightarrow> string list \<Rightarrow> cli_state \<Rightarrow> command_result" where
  "cmd_connectpeer env ws s =
     (case word ws 0 of
        None \<Rightarrow> Ok (say ''ERROR: connectpeer requires peer connection info: `connectpeer pubkey@host:port`'' s)
      | Some info \<Rightarrow>
          (case parse_peer_info (peer env) info of
             Panic \<Rightarrow> Panic
           | Err e \<Rightarrow> Ok (say ''ERROR: peer info'' s)
           | Ok (pk, peer_addr) \<Rightarrow>
               (case connect_peer env pk peer_addr s of
                  (True, s1) \<Rightarrow> Ok (say (''SUCCESS: connected to peer '' @ hex_str pk) s1)
                | (False, s1) \<Rightarrow> Ok s1)))"

text \<open>The arguments \<open>closechannel\<close> and \<open>forceclosechannel\<close> share.\<close>

definition parse_close_args :: "cli_env \<Rightarrow> string \<Rightarrow> string list \<Rightarrow> string + bytes \<times> bytes" where
  "parse_close_args env name ws =
     (case word ws 0 of
        None \<Rightarrow> Inl (''ERROR: '' @ name @ '' requires a channel ID: `'' @ name @ '' <channel_id> <peer_pubkey>`'')
      | Some channel_id_str \<Rightarrow>
          (case to_vec channel_id_str of
             None \<Rightarrow> Inl ''ERROR: couldn't parse channel_id''
           | Some cid \<Rightarrow>
               if length cid \<noteq> 32 then Inl ''ERROR: couldn't parse channel_id''
               else (case word ws 1 of
                       None \<Rightarrow> Inl (''ERROR: '' @ name @ '' requires a peer pubkey: `'' @ name @ '' <channel_id> <peer_pubkey>`'')
                     | Some peer_pubkey_str \<Rightarrow>
                         (case to_vec peer_pubkey_str of
                            None \<Rightarrow> Inl ''ERROR: couldn't parse peer_pubkey''
                          | Some peer_pubkey_vec \<Rightarrow>
                              (case from_slice (peer env) peer_pubkey_vec of
                                 None \<Rightarrow> Inl ''ERROR: couldn't parse peer_pubkey''
                               | Some peer_pubkey \<Rightarrow> Inr (cid, peer_pubkey))))))"

definition close_channel :: "cli_env \<Rightarrow> bytes \<Rightarrow> bytes \<Rightarrow> cli_state \<Rightarrow> cli_state" where
  "close_channel env cid counterparty_node_id s =
     say (if close_ok env cid counterparty_node_id then ''EVENT: initiating channel close''
          else ''ERROR: failed to close channel: '') (call (CloseChannel cid counterparty_node_id) s)"

definition force_close_channel :: "cli_env \<Rightarrow> bytes \<Rightarrow> bytes \<Rightarrow> cli_state \<Rightarrow> cli_state" where
  "force_close_channel env cid counterparty_node_id s =
     say (if close_ok env cid counterparty_node_id then ''EVENT: initiating channel force-close''
          else ''ERROR: failed to force-close channel: '') (call (ForceCloseChannel cid counterparty_node_id) s)"

definition cmd_closechannel :: "cli_env \<Rightarrow> string list \<Rightarrow> cli_state \<Rightarrow> command_result" where
  "cmd_closechannel env ws s =
     (case parse_close_args env ''closechannel'' ws of
        Inl e \<Rightarrow> Ok (say e s)
      | Inr (cid, peer_pubkey) \<Rightarrow> Ok (close_channel env cid peer_pubkey s))"

definition cmd_forceclosechannel :: "cli_env \<Rightarrow> string list \<Rightarrow> cli_state \<Rightarrow> command_result" where
  "cmd_forceclosechannel env ws s =
     (case parse_close_args env ''forceclosechannel'' ws of
        Inl e \<Rightarrow> Ok (say e s)
      | Inr (cid, peer_pubkey) \<Rightarrow> Ok (force_close_channel env cid peer_pubkey s))"

section \<open>Payments\<close>

definition record_outbound :: "bytes \<Rightarrow> PaymentInfo \<Rightarrow> cli_state \<Rightarrow> cli_state" where
  "record_outbound h info s =
     s\<lparr>cli_node := (cli_node s)\<lparr>outbound_payments := hm_insert h info (outbound_payments (cli_node s))\<rparr>\<rparr>"

text \<open>\<open>send_payment\<close> of the command line.\<close>

definition send_invoice_payment :: "cli_env \<Rightarrow> Invoice \<Rightarrow> cli_state \<Rightarrow> command_result" where
  "send_invoice_payment env invoice s0 =
     (let s = call (PayInvoice invoice) s0;
          entry = (\<lambda>st. \<lparr>preimage = None, secret = Some (inv_payment_secret invoice), status = st,
                         amt_msat = inv_amount_msat invoice\<rparr>) in
      case pay_invoice env invoice of
        None \<Rightarrow>
          (case inv_amount_msat invoice of
             None \<Rightarrow> Panic
           | Some amt \<Rightarrow>
               Ok (record_outbound (inv_payment_hash invoice) (entry Pending)
                     (say (''EVENT: initiated sending '' @ to_string amt @ '' msats to '') s)))
      | Some InvoiceError \<Rightarrow> Ok (say ''ERROR: invalid invoice: '' s)
      | Some RoutingError \<Rightarrow> Ok (say ''ERROR: failed to find route: '' s)
      | Some SendingError \<Rightarrow>
          Ok (record_outbound (inv_payment_hash invoice) (entry Failed)
                (say ''ERROR: failed to send payment: '' s)))"

definition cmd_sendpayment :: "cli_env \<Rightarrow> string list \<Rightarrow> cli_state \<Rightarrow> command_result" where
  "cmd_sendpayment env ws s =
     (case word ws 0 of
        None \<Rightarrow> Ok (say ''ERROR: sendpayment requires an invoice: `sendpayment <invoice>`'' s)
      | Some invoice_str \<Rightarrow>
          (case invoice_from_str env invoice_str of
             None \<Rightarrow> Ok (say ''ERROR: invalid invoice: '' s)
           | Some invoice \<Rightarrow> send_invoice_payment env invoice s))"

definition keysend :: "cli_env \<Rightarrow> bytes \<Rightarrow> u64 \<Rightarrow> cli_state \<Rightarrow> cli_state" where
  "keysend env payee amt s0 =
     (let payment_preimage = secure_random_bytes env;
          s = call (PayPubkey payee payment_preimage amt 40) s0;
          h = sha256 (probing env) payment_preimage;
          entry = (\<lambda>st. \<lparr>preimage = None, secret = None, status = st, amt_msat = Some amt\<rparr>) in
      case pay_pubkey env payee payment_preimage amt 40 of
        None \<Rightarrow> record_outbound h (entry Pending)
                  (say (''EVENT: initiated sending '' @ to_string amt @ '' msats to '' @ hex_str payee) s)
      | Some InvoiceError \<Rightarrow> say ''ERROR: invalid payee: '' s
      | Some RoutingError \<Rightarrow> say ''ERROR: failed to find route: '' s
      | Some SendingError \<Rightarrow> record_outbound h (entry Failed) (say ''ERROR: failed to send payment: '' s))"

definition cmd_keysend :: "cli_env \<Rightarrow> string list \<Rightarrow> cli_state \<Rightarrow> command_result" where
  "cmd_keysend env ws s =
     (case word ws 0 of
        None \<Rightarrow> Ok (say ''ERROR: keysend requires a destination pubkey: `keysend <dest_pubkey> <amt_msat>`'' s)
      | Some dest \<Rightarrow>
          (case to_compressed_pubkey (from_slice (peer env)) dest of
             Ok (Some pk) \<Rightarrow>
               (case word ws 1 of
                  None \<Rightarrow> Ok (say ''ERROR: keysend requires an amount in millisatoshis: `keysend <dest_pubkey> <amt_msat>`'' s)
                | Some amt_msat_str \<Rightarrow>
                    (case parse_u64 amt_msat_str of
                       None \<Rightarrow> Ok (say ''ERROR: couldn't parse amount_msat: '' s)
                     | Some amt \<Rightarrow> Ok (keysend env pk amt s)))
           | Ok None \<Rightarrow> Ok (say ''ERROR: couldn't parse destination pubkey'' s)
           | _ \<Rightarrow> Panic))"

definition currency_of :: "Network \<Rightarrow> Currency" where
  "currency_of net =
     (case net of Bitcoin \<Rightarrow> BitcoinMain | Testnet \<Rightarrow> BitcoinTestnet | Regtest \<Rightarrow> RegtestCoin
      | Signet \<Rightarrow> SignetCoin)"

definition get_invoice :: "cli_env \<Rightarrow> u64 \<Rightarrow> u32 \<Rightarrow> cli_state \<Rightarrow> cli_state" where
  "get_invoice env amt expiry_secs s0 =
     (let currency = currency_of (cli_network env);
          s = call (CreateInvoice currency amt ''ldk-tutorial-node'' expiry_secs) s0 in
      case create_invoice env currency amt ''ldk-tutorial-node'' expiry_secs of
        None \<Rightarrow> say ''ERROR: failed to create invoice: '' s
      | Some invoice \<Rightarrow>
          (let s1 = say ''SUCCESS: generated invoice: '' s in
           s1\<lparr>cli_node := (cli_node s1)\<lparr>inbound_payments :=
                hm_insert (inv_payment_hash invoice)
                  \<lparr>preimage = None, secret = Some (inv_payment_secret invoice), status = Pending,
                   amt_msat = Some amt\<rparr> (inbound_payments (cli_node s1))\<rparr>\<rparr>))"

definition cmd_getinvoice :: "cli_env \<Rightarrow> string list \<Rightarrow> cli_state \<Rightarrow> command_result" where
  "cmd_getinvoice env ws s =
     (case word ws 0 of
        None \<Rightarrow> Ok (say ''ERROR: getinvoice requires an amount in millisatoshis'' s)
      | Some amt_str \<Rightarrow>
          (case parse_u64 amt_str of
             None \<Rightarrow> Ok (say ''ERROR: getinvoice provided payment amount was not a number'' s)
           | Some amt \<Rightarrow>
               (case word ws 1 of
                  None \<Rightarrow> Ok (say ''ERROR: getinvoice requires an expiry in seconds'' s)
                | Some expiry_secs_str \<Rightarrow>
                    (case parse_u32 expiry_secs_str of
                       None \<Rightarrow> Ok (say ''ERROR: getinvoice provided expiry was not a number'' s)
                     | Some expiry_secs \<Rightarrow> Ok (get_invoice env amt expiry_secs s)))))"

section \<open>Listings\<close>

definition tabs :: "nat \<Rightarrow> string" where "tabs n = replicate n CHR 0x09"

definition println :: "string \<Rightarrow> string" where "println l = l @ [CHR 0x0A]"

definition show_bool :: "bool \<Rightarrow> string" where "show_bool b = (if b then ''true'' else ''false'')"

definition local_balance_msat :: "ChannelDetails list \<Rightarrow> u64" where
  "local_balance_msat chans =
     sum_list (map (\<lambda>c. (case unspendable_punishment_reserve c of Some r \<Rightarrow> r | None \<Rightarrow> 0) * 1000 +
                        outbound_capacity_msat c) chans)"

definition node_info :: "cli_env \<Rightarrow> string" where
  "node_info env =
     println (tabs 1 @ ''{'') @
     println (tabs 2 @ '' node_pubkey: '' @ hex_str (our_node_id env)) @
     println (tabs 2 @ '' num_channels: '' @ show_nat (length (channels env))) @
     println (tabs 2 @ '' num_usable_channels: '' @ show_nat (length (filter is_usable (channels env)))) @
     println (tabs 2 @ '' local_balance_msat: '' @ to_string (local_balance_msat (channels env))) @
     println (tabs 2 @ '' num_peers: '' @ show_nat (length (peer_node_ids env))) @
     println (tabs 1 @ ''},'')"

definition list_peers :: "cli_env \<Rightarrow> string" where
  "list_peers env =
     println (tabs 1 @ ''{'') @
     concat (map (\<lambda>pk. println (tabs 2 @ '' pubkey: '' @ hex_str pk)) (peer_node_ids env)) @
     println (tabs 1 @ ''},'')"

definition list_channel :: "cli_env \<Rightarrow> ChannelDetails \<Rightarrow> string" where
  "list_channel env c =
     println [] @ println (tabs 1 @ ''{'') @
     println (tabs 2 @ ''channel_id: '' @ hex_str (chan_id c) @ '','') @
     (case chan_funding_txid c of None \<Rightarrow> [] | Some t \<Rightarrow> println (tabs 2 @ ''funding_txid: '' @ t @ '','')) @
     println (tabs 2 @ ''peer_pubkey: '' @ hex_str (chan_counterparty c) @ '','') @
     (case peer_alias env (chan_counterparty c) of
        None \<Rightarrow> [] | Some a \<Rightarrow> println (tabs 2 @ ''peer_alias: '' @ a)) @
     (case chan_scid c of None \<Rightarrow> [] | Some i \<Rightarrow> println (tabs 2 @ ''short_channel_id: '' @ to_string i @ '','')) @
     println (tabs 2 @ ''is_channel_ready: '' @ show_bool (is_channel_ready c) @ '','') @
     println (tabs 2 @ ''channel_value_satoshis: '' @ to_string (channel_value_satoshis c) @ '','') @
     println (tabs 2 @ ''local_balance_msat: '' @ to_string (balance_msat c) @ '','') @
     (if is_usable c
      then println (tabs 2 @ ''available_balance_for_send_msat: '' @ to_string (outbound_capacity_msat c) @ '','') @
           println (tabs 2 @ ''available_balance_for_recv_msat: '' @ to_string (inbound_capacity_msat c) @ '','')
      else []) @
     println (tabs 2 @ ''channel_can_send_payments: '' @ show_bool (is_usable c) @ '','') @
     println (tabs 2 @ ''public: '' @ show_bool (is_public c) @ '','') @
     println (tabs 1 @ ''},'')"

definition list_channels :: "cli_env \<Rightarrow> string" where
  "list_channels env = ''['' @ concat (map (list_channel env) (channels env)) @ println '']''"

definition list_payment :: "string \<Rightarrow> bytes \<times> PaymentInfo \<Rightarrow> string" where
  "list_payment direction e =
     println [] @ println (tabs 1 @ ''{'') @
     println (tabs 2 @ ''amount_millisatoshis: '' @ show_millisat_amount (amt_msat (snd e)) @ '','') @
     println (tabs 2 @ ''payment_hash: '' @ hex_str (fst e) @ '','') @
     println (tabs 2 @ ''htlc_direction: '' @ direction @ '','') @
     println (tabs 2 @ ''htlc_status: '' @ show_htlc_status (status (snd e)) @ '','') @
     println (tabs 1 @ ''},'')"

definition list_payments :: "node_state \<Rightarrow> string" where
  "list_payments n =
     ''['' @ concat (map (list_payment ''inbound'') (inbound_payments n)) @
     concat (map (list_payment ''outbound'') (outbound_payments n)) @ println '']''"

definition help_text :: string where
  "help_text = concat (map println
     [''openchannel pubkey@host:port <amt_satoshis>'', ''sendpayment <invoice>'',
      ''getinvoice <amt_millisatoshis>'', ''connectpeer pubkey@host:port'', ''listchannels'',
      ''listpayments'', ''closechannel <channel_id>'', ''forceclosechannel <channel_id>'', ''nodeinfo'',
      ''listpeers'', ''signmessage <message>'', ''findroutes <pubkey>'', ''sendfakepayment <pubkey>'',
      ''probeprivate <pubkey> <guessed_node> <channel_id>'', ''probeprivate <nodefile> <txfile>''])"

definition cmd_signmessage :: "cli_env \<Rightarrow> string \<Rightarrow> cli_state \<Rightarrow> command_result" where
  "cmd_signmessage env line s =
     (let msg_startpos = length ''signmessage'' + 1 in
      if length (as_bytes line) \<le> msg_startpos then Ok (say ''ERROR: signmsg requires a message'' s)
      else Ok (say (sign_message env (drop msg_startpos (as_bytes line))) s))"

section \<open>Probing commands\<close>

definition cmd_findroutes :: "cli_env \<Rightarrow> string list \<Rightarrow> cli_state \<Rightarrow> command_result" where
  "cmd_findroutes env ws s =
     (case word ws 0 of
        None \<Rightarrow> Ok (say ''ERROR: findroutes requires a pubkey: `findroutes <pubkey>`'' s)
      | Some pubkey_str \<Rightarrow>
          (case find_routes (probing env) pubkey_str [] of
             Ok route \<Rightarrow> Ok s
           | Err _ \<Rightarrow> Ok (say ''No route found'' s)
           | Panic \<Rightarrow> Panic))"

definition cmd_sendfakepayment :: "cli_env \<Rightarrow> string list \<Rightarrow> cli_state \<Rightarrow> command_result" where
  "cmd_sendfakepayment env ws s =
     (case word ws 0 of
        None \<Rightarrow> Ok (say ''ERROR: findroutes requires a pubkey: `findroutes <pubkey>`'' s)
      | Some pubkey_str \<Rightarrow>
          (case find_routes (probing env) pubkey_str [] of
             Ok route \<Rightarrow>
               (let payment_hash = sha256 (probing env) (fake_preimage env);
                    s1 = call (SendFakePayment route payment_hash) s in
                if send_payment (probing env) route payment_hash then Ok (say ''Payment attempt sent'' s1)
                else Ok (say ''payment failure'' s1))
           | Err _ \<Rightarrow> Ok s
           | Panic \<Rightarrow> Panic))"

definition cmd_probeprivate :: "cli_env \<Rightarrow> string list \<Rightarrow> cli_state \<Rightarrow> command_result" where
  "cmd_probeprivate env ws s =
     (case (word ws 0, word ws 1, word ws 2) of
        (Some pubkey_str, Some guess, Some channel_id_str) \<Rightarrow>
          (case probe (probing env) (fake_preimage env) pubkey_str channel_id_str guess
                  (pending_payments (cli_node s)) of
             (Panic, pend) \<Rightarrow> Panic
           | (_, pend) \<Rightarrow> Ok (s\<lparr>cli_node := (cli_node s)\<lparr>pending_payments := pend\<rparr>\<rparr>))
      | _ \<Rightarrow> Ok (say ''ERROR: probeprivate requires pubkey, guessed pubkey, and channel_id: `probeprivate <pubkey> <pubkey_guess> <channel_id>`'' s))"

definition probeall_inputs_of :: "cli_env \<Rightarrow> string list \<Rightarrow> cli_state \<Rightarrow> probeall_inputs" where
  "probeall_inputs_of env ws s =
     \<lparr>in_probetype = word ws 0, in_nodepath = word ws 1, in_txpath = word ws 2,
      in_graph_nodes = graph_nodes env, in_graph_channels = graph_channels env,
      in_node_file = (case word ws 1 of Some p \<Rightarrow> read_file env p | None \<Rightarrow> ReadFailed None),
      in_tx_dir = (case word ws 2 of Some p \<Rightarrow> read_tx_dir env p | None \<Rightarrow> Inl None),
      in_rows = attempt_table (cli_node s)\<rparr>"

definition cmd_dump_results :: "cli_env \<Rightarrow> string list \<Rightarrow> cli_state \<Rightarrow> command_result" where
  "cmd_dump_results env ws s =
     (case (word ws 0, word ws 1) of
        (Some result_dir, Some txpath) \<Rightarrow>
          (case read_tx_dir env txpath of
             Inl e \<Rightarrow> print_inner_error e s
           | Inr tx_files \<Rightarrow>
               and_then (load_transactions (txs_json env) [] tx_files) (\<lambda>txs.
               and_then (dump_results txs (attempt_table (cli_node s))) (\<lambda>results.
                 if results_writable env (result_dir @ ''/results.json'')
                 then Ok (call (WriteResults (result_dir @ ''/results.json'') results) s)
                 else Panic)))
      | _ \<Rightarrow> Ok (say ''ERROR: dump_results requires result_dir tx_dir: `dump_results <result_dir> <tx_dir>`'' s))"

section \<open>The command loop\<close>

datatype cli_step = Stop | Next cli_state | Probe_All probe_config "string list" cli_state

definition next_step :: "command_result \<Rightarrow> (unit, cli_step) outcome" where
  "next_step r = map_ok Next r"

definition process_line :: "cli_env \<Rightarrow> string \<Rightarrow> cli_state \<Rightarrow> (unit, cli_step) outcome" where
  "process_line env line s =
     (case split_whitespace line of
        [] \<Rightarrow> Ok (Next s)
      | cmd # ws \<Rightarrow>
          if cmd = ''help'' then Ok (Next (say help_text s))
          else if cmd = ''stop'' then Ok Stop
          else if cmd = ''openchannel'' then next_step (cmd_openchannel env ws s)
          else if cmd = ''sendpayment'' then next_step (cmd_sendpayment env ws s)
          else if cmd = ''keysend'' then next_step (cmd_keysend env ws s)
          else if cmd = ''getinvoice'' then next_step (cmd_getinvoice env ws s)
          else if cmd = ''connectpeer'' then next_step (cmd_connectpeer env ws s)
          else if cmd = ''listchannels'' then Ok (Next (say (list_channels env) s))
          else if cmd = ''listpayments'' then Ok (Next (say (list_payments (cli_node s)) s))
          else if cmd = ''closechannel'' then next_step (cmd_closechannel env ws s)
          else if cmd = ''forceclosechannel'' then next_step (cmd_forceclosechannel env ws s)
          else if cmd = ''nodeinfo'' then Ok (Next (say (node_info env) s))
          else if cmd = ''listpeers'' then Ok (Next (say (list_peers env) s))
          else if cmd = ''signmessage'' then next_step (cmd_signmessage env line s)
          else if cmd = ''findroutes'' then next_step (cmd_findroutes env ws s)
          else if cmd = ''sendfakepayment'' then next_step (cmd_sendfakepayment env ws s)
          else if cmd = ''probeprivate'' then next_step (cmd_probeprivate env ws s)
          else if cmd = ''probeall'' then
            map_ok (\<lambda>r. case r of None \<Rightarrow> Next s | Some (cfg, nodes) \<Rightarrow> Probe_All cfg nodes s)
              (probeall_prepare (nodes_json env) (txs_json env) (probeall_inputs_of env ws s))
          else if cmd = ''dump_results'' then next_step (cmd_dump_results env ws s)
          else Ok (Next (say ''Unknown command. See `\"help\" for available commands.'' s)))"

text \<open>
  The loop over the input, each line with the environment at its time; \<open>run_probeall\<close> is the state a
  finished \<open>probeall\<close> leaves the tables in, or nothing if the process ended meanwhile.
\<close>

fun poll_for_user_input ::
  "(probe_config \<Rightarrow> string list \<Rightarrow> node_state \<Rightarrow> node_state option) \<Rightarrow> (cli_env \<times> string) list \<Rightarrow>
   cli_state \<Rightarrow> (unit, cli_state) outcome" where
  "poll_for_user_input run_probeall [] s = Ok s"
| "poll_for_user_input run_probeall ((env, line) # ls) s =
     (case process_line env line s of
        Ok Stop \<Rightarrow> Ok s
      | Ok (Next s') \<Rightarrow> poll_for_user_input run_probeall ls s'
      | Ok (Probe_All cfg nodes s') \<Rightarrow>
          (case run_probeall cfg nodes (cli_node s') of
             None \<Rightarrow> Panic
           | Some n \<Rightarrow> poll_for_user_input run_probeall ls (s'\<lparr>cli_node := n\<rparr>))
      | Err e \<Rightarrow> Err e
      | Panic \<Rightarrow> Panic)"

section \<open>Lemmas\<close>

lemma say_simps [simp]: "cli_node (say l s) = cli_node s" "cli_fs (say l s) = cli_fs s" "calls (say l s) = calls s"
  by (simp_all add: say_def)

lemma call_simps [simp]: "cli_node (call c s) = cli_node s" "cli_fs (call c s) = cli_fs s" "calls (call c s) = calls s @ [c]"
  by (simp_all add: call_def)

lemma record_outbound_simps [simp]:
  "outbound_payments (cli_node (record_outbound h info s)) = hm_insert h info (outbound_payments (cli_node s))"
  "calls (record_outbound h info s) = calls s"
  by (simp_all add: record_outbound_def)

lemma map_of_map_snd: "map_of (map (\<lambda>(k, v). (k, f k v)) m) k = map_option (f k) (map_of m k)"
  by (induction m) auto

lemma on_payment_sent_lookup:
  assumes "on_payment_sent p h n = Ok (n', effs)" and "map_of (outbound_payments n) h = Some e"
  shows "map_of (outbound_payments n') h = Some (e\<lparr>preimage := Some p, status := Succeeded\<rparr>)"
  using assms by (auto simp: on_payment_sent_def map_of_map_snd)

lemma print_inner_error_not_Err [simp]: "print_inner_error e a \<noteq> Err ()"
  by (simp add: print_inner_error_def split: option.splits)

lemma persist_channel_peer_not_Panic: "persist_channel_peer d n info fs \<noteq> Panic"
  by (simp add: persist_channel_peer_def split: option.splits)

lemma parse_peer_info_Panic:
  assumes "parse_peer_info env info = Panic"
  shows "length (hd (split_on CHR ''@'' info)) < 66"
  using assms by (auto simp: parse_peer_info_def to_compressed_pubkey_def split: list.splits option.splits outcome.splits if_splits)

lemma cmd_openchannel_Panic:
  "cmd_openchannel env ws s = Panic \<Longrightarrow> \<exists>info. word ws 0 = Some info \<and> length (hd (split_on CHR ''@'' info)) < 66"
  using persist_channel_peer_not_Panic
  by (auto simp: cmd_openchannel_def Let_def dest: parse_peer_info_Panic
      split: option.splits outcome.splits prod.splits bool.splits if_splits)

lemma cmd_connectpeer_Panic:
  "cmd_connectpeer env ws s = Panic \<Longrightarrow> \<exists>info. word ws 0 = Some info \<and> length (hd (split_on CHR ''@'' info)) < 66"
  by (auto simp: cmd_connectpeer_def dest: parse_peer_info_Panic
      split: option.splits outcome.splits prod.splits bool.splits)

lemma cmd_keysend_Panic: "cmd_keysend env ws s = Panic \<Longrightarrow> \<exists>dest. word ws 0 = Some dest \<and> length dest < 66"
  by (auto simp: cmd_keysend_def to_compressed_pubkey_def split: option.splits outcome.splits if_splits)

lemma cmd_sendpayment_Panic:
  "cmd_sendpayment env ws s = Panic \<Longrightarrow>
   \<exists>inv_str invoice. word ws 0 = Some inv_str \<and> invoice_from_str env inv_str = Some invoice \<and>
     pay_invoice env invoice = None \<and> inv_amount_msat invoice = None"
  by (auto simp: cmd_sendpayment_def send_invoice_payment_def Let_def split: option.splits PaymentError.splits)

lemma cmd_probeprivate_Panic:
  "cmd_probeprivate env ws s = Panic \<Longrightarrow> \<exists>target. word ws 0 = Some target \<and> pk_from_str (probing env) target = None"
  by (auto simp: cmd_probeprivate_def probe_def Let_def split: option.splits prod.splits outcome.splits if_splits)

lemma other_commands_not_Panic:
  "cmd_getinvoice env ws s \<noteq> Panic" "cmd_closechannel env ws s \<noteq> Panic" "cmd_forceclosechannel env ws s \<noteq> Panic"
  "cmd_signmessage env line s \<noteq> Panic" "cmd_findroutes env ws s \<noteq> Panic" "cmd_sendfakepayment env ws s \<noteq> Panic"
  by (auto simp: cmd_getinvoice_def cmd_closechannel_def cmd_forceclosechannel_def cmd_signmessage_def
      cmd_findroutes_def cmd_sendfakepayment_def Let_def split: option.splits sum.splits outcome.splits)

lemma next_step_Panic [simp]: "next_step r = Panic \<longleftrightarrow> r = Panic"
  by (cases r) (simp_all add: next_step_def)

lemmas command_Panic = cmd_openchannel_Panic cmd_connectpeer_Panic cmd_keysend_Panic cmd_sendpayment_Panic
  cmd_probeprivate_Panic

section \<open>Properties\<close>

text \<open>
  The life of an invoice payment. Paying an invoice that the library accepts records it as pending
  under its payment hash, with its secret and amount; when the payment later succeeds the same entry is
  marked succeeded with the preimage. A payment whose sending failed is recorded as failed, and one that
  was never sent (bad invoice, no route) leaves the table alone. The library is asked exactly once.
\<close>

theorem invoice_payment_life_cycle:
  assumes "inv_amount_msat invoice = Some amt"
  shows "\<exists>s'. send_invoice_payment env invoice s = Ok s' \<and> calls s' = calls s @ [PayInvoice invoice] \<and>
    (case pay_invoice env invoice of
       None \<Rightarrow>
         map_of (outbound_payments (cli_node s')) (inv_payment_hash invoice) =
           Some \<lparr>preimage = None, secret = Some (inv_payment_secret invoice), status = Pending, amt_msat = Some amt\<rparr> \<and>
         (\<forall>p n' effs. handle_ldk_events lenv net (PaymentSent p (inv_payment_hash invoice) fee) (cli_node s') = Ok (n', effs) \<longrightarrow>
            map_of (outbound_payments n') (inv_payment_hash invoice) =
              Some \<lparr>preimage = Some p, secret = Some (inv_payment_secret invoice), status = Succeeded, amt_msat = Some amt\<rparr>)
     | Some SendingError \<Rightarrow>
         map_option status (map_of (outbound_payments (cli_node s')) (inv_payment_hash invoice)) = Some Failed
     | Some _ \<Rightarrow> cli_node s' = cli_node s)"
  using assms on_payment_sent_lookup
  by (cases "pay_invoice env invoice")
     (fastforce simp: send_invoice_payment_def Let_def split: PaymentError.splits)+

theorem invoice_payment_life_cycle_witness:
  "\<forall>env s. \<exists>s'. send_invoice_payment
      (env\<lparr>pay_invoice := \<lambda>_. None\<rparr>) \<lparr>inv_payment_hash = [1], inv_payment_secret = [2], inv_amount_msat = Some 7\<rparr> s = Ok s' \<and>
    map_option status (map_of (outbound_payments (cli_node s')) [1]) = Some Pending"
proof (intro allI)
  fix env :: cli_env and s
  show "\<exists>s'. send_invoice_payment
      (env\<lparr>pay_invoice := \<lambda>_. None\<rparr>) \<lparr>inv_payment_hash = [1], inv_payment_secret = [2], inv_amount_msat = Some 7\<rparr> s = Ok s' \<and>
    map_option status (map_of (outbound_payments (cli_node s')) [1]) = Some Pending"
    using invoice_payment_life_cycle [of "\<lparr>inv_payment_hash = [1], inv_payment_secret = [2], inv_amount_msat = Some 7\<rparr>" 7
      "env\<lparr>pay_invoice := \<lambda>_. None\<rparr>" s] by auto
qed

text \<open>
  No line typed at the prompt ends the node, with these exceptions: a peer key or destination shorter
  than 66 characters (\<open>openchannel\<close>, \<open>connectpeer\<close>, \<open>keysend\<close>), an invoice the library pays although it has
  no amount, a \<open>probeprivate\<close> target that is not a key, and what \<open>probeall\<close> and \<open>dump_results\<close> find in
  their files.
\<close>

theorem prompt_panics:
  assumes "process_line env line s = Panic"
  shows "\<exists>cmd ws. split_whitespace line = cmd # ws \<and>
    ((cmd \<in> {''openchannel'', ''connectpeer''} \<and>
        (\<exists>info. word ws 0 = Some info \<and> length (hd (split_on CHR ''@'' info)) < 66)) \<or>
     (cmd = ''keysend'' \<and> (\<exists>dest. word ws 0 = Some dest \<and> length dest < 66)) \<or>
     (cmd = ''sendpayment'' \<and> (\<exists>inv_str invoice. word ws 0 = Some inv_str \<and>
        invoice_from_str env inv_str = Some invoice \<and> pay_invoice env invoice = None \<and>
        inv_amount_msat invoice = None)) \<or>
     (cmd = ''probeprivate'' \<and> (\<exists>target. word ws 0 = Some target \<and> pk_from_str (probing env) target = None)) \<or>
     cmd \<in> {''probeall'', ''dump_results''})"
proof -
  obtain cmd ws where l: "split_whitespace line = cmd # ws"
    using assms by (cases "split_whitespace line") (simp_all add: process_line_def)
  consider "cmd = ''openchannel''" | "cmd = ''connectpeer''" | "cmd = ''keysend''" | "cmd = ''sendpayment''"
    | "cmd = ''probeprivate''" | "cmd \<in> {''probeall'', ''dump_results''}"
    using assms l other_commands_not_Panic by (auto simp: process_line_def split: if_splits)
  then show ?thesis
    using assms l by cases (auto simp: process_line_def dest: command_Panic)
qed

theorem prompt_panics_witness:
  "\<forall>env s. process_line env ''keysend 02 1000'' s = Panic \<and>
   (\<exists>dest. word [''02'', ''1000''] 0 = Some dest \<and> length dest < 66)"
proof (intro allI)
  fix env :: cli_env and s
  have w: "split_whitespace ''keysend 02 1000'' = [''keysend'', ''02'', ''1000'']"
    by (simp add: split_whitespace_def is_whitespace_def)
  then have p: "process_line env ''keysend 02 1000'' s = Panic"
    by (simp add: process_line_def cmd_keysend_def word_def to_compressed_pubkey_def)
  from prompt_panics [OF this] w p
  show "process_line env ''keysend 02 1000'' s = Panic \<and>
    (\<exists>dest. word [''02'', ''1000''] 0 = Some dest \<and> length dest < 66)" by auto
qed

end
