(* ===== verification/Scraper.thy ===== *)
theory Scraper
  imports Node_Types
begin

text \<open>
  \<open>src/src/scraper/main.rs\<close>: joins a dump of the unspent outputs with the position of every transaction
  in its block, and writes the result as numbered parts of 10000 outputs that \<open>probeall\<close> and
  \<open>dump_results\<close> read. Rows of the two CSV files arrive deserialised, an unreadable row as an error that
  ends the program; \<open>usize\<close> is 64 bits wide.
\<close>

section \<open>Data\<close>

record UtxoDump =
  txid :: string
  vout :: u64
  height :: u64
  utxo_amount :: u64

record IterateDump =
  iter_txid :: string
  tx_height :: u64

section \<open>Grouping the outputs by transaction\<close>

definition add_utxo :: "(string \<times> UtxoDump list) list \<Rightarrow> UtxoDump \<Rightarrow> (string \<times> UtxoDump list) list" where
  "add_utxo utxo_dump utxo =
     (case map_of utxo_dump (txid utxo) of
        Some utxos \<Rightarrow> hm_insert (txid utxo) (utxos @ [utxo]) utxo_dump
      | None \<Rightarrow> hm_insert (txid utxo) [utxo] utxo_dump)"

fun load_utxos ::
  "(string \<times> UtxoDump list) list \<Rightarrow> (string + UtxoDump) list \<Rightarrow>
   (string, (string \<times> UtxoDump list) list) outcome" where
  "load_utxos utxo_dump [] = Ok utxo_dump"
| "load_utxos utxo_dump (Inl e # rows) = Err e"
| "load_utxos utxo_dump (Inr utxo # rows) = load_utxos (add_utxo utxo_dump utxo) rows"

section \<open>Writing the parts\<close>

text \<open>\<open>files\<close> are the parts written so far, in order: part \<open>n\<close> is entry \<open>n - 1\<close>.\<close>

record scrape_state =
  scrape_results :: "Transaction list"
  found :: nat
  part :: nat
  files :: "(nat \<times> Transaction list) list"

definition part_size :: nat where "part_size = 10000"

definition scrape_result :: "IterateDump \<Rightarrow> UtxoDump \<Rightarrow> Transaction" where
  "scrape_result iterate utxo =
     \<lparr>block_height = height utxo, tx_id = txid utxo, block_index = tx_height iterate,
      transaction_index = vout utxo, amount = utxo_amount utxo\<rparr>"

definition push_result :: "IterateDump \<Rightarrow> scrape_state \<Rightarrow> UtxoDump \<Rightarrow> scrape_state" where
  "push_result iterate s utxo =
     (let s1 = s\<lparr>scrape_results := scrape_results s @ [scrape_result iterate utxo],
                 found := found s + 1\<rparr> in
      if found s1 mod part_size = 0
      then s1\<lparr>files := files s1 @ [(part s1, scrape_results s1)], part := part s1 + 1,
              scrape_results := []\<rparr>
      else s1)"

fun scrape_loop ::
  "(string \<times> UtxoDump list) list \<Rightarrow> scrape_state \<Rightarrow> (string + IterateDump) list \<Rightarrow>
   (string, scrape_state) outcome" where
  "scrape_loop utxo_dump s [] = Ok s"
| "scrape_loop utxo_dump s (Inl e # rows) = Err e"
| "scrape_loop utxo_dump s (Inr iterate # rows) =
     (case map_of utxo_dump (iter_txid iterate) of
        Some utxos \<Rightarrow> scrape_loop utxo_dump (foldl (push_result iterate) s utxos) rows
      | None \<Rightarrow> scrape_loop utxo_dump s rows)"

definition scraper_main ::
  "string list \<Rightarrow> (string \<Rightarrow> string + (string + UtxoDump) list) \<Rightarrow>
   (string \<Rightarrow> string + (string + IterateDump) list) \<Rightarrow>
   (string, (nat \<times> Transaction list) list) outcome" where
  "scraper_main args utxo_csv iterate_csv =
     (if length args < 3 then Panic
      else case utxo_csv (args ! 1) of
             Inl e \<Rightarrow> Err e
           | Inr utxo_rows \<Rightarrow>
               and_then (load_utxos [] utxo_rows) (\<lambda>utxo_dump.
                 case iterate_csv (args ! 2) of
                   Inl e \<Rightarrow> Err e
                 | Inr iterate_rows \<Rightarrow>
                     map_ok (\<lambda>s. files s @ [(part s, scrape_results s)])
                       (scrape_loop utxo_dump
                          \<lparr>scrape_results = [], found = 0, part = 1, files = []\<rparr> iterate_rows)))"

section \<open>Lemmas\<close>

text \<open>What the join should produce.\<close>

definition scrape_join :: "UtxoDump list \<Rightarrow> IterateDump list \<Rightarrow> Transaction list" where
  "scrape_join utxos iterates =
     concat (map (\<lambda>i. map (scrape_result i) (filter (\<lambda>u. txid u = iter_txid i) utxos)) iterates)"

definition scrape_inv :: "scrape_state \<Rightarrow> Transaction list \<Rightarrow> bool" where
  "scrape_inv s out \<longleftrightarrow>
     concat (map snd (files s)) @ scrape_results s = out \<and> found s = length out \<and>
     map fst (files s) = [1..<part s] \<and> 1 \<le> part s \<and>
     (\<forall>f\<in>set (files s). length (snd f) = part_size) \<and>
     length (scrape_results s) < part_size \<and>
     found s mod part_size = length (scrape_results s)"

lemma part_size_pos: "part_size > 0"
  by (simp add: part_size_def)

lemma push_result_inv:
  assumes inv: "scrape_inv s out"
  shows "scrape_inv (push_result i s u) (out @ [scrape_result i u])"
proof (cases "Suc (found s) mod part_size = 0")
  case True
  then have "Suc (length (scrape_results s)) = part_size"
    using inv by (auto simp: scrape_inv_def mod_Suc split: if_splits)
  then show ?thesis
    using True inv part_size_pos by (auto simp: scrape_inv_def push_result_def Let_def)
next
  case False
  then have "Suc (found s) mod part_size = Suc (length (scrape_results s))"
    using inv by (auto simp: scrape_inv_def mod_Suc split: if_splits)
  then show ?thesis
    using False inv part_size_pos mod_less_divisor [of part_size "Suc (found s)"]
    by (auto simp: scrape_inv_def push_result_def Let_def simp del: mod_less_divisor)
qed

lemma foldl_push_inv:
  "scrape_inv s out \<Longrightarrow> scrape_inv (foldl (push_result i) s us) (out @ map (scrape_result i) us)"
proof (induction us arbitrary: s out)
  case (Cons u us)
  then show ?case using push_result_inv [OF Cons.prems] Cons.IH by fastforce
qed simp

lemma add_utxo_lookup:
  "map_of (add_utxo m u) t =
     (if t = txid u then Some ((case map_of m t of None \<Rightarrow> [] | Some us \<Rightarrow> us) @ [u]) else map_of m t)"
  by (auto simp: add_utxo_def split: option.splits)

lemma load_utxos_groups:
  assumes "\<And>t. map_of m t = (let us = filter (\<lambda>u. txid u = t) done in if us = [] then None else Some us)"
  shows "\<exists>m'. load_utxos m (map Inr utxos) = Ok m' \<and>
    (\<forall>t. map_of m' t =
       (let us = filter (\<lambda>u. txid u = t) (done @ utxos) in if us = [] then None else Some us))"
  using assms
proof (induction utxos arbitrary: m "done")
  case (Cons u utxos)
  have "map_of (add_utxo m u) t =
      (let us = filter (\<lambda>v. txid v = t) (done @ [u]) in if us = [] then None else Some us)" for t
    using Cons.prems [of t] by (auto simp: add_utxo_lookup Let_def)
  from Cons.IH [of "add_utxo m u" "done @ [u]", OF this] show ?case by simp
qed simp

lemma scrape_loop_join:
  assumes "\<And>t. map_of m t = (let us = filter (\<lambda>u. txid u = t) utxos in if us = [] then None else Some us)"
    and "scrape_inv s out"
  shows "\<exists>s'. scrape_loop m s (map Inr iterates) = Ok s' \<and> scrape_inv s' (out @ scrape_join utxos iterates)"
  using assms(2)
proof (induction iterates arbitrary: s out)
  case (Cons i ds)
  let ?us = "filter (\<lambda>u. txid u = iter_txid i) utxos"
  show ?case
  proof (cases "?us = []")
    case True
    then have "map_of m (iter_txid i) = None" "scrape_join utxos (i # ds) = scrape_join utxos ds"
      using assms(1) [of "iter_txid i"] by (auto simp: scrape_join_def)
    then show ?thesis using Cons.IH [OF Cons.prems] by simp
  next
    case False
    then have "map_of m (iter_txid i) = Some ?us"
      "scrape_join utxos (i # ds) = map (scrape_result i) ?us @ scrape_join utxos ds"
      using assms(1) [of "iter_txid i"] by (auto simp: scrape_join_def)
    then show ?thesis using Cons.IH [OF foldl_push_inv [OF Cons.prems, of i ?us]] by simp
  qed
qed (simp add: scrape_join_def)

section \<open>Properties\<close>

text \<open>
  The scraper's parts are the join. On readable inputs the files are numbered 1, 2, 3, ...; all
  but the last hold exactly 10000 outputs and the last fewer; and their concatenation is, for every
  iterated transaction in order, its unspent outputs in dump order, each with the block, the index in the
  block, the output index and the amount: nothing is lost, repeated or invented.
\<close>

theorem scraper_parts_are_join:
  assumes "length args \<ge> 3" and "utxo_csv (args ! 1) = Inr (map Inr utxos)"
    and "iterate_csv (args ! 2) = Inr (map Inr iterates)"
  shows "\<exists>parts. scraper_main args utxo_csv iterate_csv = Ok parts \<and>
    concat (map snd parts) = scrape_join utxos iterates \<and>
    map fst parts = [1..<Suc (length parts)] \<and> parts \<noteq> [] \<and>
    (\<forall>p\<in>set (butlast parts). length (snd p) = 10000) \<and> length (snd (last parts)) < 10000"
proof -
  let ?s0 = "\<lparr>scrape_results = [], found = 0, part = 1, files = []\<rparr>"
  obtain m where m: "load_utxos [] (map Inr utxos) = Ok m"
    "\<And>t. map_of m t = (let us = filter (\<lambda>u. txid u = t) utxos in if us = [] then None else Some us)"
    using load_utxos_groups [of "[]" "[]" utxos] by auto
  have "scrape_inv ?s0 []" by (simp add: scrape_inv_def part_size_def)
  from scrape_loop_join [OF m(2) this, of iterates]
  obtain s where s: "scrape_loop m ?s0 (map Inr iterates) = Ok s" "scrape_inv s (scrape_join utxos iterates)"
    by auto
  have "map fst (files s) = [1..<part s]" "1 \<le> part s" using s(2) by (simp_all add: scrape_inv_def)
  then have "length (files s) = part s - 1" by (metis length_map length_upt)
  then show ?thesis
    using assms m(1) s by (auto simp: scraper_main_def scrape_inv_def part_size_def)
qed

theorem scraper_parts_are_join_witness:
  "\<exists>parts. scraper_main [''scraper'', ''u.csv'', ''i.csv'']
      (\<lambda>_. Inr [Inr \<lparr>txid = ''aa'', vout = 1, height = 700000, utxo_amount = 20000\<rparr>])
      (\<lambda>_. Inr [Inr \<lparr>iter_txid = ''bb'', tx_height = 3\<rparr>, Inr \<lparr>iter_txid = ''aa'', tx_height = 4\<rparr>]) = Ok parts \<and>
    concat (map snd parts) = [\<lparr>block_height = 700000, tx_id = ''aa'', block_index = 4,
      transaction_index = 1, amount = 20000\<rparr>]"
  using scraper_parts_are_join [of "[''scraper'', ''u.csv'', ''i.csv'']"
      "\<lambda>_. Inr [Inr \<lparr>txid = ''aa'', vout = 1, height = 700000, utxo_amount = 20000\<rparr>]"
      "[\<lparr>txid = ''aa'', vout = 1, height = 700000, utxo_amount = 20000\<rparr>]"
      "\<lambda>_. Inr [Inr \<lparr>iter_txid = ''bb'', tx_height = 3\<rparr>, Inr \<lparr>iter_txid = ''aa'', tx_height = 4\<rparr>]"
      "[\<lparr>iter_txid = ''bb'', tx_height = 3\<rparr>, \<lparr>iter_txid = ''aa'', tx_height = 4\<rparr>]"]
  by (simp add: scrape_join_def scrape_result_def) blast

end
