(* ===== verification/Startup_Args.thy ===== *)
theory Startup_Args
  imports Node_Types
begin

text \<open>
  \<open>parse_startup_args\<close> of \<open>src/src/cli.rs\<close>: the command line
  \<open>user:password@host:port storage_dir [port] [network] [name [address ...]]\<close>. A malformed RPC address
  is an error value; a missing argument, a bad port, network, name or address ends the process.
  \<open>IpAddr::from_str\<close> is a parameter.
\<close>

section \<open>Data\<close>

datatype IpAddr = V4 bytes | V6 bytes

record LdkUserInfo =
  bitcoind_rpc_username :: string
  bitcoind_rpc_password :: string
  bitcoind_rpc_port :: u16
  bitcoind_rpc_host :: string
  ldk_storage_dir_path :: string
  ldk_peer_listening_port :: u16
  ldk_announced_listen_addr :: "NetAddress list"
  ldk_announced_node_name :: bytes
  network :: Network

section \<open>Parsing\<close>

text \<open>\<open>env::args().skip(n).next()\<close>\<close>

definition arg :: "string list \<Rightarrow> nat \<Rightarrow> string option" where
  "arg args n = (if n < length args then Some (args ! n) else None)"

definition parse_rpc_info :: "string \<Rightarrow> (unit, string \<times> string \<times> string \<times> u16) outcome" where
  "parse_rpc_info bitcoind_rpc_info =
     (case rsplit2 CHR ''@'' bitcoind_rpc_info of
        [path, credentials] \<Rightarrow>
          (case split_on CHR '':'' credentials of
             [username, password] \<Rightarrow>
               (case split_on CHR '':'' path of
                  [host, port] \<Rightarrow>
                    (case parse_u16 port of
                       None \<Rightarrow> Panic
                     | Some p \<Rightarrow> Ok (username, password, host, p))
                | _ \<Rightarrow> Err ())
           | _ \<Rightarrow> Err ())
      | _ \<Rightarrow> Err ())"

definition parse_network :: "string option \<Rightarrow> (unit, Network) outcome" where
  "parse_network a =
     (case a of
        None \<Rightarrow> Ok Testnet
      | Some net \<Rightarrow>
          if net = ''mainnet'' then Ok Bitcoin
          else if net = ''testnet'' then Ok Testnet
          else if net = ''regtest'' then Ok Regtest
          else if net = ''signet'' then Ok Signet
          else Panic)"

definition parse_node_name :: "string option \<Rightarrow> (unit, bytes) outcome" where
  "parse_node_name a =
     (case a of
        None \<Rightarrow> Ok (replicate 32 0)
      | Some s \<Rightarrow>
          if length s > 32 then Panic
          else Ok (as_bytes s @ replicate (32 - length s) 0))"

fun parse_listen_addrs ::
  "(string \<Rightarrow> IpAddr option) \<Rightarrow> u16 \<Rightarrow> string list \<Rightarrow> (unit, NetAddress list) outcome" where
  "parse_listen_addrs ip_from_str port [] = Ok []"
| "parse_listen_addrs ip_from_str port (s # ss) =
     (case ip_from_str s of
        Some (V4 octets) \<Rightarrow> map_ok (\<lambda>as. IPv4 octets port # as) (parse_listen_addrs ip_from_str port ss)
      | Some (V6 octets) \<Rightarrow> map_ok (\<lambda>as. IPv6 octets port # as) (parse_listen_addrs ip_from_str port ss)
      | None \<Rightarrow> Panic)"

definition parse_startup_args ::
  "(string \<Rightarrow> IpAddr option) \<Rightarrow> string list \<Rightarrow> (unit, LdkUserInfo) outcome" where
  "parse_startup_args ip_from_str args =
     and_then (unwrap (arg args 1)) (\<lambda>bitcoind_rpc_info.
     and_then (parse_rpc_info bitcoind_rpc_info) (\<lambda>(username, password, host, rpc_port).
     and_then (unwrap (arg args 2)) (\<lambda>storage_dir.
       let port_arg = (case arg args 3 of None \<Rightarrow> None | Some p \<Rightarrow> parse_u16 p);
           listening_port = (case port_arg of Some p \<Rightarrow> p | None \<Rightarrow> 9735);
           arg_idx = (case port_arg of Some p \<Rightarrow> 4 | None \<Rightarrow> 3)
       in and_then (parse_network (arg args arg_idx)) (\<lambda>net.
          and_then (parse_node_name (arg args (arg_idx + 1))) (\<lambda>name.
            let arg_idx' = (if arg args (arg_idx + 1) = None then arg_idx else arg_idx + 1)
            in and_then (parse_listen_addrs ip_from_str listening_port (drop (arg_idx' + 1) args)) (\<lambda>addrs.
                 Ok \<lparr>bitcoind_rpc_username = username,
                     bitcoind_rpc_password = password,
                     bitcoind_rpc_port = rpc_port,
                     bitcoind_rpc_host = host,
                     ldk_storage_dir_path = storage_dir,
                     ldk_peer_listening_port = listening_port,
                     ldk_announced_listen_addr = addrs,
                     ldk_announced_node_name = name,
                     network = net\<rparr>))))))"

section \<open>Lemmas\<close>

lemma parse_rpc_info_format:
  assumes "CHR '':'' \<notin> set user" "CHR '':'' \<notin> set pw" "CHR '':'' \<notin> set host" "CHR ''@'' \<notin> set host"
  shows "parse_rpc_info (user @ '':'' @ pw @ ''@'' @ host @ '':'' @ to_string port) = Ok (user, pw, host, port)"
proof -
  have "CHR ''@'' \<notin> set (host @ '':'' @ to_string port)"
    using assms show_nat_no_char [of "CHR ''@''" "unat port"] by (simp add: to_string_def)
  then have "rsplit2 CHR ''@'' ((user @ '':'' @ pw) @ CHR ''@'' # (host @ '':'' @ to_string port)) =
      [host @ '':'' @ to_string port, user @ '':'' @ pw]"
    by (rule rsplit2_append_sep)
  then show ?thesis
    using assms show_nat_no_char [of "CHR '':''" "unat port"]
    by (simp add: parse_rpc_info_def split_on_append_sep split_on_no_sep to_string_def [symmetric])
qed

lemma parse_listen_addrs_Ok:
  assumes "\<forall>s\<in>set ss. ip_from_str s \<noteq> None"
  shows "parse_listen_addrs ip_from_str port ss =
    Ok (map (\<lambda>s. case the (ip_from_str s) of V4 a \<Rightarrow> IPv4 a port | V6 a \<Rightarrow> IPv6 a port) ss)"
  using assms by (induction ss) (auto split: IpAddr.splits)

lemma parse_listen_addrs_bad:
  assumes "\<not> (\<forall>s\<in>set ss. ip_from_str s \<noteq> None)"
  shows "parse_listen_addrs ip_from_str port ss = Panic"
  using assms by (induction ss) (fastforce split: IpAddr.splits option.splits)+


lemma parse_node_name_length: "parse_node_name a = Ok name \<Longrightarrow> length name = 32"
  by (auto simp: parse_node_name_def split: option.splits if_splits)

lemma arg_Cons: "arg (a # as) (Suc n) = arg as n" "arg (a # as) 0 = Some a" "arg [] n = None"
  by (simp_all add: arg_def)

definition show_network :: "Network \<Rightarrow> string" where
  "show_network net =
     (case net of Bitcoin \<Rightarrow> ''mainnet'' | Testnet \<Rightarrow> ''testnet'' | Regtest \<Rightarrow> ''regtest'' | Signet \<Rightarrow> ''signet'')"

lemma parse_network_show: "parse_network (Some (show_network net)) = Ok net" "parse_network None = Ok Testnet"
  by (cases net) (simp_all add: parse_network_def show_network_def)

text \<open>The RPC address as the usage text asks for it.\<close>

definition rpc_url :: "string \<Rightarrow> string \<Rightarrow> string \<Rightarrow> u16 \<Rightarrow> string" where
  "rpc_url user pw host port = user @ '':'' @ pw @ ''@'' @ host @ '':'' @ to_string port"

lemma parse_startup_args_minimal:
  assumes "CHR '':'' \<notin> set user" "CHR '':'' \<notin> set pw" "CHR '':'' \<notin> set host" "CHR ''@'' \<notin> set host"
  shows "parse_startup_args ip_from_str [prog, rpc_url user pw host rpc_port, dir] =
      Ok \<lparr>bitcoind_rpc_username = user, bitcoind_rpc_password = pw, bitcoind_rpc_port = rpc_port,
          bitcoind_rpc_host = host, ldk_storage_dir_path = dir, ldk_peer_listening_port = 9735,
          ldk_announced_listen_addr = [], ldk_announced_node_name = replicate 32 0, network = Testnet\<rparr>"
  using parse_rpc_info_format [OF assms]
  by (simp add: parse_startup_args_def rpc_url_def eval_nat_numeral arg_Cons parse_network_show
      parse_node_name_def)

section \<open>Properties\<close>

text \<open>
  A complete command line is read back exactly: user, password (which may contain \<open>@\<close>), host,
  port, directory, listening port, network, the name padded to 32 bytes, and one announced address per
  trailing argument, each with the listening port. With the two required arguments alone the node
  listens on 9735 on testnet, with an empty name and no addresses.
\<close>

theorem parse_startup_args_complete:
  assumes "CHR '':'' \<notin> set user" "CHR '':'' \<notin> set pw" "CHR '':'' \<notin> set host" "CHR ''@'' \<notin> set host"
    and "length name \<le> 32" and "\<forall>s\<in>set addrs. ip_from_str s \<noteq> None"
  shows "parse_startup_args ip_from_str ([prog, rpc_url user pw host rpc_port, dir, to_string port, show_network net, name] @ addrs) =
      Ok \<lparr>bitcoind_rpc_username = user, bitcoind_rpc_password = pw, bitcoind_rpc_port = rpc_port,
          bitcoind_rpc_host = host, ldk_storage_dir_path = dir, ldk_peer_listening_port = port,
          ldk_announced_listen_addr =
            map (\<lambda>s. case the (ip_from_str s) of V4 a \<Rightarrow> IPv4 a port | V6 a \<Rightarrow> IPv6 a port) addrs,
          ldk_announced_node_name = as_bytes name @ replicate (32 - length name) 0, network = net\<rparr> \<and>
    parse_startup_args ip_from_str [prog, rpc_url user pw host rpc_port, dir] =
      Ok \<lparr>bitcoind_rpc_username = user, bitcoind_rpc_password = pw, bitcoind_rpc_port = rpc_port,
          bitcoind_rpc_host = host, ldk_storage_dir_path = dir, ldk_peer_listening_port = 9735,
          ldk_announced_listen_addr = [], ldk_announced_node_name = replicate 32 0, network = Testnet\<rparr>"
  using parse_rpc_info_format [OF assms(1-4)] parse_listen_addrs_Ok [OF assms(6)] assms(5)
  by (simp add: parse_startup_args_def rpc_url_def eval_nat_numeral arg_Cons parse_network_show
      parse_node_name_def)

theorem parse_startup_args_complete_witness:
  "parse_startup_args (\<lambda>s. if s = ''10.0.0.1'' then Some (V4 [10, 0, 0, 1]) else None)
     [''node'', rpc_url ''u'' ''p@ss'' ''localhost'' 8332, ''.'', to_string (9736 :: u16), ''regtest'',
      ''hal'', ''10.0.0.1''] =
   Ok \<lparr>bitcoind_rpc_username = ''u'', bitcoind_rpc_password = ''p@ss'', bitcoind_rpc_port = 8332,
       bitcoind_rpc_host = ''localhost'', ldk_storage_dir_path = ''.'', ldk_peer_listening_port = 9736,
       ldk_announced_listen_addr = [IPv4 [10, 0, 0, 1] 9736],
       ldk_announced_node_name = as_bytes ''hal'' @ replicate 29 0, network = Regtest\<rparr>"
  using parse_startup_args_complete [of "''u''" "''p@ss''" "''localhost''" "''hal''" "[''10.0.0.1'']"
      "\<lambda>s. if s = ''10.0.0.1'' then Some (V4 [10, 0, 0, 1]) else None" "''node''" 8332 "''.''" 9736 Regtest]
  by (simp add: show_network_def)

end
