(* ===== verification/Persister.thy ===== *)
theory Persister
  imports Disk Hex_Utils "HOL-Library.Multiset"
begin

text \<open>
  How channel monitors survive a restart: \<open>YourPersister\<close> of \<open>src/src/disk.rs\<close> writes a monitor once
  and then its updates one by one; \<open>FilesystemPersister::read_channelmonitors\<close> of
  \<open>lightning-persister/src/lib.rs\<close> and \<open>read_channelmonitor_updates\<close> read them back, and \<open>start_ldk\<close> of
  \<open>src/src/main.rs\<close> applies the updates in order. Monitors and updates, their serialisation and
  \<open>update_monitor\<close> are parameters, as is \<open>Txid::from_hex\<close>; a directory listing may come in any order.
\<close>

section \<open>Parameters\<close>

record OutPoint =
  op_txid :: bytes
  op_index :: u16

record ('m, 'u) monitor_codec =
  write_monitor :: "'m \<Rightarrow> bytes"
  read_monitor :: "bytes \<Rightarrow> 'm option"
  write_update :: "'u \<Rightarrow> bytes"
  read_update :: "bytes \<Rightarrow> 'u option"
  update_id :: "'u \<Rightarrow> u64"
  funding_txo :: "'m \<Rightarrow> OutPoint"
  update_monitor :: "'m \<Rightarrow> 'u \<Rightarrow> 'm option"
  txid_from_hex :: "string \<Rightarrow> bytes option"

text \<open>What the code relies on: values read back as they were written, ids print and parse.\<close>

definition codec_ok :: "('m, 'u) monitor_codec \<Rightarrow> bool" where
  "codec_ok cdc \<longleftrightarrow>
     (\<forall>m. read_monitor cdc (write_monitor cdc m) = Some m) \<and>
     (\<forall>u. read_update cdc (write_update cdc u) = Some u) \<and>
     (\<forall>t. length t = 32 \<longrightarrow> txid_from_hex cdc (hex_str t) = Some t)"

section \<open>Writing\<close>

definition path_to_monitor_data :: "string \<Rightarrow> string" where
  "path_to_monitor_data base = base @ ''/monitors''"

definition path_to_monitor_data_updates :: "string \<Rightarrow> string" where
  "path_to_monitor_data_updates base = base @ ''/updates''"

definition monitor_filename :: "OutPoint \<Rightarrow> string" where
  "monitor_filename txo = hex_str (op_txid txo) @ ''_'' @ to_string (op_index txo)"

definition update_filename :: "OutPoint \<Rightarrow> u64 \<Rightarrow> string" where
  "update_filename txo uid =
     hex_str (op_txid txo) @ ''_'' @ to_string (op_index txo) @ ''_'' @ to_string uid"

datatype ChannelMonitorUpdateErr = TemporaryFailure | PermanentFailure

text \<open>\<open>unwrap\<close> of an I/O result.\<close>

definition unwrap_io :: "(io_error, 'a) outcome \<Rightarrow> ('e, 'a) outcome" where
  "unwrap_io r = (case r of Ok a \<Rightarrow> Ok a | _ \<Rightarrow> Panic)"

definition reset_updates_dir :: "string \<Rightarrow> fs \<Rightarrow> ('e, fs) outcome" where
  "reset_updates_dir base fs =
     unwrap_io (fs_run [CreateDirAll (path_to_monitor_data_updates base),
                        RemoveDirAll (path_to_monitor_data_updates base),
                        CreateDir (path_to_monitor_data_updates base)] fs)"

definition persist_new_channel ::
  "('m, 'u) monitor_codec \<Rightarrow> string \<Rightarrow> OutPoint \<Rightarrow> 'm \<Rightarrow> fs \<Rightarrow> (ChannelMonitorUpdateErr, fs) outcome" where
  "persist_new_channel cdc base txo monitor fs =
     (case write_to_file (path_to_monitor_data base) (monitor_filename txo) (write_monitor cdc monitor) fs of
        Ok fs' \<Rightarrow> reset_updates_dir base fs'
      | Err _ \<Rightarrow> Err PermanentFailure
      | Panic \<Rightarrow> Panic)"

text \<open>The update cache of the source is never filled, so removing from it has no effect.\<close>

definition update_persisted_channel ::
  "('m, 'u) monitor_codec \<Rightarrow> string \<Rightarrow> OutPoint \<Rightarrow> 'u option \<Rightarrow> 'm \<Rightarrow> fs \<Rightarrow>
   (ChannelMonitorUpdateErr, fs) outcome" where
  "update_persisted_channel cdc base txo update monitor fs =
     (case update of
        Some u \<Rightarrow>
          and_then (unwrap_io (fs_run [CreateDirAll (path_to_monitor_data_updates base)] fs))
            (\<lambda>fs1. unwrap_io (write_to_file (path_to_monitor_data_updates base)
                               (update_filename txo (update_id cdc u)) (write_update cdc u) fs1))
      | None \<Rightarrow>
          and_then (unwrap_io (write_to_file (path_to_monitor_data base) (monitor_filename txo)
                                (write_monitor cdc monitor) fs))
            (reset_updates_dir base))"

section \<open>Reading\<close>

definition is_ascii :: "string \<Rightarrow> bool" where
  "is_ascii s = list_all (\<lambda>c. of_char c < (128 :: nat)) s"

definition bad_filename :: "string \<Rightarrow> bool" where
  "bad_filename filename = (\<not> is_ascii filename \<or> length filename < 65)"

definition push_update :: "bytes \<Rightarrow> 'u \<Rightarrow> (bytes \<times> 'u list) list \<Rightarrow> (bytes \<times> 'u list) list" where
  "push_update txid u m =
     (case map_of m txid of
        Some us \<Rightarrow> hm_insert txid (us @ [u]) m
      | None \<Rightarrow> hm_insert txid [u] m)"

fun read_updates_loop ::
  "('m, 'u) monitor_codec \<Rightarrow> (bytes \<times> 'u list) list \<Rightarrow> (string \<times> bytes) list \<Rightarrow>
   (io_error, (bytes \<times> 'u list) list) outcome" where
  "read_updates_loop cdc acc [] = Ok acc"
| "read_updates_loop cdc acc ((filename, contents) # files) =
     (if bad_filename filename then Err InvalidData
      else if ends_with ''.tmp'' filename then read_updates_loop cdc acc files
      else let filename_vec = split_on CHR ''_'' filename in
        case txid_from_hex cdc (filename_vec ! 0) of
          None \<Rightarrow> Err InvalidData
        | Some txid \<Rightarrow>
            if length filename_vec \<le> 1 then Panic
            else case parse_u16 (filename_vec ! 1) of
                   None \<Rightarrow> Err InvalidData
                 | Some index \<Rightarrow>
                     (case read_update cdc contents of
                        None \<Rightarrow> Err InvalidData
                      | Some u \<Rightarrow> read_updates_loop cdc (push_update txid u acc) files))"

text \<open>The argument is the listing of the directory with the files' contents, if it exists.\<close>

definition read_channelmonitor_updates ::
  "('m, 'u) monitor_codec \<Rightarrow> (string \<times> bytes) list option \<Rightarrow> (io_error, (bytes \<times> 'u list) list) outcome" where
  "read_channelmonitor_updates cdc listing =
     (case listing of None \<Rightarrow> Ok [] | Some files \<Rightarrow> read_updates_loop cdc [] files)"

fun read_monitors_loop ::
  "('m, 'u) monitor_codec \<Rightarrow> 'm list \<Rightarrow> (string \<times> bytes) list \<Rightarrow> (io_error, 'm list) outcome" where
  "read_monitors_loop cdc res [] = Ok res"
| "read_monitors_loop cdc res ((filename, contents) # files) =
     (if bad_filename filename then Err InvalidData
      else if ends_with ''.tmp'' filename then read_monitors_loop cdc res files
      else case txid_from_hex cdc (take 64 filename) of
             None \<Rightarrow> Err InvalidData
           | Some txid \<Rightarrow>
               (case parse_u16 (drop 65 filename) of
                  None \<Rightarrow> Err InvalidData
                | Some index \<Rightarrow>
                    (case read_monitor cdc contents of
                       None \<Rightarrow> Err InvalidData
                     | Some monitor \<Rightarrow>
                         if op_txid (funding_txo cdc monitor) \<noteq> txid \<or>
                            op_index (funding_txo cdc monitor) \<noteq> index
                         then Err InvalidData
                         else read_monitors_loop cdc (res @ [monitor]) files)))"

definition read_channelmonitors ::
  "('m, 'u) monitor_codec \<Rightarrow> (string \<times> bytes) list option \<Rightarrow> (io_error, 'm list) outcome" where
  "read_channelmonitors cdc listing =
     (case listing of None \<Rightarrow> Ok [] | Some files \<Rightarrow> read_monitors_loop cdc [] files)"

section \<open>Recovery at startup\<close>

fun apply_updates :: "('m, 'u) monitor_codec \<Rightarrow> 'm \<Rightarrow> 'u list \<Rightarrow> 'm option" where
  "apply_updates cdc m [] = Some m"
| "apply_updates cdc m (u # us) =
     (case update_monitor cdc m u of None \<Rightarrow> None | Some m' \<Rightarrow> apply_updates cdc m' us)"

definition recover_monitor ::
  "('m, 'u) monitor_codec \<Rightarrow> (bytes \<times> 'u list) list \<Rightarrow> 'm \<Rightarrow> 'm option" where
  "recover_monitor cdc channelmonitorupdates monitor =
     (case map_of channelmonitorupdates (op_txid (funding_txo cdc monitor)) of
        Some channel_updates \<Rightarrow>
          apply_updates cdc monitor (sort_key (\<lambda>u. unat (update_id cdc u)) channel_updates)
      | None \<Rightarrow> Some monitor)"

fun recover_all :: "('m, 'u) monitor_codec \<Rightarrow> (bytes \<times> 'u list) list \<Rightarrow> 'm list \<Rightarrow> 'm list option" where
  "recover_all cdc updates [] = Some []"
| "recover_all cdc updates (m # ms) =
     (case recover_monitor cdc updates m of
        None \<Rightarrow> None
      | Some m' \<Rightarrow> map_option (\<lambda>ms'. m' # ms') (recover_all cdc updates ms))"

text \<open>
  Step 7 of \<open>start_ldk\<close>: both reads are unwrapped; a refused update ends the startup (\<open>None\<close>).
\<close>

definition recover_monitors ::
  "('m, 'u) monitor_codec \<Rightarrow> (string \<times> bytes) list option \<Rightarrow> (string \<times> bytes) list option \<Rightarrow>
   (unit, 'm list option) outcome" where
  "recover_monitors cdc monitor_files update_files =
     and_then (unwrap_io (read_channelmonitors cdc monitor_files))
       (\<lambda>monitors. and_then (unwrap_io (read_channelmonitor_updates cdc update_files))
          (\<lambda>updates. Ok (recover_all cdc updates monitors)))"

section \<open>File names\<close>

lemma to_string_char:
  assumes "c \<in> set (to_string w)"
  shows "48 \<le> (of_char c :: nat) \<and> (of_char c :: nat) \<le> 57"
  using assms show_nat_no_char [of c "unat w"] unfolding to_string_def by (meson not_less)

lemma no_underscore [simp]: "CHR ''_'' \<notin> set (hex_str bs)" "CHR ''_'' \<notin> set (to_string w)"
  using hex_digit_char [of "CHR ''_''" bs] to_string_char [of "CHR ''_''" w] by auto

lemma hex_str_ascii: "is_ascii (hex_str bs)"
  unfolding is_ascii_def list_all_iff using hex_digit_char by fastforce

lemma to_string_ascii: "is_ascii (to_string w)"
  unfolding is_ascii_def list_all_iff using to_string_char by fastforce

lemma to_string_nonempty [simp]: "to_string w \<noteq> []"
  by (simp add: to_string_def)

lemma ends_with_tmp_last:
  assumes "ends_with ''.tmp'' s" shows "last s = CHR ''p''"
  using assms by (auto simp: ends_with_iff)

lemma last_to_string: "last (xs @ to_string w) \<noteq> CHR ''p''"
  using to_string_char [of "last (to_string w)" w] by (auto simp: last_append)

lemma update_filename_facts:
  assumes "length (op_txid txo) = 32"
  shows "\<not> bad_filename (update_filename txo uid)"
    and "\<not> ends_with ''.tmp'' (update_filename txo uid)"
    and "split_on CHR ''_'' (update_filename txo uid) =
      [hex_str (op_txid txo), to_string (op_index txo), to_string uid]"
proof -
  have "is_ascii (update_filename txo uid)"
    using hex_str_ascii [of "op_txid txo"] to_string_ascii [of "op_index txo"] to_string_ascii [of uid]
    by (simp add: update_filename_def is_ascii_def)
  then show "\<not> bad_filename (update_filename txo uid)"
    using assms by (simp add: bad_filename_def update_filename_def length_hex_str)
  show "\<not> ends_with ''.tmp'' (update_filename txo uid)"
    using ends_with_tmp_last last_to_string
    by (metis append.assoc update_filename_def)
  show "split_on CHR ''_'' (update_filename txo uid) =
      [hex_str (op_txid txo), to_string (op_index txo), to_string uid]"
    by (simp add: update_filename_def split_on_append_sep split_on_no_sep)
qed

lemma monitor_filename_facts:
  assumes "length (op_txid txo) = 32"
  shows "\<not> bad_filename (monitor_filename txo)"
    and "\<not> ends_with ''.tmp'' (monitor_filename txo)"
    and "take 64 (monitor_filename txo) = hex_str (op_txid txo)"
    and "drop 65 (monitor_filename txo) = to_string (op_index txo)"
proof -
  have "is_ascii (monitor_filename txo)"
    using hex_str_ascii [of "op_txid txo"] to_string_ascii [of "op_index txo"]
    by (simp add: monitor_filename_def is_ascii_def)
  then show "\<not> bad_filename (monitor_filename txo)"
    using assms by (simp add: bad_filename_def monitor_filename_def length_hex_str)
  show "\<not> ends_with ''.tmp'' (monitor_filename txo)"
    using ends_with_tmp_last last_to_string
    by (metis append.assoc monitor_filename_def)
  show "take 64 (monitor_filename txo) = hex_str (op_txid txo)"
    "drop 65 (monitor_filename txo) = to_string (op_index txo)"
    using assms by (simp_all add: monitor_filename_def length_hex_str)
qed

lemma update_filename_inj [simp]: "update_filename txo a = update_filename txo b \<longleftrightarrow> a = b"
  by (simp add: update_filename_def)

lemma tmp_name_ends: "ends_with ''.tmp'' (tmp_name n)"
  by (auto simp: tmp_name_def ends_with_iff)

lemma paths_differ [simp]:
  "path_to_monitor_data base \<noteq> path_to_monitor_data_updates base"
  "path_to_monitor_data_updates base \<noteq> path_to_monitor_data base"
  by (simp_all add: path_to_monitor_data_def path_to_monitor_data_updates_def)

section \<open>Runs of a channel\<close>

text \<open>A listing of a directory: its files in any order, nothing if there is no directory.\<close>

definition is_listing :: "fs \<Rightarrow> string \<Rightarrow> (string \<times> bytes) list option \<Rightarrow> bool" where
  "is_listing fs d l =
     (case l of
        None \<Rightarrow> fs d = None
      | Some es \<Rightarrow> fs d \<noteq> None \<and> distinct (map fst es) \<and> map_of es = dir_map fs d)"

text \<open>
  What the node does with one channel's monitor \<open>m\<close>: it is created on an empty monitor directory, then
  updated in memory with the update written out, or changed by a block and written out whole. The
  number bounds the ids used so far, which grow from update to update.
\<close>

inductive chan_run ::
  "('m, 'u) monitor_codec \<Rightarrow> string \<Rightarrow> OutPoint \<Rightarrow> nat \<Rightarrow> 'm \<Rightarrow> fs \<Rightarrow> bool"
  for cdc base txo where
  new_channel:
    "dir_map fs (path_to_monitor_data base) = Map.empty \<Longrightarrow> funding_txo cdc m = txo \<Longrightarrow>
     persist_new_channel cdc base txo m fs = Ok fs' \<Longrightarrow> chan_run cdc base txo 0 m fs'"
| apply_update:
    "chan_run cdc base txo n m fs \<Longrightarrow> update_monitor cdc m u = Some m' \<Longrightarrow> n \<le> unat (update_id cdc u) \<Longrightarrow>
     update_persisted_channel cdc base txo (Some u) m' fs = Ok fs' \<Longrightarrow>
     chan_run cdc base txo (Suc (unat (update_id cdc u))) m' fs'"
| block_change:
    "chan_run cdc base txo n m fs \<Longrightarrow> funding_txo cdc m' = txo \<Longrightarrow>
     update_persisted_channel cdc base txo None m' fs = Ok fs' \<Longrightarrow>
     chan_run cdc base txo n m' fs'"

text \<open>The file of an update, and the invariant of a run: the stored monitor and the updates since.\<close>

definition update_file :: "('m, 'u) monitor_codec \<Rightarrow> OutPoint \<Rightarrow> 'u \<Rightarrow> string \<times> bytes" where
  "update_file cdc txo u = (update_filename txo (update_id cdc u), write_update cdc u)"

definition stored :: "('m, 'u) monitor_codec \<Rightarrow> string \<Rightarrow> OutPoint \<Rightarrow> fs \<Rightarrow> 'm \<Rightarrow> 'u list \<Rightarrow> bool" where
  "stored cdc base txo fs m0 us \<longleftrightarrow>
     fs (path_to_monitor_data base) \<noteq> None \<and> fs (path_to_monitor_data_updates base) \<noteq> None \<and>
     dir_map fs (path_to_monitor_data base) = [monitor_filename txo \<mapsto> write_monitor cdc m0] \<and>
     dir_map fs (path_to_monitor_data_updates base) = map_of (map (update_file cdc txo) us)"

lemma unwrap_io_Ok [simp]: "unwrap_io (Ok a) = Ok a"
  by (simp add: unwrap_io_def)

lemma reset_updates_dir_result:
  "reset_updates_dir base fs = Ok (fs(path_to_monitor_data_updates base \<mapsto> empty_dir))"
  by (auto simp: reset_updates_dir_def split: option.splits)

lemma dir_map_empty_dir: "fs d = Some empty_dir \<Longrightarrow> dir_map fs d = Map.empty"
  by (rule ext) (simp add: dir_map_def lookup_file_def empty_dir_def)

lemma dir_map_cong: "fs' d = fs d \<Longrightarrow> dir_map fs' d = dir_map fs d"
  by (rule ext) (simp add: dir_map_def lookup_file_def)

lemma full_write_result:
  assumes "and_then (unwrap_io (write_to_file (path_to_monitor_data base) name data fs)) (reset_updates_dir base) = Ok fs'"
  shows "fs' (path_to_monitor_data base) \<noteq> None"
    and "fs' (path_to_monitor_data_updates base) = Some empty_dir"
    and "dir_map fs' (path_to_monitor_data base) =
      (dir_map fs (path_to_monitor_data base))(tmp_name name := None, name \<mapsto> data)"
    and "\<And>d. d \<noteq> path_to_monitor_data base \<Longrightarrow> d \<noteq> path_to_monitor_data_updates base \<Longrightarrow> fs' d = fs d"
proof -
  obtain fs1 where w: "write_to_file (path_to_monitor_data base) name data fs = Ok fs1"
    by (rule atomic.put_obtain)
  have r: "fs' (path_to_monitor_data_updates base) = Some empty_dir"
    "\<forall>d. d \<noteq> path_to_monitor_data_updates base \<longrightarrow> fs' d = fs1 d"
    using assms w by (auto simp: reset_updates_dir_result)
  show "fs' (path_to_monitor_data base) \<noteq> None" using r atomic.put_dir [OF w] by simp
  show "fs' (path_to_monitor_data_updates base) = Some empty_dir" by (rule r)
  show "dir_map fs' (path_to_monitor_data base) =
      (dir_map fs (path_to_monitor_data base))(tmp_name name := None, name \<mapsto> data)"
    using r atomic.put_map [OF w] dir_map_cong [of fs' "path_to_monitor_data base" fs1] by simp
  show "fs' d = fs d" if "d \<noteq> path_to_monitor_data base" "d \<noteq> path_to_monitor_data_updates base" for d
    using r that atomic.put_other [OF w, of d] by simp
qed

lemma persist_new_channel_full_write:
  "persist_new_channel cdc base txo m fs =
     and_then (unwrap_io (write_to_file (path_to_monitor_data base) (monitor_filename txo)
                           (write_monitor cdc m) fs)) (reset_updates_dir base)"
  using atomic.put_total [of "path_to_monitor_data base" "monitor_filename txo" "write_monitor cdc m" fs]
  by (auto simp: persist_new_channel_def)

lemma update_write_result:
  assumes "update_persisted_channel cdc base txo (Some u) m fs = Ok fs'"
    and "fs (path_to_monitor_data_updates base) \<noteq> None"
  shows "write_to_file (path_to_monitor_data_updates base) (update_filename txo (update_id cdc u))
     (write_update cdc u) fs = Ok fs'"
  using assms atomic.put_total [of "path_to_monitor_data_updates base"
      "update_filename txo (update_id cdc u)" "write_update cdc u" fs]
  by (auto simp: update_persisted_channel_def)

lemma update_file_keys:
  assumes "length (op_txid txo) = 32"
  shows "tmp_name name \<notin> fst ` set (map (update_file cdc txo) us)"
  using update_filename_facts(2) [OF assms] tmp_name_ends [of name]
  by (auto simp: update_file_def)

lemma map_of_snoc: "k \<notin> fst ` set xs \<Longrightarrow> map_of (xs @ [(k, v)]) = (map_of xs)(k \<mapsto> v)"
  by (induction xs) (auto simp: fun_upd_twist)

lemma apply_updates_snoc:
  "apply_updates cdc m0 (us @ [u]) =
     (case apply_updates cdc m0 us of None \<Rightarrow> None | Some m \<Rightarrow> update_monitor cdc m u)"
  by (induction us arbitrary: m0) (auto split: option.splits)

lemma stored_full_write:
  assumes "and_then (unwrap_io (write_to_file (path_to_monitor_data base) (monitor_filename txo)
             (write_monitor cdc m) fs)) (reset_updates_dir base) = Ok fs'"
    and "dom (dir_map fs (path_to_monitor_data base)) \<subseteq> {monitor_filename txo}"
  shows "stored cdc base txo fs' m []"
proof -
  have "(dir_map fs (path_to_monitor_data base))(tmp_name (monitor_filename txo) := None,
      monitor_filename txo \<mapsto> write_monitor cdc m) = [monitor_filename txo \<mapsto> write_monitor cdc m]"
    using assms(2) by (auto simp: fun_eq_iff dom_def)
  then show ?thesis
    using full_write_result [OF assms(1)] by (simp add: stored_def dir_map_empty_dir)
qed

lemma stored_update:
  assumes "stored cdc base txo fs m0 us" and "length (op_txid txo) = 32"
    and "update_persisted_channel cdc base txo (Some u) m fs = Ok fs'"
    and "\<forall>v\<in>set us. update_id cdc v \<noteq> update_id cdc u"
  shows "stored cdc base txo fs' m0 (us @ [u])"
proof -
  let ?U = "path_to_monitor_data_updates base"
  have w: "write_to_file ?U (update_filename txo (update_id cdc u)) (write_update cdc u) fs = Ok fs'"
    using update_write_result [OF assms(3)] assms(1) by (simp add: stored_def)
  have fresh: "dir_map fs ?U (tmp_name (update_filename txo (update_id cdc u))) = None"
    using update_file_keys [OF assms(2)] assms(1) by (simp add: stored_def map_of_eq_None_iff)
  have "update_filename txo (update_id cdc u) \<notin> fst ` set (map (update_file cdc txo) us)"
    using assms(4) by (auto simp: update_file_def)
  from map_of_snoc [OF this, of "write_update cdc u"]
  have "map_of (map (update_file cdc txo) (us @ [u])) =
      (map_of (map (update_file cdc txo) us))(update_filename txo (update_id cdc u) \<mapsto> write_update cdc u)"
    unfolding map_append list.map update_file_def [of _ _ u] .
  then show ?thesis
    using assms(1) atomic.put_fresh [OF w fresh] atomic.put_dir [OF w]
      atomic.put_other [OF w, of "path_to_monitor_data base"]
      dir_map_cong [of fs' "path_to_monitor_data base" fs]
    by (simp add: stored_def)
qed

definition run_inv ::
  "('m, 'u) monitor_codec \<Rightarrow> string \<Rightarrow> OutPoint \<Rightarrow> nat \<Rightarrow> 'm \<Rightarrow> fs \<Rightarrow> 'm \<Rightarrow> 'u list \<Rightarrow> bool" where
  "run_inv cdc base txo n m fs m0 us \<longleftrightarrow>
     stored cdc base txo fs m0 us \<and> funding_txo cdc m0 = txo \<and> apply_updates cdc m0 us = Some m \<and>
     sorted_wrt (<) (map (\<lambda>u. unat (update_id cdc u)) us) \<and> (\<forall>u\<in>set us. unat (update_id cdc u) < n)"

lemma chan_run_inv:
  assumes "chan_run cdc base txo n m fs" and len: "length (op_txid txo) = 32"
  shows "\<exists>m0 us. run_inv cdc base txo n m fs m0 us"
  using assms(1)
proof induction
  case (new_channel fs m fs')
  then have "stored cdc base txo fs' m []"
    using stored_full_write [of base txo cdc m fs fs'] by (simp add: persist_new_channel_full_write)
  with new_channel show ?case by (fastforce simp: run_inv_def)
next
  case (apply_update n m fs u m' fs')
  then obtain m0 us where inv: "run_inv cdc base txo n m fs m0 us" by blast
  then have "\<forall>v\<in>set us. update_id cdc v \<noteq> update_id cdc u"
    using apply_update.hyps(3) by (auto simp: run_inv_def)
  then have "stored cdc base txo fs' m0 (us @ [u])"
    using stored_update [OF _ len apply_update.hyps(4)] inv by (simp add: run_inv_def)
  then have "run_inv cdc base txo (Suc (unat (update_id cdc u))) m' fs' m0 (us @ [u])"
    using inv apply_update.hyps by (fastforce simp: run_inv_def apply_updates_snoc sorted_wrt_append)
  then show ?case by blast
next
  case (block_change n m fs m' fs')
  then obtain m0 us where "run_inv cdc base txo n m fs m0 us" by blast
  then have "stored cdc base txo fs' m' []"
    using stored_full_write [of base txo cdc m' fs fs'] block_change.hyps(3)
    by (simp add: update_persisted_channel_def run_inv_def stored_def)
  with block_change.hyps show ?case by (fastforce simp: run_inv_def)
qed

section \<open>Reading a listing\<close>

lemma listing_exists: "\<exists>l. is_listing fs d l"
proof (cases "fs d")
  case (Some dir)
  have "dom (dir_map fs d) \<subseteq> dom (map_of (entries dir))"
    using Some by (auto simp: dir_map_def lookup_file_def)
  then have "finite (dom (dir_map fs d))" by (rule finite_subset) (rule finite_dom_map_of)
  then obtain ks where ks: "set ks = dom (dir_map fs d)" "distinct ks"
    using finite_distinct_list by metis
  then have "is_listing fs d (Some (map (\<lambda>k. (k, the (dir_map fs d k))) ks))"
    using Some by (simp add: is_listing_def comp_def map_of_map_keys)
  then show ?thesis by blast
qed (auto simp: is_listing_def intro: exI [of _ None])

lemma read_updates_loop_files:
  assumes "codec_ok cdc" "length (op_txid txo) = 32"
  shows "read_updates_loop cdc [(op_txid txo, ws)] (map (update_file cdc txo) us) = Ok [(op_txid txo, ws @ us)]"
  using assms
  by (induction us arbitrary: ws)
     (simp_all add: update_file_def update_filename_facts codec_ok_def push_update_def)

lemma read_updates_files:
  assumes "codec_ok cdc" "length (op_txid txo) = 32"
  shows "read_updates_loop cdc [] (map (update_file cdc txo) us) = Ok (if us = [] then [] else [(op_txid txo, us)])"
  using read_updates_loop_files [OF assms] assms
  by (cases us) (simp_all add: update_file_def update_filename_facts codec_ok_def push_update_def)

text \<open>A listing of the files of some updates lists the files of a permutation of them.\<close>

lemma listing_of_updates:
  assumes ok: "codec_ok cdc" and "distinct (map fst es)" "map_of es = map_of (map (update_file cdc txo) us)"
    and ids: "distinct (map (update_id cdc) us)"
  obtains vs where "es = map (update_file cdc txo) vs" "mset vs = mset us"
proof
  let ?g = "update_file cdc txo" and ?h = "\<lambda>e. the (read_update cdc (snd e))"
  have hg: "?h (?g u) = u" for u using ok by (simp add: codec_ok_def update_file_def)
  have d: "distinct (map fst (map ?g us))"
    using ids by (simp add: update_file_def distinct_map inj_on_def)
  have set_eq: "set es = set (map ?g us)"
    using assms(2,3) map_of_inject_set [OF assms(2) d] by blast
  have "distinct es" "distinct (map ?g us)"
    using assms(2) d by (simp_all only: distinct_map)
  then have mset_eq: "mset es = mset (map ?g us)"
    using set_eq set_eq_iff_mset_eq_distinct by blast
  have "?g (?h e) = e" if "e \<in> set es" for e
    using that set_eq hg by auto
  then show "es = map ?g (map ?h es)" by (auto intro!: map_idI [symmetric])
  have "mset (map ?h es) = image_mset ?h (mset (map ?g us))"
    using mset_eq by simp
  also have "\<dots> = mset us" by (simp add: multiset.map_comp comp_def hg)
  finally show "mset (map ?h es) = mset us" .
qed

lemma sort_updates:
  assumes "mset vs = mset us" "sorted_wrt (<) (map f us)"
  shows "sort_key f vs = (us :: 'a list)"
proof (rule sort_key_inj_key_eq)
  have "distinct (map f us)" using assms(2) strict_sorted_iff by blast
  then show "inj_on f (set vs)" using assms(1) by (metis distinct_map mset_eq_setD)
qed (use assms strict_sorted_iff in auto)

lemma map_of_singleton_listing:
  assumes "distinct (map fst es)" "map_of es = [k \<mapsto> v]"
  shows "es = [(k, v)]"
proof -
  have s: "set es = set [(k, v)]"
    using assms map_of_inject_set [of es "[(k, v)]"] by simp
  moreover have "distinct es" using assms(1) by (simp add: distinct_map)
  ultimately have "mset es = mset [(k, v)]"
    using set_eq_iff_mset_eq_distinct [of es "[(k, v)]"] by simp
  then show ?thesis by simp
qed

lemma recover_stored:
  assumes ok: "codec_ok cdc" and len: "length (op_txid txo) = 32"
    and inv: "run_inv cdc base txo n m fs m0 us"
    and lm: "is_listing fs (path_to_monitor_data base) lm"
    and lu: "is_listing fs (path_to_monitor_data_updates base) lu"
  shows "recover_monitors cdc lm lu = Ok (Some [m])"
proof -
  have st: "stored cdc base txo fs m0 us" and sorted: "sorted_wrt (<) (map (\<lambda>u. unat (update_id cdc u)) us)"
    and txo: "funding_txo cdc m0 = txo" and ap: "apply_updates cdc m0 us = Some m"
    using inv by (simp_all add: run_inv_def)
  have lm': "lm = Some [(monitor_filename txo, write_monitor cdc m0)]"
    using lm st map_of_singleton_listing by (auto simp: is_listing_def stored_def split: option.splits)
  have "distinct (map (\<lambda>u. unat (update_id cdc u)) us)" using sorted strict_sorted_iff by blast
  then have ids: "distinct (map (update_id cdc) us)" by (auto simp: distinct_map inj_on_def)
  obtain es where es: "lu = Some es" "distinct (map fst es)" "map_of es = map_of (map (update_file cdc txo) us)"
    using lu st by (auto simp: is_listing_def stored_def split: option.splits)
  obtain vs where vs: "es = map (update_file cdc txo) vs" "mset vs = mset us"
    by (rule listing_of_updates [OF ok es(2,3) ids])
  have "sort_key (\<lambda>u. unat (update_id cdc u)) vs = us" by (rule sort_updates [OF vs(2) sorted])
  moreover have "vs = [] \<Longrightarrow> us = []" using vs(2) by simp
  ultimately have "recover_monitor cdc (if vs = [] then [] else [(op_txid txo, vs)]) m0 = Some m"
    using ap by (auto simp: recover_monitor_def txo)
  moreover have "read_channelmonitors cdc lm = Ok [m0]"
    using ok len by (simp add: lm' read_channelmonitors_def monitor_filename_facts codec_ok_def txo)
  moreover have "read_channelmonitor_updates cdc lu = Ok (if vs = [] then [] else [(op_txid txo, vs)])"
    by (simp add: read_channelmonitor_updates_def es(1) vs(1) read_updates_files [OF ok len])
  ultimately show ?thesis by (simp add: recover_monitors_def)
qed

lemma monitor_filename_neq:
  "length (op_txid a) = 32 \<Longrightarrow> length (op_txid b) = 32 \<Longrightarrow> op_txid a \<noteq> op_txid b \<Longrightarrow>
   monitor_filename a \<noteq> monitor_filename b"
  using monitor_filename_facts(3) [of a] monitor_filename_facts(3) [of b] by (metis hex_str_inj)

lemma read_monitor_file:
  assumes "codec_ok cdc" "length (op_txid (funding_txo cdc m)) = 32"
  shows "read_monitors_loop cdc res ((monitor_filename (funding_txo cdc m), write_monitor cdc m) # files) =
    read_monitors_loop cdc (res @ [m]) files"
  using assms by (simp add: monitor_filename_facts codec_ok_def)

lemma recover_all_no_updates: "recover_all cdc [] ms = Some ms"
  by (induction ms) (simp_all add: recover_monitor_def)

lemma map_of_pair_listing:
  assumes "distinct (map fst es)" "map_of es = [k \<mapsto> v, k' \<mapsto> v']" "k \<noteq> k'"
  shows "es = [(k, v), (k', v')] \<or> es = [(k', v'), (k, v)]"
proof -
  have s: "set es = set [(k, v), (k', v')]"
    using assms map_of_inject_set [of es "[(k, v), (k', v')]"] by (auto simp: fun_upd_twist)
  moreover have "distinct es" using assms(1) by (simp add: distinct_map)
  ultimately have "mset es = mset [(k, v), (k', v')]"
    using assms(3) set_eq_iff_mset_eq_distinct [of es "[(k, v), (k', v')]"] by simp
  then have "length es = 2" "mset es = {#(k, v), (k', v')#}" by (metis length_Cons list.size(3) mset_eq_length numeral_2_eq_2, simp)
  then show ?thesis by (auto simp: numeral_2_eq_2 length_Suc_conv add_eq_conv_ex)
qed

lemma new_channel_state:
  assumes "stored cdc base txo fs m0 us" "length (op_txid txo) = 32" "length (op_txid txo') = 32"
    and "op_txid txo \<noteq> op_txid txo'" and "persist_new_channel cdc base txo' m' fs = Ok fs'"
  shows "fs' (path_to_monitor_data base) \<noteq> None" "fs' (path_to_monitor_data_updates base) = Some empty_dir"
    "dir_map fs' (path_to_monitor_data base) =
      [monitor_filename txo \<mapsto> write_monitor cdc m0, monitor_filename txo' \<mapsto> write_monitor cdc m']"
proof -
  note w = full_write_result [OF assms(5) [unfolded persist_new_channel_full_write]]
  have "tmp_name (monitor_filename txo') \<noteq> monitor_filename txo"
    using monitor_filename_facts(2) [OF assms(2)] tmp_name_ends by metis
  then show "dir_map fs' (path_to_monitor_data base) =
      [monitor_filename txo \<mapsto> write_monitor cdc m0, monitor_filename txo' \<mapsto> write_monitor cdc m']"
    using w(3) assms(1) by (auto simp: stored_def fun_eq_iff)
qed (use full_write_result [OF assms(5) [unfolded persist_new_channel_full_write]] in simp_all)

section \<open>Properties\<close>


text \<open>A codec for the witnesses: a monitor is the list of the updates it has seen.\<close>

definition log_codec :: "OutPoint \<Rightarrow> (bytes, u8) monitor_codec" where
  "log_codec txo =
     \<lparr>write_monitor = \<lambda>m. m, read_monitor = Some,
      write_update = \<lambda>u. [u], read_update = \<lambda>bs. (case bs of [u] \<Rightarrow> Some u | _ \<Rightarrow> None),
      update_id = ucast, funding_txo = \<lambda>m. txo, update_monitor = \<lambda>m u. Some (m @ [u]),
      txid_from_hex = to_vec\<rparr>"

definition txo_1 :: OutPoint where
  "txo_1 = \<lparr>op_txid = replicate 32 7, op_index = 1\<rparr>"

definition txo_2 :: OutPoint where
  "txo_2 = \<lparr>op_txid = replicate 32 9, op_index = 0\<rparr>"

lemma log_codec_ok: "codec_ok (log_codec txo)"
  by (simp add: codec_ok_def log_codec_def to_vec_def to_vec_loop_hex_str)


text \<open>
  C39. The update directory is shared and a full write of any channel empties it: when a second channel
  is created, a restart recovers the first one as it was last written whole, without the updates it has
  received and persisted since. Creating a channel never fails.
\<close>

theorem new_channel_loses_updates:
  assumes "codec_ok cdc" and "length (op_txid txo) = 32" and "length (op_txid txo') = 32"
    and "op_txid txo \<noteq> op_txid txo'"
    and "stored cdc base txo fs m0 us" and "funding_txo cdc m0 = txo" and "funding_txo cdc m' = txo'"
  shows "\<exists>fs'. persist_new_channel cdc base txo' m' fs = Ok fs' \<and>
    (\<forall>lm lu. is_listing fs' (path_to_monitor_data base) lm \<and>
             is_listing fs' (path_to_monitor_data_updates base) lu \<longrightarrow>
       (\<exists>ms. recover_monitors cdc lm lu = Ok (Some ms) \<and> (ms = [m0, m'] \<or> ms = [m', m0])))"
proof -
  have "\<exists>fs'. persist_new_channel cdc base txo' m' fs = Ok fs'"
    by (simp add: persist_new_channel_def write_to_file_result reset_updates_dir_result)
  then obtain fs' where p: "persist_new_channel cdc base txo' m' fs = Ok fs'" by blast
  note st = new_channel_state [OF assms(5,2-4) p]
  have "\<exists>ms. recover_monitors cdc lm lu = Ok (Some ms) \<and> (ms = [m0, m'] \<or> ms = [m', m0])"
    if l: "is_listing fs' (path_to_monitor_data base) lm" "is_listing fs' (path_to_monitor_data_updates base) lu"
    for lm lu
  proof -
    have "lu = Some []"
      using l(2) st(2) by (auto simp: is_listing_def dir_map_empty_dir split: option.splits)
    then have "read_channelmonitor_updates cdc lu = Ok []" by (simp add: read_channelmonitor_updates_def)
    moreover obtain es where es: "lm = Some es" "distinct (map fst es)"
        "map_of es = [monitor_filename txo \<mapsto> write_monitor cdc m0, monitor_filename txo' \<mapsto> write_monitor cdc m']"
      using l(1) st(1,3) by (auto simp: is_listing_def split: option.splits)
    from map_of_pair_listing [OF es(2,3) monitor_filename_neq [OF assms(2-4)]] es(1)
    have "read_channelmonitors cdc lm = Ok [m0, m'] \<or> read_channelmonitors cdc lm = Ok [m', m0]"
      using read_monitor_file [OF assms(1), of m0] read_monitor_file [OF assms(1), of m'] assms(2,3,6,7)
      by (auto simp: read_channelmonitors_def simp del: read_monitors_loop.simps(2))
    ultimately show ?thesis by (auto simp: recover_monitors_def recover_all_no_updates)
  qed
  with p show ?thesis by blast
qed

definition dir_of :: "(string \<times> bytes) list \<Rightarrow> dir_state" where
  "dir_of es = \<lparr>entries = map (\<lambda>(n, bs). (n, \<lparr>f_content = bs, f_synced = True\<rparr>)) es, durable = []\<rparr>"

lemma dir_map_dir_of: "fs d = Some (dir_of es) \<Longrightarrow> dir_map fs d = map_of es"
proof -
  assume "fs d = Some (dir_of es)"
  moreover have "map_option f_content (map_of (entries (dir_of es)) n) = map_of es n" for n
    by (induction es) (auto simp: dir_of_def)
  ultimately show ?thesis by (simp add: dir_map_def lookup_file_def fun_eq_iff)
qed

theorem new_channel_loses_updates_witness:
  "\<exists>(cdc :: (bytes, u8) monitor_codec) fs fs'. stored cdc ''.ldk'' txo_1 fs [1] [3, 5] \<and> apply_updates cdc [1] [3, 5] = Some [1, 3, 5] \<and>
     persist_new_channel cdc ''.ldk'' txo_2 [2] fs = Ok fs' \<and>
     (\<exists>lm lu ms. is_listing fs' ''.ldk/monitors'' lm \<and> is_listing fs' ''.ldk/updates'' lu \<and>
        recover_monitors cdc lm lu = Ok (Some ms) \<and> [1] \<in> set ms \<and> [1, 3, 5] \<notin> set ms)"
proof -
  let ?c = "(log_codec txo_1)\<lparr>funding_txo := \<lambda>m. if hd m = 1 then txo_1 else txo_2\<rparr>"
  let ?fs = "[''.ldk/monitors'' \<mapsto> dir_of [(monitor_filename txo_1, [1])],
              ''.ldk/updates'' \<mapsto> dir_of (map (update_file ?c txo_1) [3, 5])]"
  have paths: "path_to_monitor_data ''.ldk'' = ''.ldk/monitors''" "path_to_monitor_data_updates ''.ldk'' = ''.ldk/updates''"
    by (simp_all add: path_to_monitor_data_def path_to_monitor_data_updates_def)
  have ok: "codec_ok ?c" using log_codec_ok [of txo_1] by (simp add: codec_ok_def)
  have "dir_map ?fs ''.ldk/monitors'' = map_of [(monitor_filename txo_1, write_monitor ?c [1])]"
    by (rule dir_map_dir_of) (simp add: log_codec_def)
  moreover have "dir_map ?fs ''.ldk/updates'' = map_of (map (update_file ?c txo_1) [3, 5])"
    by (rule dir_map_dir_of) simp
  ultimately have st: "stored ?c ''.ldk'' txo_1 ?fs [1] [3, 5]"
    unfolding stored_def paths by simp
  have "\<exists>fs'. persist_new_channel ?c ''.ldk'' txo_2 [2] ?fs = Ok fs' \<and>
     (\<forall>lm lu. is_listing fs' ''.ldk/monitors'' lm \<and> is_listing fs' ''.ldk/updates'' lu \<longrightarrow>
        (\<exists>ms. recover_monitors ?c lm lu = Ok (Some ms) \<and> (ms = [[1], [2]] \<or> ms = [[2], [1]])))"
    using new_channel_loses_updates [OF ok _ _ _ st, of txo_2 "[2]"] by (simp add: paths txo_1_def txo_2_def)
  then obtain fs' where p: "persist_new_channel ?c ''.ldk'' txo_2 [2] ?fs = Ok fs'"
    and r: "\<And>lm lu. is_listing fs' ''.ldk/monitors'' lm \<Longrightarrow> is_listing fs' ''.ldk/updates'' lu \<Longrightarrow>
      \<exists>ms. recover_monitors ?c lm lu = Ok (Some ms) \<and> (ms = [[1], [2]] \<or> ms = [[2], [1]])" by blast
  obtain lm lu where l: "is_listing fs' ''.ldk/monitors'' lm" "is_listing fs' ''.ldk/updates'' lu"
    using listing_exists by metis
  from r [OF l] obtain ms where "recover_monitors ?c lm lu = Ok (Some ms)" "[1] \<in> set ms \<and> [1, 3, 5] \<notin> set ms"
    by auto
  moreover have "apply_updates ?c [1] [3, 5] = Some [1, 3, 5]" by (simp add: log_codec_def)
  ultimately show ?thesis using st p l by blast
qed

end
