(* ===== verification/Bitcoind_Client.thy ===== *)
theory Bitcoind_Client
  imports Node_Types
begin

text \<open>
  \<open>src/src/bitcoind_client.rs\<close> and \<open>src/src/convert.rs\<close>: the JSON replies of bitcoind and the fee
  estimates and broadcasts built on them. The transport is a parameter, a function from method and
  arguments to a reply; so is the arithmetic of 64-bit floating point numbers, a type variable with its
  operations.
\<close>

section \<open>JSON\<close>

datatype 'f number = PosInt u64 | NegInt int | Float 'f

datatype 'f json =
    JNull
  | JBool bool
  | JNum "'f number"
  | JStr string
  | JArr "'f json list"
  | JObj "(string \<times> 'f json) list"

record 'f f64_ops =
  of_u64 :: "u64 \<Rightarrow> 'f"
  of_i64 :: "int \<Rightarrow> 'f"
  mul_f64 :: "'f \<Rightarrow> 'f \<Rightarrow> 'f"
  div_f64 :: "'f \<Rightarrow> 'f \<Rightarrow> 'f"
  round_as_u32 :: "'f \<Rightarrow> u32"

text \<open>\<open>Value\<close> indexing and accessors of serde_json: indexing what is not there gives null.\<close>

definition json_index :: "'f json \<Rightarrow> string \<Rightarrow> 'f json" where
  "json_index v k =
     (case v of JObj m \<Rightarrow> (case map_of m k of Some x \<Rightarrow> x | None \<Rightarrow> JNull) | _ \<Rightarrow> JNull)"

definition json_str :: "'f json \<Rightarrow> string option" where
  "json_str v = (case v of JStr s \<Rightarrow> Some s | _ \<Rightarrow> None)"

definition json_bool :: "'f json \<Rightarrow> bool option" where
  "json_bool v = (case v of JBool b \<Rightarrow> Some b | _ \<Rightarrow> None)"

definition json_i64 :: "'f json \<Rightarrow> int option" where
  "json_i64 v =
     (case v of
        JNum (PosInt n) \<Rightarrow> if unat n < 2 ^ 63 then Some (uint n) else None
      | JNum (NegInt i) \<Rightarrow> Some i
      | _ \<Rightarrow> None)"

definition json_u64 :: "'f json \<Rightarrow> u64 option" where
  "json_u64 v = (case v of JNum (PosInt n) \<Rightarrow> Some n | _ \<Rightarrow> None)"

definition json_f64 :: "'f f64_ops \<Rightarrow> 'f json \<Rightarrow> 'f option" where
  "json_f64 ops v =
     (case v of
        JNum (PosInt n) \<Rightarrow> Some (of_u64 ops n)
      | JNum (NegInt i) \<Rightarrow> Some (of_i64 ops i)
      | JNum (Float x) \<Rightarrow> Some x
      | _ \<Rightarrow> None)"

section \<open>Replies\<close>

record FundedTx =
  changepos :: int
  funded_hex :: string

record SignedTx =
  complete :: bool
  signed_hex :: string

record FeeResponse =
  feerate_sat_per_kw :: "u32 option"
  errored :: bool

record BlockchainInfo =
  latest_height :: u64
  latest_blockhash :: bytes
  chain :: string

definition try_into_funded_tx :: "'f json \<Rightarrow> (unit, FundedTx) outcome" where
  "try_into_funded_tx v =
     and_then (unwrap (json_i64 (json_index v ''changepos''))) (\<lambda>c.
     and_then (unwrap (json_str (json_index v ''hex''))) (\<lambda>h.
       Ok \<lparr>changepos = c, funded_hex = h\<rparr>))"

definition try_into_raw_tx :: "'f json \<Rightarrow> (unit, string) outcome" where
  "try_into_raw_tx v = unwrap (json_str v)"

definition try_into_signed_tx :: "'f json \<Rightarrow> (unit, SignedTx) outcome" where
  "try_into_signed_tx v =
     and_then (unwrap (json_str (json_index v ''hex''))) (\<lambda>h.
     and_then (unwrap (json_bool (json_index v ''complete''))) (\<lambda>c.
       Ok \<lparr>complete = c, signed_hex = h\<rparr>))"

definition try_into_new_address :: "'f json \<Rightarrow> (unit, string) outcome" where
  "try_into_new_address v = unwrap (json_str v)"

definition try_into_fee_response :: "'f f64_ops \<Rightarrow> 'f json \<Rightarrow> (unit, FeeResponse) outcome" where
  "try_into_fee_response ops v =
     Ok \<lparr>feerate_sat_per_kw =
           map_option (\<lambda>feerate_btc_per_kvbyte.
                         round_as_u32 ops (div_f64 ops (mul_f64 ops feerate_btc_per_kvbyte (of_u64 ops 100000000))
                                             (of_u64 ops 4)))
             (json_f64 ops (json_index v ''feerate'')),
         errored = (json_index v ''errors'' \<noteq> JNull)\<rparr>"

definition try_into_blockchain_info :: "(string \<Rightarrow> bytes option) \<Rightarrow> 'f json \<Rightarrow> (unit, BlockchainInfo) outcome" where
  "try_into_blockchain_info blockhash_from_hex v =
     and_then (unwrap (json_u64 (json_index v ''blocks''))) (\<lambda>h.
     and_then (unwrap (json_str (json_index v ''bestblockhash''))) (\<lambda>s.
     and_then (unwrap (blockhash_from_hex s)) (\<lambda>b.
     and_then (unwrap (json_str (json_index v ''chain''))) (\<lambda>c.
       Ok \<lparr>latest_height = h, latest_blockhash = b, chain = c\<rparr>))))"

section \<open>Fee estimates\<close>

datatype Target = Background | Normal | HighPriority

type_synonym fees = "Target \<Rightarrow> u32"

definition MIN_FEERATE :: u32 where "MIN_FEERATE = 253"

definition initial_fees :: fees where
  "initial_fees t = (case t of Background \<Rightarrow> MIN_FEERATE | Normal \<Rightarrow> 2000 | HighPriority \<Rightarrow> 5000)"

definition estimate_or :: "u32 \<Rightarrow> u32 option \<Rightarrow> u32" where
  "estimate_or default_rate resp =
     (case resp of Some feerate \<Rightarrow> max feerate MIN_FEERATE | None \<Rightarrow> default_rate)"

text \<open>A failed call carries the text of its inner error; an error of the operating system has none.\<close>

type_synonym 'f rpc = "string \<Rightarrow> 'f json list \<Rightarrow> (string option, 'f json) outcome"

definition call_method :: "'f rpc \<Rightarrow> ('f json \<Rightarrow> (unit, 'a) outcome) \<Rightarrow> string \<Rightarrow> 'f json list \<Rightarrow> (string option, 'a) outcome" where
  "call_method rpc conv m args =
     and_then (rpc m args) (\<lambda>v. case conv v of Ok a \<Rightarrow> Ok a | Err _ \<Rightarrow> Err None | Panic \<Rightarrow> Panic)"

text \<open>A call under \<open>unwrap\<close>: an error reply ends the process.\<close>

definition call_unwrap :: "'f rpc \<Rightarrow> ('f json \<Rightarrow> (unit, 'a) outcome) \<Rightarrow> string \<Rightarrow> 'f json list \<Rightarrow> (unit, 'a) outcome" where
  "call_unwrap rpc conv m args =
     (case call_method rpc conv m args of Ok a \<Rightarrow> Ok a | _ \<Rightarrow> Panic)"

definition estimate_smart_fee :: "'f f64_ops \<Rightarrow> 'f rpc \<Rightarrow> u64 \<Rightarrow> string \<Rightarrow> (unit, u32 option) outcome" where
  "estimate_smart_fee ops rpc conf_target estimate_mode =
     map_ok feerate_sat_per_kw
       (call_unwrap rpc (try_into_fee_response ops) ''estimatesmartfee''
          [JNum (PosInt conf_target), JStr estimate_mode])"

text \<open>One round of the polling loop; the replies come from three calls at different times.\<close>

definition poll_for_fee_estimates ::
  "'f f64_ops \<Rightarrow> 'f rpc \<Rightarrow> 'f rpc \<Rightarrow> 'f rpc \<Rightarrow> fees \<Rightarrow> (unit, fees) outcome" where
  "poll_for_fee_estimates ops rpc1 rpc2 rpc3 fs =
     and_then (estimate_smart_fee ops rpc1 144 ''ECONOMICAL'') (\<lambda>background.
     and_then (estimate_smart_fee ops rpc2 18 ''ECONOMICAL'') (\<lambda>normal.
     and_then (estimate_smart_fee ops rpc3 6 ''CONSERVATIVE'') (\<lambda>high_prio.
       Ok (fs(Background := estimate_or MIN_FEERATE background,
              Normal := estimate_or 2000 normal,
              HighPriority := estimate_or 5000 high_prio)))))"

definition get_est_sat_per_1000_weight :: "fees \<Rightarrow> Target \<Rightarrow> u32" where
  "get_est_sat_per_1000_weight fs confirmation_target = fs confirmation_target"

text \<open>What another thread can read: between the three stores of a round some targets are new.\<close>

inductive fees_reachable :: "'f f64_ops \<Rightarrow> fees \<Rightarrow> bool" for ops where
  fees_start: "fees_reachable ops initial_fees"
| fees_poll: "fees_reachable ops fs \<Longrightarrow> poll_for_fee_estimates ops rpc1 rpc2 rpc3 fs = Ok fs' \<Longrightarrow>
     fees_reachable ops (override_on fs fs' S)"

section \<open>The client\<close>

text \<open>\<open>BitcoindClient::new\<close>: one call proves the credentials work.\<close>

definition bitcoind_client_new ::
  "(string \<Rightarrow> bytes option) \<Rightarrow> 'f rpc \<Rightarrow> (string, fees) outcome" where
  "bitcoind_client_new blockhash_from_hex rpc =
     (case call_method rpc (try_into_blockchain_info blockhash_from_hex) ''getblockchaininfo'' [] of
        Ok _ \<Rightarrow> Ok initial_fees
      | Err _ \<Rightarrow> Err ''Failed to make initial call to bitcoind - please check your RPC user/password and access settings''
      | Panic \<Rightarrow> Panic)"

definition get_blockchain_info :: "(string \<Rightarrow> bytes option) \<Rightarrow> 'f rpc \<Rightarrow> (unit, BlockchainInfo) outcome" where
  "get_blockchain_info blockhash_from_hex rpc =
     call_unwrap rpc (try_into_blockchain_info blockhash_from_hex) ''getblockchaininfo'' []"

definition rpc_create_raw_transaction :: "'f rpc \<Rightarrow> (string \<times> 'f) list list \<Rightarrow> (unit, string) outcome" where
  "rpc_create_raw_transaction rpc outputs =
     call_unwrap rpc try_into_raw_tx ''createrawtransaction''
       [JArr [], JArr (map (\<lambda>m. JObj (map (\<lambda>(a, v). (a, JNum (Float v))) m)) outputs)]"

definition fund_options :: "'f f64_ops \<Rightarrow> fees \<Rightarrow> 'f json" where
  "fund_options ops fs =
     JObj [(''fee_rate'', JNum (Float (div_f64 ops (of_u64 ops (ucast (get_est_sat_per_1000_weight fs Normal)))
                                         (of_u64 ops 250)))),
           (''replaceable'', JBool False)]"

definition rpc_fund_raw_transaction :: "'f f64_ops \<Rightarrow> 'f rpc \<Rightarrow> fees \<Rightarrow> string \<Rightarrow> (unit, FundedTx) outcome" where
  "rpc_fund_raw_transaction ops rpc fs raw_tx =
     call_unwrap rpc try_into_funded_tx ''fundrawtransaction'' [JStr raw_tx, fund_options ops fs]"

definition send_raw_transaction :: "'f rpc \<Rightarrow> ('f json \<Rightarrow> (unit, bytes) outcome) \<Rightarrow> string \<Rightarrow> (unit, unit) outcome" where
  "send_raw_transaction rpc txid_conv raw_tx =
     map_ok (\<lambda>_. ()) (call_unwrap rpc txid_conv ''sendrawtransaction'' [JStr raw_tx])"

definition rpc_sign_raw_transaction_with_wallet :: "'f rpc \<Rightarrow> string \<Rightarrow> (unit, SignedTx) outcome" where
  "rpc_sign_raw_transaction_with_wallet rpc tx_hex =
     call_unwrap rpc try_into_signed_tx ''signrawtransactionwithwallet'' [JStr tx_hex]"

definition get_new_address :: "'f rpc \<Rightarrow> (string \<Rightarrow> 'a option) \<Rightarrow> (unit, 'a) outcome" where
  "get_new_address rpc address_from_str =
     and_then (call_unwrap rpc try_into_new_address ''getnewaddress'' [JStr ''LDK output address''])
       (\<lambda>addr. unwrap (address_from_str addr))"

definition benign_broadcast_errors :: "string list" where
  "benign_broadcast_errors =
     [''Transaction already in block chain'', ''Inputs missing or spent'',
      ''bad-txns-inputs-missingorspent'', ''txn-mempool-conflict'', ''non-BIP68-final'',
      ''insufficient fee, rejecting replacement '']"

definition broadcast_transaction ::
  "'f rpc \<Rightarrow> ('f json \<Rightarrow> (unit, bytes) outcome) \<Rightarrow> string \<Rightarrow> (unit, unit) outcome" where
  "broadcast_transaction rpc txid_conv tx_serialized =
     (case call_method rpc txid_conv ''sendrawtransaction'' [JStr tx_serialized] of
        Ok _ \<Rightarrow> Ok ()
      | Err None \<Rightarrow> Panic
      | Err (Some err_str) \<Rightarrow> if list_ex (\<lambda>b. contains_str b err_str) benign_broadcast_errors then Ok () else Panic
      | Panic \<Rightarrow> Panic)"

section \<open>Lemmas\<close>

lemma estimate_or_min: "MIN_FEERATE \<le> d \<Longrightarrow> MIN_FEERATE \<le> estimate_or d r"
  by (auto simp: estimate_or_def split: option.splits)

lemma poll_result:
  assumes "poll_for_fee_estimates ops rpc1 rpc2 rpc3 fs = Ok fs'"
  shows "\<exists>b n h. fs' = fs(Background := estimate_or MIN_FEERATE b, Normal := estimate_or 2000 n,
    HighPriority := estimate_or 5000 h)"
  using assms by (auto simp: poll_for_fee_estimates_def and_then_Ok_iff)

lemma fees_reachable_min: "fees_reachable ops fs \<Longrightarrow> MIN_FEERATE \<le> fs t"
proof (induction rule: fees_reachable.induct)
  case fees_start
  show ?case by (cases t) (simp_all add: initial_fees_def MIN_FEERATE_def)
next
  case (fees_poll fs rpc1 rpc2 rpc3 fs' S)
  have "MIN_FEERATE \<le> 2000" "MIN_FEERATE \<le> 5000" by (simp_all add: MIN_FEERATE_def)
  then have "MIN_FEERATE \<le> fs' t"
    using poll_result [OF fees_poll.hyps(2)] by (cases t) (auto intro: estimate_or_min)
  then show ?case using fees_poll.IH by (simp add: override_on_def)
qed

section \<open>Properties\<close>

text \<open>
  The library never sees a fee rate below its minimum of 253 satoshis per 1000 weight units:
  whatever bitcoind replies, and however a reader interleaves with the three stores of a polling round,
  every estimate is at least 253; and the fee rate the funding transaction is built with is such an
  estimate divided by 250.
\<close>

theorem fee_estimates_above_minimum:
  assumes "fees_reachable ops fs"
  shows "253 \<le> get_est_sat_per_1000_weight fs t \<and>
    (\<exists>w. 253 \<le> w \<and> json_index (fund_options ops fs) ''fee_rate'' =
       JNum (Float (div_f64 ops (of_u64 ops (ucast (w :: u32))) (of_u64 ops 250))))"
  using fees_reachable_min [OF assms]
  by (auto simp: get_est_sat_per_1000_weight_def MIN_FEERATE_def fund_options_def json_index_def)

text \<open>Exact arithmetic, truncated to whole satoshis, for the witnesses.\<close>

definition nat_f64 :: "nat f64_ops" where
  "nat_f64 = \<lparr>of_u64 = unat, of_i64 = nat, mul_f64 = (*), div_f64 = (div), round_as_u32 = word_of_nat\<rparr>"

theorem fee_estimates_above_minimum_witness:
  "\<exists>fs'. poll_for_fee_estimates nat_f64 (\<lambda>m args. Ok (JObj [])) (\<lambda>m args. Ok (JObj [(''feerate'', JNum (PosInt 0))]))
     (\<lambda>m args. Ok JNull) initial_fees = Ok fs' \<and> 253 \<le> get_est_sat_per_1000_weight fs' Normal"
proof -
  have "\<exists>fs'. poll_for_fee_estimates nat_f64 (\<lambda>m args. Ok (JObj [])) (\<lambda>m args. Ok (JObj [(''feerate'', JNum (PosInt 0))]))
     (\<lambda>m args. Ok JNull) initial_fees = Ok fs'"
    by (simp add: poll_for_fee_estimates_def estimate_smart_fee_def call_unwrap_def call_method_def try_into_fee_response_def)
  then obtain fs' where p: "poll_for_fee_estimates nat_f64 (\<lambda>m args. Ok (JObj []))
     (\<lambda>m args. Ok (JObj [(''feerate'', JNum (PosInt 0))])) (\<lambda>m args. Ok JNull) initial_fees = Ok fs'" by blast
  have "fees_reachable nat_f64 fs'"
    using fees_reachable.fees_poll [OF fees_reachable.fees_start p, of UNIV] by (simp add: override_on_def)
  from fee_estimates_above_minimum [OF this, of Normal] p show ?thesis by blast
qed

end
