(* ===== verification/Startup.thy ===== *)
theory Startup
  imports Startup_Args Persister Bitcoind_Client Peers
begin

text \<open>
  \<open>start_ldk\<close> of \<open>src/src/main.rs\<close>: from the arguments to the running node. The steps are kept in the
  order of the source, with its early returns and its unwraps; chain synchronisation, the library's
  deserialisers and the random generator are parameters. The background tasks it spawns are not run
  here: fee polling is in \<open>Bitcoind_Client\<close>, the saves of graph and scorer in \<open>Disk\<close>, events in \<open>Events\<close>.
\<close>

section \<open>Steps\<close>

definition expected_chain :: "Network \<Rightarrow> string" where
  "expected_chain net =
     (case net of Bitcoin \<Rightarrow> ''main'' | Testnet \<Rightarrow> ''test'' | Regtest \<Rightarrow> ''regtest'' | Signet \<Rightarrow> ''signet'')"

text \<open>Step 6: the seed of the node's keys is read, or drawn and written out.\<close>

definition load_keys_seed :: "string \<Rightarrow> bytes \<Rightarrow> fs \<Rightarrow> (io_error, bytes \<times> fs) outcome" where
  "load_keys_seed ldk_data_dir random_key fs =
     (case lookup_file fs ldk_data_dir ''keys_seed'' of
        Some f \<Rightarrow> if length (f_content f) = 32 then Ok (f_content f, fs) else Panic
      | None \<Rightarrow>
          (case fs_apply (CreateFile ldk_data_dir ''keys_seed'') fs of
             Ok fs1 \<Rightarrow>
               (case fs_run [WriteData ldk_data_dir ''keys_seed'' random_key,
                             SyncFile ldk_data_dir ''keys_seed''] fs1 of
                  Ok fs2 \<Rightarrow> Ok (random_key, fs2)
                | _ \<Rightarrow> Panic)
           | Err e \<Rightarrow> Err e
           | Panic \<Rightarrow> Panic))"

record ('f, 'm, 'u, 'mgr) start_env =
  env_ip_from_str :: "string \<Rightarrow> IpAddr option"
  env_rpc :: "string \<Rightarrow> u16 \<Rightarrow> string \<Rightarrow> string \<Rightarrow> 'f rpc"
  env_blockhash_from_hex :: "string \<Rightarrow> bytes option"
  env_random_key :: bytes
  env_codec :: "('m, 'u) monitor_codec"
  env_list_dir :: "fs \<Rightarrow> string \<Rightarrow> (string \<times> bytes) list option"
  env_manager_read :: "bytes \<Rightarrow> 'm list \<Rightarrow> 'mgr option"
  env_manager_new :: "Network \<Rightarrow> bytes \<Rightarrow> u32 \<Rightarrow> 'mgr"
  env_synchronize :: "'mgr \<Rightarrow> 'm list \<Rightarrow> 'm list option"
  env_watch_channel :: "'m \<Rightarrow> bool"

record ('m, 'mgr) running_node =
  run_network :: Network
  run_seed :: bytes
  run_manager :: 'mgr
  run_monitors :: "'m list"
  run_restarted :: bool
  run_fs :: fs

text \<open>The early returns of \<open>start_ldk\<close>, and the node it starts.\<close>

datatype ('m, 'mgr) start_result =
    BadArguments
  | NoBitcoind
  | WrongChain fs
  | NoSeedFile fs
  | UpdateRefused fs
  | Started "('m, 'mgr) running_node"

text \<open>Step 8: the saved channel manager, or a new one at the current tip.\<close>

definition load_manager ::
  "('f, 'm, 'u, 'mgr) start_env \<Rightarrow> 'f rpc \<Rightarrow> Network \<Rightarrow> string \<Rightarrow> 'm list \<Rightarrow> fs \<Rightarrow>
   (unit, 'mgr \<times> bool) outcome" where
  "load_manager env rpc net ldk_data_dir monitors fs =
     (case lookup_file fs ldk_data_dir ''manager'' of
        Some f \<Rightarrow> map_ok (\<lambda>m. (m, True)) (unwrap (env_manager_read env (f_content f) monitors))
      | None \<Rightarrow>
          map_ok (\<lambda>info. (env_manager_new env net (latest_blockhash info) (ucast (latest_height info)), False))
            (get_blockchain_info (env_blockhash_from_hex env) rpc))"

text \<open>Steps 9 and 10: only a restarted node synchronises its monitors and watches their channels.\<close>

definition sync_monitors ::
  "('f, 'm, 'u, 'mgr) start_env \<Rightarrow> 'mgr \<Rightarrow> bool \<Rightarrow> 'm list \<Rightarrow> (unit, 'm list) outcome" where
  "sync_monitors env manager restarting monitors =
     (if restarting
      then and_then (unwrap (env_synchronize env manager monitors))
             (\<lambda>synced. if list_all (env_watch_channel env) synced then Ok synced else Panic)
      else Ok [])"

text \<open>Steps 7 to 10.\<close>

definition start_channels ::
  "('f, 'm, 'u, 'mgr) start_env \<Rightarrow> 'f rpc \<Rightarrow> Network \<Rightarrow> string \<Rightarrow> bytes \<Rightarrow> fs \<Rightarrow>
   (unit, ('m, 'mgr) start_result) outcome" where
  "start_channels env rpc net ldk_data_dir seed fs =
     and_then (recover_monitors (env_codec env)
                 (env_list_dir env fs (path_to_monitor_data ldk_data_dir))
                 (env_list_dir env fs (path_to_monitor_data_updates ldk_data_dir)))
       (\<lambda>recovered.
          case recovered of
            None \<Rightarrow> Ok (UpdateRefused fs)
          | Some monitors \<Rightarrow>
              and_then (load_manager env rpc net ldk_data_dir monitors fs)
                (\<lambda>(manager, restarting).
                   map_ok (\<lambda>watched.
                      Started \<lparr>run_network = net, run_seed = seed, run_manager = manager,
                               run_monitors = watched, run_restarted = restarting, run_fs = fs\<rparr>)
                     (sync_monitors env manager restarting monitors)))"

definition start_ldk ::
  "('f, 'm, 'u, 'mgr) start_env \<Rightarrow> string list \<Rightarrow> fs \<Rightarrow> (unit, ('m, 'mgr) start_result) outcome" where
  "start_ldk env argv fs0 =
     (case parse_startup_args (env_ip_from_str env) argv of
        Err _ \<Rightarrow> Ok BadArguments
      | Panic \<Rightarrow> Panic
      | Ok args \<Rightarrow>
          let ldk_data_dir = ldk_storage_dir_path args @ ''/.ldk'';
              rpc = env_rpc env (bitcoind_rpc_host args) (bitcoind_rpc_port args)
                      (bitcoind_rpc_username args) (bitcoind_rpc_password args);
              net = network args
          in and_then (unwrap_io (fs_apply (CreateDirAll ldk_data_dir) fs0)) (\<lambda>fs1.
             case bitcoind_client_new (env_blockhash_from_hex env) rpc of
               Err _ \<Rightarrow> Ok NoBitcoind
             | Panic \<Rightarrow> Panic
             | Ok _ \<Rightarrow>
                 and_then (get_blockchain_info (env_blockhash_from_hex env) rpc) (\<lambda>info.
                 if chain info \<noteq> expected_chain net then Ok (WrongChain fs1)
                 else and_then (unwrap_io (logger_new ldk_data_dir fs1)) (\<lambda>(logs, fs2).
                 case load_keys_seed ldk_data_dir (env_random_key env) fs2 of
                   Err _ \<Rightarrow> Ok (NoSeedFile fs2)
                 | Panic \<Rightarrow> Panic
                 | Ok (seed, fs3) \<Rightarrow>
                     start_channels env rpc net ldk_data_dir seed fs3))))"

section \<open>Lemmas\<close>

lemma lookup_create_dir_all:
  "fs_apply (CreateDirAll d) fs = Ok fs' \<Longrightarrow> lookup_file fs' d' n = lookup_file fs d' n"
  by (auto simp: lookup_file_def empty_dir_def split: option.splits if_splits)

lemma lookup_logger_new:
  "logger_new d fs = Ok (l, fs') \<Longrightarrow> lookup_file fs' d' n = lookup_file fs d' n"
  using lookup_create_dir_all unfolding logger_new_def Let_def by (auto simp: map_ok_Ok_iff simp del: fs_apply.simps)

lemma load_keys_seed_Ok:
  assumes "load_keys_seed d key fs = Ok (seed, fs')" and "length key = 32"
  shows "length seed = 32 \<and> (\<exists>f. lookup_file fs' d ''keys_seed'' = Some f \<and> f_content f = seed) \<and>
    (lookup_file fs d ''keys_seed'' = None \<longrightarrow> seed = key) \<and>
    (\<forall>f. lookup_file fs d ''keys_seed'' = Some f \<longrightarrow> seed = f_content f \<and> fs' = fs)"
proof (cases "lookup_file fs d ''keys_seed''")
  case (Some f)
  with assms show ?thesis by (auto simp: load_keys_seed_def split: if_splits)
next
  case None
  with assms show ?thesis
    by (cases "fs d") (auto simp: load_keys_seed_def set_file_def lookup_file_def)
qed

text \<open>The steps before recovery leave every directory but the data directory and the logs as it is.\<close>

lemma create_dir_all_other: "fs_apply (CreateDirAll d) fs = Ok fs' \<Longrightarrow> d' \<noteq> d \<Longrightarrow> fs' d' = fs d'"
  by (auto split: option.splits)

lemma logger_new_other: "logger_new d fs = Ok (l, fs') \<Longrightarrow> d' \<noteq> d @ ''/logs'' \<Longrightarrow> fs' d' = fs d'"
  using create_dir_all_other unfolding logger_new_def Let_def by (auto simp: map_ok_Ok_iff simp del: fs_apply.simps)

lemma load_keys_seed_other: "load_keys_seed d key fs = Ok (seed, fs') \<Longrightarrow> d' \<noteq> d \<Longrightarrow> fs' d' = fs d'"
  by (auto simp: load_keys_seed_def set_file_def split: option.splits if_splits outcome.splits)

lemma is_listing_cong: "fs' d = fs d \<Longrightarrow> is_listing fs' d l = is_listing fs d l"
  using dir_map_cong [of fs' d fs] by (simp add: is_listing_def split: option.splits)

lemma start_channels_Started:
  assumes "start_channels env rpc net d seed fs = Ok (Started node)"
  shows "run_network node = net \<and> run_seed node = seed \<and> run_fs node = fs \<and>
    (\<exists>monitors. recover_monitors (env_codec env) (env_list_dir env fs (path_to_monitor_data d))
        (env_list_dir env fs (path_to_monitor_data_updates d)) = Ok (Some monitors) \<and>
      sync_monitors env (run_manager node) (run_restarted node) monitors = Ok (run_monitors node))"
  using assms
  by (fastforce simp: start_channels_def and_then_Ok_iff map_ok_Ok_iff split: option.splits prod.splits)

lemma start_ldk_Started:
  assumes "start_ldk env argv fs0 = Ok (Started node)"
  shows "\<exists>args fs1 fs2 logs rpc. parse_startup_args (env_ip_from_str env) argv = Ok args \<and>
    fs_apply (CreateDirAll (ldk_storage_dir_path args @ ''/.ldk'')) fs0 = Ok fs1 \<and>
    logger_new (ldk_storage_dir_path args @ ''/.ldk'') fs1 = Ok (logs, fs2) \<and>
    load_keys_seed (ldk_storage_dir_path args @ ''/.ldk'') (env_random_key env) fs2 =
      Ok (run_seed node, run_fs node) \<and>
    start_channels env rpc (network args) (ldk_storage_dir_path args @ ''/.ldk'') (run_seed node) (run_fs node) =
      Ok (Started node)"
proof -
  obtain args where a: "parse_startup_args (env_ip_from_str env) argv = Ok args"
    using assms by (auto simp: start_ldk_def split: outcome.splits)
  let ?d = "ldk_storage_dir_path args @ ''/.ldk''"
  let ?rpc = "env_rpc env (bitcoind_rpc_host args) (bitcoind_rpc_port args)
                (bitcoind_rpc_username args) (bitcoind_rpc_password args)"
  obtain fs1 where fs1: "fs_apply (CreateDirAll ?d) fs0 = Ok fs1" using create_dir_all_stage by blast
  obtain logs fs2 where fs2: "logger_new ?d fs1 = Ok (logs, fs2)"
    using create_dir_all_stage [of _ fs1] by (simp add: logger_new_def Let_def del: fs_apply.simps)
  obtain seed fs3 where "load_keys_seed ?d (env_random_key env) fs2 = Ok (seed, fs3)"
    "start_channels env ?rpc (network args) ?d seed fs3 = Ok (Started node)"
    using assms
    by (auto simp: start_ldk_def a fs1 fs2 Let_def and_then_Ok_iff simp del: fs_apply.simps
        split: outcome.splits if_splits)
  moreover from start_channels_Started [OF this(2)] have "run_seed node = seed" "run_fs node = fs3" by simp_all
  ultimately show ?thesis using a fs1 fs2 by blast
qed

lemma start_ldk_reaches_channels:
  assumes "parse_startup_args (env_ip_from_str env) argv = Ok args"
    and "rpc = env_rpc env (bitcoind_rpc_host args) (bitcoind_rpc_port args)
                (bitcoind_rpc_username args) (bitcoind_rpc_password args)"
    and "fs_apply (CreateDirAll (ldk_storage_dir_path args @ ''/.ldk'')) fs0 = Ok fs1"
    and "bitcoind_client_new (env_blockhash_from_hex env) rpc = Ok initial"
    and "get_blockchain_info (env_blockhash_from_hex env) rpc = Ok info"
    and "chain info = expected_chain (network args)"
    and "logger_new (ldk_storage_dir_path args @ ''/.ldk'') fs1 = Ok (logs, fs2)"
    and "load_keys_seed (ldk_storage_dir_path args @ ''/.ldk'') (env_random_key env) fs2 = Ok (seed, fs3)"
  shows "start_ldk env argv fs0 =
    start_channels env rpc (network args) (ldk_storage_dir_path args @ ''/.ldk'') seed fs3"
  using assms by (simp add: start_ldk_def Let_def del: fs_apply.simps)

section \<open>Properties\<close>


text \<open>A setting for the witnesses: a bitcoind on testnet and the codec that logs updates.\<close>

definition demo_rpc :: "nat rpc" where
  "demo_rpc m args = Ok (JObj [(''blocks'', JNum (PosInt 5)), (''bestblockhash'', JStr ''00''), (''chain'', JStr ''test'')])"

definition demo_start_env ::
  "bytes \<Rightarrow> (fs \<Rightarrow> string \<Rightarrow> (string \<times> bytes) list option) \<Rightarrow> (nat, bytes, u8, unit) start_env" where
  "demo_start_env key list_dir =
     \<lparr>env_ip_from_str = \<lambda>s. None, env_rpc = \<lambda>h p u w. demo_rpc, env_blockhash_from_hex = \<lambda>s. Some [0],
      env_random_key = key, env_codec = log_codec txo_1, env_list_dir = list_dir,
      env_manager_read = \<lambda>bs ms. Some (), env_manager_new = \<lambda>n h t. (), env_synchronize = \<lambda>m ms. Some ms,
      env_watch_channel = \<lambda>m. True\<rparr>"

definition demo_argv :: "string list" where
  "demo_argv = [''node'', rpc_url ''u'' ''p'' ''h'' 18332, ''.'']"

definition demo_args :: LdkUserInfo where
  "demo_args = \<lparr>bitcoind_rpc_username = ''u'', bitcoind_rpc_password = ''p'', bitcoind_rpc_port = 18332,
     bitcoind_rpc_host = ''h'', ldk_storage_dir_path = ''.'', ldk_peer_listening_port = 9735,
     ldk_announced_listen_addr = [], ldk_announced_node_name = replicate 32 0, network = Testnet\<rparr>"

lemma demo_parse: "parse_startup_args ip_from_str demo_argv = Ok demo_args"
  unfolding demo_argv_def demo_args_def by (rule parse_startup_args_minimal) simp_all

lemma demo_chain:
  "bitcoind_client_new (\<lambda>s. Some [0]) demo_rpc = Ok initial_fees"
  "get_blockchain_info (\<lambda>s. Some [0]) demo_rpc =
     Ok \<lparr>latest_height = 5, latest_blockhash = [0], chain = ''test''\<rparr>"
  by (simp_all add: bitcoind_client_new_def get_blockchain_info_def call_unwrap_def call_method_def demo_rpc_def
      try_into_blockchain_info_def json_index_def json_u64_def json_str_def)

lemma demo_start:
  assumes "fs_apply (CreateDirAll ''./.ldk'') fs0 = Ok fs1" "logger_new ''./.ldk'' fs1 = Ok (logs, fs2)"
    and "load_keys_seed ''./.ldk'' key fs2 = Ok (seed, fs3)"
  shows "start_ldk (demo_start_env key list_dir) demo_argv fs0 =
    start_channels (demo_start_env key list_dir) demo_rpc Testnet ''./.ldk'' seed fs3"
  using start_ldk_reaches_channels [of "demo_start_env key list_dir" demo_argv demo_args demo_rpc fs0 fs1
      initial_fees _ logs fs2 seed fs3] assms
  by (simp add: demo_start_env_def demo_parse demo_args_def demo_chain expected_chain_def del: fs_apply.simps)

text \<open>The listing in the order the model stores the entries.\<close>

definition stored_listing :: "fs \<Rightarrow> string \<Rightarrow> (string \<times> bytes) list option" where
  "stored_listing fs d = map_option (\<lambda>dir. map (\<lambda>(n, f). (n, f_content f)) (entries dir)) (fs d)"

lemma demo_no_channels:
  assumes "fs ''./.ldk/monitors'' = None" "fs ''./.ldk/updates'' = None" "lookup_file fs ''./.ldk'' ''manager'' = None"
  shows "start_channels (demo_start_env key stored_listing) demo_rpc Testnet ''./.ldk'' seed fs =
    Ok (Started \<lparr>run_network = Testnet, run_seed = seed, run_manager = (), run_monitors = [],
                 run_restarted = False, run_fs = fs\<rparr>)"
  using assms
  by (simp add: start_channels_def demo_start_env_def stored_listing_def path_to_monitor_data_def
      path_to_monitor_data_updates_def recover_monitors_def read_channelmonitors_def
      read_channelmonitor_updates_def load_manager_def demo_chain sync_monitors_def)

definition demo_fs :: "bytes \<Rightarrow> fs" where
  "demo_fs key = [''./.ldk'' \<mapsto> \<lparr>entries = [(''keys_seed'', \<lparr>f_content = key, f_synced = True\<rparr>)], durable = []\<rparr>,
     ''./.ldk/logs'' \<mapsto> empty_dir]"

lemma demo_first_stages:
  "fs_apply (CreateDirAll ''./.ldk'') Map.empty = Ok [''./.ldk'' \<mapsto> empty_dir]"
  "logger_new ''./.ldk'' [''./.ldk'' \<mapsto> empty_dir] =
     Ok (''./.ldk/logs'', [''./.ldk'' \<mapsto> empty_dir, ''./.ldk/logs'' \<mapsto> empty_dir])"
  "load_keys_seed ''./.ldk'' key [''./.ldk'' \<mapsto> empty_dir, ''./.ldk/logs'' \<mapsto> empty_dir] = Ok (key, demo_fs key)"
  by (simp_all add: logger_new_def load_keys_seed_def lookup_file_def empty_dir_def set_file_def demo_fs_def
      fun_upd_twist Let_def)

lemma demo_next_stages:
  "fs_apply (CreateDirAll ''./.ldk'') (demo_fs seed) = Ok (demo_fs seed)"
  "logger_new ''./.ldk'' (demo_fs seed) = Ok (''./.ldk/logs'', demo_fs seed)"
  "length seed = 32 \<Longrightarrow> load_keys_seed ''./.ldk'' key (demo_fs seed) = Ok (seed, demo_fs seed)"
  by (simp_all add: logger_new_def load_keys_seed_def lookup_file_def demo_fs_def Let_def)

lemma demo_fs_started:
  "start_channels (demo_start_env key stored_listing) demo_rpc Testnet ''./.ldk'' seed (demo_fs seed') =
    Ok (Started \<lparr>run_network = Testnet, run_seed = seed, run_manager = (), run_monitors = [],
                 run_restarted = False, run_fs = demo_fs seed'\<rparr>)"
  by (rule demo_no_channels) (simp_all add: demo_fs_def lookup_file_def)



definition demo_saved_dir :: dir_state where
  "demo_saved_dir = dir_of [(''manager'', [1]), (''keys_seed'', replicate 32 1)]"

lemma demo_saved_stages:
  assumes "fs ''./.ldk'' = Some demo_saved_dir"
  shows "fs_apply (CreateDirAll ''./.ldk'') fs = Ok fs"
    and "logger_new ''./.ldk'' (fs(''./.ldk/logs'' := None)) =
      Ok (''./.ldk/logs'', fs(''./.ldk/logs'' \<mapsto> empty_dir))"
    and "load_keys_seed ''./.ldk'' key (fs(''./.ldk/logs'' \<mapsto> empty_dir)) =
      Ok (replicate 32 1, fs(''./.ldk/logs'' \<mapsto> empty_dir))"
  using assms by (simp_all add: logger_new_def load_keys_seed_def lookup_file_def demo_saved_dir_def dir_of_def Let_def)


end
