(* ===== verification/ChaCha20.thy ===== *)
theory ChaCha20
  imports Prelude
begin

text \<open>
  The stream cipher of \<open>lightning/src/util/chacha20.rs\<close>, which hides onion layers, failure packets and
  the namespaces of fake channel ids: the block function, the buffered keystream and the two \<open>process\<close>
  loops. The assertions of the source and the exhausted counter are panics.
\<close>

section \<open>Words\<close>

type_synonym u32x4 = "u32 \<times> u32 \<times> u32 \<times> u32"

definition map2_x4 :: "(u32 \<Rightarrow> u32 \<Rightarrow> u32) \<Rightarrow> u32x4 \<Rightarrow> u32x4 \<Rightarrow> u32x4" where
  "map2_x4 f x y =
     (case (x, y) of ((x0, x1, x2, x3), (y0, y1, y2, y3)) \<Rightarrow> (f x0 y0, f x1 y1, f x2 y2, f x3 y3))"

definition add_x4 :: "u32x4 \<Rightarrow> u32x4 \<Rightarrow> u32x4" where "add_x4 = map2_x4 (+)"
definition sub_x4 :: "u32x4 \<Rightarrow> u32x4 \<Rightarrow> u32x4" where "sub_x4 = map2_x4 (-)"
definition xor_x4 :: "u32x4 \<Rightarrow> u32x4 \<Rightarrow> u32x4" where "xor_x4 = map2_x4 (\<lambda>a b. a XOR b)"
definition shl_x4 :: "u32x4 \<Rightarrow> u32x4 \<Rightarrow> u32x4" where "shl_x4 = map2_x4 (\<lambda>a b. push_bit (unat b) a)"
definition shr_x4 :: "u32x4 \<Rightarrow> u32x4 \<Rightarrow> u32x4" where "shr_x4 = map2_x4 (\<lambda>a b. drop_bit (unat b) a)"

definition all_x4 :: "u32 \<Rightarrow> u32x4" where "all_x4 w = (w, w, w, w)"

definition u32_from_le_bytes :: "bytes \<Rightarrow> u32" where
  "u32_from_le_bytes b =
     ucast (b ! 0) OR push_bit 8 (ucast (b ! 1)) OR push_bit 16 (ucast (b ! 2)) OR push_bit 24 (ucast (b ! 3))"

definition u32_to_le_bytes :: "u32 \<Rightarrow> bytes" where
  "u32_to_le_bytes w = [ucast w, ucast (drop_bit 8 w), ucast (drop_bit 16 w), ucast (drop_bit 24 w)]"

definition u32x4_from_bytes :: "bytes \<Rightarrow> u32x4" where
  "u32x4_from_bytes b =
     (u32_from_le_bytes (take 4 b), u32_from_le_bytes (take 4 (drop 4 b)),
      u32_from_le_bytes (take 4 (drop 8 b)), u32_from_le_bytes (take 4 (drop 12 b)))"

section \<open>State\<close>

record ChaChaState =
  cc_a :: u32x4
  cc_b :: u32x4
  cc_c :: u32x4
  cc_d :: u32x4

record ChaCha20 =
  cc_state :: ChaChaState
  cc_output :: bytes
  cc_offset :: nat

definition BLOCK_SIZE :: nat where "BLOCK_SIZE = 64"

section \<open>The block function\<close>

definition rotate_xor :: "u32x4 \<Rightarrow> u32x4 \<Rightarrow> u32 \<Rightarrow> u32x4" where
  "rotate_xor a b c =
     (let v = xor_x4 a b; r = sub_x4 (all_x4 32) (all_x4 c); right = shr_x4 v r in
      xor_x4 (shl_x4 v (all_x4 c)) right)"

definition chacha_round :: "ChaChaState \<Rightarrow> ChaChaState" where
  "chacha_round s0 =
     (let s1 = s0\<lparr>cc_a := add_x4 (cc_a s0) (cc_b s0)\<rparr>;
          s2 = s1\<lparr>cc_d := rotate_xor (cc_d s1) (cc_a s1) 16\<rparr>;
          s3 = s2\<lparr>cc_c := add_x4 (cc_c s2) (cc_d s2)\<rparr>;
          s4 = s3\<lparr>cc_b := rotate_xor (cc_b s3) (cc_c s3) 12\<rparr>;
          s5 = s4\<lparr>cc_a := add_x4 (cc_a s4) (cc_b s4)\<rparr>;
          s6 = s5\<lparr>cc_d := rotate_xor (cc_d s5) (cc_a s5) 8\<rparr>;
          s7 = s6\<lparr>cc_c := add_x4 (cc_c s6) (cc_d s6)\<rparr> in
      s7\<lparr>cc_b := rotate_xor (cc_b s7) (cc_c s7) 7\<rparr>)"

text \<open>The macro \<open>swizzle!\<close> turns its first argument left, its second by two, its third right.\<close>

definition turn_left :: "u32x4 \<Rightarrow> u32x4" where "turn_left x = (case x of (x0, x1, x2, x3) \<Rightarrow> (x1, x2, x3, x0))"
definition turn_two :: "u32x4 \<Rightarrow> u32x4" where "turn_two x = (case x of (x0, x1, x2, x3) \<Rightarrow> (x2, x3, x0, x1))"
definition turn_right :: "u32x4 \<Rightarrow> u32x4" where "turn_right x = (case x of (x0, x1, x2, x3) \<Rightarrow> (x3, x0, x1, x2))"

definition double_round :: "ChaChaState \<Rightarrow> ChaChaState" where
  "double_round s =
     (let s1 = chacha_round s;
          s2 = s1\<lparr>cc_b := turn_left (cc_b s1), cc_c := turn_two (cc_c s1), cc_d := turn_right (cc_d s1)\<rparr>;
          s3 = chacha_round s2 in
      s3\<lparr>cc_d := turn_left (cc_d s3), cc_c := turn_two (cc_c s3), cc_b := turn_right (cc_b s3)\<rparr>)"

definition state_to_buffer :: "ChaChaState \<Rightarrow> bytes" where
  "state_to_buffer s =
     (case (cc_a s, cc_b s, cc_c s, cc_d s) of
        ((a1, a2, a3, a4), (b1, b2, b3, b4), (c1, c2, c3, c4), (d1, d2, d3, d4)) \<Rightarrow>
          concat (map u32_to_le_bytes
            [a1, a2, a3, a4, b1, b2, b3, b4, c1, c2, c3, c4, d1, d2, d3, d4]))"

definition chacha_block :: "ChaChaState \<Rightarrow> bytes" where
  "chacha_block s =
     (let t = (double_round ^^ 10) s in
      state_to_buffer
        \<lparr>cc_a = add_x4 (cc_a t) (cc_a s), cc_b = add_x4 (cc_b t) (cc_b s),
         cc_c = add_x4 (cc_c t) (cc_c s), cc_d = add_x4 (cc_d t) (cc_d s)\<rparr>)"

section \<open>Operations\<close>

definition expand :: "bytes \<Rightarrow> bytes \<Rightarrow> (unit, ChaChaState) outcome" where
  "expand key nonce =
     (if (length key = 16 \<or> length key = 32) \<and> (length nonce = 8 \<or> length nonce = 12 \<or> length nonce = 16)
      then Ok \<lparr>cc_a = u32x4_from_bytes (as_bytes (if length key = 16 then ''expand 16-byte k'' else ''expand 32-byte k'')),
               cc_b = u32x4_from_bytes (take 16 key),
               cc_c = u32x4_from_bytes (if length key = 16 then take 16 key else take 16 (drop 16 key)),
               cc_d = u32x4_from_bytes
                        (if length nonce = 16 then take 16 nonce
                         else if length nonce = 12 then replicate 4 0 @ nonce
                         else replicate 8 0 @ nonce)\<rparr>
      else Panic)"

definition chacha_new :: "bytes \<Rightarrow> bytes \<Rightarrow> (unit, ChaCha20) outcome" where
  "chacha_new key nonce =
     (if (length key = 16 \<or> length key = 32) \<and> (length nonce = 8 \<or> length nonce = 12)
      then map_ok (\<lambda>st. \<lparr>cc_state = st, cc_output = replicate 64 0, cc_offset = 64\<rparr>) (expand key nonce)
      else Panic)"

definition counter :: "ChaCha20 \<Rightarrow> u32" where "counter c = fst (cc_d (cc_state c))"

definition update :: "ChaCha20 \<Rightarrow> (unit, ChaCha20) outcome" where
  "update c =
     (let st = cc_state c;
          st' = st\<lparr>cc_d := add_x4 (cc_d st) (1, 0, 0, 0)\<rparr> in
      if fst (cc_d st') = 0 then Panic
      else Ok (c\<lparr>cc_state := st', cc_output := chacha_block st, cc_offset := 0\<rparr>))"

definition refill :: "ChaCha20 \<Rightarrow> (unit, ChaCha20) outcome" where
  "refill c = (if cc_offset c = BLOCK_SIZE then update c else if cc_offset c > BLOCK_SIZE then Panic else Ok c)"

definition xor_bytes :: "bytes \<Rightarrow> bytes \<Rightarrow> bytes" where
  "xor_bytes xs ks = map2 (\<lambda>x k. x XOR k) xs ks"

text \<open>
  The loop of \<open>process\<close>. An offset beyond the block, which the subtraction in the source refuses, does
  not occur.
\<close>

lemma refill_offset: "refill c = Ok c1 \<Longrightarrow> cc_offset c1 < BLOCK_SIZE"
  by (auto simp: refill_def update_def Let_def BLOCK_SIZE_def split: if_splits)

function process :: "ChaCha20 \<Rightarrow> bytes \<Rightarrow> (unit, ChaCha20 \<times> bytes) outcome" where
  "process c input =
     (if input = [] then Ok (c, [])
      else case refill c of
             Panic \<Rightarrow> Panic
           | Err e \<Rightarrow> Err e
           | Ok c1 \<Rightarrow>
               let count = min (BLOCK_SIZE - cc_offset c1) (length input);
                   out = xor_bytes (take count input) (take count (drop (cc_offset c1) (cc_output c1)))
               in map_ok (\<lambda>(c2, rest). (c2, out @ rest))
                    (process (c1\<lparr>cc_offset := cc_offset c1 + count\<rparr>) (drop count input)))"
  by pat_completeness auto
termination
  by (relation "measure (length \<circ> snd)") (auto dest: refill_offset)

text \<open>The loop of \<open>process_in_place\<close>, which overwrites its buffer by index.\<close>

fun xor_range :: "bytes \<Rightarrow> nat \<Rightarrow> bytes \<Rightarrow> nat \<Rightarrow> nat \<Rightarrow> bytes" where
  "xor_range buf i out offset 0 = buf"
| "xor_range buf i out offset (Suc j) =
     (let buf' = xor_range buf i out offset j in buf'[i + j := (buf' ! (i + j)) XOR (out ! (offset + j))])"

lemma length_xor_range [simp]: "length (xor_range buf i out offset n) = length buf"
  by (induction n) (simp_all add: Let_def)

function in_place_loop :: "ChaCha20 \<Rightarrow> bytes \<Rightarrow> nat \<Rightarrow> (unit, ChaCha20 \<times> bytes) outcome" where
  "in_place_loop c buf i =
     (if length buf \<le> i then Ok (c, buf)
      else case refill c of
             Panic \<Rightarrow> Panic
           | Err e \<Rightarrow> Err e
           | Ok c1 \<Rightarrow>
               let count = min (BLOCK_SIZE - cc_offset c1) (length buf - i)
               in in_place_loop (c1\<lparr>cc_offset := cc_offset c1 + count\<rparr>)
                    (xor_range buf i (cc_output c1) (cc_offset c1) count) (i + count))"
  by pat_completeness auto
termination
  by (relation "measure (\<lambda>(c, buf, i). length buf - i)") (auto dest: refill_offset)

definition process_in_place :: "ChaCha20 \<Rightarrow> bytes \<Rightarrow> (unit, ChaCha20 \<times> bytes) outcome" where
  "process_in_place c input_output = in_place_loop c input_output 0"

definition get_single_block :: "bytes \<Rightarrow> bytes \<Rightarrow> (unit, bytes) outcome" where
  "get_single_block key nonce =
     and_then (expand key nonce) (\<lambda>st.
       map_ok snd (process_in_place \<lparr>cc_state = st, cc_output = replicate 64 0, cc_offset = 64\<rparr> (replicate 32 0)))"

text \<open>One message under a key with the zero nonce, as the onion code uses the cipher.\<close>

definition chacha_crypt :: "bytes \<Rightarrow> bytes \<Rightarrow> (unit, bytes) outcome" where
  "chacha_crypt key msg = and_then (chacha_new key (replicate 8 0)) (\<lambda>c. map_ok snd (process c msg))"

declare process.simps [simp del] in_place_loop.simps [simp del]

section \<open>Lemmas\<close>

definition cc_ok :: "ChaCha20 \<Rightarrow> bool" where
  "cc_ok c \<longleftrightarrow> length (cc_output c) = BLOCK_SIZE \<and> cc_offset c \<le> BLOCK_SIZE"

lemma process_Nil [simp]: "process c [] = Ok (c, [])"
  by (simp add: process.simps)

lemma length_chacha_block: "length (chacha_block s) = BLOCK_SIZE"
  by (simp add: chacha_block_def state_to_buffer_def u32_to_le_bytes_def Let_def BLOCK_SIZE_def split: prod.splits)

lemma refill_ok: "cc_ok c \<Longrightarrow> refill c = Ok c1 \<Longrightarrow> cc_ok c1"
  by (auto simp: refill_def update_def Let_def cc_ok_def length_chacha_block split: if_splits)

lemma length_xor_bytes [simp]: "length (xor_bytes xs ks) = min (length xs) (length ks)"
  by (simp add: xor_bytes_def)

lemma xor_bytes_twice: "length xs = length ks \<Longrightarrow> xor_bytes (xor_bytes xs ks) ks = xs"
  by (induction xs ks rule: list_induct2) (simp_all add: xor_bytes_def xor.assoc)

lemma process_involution:
  assumes "process c xs = Ok (c', ys)" "cc_ok c"
  shows "length ys = length xs \<and> process c ys = Ok (c', xs) \<and> cc_ok c'"
  using assms
proof (induction c xs arbitrary: c' ys rule: process.induct)
  case (1 c input)
  show ?case
  proof (cases "input = []")
    case True
    with 1 show ?thesis by simp
  next
    case False
    then obtain c1 where c1: "refill c = Ok c1"
      using "1.prems"(1) by (cases "refill c") (auto simp: process.simps [of c input])
    let ?n = "min (BLOCK_SIZE - cc_offset c1) (length input)"
    let ?ks = "take ?n (drop (cc_offset c1) (cc_output c1))"
    let ?c2 = "c1\<lparr>cc_offset := cc_offset c1 + ?n\<rparr>"
    have ok1: "cc_ok c1" and off: "cc_offset c1 < BLOCK_SIZE"
      using refill_ok [OF "1.prems"(2) c1] refill_offset [OF c1] by simp_all
    obtain rest where rest: "process ?c2 (drop ?n input) = Ok (c', rest)" "ys = xor_bytes (take ?n input) ?ks @ rest"
      using "1.prems"(1) False c1 by (auto simp: process.simps [of c input] Let_def map_ok_Ok_iff)
    have "cc_ok ?c2" using ok1 off by (auto simp: cc_ok_def)
    with "1.IH" [OF False c1 refl refl rest(1)]
    have IH: "length rest = length (drop ?n input)" "process ?c2 rest = Ok (c', drop ?n input)" "cc_ok c'"
      by simp_all
    have ks: "length ?ks = ?n" using ok1 by (simp add: cc_ok_def)
    then have len: "length ys = length input" using rest(2) IH(1) by simp
    have "take ?n ys = xor_bytes (take ?n input) ?ks" "drop ?n ys = rest" using rest(2) ks by simp_all
    moreover have "ys \<noteq> []" using len False by auto
    ultimately have "process c ys = Ok (c', xor_bytes (xor_bytes (take ?n input) ?ks) ?ks @ drop ?n input)"
      using c1 IH(2) len by (simp add: process.simps [of c ys] Let_def)
    moreover have "xor_bytes (xor_bytes (take ?n input) ?ks) ?ks = take ?n input"
      by (rule xor_bytes_twice) (subst ks, simp)
    ultimately show ?thesis using len IH(3) by simp
  qed
qed

lemma xor_range_eq:
  "i + n \<le> length buf \<Longrightarrow> offset + n \<le> length out \<Longrightarrow>
   xor_range buf i out offset n = take i buf @ xor_bytes (take n (drop i buf)) (take n (drop offset out)) @ drop (i + n) buf"
proof (induction n)
  case (Suc n)
  then have IH: "xor_range buf i out offset n =
      take i buf @ xor_bytes (take n (drop i buf)) (take n (drop offset out)) @ drop (i + n) buf" by simp
  have d: "drop (i + n) buf = buf ! (i + n) # drop (i + Suc n) buf" "drop i buf ! n = buf ! (i + n)"
    "drop offset out ! n = out ! (offset + n)"
    using Suc.prems by (simp_all add: Cons_nth_drop_Suc)
  have "take (Suc n) (drop i buf) = take n (drop i buf) @ [buf ! (i + n)]"
    "take (Suc n) (drop offset out) = take n (drop offset out) @ [out ! (offset + n)]"
    using Suc.prems d by (simp_all add: take_Suc_conv_app_nth)
  then show ?case
    using Suc.prems by (simp add: IH Let_def d(1) xor_bytes_def nth_append list_update_append)
qed (simp add: xor_bytes_def)

lemma in_place_loop_is_process:
  assumes "cc_ok c" "i \<le> length buf"
  shows "in_place_loop c buf i = map_ok (\<lambda>(c', ys). (c', take i buf @ ys)) (process c (drop i buf))"
  using assms
proof (induction c buf i rule: in_place_loop.induct)
  case (1 c buf i)
  show ?case
  proof (cases "length buf \<le> i")
    case True
    with "1.prems" show ?thesis by (subst in_place_loop.simps) simp
  next
    case False
    then have ne: "drop i buf \<noteq> []" by simp
    show ?thesis
    proof (cases "refill c")
      case (Ok c1)
      let ?n = "min (BLOCK_SIZE - cc_offset c1) (length buf - i)"
      let ?c2 = "c1\<lparr>cc_offset := cc_offset c1 + ?n\<rparr>"
      let ?buf = "xor_range buf i (cc_output c1) (cc_offset c1) ?n"
      let ?ks = "take ?n (drop (cc_offset c1) (cc_output c1))"
      have ok1: "cc_ok c1" and off: "cc_offset c1 < BLOCK_SIZE"
        using refill_ok [OF "1.prems"(1) Ok] refill_offset [OF Ok] by simp_all
      have ok2: "cc_ok ?c2" using ok1 off by (auto simp: cc_ok_def)
      have ks: "length ?ks = ?n" using ok1 by (simp add: cc_ok_def)
      have buf: "?buf = take i buf @ xor_bytes (take ?n (drop i buf)) ?ks @ drop (i + ?n) buf"
        using ok1 off False by (intro xor_range_eq) (auto simp: cc_ok_def)
      have parts: "take (i + ?n) ?buf = take i buf @ xor_bytes (take ?n (drop i buf)) ?ks"
        "drop (i + ?n) ?buf = drop (i + ?n) buf"
        unfolding buf using False ks by simp_all
      have "in_place_loop c buf i = in_place_loop ?c2 ?buf (i + ?n)"
        using False Ok by (simp add: in_place_loop.simps [of c buf i] Let_def)
      also have "\<dots> = map_ok (\<lambda>(c', ys). (c', take (i + ?n) ?buf @ ys)) (process ?c2 (drop (i + ?n) ?buf))"
        using "1.IH" [OF False Ok refl ok2] False by simp
      finally show ?thesis
        using ne Ok unfolding parts
        by (simp add: process.simps [of c "drop i buf"] Let_def map_ok_map_ok add.commute case_prod_unfold)
    qed (use False ne in \<open>simp_all add: in_place_loop.simps [of c buf i] process.simps [of c "drop i buf"]\<close>)
  qed
qed

lemma process_in_place_eq: "cc_ok c \<Longrightarrow> process_in_place c xs = process c xs"
  by (cases "process c xs") (auto simp: process_in_place_def in_place_loop_is_process)

lemma new_ok: "chacha_new key nonce = Ok c \<Longrightarrow> cc_ok c"
  by (auto simp: chacha_new_def expand_def cc_ok_def BLOCK_SIZE_def split: if_splits)

text \<open>The counter bounds how many blocks can still be drawn.\<close>

lemma update_counter: "update c = (if counter c + 1 = 0 then Panic else
    Ok (c\<lparr>cc_state := (cc_state c)\<lparr>cc_d := add_x4 (cc_d (cc_state c)) (1, 0, 0, 0)\<rparr>,
          cc_output := chacha_block (cc_state c), cc_offset := 0\<rparr>))"
  by (auto simp: update_def counter_def Let_def add_x4_def map2_x4_def split: prod.splits)

lemma counter_offset [simp]: "counter (c\<lparr>cc_offset := n\<rparr>) = counter c"
  by (simp add: counter_def)

definition budget :: "ChaCha20 \<Rightarrow> nat" where
  "budget c = (BLOCK_SIZE - cc_offset c) + BLOCK_SIZE * (2 ^ 32 - 1 - unat (counter c))"

lemma refill_budget:
  assumes "cc_ok c" "0 < budget c"
  shows "\<exists>c1. refill c = Ok c1 \<and> budget c1 = budget c"
proof (cases "cc_offset c = BLOCK_SIZE")
  case True
  then have lt: "unat (counter c) < 2 ^ 32 - 1" using assms(2) by (simp add: budget_def BLOCK_SIZE_def)
  then have suc: "unat (counter c + 1) = Suc (unat (counter c))"
    by (simp add: unat_word_ariths)
  then have "counter c + 1 \<noteq> 0" by (metis nat.distinct(1) unat_0)
  then obtain c1 where c1: "update c = Ok c1" "counter c1 = counter c + 1" "cc_offset c1 = 0"
    by (simp add: update_counter counter_def add_x4_def map2_x4_def split: prod.splits)
  have "budget c1 = budget c"
    using True lt suc c1 by (simp add: budget_def BLOCK_SIZE_def)
  with True c1 show ?thesis by (simp add: refill_def)
next
  case False
  with assms(1) show ?thesis by (auto simp: refill_def cc_ok_def)
qed

lemma process_total:
  assumes "cc_ok c" "length xs \<le> budget c"
  shows "\<exists>c' ys. process c xs = Ok (c', ys)"
  using assms
proof (induction c xs rule: process.induct)
  case (1 c input)
  show ?case
  proof (cases "input = []")
    case False
    then have "0 < length input" by simp
    then have "0 < budget c" using "1.prems"(2) by linarith
    then obtain c1 where c1: "refill c = Ok c1" "budget c1 = budget c"
      using refill_budget "1.prems"(1) by blast
    let ?n = "min (BLOCK_SIZE - cc_offset c1) (length input)"
    let ?c2 = "c1\<lparr>cc_offset := cc_offset c1 + ?n\<rparr>"
    have "cc_ok c1" "cc_offset c1 < BLOCK_SIZE"
      using refill_ok [OF "1.prems"(1) c1(1)] refill_offset [OF c1(1)] by simp_all
    then have "cc_ok ?c2" "budget ?c2 = budget c1 - ?n" by (auto simp: cc_ok_def budget_def)
    moreover have "length (drop ?n input) \<le> budget c1 - ?n"
      using c1(2) "1.prems"(2) by simp
    ultimately obtain c' ys where "process ?c2 (drop ?n input) = Ok (c', ys)"
      using "1.IH" [OF False c1(1) refl refl] by auto
    then show ?thesis using False c1(1) by (auto simp: process.simps [of c input] Let_def)
  qed simp
qed

lemma u32_from_le_bytes_zero: "u32_from_le_bytes (replicate 4 0) = 0"
  by (simp add: u32_from_le_bytes_def)

lemma chacha_new_short_nonce:
  assumes "length key = 32" "length nonce = 8"
  shows "\<exists>c. chacha_new key nonce = Ok c \<and> cc_ok c \<and> budget c = 64 * (2 ^ 32 - 1)"
proof -
  obtain st where st: "expand key nonce = Ok st" "fst (cc_d st) = 0"
    using assms u32_from_le_bytes_zero by (simp add: expand_def u32x4_from_bytes_def)
  let ?c = "\<lparr>cc_state = st, cc_output = replicate 64 0, cc_offset = 64\<rparr> :: ChaCha20"
  have "chacha_new key nonce = Ok ?c" using assms st(1) by (simp add: chacha_new_def)
  moreover have "cc_ok ?c" by (simp add: cc_ok_def BLOCK_SIZE_def)
  moreover have "budget ?c = 64 * (2 ^ 32 - 1)" using st(2) by (simp add: budget_def counter_def BLOCK_SIZE_def)
  ultimately show ?thesis by blast
qed

lemmas chacha_new_zero_nonce = chacha_new_short_nonce [of _ "replicate 8 0", simplified length_replicate, OF _ refl]

text \<open>A single byte is combined with a keystream byte that does not depend on it.\<close>

lemma process_one_byte:
  assumes "length key = 32" "length nonce = 8"
  shows "\<exists>k. \<forall>x. and_then (chacha_new key nonce) (\<lambda>c. map_ok snd (process_in_place c [x])) = Ok [x XOR k]"
proof -
  obtain c where c: "chacha_new key nonce = Ok c" "cc_ok c" "budget c = 64 * (2 ^ 32 - 1)"
    using chacha_new_short_nonce [OF assms] by blast
  obtain c1 where c1: "refill c = Ok c1" using refill_budget [OF c(2)] c(3) by auto
  have "take (Suc 0) (drop (cc_offset c1) (cc_output c1)) = [cc_output c1 ! cc_offset c1]"
    using refill_ok [OF c(2) c1] refill_offset [OF c1] by (simp add: Cons_nth_drop_Suc [symmetric] cc_ok_def)
  then have "process c [x] = Ok (c1\<lparr>cc_offset := Suc (cc_offset c1)\<rparr>, [x XOR cc_output c1 ! cc_offset c1])" for x
    using c1 refill_offset [OF c1] by (simp add: process.simps [of c "[x]"] Let_def xor_bytes_def)
  then show ?thesis using c(1,2) by (auto simp: process_in_place_eq)
qed

section \<open>Byte by byte\<close>

text \<open>Splitting off the first byte does not change the stream: the buffering is invisible.\<close>

lemma process_Cons:
  assumes "cc_ok c"
  shows "process c (x # xs) =
    and_then (process c [x]) (\<lambda>(c1, a). map_ok (\<lambda>(c2, b). (c2, a @ b)) (process c1 xs))"
proof (cases "refill c")
  case (Ok c1)
  have ok1: "cc_ok c1" and off: "cc_offset c1 < BLOCK_SIZE"
    using refill_ok [OF assms Ok] refill_offset [OF Ok] by simp_all
  let ?o = "cc_offset c1"
  let ?c2 = "c1\<lparr>cc_offset := Suc ?o\<rparr>"
  have key: "take (Suc n) (drop ?o (cc_output c1)) = cc_output c1 ! ?o # take n (drop (Suc ?o) (cc_output c1))" for n
    using ok1 off by (simp add: Cons_nth_drop_Suc [symmetric] cc_ok_def)
  have one: "process c [x] = Ok (?c2, [x XOR cc_output c1 ! ?o])"
    using Ok off key [of 0] by (simp add: process.simps [of c "[x]"] Let_def xor_bytes_def)
  show ?thesis
  proof (cases "xs = [] \<or> Suc ?o = BLOCK_SIZE")
    case True
    then have "min (BLOCK_SIZE - ?o) (Suc (length xs)) = 1" using off by auto
    then show ?thesis
      using Ok one key [of 0] by (simp add: process.simps [of c "x # xs"] Let_def xor_bytes_def)
  next
    case False
    then have r2: "refill ?c2 = Ok ?c2" using off by (auto simp: refill_def)
    have n: "min (BLOCK_SIZE - ?o) (Suc (length xs)) = Suc (min (BLOCK_SIZE - Suc ?o) (length xs))"
      using off by simp
    have "process ?c2 xs =
       (let count = min (BLOCK_SIZE - Suc ?o) (length xs);
            out = xor_bytes (take count xs) (take count (drop (Suc ?o) (cc_output c1)))
        in map_ok (\<lambda>(c2, rest). (c2, out @ rest)) (process (c1\<lparr>cc_offset := Suc ?o + count\<rparr>) (drop count xs)))"
      using False r2 by (simp add: process.simps [of ?c2 xs] Let_def)
    then show ?thesis
      using Ok one n key
      by (cases "process (c1\<lparr>cc_offset := Suc (?o + min (BLOCK_SIZE - Suc ?o) (length xs))\<rparr>)
            (drop (min (BLOCK_SIZE - Suc ?o) (length xs)) xs)")
         (auto simp: process.simps [of c "x # xs"] Let_def xor_bytes_def)
  qed
qed (simp_all add: process.simps [of c "x # xs"] process.simps [of c "[x]"])

lemma process_append:
  assumes "cc_ok c"
  shows "process c (xs @ ys) =
    and_then (process c xs) (\<lambda>(c1, a). map_ok (\<lambda>(c2, b). (c2, a @ b)) (process c1 ys))"
  using assms
proof (induction xs arbitrary: c)
  case Nil
  show ?case by (cases "process c ys") auto
next
  case (Cons x xs)
  show ?case
  proof (cases "process c [x]")
    case (Ok r)
    obtain c1 a where r: "r = (c1, a)" by (cases r)
    then have "cc_ok c1" using process_involution [of c "[x]" c1 a] Ok Cons.prems by simp
    from Cons.IH [OF this] Ok r show ?thesis
      using process_Cons [OF Cons.prems, of x "xs @ ys"] process_Cons [OF Cons.prems, of x xs]
      by (auto simp: map_ok_and_then map_ok_map_ok case_prod_beta comp_def and_then_map_ok)
  qed (use process_Cons [OF Cons.prems, of x "xs @ ys"] process_Cons [OF Cons.prems, of x xs] in auto)
qed

section \<open>The interface the onion relies on\<close>

text \<open>Layers of encryption, the first key outermost.\<close>

fun wrap_layers :: "(bytes \<Rightarrow> bytes \<Rightarrow> (unit, bytes) outcome) \<Rightarrow> bytes list \<Rightarrow> bytes \<Rightarrow> (unit, bytes) outcome" where
  "wrap_layers crypt [] m = Ok m"
| "wrap_layers crypt (k # ks) m = and_then (wrap_layers crypt ks m) (crypt k)"

locale stream_cipher =
  fixes crypt :: "bytes \<Rightarrow> bytes \<Rightarrow> (unit, bytes) outcome" and key_len max_len :: nat
  assumes crypt_total: "length k = key_len \<Longrightarrow> length m \<le> max_len \<Longrightarrow> \<exists>c. crypt k m = Ok c"
    and crypt_length: "crypt k m = Ok c \<Longrightarrow> length c = length m"
    and crypt_involution: "crypt k m = Ok c \<Longrightarrow> crypt k c = Ok m"
begin

lemma wrap_layers_total:
  assumes "\<forall>k\<in>set ks. length k = key_len" "length m \<le> max_len"
  shows "\<exists>c. wrap_layers crypt ks m = Ok c \<and> length c = length m"
  using assms
proof (induction ks)
  case (Cons k ks)
  then obtain c where c: "wrap_layers crypt ks m = Ok c" "length c = length m" by auto
  then obtain d where "crypt k c = Ok d" using crypt_total [of k c] Cons.prems by auto
  with c crypt_length show ?case by simp
qed simp

lemma peel_layer: "wrap_layers crypt (k # ks) m = Ok c \<Longrightarrow> crypt k c = wrap_layers crypt ks m"
proof -
  assume "wrap_layers crypt (k # ks) m = Ok c"
  then obtain d where d: "wrap_layers crypt ks m = Ok d" "crypt k d = Ok c" by (auto simp: and_then_Ok_iff)
  show ?thesis unfolding d(1) by (rule crypt_involution [OF d(2)])
qed

lemma crypt_inj: "crypt k m = Ok c \<Longrightarrow> crypt k m' = Ok c \<Longrightarrow> m = m'"
  by (metis crypt_involution outcome.inject(1))

end

definition chacha_max :: nat where "chacha_max = 64 * (2 ^ 32 - 1)"

interpretation chacha: stream_cipher chacha_crypt 32 chacha_max
proof
  fix k m c
  show "\<exists>c. chacha_crypt k m = Ok c" if k: "length k = 32" and m: "length m \<le> chacha_max"
  proof -
    obtain s where s: "chacha_new k (replicate 8 0) = Ok s" "cc_ok s" "budget s = chacha_max"
      using chacha_new_zero_nonce [OF k] by (auto simp: chacha_max_def)
    then show ?thesis using process_total [OF s(2), of m] m by (auto simp: chacha_crypt_def)
  qed
  assume "chacha_crypt k m = Ok c"
  then obtain s s' where s: "chacha_new k (replicate 8 0) = Ok s" "process s m = Ok (s', c)"
    by (auto simp: chacha_crypt_def and_then_Ok_iff map_ok_Ok_iff)
  from process_involution [OF s(2) new_ok [OF s(1)]] s(1)
  show "length c = length m" "chacha_crypt k c = Ok m" by (simp_all add: chacha_crypt_def)
qed

section \<open>Properties\<close>

text \<open>
  The cipher is a stream cipher: from a fresh state, processing the output again gives the input
  back, the output is as long as the input, the in-place loop computes the same, and a message may be processed in pieces of any size; with a
  32-byte key and the zero nonce every message up to 64 times 4294967295 bytes is processed.
\<close>

theorem chacha_stream:
  assumes "chacha_new key nonce = Ok c"
  shows "(\<forall>xs c' ys. process c xs = Ok (c', ys) \<longrightarrow> length ys = length xs \<and> process c ys = Ok (c', xs)) \<and>
    process_in_place c xs = process c xs \<and>
    process c (xs @ ys) = and_then (process c xs) (\<lambda>(c1, a). map_ok (\<lambda>(c2, b). (c2, a @ b)) (process c1 ys)) \<and>
    (length key = 32 \<and> nonce = replicate 8 0 \<and> length xs \<le> 64 * 4294967295 \<longrightarrow> (\<exists>r. process c xs = Ok r))"
proof -
  have ok: "cc_ok c" by (rule new_ok [OF assms])
  have total: "\<exists>r. process c xs = Ok r"
    if k: "length key = 32" and n: "nonce = replicate 8 0" and l: "length xs \<le> 64 * 4294967295"
  proof -
    have "budget c = 64 * (2 ^ 32 - 1)" using chacha_new_zero_nonce [OF k] assms n by auto
    then show ?thesis using process_total [OF ok, of xs] l by auto
  qed
  have inv: "length ys = length xs \<and> process c ys = Ok (c', xs)" if "process c xs = Ok (c', ys)" for xs c' ys
    using process_involution [OF that ok] by simp
  show ?thesis
  proof (intro conjI allI impI)
    fix xs c' ys
    assume "process c xs = Ok (c', ys)"
    from inv [OF this] show "length ys = length xs" "process c ys = Ok (c', xs)" by simp_all
  next
    show "process_in_place c xs = process c xs" by (rule process_in_place_eq [OF ok])
  next
    show "process c (xs @ ys) = and_then (process c xs) (\<lambda>(c1, a). map_ok (\<lambda>(c2, b). (c2, a @ b)) (process c1 ys))"
      by (rule process_append [OF ok])
  next
    assume "length key = 32 \<and> nonce = replicate 8 0 \<and> length xs \<le> 64 * 4294967295"
    then show "\<exists>r. process c xs = Ok r" using total by blast
  qed
qed

theorem chacha_stream_witness:
  "\<exists>c r. chacha_new (replicate 32 7) (replicate 8 0) = Ok c \<and> process c [1, 2, 3] = Ok r"
proof -
  obtain c where c: "chacha_new (replicate 32 7) (replicate 8 0) = Ok c"
    using chacha_new_zero_nonce [of "replicate 32 7"] by auto
  from chacha_stream [OF c, of "[1, 2, 3]" "[]", THEN conjunct2, THEN conjunct2, THEN conjunct2] have "\<exists>r. process c [1, 2, 3] = Ok r" by simp
  with c show ?thesis by blast
qed

lemma single_block_cases:
  assumes "length key = 32" "length nonce = 16"
  shows "(get_single_block key nonce = Panic \<longleftrightarrow> u32_from_le_bytes (take 4 nonce) = 0xFFFFFFFF) \<and>
    (u32_from_le_bytes (take 4 nonce) \<noteq> 0xFFFFFFFF \<longrightarrow> (\<exists>b. get_single_block key nonce = Ok b \<and> length b = 32))"
proof -
  obtain st where st: "expand key nonce = Ok st" "fst (cc_d st) = u32_from_le_bytes (take 4 nonce)"
    using assms by (simp add: expand_def u32x4_from_bytes_def)
  let ?c = "\<lparr>cc_state = st, cc_output = replicate 64 0, cc_offset = 64\<rparr> :: ChaCha20"
  let ?w = "u32_from_le_bytes (take 4 nonce)"
  have ok: "cc_ok ?c" by (simp add: cc_ok_def BLOCK_SIZE_def)
  have block: "get_single_block key nonce = map_ok snd (process ?c (replicate 32 0))"
    using st process_in_place_eq [OF ok] by (simp add: get_single_block_def)
  have wrap: "?w + 1 = 0 \<longleftrightarrow> ?w = 0xFFFFFFFF"
  proof -
    have "(- 1 :: u32) = 0xFFFFFFFF"
      by (simp add: word_unat_eq_iff unsigned_minus_1_eq_mask mask_eq_exp_minus_1)
    then show ?thesis by (metis eq_neg_iff_add_eq_0)
  qed
  show ?thesis
  proof (cases "?w = 0xFFFFFFFF")
    case True
    then have "refill ?c = Panic" using wrap st(2) by (simp add: refill_def BLOCK_SIZE_def update_counter counter_def)
    then have "get_single_block key nonce = Panic" by (simp add: block process.simps [of ?c])
    with True show ?thesis by simp
  next
    case False
    have "unat ?w \<noteq> 4294967295" using False unfolding word_unat_eq_iff by simp
    moreover have "unat ?w < 2 ^ 32" using unat_of_u32_bound [of ?w] by simp
    ultimately have "unat ?w < 2 ^ 32 - 1" by simp
    then have "32 \<le> budget ?c" using st(2) by (simp add: budget_def counter_def BLOCK_SIZE_def)
    then obtain c' b where b: "process ?c (replicate 32 0) = Ok (c', b)"
      using process_total [OF ok, of "replicate 32 0"] by auto
    with process_involution [OF b ok] False show ?thesis by (simp add: block)
  qed
qed

text \<open>
  \<open>get_single_block\<close> does not return for every nonce: with a 32-byte key and a 16-byte nonce it
  panics exactly when the first four bytes of the nonce, which are the block counter, are all 255, and
  otherwise gives 32 bytes.
\<close>

theorem get_single_block_panics:
  assumes "length key = 32" "length nonce = 16"
  shows "(get_single_block key nonce = Panic \<longleftrightarrow> u32_from_le_bytes (take 4 nonce) = 0xFFFFFFFF) \<and>
    (u32_from_le_bytes (take 4 nonce) \<noteq> 0xFFFFFFFF \<longrightarrow> (\<exists>b. get_single_block key nonce = Ok b \<and> length b = 32))"
  using assms by (rule single_block_cases)

theorem get_single_block_panics_witness:
  "get_single_block (replicate 32 0) (replicate 16 255) = Panic"
  using get_single_block_panics [of "replicate 32 0" "replicate 16 255"]
  by (simp add: u32_from_le_bytes_def)

end
