(* ===== verification/Fake_Scid.thy ===== *)
theory Fake_Scid
  imports Scid ChaCha20
begin

text \<open>
  The module \<open>fake_scid\<close> of \<open>lightning/src/util/scid_utils.rs\<close>: short channel ids that look like real
  ones and carry an encrypted namespace in their output index, which is what a hidden channel may be
  known by instead of the id the prober guesses. The random bytes are a parameter, and a block hash is
  its bytes.
\<close>

section \<open>Definitions\<close>

definition TEST_SEGWIT_ACTIVATION_HEIGHT :: u32 where "TEST_SEGWIT_ACTIVATION_HEIGHT = 0"
definition MAINNET_SEGWIT_ACTIVATION_HEIGHT :: u32 where "MAINNET_SEGWIT_ACTIVATION_HEIGHT = 481824"
definition MAX_TX_INDEX :: u32 where "MAX_TX_INDEX = 2500"
definition MAX_NAMESPACES :: u8 where "MAX_NAMESPACES = 8"
definition NAMESPACE_ID_BITMASK :: u8 where "NAMESPACE_ID_BITMASK = 7"
definition BLOCKS_PER_MONTH :: u32 where "BLOCKS_PER_MONTH = 144 * 30"
definition MAX_SCID_BLOCKS_FROM_NOW :: u32 where "MAX_SCID_BLOCKS_FROM_NOW = BLOCKS_PER_MONTH"

datatype Namespace = PhantomNs | OutboundAlias

definition namespace_id :: "Namespace \<Rightarrow> u8" where
  "namespace_id ns = (case ns of PhantomNs \<Rightarrow> 0 | OutboundAlias \<Rightarrow> 1)"

definition saturating_sub :: "u32 \<Rightarrow> u32 \<Rightarrow> u32" where
  "saturating_sub a b = (if b \<le> a then a - b else 0)"

definition u32_from_be_bytes :: "bytes \<Rightarrow> u32" where
  "u32_from_be_bytes b =
     push_bit 24 (ucast (b ! 0)) OR push_bit 16 (ucast (b ! 1)) OR push_bit 8 (ucast (b ! 2)) OR ucast (b ! 3)"

definition u32_to_be_bytes :: "u32 \<Rightarrow> bytes" where
  "u32_to_be_bytes w = [ucast (drop_bit 24 w), ucast (drop_bit 16 w), ucast (drop_bit 8 w), ucast w]"

definition get_encrypted_vout :: "Namespace \<Rightarrow> u32 \<Rightarrow> u32 \<Rightarrow> bytes \<Rightarrow> (unit, u8) outcome" where
  "get_encrypted_vout ns block_height tx_index fake_scid_rand_bytes =
     (let salt = u32_to_be_bytes block_height @ u32_to_be_bytes tx_index in
      and_then (chacha_new fake_scid_rand_bytes salt) (\<lambda>c.
        map_ok (\<lambda>r. hd (snd r) AND NAMESPACE_ID_BITMASK) (process_in_place c [namespace_id ns])))"

definition mainnet_genesis_str :: string where
  "mainnet_genesis_str = ''000000000019d6689c085ae165831e934ff763ae46a2a6c172b3f1b60a8ce26f''"

definition segwit_activation_height :: "(string \<Rightarrow> bytes option) \<Rightarrow> bytes \<Rightarrow> (unit, u32) outcome" where
  "segwit_activation_height blockhash_from_hex genesis =
     map_ok (\<lambda>mainnet. if mainnet = genesis then MAINNET_SEGWIT_ACTIVATION_HEIGHT
                        else TEST_SEGWIT_ACTIVATION_HEIGHT)
       (unwrap (blockhash_from_hex mainnet_genesis_str))"

definition fake_height :: "u32 \<Rightarrow> u32 \<Rightarrow> u32 \<Rightarrow> u32" where
  "fake_height segwit highest_seen_blockheight rand_for_height =
     (let blocks = saturating_sub (saturating_sub highest_seen_blockheight segwit) MAX_SCID_BLOCKS_FROM_NOW in
      segwit + rand_for_height mod (blocks + 1))"

definition get_fake_scid ::
  "(string \<Rightarrow> bytes option) \<Rightarrow> Namespace \<Rightarrow> u32 \<Rightarrow> bytes \<Rightarrow> bytes \<Rightarrow> bytes \<Rightarrow> (unit, u64) outcome" where
  "get_fake_scid blockhash_from_hex ns highest_seen_blockheight genesis_hash fake_scid_rand_bytes rand_bytes =
     (if \<not> namespace_id ns < MAX_NAMESPACES then Panic
      else and_then (segwit_activation_height blockhash_from_hex genesis_hash) (\<lambda>segwit.
        let fake_scid_height = fake_height segwit highest_seen_blockheight (u32_from_be_bytes (take 4 rand_bytes));
            fake_scid_tx_index = u32_from_be_bytes (take 4 (drop 4 rand_bytes)) mod MAX_TX_INDEX
        in and_then (get_encrypted_vout ns fake_scid_height fake_scid_tx_index fake_scid_rand_bytes) (\<lambda>vout.
             case scid_from_parts_checked (ucast fake_scid_height) (ucast fake_scid_tx_index) (ucast vout) of
               Ok scid \<Rightarrow> Ok scid
             | _ \<Rightarrow> Panic)))"

definition is_valid_phantom :: "bytes \<Rightarrow> u64 \<Rightarrow> (unit, bool) outcome" where
  "is_valid_phantom fake_scid_rand_bytes scid =
     map_ok (\<lambda>valid_vout. valid_vout = ucast (vout_from_scid scid))
       (get_encrypted_vout PhantomNs (block_from_scid scid) (tx_index_from_scid scid) fake_scid_rand_bytes)"

section \<open>Lemmas\<close>

lemma encrypted_vout:
  assumes "length key = 32"
  shows "\<exists>k. \<forall>ns. get_encrypted_vout ns h t key = Ok ((namespace_id ns XOR k) AND 7)"
proof -
  let ?salt = "u32_to_be_bytes h @ u32_to_be_bytes t"
  have "length ?salt = 8" by (simp add: u32_to_be_bytes_def)
  from process_one_byte [OF assms this] obtain k where
    k: "\<And>x. and_then (chacha_new key ?salt) (\<lambda>c. map_ok snd (process_in_place c [x])) = Ok [x XOR k]" by blast
  have "get_encrypted_vout ns h t key = Ok ((namespace_id ns XOR k) AND 7)" for ns
  proof -
    have "get_encrypted_vout ns h t key =
        map_ok (\<lambda>b. hd b AND 7) (and_then (chacha_new key ?salt) (\<lambda>c. map_ok snd (process_in_place c [namespace_id ns])))"
      by (simp add: get_encrypted_vout_def Let_def NAMESPACE_ID_BITMASK_def map_ok_and_then map_ok_map_ok)
    then show ?thesis using k by simp
  qed
  then show ?thesis by blast
qed

lemma namespaces_differ: "(0 XOR k) AND 7 \<noteq> (1 XOR k) AND (7 :: u8)"
proof
  assume "(0 XOR k) AND 7 = (1 XOR k) AND (7 :: u8)"
  then have "bit ((0 XOR k) AND 7) 0 = bit ((1 XOR k) AND (7 :: u8)) 0" by simp
  then show False by (simp add: bit_simps)
qed

lemma saturating_sub_unat: "unat (saturating_sub a b) = unat a - unat b"
  by (auto simp: saturating_sub_def unat_sub word_le_nat_alt)

lemma fake_height_bounds:
  assumes "segwit \<le> 481824" "highest \<le> 0xffffff"
  shows "unat segwit \<le> unat (fake_height segwit highest r) \<and>
    unat (fake_height segwit highest r) \<le> max (unat segwit) (unat highest - 4320) \<and>
    fake_height segwit highest r \<le> 0xffffff"
proof -
  let ?b = "saturating_sub (saturating_sub highest segwit) MAX_SCID_BLOCKS_FROM_NOW"
  have ub: "unat ?b = unat highest - unat segwit - 4320"
    by (simp add: saturating_sub_unat MAX_SCID_BLOCKS_FROM_NOW_def BLOCKS_PER_MONTH_def)
  have hi: "unat highest \<le> 16777215" and se: "unat segwit \<le> 481824"
    using assms by (simp_all add: word_le_nat_alt)
  then have "unat ?b \<le> 16777215" using ub by linarith
  then have suc: "unat (?b + 1) = Suc (unat ?b)" by (simp add: unat_word_ariths)
  then have "unat (r mod (?b + 1)) \<le> unat ?b"
    by (simp add: unat_mod_distrib)
  then have m: "unat (r mod (?b + 1)) \<le> unat highest - unat segwit - 4320" using ub by simp
  then have "unat segwit + unat (r mod (?b + 1)) < 2 ^ 32" using hi se by simp
  then have h: "unat (fake_height segwit highest r) = unat segwit + unat (r mod (?b + 1))"
    by (simp add: fake_height_def Let_def unat_word_ariths)
  have "unat (fake_height segwit highest r) \<le> max (unat segwit) (unat highest - 4320)"
    using h m by linarith
  moreover have "unat (fake_height segwit highest r) \<le> 16777215"
    using calculation hi se by linarith
  ultimately show ?thesis using h by (simp add: word_le_nat_alt)
qed

lemma unat_ucast_u64: "unat (ucast (w :: u32) :: u64) = unat w" "unat (ucast (v :: u8) :: u64) = unat v"
  using unat_of_u32_bound [of w] unat_of_u8_bound [of v] by (simp_all add: unsigned_ucast_eq take_bit_nat_eq_self)

lemma unat_ucast_u16: "unat (ucast (w :: u16) :: u64) = unat w"
  using unat_of_u16_bound [of w] by (simp add: unsigned_ucast_eq take_bit_nat_eq_self)

lemma checked_parts:
  assumes "h \<le> 0xffffff" "t < 2500" "v \<le> (7 :: u8)"
  shows "scid_parts_ok (ucast (h :: u32)) (ucast (t :: u32)) (ucast v)"
  using assms by (simp add: scid_parts_ok_def scid_max_defs word_le_nat_alt word_less_nat_alt unat_ucast_u64)

lemma fields_of_parts:
  assumes "scid_parts_ok (ucast (h :: u32)) (ucast (t :: u32)) (ucast (v :: u8))"
  shows "block_from_scid (scid_from_parts (ucast h) (ucast t) (ucast v)) = h"
    and "tx_index_from_scid (scid_from_parts (ucast h) (ucast t) (ucast v)) = t"
    and "ucast (vout_from_scid (scid_from_parts (ucast h) (ucast t) (ucast v))) = v"
proof -
  have id32: "ucast (ucast w :: u64) = w" for w :: u32 by (rule bit_word_eqI) (simp add: bit_simps)
  have id8: "ucast (ucast (ucast w :: u64) :: u16) = w" for w :: u8 by (rule bit_word_eqI) (simp add: bit_simps)
  show "block_from_scid (scid_from_parts (ucast h) (ucast t) (ucast v)) = h"
    "tx_index_from_scid (scid_from_parts (ucast h) (ucast t) (ucast v)) = t"
    "ucast (vout_from_scid (scid_from_parts (ucast h) (ucast t) (ucast v))) = v"
    using assms by (simp_all add: block_from_scid_def tx_index_from_scid_def vout_from_scid_def id32 id8)
qed

lemma and_7_le: "(w :: u8) AND 7 \<le> 7"
  by (rule word_and_le1)

section \<open>Properties\<close>

text \<open>
  A node recognises exactly its own phantom ids. For a chain height that fits, every fake id is
  created; its height lies between segwit activation and a month before the tip (or is the activation
  height), its transaction index is below 2500 and its output index below 8; and \<open>is_valid_phantom\<close> with
  the same secret accepts it if it was made for the phantom namespace and refuses it if it is an outbound
  alias.
\<close>

theorem fake_scid_namespaces:
  assumes "length fake_scid_rand_bytes = 32" and "highest \<le> 0xffffff"
    and "blockhash_from_hex mainnet_genesis_str = Some mainnet"
  shows "\<exists>scid. get_fake_scid blockhash_from_hex ns highest genesis fake_scid_rand_bytes rand_bytes = Ok scid \<and>
    is_valid_phantom fake_scid_rand_bytes scid = Ok (ns = PhantomNs) \<and>
    (let segwit = (if mainnet = genesis then 481824 else 0) in
     segwit \<le> unat (block_from_scid scid) \<and>
     unat (block_from_scid scid) \<le> max segwit (unat highest - 4320)) \<and>
    tx_index_from_scid scid < 2500 \<and> vout_from_scid scid < 8"
proof -
  define segwit :: u32 where "segwit = (if mainnet = genesis then 481824 else 0)"
  define h where "h = fake_height segwit highest (u32_from_be_bytes (take 4 rand_bytes))"
  define t where "t = u32_from_be_bytes (take 4 (drop 4 rand_bytes)) mod 2500"
  obtain k where k: "\<And>ns. get_encrypted_vout ns h t fake_scid_rand_bytes = Ok ((namespace_id ns XOR k) AND 7)"
    using encrypted_vout [OF assms(1)] by blast
  define v where "v = (namespace_id ns XOR k) AND 7"
  have seg: "segwit_activation_height blockhash_from_hex genesis = Ok segwit"
    using assms(3) by (simp add: segwit_activation_height_def segwit_def MAINNET_SEGWIT_ACTIVATION_HEIGHT_def
        TEST_SEGWIT_ACTIVATION_HEIGHT_def)
  have "segwit \<le> 481824" by (simp add: segwit_def)
  note hb = fake_height_bounds [OF this assms(2), of "u32_from_be_bytes (take 4 rand_bytes)", folded h_def]
  have t: "t < 2500" by (simp add: t_def word_mod_less_divisor)
  have ok: "scid_parts_ok (ucast h) (ucast t) (ucast v)"
    using checked_parts hb t and_7_le [of "namespace_id ns XOR k"] by (simp add: v_def)
  have ns: "namespace_id ns < 8" by (cases ns) (simp_all add: namespace_id_def)
  let ?s = "scid_from_parts (ucast h) (ucast t) (ucast v)"
  note f = fields_of_parts [OF ok]
  have "get_fake_scid blockhash_from_hex ns highest genesis fake_scid_rand_bytes rand_bytes = Ok ?s"
    using k [of ns, folded v_def] ok seg ns
    by (simp add: get_fake_scid_def Let_def h_def [symmetric] t_def [symmetric] MAX_TX_INDEX_def
        MAX_NAMESPACES_def scid_checked)
  moreover have "is_valid_phantom fake_scid_rand_bytes ?s = Ok (ns = PhantomNs)"
  proof -
    have "is_valid_phantom fake_scid_rand_bytes ?s = Ok ((namespace_id PhantomNs XOR k) AND 7 = v)"
      using k [of PhantomNs] by (simp add: is_valid_phantom_def f)
    then show ?thesis
      using namespaces_differ [of k] by (cases ns) (simp_all add: v_def namespace_id_def)
  qed
  moreover have "vout_from_scid ?s < 8"
  proof -
    have "unat (vout_from_scid ?s) = unat v"
      using scid_vout_block(1) [OF ok] by (metis unat_ucast_u16 unat_ucast_u64(2))
    moreover have "unat v \<le> 7" using and_7_le [of "namespace_id ns XOR k"] by (simp add: v_def word_le_nat_alt)
    ultimately show ?thesis by (simp add: word_less_nat_alt)
  qed
  moreover have "(let segwit = (if mainnet = genesis then 481824 else 0) in
     segwit \<le> unat (block_from_scid ?s) \<and> unat (block_from_scid ?s) \<le> max segwit (unat highest - 4320))"
    using hb f(1) by (auto simp: segwit_def Let_def)
  ultimately show ?thesis using f(2) t by metis
qed

theorem fake_scid_namespaces_witness:
  "\<exists>scid. get_fake_scid (\<lambda>s. Some [0]) OutboundAlias 750000 [0] (replicate 32 5) (replicate 32 9) = Ok scid \<and>
     is_valid_phantom (replicate 32 5) scid = Ok False"
  using fake_scid_namespaces [of "replicate 32 5" 750000 "\<lambda>s. Some [0]" "[0]" OutboundAlias "[0]" "replicate 32 9"]
  by auto

end
