(* ===== verification/Commitment_Secrets.thy ===== *)
theory Commitment_Secrets
  imports Prelude
begin

text \<open>
  The compact storage of revocation secrets (\<open>lightning/src/ln/chan_utils.rs\<close>,
  \<open>CounterpartyCommitmentSecrets\<close>): 49 slots hold enough to re-derive every secret a counterparty has
  revealed. Commitments are numbered downwards from \<open>2^48 - 1\<close>. SHA-256 is a parameter.
\<close>

section \<open>Definitions\<close>

type_synonym secrets = "(bytes \<times> u64) list"

text \<open>\<open>res[bitpos / 8] ^= 1 << (bitpos & 7)\<close>\<close>

definition flip_at :: "bytes \<Rightarrow> nat \<Rightarrow> bytes" where
  "flip_at res bitpos = res[bitpos div 8 := (res ! (bitpos div 8)) XOR push_bit (bitpos mod 8) 1]"

definition has_bit :: "u64 \<Rightarrow> nat \<Rightarrow> bool" where
  "has_bit idx i = (idx AND push_bit i 1 = push_bit i 1)"

text \<open>The loop over the bits from \<open>bits - 1\<close> down to 0.\<close>

fun derive_secret :: "(bytes \<Rightarrow> bytes) \<Rightarrow> bytes \<Rightarrow> nat \<Rightarrow> u64 \<Rightarrow> bytes" where
  "derive_secret sha res 0 idx = res"
| "derive_secret sha res (Suc bitpos) idx =
     derive_secret sha (if has_bit idx bitpos then sha (flip_at res bitpos) else res) bitpos idx"

definition build_commitment_secret :: "(bytes \<Rightarrow> bytes) \<Rightarrow> bytes \<Rightarrow> u64 \<Rightarrow> bytes" where
  "build_commitment_secret sha commitment_seed idx = derive_secret sha commitment_seed 48 idx"

definition new_secrets :: secrets where
  "new_secrets = replicate 49 (replicate 32 0, push_bit 48 1)"

definition place_secret :: "u64 \<Rightarrow> nat" where
  "place_secret idx = (case find (has_bit idx) [0..<48] of Some i \<Rightarrow> i | None \<Rightarrow> 48)"

definition get_min_seen_secret :: "secrets \<Rightarrow> u64" where
  "get_min_seen_secret old_secrets =
     foldl (\<lambda>m e. if snd e < m then snd e else m) (push_bit 48 1) old_secrets"

definition provide_secret ::
  "(bytes \<Rightarrow> bytes) \<Rightarrow> secrets \<Rightarrow> u64 \<Rightarrow> bytes \<Rightarrow> (unit, secrets) outcome" where
  "provide_secret sha old_secrets idx secret =
     (let pos = place_secret idx in
      if \<exists>i\<in>set [0..<pos]. derive_secret sha secret pos (snd (old_secrets ! i)) \<noteq> fst (old_secrets ! i)
      then Err ()
      else if get_min_seen_secret old_secrets \<le> idx then Ok old_secrets
      else Ok (old_secrets[pos := (secret, idx)]))"

definition get_secret :: "(bytes \<Rightarrow> bytes) \<Rightarrow> secrets \<Rightarrow> u64 \<Rightarrow> (unit, bytes option) outcome" where
  "get_secret sha old_secrets idx =
     (case find (\<lambda>i. idx AND NOT (push_bit i 1 - 1) = snd (old_secrets ! i)) [0..<length old_secrets] of
        Some i \<Rightarrow> Ok (Some (derive_secret sha (fst (old_secrets ! i)) i idx))
      | None \<Rightarrow> if idx < get_min_seen_secret old_secrets then Ok None else Panic)"

text \<open>A counterparty revealing one secret after the other, the first with index \<open>2^48 - 1\<close>.\<close>

fun provide_all :: "(bytes \<Rightarrow> bytes) \<Rightarrow> secrets \<Rightarrow> u64 \<Rightarrow> bytes list \<Rightarrow> (unit, secrets) outcome" where
  "provide_all sha st idx [] = Ok st"
| "provide_all sha st idx (s # ss) =
     and_then (provide_secret sha st idx s) (\<lambda>st'. provide_all sha st' (idx - 1) ss)"

section \<open>Indices as numbers\<close>

lemma has_bit_iff: "i < 64 \<Longrightarrow> has_bit idx i \<longleftrightarrow> bit (unat idx) i"
proof
  assume i: "i < 64" and "has_bit idx i"
  then have "bit (idx AND push_bit i 1) i" unfolding has_bit_def by (simp add: bit_simps)
  then show "bit (unat idx) i" by (simp add: bit_simps)
next
  assume "i < 64" "bit (unat idx) i"
  then show "has_bit idx i"
    unfolding has_bit_def by (intro bit_word_eqI) (auto simp: bit_simps)
qed

lemma dvd_iff_low_bits: "2 ^ p dvd (n :: nat) \<longleftrightarrow> (\<forall>i < p. \<not> bit n i)"
proof -
  have "2 ^ p dvd n \<longleftrightarrow> take_bit p n = 0" by (simp add: take_bit_eq_mod dvd_eq_mod_eq_0)
  also have "\<dots> \<longleftrightarrow> (\<forall>i. \<not> bit (take_bit p n) i)" by (metis bit_eqI bit_0_eq bot_apply bot_bool_def)
  finally show ?thesis by (auto simp: bit_take_bit_iff)
qed

definition placed :: "nat \<Rightarrow> nat \<Rightarrow> bool" where
  "placed n p \<longleftrightarrow> p \<le> 48 \<and> 2 ^ p dvd n \<and> (p < 48 \<longrightarrow> \<not> 2 ^ Suc p dvd n)"

lemma placed_unique: "placed n p \<Longrightarrow> placed n q \<Longrightarrow> p = q"
  unfolding placed_def
  by (metis dvd_trans le_imp_power_dvd linorder_neqE_nat not_less_eq_eq order_less_le_trans verit_comp_simplify1(3))

lemma place_secret_placed: "placed (unat idx) (place_secret idx)"
proof (cases "find (has_bit idx) [0..<48]")
  case None
  then have "\<forall>i < 48. \<not> bit (unat idx) i" by (auto simp: find_None_iff has_bit_iff)
  then have "placed (unat idx) 48" unfolding placed_def dvd_iff_low_bits by simp
  then show ?thesis using None by (simp add: place_secret_def)
next
  case (Some i)
  then have i: "i < 48" "has_bit idx i" "\<forall>j < i. \<not> has_bit idx j"
    by (auto simp: find_Some_iff)
  then have "bit (unat idx) i" "\<forall>j < i. \<not> bit (unat idx) j" by (simp_all add: has_bit_iff)
  then have "placed (unat idx) i" using i(1) unfolding placed_def dvd_iff_low_bits by auto
  then show ?thesis using Some by (simp add: place_secret_def)
qed

text \<open>The derivation over numbers.\<close>

fun derive_n :: "(bytes \<Rightarrow> bytes) \<Rightarrow> bytes \<Rightarrow> nat \<Rightarrow> nat \<Rightarrow> bytes" where
  "derive_n sha res 0 n = res"
| "derive_n sha res (Suc b) n = derive_n sha (if bit n b then sha (flip_at res b) else res) b n"

lemma derive_secret_n: "bits \<le> 64 \<Longrightarrow> derive_secret sha res bits idx = derive_n sha res bits (unat idx)"
  by (induction bits arbitrary: res) (simp_all add: has_bit_iff)

lemma derive_n_cong: "(\<forall>i < b. bit n i = bit m i) \<Longrightarrow> derive_n sha res b n = derive_n sha res b m"
  by (induction b arbitrary: res) auto

lemma derive_n_zero: "2 ^ b dvd n \<Longrightarrow> derive_n sha res b n = res"
  unfolding dvd_iff_low_bits by (induction b arbitrary: res) auto

lemma derive_n_split:
  assumes "p \<le> a" "\<forall>i. p \<le> i \<longrightarrow> i < a \<longrightarrow> bit n i = bit m i" "2 ^ p dvd m"
  shows "derive_n sha res a n = derive_n sha (derive_n sha res a m) p n"
  using assms
proof (induction a arbitrary: res)
  case (Suc a)
  show ?case
  proof (cases "p = Suc a")
    case True
    then show ?thesis using derive_n_zero [OF Suc.prems(3)] by simp
  next
    case False
    then have "p \<le> a" using Suc.prems(1) by simp
    then show ?thesis using Suc.IH [of "if bit m a then sha (flip_at res a) else res"] Suc.prems by simp
  qed
qed simp

lemma derive_n_top:
  assumes "b < p" "bit n b" "\<forall>i. b < i \<longrightarrow> i < p \<longrightarrow> \<not> bit n i"
  shows "derive_n sha res p n = derive_n sha (sha (flip_at res b)) b n"
  using assms
proof (induction p arbitrary: res)
  case (Suc p)
  then show ?case by (cases "b = p") auto
qed simp

section \<open>The invariant\<close>

text \<open>
  After the indices from \<open>I\<close> on have been revealed, slot \<open>p\<close> holds the smallest of them that it is the
  place of, with a secret from which those of the next \<open>2^p\<close> indices derive. \<open>f\<close> gives the secret revealed
  for an index.
\<close>

definition slot_ok :: "(bytes \<Rightarrow> bytes) \<Rightarrow> (nat \<Rightarrow> bytes) \<Rightarrow> nat \<Rightarrow> nat \<Rightarrow> bytes \<times> u64 \<Rightarrow> bool" where
  "slot_ok sha f I p e \<longleftrightarrow>
     (unat (snd e) = 2 ^ 48 \<and> (\<forall>n. I \<le> n \<longrightarrow> n < 2 ^ 48 \<longrightarrow> \<not> placed n p)) \<or>
     (I \<le> unat (snd e) \<and> unat (snd e) < 2 ^ 48 \<and> placed (unat (snd e)) p \<and>
      (\<forall>n. I \<le> n \<longrightarrow> n < 2 ^ 48 \<longrightarrow> placed n p \<longrightarrow> unat (snd e) \<le> n) \<and>
      (\<forall>j. unat (snd e) \<le> j \<longrightarrow> j < unat (snd e) + 2 ^ p \<longrightarrow> derive_n sha (fst e) p j = f j))"

definition secrets_inv :: "(bytes \<Rightarrow> bytes) \<Rightarrow> (nat \<Rightarrow> bytes) \<Rightarrow> nat \<Rightarrow> secrets \<Rightarrow> bool" where
  "secrets_inv sha f I st \<longleftrightarrow> length st = 49 \<and> (\<forall>p \<le> 48. slot_ok sha f I p (st ! p)) \<and>
     (\<forall>j. I \<le> j \<longrightarrow> j < 2 ^ 48 \<longrightarrow> (\<exists>p \<le> 48. unat (snd (st ! p)) \<le> j \<and> j < unat (snd (st ! p)) + 2 ^ p))"

lemma next_multiple: "2 ^ p dvd n \<Longrightarrow> 2 ^ p dvd m \<Longrightarrow> n < m \<Longrightarrow> n + 2 ^ p \<le> (m :: nat)"
  by (metis add.commute dvd_diff_nat dvd_imp_le le_diff_conv2 less_imp_le zero_less_diff)

lemma placed_above:
  assumes "placed n p" "b < p"
  shows "placed (n + 2 ^ b) b"
proof -
  have "2 ^ Suc b dvd n" using assms by (meson Suc_leI dvd_trans le_imp_power_dvd placed_def)
  moreover have "\<not> 2 ^ Suc b dvd (2 ^ b :: nat)"
    by (auto dest: dvd_imp_le)
  ultimately have "\<not> 2 ^ Suc b dvd n + 2 ^ b" "2 ^ b dvd n + 2 ^ b"
    by (metis dvd_add_right_iff) (metis \<open>2 ^ Suc b dvd n\<close> dvd_add dvd_refl dvd_trans le_SucI le_imp_power_dvd order_refl)
  with assms show ?thesis by (simp add: placed_def)
qed

text \<open>The slot of a place that occurs right above the next index holds exactly that index.\<close>

lemma slot_at:
  assumes inv: "secrets_inv sha f (Suc n) st" and pl: "placed m q" and m: "n < m" "m < 2 ^ 48"
    and least: "\<And>k. n < k \<Longrightarrow> placed k q \<Longrightarrow> m \<le> k"
  shows "unat (snd (st ! q)) = m"
    and "\<And>j. m \<le> j \<Longrightarrow> j < m + 2 ^ q \<Longrightarrow> derive_n sha (fst (st ! q)) q j = f j"
proof -
  have "q \<le> 48" using pl by (simp add: placed_def)
  then have s: "slot_ok sha f (Suc n) q (st ! q)" using inv by (simp add: secrets_inv_def)
  have "unat (snd (st ! q)) \<noteq> 2 ^ 48 \<or> \<not> (\<forall>k. Suc n \<le> k \<longrightarrow> k < 2 ^ 48 \<longrightarrow> \<not> placed k q)"
    using pl m by (auto intro!: exI [of _ m])
  with s have s': "Suc n \<le> unat (snd (st ! q))" "placed (unat (snd (st ! q))) q" "unat (snd (st ! q)) \<le> m"
    "\<forall>j. unat (snd (st ! q)) \<le> j \<longrightarrow> j < unat (snd (st ! q)) + 2 ^ q \<longrightarrow> derive_n sha (fst (st ! q)) q j = f j"
    unfolding slot_ok_def using pl m by auto
  then show eq: "unat (snd (st ! q)) = m" using least [of "unat (snd (st ! q))"] by simp
  show "\<And>j. m \<le> j \<Longrightarrow> j < m + 2 ^ q \<Longrightarrow> derive_n sha (fst (st ! q)) q j = f j" using s'(4) eq by simp
qed

lemma slot_below:
  assumes "secrets_inv sha f (Suc n) st" "placed n p" "n < 2 ^ 48" "b < p"
  shows "unat (snd (st ! b)) = n + 2 ^ b"
    and "\<And>j. n + 2 ^ b \<le> j \<Longrightarrow> j < n + 2 ^ b + 2 ^ b \<Longrightarrow> derive_n sha (fst (st ! b)) b j = f j"
proof -
  have p: "p \<le> 48" "2 ^ p dvd n" using assms(2) by (simp_all add: placed_def)
  have "2 ^ p dvd (2 ^ 48 :: nat)" using p(1) by (rule le_imp_power_dvd)
  with p assms(3) have "n + 2 ^ p \<le> 2 ^ 48" by (intro next_multiple)
  moreover have "(2 :: nat) ^ b < 2 ^ p" using assms(4) by simp
  ultimately have lt: "n + 2 ^ b < 2 ^ 48" by linarith
  have "2 ^ b dvd n" using p(2) assms(4) by (meson dvd_trans le_imp_power_dvd less_imp_le)
  then have least: "n + 2 ^ b \<le> k" if "n < k" "placed k b" for k
    using that by (intro next_multiple) (simp_all add: placed_def)
  note slot_at [OF assms(1) placed_above [OF assms(2,4)] _ lt least]
  then show "unat (snd (st ! b)) = n + 2 ^ b"
    "\<And>j. n + 2 ^ b \<le> j \<Longrightarrow> j < n + 2 ^ b + 2 ^ b \<Longrightarrow> derive_n sha (fst (st ! b)) b j = f j" by simp_all
qed

lemma low_bits_add: "2 ^ p dvd n \<Longrightarrow> i < p \<Longrightarrow> bit (n + r) i = bit (r :: nat) i"
proof -
  assume "2 ^ p dvd n" "i < p"
  then obtain k where "n = 2 ^ i * (2 * k)"
    by (metis Suc_leI dvdE dvd_trans le_imp_power_dvd mult.assoc mult.commute power_Suc2)
  then show ?thesis by (simp add: bit_iff_odd)
qed

lemma top_bit:
  assumes "2 ^ b \<le> r" "r < 2 ^ Suc b"
  shows "bit (r :: nat) b" "b < i \<Longrightarrow> \<not> bit r i"
proof -
  have "r div 2 ^ b = 1" using assms by (simp add: div_nat_eqI)
  then show "bit r b" by (simp add: bit_iff_odd)
  assume "b < i"
  then have "2 ^ Suc b \<le> (2 :: nat) ^ i" by (intro power_increasing) simp_all
  with assms(2) show "\<not> bit r i" by (simp add: bit_iff_odd)
qed

lemma top_bit_exists: "0 < r \<Longrightarrow> \<exists>b. 2 ^ b \<le> r \<and> r < (2 :: nat) ^ Suc b"
proof (induction r rule: less_induct)
  case (less r)
  show ?case
  proof (cases "r = 1")
    case True
    then show ?thesis by (intro exI [of _ 0]) simp
  next
    case False
    with less.prems have "0 < r div 2" "r div 2 < r" by auto
    with less.IH obtain b where "2 ^ b \<le> r div 2" "r div 2 < 2 ^ Suc b" by blast
    then show ?thesis by (intro exI [of _ "Suc b"]) auto
  qed
qed

text \<open>The check against the lower slots makes the new secret cover everything they cover.\<close>

lemma checked_secret_covers:
  assumes inv: "secrets_inv sha f (Suc n) st" and pl: "placed n p" and n: "n < 2 ^ 48"
    and check: "\<forall>i < p. derive_n sha (f n) p (unat (snd (st ! i))) = fst (st ! i)"
    and j: "n \<le> j" "j < n + 2 ^ p"
  shows "derive_n sha (f n) p j = f j"
proof (cases "j = n")
  case True
  then show ?thesis using pl derive_n_zero by (simp add: placed_def)
next
  case False
  have dvd: "2 ^ p dvd n" using pl by (simp add: placed_def)
  define r where "r = j - n"
  then have r: "0 < r" "r < 2 ^ p" "j = n + r" using j False by simp_all
  then obtain b where b: "2 ^ b \<le> r" "r < 2 ^ Suc b" using top_bit_exists by blast
  have "(2 :: nat) ^ b < 2 ^ p" using b(1) r(2) by linarith
  then have bp: "b < p" by simp
  have top: "derive_n sha (f n) p (n + q) = derive_n sha (sha (flip_at (f n) b)) b (n + q)"
    if "2 ^ b \<le> q" "q < 2 ^ Suc b" for q
    using top_bit [OF that] bp by (intro derive_n_top) (simp_all add: low_bits_add [OF dvd])
  have "2 ^ b dvd n" using dvd bp by (meson dvd_trans le_imp_power_dvd less_imp_le)
  then have "fst (st ! b) = sha (flip_at (f n) b)"
    using check [rule_format, OF bp] slot_below(1) [OF inv pl n bp] top [of "2 ^ b"]
      derive_n_zero [of b "n + 2 ^ b"] by simp
  moreover have "derive_n sha (fst (st ! b)) b j = f j"
    using slot_below(2) [OF inv pl n bp] b r(3) by simp
  ultimately show ?thesis using top [OF b] r(3) by simp
qed

lemma min_seen_above: "x < push_bit 48 1 \<Longrightarrow> \<forall>e\<in>set st. x < snd e \<Longrightarrow> x < get_min_seen_secret st"
proof -
  have "x < m \<Longrightarrow> \<forall>e\<in>set st. x < snd e \<Longrightarrow> x < foldl (\<lambda>m e. if snd e < m then snd e else m) m st" for m
    by (induction st arbitrary: m) auto
  then show "x < push_bit 48 1 \<Longrightarrow> \<forall>e\<in>set st. x < snd e \<Longrightarrow> x < get_min_seen_secret st"
    by (simp add: get_min_seen_secret_def)
qed

lemma sentinel: "unat (push_bit 48 1 :: u64) = 2 ^ 48"
  by (simp add: push_bit_eq_mult)

lemma slots_above:
  assumes "secrets_inv sha f I st" "unat x < I" "I \<le> 2 ^ 48"
  shows "x < get_min_seen_secret st"
proof (rule min_seen_above)
  show "x < push_bit 48 1" using assms(2,3) sentinel by (simp add: word_less_nat_alt)
  show "\<forall>e\<in>set st. x < snd e"
  proof
    fix e assume "e \<in> set st"
    then obtain p where "p < 49" "e = st ! p" using assms(1)
      by (auto simp: secrets_inv_def in_set_conv_nth)
    then have "slot_ok sha f I p e" using assms(1) by (simp add: secrets_inv_def)
    then show "x < snd e" using assms(2,3) unfolding slot_ok_def word_less_nat_alt by linarith
  qed
qed

lemma provide_secret_Ok_iff:
  assumes inv: "secrets_inv sha f (Suc n) st" and n: "unat idx = n" "n < 2 ^ 48"
  shows "provide_secret sha st idx s = Ok st' \<longleftrightarrow>
    (\<forall>i < place_secret idx. derive_n sha s (place_secret idx) (unat (snd (st ! i))) = fst (st ! i)) \<and>
    st' = st[place_secret idx := (s, idx)]"
proof -
  have "idx < get_min_seen_secret st" using slots_above [OF inv] n by simp
  moreover have "place_secret idx \<le> 48" using place_secret_placed [of idx] by (simp add: placed_def)
  ultimately show ?thesis
    by (auto simp: provide_secret_def Let_def derive_secret_n not_le split: if_splits)
qed

lemma unat_of_index: "k < 2 ^ 48 \<Longrightarrow> unat (word_of_nat k :: u64) = k"
  by (simp add: unat_of_nat take_bit_nat_eq_self)

lemma slot_kept:
  assumes "slot_ok sha f (Suc n) q e" "\<not> placed n q"
  shows "slot_ok sha f n q e"
proof -
  have "placed k q \<Longrightarrow> n \<le> k \<Longrightarrow> Suc n \<le> k" for k
    using assms(2) by (metis Suc_leI le_neq_implies_less)
  with assms(1) show ?thesis unfolding slot_ok_def by (meson Suc_leD)
qed

text \<open>What the overwritten slot covered is covered by the slot of the next larger multiple.\<close>

lemma overwritten_covered:
  assumes inv: "secrets_inv sha f (Suc n) st" and pl: "placed n p" and n: "n < 2 ^ 48"
    and j: "unat (snd (st ! p)) \<le> j" "j < unat (snd (st ! p)) + 2 ^ p" "j < 2 ^ 48"
  shows "\<exists>q \<le> 48. q \<noteq> p \<and> unat (snd (st ! q)) \<le> j \<and> j < unat (snd (st ! q)) + 2 ^ q"
proof -
  let ?x = "unat (snd (st ! p))" and ?m = "n + 2 ^ p"
  have p: "p \<le> 48" "2 ^ p dvd n" using pl by (simp_all add: placed_def)
  have x: "Suc n \<le> ?x" "placed ?x p"
    using inv p(1) j(1,3) unfolding secrets_inv_def slot_ok_def by fastforce+
  have "p < 48"
  proof (rule ccontr)
    assume "\<not> p < 48"
    then have "2 ^ 48 dvd ?x" "0 < ?x" using x p(1) by (simp_all add: placed_def)
    then show False using j(1,3) by (auto dest: dvd_imp_le)
  qed
  then have odd: "\<not> 2 ^ Suc p dvd n" "\<not> 2 ^ Suc p dvd ?x" using pl x(2) by (simp_all add: placed_def)
  obtain k where k: "n = 2 ^ p * k" using p(2) by blast
  have "odd k" using odd(1) k by auto
  then obtain l where "k = 2 * l + 1" by (rule oddE)
  then have m: "?m = 2 ^ Suc p * (l + 1)" using k by simp
  have le: "?m \<le> ?x" using x p(2) by (intro next_multiple) (simp_all add: placed_def)
  moreover have "?m \<noteq> ?x" using odd(2) m by (metis dvd_triv_left)
  ultimately have lt: "?m < ?x" by simp
  obtain q where q: "placed ?m q"
  proof -
    have "?m < 2 ^ 48" using lt j by simp
    then have "unat (word_of_nat ?m :: u64) = ?m" by (rule unat_of_index)
    with place_secret_placed [of "word_of_nat ?m"] that show ?thesis by metis
  qed
  have "p < q"
  proof (rule ccontr)
    assume "\<not> p < q"
    then have "\<not> 2 ^ Suc q dvd ?m" "(2 :: nat) ^ Suc q dvd 2 ^ Suc p"
      using q \<open>p < 48\<close> by (simp_all add: placed_def le_imp_power_dvd)
    then show False using m by (metis dvd_trans dvd_triv_left)
  qed
  have least: "?m \<le> i" if "n < i" "placed i q" for i
  proof (rule next_multiple [OF p(2) _ that(1)])
    show "2 ^ p dvd i" using that(2) \<open>p < q\<close> by (meson dvd_trans le_imp_power_dvd less_imp_le placed_def)
  qed
  have "unat (snd (st ! q)) = ?m" using slot_at(1) [OF inv q _ _ least] lt j by simp
  moreover have "j < ?m + 2 ^ q"
  proof -
    have "2 ^ Suc p dvd (2 ^ 48 :: nat)" using \<open>p < 48\<close> by (intro le_imp_power_dvd) simp
    moreover have "2 ^ Suc p dvd ?m" by (simp only: m dvd_triv_left)
    ultimately have "?m + 2 ^ Suc p \<le> 2 ^ 48" using lt j by (intro next_multiple) simp_all
    then have "n + 2 ^ Suc p < 2 ^ 48" by (simp add: less_le_trans [rotated])
    moreover have "placed (n + 2 ^ Suc p) p"
      using p odd(1) \<open>p < 48\<close> by (auto simp: placed_def dvd_add_left_iff)
    ultimately have "?x \<le> n + 2 ^ Suc p"
      using inv p(1) j(1,3) unfolding secrets_inv_def slot_ok_def by fastforce
    moreover have "(2 :: nat) ^ Suc p \<le> 2 ^ q" using \<open>p < q\<close> by (intro power_increasing) simp_all
    ultimately show ?thesis using j(2) by simp
  qed
  ultimately show ?thesis using q lt j \<open>p < q\<close> by (intro exI [of _ q]) (auto simp: placed_def)
qed

lemma provide_secret_inv:
  assumes inv: "secrets_inv sha f (Suc n) st" and n: "unat idx = n" "n < 2 ^ 48"
    and ok: "provide_secret sha st idx (f n) = Ok st'"
  shows "secrets_inv sha f n st'"
proof -
  define p where "p = place_secret idx"
  have pl: "placed n p" using place_secret_placed [of idx] n by (simp add: p_def)
  then have p: "p \<le> 48" "2 ^ p dvd n" by (simp_all add: placed_def)
  have len: "length st = 49" using inv by (simp add: secrets_inv_def)
  have st': "st' = st[p := (f n, idx)]"
    and check: "\<forall>i < p. derive_n sha (f n) p (unat (snd (st ! i))) = fst (st ! i)"
    using ok provide_secret_Ok_iff [OF inv n] by (simp_all add: p_def)
  have new: "slot_ok sha f n p (f n, idx)"
    using pl n checked_secret_covers [OF inv pl n(2) check] by (auto simp: slot_ok_def)
  have slots: "slot_ok sha f n q (st' ! q)" if "q \<le> 48" for q
  proof (cases "q = p")
    case True
    then show ?thesis using new len p(1) by (simp add: st')
  next
    case False
    then have "\<not> placed n q" using placed_unique [OF pl] by blast
    moreover have "slot_ok sha f (Suc n) q (st ! q)" using inv that by (simp add: secrets_inv_def)
    ultimately show ?thesis using False slot_kept by (simp add: st')
  qed
  have cover: "\<exists>q \<le> 48. unat (snd (st' ! q)) \<le> j \<and> j < unat (snd (st' ! q)) + 2 ^ q"
    if j: "n \<le> j" "j < 2 ^ 48" for j
  proof (cases "j = n")
    case True
    then show ?thesis using p(1) len n by (intro exI [of _ p]) (simp add: st')
  next
    case False
    then obtain q where q: "q \<le> 48" "unat (snd (st ! q)) \<le> j" "j < unat (snd (st ! q)) + 2 ^ q"
      using inv j by (metis Suc_leI le_neq_implies_less secrets_inv_def)
    then have "\<exists>q \<le> 48. q \<noteq> p \<and> unat (snd (st ! q)) \<le> j \<and> j < unat (snd (st ! q)) + 2 ^ q"
      using overwritten_covered [OF inv pl n(2), of j] j by (cases "q = p") auto
    then show ?thesis by (auto simp: st')
  qed
  show ?thesis using len slots cover by (simp add: secrets_inv_def st')
qed

lemma new_secrets_inv: "secrets_inv sha f (2 ^ 48) new_secrets"
proof -
  have "slot_ok sha f (2 ^ 48) p (new_secrets ! p)" if "p \<le> 48" for p
    using that by (simp add: slot_ok_def new_secrets_def sentinel)
  then show ?thesis by (simp add: secrets_inv_def new_secrets_def)
qed

lemma provide_all_inv:
  assumes "secrets_inv sha f I st" "length ss \<le> I" "I \<le> 2 ^ 48" "idx = word_of_nat I - 1"
    and "\<forall>k < length ss. ss ! k = f (I - 1 - k)" "provide_all sha st idx ss = Ok st'"
  shows "secrets_inv sha f (I - length ss) st'"
  using assms
proof (induction ss arbitrary: I st idx)
  case (Cons s ss)
  then obtain n where n: "I = Suc n" by (cases I) auto
  then have idx: "idx = word_of_nat n" "unat idx = n" "n < 2 ^ 48"
    using Cons.prems(3,4) by (simp_all add: unat_of_index)
  have s: "s = f n" "\<forall>k < length ss. ss ! k = f (n - 1 - k)"
    using Cons.prems(5) n by force+
  obtain st1 where st1: "provide_secret sha st idx (f n) = Ok st1" "provide_all sha st1 (idx - 1) ss = Ok st'"
    using Cons.prems(6) s(1) by (auto simp: and_then_Ok_iff)
  have "secrets_inv sha f (Suc n) st" using Cons.prems(1) n by simp
  then have "secrets_inv sha f n st1" by (rule provide_secret_inv [where st = st]) (rule idx st1)+
  from Cons.IH [OF this _ _ _ s(2) st1(2)] Cons.prems(2,3) n idx(1) show ?case by simp
qed simp

lemma masked_index:
  assumes "i \<le> 48"
  shows "unat (idx AND NOT (push_bit i 1 - 1) :: u64) = unat idx - unat idx mod 2 ^ i"
proof -
  have "idx AND NOT (push_bit i 1 - 1) = push_bit i (drop_bit i idx)"
  proof -
    have "push_bit i 1 - 1 = (mask i :: u64)" by (simp add: mask_eq_exp_minus_1 push_bit_eq_mult)
    then show ?thesis by (auto intro!: bit_word_eqI simp: bit_simps)
  qed
  moreover have "push_bit i (drop_bit i idx) + take_bit i idx = idx" by (rule bits_ident)
  moreover have "unat (take_bit i idx) = unat idx mod 2 ^ i" by (simp add: unsigned_take_bit_eq flip: take_bit_eq_mod)
  ultimately show ?thesis
    by (metis (no_types, lifting) add_diff_cancel_right' mod_less_eq_dividend unat_sub word_le_nat_alt)
qed

lemma multiple_window:
  fixes j x :: nat
  assumes "2 ^ p dvd x"
  shows "j - j mod 2 ^ p = x \<longleftrightarrow> x \<le> j \<and> j < x + 2 ^ p"
proof
  assume "j - j mod 2 ^ p = x"
  moreover have "j mod 2 ^ p < 2 ^ p" "j mod 2 ^ p \<le> j" by simp_all
  ultimately show "x \<le> j \<and> j < x + 2 ^ p" by linarith
next
  assume j: "x \<le> j \<and> j < x + 2 ^ p"
  then obtain r where r: "j = x + r" "r < 2 ^ p" by (metis add_less_cancel_left le_Suc_ex)
  have "j mod 2 ^ p = r" using assms r by (auto simp: dvd_eq_mod_eq_0 mod_add_left_eq [symmetric])
  then show "j - j mod 2 ^ p = x" using r by simp
qed

lemma get_secret_lookup:
  assumes inv: "secrets_inv sha f I st" and I: "I \<le> 2 ^ 48" and idx: "unat idx < 2 ^ 48"
  shows "get_secret sha st idx = Ok (if I \<le> unat idx then Some (f (unat idx)) else None)"
proof -
  have len: "length st = 49" using inv by (simp add: secrets_inv_def)
  let ?m = "\<lambda>i. idx AND NOT (push_bit i 1 - 1) = snd (st ! i)"
  have m: "?m i \<longleftrightarrow> unat (snd (st ! i)) \<le> unat idx \<and> unat idx < unat (snd (st ! i)) + 2 ^ i" if "i \<le> 48" for i
  proof -
    have "slot_ok sha f I i (st ! i)" using inv that by (simp add: secrets_inv_def)
    then have "2 ^ i dvd unat (snd (st ! i))"
      using that unfolding slot_ok_def placed_def by (metis le_imp_power_dvd)
    from multiple_window [OF this, of "unat idx"] show ?thesis
      using masked_index [OF that, of idx] by (metis word_unat_eq_iff)
  qed
  have val: "I \<le> unat idx \<and> derive_secret sha (fst (st ! i)) i idx = f (unat idx)" if "i \<le> 48" "?m i" for i
  proof -
    have "slot_ok sha f I i (st ! i)" using inv that by (simp add: secrets_inv_def)
    then show ?thesis using m [OF that(1)] that idx unfolding slot_ok_def by (auto simp: derive_secret_n)
  qed
  show ?thesis
  proof (cases "find ?m [0..<49]")
    case None
    then have "\<not> ?m i" if "i \<le> 48" for i using that by (simp add: find_None_iff)
    then have "\<not> I \<le> unat idx" using inv idx m unfolding secrets_inv_def by blast
    moreover have "idx < get_min_seen_secret st" using slots_above [OF inv _ I] calculation by simp
    ultimately show ?thesis using None len by (simp add: get_secret_def)
  next
    case (Some i)
    then have "i \<le> 48" "?m i" by (auto simp: find_Some_iff)
    with val Some len show ?thesis by (simp add: get_secret_def)
  qed
qed

text \<open>An honest counterparty derives its secrets from one seed; they pass every check.\<close>

lemma seed_secret_derives:
  assumes "placed n p" "r < 2 ^ p"
  shows "derive_n sha (derive_n sha seed 48 n) p (n + r) = derive_n sha seed 48 (n + r)"
proof (rule derive_n_split [symmetric])
  show p: "p \<le> 48" "2 ^ p dvd n" using assms(1) by (simp_all add: placed_def)
  have "bit (n + r) i = bit n i" if "p \<le> i" for i
  proof -
    obtain k where "n = 2 ^ p * k" using p(2) by blast
    then have "(n + r) div 2 ^ p = n div 2 ^ p" using assms(2) by simp
    then have "(n + r) div 2 ^ i = n div 2 ^ i"
      using that by (metis div_mult2_eq le_add_diff_inverse power_add)
    then show ?thesis by (simp add: bit_iff_odd)
  qed
  then show "\<forall>i. p \<le> i \<longrightarrow> i < 48 \<longrightarrow> bit (n + r) i = bit n i" by simp
qed

lemma honest_provide:
  assumes inv: "secrets_inv sha (derive_n sha seed 48) (Suc n) st" and n: "unat idx = n" "n < 2 ^ 48"
  shows "\<exists>st'. provide_secret sha st idx (derive_n sha seed 48 n) = Ok st'"
proof -
  let ?p = "place_secret idx"
  have pl: "placed n ?p" using place_secret_placed [of idx] n by simp
  have "derive_n sha (derive_n sha seed 48 n) ?p (unat (snd (st ! i))) = fst (st ! i)" if i: "i < ?p" for i
  proof -
    have "2 ^ i dvd n + 2 ^ i" using placed_above [OF pl i] by (simp add: placed_def)
    then have "fst (st ! i) = derive_n sha seed 48 (n + 2 ^ i)"
      using slot_below(2) [OF inv pl n(2) i, of "n + 2 ^ i"] derive_n_zero by simp
    then show ?thesis
      using slot_below(1) [OF inv pl n(2) i] seed_secret_derives [OF pl, of "2 ^ i" sha seed] i by simp
  qed
  then show ?thesis using provide_secret_Ok_iff [OF inv n] by blast
qed

lemma honest_provide_all:
  assumes "secrets_inv sha (derive_n sha seed 48) I st" "n \<le> I" "I \<le> 2 ^ 48" "idx = word_of_nat I - 1"
  shows "\<exists>st'. provide_all sha st idx (map (\<lambda>k. build_commitment_secret sha seed (idx - word_of_nat k)) [0..<n]) = Ok st'"
  using assms
proof (induction n arbitrary: I st idx)
  case (Suc m)
  then obtain n where n: "I = Suc n" by (cases I) auto
  then have idx: "idx = word_of_nat n" "unat idx = n" "n < 2 ^ 48"
    using Suc.prems(3,4) by (simp_all add: unat_of_index)
  have inv: "secrets_inv sha (derive_n sha seed 48) (Suc n) st" using Suc.prems(1) n by simp
  have b: "build_commitment_secret sha seed idx = derive_n sha seed 48 n"
    using idx by (simp add: build_commitment_secret_def derive_secret_n)
  obtain st1 where st1: "provide_secret sha st idx (derive_n sha seed 48 n) = Ok st1"
    using honest_provide [OF inv idx(2,3)] by blast
  have inv1: "secrets_inv sha (derive_n sha seed 48) n st1" by (rule provide_secret_inv [OF inv idx(2,3) st1])
  have "map (\<lambda>k. build_commitment_secret sha seed (idx - word_of_nat k)) [0..<Suc m] =
      build_commitment_secret sha seed idx #
      map (\<lambda>k. build_commitment_secret sha seed (idx - 1 - word_of_nat k)) [0..<m]"
    by (simp add: upt_conv_Cons map_Suc_upt [symmetric] comp_def algebra_simps del: upt_Suc)
  then show ?case
    using Suc.IH [OF inv1, of "idx - 1"] Suc.prems(2,3) n idx(1) st1 b by simp
qed simp

section \<open>Properties\<close>

text \<open>
  C37. Revoked states stay punishable. Whatever secrets a counterparty reveals, one per commitment from
  the first index down, if every one was accepted then each of them can be looked up again although only
  49 slots are kept, and an index not yet revealed gives nothing. A counterparty that derives its secrets
  from a seed as prescribed has every one of them accepted, for all \<open>2^48\<close> commitments.
\<close>

theorem secrets_recovered:
  assumes "n \<le> 2 ^ 48"
  shows "(\<exists>st. provide_all sha new_secrets 0xFFFFFFFFFFFF
        (map (\<lambda>k. build_commitment_secret sha seed (0xFFFFFFFFFFFF - word_of_nat k)) [0..<n]) = Ok st) \<and>
    (\<forall>ss st. length ss = n \<longrightarrow> provide_all sha new_secrets 0xFFFFFFFFFFFF ss = Ok st \<longrightarrow>
      (\<forall>k < n. get_secret sha st (0xFFFFFFFFFFFF - word_of_nat k) = Ok (Some (ss ! k))) \<and>
      (\<forall>idx. unat idx + n < 2 ^ 48 \<longrightarrow> get_secret sha st idx = Ok None))"
proof -
  have first: "(0xFFFFFFFFFFFF :: u64) = word_of_nat (2 ^ 48) - 1" by simp
  have at: "unat (0xFFFFFFFFFFFF - word_of_nat k :: u64) = 2 ^ 48 - 1 - k" if "k < 2 ^ 48" for k
  proof -
    have "(0xFFFFFFFFFFFF - word_of_nat k :: u64) = word_of_nat (2 ^ 48 - 1 - k)"
      using that by (simp add: of_nat_diff)
    then show ?thesis using unat_of_index [of "2 ^ 48 - 1 - k"] by simp
  qed
  have honest: "\<exists>st. provide_all sha new_secrets 0xFFFFFFFFFFFF
      (map (\<lambda>k. build_commitment_secret sha seed (0xFFFFFFFFFFFF - word_of_nat k)) [0..<n]) = Ok st"
    by (rule honest_provide_all [OF new_secrets_inv assms _ first]) simp
  have look: "get_secret sha st idx =
      Ok (if 2 ^ 48 - n \<le> unat idx then Some (ss ! (2 ^ 48 - 1 - unat idx)) else None)"
    if "length ss = n" "provide_all sha new_secrets 0xFFFFFFFFFFFF ss = Ok st" "unat idx < 2 ^ 48" for ss st idx
  proof (rule get_secret_lookup)
    show "secrets_inv sha (\<lambda>i. ss ! (2 ^ 48 - 1 - i)) (2 ^ 48 - n) st"
      using provide_all_inv [OF new_secrets_inv _ _ first _ that(2), of "\<lambda>i. ss ! (2 ^ 48 - 1 - i)"] that(1) assms
      by auto
  qed (use that in simp_all)
  have found: "get_secret sha st (0xFFFFFFFFFFFF - word_of_nat k) = Ok (Some (ss ! k))"
    if "length ss = n" "provide_all sha new_secrets 0xFFFFFFFFFFFF ss = Ok st" "k < n" for ss st k
  proof -
    have k: "k < 2 ^ 48" using that(3) assms by simp
    have "2 ^ 48 - n \<le> 2 ^ 48 - 1 - k" using that(3) assms by simp
    then show ?thesis using look [OF that(1,2), of "0xFFFFFFFFFFFF - word_of_nat k"] at [OF k] k by simp
  qed
  show ?thesis using honest found look by auto
qed

theorem secrets_recovered_witness:
  "\<exists>st. provide_all (\<lambda>b. b) new_secrets 0xFFFFFFFFFFFF
     (map (\<lambda>k. build_commitment_secret (\<lambda>b. b) (replicate 32 0) (0xFFFFFFFFFFFF - word_of_nat k)) [0..<3]) = Ok st"
  using secrets_recovered [of 3 "\<lambda>b. b" "replicate 32 0"] by simp

end
