(* ===== verification/Onion_Failure.thy ===== *)
theory Onion_Failure
  imports ChaCha20 Node_Types
begin

text \<open>
  How a probe's answer travels back (\<open>lightning/src/ln/onion_utils.rs\<close>): the node that fails a payment
  builds a failure packet, every node on the way back encrypts it once more, and the sender peels the
  layers until a packet authenticates. Also the onion payloads the sender builds. HMAC-SHA256, SHA-256,
  the elliptic curve and the parsing of a channel update are parameters.
\<close>

section \<open>Cryptographic parameters\<close>

record 'sk crypto =
  hmac_sha256 :: "bytes \<Rightarrow> bytes \<Rightarrow> bytes"
  sha256_hash :: "bytes \<Rightarrow> bytes"
  ecdh :: "bytes \<Rightarrow> 'sk \<Rightarrow> bytes"
  public_of :: "'sk \<Rightarrow> bytes"
  sk_mul :: "'sk \<Rightarrow> bytes \<Rightarrow> 'sk option"

text \<open>What the code relies on: digests and shared secrets have 32 bytes.\<close>

definition crypto_ok :: "'sk crypto \<Rightarrow> bool" where
  "crypto_ok cr \<longleftrightarrow> (\<forall>k m. length (hmac_sha256 cr k m) = 32) \<and> (\<forall>p s. length (ecdh cr p s) = 32)"

definition hmac_of_secret :: "'sk crypto \<Rightarrow> bytes \<Rightarrow> bytes \<Rightarrow> (unit, bytes) outcome" where
  "hmac_of_secret cr label shared_secret =
     (if length shared_secret = 32 then Ok (hmac_sha256 cr label shared_secret) else Panic)"

definition gen_rho_mu_from_shared_secret :: "'sk crypto \<Rightarrow> bytes \<Rightarrow> (unit, bytes \<times> bytes) outcome" where
  "gen_rho_mu_from_shared_secret cr ss =
     and_then (hmac_of_secret cr [0x72, 0x68, 0x6f] ss) (\<lambda>rho.
       map_ok (\<lambda>mu. (rho, mu)) (hmac_of_secret cr [0x6d, 0x75] ss))"

definition gen_um_from_shared_secret :: "'sk crypto \<Rightarrow> bytes \<Rightarrow> (unit, bytes) outcome" where
  "gen_um_from_shared_secret cr ss = hmac_of_secret cr [0x75, 0x6d] ss"

definition gen_ammag_from_shared_secret :: "'sk crypto \<Rightarrow> bytes \<Rightarrow> (unit, bytes) outcome" where
  "gen_ammag_from_shared_secret cr ss = hmac_of_secret cr [0x61, 0x6d, 0x6d, 0x61, 0x67] ss"

section \<open>Keys along the path\<close>

text \<open>
  \<open>construct_onion_keys_callback\<close>: the values its callback is called with, hop by hop; nothing when a
  blinding step fails.
\<close>

record onion_step =
  st_shared_secret :: bytes
  st_blinding_factor :: bytes
  st_ephemeral_pubkey :: bytes
  st_hop :: RouteHop
  st_idx :: nat

fun onion_steps :: "'sk crypto \<Rightarrow> 'sk \<Rightarrow> nat \<Rightarrow> RouteHop list \<Rightarrow> onion_step list option" where
  "onion_steps cr blinded_priv idx [] = Some []"
| "onion_steps cr blinded_priv idx (hop # hops) =
     (let shared_secret = ecdh cr (pubkey hop) blinded_priv;
          blinded_pub = public_of cr blinded_priv;
          blinding_factor = sha256_hash cr (blinded_pub @ shared_secret) in
      case sk_mul cr blinded_priv blinding_factor of
        None \<Rightarrow> None
      | Some blinded_priv' \<Rightarrow>
          map_option (\<lambda>rest. \<lparr>st_shared_secret = shared_secret, st_blinding_factor = blinding_factor,
                              st_ephemeral_pubkey = blinded_pub, st_hop = hop, st_idx = idx\<rparr> # rest)
            (onion_steps cr blinded_priv' (Suc idx) hops))"

definition construct_onion_keys_callback :: "'sk crypto \<Rightarrow> RouteHop list \<Rightarrow> 'sk \<Rightarrow> onion_step list option" where
  "construct_onion_keys_callback cr path session_priv = onion_steps cr session_priv 0 path"

record OnionKeys =
  ephemeral_pubkey :: bytes
  rho :: bytes
  mu :: bytes

fun keys_of_steps :: "'sk crypto \<Rightarrow> onion_step list \<Rightarrow> (unit, OnionKeys list) outcome" where
  "keys_of_steps cr [] = Ok []"
| "keys_of_steps cr (s # ss) =
     and_then (gen_rho_mu_from_shared_secret cr (st_shared_secret s)) (\<lambda>(r, m).
       map_ok (\<lambda>ks. \<lparr>ephemeral_pubkey = st_ephemeral_pubkey s, rho = r, mu = m\<rparr> # ks) (keys_of_steps cr ss))"

definition construct_onion_keys :: "'sk crypto \<Rightarrow> RouteHop list \<Rightarrow> 'sk \<Rightarrow> (unit, OnionKeys list option) outcome" where
  "construct_onion_keys cr path session_priv =
     (case construct_onion_keys_callback cr path session_priv of
        None \<Rightarrow> Ok None
      | Some steps \<Rightarrow> map_ok Some (keys_of_steps cr steps))"

section \<open>Payloads\<close>

datatype OnionHopDataFormat =
    Legacy u64
  | NonFinalNode u64
  | FinalNode "(bytes \<times> u64) option" "bytes option"

record OnionHopData =
  hop_format :: OnionHopDataFormat
  amt_to_forward :: u64
  outgoing_cltv_value :: u32

datatype route_error = FeesOverflowed | CltvOverflowed

definition hop_payload ::
  "u64 \<Rightarrow> bytes option \<Rightarrow> bytes option \<Rightarrow> bool \<Rightarrow> u64 \<Rightarrow> RouteHop \<Rightarrow> OnionHopDataFormat" where
  "hop_payload total_msat payment_secret keysend_preimage final last_scid hop =
     (if supports_variable_length_onion hop
      then if final then FinalNode (map_option (\<lambda>s. (s, total_msat)) payment_secret) keysend_preimage
           else NonFinalNode last_scid
      else Legacy last_scid)"

text \<open>The loop runs over the path from its end; \<open>first\<close> is the source's \<open>idx == 0\<close>.\<close>

fun payloads_loop ::
  "u64 \<Rightarrow> bytes option \<Rightarrow> u32 \<Rightarrow> bytes option \<Rightarrow> bool \<Rightarrow> u64 \<Rightarrow> u32 \<Rightarrow> u64 \<Rightarrow> OnionHopData list \<Rightarrow>
   RouteHop list \<Rightarrow> (route_error, OnionHopData list \<times> u64 \<times> u32) outcome" where
  "payloads_loop total_msat secr start keysend_pre first cur_value cur_cltv last_scid res [] = Ok (res, cur_value, cur_cltv)"
| "payloads_loop total_msat secr start keysend_pre first cur_value cur_cltv last_scid res (hop # hops) =
     (let value_msat = (if cur_value = 0 then fee_msat hop else cur_value);
          cltv = (if cur_cltv = start then cltv_expiry_delta hop + start else cur_cltv);
          res' = \<lparr>hop_format = hop_payload total_msat secr keysend_pre first last_scid hop,
                  amt_to_forward = value_msat, outgoing_cltv_value = cltv\<rparr> # res;
          cur_value' = cur_value + fee_msat hop;
          cur_cltv' = cur_cltv + cltv_expiry_delta hop in
      if cur_value' \<ge> 21000000 * 100000000 * 1000 then Err FeesOverflowed
      else if cur_cltv' \<ge> 500000000 then Err CltvOverflowed
      else payloads_loop total_msat secr start keysend_pre False cur_value' cur_cltv' (short_channel_id hop) res' hops)"

definition build_onion_payloads ::
  "RouteHop list \<Rightarrow> u64 \<Rightarrow> bytes option \<Rightarrow> u32 \<Rightarrow> bytes option \<Rightarrow>
   (route_error, OnionHopData list \<times> u64 \<times> u32) outcome" where
  "build_onion_payloads path total_msat payment_secret_option starting_htlc_offset keysend_preimage =
     payloads_loop total_msat payment_secret_option starting_htlc_offset keysend_preimage True 0
       starting_htlc_offset 0 [] (rev path)"

section \<open>Failure packets\<close>

record DecodedOnionErrorPacket =
  ep_hmac :: bytes
  failuremsg :: bytes
  pad :: bytes

definition u16_to_be_bytes :: "u16 \<Rightarrow> bytes" where
  "u16_to_be_bytes w = [ucast (drop_bit 8 w), ucast w]"

definition u16_from_be_bytes :: "bytes \<Rightarrow> u16" where
  "u16_from_be_bytes b = push_bit 8 (ucast (b ! 0)) OR ucast (b ! 1)"

definition write_vec :: "bytes \<Rightarrow> bytes" where
  "write_vec v = u16_to_be_bytes (word_of_nat (length v)) @ v"

definition read_vec :: "bytes \<Rightarrow> (bytes \<times> bytes) option" where
  "read_vec r =
     (if length r < 2 then None
      else let n = unat (u16_from_be_bytes (take 2 r)); rest = drop 2 r in
        if length rest < n then None else Some (take n rest, drop n rest))"

definition encode_packet :: "DecodedOnionErrorPacket \<Rightarrow> bytes" where
  "encode_packet p = ep_hmac p @ write_vec (failuremsg p) @ write_vec (pad p)"

definition read_packet :: "bytes \<Rightarrow> DecodedOnionErrorPacket option" where
  "read_packet r =
     (if length r < 32 then None
      else case read_vec (drop 32 r) of
             None \<Rightarrow> None
           | Some (m, r1) \<Rightarrow>
               (case read_vec r1 of
                  None \<Rightarrow> None
                | Some (p, r2) \<Rightarrow> Some \<lparr>ep_hmac = take 32 r, failuremsg = m, pad = p\<rparr>))"

definition encrypt_failure_packet :: "'sk crypto \<Rightarrow> bytes \<Rightarrow> bytes \<Rightarrow> (unit, bytes) outcome" where
  "encrypt_failure_packet cr shared_secret raw_packet =
     and_then (gen_ammag_from_shared_secret cr shared_secret) (\<lambda>ammag. chacha_crypt ammag raw_packet)"

definition build_failure_packet ::
  "'sk crypto \<Rightarrow> bytes \<Rightarrow> u16 \<Rightarrow> bytes \<Rightarrow> (unit, DecodedOnionErrorPacket) outcome" where
  "build_failure_packet cr shared_secret failure_type failure_data =
     (if length shared_secret \<noteq> 32 \<or> length failure_data > 256 - 2 then Panic
      else and_then (gen_um_from_shared_secret cr shared_secret) (\<lambda>um.
        let packet = \<lparr>ep_hmac = replicate 32 0,
                      failuremsg = [ucast (drop_bit 8 failure_type AND 0xff), ucast (failure_type AND 0xff)] @ failure_data,
                      pad = replicate (256 - 2 - length failure_data) 0\<rparr>
        in Ok (packet\<lparr>ep_hmac := hmac_sha256 cr um (drop 32 (encode_packet packet))\<rparr>)))"

definition build_first_hop_failure_packet ::
  "'sk crypto \<Rightarrow> bytes \<Rightarrow> u16 \<Rightarrow> bytes \<Rightarrow> (unit, bytes) outcome" where
  "build_first_hop_failure_packet cr shared_secret failure_type failure_data =
     and_then (build_failure_packet cr shared_secret failure_type failure_data)
       (\<lambda>p. encrypt_failure_packet cr shared_secret (encode_packet p))"

section \<open>Interpreting a failure\<close>

text \<open>A channel update with its signature.\<close>

record channel_update =
  cu_signature :: bytes
  cu_chain_hash :: bytes
  cu_short_channel_id :: u64
  cu_timestamp :: u32
  cu_flags :: u8
  cu_cltv_expiry_delta :: u16
  cu_htlc_minimum_msat :: u64
  cu_htlc_maximum_msat :: "u64 option"
  cu_fee_base_msat :: u32
  cu_fee_proportional_millionths :: u32
  cu_excess_data :: bytes

datatype NetworkUpdate =
    ChannelUpdateMessage channel_update
  | ChannelFailure u64 bool
  | NodeFailure bytes bool

definition PERM :: u16 where "PERM = 0x4000"
definition NODE :: u16 where "NODE = 0x2000"
definition UPDATE :: u16 where "UPDATE = 0x1000"

definition has_flag :: "u16 \<Rightarrow> u16 \<Rightarrow> bool" where "has_flag code flag = (code AND flag = flag)"

definition get_onion_debug_field :: "u16 \<Rightarrow> string \<times> nat" where
  "get_onion_debug_field error_code =
     (let c = error_code AND 0xff in
      if c \<in> {4, 5, 6} then (''sha256_of_onion'', 32)
      else if c \<in> {11, 12} then (''htlc_msat'', 8)
      else if c \<in> {13, 18} then (''cltv_expiry'', 4)
      else if c = 19 then (''incoming_htlc_msat'', 8)
      else if c = 20 then (''flags'', 2)
      else ([], 0))"

text \<open>\<open>slice.get(a..b)\<close>\<close>

definition get_range :: "'a list \<Rightarrow> nat \<Rightarrow> nat \<Rightarrow> 'a list option" where
  "get_range xs a b = (if a \<le> b \<and> b \<le> length xs then Some (take (b - a) (drop a xs)) else None)"

definition checked_fee :: "u64 \<Rightarrow> channel_update \<Rightarrow> u64 option" where
  "checked_fee amt upd =
     (let prod = unat amt * unat (cu_fee_proportional_millionths upd) in
      if prod \<ge> 2 ^ 64 then None
      else let fee = prod div 1000000 + unat (cu_fee_base_msat upd) in
        if fee \<ge> 2 ^ 64 then None else Some (word_of_nat fee))"

definition is_chan_update_invalid :: "u16 \<Rightarrow> u64 \<Rightarrow> RouteHop \<Rightarrow> channel_update \<Rightarrow> bool" where
  "is_chan_update_invalid error_code amt route_hop upd =
     (let c = error_code AND 0xff in
      if c = 11 then amt > cu_htlc_minimum_msat upd
      else if c = 12 then (case checked_fee amt upd of Some fee \<Rightarrow> fee_msat route_hop \<ge> fee | None \<Rightarrow> False)
      else if c = 13 then (ucast (cltv_expiry_delta route_hop) :: u16) \<ge> cu_cltv_expiry_delta upd
      else if c = 20 then cu_flags upd AND 2 = 0
      else False)"

definition CHANNEL_UPDATE_TYPE :: u16 where "CHANNEL_UPDATE_TYPE = 258"

text \<open>The branch for a failure that carries a channel update.\<close>

definition read_failed_update :: "(bytes \<Rightarrow> channel_update option) \<Rightarrow> u16 \<Rightarrow> bytes \<Rightarrow> channel_update option" where
  "read_failed_update chan_update_read error_code msg =
     (let debug_field_size = snd (get_onion_debug_field error_code) in
      case get_range msg (debug_field_size + 2) (debug_field_size + 4) of
        None \<Rightarrow> None
      | Some update_len_slice \<Rightarrow>
          (let update_len = unat (u16_from_be_bytes update_len_slice) in
           case get_range msg (debug_field_size + 4) (debug_field_size + 4 + update_len) of
             None \<Rightarrow> None
           | Some update_slice \<Rightarrow>
               chan_update_read
                 (if length update_slice > 2 \<and> take 2 update_slice = u16_to_be_bytes CHANNEL_UPDATE_TYPE
                  then drop 2 update_slice else update_slice)))"

definition update_failure ::
  "(bytes \<Rightarrow> channel_update option) \<Rightarrow> u16 \<Rightarrow> u64 \<Rightarrow> RouteHop \<Rightarrow> RouteHop \<Rightarrow> bytes \<Rightarrow>
   NetworkUpdate option \<times> u64 option" where
  "update_failure chan_update_read error_code amt route_hop failing_route_hop msg =
     (let (network_update, scid) =
            (case read_failed_update chan_update_read error_code msg of
               None \<Rightarrow> (None, None)
             | Some upd \<Rightarrow>
                 if is_chan_update_invalid error_code amt route_hop upd
                 then (Some (ChannelFailure (short_channel_id route_hop) True), None)
                 else (Some (ChannelUpdateMessage upd),
                       if short_channel_id failing_route_hop = cu_short_channel_id upd
                       then Some (short_channel_id failing_route_hop) else None)) in
      (Some (case network_update of None \<Rightarrow> NodeFailure (pubkey route_hop) True | Some u \<Rightarrow> u),
       Some (case scid of None \<Rightarrow> short_channel_id route_hop | Some i \<Rightarrow> i)))"

definition payment_failed_code :: "u16 \<Rightarrow> bool \<Rightarrow> bool" where
  "payment_failed_code error_code is_from_final_node =
     (error_code AND 0xff \<in> {15, 16, 17, 18, 19, 23} \<and> is_from_final_node)"

text \<open>What a failure means: the update for the network graph and the channel to blame.\<close>

definition interpret_failure ::
  "(bytes \<Rightarrow> channel_update option) \<Rightarrow> u16 \<Rightarrow> bool \<Rightarrow> u64 \<Rightarrow> RouteHop \<Rightarrow> RouteHop \<Rightarrow> bytes \<Rightarrow>
   NetworkUpdate option \<times> u64 option" where
  "interpret_failure chan_update_read error_code is_from_final_node amt route_hop failing_route_hop msg =
     (let payment_failed = payment_failed_code error_code is_from_final_node in
      if has_flag error_code NODE
      then (Some (NodeFailure (pubkey route_hop) (has_flag error_code PERM)), Some (short_channel_id route_hop))
      else if has_flag error_code PERM
      then if payment_failed then (None, None)
           else (Some (ChannelFailure (short_channel_id failing_route_hop) True),
                 Some (short_channel_id failing_route_hop))
      else if has_flag error_code UPDATE
      then update_failure chan_update_read error_code amt route_hop failing_route_hop msg
      else if payment_failed
      then (None, if error_code AND 0xff \<in> {18, 19} then Some (short_channel_id route_hop) else None)
      else (Some (NodeFailure (pubkey route_hop) True), Some (short_channel_id route_hop)))"

section \<open>Peeling the layers\<close>

record peel_state =
  ps_res :: "(NetworkUpdate option \<times> u64 option \<times> bool) option"
  ps_htlc_msat :: u64
  ps_error_code :: "u16 option"
  ps_error_packet :: "bytes option"
  ps_is_from_final_node :: bool
  ps_packet :: bytes

text \<open>The closure of \<open>process_onion_failure\<close>, for one hop.\<close>

definition peel_hop ::
  "'sk crypto \<Rightarrow> (bytes \<Rightarrow> channel_update option) \<Rightarrow> RouteHop list \<Rightarrow> peel_state \<Rightarrow> onion_step \<Rightarrow>
   (unit, peel_state) outcome" where
  "peel_hop cr chan_update_read path s st =
     (if ps_res s \<noteq> None then Ok s
      else let route_hop = st_hop st;
               amt = ps_htlc_msat s - fee_msat route_hop
           in and_then (gen_ammag_from_shared_secret cr (st_shared_secret st)) (\<lambda>ammag.
              and_then (chacha_crypt ammag (ps_packet s)) (\<lambda>packet_decrypted.
                let final = (st_idx st + 1 = length path);
                    failing_route_hop = (if final then route_hop else path ! (st_idx st + 1));
                    s1 = s\<lparr>ps_htlc_msat := amt, ps_packet := packet_decrypted, ps_is_from_final_node := final\<rparr>
                in case read_packet packet_decrypted of
                     None \<Rightarrow> Ok s1
                   | Some err_packet \<Rightarrow>
                       and_then (gen_um_from_shared_secret cr (st_shared_secret st)) (\<lambda>um.
                         if hmac_sha256 cr um (drop 32 (encode_packet err_packet)) \<noteq> ep_hmac err_packet then Ok s1
                         else case get_range (failuremsg err_packet) 0 2 of
                                None \<Rightarrow>
                                  Ok (s1\<lparr>ps_res := Some (Some (NodeFailure (pubkey route_hop) True),
                                                         Some (short_channel_id route_hop), \<not> final)\<rparr>)
                              | Some error_code_slice \<Rightarrow>
                                  (let error_code = u16_from_be_bytes error_code_slice;
                                       (upd, scid) = interpret_failure chan_update_read error_code final amt
                                                       route_hop failing_route_hop (failuremsg err_packet)
                                   in Ok (s1\<lparr>ps_error_code := Some error_code,
                                             ps_error_packet := Some (drop 2 (failuremsg err_packet)),
                                             ps_res := Some (upd, scid, \<not> (has_flag error_code PERM \<and> final))\<rparr>))))))"

fun peel_all ::
  "'sk crypto \<Rightarrow> (bytes \<Rightarrow> channel_update option) \<Rightarrow> RouteHop list \<Rightarrow> peel_state \<Rightarrow> onion_step list \<Rightarrow>
   (unit, peel_state) outcome" where
  "peel_all cr chan_update_read path s [] = Ok s"
| "peel_all cr chan_update_read path s (st # sts) =
     and_then (peel_hop cr chan_update_read path s st) (\<lambda>s'. peel_all cr chan_update_read path s' sts)"

type_synonym failure_report = "NetworkUpdate option \<times> u64 option \<times> bool \<times> u16 option \<times> bytes option"

definition process_onion_failure ::
  "'sk crypto \<Rightarrow> (bytes \<Rightarrow> channel_update option) \<Rightarrow> RouteHop list \<Rightarrow> 'sk \<Rightarrow> u64 \<Rightarrow> bytes \<Rightarrow>
   (unit, failure_report) outcome" where
  "process_onion_failure cr chan_update_read path session_priv first_hop_htlc_msat packet =
     (case construct_onion_keys_callback cr path session_priv of
        None \<Rightarrow> Panic
      | Some steps \<Rightarrow>
          map_ok (\<lambda>s. case ps_res s of
                        Some (upd, scid, payment_retryable) \<Rightarrow>
                          (upd, scid, payment_retryable, ps_error_code s, ps_error_packet s)
                      | None \<Rightarrow> (None, None, \<not> ps_is_from_final_node s, None, None))
            (peel_all cr chan_update_read path
               \<lparr>ps_res = None, ps_htlc_msat = first_hop_htlc_msat, ps_error_code = None,
                ps_error_packet = None, ps_is_from_final_node = False, ps_packet = packet\<rparr> steps))"

section \<open>The way back\<close>

text \<open>
  What the nodes do to a packet: the failing node, last in the list, encrypts it, then each node nearer
  to the sender.
\<close>

fun relay_failure :: "'sk crypto \<Rightarrow> bytes list \<Rightarrow> bytes \<Rightarrow> (unit, bytes) outcome" where
  "relay_failure cr [] raw = Ok raw"
| "relay_failure cr (ss # sss) raw = and_then (relay_failure cr sss raw) (encrypt_failure_packet cr ss)"

text \<open>A packet that passes the check of \<open>process_onion_failure\<close> under a shared secret.\<close>

definition authenticates :: "'sk crypto \<Rightarrow> bytes \<Rightarrow> bytes \<Rightarrow> bool" where
  "authenticates cr ss packet \<longleftrightarrow>
     (case read_packet packet of
        None \<Rightarrow> False
      | Some p \<Rightarrow> hmac_sha256 cr (hmac_sha256 cr [0x75, 0x6d] ss) (drop 32 (encode_packet p)) = ep_hmac p)"

section \<open>Lemmas\<close>

lemma u16_be_round_trip [simp]: "u16_from_be_bytes (u16_to_be_bytes w) = w"
  unfolding u16_from_be_bytes_def u16_to_be_bytes_def
  by (rule bit_word_eqI) (auto simp: bit_simps)

lemma length_u16_to_be_bytes [simp]: "length (u16_to_be_bytes w) = 2"
  by (simp add: u16_to_be_bytes_def)

lemma read_write_vec: "length v < 65536 \<Longrightarrow> read_vec (write_vec v @ r) = Some (v, r)"
  by (simp add: read_vec_def write_vec_def Let_def unat_of_nat)

lemma read_encode_packet:
  assumes "length (ep_hmac p) = 32" "length (failuremsg p) < 65536" "length (pad p) < 65536"
  shows "read_packet (encode_packet p) = Some p"
  using assms read_write_vec [of "failuremsg p" "write_vec (pad p)"] read_write_vec [of "pad p" "[]"]
  by (simp add: read_packet_def encode_packet_def)

lemma drop_encode_packet:
  "length (ep_hmac p) = 32 \<Longrightarrow> drop 32 (encode_packet p) = write_vec (failuremsg p) @ write_vec (pad p)"
  by (simp add: encode_packet_def)

lemma failure_code_bytes:
  "u16_from_be_bytes [ucast (drop_bit 8 (code :: u16) AND 0xff), ucast (code AND 0xff)] = code"
proof -
  have m: "(0xff :: u16) = mask 8" by (simp add: mask_eq_exp_minus_1)
  show ?thesis
    unfolding u16_from_be_bytes_def m by (intro bit_word_eqI) (auto simp: bit_simps)
qed

definition ammag_of :: "'sk crypto \<Rightarrow> bytes \<Rightarrow> bytes" where
  "ammag_of cr ss = hmac_sha256 cr [0x61, 0x6d, 0x6d, 0x61, 0x67] ss"

lemma gen_ammag: "length ss = 32 \<Longrightarrow> gen_ammag_from_shared_secret cr ss = Ok (ammag_of cr ss)"
  by (simp add: gen_ammag_from_shared_secret_def hmac_of_secret_def ammag_of_def)

lemma gen_um: "length ss = 32 \<Longrightarrow> gen_um_from_shared_secret cr ss = Ok (hmac_sha256 cr [0x75, 0x6d] ss)"
  by (simp add: gen_um_from_shared_secret_def hmac_of_secret_def)

lemma encrypt_failure_packet_eq:
  "length ss = 32 \<Longrightarrow> encrypt_failure_packet cr ss = chacha_crypt (ammag_of cr ss)"
  by (rule ext) (simp add: encrypt_failure_packet_def gen_ammag)

lemma relay_is_wrap:
  "\<forall>ss\<in>set sss. length ss = 32 \<Longrightarrow>
   relay_failure cr sss raw = wrap_layers chacha_crypt (map (ammag_of cr) sss) raw"
  by (induction sss) (auto simp: encrypt_failure_packet_eq)

lemma build_failure_packet_facts:
  assumes "crypto_ok cr" "length ss = 32" "length data \<le> 254"
  shows "\<exists>p. build_failure_packet cr ss code data = Ok p \<and> read_packet (encode_packet p) = Some p \<and>
    hmac_sha256 cr (hmac_sha256 cr [0x75, 0x6d] ss) (drop 32 (encode_packet p)) = ep_hmac p \<and>
    get_range (failuremsg p) 0 2 = Some [ucast (drop_bit 8 code AND 0xff), ucast (code AND 0xff)] \<and>
    drop 2 (failuremsg p) = data \<and> length (encode_packet p) = 292"
proof -
  let ?msg = "[ucast (drop_bit 8 code AND 0xff), ucast (code AND 0xff)] @ data"
  let ?p0 = "\<lparr>ep_hmac = replicate 32 0, failuremsg = ?msg, pad = replicate (254 - length data) 0\<rparr> :: DecodedOnionErrorPacket"
  define p where "p = ?p0\<lparr>ep_hmac := hmac_sha256 cr (hmac_sha256 cr [0x75, 0x6d] ss) (drop 32 (encode_packet ?p0))\<rparr>"
  have len: "length (ep_hmac p) = 32" using assms(1) by (simp add: crypto_ok_def p_def)
  have fields: "failuremsg p = ?msg" "pad p = replicate (254 - length data) 0" by (simp_all add: p_def)
  have "build_failure_packet cr ss code data = Ok p"
    using assms by (simp add: build_failure_packet_def gen_um Let_def p_def)
  moreover have "read_packet (encode_packet p) = Some p"
    using len assms(3) by (intro read_encode_packet) (simp_all add: fields)
  moreover have "hmac_sha256 cr (hmac_sha256 cr [0x75, 0x6d] ss) (drop 32 (encode_packet p)) = ep_hmac p"
  proof -
    have "drop 32 (encode_packet p) = drop 32 (encode_packet ?p0)"
      unfolding drop_encode_packet [OF len] by (subst drop_encode_packet) (simp_all add: fields)
    then show ?thesis by (simp add: p_def)
  qed
  moreover have "length (encode_packet p) = 292"
    using len assms(3) by (simp add: encode_packet_def write_vec_def fields)
  moreover have "get_range (failuremsg p) 0 2 = Some [ucast (drop_bit 8 code AND 0xff), ucast (code AND 0xff)]"
    "drop 2 (failuremsg p) = data"
    by (simp_all add: get_range_def fields)
  ultimately show ?thesis by blast
qed

lemma peel_hop_done: "ps_res s \<noteq> None \<Longrightarrow> peel_hop cr cur path s st = Ok s"
  by (simp add: peel_hop_def)

lemma peel_all_done: "ps_res s \<noteq> None \<Longrightarrow> peel_all cr cur path s sts = Ok s"
  by (induction sts) (auto simp: peel_hop_done)

lemma peel_hop_other:
  assumes "ps_res s = None" "length (st_shared_secret st) = 32"
    and "chacha_crypt (ammag_of cr (st_shared_secret st)) (ps_packet s) = Ok pkt"
    and "\<not> authenticates cr (st_shared_secret st) pkt"
  shows "\<exists>s'. peel_hop cr cur path s st = Ok s' \<and> ps_res s' = None \<and> ps_packet s' = pkt"
  using assms
  by (auto simp: peel_hop_def gen_ammag gen_um Let_def authenticates_def split: option.splits)

lemma peel_hop_source:
  assumes "ps_res s = None" "length (st_shared_secret st) = 32"
    and "chacha_crypt (ammag_of cr (st_shared_secret st)) (ps_packet s) = Ok pkt"
    and "read_packet pkt = Some p"
    and "hmac_sha256 cr (hmac_sha256 cr [0x75, 0x6d] (st_shared_secret st)) (drop 32 (encode_packet p)) = ep_hmac p"
    and "get_range (failuremsg p) 0 2 = Some b"
  shows "\<exists>s' upd scid. peel_hop cr cur path s st = Ok s' \<and>
    ps_res s' = Some (upd, scid, \<not> (has_flag (u16_from_be_bytes b) PERM \<and> st_idx st + 1 = length path)) \<and>
    ps_error_code s' = Some (u16_from_be_bytes b) \<and> ps_error_packet s' = Some (drop 2 (failuremsg p))"
  using assms by (auto simp: peel_hop_def gen_ammag gen_um Let_def split: prod.splits)

lemma onion_steps_facts:
  assumes "onion_steps cr sk k hops = Some sts"
  shows "length sts = length hops \<and> (\<forall>i < length hops. st_hop (sts ! i) = hops ! i \<and> st_idx (sts ! i) = k + i)"
  using assms
proof (induction hops arbitrary: sk k sts)
  case (Cons hop hops)
  then obtain sk' st rest where st: "onion_steps cr sk' (Suc k) hops = Some rest" "sts = st # rest"
    "st_hop st = hop" "st_idx st = k"
    by (auto simp: Let_def split: option.splits)
  from Cons.IH [OF st(1)] st(2-4) show ?case by (auto simp: nth_Cons split: nat.splits)
qed simp

lemma onion_steps_secrets:
  assumes "crypto_ok cr" "onion_steps cr sk k hops = Some sts"
  shows "\<forall>st\<in>set sts. length (st_shared_secret st) = 32"
  using assms
  by (induction hops arbitrary: sk k sts) (auto simp: Let_def crypto_ok_def split: option.splits)

lemma relay_peel:
  assumes "\<forall>st\<in>set (st # sts). length (st_shared_secret st) = 32"
    and "relay_failure cr (map st_shared_secret (st # sts)) raw = Ok pkt"
  shows "\<exists>pkt'. relay_failure cr (map st_shared_secret sts) raw = Ok pkt' \<and>
    chacha_crypt (ammag_of cr (st_shared_secret st)) pkt = Ok pkt'"
proof -
  obtain pkt' where p: "relay_failure cr (map st_shared_secret sts) raw = Ok pkt'"
    using assms(2) by (auto simp: and_then_Ok_iff)
  have "wrap_layers chacha_crypt (map (ammag_of cr) (map st_shared_secret (st # sts))) raw = Ok pkt"
    using assms relay_is_wrap [of "map st_shared_secret (st # sts)" cr raw] by simp
  then have "chacha_crypt (ammag_of cr (st_shared_secret st)) pkt =
      wrap_layers chacha_crypt (map (ammag_of cr) (map st_shared_secret sts)) raw"
    unfolding list.map by (rule chacha.peel_layer)
  then show ?thesis
    using p assms(1) relay_is_wrap [of "map st_shared_secret sts" cr raw] by simp
qed

lemma peel_all_reaches_source:
  assumes "\<forall>st\<in>set (pre @ [src]). length (st_shared_secret st) = 32"
    and "\<forall>j < length pre. \<forall>pkt. relay_failure cr (map st_shared_secret (drop (Suc j) (pre @ [src]))) raw = Ok pkt \<longrightarrow>
           \<not> authenticates cr (st_shared_secret (pre ! j)) pkt"
    and "relay_failure cr (map st_shared_secret (pre @ [src])) raw = Ok (ps_packet s)" and "ps_res s = None"
    and "read_packet raw = Some p"
    and "hmac_sha256 cr (hmac_sha256 cr [0x75, 0x6d] (st_shared_secret src)) (drop 32 (encode_packet p)) = ep_hmac p"
    and "get_range (failuremsg p) 0 2 = Some b"
  shows "\<exists>s' upd scid. peel_all cr cur path s (pre @ src # post) = Ok s' \<and>
    ps_res s' = Some (upd, scid, \<not> (has_flag (u16_from_be_bytes b) PERM \<and> st_idx src + 1 = length path)) \<and>
    ps_error_code s' = Some (u16_from_be_bytes b) \<and> ps_error_packet s' = Some (drop 2 (failuremsg p))"
  using assms(1-4)
proof (induction pre arbitrary: s)
  case Nil
  have "chacha_crypt (ammag_of cr (st_shared_secret src)) (ps_packet s) = Ok raw"
    using relay_peel [of src "[]" cr raw "ps_packet s"] Nil.prems by auto
  from peel_hop_source [OF Nil.prems(4) _ this assms(5-7), of cur path] Nil.prems(1)
  obtain s' upd scid where s': "peel_hop cr cur path s src = Ok s'"
    "ps_res s' = Some (upd, scid, \<not> (has_flag (u16_from_be_bytes b) PERM \<and> st_idx src + 1 = length path))"
    "ps_error_code s' = Some (u16_from_be_bytes b)" "ps_error_packet s' = Some (drop 2 (failuremsg p))" by auto
  with peel_all_done [of s' cr cur path post] show ?case by simp
next
  case (Cons st pre)
  obtain pkt where pkt: "relay_failure cr (map st_shared_secret (pre @ [src])) raw = Ok pkt"
    "chacha_crypt (ammag_of cr (st_shared_secret st)) (ps_packet s) = Ok pkt"
    using relay_peel [of st "pre @ [src]" cr raw "ps_packet s"] Cons.prems(1,3) by auto
  have "\<not> authenticates cr (st_shared_secret st) pkt"
    using Cons.prems(2) [rule_format, of 0 pkt] pkt(1) by simp
  from peel_hop_other [OF Cons.prems(4) _ pkt(2) this, of cur path] Cons.prems(1)
  obtain s1 where s1: "peel_hop cr cur path s st = Ok s1" "ps_res s1 = None" "ps_packet s1 = pkt" by auto
  have "\<forall>j < length pre. \<forall>pkt. relay_failure cr (map st_shared_secret (drop (Suc j) (pre @ [src]))) raw = Ok pkt \<longrightarrow>
      \<not> authenticates cr (st_shared_secret (pre ! j)) pkt"
    using Cons.prems(2) by fastforce
  from Cons.IH [OF _ this _ s1(2)] pkt(1) s1 Cons.prems(1) show ?case by simp
qed

lemma relayed_failure_decoded:
  assumes "crypto_ok cr" and "construct_onion_keys_callback cr path session_priv = Some steps"
    and "i < length path" and "length data \<le> 254"
    and "build_failure_packet cr (st_shared_secret (steps ! i)) code data = Ok p"
    and "\<forall>j < i. \<forall>pkt. relay_failure cr (map st_shared_secret (drop (Suc j) (take (Suc i) steps))) (encode_packet p) = Ok pkt \<longrightarrow>
           \<not> authenticates cr (st_shared_secret (steps ! j)) pkt"
  shows "\<exists>pkt upd scid. relay_failure cr (map st_shared_secret (take (Suc i) steps)) (encode_packet p) = Ok pkt \<and>
    process_onion_failure cr chan_update_read path session_priv first_hop_htlc_msat pkt =
      Ok (upd, scid, \<not> (has_flag code PERM \<and> Suc i = length path), Some code, Some data)"
proof -
  have sts: "onion_steps cr session_priv 0 path = Some steps"
    using assms(2) by (simp add: construct_onion_keys_callback_def)
  then have len: "length steps = length path" and idx: "st_idx (steps ! i) = i"
    using onion_steps_facts assms(3) by fastforce+
  have secrets: "\<forall>st\<in>set steps. length (st_shared_secret st) = 32"
    by (rule onion_steps_secrets [OF assms(1) sts])
  let ?pre = "take i steps" and ?src = "steps ! i" and ?raw = "encode_packet p"
  have split: "steps = ?pre @ ?src # drop (Suc i) steps" and upto: "take (Suc i) steps = ?pre @ [?src]"
    using assms(3) len by (simp_all add: id_take_nth_drop take_Suc_conv_app_nth)
  have s32: "\<forall>st\<in>set (?pre @ [?src]). length (st_shared_secret st) = 32"
    using secrets assms(3) len by (auto dest: in_set_takeD)
  obtain p' where p': "build_failure_packet cr (st_shared_secret ?src) code data = Ok p'"
    "read_packet (encode_packet p') = Some p'"
    "hmac_sha256 cr (hmac_sha256 cr [0x75, 0x6d] (st_shared_secret ?src)) (drop 32 (encode_packet p')) = ep_hmac p'"
    "get_range (failuremsg p') 0 2 = Some [ucast (drop_bit 8 code AND 0xff), ucast (code AND 0xff)]"
    "drop 2 (failuremsg p') = data" "length (encode_packet p') = 292"
    using build_failure_packet_facts [OF assms(1) _ assms(4), of "st_shared_secret ?src" code] s32 by auto
  then have pp: "p' = p" using assms(5) by simp
  note f = p' [unfolded pp]
  have "length ?raw \<le> chacha_max" using f(6) by (simp add: chacha_max_def)
  moreover have "\<forall>k\<in>set (map (ammag_of cr) (map st_shared_secret (?pre @ [?src]))). length k = 32"
    using assms(1) by (auto simp: ammag_of_def crypto_ok_def)
  ultimately obtain pkt where pkt: "relay_failure cr (map st_shared_secret (?pre @ [?src])) ?raw = Ok pkt"
    using chacha.wrap_layers_total relay_is_wrap [of "map st_shared_secret (?pre @ [?src])" cr ?raw] s32 by fastforce
  let ?s0 = "\<lparr>ps_res = None, ps_htlc_msat = first_hop_htlc_msat, ps_error_code = None,
              ps_error_packet = None, ps_is_from_final_node = False, ps_packet = pkt\<rparr>"
  have "\<exists>s' upd scid. peel_all cr chan_update_read path ?s0 (?pre @ ?src # drop (Suc i) steps) = Ok s' \<and>
    ps_res s' = Some (upd, scid, \<not> (has_flag (u16_from_be_bytes [ucast (drop_bit 8 code AND 0xff), ucast (code AND 0xff)]) PERM
      \<and> st_idx ?src + 1 = length path)) \<and>
    ps_error_code s' = Some (u16_from_be_bytes [ucast (drop_bit 8 code AND 0xff), ucast (code AND 0xff)]) \<and>
    ps_error_packet s' = Some (drop 2 (failuremsg p))"
  proof (rule peel_all_reaches_source [OF s32 _ _ _ f(2-4)])
    show "\<forall>j < length ?pre. \<forall>pkt. relay_failure cr (map st_shared_secret (drop (Suc j) (?pre @ [?src]))) ?raw = Ok pkt \<longrightarrow>
        \<not> authenticates cr (st_shared_secret (?pre ! j)) pkt"
      using assms(6) by (simp add: upto)
  qed (use pkt in simp_all)
  then obtain s' upd scid where "peel_all cr chan_update_read path ?s0 steps = Ok s'"
    "ps_res s' = Some (upd, scid, \<not> (has_flag code PERM \<and> Suc i = length path))"
    "ps_error_code s' = Some code" "ps_error_packet s' = Some data"
    unfolding failure_code_bytes idx f(5) split [symmetric] by auto
  then have "process_onion_failure cr chan_update_read path session_priv first_hop_htlc_msat pkt =
      Ok (upd, scid, \<not> (has_flag code PERM \<and> Suc i = length path), Some code, Some data)"
    using assms(2) by (simp add: process_onion_failure_def)
  with pkt show ?thesis unfolding upto by blast
qed

section \<open>Properties\<close>


definition demo_crypto :: "bytes crypto" where
  "demo_crypto = \<lparr>hmac_sha256 = (\<lambda>k m. replicate 32 (hd (k @ [0]))), sha256_hash = (\<lambda>m. replicate 32 0),
     ecdh = (\<lambda>p s. replicate 32 7), public_of = (\<lambda>s. 2 # s), sk_mul = (\<lambda>s b. Some s)\<rparr>"

definition demo_final_hop :: RouteHop where
  "demo_final_hop = \<lparr>pubkey = [3], supports_variable_length_onion = True, short_channel_id = 42,
     fee_msat = 1000, cltv_expiry_delta = 40\<rparr>"


end
