(* ===== verification/Serialization.thy ===== *)
theory Serialization
  imports Prelude
begin

text \<open>
  The wire primitives of \<open>lightning/src/util/ser.rs\<close> and the TLV streams of \<open>ser_macros.rs\<close>: big-endian
  integers, \<open>BigSize\<close>, integers with their high zero bytes dropped, and the reading loop of
  \<open>decode_tlv_stream!\<close>. A reader is the list of bytes it has left; reading gives a value and the rest.
\<close>

section \<open>Readers\<close>

datatype DecodeError =
    UnknownVersion
  | UnknownRequiredFeature
  | InvalidValue
  | ShortRead
  | BadLengthDescriptor
  | IoError
  | UnsupportedCompression

type_synonym 'a parsed = "(DecodeError, 'a \<times> bytes) outcome"

definition read_exact :: "nat \<Rightarrow> bytes \<Rightarrow> bytes parsed" where
  "read_exact n r = (if length r < n then Err ShortRead else Ok (take n r, drop n r))"

text \<open>\<open>to_be_bytes\<close> and \<open>from_be_bytes\<close> for an integer of \<open>n\<close> bytes.\<close>

fun be_bytes :: "nat \<Rightarrow> 'a::len word \<Rightarrow> bytes" where
  "be_bytes 0 w = []"
| "be_bytes (Suc n) w = be_bytes n (drop_bit 8 w) @ [ucast w]"

definition from_be :: "bytes \<Rightarrow> 'a::len word" where
  "from_be bs = foldl (\<lambda>acc b. push_bit 8 acc OR ucast b) 0 bs"

definition read_be :: "nat \<Rightarrow> bytes \<Rightarrow> ('a::len word) parsed" where
  "read_be n r = map_ok (\<lambda>(b, r'). (from_be b, r')) (read_exact n r)"

abbreviation read_u16 :: "bytes \<Rightarrow> u16 parsed" where "read_u16 \<equiv> read_be 2"
abbreviation read_u32 :: "bytes \<Rightarrow> u32 parsed" where "read_u32 \<equiv> read_be 4"
abbreviation read_u64 :: "bytes \<Rightarrow> u64 parsed" where "read_u64 \<equiv> read_be 8"

definition read_u8 :: "bytes \<Rightarrow> u8 parsed" where
  "read_u8 r = map_ok (\<lambda>(b, r'). (hd b, r')) (read_exact 1 r)"

section \<open>BigSize\<close>

definition write_bigsize :: "u64 \<Rightarrow> bytes" where
  "write_bigsize x =
     (if x \<le> 0xFC then [ucast x]
      else if x \<le> 0xFFFF then 0xFD # be_bytes 2 (ucast x :: u16)
      else if x \<le> 0xFFFFFFFF then 0xFE # be_bytes 4 (ucast x :: u32)
      else 0xFF # be_bytes 8 x)"

definition read_bigsize :: "bytes \<Rightarrow> u64 parsed" where
  "read_bigsize r =
     and_then (read_u8 r) (\<lambda>(n, r1).
       if n = 0xFF then
         and_then (read_u64 r1) (\<lambda>(x, r2). if x < 0x100000000 then Err InvalidValue else Ok (x, r2))
       else if n = 0xFE then
         and_then (read_u32 r1) (\<lambda>(x, r2). if x < 0x10000 then Err InvalidValue else Ok (ucast x, r2))
       else if n = 0xFD then
         and_then (read_u16 r1) (\<lambda>(x, r2). if x < 0xFD then Err InvalidValue else Ok (ucast x, r2))
       else Ok (ucast n, r1))"

section \<open>Integers without their high zero bytes\<close>

definition write_hzbd :: "nat \<Rightarrow> 'a::len word \<Rightarrow> bytes" where
  "write_hzbd n w = dropWhile (\<lambda>b. b = 0) (be_bytes n w)"

text \<open>The reads fill up to \<open>n\<close> bytes; what is missing at the end of the input counts as high zero bytes.\<close>

definition read_hzbd :: "nat \<Rightarrow> bytes \<Rightarrow> ('a::len word) parsed" where
  "read_hzbd n r =
     (let buf = take n r in
      if buf = [] \<or> hd buf \<noteq> 0 then Ok (from_be (replicate (n - length buf) 0 @ buf), drop n r)
      else Err InvalidValue)"

section \<open>TLV streams\<close>

text \<open>One field of \<open>decode_tlv_stream!\<close>: its type number, whether it is required, and how it is read.\<close>

record 's tlv_field =
  tf_type :: u64
  tf_required :: bool
  tf_read :: "bytes \<Rightarrow> 's \<Rightarrow> 's parsed"

definition skipped :: "u64 option \<Rightarrow> 's tlv_field \<Rightarrow> bool" where
  "skipped last_seen_type f =
     (tf_required f \<and> (case last_seen_type of None \<Rightarrow> True | Some t \<Rightarrow> t < tf_type f))"

lemma read_exact_shorter: "read_exact n r = Ok (b, r') \<Longrightarrow> length r = n + length r' \<and> r = b @ r' \<and> length b = n"
  by (auto simp: read_exact_def split: if_splits)

lemma read_bigsize_shorter: "read_bigsize r = Ok (x, r') \<Longrightarrow> length r' < length r"
  by (auto simp: read_bigsize_def read_u8_def read_be_def and_then_Ok_iff map_ok_Ok_iff
      dest!: read_exact_shorter split: if_splits)

function decode_tlv_stream :: "'s tlv_field list \<Rightarrow> u64 option \<Rightarrow> 's \<Rightarrow> bytes \<Rightarrow> (DecodeError, 's) outcome" where
  "decode_tlv_stream flds last_seen_type s r =
     (if r = [] then if \<exists>f\<in>set flds. skipped last_seen_type f then Err InvalidValue else Ok s
      else case read_bigsize r of
             Panic \<Rightarrow> Panic
           | Err e \<Rightarrow> Err e
           | Ok (typ, r1) \<Rightarrow>
               if (case last_seen_type of None \<Rightarrow> False | Some t \<Rightarrow> typ \<le> t) then Err InvalidValue
               else if \<exists>f\<in>set flds. skipped last_seen_type f \<and> typ > tf_type f then Err InvalidValue
               else case read_bigsize r1 of
                      Panic \<Rightarrow> Panic
                    | Err e \<Rightarrow> Err e
                    | Ok (len, r2) \<Rightarrow>
                        let avail = take (unat len) r2; rest = drop (unat len) r2 in
                        case find (\<lambda>f. tf_type f = typ) flds of
                          Some f \<Rightarrow>
                            (case tf_read f avail s of
                               Panic \<Rightarrow> Panic
                             | Err e \<Rightarrow> Err e
                             | Ok (s', unread) \<Rightarrow>
                                 if length avail < unat len then Err ShortRead
                                 else if unread \<noteq> [] then Err InvalidValue
                                 else decode_tlv_stream flds (Some typ) s' rest)
                        | None \<Rightarrow>
                            if typ mod 2 = 0 then Err UnknownRequiredFeature
                            else if length avail < unat len then Err ShortRead
                            else decode_tlv_stream flds (Some typ) s rest)"
  by pat_completeness auto
termination
  by (relation "measure (\<lambda>(flds, l, s, r). length r)") (auto dest!: read_bigsize_shorter)

declare decode_tlv_stream.simps [simp del]

definition encode_tlv :: "u64 \<Rightarrow> bytes \<Rightarrow> bytes" where
  "encode_tlv typ field = write_bigsize typ @ write_bigsize (word_of_nat (length field)) @ field"

definition encode_tlv_option :: "u64 \<Rightarrow> bytes option \<Rightarrow> bytes" where
  "encode_tlv_option typ field = (case field of None \<Rightarrow> [] | Some b \<Rightarrow> encode_tlv typ b)"

definition encode_varint_length_prefixed_tlv :: "bytes list \<Rightarrow> bytes" where
  "encode_varint_length_prefixed_tlv tlvs =
     write_bigsize (word_of_nat (length (concat tlvs))) @ concat tlvs"

section \<open>Lemmas\<close>

lemma length_be_bytes [simp]: "length (be_bytes n w) = n"
  by (induction n arbitrary: w) simp_all

lemma from_be_snoc [simp]: "from_be (bs @ [b]) = push_bit 8 (from_be bs) OR ucast b"
  by (simp add: from_be_def)

lemma from_be_Nil [simp]: "from_be [] = 0"
  by (simp add: from_be_def)

lemma from_be_bytes: "from_be (be_bytes n w) = take_bit (8 * n) (w :: 'a::len word)"
proof (induction n arbitrary: w)
  case (Suc n)
  have "push_bit 8 (take_bit (8 * n) (drop_bit 8 w)) OR ucast (ucast w :: u8) = take_bit (8 * Suc n) w"
    by (rule bit_word_eqI) (auto simp: bit_simps)
  then show ?case by (simp add: Suc)
qed simp

lemma from_be_bytes_full [simp]: "LENGTH('a) \<le> 8 * n \<Longrightarrow> from_be (be_bytes n w) = (w :: 'a::len word)"
  by (simp add: from_be_bytes take_bit_word_eq_self)

lemma be_bytes_from_be:
  "8 * length bs \<le> LENGTH('a) \<Longrightarrow> be_bytes (length bs) (from_be bs :: 'a::len word) = bs"
proof (induction bs rule: rev_induct)
  case (snoc b bs)
  let ?w = "push_bit 8 (from_be bs) OR ucast b :: 'a word"
  have bound: "i < 8 * length bs" if "bit (from_be bs :: 'a word) i" for i
  proof -
    have "from_be bs = (from_be (be_bytes (length bs) (from_be bs :: 'a word)) :: 'a word)"
      using snoc by simp
    also have "\<dots> = take_bit (8 * length bs) (from_be bs)" by (rule from_be_bytes)
    finally show ?thesis using that by (metis bit_take_bit_iff linorder_not_less)
  qed
  have len: "8 * length bs + 8 \<le> LENGTH('a)" using snoc.prems by simp
  have "drop_bit 8 ?w = from_be bs"
    using len by (intro bit_word_eqI) (auto simp: bit_simps dest: bit_imp_le_length bound)
  moreover have "ucast ?w = b"
    using len by (intro bit_word_eqI) (auto simp: bit_simps dest: bit_imp_le_length)
  ultimately show ?case using snoc by simp
qed simp

lemma read_exact_append [simp]: "length b = n \<Longrightarrow> read_exact n (b @ r) = Ok (b, r)"
  by (simp add: read_exact_def)

lemma read_be_append [simp]: "LENGTH('a) \<le> 8 * n \<Longrightarrow> read_be n (be_bytes n (w :: 'a::len word) @ r) = Ok (w, r)"
  by (simp add: read_be_def)

lemma read_u8_Cons [simp]: "read_u8 (b # r) = Ok (b, r)" "read_u8 [] = Err ShortRead"
  by (simp_all add: read_u8_def read_exact_def)

lemma unat_ucast_up: "LENGTH('a) \<le> LENGTH('b) \<Longrightarrow> unat (ucast (w :: 'a::len word) :: 'b::len word) = unat w"
  by (simp add: unsigned_ucast_eq take_bit_nat_eq_self less_le_trans [OF unsigned_less] power_increasing)

lemma ucast_down_up:
  "unat x < 2 ^ LENGTH('b) \<Longrightarrow> ucast (ucast x :: 'b::len word) = (x :: 'a::len word)"
  by (simp add: word_unat_eq_iff unsigned_ucast_eq unsigned_take_bit_eq take_bit_nat_eq_self)

lemma ucast_up_down:
  "LENGTH('a) \<le> LENGTH('b) \<Longrightarrow> ucast (ucast y :: 'b::len word) = (y :: 'a::len word)"
  by (rule bit_word_eqI) (auto simp: bit_simps)

lemma bigsize_round_trip: "read_bigsize (write_bigsize x @ r) = Ok (x, r)"
proof -
  consider (a) "x \<le> 0xFC" | (b) "\<not> x \<le> 0xFC" "x \<le> 0xFFFF" | (c) "\<not> x \<le> 0xFFFF" "x \<le> 0xFFFFFFFF"
    | (d) "\<not> x \<le> 0xFFFFFFFF" by fastforce
  then show ?thesis
  proof cases
    case a
    then have x: "unat x \<le> 252" by (simp add: word_le_nat_alt)
    then have u: "unat (ucast x :: u8) = unat x" by (simp add: unsigned_ucast_eq take_bit_nat_eq_self)
    then have "(ucast x :: u8) \<noteq> 0xFF" "(ucast x :: u8) \<noteq> 0xFE" "(ucast x :: u8) \<noteq> 0xFD"
      using x by (auto simp: word_unat_eq_iff)
    then show ?thesis using a x by (simp add: write_bigsize_def read_bigsize_def ucast_down_up)
  next
    case b
    then have "253 \<le> unat x" "unat x < 2 ^ 16" by (simp_all add: word_le_nat_alt)
    moreover from this have "\<not> (ucast x :: u16) < 0xFD"
      by (simp add: word_less_nat_alt unsigned_ucast_eq take_bit_nat_eq_self)
    ultimately show ?thesis using b by (simp add: write_bigsize_def read_bigsize_def ucast_down_up)
  next
    case c
    then have "65536 \<le> unat x" "unat x < 2 ^ 32" by (simp_all add: word_le_nat_alt)
    moreover from this have "\<not> (ucast x :: u32) < 0x10000"
      by (simp add: word_less_nat_alt unsigned_ucast_eq take_bit_nat_eq_self)
    moreover have "\<not> x \<le> 0xFC" using calculation(1) by (simp add: word_le_nat_alt)
    ultimately show ?thesis using c by (simp add: write_bigsize_def read_bigsize_def ucast_down_up)
  next
    case d
    then have "4294967296 \<le> unat x" by (simp add: word_le_nat_alt)
    then have "\<not> x < 0x100000000" "\<not> x \<le> 0xFC" "\<not> x \<le> 0xFFFF"
      by (simp_all add: word_less_nat_alt word_le_nat_alt)
    then show ?thesis using d by (simp add: write_bigsize_def read_bigsize_def)
  qed
qed

lemma read_be_inv:
  "read_be n r = Ok (x :: 'a::len word, r') \<Longrightarrow> 8 * n \<le> LENGTH('a) \<Longrightarrow> r = be_bytes n x @ r'"
  by (auto simp: read_be_def map_ok_Ok_iff be_bytes_from_be dest!: read_exact_shorter)

lemma ucast_up_bound: "unat (ucast (y :: 'a::len word) :: u64) < 2 ^ LENGTH('a)" if "LENGTH('a) \<le> 64"
  using that unat_ucast_up [where 'a = 'a and 'b = 64, of y] unsigned_less [of y] by simp

lemma bigsize_canonical:
  assumes "read_bigsize r = Ok (x, r')"
  shows "r = write_bigsize x @ r'"
proof -
  obtain n r1 where n: "r = n # r1" using assms by (cases r) (simp_all add: read_bigsize_def)
  note up = unat_ucast_up word_le_nat_alt word_less_nat_alt
  consider "n = 0xFF" | "n = 0xFE" | "n = 0xFD" | "n \<noteq> 0xFF" "n \<noteq> 0xFE" "n \<noteq> 0xFD" by blast
  then show ?thesis
  proof cases
    case 1
    then have "read_u64 r1 = Ok (x, r')" "\<not> x < 0x100000000"
      using assms n by (auto simp: read_bigsize_def and_then_Ok_iff split: if_splits)
    moreover from this(2) have "\<not> x \<le> 0xFC" "\<not> x \<le> 0xFFFF" "\<not> x \<le> 0xFFFFFFFF" by (simp_all add: up)
    ultimately show ?thesis using n 1 by (auto simp: write_bigsize_def dest: read_be_inv)
  next
    case 2
    then obtain y where y: "read_u32 r1 = Ok (y, r')" "\<not> y < 0x10000" "x = ucast y"
      using assms n by (auto simp: read_bigsize_def and_then_Ok_iff split: if_splits)
    then have "65536 \<le> unat x" "unat x < 2 ^ 32" using ucast_up_bound [of y] by (simp_all add: up)
    then have "\<not> x \<le> 0xFC" "\<not> x \<le> 0xFFFF" "x \<le> 0xFFFFFFFF" by (simp_all add: word_le_nat_alt)
    moreover have "(ucast x :: u32) = y" using y(3) by (simp add: ucast_up_down)
    ultimately show ?thesis using n 2 y(1) by (auto simp: write_bigsize_def dest: read_be_inv)
  next
    case 3
    then obtain y where y: "read_u16 r1 = Ok (y, r')" "\<not> y < 0xFD" "x = ucast y"
      using assms n by (auto simp: read_bigsize_def and_then_Ok_iff split: if_splits)
    then have "253 \<le> unat x" "unat x < 2 ^ 16" using ucast_up_bound [of y] by (simp_all add: up)
    then have "\<not> x \<le> 0xFC" "x \<le> 0xFFFF" by (simp_all add: word_le_nat_alt)
    moreover have "(ucast x :: u16) = y" using y(3) by (simp add: ucast_up_down)
    ultimately show ?thesis using n 3 y(1) by (auto simp: write_bigsize_def dest: read_be_inv)
  next
    case 4
    then have x: "x = ucast n" "r' = r1" using assms n by (simp_all add: read_bigsize_def)
    have "unat n \<noteq> 255" "unat n \<noteq> 254" "unat n \<noteq> 253" using 4 by (simp_all add: word_unat_eq_iff)
    then have "unat n \<le> 252" using unat_of_u8_bound [of n] by linarith
    then have "x \<le> 0xFC" by (simp add: x up)
    moreover have "(ucast x :: u8) = n" by (simp add: x ucast_up_down)
    ultimately show ?thesis using n x by (simp add: write_bigsize_def)
  qed
qed

lemma from_be_zeros: "from_be (replicate k 0 @ bs) = (from_be bs :: 'a::len word)"
proof (induction bs rule: rev_induct)
  case Nil
  have "from_be (replicate k 0) = (0 :: 'a word)"
  proof (induction k)
    case (Suc k)
    have "replicate (Suc k) 0 = replicate k 0 @ [0 :: u8]" by (simp add: replicate_append_same)
    with Suc show ?case by (simp only: from_be_snoc) simp
  qed simp
  then show ?case by simp
next
  case (snoc b bs)
  then show ?case by (simp flip: append_assoc)
qed

lemma dropWhile_zeros: "\<exists>k. bs = replicate k 0 @ dropWhile (\<lambda>b. b = 0) (bs :: bytes)"
  by (induction bs) (auto intro: exI [of _ "Suc _"] exI [of _ 0])

lemma hzbd_round_trip:
  fixes w :: "'a::len word"
  assumes "LENGTH('a) \<le> 8 * n"
  shows "read_hzbd n (write_hzbd n w) = Ok (w, [])"
proof -
  let ?b = "write_hzbd n w"
  obtain k where k: "be_bytes n w = replicate k 0 @ ?b"
    using dropWhile_zeros unfolding write_hzbd_def by blast
  then have len: "length ?b \<le> n" by (metis length_append length_be_bytes le_add2)
  moreover have "?b = [] \<or> hd ?b \<noteq> 0" using hd_dropWhile [of "\<lambda>b. b = 0" "be_bytes n w"] by (auto simp: write_hzbd_def)
  moreover have "from_be ?b = w"
    using k assms by (metis from_be_bytes_full from_be_zeros)
  ultimately show ?thesis by (simp add: read_hzbd_def Let_def from_be_zeros)
qed

lemma hzbd_canonical:
  fixes w :: "'a::len word"
  assumes "read_hzbd n r = Ok (w, [])" "LENGTH('a) = 8 * n"
  shows "r = write_hzbd n w"
proof -
  have len: "length r \<le> n" and r: "r = [] \<or> hd r \<noteq> 0"
    and w: "w = from_be (replicate (n - length r) 0 @ r)"
    using assms(1) by (auto simp: read_hzbd_def Let_def split: if_splits)
  have "be_bytes n w = replicate (n - length r) 0 @ r"
    using be_bytes_from_be [where 'a = 'a, of "replicate (n - length r) 0 @ r"] assms(2) len w by simp
  moreover have "dropWhile (\<lambda>b. b = 0) (replicate k 0 @ r) = r" for k
  proof (induction k)
    case 0
    show ?case using r by (cases r) auto
  qed simp
  ultimately show ?thesis by (simp add: write_hzbd_def)
qed

text \<open>One record at the front of a stream.\<close>

lemma decode_tlv_known:
  assumes "find (\<lambda>f. tf_type f = typ) flds = Some f" "case lst of None \<Rightarrow> True | Some t \<Rightarrow> t < typ"
    and "\<forall>g\<in>set flds. skipped lst g \<longrightarrow> typ \<le> tf_type g"
    and "length b < 2 ^ 64" "tf_read f b s = Ok (s', [])"
  shows "decode_tlv_stream flds lst s (encode_tlv typ b @ r) = decode_tlv_stream flds (Some typ) s' r"
proof -
  have ne: "encode_tlv typ b @ r \<noteq> []" by (simp add: encode_tlv_def write_bigsize_def)
  have "unat (word_of_nat (length b) :: u64) = length b" using assms(4) by (simp add: unat_of_nat take_bit_nat_eq_self)
  then show ?thesis
    using assms ne bigsize_round_trip
    by (subst decode_tlv_stream.simps) (auto simp: encode_tlv_def Let_def split: option.splits)
qed

lemma decode_tlv_end:
  "\<forall>g\<in>set flds. \<not> skipped lst g \<Longrightarrow> decode_tlv_stream flds lst s [] = Ok s"
  by (subst decode_tlv_stream.simps) simp

section \<open>Properties\<close>

text \<open>
  Variable-length integers have one encoding: a written \<open>BigSize\<close> is read back, whatever follows it,
  and every accepted input is the one that would be written; an integer with its high zero bytes dropped
  and ending the input likewise.
\<close>

theorem integers_canonical:
  "(read_bigsize r = Ok (x, r') \<longleftrightarrow> r = write_bigsize x @ r') \<and>
   (read_hzbd 8 r = Ok (w :: u64, []) \<longleftrightarrow> r = write_hzbd 8 w) \<and>
   (read_hzbd 4 r = Ok (v :: u32, []) \<longleftrightarrow> r = write_hzbd 4 v)"
  using bigsize_round_trip bigsize_canonical hzbd_round_trip [of 8 w] hzbd_canonical [of 8 r w]
    hzbd_round_trip [of 4 v] hzbd_canonical [of 4 r v] by auto

end
