(* ===== verification/Keystream.thy ===== *)
theory Keystream
  imports ChaCha20
begin

text \<open>
  The cipher seen as a stream: with a 32-byte key and the zero nonce, byte \<open>i\<close> of whatever is processed is
  combined with byte \<open>i\<close> of one keystream, however the processing is cut into calls. This is the view the
  onion packets and their filler rest on.
\<close>

section \<open>Definitions\<close>

definition keystream :: "bytes \<Rightarrow> nat \<Rightarrow> u8" where
  "keystream key n = (case chacha_crypt key (replicate (Suc n) 0) of Ok z \<Rightarrow> z ! n | _ \<Rightarrow> 0)"

definition xor_at :: "bytes \<Rightarrow> nat \<Rightarrow> bytes \<Rightarrow> bytes" where
  "xor_at key k xs = map (\<lambda>i. xs ! i XOR keystream key (k + i)) [0..<length xs]"

text \<open>A cipher that has processed \<open>k\<close> bytes.\<close>

definition stream_at :: "bytes \<Rightarrow> nat \<Rightarrow> ChaCha20 \<Rightarrow> bool" where
  "stream_at key k c \<longleftrightarrow>
     (\<exists>c0 z. chacha_new key (replicate 8 0) = Ok c0 \<and> process c0 (replicate k 0) = Ok (c, z))"

section \<open>Lemmas\<close>

lemma length_xor_at [simp]: "length (xor_at key k xs) = length xs"
  by (simp add: xor_at_def)

lemma nth_xor_at: "i < length xs \<Longrightarrow> xor_at key k xs ! i = xs ! i XOR keystream key (k + i)"
  by (simp add: xor_at_def)

lemma xor_at_Nil [simp]: "xor_at key k [] = []"
  by (simp add: xor_at_def)

lemma xor_at_append: "xor_at key k (xs @ ys) = xor_at key k xs @ xor_at key (k + length xs) ys"
  by (intro nth_equalityI) (auto simp: nth_xor_at nth_append add.assoc)

lemma xor_at_Cons: "xor_at key k (x # xs) = (x XOR keystream key k) # xor_at key (Suc k) xs"
  using xor_at_append [of key k "[x]" xs] by (simp add: xor_at_def)

lemma xor_at_twice [simp]: "xor_at key k (xor_at key k xs) = xs"
  by (intro nth_equalityI) (simp_all add: nth_xor_at xor.assoc)

lemma take_xor_at: "take n (xor_at key k xs) = xor_at key k (take n xs)"
  by (intro nth_equalityI) (simp_all add: nth_xor_at)

lemma drop_xor_at: "drop n (xor_at key k xs) = xor_at key (k + n) (drop n xs)"
  by (cases "n \<le> length xs") (auto intro!: nth_equalityI simp: nth_xor_at add.assoc)

lemma new_stream_at: "chacha_new key (replicate 8 0) = Ok c \<Longrightarrow> stream_at key 0 c"
  by (auto simp: stream_at_def)

lemma stream_at_ok: "stream_at key k c \<Longrightarrow> cc_ok c"
proof -
  assume "stream_at key k c"
  then obtain c0 z where c0: "chacha_new key (replicate 8 0) = Ok c0" "process c0 (replicate k 0) = Ok (c, z)"
    by (auto simp: stream_at_def)
  from process_involution [OF c0(2) new_ok [OF c0(1)]] show "cc_ok c" by simp
qed

lemma process_single:
  assumes "cc_ok c" "process c [x0] = Ok r"
  shows "\<exists>c' b. \<forall>x. process c [x] = Ok (c', [x XOR b])"
proof -
  obtain c1 where c1: "refill c = Ok c1"
    using assms(2) by (cases "refill c") (auto simp: process.simps [of c "[x0]"])
  have "take (Suc 0) (drop (cc_offset c1) (cc_output c1)) = [cc_output c1 ! cc_offset c1]"
    using refill_ok [OF assms(1) c1] refill_offset [OF c1] by (simp add: Cons_nth_drop_Suc [symmetric] cc_ok_def)
  then have "process c [x] = Ok (c1\<lparr>cc_offset := Suc (cc_offset c1)\<rparr>, [x XOR cc_output c1 ! cc_offset c1])" for x
    using c1 refill_offset [OF c1] by (simp add: process.simps [of c "[x]"] Let_def xor_bytes_def)
  then show ?thesis by blast
qed

lemma stream_next_byte:
  assumes at: "stream_at key k c" and key: "length key = 32" and k: "k < chacha_max"
  shows "\<exists>c'. stream_at key (Suc k) c' \<and> (\<forall>x. process c [x] = Ok (c', [x XOR keystream key k]))"
proof -
  obtain c0 z where c0: "chacha_new key (replicate 8 0) = Ok c0" "process c0 (replicate k 0) = Ok (c, z)"
    using at by (auto simp: stream_at_def)
  then have ok0: "cc_ok c0" and b0: "budget c0 = chacha_max"
    using new_ok chacha_new_zero_nonce [OF key] by (auto simp: chacha_max_def)
  have z: "length z = k" using process_involution [OF c0(2) ok0] by simp
  have split: "process c0 (replicate (Suc k) 0) = map_ok (\<lambda>(c2, b). (c2, z @ b)) (process c [0])"
    using process_append [OF ok0, of "replicate k 0" "[0]"] c0(2) by (simp add: replicate_append_same)
  obtain c1 y where y: "process c0 (replicate (Suc k) 0) = Ok (c1, y)"
    using process_total [OF ok0, of "replicate (Suc k) 0"] b0 k by auto
  then obtain r where "process c [0] = Ok r" using split by (cases "process c [0]") auto
  from process_single [OF stream_at_ok [OF at] this]
  obtain c' b where b: "\<And>x. process c [x] = Ok (c', [x XOR b])" by blast
  have "c1 = c'" "y = z @ [b]" using y split b [of 0] by simp_all
  then have "stream_at key (Suc k) c'" using c0(1) y by (auto simp: stream_at_def)
  moreover have "keystream key k = b"
    using y \<open>y = z @ [b]\<close> z c0(1) by (simp add: keystream_def chacha_crypt_def nth_append)
  ultimately show ?thesis using b by blast
qed

lemma process_stream:
  assumes "stream_at key k c" "length key = 32" "k + length xs \<le> chacha_max"
  shows "\<exists>c'. process c xs = Ok (c', xor_at key k xs) \<and> stream_at key (k + length xs) c'"
  using assms
proof (induction xs arbitrary: k c)
  case (Cons x xs)
  then obtain c1 where c1: "stream_at key (Suc k) c1" "process c [x] = Ok (c1, [x XOR keystream key k])"
    using stream_next_byte [OF Cons.prems(1,2)] by auto
  with Cons.IH [OF c1(1) Cons.prems(2)] Cons.prems(3) obtain c'
    where "process c1 xs = Ok (c', xor_at key (Suc k) xs)" "stream_at key (Suc k + length xs) c'" by auto
  with c1 process_Cons [OF stream_at_ok [OF Cons.prems(1)], of x xs] show ?case
    by (simp add: xor_at_Cons)
qed auto

lemma process_in_place_stream:
  assumes "stream_at key k c" "length key = 32" "k + length xs \<le> chacha_max"
  shows "\<exists>c'. process_in_place c xs = Ok (c', xor_at key k xs) \<and> stream_at key (k + length xs) c'"
  unfolding process_in_place_eq [OF stream_at_ok [OF assms(1)]] by (rule process_stream [OF assms])

lemma fresh_stream: "length key = 32 \<Longrightarrow> \<exists>c. chacha_new key (replicate 8 0) = Ok c \<and> stream_at key 0 c"
  using chacha_new_zero_nonce [of key] new_stream_at by blast

end
