(* ===== verification/Onion_Packet.thy ===== *)
theory Onion_Packet
  imports Onion_Failure Serialization Keystream
begin

text \<open>
  The outgoing onion (\<open>lightning/src/ln/onion_utils.rs\<close>, \<open>msgs.rs\<close>): how a hop's payload is written and
  read, how the sender wraps the payloads into one packet of 1300 bytes, and how a node takes off its layer
  and makes the packet for the next one. The library's Bitcoin \<open>VarInt\<close> reader is a parameter.
\<close>

section \<open>Payloads on the wire\<close>

definition MAX_VALUE_MSAT :: u64 where "MAX_VALUE_MSAT = 2100000000000000000"

definition write_final_onion_hop_data :: "bytes \<times> u64 \<Rightarrow> bytes" where
  "write_final_onion_hop_data d = fst d @ write_hzbd 8 (snd d)"

definition read_final_onion_hop_data :: "bytes \<Rightarrow> (bytes \<times> u64) parsed" where
  "read_final_onion_hop_data r =
     and_then (read_exact 32 r) (\<lambda>(secret, r1).
       map_ok (\<lambda>(amt, r2). ((secret, amt), r2)) (read_hzbd 8 r1))"

definition write_onion_hop_data :: "OnionHopData \<Rightarrow> bytes" where
  "write_onion_hop_data h =
     (case hop_format h of
        Legacy scid \<Rightarrow>
          0 # be_bytes 8 scid @ be_bytes 8 (amt_to_forward h) @
          be_bytes 4 (outgoing_cltv_value h) @ replicate 12 0
      | NonFinalNode scid \<Rightarrow>
          encode_varint_length_prefixed_tlv
            [encode_tlv 2 (write_hzbd 8 (amt_to_forward h)), encode_tlv 4 (write_hzbd 4 (outgoing_cltv_value h)),
             encode_tlv 6 (be_bytes 8 scid)]
      | FinalNode payment_data keysend_preimage \<Rightarrow>
          encode_varint_length_prefixed_tlv
            [encode_tlv 2 (write_hzbd 8 (amt_to_forward h)), encode_tlv 4 (write_hzbd 4 (outgoing_cltv_value h)),
             encode_tlv_option 8 (map_option write_final_onion_hop_data payment_data),
             encode_tlv_option 5482373484 keysend_preimage])"

record hop_tlvs =
  ht_amt :: u64
  ht_cltv_value :: u32
  ht_short_id :: "u64 option"
  ht_payment_data :: "(bytes \<times> u64) option"
  ht_keysend_preimage :: "bytes option"

definition amt_field :: "hop_tlvs tlv_field" where
  "amt_field = \<lparr>tf_type = 2, tf_required = True,
     tf_read = \<lambda>r s. map_ok (\<lambda>(v, r'). (s\<lparr>ht_amt := v\<rparr>, r')) (read_hzbd 8 r)\<rparr>"

definition cltv_field :: "hop_tlvs tlv_field" where
  "cltv_field = \<lparr>tf_type = 4, tf_required = True,
     tf_read = \<lambda>r s. map_ok (\<lambda>(v, r'). (s\<lparr>ht_cltv_value := v\<rparr>, r')) (read_hzbd 4 r)\<rparr>"

definition short_id_field :: "hop_tlvs tlv_field" where
  "short_id_field = \<lparr>tf_type = 6, tf_required = False,
     tf_read = \<lambda>r s. map_ok (\<lambda>(v, r'). (s\<lparr>ht_short_id := Some v\<rparr>, r')) (read_be 8 r)\<rparr>"

definition payment_data_field :: "hop_tlvs tlv_field" where
  "payment_data_field = \<lparr>tf_type = 8, tf_required = False,
     tf_read = \<lambda>r s. map_ok (\<lambda>(v, r'). (s\<lparr>ht_payment_data := Some v\<rparr>, r')) (read_final_onion_hop_data r)\<rparr>"

definition preimage_field :: "hop_tlvs tlv_field" where
  "preimage_field = \<lparr>tf_type = 5482373484, tf_required = False,
     tf_read = \<lambda>r s. map_ok (\<lambda>(v, r'). (s\<lparr>ht_keysend_preimage := Some v\<rparr>, r')) (read_exact 32 r)\<rparr>"

lemmas hop_field_defs = amt_field_def cltv_field_def short_id_field_def payment_data_field_def preimage_field_def

definition hop_tlv_fields :: "hop_tlvs tlv_field list" where
  "hop_tlv_fields = [amt_field, cltv_field, short_id_field, payment_data_field, preimage_field]"

definition no_hop_tlvs :: hop_tlvs where
  "no_hop_tlvs = \<lparr>ht_amt = 0, ht_cltv_value = 0, ht_short_id = None, ht_payment_data = None, ht_keysend_preimage = None\<rparr>"

definition hop_format_of :: "hop_tlvs \<Rightarrow> (DecodeError, OnionHopDataFormat) outcome" where
  "hop_format_of t =
     (case ht_short_id t of
        Some scid \<Rightarrow>
          if ht_payment_data t \<noteq> None then Err InvalidValue else Ok (NonFinalNode scid)
      | None \<Rightarrow>
          if (case ht_payment_data t of None \<Rightarrow> False | Some d \<Rightarrow> snd d > MAX_VALUE_MSAT) then Err InvalidValue
          else Ok (FinalNode (ht_payment_data t) (ht_keysend_preimage t)))"

text \<open>The TLV branch; the inner reader sees at most the announced length.\<close>

definition read_hop_tlvs :: "u64 \<Rightarrow> bytes \<Rightarrow> (OnionHopDataFormat \<times> u64 \<times> u32) parsed" where
  "read_hop_tlvs v r =
     and_then (decode_tlv_stream hop_tlv_fields None no_hop_tlvs (take (unat v) r)) (\<lambda>t.
       if length r < unat v then Err ShortRead
       else map_ok (\<lambda>f. ((f, ht_amt t, ht_cltv_value t), drop (unat v) r)) (hop_format_of t))"

definition read_hop_legacy :: "bytes \<Rightarrow> (OnionHopDataFormat \<times> u64 \<times> u32) parsed" where
  "read_hop_legacy r =
     and_then (read_be 8 r) (\<lambda>(scid, r1).
       and_then (read_be 8 r1) (\<lambda>(amt, r2).
         and_then (read_be 4 r2) (\<lambda>(cltv_value, r3).
           map_ok (\<lambda>(_, r4). ((Legacy scid, amt, cltv_value), r4)) (read_exact 12 r3))))"

definition read_onion_hop_data :: "(bytes \<Rightarrow> u64 parsed) \<Rightarrow> bytes \<Rightarrow> OnionHopData parsed" where
  "read_onion_hop_data read_varint r =
     and_then (read_varint r) (\<lambda>(v, r1).
       and_then (if v \<noteq> 0 then read_hop_tlvs v r1 else read_hop_legacy r1) (\<lambda>((fmt, amt, cltv_value), r2).
         if amt > MAX_VALUE_MSAT then Err InvalidValue
         else Ok (\<lparr>hop_format = fmt, amt_to_forward = amt, outgoing_cltv_value = cltv_value\<rparr>, r2)))"

section \<open>Building the packet\<close>

definition ONION_DATA_LEN :: nat where "ONION_DATA_LEN = 20 * 65"

fun size_insane_loop :: "nat \<Rightarrow> bytes list \<Rightarrow> (unit, bool) outcome" where
  "size_insane_loop len [] = Ok False"
| "size_insane_loop len (p # ps) =
     (if \<not> length p + 32 < ONION_DATA_LEN then Panic
      else if len + (length p + 32) > ONION_DATA_LEN then Ok True
      else size_insane_loop (len + (length p + 32)) ps)"

definition route_size_insane :: "OnionHopData list \<Rightarrow> (unit, bool) outcome" where
  "route_size_insane payloads = size_insane_loop 0 (map write_onion_hop_data payloads)"

text \<open>Panics where the source indexes out of its array.\<close>

definition shift_arr_right :: "bytes \<Rightarrow> nat \<Rightarrow> (unit, bytes) outcome" where
  "shift_arr_right arr amt =
     (if amt \<le> ONION_DATA_LEN then Ok (replicate amt 0 @ take (ONION_DATA_LEN - amt) arr) else Panic)"

text \<open>Discarding keystream one byte at a time.\<close>

fun skip_bytes :: "ChaCha20 \<Rightarrow> nat \<Rightarrow> (unit, ChaCha20) outcome" where
  "skip_bytes c 0 = Ok c"
| "skip_bytes c (Suc n) = and_then (process_in_place c [0]) (\<lambda>(c', _). skip_bytes c' n)"

definition resize :: "bytes \<Rightarrow> nat \<Rightarrow> bytes" where
  "resize v n = take n v @ replicate (n - length v) 0"

fun filler_loop :: "nat \<Rightarrow> nat \<Rightarrow> nat \<Rightarrow> bytes \<Rightarrow> (bytes \<times> OnionKeys) list \<Rightarrow> (unit, bytes) outcome" where
  "filler_loop count i pos res [] = Ok res"
| "filler_loop count i pos res ((payload, keys) # rest) =
     (if i = count - 1 then Ok res
      else and_then (chacha_new (rho keys) (replicate 8 0)) (\<lambda>c.
        and_then (skip_bytes c (ONION_DATA_LEN - pos)) (\<lambda>c1.
          let pos' = pos + (length payload + 32) in
          if \<not> pos' \<le> ONION_DATA_LEN then Panic
          else and_then (process_in_place c1 (resize res pos')) (\<lambda>(_, res').
            filler_loop count (Suc i) pos' res' rest))))"

text \<open>The loop over the hops from the last to the first; \<open>innermost\<close> is the source's \<open>i == 0\<close>.\<close>

fun layer_loop ::
  "'sk crypto \<Rightarrow> bytes \<Rightarrow> bytes \<Rightarrow> bool \<Rightarrow> bytes \<Rightarrow> bytes \<Rightarrow> (bytes \<times> OnionKeys) list \<Rightarrow> (unit, bytes \<times> bytes) outcome" where
  "layer_loop cr filler assoc innermost packet_data hmac_res [] = Ok (packet_data, hmac_res)"
| "layer_loop cr filler assoc innermost packet_data hmac_res ((payload, keys) # rest) =
     and_then (shift_arr_right packet_data (length payload + 32)) (\<lambda>shifted.
       let d = payload @ hmac_res @ drop (length payload + 32) shifted in
       and_then (chacha_new (rho keys) (replicate 8 0)) (\<lambda>c.
         and_then (process_in_place c d) (\<lambda>(_, d1).
           let d2 = (if innermost then take (ONION_DATA_LEN - length filler) d1 @ filler else d1) in
           layer_loop cr filler assoc False d2 (hmac_sha256 cr (mu keys) (d2 @ assoc)) rest)))"

record OnionPacket =
  op_version :: u8
  op_public_key :: bytes
  op_hop_data :: bytes
  op_hmac :: bytes

definition construct_onion_packet_with_init_noise ::
  "'sk crypto \<Rightarrow> bytes list \<Rightarrow> OnionKeys list \<Rightarrow> bytes \<Rightarrow> bytes \<Rightarrow> (unit, OnionPacket) outcome" where
  "construct_onion_packet_with_init_noise cr payloads onion_keys packet_data associated_data =
     (if payloads = [] then Panic
      else and_then (filler_loop (length payloads) 0 0 [] (zip payloads onion_keys)) (\<lambda>filler.
        and_then (layer_loop cr filler associated_data True packet_data (replicate 32 0)
            (rev (zip payloads onion_keys))) (\<lambda>(d, hmac_res).
          if onion_keys = [] then Panic
          else Ok \<lparr>op_version = 0, op_public_key = ephemeral_pubkey (hd onion_keys),
                   op_hop_data = d, op_hmac = hmac_res\<rparr>)))"

definition construct_onion_packet ::
  "'sk crypto \<Rightarrow> OnionHopData list \<Rightarrow> OnionKeys list \<Rightarrow> bytes \<Rightarrow> bytes \<Rightarrow> (unit, OnionPacket) outcome" where
  "construct_onion_packet cr payloads onion_keys prng_seed associated_data =
     and_then (chacha_new prng_seed (replicate 8 0)) (\<lambda>c.
       and_then (process c (replicate ONION_DATA_LEN 0)) (\<lambda>(_, packet_data).
         construct_onion_packet_with_init_noise cr (map write_onion_hop_data payloads) onion_keys packet_data associated_data))"

section \<open>Taking off a layer\<close>

datatype Hop =
    Receive OnionHopData
  | Forward OnionHopData bytes bytes

datatype OnionDecodeErr =
    Malformed u16
  | Relay u16

definition onion_decode_code :: "DecodeError \<Rightarrow> u16" where
  "onion_decode_code err =
     (case err of
        UnknownVersion \<Rightarrow> 0x4000 OR 1
      | UnknownRequiredFeature \<Rightarrow> 0x4000 OR 22
      | InvalidValue \<Rightarrow> 0x4000 OR 22
      | ShortRead \<Rightarrow> 0x4000 OR 22
      | _ \<Rightarrow> 0x2000 OR 2)"

fun relay_error :: "(unit, 'a) outcome \<Rightarrow> (OnionDecodeErr, 'a) outcome" where
  "relay_error (Ok a) = Ok a"
| "relay_error (Err e) = Panic"
| "relay_error Panic = Panic"

text \<open>
  The reader that decrypts as it goes yields the decrypted bytes in order, so the packet is decrypted
  first here; the filling of the forwarded packet continues with the same cipher.
\<close>

definition decode_next_hop ::
  "'sk crypto \<Rightarrow> (bytes \<Rightarrow> u64 parsed) \<Rightarrow> bytes \<Rightarrow> bytes \<Rightarrow> bytes \<Rightarrow> bytes \<Rightarrow> (OnionDecodeErr, Hop) outcome" where
  "decode_next_hop cr read_varint shared_secret hop_data hmac_bytes payment_hash =
     and_then (relay_error (gen_rho_mu_from_shared_secret cr shared_secret)) (\<lambda>(key, m).
       if hmac_sha256 cr m (hop_data @ payment_hash) \<noteq> hmac_bytes then Err (Malformed (0x8000 OR 0x4000 OR 5))
       else and_then (relay_error (chacha_new key (replicate 8 0))) (\<lambda>c.
         and_then (relay_error (process_in_place c hop_data)) (\<lambda>(c1, plain).
           case read_onion_hop_data read_varint plain of
             Panic \<Rightarrow> Panic
           | Err err \<Rightarrow> Err (Relay (onion_decode_code err))
           | Ok (msg, r) \<Rightarrow>
               if length r < 32 then Err (Relay (0x4000 OR 22))
               else let hmac = take 32 r; r1 = drop 32 r in
                 if hmac = replicate 32 0 then Ok (Receive msg)
                 else let new_bytes = take ONION_DATA_LEN r1 in
                   map_ok (\<lambda>(_, tail). Forward msg hmac (new_bytes @ tail))
                     (relay_error (process_in_place c1 (replicate (ONION_DATA_LEN - length new_bytes) 0))))))"

section \<open>Payloads are read as they were written\<close>

definition varint_ok :: "(bytes \<Rightarrow> u64 parsed) \<Rightarrow> bool" where
  "varint_ok read_varint \<longleftrightarrow> (\<forall>n r. n < 0xFD \<longrightarrow> read_varint (n # r) = Ok (ucast n, r))"

fun format_ok :: "OnionHopDataFormat \<Rightarrow> bool" where
  "format_ok (FinalNode payment_data keysend_preimage) =
     ((case payment_data of None \<Rightarrow> True | Some d \<Rightarrow> length (fst d) = 32 \<and> snd d \<le> MAX_VALUE_MSAT) \<and>
      (case keysend_preimage of None \<Rightarrow> True | Some k \<Rightarrow> length k = 32))"
| "format_ok _ = True"

definition payload_ok :: "OnionHopData \<Rightarrow> bool" where
  "payload_ok h \<longleftrightarrow> amt_to_forward h \<le> MAX_VALUE_MSAT \<and> format_ok (hop_format h)"

lemma length_write_hzbd: "length (write_hzbd n w) \<le> n"
  unfolding write_hzbd_def by (metis length_be_bytes length_dropWhile_le)

lemma hop_field_lookup [simp]:
  "find (\<lambda>f. tf_type f = 2) hop_tlv_fields = Some (amt_field)"
  "find (\<lambda>f. tf_type f = 4) hop_tlv_fields = Some (cltv_field)"
  "find (\<lambda>f. tf_type f = 6) hop_tlv_fields = Some (short_id_field)"
  "find (\<lambda>f. tf_type f = 8) hop_tlv_fields = Some (payment_data_field)"
  "find (\<lambda>f. tf_type f = 5482373484) hop_tlv_fields = Some (preimage_field)"
  by (simp_all add: hop_tlv_fields_def hop_field_defs)

lemma hop_field_reads [simp]:
  "tf_read (amt_field) r s = map_ok (\<lambda>(v, r'). (s\<lparr>ht_amt := v\<rparr>, r')) (read_hzbd 8 r)"
  "tf_read (cltv_field) r s = map_ok (\<lambda>(v, r'). (s\<lparr>ht_cltv_value := v\<rparr>, r')) (read_hzbd 4 r)"
  "tf_read (short_id_field) r s = map_ok (\<lambda>(v, r'). (s\<lparr>ht_short_id := Some v\<rparr>, r')) (read_be 8 r)"
  "tf_read (payment_data_field) r s = map_ok (\<lambda>(v, r'). (s\<lparr>ht_payment_data := Some v\<rparr>, r')) (read_final_onion_hop_data r)"
  "tf_read (preimage_field) r s = map_ok (\<lambda>(v, r'). (s\<lparr>ht_keysend_preimage := Some v\<rparr>, r')) (read_exact 32 r)"
  by (simp_all add: hop_tlv_fields_def hop_field_defs)

lemma hop_fields_skipped [simp]:
  "(\<forall>g\<in>set hop_tlv_fields. skipped None g \<longrightarrow> 2 \<le> tf_type g)"
  "(\<forall>g\<in>set hop_tlv_fields. skipped (Some 2) g \<longrightarrow> 4 \<le> tf_type g)"
  "4 \<le> t \<Longrightarrow> g \<in> set hop_tlv_fields \<Longrightarrow> \<not> skipped (Some t) g"
  by (auto simp: hop_tlv_fields_def hop_field_defs skipped_def word_less_nat_alt word_le_nat_alt)

lemma final_data_round_trip:
  "length (fst d) = 32 \<Longrightarrow> read_final_onion_hop_data (write_final_onion_hop_data d) = Ok (d, [])"
  by (simp add: read_final_onion_hop_data_def write_final_onion_hop_data_def hzbd_round_trip)

lemma decode_amounts:
  "decode_tlv_stream hop_tlv_fields None s (encode_tlv 2 (write_hzbd 8 a) @ encode_tlv 4 (write_hzbd 4 c) @ r) =
   decode_tlv_stream hop_tlv_fields (Some 4) (s\<lparr>ht_amt := a, ht_cltv_value := c\<rparr>) r"
proof -
  have "length (write_hzbd 8 a) < 2 ^ 64" "length (write_hzbd 4 c) < 2 ^ 64"
    using length_write_hzbd [of 8 a] length_write_hzbd [of 4 c] by simp_all
  then show ?thesis
    by (subst decode_tlv_known [where f = amt_field and s' = "s\<lparr>ht_amt := a\<rparr>"])
       (simp_all add: decode_tlv_known hzbd_round_trip)
qed

lemma decode_optional:
  assumes "format_ok (FinalNode d k)"
  shows "decode_tlv_stream hop_tlv_fields (Some 4) s
      (encode_tlv_option 8 (map_option write_final_onion_hop_data d) @ encode_tlv_option 5482373484 k) =
    Ok (s\<lparr>ht_payment_data := (case d of None \<Rightarrow> ht_payment_data s | _ \<Rightarrow> d),
          ht_keysend_preimage := (case k of None \<Rightarrow> ht_keysend_preimage s | _ \<Rightarrow> k)\<rparr>)"
proof -
  have pre: "decode_tlv_stream hop_tlv_fields (Some t) s' (encode_tlv_option 5482373484 k) =
      Ok (s'\<lparr>ht_keysend_preimage := (case k of None \<Rightarrow> ht_keysend_preimage s' | _ \<Rightarrow> k)\<rparr>)"
    if "4 \<le> t" "t < 5482373484" for t s'
    using that assms decode_tlv_known [of 5482373484 hop_tlv_fields "preimage_field" "Some t" "the k" s' _ "[]"]
    by (cases k) (simp_all add: encode_tlv_option_def decode_tlv_end read_exact_def)
  show ?thesis
  proof (cases d)
    case (Some e)
    then have e: "length (fst e) = 32" using assms by simp
    then have "length (write_final_onion_hop_data e) < 2 ^ 64"
      using length_write_hzbd [of 8 "snd e"] by (simp add: write_final_onion_hop_data_def)
    with Some e pre [of 8 "s\<lparr>ht_payment_data := Some e\<rparr>"] show ?thesis
      by (simp add: encode_tlv_option_def [of 8] decode_tlv_known final_data_round_trip split: option.splits)
  qed (simp add: pre encode_tlv_option_def [of 8])
qed

lemma write_small_bigsize: "n \<le> 252 \<Longrightarrow> write_bigsize (word_of_nat n) = [word_of_nat n]"
proof -
  assume "n \<le> 252"
  then have "unat (word_of_nat n :: u64) = n" "unat (word_of_nat n :: u8) = n"
    by (simp_all add: unat_of_nat take_bit_nat_eq_self)
  moreover from this \<open>n \<le> 252\<close> have "(ucast (word_of_nat n :: u64) :: u8) = word_of_nat n"
    by (simp add: word_unat_eq_iff unsigned_ucast_eq take_bit_nat_eq_self)
  ultimately show ?thesis using \<open>n \<le> 252\<close> by (simp add: write_bigsize_def word_le_nat_alt)
qed

lemma length_write_bigsize: "length (write_bigsize x) \<le> 9" "write_bigsize x \<noteq> []"
  by (simp_all add: write_bigsize_def)

lemma length_encode_tlv: "length (encode_tlv t b) \<le> 18 + length b" "encode_tlv t b \<noteq> []"
  using length_write_bigsize [of t] length_write_bigsize [of "word_of_nat (length b)"]
  by (simp_all add: encode_tlv_def)

lemma read_tlv_payload:
  assumes "varint_ok rv" "encode_varint_length_prefixed_tlv tlvs = w" "concat tlvs \<noteq> []" "length (concat tlvs) \<le> 252"
    and "decode_tlv_stream hop_tlv_fields None no_hop_tlvs (concat tlvs) = Ok t" "hop_format_of t = Ok fmt"
    and "ht_amt t \<le> MAX_VALUE_MSAT"
  shows "read_onion_hop_data rv (w @ r) =
    Ok (\<lparr>hop_format = fmt, amt_to_forward = ht_amt t, outgoing_cltv_value = ht_cltv_value t\<rparr>, r)"
proof -
  let ?n = "length (concat tlvs)"
  have w: "w = word_of_nat ?n # concat tlvs"
    using assms(2) write_small_bigsize [OF assms(4)] by (simp add: encode_varint_length_prefixed_tlv_def)
  have u: "unat (word_of_nat ?n :: u8) = ?n" "?n < 253" using assms(4) by (simp_all add: unat_of_nat take_bit_nat_eq_self)
  then have "(word_of_nat ?n :: u8) < 0xFD" by (simp add: word_less_nat_alt)
  then have rv: "rv (w @ r) = Ok (ucast (word_of_nat ?n :: u8), concat tlvs @ r)"
    using assms(1) w by (simp add: varint_ok_def)
  have v: "unat (ucast (word_of_nat ?n :: u8) :: u64) = ?n" using u by (simp add: unat_ucast_up)
  have nz: "(ucast (word_of_nat ?n :: u8) :: u64) \<noteq> 0"
  proof
    assume "(ucast (word_of_nat ?n :: u8) :: u64) = 0"
    with v have "?n = 0" by simp
    with assms(3) show False by simp
  qed
  have "read_hop_tlvs (ucast (word_of_nat ?n :: u8)) (concat tlvs @ r) = Ok ((fmt, ht_amt t, ht_cltv_value t), r)"
    unfolding read_hop_tlvs_def v using assms(5,6) by simp
  then show ?thesis using rv nz assms(7) by (simp add: read_onion_hop_data_def not_less)
qed

lemma payload_round_trip:
  assumes "varint_ok rv" "payload_ok h"
  shows "read_onion_hop_data rv (write_onion_hop_data h @ r) = Ok (h, r)"
proof -
  let ?a = "amt_to_forward h" and ?c = "outgoing_cltv_value h"
  note lens = length_write_hzbd [of 8 ?a] length_write_hzbd [of 4 ?c]
    length_encode_tlv [of 2 "write_hzbd 8 ?a"] length_encode_tlv [of 4 "write_hzbd 4 ?c"]
  have amt: "?a \<le> MAX_VALUE_MSAT" using assms(2) by (simp add: payload_ok_def)
  show ?thesis
  proof (cases "hop_format h")
    case (Legacy scid)
    have "rv (0 # r') = Ok (0, r')" for r' using assms(1) by (simp add: varint_ok_def)
    then show ?thesis
      using Legacy amt by (cases h) (simp add: write_onion_hop_data_def read_onion_hop_data_def read_hop_legacy_def)
  next
    case (NonFinalNode scid)
    let ?tlvs = "[encode_tlv 2 (write_hzbd 8 ?a), encode_tlv 4 (write_hzbd 4 ?c), encode_tlv 6 (be_bytes 8 scid)]"
    let ?t = "no_hop_tlvs\<lparr>ht_amt := ?a, ht_cltv_value := ?c, ht_short_id := Some scid\<rparr>"
    have "decode_tlv_stream hop_tlv_fields (Some 4) s (encode_tlv 6 (be_bytes 8 scid)) = Ok (s\<lparr>ht_short_id := Some scid\<rparr>)" for s
      using decode_tlv_known [of 6 hop_tlv_fields short_id_field "Some 4" "be_bytes 8 scid" s _ "[]"]
        read_be_append [of 8 scid "[]"] by (simp add: decode_tlv_end)
    then have dec: "decode_tlv_stream hop_tlv_fields None no_hop_tlvs (concat ?tlvs) = Ok ?t" by (simp add: decode_amounts)
    have len: "length (concat ?tlvs) \<le> 252" "concat ?tlvs \<noteq> []"
      using lens length_encode_tlv [of 6 "be_bytes 8 scid"] by simp_all
    have "read_onion_hop_data rv (write_onion_hop_data h @ r) =
        Ok (\<lparr>hop_format = NonFinalNode scid, amt_to_forward = ht_amt ?t, outgoing_cltv_value = ht_cltv_value ?t\<rparr>, r)"
      by (rule read_tlv_payload [OF assms(1) _ len(2,1) dec])
         (use NonFinalNode amt in \<open>simp_all add: write_onion_hop_data_def hop_format_of_def no_hop_tlvs_def\<close>)
    then show ?thesis using NonFinalNode by (cases h) simp
  next
    case (FinalNode d k)
    let ?o = "[encode_tlv_option 8 (map_option write_final_onion_hop_data d), encode_tlv_option 5482373484 k]"
    let ?tlvs = "[encode_tlv 2 (write_hzbd 8 ?a), encode_tlv 4 (write_hzbd 4 ?c)] @ ?o"
    let ?t = "no_hop_tlvs\<lparr>ht_amt := ?a, ht_cltv_value := ?c, ht_payment_data := d, ht_keysend_preimage := k\<rparr>"
    have fmt: "format_ok (FinalNode d k)" using assms(2) FinalNode by (simp add: payload_ok_def)
    have dec: "decode_tlv_stream hop_tlv_fields None no_hop_tlvs (concat ?tlvs) = Ok ?t"
      using decode_optional [OF fmt, of "no_hop_tlvs\<lparr>ht_amt := ?a, ht_cltv_value := ?c\<rparr>"]
      by (cases d; cases k) (simp_all add: decode_amounts no_hop_tlvs_def)
    have "length (encode_tlv_option 8 (map_option write_final_onion_hop_data d)) \<le> 58"
      using fmt length_encode_tlv [of 8 "write_final_onion_hop_data (the d)"] length_write_hzbd [of 8 "snd (the d)"]
      by (cases d) (simp_all add: encode_tlv_option_def write_final_onion_hop_data_def)
    moreover have "length (encode_tlv_option 5482373484 k) \<le> 50"
      using fmt length_encode_tlv [of 5482373484 "the k"] by (cases k) (simp_all add: encode_tlv_option_def)
    ultimately have len: "length (concat ?tlvs) \<le> 252" "concat ?tlvs \<noteq> []" using lens by simp_all
    have "hop_format_of ?t = Ok (FinalNode d k)"
      using fmt by (cases d) (simp_all add: hop_format_of_def no_hop_tlvs_def not_less)
    then have "read_onion_hop_data rv (write_onion_hop_data h @ r) =
        Ok (\<lparr>hop_format = FinalNode d k, amt_to_forward = ht_amt ?t, outgoing_cltv_value = ht_cltv_value ?t\<rparr>, r)"
      by (intro read_tlv_payload [OF assms(1) _ len(2,1) dec])
         (use FinalNode amt in \<open>simp_all add: write_onion_hop_data_def no_hop_tlvs_def\<close>)
    then show ?thesis using FinalNode by (cases h) simp
  qed
qed

section \<open>The filler\<close>

text \<open>What each hop shifts in at the end of the packet, for hops given by payload and keys.\<close>

abbreviation hop_len :: "bytes \<times> OnionKeys \<Rightarrow> nat" where "hop_len h \<equiv> length (fst h) + 32"

fun fill :: "nat \<Rightarrow> bytes \<Rightarrow> (bytes \<times> OnionKeys) list \<Rightarrow> bytes" where
  "fill pos res [] = res"
| "fill pos res (h # hs) =
     fill (pos + hop_len h) (xor_at (rho (snd h)) (ONION_DATA_LEN - pos) (res @ replicate (hop_len h) 0)) hs"

lemma onion_len_max: "n \<le> 2 * ONION_DATA_LEN \<Longrightarrow> n \<le> chacha_max"
  by (simp add: ONION_DATA_LEN_def chacha_max_def)

lemma skip_bytes_stream:
  "stream_at key k c \<Longrightarrow> length key = 32 \<Longrightarrow> k + n \<le> chacha_max \<Longrightarrow>
   \<exists>c'. skip_bytes c n = Ok c' \<and> stream_at key (k + n) c'"
proof (induction n arbitrary: k c)
  case (Suc n)
  obtain c1 where c1: "process_in_place c [0] = Ok (c1, xor_at key k [0])" "stream_at key (Suc k) c1"
    using process_in_place_stream [OF Suc.prems(1,2), of "[0]"] Suc.prems(3) by auto
  with Suc.IH [OF c1(2) Suc.prems(2)] Suc.prems(3) show ?case by auto
qed auto

lemma length_fill: "length res = pos \<Longrightarrow> length (fill pos res hs) = pos + sum_list (map hop_len hs)"
  by (induction pos res hs rule: fill.induct) simp_all

lemma filler_loop_fill:
  assumes "length res = pos" "i + length hs = count" "hs \<noteq> []" "\<forall>h\<in>set hs. length (rho (snd h)) = 32"
    and "pos + sum_list (map hop_len hs) \<le> ONION_DATA_LEN"
  shows "filler_loop count i pos res hs = Ok (fill pos res (butlast hs))"
  using assms
proof (induction hs arbitrary: i pos res)
  case (Cons h hs)
  obtain p k where h: "h = (p, k)" by (cases h)
  show ?case
  proof (cases "hs = []")
    case True
    then show ?thesis using Cons.prems(2) h by auto
  next
    case False
    let ?n = "ONION_DATA_LEN - pos" and ?pos = "pos + (length p + 32)"
    have i: "i \<noteq> count - 1" using Cons.prems(2) False by (cases hs) auto
    have key: "length (rho k) = 32" using Cons.prems(4) h by simp
    obtain c where c: "chacha_new (rho k) (replicate 8 0) = Ok c" "stream_at (rho k) 0 c"
      using fresh_stream [OF key] by blast
    obtain c1 where c1: "skip_bytes c ?n = Ok c1" "stream_at (rho k) ?n c1"
      using skip_bytes_stream [OF c(2) key, of ?n] onion_len_max [of ?n] by auto
    have pos: "?pos \<le> ONION_DATA_LEN" using Cons.prems(5) h by simp
    have rz: "resize res ?pos = res @ replicate (length p + 32) 0" using Cons.prems(1) by (simp add: resize_def)
    obtain c2 where c2: "process_in_place c1 (resize res ?pos) =
        Ok (c2, xor_at (rho k) ?n (res @ replicate (length p + 32) 0))"
      using process_in_place_stream [OF c1(2) key, of "resize res ?pos"] rz Cons.prems(1) pos
        onion_len_max [of "?n + ?pos"] by auto
    have "filler_loop count (Suc i) ?pos (xor_at (rho k) ?n (res @ replicate (length p + 32) 0)) hs =
        Ok (fill ?pos (xor_at (rho k) ?n (res @ replicate (length p + 32) 0)) (butlast hs))"
      using Cons.prems h False by (intro Cons.IH) simp_all
    then show ?thesis using h i c(1) c1(1) pos c2 False by (simp add: Let_def)
  qed
qed simp

section \<open>The layers\<close>

fun wrap :: "'sk crypto \<Rightarrow> bytes \<Rightarrow> bytes \<Rightarrow> bytes \<Rightarrow> (bytes \<times> OnionKeys) list \<Rightarrow> bytes \<times> bytes" where
  "wrap cr filler assoc noise [] = (noise, replicate 32 0)"
| "wrap cr filler assoc noise (h # hs) =
     (let (d, hm) = wrap cr filler assoc noise hs;
          d1 = xor_at (rho (snd h)) 0 (fst h @ hm @ take (ONION_DATA_LEN - hop_len h) d);
          d2 = (if hs = [] then take (ONION_DATA_LEN - length filler) d1 @ filler else d1)
      in (d2, hmac_sha256 cr (mu (snd h)) (d2 @ assoc)))"

lemma wrap_lengths:
  assumes "crypto_ok cr" "length noise = ONION_DATA_LEN" "\<forall>h\<in>set hs. hop_len h \<le> ONION_DATA_LEN"
    and "length filler \<le> ONION_DATA_LEN"
  shows "length (fst (wrap cr filler assoc noise hs)) = ONION_DATA_LEN"
    and "length (snd (wrap cr filler assoc noise hs)) = 32"
  using assms(3)
  by (induction hs) (use assms in \<open>auto simp: Let_def crypto_ok_def split: prod.splits\<close>)

lemma layer_loop_append:
  "layer_loop cr filler assoc inn d hm (xs @ ys) =
   and_then (layer_loop cr filler assoc inn d hm xs)
     (\<lambda>(d', hm'). layer_loop cr filler assoc (if xs = [] then inn else False) d' hm' ys)"
proof (induction xs arbitrary: inn d hm)
  case (Cons x xs)
  obtain p k where x: "x = (p, k)" by (cases x)
  have if_same: "(if xs = [] then False else False) = False" by simp
  show ?case unfolding x append_Cons layer_loop.simps Let_def Cons.IH if_same
    by (cases "shift_arr_right d (length p + 32)"; cases "chacha_new (rho k) (replicate 8 0)")
       (auto simp: and_then_and_then split_def)
qed simp

lemma layer_loop_wrap:
  assumes "crypto_ok cr" "length noise = ONION_DATA_LEN" "length filler \<le> ONION_DATA_LEN"
    and "\<forall>h\<in>set hs. hop_len h \<le> ONION_DATA_LEN \<and> length (rho (snd h)) = 32"
  shows "layer_loop cr filler assoc True noise (replicate 32 0) (rev hs) = Ok (wrap cr filler assoc noise hs)"
  using assms(4)
proof (induction hs)
  case (Cons h hs)
  obtain p k where h: "h = (p, k)" by (cases h)
  obtain d hm where w: "wrap cr filler assoc noise hs = (d, hm)" by (cases "wrap cr filler assoc noise hs")
  have len: "length d = ONION_DATA_LEN" "length hm = 32"
    using wrap_lengths [OF assms(1,2) _ assms(3), of hs assoc] Cons.prems w by simp_all
  have p: "length p + 32 \<le> ONION_DATA_LEN" "length (rho k) = 32" using Cons.prems h by simp_all
  let ?d = "p @ hm @ take (ONION_DATA_LEN - (length p + 32)) d"
  obtain c where c: "chacha_new (rho k) (replicate 8 0) = Ok c" "stream_at (rho k) 0 c"
    using fresh_stream [OF p(2)] by blast
  have "length ?d = ONION_DATA_LEN" using len p by simp
  then obtain c' where c': "process_in_place c ?d = Ok (c', xor_at (rho k) 0 ?d)"
    using process_in_place_stream [OF c(2) p(2), of ?d] onion_len_max [of ONION_DATA_LEN] by auto
  have IH: "layer_loop cr filler assoc True noise (replicate 32 0) (rev hs) = Ok (d, hm)"
    using Cons.IH Cons.prems w by simp
  show ?case
    unfolding rev.simps layer_loop_append IH
    using h w c(1) c' p len by (simp add: shift_arr_right_def Let_def)
qed simp

text \<open>The end of the packet a hop receives is the filler accumulated before it.\<close>

lemma wrap_tail:
  assumes cr: "crypto_ok cr" "length noise = ONION_DATA_LEN"
    and "hs \<noteq> []" "length f = s" "s + sum_list (map hop_len hs) \<le> ONION_DATA_LEN"
    and "filler = fill s f (butlast hs)"
  shows "drop (ONION_DATA_LEN - s) (fst (wrap cr filler assoc noise hs)) = f"
  using assms(3-)
proof (induction hs arbitrary: s f)
  case (Cons h hs)
  have fl: "length filler = s + sum_list (map hop_len (butlast (h # hs)))"
    using Cons.prems(2,4) length_fill by blast
  have s: "s + hop_len h \<le> ONION_DATA_LEN" "length filler \<le> ONION_DATA_LEN"
    using Cons.prems(3) fl by (cases hs rule: rev_cases; simp)+
  have hops: "\<forall>g\<in>set hs. hop_len g \<le> ONION_DATA_LEN"
    using Cons.prems(3) by (auto dest: member_le_sum_list [of _ "map hop_len hs", OF imageI [of _ "set hs" hop_len, simplified set_map [symmetric]]])
  obtain d hm where w: "wrap cr filler assoc noise hs = (d, hm)" by (cases "wrap cr filler assoc noise hs")
  have len: "length d = ONION_DATA_LEN" "length hm = 32"
    using wrap_lengths [OF cr hops s(2), of assoc] w by simp_all
  show ?case
  proof (cases "hs = []")
    case True
    then show ?thesis using Cons.prems(2,4) s len w by (simp add: Let_def)
  next
    case False
    let ?f = "xor_at (rho (snd h)) (ONION_DATA_LEN - s) (f @ replicate (hop_len h) 0)"
    have IH: "drop (ONION_DATA_LEN - (s + hop_len h)) d = ?f"
      using Cons.IH [OF False, of ?f "s + hop_len h"] Cons.prems False w by simp
    have "drop (ONION_DATA_LEN - s) (fst h @ hm @ take (ONION_DATA_LEN - hop_len h) d) =
        take s (drop (ONION_DATA_LEN - (s + hop_len h)) d)"
      using s len by (simp add: drop_take ac_simps diff_diff_add)
    also have "\<dots> = xor_at (rho (snd h)) (ONION_DATA_LEN - s) f"
      using Cons.prems(2) by (simp add: IH take_xor_at)
    finally show ?thesis using False w by (simp add: Let_def drop_xor_at)
  qed
qed simp

section \<open>Peeling\<close>

definition hmac_nonzero :: "'sk crypto \<Rightarrow> bool" where
  "hmac_nonzero cr \<longleftrightarrow> (\<forall>k m. hmac_sha256 cr k m \<noteq> replicate 32 0)"

fun peel_path ::
  "'sk crypto \<Rightarrow> (bytes \<Rightarrow> u64 parsed) \<Rightarrow> bytes list \<Rightarrow> bytes \<Rightarrow> bytes \<Rightarrow> bytes \<Rightarrow> (OnionDecodeErr, OnionHopData list) outcome" where
  "peel_path cr rv [] hop_data hm payment_hash = Ok []"
| "peel_path cr rv (ss # sss) hop_data hm payment_hash =
     and_then (decode_next_hop cr rv ss hop_data hm payment_hash) (\<lambda>hop.
       case hop of
         Receive m \<Rightarrow> Ok [m]
       | Forward m hm' d' \<Rightarrow> map_ok (\<lambda>ms. m # ms) (peel_path cr rv sss d' hm' payment_hash))"

lemma decrypt_patched: "n \<le> length d \<Longrightarrow> xor_at key 0 (take n (xor_at key 0 d) @ f) = take n d @ xor_at key n f"
  by (simp add: xor_at_append take_xor_at)

lemma decrypt_layer:
  assumes "gen_rho_mu_from_shared_secret cr ss = Ok (key, m)" "length key = 32" "length d = ONION_DATA_LEN"
    and "hm = hmac_sha256 cr m (d @ payment_hash)"
    and "read_onion_hop_data rv (xor_at key 0 d) = Ok (msg, hm' @ r)" "length hm' = 32" "length r \<le> ONION_DATA_LEN"
  shows "decode_next_hop cr rv ss d hm payment_hash =
    Ok (if hm' = replicate 32 0 then Receive msg
        else Forward msg hm' (r @ xor_at key ONION_DATA_LEN (replicate (ONION_DATA_LEN - length r) 0)))"
proof -
  obtain c where c: "chacha_new key (replicate 8 0) = Ok c" "stream_at key 0 c"
    using fresh_stream [OF assms(2)] by blast
  obtain c1 where c1: "process_in_place c d = Ok (c1, xor_at key 0 d)" "stream_at key ONION_DATA_LEN c1"
    using process_in_place_stream [OF c(2) assms(2), of d] assms(3) onion_len_max [of ONION_DATA_LEN] by auto
  let ?z = "replicate (ONION_DATA_LEN - length r) 0"
  obtain c2 where c2: "process_in_place c1 ?z = Ok (c2, xor_at key ONION_DATA_LEN ?z)"
    using process_in_place_stream [OF c1(2) assms(2), of ?z] onion_len_max [of "ONION_DATA_LEN + length ?z"] by auto
  show ?thesis
    using assms c(1) c1(1) c2 by (simp add: decode_next_hop_def Let_def)
qed

lemma peel_wrapped:
  assumes cr: "crypto_ok cr" "hmac_nonzero cr" and rv: "varint_ok rv" and noise: "length noise = ONION_DATA_LEN"
    and "msgs \<noteq> []" "length sss = length msgs" "length ks = length msgs" "\<forall>m\<in>set msgs. payload_ok m"
    and "\<forall>i < length msgs. gen_rho_mu_from_shared_secret cr (sss ! i) = Ok (rho (ks ! i), mu (ks ! i)) \<and> length (rho (ks ! i)) = 32"
    and "hs = zip (map write_onion_hop_data msgs) ks"
    and "length f = s" "s + sum_list (map hop_len hs) \<le> ONION_DATA_LEN" "filler = fill s f (butlast hs)"
  shows "peel_path cr rv sss (fst (wrap cr filler payment_hash noise hs)) (snd (wrap cr filler payment_hash noise hs)) payment_hash
    = Ok msgs"
  using assms(5-)
proof (induction msgs arbitrary: sss ks hs s f)
  case (Cons m msgs)
  obtain ss sss' where sss: "sss = ss # sss'" using Cons.prems(2) by (cases sss) auto
  obtain k ks' where ks: "ks = k # ks'" using Cons.prems(3) by (cases ks) auto
  let ?p = "write_onion_hop_data m"
  let ?hs = "zip (map write_onion_hop_data msgs) ks'"
  let ?L = ONION_DATA_LEN
  have hs: "hs = (?p, k) # ?hs" using Cons.prems(6) ks by simp
  have key: "gen_rho_mu_from_shared_secret cr ss = Ok (rho k, mu k)" "length (rho k) = 32"
    using Cons.prems(5) [rule_format, of 0] sss ks by simp_all
  have fl: "length filler = s + sum_list (map hop_len (butlast hs))"
    using Cons.prems(7,9) length_fill by blast
  have s: "s + (length ?p + 32) \<le> ?L" "length filler \<le> ?L"
    using Cons.prems(8) fl hs by (cases ?hs rule: rev_cases; simp)+
  have hops: "\<forall>g\<in>set ?hs. hop_len g \<le> ?L"
    using Cons.prems(8) hs by (auto dest: member_le_sum_list [of _ "map hop_len ?hs", OF imageI [of _ "set ?hs" hop_len, simplified set_map [symmetric]]])
  obtain d hm where w: "wrap cr filler payment_hash noise ?hs = (d, hm)" by (cases "wrap cr filler payment_hash noise ?hs")
  have len: "length d = ?L" "length hm = 32"
    using wrap_lengths [OF cr(1) noise hops s(2), of payment_hash] w by simp_all
  let ?d = "?p @ hm @ take (?L - (length ?p + 32)) d"
  have dlen: "length ?d = ?L" using len s by simp
  have read: "read_onion_hop_data rv (?p @ r) = Ok (m, r)" for r
    using payload_round_trip [OF rv] Cons.prems(4) by simp
  show ?case
  proof (cases "msgs = []")
    case True
    then have hs1: "hs = [(?p, k)]" "hm = replicate 32 0" "d = noise" using hs w by simp_all
    let ?e = "take (?L - length filler) (xor_at (rho k) 0 ?d) @ filler"
    have fs: "length filler = s" using fl hs1 by simp
    obtain x where x: "take (?L - s) ?d = ?p @ hm @ x" using s len by (simp add: take_append)
    have "xor_at (rho k) 0 ?e = take (?L - s) ?d @ xor_at (rho k) (?L - s) filler"
      unfolding fs by (rule decrypt_patched) (use dlen in simp)
    also have "\<dots> = ?p @ hm @ x @ xor_at (rho k) (?L - s) filler" unfolding x by simp
    finally have "read_onion_hop_data rv (xor_at (rho k) 0 ?e) = Ok (m, hm @ (x @ xor_at (rho k) (?L - s) filler))"
      by (simp only: read)
    moreover have "length ?e = ?L" using dlen fs s by simp
    moreover have "length (x @ xor_at (rho k) (?L - s) filler) \<le> ?L"
      using arg_cong [OF x, of length] fs s dlen len by simp
    ultimately have "decode_next_hop cr rv ss ?e (hmac_sha256 cr (mu k) (?e @ payment_hash)) payment_hash = Ok (Receive m)"
      using decrypt_layer [OF key(1,2), of ?e _ payment_hash rv m hm] len hs1 by simp
    then show ?thesis using True sss hs1 by (simp add: Let_def)
  next
    case False
    let ?e = "xor_at (rho k) 0 ?d"
    let ?f = "xor_at (rho k) (?L - s) (f @ replicate (length ?p + 32) 0)"
    have ne: "?hs \<noteq> []" using False Cons.prems(3) ks by (cases msgs; cases ks') auto
    have e: "wrap cr filler payment_hash noise hs = (?e, hmac_sha256 cr (mu k) (?e @ payment_hash))"
      using hs w ne by (simp add: Let_def)
    have fill': "filler = fill (s + (length ?p + 32)) ?f (butlast ?hs)" using Cons.prems(9) hs ne by simp
    have "drop (?L - (s + (length ?p + 32))) d = ?f"
      using wrap_tail [OF cr(1) noise ne _ _ fill', of payment_hash] w Cons.prems(7,8) hs by (simp add: ac_simps)
    then have "drop s (drop (?L - (s + (length ?p + 32))) d) = xor_at (rho k) ?L (replicate (length ?p + 32) 0)"
      using Cons.prems(7) s by (simp add: drop_xor_at)
    then have tail: "drop (?L - (length ?p + 32)) d = xor_at (rho k) ?L (replicate (length ?p + 32) 0)"
      using s by (simp add: ac_simps)
    have nz: "hm \<noteq> replicate 32 0"
    proof -
      obtain h' hs' where "?hs = h' # hs'" using ne by (cases ?hs) auto
      then show ?thesis using w cr(2) by (auto simp: Let_def hmac_nonzero_def split: prod.splits)
    qed
    have "read_onion_hop_data rv (xor_at (rho k) 0 ?e) = Ok (m, hm @ take (?L - (length ?p + 32)) d)"
      using read by simp
    from decrypt_layer [OF key _ refl this len(2), of payment_hash] nz dlen len s tail
    have "decode_next_hop cr rv ss ?e (hmac_sha256 cr (mu k) (?e @ payment_hash)) payment_hash =
        Ok (Forward m hm (take (?L - (length ?p + 32)) d @ drop (?L - (length ?p + 32)) d))" by simp
    then have dec: "decode_next_hop cr rv ss ?e (hmac_sha256 cr (mu k) (?e @ payment_hash)) payment_hash =
        Ok (Forward m hm d)" by simp
    have "peel_path cr rv sss' (fst (wrap cr filler payment_hash noise ?hs))
        (snd (wrap cr filler payment_hash noise ?hs)) payment_hash = Ok msgs"
    proof (rule Cons.IH [OF False _ _ _ _ refl _ _ fill'])
      show "length sss' = length msgs" "length ks' = length msgs" using Cons.prems(2,3) sss ks by simp_all
      show "\<forall>m\<in>set msgs. payload_ok m" using Cons.prems(4) by simp
      show "\<forall>i < length msgs. gen_rho_mu_from_shared_secret cr (sss' ! i) = Ok (rho (ks' ! i), mu (ks' ! i)) \<and> length (rho (ks' ! i)) = 32"
        using Cons.prems(5) sss ks by fastforce
      show "length ?f = s + (length ?p + 32)" using Cons.prems(7) by simp
      show "s + (length ?p + 32) + sum_list (map hop_len ?hs) \<le> ?L" using Cons.prems(8) hs by simp
    qed
    then show ?thesis using sss e dec w by simp
  qed
qed simp

lemma sum_butlast: "sum_list (map f (butlast xs)) \<le> (sum_list (map f xs) :: nat)"
  by (cases xs rule: rev_cases) simp_all

lemma size_ok_sum: "size_insane_loop n ps = Ok False \<Longrightarrow> n + sum_list (map (\<lambda>p. length p + 32) ps) \<le> ONION_DATA_LEN \<or> ps = []"
proof (induction ps arbitrary: n)
  case (Cons p ps)
  then have "n + (length p + 32) \<le> ONION_DATA_LEN" "size_insane_loop (n + (length p + 32)) ps = Ok False"
    by (auto split: if_splits)
  with Cons.IH [of "n + (length p + 32)"] show ?case by auto
qed simp

lemma onion_keys_of_steps:
  assumes "crypto_ok cr" "\<forall>st\<in>set steps. length (st_shared_secret st) = 32"
  shows "\<exists>ks. keys_of_steps cr steps = Ok ks \<and> length ks = length steps \<and>
    (\<forall>i < length steps. gen_rho_mu_from_shared_secret cr (st_shared_secret (steps ! i)) = Ok (rho (ks ! i), mu (ks ! i)) \<and>
       length (rho (ks ! i)) = 32)"
  using assms(2)
proof (induction steps)
  case (Cons st steps)
  obtain ks where ks: "keys_of_steps cr steps = Ok ks" "length ks = length steps"
    "\<forall>i < length steps. gen_rho_mu_from_shared_secret cr (st_shared_secret (steps ! i)) = Ok (rho (ks ! i), mu (ks ! i)) \<and>
       length (rho (ks ! i)) = 32" using Cons by auto
  let ?r = "hmac_sha256 cr [0x72, 0x68, 0x6f] (st_shared_secret st)" and ?m = "hmac_sha256 cr [0x6d, 0x75] (st_shared_secret st)"
  have g: "gen_rho_mu_from_shared_secret cr (st_shared_secret st) = Ok (?r, ?m)"
    using Cons.prems by (simp add: gen_rho_mu_from_shared_secret_def hmac_of_secret_def)
  let ?k = "\<lparr>ephemeral_pubkey = st_ephemeral_pubkey st, rho = ?r, mu = ?m\<rparr>"
  have "keys_of_steps cr (st # steps) = Ok (?k # ks)" using g ks(1) by simp
  moreover have "\<forall>i < length (st # steps). gen_rho_mu_from_shared_secret cr (st_shared_secret ((st # steps) ! i)) =
      Ok (rho ((?k # ks) ! i), mu ((?k # ks) ! i)) \<and> length (rho ((?k # ks) ! i)) = 32"
    using g ks(3) assms(1) by (auto simp: nth_Cons crypto_ok_def split: nat.splits)
  ultimately show ?case using ks(2) by auto
qed simp

lemma onion_round_trip:
  assumes cr: "crypto_ok cr" "hmac_nonzero cr" and rv: "varint_ok rv" and seed: "length prng_seed = 32"
    and steps: "construct_onion_keys_callback cr path session_priv = Some steps" "path \<noteq> []"
    and msgs: "length msgs = length path" "\<forall>m\<in>set msgs. payload_ok m" "route_size_insane msgs = Ok False"
  shows "\<exists>keys pkt. construct_onion_keys cr path session_priv = Ok (Some keys) \<and>
    construct_onion_packet cr msgs keys prng_seed payment_hash = Ok pkt \<and>
    length (op_hop_data pkt) = ONION_DATA_LEN \<and>
    peel_path cr rv (map st_shared_secret steps) (op_hop_data pkt) (op_hmac pkt) payment_hash = Ok msgs"
proof -
  have st: "onion_steps cr session_priv 0 path = Some steps" using steps(1) by (simp add: construct_onion_keys_callback_def)
  have len: "length steps = length path" using onion_steps_facts [OF st] by simp
  obtain ks where ks: "keys_of_steps cr steps = Ok ks" "length ks = length steps"
    "\<forall>i < length steps. gen_rho_mu_from_shared_secret cr (st_shared_secret (steps ! i)) = Ok (rho (ks ! i), mu (ks ! i)) \<and>
       length (rho (ks ! i)) = 32"
    using onion_keys_of_steps [OF cr(1) onion_steps_secrets [OF cr(1) st]] by blast
  have keys: "construct_onion_keys cr path session_priv = Ok (Some ks)"
    using steps(1) ks(1) by (simp add: construct_onion_keys_def)
  let ?ps = "map write_onion_hop_data msgs" and ?L = ONION_DATA_LEN
  let ?hs = "zip ?ps ks"
  have ne: "msgs \<noteq> []" "ks \<noteq> []" "?hs \<noteq> []" using steps(2) msgs(1) ks(2) len by auto
  have lens: "map hop_len ?hs = map (\<lambda>p. length p + 32) ?ps"
    using msgs(1) ks(2) len by (intro nth_equalityI) simp_all
  then have sum: "sum_list (map hop_len ?hs) \<le> ?L"
    using size_ok_sum [of 0 ?ps] msgs(3) ne(1) unfolding route_size_insane_def by auto
  then have hops: "\<forall>h\<in>set ?hs. hop_len h \<le> ?L"
    by (auto dest: member_le_sum_list [of _ "map hop_len ?hs", OF imageI [of _ "set ?hs" hop_len, simplified set_map [symmetric]]])
  have rho: "\<forall>h\<in>set ?hs. length (rho (snd h)) = 32"
    using ks(2,3) by (auto simp: set_zip)
  define filler where "filler = fill 0 [] (butlast ?hs)"
  have fill: "filler_loop (length ?ps) 0 0 [] ?hs = Ok filler"
    unfolding filler_def using msgs(1) ks(2) len ne(3) rho sum by (intro filler_loop_fill) simp_all
  have fl: "length filler \<le> ?L"
    using length_fill [of "[]" 0 "butlast ?hs"] sum_butlast [of hop_len ?hs] sum by (simp add: filler_def)
  obtain c where c: "chacha_new prng_seed (replicate 8 0) = Ok c" "stream_at prng_seed 0 c"
    using fresh_stream [OF seed] by blast
  define noise where "noise = xor_at prng_seed 0 (replicate ?L 0)"
  have noise: "length noise = ?L" by (simp add: noise_def)
  obtain c' where c': "process c (replicate ?L 0) = Ok (c', noise)"
    using process_stream [OF c(2) seed, of "replicate ?L 0"] onion_len_max [of ?L] unfolding noise_def by auto
  let ?w = "wrap cr filler payment_hash noise ?hs"
  have layers: "layer_loop cr filler payment_hash True noise (replicate 32 0) (rev ?hs) = Ok ?w"
    using layer_loop_wrap [OF cr(1) noise fl] hops rho by blast
  let ?pkt = "\<lparr>op_version = 0, op_public_key = ephemeral_pubkey (hd ks), op_hop_data = fst ?w, op_hmac = snd ?w\<rparr>"
  have "construct_onion_packet cr msgs ks prng_seed payment_hash = Ok ?pkt"
    using c(1) c' fill layers ne
    by (simp add: construct_onion_packet_def construct_onion_packet_with_init_noise_def split_def)
  moreover have "peel_path cr rv (map st_shared_secret steps) (fst ?w) (snd ?w) payment_hash = Ok msgs"
    using peel_wrapped [OF cr rv noise ne(1) _ _ msgs(2) _ refl _ _ filler_def, of "map st_shared_secret steps" payment_hash]
      ks(2,3) msgs(1) len sum by simp
  moreover have "length (fst ?w) = ?L" by (rule wrap_lengths(1) [OF cr(1) noise hops fl])
  ultimately show ?thesis using keys by auto
qed

section \<open>Properties\<close>


definition demo_onion_crypto :: "bytes crypto" where
  "demo_onion_crypto = \<lparr>hmac_sha256 = (\<lambda>k m. replicate 32 1), sha256_hash = (\<lambda>m. replicate 32 0),
     ecdh = (\<lambda>p s. replicate 32 7), public_of = (\<lambda>s. 2 # s), sk_mul = (\<lambda>s b. Some s)\<rparr>"

definition demo_varint :: "bytes \<Rightarrow> u64 parsed" where
  "demo_varint r = (case r of [] \<Rightarrow> Err ShortRead | n # r' \<Rightarrow> Ok (ucast n, r'))"

definition demo_payload :: "u64 \<Rightarrow> OnionHopData" where
  "demo_payload scid = \<lparr>hop_format = Legacy scid, amt_to_forward = 1000, outgoing_cltv_value = 40\<rparr>"


end
