(* ===== verification/Outbound_Payments.thy ===== *)
theory Outbound_Payments
  imports Onion_Packet
begin

text \<open>
  The channel manager's bookkeeping of outgoing payments (\<open>lightning/src/ln/channelmanager.rs\<close>): sending
  over one or more paths, retrying, abandoning, and what happens when parts fail, are fulfilled or time
  out, with the events each step queues. Channels, the chain monitor and randomness are parameters; a
  secret key is its 32 bytes; sums wrap as in a release build; logging, locks and persistence
  notifications are left out.
\<close>

section \<open>A pending payment\<close>

text \<open>The set of session keys of the parts in flight is a list without repetitions.\<close>

datatype PendingOutboundPayment =
    LegacyPayment (session_privs: "bytes list")
  | Retryable (session_privs: "bytes list") (rt_payment_hash: bytes) (rt_payment_secret: "bytes option")
      (rt_pending_amt_msat: u64) (rt_pending_fee_msat: "u64 option") (rt_total_msat: u64) (rt_starting_block_height: u32)
  | Fulfilled (session_privs: "bytes list") (ff_payment_hash: "bytes option")
  | Abandoned (session_privs: "bytes list") (ab_payment_hash: bytes)

definition is_retryable :: "PendingOutboundPayment \<Rightarrow> bool" where
  "is_retryable p = (case p of Retryable _ _ _ _ _ _ _ \<Rightarrow> True | _ \<Rightarrow> False)"

definition is_fulfilled :: "PendingOutboundPayment \<Rightarrow> bool" where
  "is_fulfilled p = (case p of Fulfilled _ _ \<Rightarrow> True | _ \<Rightarrow> False)"

definition abandoned :: "PendingOutboundPayment \<Rightarrow> bool" where
  "abandoned p = (case p of Abandoned _ _ \<Rightarrow> True | _ \<Rightarrow> False)"

definition get_pending_fee_msat :: "PendingOutboundPayment \<Rightarrow> u64 option" where
  "get_pending_fee_msat p = (case p of Retryable _ _ _ _ fee _ _ \<Rightarrow> fee | _ \<Rightarrow> None)"

definition payment_hash_of :: "PendingOutboundPayment \<Rightarrow> bytes option" where
  "payment_hash_of p =
     (case p of
        LegacyPayment _ \<Rightarrow> None
      | Retryable _ h _ _ _ _ _ \<Rightarrow> Some h
      | Fulfilled _ h \<Rightarrow> h
      | Abandoned _ h \<Rightarrow> Some h)"

definition mark_fulfilled :: "PendingOutboundPayment \<Rightarrow> PendingOutboundPayment" where
  "mark_fulfilled p = Fulfilled (session_privs p) (payment_hash_of p)"

definition mark_abandoned :: "PendingOutboundPayment \<Rightarrow> PendingOutboundPayment option" where
  "mark_abandoned p =
     (case p of
        LegacyPayment _ \<Rightarrow> None
      | Fulfilled _ _ \<Rightarrow> None
      | Retryable privs h _ _ _ _ _ \<Rightarrow> Some (Abandoned privs h)
      | Abandoned privs h \<Rightarrow> Some (Abandoned privs h))"

definition get_path_fees :: "RouteHop list \<Rightarrow> u64" where
  "get_path_fees path = sum_list (map fee_msat (butlast path))"

fun with_privs :: "PendingOutboundPayment \<Rightarrow> bytes list \<Rightarrow> PendingOutboundPayment" where
  "with_privs (LegacyPayment _) privs = LegacyPayment privs"
| "with_privs (Retryable _ h s a f t b) privs = Retryable privs h s a f t b"
| "with_privs (Fulfilled _ h) privs = Fulfilled privs h"
| "with_privs (Abandoned _ h) privs = Abandoned privs h"

text \<open>\<open>remove\<close>: whether the part was known; a retryable payment panics without a path to subtract.\<close>

definition remove_part ::
  "PendingOutboundPayment \<Rightarrow> bytes \<Rightarrow> RouteHop list option \<Rightarrow> (unit, PendingOutboundPayment \<times> bool) outcome" where
  "remove_part p session_priv path =
     (if session_priv \<notin> set (session_privs p) then Ok (p, False)
      else case with_privs p (removeAll session_priv (session_privs p)) of
             Retryable privs h s amt fee t b \<Rightarrow>
               (case path of
                  None \<Rightarrow> Panic
                | Some pth \<Rightarrow>
                    if pth = [] then Panic
                    else Ok (Retryable privs h s (amt - fee_msat (last pth))
                               (map_option (\<lambda>f. f - get_path_fees pth) fee) t b, True))
           | p' \<Rightarrow> Ok (p', True))"

definition insert_part ::
  "PendingOutboundPayment \<Rightarrow> bytes \<Rightarrow> RouteHop list \<Rightarrow> (unit, PendingOutboundPayment \<times> bool) outcome" where
  "insert_part p session_priv path =
     (case p of
        LegacyPayment privs \<Rightarrow>
          if session_priv \<in> set privs then Ok (p, False) else Ok (LegacyPayment (session_priv # privs), True)
      | Retryable privs h s amt fee t b \<Rightarrow>
          if session_priv \<in> set privs then Ok (p, False)
          else if path = [] then Panic
          else Ok (Retryable (session_priv # privs) h s (amt + fee_msat (last path))
                     (map_option (\<lambda>f. f + get_path_fees path) fee) t b, True)
      | _ \<Rightarrow> Ok (p, False))"

definition remaining_parts :: "PendingOutboundPayment \<Rightarrow> nat" where
  "remaining_parts p = length (session_privs p)"

section \<open>Events and state\<close>

record 'pp path_failure =
  pf_payment_id :: bytes
  pf_payment_hash :: bytes
  pf_rejected_by_dest :: bool
  pf_network_update :: "NetworkUpdate option"
  pf_all_paths_failed :: bool
  pf_path :: "RouteHop list"
  pf_short_channel_id :: "u64 option"
  pf_retry :: "('pp \<times> u64 \<times> u32) option"
  pf_error_code :: "u16 option"
  pf_error_data :: "bytes option"

datatype 'pp manager_event =
    EvPaymentSent bytes bytes bytes "u64 option"
  | EvPaymentPathSuccessful bytes "bytes option" "RouteHop list"
  | EvPaymentPathFailed "'pp path_failure"
  | EvPaymentFailed bytes bytes

record 'pp outbound_route =
  or_path :: "RouteHop list"
  or_session_priv :: bytes
  or_first_hop_htlc_msat :: u64
  or_payment_id :: bytes
  or_payment_secret :: "bytes option"
  or_payment_params :: "'pp option"

record 'pp manager =
  pending_outbound_payments :: "(bytes \<times> PendingOutboundPayment) list"
  pending_events :: "'pp manager_event list"

definition push_event :: "'pp manager_event \<Rightarrow> 'pp manager \<Rightarrow> 'pp manager" where
  "push_event e m = m\<lparr>pending_events := pending_events m @ [e]\<rparr>"

definition put_payment :: "bytes \<Rightarrow> PendingOutboundPayment \<Rightarrow> 'pp manager \<Rightarrow> 'pp manager" where
  "put_payment i p m = m\<lparr>pending_outbound_payments := hm_insert i p (pending_outbound_payments m)\<rparr>"

definition drop_payment :: "bytes \<Rightarrow> 'pp manager \<Rightarrow> 'pp manager" where
  "drop_payment i m = m\<lparr>pending_outbound_payments := hm_remove i (pending_outbound_payments m)\<rparr>"

abbreviation payment :: "'pp manager \<Rightarrow> bytes \<Rightarrow> PendingOutboundPayment option" where
  "payment m \<equiv> map_of (pending_outbound_payments m)"

section \<open>Sending\<close>

datatype APIError =
    APIMisuseError string
  | FeeRateTooHigh string u32
  | RouteError string
  | ChannelUnavailable string
  | MonitorUpdateFailed
  | IncompatibleShutdownScript bytes

datatype monitor_result = MonitorOk | TemporaryFailure | PermanentFailure

text \<open>What \<open>send_htlc_and_commit\<close> and the following monitor update give.\<close>

datatype send_result = SendError string | HeldBack | Committed monitor_result

record 'pp send_env =
  prng_seed :: bytes
  session_priv_bytes :: bytes
  valid_secret :: "bytes \<Rightarrow> bool"
  short_to_id :: "u64 \<Rightarrow> bytes option"
  counterparty_node_id :: "bytes \<Rightarrow> bytes option"
  is_live :: "bytes \<Rightarrow> bool"
  send_htlc_and_commit :: "bytes \<Rightarrow> u64 \<Rightarrow> bytes \<Rightarrow> u32 \<Rightarrow> 'pp outbound_route \<Rightarrow> OnionPacket \<Rightarrow> send_result"
  best_block_height :: u32

definition insert_outbound_payment ::
  "'pp send_env \<Rightarrow> bytes \<Rightarrow> bytes \<Rightarrow> bytes option \<Rightarrow> u64 \<Rightarrow> RouteHop list \<Rightarrow> 'pp manager \<Rightarrow> (unit, 'pp manager) outcome" where
  "insert_outbound_payment env payment_id payment_hash payment_secret total_value path m =
     (let p = (case payment m payment_id of
                 Some p \<Rightarrow> p
               | None \<Rightarrow> Retryable [] payment_hash payment_secret 0 (Some 0) total_value (best_block_height env)) in
      and_then (insert_part p (session_priv_bytes env) path) (\<lambda>(p', inserted).
        if inserted then Ok (put_payment payment_id p' m) else Panic))"

definition route_error_text :: "route_error \<Rightarrow> string" where
  "route_error_text e =
     (case e of FeesOverflowed \<Rightarrow> ''Channel fees overflowed?'' | CltvOverflowed \<Rightarrow> ''Channel CLTV overflowed?'')"

text \<open>The part of \<open>send_payment_along_path\<close> that uses the channel of the first hop.\<close>

definition send_over_channel ::
  "'pp send_env \<Rightarrow> RouteHop list \<Rightarrow> 'pp option \<Rightarrow> bytes \<Rightarrow> bytes option \<Rightarrow> u64 \<Rightarrow> bytes \<Rightarrow> u64 \<Rightarrow> u32 \<Rightarrow> OnionPacket \<Rightarrow>
   'pp manager \<Rightarrow> (unit, APIError option \<times> 'pp manager) outcome" where
  "send_over_channel env path payment_params payment_hash payment_secret total_value payment_id
     htlc_msat htlc_cltv onion_packet m =
     (if (case payment m payment_id of Some p \<Rightarrow> \<not> is_retryable p | None \<Rightarrow> False)
      then Ok (Some (RouteError ''Payment already completed''), m)
      else case short_to_id env (short_channel_id (hd path)) of
        None \<Rightarrow> Ok (Some (ChannelUnavailable ''No channel available with first hop!''), m)
      | Some chan \<Rightarrow>
          (case counterparty_node_id env chan of
             None \<Rightarrow> Panic
           | Some peer \<Rightarrow>
               if peer \<noteq> pubkey (hd path) then Ok (Some (RouteError ''Node ID mismatch on first hop!''), m)
               else if \<not> is_live env chan then
                 Ok (Some (ChannelUnavailable ''Peer for first hop currently disconnected/pending monitor update!''), m)
               else
                 let inserted = insert_outbound_payment env payment_id payment_hash payment_secret total_value path m in
                 case send_htlc_and_commit env chan htlc_msat payment_hash htlc_cltv
                        \<lparr>or_path = path, or_session_priv = session_priv_bytes env, or_first_hop_htlc_msat = htlc_msat,
                         or_payment_id = payment_id, or_payment_secret = payment_secret,
                         or_payment_params = payment_params\<rparr> onion_packet of
                   SendError e \<Rightarrow> Ok (Some (ChannelUnavailable e), m)
                 | HeldBack \<Rightarrow> map_ok (\<lambda>m'. (None, m')) inserted
                 | Committed MonitorOk \<Rightarrow> map_ok (\<lambda>m'. (None, m')) inserted
                 | Committed TemporaryFailure \<Rightarrow> map_ok (\<lambda>m'. (Some MonitorUpdateFailed, m')) inserted
                 | Committed PermanentFailure \<Rightarrow>
                     Ok (Some (ChannelUnavailable ''ChannelMonitor storage failure''), m)))"

definition send_payment_along_path ::
  "bytes crypto \<Rightarrow> 'pp send_env \<Rightarrow> RouteHop list \<Rightarrow> 'pp option \<Rightarrow> bytes \<Rightarrow> bytes option \<Rightarrow> u64 \<Rightarrow> u32 \<Rightarrow> bytes \<Rightarrow>
   bytes option \<Rightarrow> 'pp manager \<Rightarrow> (unit, APIError option \<times> 'pp manager) outcome" where
  "send_payment_along_path cr env path payment_params payment_hash payment_secret total_value cur_height
     payment_id keysend_preimage m =
     (if path = [] \<or> \<not> valid_secret env (session_priv_bytes env) then Panic
      else and_then (construct_onion_keys cr path (session_priv_bytes env)) (\<lambda>onion_keys.
        case onion_keys of
          None \<Rightarrow> Ok (Some (RouteError ''Pubkey along hop was maliciously selected''), m)
        | Some keys \<Rightarrow>
            (case build_onion_payloads path total_value payment_secret cur_height keysend_preimage of
               Panic \<Rightarrow> Panic
             | Err e \<Rightarrow> Ok (Some (RouteError (route_error_text e)), m)
             | Ok (onion_payloads, htlc_msat, htlc_cltv) \<Rightarrow>
                 and_then (route_size_insane onion_payloads) (\<lambda>insane.
                   if insane then Ok (Some (RouteError ''Route size too large considering onion data''), m)
                   else and_then (construct_onion_packet cr onion_payloads keys (prng_seed env) payment_hash) (\<lambda>onion_packet.
                     send_over_channel env path payment_params payment_hash payment_secret total_value payment_id
                       htlc_msat htlc_cltv onion_packet m)))))"

datatype 'pp PaymentSendFailure =
    ParameterError APIError
  | PathParameterError "APIError option list"
  | AllFailedRetrySafe "APIError list"
  | PartialFailure "APIError option list" "('pp \<times> u64 \<times> u32) option" bytes

definition path_check :: "bytes \<Rightarrow> RouteHop list \<Rightarrow> APIError option" where
  "path_check our_node_id path =
     (if length path < 1 \<or> length path > 20 then Some (RouteError ''Path didn't go anywhere/had bogus size'')
      else if \<exists>hop\<in>set (butlast path). pubkey hop = our_node_id
      then Some (RouteError ''Path went through us but wasn't a simple rebalance loop to us'')
      else None)"

fun send_paths ::
  "bytes crypto \<Rightarrow> 'pp send_env list \<Rightarrow> 'pp option \<Rightarrow> bytes \<Rightarrow> bytes option \<Rightarrow> u64 \<Rightarrow> u32 \<Rightarrow> bytes \<Rightarrow> bytes option \<Rightarrow>
   RouteHop list list \<Rightarrow> 'pp manager \<Rightarrow> (unit, APIError option list \<times> 'pp manager) outcome" where
  "send_paths cr envs payment_params payment_hash payment_secret total_value cur_height payment_id keysend_preimage [] m =
     Ok ([], m)"
| "send_paths cr [] payment_params payment_hash payment_secret total_value cur_height payment_id keysend_preimage (path # paths) m =
     Panic"
| "send_paths cr (env # envs) payment_params payment_hash payment_secret total_value cur_height payment_id keysend_preimage (path # paths) m =
     and_then (send_payment_along_path cr env path payment_params payment_hash payment_secret total_value cur_height
                 payment_id keysend_preimage m) (\<lambda>(r, m').
       map_ok (\<lambda>(rs, m''). (r # rs, m''))
         (send_paths cr envs payment_params payment_hash payment_secret total_value cur_height payment_id keysend_preimage paths m'))"

definition unsent_paths :: "APIError option list \<Rightarrow> RouteHop list list \<Rightarrow> RouteHop list list" where
  "unsent_paths results paths =
     map snd (filter (\<lambda>(r, _). r \<noteq> None \<and> r \<noteq> Some MonitorUpdateFailed) (zip results paths))"

definition send_outcome ::
  "'pp option \<Rightarrow> bytes \<Rightarrow> RouteHop list list \<Rightarrow> APIError option list \<Rightarrow> ('pp PaymentSendFailure, bytes) sum" where
  "send_outcome payment_params payment_id paths results =
     (let has_ok = (\<exists>r\<in>set results. r = None \<or> r = Some MonitorUpdateFailed);
          has_err = (\<exists>r\<in>set results. r \<noteq> None);
          unsent = unsent_paths results paths;
          pending_amt_unsent = sum_list (map (\<lambda>p. fee_msat (last p)) unsent);
          max_unsent_cltv_delta = foldl max 0 (map (\<lambda>p. cltv_expiry_delta (last p)) unsent)
      in if has_err \<and> has_ok
         then Inl (PartialFailure results
                (if pending_amt_unsent \<noteq> 0
                 then map_option (\<lambda>pp. (pp, pending_amt_unsent, max_unsent_cltv_delta)) payment_params else None)
                payment_id)
         else if has_err then Inl (AllFailedRetrySafe (map the results))
         else Inr payment_id)"

text \<open>Every call has its own channel answers and random bytes: one environment per path.\<close>

definition send_payment_internal ::
  "bytes crypto \<Rightarrow> bytes \<Rightarrow> u32 \<Rightarrow> 'pp send_env list \<Rightarrow> RouteHop list list \<Rightarrow> 'pp option \<Rightarrow> bytes \<Rightarrow> bytes option \<Rightarrow>
   bytes option \<Rightarrow> bytes \<Rightarrow> u64 option \<Rightarrow> 'pp manager \<Rightarrow>
   (unit, ('pp PaymentSendFailure, bytes) sum \<times> 'pp manager) outcome" where
  "send_payment_internal cr our_node_id best_height envs paths payment_params payment_hash payment_secret
     keysend_preimage payment_id recv_value_msat m =
     (if length paths < 1
      then Ok (Inl (ParameterError (RouteError ''There must be at least one path to send over'')), m)
      else if payment_secret = None \<and> length paths > 1
      then Ok (Inl (ParameterError (APIMisuseError ''Payment secret is required for multi-path payments'')), m)
      else let path_errs = map (path_check our_node_id) paths in
        if \<exists>e\<in>set path_errs. e \<noteq> None then Ok (Inl (PathParameterError path_errs), m)
        else let total_value = (case recv_value_msat of
                                  Some amt \<Rightarrow> amt
                                | None \<Rightarrow> sum_list (map (\<lambda>p. fee_msat (last p)) paths)) in
          map_ok (\<lambda>(results, m'). (send_outcome payment_params payment_id paths results, m'))
            (send_paths cr envs payment_params payment_hash payment_secret total_value (best_height + 1) payment_id
               keysend_preimage paths m))"

definition RETRY_OVERFLOW_PERCENTAGE :: u64 where "RETRY_OVERFLOW_PERCENTAGE = 10"

definition retry_payment ::
  "bytes crypto \<Rightarrow> bytes \<Rightarrow> u32 \<Rightarrow> 'pp send_env list \<Rightarrow> RouteHop list list \<Rightarrow> 'pp option \<Rightarrow> bytes \<Rightarrow> 'pp manager \<Rightarrow>
   (unit, ('pp PaymentSendFailure, bytes) sum \<times> 'pp manager) outcome" where
  "retry_payment cr our_node_id best_height envs paths payment_params payment_id m =
     (let refused = (\<lambda>why. Ok (Inl (ParameterError (APIMisuseError why)), m)) in
      if \<exists>p\<in>set paths. length p = 0 then refused ''length-0 path in route''
      else case payment m payment_id of
        None \<Rightarrow> refused (''Payment with ID '' @ hex_str payment_id @ '' not found'')
      | Some (LegacyPayment _) \<Rightarrow>
          refused ''Unable to retry payments that were initially sent on LDK versions prior to 0.0.102''
      | Some (Fulfilled _ _) \<Rightarrow> refused ''Payment already completed''
      | Some (Abandoned _ _) \<Rightarrow> refused ''Payment already abandoned (with some HTLCs still pending)''
      | Some (Retryable _ payment_hash payment_secret pending_amt_msat _ total_msat _) \<Rightarrow>
          let retry_amt_msat = sum_list (map (\<lambda>p. fee_msat (last p)) paths) in
          if retry_amt_msat + pending_amt_msat > total_msat * (100 + RETRY_OVERFLOW_PERCENTAGE) div 100
          then refused (''retry_amt_msat of '' @ to_string retry_amt_msat @ '' will put pending_amt_msat (currently: '' @
                 to_string pending_amt_msat @ '') more than 10% over total_payment_amt_msat of '' @ to_string total_msat)
          else send_payment_internal cr our_node_id best_height envs paths payment_params payment_hash payment_secret
                 None payment_id (Some total_msat) m)"

definition abandon_payment :: "bytes \<Rightarrow> 'pp manager \<Rightarrow> (unit, 'pp manager) outcome" where
  "abandon_payment payment_id m =
     (case payment m payment_id of
        None \<Rightarrow> Ok m
      | Some p \<Rightarrow>
          (case mark_abandoned p of
             None \<Rightarrow> Ok m
           | Some p' \<Rightarrow>
               if remaining_parts p' = 0
               then map_ok (\<lambda>h. drop_payment payment_id (push_event (EvPaymentFailed payment_id h) m)) (unwrap (payment_hash_of p'))
               else Ok (put_payment payment_id p' m)))"

section \<open>Failing and fulfilling\<close>

datatype HTLCFailReason = LightningError bytes | Reason u16 bytes

definition retry_of :: "'pp outbound_route \<Rightarrow> (unit, ('pp \<times> u64 \<times> u32) option) outcome" where
  "retry_of src =
     (case or_payment_params src of
        None \<Rightarrow> Ok None
      | Some pp \<Rightarrow>
          if or_path src = [] then Panic
          else Ok (Some (pp, fee_msat (last (or_path src)), cltv_expiry_delta (last (or_path src)))))"

definition path_failure_of ::
  "bytes crypto \<Rightarrow> (bytes \<Rightarrow> channel_update option) \<Rightarrow> 'pp outbound_route \<Rightarrow> bytes \<Rightarrow> HTLCFailReason \<Rightarrow> bool \<Rightarrow>
   ('pp \<times> u64 \<times> u32) option \<Rightarrow> (unit, 'pp path_failure) outcome" where
  "path_failure_of cr chan_update_read src payment_hash onion_error all_paths_failed retry =
     (case onion_error of
        LightningError data \<Rightarrow>
          map_ok (\<lambda>(network_update, scid, payment_retryable, onion_error_code, onion_error_data).
              \<lparr>pf_payment_id = or_payment_id src, pf_payment_hash = payment_hash,
               pf_rejected_by_dest = \<not> payment_retryable, pf_network_update = network_update,
               pf_all_paths_failed = all_paths_failed, pf_path = or_path src, pf_short_channel_id = scid,
               pf_retry = retry, pf_error_code = onion_error_code, pf_error_data = onion_error_data\<rparr>)
            (process_onion_failure cr chan_update_read (or_path src) (or_session_priv src)
               (or_first_hop_htlc_msat src) data)
      | Reason failure_code data \<Rightarrow>
          if or_path src = [] then Panic
          else Ok \<lparr>pf_payment_id = or_payment_id src, pf_payment_hash = payment_hash,
                   pf_rejected_by_dest = (length (or_path src) = 1), pf_network_update = None,
                   pf_all_paths_failed = all_paths_failed, pf_path = or_path src,
                   pf_short_channel_id = Some (short_channel_id (hd (or_path src))),
                   pf_retry = retry, pf_error_code = Some failure_code, pf_error_data = Some data\<rparr>)"

text \<open>\<open>fail_htlc_backwards_internal\<close> for an HTLC this node originated.\<close>

definition fail_outbound_htlc ::
  "bytes crypto \<Rightarrow> (bytes \<Rightarrow> channel_update option) \<Rightarrow> 'pp outbound_route \<Rightarrow> bytes \<Rightarrow> HTLCFailReason \<Rightarrow> 'pp manager \<Rightarrow>
   (unit, 'pp manager) outcome" where
  "fail_outbound_htlc cr chan_update_read src payment_hash onion_error m =
     (case payment m (or_payment_id src) of
        None \<Rightarrow> Ok m
      | Some p \<Rightarrow>
          and_then (remove_part p (or_session_priv src) (Some (or_path src))) (\<lambda>(p', removed).
            if \<not> removed then Ok m
            else let m1 = put_payment (or_payment_id src) p' m in
              if is_fulfilled p' then Ok m1
              else let all_paths_failed = (remaining_parts p' = 0) in
                and_then (if all_paths_failed \<and> abandoned p'
                          then map_ok (\<lambda>h. ([EvPaymentFailed (or_payment_id src) h], drop_payment (or_payment_id src) m1))
                                 (unwrap (payment_hash_of p'))
                          else Ok ([], m1)) (\<lambda>(full_failure_ev, m2).
                  and_then (retry_of src) (\<lambda>retry.
                    map_ok (\<lambda>pf. foldl (\<lambda>mm e. push_event e mm) (push_event (EvPaymentPathFailed pf) m2) full_failure_ev)
                      (path_failure_of cr chan_update_read src payment_hash onion_error all_paths_failed retry)))))"

text \<open>\<open>fail_holding_cell_htlcs\<close> for an HTLC this node originated.\<close>

definition fail_held_outbound_htlc ::
  "'pp outbound_route \<Rightarrow> bytes \<Rightarrow> 'pp manager \<Rightarrow> (unit, 'pp manager) outcome" where
  "fail_held_outbound_htlc src payment_hash m =
     (case payment m (or_payment_id src) of
        None \<Rightarrow> Ok m
      | Some p \<Rightarrow>
          and_then (remove_part p (or_session_priv src) (Some (or_path src))) (\<lambda>(p', removed).
            let m1 = put_payment (or_payment_id src) p' m in
            if \<not> (removed \<and> \<not> is_fulfilled p') then Ok m1
            else and_then (retry_of src) (\<lambda>retry.
              let m2 = push_event (EvPaymentPathFailed
                    \<lparr>pf_payment_id = or_payment_id src, pf_payment_hash = payment_hash,
                     pf_rejected_by_dest = False, pf_network_update = None,
                     pf_all_paths_failed = (remaining_parts p' = 0), pf_path = or_path src,
                     pf_short_channel_id = None, pf_retry = retry, pf_error_code = None, pf_error_data = None\<rparr>) m1 in
              if abandoned p' \<and> remaining_parts p' = 0
              then map_ok (\<lambda>h. drop_payment (or_payment_id src) (push_event (EvPaymentFailed (or_payment_id src) h) m2))
                     (unwrap (payment_hash_of p'))
              else Ok m2)))"

text \<open>A part of a fulfilled payment is done: the end of both ways of claiming.\<close>

definition part_done ::
  "bytes \<Rightarrow> bytes option \<Rightarrow> RouteHop list \<Rightarrow> PendingOutboundPayment \<Rightarrow> bool \<Rightarrow> 'pp manager \<Rightarrow> 'pp manager" where
  "part_done i hash path p' removed m =
     (let m1 = put_payment i p' m;
          m2 = (if removed then push_event (EvPaymentPathSuccessful i hash path) m1 else m1)
      in if remaining_parts p' = 0 then drop_payment i m2 else m2)"

text \<open>\<open>claim_funds_internal\<close> for an HTLC this node originated.\<close>

definition claim_outbound_htlc ::
  "bytes crypto \<Rightarrow> 'pp outbound_route \<Rightarrow> bytes \<Rightarrow> bool \<Rightarrow> 'pp manager \<Rightarrow> (unit, 'pp manager) outcome" where
  "claim_outbound_htlc cr src payment_preimage from_onchain m =
     (let i = or_payment_id src; hash = sha256_hash cr payment_preimage in
      case payment m i of
        None \<Rightarrow> Ok m
      | Some p \<Rightarrow>
          let (p1, m1) =
                (if is_fulfilled p then (p, m)
                 else (mark_fulfilled p,
                       put_payment i (mark_fulfilled p)
                         (push_event (EvPaymentSent i payment_preimage hash (get_pending_fee_msat p)) m))) in
          if \<not> from_onchain then Ok m1
          else map_ok (\<lambda>(p2, removed). part_done i (Some hash) (or_path src) p2 removed m1)
            (remove_part p1 (or_session_priv src) (Some (or_path src))))"

definition finalize_claim :: "'pp outbound_route \<Rightarrow> 'pp manager \<Rightarrow> (unit, 'pp manager) outcome" where
  "finalize_claim src m =
     (let i = or_payment_id src in
      case payment m i of
        None \<Rightarrow> Ok m
      | Some p \<Rightarrow>
          if \<not> is_fulfilled p then Panic
          else map_ok (\<lambda>(p', removed). part_done i (payment_hash_of p') (or_path src) p' removed m)
            (remove_part p (or_session_priv src) None))"

fun finalize_claims :: "'pp outbound_route list \<Rightarrow> 'pp manager \<Rightarrow> (unit, 'pp manager) outcome" where
  "finalize_claims [] m = Ok m"
| "finalize_claims (src # srcs) m = and_then (finalize_claim src m) (finalize_claims srcs)"

definition PAYMENT_EXPIRY_BLOCKS :: u32 where "PAYMENT_EXPIRY_BLOCKS = 3"

definition timed_out :: "u32 \<Rightarrow> PendingOutboundPayment \<Rightarrow> bool" where
  "timed_out height p =
     (case p of
        Retryable privs _ _ _ _ _ starting_block_height \<Rightarrow>
          privs = [] \<and> starting_block_height + PAYMENT_EXPIRY_BLOCKS \<le> height
      | _ \<Rightarrow> False)"

text \<open>The part of \<open>best_block_updated\<close> that gives up retryable payments with nothing in flight.\<close>

definition expire_payments :: "u32 \<Rightarrow> 'pp manager \<Rightarrow> 'pp manager" where
  "expire_payments height m =
     m\<lparr>pending_outbound_payments := filter (\<lambda>(_, p). \<not> timed_out height p) (pending_outbound_payments m),
       pending_events := pending_events m @
         map (\<lambda>(i, p). EvPaymentFailed i (rt_payment_hash p)) (filter (\<lambda>(_, p). timed_out height p) (pending_outbound_payments m))\<rparr>"

end
