(* ===== verification/Payment_Lifecycle.thy ===== *)
theory Payment_Lifecycle
  imports Outbound_Payments
begin

text \<open>
  What the channel manager promises about outgoing payments. The operations of \<open>Outbound_Payments\<close> are
  the steps of a state machine; its runs refine a small automaton of what may happen to one payment, and
  they keep the amounts in flight equal to the sums over the parts in flight.
\<close>

section \<open>The abstract life of one payment\<close>

datatype phase = Unresolved | Completed | GivenUp | Violated

fun event_payment :: "'pp manager_event \<Rightarrow> bytes" where
  "event_payment (EvPaymentSent i _ _ _) = i"
| "event_payment (EvPaymentPathSuccessful i _ _) = i"
| "event_payment (EvPaymentPathFailed pf) = pf_payment_id pf"
| "event_payment (EvPaymentFailed i _) = i"

fun phase_step :: "phase \<Rightarrow> 'pp manager_event \<Rightarrow> phase" where
  "phase_step Unresolved (EvPaymentPathFailed _) = Unresolved"
| "phase_step Unresolved (EvPaymentSent _ _ _ _) = Completed"
| "phase_step Unresolved (EvPaymentFailed _ _) = GivenUp"
| "phase_step Completed (EvPaymentPathSuccessful _ _ _) = Completed"
| "phase_step _ _ = Violated"

definition phase_after :: "(bytes \<Rightarrow> phase) \<Rightarrow> 'pp manager_event list \<Rightarrow> bytes \<Rightarrow> phase" where
  "phase_after ini es i = foldl phase_step (ini i) (filter (\<lambda>e. event_payment e = i) es)"

lemma phase_after_Nil [simp]: "phase_after ini [] i = ini i"
  by (simp add: phase_after_def)

lemma phase_after_snoc [simp]:
  "phase_after ini (es @ [e]) i = (if event_payment e = i then phase_step (phase_after ini es i) e else phase_after ini es i)"
  by (simp add: phase_after_def)

section \<open>Steps\<close>

record 'pp payments_world =
  manager_of :: "'pp manager"
  used_ids :: "bytes list"

text \<open>
  A session key is drawn at random for one path only: \<open>route\<close> is the path it was drawn for.
  \<open>send_payment\<close> draws a fresh payment id.
\<close>

abbreviation keyed_envs :: "(bytes \<Rightarrow> RouteHop list) \<Rightarrow> 'pp send_env list \<Rightarrow> RouteHop list list \<Rightarrow> bool" where
  "keyed_envs route envs paths \<equiv> list_all2 (\<lambda>env path. route (session_priv_bytes env) = path) envs paths"

abbreviation keyed_source :: "(bytes \<Rightarrow> RouteHop list) \<Rightarrow> 'pp outbound_route \<Rightarrow> bool" where
  "keyed_source route src \<equiv> route (or_session_priv src) = or_path src"

inductive payments_step ::
  "bytes crypto \<Rightarrow> (bytes \<Rightarrow> RouteHop list) \<Rightarrow> 'pp payments_world \<Rightarrow> 'pp payments_world \<Rightarrow> bool"
  for cr route where
  step_send: "payment_id \<notin> set (used_ids w) \<Longrightarrow> keyed_envs route envs paths \<Longrightarrow>
     send_payment_internal cr our_node_id height envs paths params payment_hash payment_secret keysend payment_id
       recv_value (manager_of w) = Ok (r, m) \<Longrightarrow>
     payments_step cr route w \<lparr>manager_of = m, used_ids = payment_id # used_ids w\<rparr>"
| step_retry: "keyed_envs route envs paths \<Longrightarrow>
     retry_payment cr our_node_id height envs paths params payment_id (manager_of w) = Ok (r, m) \<Longrightarrow>
     payments_step cr route w (w\<lparr>manager_of := m\<rparr>)"
| step_abandon: "abandon_payment payment_id (manager_of w) = Ok m \<Longrightarrow>
     payments_step cr route w (w\<lparr>manager_of := m\<rparr>)"
| step_fail: "keyed_source route src \<Longrightarrow>
     fail_outbound_htlc cr chan_update_read src payment_hash reason (manager_of w) = Ok m \<Longrightarrow>
     payments_step cr route w (w\<lparr>manager_of := m\<rparr>)"
| step_fail_held: "keyed_source route src \<Longrightarrow>
     fail_held_outbound_htlc src payment_hash (manager_of w) = Ok m \<Longrightarrow>
     payments_step cr route w (w\<lparr>manager_of := m\<rparr>)"
| step_claim: "keyed_source route src \<Longrightarrow>
     claim_outbound_htlc cr src payment_preimage from_onchain (manager_of w) = Ok m \<Longrightarrow>
     payments_step cr route w (w\<lparr>manager_of := m\<rparr>)"
| step_finalize: "finalize_claims srcs (manager_of w) = Ok m \<Longrightarrow>
     payments_step cr route w (w\<lparr>manager_of := m\<rparr>)"
| step_block: "payments_step cr route w (w\<lparr>manager_of := expire_payments height (manager_of w)\<rparr>)"

text \<open>A manager starts from the table it read from disk, which is empty for a new node.\<close>

definition loaded_with :: "(bytes \<times> PendingOutboundPayment) list \<Rightarrow> 'pp payments_world" where
  "loaded_with table =
     \<lparr>manager_of = \<lparr>pending_outbound_payments = table, pending_events = []\<rparr>, used_ids = map fst table\<rparr>"

definition loaded_phase :: "(bytes \<times> PendingOutboundPayment) list \<Rightarrow> bytes \<Rightarrow> phase" where
  "loaded_phase table i =
     (case map_of table i of Some p \<Rightarrow> if is_fulfilled p then Completed else Unresolved | None \<Rightarrow> Unresolved)"

inductive payments_reachable ::
  "bytes crypto \<Rightarrow> (bytes \<Rightarrow> RouteHop list) \<Rightarrow> (bytes \<times> PendingOutboundPayment) list \<Rightarrow> 'pp payments_world \<Rightarrow> bool"
  for cr route table where
  start: "payments_reachable cr route table (loaded_with table)"
| step: "payments_reachable cr route table w \<Longrightarrow> payments_step cr route w w' \<Longrightarrow> payments_reachable cr route table w'"

section \<open>Rewriting of the table and the event queue\<close>

lemma payment_updates [simp]:
  "payment (put_payment i p m) = (payment m)(i \<mapsto> p)"
  "payment (drop_payment i m) = (payment m)(i := None)"
  "payment (push_event e m) = payment m"
  "pending_events (put_payment i p m) = pending_events m"
  "pending_events (drop_payment i m) = pending_events m"
  "pending_events (push_event e m) = pending_events m @ [e]"
  by (simp_all add: put_payment_def drop_payment_def push_event_def)

definition keyed_once :: "'pp manager \<Rightarrow> bool" where
  "keyed_once m = distinct (map fst (pending_outbound_payments m))"

lemma keyed_once_updates [simp]:
  "keyed_once m \<Longrightarrow> keyed_once (put_payment i p m)"
  "keyed_once m \<Longrightarrow> keyed_once (drop_payment i m)"
  "keyed_once (push_event e m) = keyed_once m"
  by (simp_all add: put_payment_def drop_payment_def push_event_def keyed_once_def)

lemma push_drop: "push_event e (drop_payment i m) = drop_payment i (push_event e m)"
  by (simp add: drop_payment_def push_event_def)

lemma remove_part_kind:
  assumes "remove_part p k path = Ok (p', removed)"
  shows "is_fulfilled p' = is_fulfilled p" "is_retryable p' = is_retryable p" "abandoned p' = abandoned p"
    "payment_hash_of p' = payment_hash_of p" "session_privs p' = removeAll k (session_privs p)"
    "removed = (k \<in> set (session_privs p))"
  using assms
  by (cases p; auto simp: remove_part_def is_fulfilled_def is_retryable_def abandoned_def payment_hash_of_def
      split: if_splits option.splits)+

lemma insert_part_kind:
  assumes "insert_part p k path = Ok (p', True)"
  shows "is_retryable p' = is_retryable p" "is_fulfilled p' = is_fulfilled p" "session_privs p' = k # session_privs p"
    "k \<notin> set (session_privs p)"
  using assms
  by (cases p; auto simp: insert_part_def is_retryable_def is_fulfilled_def split: if_splits)+

section \<open>Sending\<close>

text \<open>What one path, and a list of paths, may do to the table.\<close>

lemma insert_outbound_payment_result:
  assumes "insert_outbound_payment env i h s tot path m = Ok m'"
  obtains p p' where "m' = put_payment i p' m" "insert_part p (session_priv_bytes env) path = Ok (p', True)"
    "payment m i = Some p \<or> payment m i = None \<and> p = Retryable [] h s 0 (Some 0) tot (best_block_height env)"
  using assms
  by (auto simp: insert_outbound_payment_def and_then_Ok_iff Let_def split: if_splits option.splits)

lemma send_over_channel_result:
  assumes "send_over_channel env path pp h s tot i amt cltv onion m = Ok (r, m')"
  shows "m' = m \<or> (payment m i = None \<or> (\<exists>p. payment m i = Some p \<and> is_retryable p)) \<and>
           insert_outbound_payment env i h s tot path m = Ok m'"
  using assms unfolding send_over_channel_def Let_def
  by (auto simp: map_ok_Ok_iff split: if_splits option.splits send_result.splits monitor_result.splits)

lemma send_payment_along_path_result:
  assumes "send_payment_along_path cr env path pp h s tot height i ks m = Ok (r, m')"
  shows "m' = m \<or> (payment m i = None \<or> (\<exists>p. payment m i = Some p \<and> is_retryable p)) \<and>
           insert_outbound_payment env i h s tot path m = Ok m'"
proof -
  from assms have "m' = m \<or> (\<exists>amt cltv onion. send_over_channel env path pp h s tot i amt cltv onion m = Ok (r, m'))"
    unfolding send_payment_along_path_def
    apply (cases "path = [] \<or> \<not> valid_secret env (session_priv_bytes env)"; simp)
    apply (cases "construct_onion_keys cr path (session_priv_bytes env)"; simp split: option.splits)
    apply (cases "build_onion_payloads path tot s height ks"; simp split: prod.splits)
    apply (auto simp: and_then_Ok_iff split: if_splits)
    done
  then show ?thesis
    using send_over_channel_result by blast
qed

text \<open>Any property of the manager that inserting a part keeps, for a fresh or a retryable payment, is kept.\<close>

lemma send_paths_keep:
  assumes "send_paths cr envs pp h s tot height i ks paths m = Ok (rs, m')" "keyed_envs route envs paths" "P m"
    and "\<And>env path m m'. route (session_priv_bytes env) = path \<Longrightarrow> P m \<Longrightarrow>
           payment m i = None \<or> (\<exists>p. payment m i = Some p \<and> is_retryable p) \<Longrightarrow>
           insert_outbound_payment env i h s tot path m = Ok m' \<Longrightarrow> P m'"
  shows "P m'"
  using assms(1-3)
proof (induction envs arbitrary: paths m rs m')
  case Nil
  then show ?case by (cases paths) auto
next
  case (Cons env envs)
  then obtain path rest where "paths = path # rest" "route (session_priv_bytes env) = path" "keyed_envs route envs rest"
    by (auto simp: list_all2_Cons1)
  moreover from this Cons.prems(1) obtain r m1 rs' where *:
    "send_payment_along_path cr env path pp h s tot height i ks m = Ok (r, m1)"
    "send_paths cr envs pp h s tot height i ks rest m1 = Ok (rs', m')"
    by (auto simp: and_then_Ok_iff map_ok_Ok_iff)
  ultimately have "P m1"
    using send_payment_along_path_result [OF *(1)] assms(4) [of env path m m1] Cons.prems(3) by blast
  with * \<open>keyed_envs route envs rest\<close> show ?case
    using Cons.IH by blast
qed

lemma send_payment_internal_keeps:
  assumes "send_payment_internal cr our_node_id height envs paths pp h s ks i recv m = Ok (r, m')"
    and "keyed_envs route envs paths" "P m"
    and "\<And>env path tot m m'. route (session_priv_bytes env) = path \<Longrightarrow> P m \<Longrightarrow>
           payment m i = None \<or> (\<exists>p. payment m i = Some p \<and> is_retryable p) \<Longrightarrow>
           insert_outbound_payment env i h s tot path m = Ok m' \<Longrightarrow> P m'"
  shows "P m'"
proof -
  have "m' = m \<or> (\<exists>tot rs. send_paths cr envs pp h s tot (height + 1) i ks paths m = Ok (rs, m'))"
    using assms(1) unfolding send_payment_internal_def Let_def
    by (auto simp: map_ok_Ok_iff split: if_splits)
  then show ?thesis
  proof
    assume "\<exists>tot rs. send_paths cr envs pp h s tot (height + 1) i ks paths m = Ok (rs, m')"
    then obtain tot rs where "send_paths cr envs pp h s tot (height + 1) i ks paths m = Ok (rs, m')"
      by blast
    then show ?thesis
      by (rule send_paths_keep [where P = P and route = route]) (rule assms(2), rule assms(3), rule assms(4))
  qed (simp add: assms(3))
qed

lemma retry_payment_cases:
  assumes "retry_payment cr our_node_id height envs paths pp i m = Ok (r, m')"
  obtains "m' = m"
  | p h s tot where "payment m i = Some p" "is_retryable p"
      "send_payment_internal cr our_node_id height envs paths pp h s None i (Some tot) m = Ok (r, m')"
  using assms
  by (auto simp: retry_payment_def Let_def is_retryable_def split: if_splits option.splits PendingOutboundPayment.splits)

section \<open>The life cycle is kept\<close>

definition life_ok :: "(bytes \<Rightarrow> phase) \<Rightarrow> bytes list \<Rightarrow> 'pp manager \<Rightarrow> bytes \<Rightarrow> bool" where
  "life_ok ini used m i =
     (let ph = phase_after ini (pending_events m) i in
      case payment m i of
        Some p \<Rightarrow> i \<in> set used \<and> ph = (if is_fulfilled p then Completed else Unresolved)
      | None \<Rightarrow> ph \<noteq> Violated \<and> (i \<notin> set used \<longrightarrow> ph = Unresolved))"

definition lives_ok :: "(bytes \<Rightarrow> phase) \<Rightarrow> bytes list \<Rightarrow> 'pp manager \<Rightarrow> bool" where
  "lives_ok ini used m = (keyed_once m \<and> (\<forall>i. life_ok ini used m i))"

lemma lives_ok_keyed: "lives_ok ini used m \<Longrightarrow> keyed_once m"
  by (simp add: lives_ok_def)

lemma lives_ok_at: "lives_ok ini used m \<Longrightarrow> life_ok ini used m i"
  by (simp add: lives_ok_def)

lemma lives_okD:
  "lives_ok ini used m \<Longrightarrow> payment m i = Some p \<Longrightarrow> i \<in> set used"
  "lives_ok ini used m \<Longrightarrow> payment m i = Some p \<Longrightarrow>
     phase_after ini (pending_events m) i = (if is_fulfilled p then Completed else Unresolved)"
  by (auto simp: lives_ok_def life_ok_def dest: spec [of _ i])

lemma life_ok_more: "\<forall>i. life_ok ini used m i \<Longrightarrow> life_ok ini (j # used) m i"
  by (drule spec [of _ i]) (auto simp: life_ok_def Let_def split: option.splits)

text \<open>Only the payment an operation is about can change.\<close>

lemma lives_ok_local:
  assumes "lives_ok ini used m" "keyed_once m'" "life_ok ini used m' i"
    and "\<And>j. j \<noteq> i \<Longrightarrow> payment m' j = payment m j \<and> phase_after ini (pending_events m') j = phase_after ini (pending_events m) j"
  shows "lives_ok ini used m'"
proof -
  have "life_ok ini used m' j" for j
    using assms(1,3) assms(4) [of j] by (cases "j = i") (auto simp: lives_ok_def life_ok_def)
  with assms(2) show ?thesis
    by (simp add: lives_ok_def)
qed

lemma lives_ok_insert:
  assumes "lives_ok ini used m" "insert_outbound_payment env i h s tot path m = Ok m'"
    and "i \<in> set used" "payment m i = None \<longrightarrow> phase_after ini (pending_events m) i = Unresolved"
    and "payment m i = None \<or> (\<exists>p. payment m i = Some p \<and> is_retryable p)"
  shows "lives_ok ini used m'" "payment m' i \<noteq> None"
proof -
  obtain p p' where *: "m' = put_payment i p' m" "insert_part p (session_priv_bytes env) path = Ok (p', True)"
    "payment m i = Some p \<or> payment m i = None \<and> p = Retryable [] h s 0 (Some 0) tot (best_block_height env)"
    using assms(2) by (rule insert_outbound_payment_result)
  have "is_retryable p"
    using * assms(5) by (auto simp: is_retryable_def)
  with insert_part_kind [OF *(2)] have "\<not> is_fulfilled p'"
    by (cases p'; cases p) (auto simp: is_retryable_def is_fulfilled_def)
  moreover have "phase_after ini (pending_events m) i = Unresolved"
    using assms(4) lives_okD(2) [OF assms(1)] * \<open>is_retryable p\<close>
    by (cases p) (auto simp: is_retryable_def is_fulfilled_def)
  ultimately show "lives_ok ini used m'"
    using assms(1,3) *(1) by (intro lives_ok_local [OF assms(1), where i = i]) (auto simp: life_ok_def lives_ok_keyed)
  show "payment m' i \<noteq> None"
    by (simp add: *(1))
qed

lemma lives_ok_send:
  assumes "lives_ok ini used m" "i \<in> set used" "payment m i = None \<longrightarrow> phase_after ini (pending_events m) i = Unresolved"
    and "keyed_envs route envs paths"
    and "send_payment_internal cr our_node_id height envs paths pp h s ks i recv m = Ok (r, m')"
  shows "lives_ok ini used m'"
proof -
  let ?P = "\<lambda>m1. lives_ok ini used m1 \<and> (payment m1 i = None \<longrightarrow> phase_after ini (pending_events m1) i = Unresolved)"
  have step: "?P m2" if "?P m1" "payment m1 i = None \<or> (\<exists>p. payment m1 i = Some p \<and> is_retryable p)"
    "insert_outbound_payment env i h s tot path m1 = Ok m2" for env path tot m1 m2
    using lives_ok_insert [OF _ that(3) assms(2) _ that(2), where ini = ini] that(1) by auto
  have "?P m'"
  proof (rule send_payment_internal_keeps [where P = ?P, OF assms(5,4)])
    show "?P m" using assms(1,3) by simp
  qed (rule step)
  then show ?thesis by simp
qed

lemma lives_ok_abandon:
  assumes "lives_ok ini used m" "abandon_payment i m = Ok m'"
  shows "lives_ok ini used m'"
proof (cases "payment m i")
  case (Some p)
  show ?thesis
  proof (cases "mark_abandoned p")
    case (Some p')
    with \<open>payment m i = Some p\<close> lives_okD [OF assms(1), of i p]
    have "\<not> is_fulfilled p'" "i \<in> set used" "phase_after ini (pending_events m) i = Unresolved"
      by (cases p; auto simp: mark_abandoned_def is_fulfilled_def)+
    with Some \<open>payment m i = Some p\<close> assms show ?thesis
      by (intro lives_ok_local [OF assms(1), where i = i])
         (auto simp: abandon_payment_def map_ok_Ok_iff life_ok_def lives_ok_keyed split: if_splits)
  qed (use assms Some in \<open>simp add: abandon_payment_def\<close>)
qed (use assms in \<open>simp add: abandon_payment_def\<close>)

text \<open>
  Every other operation replaces the entry of one payment by one of the same kind or drops it, and
  appends events of that payment.
\<close>

lemma life_ok_after:
  assumes "lives_ok ini used m" "payment m i = Some p" "is_fulfilled p' = is_fulfilled p"
  shows "lives_ok ini used (put_payment i p' m)"
    "\<not> is_fulfilled p \<Longrightarrow> pf_payment_id pf = i \<Longrightarrow> lives_ok ini used (push_event (EvPaymentPathFailed pf) m)"
    "\<not> is_fulfilled p \<Longrightarrow> lives_ok ini used (drop_payment i (push_event (EvPaymentFailed i h) m))"
    "\<not> is_fulfilled p \<Longrightarrow> is_fulfilled q \<Longrightarrow> lives_ok ini used (put_payment i q (push_event (EvPaymentSent i pre h' fee) m))"
    "is_fulfilled p \<Longrightarrow> lives_ok ini used (push_event (EvPaymentPathSuccessful i oh path) m)"
    "is_fulfilled p \<Longrightarrow> lives_ok ini used (drop_payment i m)"
  using lives_okD [OF assms(1,2)] lives_ok_keyed [OF assms(1)] assms(2,3)
  by (auto intro!: lives_ok_local [OF assms(1), where i = i] simp: life_ok_def)

lemma lives_ok_part_failed:
  assumes "lives_ok ini used m" "payment m i = Some p" "\<not> is_fulfilled p"
    and "\<exists>pf. pf_payment_id pf = i \<and>
         (m' = push_event (EvPaymentPathFailed pf) m \<or>
          (\<exists>h. m' = drop_payment i (push_event (EvPaymentFailed i h) (push_event (EvPaymentPathFailed pf) m))))"
  shows "lives_ok ini used m'"
proof -
  obtain pf where pf: "pf_payment_id pf = i" "m' = push_event (EvPaymentPathFailed pf) m \<or>
      (\<exists>h. m' = drop_payment i (push_event (EvPaymentFailed i h) (push_event (EvPaymentPathFailed pf) m)))"
    using assms(4) by blast
  have "lives_ok ini used (push_event (EvPaymentPathFailed pf) m)"
    using life_ok_after(2) [OF assms(1,2) refl assms(3) pf(1)] .
  from life_ok_after(3) [OF this, of i p p] this pf assms(2,3) show ?thesis by auto
qed

lemma lives_ok_fail_held:
  assumes "lives_ok ini used m" "fail_held_outbound_htlc src h m = Ok m'"
  shows "lives_ok ini used m'"
proof (cases "payment m (or_payment_id src)")
  case (Some p)
  with assms(2) obtain p' removed where r: "remove_part p (or_session_priv src) (Some (or_path src)) = Ok (p', removed)"
    by (auto simp: fail_held_outbound_htlc_def and_then_Ok_iff)
  let ?m1 = "put_payment (or_payment_id src) p' m"
  have 1: "lives_ok ini used ?m1"
    using life_ok_after(1) [OF assms(1) Some] remove_part_kind(1) [OF r] by simp
  have 2: "payment ?m1 (or_payment_id src) = Some p'" by simp
  show ?thesis
  proof (cases "removed \<and> \<not> is_fulfilled p'")
    case True
    from True assms(2) Some r obtain retry where "retry_of src = Ok retry"
      by (auto simp: fail_held_outbound_htlc_def and_then_Ok_iff Let_def)
    with True assms(2) Some r have
      "\<exists>pf. pf_payment_id pf = or_payment_id src \<and>
         (m' = push_event (EvPaymentPathFailed pf) ?m1 \<or>
          (\<exists>h'. m' = drop_payment (or_payment_id src) (push_event (EvPaymentFailed (or_payment_id src) h')
                 (push_event (EvPaymentPathFailed pf) ?m1))))"
      by (intro exI [of _ "\<lparr>pf_payment_id = or_payment_id src, pf_payment_hash = h,
                     pf_rejected_by_dest = False, pf_network_update = None,
                     pf_all_paths_failed = (remaining_parts p' = 0), pf_path = or_path src,
                     pf_short_channel_id = None, pf_retry = retry, pf_error_code = None, pf_error_data = None\<rparr>"])
         (auto simp: fail_held_outbound_htlc_def map_ok_Ok_iff Let_def split: if_splits)
    with True show ?thesis
      using lives_ok_part_failed [OF 1 2] by simp
  qed (use assms(2) Some r 1 in \<open>auto simp: fail_held_outbound_htlc_def Let_def\<close>)
qed (use assms in \<open>auto simp: fail_held_outbound_htlc_def\<close>)

lemma path_failure_of_id:
  "path_failure_of cr read src h e all retry = Ok pf \<Longrightarrow> pf_payment_id pf = or_payment_id src"
  by (auto simp: path_failure_of_def map_ok_Ok_iff split: HTLCFailReason.splits if_splits)

lemma lives_ok_fail:
  assumes "lives_ok ini used m" "fail_outbound_htlc cr read src h e m = Ok m'"
  shows "lives_ok ini used m'"
proof (cases "payment m (or_payment_id src)")
  case (Some p)
  with assms(2) obtain p' removed where r: "remove_part p (or_session_priv src) (Some (or_path src)) = Ok (p', removed)"
    by (auto simp: fail_outbound_htlc_def and_then_Ok_iff)
  let ?m1 = "put_payment (or_payment_id src) p' m"
  have 1: "lives_ok ini used ?m1"
    using life_ok_after(1) [OF assms(1) Some] remove_part_kind(1) [OF r] by simp
  have 2: "payment ?m1 (or_payment_id src) = Some p'" by simp
  show ?thesis
  proof (cases "removed \<and> \<not> is_fulfilled p'")
    case True
    with assms(2) Some r have
      "\<exists>pf. pf_payment_id pf = or_payment_id src \<and>
         (m' = push_event (EvPaymentPathFailed pf) ?m1 \<or>
          (\<exists>h'. m' = drop_payment (or_payment_id src) (push_event (EvPaymentFailed (or_payment_id src) h')
                 (push_event (EvPaymentPathFailed pf) ?m1))))"
      by (auto simp: fail_outbound_htlc_def and_then_Ok_iff map_ok_Ok_iff Let_def split: if_splits
          dest!: path_failure_of_id simp: push_drop, blast)
    with True show ?thesis
      using lives_ok_part_failed [OF 1 2] by simp
  qed (use assms Some r 1 in \<open>auto simp: fail_outbound_htlc_def Let_def split: if_splits\<close>)
qed (use assms in \<open>auto simp: fail_outbound_htlc_def\<close>)

text \<open>A part of a fulfilled payment leaves: its success is reported, and the last one removes the payment.\<close>

lemma lives_ok_part_done:
  assumes "lives_ok ini used m" "payment m i = Some p" "is_fulfilled p" "is_fulfilled p'"
  shows "lives_ok ini used (part_done i oh path p' removed m)"
proof -
  define m1 where
    "m1 = (if removed then push_event (EvPaymentPathSuccessful i oh path) (put_payment i p' m) else put_payment i p' m)"
  have 1: "lives_ok ini used (put_payment i p' m)"
    using life_ok_after(1) [OF assms(1,2)] assms(3,4) by simp
  have 2: "lives_ok ini used m1"
    using 1 life_ok_after(5) [OF 1, of i p' p'] assms(4) by (simp add: m1_def)
  have 3: "payment m1 i = Some p'"
    by (simp add: m1_def)
  show ?thesis
    using 2 life_ok_after(6) [OF 2 3 refl assms(4)] by (simp add: part_done_def m1_def [symmetric])
qed

lemma lives_ok_claim:
  assumes "lives_ok ini used m" "claim_outbound_htlc cr src pre from_onchain m = Ok m'"
  shows "lives_ok ini used m'"
proof (cases "payment m (or_payment_id src)")
  case (Some p)
  let ?i = "or_payment_id src" and ?h = "sha256_hash cr pre"
  define p1 where "p1 = (if is_fulfilled p then p else mark_fulfilled p)"
  define m1 where "m1 = (if is_fulfilled p then m
     else put_payment ?i (mark_fulfilled p) (push_event (EvPaymentSent ?i pre ?h (get_pending_fee_msat p)) m))"
  have 1: "is_fulfilled p1" and 2: "payment m1 ?i = Some p1"
    using Some by (simp_all add: p1_def m1_def is_fulfilled_def mark_fulfilled_def)
  have 3: "lives_ok ini used m1"
    using life_ok_after(4) [OF assms(1) Some refl] assms(1) by (simp add: m1_def is_fulfilled_def mark_fulfilled_def)
  have "(if is_fulfilled p then (p, m)
     else (mark_fulfilled p, put_payment ?i (mark_fulfilled p) (push_event (EvPaymentSent ?i pre ?h (get_pending_fee_msat p)) m)))
     = (p1, m1)"
    by (simp add: p1_def m1_def)
  with assms(2) Some have *: "(if \<not> from_onchain then Ok m1
     else map_ok (\<lambda>(p2, removed). part_done ?i (Some ?h) (or_path src) p2 removed m1)
            (remove_part p1 (or_session_priv src) (Some (or_path src)))) = Ok m'"
    unfolding claim_outbound_htlc_def Let_def by simp
  show ?thesis
  proof (cases from_onchain)
    case True
    with * obtain p2 removed where r: "remove_part p1 (or_session_priv src) (Some (or_path src)) = Ok (p2, removed)"
      "m' = part_done ?i (Some ?h) (or_path src) p2 removed m1"
      by (auto simp: map_ok_Ok_iff)
    with remove_part_kind(1) [OF r(1)] 1 show ?thesis
      using lives_ok_part_done [OF 3 2 1] by simp
  qed (use * 3 in simp)
qed (use assms in \<open>auto simp: claim_outbound_htlc_def\<close>)

lemma lives_ok_finalize:
  "lives_ok ini used m \<Longrightarrow> finalize_claims srcs m = Ok m' \<Longrightarrow> lives_ok ini used m'"
proof (induction srcs arbitrary: m)
  case (Cons src srcs)
  from Cons.prems(2) obtain m1 where m1: "finalize_claim src m = Ok m1" "finalize_claims srcs m1 = Ok m'"
    by (auto simp: and_then_Ok_iff)
  have "lives_ok ini used m1"
  proof (cases "payment m (or_payment_id src)")
    case (Some p)
    with m1(1) obtain p' removed where r: "is_fulfilled p" "remove_part p (or_session_priv src) None = Ok (p', removed)"
      "m1 = part_done (or_payment_id src) (payment_hash_of p') (or_path src) p' removed m"
      by (auto simp: finalize_claim_def Let_def map_ok_Ok_iff split: if_splits)
    with remove_part_kind(1) [OF r(2)] show ?thesis
      using lives_ok_part_done [OF Cons.prems(1) Some] by simp
  qed (use m1 Cons.prems in \<open>auto simp: finalize_claim_def Let_def\<close>)
  with m1(2) Cons.IH show ?case by blast
qed simp

text \<open>A block reports each payment it gives up once, since each id has one entry.\<close>

lemma map_of_filter_values:
  "distinct (map fst ps) \<Longrightarrow>
   map_of (filter (\<lambda>(_, p). Q p) ps) i = (case map_of ps i of Some p \<Rightarrow> if Q p then Some p else None | None \<Rightarrow> None)"
  by (induction ps) (auto simp: map_of_eq_None_iff rev_image_eqI split: option.splits)

lemma phase_after_expired:
  fixes es :: "'pp manager_event list"
  assumes "distinct (map fst ps)"
  shows "phase_after ini (es @ map (\<lambda>(i, p). EvPaymentFailed i (rt_payment_hash p)) (filter (\<lambda>(_, p). Q p) ps)) j =
    (case map_of ps j of
       Some p \<Rightarrow> if Q p then phase_step (phase_after ini es j) (EvPaymentFailed j (rt_payment_hash p) :: 'pp manager_event) else phase_after ini es j
     | None \<Rightarrow> phase_after ini es j)"
  using assms
proof (induction ps arbitrary: es)
  case (Cons x ps)
  obtain i p where x: "x = (i, p)" by fastforce
  have none: "map_of ps i = None"
    using Cons.prems by (simp add: x map_of_eq_None_iff)
  have "phase_after ini (es @ EvPaymentFailed i (rt_payment_hash p) #
      map (\<lambda>(i, p). EvPaymentFailed i (rt_payment_hash p)) (filter (\<lambda>(_, p). Q p) ps)) j =
    phase_after ini ((es @ [EvPaymentFailed i (rt_payment_hash p)]) @
      map (\<lambda>(i, p). EvPaymentFailed i (rt_payment_hash p)) (filter (\<lambda>(_, p). Q p) ps)) j"
    by simp
  with Cons none show ?case
    by (auto simp: x phase_after_snoc simp del: append_assoc split: option.splits)
qed simp

lemma lives_ok_expire:
  fixes m :: "'a manager"
  assumes "lives_ok ini used m"
  shows "lives_ok ini used (expire_payments height m)"
proof -
  have d: "distinct (map fst (pending_outbound_payments m))"
    using assms by (simp add: lives_ok_def keyed_once_def)
  have "payment (expire_payments height m) i =
      (case payment m i of Some p \<Rightarrow> if timed_out height p then None else Some p | None \<Rightarrow> None)" for i
    using d by (simp add: expire_payments_def map_of_filter_values [where Q = "\<lambda>p. \<not> timed_out height p"] split: option.split)
  moreover have "\<not> is_fulfilled p" if "timed_out height p" for p
    using that by (cases p) (auto simp: timed_out_def is_fulfilled_def)
  moreover have "phase_after ini (pending_events (expire_payments height m)) i =
      (case payment m i of
         Some p \<Rightarrow> if timed_out height p then phase_step (phase_after ini (pending_events m) i)
                      (EvPaymentFailed i (rt_payment_hash p) :: 'a manager_event) else phase_after ini (pending_events m) i
       | None \<Rightarrow> phase_after ini (pending_events m) i)" for i
    using phase_after_expired [OF d, of ini "pending_events m" "timed_out height"] by (simp add: expire_payments_def)
  ultimately have "life_ok ini used (expire_payments height m) i" for i
    using lives_ok_at [OF assms, of i] by (auto simp: life_ok_def Let_def split: option.splits)
  then show ?thesis
    using d by (simp add: lives_ok_def keyed_once_def expire_payments_def distinct_map_filter)
qed

lemma lives_ok_step:
  assumes "payments_step cr route w w'" "lives_ok ini (used_ids w) (manager_of w)"
  shows "lives_ok ini (used_ids w') (manager_of w')"
  using assms
proof cases
  case (step_send payment_id envs paths our_node_id height params payment_hash payment_secret keysend recv_value r m)
  have none: "payment (manager_of w) payment_id = None"
    using step_send(2) lives_okD(1) [OF assms(2), of payment_id] by (cases "payment (manager_of w) payment_id") auto
  then have "phase_after ini (pending_events (manager_of w)) payment_id = Unresolved"
    using step_send(2) assms(2) by (auto simp: lives_ok_def life_ok_def Let_def dest: spec [of _ payment_id])
  moreover have "lives_ok ini (payment_id # used_ids w) (manager_of w)"
    using assms(2) by (auto simp: lives_ok_def intro: life_ok_more)
  ultimately show ?thesis
    using lives_ok_send [OF _ _ _ step_send(3,4), of ini "payment_id # used_ids w"] step_send(1) by simp
next
  case (step_retry envs paths our_node_id height params payment_id r m)
  from step_retry(3) show ?thesis
  proof (cases rule: retry_payment_cases)
    case (2 p h s tot)
    then show ?thesis
      using lives_ok_send [OF assms(2) _ _ step_retry(2) 2(3)] lives_okD(1) [OF assms(2) 2(1)] step_retry(1) by simp
  qed (use assms(2) step_retry in simp)
qed (use lives_ok_abandon lives_ok_fail lives_ok_fail_held lives_ok_claim lives_ok_finalize lives_ok_expire in auto)

lemma lives_ok_reachable:
  assumes "distinct (map fst table)" "payments_reachable cr route table w"
  shows "lives_ok (loaded_phase table) (used_ids w) (manager_of w)"
  using assms(2)
proof induction
  case start
  show ?case
    using assms(1) by (auto simp: lives_ok_def life_ok_def keyed_once_def loaded_with_def loaded_phase_def Let_def
        map_of_eq_None_iff dest: map_of_SomeD intro: rev_image_eqI split: option.splits)
next
  case (step w w')
  then show ?case using lives_ok_step by blast
qed

text \<open>
  C5. What the channel manager reports about an outgoing payment follows the life of a payment, however
  its operations interleave: starting from the table read from disk, whatever is sent with fresh ids,
  retried, abandoned, failed, held back, claimed, finalised or timed out, for every payment the events
  reported are failures of paths, then at most one of \<open>PaymentSent\<close> and \<open>PaymentFailed\<close>; after
  \<open>PaymentSent\<close> only successes of paths follow and after \<open>PaymentFailed\<close> nothing does. A payment the table
  holds as fulfilled has been reported sent, and any other the table holds has been reported neither sent
  nor failed.
\<close>

theorem payment_life_cycle:
  assumes "distinct (map fst table)" "payments_reachable cr route table w"
  shows "phase_after (loaded_phase table) (pending_events (manager_of w)) i \<noteq> Violated \<and>
    (\<forall>p. payment (manager_of w) i = Some p \<longrightarrow>
       phase_after (loaded_phase table) (pending_events (manager_of w)) i = (if is_fulfilled p then Completed else Unresolved))"
  using lives_ok_at [OF lives_ok_reachable [OF assms], of i] by (auto simp: life_ok_def Let_def split: option.splits if_splits)

definition demo_table :: "(bytes \<times> PendingOutboundPayment) list" where
  "demo_table = [([1], Retryable [[9]] [5] None 1000 (Some 0) 1000 100)]"

definition demo_source :: "unit outbound_route" where
  "demo_source = \<lparr>or_path = [demo_final_hop], or_session_priv = [9], or_first_hop_htlc_msat = 1000,
     or_payment_id = [1], or_payment_secret = None, or_payment_params = None\<rparr>"

text \<open>A part fails, then the payment is abandoned.\<close>

definition demo_failure :: "unit path_failure" where
  "demo_failure = \<lparr>pf_payment_id = [1], pf_payment_hash = [5], pf_rejected_by_dest = True, pf_network_update = None,
     pf_all_paths_failed = True, pf_path = [demo_final_hop], pf_short_channel_id = Some 42, pf_retry = None,
     pf_error_code = Some 0x400f, pf_error_data = Some []\<rparr>"

definition demo_failed_world :: "unit payments_world" where
  "demo_failed_world =
     \<lparr>manager_of = \<lparr>pending_outbound_payments = [([1], Retryable [] [5] None 0 (Some 0) 1000 100)],
        pending_events = [EvPaymentPathFailed demo_failure]\<rparr>, used_ids = [[1]]\<rparr>"

definition demo_given_up_world :: "unit payments_world" where
  "demo_given_up_world =
     \<lparr>manager_of = \<lparr>pending_outbound_payments = [],
        pending_events = [EvPaymentPathFailed demo_failure, EvPaymentFailed [1] [5]]\<rparr>, used_ids = [[1]]\<rparr>"

lemmas demo_world_simps = demo_table_def demo_source_def demo_failure_def demo_failed_world_def demo_given_up_world_def
  demo_final_hop_def loaded_with_def

lemma demo_failed_reachable: "payments_reachable demo_crypto (\<lambda>k. [demo_final_hop]) demo_table demo_failed_world"
proof (rule payments_reachable.step)
  show "payments_reachable demo_crypto (\<lambda>k. [demo_final_hop]) demo_table (loaded_with demo_table)"
    by (rule payments_reachable.start)
  have "fail_outbound_htlc demo_crypto (\<lambda>b. None) demo_source [5] (Reason 0x400f []) (manager_of (loaded_with demo_table))
      = Ok (manager_of demo_failed_world)"
    by (simp add: demo_world_simps fail_outbound_htlc_def remove_part_def get_path_fees_def is_fulfilled_def
        remaining_parts_def abandoned_def retry_of_def path_failure_of_def put_payment_def push_event_def)
  from payments_step.step_fail [OF _ this, where route = "\<lambda>k. [demo_final_hop]"]
  show "payments_step demo_crypto (\<lambda>k. [demo_final_hop]) (loaded_with demo_table) demo_failed_world"
    by (simp add: demo_world_simps)
qed

lemma demo_given_up_reachable: "payments_reachable demo_crypto (\<lambda>k. [demo_final_hop]) demo_table demo_given_up_world"
proof (rule payments_reachable.step [OF demo_failed_reachable])
  have "abandon_payment [1] (manager_of demo_failed_world) = Ok (manager_of demo_given_up_world)"
    by (simp add: demo_world_simps abandon_payment_def mark_abandoned_def remaining_parts_def payment_hash_of_def
        drop_payment_def push_event_def hm_remove_def)
  from payments_step.step_abandon [OF this, where cr = demo_crypto and route = "\<lambda>k. [demo_final_hop]"]
  show "payments_step demo_crypto (\<lambda>k. [demo_final_hop]) demo_failed_world demo_given_up_world"
    by (simp add: demo_world_simps)
qed

theorem payment_life_cycle_witness:
  "payments_reachable demo_crypto (\<lambda>k. [demo_final_hop]) demo_table demo_given_up_world \<and>
   pending_events (manager_of demo_given_up_world) = [EvPaymentPathFailed demo_failure, EvPaymentFailed [1] [5]] \<and>
   phase_after (loaded_phase demo_table) (pending_events (manager_of demo_given_up_world)) [1] \<noteq> Violated"
  using payment_life_cycle [OF _ demo_given_up_reachable, of "[1]"] demo_given_up_reachable
  by (simp add: demo_table_def demo_given_up_world_def)

section \<open>Amounts in flight\<close>

definition amounts_ok :: "(bytes \<Rightarrow> RouteHop list) \<Rightarrow> PendingOutboundPayment \<Rightarrow> bool" where
  "amounts_ok route p =
     (distinct (session_privs p) \<and>
      (case p of
         Retryable privs _ _ amt fee _ _ \<Rightarrow>
           amt = (\<Sum>k\<leftarrow>privs. fee_msat (last (route k))) \<and>
           (\<forall>f. fee = Some f \<longrightarrow> f = (\<Sum>k\<leftarrow>privs. get_path_fees (route k)))
       | _ \<Rightarrow> True))"

definition all_amounts_ok :: "(bytes \<Rightarrow> RouteHop list) \<Rightarrow> 'pp manager \<Rightarrow> bool" where
  "all_amounts_ok route m = (\<forall>p\<in>ran (payment m). amounts_ok route p)"

lemma all_amounts_ok_updates [simp]:
  "all_amounts_ok route (push_event e m) = all_amounts_ok route m"
  "all_amounts_ok route m \<Longrightarrow> amounts_ok route p \<Longrightarrow> all_amounts_ok route (put_payment i p m)"
  "all_amounts_ok route m \<Longrightarrow> all_amounts_ok route (drop_payment i m)"
  by (auto simp: all_amounts_ok_def ran_def)

lemma all_amounts_okD: "all_amounts_ok route m \<Longrightarrow> payment m i = Some p \<Longrightarrow> amounts_ok route p"
  by (auto simp: all_amounts_ok_def ran_def)

lemma sum_list_removeAll:
  fixes f :: "'k \<Rightarrow> 'a :: ab_group_add"
  shows "distinct xs \<Longrightarrow> k \<in> set xs \<Longrightarrow> (\<Sum>x\<leftarrow>removeAll k xs. f x) = (\<Sum>x\<leftarrow>xs. f x) - f k"
  by (induction xs) (auto simp: removeAll_id)

lemma amounts_ok_remove:
  assumes "amounts_ok route p" "remove_part p k path = Ok (p', removed)" "path = None \<or> path = Some (route k)"
  shows "amounts_ok route p'"
  using assms
  by (cases p) (auto simp: amounts_ok_def remove_part_def sum_list_removeAll distinct_removeAll split: if_splits option.splits)

lemma amounts_ok_insert:
  assumes "amounts_ok route p" "insert_part p k (route k) = Ok (p', True)"
  shows "amounts_ok route p'"
  using assms
  by (cases p) (auto simp: amounts_ok_def insert_part_def add.commute split: if_splits)

lemma amounts_ok_marked:
  "amounts_ok route p \<Longrightarrow> amounts_ok route (mark_fulfilled p)"
  "amounts_ok route p \<Longrightarrow> mark_abandoned p = Some p' \<Longrightarrow> amounts_ok route p'"
  by (auto simp: amounts_ok_def mark_fulfilled_def mark_abandoned_def split: PendingOutboundPayment.splits)

lemma amounts_insert_outbound:
  assumes "all_amounts_ok route m" "insert_outbound_payment env i h s tot path m = Ok m'"
    and "route (session_priv_bytes env) = path"
  shows "all_amounts_ok route m'"
proof -
  obtain p p' where *: "m' = put_payment i p' m" "insert_part p (session_priv_bytes env) path = Ok (p', True)"
    "payment m i = Some p \<or> payment m i = None \<and> p = Retryable [] h s 0 (Some 0) tot (best_block_height env)"
    using assms(2) by (rule insert_outbound_payment_result)
  then have "amounts_ok route p"
    using all_amounts_okD [OF assms(1)] by (auto simp: amounts_ok_def)
  with amounts_ok_insert * assms(1,3) show ?thesis by auto
qed

lemma amounts_send:
  assumes "all_amounts_ok route m" "keyed_envs route envs paths"
    and "send_payment_internal cr our_node_id height envs paths pp h s ks i recv m = Ok (r, m')"
  shows "all_amounts_ok route m'"
proof (rule send_payment_internal_keeps [where P = "all_amounts_ok route", OF assms(3,2,1)])
qed (rule amounts_insert_outbound)

lemma amounts_part_done:
  "all_amounts_ok route m \<Longrightarrow> amounts_ok route p' \<Longrightarrow> all_amounts_ok route (part_done i h path p' removed m)"
  by (simp add: part_done_def Let_def)

lemma amounts_fail:
  assumes "all_amounts_ok route m" "keyed_source route src" "fail_outbound_htlc cr read src h e m = Ok m'"
  shows "all_amounts_ok route m'"
  using assms(1,3) amounts_ok_remove [OF all_amounts_okD [OF assms(1)] _ disjI2, where k = "or_session_priv src"] assms(2)
  by (auto simp: fail_outbound_htlc_def and_then_Ok_iff map_ok_Ok_iff Let_def split: option.splits if_splits)

lemma amounts_fail_held:
  assumes "all_amounts_ok route m" "keyed_source route src" "fail_held_outbound_htlc src h m = Ok m'"
  shows "all_amounts_ok route m'"
  using assms(1,3) amounts_ok_remove [OF all_amounts_okD [OF assms(1)] _ disjI2, where k = "or_session_priv src"] assms(2)
  by (auto simp: fail_held_outbound_htlc_def and_then_Ok_iff map_ok_Ok_iff Let_def split: option.splits if_splits)

lemma amounts_claim:
  assumes "all_amounts_ok route m" "keyed_source route src" "claim_outbound_htlc cr src pre oc m = Ok m'"
  shows "all_amounts_ok route m'"
proof (cases "payment m (or_payment_id src)")
  case (Some p)
  have "amounts_ok route p" "amounts_ok route (mark_fulfilled p)"
    using all_amounts_okD [OF assms(1) Some] amounts_ok_marked(1) by auto
  with Some assms show ?thesis
    by (auto simp: claim_outbound_htlc_def map_ok_Ok_iff Let_def intro!: amounts_part_done
        elim: amounts_ok_remove split: if_splits)
qed (use assms in \<open>auto simp: claim_outbound_htlc_def\<close>)

lemma amounts_finalize:
  "all_amounts_ok route m \<Longrightarrow> finalize_claims srcs m = Ok m' \<Longrightarrow> all_amounts_ok route m'"
proof (induction srcs arbitrary: m)
  case (Cons src srcs)
  then obtain m1 where m1: "finalize_claim src m = Ok m1" "finalize_claims srcs m1 = Ok m'"
    by (auto simp: and_then_Ok_iff)
  have "all_amounts_ok route m1"
    using m1(1) Cons.prems(1) all_amounts_okD [OF Cons.prems(1), of "or_payment_id src"]
    by (auto simp: finalize_claim_def Let_def map_ok_Ok_iff intro!: amounts_part_done
        elim: amounts_ok_remove split: if_splits option.splits)
  with m1(2) Cons.IH show ?case by blast
qed simp

lemma amounts_abandon:
  assumes "all_amounts_ok route m" "abandon_payment i m = Ok m'"
  shows "all_amounts_ok route m'"
  using assms amounts_ok_marked(2) [OF all_amounts_okD [OF assms(1), of i]]
  by (auto simp: abandon_payment_def map_ok_Ok_iff split: option.splits if_splits)

lemma amounts_expire:
  assumes "all_amounts_ok route m" "keyed_once m"
  shows "all_amounts_ok route (expire_payments height m)"
  using assms
  by (auto simp: all_amounts_ok_def keyed_once_def expire_payments_def ran_def
      map_of_filter_values [where Q = "\<lambda>p. \<not> timed_out height p"] split: option.splits if_splits)

lemma amounts_step:
  assumes "payments_step cr route w w'" "all_amounts_ok route (manager_of w)" "keyed_once (manager_of w)"
  shows "all_amounts_ok route (manager_of w')"
  using assms
proof cases
  case (step_retry envs paths our_node_id height params payment_id r m)
  from step_retry(3) show ?thesis
    by (cases rule: retry_payment_cases) (use step_retry assms amounts_send in auto)
qed (use amounts_send amounts_fail amounts_fail_held amounts_claim amounts_finalize amounts_abandon amounts_expire in auto)

lemma amounts_reachable:
  assumes "distinct (map fst table)" "\<forall>(i, p)\<in>set table. amounts_ok route p" "payments_reachable cr route table w"
  shows "all_amounts_ok route (manager_of w)"
  using assms(3)
proof induction
  case start
  show ?case
    using assms(2) by (auto simp: all_amounts_ok_def loaded_with_def ran_def dest!: map_of_SomeD)
next
  case (step w w')
  then show ?case
    using amounts_step lives_ok_keyed lives_ok_reachable [OF assms(1)] by blast
qed

text \<open>
  C30. The amounts a retryable payment carries are those of its parts in flight: if this holds of the
  table read from disk, then after any run the pending amount is the sum of what the paths in flight
  deliver and the pending fee, where known, the sum of their fees (modulo the width of the integers), no
  part is counted twice, and that fee is the one \<open>PaymentSent\<close> reports when a part is claimed.
\<close>

theorem payment_amounts:
  assumes "distinct (map fst table)" "\<forall>(i, p)\<in>set table. amounts_ok route p" "payments_reachable cr route table w"
    and "payment (manager_of w) i = Some (Retryable privs h s amt fee tot start)"
  shows "distinct privs \<and> amt = (\<Sum>k\<leftarrow>privs. fee_msat (last (route k))) \<and>
    (fee = None \<or> fee = Some (\<Sum>k\<leftarrow>privs. get_path_fees (route k))) \<and>
    (or_payment_id src = i \<longrightarrow> claim_outbound_htlc cr src pre False (manager_of w) =
       Ok (put_payment i (Fulfilled privs (Some h)) (push_event (EvPaymentSent i pre (sha256_hash cr pre) fee) (manager_of w))))"
  using all_amounts_okD [OF amounts_reachable [OF assms(1-3)] assms(4)] assms(4)
  by (cases fee) (auto simp: amounts_ok_def claim_outbound_htlc_def is_fulfilled_def mark_fulfilled_def payment_hash_of_def
      get_pending_fee_msat_def)

theorem payment_amounts_witness:
  "payments_reachable demo_crypto (\<lambda>k. [demo_final_hop]) demo_table (loaded_with demo_table :: unit payments_world) \<and>
   (1000 :: u64) = (\<Sum>k\<leftarrow>[[9 :: u8]]. fee_msat (last [demo_final_hop])) \<and>
   claim_outbound_htlc demo_crypto demo_source [4] False (manager_of (loaded_with demo_table)) =
     Ok (put_payment [1] (Fulfilled [[9]] (Some [5]))
          (push_event (EvPaymentSent [1] [4] (replicate 32 0) (Some 0)) (manager_of (loaded_with demo_table))))"
proof -
  have "\<forall>(i, p)\<in>set demo_table. amounts_ok (\<lambda>k. [demo_final_hop]) p"
    by (simp add: demo_table_def amounts_ok_def demo_final_hop_def get_path_fees_def)
  moreover have "distinct (map fst demo_table)" by (simp add: demo_table_def)
  moreover have "payment (manager_of (loaded_with demo_table :: unit payments_world)) [1] = Some (Retryable [[9]] [5] None 1000 (Some 0) 1000 100)"
    by (simp add: demo_table_def loaded_with_def)
  ultimately show ?thesis
    using payment_amounts [OF _ _ payments_reachable.start, of demo_table "\<lambda>k. [demo_final_hop]" "[1]" "[[9]]" "[5]" None 1000
        "Some 0" 1000 100 demo_source demo_crypto "[4]"]
    by (simp add: payments_reachable.start demo_source_def demo_crypto_def)
qed

end
