(* ===== verification/Inbound_Payment.thy ===== *)
theory Inbound_Payment
  imports Outbound_Payments
begin

text \<open>
  Stateless bookkeeping of incoming payments (\<open>lightning/src/ln/inbound_payment.rs\<close>): the payment secret
  carries the encrypted minimum amount and expiry, so the node stores nothing and checks a received
  payment against its secret. HMAC and SHA-256 are the functions of the crypto record; time comparisons
  and the constant-time equality are those of the code, logging is left out. The 64-bit sum of the
  expiry wraps as in a release build.
\<close>

section \<open>Keys\<close>

definition IV_LEN :: nat where "IV_LEN = 16"
definition METADATA_LEN :: nat where "METADATA_LEN = 16"
definition AMT_MSAT_LEN :: nat where "AMT_MSAT_LEN = 8"
definition METHOD_TYPE_OFFSET :: nat where "METHOD_TYPE_OFFSET = 5"

record ExpandedKey =
  metadata_key :: bytes
  ldk_pmt_hash_key :: bytes
  user_pmt_hash_key :: bytes

definition hkdf_extract_expand :: "'sk crypto \<Rightarrow> bytes \<Rightarrow> bytes \<Rightarrow> bytes \<times> bytes \<times> bytes" where
  "hkdf_extract_expand cr salt ikm =
     (let prk = hmac_sha256 cr salt ikm;
          t1 = hmac_sha256 cr prk [1];
          t2 = hmac_sha256 cr prk (t1 @ [2])
      in (t1, t2, prk))"

definition hkdf_extract_expand_thrice :: "'sk crypto \<Rightarrow> bytes \<Rightarrow> bytes \<Rightarrow> bytes \<times> bytes \<times> bytes" where
  "hkdf_extract_expand_thrice cr salt ikm =
     (let (k1, k2, prk) = hkdf_extract_expand cr salt ikm in (k1, k2, hmac_sha256 cr prk (k2 @ [3])))"

definition inbound_salt :: bytes where
  "inbound_salt = map (\<lambda>c. of_nat (of_char c)) ''LDK Inbound Payment Key Expansion''"

definition ExpandedKey_new :: "bytes crypto \<Rightarrow> bytes \<Rightarrow> ExpandedKey" where
  "ExpandedKey_new cr key_material =
     (let (k1, k2, k3) = hkdf_extract_expand_thrice cr inbound_salt key_material in
      \<lparr>metadata_key = k1, ldk_pmt_hash_key = k2, user_pmt_hash_key = k3\<rparr>)"

datatype Method = LdkPaymentHash | UserPaymentHash

definition method_bits :: "Method \<Rightarrow> u8" where
  "method_bits m = (case m of LdkPaymentHash \<Rightarrow> 0 | UserPaymentHash \<Rightarrow> 1)"

definition from_bits :: "u8 \<Rightarrow> (u8, Method) sum" where
  "from_bits bits =
     (if bits = method_bits LdkPaymentHash then Inr LdkPaymentHash
      else if bits = method_bits UserPaymentHash then Inr UserPaymentHash
      else Inl bits)"

section \<open>Creating\<close>

definition construct_metadata_bytes :: "u64 option \<Rightarrow> Method \<Rightarrow> u32 \<Rightarrow> u64 \<Rightarrow> (unit, bytes) outcome" where
  "construct_metadata_bytes min_value_msat payment_type invoice_expiry_delta_secs highest_seen_timestamp =
     (if (case min_value_msat of Some v \<Rightarrow> v > MAX_VALUE_MSAT | None \<Rightarrow> False) then Err ()
      else let min_amt_msat_bytes = (case min_value_msat of
                                       Some amt \<Rightarrow> be_bytes AMT_MSAT_LEN amt
                                     | None \<Rightarrow> replicate AMT_MSAT_LEN 0);
               typed = min_amt_msat_bytes[0 := min_amt_msat_bytes ! 0 OR push_bit METHOD_TYPE_OFFSET (method_bits payment_type)];
               expiry_bytes = be_bytes 8 (highest_seen_timestamp + ucast invoice_expiry_delta_secs + 7200)
           in Ok (typed @ expiry_bytes))"

definition construct_payment_secret :: "bytes \<Rightarrow> bytes \<Rightarrow> bytes \<Rightarrow> (unit, bytes) outcome" where
  "construct_payment_secret iv_bytes metadata_bytes key =
     map_ok (\<lambda>chacha_block. iv_bytes @ map (\<lambda>i. chacha_block ! i XOR metadata_bytes ! i) [0..<METADATA_LEN])
       (get_single_block key iv_bytes)"

definition create ::
  "bytes crypto \<Rightarrow> ExpandedKey \<Rightarrow> u64 option \<Rightarrow> u32 \<Rightarrow> bytes \<Rightarrow> u64 \<Rightarrow> (unit, bytes \<times> bytes) outcome" where
  "create cr keys min_value_msat invoice_expiry_delta_secs rand_bytes current_time =
     and_then (construct_metadata_bytes min_value_msat LdkPaymentHash invoice_expiry_delta_secs current_time)
       (\<lambda>metadata_bytes.
         if length rand_bytes < IV_LEN then Panic
         else let iv_bytes = take IV_LEN rand_bytes;
                  payment_preimage_bytes = hmac_sha256 cr (ldk_pmt_hash_key keys) (iv_bytes @ metadata_bytes)
              in map_ok (\<lambda>payment_secret. (sha256_hash cr payment_preimage_bytes, payment_secret))
                   (construct_payment_secret iv_bytes metadata_bytes (metadata_key keys)))"

definition create_from_hash ::
  "bytes crypto \<Rightarrow> ExpandedKey \<Rightarrow> u64 option \<Rightarrow> bytes \<Rightarrow> u32 \<Rightarrow> u64 \<Rightarrow> (unit, bytes) outcome" where
  "create_from_hash cr keys min_value_msat payment_hash invoice_expiry_delta_secs current_time =
     and_then (construct_metadata_bytes min_value_msat UserPaymentHash invoice_expiry_delta_secs current_time)
       (\<lambda>metadata_bytes.
         let hmac_bytes = hmac_sha256 cr (user_pmt_hash_key keys) (metadata_bytes @ payment_hash);
             iv_bytes = take IV_LEN hmac_bytes
         in construct_payment_secret iv_bytes metadata_bytes (metadata_key keys))"

section \<open>Verifying\<close>

definition decrypt_metadata :: "bytes \<Rightarrow> ExpandedKey \<Rightarrow> (unit, bytes \<times> bytes) outcome" where
  "decrypt_metadata payment_secret keys =
     (let iv_bytes = take IV_LEN payment_secret; encrypted_metadata_bytes = drop IV_LEN payment_secret in
      map_ok (\<lambda>chacha_block.
          (iv_bytes, map (\<lambda>i. chacha_block ! i XOR encrypted_metadata_bytes ! i) [0..<METADATA_LEN]))
        (get_single_block (metadata_key keys) iv_bytes))"

definition derive_ldk_payment_preimage ::
  "bytes crypto \<Rightarrow> bytes \<Rightarrow> bytes \<Rightarrow> bytes \<Rightarrow> ExpandedKey \<Rightarrow> (bytes, bytes) sum" where
  "derive_ldk_payment_preimage cr payment_hash iv_bytes metadata_bytes keys =
     (let decoded = hmac_sha256 cr (ldk_pmt_hash_key keys) (iv_bytes @ metadata_bytes) in
      if payment_hash \<noteq> sha256_hash cr decoded then Inl decoded else Inr decoded)"

definition metadata_method :: "bytes \<Rightarrow> (u8, Method) sum" where
  "metadata_method metadata_bytes = from_bits (drop_bit METHOD_TYPE_OFFSET (metadata_bytes ! 0 AND 0xE0))"

definition verify ::
  "bytes crypto \<Rightarrow> bytes \<Rightarrow> bytes \<times> u64 \<Rightarrow> u64 \<Rightarrow> ExpandedKey \<Rightarrow> (unit, bytes option) outcome" where
  "verify cr payment_hash payment_data highest_seen_timestamp keys =
     and_then (decrypt_metadata (fst payment_data) keys) (\<lambda>(iv_bytes, metadata_bytes).
       let payment_type_res = metadata_method metadata_bytes;
           amt_msat_bytes = take AMT_MSAT_LEN metadata_bytes;
           min_amt_msat = (from_be (amt_msat_bytes[0 := amt_msat_bytes ! 0 AND 0x1F]) :: u64);
           expiry = (from_be (drop AMT_MSAT_LEN metadata_bytes) :: u64)
       in and_then
            (case payment_type_res of
               Inr UserPaymentHash \<Rightarrow>
                 (if iv_bytes \<noteq> take IV_LEN (hmac_sha256 cr (user_pmt_hash_key keys) (metadata_bytes @ payment_hash))
                  then Err () else Ok None)
             | Inr LdkPaymentHash \<Rightarrow>
                 (case derive_ldk_payment_preimage cr payment_hash iv_bytes metadata_bytes keys of
                    Inr p \<Rightarrow> Ok (Some p) | Inl _ \<Rightarrow> Err ())
             | Inl _ \<Rightarrow> Err ())
            (\<lambda>payment_preimage.
               if snd payment_data < min_amt_msat then Err ()
               else if expiry < highest_seen_timestamp then Err ()
               else Ok payment_preimage))"

definition get_payment_preimage ::
  "bytes crypto \<Rightarrow> bytes \<Rightarrow> bytes \<Rightarrow> ExpandedKey \<Rightarrow> (APIError, bytes) outcome" where
  "get_payment_preimage cr payment_hash payment_secret keys =
     (case decrypt_metadata payment_secret keys of
        Panic \<Rightarrow> Panic
      | Err _ \<Rightarrow> Panic
      | Ok (iv_bytes, metadata_bytes) \<Rightarrow>
          (case metadata_method metadata_bytes of
             Inr LdkPaymentHash \<Rightarrow>
               (case derive_ldk_payment_preimage cr payment_hash iv_bytes metadata_bytes keys of
                  Inr p \<Rightarrow> Ok p
                | Inl bad \<Rightarrow> Err (APIMisuseError (''Payment hash '' @ hex_str payment_hash @
                              '' did not match decoded preimage '' @ hex_str bad)))
           | Inr UserPaymentHash \<Rightarrow>
               Err (APIMisuseError ''Expected payment type to be LdkPaymentHash, instead got UserPaymentHash'')
           | Inl other \<Rightarrow> Err (APIMisuseError (''Unknown payment type: '' @ to_string other))))"

section \<open>Lemmas\<close>

lemma xor_block_cancel:
  fixes b m :: bytes
  assumes "length m = METADATA_LEN"
  shows "map (\<lambda>i. b ! i XOR map (\<lambda>i. b ! i XOR m ! i) [0..<METADATA_LEN] ! i) [0..<METADATA_LEN] = m"
  using assms by (intro nth_equalityI) (simp_all add: xor.assoc [symmetric])

lemma secret_round_trip:
  assumes "construct_payment_secret iv md (metadata_key keys) = Ok sec"
    and "length iv = IV_LEN" "length md = METADATA_LEN"
  shows "decrypt_metadata sec keys = Ok (iv, md)" "length sec = 32"
  using assms xor_block_cancel [OF assms(3)]
  by (auto simp: construct_payment_secret_def decrypt_metadata_def map_ok_Ok_iff Let_def) (simp add: IV_LEN_def METADATA_LEN_def)

text \<open>An amount within the supply leaves the top three bits free.\<close>

lemma amount_top_bits:
  assumes "v \<le> MAX_VALUE_MSAT"
  shows "drop_bit 61 (v :: u64) = 0"
proof -
  have "unat v \<le> unat MAX_VALUE_MSAT"
    using assms by (simp add: word_le_nat_alt)
  then have "unat v div 2 ^ 61 = 0"
    by (simp add: MAX_VALUE_MSAT_def)
  then have "unat (drop_bit 61 v) = 0"
    by (subst unat_drop_bit_eq) (simp add: drop_bit_eq_div)
  then show ?thesis
    by (simp only: word_unat_eq_iff unsigned_0)
qed

lemma method_byte:
  fixes f m :: u8
  assumes "take_bit 5 f = f" "take_bit 3 m = m"
  shows "drop_bit 5 ((f OR push_bit 5 m) AND 0xE0) = m" "(f OR push_bit 5 m) AND 0x1F = f"
proof -
  have top: "n < 5" if "bit f n" for n
    using assms(1) that by (metis bit_take_bit_iff)
  have low: "n < 3" if "bit m n" for n
    using assms(2) that by (metis bit_take_bit_iff)
  have e0: "(0xE0 :: u8) = push_bit 5 (mask 3)" and f1: "(0x1F :: u8) = mask 5"
    by (simp_all add: mask_eq_exp_minus_1 push_bit_eq_mult)
  show "drop_bit 5 ((f OR push_bit 5 m) AND 0xE0) = m"
    unfolding e0 by (rule bit_word_eqI) (use top low in \<open>auto simp: bit_simps\<close>)
  show "(f OR push_bit 5 m) AND 0x1F = f"
    unfolding f1 by (rule bit_word_eqI) (use top low in \<open>auto simp: bit_simps\<close>)
qed

lemma be_bytes_hd: "be_bytes (Suc n) w ! 0 = ucast (drop_bit (8 * n) w)" for w :: "'a::len word"
proof (induction n arbitrary: w)
  case (Suc n)
  have "be_bytes (Suc (Suc n)) w ! 0 = be_bytes (Suc n) (drop_bit 8 w) ! 0"
    unfolding be_bytes.simps(2) [of "Suc n"] by (simp add: nth_append del: be_bytes.simps(2))
  also have "\<dots> = ucast (drop_bit (8 * Suc n) w)"
    by (simp add: Suc.IH add.commute del: be_bytes.simps(2))
  finally show ?case .
qed simp

lemma be_bytes_zero: "be_bytes n 0 = replicate n 0"
  by (induction n) (simp_all add: replicate_append_same)

lemma metadata_decodes:
  assumes "construct_metadata_bytes min_value m delta now = Ok md"
  shows "length md = METADATA_LEN" "metadata_method md = Inr m"
    "(from_be ((take AMT_MSAT_LEN md)[0 := take AMT_MSAT_LEN md ! 0 AND 0x1F]) :: u64) = (case min_value of Some v \<Rightarrow> v | None \<Rightarrow> 0)"
    "(from_be (drop AMT_MSAT_LEN md) :: u64) = now + ucast delta + 7200"
proof -
  define v :: u64 where "v = (case min_value of Some v \<Rightarrow> v | None \<Rightarrow> 0)"
  have v: "drop_bit 61 v = 0"
    using assms amount_top_bits by (auto simp: construct_metadata_bytes_def v_def split: option.splits if_splits)
  define f :: u8 where "f = be_bytes 8 v ! 0"
  let ?t = "(be_bytes 8 v)[0 := f OR push_bit 5 (method_bits m)]"
  have md: "md = ?t @ be_bytes 8 (now + ucast delta + 7200)"
  proof (cases min_value)
    case None
    with assms show ?thesis
      unfolding f_def v_def construct_metadata_bytes_def AMT_MSAT_LEN_def METHOD_TYPE_OFFSET_def Let_def
      by (simp only: option.case if_False be_bytes_zero outcome.inject)
  next
    case (Some x)
    with assms show ?thesis
      unfolding f_def v_def construct_metadata_bytes_def AMT_MSAT_LEN_def METHOD_TYPE_OFFSET_def Let_def
      by (simp only: option.case outcome.inject outcome.distinct split: if_splits)
  qed
  have "f = ucast (drop_bit 56 v)"
    using be_bytes_hd [of 7 v] by (simp add: f_def)
  moreover have "n < 5" if "bit v (56 + n)" for n
  proof (rule ccontr)
    assume "\<not> n < 5"
    with that have "bit (drop_bit 61 v) (n - 5)" by (simp add: bit_simps del: drop_bit_eq_div)
    with v show False by simp
  qed
  ultimately have f: "take_bit 5 f = f"
    by (intro bit_word_eqI) (auto simp: bit_simps)
  have m: "take_bit 3 (method_bits m) = method_bits m"
    by (cases m) (simp_all add: method_bits_def)
  show "length md = METADATA_LEN"
    by (simp add: md METADATA_LEN_def)
  have md0: "md ! 0 = f OR push_bit 5 (method_bits m)"
    by (simp add: md nth_append)
  have "from_bits (method_bits m) = Inr m"
    by (cases m) (simp_all add: from_bits_def method_bits_def)
  then show "metadata_method md = Inr m"
    unfolding metadata_method_def md0 METHOD_TYPE_OFFSET_def method_byte(1) [OF f m] .
  have "(take AMT_MSAT_LEN md)[0 := take AMT_MSAT_LEN md ! 0 AND 0x1F] = be_bytes 8 v"
    using method_byte(2) [OF f m] by (simp add: md AMT_MSAT_LEN_def f_def)
  then show "(from_be ((take AMT_MSAT_LEN md)[0 := take AMT_MSAT_LEN md ! 0 AND 0x1F]) :: u64) =
      (case min_value of Some v \<Rightarrow> v | None \<Rightarrow> 0)"
    by (simp add: v_def)
  show "(from_be (drop AMT_MSAT_LEN md) :: u64) = now + ucast delta + 7200"
    by (simp add: md AMT_MSAT_LEN_def)
qed

section \<open>Properties\<close>

text \<open>
  C26. A payment secret remembers what it was created for. The secret made by \<open>create\<close> or
  \<open>create_from_hash\<close> is accepted for its payment hash exactly when the amount received is at least the
  minimum and the clock has not passed the expiry (creation time, expiry delta and two hours); a secret of
  the first kind gives back the preimage, which hashes to the payment hash, and one of the second kind
  gives none. No field is confused with another, up to the largest amount the code accepts; a larger
  minimum is refused, and otherwise \<open>create\<close> does give a secret unless the random bytes start with the
  counter value on which the cipher panics.
\<close>

theorem inbound_payment_verified:
  assumes "crypto_ok cr"
  shows "(create cr keys min_value delta rand_bytes now = Ok (h, sec) \<longrightarrow>
      (\<exists>pre. h = sha256_hash cr pre \<and> get_payment_preimage cr h sec keys = Ok pre \<and>
         verify cr h (sec, total_msat) t keys =
           (if (case min_value of Some v \<Rightarrow> v | None \<Rightarrow> 0) \<le> total_msat \<and> t \<le> now + ucast delta + 7200
            then Ok (Some pre) else Err ()))) \<and>
    (create_from_hash cr keys min_value h' delta now = Ok sec' \<longrightarrow>
       verify cr h' (sec', total_msat) t keys =
         (if (case min_value of Some v \<Rightarrow> v | None \<Rightarrow> 0) \<le> total_msat \<and> t \<le> now + ucast delta + 7200
          then Ok None else Err ())) \<and>
    ((case min_value of Some v \<Rightarrow> v > MAX_VALUE_MSAT | None \<Rightarrow> False) \<longrightarrow>
       create cr keys min_value delta rand_bytes now = Err () \<and> create_from_hash cr keys min_value h' delta now = Err ()) \<and>
    ((case min_value of Some v \<Rightarrow> v \<le> MAX_VALUE_MSAT | None \<Rightarrow> True) \<longrightarrow> length (metadata_key keys) = 32 \<longrightarrow>
     16 \<le> length rand_bytes \<longrightarrow> u32_from_le_bytes (take 4 rand_bytes) \<noteq> 0xFFFFFFFF \<longrightarrow>
     (\<exists>h sec. create cr keys min_value delta rand_bytes now = Ok (h, sec)))"
proof (intro conjI impI)
  assume "create cr keys min_value delta rand_bytes now = Ok (h, sec)"
  then obtain md where md: "construct_metadata_bytes min_value LdkPaymentHash delta now = Ok md"
    "IV_LEN \<le> length rand_bytes"
    "h = sha256_hash cr (hmac_sha256 cr (ldk_pmt_hash_key keys) (take IV_LEN rand_bytes @ md))"
    "construct_payment_secret (take IV_LEN rand_bytes) md (metadata_key keys) = Ok sec"
    by (auto simp: create_def and_then_Ok_iff map_ok_Ok_iff Let_def split: if_splits)
  note dec = metadata_decodes [OF md(1)]
  have "decrypt_metadata sec keys = Ok (take IV_LEN rand_bytes, md)"
    by (rule secret_round_trip(1) [OF md(4) _ dec(1)]) (simp add: md(2))
  with md(3) dec show "\<exists>pre. h = sha256_hash cr pre \<and> get_payment_preimage cr h sec keys = Ok pre \<and>
         verify cr h (sec, total_msat) t keys =
           (if (case min_value of Some v \<Rightarrow> v | None \<Rightarrow> 0) \<le> total_msat \<and> t \<le> now + ucast delta + 7200
            then Ok (Some pre) else Err ())"
    by (auto simp: get_payment_preimage_def verify_def derive_ldk_payment_preimage_def Let_def not_less)
next
  assume "create_from_hash cr keys min_value h' delta now = Ok sec'"
  then obtain md where md: "construct_metadata_bytes min_value UserPaymentHash delta now = Ok md"
    "construct_payment_secret (take IV_LEN (hmac_sha256 cr (user_pmt_hash_key keys) (md @ h'))) md (metadata_key keys) = Ok sec'"
    by (auto simp: create_from_hash_def and_then_Ok_iff Let_def)
  note dec = metadata_decodes [OF md(1)]
  have "decrypt_metadata sec' keys = Ok (take IV_LEN (hmac_sha256 cr (user_pmt_hash_key keys) (md @ h')), md)"
    by (rule secret_round_trip(1) [OF md(2) _ dec(1)]) (use assms in \<open>simp add: crypto_ok_def IV_LEN_def\<close>)
  with dec show "verify cr h' (sec', total_msat) t keys =
         (if (case min_value of Some v \<Rightarrow> v | None \<Rightarrow> 0) \<le> total_msat \<and> t \<le> now + ucast delta + 7200
          then Ok None else Err ())"
    by (auto simp: verify_def Let_def not_less)
next
  assume "case min_value of Some v \<Rightarrow> v > MAX_VALUE_MSAT | None \<Rightarrow> False"
  then show "create cr keys min_value delta rand_bytes now = Err ()" "create_from_hash cr keys min_value h' delta now = Err ()"
    by (simp_all add: create_def create_from_hash_def construct_metadata_bytes_def)
next
  assume *: "case min_value of Some v \<Rightarrow> v \<le> MAX_VALUE_MSAT | None \<Rightarrow> True" "length (metadata_key keys) = 32"
    "16 \<le> length rand_bytes" "u32_from_le_bytes (take 4 rand_bytes) \<noteq> 0xFFFFFFFF"
  have "length (take 16 rand_bytes) = 16" using *(3) by simp
  from single_block_cases [OF *(2) this] *(4) obtain b where "get_single_block (metadata_key keys) (take 16 rand_bytes) = Ok b"
    by (auto simp: min_def)
  moreover obtain md where "construct_metadata_bytes min_value LdkPaymentHash delta now = Ok md"
    using *(1) by (cases min_value) (auto simp: construct_metadata_bytes_def Let_def not_less [symmetric])
  ultimately show "\<exists>h sec. create cr keys min_value delta rand_bytes now = Ok (h, sec)"
    using *(3) by (simp add: create_def construct_payment_secret_def IV_LEN_def Let_def)
qed

definition demo_keys :: ExpandedKey where
  "demo_keys = \<lparr>metadata_key = replicate 32 1, ldk_pmt_hash_key = replicate 32 2, user_pmt_hash_key = replicate 32 3\<rparr>"

theorem inbound_payment_verified_witness:
  "\<exists>h sec pre. create demo_crypto demo_keys (Some 5000) 3600 (replicate 32 4) 1000 = Ok (h, sec) \<and>
     verify demo_crypto h (sec, 5000) 11800 demo_keys = Ok (Some pre) \<and>
     verify demo_crypto h (sec, 4999) 11800 demo_keys = Err () \<and>
     verify demo_crypto h (sec, 5000) 11801 demo_keys = Err ()"
proof -
  have ok: "crypto_ok demo_crypto" by (simp add: crypto_ok_def demo_crypto_def)
  obtain md where md: "construct_metadata_bytes (Some 5000) LdkPaymentHash 3600 1000 = Ok md"
    by (simp add: construct_metadata_bytes_def MAX_VALUE_MSAT_def Let_def)
  obtain b where "get_single_block (replicate 32 1) (replicate 16 4) = Ok b"
    using single_block_cases [of "replicate 32 1" "replicate 16 4"] by (auto simp: u32_from_le_bytes_def)
  with md obtain h sec where run: "create demo_crypto demo_keys (Some 5000) 3600 (replicate 32 4) 1000 = Ok (h, sec)"
    by (simp add: create_def construct_payment_secret_def demo_keys_def IV_LEN_def Let_def)
  from inbound_payment_verified [OF ok, of demo_keys "Some 5000" 3600 "replicate 32 4" 1000 h sec 5000 11800] run
  obtain pre where "verify demo_crypto h (sec, 5000) 11800 demo_keys = Ok (Some pre)" by auto
  moreover from inbound_payment_verified [OF ok, of demo_keys "Some 5000" 3600 "replicate 32 4" 1000 h sec 4999 11800] run
  have "verify demo_crypto h (sec, 4999) 11800 demo_keys = Err ()" by auto
  moreover from inbound_payment_verified [OF ok, of demo_keys "Some 5000" 3600 "replicate 32 4" 1000 h sec 5000 11801] run
  have "verify demo_crypto h (sec, 5000) 11801 demo_keys = Err ()" by auto
  ultimately show ?thesis using run by blast
qed

end
