(* ===== verification/Block_Sync.thy ===== *)
theory Block_Sync
  imports Node_Types
begin

text \<open>
  The crate \<open>lightning-block-sync\<close> (\<open>src/lib.rs\<close>, \<open>src/poll.rs\<close>, \<open>src/init.rs\<close>): following the best chain of
  a block source and telling a listener which blocks to disconnect and connect. Header hashing, proof of
  work and the checks of a block's body belong to the \<open>bitcoin\<close> crate and are parameters, and so are the
  answers of the block source, which do not change during one poll. The cache is the \<open>UnboundedCache\<close> the
  node uses. The walk to the fork point is a partial function: not returning is the value \<open>None\<close>.
\<close>

section \<open>Headers and blocks\<close>

type_synonym u256 = "256 word"

record BlockHeader =
  version :: u32
  prev_blockhash :: bytes
  merkle_root :: bytes
  header_time :: u32
  bits :: u32
  nonce :: u32

record Block =
  block_header :: BlockHeader
  txdata :: "bytes list"

record BlockHeaderData =
  header :: BlockHeader
  height :: u32
  chainwork :: u256

record ValidatedBlockHeader =
  vh_block_hash :: bytes
  vh_inner :: BlockHeaderData

datatype BlockSourceErrorKind = Persistent | Transient

type_synonym BlockSourceError = "BlockSourceErrorKind \<times> string"

record bitcoin_lib =
  block_hash_of :: "BlockHeader \<Rightarrow> bytes"
  validate_pow :: "BlockHeader \<Rightarrow> string option"
  work_of :: "BlockHeader \<Rightarrow> u256"
  check_merkle_root :: "Block \<Rightarrow> bool"
  check_witness_commitment :: "Block \<Rightarrow> bool"

record block_source =
  get_best_block :: "(BlockSourceError, bytes \<times> u32 option) outcome"
  get_header :: "bytes \<Rightarrow> u32 option \<Rightarrow> (BlockSourceError, BlockHeaderData) outcome"
  get_block :: "bytes \<Rightarrow> (BlockSourceError, Block) outcome"

section \<open>Polling a source\<close>

definition validate_header ::
  "bitcoin_lib \<Rightarrow> BlockHeaderData \<Rightarrow> bytes \<Rightarrow> (BlockSourceError, ValidatedBlockHeader) outcome" where
  "validate_header lib d block_hash =
     (case validate_pow lib (header d) of
        Some e \<Rightarrow> Err (Persistent, e)
      | None \<Rightarrow>
          if block_hash_of lib (header d) \<noteq> block_hash then Err (Persistent, ''invalid block hash'')
          else Ok \<lparr>vh_block_hash = block_hash, vh_inner = d\<rparr>)"

definition validate_block :: "bitcoin_lib \<Rightarrow> Block \<Rightarrow> bytes \<Rightarrow> (BlockSourceError, Block) outcome" where
  "validate_block lib b block_hash =
     (case validate_pow lib (block_header b) of
        Some e \<Rightarrow> Err (Persistent, e)
      | None \<Rightarrow>
          if block_hash_of lib (block_header b) \<noteq> block_hash then Err (Persistent, ''invalid block hash'')
          else if \<not> check_merkle_root lib b then Err (Persistent, ''invalid merkle root'')
          else if \<not> check_witness_commitment lib b then Err (Persistent, ''invalid witness commitment'')
          else Ok b)"

definition check_builds_on ::
  "bitcoin_lib \<Rightarrow> ValidatedBlockHeader \<Rightarrow> ValidatedBlockHeader \<Rightarrow> Network \<Rightarrow> (BlockSourceError, unit) outcome" where
  "check_builds_on lib h previous network =
     (let d = vh_inner h; p = vh_inner previous; work = work_of lib (header d); previous_work = work_of lib (header p) in
      if prev_blockhash (header d) \<noteq> vh_block_hash previous then Err (Persistent, ''invalid previous block hash'')
      else if height d \<noteq> height p + 1 then Err (Persistent, ''invalid block height'')
      else if chainwork d \<noteq> chainwork p + work then Err (Persistent, ''invalid chainwork'')
      else if network = Bitcoin \<and> height d mod 2016 = 0 \<and> (work > push_bit 2 previous_work \<or> work < drop_bit 2 previous_work)
      then Err (Persistent, ''invalid difficulty transition'')
      else if network = Bitcoin \<and> height d mod 2016 \<noteq> 0 \<and> bits (header d) \<noteq> bits (header p)
      then Err (Persistent, ''invalid difficulty'')
      else Ok ())"

datatype ChainTip = Common | Better ValidatedBlockHeader | Worse ValidatedBlockHeader

definition poll_chain_tip ::
  "bitcoin_lib \<Rightarrow> block_source \<Rightarrow> ValidatedBlockHeader \<Rightarrow> (BlockSourceError, ChainTip) outcome" where
  "poll_chain_tip lib src best_known_chain_tip =
     and_then (get_best_block src) (\<lambda>(block_hash, hint).
       if block_hash = block_hash_of lib (header (vh_inner best_known_chain_tip)) then Ok Common
       else and_then (get_header src block_hash hint) (\<lambda>d.
         map_ok (\<lambda>chain_tip.
             if chainwork (vh_inner chain_tip) > chainwork (vh_inner best_known_chain_tip) then Better chain_tip
             else Worse chain_tip)
           (validate_header lib d block_hash)))"

definition poll_previous_header ::
  "bitcoin_lib \<Rightarrow> block_source \<Rightarrow> Network \<Rightarrow> ValidatedBlockHeader \<Rightarrow> (BlockSourceError, ValidatedBlockHeader) outcome" where
  "poll_previous_header lib src network h =
     (if height (vh_inner h) = 0 then Err (Persistent, ''genesis block reached'')
      else let previous_hash = prev_blockhash (header (vh_inner h)) in
        and_then (get_header src previous_hash (Some (height (vh_inner h) - 1))) (\<lambda>d.
          and_then (validate_header lib d previous_hash) (\<lambda>previous_header.
            map_ok (\<lambda>_. previous_header) (check_builds_on lib h previous_header network))))"

definition fetch_block ::
  "bitcoin_lib \<Rightarrow> block_source \<Rightarrow> ValidatedBlockHeader \<Rightarrow> (BlockSourceError, Block) outcome" where
  "fetch_block lib src h = and_then (get_block src (vh_block_hash h)) (\<lambda>b. validate_block lib b (vh_block_hash h))"

section \<open>The walk to the fork point\<close>

type_synonym header_cache = "(bytes \<times> ValidatedBlockHeader) list"

definition look_up_previous_header ::
  "bitcoin_lib \<Rightarrow> block_source \<Rightarrow> Network \<Rightarrow> header_cache \<Rightarrow> ValidatedBlockHeader \<Rightarrow>
   (BlockSourceError, ValidatedBlockHeader) outcome" where
  "look_up_previous_header lib src network cache h =
     (case map_of cache (prev_blockhash (header (vh_inner h))) of
        Some prev_header \<Rightarrow> Ok prev_header
      | None \<Rightarrow> poll_previous_header lib src network h)"

record ChainDifference =
  common_ancestor :: ValidatedBlockHeader
  disconnected_blocks :: "ValidatedBlockHeader list"
  connected_blocks :: "ValidatedBlockHeader list"

definition walk_back ::
  "(ValidatedBlockHeader \<Rightarrow> (BlockSourceError, ValidatedBlockHeader) outcome) \<Rightarrow> bool \<Rightarrow>
   ValidatedBlockHeader list \<Rightarrow> ValidatedBlockHeader \<Rightarrow> (BlockSourceError, ValidatedBlockHeader list \<times> ValidatedBlockHeader) outcome" where
  "walk_back look_up cond walked h = (if cond then map_ok (\<lambda>p. (walked @ [h], p)) (look_up h) else Ok (walked, h))"

partial_function (option) difference_loop ::
  "(ValidatedBlockHeader \<Rightarrow> (BlockSourceError, ValidatedBlockHeader) outcome) \<Rightarrow>
   ValidatedBlockHeader list \<Rightarrow> ValidatedBlockHeader list \<Rightarrow> ValidatedBlockHeader \<Rightarrow> ValidatedBlockHeader \<Rightarrow>
   (BlockSourceError, ChainDifference) outcome option" where
  "difference_loop look_up disconnected connected current previous =
     (if vh_block_hash current = vh_block_hash previous
      then Some (Ok \<lparr>common_ancestor = current, disconnected_blocks = disconnected, connected_blocks = connected\<rparr>)
      else let current_height = height (vh_inner current); previous_height = height (vh_inner previous) in
        case walk_back look_up (current_height \<le> previous_height) disconnected previous of
          Panic \<Rightarrow> Some Panic
        | Err e \<Rightarrow> Some (Err e)
        | Ok (disconnected', previous') \<Rightarrow>
            (case walk_back look_up (current_height \<ge> previous_height) connected current of
               Panic \<Rightarrow> Some Panic
             | Err e \<Rightarrow> Some (Err e)
             | Ok (connected', current') \<Rightarrow> difference_loop look_up disconnected' connected' current' previous'))"

definition find_difference ::
  "bitcoin_lib \<Rightarrow> block_source \<Rightarrow> Network \<Rightarrow> header_cache \<Rightarrow> ValidatedBlockHeader \<Rightarrow> ValidatedBlockHeader \<Rightarrow>
   (BlockSourceError, ChainDifference) outcome option" where
  "find_difference lib src network cache current_header prev_header =
     difference_loop (look_up_previous_header lib src network cache) [] [] current_header prev_header"

section \<open>Notifying the listener\<close>

datatype chain_event = BlockConnected Block u32 | BlockDisconnected BlockHeader u32

record ChainNotifier =
  header_cache :: header_cache
  chain_listener :: "chain_event list"

fun disconnect_blocks :: "ValidatedBlockHeader list \<Rightarrow> ChainNotifier \<Rightarrow> (unit, ChainNotifier) outcome" where
  "disconnect_blocks [] nt = Ok nt"
| "disconnect_blocks (h # hs) nt =
     (if (case map_of (header_cache nt) (vh_block_hash h) of Some c \<Rightarrow> c \<noteq> h | None \<Rightarrow> False) then Panic
      else disconnect_blocks hs
             (nt\<lparr>header_cache := hm_remove (vh_block_hash h) (header_cache nt),
                 chain_listener := chain_listener nt @ [BlockDisconnected (header (vh_inner h)) (height (vh_inner h))]\<rparr>))"

text \<open>The blocks in the order they are connected; an error carries the tip reached.\<close>

fun connect_loop ::
  "bitcoin_lib \<Rightarrow> block_source \<Rightarrow> ValidatedBlockHeader \<Rightarrow> ValidatedBlockHeader list \<Rightarrow> ChainNotifier \<Rightarrow>
   (unit, (BlockSourceError \<times> ValidatedBlockHeader) option \<times> ChainNotifier) outcome" where
  "connect_loop lib src new_tip [] nt = Ok (None, nt)"
| "connect_loop lib src new_tip (h # hs) nt =
     (case fetch_block lib src h of
        Panic \<Rightarrow> Panic
      | Err e \<Rightarrow> Ok (Some (e, new_tip), nt)
      | Ok block \<Rightarrow>
          connect_loop lib src h hs
            (nt\<lparr>header_cache := hm_insert (vh_block_hash h) h (header_cache nt),
                chain_listener := chain_listener nt @ [BlockConnected block (height (vh_inner h))]\<rparr>))"

definition connect_blocks ::
  "bitcoin_lib \<Rightarrow> block_source \<Rightarrow> ValidatedBlockHeader \<Rightarrow> ValidatedBlockHeader list \<Rightarrow> ChainNotifier \<Rightarrow>
   (unit, (BlockSourceError \<times> ValidatedBlockHeader) option \<times> ChainNotifier) outcome" where
  "connect_blocks lib src new_tip connected nt = connect_loop lib src new_tip (rev connected) nt"

datatype sync_result = Synchronized | SyncFailed BlockSourceError "ValidatedBlockHeader option"

definition synchronize_listener ::
  "bitcoin_lib \<Rightarrow> block_source \<Rightarrow> Network \<Rightarrow> ValidatedBlockHeader \<Rightarrow> ValidatedBlockHeader \<Rightarrow> ChainNotifier \<Rightarrow>
   (unit, sync_result \<times> ChainNotifier) outcome option" where
  "synchronize_listener lib src network new_header old_header nt =
     map_option (\<lambda>difference.
         case difference of
           Panic \<Rightarrow> Panic
         | Err e \<Rightarrow> Ok (SyncFailed e None, nt)
         | Ok df \<Rightarrow>
             and_then (disconnect_blocks (disconnected_blocks df) nt) (\<lambda>nt1.
               map_ok (\<lambda>(r, nt2).
                   (case r of None \<Rightarrow> Synchronized | Some (e, tip) \<Rightarrow> SyncFailed e (Some tip), nt2))
                 (connect_blocks lib src (common_ancestor df) (connected_blocks df) nt1)))
       (find_difference lib src network (header_cache nt) new_header old_header)"

section \<open>The client\<close>

record SpvClient =
  chain_tip :: ValidatedBlockHeader
  chain_notifier :: ChainNotifier

definition update_chain_tip ::
  "bitcoin_lib \<Rightarrow> block_source \<Rightarrow> Network \<Rightarrow> ValidatedBlockHeader \<Rightarrow> SpvClient \<Rightarrow> (unit, bool \<times> SpvClient) outcome option" where
  "update_chain_tip lib src network best_chain_tip client =
     map_option (map_ok (\<lambda>(r, nt).
         case r of
           Synchronized \<Rightarrow> (True, client\<lparr>chain_tip := best_chain_tip, chain_notifier := nt\<rparr>)
         | SyncFailed _ (Some tip) \<Rightarrow>
             (if vh_block_hash tip \<noteq> vh_block_hash (chain_tip client)
              then (True, client\<lparr>chain_tip := tip, chain_notifier := nt\<rparr>)
              else (False, client\<lparr>chain_notifier := nt\<rparr>))
         | SyncFailed _ None \<Rightarrow> (False, client\<lparr>chain_notifier := nt\<rparr>)))
       (synchronize_listener lib src network best_chain_tip (chain_tip client) (chain_notifier client))"

definition poll_best_tip ::
  "bitcoin_lib \<Rightarrow> block_source \<Rightarrow> Network \<Rightarrow> SpvClient \<Rightarrow>
   (BlockSourceError, (ChainTip \<times> bool) \<times> SpvClient) outcome option" where
  "poll_best_tip lib src network client =
     (case poll_chain_tip lib src (chain_tip client) of
        Panic \<Rightarrow> Some Panic
      | Err e \<Rightarrow> Some (Err e)
      | Ok Common \<Rightarrow> Some (Ok ((Common, False), client))
      | Ok (Better tip) \<Rightarrow>
          map_option (\<lambda>r. case r of Ok (b, c) \<Rightarrow> Ok ((Better tip, b), c) | _ \<Rightarrow> Panic)
            (update_chain_tip lib src network tip client)
      | Ok (Worse tip) \<Rightarrow> Some (Ok ((Worse tip, False), client)))"

section \<open>What a source of headers promises, and what the walk finds\<close>

abbreviation hash_before :: "ValidatedBlockHeader \<Rightarrow> bytes" where
  "hash_before h \<equiv> prev_blockhash (header (vh_inner h))"

abbreviation height_of :: "ValidatedBlockHeader \<Rightarrow> nat" where
  "height_of h \<equiv> unat (height (vh_inner h))"

text \<open>\<open>hs\<close> are the headers met when walking back from \<open>h\<close> until \<open>a\<close> is reached.\<close>

fun walk ::
  "(ValidatedBlockHeader \<Rightarrow> (BlockSourceError, ValidatedBlockHeader) outcome) \<Rightarrow> ValidatedBlockHeader \<Rightarrow>
   ValidatedBlockHeader list \<Rightarrow> ValidatedBlockHeader \<Rightarrow> bool" where
  "walk look_up h [] a = (h = a)"
| "walk look_up h (x # xs) a = (x = h \<and> (\<exists>p. look_up h = Ok p \<and> walk look_up p xs a))"

lemma walk_snoc: "walk look_up h (xs @ [x]) a \<longleftrightarrow> walk look_up h xs x \<and> look_up x = Ok a"
  by (induction xs arbitrary: h) auto

locale header_source =
  fixes look_up :: "ValidatedBlockHeader \<Rightarrow> (BlockSourceError, ValidatedBlockHeader) outcome"
    and known :: "ValidatedBlockHeader \<Rightarrow> bool"
  assumes goes_back: "known h \<Longrightarrow> look_up h = Ok p \<Longrightarrow> known p \<and> vh_block_hash p = hash_before h \<and> height_of h = Suc (height_of p)"
    and returns: "known h \<Longrightarrow> look_up h \<noteq> Panic"
    and unique: "known h \<Longrightarrow> known h' \<Longrightarrow> vh_block_hash h = vh_block_hash h' \<Longrightarrow> h = h'"
begin

lemma walk_known: "known h \<Longrightarrow> walk look_up h xs a \<Longrightarrow> known a \<and> (\<forall>x\<in>set xs. known x \<and> height_of a < height_of x)"
proof (induction xs arbitrary: h)
  case (Cons x xs)
  then obtain p where p: "x = h" "look_up h = Ok p" "walk look_up p xs a" by auto
  with goes_back [OF Cons.prems(1) p(2)] Cons.IH [of p] have "known a \<and> height_of a \<le> height_of p"
    by (cases xs) auto
  with Cons.IH [of p] goes_back [OF Cons.prems(1) p(2)] p Cons.prems(1) show ?case by auto
qed simp

lemma loop_returns:
  "known current \<Longrightarrow> known previous \<Longrightarrow>
   \<exists>r. difference_loop look_up disc conn current previous = Some r \<and> r \<noteq> Panic"
proof (induction "height_of current + height_of previous" arbitrary: disc conn current previous rule: less_induct)
  case less
  show ?case
  proof (cases "vh_block_hash current = vh_block_hash previous")
    case False
    let ?c = "height (vh_inner current)" and ?p = "height (vh_inner previous)"
    show ?thesis
    proof (cases "walk_back look_up (?c \<le> ?p) disc previous")
      case (Ok r1)
      obtain disc' previous' where r1: "r1 = (disc', previous')" by fastforce
      have 1: "known previous' \<and> height_of previous' \<le> height_of previous \<and> (?c \<le> ?p \<longrightarrow> height_of previous' < height_of previous)"
        using Ok goes_back [OF less.prems(2)] less.prems(2) by (auto simp: r1 walk_back_def map_ok_Ok_iff split: if_splits)
      show ?thesis
      proof (cases "walk_back look_up (?c \<ge> ?p) conn current")
        case (Ok r2)
        obtain conn' current' where r2: "r2 = (conn', current')" by fastforce
        have 2: "known current' \<and> height_of current' \<le> height_of current \<and> (?c \<ge> ?p \<longrightarrow> height_of current' < height_of current)"
          using Ok goes_back [OF less.prems(1)] less.prems(1) by (auto simp: r2 walk_back_def map_ok_Ok_iff split: if_splits)
        have "height_of current' + height_of previous' < height_of current + height_of previous"
          using 1 2 by (cases "?c \<le> ?p") (auto simp: not_le intro: add_le_less_mono add_less_le_mono)
        from less.hyps [OF this] 1 2 show ?thesis
          using \<open>walk_back look_up (?c \<le> ?p) disc previous = Ok r1\<close> Ok False r1 r2
          by (subst difference_loop.simps) (simp add: Let_def)
      next
        case Panic
        with returns [OF less.prems(1)] show ?thesis
          by (auto simp: walk_back_def map_ok_Panic_iff split: if_splits)
      qed (use Ok False r1 in \<open>subst difference_loop.simps, simp add: Let_def\<close>)
    next
      case Panic
      with returns [OF less.prems(2)] show ?thesis
        by (auto simp: walk_back_def map_ok_Panic_iff split: if_splits)
    qed (use False in \<open>subst difference_loop.simps, simp add: Let_def\<close>)
  qed (subst difference_loop.simps, simp)
qed

lemma loop_correct:
  assumes "difference_loop look_up disc conn current previous = Some (Ok df)"
    and "known current0" "known previous0"
    and "walk look_up previous0 disc previous" "walk look_up current0 conn current"
    and "height_of current < height_of previous \<longrightarrow> conn = []" "height_of previous < height_of current \<longrightarrow> disc = []"
    and "\<forall>x\<in>set conn. \<forall>y\<in>set disc. vh_block_hash x \<noteq> vh_block_hash y"
  shows "walk look_up previous0 (disconnected_blocks df) (common_ancestor df) \<and>
    walk look_up current0 (connected_blocks df) (common_ancestor df) \<and>
    (\<forall>x\<in>set (connected_blocks df). \<forall>y\<in>set (disconnected_blocks df). vh_block_hash x \<noteq> vh_block_hash y)"
  using assms
proof (induction "height_of current + height_of previous" arbitrary: disc conn current previous rule: less_induct)
  case less
  have kp: "known previous" "\<forall>x\<in>set disc. known x \<and> height_of previous < height_of x"
    using walk_known [OF less.prems(3,4)] by auto
  have kc: "known current" "\<forall>x\<in>set conn. known x \<and> height_of current < height_of x"
    using walk_known [OF less.prems(2,5)] by auto
  show ?case
  proof (cases "vh_block_hash current = vh_block_hash previous")
    case True
    with less.prems(1) have "df = \<lparr>common_ancestor = current, disconnected_blocks = disc, connected_blocks = conn\<rparr>"
      by (subst (asm) difference_loop.simps) simp
    moreover have "current = previous" using unique kc(1) kp(1) True by blast
    ultimately show ?thesis using less.prems by simp
  next
    case False
    let ?c = "height (vh_inner current)" and ?p = "height (vh_inner previous)"
    from less.prems(1) False obtain disc' previous' conn' current' where
      r1: "walk_back look_up (?c \<le> ?p) disc previous = Ok (disc', previous')" and
      r2: "walk_back look_up (?c \<ge> ?p) conn current = Ok (conn', current')" and
      rec: "difference_loop look_up disc' conn' current' previous' = Some (Ok df)"
      by (subst (asm) difference_loop.simps) (auto simp: Let_def split: outcome.splits)
    have w1: "if ?c \<le> ?p then disc' = disc @ [previous] \<and> look_up previous = Ok previous' else disc' = disc \<and> previous' = previous"
      using r1 by (auto simp: walk_back_def map_ok_Ok_iff)
    have w2: "if ?c \<ge> ?p then conn' = conn @ [current] \<and> look_up current = Ok current' else conn' = conn \<and> current' = current"
      using r2 by (auto simp: walk_back_def map_ok_Ok_iff)
    note bp = goes_back [OF kp(1), of previous'] and bc = goes_back [OF kc(1), of current']
    consider (lt) "height_of current < height_of previous" | (gt) "height_of previous < height_of current"
      | (eq) "height_of current = height_of previous" by linarith
    then show ?thesis
    proof cases
      case lt
      then have c: "?c \<le> ?p" "\<not> ?c \<ge> ?p" by (simp_all add: word_le_nat_alt)
      show ?thesis
        by (rule less.hyps [OF _ rec less.prems(2,3)])
           (use lt c w1 w2 bp less.prems in \<open>auto simp: walk_snoc\<close>)
    next
      case gt
      then have c: "\<not> ?c \<le> ?p" "?c \<ge> ?p" by (simp_all add: word_le_nat_alt)
      show ?thesis
        by (rule less.hyps [OF _ rec less.prems(2,3)])
           (use gt c w1 w2 bc less.prems in \<open>auto simp: walk_snoc\<close>)
    next
      case eq
      then have c: "?c \<le> ?p" "?c \<ge> ?p" by (simp_all add: word_le_nat_alt)
      have "\<forall>x\<in>set conn. vh_block_hash x \<noteq> vh_block_hash previous"
        using kc(2) kp(1) unique eq by fastforce
      moreover have "\<forall>y\<in>set disc. vh_block_hash current \<noteq> vh_block_hash y"
        using kp(2) kc(1) unique eq by fastforce
      ultimately show ?thesis
        by (intro less.hyps [OF _ rec less.prems(2,3)])
           (use eq c w1 w2 bp bc less.prems False in \<open>auto simp: walk_snoc\<close>)
    qed
  qed
qed

end

section \<open>The notifier's headers\<close>

text \<open>
  What the crate relies on: the header data a source gives for a hash is that of the one block with this
  hash (\<open>chain\<close>), heights grow by one along previous hashes, and a header hash commits to the previous
  hash. A source answers or fails, it does not panic.
\<close>

definition real_block :: "bitcoin_lib \<Rightarrow> (bytes \<Rightarrow> BlockHeaderData) \<Rightarrow> bytes \<Rightarrow> bool" where
  "real_block lib chain k = (block_hash_of lib (header (chain k)) = k)"

definition consistent :: "bitcoin_lib \<Rightarrow> (bytes \<Rightarrow> BlockHeaderData) \<Rightarrow> bool" where
  "consistent lib chain \<longleftrightarrow>
     (\<forall>k. real_block lib chain k \<longrightarrow> real_block lib chain (prev_blockhash (header (chain k))) \<longrightarrow>
        unat (height (chain k)) = Suc (unat (height (chain (prev_blockhash (header (chain k))))))) \<and>
     (\<forall>h h'. block_hash_of lib h = block_hash_of lib h' \<longrightarrow> prev_blockhash h = prev_blockhash h')"

definition honest :: "(bytes \<Rightarrow> BlockHeaderData) \<Rightarrow> block_source \<Rightarrow> bool" where
  "honest chain src \<longleftrightarrow>
     get_best_block src \<noteq> Panic \<and> (\<forall>k hint. get_header src k hint \<noteq> Panic) \<and> (\<forall>k. get_block src k \<noteq> Panic) \<and>
     (\<forall>k hint d. get_header src k hint = Ok d \<longrightarrow> d = chain k)"

definition known_header :: "bitcoin_lib \<Rightarrow> (bytes \<Rightarrow> BlockHeaderData) \<Rightarrow> ValidatedBlockHeader \<Rightarrow> bool" where
  "known_header lib chain h = (real_block lib chain (vh_block_hash h) \<and> vh_inner h = chain (vh_block_hash h))"

definition cache_ok :: "bitcoin_lib \<Rightarrow> (bytes \<Rightarrow> BlockHeaderData) \<Rightarrow> header_cache \<Rightarrow> bool" where
  "cache_ok lib chain cache = (\<forall>k h. map_of cache k = Some h \<longrightarrow> vh_block_hash h = k \<and> known_header lib chain h)"

definition trusted ::
  "bitcoin_lib \<Rightarrow> (bytes \<Rightarrow> BlockHeaderData) \<Rightarrow> block_source \<Rightarrow> header_cache \<Rightarrow> bool" where
  "trusted lib chain src cache = (consistent lib chain \<and> honest chain src \<and> cache_ok lib chain cache)"

lemma validated_known:
  "honest chain src \<Longrightarrow> get_header src k hint = Ok d \<Longrightarrow> validate_header lib d k = Ok h \<Longrightarrow>
   known_header lib chain h \<and> vh_block_hash h = k"
  by (auto simp: honest_def validate_header_def known_header_def real_block_def split: option.splits if_splits)

lemma known_eq: "known_header lib chain h \<Longrightarrow> known_header lib chain h' \<Longrightarrow> vh_block_hash h = vh_block_hash h' \<Longrightarrow> h = h'"
  by (cases h; cases h') (simp add: known_header_def)

lemma validate_header_no_panic: "validate_header lib d k \<noteq> Panic"
  by (simp add: validate_header_def split: option.splits)

lemma check_builds_on_no_panic: "check_builds_on lib h p network \<noteq> Panic"
  by (simp add: check_builds_on_def Let_def)

lemma look_up_known:
  assumes "trusted lib chain src cache" "known_header lib chain h"
    and "look_up_previous_header lib src network cache h = Ok p"
  shows "known_header lib chain p \<and> vh_block_hash p = hash_before h"
  using assms
  by (auto simp: look_up_previous_header_def poll_previous_header_def trusted_def cache_ok_def and_then_Ok_iff map_ok_Ok_iff
      Let_def dest: validated_known split: option.splits if_splits)

interpretation notifier: header_source
  "look_up_previous_header lib src network cache" "\<lambda>h. trusted lib chain src cache \<and> known_header lib chain h"
  for lib src network cache chain
proof unfold_locales
  fix h p
  assume h: "trusted lib chain src cache \<and> known_header lib chain h"
    and p: "look_up_previous_header lib src network cache h = Ok p"
  from look_up_known [OF _ _ p] h have k: "known_header lib chain p" "vh_block_hash p = hash_before h" by auto
  have "real_block lib chain (vh_block_hash h)" "vh_inner h = chain (vh_block_hash h)"
    "real_block lib chain (vh_block_hash p)" "vh_inner p = chain (vh_block_hash p)"
    using h k(1) by (auto simp: known_header_def)
  moreover have "real_block lib chain k \<Longrightarrow> real_block lib chain (prev_blockhash (header (chain k))) \<Longrightarrow>
      unat (height (chain k)) = Suc (unat (height (chain (prev_blockhash (header (chain k))))))" for k
    using h unfolding trusted_def consistent_def by blast
  ultimately have "height_of h = Suc (height_of p)"
    using k(2) by metis
  with h k show "(trusted lib chain src cache \<and> known_header lib chain p) \<and> vh_block_hash p = hash_before h \<and> height_of h = Suc (height_of p)"
    by blast
next
  fix h
  assume "trusted lib chain src cache \<and> known_header lib chain h"
  then have "get_header src k hint \<noteq> Panic" for k hint by (auto simp: trusted_def honest_def)
  then show "look_up_previous_header lib src network cache h \<noteq> Panic"
    by (simp add: look_up_previous_header_def poll_previous_header_def Let_def and_then_Panic_iff map_ok_Panic_iff
        validate_header_no_panic check_builds_on_no_panic split: option.split)
next
  fix h h'
  assume "trusted lib chain src cache \<and> known_header lib chain h" "trusted lib chain src cache \<and> known_header lib chain h'"
    "vh_block_hash h = vh_block_hash h'"
  then show "h = h'" using known_eq by blast
qed

section \<open>The listener's view of the chain\<close>

text \<open>
  The abstract chain is the list of block hashes from the tip down to the genesis block. A block may only
  be disconnected when it is the tip, and only connected on top of the tip, one height above it.
\<close>

fun full_chain :: "bitcoin_lib \<Rightarrow> (bytes \<Rightarrow> BlockHeaderData) \<Rightarrow> bytes list \<Rightarrow> bool" where
  "full_chain lib chain [] = False"
| "full_chain lib chain [k] = (real_block lib chain k \<and> height (chain k) = 0)"
| "full_chain lib chain (k # k' # ks) =
     (real_block lib chain k \<and> prev_blockhash (header (chain k)) = k' \<and> full_chain lib chain (k' # ks))"

fun view_step :: "bitcoin_lib \<Rightarrow> (bytes \<Rightarrow> BlockHeaderData) \<Rightarrow> bytes list option \<Rightarrow> chain_event \<Rightarrow> bytes list option" where
  "view_step lib chain (Some (k # ks)) (BlockDisconnected hdr ht) =
     (if hdr = header (chain k) \<and> ht = height (chain k) then Some ks else None)"
| "view_step lib chain (Some (k # ks)) (BlockConnected blk ht) =
     (if prev_blockhash (block_header blk) = k \<and> unat ht = Suc (unat (height (chain k)))
      then Some (block_hash_of lib (block_header blk) # k # ks) else None)"
| "view_step lib chain _ _ = None"

definition view_after ::
  "bitcoin_lib \<Rightarrow> (bytes \<Rightarrow> BlockHeaderData) \<Rightarrow> bytes list \<Rightarrow> chain_event list \<Rightarrow> bytes list option" where
  "view_after lib chain v es = foldl (view_step lib chain) (Some v) es"

lemma view_after_append:
  "view_after lib chain v es = Some v' \<Longrightarrow> view_after lib chain v (es @ es') = view_after lib chain v' es'"
  by (simp add: view_after_def)

lemma view_after_Nil [simp]: "view_after lib chain v [] = Some v"
  by (simp add: view_after_def)

lemma view_after_Cons: "view_after lib chain v (e # es) = foldl (view_step lib chain) (view_step lib chain (Some v) e) es"
  by (simp add: view_after_def)

text \<open>The state a listener and the cache are in, with the tip of the view.\<close>

definition in_sync ::
  "bitcoin_lib \<Rightarrow> (bytes \<Rightarrow> BlockHeaderData) \<Rightarrow> bytes list \<Rightarrow> ValidatedBlockHeader \<Rightarrow> ChainNotifier \<Rightarrow> bool" where
  "in_sync lib chain v tip nt \<longleftrightarrow>
     full_chain lib chain v \<and> hd v = vh_block_hash tip \<and> known_header lib chain tip \<and> cache_ok lib chain (header_cache nt)"

lemma cache_ok_remove: "cache_ok lib chain c \<Longrightarrow> cache_ok lib chain (hm_remove k c)"
  by (auto simp: cache_ok_def)

lemma cache_ok_insert: "cache_ok lib chain c \<Longrightarrow> known_header lib chain h \<Longrightarrow> cache_ok lib chain (hm_insert (vh_block_hash h) h c)"
  by (auto simp: cache_ok_def)

lemma disconnect_blocks_view:
  assumes "in_sync lib chain v tip nt" "trusted lib chain src cache" "walk (look_up_previous_header lib src network cache) tip hs a"
  shows "\<exists>nt' es v'. disconnect_blocks hs nt = Ok nt' \<and> chain_listener nt' = chain_listener nt @ es \<and>
    view_after lib chain v es = Some v' \<and> in_sync lib chain v' a nt'"
  using assms(1,3)
proof (induction hs arbitrary: tip nt v)
  case Nil
  then show ?case by (auto intro!: exI [of _ "[]"])
next
  case (Cons x hs)
  then obtain p where p: "x = tip" "look_up_previous_header lib src network cache tip = Ok p"
    "walk (look_up_previous_header lib src network cache) p hs a" by auto
  have tip: "known_header lib chain tip" "cache_ok lib chain (header_cache nt)" "full_chain lib chain v" "hd v = vh_block_hash tip"
    using Cons.prems(1) by (auto simp: in_sync_def)
  from notifier.goes_back [of lib chain src cache, OF conjI, OF assms(2) tip(1) p(2)]
  have b: "known_header lib chain p" "vh_block_hash p = hash_before tip" "height_of tip = Suc (height_of p)" by auto
  obtain ks where v: "v = vh_block_hash tip # vh_block_hash p # ks" "full_chain lib chain (vh_block_hash p # ks)"
    using tip b by (cases "(lib, chain, v)" rule: full_chain.cases) (auto simp: known_header_def)
  let ?nt = "nt\<lparr>header_cache := hm_remove (vh_block_hash tip) (header_cache nt),
      chain_listener := chain_listener nt @ [BlockDisconnected (header (vh_inner tip)) (height (vh_inner tip))]\<rparr>"
  have "in_sync lib chain (vh_block_hash p # ks) p ?nt"
    using v(2) b tip by (simp add: in_sync_def cache_ok_remove)
  from Cons.IH [OF this p(3)] obtain nt' es v' where *: "disconnect_blocks hs ?nt = Ok nt'"
    "chain_listener nt' = chain_listener ?nt @ es" "view_after lib chain (vh_block_hash p # ks) es = Some v'" "in_sync lib chain v' a nt'"
    by blast
  have "c = tip" if "map_of (header_cache nt) (vh_block_hash tip) = Some c" for c
  proof -
    from that tip(2) have "vh_block_hash c = vh_block_hash tip" "known_header lib chain c" unfolding cache_ok_def by blast+
    then show ?thesis using known_eq tip(1) by blast
  qed
  then have "disconnect_blocks (x # hs) nt = Ok nt'"
    using * p by (auto split: option.splits)
  moreover have "view_after lib chain v (BlockDisconnected (header (vh_inner tip)) (height (vh_inner tip)) # es) = Some v'"
    using * tip v by (simp add: view_after_Cons known_header_def) (simp add: view_after_def)
  ultimately show ?case
    using * by (intro exI [of _ nt'] exI [of _ "BlockDisconnected (header (vh_inner tip)) (height (vh_inner tip)) # es"] exI [of _ v']) simp
qed

lemma connect_loop_append:
  "connect_loop lib src a (xs @ ys) nt =
     and_then (connect_loop lib src a xs nt) (\<lambda>(r, nt').
       case r of Some e \<Rightarrow> Ok (Some e, nt') | None \<Rightarrow> connect_loop lib src (last (a # xs)) ys nt')"
  by (induction xs arbitrary: a nt) (auto split: outcome.splits cong: option.case_cong)

lemma fetch_block_hash:
  "fetch_block lib src h = Ok b \<Longrightarrow> block_hash_of lib (block_header b) = vh_block_hash h"
  by (auto simp: fetch_block_def validate_block_def and_then_Ok_iff split: option.splits if_splits)

lemma fetch_block_no_panic: "honest chain src \<Longrightarrow> fetch_block lib src h \<noteq> Panic"
  by (auto simp: fetch_block_def validate_block_def honest_def and_then_Panic_iff split: option.splits if_splits)

lemma walk_last: "walk look_up h xs a \<Longrightarrow> last (a # rev xs) = h"
  by (cases xs) auto

text \<open>One block is connected on top of the view.\<close>

lemma connect_block_view:
  assumes "in_sync lib chain v p nt" "trusted lib chain src cache" "known_header lib chain h"
    and "look_up_previous_header lib src network cache h = Ok p" "fetch_block lib src h = Ok b"
  shows "view_after lib chain v [BlockConnected b (height (vh_inner h))] = Some (vh_block_hash h # v)"
    and "in_sync lib chain (vh_block_hash h # v) h
      (nt\<lparr>header_cache := hm_insert (vh_block_hash h) h (header_cache nt),
          chain_listener := chain_listener nt @ [BlockConnected b (height (vh_inner h))]\<rparr>)"
proof -
  from notifier.goes_back [of lib chain src cache, OF conjI, OF assms(2,3,4)]
  have p: "vh_block_hash p = hash_before h" "height_of h = Suc (height_of p)" by auto
  have h: "real_block lib chain (vh_block_hash h)" "vh_inner h = chain (vh_block_hash h)"
    using assms(3) by (auto simp: known_header_def)
  obtain ks where v: "v = vh_block_hash p # ks" "full_chain lib chain v" "vh_inner p = chain (vh_block_hash p)"
    using assms(1) by (cases v) (auto simp: in_sync_def known_header_def)
  have "block_hash_of lib (block_header b) = vh_block_hash h"
    using fetch_block_hash [OF assms(5)] .
  moreover from this h have "prev_blockhash (block_header b) = hash_before h"
    using assms(2) unfolding trusted_def consistent_def real_block_def by metis
  ultimately show "view_after lib chain v [BlockConnected b (height (vh_inner h))] = Some (vh_block_hash h # v)"
    using p v by (simp add: view_after_def)
  have "full_chain lib chain (vh_block_hash h # v)"
    using v(1,2) p(1) h by simp
  then show "in_sync lib chain (vh_block_hash h # v) h
      (nt\<lparr>header_cache := hm_insert (vh_block_hash h) h (header_cache nt),
          chain_listener := chain_listener nt @ [BlockConnected b (height (vh_inner h))]\<rparr>)"
    using assms(1,3) cache_ok_insert by (simp add: in_sync_def)
qed

lemma connect_blocks_view:
  assumes "in_sync lib chain v a nt" "trusted lib chain src cache" "known_header lib chain h"
    and "walk (look_up_previous_header lib src network cache) h hs a"
  shows "\<exists>r nt' es v' tip. connect_loop lib src a (rev hs) nt = Ok (r, nt') \<and> chain_listener nt' = chain_listener nt @ es \<and>
    view_after lib chain v es = Some v' \<and> in_sync lib chain v' tip nt' \<and>
    (case r of None \<Rightarrow> tip = h | Some (e, t) \<Rightarrow> tip = t)"
  using assms(3,4)
proof (induction hs arbitrary: h)
  case Nil
  with assms(1) show ?case by (auto intro!: exI [of _ "[]"])
next
  case (Cons x hs)
  then obtain p where p: "x = h" "look_up_previous_header lib src network cache h = Ok p"
    "walk (look_up_previous_header lib src network cache) p hs a" by auto
  have kp: "known_header lib chain p"
    using look_up_known [OF assms(2) Cons.prems(1) p(2)] by simp
  from Cons.IH [OF kp p(3)] obtain r nt1 es v1 tip where *: "connect_loop lib src a (rev hs) nt = Ok (r, nt1)"
    "chain_listener nt1 = chain_listener nt @ es" "view_after lib chain v es = Some v1" "in_sync lib chain v1 tip nt1"
    "case r of None \<Rightarrow> tip = p | Some (e, t) \<Rightarrow> tip = t" by blast
  have last: "last (a # rev hs) = p" using walk_last [OF p(3)] .
  show ?case
  proof (cases r)
    case (Some e)
    with * show ?thesis
      by (intro exI [of _ "Some e"] exI [of _ nt1] exI [of _ es] exI [of _ v1] exI [of _ tip])
         (simp add: connect_loop_append)
  next
    case None
    with * have sync: "in_sync lib chain v1 p nt1" by simp
    show ?thesis
    proof (cases "fetch_block lib src h")
      case (Ok b)
      note new = connect_block_view [OF sync assms(2) Cons.prems(1) p(2) Ok]
      from * None Ok new last p(1) view_after_append [OF *(3), of "[BlockConnected b (height (vh_inner h))]"]
      show ?thesis
        by (intro exI [of _ None] exI [of _ "nt1\<lparr>header_cache := hm_insert (vh_block_hash h) h (header_cache nt1),
              chain_listener := chain_listener nt1 @ [BlockConnected b (height (vh_inner h))]\<rparr>"]
            exI [of _ "es @ [BlockConnected b (height (vh_inner h))]"] exI [of _ "vh_block_hash h # v1"] exI [of _ h])
           (simp add: connect_loop_append)
    next
      case (Err e)
      with * None sync last p(1) show ?thesis
        by (intro exI [of _ "Some (e, p)"] exI [of _ nt1] exI [of _ es] exI [of _ v1] exI [of _ p])
           (simp add: connect_loop_append)
    next
      case Panic
      with assms(2) fetch_block_no_panic show ?thesis by (auto simp: trusted_def)
    qed
  qed
qed

lemma synchronize_listener_view:
  assumes "in_sync lib chain v old nt" "trusted lib chain src (header_cache nt)" "known_header lib chain new"
  shows "\<exists>r nt' es v' tip. synchronize_listener lib src network new old nt = Some (Ok (r, nt')) \<and>
    chain_listener nt' = chain_listener nt @ es \<and> view_after lib chain v es = Some v' \<and> in_sync lib chain v' tip nt' \<and>
    (case r of Synchronized \<Rightarrow> tip = new | SyncFailed e None \<Rightarrow> tip = old \<and> nt' = nt | SyncFailed e (Some t) \<Rightarrow> tip = t)"
proof -
  have old: "known_header lib chain old" using assms(1) by (simp add: in_sync_def)
  note kn = conjI [OF assms(2,3)] and ko = conjI [OF assms(2) old]
  obtain d where d: "find_difference lib src network (header_cache nt) new old = Some d" "d \<noteq> Panic"
    using notifier.loop_returns [OF kn ko, of network "[]" "[]"] by (auto simp: find_difference_def)
  show ?thesis
  proof (cases d)
    case (Ok df)
    have w: "walk (look_up_previous_header lib src network (header_cache nt)) old (disconnected_blocks df) (common_ancestor df)"
      "walk (look_up_previous_header lib src network (header_cache nt)) new (connected_blocks df) (common_ancestor df)"
      using notifier.loop_correct [OF _ kn ko, of network "[]" "[]" new old df] d(1) Ok by (simp_all add: find_difference_def)
    from disconnect_blocks_view [OF assms(1,2) w(1)] obtain nt1 es1 v1 where 1: "disconnect_blocks (disconnected_blocks df) nt = Ok nt1"
      "chain_listener nt1 = chain_listener nt @ es1" "view_after lib chain v es1 = Some v1" "in_sync lib chain v1 (common_ancestor df) nt1"
      by blast
    from connect_blocks_view [OF 1(4) assms(2,3) w(2)] obtain r nt2 es2 v2 tip where 2:
      "connect_loop lib src (common_ancestor df) (rev (connected_blocks df)) nt1 = Ok (r, nt2)"
      "chain_listener nt2 = chain_listener nt1 @ es2" "view_after lib chain v1 es2 = Some v2" "in_sync lib chain v2 tip nt2"
      "case r of None \<Rightarrow> tip = new | Some (e, t) \<Rightarrow> tip = t" by blast
    from 1 2 d Ok view_after_append [OF 1(3), of es2] show ?thesis
      by (intro exI [of _ "case r of None \<Rightarrow> Synchronized | Some (e, t) \<Rightarrow> SyncFailed e (Some t)"] exI [of _ nt2]
            exI [of _ "es1 @ es2"] exI [of _ v2] exI [of _ tip])
         (auto simp: synchronize_listener_def connect_blocks_def split: option.splits)
  next
    case (Err e)
    with d assms(1) show ?thesis
      by (intro exI [of _ "SyncFailed e None"] exI [of _ nt] exI [of _ "[]"] exI [of _ v] exI [of _ old])
         (simp add: synchronize_listener_def)
  qed (use d in simp)
qed

lemma poll_chain_tip_known:
  assumes "honest chain src"
  shows "poll_chain_tip lib src tip \<noteq> Panic"
    and "poll_chain_tip lib src tip = Ok (Better t) \<Longrightarrow> known_header lib chain t \<and> chainwork (vh_inner tip) < chainwork (vh_inner t)"
proof -
  have "get_header src k hint \<noteq> Panic" "get_best_block src \<noteq> Panic" for k hint
    using assms by (simp_all add: honest_def)
  then show "poll_chain_tip lib src tip \<noteq> Panic"
    by (simp add: poll_chain_tip_def and_then_Panic_iff map_ok_Panic_iff validate_header_no_panic split: prod.split)
  show "known_header lib chain t \<and> chainwork (vh_inner tip) < chainwork (vh_inner t)" if "poll_chain_tip lib src tip = Ok (Better t)"
    using that validated_known [OF assms]
    by (auto simp: poll_chain_tip_def and_then_Ok_iff map_ok_Ok_iff split: if_splits)
qed

lemma update_chain_tip_view:
  assumes "in_sync lib chain v (chain_tip client) (chain_notifier client)" "known_header lib chain t"
    and "trusted lib chain src (header_cache (chain_notifier client))"
  shows "\<exists>b client' es v'. update_chain_tip lib src network t client = Some (Ok (b, client')) \<and>
    chain_listener (chain_notifier client') = chain_listener (chain_notifier client) @ es \<and>
    view_after lib chain v es = Some v' \<and> in_sync lib chain v' (chain_tip client') (chain_notifier client')"
proof -
  from synchronize_listener_view [OF assms(1,3,2), of network] obtain r nt' es v' tip where *:
    "synchronize_listener lib src network t (chain_tip client) (chain_notifier client) = Some (Ok (r, nt'))"
    "chain_listener nt' = chain_listener (chain_notifier client) @ es" "view_after lib chain v es = Some v'"
    "in_sync lib chain v' tip nt'"
    "case r of Synchronized \<Rightarrow> tip = t | SyncFailed e None \<Rightarrow> tip = chain_tip client \<and> nt' = chain_notifier client
       | SyncFailed e (Some u) \<Rightarrow> tip = u" by blast
  have "tip = chain_tip client" if "vh_block_hash tip = vh_block_hash (chain_tip client)"
    using that known_eq [of lib chain] *(4) assms(1) unfolding in_sync_def by blast
  with * show ?thesis
    by (auto simp: update_chain_tip_def split: sync_result.splits option.splits)
qed

section \<open>Properties\<close>

text \<open>
  C20. The walk to the fork point ends and finds it: for a block source that tells the truth about
  headers, and any two headers of the block tree, \<open>find_difference\<close> returns, without panicking. Unless it
  returns an error of the source, the headers to disconnect lead from the old tip back to the common
  ancestor, the headers to connect from the new tip back to the same one, and no block is in both lists:
  the ancestor is the most recent one.
\<close>

theorem fork_point_found:
  assumes "trusted lib chain src cache" "known_header lib chain new" "known_header lib chain old"
  shows "\<exists>r. find_difference lib src network cache new old = Some r \<and> r \<noteq> Panic \<and>
    (\<forall>df. r = Ok df \<longrightarrow>
       walk (look_up_previous_header lib src network cache) old (disconnected_blocks df) (common_ancestor df) \<and>
       walk (look_up_previous_header lib src network cache) new (connected_blocks df) (common_ancestor df) \<and>
       (\<forall>x\<in>set (connected_blocks df). \<forall>y\<in>set (disconnected_blocks df). vh_block_hash x \<noteq> vh_block_hash y))"
proof -
  note k = conjI [OF assms(1,2)] conjI [OF assms(1,3)]
  obtain r where r: "find_difference lib src network cache new old = Some r" "r \<noteq> Panic"
    using notifier.loop_returns [OF k, of network "[]" "[]"] by (auto simp: find_difference_def)
  show ?thesis
    using r notifier.loop_correct [OF _ k, of network "[]" "[]" new old] by (auto simp: find_difference_def)
qed

text \<open>
  C17. The client keeps its listener on one chain. Whatever a truthful source answers, a poll returns
  without panicking, and the notifications it sends turn the listener's chain, by disconnecting only its
  tip and connecting only on top of it, into a chain down to the genesis block whose tip is the tip the
  client remembers: also when the source fails after some blocks have been connected. A failed poll sends
  nothing.
\<close>

theorem client_keeps_listener_in_sync:
  assumes "trusted lib chain src (header_cache (chain_notifier client))"
    and "in_sync lib chain v (chain_tip client) (chain_notifier client)"
  shows "\<exists>r. poll_best_tip lib src network client = Some r \<and> r \<noteq> Panic \<and>
    (\<forall>x client'. r = Ok (x, client') \<longrightarrow>
       (\<exists>es v'. chain_listener (chain_notifier client') = chain_listener (chain_notifier client) @ es \<and>
          view_after lib chain v es = Some v' \<and> in_sync lib chain v' (chain_tip client') (chain_notifier client')))"
proof -
  have h: "honest chain src" using assms(1) by (simp add: trusted_def)
  have same: "\<exists>es v'. chain_listener (chain_notifier client) = chain_listener (chain_notifier client) @ es \<and>
      view_after lib chain v es = Some v' \<and> in_sync lib chain v' (chain_tip client) (chain_notifier client)"
    using assms(2) by (auto intro: exI [of _ v])
  show ?thesis
  proof (cases "poll_chain_tip lib src (chain_tip client)")
    case (Ok t)
    show ?thesis
    proof (cases t)
      case (Better t')
      with Ok poll_chain_tip_known(2) [OF h] have "known_header lib chain t'" by blast
      from update_chain_tip_view [OF assms(2) this assms(1), of network] Ok Better show ?thesis
        by (auto simp: poll_best_tip_def)
    qed (use Ok same in \<open>auto simp: poll_best_tip_def\<close>)
  next
    case Panic
    with poll_chain_tip_known(1) [OF h] show ?thesis by blast
  qed (simp add: poll_best_tip_def)
qed

section \<open>A chain of two blocks\<close>

definition demo_header :: "bytes \<Rightarrow> BlockHeader" where
  "demo_header p = \<lparr>version = 1, prev_blockhash = p, merkle_root = [], header_time = 0, bits = 0, nonce = 0\<rparr>"

definition demo_lib :: bitcoin_lib where
  "demo_lib = \<lparr>block_hash_of = (\<lambda>h. if prev_blockhash h = [0] then [7] else if prev_blockhash h = [7] then [8] else 1 # prev_blockhash h),
     validate_pow = (\<lambda>h. None), work_of = (\<lambda>h. 1), check_merkle_root = (\<lambda>b. True), check_witness_commitment = (\<lambda>b. True)\<rparr>"

definition demo_chain :: "bytes \<Rightarrow> BlockHeaderData" where
  "demo_chain k =
     (if k = [7] then \<lparr>header = demo_header [0], height = 0, chainwork = 1\<rparr>
      else if k = [8] then \<lparr>header = demo_header [7], height = 1, chainwork = 2\<rparr>
      else \<lparr>header = demo_header [9], height = 5, chainwork = 1\<rparr>)"

definition demo_block_source :: block_source where
  "demo_block_source = \<lparr>get_best_block = Ok ([8], None), get_header = (\<lambda>k hint. Ok (demo_chain k)),
     get_block = (\<lambda>k. Ok \<lparr>block_header = header (demo_chain k), txdata = []\<rparr>)\<rparr>"

definition demo_client :: SpvClient where
  "demo_client = \<lparr>chain_tip = \<lparr>vh_block_hash = [7], vh_inner = demo_chain [7]\<rparr>,
     chain_notifier = \<lparr>header_cache = [], chain_listener = []\<rparr>\<rparr>"

lemmas demo_chain_defs = demo_lib_def demo_chain_def demo_block_source_def demo_client_def demo_header_def

lemma demo_trusted: "trusted demo_lib demo_chain demo_block_source []"
  by (auto simp: trusted_def consistent_def honest_def cache_ok_def real_block_def demo_chain_defs split: if_splits)

lemma demo_known: "known_header demo_lib demo_chain \<lparr>vh_block_hash = [7], vh_inner = demo_chain [7]\<rparr>"
  "known_header demo_lib demo_chain \<lparr>vh_block_hash = [8], vh_inner = demo_chain [8]\<rparr>"
  by (simp_all add: known_header_def real_block_def demo_chain_defs)

theorem fork_point_found_witness:
  "\<exists>r. find_difference demo_lib demo_block_source Testnet [] \<lparr>vh_block_hash = [8], vh_inner = demo_chain [8]\<rparr>
     \<lparr>vh_block_hash = [7], vh_inner = demo_chain [7]\<rparr> = Some r \<and> r \<noteq> Panic"
  using fork_point_found [OF demo_trusted demo_known(2,1), of Testnet] by blast

theorem client_keeps_listener_in_sync_witness:
  "\<exists>client' v'. poll_best_tip demo_lib demo_block_source Testnet demo_client =
       Some (Ok ((Better \<lparr>vh_block_hash = [8], vh_inner = demo_chain [8]\<rparr>, True), client')) \<and>
     view_after demo_lib demo_chain [[7]] (chain_listener (chain_notifier client')) = Some v' \<and> hd v' = [8]"
proof -
  have "\<exists>client'. poll_best_tip demo_lib demo_block_source Testnet demo_client =
       Some (Ok ((Better \<lparr>vh_block_hash = [8], vh_inner = demo_chain [8]\<rparr>, True), client')) \<and> vh_block_hash (chain_tip client') = [8]"
    by (simp add: poll_best_tip_def poll_chain_tip_def validate_header_def update_chain_tip_def synchronize_listener_def
        find_difference_def difference_loop.simps walk_back_def look_up_previous_header_def poll_previous_header_def
        check_builds_on_def connect_blocks_def fetch_block_def validate_block_def demo_chain_defs)
  then obtain client' where run: "poll_best_tip demo_lib demo_block_source Testnet demo_client =
       Some (Ok ((Better \<lparr>vh_block_hash = [8], vh_inner = demo_chain [8]\<rparr>, True), client'))" "vh_block_hash (chain_tip client') = [8]"
    by blast
  have "trusted demo_lib demo_chain demo_block_source (header_cache (chain_notifier demo_client))"
    using demo_trusted by (simp add: demo_client_def)
  moreover have "in_sync demo_lib demo_chain [[7]] (chain_tip demo_client) (chain_notifier demo_client)"
    using demo_known(1) by (simp add: in_sync_def demo_client_def cache_ok_def real_block_def known_header_def) (simp add: demo_chain_def)
  ultimately show ?thesis
    using client_keeps_listener_in_sync [of demo_lib demo_chain demo_block_source demo_client "[[7]]" Testnet] run
    by (auto simp: in_sync_def demo_client_def)
qed

end
