(* ===== verification/Initial_Sync.thy ===== *)
theory Initial_Sync
  imports Block_Sync
begin

text \<open>
  \<open>lightning-block-sync/src/init.rs\<close>: bringing several listeners, each at its own block, to the best tip at
  startup. A listener is the list of the notifications it has received.
\<close>

section \<open>Definitions\<close>

definition validate_best_block_header ::
  "bitcoin_lib \<Rightarrow> block_source \<Rightarrow> (BlockSourceError, ValidatedBlockHeader) outcome" where
  "validate_best_block_header lib src =
     and_then (get_best_block src) (\<lambda>(best_block_hash, best_block_height).
       and_then (get_header src best_block_hash best_block_height) (\<lambda>d. validate_header lib d best_block_hash))"

fun old_headers ::
  "bitcoin_lib \<Rightarrow> block_source \<Rightarrow> header_cache \<Rightarrow> bytes list \<Rightarrow> (BlockSourceError, ValidatedBlockHeader list) outcome" where
  "old_headers lib src cache [] = Ok []"
| "old_headers lib src cache (k # ks) =
     and_then (case map_of cache k of
                 Some h \<Rightarrow> Ok h
               | None \<Rightarrow> and_then (get_header src k None) (\<lambda>d. validate_header lib d k)) (\<lambda>h.
       map_ok (\<lambda>hs. h # hs) (old_headers lib src cache ks))"

record sync_progress =
  listeners_at_height :: "(u32 \<times> chain_event list) list"
  most_common_ancestor :: "ValidatedBlockHeader option"
  most_connected_blocks :: "ValidatedBlockHeader list"

text \<open>
  The loop that disconnects stale blocks of each listener. A read-only cache forgets nothing, so that of the
  notifier is empty; an error leaves the remaining listeners as they were.
\<close>

fun disconnect_all ::
  "bitcoin_lib \<Rightarrow> block_source \<Rightarrow> Network \<Rightarrow> header_cache \<Rightarrow> ValidatedBlockHeader \<Rightarrow>
   (ValidatedBlockHeader \<times> chain_event list) list \<Rightarrow> sync_progress \<Rightarrow>
   (unit, BlockSourceError option \<times> chain_event list list \<times> sync_progress) outcome option" where
  "disconnect_all lib src network cache best [] pr = Some (Ok (None, [], pr))"
| "disconnect_all lib src network cache best ((old, evs) # ls) pr =
     (case find_difference lib src network cache best old of
        None \<Rightarrow> None
      | Some Panic \<Rightarrow> Some Panic
      | Some (Err e) \<Rightarrow> Some (Ok (Some e, evs # map snd ls, pr))
      | Some (Ok df) \<Rightarrow>
          (case disconnect_blocks (disconnected_blocks df) \<lparr>header_cache = [], chain_listener = evs\<rparr> of
             Ok nt \<Rightarrow>
               (let pr1 = pr\<lparr>listeners_at_height := listeners_at_height pr @
                             [(height (vh_inner (common_ancestor df)), chain_listener nt)]\<rparr>
                in disconnect_all lib src network cache best ls
                     (if length (connected_blocks df) > length (most_connected_blocks pr)
                      then pr1\<lparr>most_common_ancestor := Some (common_ancestor df), most_connected_blocks := connected_blocks df\<rparr>
                      else pr1))
           | _ \<Rightarrow> Some Panic))"

text \<open>\<open>ChainListenerSet\<close>: a listener only hears of blocks above the height it starts from.\<close>

fun event_height :: "chain_event \<Rightarrow> u32" where
  "event_height (BlockConnected b h) = h"
| "event_height (BlockDisconnected hdr h) = h"

definition listener_set_connected :: "(u32 \<times> chain_event list) list \<Rightarrow> chain_event list \<Rightarrow> chain_event list list" where
  "listener_set_connected ls es = map (\<lambda>(start, evs). evs @ filter (\<lambda>e. event_height e > start) es) ls"

definition synchronize_listeners ::
  "bitcoin_lib \<Rightarrow> block_source \<Rightarrow> Network \<Rightarrow> header_cache \<Rightarrow> (bytes \<times> chain_event list) list \<Rightarrow>
   (unit, (BlockSourceError + ValidatedBlockHeader) \<times> header_cache \<times> chain_event list list) outcome option" where
  "synchronize_listeners lib src network cache listeners =
     (let untouched = map snd listeners in
      case validate_best_block_header lib src of
        Panic \<Rightarrow> Some Panic
      | Err e \<Rightarrow> Some (Ok (Inl e, cache, untouched))
      | Ok best \<Rightarrow>
        (case old_headers lib src cache (map fst listeners) of
           Panic \<Rightarrow> Some Panic
         | Err e \<Rightarrow> Some (Ok (Inl e, cache, untouched))
         | Ok olds \<Rightarrow>
             map_option (\<lambda>r. and_then r (\<lambda>(failed, rest, pr).
                 case failed of
                   Some e \<Rightarrow> Ok (Inl e, cache, map snd (listeners_at_height pr) @ rest)
                 | None \<Rightarrow>
                     (case most_common_ancestor pr of
                        None \<Rightarrow> Ok (Inr best, cache, map snd (listeners_at_height pr))
                      | Some a \<Rightarrow>
                          map_ok (\<lambda>(err, nt).
                              ((case err of None \<Rightarrow> Inr best | Some (e, _) \<Rightarrow> Inl e), header_cache nt,
                               listener_set_connected (listeners_at_height pr) (chain_listener nt)))
                            (connect_blocks lib src a (most_connected_blocks pr) \<lparr>header_cache = cache, chain_listener = []\<rparr>))))
               (disconnect_all lib src network cache best (zip olds untouched)
                  \<lparr>listeners_at_height = [], most_common_ancestor = None, most_connected_blocks = []\<rparr>)))"

section \<open>Lemmas\<close>

lemma walk_take_drop:
  assumes "walk look_up h M A" "walk look_up h xs a" "length xs \<le> length M"
  shows "xs = take (length xs) M \<and> walk look_up a (drop (length xs) M) A"
  using assms
proof (induction xs arbitrary: h M)
  case (Cons x xs)
  then obtain m M' where "M = m # M'" by (cases M) auto
  with Cons show ?case by fastforce
qed simp

lemma walk_below:
  assumes "trusted lib chain src cache" "known_header lib chain h" "walk (look_up_previous_header lib src network cache) h xs a"
  shows "\<forall>x\<in>set xs. height_of x \<le> height_of h"
  using assms(2,3)
proof (induction xs arbitrary: h)
  case (Cons x xs)
  then obtain p where p: "x = h" "look_up_previous_header lib src network cache h = Ok p"
    "walk (look_up_previous_header lib src network cache) p xs a" by auto
  from notifier.goes_back [of lib chain src cache, OF conjI, OF assms(1) Cons.prems(1) p(2)] Cons.IH [OF _ p(3)] p(1)
  show ?case by fastforce
qed simp

lemma walk_known_all:
  assumes "trusted lib chain src cache" "known_header lib chain h" "walk (look_up_previous_header lib src network cache) h xs a"
  shows "known_header lib chain a" "\<forall>x\<in>set xs. known_header lib chain x \<and> height_of a < height_of x"
  using notifier.walk_known [of lib chain src cache, OF conjI, OF assms] by auto

text \<open>What connecting does to the cache and which heights it reports.\<close>

lemma connect_loop_facts:
  assumes "honest chain src" "cache_ok lib chain (header_cache nt)" "\<forall>x\<in>set hs. known_header lib chain x"
  shows "\<exists>r nt' es n. connect_loop lib src a hs nt = Ok (r, nt') \<and> cache_ok lib chain (header_cache nt') \<and>
    chain_listener nt' = chain_listener nt @ es \<and> map event_height es = map (\<lambda>h. height (vh_inner h)) (take n hs)"
  using assms(2,3)
proof (induction hs arbitrary: a nt)
  case Nil
  then show ?case by (auto intro!: exI [of _ "[]"])
next
  case (Cons h hs)
  show ?case
  proof (cases "fetch_block lib src h")
    case (Ok b)
    let ?e = "BlockConnected b (height (vh_inner h))"
    let ?nt = "nt\<lparr>header_cache := hm_insert (vh_block_hash h) h (header_cache nt), chain_listener := chain_listener nt @ [?e]\<rparr>"
    have "cache_ok lib chain (header_cache ?nt)"
      using Cons.prems cache_ok_insert by auto
    from Cons.IH [OF this, of h] Cons.prems(2) obtain r nt' es n where
      "connect_loop lib src h hs ?nt = Ok (r, nt')" "cache_ok lib chain (header_cache nt')"
      "chain_listener nt' = chain_listener ?nt @ es" "map event_height es = map (\<lambda>h. height (vh_inner h)) (take n hs)"
      by auto
    with Ok show ?thesis
      by (intro exI [of _ r] exI [of _ nt'] exI [of _ "?e # es"] exI [of _ "Suc n"]) simp
  next
    case (Err e)
    with Cons.prems show ?thesis
      by (intro exI [of _ "Some (e, a)"] exI [of _ nt] exI [of _ "[]"] exI [of _ 0]) simp
  qed (use fetch_block_no_panic [OF assms(1)] in blast)
qed

definition ready_at ::
  "bitcoin_lib \<Rightarrow> (bytes \<Rightarrow> BlockHeaderData) \<Rightarrow> block_source \<Rightarrow> Network \<Rightarrow> header_cache \<Rightarrow> ValidatedBlockHeader \<Rightarrow>
   nat \<Rightarrow> chain_event list \<Rightarrow> bytes list \<Rightarrow> u32 \<times> chain_event list \<Rightarrow> bool" where
  "ready_at lib chain src network cache best n evs v l \<longleftrightarrow>
     (\<exists>es v1 conn a. snd l = evs @ es \<and> view_after lib chain v es = Some v1 \<and> full_chain lib chain v1 \<and>
        hd v1 = vh_block_hash a \<and> fst l = height (vh_inner a) \<and> length conn \<le> n \<and>
        walk (look_up_previous_header lib src network cache) best conn a)"

text \<open>Connecting the longest list of blocks brings a listener that is ready to the same tip.\<close>

lemma connect_for_listener:
  assumes t: "trusted lib chain src cache" and best: "known_header lib chain best"
    and M: "walk (look_up_previous_header lib src network cache) best M A"
    and ready: "ready_at lib chain src network cache best (length M) evs v (start, evs')"
    and run: "connect_blocks lib src A M \<lparr>header_cache = cache, chain_listener = []\<rparr> = Ok (r, nt)"
  shows "\<exists>es v'. evs' @ filter (\<lambda>e. event_height e > start) (chain_listener nt) = evs @ es \<and>
    view_after lib chain v es = Some v' \<and> full_chain lib chain v' \<and> (r = None \<longrightarrow> hd v' = vh_block_hash best)"
proof -
  let ?w = "walk (look_up_previous_header lib src network cache)"
  obtain es v1 conn a where a: "evs' = evs @ es" "view_after lib chain v es = Some v1" "full_chain lib chain v1"
    "hd v1 = vh_block_hash a" "start = height (vh_inner a)" "length conn \<le> length M" "?w best conn a"
    using ready by (auto simp: ready_at_def)
  from walk_take_drop [OF M a(7,6)] have split: "conn = take (length conn) M" "?w a (drop (length conn) M) A" by auto
  note ka = walk_known_all [OF t best a(7)]
  note kd = walk_known_all [OF t ka(1) split(2)]
  let ?nt0 = "\<lparr>header_cache = cache, chain_listener = []\<rparr>"
  have M': "rev M = rev (drop (length conn) M) @ rev conn"
    by (metis split(1) append_take_drop_id rev_append)
  have h: "honest chain src" and c: "cache_ok lib chain (header_cache ?nt0)" using t by (auto simp: trusted_def)
  obtain r1 nt1 es1 n where 1: "connect_loop lib src A (rev (drop (length conn) M)) ?nt0 = Ok (r1, nt1)"
    "cache_ok lib chain (header_cache nt1)" "chain_listener nt1 = es1"
    "map event_height es1 = map (\<lambda>h. height (vh_inner h)) (take n (rev (drop (length conn) M)))"
    using connect_loop_facts [OF h c, of "rev (drop (length conn) M)" A] kd(2) by auto
  have low: "filter (\<lambda>e. event_height e > start) es1 = []"
  proof -
    have "event_height e \<le> start" if "e \<in> set es1" for e
    proof -
      have "event_height e \<in> set (map event_height es1)" using that by simp
      then obtain x where "x \<in> set (drop (length conn) M)" "event_height e = height (vh_inner x)"
        unfolding 1(4) by (auto dest: in_set_takeD)
      with walk_below [OF t ka(1) split(2)] show ?thesis by (auto simp: a(5) word_le_nat_alt)
    qed
    then show ?thesis by (auto simp: filter_empty_conv not_less)
  qed
  show ?thesis
  proof (cases r1)
    case (Some e)
    with run 1 M' have "nt = nt1" "r = Some e"
      by (auto simp: connect_blocks_def connect_loop_append)
    with low 1(3) a show ?thesis by auto
  next
    case None
    have sync: "in_sync lib chain v1 a nt1"
      using a(3,4) ka(1) 1(2) by (simp add: in_sync_def)
    have last: "last (A # rev (drop (length conn) M)) = a" using walk_last [OF split(2)] .
    from connect_blocks_view [OF sync t best a(7)] obtain r2 nt2 es2 v2 tip where 2:
      "connect_loop lib src a (rev conn) nt1 = Ok (r2, nt2)" "chain_listener nt2 = es1 @ es2"
      "view_after lib chain v1 es2 = Some v2" "in_sync lib chain v2 tip nt2" "case r2 of None \<Rightarrow> tip = best | Some (e, t) \<Rightarrow> tip = t"
      using 1(3) by blast
    have eq: "nt = nt2" "r = r2"
      using run 1(1) 2(1) None last M' by (auto simp: connect_blocks_def connect_loop_append)
    obtain es2' n2 where "chain_listener nt2 = chain_listener nt1 @ es2'"
      "map event_height es2' = map (\<lambda>h. height (vh_inner h)) (take n2 (rev conn))"
      using connect_loop_facts [OF h 1(2), of "rev conn" a] ka(2) 2(1) by auto
    then have hs: "map event_height es2 = map (\<lambda>h. height (vh_inner h)) (take n2 (rev conn))"
      using 1(3) 2(2) by simp
    have "start < event_height e" if "e \<in> set es2" for e
    proof -
      have "event_height e \<in> set (map event_height es2)" using that by simp
      then obtain x where "x \<in> set conn" "event_height e = height (vh_inner x)"
        unfolding hs by (auto dest: in_set_takeD)
      with ka(2) show ?thesis by (auto simp: a(5) word_less_nat_alt)
    qed
    then have "filter (\<lambda>e. event_height e > start) es2 = es2" by (simp add: filter_id_conv)
    with low 2 eq a view_after_append [OF a(2), of es2] show ?thesis
      by (intro exI [of _ "es @ es2"] exI [of _ v2]) (auto simp: in_sync_def)
  qed
qed

lemma ready_at_mono: "ready_at lib chain src network cache best n evs v l \<Longrightarrow> n \<le> m \<Longrightarrow> ready_at lib chain src network cache best m evs v l"
  unfolding ready_at_def by (meson le_trans)

text \<open>The progress after some listeners, given by their notifications and views, have been handled.\<close>

definition progress_ok ::
  "bitcoin_lib \<Rightarrow> (bytes \<Rightarrow> BlockHeaderData) \<Rightarrow> block_source \<Rightarrow> Network \<Rightarrow> header_cache \<Rightarrow> ValidatedBlockHeader \<Rightarrow>
   (chain_event list \<times> bytes list) list \<Rightarrow> sync_progress \<Rightarrow> bool" where
  "progress_ok lib chain src network cache best handled pr \<longleftrightarrow>
     list_all2 (\<lambda>(evs, v) l. ready_at lib chain src network cache best (length (most_connected_blocks pr)) evs v l)
       handled (listeners_at_height pr) \<and>
     (case most_common_ancestor pr of
        None \<Rightarrow> most_connected_blocks pr = []
      | Some A \<Rightarrow> walk (look_up_previous_header lib src network cache) best (most_connected_blocks pr) A)"

lemma progress_step:
  assumes t: "trusted lib chain src cache" and old: "known_header lib chain old" and v: "full_chain lib chain v" "hd v = vh_block_hash old"
    and w: "walk (look_up_previous_header lib src network cache) old (disconnected_blocks df) (common_ancestor df)"
      "walk (look_up_previous_header lib src network cache) best (connected_blocks df) (common_ancestor df)"
    and pr: "progress_ok lib chain src network cache best handled pr"
  shows "\<exists>nt. disconnect_blocks (disconnected_blocks df) \<lparr>header_cache = [], chain_listener = evs\<rparr> = Ok nt \<and>
    progress_ok lib chain src network cache best (handled @ [(evs, v)])
      (let pr1 = pr\<lparr>listeners_at_height := listeners_at_height pr @ [(height (vh_inner (common_ancestor df)), chain_listener nt)]\<rparr>
       in if length (connected_blocks df) > length (most_connected_blocks pr)
          then pr1\<lparr>most_common_ancestor := Some (common_ancestor df), most_connected_blocks := connected_blocks df\<rparr> else pr1)"
proof -
  have "in_sync lib chain v old \<lparr>header_cache = [], chain_listener = evs\<rparr>"
    using old v by (simp add: in_sync_def cache_ok_def)
  from disconnect_blocks_view [OF this t w(1)] obtain nt es v1 where nt:
    "disconnect_blocks (disconnected_blocks df) \<lparr>header_cache = [], chain_listener = evs\<rparr> = Ok nt"
    "chain_listener nt = evs @ es" "view_after lib chain v es = Some v1" "in_sync lib chain v1 (common_ancestor df) nt" by auto
  let ?n = "max (length (connected_blocks df)) (length (most_connected_blocks pr))"
  have new: "ready_at lib chain src network cache best ?n evs v (height (vh_inner (common_ancestor df)), chain_listener nt)"
    unfolding ready_at_def using nt(2-4) w(2)
    by (intro exI [of _ es] exI [of _ v1] exI [of _ "connected_blocks df"] exI [of _ "common_ancestor df"]) (auto simp: in_sync_def)
  have "list_all2 (\<lambda>(evs, v) l. ready_at lib chain src network cache best ?n evs v l) handled (listeners_at_height pr)"
    using pr by (auto simp: progress_ok_def elim!: list_all2_mono intro: ready_at_mono)
  with new have "list_all2 (\<lambda>(evs, v) l. ready_at lib chain src network cache best ?n evs v l) (handled @ [(evs, v)])
      (listeners_at_height pr @ [(height (vh_inner (common_ancestor df)), chain_listener nt)])"
    by (simp add: list_all2_appendI)
  with nt(1) w(2) pr show ?thesis
    by (auto simp: progress_ok_def Let_def max_def split: if_splits option.splits)
qed

lemma disconnect_all_facts:
  assumes t: "trusted lib chain src cache" and best: "known_header lib chain best"
    and "list_all2 (\<lambda>(old, evs) v. known_header lib chain old \<and> full_chain lib chain v \<and> hd v = vh_block_hash old) ls vs"
    and "progress_ok lib chain src network cache best handled pr"
  shows "\<exists>failed rest pr' n. disconnect_all lib src network cache best ls pr = Some (Ok (failed, rest, pr')) \<and>
    progress_ok lib chain src network cache best (handled @ take n (zip (map snd ls) vs)) pr' \<and>
    rest = drop n (map snd ls) \<and> (failed = None \<longrightarrow> n = length ls) \<and> n \<le> length ls"
  using assms(3,4)
proof (induction ls arbitrary: vs handled pr)
  case Nil
  then show ?case by auto
next
  case (Cons l ls)
  obtain old evs where l: "l = (old, evs)" by fastforce
  from Cons.prems(1) obtain v vs' where vs: "vs = v # vs'" "known_header lib chain old" "full_chain lib chain v"
    "hd v = vh_block_hash old"
    "list_all2 (\<lambda>(old, evs) v. known_header lib chain old \<and> full_chain lib chain v \<and> hd v = vh_block_hash old) ls vs'"
    by (auto simp: list_all2_Cons1 l)
  obtain d where d: "find_difference lib src network cache best old = Some d" "d \<noteq> Panic"
    using notifier.loop_returns [OF conjI [OF t best] conjI [OF t vs(2)], of network "[]" "[]"]
    by (auto simp: find_difference_def)
  show ?case
  proof (cases d)
    case (Ok df)
    have w: "walk (look_up_previous_header lib src network cache) old (disconnected_blocks df) (common_ancestor df)"
      "walk (look_up_previous_header lib src network cache) best (connected_blocks df) (common_ancestor df)"
      using notifier.loop_correct [OF _ conjI [OF t best] conjI [OF t vs(2)], of network "[]" "[]" best old df] d(1) Ok
      by (simp_all add: find_difference_def)
    from progress_step [OF t vs(2-4) w Cons.prems(2), of evs] obtain nt where nt:
      "disconnect_blocks (disconnected_blocks df) \<lparr>header_cache = [], chain_listener = evs\<rparr> = Ok nt"
      "progress_ok lib chain src network cache best (handled @ [(evs, v)])
        (let pr1 = pr\<lparr>listeners_at_height := listeners_at_height pr @ [(height (vh_inner (common_ancestor df)), chain_listener nt)]\<rparr>
         in if length (connected_blocks df) > length (most_connected_blocks pr)
            then pr1\<lparr>most_common_ancestor := Some (common_ancestor df), most_connected_blocks := connected_blocks df\<rparr> else pr1)"
      by blast
    from Cons.IH [OF vs(5) nt(2)] obtain failed rest pr' n where
      "disconnect_all lib src network cache best (l # ls) pr = Some (Ok (failed, rest, pr'))"
      "progress_ok lib chain src network cache best ((handled @ [(evs, v)]) @ take n (zip (map snd ls) vs')) pr'"
      "rest = drop n (map snd ls)" "failed = None \<longrightarrow> n = length ls" "n \<le> length ls"
      using d(1) Ok nt(1) by (auto simp: l Let_def)
    then show ?thesis
      by (intro exI [of _ failed] exI [of _ rest] exI [of _ pr'] exI [of _ "Suc n"]) (simp add: l vs(1))
  next
    case (Err e)
    with d Cons.prems(2) show ?thesis
      by (intro exI [of _ "Some e"] exI [of _ "map snd (l # ls)"] exI [of _ pr] exI [of _ 0]) (simp add: l)
  qed (use d in simp)
qed

lemma old_headers_known:
  assumes "honest chain src" "cache_ok lib chain cache"
  shows "old_headers lib src cache ks \<noteq> Panic"
    "old_headers lib src cache ks = Ok hs \<Longrightarrow> list_all2 (\<lambda>k h. known_header lib chain h \<and> vh_block_hash h = k) ks hs"
proof (induction ks arbitrary: hs)
  case (Cons k ks)
  {
    case 1
    have "get_header src k None \<noteq> Panic" using assms(1) by (simp add: honest_def)
    with Cons.IH(1) show ?case
      by (auto simp: and_then_Panic_iff map_ok_Panic_iff validate_header_no_panic split: option.splits)
  next
    case 2
    then obtain h hs' where "hs = h # hs'" "old_headers lib src cache ks = Ok hs'"
      "(case map_of cache k of Some h \<Rightarrow> Ok h | None \<Rightarrow> and_then (get_header src k None) (\<lambda>d. validate_header lib d k)) = Ok h"
      by (auto simp: and_then_Ok_iff map_ok_Ok_iff)
    with Cons.IH(2) assms validated_known [OF assms(1)] show ?case
      by (auto simp: and_then_Ok_iff cache_ok_def split: option.splits)
  }
qed auto

lemma validate_best_known:
  assumes "honest chain src"
  shows "validate_best_block_header lib src \<noteq> Panic"
    "validate_best_block_header lib src = Ok best \<Longrightarrow> known_header lib chain best"
proof -
  have "get_best_block src \<noteq> Panic" "get_header src k hint \<noteq> Panic" for k hint
    using assms by (simp_all add: honest_def)
  then show "validate_best_block_header lib src \<noteq> Panic"
    by (simp add: validate_best_block_header_def and_then_Panic_iff validate_header_no_panic split: prod.split)
  show "validate_best_block_header lib src = Ok best \<Longrightarrow> known_header lib chain best"
    using validated_known [OF assms] by (auto simp: validate_best_block_header_def and_then_Ok_iff)
qed

text \<open>A listener ends on some chain, which in case of success is the one of the best tip.\<close>

definition ends_on ::
  "bitcoin_lib \<Rightarrow> (bytes \<Rightarrow> BlockHeaderData) \<Rightarrow> BlockSourceError + ValidatedBlockHeader \<Rightarrow> chain_event list \<times> bytes list \<Rightarrow>
   chain_event list \<Rightarrow> bool" where
  "ends_on lib chain res l out \<longleftrightarrow>
     (\<exists>es v'. out = fst l @ es \<and> view_after lib chain (snd l) es = Some v' \<and> full_chain lib chain v' \<and>
        (\<forall>best. res = Inr best \<longrightarrow> hd v' = vh_block_hash best))"

lemma ends_on_untouched: "full_chain lib chain (snd l) \<Longrightarrow> ends_on lib chain (Inl e) l (fst l)"
  by (auto simp: ends_on_def)

lemma ready_ends: "ready_at lib chain src network cache best n evs v l \<Longrightarrow> ends_on lib chain (Inl e) (evs, v) (snd l)"
  by (auto simp: ready_at_def ends_on_def)

lemma progress_failed:
  assumes "progress_ok lib chain src network cache best (take n ls) pr" "\<forall>l\<in>set ls. full_chain lib chain (snd l)"
  shows "list_all2 (ends_on lib chain (Inl e)) ls (map snd (listeners_at_height pr) @ drop n (map fst ls))"
proof -
  have "list_all2 (ends_on lib chain (Inl e)) (take n ls) (map snd (listeners_at_height pr))"
    using assms(1) unfolding progress_ok_def list_all2_map2
    by (auto elim!: list_all2_mono intro: ready_ends)
  moreover have "list_all2 (ends_on lib chain (Inl e)) (drop n ls) (map fst (drop n ls))"
    using assms(2) by (auto simp: list_all2_map2 list_all2_same intro: ends_on_untouched dest: in_set_dropD)
  ultimately show ?thesis
    by (metis append_take_drop_id drop_map list_all2_appendI)
qed

lemma progress_connected:
  assumes t: "trusted lib chain src cache" and best: "known_header lib chain best"
    and pr: "progress_ok lib chain src network cache best ls pr" "most_common_ancestor pr = Some A"
    and run: "connect_blocks lib src A (most_connected_blocks pr) \<lparr>header_cache = cache, chain_listener = []\<rparr> = Ok (r, nt)"
  shows "list_all2 (ends_on lib chain (case r of None \<Rightarrow> Inr best | Some (e, _) \<Rightarrow> Inl e)) ls
    (listener_set_connected (listeners_at_height pr) (chain_listener nt))"
proof -
  have M: "walk (look_up_previous_header lib src network cache) best (most_connected_blocks pr) A"
    using pr by (simp add: progress_ok_def)
  have "ends_on lib chain (case r of None \<Rightarrow> Inr best | Some (e, _) \<Rightarrow> Inl e) (evs, v)
      (evs' @ filter (\<lambda>e. event_height e > start) (chain_listener nt))"
    if "ready_at lib chain src network cache best (length (most_connected_blocks pr)) evs v (start, evs')" for evs v start evs'
    using connect_for_listener [OF t best M that run] by (auto simp: ends_on_def split: option.splits)
  with pr(1) show ?thesis
    by (auto simp: progress_ok_def listener_set_connected_def list_all2_map2 elim!: list_all2_mono)
qed

section \<open>Properties\<close>

text \<open>
  C35. The initial synchronisation brings every listener to the best tip. Each listener starts at its own
  block with a chain down to the genesis block. With a truthful source the function returns, without
  panicking, and every listener has only been told to disconnect its tip or to connect on top of it. If
  the source answers everything, all of them end at the block the function returns, although blocks are
  fetched once, for the listener that lacks most; if it fails, each still is on some chain.
\<close>

theorem initial_sync_correct:
  assumes "trusted lib chain src cache"
    and "list_all2 (\<lambda>(k, evs) v. full_chain lib chain v \<and> hd v = k) listeners views"
  shows "\<exists>res cache' out. synchronize_listeners lib src network cache listeners = Some (Ok (res, cache', out)) \<and>
    list_all2 (ends_on lib chain res) (zip (map snd listeners) views) out"
proof -
  let ?ls = "zip (map snd listeners) views"
  have h: "honest chain src" and c: "cache_ok lib chain cache" using assms(1) by (auto simp: trusted_def)
  have len: "length listeners = length views" using assms(2) by (rule list_all2_lengthD)
  have full: "\<forall>l\<in>set ?ls. full_chain lib chain (snd l)"
    using assms(2) by (fastforce simp: list_all2_conv_all_nth set_zip)
  have un: "map fst ?ls = map snd listeners" using len by simp
  have untouched: "list_all2 (ends_on lib chain (Inl e)) ?ls (map snd listeners)" for e
    using full by (subst un [symmetric]) (auto simp: list_all2_map2 list_all2_same intro: ends_on_untouched)
  show ?thesis
  proof (cases "validate_best_block_header lib src")
    case (Ok best)
    note best = validate_best_known(2) [OF h Ok]
    show ?thesis
    proof (cases "old_headers lib src cache (map fst listeners)")
      case (Ok olds)
      note ko = old_headers_known(2) [OF h c Ok]
      let ?pr = "\<lparr>listeners_at_height = [], most_common_ancestor = None, most_connected_blocks = []\<rparr>"
      have lenO: "length olds = length listeners" using list_all2_lengthD [OF ko] by simp
      have ll: "list_all2 (\<lambda>(old, evs) v. known_header lib chain old \<and> full_chain lib chain v \<and> hd v = vh_block_hash old)
          (zip olds (map snd listeners)) views"
        using ko assms(2) lenO by (fastforce simp: list_all2_conv_all_nth)
      have p0: "progress_ok lib chain src network cache best [] ?pr" by (simp add: progress_ok_def)
      have snd: "map snd (zip olds (map snd listeners)) = map snd listeners" using lenO by simp
      from disconnect_all_facts [OF assms(1) best ll p0] lenO obtain failed rest pr n where run:
        "disconnect_all lib src network cache best (zip olds (map snd listeners)) ?pr = Some (Ok (failed, rest, pr))"
        "progress_ok lib chain src network cache best (take n ?ls) pr" "rest = drop n (map snd listeners)"
        "failed = None \<longrightarrow> n = length listeners" "n \<le> length listeners"
        unfolding snd by auto
      note def = synchronize_listeners_def Let_def \<open>validate_best_block_header lib src = Ok best\<close> Ok run(1)
      show ?thesis
      proof (cases failed)
        case (Some e)
        with run progress_failed [OF run(2) full, of e] show ?thesis by (simp add: def un)
      next
        case None
        with run len have pr: "progress_ok lib chain src network cache best ?ls pr" by simp
        show ?thesis
        proof (cases "most_common_ancestor pr")
          case ca: None
          have "list_all2 (ends_on lib chain (Inr best)) ?ls (map snd (listeners_at_height pr))"
            using pr unfolding progress_ok_def list_all2_map2
            by (auto simp: ca ready_at_def ends_on_def elim!: list_all2_mono)
          with None ca show ?thesis by (simp add: def)
        next
          case (Some A)
          obtain r nt where c: "connect_blocks lib src A (most_connected_blocks pr) \<lparr>header_cache = cache, chain_listener = []\<rparr> = Ok (r, nt)"
          proof -
            have M: "walk (look_up_previous_header lib src network cache) best (most_connected_blocks pr) A"
              using pr Some by (simp add: progress_ok_def)
            show thesis
              using connect_loop_facts [OF h, of lib "\<lparr>header_cache = cache, chain_listener = []\<rparr>" "rev (most_connected_blocks pr)" A]
                walk_known_all(2) [OF assms(1) best M] c that by (auto simp: connect_blocks_def)
          qed
          from progress_connected [OF assms(1) best pr Some c] None Some c show ?thesis by (simp add: def)
        qed
      qed
    next
      case (Err e)
      with \<open>validate_best_block_header lib src = Ok best\<close> untouched show ?thesis by (simp add: synchronize_listeners_def)
    qed (use old_headers_known(1) [OF h c] in blast)
  next
    case (Err e)
    with untouched show ?thesis by (simp add: synchronize_listeners_def)
  qed (use validate_best_known(1) [OF h] in blast)
qed

theorem initial_sync_correct_witness:
  "\<exists>res cache' out. synchronize_listeners demo_lib demo_block_source Testnet [] [([7], []), ([8], [])] = Some (Ok (res, cache', out)) \<and>
     list_all2 (ends_on demo_lib demo_chain res) (zip [[], []] [[[7]], [[8], [7]]]) out"
proof -
  have "list_all2 (\<lambda>(k, evs) v. full_chain demo_lib demo_chain v \<and> hd v = k) [([7], []), ([8], [])] [[[7]], [[8], [7]]]"
    by (simp add: real_block_def demo_chain_defs)
  from initial_sync_correct [OF demo_trusted this, of Testnet] show ?thesis by simp
qed

end
