(* ===== verification/Network_Graph.thy ===== *)
theory Network_Graph
  imports Onion_Packet Peers
begin

text \<open>
  The network graph of \<open>lightning/src/routing/gossip.rs\<close>: channels and nodes known from gossip, and the
  operations that announcements, updates, failures and the passing of time apply to them. The two
  \<open>BTreeMap\<close>s are association lists, read in the order of their keys where the code iterates and the order shows; hashing and checking of signatures, the expected funding script and
  the view of the chain are parameters, and so is the clock. A \<open>channel_update\<close> is a message with its signature, which
  the unsigned operations ignore. A node id is the bytes of its key. Locks and
  logging are left out.
\<close>

section \<open>Data\<close>

definition STALE_CHANNEL_UPDATE_AGE_LIMIT_SECS :: u64 where "STALE_CHANNEL_UPDATE_AGE_LIMIT_SECS = 60 * 60 * 24 * 14"
definition MAX_EXCESS_BYTES_FOR_RELAY :: nat where "MAX_EXCESS_BYTES_FOR_RELAY = 1024"

record ChannelUpdateInfo =
  ui_last_update :: u32
  ui_enabled :: bool
  ui_cltv_expiry_delta :: u16
  ui_htlc_minimum_msat :: u64
  ui_htlc_maximum_msat :: "u64 option"
  ui_fees :: RoutingFees
  ui_last_update_message :: "channel_update option"

record UnsignedChannelAnnouncement =
  ca_features :: bytes
  ca_chain_hash :: bytes
  ca_short_channel_id :: u64
  ca_node_id_1 :: bytes
  ca_node_id_2 :: bytes
  ca_bitcoin_key_1 :: bytes
  ca_bitcoin_key_2 :: bytes
  ca_excess_data :: bytes

record ChannelAnnouncement =
  ca_node_signature_1 :: bytes
  ca_node_signature_2 :: bytes
  ca_bitcoin_signature_1 :: bytes
  ca_bitcoin_signature_2 :: bytes
  ca_contents :: UnsignedChannelAnnouncement

record UnsignedNodeAnnouncement =
  na_features :: bytes
  na_timestamp :: u32
  na_node_id :: bytes
  na_rgb :: bytes
  na_alias :: bytes
  na_addresses :: "NetAddress list"
  na_excess_address_data :: bytes
  na_excess_data :: bytes

record NodeAnnouncement =
  na_signature :: bytes
  na_contents :: UnsignedNodeAnnouncement

record ChannelInfo =
  ci_features :: bytes
  node_one :: bytes
  one_to_two :: "ChannelUpdateInfo option"
  node_two :: bytes
  two_to_one :: "ChannelUpdateInfo option"
  capacity_sats :: "u64 option"
  ci_announcement_message :: "ChannelAnnouncement option"
  announcement_received_time :: u64

record NodeAnnouncementInfo =
  ni_features :: bytes
  ni_last_update :: u32
  ni_rgb :: bytes
  ni_alias :: bytes
  ni_addresses :: "NetAddress list"
  ni_announcement_message :: "NodeAnnouncement option"

record NodeInfo =
  node_channels :: "u64 list"
  lowest_inbound_channel_fees :: "RoutingFees option"
  announcement_info :: "NodeAnnouncementInfo option"

record NetworkGraph =
  genesis_hash :: bytes
  last_rapid_gossip_sync_timestamp :: "u32 option"
  channels :: "(u64 \<times> ChannelInfo) list"
  nodes :: "(bytes \<times> NodeInfo) list"

abbreviation chan :: "NetworkGraph \<Rightarrow> u64 \<Rightarrow> ChannelInfo option" where "chan g \<equiv> map_of (channels g)"
abbreviation node :: "NetworkGraph \<Rightarrow> bytes \<Rightarrow> NodeInfo option" where "node g \<equiv> map_of (nodes g)"

datatype ErrorAction =
    DisconnectPeer "(bytes \<times> string) option"
  | IgnoreError
  | IgnoreAndLog Level
  | IgnoreDuplicateGossip
  | SendErrorMessage bytes string
  | SendWarningMessage bytes string Level

type_synonym LightningError = "string \<times> ErrorAction"
type_synonym graph_result = "(LightningError, NetworkGraph) outcome"

datatype AccessError = UnknownChain | UnknownTx

record gossip_lib =
  node_announcement_hash :: "UnsignedNodeAnnouncement \<Rightarrow> bytes"
  channel_announcement_hash :: "UnsignedChannelAnnouncement \<Rightarrow> bytes"
  channel_update_hash :: "channel_update \<Rightarrow> bytes"
  verify_ecdsa :: "bytes \<Rightarrow> bytes \<Rightarrow> bytes \<Rightarrow> bool"
  parses_as_pubkey :: "bytes \<Rightarrow> bool"
  funding_script :: "bytes \<Rightarrow> bytes \<Rightarrow> bytes"
  get_utxo :: "(bytes \<Rightarrow> u64 \<Rightarrow> AccessError + (u64 \<times> bytes)) option"
  unix_time :: u64

definition new_graph :: "bytes \<Rightarrow> NetworkGraph" where
  "new_graph genesis = \<lparr>genesis_hash = genesis, last_rapid_gossip_sync_timestamp = None, channels = [], nodes = []\<rparr>"

definition set_last_rapid_gossip_sync_timestamp :: "u32 \<Rightarrow> NetworkGraph \<Rightarrow> NetworkGraph" where
  "set_last_rapid_gossip_sync_timestamp t g = g\<lparr>last_rapid_gossip_sync_timestamp := Some t\<rparr>"

definition secp_verify_sig :: "gossip_lib \<Rightarrow> bytes \<Rightarrow> bytes \<Rightarrow> bytes \<Rightarrow> string \<Rightarrow> (LightningError, unit) outcome" where
  "secp_verify_sig lib msg sig key msg_type =
     (if verify_ecdsa lib msg sig key then Ok ()
      else let text = ''Invalid signature on '' @ msg_type @ '' message'' in Err (text, SendWarningMessage (replicate 32 0) text Trace))"

section \<open>Nodes\<close>

definition announcement_of :: "UnsignedNodeAnnouncement \<Rightarrow> NodeAnnouncement option \<Rightarrow> NodeAnnouncementInfo" where
  "announcement_of msg full_msg =
     (let should_relay = length (na_excess_data msg) \<le> MAX_EXCESS_BYTES_FOR_RELAY \<and>
            length (na_excess_address_data msg) \<le> MAX_EXCESS_BYTES_FOR_RELAY \<and>
            length (na_excess_data msg) + length (na_excess_address_data msg) \<le> MAX_EXCESS_BYTES_FOR_RELAY
      in \<lparr>ni_features = na_features msg, ni_last_update = na_timestamp msg, ni_rgb = na_rgb msg, ni_alias = na_alias msg,
          ni_addresses = na_addresses msg, ni_announcement_message = (if should_relay then full_msg else None)\<rparr>)"

definition update_node_from_announcement_intern ::
  "UnsignedNodeAnnouncement \<Rightarrow> NodeAnnouncement option \<Rightarrow> NetworkGraph \<Rightarrow> graph_result" where
  "update_node_from_announcement_intern msg full_msg g =
     (case node g (na_node_id msg) of
        None \<Rightarrow> Err (''No existing channels for node_announcement'', IgnoreError)
      | Some n \<Rightarrow>
          if (case announcement_info n of Some i \<Rightarrow> ni_last_update i > na_timestamp msg | None \<Rightarrow> False)
          then Err (''Update older than last processed update'', IgnoreAndLog Gossip)
          else if (case announcement_info n of Some i \<Rightarrow> ni_last_update i = na_timestamp msg | None \<Rightarrow> False)
          then Err (''Update had the same timestamp as last processed update'', IgnoreDuplicateGossip)
          else Ok (g\<lparr>nodes := hm_insert (na_node_id msg) (n\<lparr>announcement_info := Some (announcement_of msg full_msg)\<rparr>) (nodes g)\<rparr>))"

definition update_node_from_announcement :: "gossip_lib \<Rightarrow> NodeAnnouncement \<Rightarrow> NetworkGraph \<Rightarrow> graph_result" where
  "update_node_from_announcement lib msg g =
     and_then (secp_verify_sig lib (node_announcement_hash lib (na_contents msg)) (na_signature msg) (na_node_id (na_contents msg))
                 ''node_announcement'')
       (\<lambda>_. update_node_from_announcement_intern (na_contents msg) (Some msg) g)"

section \<open>Adding channels\<close>

definition remove_from_node :: "bytes \<Rightarrow> u64 \<Rightarrow> (bytes \<times> NodeInfo) list \<Rightarrow> (LightningError, (bytes \<times> NodeInfo) list) outcome" where
  "remove_from_node node_id scid ns =
     (case map_of ns node_id of
        None \<Rightarrow> Panic
      | Some n \<Rightarrow>
          (let left = removeAll scid (node_channels n) in
           if left = [] then Ok (hm_remove node_id ns) else Ok (hm_insert node_id (n\<lparr>node_channels := left\<rparr>) ns)))"

definition remove_channel_in_nodes ::
  "ChannelInfo \<Rightarrow> u64 \<Rightarrow> (bytes \<times> NodeInfo) list \<Rightarrow> (LightningError, (bytes \<times> NodeInfo) list) outcome" where
  "remove_channel_in_nodes c scid ns =
     and_then (remove_from_node (node_one c) scid ns) (\<lambda>ns1. remove_from_node (node_two c) scid ns1)"

definition add_to_node :: "u64 \<Rightarrow> bytes \<Rightarrow> (bytes \<times> NodeInfo) list \<Rightarrow> (bytes \<times> NodeInfo) list" where
  "add_to_node scid node_id ns =
     hm_insert node_id
       (case map_of ns node_id of
          Some n \<Rightarrow> n\<lparr>node_channels := node_channels n @ [scid]\<rparr>
        | None \<Rightarrow> \<lparr>node_channels = [scid], lowest_inbound_channel_fees = None, announcement_info = None\<rparr>) ns"

definition add_channel_between_nodes :: "u64 \<Rightarrow> ChannelInfo \<Rightarrow> u64 option \<Rightarrow> NetworkGraph \<Rightarrow> graph_result" where
  "add_channel_between_nodes scid info utxo_value g =
     and_then (case chan g scid of
                 Some old \<Rightarrow>
                   if utxo_value \<noteq> None then remove_channel_in_nodes old scid (nodes g)
                   else Err (''Already have knowledge of channel'', IgnoreDuplicateGossip)
               | None \<Rightarrow> Ok (nodes g)) (\<lambda>ns.
       Ok (g\<lparr>channels := hm_insert scid info (channels g),
             nodes := add_to_node scid (node_two info) (add_to_node scid (node_one info) ns)\<rparr>))"

definition announced_channel :: "bytes \<Rightarrow> bytes \<Rightarrow> bytes \<Rightarrow> u64 option \<Rightarrow> ChannelAnnouncement option \<Rightarrow> u64 \<Rightarrow> ChannelInfo" where
  "announced_channel features n1 n2 capacity message received =
     \<lparr>ci_features = features, node_one = n1, one_to_two = None, node_two = n2, two_to_one = None,
      capacity_sats = capacity, ci_announcement_message = message, announcement_received_time = received\<rparr>"

definition add_channel_from_partial_announcement :: "u64 \<Rightarrow> u64 \<Rightarrow> bytes \<Rightarrow> bytes \<Rightarrow> bytes \<Rightarrow> NetworkGraph \<Rightarrow> graph_result" where
  "add_channel_from_partial_announcement scid timestamp features node_id_1 node_id_2 g =
     (if node_id_1 = node_id_2 then Err (''Channel announcement node had a channel with itself'', IgnoreError)
      else add_channel_between_nodes scid (announced_channel features node_id_1 node_id_2 None None timestamp) None g)"

definition check_utxo :: "gossip_lib \<Rightarrow> UnsignedChannelAnnouncement \<Rightarrow> (LightningError, u64 option) outcome" where
  "check_utxo lib msg =
     (case get_utxo lib of
        None \<Rightarrow> Ok None
      | Some look \<Rightarrow>
          (case look (ca_chain_hash msg) (ca_short_channel_id msg) of
             Inr (value, script_pubkey) \<Rightarrow>
               (let expected_script = funding_script lib (ca_bitcoin_key_1 msg) (ca_bitcoin_key_2 msg) in
                if script_pubkey \<noteq> expected_script
                then Err (''Channel announcement key ('' @ hex_str script_pubkey @ '') didn't match on-chain script ('' @
                       hex_str expected_script @ '')'', IgnoreError)
                else Ok (Some value))
           | Inl UnknownChain \<Rightarrow>
               Err (''Channel announced on an unknown chain ('' @ hex_str (ca_chain_hash msg) @ '')'', IgnoreError)
           | Inl UnknownTx \<Rightarrow> Err (''Channel announced without corresponding UTXO entry'', IgnoreError)))"

definition update_channel_from_unsigned_announcement_intern ::
  "gossip_lib \<Rightarrow> UnsignedChannelAnnouncement \<Rightarrow> ChannelAnnouncement option \<Rightarrow> NetworkGraph \<Rightarrow> graph_result" where
  "update_channel_from_unsigned_announcement_intern lib msg full_msg g =
     (if ca_node_id_1 msg = ca_node_id_2 msg \<or> ca_bitcoin_key_1 msg = ca_bitcoin_key_2 msg
      then Err (''Channel announcement node had a channel with itself'', IgnoreError)
      else and_then (check_utxo lib msg) (\<lambda>utxo_value.
        add_channel_between_nodes (ca_short_channel_id msg)
          (announced_channel (ca_features msg) (ca_node_id_1 msg) (ca_node_id_2 msg) utxo_value
             (if length (ca_excess_data msg) \<le> MAX_EXCESS_BYTES_FOR_RELAY then full_msg else None) (unix_time lib))
          utxo_value g))"

definition update_channel_from_announcement :: "gossip_lib \<Rightarrow> ChannelAnnouncement \<Rightarrow> NetworkGraph \<Rightarrow> graph_result" where
  "update_channel_from_announcement lib msg g =
     (let c = ca_contents msg; h = channel_announcement_hash lib c; t = ''channel_announcement'' in
      and_then (secp_verify_sig lib h (ca_node_signature_1 msg) (ca_node_id_1 c) t) (\<lambda>_.
      and_then (secp_verify_sig lib h (ca_node_signature_2 msg) (ca_node_id_2 c) t) (\<lambda>_.
      and_then (secp_verify_sig lib h (ca_bitcoin_signature_1 msg) (ca_bitcoin_key_1 c) t) (\<lambda>_.
      and_then (secp_verify_sig lib h (ca_bitcoin_signature_2 msg) (ca_bitcoin_key_2 c) t) (\<lambda>_.
        update_channel_from_unsigned_announcement_intern lib c (Some msg) g)))))"

section \<open>Failures and staleness\<close>

definition disable :: "ChannelUpdateInfo option \<Rightarrow> ChannelUpdateInfo option" where
  "disable d = map_option (\<lambda>u. u\<lparr>ui_enabled := False\<rparr>) d"

definition channel_failed :: "u64 \<Rightarrow> bool \<Rightarrow> NetworkGraph \<Rightarrow> graph_result" where
  "channel_failed scid is_permanent g =
     (case chan g scid of
        None \<Rightarrow> Ok g
      | Some c \<Rightarrow>
          if is_permanent
          then map_ok (\<lambda>ns. g\<lparr>channels := hm_remove scid (channels g), nodes := ns\<rparr>) (remove_channel_in_nodes c scid (nodes g))
          else Ok (g\<lparr>channels := hm_insert scid (c\<lparr>one_to_two := disable (one_to_two c), two_to_one := disable (two_to_one c)\<rparr>) (channels g)\<rparr>))"

definition node_failed :: "bytes \<Rightarrow> bool \<Rightarrow> NetworkGraph \<Rightarrow> NetworkGraph" where
  "node_failed node_id is_permanent g = g"

definition drop_stale :: "u32 \<Rightarrow> ChannelUpdateInfo option \<Rightarrow> ChannelUpdateInfo option" where
  "drop_stale min_time_unix d = (case d of Some u \<Rightarrow> if ui_last_update u < min_time_unix then None else d | None \<Rightarrow> None)"

definition without_stale :: "u32 \<Rightarrow> ChannelInfo \<Rightarrow> ChannelInfo" where
  "without_stale min_time_unix c =
     c\<lparr>one_to_two := drop_stale min_time_unix (one_to_two c), two_to_one := drop_stale min_time_unix (two_to_one c)\<rparr>"

definition is_stale :: "u32 \<Rightarrow> ChannelInfo \<Rightarrow> bool" where
  "is_stale min_time_unix c \<longleftrightarrow>
     one_to_two c = None \<and> two_to_one c = None \<and> announcement_received_time c < ucast min_time_unix"

fun remove_channels :: "u64 list \<Rightarrow> NetworkGraph \<Rightarrow> graph_result" where
  "remove_channels [] g = Ok g"
| "remove_channels (scid # scids) g =
     (case chan g scid of
        None \<Rightarrow> Panic
      | Some info \<Rightarrow>
          and_then (remove_channel_in_nodes info scid (nodes g)) (\<lambda>ns.
            remove_channels scids (g\<lparr>channels := hm_remove scid (channels g), nodes := ns\<rparr>)))"

definition remove_stale_channels_with_time :: "u64 \<Rightarrow> NetworkGraph \<Rightarrow> graph_result" where
  "remove_stale_channels_with_time current_time_unix g =
     (if current_time_unix > 0xFFFFFFFF \<or> current_time_unix < STALE_CHANNEL_UPDATE_AGE_LIMIT_SECS then Ok g
      else let min_time_unix = (ucast (current_time_unix - STALE_CHANNEL_UPDATE_AGE_LIMIT_SECS) :: u32);
               fresh = map (\<lambda>(scid, c). (scid, without_stale min_time_unix c)) (channels g);
               scids_to_remove = map fst (filter (\<lambda>(_, c). is_stale min_time_unix c) fresh)
           in remove_channels scids_to_remove (g\<lparr>channels := fresh\<rparr>))"

section \<open>Channel updates\<close>

definition new_channel_info :: "channel_update \<Rightarrow> channel_update option \<Rightarrow> ChannelUpdateInfo" where
  "new_channel_info msg full_msg =
     \<lparr>ui_last_update = cu_timestamp msg, ui_enabled = (cu_flags msg AND 2 \<noteq> 2),
      ui_cltv_expiry_delta = cu_cltv_expiry_delta msg, ui_htlc_minimum_msat = cu_htlc_minimum_msat msg,
      ui_htlc_maximum_msat = cu_htlc_maximum_msat msg,
      ui_fees = \<lparr>base_msat = cu_fee_base_msat msg, proportional_millionths = cu_fee_proportional_millionths msg\<rparr>,
      ui_last_update_message = (if length (cu_excess_data msg) \<le> MAX_EXCESS_BYTES_FOR_RELAY then full_msg else None)\<rparr>"

definition check_update_time :: "gossip_lib \<Rightarrow> channel_update \<Rightarrow> (LightningError, unit) outcome" where
  "check_update_time lib msg =
     (if (ucast (cu_timestamp msg) :: u64) < unix_time lib - STALE_CHANNEL_UPDATE_AGE_LIMIT_SECS
      then Err (''channel_update is older than two weeks old'', IgnoreAndLog Gossip)
      else if (ucast (cu_timestamp msg) :: u64) > unix_time lib + 60 * 60 * 24
      then Err (''channel_update has a timestamp more than a day in the future'', IgnoreAndLog Gossip)
      else Ok ())"

definition check_htlc_maximum :: "channel_update \<Rightarrow> ChannelInfo \<Rightarrow> (LightningError, unit) outcome" where
  "check_htlc_maximum msg c =
     (case cu_htlc_maximum_msat msg of
        None \<Rightarrow> Ok ()
      | Some mx \<Rightarrow>
          if mx > MAX_VALUE_MSAT then Err (''htlc_maximum_msat is larger than maximum possible msats'', IgnoreError)
          else case capacity_sats c of
                 None \<Rightarrow> Ok ()
               | Some cap \<Rightarrow>
                   if cap > MAX_VALUE_MSAT div 1000 \<or> mx > cap * 1000
                   then Err (''htlc_maximum_msat is larger than channel capacity or capacity is bogus'', IgnoreError)
                   else Ok ())"

text \<open>\<open>check_update_latest!\<close> gives whether the direction was enabled.\<close>

definition check_update_latest :: "channel_update \<Rightarrow> ChannelUpdateInfo option \<Rightarrow> (LightningError, bool) outcome" where
  "check_update_latest msg target =
     (case target of
        None \<Rightarrow> Ok False
      | Some existing \<Rightarrow>
          if ui_last_update existing > cu_timestamp msg then Err (''Update older than last processed update'', IgnoreAndLog Gossip)
          else if ui_last_update existing = cu_timestamp msg
          then Err (''Update had same timestamp as last processed update'', IgnoreDuplicateGossip)
          else Ok (ui_enabled existing))"

definition check_update_sig :: "gossip_lib \<Rightarrow> channel_update \<Rightarrow> bool \<Rightarrow> bytes \<Rightarrow> string \<Rightarrow> (LightningError, unit) outcome" where
  "check_update_sig lib msg has_sig source_node which =
     (if \<not> has_sig then Ok ()
      else if \<not> parses_as_pubkey lib source_node then Err (''Couldn't parse '' @ which @ '' node pubkey'', IgnoreAndLog Debug)
      else secp_verify_sig lib (channel_update_hash lib msg) (cu_signature msg) source_node ''channel_update'')"

definition min_fees :: "RoutingFees \<Rightarrow> RoutingFees \<Rightarrow> RoutingFees" where
  "min_fees a b = \<lparr>base_msat = min (base_msat a) (base_msat b),
     proportional_millionths = min (proportional_millionths a) (proportional_millionths b)\<rparr>"

definition inbound_info :: "bytes \<Rightarrow> ChannelInfo \<Rightarrow> ChannelUpdateInfo option" where
  "inbound_info dest c = (if node_one c = dest then two_to_one c else one_to_two c)"

fun lowest_fees_loop :: "(u64 \<times> ChannelInfo) list \<Rightarrow> bytes \<Rightarrow> RoutingFees option \<Rightarrow> u64 list \<Rightarrow> (LightningError, RoutingFees option) outcome" where
  "lowest_fees_loop chans dest lowest [] = Ok lowest"
| "lowest_fees_loop chans dest lowest (scid # scids) =
     (case map_of chans scid of
        None \<Rightarrow> Panic
      | Some c \<Rightarrow>
          lowest_fees_loop chans dest
            (case inbound_info dest c of
               Some u \<Rightarrow>
                 if ui_enabled u
                 then Some (min_fees (case lowest of
                        Some f \<Rightarrow> f
                      | None \<Rightarrow> \<lparr>base_msat = 0xFFFFFFFF, proportional_millionths = 0xFFFFFFFF\<rparr>) (ui_fees u))
                 else lowest
             | None \<Rightarrow> lowest) scids)"

definition update_lowest_fees :: "channel_update \<Rightarrow> bytes \<Rightarrow> bool \<Rightarrow> NetworkGraph \<Rightarrow> graph_result" where
  "update_lowest_fees msg dest chan_was_enabled g =
     (let chan_enabled = (cu_flags msg AND 2 \<noteq> 2);
          put = (\<lambda>n lowest. g\<lparr>nodes := hm_insert dest (n\<lparr>lowest_inbound_channel_fees := lowest\<rparr>) (nodes g)\<rparr>) in
      if \<not> chan_enabled \<and> \<not> chan_was_enabled then Ok g
      else case node g dest of
        None \<Rightarrow> Panic
      | Some n \<Rightarrow>
          if chan_enabled then
            let new = \<lparr>base_msat = cu_fee_base_msat msg, proportional_millionths = cu_fee_proportional_millionths msg\<rparr> in
            Ok (put n (Some (case lowest_inbound_channel_fees n of Some f \<Rightarrow> min_fees new f | None \<Rightarrow> new)))
          else map_ok (put n) (lowest_fees_loop (channels g) dest None (node_channels n)))"

definition update_channel_intern :: "gossip_lib \<Rightarrow> channel_update \<Rightarrow> channel_update option \<Rightarrow> bool \<Rightarrow> NetworkGraph \<Rightarrow> graph_result" where
  "update_channel_intern lib msg full_msg has_sig g =
     and_then (check_update_time lib msg) (\<lambda>_.
       case chan g (cu_short_channel_id msg) of
         None \<Rightarrow> Err (''Couldn't find channel for update'', IgnoreError)
       | Some c \<Rightarrow>
           and_then (check_htlc_maximum msg c) (\<lambda>_.
             let info = Some (new_channel_info msg full_msg);
                 put = (\<lambda>c'. g\<lparr>channels := hm_insert (cu_short_channel_id msg) c' (channels g)\<rparr>) in
             if cu_flags msg AND 1 = 1
             then and_then (check_update_latest msg (two_to_one c)) (\<lambda>chan_was_enabled.
               and_then (check_update_sig lib msg has_sig (node_two c) ''source'') (\<lambda>_.
                 update_lowest_fees msg (node_one c) chan_was_enabled (put (c\<lparr>two_to_one := info\<rparr>))))
             else and_then (check_update_latest msg (one_to_two c)) (\<lambda>chan_was_enabled.
               and_then (check_update_sig lib msg has_sig (node_one c) ''destination'') (\<lambda>_.
                 update_lowest_fees msg (node_two c) chan_was_enabled (put (c\<lparr>one_to_two := info\<rparr>))))))"

definition update_channel :: "gossip_lib \<Rightarrow> channel_update \<Rightarrow> NetworkGraph \<Rightarrow> graph_result" where
  "update_channel lib msg g = update_channel_intern lib msg (Some msg) True g"

definition update_channel_unsigned :: "gossip_lib \<Rightarrow> channel_update \<Rightarrow> NetworkGraph \<Rightarrow> graph_result" where
  "update_channel_unsigned lib msg g = update_channel_intern lib msg None False g"

text \<open>What the network update of a failed path does; an error leaves the graph as it was.\<close>

definition keep_on_error :: "NetworkGraph \<Rightarrow> graph_result \<Rightarrow> graph_result" where
  "keep_on_error g r = (case r of Err _ \<Rightarrow> Ok g | _ \<Rightarrow> r)"

fun apply_network_update :: "gossip_lib \<Rightarrow> NetworkUpdate \<Rightarrow> NetworkGraph \<Rightarrow> graph_result" where
  "apply_network_update lib (ChannelUpdateMessage msg) g = keep_on_error g (update_channel lib msg g)"
| "apply_network_update lib (ChannelFailure scid is_permanent) g = channel_failed scid is_permanent g"
| "apply_network_update lib (NodeFailure node_id is_permanent) g = Ok (node_failed node_id is_permanent g)"

text \<open>Every way the graph is changed; an operation that reports an error leaves it as it was.\<close>

datatype graph_op =
    NodeAnnounced NodeAnnouncement
  | NodeAnnouncedUnsigned UnsignedNodeAnnouncement
  | ChannelAnnounced ChannelAnnouncement
  | ChannelAnnouncedUnsigned UnsignedChannelAnnouncement
  | PartialAnnouncement u64 u64 bytes bytes bytes
  | ChannelUpdated channel_update
  | ChannelUpdatedUnsigned channel_update
  | PathFailed NetworkUpdate
  | RemoveStale
  | RapidSyncDone u32

fun graph_apply :: "gossip_lib \<Rightarrow> graph_op \<Rightarrow> NetworkGraph \<Rightarrow> graph_result" where
  "graph_apply lib (NodeAnnounced m) g = update_node_from_announcement lib m g"
| "graph_apply lib (NodeAnnouncedUnsigned m) g = update_node_from_announcement_intern m None g"
| "graph_apply lib (ChannelAnnounced m) g = update_channel_from_announcement lib m g"
| "graph_apply lib (ChannelAnnouncedUnsigned m) g = update_channel_from_unsigned_announcement_intern lib m None g"
| "graph_apply lib (PartialAnnouncement scid timestamp features n1 n2) g =
     add_channel_from_partial_announcement scid timestamp features n1 n2 g"
| "graph_apply lib (ChannelUpdated m) g = update_channel lib m g"
| "graph_apply lib (ChannelUpdatedUnsigned m) g = update_channel_unsigned lib m g"
| "graph_apply lib (PathFailed u) g = apply_network_update lib u g"
| "graph_apply lib RemoveStale g = remove_stale_channels_with_time (unix_time lib) g"
| "graph_apply lib (RapidSyncDone t) g = Ok (set_last_rapid_gossip_sync_timestamp t g)"

fun run_graph :: "(gossip_lib \<times> graph_op) list \<Rightarrow> NetworkGraph \<Rightarrow> graph_result" where
  "run_graph [] g = Ok g"
| "run_graph ((lib, op) # ops) g = and_then (keep_on_error g (graph_apply lib op g)) (run_graph ops)"

section \<open>Consistency of the two maps\<close>

definition endpoint :: "ChannelInfo \<Rightarrow> bytes \<Rightarrow> bool" where
  "endpoint c e \<longleftrightarrow> e = node_one c \<or> e = node_two c"

definition maximum_ok :: "u64 option \<Rightarrow> ChannelUpdateInfo option \<Rightarrow> bool" where
  "maximum_ok cap d \<longleftrightarrow> (\<forall>u mx. d = Some u \<longrightarrow> ui_htlc_maximum_msat u = Some mx \<longrightarrow>
     mx \<le> MAX_VALUE_MSAT \<and> (\<forall>sats. cap = Some sats \<longrightarrow> unat mx \<le> unat sats * 1000))"

definition channel_ok :: "u64 \<Rightarrow> ChannelInfo \<Rightarrow> bool" where
  "channel_ok scid c \<longleftrightarrow> (\<forall>m. ci_announcement_message c = Some m \<longrightarrow> ca_short_channel_id (ca_contents m) = scid) \<and>
     node_one c \<noteq> node_two c \<and> maximum_ok (capacity_sats c) (one_to_two c) \<and> maximum_ok (capacity_sats c) (two_to_one c)"

definition fees_bound :: "RoutingFees option \<Rightarrow> ChannelUpdateInfo option \<Rightarrow> bool" where
  "fees_bound lowest d \<longleftrightarrow> (\<forall>u. d = Some u \<longrightarrow> ui_enabled u \<longrightarrow>
     (\<exists>f. lowest = Some f \<and> base_msat f \<le> base_msat (ui_fees u) \<and>
          proportional_millionths f \<le> proportional_millionths (ui_fees u)))"

definition listed :: "(u64 \<rightharpoonup> ChannelInfo) \<Rightarrow> (bytes \<rightharpoonup> NodeInfo) \<Rightarrow> bool" where
  "listed C N \<longleftrightarrow> (\<forall>scid c e. C scid = Some c \<longrightarrow> endpoint c e \<longrightarrow> (\<exists>n. N e = Some n \<and> scid \<in> set (node_channels n)))"

definition own_announcement :: "bytes \<Rightarrow> NodeInfo \<Rightarrow> bool" where
  "own_announcement e n \<longleftrightarrow> (\<forall>i m. announcement_info n = Some i \<longrightarrow> ni_announcement_message i = Some m \<longrightarrow>
     na_node_id (na_contents m) = e)"

definition node_ok :: "(u64 \<rightharpoonup> ChannelInfo) \<Rightarrow> bytes \<Rightarrow> NodeInfo \<Rightarrow> bool" where
  "node_ok C e n \<longleftrightarrow> node_channels n \<noteq> [] \<and> distinct (node_channels n) \<and> own_announcement e n \<and>
     (\<forall>scid \<in> set (node_channels n). \<exists>c. C scid = Some c \<and> endpoint c e \<and>
        fees_bound (lowest_inbound_channel_fees n) (inbound_info e c))"

definition linked :: "(u64 \<rightharpoonup> ChannelInfo) \<Rightarrow> (bytes \<rightharpoonup> NodeInfo) \<Rightarrow> bool" where
  "linked C N \<longleftrightarrow> listed C N \<and> (\<forall>e n. N e = Some n \<longrightarrow> node_ok C e n) \<and> (\<forall>scid c. C scid = Some c \<longrightarrow> channel_ok scid c)"

definition graph_ok :: "NetworkGraph \<Rightarrow> bool" where
  "graph_ok g \<longleftrightarrow> distinct (map fst (channels g)) \<and> distinct (map fst (nodes g)) \<and> linked (chan g) (node g)"

lemmas linked_defs = linked_def listed_def node_ok_def

lemma linkedD:
  assumes "linked C N"
  shows "C scid = Some c \<Longrightarrow> endpoint c e \<Longrightarrow> \<exists>n. N e = Some n \<and> scid \<in> set (node_channels n)"
    and "N e = Some n \<Longrightarrow> node_ok C e n" and "C scid = Some c \<Longrightarrow> channel_ok scid c"
  using assms by (auto simp: linked_def listed_def)

lemma own_announcement_simps [simp]:
  "own_announcement e (n\<lparr>node_channels := cs\<rparr>) = own_announcement e n"
  "own_announcement e (n\<lparr>lowest_inbound_channel_fees := l\<rparr>) = own_announcement e n"
  "announcement_info n = None \<Longrightarrow> own_announcement e n"
  by (simp_all add: own_announcement_def)

lemma endpoints [simp]: "endpoint c (node_one c)" "endpoint c (node_two c)"
  by (simp_all add: endpoint_def)

lemma fees_bound_None [simp]: "fees_bound l None"
  by (simp add: fees_bound_def)

lemma maximum_ok_None [simp]: "maximum_ok cap None"
  by (simp add: maximum_ok_def)

text \<open>What removing a channel does to one node.\<close>

definition without_scid :: "u64 \<Rightarrow> NodeInfo \<Rightarrow> NodeInfo option" where
  "without_scid scid n = (let left = removeAll scid (node_channels n) in
     if left = [] then None else Some (n\<lparr>node_channels := left\<rparr>))"

definition detach :: "u64 \<Rightarrow> ChannelInfo \<Rightarrow> (bytes \<rightharpoonup> NodeInfo) \<Rightarrow> (bytes \<rightharpoonup> NodeInfo)" where
  "detach scid c N = (\<lambda>e. if endpoint c e then Option.bind (N e) (without_scid scid) else N e)"

lemma remove_from_node_result:
  "map_of ns e = Some n \<Longrightarrow> distinct (map fst ns) \<Longrightarrow>
   \<exists>ns'. remove_from_node e scid ns = Ok ns' \<and> distinct (map fst ns') \<and> map_of ns' = (map_of ns)(e := without_scid scid n)"
  by (simp add: remove_from_node_def without_scid_def Let_def)

lemma remove_channel_in_nodes_result:
  assumes "linked C (map_of ns)" "C scid = Some c" "distinct (map fst ns)"
  shows "\<exists>ns'. remove_channel_in_nodes c scid ns = Ok ns' \<and> distinct (map fst ns') \<and> map_of ns' = detach scid c (map_of ns)"
proof -
  obtain n1 n2 where n: "map_of ns (node_one c) = Some n1" "map_of ns (node_two c) = Some n2"
    using assms(1,2) linkedD(1) endpoints by metis
  have ne: "node_one c \<noteq> node_two c" using linkedD(3)[OF assms(1,2)] by (simp add: channel_ok_def)
  obtain m where m: "remove_from_node (node_one c) scid ns = Ok m" "distinct (map fst m)"
    "map_of m = (map_of ns)(node_one c := without_scid scid n1)"
    using remove_from_node_result[OF n(1) assms(3)] by blast
  have "map_of m (node_two c) = Some n2" using m(3) n(2) ne by simp
  then obtain k where "remove_from_node (node_two c) scid m = Ok k" "distinct (map fst k)"
    "map_of k = (map_of m)(node_two c := without_scid scid n2)"
    using remove_from_node_result m(2) by blast
  then show ?thesis using m n by (auto simp: remove_channel_in_nodes_def detach_def endpoint_def fun_eq_iff)
qed

lemma linked_detach:
  assumes "linked C N" "C scid = Some c"
  shows "linked (C(scid := None)) (detach scid c N)"
proof -
  have other: "scid \<notin> set (node_channels n)" if "N e = Some n" "\<not> endpoint c e" for e n
    using assms that linkedD(2)[OF assms(1) that(1)] by (auto simp: node_ok_def)
  have l: "listed (C(scid := None)) (detach scid c N)"
    unfolding listed_def
  proof (intro allI impI)
    fix s d e assume "(C(scid := None)) s = Some d" "endpoint d e"
    then have s: "s \<noteq> scid" "C s = Some d" by (auto split: if_splits)
    then obtain n where "N e = Some n" "s \<in> set (node_channels n)"
      using linkedD(1)[OF assms(1)] \<open>endpoint d e\<close> by blast
    moreover from this s have "without_scid scid n = Some (n\<lparr>node_channels := removeAll scid (node_channels n)\<rparr>)"
      by (auto simp: without_scid_def Let_def removeAll_filter_not_eq filter_empty_conv)
    ultimately show "\<exists>n. detach scid c N e = Some n \<and> s \<in> set (node_channels n)"
      using s by (auto simp: detach_def)
  qed
  have n: "node_ok (C(scid := None)) e n" if n: "detach scid c N e = Some n" for e n
  proof (cases "endpoint c e")
    case True
    then obtain m where "N e = Some m" "without_scid scid m = Some n"
      using n by (auto simp: detach_def Option.bind_eq_Some_conv)
    then show ?thesis using linkedD(2)[OF assms(1), of e m]
      by (auto simp: node_ok_def without_scid_def Let_def distinct_removeAll split: if_splits)
  next
    case False
    then have "N e = Some n" using n by (simp add: detach_def)
    with other[OF this False] linkedD(2)[OF assms(1) this] show ?thesis by (fastforce simp: node_ok_def)
  qed
  show ?thesis using l n linkedD(3)[OF assms(1)] by (auto simp: linked_def split: if_splits)
qed

lemma add_to_node_lookup:
  "map_of (add_to_node scid e ns) = (map_of ns)(e \<mapsto>
     (case map_of ns e of
        Some n \<Rightarrow> n\<lparr>node_channels := node_channels n @ [scid]\<rparr>
      | None \<Rightarrow> \<lparr>node_channels = [scid], lowest_inbound_channel_fees = None, announcement_info = None\<rparr>))"
  "distinct (map fst ns) \<Longrightarrow> distinct (map fst (add_to_node scid e ns))"
  by (simp_all add: add_to_node_def)

definition attached :: "u64 \<Rightarrow> NodeInfo option \<Rightarrow> NodeInfo" where
  "attached scid n = (case n of
     Some n \<Rightarrow> n\<lparr>node_channels := node_channels n @ [scid]\<rparr>
   | None \<Rightarrow> \<lparr>node_channels = [scid], lowest_inbound_channel_fees = None, announcement_info = None\<rparr>)"

lemma linked_attach:
  assumes l: "linked C N" and new: "C scid = None" and c: "channel_ok scid c" "one_to_two c = None" "two_to_one c = None"
  shows "linked (C(scid \<mapsto> c)) (\<lambda>e. if endpoint c e then Some (attached scid (N e)) else N e)" (is "linked ?C ?N")
proof -
  have absent: "scid \<notin> set (node_channels n)" if "N e = Some n" for e n
    using linkedD(2)[OF l that] new by (auto simp: node_ok_def)
  have "listed ?C ?N"
    unfolding listed_def
  proof (intro allI impI)
    fix s d e assume s: "?C s = Some d" "endpoint d e"
    show "\<exists>n. ?N e = Some n \<and> s \<in> set (node_channels n)"
    proof (cases "s = scid")
      case True
      then show ?thesis using s by (auto simp: attached_def split: option.splits)
    next
      case False
      then obtain n where "N e = Some n" "s \<in> set (node_channels n)"
        using s linkedD(1)[OF l, of s d e] by auto
      then show ?thesis by (auto simp: attached_def)
    qed
  qed
  moreover have "node_ok ?C e n" if "?N e = Some n" for e n
  proof (cases "endpoint c e")
    case True
    have i: "inbound_info e c = None" using c by (simp add: inbound_info_def)
    show ?thesis
    proof (cases "N e")
      case None
      then show ?thesis using that True i by (auto simp: attached_def node_ok_def)
    next
      case (Some m)
      then have n: "n = m\<lparr>node_channels := node_channels m @ [scid]\<rparr>" using that True by (simp add: attached_def)
      show ?thesis using linkedD(2)[OF l Some] absent[OF Some] True i
        unfolding n by (fastforce simp: node_ok_def)
    qed
  next
    case False
    then have "N e = Some n" using that by simp
    then show ?thesis using linkedD(2)[OF l] absent by (fastforce simp: node_ok_def)
  qed
  ultimately show ?thesis using c(1) linkedD(3)[OF l] by (auto simp: linked_def split: if_splits)
qed

lemma graph_ok_remove:
  assumes "graph_ok g" "chan g scid = Some c"
  shows "\<exists>ns. remove_channel_in_nodes c scid (nodes g) = Ok ns \<and>
    graph_ok (g\<lparr>channels := hm_remove scid (channels g), nodes := ns\<rparr>) \<and> map_of ns = detach scid c (node g) \<and> distinct (map fst ns)"
proof -
  have g: "linked (chan g) (node g)" "distinct (map fst (nodes g))" using assms(1) by (simp_all add: graph_ok_def)
  obtain ns where "remove_channel_in_nodes c scid (nodes g) = Ok ns" "distinct (map fst ns)" "map_of ns = detach scid c (node g)"
    using remove_channel_in_nodes_result[OF g(1) assms(2) g(2)] by blast
  then show ?thesis using linked_detach[OF g(1) assms(2)] assms(1) by (simp add: graph_ok_def)
qed

lemma graph_ok_attach:
  assumes C: "linked ((chan g)(scid := None)) (map_of ns)" and d: "distinct (map fst (channels g))" "distinct (map fst ns)"
    and c: "channel_ok scid c" "one_to_two c = None" "two_to_one c = None"
  shows "graph_ok (g\<lparr>channels := hm_insert scid c (channels g),
           nodes := add_to_node scid (node_two c) (add_to_node scid (node_one c) ns)\<rparr>)"
proof -
  have ne: "node_one c \<noteq> node_two c" using c(1) by (simp add: channel_ok_def)
  have "map_of (add_to_node scid (node_two c) (add_to_node scid (node_one c) ns)) =
      (\<lambda>e. if endpoint c e then Some (attached scid (map_of ns e)) else map_of ns e)"
    using ne by (auto simp: add_to_node_lookup(1) attached_def endpoint_def fun_eq_iff)
  then show ?thesis using linked_attach[OF C _ c] d by (simp add: graph_ok_def add_to_node_lookup(2))
qed

lemma add_channel_keeps:
  assumes "graph_ok g" and c: "channel_ok scid c" "one_to_two c = None" "two_to_one c = None"
  shows "(\<exists>e. add_channel_between_nodes scid c v g = Err e) \<or> (\<exists>g'. add_channel_between_nodes scid c v g = Ok g' \<and> graph_ok g')"
proof (cases "chan g scid")
  case None
  then have "(chan g)(scid := None) = chan g" by auto
  then show ?thesis using None assms graph_ok_attach[of g scid "nodes g" c]
    by (simp add: add_channel_between_nodes_def graph_ok_def)
next
  case (Some old)
  obtain ns where "remove_channel_in_nodes old scid (nodes g) = Ok ns" "map_of ns = detach scid old (node g)" "distinct (map fst ns)"
    "graph_ok (g\<lparr>channels := hm_remove scid (channels g), nodes := ns\<rparr>)"
    using graph_ok_remove[OF assms(1) Some] by blast
  then show ?thesis using Some assms graph_ok_attach[of g scid ns c]
    by (simp add: add_channel_between_nodes_def graph_ok_def)
qed

section \<open>Channels changed in place\<close>

text \<open>A channel keeps its endpoints; one endpoint may get a new bound for its inbound fees.\<close>

lemma linked_replace:
  assumes l: "linked C N" and c: "C scid = Some c" "channel_ok scid c'" "node_one c' = node_one c" "node_two c' = node_two c"
    and f: "\<And>e n. N e = Some n \<Longrightarrow> endpoint c e \<Longrightarrow> fees_bound (lowest_inbound_channel_fees n) (inbound_info e c')"
  shows "linked (C(scid \<mapsto> c')) N"
proof -
  have e: "endpoint c' = endpoint c" using c by (simp add: endpoint_def fun_eq_iff)
  have "listed (C(scid \<mapsto> c')) N"
    using linkedD(1)[OF l] c(1) e by (auto simp: listed_def split: if_splits)
  moreover have "node_ok (C(scid \<mapsto> c')) x n" if x: "N x = Some n" for x n
    unfolding node_ok_def
  proof (intro conjI ballI)
    show "node_channels n \<noteq> []" "distinct (node_channels n)" "own_announcement x n"
      using linkedD(2)[OF l x] by (simp_all add: node_ok_def)
    fix s assume "s \<in> set (node_channels n)"
    then obtain d where d: "C s = Some d" "endpoint d x" "fees_bound (lowest_inbound_channel_fees n) (inbound_info x d)"
      using linkedD(2)[OF l x] by (auto simp: node_ok_def)
    show "\<exists>d. (C(scid \<mapsto> c')) s = Some d \<and> endpoint d x \<and> fees_bound (lowest_inbound_channel_fees n) (inbound_info x d)"
      using d f[OF x] e c(1) by auto
  qed
  ultimately show ?thesis using linkedD(3)[OF l] c(2) by (auto simp: linked_def split: if_splits)
qed

lemma linked_lowest:
  assumes l: "linked C N" and n: "N e = Some n"
    and c: "C scid = Some c" "channel_ok scid c'" "node_one c' = node_one c" "node_two c' = node_two c"
    and other: "\<And>x. x \<noteq> e \<Longrightarrow> endpoint c x \<Longrightarrow> inbound_info x c' = inbound_info x c"
    and f: "\<And>s d. s \<in> set (node_channels n) \<Longrightarrow> (C(scid \<mapsto> c')) s = Some d \<Longrightarrow> fees_bound low (inbound_info e d)"
  shows "linked (C(scid \<mapsto> c')) (N(e \<mapsto> n\<lparr>lowest_inbound_channel_fees := low\<rparr>))" (is "linked ?C ?N")
proof -
  have ep: "endpoint c' = endpoint c" using c by (simp add: endpoint_def fun_eq_iff)
  have "listed ?C ?N"
    unfolding listed_def
  proof (intro allI impI)
    fix s d x assume "?C s = Some d" "endpoint d x"
    then obtain d' where "C s = Some d'" "endpoint d' x" using c(1) ep by (auto split: if_splits)
    then obtain m where "N x = Some m" "s \<in> set (node_channels m)" using linkedD(1)[OF l] by blast
    then show "\<exists>m. ?N x = Some m \<and> s \<in> set (node_channels m)" using n by auto
  qed
  moreover have "node_ok ?C x m" if x: "?N x = Some m" for x m
  proof -
    obtain k where k: "N x = Some k" "node_channels m = node_channels k" "x \<noteq> e \<Longrightarrow> m = k"
      "own_announcement x m = own_announcement x k" "x = e \<Longrightarrow> k = n \<and> lowest_inbound_channel_fees m = low"
    proof (cases "x = e")
      case True
      then have "m = n\<lparr>lowest_inbound_channel_fees := low\<rparr>" using x by simp
      then show ?thesis using that[of n] n True by simp
    next
      case False
      then show ?thesis using that[of m] x by simp
    qed
    have "\<exists>d. ?C s = Some d \<and> endpoint d x \<and> fees_bound (lowest_inbound_channel_fees m) (inbound_info x d)"
      if s: "s \<in> set (node_channels k)" for s
    proof -
      obtain d where d: "C s = Some d" "endpoint d x" "fees_bound (lowest_inbound_channel_fees k) (inbound_info x d)"
        using linkedD(2)[OF l k(1)] s by (auto simp: node_ok_def)
      obtain d' where d': "?C s = Some d'" "endpoint d' x" "s = scid \<Longrightarrow> d' = c' \<and> d = c" "s \<noteq> scid \<Longrightarrow> d' = d"
      proof (cases "s = scid")
        case True
        then have "d = c" using d(1) c(1) by simp
        then show ?thesis using that[of c'] True d(2) ep by simp
      next
        case False
        then show ?thesis using that[of d] d(1,2) by simp
      qed
      show ?thesis
      proof (cases "x = e")
        case True
        then have "k = n" "lowest_inbound_channel_fees m = low" using k(5) by auto
        moreover have "fees_bound low (inbound_info e d')" using f s d'(1) \<open>k = n\<close> by blast
        ultimately show ?thesis using d'(1,2) True by metis
      next
        case False
        then have "inbound_info x d' = inbound_info x d" using other[OF False] d(2) d'(3,4) by (cases "s = scid") simp_all
        then show ?thesis using d(3) d'(1,2) k(3)[OF False] by metis
      qed
    qed
    then show ?thesis using linkedD(2)[OF l k(1)] k(2,4) by (simp add: node_ok_def)
  qed
  ultimately show ?thesis using linkedD(3)[OF l] c(2) by (auto simp: linked_def split: if_splits)
qed

lemma fees_bound_mono_None:
  assumes "fees_bound l d" "\<And>u. d' = Some u \<Longrightarrow> ui_enabled u \<Longrightarrow> d = Some u"
  shows "fees_bound l d'"
  using assms by (auto simp: fees_bound_def)

lemma linked_fees:
  assumes "linked C N" "C scid = Some c" "endpoint c e" "N e = Some n"
  shows "fees_bound (lowest_inbound_channel_fees n) (inbound_info e c)"
proof -
  have "scid \<in> set (node_channels n)" using linkedD(1)[OF assms(1-3)] assms(4) by auto
  then show ?thesis using linkedD(2)[OF assms(1,4)] assms(2) by (auto simp: node_ok_def)
qed

lemma disable_simps:
  "maximum_ok cap (disable d) = maximum_ok cap d" "disable d = Some u \<Longrightarrow> \<not> ui_enabled u"
  by (auto simp: disable_def maximum_ok_def)

lemma channel_failed_keeps:
  assumes "graph_ok g"
  shows "\<exists>g'. channel_failed scid p g = Ok g' \<and> graph_ok g'"
proof (cases "chan g scid")
  case None
  then show ?thesis using assms by (simp add: channel_failed_def)
next
  case (Some c)
  let ?c = "c\<lparr>one_to_two := disable (one_to_two c), two_to_one := disable (two_to_one c)\<rparr>"
  have l: "linked (chan g) (node g)" using assms by (simp add: graph_ok_def)
  show ?thesis
  proof (cases p)
    case True
    then show ?thesis using graph_ok_remove[OF assms Some] Some by (auto simp: channel_failed_def)
  next
    case False
    have "linked ((chan g)(scid \<mapsto> ?c)) (node g)"
      using l linkedD(3)[OF l Some]
      by (intro linked_replace[OF l Some]) (auto simp: channel_ok_def disable_simps inbound_info_def fees_bound_def)
    then show ?thesis using False Some assms by (simp add: channel_failed_def graph_ok_def)
  qed
qed

section \<open>Updates of one direction\<close>

lemma check_htlc_maximum_ok:
  assumes "check_htlc_maximum msg c = Ok ()"
  shows "maximum_ok (capacity_sats c) (Some (new_channel_info msg full))"
proof -
  have "unat mx \<le> unat cap * 1000"
    if "cap \<le> MAX_VALUE_MSAT div 1000" "mx \<le> cap * 1000" for cap mx :: u64
  proof -
    have "unat cap \<le> 21000000 * 100000000"
      using that(1) by (simp add: MAX_VALUE_MSAT_def word_le_nat_alt)
    then have "unat (cap * 1000) = unat cap * 1000" by (simp add: unat_word_ariths)
    then show ?thesis using that(2) by (simp add: word_le_nat_alt)
  qed
  then show ?thesis using assms
    by (auto simp: check_htlc_maximum_def maximum_ok_def new_channel_info_def not_less split: option.splits if_splits)
qed

lemma fees_bound_min:
  "fees_bound (Some f) d \<Longrightarrow> fees_bound (Some (min_fees new f)) d"
  "fees_bound (Some (min_fees (ui_fees u) f)) (Some u)" "fees_bound (Some (ui_fees u)) (Some u)"
  "fees_bound None d \<Longrightarrow> fees_bound l d"
  by (auto simp: fees_bound_def min_fees_def min.coboundedI1 min.coboundedI2)

lemma lowest_fees_loop_result:
  assumes "\<forall>s \<in> set scids. map_of chans s \<noteq> None"
  shows "\<exists>low. lowest_fees_loop chans dest l scids = Ok low \<and>
    (\<forall>d. fees_bound l d \<longrightarrow> fees_bound low d) \<and>
    (\<forall>s \<in> set scids. \<forall>c. map_of chans s = Some c \<longrightarrow> fees_bound low (inbound_info dest c))"
  using assms
proof (induction scids arbitrary: l)
  case (Cons s scids)
  then obtain c where c: "map_of chans s = Some c" by auto
  define l' where "l' = (case inbound_info dest c of
      Some u \<Rightarrow> if ui_enabled u then Some (min_fees (case l of Some f \<Rightarrow> f
          | None \<Rightarrow> \<lparr>base_msat = 0xFFFFFFFF, proportional_millionths = 0xFFFFFFFF\<rparr>) (ui_fees u)) else l
    | None \<Rightarrow> l)"
  have keep: "fees_bound l d \<Longrightarrow> fees_bound l' d" for d
    by (cases l) (auto simp: l'_def fees_bound_def min_fees_def min.coboundedI1 min.coboundedI2 split: option.splits)
  have here: "fees_bound l' (inbound_info dest c)"
    by (auto simp: l'_def fees_bound_def min_fees_def split: option.splits)
  have "\<exists>low. lowest_fees_loop chans dest l' scids = Ok low \<and>
    (\<forall>d. fees_bound l' d \<longrightarrow> fees_bound low d) \<and>
    (\<forall>s \<in> set scids. \<forall>c. map_of chans s = Some c \<longrightarrow> fees_bound low (inbound_info dest c))"
    using Cons.IH[of l'] Cons.prems by simp
  then show ?case using c keep here by (auto simp flip: l'_def)
qed simp

text \<open>The second half of an update: the channel holds the new direction, the node's bound follows.\<close>

lemma update_lowest_fees_keeps:
  assumes g: "graph_ok g" and c: "chan g scid = Some c" "endpoint c dest"
    and c': "channel_ok scid c'" "node_one c' = node_one c" "node_two c' = node_two c"
    and dir: "inbound_info dest c' = Some (new_channel_info msg full)"
    and other: "\<And>x. x \<noteq> dest \<Longrightarrow> endpoint c x \<Longrightarrow> inbound_info x c' = inbound_info x c"
  shows "\<exists>g'. update_lowest_fees msg dest was (g\<lparr>channels := hm_insert scid c' (channels g)\<rparr>) = Ok g' \<and> graph_ok g' \<and>
    channels g' = hm_insert scid c' (channels g)"
proof -
  have l: "linked (chan g) (node g)" and d: "distinct (map fst (channels g))" "distinct (map fst (nodes g))"
    using g by (simp_all add: graph_ok_def)
  obtain n where n: "node g dest = Some n" "scid \<in> set (node_channels n)" using linkedD(1)[OF l c] by blast
  let ?C = "(chan g)(scid \<mapsto> c')"
  have put: "graph_ok (g\<lparr>channels := hm_insert scid c' (channels g),
      nodes := hm_insert dest (n\<lparr>lowest_inbound_channel_fees := low\<rparr>) (nodes g)\<rparr>)"
    if "\<And>s d. s \<in> set (node_channels n) \<Longrightarrow> ?C s = Some d \<Longrightarrow> fees_bound low (inbound_info dest d)" for low
    using linked_lowest[OF l n(1) c(1) c' other that] d by (simp add: graph_ok_def)
  have inb: "fees_bound (lowest_inbound_channel_fees n) (inbound_info dest d)"
    if "s \<in> set (node_channels n)" "chan g s = Some d" for s d
    using linkedD(2)[OF l n(1)] that by (auto simp: node_ok_def)
  consider "cu_flags msg AND 2 \<noteq> 2" | "cu_flags msg AND 2 = 2" "\<not> was" | "cu_flags msg AND 2 = 2" was by blast
  then show ?thesis
  proof cases
    case 1
    let ?new = "\<lparr>base_msat = cu_fee_base_msat msg, proportional_millionths = cu_fee_proportional_millionths msg\<rparr>"
    let ?low = "case lowest_inbound_channel_fees n of Some f \<Rightarrow> min_fees ?new f | None \<Rightarrow> ?new"
    have new: "?new = ui_fees (new_channel_info msg full)" by (simp add: new_channel_info_def)
    have "fees_bound (Some ?low) (inbound_info dest d)" if "s \<in> set (node_channels n)" "?C s = Some d" for s d
    proof (cases "s = scid")
      case True
      then show ?thesis using that dir unfolding new by (auto intro: fees_bound_min split: option.split)
    next
      case False
      then show ?thesis using inb[OF that(1), of d] that(2)
        by (cases "lowest_inbound_channel_fees n") (auto intro: fees_bound_min)
    qed
    then show ?thesis using 1 n put[of "Some ?low"] by (simp add: update_lowest_fees_def Let_def)
  next
    case 2
    have "linked ?C (node g)"
    proof (rule linked_replace[OF l c(1) c'])
      fix e m assume e: "node g e = Some m" "endpoint c e"
      show "fees_bound (lowest_inbound_channel_fees m) (inbound_info e c')"
      proof (cases "e = dest")
        case True
        then show ?thesis using dir 2 by (simp add: fees_bound_def new_channel_info_def)
      next
        case False
        then show ?thesis using other[OF False e(2)] linked_fees[OF l c(1) e(2,1)] by simp
      qed
    qed
    then show ?thesis using 2 d by (simp add: update_lowest_fees_def graph_ok_def Let_def)
  next
    case 3
    have "\<forall>s \<in> set (node_channels n). map_of (hm_insert scid c' (channels g)) s \<noteq> None"
      using linkedD(2)[OF l n(1)] by (auto simp: node_ok_def)
    then obtain low where "lowest_fees_loop (hm_insert scid c' (channels g)) dest None (node_channels n) = Ok low"
      "\<forall>s \<in> set (node_channels n). \<forall>d. ?C s = Some d \<longrightarrow> fees_bound low (inbound_info dest d)"
      using lowest_fees_loop_result[of "node_channels n" "hm_insert scid c' (channels g)" dest None]
      by (auto simp del: fun_upd_apply)
    then show ?thesis using 3 n put[of low] by (simp add: update_lowest_fees_def Let_def del: fun_upd_apply)
  qed
qed

text \<open>The direction of a channel that an update is for.\<close>

definition source_node :: "channel_update \<Rightarrow> ChannelInfo \<Rightarrow> bytes" where
  "source_node msg c = (if cu_flags msg AND 1 = 1 then node_two c else node_one c)"

definition direction :: "channel_update \<Rightarrow> ChannelInfo \<Rightarrow> ChannelUpdateInfo option" where
  "direction msg c = (if cu_flags msg AND 1 = 1 then two_to_one c else one_to_two c)"

definition set_direction :: "channel_update \<Rightarrow> ChannelUpdateInfo \<Rightarrow> ChannelInfo \<Rightarrow> ChannelInfo" where
  "set_direction msg u c = (if cu_flags msg AND 1 = 1 then c\<lparr>two_to_one := Some u\<rparr> else c\<lparr>one_to_two := Some u\<rparr>)"

definition dest_node :: "channel_update \<Rightarrow> ChannelInfo \<Rightarrow> bytes" where
  "dest_node msg c = (if cu_flags msg AND 1 = 1 then node_one c else node_two c)"

lemmas direction_defs = source_node_def direction_def set_direction_def dest_node_def

text \<open>An update in one piece, whichever direction it is for.\<close>

lemma update_channel_intern_alt:
  "update_channel_intern lib msg full has_sig g =
     and_then (check_update_time lib msg) (\<lambda>_.
       case chan g (cu_short_channel_id msg) of
         None \<Rightarrow> Err (''Couldn't find channel for update'', IgnoreError)
       | Some c \<Rightarrow>
           and_then (check_htlc_maximum msg c) (\<lambda>_.
           and_then (check_update_latest msg (direction msg c)) (\<lambda>was.
           and_then (check_update_sig lib msg has_sig (source_node msg c) (if cu_flags msg AND 1 = 1 then ''source'' else ''destination''))
             (\<lambda>_. update_lowest_fees msg (dest_node msg c) was
               (g\<lparr>channels := hm_insert (cu_short_channel_id msg) (set_direction msg (new_channel_info msg full) c) (channels g)\<rparr>)))))"
  by (auto simp: update_channel_intern_def direction_defs Let_def cong: option.case_cong)

lemma checks_never_panic:
  "check_update_time lib msg \<noteq> Panic" "check_htlc_maximum msg c \<noteq> Panic" "check_update_latest msg d \<noteq> Panic"
  "secp_verify_sig lib h sig key t \<noteq> Panic" "check_update_sig lib msg has_sig src which \<noteq> Panic"
  "check_utxo lib ann \<noteq> Panic"
  by (auto simp: check_update_time_def check_htlc_maximum_def check_update_latest_def secp_verify_sig_def
      check_update_sig_def check_utxo_def Let_def split: option.splits sum.splits AccessError.splits)

lemma set_direction_keeps:
  assumes "channel_ok scid c" "maximum_ok (capacity_sats c) (Some u)"
  shows "channel_ok scid (set_direction msg u c)" "node_one (set_direction msg u c) = node_one c"
    "node_two (set_direction msg u c) = node_two c" "endpoint c (dest_node msg c)"
    "inbound_info (dest_node msg c) (set_direction msg u c) = Some u"
    "x \<noteq> dest_node msg c \<Longrightarrow> endpoint c x \<Longrightarrow> inbound_info x (set_direction msg u c) = inbound_info x c"
  using assms by (auto simp: direction_defs channel_ok_def inbound_info_def endpoint_def)

definition keeps_ok :: "graph_result \<Rightarrow> bool" where
  "keeps_ok r \<longleftrightarrow> (case r of Ok g \<Rightarrow> graph_ok g | Err _ \<Rightarrow> True | Panic \<Rightarrow> False)"

lemma keeps_ok_simps [simp]: "keeps_ok (Ok g) = graph_ok g" "keeps_ok (Err e)" "\<not> keeps_ok Panic"
  by (simp_all add: keeps_ok_def)

lemma keeps_ok_and_then: "r \<noteq> Panic \<Longrightarrow> (\<And>a. r = Ok a \<Longrightarrow> keeps_ok (f a)) \<Longrightarrow> keeps_ok (and_then r f)"
  by (cases r) simp_all

lemma update_channel_keeps:
  assumes "graph_ok g"
  shows "keeps_ok (update_channel_intern lib msg full has_sig g)"
proof (cases "chan g (cu_short_channel_id msg)")
  case None
  then show ?thesis by (cases "check_update_time lib msg") (simp_all add: update_channel_intern_alt checks_never_panic)
next
  case (Some c)
  have ok: "channel_ok (cu_short_channel_id msg) c" using assms Some by (auto simp: graph_ok_def intro: linkedD(3))
  have "keeps_ok (update_lowest_fees msg (dest_node msg c) was
      (g\<lparr>channels := hm_insert (cu_short_channel_id msg) (set_direction msg (new_channel_info msg full) c) (channels g)\<rparr>))"
    if "check_htlc_maximum msg c = Ok ()" for was
  proof -
    note keep = set_direction_keeps[OF ok check_htlc_maximum_ok[OF that, where full = full], where msg = msg]
    show ?thesis using update_lowest_fees_keeps[OF assms Some keep(4,1,2,3,5) keep(6), of was] by auto
  qed
  then show ?thesis unfolding update_channel_intern_alt
    by (auto simp: Some checks_never_panic intro!: keeps_ok_and_then)
qed

section \<open>Announcements and staleness\<close>

lemma update_node_keeps:
  assumes "graph_ok g" and full: "\<forall>m. full = Some m \<longrightarrow> na_contents m = msg"
  shows "keeps_ok (update_node_from_announcement_intern msg full g)"
proof -
  let ?put = "\<lambda>n. n\<lparr>announcement_info := Some (announcement_of msg full)\<rparr>"
  have "graph_ok (g\<lparr>nodes := hm_insert (na_node_id msg) (?put n) (nodes g)\<rparr>)" if n: "node g (na_node_id msg) = Some n" for n
  proof -
    have l: "linked (chan g) (node g)" using assms by (simp add: graph_ok_def)
    have "own_announcement (na_node_id msg) (?put n)"
      using full by (auto simp: own_announcement_def announcement_of_def Let_def)
    then have "node_ok (chan g) (na_node_id msg) (?put n)"
      using linkedD(2)[OF l n] by (simp add: node_ok_def)
    moreover have "listed (chan g) ((node g)(na_node_id msg \<mapsto> ?put n))"
      using l n unfolding linked_def listed_def by (fastforce split: if_splits)
    ultimately have "linked (chan g) ((node g)(na_node_id msg \<mapsto> ?put n))"
      using l by (simp add: linked_def)
    then show ?thesis using assms by (simp add: graph_ok_def)
  qed
  then show ?thesis by (simp add: update_node_from_announcement_intern_def split: option.split)
qed

lemma announced_channel_simps [simp]:
  "one_to_two (announced_channel f a b cap m t) = None" "two_to_one (announced_channel f a b cap m t) = None"
  "channel_ok scid (announced_channel f a b cap m t) \<longleftrightarrow>
     a \<noteq> b \<and> (\<forall>msg. m = Some msg \<longrightarrow> ca_short_channel_id (ca_contents msg) = scid)"
  by (auto simp: announced_channel_def channel_ok_def)

lemma add_announced_keeps:
  assumes "graph_ok g" "a \<noteq> b" "\<forall>msg. m = Some msg \<longrightarrow> ca_short_channel_id (ca_contents msg) = scid"
  shows "keeps_ok (add_channel_between_nodes scid (announced_channel f a b cap m t) v g)"
  using add_channel_keeps[OF assms(1), of scid "announced_channel f a b cap m t" v] assms(2,3) by auto

lemma update_channel_from_unsigned_keeps:
  "graph_ok g \<Longrightarrow> \<forall>m. full = Some m \<longrightarrow> ca_contents m = msg \<Longrightarrow>
   keeps_ok (update_channel_from_unsigned_announcement_intern lib msg full g)"
  by (auto simp: update_channel_from_unsigned_announcement_intern_def checks_never_panic
      intro!: keeps_ok_and_then add_announced_keeps)

lemma remove_channels_keeps:
  assumes "graph_ok g" "distinct scids" "set scids \<subseteq> fst ` set (channels g)"
  shows "\<exists>g'. remove_channels scids g = Ok g' \<and> graph_ok g'"
  using assms
proof (induction scids arbitrary: g)
  case (Cons scid scids)
  then obtain c where c: "chan g scid = Some c" by (auto simp: image_iff dest: weak_map_of_SomeI)
  obtain ns where ns: "remove_channel_in_nodes c scid (nodes g) = Ok ns"
    "graph_ok (g\<lparr>channels := hm_remove scid (channels g), nodes := ns\<rparr>)"
    using graph_ok_remove[OF Cons.prems(1) c] by blast
  have "set scids \<subseteq> fst ` set (hm_remove scid (channels g))"
    using Cons.prems(2,3) by (force simp: hm_remove_def)
  then show ?case using Cons.IH[OF ns(2)] Cons.prems(2) c ns(1) by simp
qed simp

lemma linked_map_channels:
  assumes l: "linked C N" and h: "\<And>c. node_one (h c) = node_one c \<and> node_two (h c) = node_two c"
    "\<And>s c. channel_ok s c \<Longrightarrow> channel_ok s (h c)" "\<And>e c u. inbound_info e (h c) = Some u \<Longrightarrow> inbound_info e c = Some u"
  shows "linked (\<lambda>s. map_option h (C s)) N"
proof -
  have e: "endpoint (h c) = endpoint c" for c using h(1) by (simp add: endpoint_def fun_eq_iff)
  have f: "fees_bound low (inbound_info e (h c))" if "fees_bound low (inbound_info e c)" for low e c
    using that h(3) unfolding fees_bound_def by blast
  have "listed (\<lambda>s. map_option h (C s)) N"
    unfolding listed_def
  proof (intro allI impI)
    fix s d x assume d: "map_option h (C s) = Some d" "endpoint d x"
    then obtain c where "C s = Some c" "endpoint c x" using e by auto
    then show "\<exists>n. N x = Some n \<and> s \<in> set (node_channels n)" by (rule linkedD(1)[OF l])
  qed
  moreover have "node_ok (\<lambda>s. map_option h (C s)) x n" if "N x = Some n" for x n
    using linkedD(2)[OF l that] f by (fastforce simp: node_ok_def e)
  ultimately show ?thesis using linkedD(3)[OF l] h(2) by (auto simp: linked_def)
qed

lemma without_stale_keeps:
  "node_one (without_stale t c) = node_one c \<and> node_two (without_stale t c) = node_two c"
  "channel_ok s c \<Longrightarrow> channel_ok s (without_stale t c)"
  "inbound_info e (without_stale t c) = Some u \<Longrightarrow> inbound_info e c = Some u"
  by (auto simp: without_stale_def channel_ok_def inbound_info_def drop_stale_def split: option.splits if_splits)

lemma remove_stale_keeps:
  assumes "graph_ok g"
  shows "keeps_ok (remove_stale_channels_with_time t g)"
proof -
  have *: "keeps_ok (remove_channels (map fst (filter P fresh)) (g\<lparr>channels := fresh\<rparr>))"
    if f: "fresh = map (\<lambda>(scid, c). (scid, without_stale m c)) (channels g)" for P fresh m
  proof -
    have fst: "map fst fresh = map fst (channels g)" by (simp add: f case_prod_beta)
    have "map_of fresh = (\<lambda>s. map_option (without_stale m) (chan g s))"
      unfolding f by (simp add: map_of_map fun_eq_iff)
    then have "graph_ok (g\<lparr>channels := fresh\<rparr>)"
      using linked_map_channels[where h = "without_stale m", OF _ without_stale_keeps] assms fst by (simp add: graph_ok_def)
    moreover have "distinct (map fst (filter P fresh))"
      using assms fst by (simp add: graph_ok_def distinct_map_filter)
    ultimately obtain g' where "remove_channels (map fst (filter P fresh)) (g\<lparr>channels := fresh\<rparr>) = Ok g'" "graph_ok g'"
      using remove_channels_keeps[of "g\<lparr>channels := fresh\<rparr>" "map fst (filter P fresh)"] by auto
    then show ?thesis by simp
  qed
  show ?thesis using assms *[OF refl] by (simp add: remove_stale_channels_with_time_def Let_def)
qed

lemma graph_apply_keeps:
  assumes "graph_ok g"
  shows "keeps_ok (graph_apply lib op g)"
proof (cases op)
  case (NodeAnnounced m)
  then show ?thesis using update_node_keeps[OF assms, of "Some m"]
    by (auto simp: update_node_from_announcement_def checks_never_panic intro!: keeps_ok_and_then)
next
  case (ChannelAnnounced m)
  then show ?thesis using update_channel_from_unsigned_keeps[OF assms, of "Some m"]
    by (auto simp: update_channel_from_announcement_def Let_def checks_never_panic intro!: keeps_ok_and_then)
next
  case (PartialAnnouncement scid t f a b)
  then show ?thesis using add_announced_keeps[OF assms, of a b] by (simp add: add_channel_from_partial_announcement_def)
next
  case (RapidSyncDone t)
  then show ?thesis using assms by (simp add: set_last_rapid_gossip_sync_timestamp_def graph_ok_def)
next
  case (PathFailed u)
  have "keeps_ok (keep_on_error g r)" if "keeps_ok r" for r
    using that assms by (cases r) (simp_all add: keep_on_error_def)
  then show ?thesis using PathFailed assms update_channel_keeps[OF assms] channel_failed_keeps[OF assms]
    by (cases u) (auto simp: update_channel_def node_failed_def, metis keeps_ok_simps(1))
qed (simp_all add: assms update_node_keeps update_channel_from_unsigned_keeps update_channel_keeps remove_stale_keeps
    update_channel_def update_channel_unsigned_def)

section \<open>Properties\<close>

lemma run_graph_keeps: "graph_ok g \<Longrightarrow> \<exists>g'. run_graph ops g = Ok g' \<and> graph_ok g'"
proof (induction ops arbitrary: g)
  case (Cons e ops)
  obtain lib op where e: "e = (lib, op)" by force
  obtain g1 where "keep_on_error g (graph_apply lib op g) = Ok g1" "graph_ok g1"
    using graph_apply_keeps[OF Cons.prems, of lib op] Cons.prems
    by (cases "graph_apply lib op g") (simp_all add: keep_on_error_def)
  then show ?case using Cons.IH[of g1] by (simp add: e)
qed simp

text \<open>C6. Whatever announcements, updates, path failures and prunings are applied to a new graph, in any order
  and with any clock, keys and chain view, no operation panics (the lookups the code unwraps always succeed) and
  the graph is consistent: keys are unique, the announcements stored for a channel or a node are its own, every channel joins two different nodes which both list it, every
  node lists only its own channels, each once and at least one, no HTLC maximum exceeds the capacity, and
  \<open>lowest_inbound_channel_fees\<close> is below the fees of every enabled inbound direction.\<close>

theorem graph_stays_consistent: "\<exists>g. run_graph ops (new_graph genesis) = Ok g \<and> graph_ok g"
  by (rule run_graph_keeps) (simp add: graph_ok_def new_graph_def linked_defs)

lemma update_lowest_fees_channels: "update_lowest_fees msg dest was g = Ok g' \<Longrightarrow> channels g' = channels g"
  by (auto simp: update_lowest_fees_def Let_def outcome_simps split: if_splits option.splits)

lemma check_update_time_window:
  assumes "check_update_time lib msg = Ok ()" and t: "1209600 \<le> unat (unix_time lib)" "unat (unix_time lib) < 2 ^ 63"
  shows "unat (unix_time lib) \<le> unat (cu_timestamp msg) + 1209600 \<and> unat (cu_timestamp msg) \<le> unat (unix_time lib) + 86400"
proof -
  have ts: "unat (ucast (cu_timestamp msg) :: u64) = unat (cu_timestamp msg)"
    by (simp add: unsigned_ucast_eq take_bit_nat_eq_self_iff less_trans[OF unsigned_less])
  have "unat (unix_time lib - 1209600) = unat (unix_time lib) - 1209600"
    using t(1) by (subst unat_sub) (simp_all add: word_le_nat_alt)
  moreover have "unat (unix_time lib + 86400) = unat (unix_time lib) + 86400"
    using t(2) by (simp add: unat_word_ariths)
  ultimately show ?thesis using assms(1) ts
    by (auto simp: check_update_time_def STALE_CHANNEL_UPDATE_AGE_LIMIT_SECS_def word_less_nat_alt not_less split: if_splits)
qed

text \<open>C27. A signed \<open>channel_update\<close> that is accepted was for a known channel, carries a valid signature of the
  node at the sending end of that direction, is newer than what the direction held, lies between two weeks ago
  and one day ahead, and replaces exactly that direction of exactly that channel.\<close>

theorem accepted_update_is_authentic:
  assumes "update_channel lib msg g = Ok g'"
    and "1209600 \<le> unat (unix_time lib)" "unat (unix_time lib) < 2 ^ 63"
  shows "\<exists>c. chan g (cu_short_channel_id msg) = Some c \<and>
    verify_ecdsa lib (channel_update_hash lib msg) (cu_signature msg) (source_node msg c) \<and>
    (\<forall>u. direction msg c = Some u \<longrightarrow> ui_last_update u < cu_timestamp msg) \<and>
    unat (unix_time lib) \<le> unat (cu_timestamp msg) + 1209600 \<and> unat (cu_timestamp msg) \<le> unat (unix_time lib) + 86400 \<and>
    chan g' = (chan g)(cu_short_channel_id msg \<mapsto> set_direction msg (new_channel_info msg (Some msg)) c)"
proof -
  obtain c was where c: "chan g (cu_short_channel_id msg) = Some c" "check_update_time lib msg = Ok ()"
    "check_update_latest msg (direction msg c) = Ok was"
    "\<exists>which. check_update_sig lib msg True (source_node msg c) which = Ok ()"
    and g': "update_lowest_fees msg (dest_node msg c) was
       (g\<lparr>channels := hm_insert (cu_short_channel_id msg) (set_direction msg (new_channel_info msg (Some msg)) c) (channels g)\<rparr>) = Ok g'"
    using assms(1) by (auto simp: update_channel_def update_channel_intern_alt outcome_simps split: option.splits)
  have "verify_ecdsa lib (channel_update_hash lib msg) (cu_signature msg) (source_node msg c)"
    using c(4) by (auto simp: check_update_sig_def secp_verify_sig_def Let_def split: if_splits)
  moreover have "\<forall>u. direction msg c = Some u \<longrightarrow> ui_last_update u < cu_timestamp msg"
    using c(3) by (auto simp: check_update_latest_def split: if_splits)
  ultimately show ?thesis
    using c(1) check_update_time_window[OF c(2) assms(2,3)] update_lowest_fees_channels[OF g'] by simp
qed

definition example_lib :: gossip_lib where
  "example_lib = \<lparr>node_announcement_hash = (\<lambda>_. [1]), channel_announcement_hash = (\<lambda>_. [2]), channel_update_hash = (\<lambda>_. [3]),
     verify_ecdsa = (\<lambda>_ sig key. sig = key), parses_as_pubkey = (\<lambda>k. length k = 1), funding_script = (\<lambda>a b. a @ b),
     get_utxo = None, unix_time = 1700000000\<rparr>"

definition example_update :: channel_update where
  "example_update = \<lparr>cu_signature = [8], cu_chain_hash = [], cu_short_channel_id = 42, cu_timestamp = 1699999999, cu_flags = 1,
     cu_cltv_expiry_delta = 144, cu_htlc_minimum_msat = 1, cu_htlc_maximum_msat = Some 1000000, cu_fee_base_msat = 1000,
     cu_fee_proportional_millionths = 1, cu_excess_data = []\<rparr>"

definition example_graph :: NetworkGraph where
  "example_graph = (case add_channel_from_partial_announcement 42 1699990000 [] [7] [8] (new_graph []) of Ok g \<Rightarrow> g)"

theorem accepted_update_is_authentic_witness:
  "\<exists>c. chan example_graph 42 = Some c \<and> verify_ecdsa example_lib [3] [8] (source_node example_update c)"
proof -
  have "\<exists>g'. update_channel example_lib example_update example_graph = Ok g'"
    by (simp add: example_graph_def example_lib_def example_update_def add_channel_from_partial_announcement_def
        add_channel_between_nodes_def announced_channel_def new_graph_def add_to_node_def update_channel_def
        update_channel_intern_def check_update_time_def check_htlc_maximum_def check_update_latest_def check_update_sig_def
        secp_verify_sig_def update_lowest_fees_def new_channel_info_def STALE_CHANNEL_UPDATE_AGE_LIMIT_SECS_def
        MAX_VALUE_MSAT_def MAX_EXCESS_BYTES_FOR_RELAY_def Let_def)
  then obtain g' where "update_channel example_lib example_update example_graph = Ok g'" by blast
  from accepted_update_is_authentic[OF this]
  show ?thesis by (simp add: example_lib_def example_update_def) blast
qed

end
