(* ===== verification/Gossip_Sync.thy ===== *)
theory Gossip_Sync
  imports Network_Graph Scid "HOL-Library.List_Lexorder"
begin

text \<open>
  Serving the graph to peers: \<open>P2PGossipSync\<close> of \<open>lightning/src/routing/gossip.rs\<close> and the initial routing sync
  of \<open>lightning/src/ln/peer_handler.rs\<close> that pages through it. A \<open>BTreeMap\<close> is iterated in the order of its
  keys: numbers for channels, the bytes of the node id for nodes. The vector of a batch has exactly the capacity
  it was created with.
\<close>

section \<open>Data\<close>

definition MAX_SCIDS_PER_REPLY :: nat where "MAX_SCIDS_PER_REPLY = 8000"
definition FULL_SYNCS_TO_REQUEST :: nat where "FULL_SYNCS_TO_REQUEST = 5"

record QueryChannelRange =
  qr_chain_hash :: bytes
  qr_first_blocknum :: u32
  qr_number_of_blocks :: u32

definition end_blocknum :: "QueryChannelRange \<Rightarrow> u32" where
  "end_blocknum msg =
     (if unat (qr_first_blocknum msg) + unat (qr_number_of_blocks msg) < 2 ^ 32
      then qr_first_blocknum msg + qr_number_of_blocks msg else 0xFFFFFFFF)"

record ReplyChannelRange =
  rr_chain_hash :: bytes
  rr_first_blocknum :: u32
  rr_number_of_blocks :: u32
  rr_sync_complete :: bool
  rr_short_channel_ids :: "u64 list"

record GossipTimestampFilter =
  gf_chain_hash :: bytes
  gf_first_timestamp :: u32
  gf_timestamp_range :: u32

datatype gossip_send_event =
    SendReplyChannelRange bytes ReplyChannelRange
  | SendGossipTimestampFilter bytes GossipTimestampFilter

record P2PGossipSync =
  network_graph :: NetworkGraph
  full_syncs_requested :: nat
  gossip_events :: "gossip_send_event list"

definition btree_iter :: "('k :: linorder \<times> 'v) list \<Rightarrow> ('k \<times> 'v) list" where
  "btree_iter m = sort_key fst m"

text \<open>\<open>BTreeMap::range\<close> panics when the start lies behind the end.\<close>

definition btree_range :: "'k :: linorder \<Rightarrow> 'k \<Rightarrow> ('k \<times> 'v) list \<Rightarrow> (LightningError, ('k \<times> 'v) list) outcome" where
  "btree_range lo hi m = (if lo > hi then Panic else Ok (filter (\<lambda>e. lo \<le> fst e \<and> fst e < hi) (btree_iter m)))"

section \<open>Messages from peers\<close>

definition handle_node_announcement :: "gossip_lib \<Rightarrow> NodeAnnouncement \<Rightarrow> P2PGossipSync \<Rightarrow> (LightningError, bool \<times> P2PGossipSync) outcome" where
  "handle_node_announcement lib msg s =
     map_ok (\<lambda>g. (length (na_excess_data (na_contents msg)) \<le> MAX_EXCESS_BYTES_FOR_RELAY \<and>
                   length (na_excess_address_data (na_contents msg)) \<le> MAX_EXCESS_BYTES_FOR_RELAY \<and>
                   length (na_excess_data (na_contents msg)) + length (na_excess_address_data (na_contents msg)) \<le> MAX_EXCESS_BYTES_FOR_RELAY,
                 s\<lparr>network_graph := g\<rparr>))
       (update_node_from_announcement lib msg (network_graph s))"

definition handle_channel_announcement :: "gossip_lib \<Rightarrow> ChannelAnnouncement \<Rightarrow> P2PGossipSync \<Rightarrow> (LightningError, bool \<times> P2PGossipSync) outcome" where
  "handle_channel_announcement lib msg s =
     map_ok (\<lambda>g. (length (ca_excess_data (ca_contents msg)) \<le> MAX_EXCESS_BYTES_FOR_RELAY, s\<lparr>network_graph := g\<rparr>))
       (update_channel_from_announcement lib msg (network_graph s))"

definition handle_channel_update :: "gossip_lib \<Rightarrow> channel_update \<Rightarrow> P2PGossipSync \<Rightarrow> (LightningError, bool \<times> P2PGossipSync) outcome" where
  "handle_channel_update lib msg s =
     map_ok (\<lambda>g. (length (cu_excess_data msg) \<le> MAX_EXCESS_BYTES_FOR_RELAY, s\<lparr>network_graph := g\<rparr>))
       (update_channel lib msg (network_graph s))"

definition should_request_full_sync :: "P2PGossipSync \<Rightarrow> bool \<times> P2PGossipSync" where
  "should_request_full_sync s =
     (if full_syncs_requested s < FULL_SYNCS_TO_REQUEST
      then (True, s\<lparr>full_syncs_requested := full_syncs_requested s + 1\<rparr>) else (False, s))"

definition peer_connected :: "bytes \<Rightarrow> bool \<Rightarrow> u64 \<Rightarrow> P2PGossipSync \<Rightarrow> P2PGossipSync" where
  "peer_connected their_node_id supports_gossip_queries now s =
     (if \<not> supports_gossip_queries then s
      else let (full, s') = should_request_full_sync s;
               gossip_start_time = (if full then now - 60 * 60 * 24 * 7 * 2 else now - 60 * 60)
           in s'\<lparr>gossip_events := gossip_events s' @ [SendGossipTimestampFilter their_node_id
                \<lparr>gf_chain_hash = genesis_hash (network_graph s'), gf_first_timestamp = ucast gossip_start_time,
                 gf_timestamp_range = 0xFFFFFFFF\<rparr>]\<rparr>)"

definition get_and_clear_pending_msg_events :: "P2PGossipSync \<Rightarrow> gossip_send_event list \<times> P2PGossipSync" where
  "get_and_clear_pending_msg_events s = (gossip_events s, s\<lparr>gossip_events := []\<rparr>)"

section \<open>Queries for a range of blocks\<close>

definition push_batch :: "u64 \<Rightarrow> u64 list list \<Rightarrow> u64 list list" where
  "push_batch scid batches =
     (if length (last batches) = MAX_SCIDS_PER_REPLY then batches @ [[scid]]
      else butlast batches @ [last batches @ [scid]])"

fun batch_loop :: "u64 list list \<Rightarrow> (u64 \<times> ChannelInfo) list \<Rightarrow> u64 list list" where
  "batch_loop batches [] = batches"
| "batch_loop batches ((_, c) # rest) =
     batch_loop (case ci_announcement_message c of
                   Some m \<Rightarrow> push_batch (ca_short_channel_id (ca_contents m)) batches
                 | None \<Rightarrow> batches) rest"

definition reply_of :: "QueryChannelRange \<Rightarrow> u32 \<Rightarrow> u32 \<Rightarrow> bool \<Rightarrow> u64 list \<Rightarrow> ReplyChannelRange" where
  "reply_of msg first_blocknum number_of_blocks sync_complete batch =
     \<lparr>rr_chain_hash = qr_chain_hash msg, rr_first_blocknum = first_blocknum, rr_number_of_blocks = number_of_blocks,
      rr_sync_complete = sync_complete, rr_short_channel_ids = batch\<rparr>"

fun reply_loop :: "QueryChannelRange \<Rightarrow> u32 \<Rightarrow> u64 list list \<Rightarrow> ReplyChannelRange list" where
  "reply_loop msg prev_batch_endblock [] = []"
| "reply_loop msg prev_batch_endblock (batch # batches) =
     (let first_blocknum = prev_batch_endblock;
          (sync_complete, number_of_blocks) =
            (if batches = [] then (True, end_blocknum msg - first_blocknum)
             else (False, block_from_scid (last batch) - first_blocknum))
      in reply_of msg first_blocknum number_of_blocks sync_complete batch #
         reply_loop msg (first_blocknum + number_of_blocks) batches)"

definition handle_query_channel_range ::
  "bytes \<Rightarrow> QueryChannelRange \<Rightarrow> P2PGossipSync \<Rightarrow> (LightningError, unit) outcome \<times> P2PGossipSync" where
  "handle_query_channel_range their_node_id msg s =
     (let g = network_graph s;
          send = (\<lambda>rs. s\<lparr>gossip_events := gossip_events s @ map (SendReplyChannelRange their_node_id) rs\<rparr>);
          refuse = (Err (''query_channel_range could not be processed'', IgnoreError),
                    send [reply_of msg (qr_first_blocknum msg) (qr_number_of_blocks msg) True []])
      in case (scid_from_parts_checked (ucast (qr_first_blocknum msg)) 0 0,
               scid_from_parts_checked (min (ucast (end_blocknum msg)) MAX_SCID_BLOCK) 0 0) of
        (Ok inclusive_start_scid, Ok exclusive_end_scid) \<Rightarrow>
          if qr_chain_hash msg \<noteq> genesis_hash g \<or> qr_number_of_blocks msg = 0 then refuse
          else (case btree_range inclusive_start_scid exclusive_end_scid (channels g) of
                  Ok chans \<Rightarrow> (Ok (), send (reply_loop msg (qr_first_blocknum msg) (batch_loop [[]] chans)))
                | _ \<Rightarrow> (Panic, s))
      | _ \<Rightarrow> refuse)"

section \<open>Initial routing sync\<close>

type_synonym channel_page = "ChannelAnnouncement \<times> channel_update option \<times> channel_update option"

fun next_channels :: "nat \<Rightarrow> (u64 \<times> ChannelInfo) list \<Rightarrow> channel_page list" where
  "next_channels n [] = []"
| "next_channels n ((_, c) # rest) =
     (if n = 0 then []
      else case ci_announcement_message c of
        Some m \<Rightarrow> (m, Option.bind (one_to_two c) ui_last_update_message, Option.bind (two_to_one c) ui_last_update_message) #
                    next_channels (n - 1) rest
      | None \<Rightarrow> next_channels n rest)"

definition get_next_channel_announcements :: "u64 \<Rightarrow> u8 \<Rightarrow> NetworkGraph \<Rightarrow> channel_page list" where
  "get_next_channel_announcements starting_point batch_amount g =
     next_channels (unat batch_amount) (filter (\<lambda>e. starting_point \<le> fst e) (btree_iter (channels g)))"

fun next_nodes :: "nat \<Rightarrow> (bytes \<times> NodeInfo) list \<Rightarrow> NodeAnnouncement list" where
  "next_nodes n [] = []"
| "next_nodes n ((_, node_info) # rest) =
     (if n = 0 then []
      else case Option.bind (announcement_info node_info) ni_announcement_message of
        Some m \<Rightarrow> m # next_nodes (n - 1) rest
      | None \<Rightarrow> next_nodes n rest)"

definition get_next_node_announcements :: "bytes option \<Rightarrow> u8 \<Rightarrow> NetworkGraph \<Rightarrow> NodeAnnouncement list" where
  "get_next_node_announcements starting_point batch_amount g =
     next_nodes (unat batch_amount)
       (case starting_point of
          Some key \<Rightarrow> drop 1 (filter (\<lambda>e. key \<le> fst e) (btree_iter (nodes g)))
        | None \<Rightarrow> btree_iter (nodes g))"

datatype InitSyncTracker = NoSyncRequested | ChannelsSyncing u64 | NodesSyncing bytes

datatype sync_message = SyncChannel ChannelAnnouncement | SyncUpdate channel_update | SyncNode NodeAnnouncement

definition OUTBOUND_BUFFER_LIMIT_READ_PAUSE :: nat where "OUTBOUND_BUFFER_LIMIT_READ_PAUSE = 10"

definition page_messages :: "channel_page \<Rightarrow> sync_message list" where
  "page_messages p = (case p of (m, a, b) \<Rightarrow>
     SyncChannel m # (case a of Some u \<Rightarrow> [SyncUpdate u] | None \<Rightarrow> []) @ (case b of Some u \<Rightarrow> [SyncUpdate u] | None \<Rightarrow> []))"

text \<open>One round of the sync: the messages it queues with \<open>buffered\<close> messages waiting, and the new status.\<close>

definition node_sync_round :: "NetworkGraph \<Rightarrow> nat \<Rightarrow> bytes option \<Rightarrow> sync_message list \<times> InitSyncTracker" where
  "node_sync_round g buffered start =
     (let steps = word_of_nat (OUTBOUND_BUFFER_LIMIT_READ_PAUSE - buffered) :: u8;
          all_messages = get_next_node_announcements start steps g
      in (map SyncNode all_messages,
          if all_messages = [] \<or> length all_messages \<noteq> unat steps then NoSyncRequested
          else NodesSyncing (na_node_id (na_contents (last all_messages)))))"

definition channel_sync_round :: "NetworkGraph \<Rightarrow> nat \<Rightarrow> u64 \<Rightarrow> sync_message list \<times> InitSyncTracker" where
  "channel_sync_round g buffered c =
     (let steps = word_of_nat ((OUTBOUND_BUFFER_LIMIT_READ_PAUSE - buffered + 2) div 3) :: u8;
          all_messages = get_next_channel_announcements c steps g
      in (concat (map page_messages all_messages),
          if all_messages = [] \<or> length all_messages \<noteq> unat steps then ChannelsSyncing 0xFFFFFFFFFFFFFFFF
          else ChannelsSyncing (ca_short_channel_id (ca_contents (fst (last all_messages))) + 1)))"

fun sync_round :: "NetworkGraph \<Rightarrow> nat \<Rightarrow> InitSyncTracker \<Rightarrow> sync_message list \<times> InitSyncTracker" where
  "sync_round g buffered NoSyncRequested = ([], NoSyncRequested)"
| "sync_round g buffered (ChannelsSyncing c) =
     (if c < 0xFFFFFFFFFFFFFFFF then channel_sync_round g buffered c else node_sync_round g buffered None)"
| "sync_round g buffered (NodesSyncing key) = node_sync_round g buffered (Some key)"

fun sync_rounds :: "NetworkGraph \<Rightarrow> nat list \<Rightarrow> InitSyncTracker \<Rightarrow> sync_message list \<times> InitSyncTracker" where
  "sync_rounds g [] st = ([], st)"
| "sync_rounds g (b # bs) st =
     (let (out, st1) = sync_round g b st; (rest, st2) = sync_rounds g bs st1 in (out @ rest, st2))"

text \<open>What is forwarded while the sync runs; \<open>None\<close> features are unwrapped.\<close>

definition should_forward_channel_announcement :: "bool option \<Rightarrow> bool \<Rightarrow> InitSyncTracker \<Rightarrow> u64 \<Rightarrow> (unit, bool) outcome" where
  "should_forward_channel_announcement gossip_queries sent_gossip_timestamp_filter st scid =
     (case gossip_queries of
        None \<Rightarrow> Panic
      | Some q \<Rightarrow> Ok (if q \<and> \<not> sent_gossip_timestamp_filter then False
                     else (case st of NoSyncRequested \<Rightarrow> True | ChannelsSyncing i \<Rightarrow> i < scid | NodesSyncing _ \<Rightarrow> True)))"

definition should_forward_node_announcement :: "bool option \<Rightarrow> bool \<Rightarrow> InitSyncTracker \<Rightarrow> bytes \<Rightarrow> (unit, bool) outcome" where
  "should_forward_node_announcement gossip_queries sent_gossip_timestamp_filter st node_id =
     (case gossip_queries of
        None \<Rightarrow> Panic
      | Some q \<Rightarrow> Ok (if q \<and> \<not> sent_gossip_timestamp_filter then False
                     else (case st of NoSyncRequested \<Rightarrow> True | ChannelsSyncing _ \<Rightarrow> False | NodesSyncing pk \<Rightarrow> pk < node_id)))"

section \<open>Iterating in key order\<close>

lemma btree_iter_props:
  "set (btree_iter m) = set m" "sorted (map fst (btree_iter m))" "distinct (map fst (btree_iter m)) = distinct (map fst m)"
  by (simp_all add: btree_iter_def distinct_map distinct_sort)

lemma sorted_filter_keys: "sorted (map fst m) \<Longrightarrow> sorted (map fst (filter P m))"
  by (rule sorted_filter)

section \<open>Replies to a query\<close>

definition announced_scids :: "(u64 \<times> ChannelInfo) list \<Rightarrow> u64 list" where
  "announced_scids chans = List.map_filter (\<lambda>(_, c). map_option (\<lambda>m. ca_short_channel_id (ca_contents m)) (ci_announcement_message c)) chans"

definition batches_ok :: "u64 list list \<Rightarrow> bool" where
  "batches_ok bs \<longleftrightarrow> bs \<noteq> [] \<and> (\<forall>b \<in> set bs. length b \<le> MAX_SCIDS_PER_REPLY) \<and> (\<forall>b \<in> set (butlast bs). length b = MAX_SCIDS_PER_REPLY)"

lemma push_batch_ok:
  assumes "batches_ok bs"
  shows "batches_ok (push_batch scid bs)" "concat (push_batch scid bs) = concat bs @ [scid]"
proof -
  obtain xs b where bs: "bs = xs @ [b]" using assms by (cases bs rule: rev_cases) (auto simp: batches_ok_def)
  have "0 < MAX_SCIDS_PER_REPLY" by (simp add: MAX_SCIDS_PER_REPLY_def)
  then show "batches_ok (push_batch scid bs)" using assms by (auto simp: bs batches_ok_def push_batch_def butlast_append)
  show "concat (push_batch scid bs) = concat bs @ [scid]" by (simp add: bs push_batch_def)
qed

lemma batch_loop_ok:
  "batches_ok bs \<Longrightarrow> batches_ok (batch_loop bs chans) \<and> concat (batch_loop bs chans) = concat bs @ announced_scids chans"
proof (induction bs chans rule: batch_loop.induct)
  case (2 batches k c rest)
  then show ?case
    by (cases "ci_announcement_message c") (simp_all add: announced_scids_def map_filter_simps push_batch_ok)
qed (simp add: announced_scids_def map_filter_simps)

lemma block_nat: "unat (block_from_scid s) = unat s div 2 ^ 40"
proof -
  have d: "unat (drop_bit 40 s) = unat s div 2 ^ 40" by (subst unat_drop_bit_eq) (simp add: drop_bit_eq_div)
  have "unat s < 2 ^ 64" using unsigned_less[of s] by simp
  then have "unat s div 2 ^ 40 < 2 ^ 24" by (simp add: less_mult_imp_div_less)
  then show ?thesis by (simp add: block_from_scid_def unsigned_ucast_eq d take_bit_nat_eq_self)
qed

text \<open>The replies lie end to end from one height to another, and each holds only channels of its own blocks,
  its first and last block included.\<close>

fun tiles :: "nat \<Rightarrow> nat \<Rightarrow> ReplyChannelRange list \<Rightarrow> bool" where
  "tiles start stop [] = (start = stop)"
| "tiles start stop (r # rs) =
     (unat (rr_first_blocknum r) = start \<and> (rr_sync_complete r = (rs = [])) \<and>
      (\<forall>s \<in> set (rr_short_channel_ids r). start \<le> unat (block_from_scid s) \<and>
         unat (block_from_scid s) \<le> start + unat (rr_number_of_blocks r)) \<and>
      tiles (start + unat (rr_number_of_blocks r)) stop rs)"

lemma unat_add_sub: "(a :: u32) \<le> b \<Longrightarrow> unat a + unat (b - a) = unat b"
  by (simp add: unat_sub word_le_nat_alt)

lemma reply_loop_tiles:
  assumes "batches \<noteq> []" "\<forall>b \<in> set (butlast batches). b \<noteq> []" "sorted (concat batches)"
    and "\<forall>s \<in> set (concat batches). prev \<le> block_from_scid s \<and> block_from_scid s \<le> end_blocknum msg" "prev \<le> end_blocknum msg"
  shows "tiles (unat prev) (unat (end_blocknum msg)) (reply_loop msg prev batches)"
  using assms
proof (induction batches arbitrary: prev)
  case (Cons b bs)
  show ?case
  proof (cases "bs = []")
    case True
    then show ?thesis using Cons.prems by (auto simp: reply_of_def unat_add_sub word_le_nat_alt)
  next
    case False
    then have b: "b \<noteq> []" using Cons.prems(2) by simp
    let ?stop = "block_from_scid (last b)"
    have stop: "prev \<le> ?stop" "?stop \<le> end_blocknum msg" using Cons.prems(4) b by simp_all
    have mono: "block_from_scid x \<le> block_from_scid y" if "x \<le> y" for x y
      using that by (simp add: word_le_nat_alt block_nat div_le_mono)
    have "x \<le> last b" if "x \<in> set b" for x
    proof -
      obtain ys where "b = ys @ [last b]" using b by (metis append_butlast_last_id)
      moreover have "sorted b" using Cons.prems(3) by (simp add: sorted_append)
      ultimately show ?thesis using that by (metis Un_iff empty_iff empty_set in_set_conv_decomp insert_iff list.simps(15) order_refl set_append sorted_append)
    qed
    then have within: "\<forall>s \<in> set b. block_from_scid s \<le> ?stop" using mono by blast
    have "\<forall>s \<in> set (concat bs). ?stop \<le> block_from_scid s"
      using Cons.prems(3) b mono last_in_set[OF b] by (auto simp: sorted_append)
    then have "tiles (unat ?stop) (unat (end_blocknum msg)) (reply_loop msg ?stop bs)"
      using Cons.prems False stop by (intro Cons.IH) (auto simp: sorted_append)
    moreover have "reply_loop msg ?stop bs \<noteq> []" using False by (cases bs) (simp_all add: Let_def)
    ultimately show ?thesis
      using False within Cons.prems(4) by (auto simp: reply_of_def unat_add_sub[OF stop(1)] word_le_nat_alt)
  qed
qed simp

lemma reply_loop_batches: "map rr_short_channel_ids (reply_loop msg prev bs) = bs"
  by (induction bs arbitrary: prev) (simp_all add: reply_of_def Let_def)

text \<open>The channels a query asks for.\<close>

definition queried :: "QueryChannelRange \<Rightarrow> NetworkGraph \<Rightarrow> u64 set" where
  "queried msg g = {scid. \<exists>c. chan g scid = Some c \<and> ci_announcement_message c \<noteq> None \<and>
     unat (qr_first_blocknum msg) \<le> unat (block_from_scid scid) \<and>
     unat (block_from_scid scid) < min (unat (end_blocknum msg)) 0xFFFFFF}"

lemma announced_scids_keys:
  assumes "graph_ok g" "set chans \<subseteq> set (channels g)"
  shows "announced_scids chans = map fst (filter (\<lambda>e. ci_announcement_message (snd e) \<noteq> None) chans)"
  using assms(2)
proof (induction chans)
  case (Cons e chans)
  obtain scid c where e: "e = (scid, c)" by force
  have "chan g scid = Some c" using assms(1) Cons.prems e by (auto simp: graph_ok_def)
  then have "channel_ok scid c" using assms(1) by (auto simp: graph_ok_def intro: linkedD(3))
  then show ?case using Cons e by (auto simp: announced_scids_def map_filter_simps channel_ok_def)
qed (simp add: announced_scids_def map_filter_simps)

lemma block_bound_scid:
  assumes "b \<le> 0xFFFFFF"
  shows "\<exists>w. scid_from_parts_checked b 0 0 = Ok w \<and> (\<forall>s. w \<le> s \<longleftrightarrow> unat b \<le> unat (block_from_scid s)) \<and>
    (\<forall>s. s < w \<longleftrightarrow> unat (block_from_scid s) < unat b) \<and> unat w = unat b * 2 ^ 40"
proof -
  have b: "unat b \<le> 0xFFFFFF" using assms by (simp add: word_le_nat_alt)
  then have w: "unat (push_bit 40 b) = unat b * 2 ^ 40"
    by (simp add: push_bit_eq_mult unat_word_ariths)
  show ?thesis
  proof (intro exI conjI allI)
    show "scid_from_parts_checked b 0 0 = Ok (push_bit 40 b)"
      using assms by (simp add: scid_from_parts_checked_def scid_max_defs not_less)
    show "push_bit 40 b \<le> s \<longleftrightarrow> unat b \<le> unat (block_from_scid s)" for s
      unfolding word_le_nat_alt w block_nat by (simp add: less_eq_div_iff_mult_less_eq)
    then show "s < push_bit 40 b \<longleftrightarrow> unat (block_from_scid s) < unat b" for s
      by (metis linorder_not_le)
  qed (rule w)
qed

lemma ucast_u32_u64: "unat (ucast (w :: u32) :: u64) = unat w"
  by (simp add: unsigned_ucast_eq take_bit_nat_eq_self_iff less_trans[OF unsigned_less])

lemma capped_end:
  "min (ucast (end_blocknum msg)) MAX_SCID_BLOCK \<le> (0xFFFFFF :: u64)"
  "unat (min (ucast (end_blocknum msg)) MAX_SCID_BLOCK :: u64) = min (unat (end_blocknum msg)) 0xFFFFFF"
  by (auto simp: MAX_SCID_BLOCK_def min_def word_le_nat_alt ucast_u32_u64)

lemma first_le_end: "qr_first_blocknum msg \<le> end_blocknum msg"
proof -
  have "qr_first_blocknum msg \<le> 0xFFFFFFFF"
    using unsigned_less[where ?'a = nat, of "qr_first_blocknum msg"] by (simp add: word_le_nat_alt)
  then show ?thesis by (auto simp: end_blocknum_def word_le_nat_alt unat_word_ariths)
qed

text \<open>What a query for part of our chain selects from the map of channels.\<close>

lemma query_selects:
  assumes g: "graph_ok g" and f: "qr_first_blocknum msg \<le> 0xFFFFFF"
  obtains lo hi chans where "scid_from_parts_checked (ucast (qr_first_blocknum msg)) 0 0 = Ok lo"
    "scid_from_parts_checked (min (ucast (end_blocknum msg)) MAX_SCID_BLOCK) 0 0 = Ok hi"
    "btree_range lo hi (channels g) = Ok chans"
    "sorted (announced_scids chans)" "distinct (announced_scids chans)" "set (announced_scids chans) = queried msg g"
proof -
  obtain hi where hi: "scid_from_parts_checked (min (ucast (end_blocknum msg)) MAX_SCID_BLOCK) 0 0 = Ok hi"
    "\<And>x. x < hi \<longleftrightarrow> unat (block_from_scid x) < min (unat (end_blocknum msg)) 0xFFFFFF"
    "unat hi = min (unat (end_blocknum msg)) 0xFFFFFF * 2 ^ 40"
    using block_bound_scid[OF capped_end(1), of msg] unfolding capped_end(2) by blast
  have "(ucast (qr_first_blocknum msg) :: u64) \<le> 0xFFFFFF" using f by (simp add: word_le_nat_alt ucast_u32_u64)
  then obtain lo where lo: "scid_from_parts_checked (ucast (qr_first_blocknum msg)) 0 0 = Ok lo"
    "\<And>x. lo \<le> x \<longleftrightarrow> unat (qr_first_blocknum msg) \<le> unat (block_from_scid x)" "unat lo = unat (qr_first_blocknum msg) * 2 ^ 40"
    using block_bound_scid[of "ucast (qr_first_blocknum msg)"] unfolding ucast_u32_u64 by blast
  have "unat (qr_first_blocknum msg) \<le> min (unat (end_blocknum msg)) 0xFFFFFF"
    using f first_le_end[of msg] by (simp add: word_le_nat_alt)
  then have le: "lo \<le> hi" unfolding word_le_nat_alt lo(3) hi(3) by (rule mult_le_mono1)
  define chans where "chans = filter (\<lambda>e. lo \<le> fst e \<and> fst e < hi) (btree_iter (channels g))"
  have ids: "announced_scids chans = map fst (filter (\<lambda>e. ci_announcement_message (snd e) \<noteq> None) chans)"
    by (rule announced_scids_keys[OF g]) (auto simp: chans_def btree_iter_props)
  show thesis
  proof (rule that[OF lo(1) hi(1)])
    show "btree_range lo hi (channels g) = Ok chans" using le by (simp add: btree_range_def chans_def)
    show "sorted (announced_scids chans)" "distinct (announced_scids chans)"
      using g unfolding ids unfolding chans_def
      by (auto simp: btree_iter_props graph_ok_def intro!: sorted_filter_keys distinct_map_filter)
    show "set (announced_scids chans) = queried msg g"
      using g unfolding ids unfolding queried_def chans_def graph_ok_def
      by (force simp: btree_iter_props lo(2) hi(2))
  qed
qed

lemma reply_loop_facts:
  "reply_loop msg p bs = [] \<longleftrightarrow> bs = []" "r \<in> set (reply_loop msg p bs) \<Longrightarrow> rr_short_channel_ids r \<in> set bs"
  "r \<in> set (reply_loop msg p bs) \<Longrightarrow> rr_chain_hash r = qr_chain_hash msg"
proof -
  show "reply_loop msg p bs = [] \<longleftrightarrow> bs = []" by (cases bs) (simp_all add: Let_def)
  show "r \<in> set (reply_loop msg p bs) \<Longrightarrow> rr_short_channel_ids r \<in> set bs"
    using reply_loop_batches[of msg p bs] by (metis image_eqI list.set_map)
  show "r \<in> set (reply_loop msg p bs) \<Longrightarrow> rr_chain_hash r = qr_chain_hash msg"
    by (induction bs arbitrary: p) (auto simp: reply_of_def Let_def)
qed

definition acceptable_query :: "QueryChannelRange \<Rightarrow> NetworkGraph \<Rightarrow> bool" where
  "acceptable_query msg g \<longleftrightarrow> qr_chain_hash msg = genesis_hash g \<and> qr_first_blocknum msg \<le> 0xFFFFFF \<and> qr_number_of_blocks msg \<noteq> 0"

lemma refused_query:
  assumes "\<not> acceptable_query msg (network_graph s)"
  shows "handle_query_channel_range who msg s =
        (Err (''query_channel_range could not be processed'', IgnoreError),
         s\<lparr>gossip_events := gossip_events s @ [SendReplyChannelRange who
            (reply_of msg (qr_first_blocknum msg) (qr_number_of_blocks msg) True [])]\<rparr>)"
proof (cases "qr_first_blocknum msg \<le> 0xFFFFFF")
  case True
  then have "qr_chain_hash msg \<noteq> genesis_hash (network_graph s) \<or> qr_number_of_blocks msg = 0"
    using assms by (auto simp: acceptable_query_def)
  then show ?thesis by (simp add: handle_query_channel_range_def Let_def scid_from_parts_checked_def)
next
  case False
  then have "scid_from_parts_checked (ucast (qr_first_blocknum msg)) 0 0 = Err BlockOverflow"
    by (simp add: scid_from_parts_checked_def MAX_SCID_BLOCK_def word_le_nat_alt word_less_nat_alt ucast_u32_u64)
  then show ?thesis by (simp add: handle_query_channel_range_def Let_def)
qed


section \<open>Paging through a map\<close>

lemma strict_keys: "distinct (map fst m) \<Longrightarrow> sorted_wrt (<) (map fst (btree_iter m))"
  by (simp add: strict_sorted_iff btree_iter_props)

text \<open>A full page ends at a key, and what is left is behind that key.\<close>

lemma page_split:
  fixes xs :: "('k :: linorder \<times> 'v) list"
  assumes "sorted_wrt (<) (map fst xs)" "\<And>e y. e \<in> set xs \<Longrightarrow> f e = Some y \<Longrightarrow> key y = fst e"
    and "0 < n" "length (take n (List.map_filter f xs)) = n"
  shows "List.map_filter f xs = take n (List.map_filter f xs) @
    List.map_filter f (filter (\<lambda>e. key (last (take n (List.map_filter f xs))) < fst e) xs)"
  using assms
proof (induction xs arbitrary: n)
  case (Cons e xs)
  have sorted: "sorted_wrt (<) (map fst xs)" "\<forall>d \<in> set xs. fst e < fst d" using Cons.prems(1) by auto
  show ?case
  proof (cases "f e")
    case None
    then show ?thesis using Cons.IH[of n] Cons.prems sorted by (simp add: map_filter_simps)
  next
    case (Some y)
    have y: "key y = fst e" using Cons.prems(2) Some by simp
    show ?thesis
    proof (cases "n = 1")
      case True
      then show ?thesis using Some y sorted(2) by (simp add: map_filter_simps filter_id_conv[THEN iffD2])
    next
      case False
      then obtain k where k: "n = Suc k" "0 < k" using Cons.prems(3) by (cases n) auto
      let ?t = "take k (List.map_filter f xs)"
      have t: "length ?t = k" using Cons.prems(4) Some k by (simp add: map_filter_simps)
      then have ne: "?t \<noteq> []" using k by auto
      have "last ?t \<in> set (List.map_filter f xs)" using ne by (meson in_set_takeD last_in_set)
      then obtain d where d: "d \<in> set xs" "f d = Some (last ?t)" by (auto simp: List.map_filter_def)
      then have "fst e < key (last ?t)" using Cons.prems(2)[of d] sorted(2) by simp
      then show ?thesis using Cons.IH[OF sorted(1) _ k(2) t] Cons.prems(2) Some k ne by (simp add: map_filter_simps)
    qed
  qed
qed simp

lemma skip_first_key:
  fixes xs :: "('k :: linorder \<times> 'v) list"
  assumes "sorted_wrt (<) (map fst xs)" "k \<in> fst ` set xs"
  shows "drop 1 (filter (\<lambda>e. k \<le> fst e) xs) = filter (\<lambda>e. k < fst e) xs"
  using assms
proof (induction xs)
  case (Cons e xs)
  show ?case
  proof (cases "fst e = k")
    case True
    then have "\<forall>d \<in> set xs. k < fst d" using Cons.prems(1) by auto
    then show ?thesis using True by (simp add: filter_id_conv[THEN iffD2] less_imp_le)
  next
    case False
    then have "k \<in> fst ` set xs" using Cons.prems(2) by auto
    moreover from this have "\<not> k \<le> fst e" using Cons.prems(1) False by (force simp: not_le)
    ultimately show ?thesis using Cons.IH Cons.prems(1) by (simp add: less_imp_le)
  qed
qed simp

definition page_of :: "u64 \<times> ChannelInfo \<Rightarrow> channel_page option" where
  "page_of e = map_option (\<lambda>m. (m, Option.bind (one_to_two (snd e)) ui_last_update_message, Option.bind (two_to_one (snd e)) ui_last_update_message))
     (ci_announcement_message (snd e))"

definition node_message_of :: "bytes \<times> NodeInfo \<Rightarrow> NodeAnnouncement option" where
  "node_message_of e = Option.bind (announcement_info (snd e)) ni_announcement_message"

lemma next_channels_take: "next_channels n xs = take n (List.map_filter page_of xs)"
proof (induction n xs rule: next_channels.induct)
  case (2 n k c rest)
  then show ?case by (cases n) (auto simp: page_of_def map_filter_simps split: option.split)
qed (simp add: map_filter_simps)

lemma next_nodes_take: "next_nodes n xs = take n (List.map_filter node_message_of xs)"
proof (induction n xs rule: next_nodes.induct)
  case (2 n k c rest)
  then show ?case by (cases n) (auto simp: node_message_of_def map_filter_simps split: option.split)
qed (simp add: map_filter_simps)

text \<open>What is left to send in a state of the sync.\<close>

definition pages_from :: "NetworkGraph \<Rightarrow> u64 \<Rightarrow> channel_page list" where
  "pages_from g c = List.map_filter page_of (filter (\<lambda>e. c \<le> fst e) (btree_iter (channels g)))"

definition nodes_after :: "NetworkGraph \<Rightarrow> bytes option \<Rightarrow> NodeAnnouncement list" where
  "nodes_after g start = List.map_filter node_message_of
     (case start of None \<Rightarrow> btree_iter (nodes g) | Some key \<Rightarrow> filter (\<lambda>e. key < fst e) (btree_iter (nodes g)))"

fun left_to_send :: "NetworkGraph \<Rightarrow> InitSyncTracker \<Rightarrow> sync_message list" where
  "left_to_send g NoSyncRequested = []"
| "left_to_send g (ChannelsSyncing c) = concat (map page_messages (pages_from g c)) @ map SyncNode (nodes_after g None)"
| "left_to_send g (NodesSyncing key) = map SyncNode (nodes_after g (Some key))"

fun rounds_left :: "NetworkGraph \<Rightarrow> InitSyncTracker \<Rightarrow> nat" where
  "rounds_left g NoSyncRequested = 0"
| "rounds_left g (ChannelsSyncing c) =
     (if c < 0xFFFFFFFFFFFFFFFF then Suc (length (pages_from g c)) else 0) + Suc (length (nodes_after g None))"
| "rounds_left g (NodesSyncing key) = Suc (length (nodes_after g (Some key)))"

fun sync_status_ok :: "NetworkGraph \<Rightarrow> InitSyncTracker \<Rightarrow> bool" where
  "sync_status_ok g (NodesSyncing key) = (node g key \<noteq> None)"
| "sync_status_ok g st = True"

definition syncable :: "NetworkGraph \<Rightarrow> bool" where
  "syncable g \<longleftrightarrow> graph_ok g \<and> chan g 0xFFFFFFFFFFFFFFFF = None"

lemma channel_keys:
  assumes "graph_ok g" "e \<in> set (channels g)" "page_of e = Some p"
  shows "ca_short_channel_id (ca_contents (fst p)) = fst e" "chan g (fst e) \<noteq> None"
proof -
  have c: "chan g (fst e) = Some (snd e)" using assms(1,2) by (cases e) (auto simp: graph_ok_def)
  then have "channel_ok (fst e) (snd e)" using assms(1) by (auto simp: graph_ok_def intro: linkedD(3))
  then show "ca_short_channel_id (ca_contents (fst p)) = fst e" using assms(3) by (auto simp: channel_ok_def page_of_def)
  show "chan g (fst e) \<noteq> None" using c by simp
qed

lemma node_keys:
  assumes "graph_ok g" "e \<in> set (nodes g)" "node_message_of e = Some m"
  shows "na_node_id (na_contents m) = fst e" "node g (fst e) \<noteq> None"
proof -
  have n: "node g (fst e) = Some (snd e)" using assms(1,2) by (cases e) (auto simp: graph_ok_def)
  then have "own_announcement (fst e) (snd e)" using assms(1) linkedD(2) by (auto simp: graph_ok_def node_ok_def)
  then show "na_node_id (na_contents m) = fst e"
    using assms(3) by (auto simp: own_announcement_def node_message_of_def Option.bind_eq_Some_conv)
  show "node g (fst e) \<noteq> None" using n by simp
qed

text \<open>Rounds of the two kinds.\<close>

lemma channels_round:
  assumes g: "syncable g" and n: "0 < n" and all: "all = take n (pages_from g c)" and full: "length all = n"
  defines "scid \<equiv> ca_short_channel_id (ca_contents (fst (last all)))"
  shows "pages_from g c = all @ pages_from g (scid + 1)" "scid + 1 \<noteq> 0"
proof -
  have ok: "graph_ok g" and no_max: "chan g 0xFFFFFFFFFFFFFFFF = None" using g by (simp_all add: syncable_def)
  let ?xs = "filter (\<lambda>e. c \<le> fst e) (btree_iter (channels g))"
  have xs: "set ?xs \<subseteq> set (channels g)" by (auto simp: btree_iter_props)
  have "sorted_wrt (<) (map fst ?xs)"
    using ok strict_keys[of "channels g"] by (simp add: graph_ok_def sorted_wrt_filter sorted_wrt_map)
  then have split: "pages_from g c = all @ List.map_filter page_of (filter (\<lambda>e. scid < fst e) ?xs)"
    using page_split[of ?xs page_of "\<lambda>p. ca_short_channel_id (ca_contents (fst p))" n] xs channel_keys(1)[OF ok] n full
    unfolding all scid_def pages_from_def by blast
  have "all \<noteq> []" using full n by auto
  then have "last all \<in> set (pages_from g c)" using all by (meson in_set_takeD last_in_set)
  then obtain e where e: "e \<in> set (channels g)" "page_of e = Some (last all)" "c \<le> fst e"
    by (auto simp: pages_from_def List.map_filter_def btree_iter_props)
  then have scid: "scid = fst e" "chan g scid \<noteq> None" using channel_keys[OF ok e(1,2)] by (simp_all add: scid_def)
  show "scid + 1 \<noteq> 0"
  proof
    assume "scid + 1 = 0"
    then have "scid = - 1" by (simp add: eq_neg_iff_add_eq_0)
    moreover have "(- 1 :: u64) = 0xFFFFFFFFFFFFFFFF" by simp
    ultimately show False using scid(2) no_max by metis
  qed
  then have "unat (scid + 1) = Suc (unat scid)" by (metis add.commute unatSuc)
  then have le: "scid + 1 \<le> x \<longleftrightarrow> scid < x" for x by (simp add: word_le_nat_alt word_less_nat_alt Suc_le_eq)
  have "filter (\<lambda>e. scid < fst e) ?xs = filter (\<lambda>e. scid + 1 \<le> fst e) (btree_iter (channels g))"
    unfolding filter_filter le using e(3) scid(1) by (intro filter_cong refl) auto
  then show "pages_from g c = all @ pages_from g (scid + 1)" using split by (simp add: pages_from_def)
qed

lemma nodes_round:
  assumes ok: "graph_ok g" and n: "0 < n" and all: "all = take n (nodes_after g start)" and full: "length all = n"
  defines "key \<equiv> na_node_id (na_contents (last all))"
  shows "nodes_after g start = all @ nodes_after g (Some key)" "node g key \<noteq> None"
proof -
  define xs where "xs = (case start of None \<Rightarrow> btree_iter (nodes g) | Some k \<Rightarrow> filter (\<lambda>e. k < fst e) (btree_iter (nodes g)))"
  have xs: "set xs \<subseteq> set (nodes g)" by (auto simp: xs_def btree_iter_props split: option.splits)
  have "sorted_wrt (<) (map fst xs)"
    using ok strict_keys[of "nodes g"]
    by (auto simp: xs_def graph_ok_def sorted_wrt_filter sorted_wrt_map split: option.split)
  then have split: "nodes_after g start = all @ List.map_filter node_message_of (filter (\<lambda>e. key < fst e) xs)"
    using page_split[of xs node_message_of "\<lambda>m. na_node_id (na_contents m)" n] xs node_keys(1)[OF ok] n full
    unfolding all key_def nodes_after_def xs_def[symmetric] by blast
  have "all \<noteq> []" using full n by auto
  then have "last all \<in> set (nodes_after g start)" using all by (meson in_set_takeD last_in_set)
  then obtain e where e: "e \<in> set xs" "node_message_of e = Some (last all)"
    by (auto simp: nodes_after_def List.map_filter_def simp flip: xs_def)
  then have key: "key = fst e" "node g key \<noteq> None" using node_keys[OF ok _ e(2)] xs by (auto simp: key_def)
  then show "node g key \<noteq> None" by simp
  have "filter (\<lambda>e. key < fst e) xs = filter (\<lambda>e. key < fst e) (btree_iter (nodes g))"
    using e(1) key(1) by (auto simp: xs_def split: option.splits intro!: filter_cong)
  then show "nodes_after g start = all @ nodes_after g (Some key)" using split by (simp add: nodes_after_def)
qed

lemma get_next_nodes:
  assumes "graph_ok g" "case start of None \<Rightarrow> True | Some key \<Rightarrow> node g key \<noteq> None"
  shows "get_next_node_announcements start steps g = take (unat steps) (nodes_after g start)"
proof (cases start)
  case (Some key)
  have "sorted_wrt (<) (map fst (btree_iter (nodes g)))" using assms(1) by (simp add: graph_ok_def strict_keys)
  moreover have "key \<in> fst ` set (btree_iter (nodes g))"
    using assms(2) Some by (auto simp: btree_iter_props map_of_eq_None_iff)
  ultimately show ?thesis using Some
    by (simp add: get_next_node_announcements_def nodes_after_def next_nodes_take skip_first_key[simplified])
qed (simp add: get_next_node_announcements_def nodes_after_def next_nodes_take)

lemma get_next_channels: "get_next_channel_announcements c steps g = take (unat steps) (pages_from g c)"
  by (simp add: get_next_channel_announcements_def pages_from_def next_channels_take)

lemma short_page: "length (take n xs) \<noteq> n \<or> take n xs = [] \<Longrightarrow> 0 < n \<Longrightarrow> take n xs = xs"
  by auto

lemma steps_small: "0 < k \<Longrightarrow> k \<le> 10 \<Longrightarrow> unat (word_of_nat k :: u8) = k"
  by (simp add: unat_of_nat)

lemma node_sync_round_progress:
  assumes ok: "graph_ok g" and b: "b < 10" and start: "case start of None \<Rightarrow> True | Some key \<Rightarrow> node g key \<noteq> None"
    and r: "node_sync_round g b start = (out, st')"
  shows "map SyncNode (nodes_after g start) = out @ left_to_send g st'" "sync_status_ok g st'"
    "rounds_left g st' < Suc (length (nodes_after g start))"
proof -
  define n where "n = 10 - b"
  have n: "0 < n" "n \<le> 10" using b by (simp_all add: n_def)
  define all where "all = take n (nodes_after g start)"
  have steps: "unat (word_of_nat n :: u8) = n" using n by (rule steps_small)
  have get: "get_next_node_announcements start (word_of_nat n) g = all"
    using get_next_nodes[OF ok start, of "word_of_nat n"] unfolding steps all_def .
  have r': "out = map SyncNode all" "st' = (if all = [] \<or> length all \<noteq> n then NoSyncRequested
      else NodesSyncing (na_node_id (na_contents (last all))))"
    using r unfolding node_sync_round_def Let_def OUTBOUND_BUFFER_LIMIT_READ_PAUSE_def n_def[symmetric] get steps by auto
  have "map SyncNode (nodes_after g start) = out @ left_to_send g st' \<and> sync_status_ok g st' \<and>
      rounds_left g st' < Suc (length (nodes_after g start))"
  proof (cases "all = [] \<or> length all \<noteq> n")
    case True
    then have "all = nodes_after g start" unfolding all_def using n(1) short_page by blast
    then show ?thesis using r' True by auto
  next
    case False
    then have "nodes_after g start = all @ nodes_after g (Some (na_node_id (na_contents (last all))))"
      "node g (na_node_id (na_contents (last all))) \<noteq> None"
      using nodes_round[OF ok n(1) all_def] by auto
    then show ?thesis using False r' by (metis append_eq_append_conv2 length_append left_to_send.simps(3) less_add_same_cancel2
          length_greater_0_conv map_append not_less_eq rounds_left.simps(3) sync_status_ok.simps(1) add_less_cancel_left less_Suc_eq)
  qed
  then show "map SyncNode (nodes_after g start) = out @ left_to_send g st'" "sync_status_ok g st'"
    "rounds_left g st' < Suc (length (nodes_after g start))" by blast+
qed

lemma no_pages_behind:
  assumes "syncable g" "\<not> c < 0xFFFFFFFFFFFFFFFF"
  shows "pages_from g c = []"
proof -
  have top: "x = 0xFFFFFFFFFFFFFFFF" if "\<not> x < 0xFFFFFFFFFFFFFFFF" for x :: u64
  proof -
    have "unat x < 2 ^ 64" using unsigned_less[where ?'a = nat, of x] by simp
    then have "x \<le> 0xFFFFFFFFFFFFFFFF" by (simp add: word_le_nat_alt)
    then show ?thesis using that by (simp only: not_less order_antisym)
  qed
  have "fst e < c" if "e \<in> set (channels g)" for e
    using top[of "fst e"] top[OF assms(2)] that assms(1) by (cases e) (force simp: syncable_def map_of_eq_None_iff)
  then have "filter (\<lambda>e. c \<le> fst e) (btree_iter (channels g)) = []"
    by (auto simp: filter_empty_conv btree_iter_props not_le)
  then show ?thesis by (simp add: pages_from_def map_filter_simps)
qed

lemma channel_sync_round_progress:
  assumes g: "syncable g" and b: "b < 10" and c: "c < 0xFFFFFFFFFFFFFFFF" and r: "channel_sync_round g b c = (out, st')"
  shows "left_to_send g (ChannelsSyncing c) = out @ left_to_send g st'" "sync_status_ok g st'"
    "rounds_left g st' < rounds_left g (ChannelsSyncing c)"
proof -
  define n where "n = (10 - b + 2) div 3"
  have n: "0 < n" "n \<le> 10" using b by (simp_all add: n_def)
  define all where "all = take n (pages_from g c)"
  have steps: "unat (word_of_nat n :: u8) = n" using n by (rule steps_small)
  have get: "get_next_channel_announcements c (word_of_nat n) g = all"
    using get_next_channels[of c "word_of_nat n" g] unfolding steps all_def .
  have r': "out = concat (map page_messages all)" "st' = (if all = [] \<or> length all \<noteq> n then ChannelsSyncing 0xFFFFFFFFFFFFFFFF
      else ChannelsSyncing (ca_short_channel_id (ca_contents (fst (last all))) + 1))"
    using r unfolding channel_sync_round_def Let_def OUTBOUND_BUFFER_LIMIT_READ_PAUSE_def n_def[symmetric] get steps by auto
  note none = no_pages_behind[OF g order.irrefl]
  have "left_to_send g (ChannelsSyncing c) = out @ left_to_send g st' \<and> sync_status_ok g st' \<and>
    rounds_left g st' < rounds_left g (ChannelsSyncing c)"
  proof (cases "all = [] \<or> length all \<noteq> n")
    case True
    then have "all = pages_from g c" unfolding all_def using n(1) short_page by blast
    then show ?thesis using r' True none c by auto
  next
    case False
    then have "pages_from g c = all @ pages_from g (ca_short_channel_id (ca_contents (fst (last all))) + 1)"
      using channels_round[OF g n(1) all_def] by auto
    then show ?thesis using False r' c by auto
  qed
  then show "left_to_send g (ChannelsSyncing c) = out @ left_to_send g st'" "sync_status_ok g st'"
    "rounds_left g st' < rounds_left g (ChannelsSyncing c)" by blast+
qed

lemma sync_round_progress:
  assumes g: "syncable g" "b < 10" "sync_status_ok g st" and r: "sync_round g b st = (out, st')"
  shows "left_to_send g st = out @ left_to_send g st' \<and> sync_status_ok g st' \<and> (rounds_left g st' < rounds_left g st \<or> st = NoSyncRequested)"
proof (cases st)
  case (ChannelsSyncing c)
  show ?thesis
  proof (cases "c < 0xFFFFFFFFFFFFFFFF")
    case True
    then show ?thesis using channel_sync_round_progress[OF g(1,2) True] r ChannelsSyncing by simp
  next
    case False
    then show ?thesis using node_sync_round_progress[of g b None] g r ChannelsSyncing no_pages_behind[OF g(1) False]
      by (simp add: syncable_def)
  qed
next
  case (NodesSyncing key)
  then show ?thesis using node_sync_round_progress[of g b "Some key"] g r by (simp add: syncable_def)
qed (use r in auto)

lemma sync_rounds_all:
  assumes "syncable g" "\<forall>b \<in> set bs. b < 10" "sync_status_ok g st" "rounds_left g st \<le> length bs"
  shows "sync_rounds g bs st = (left_to_send g st, NoSyncRequested)"
  using assms
proof (induction bs arbitrary: st)
  case Nil
  then show ?case by (cases st) (auto split: if_splits)
next
  case (Cons b bs)
  obtain out st' where r: "sync_round g b st = (out, st')" by force
  have p: "left_to_send g st = out @ left_to_send g st'" "sync_status_ok g st'" "rounds_left g st' < rounds_left g st \<or> st = NoSyncRequested"
    using sync_round_progress[OF Cons.prems(1) _ Cons.prems(3) r] Cons.prems(2) by auto
  have "rounds_left g st' \<le> length bs" using p(3) Cons.prems(4) r by auto
  then have "sync_rounds g bs st' = (left_to_send g st', NoSyncRequested)" using Cons p(2) by auto
  then show ?case using r p(1) by simp
qed

text \<open>C22. A peer that asks for the routing table gets all of it. Whatever room its buffer has in each round, the
  sync sends every stored channel announcement in the order of the channel ids, each once and followed by the
  stored updates of its two directions, then every stored node announcement in the order of the node ids, and ends
  after at most two rounds more than there are channels and nodes.\<close>

theorem initial_routing_sync_complete:
  assumes "graph_ok g" "chan g 0xFFFFFFFFFFFFFFFF = None"
    and "\<forall>b \<in> set bs. b < OUTBOUND_BUFFER_LIMIT_READ_PAUSE" "length (channels g) + length (nodes g) + 2 \<le> length bs"
  shows "sync_rounds g bs (ChannelsSyncing 0) =
    (concat (map page_messages (List.map_filter page_of (btree_iter (channels g)))) @
       map SyncNode (List.map_filter node_message_of (btree_iter (nodes g))), NoSyncRequested)"
proof -
  have len: "length (List.map_filter f xs) \<le> length xs" for f :: "'a \<Rightarrow> 'b option" and xs
    by (simp add: List.map_filter_def)
  have pages: "pages_from g 0 = List.map_filter page_of (btree_iter (channels g))" by (simp add: pages_from_def)
  have "length (btree_iter (channels g)) = length (channels g)" "length (btree_iter (nodes g)) = length (nodes g)"
    by (simp_all add: btree_iter_def)
  then have "length (pages_from g 0) \<le> length (channels g)" "length (nodes_after g None) \<le> length (nodes g)"
    using len[of page_of "btree_iter (channels g)"] len[of node_message_of "btree_iter (nodes g)"]
    by (simp_all add: pages nodes_after_def)
  then have "rounds_left g (ChannelsSyncing 0) \<le> length bs" using assms(4) by simp
  then show ?thesis using sync_rounds_all[of g bs "ChannelsSyncing 0"] assms pages
    by (simp add: syncable_def OUTBOUND_BUFFER_LIMIT_READ_PAUSE_def nodes_after_def)
qed

section \<open>An example\<close>

definition demo_announcement :: ChannelAnnouncement where
  "demo_announcement = \<lparr>ca_node_signature_1 = [7], ca_node_signature_2 = [8], ca_bitcoin_signature_1 = [1], ca_bitcoin_signature_2 = [2],
     ca_contents = \<lparr>ca_features = [], ca_chain_hash = [], ca_short_channel_id = 0x20000000000, ca_node_id_1 = [7], ca_node_id_2 = [8],
       ca_bitcoin_key_1 = [1], ca_bitcoin_key_2 = [2], ca_excess_data = []\<rparr>\<rparr>"

definition demo_channel :: ChannelInfo where
  "demo_channel = announced_channel [] [7] [8] None (Some demo_announcement) 1700000000"

definition demo_node :: NodeInfo where
  "demo_node = \<lparr>node_channels = [0x20000000000], lowest_inbound_channel_fees = None, announcement_info = None\<rparr>"

definition demo_sync :: P2PGossipSync where
  "demo_sync = \<lparr>network_graph = (new_graph [])\<lparr>channels := [(0x20000000000, demo_channel)], nodes := [([7], demo_node), ([8], demo_node)]\<rparr>,
     full_syncs_requested = 0, gossip_events = []\<rparr>"

lemma demo_sync_ok: "graph_ok (network_graph demo_sync)"
proof -
  have "update_channel_from_announcement example_lib demo_announcement (new_graph []) = Ok (network_graph demo_sync)"
    by (simp add: update_channel_from_announcement_def secp_verify_sig_def example_lib_def demo_announcement_def
        update_channel_from_unsigned_announcement_intern_def check_utxo_def add_channel_between_nodes_def add_to_node_def
        new_graph_def demo_sync_def demo_channel_def demo_node_def announced_channel_def MAX_EXCESS_BYTES_FOR_RELAY_def Let_def)
  moreover have "graph_ok (new_graph [])" by (simp add: graph_ok_def new_graph_def linked_defs)
  ultimately show ?thesis
    using graph_apply_keeps[of "new_graph []" example_lib "ChannelAnnounced demo_announcement"] by simp
qed

definition demo_query :: QueryChannelRange where
  "demo_query = \<lparr>qr_chain_hash = [], qr_first_blocknum = 1, qr_number_of_blocks = 4\<rparr>"


theorem initial_routing_sync_complete_witness:
  "sync_rounds (network_graph demo_sync) [0, 9, 3, 0, 0] (ChannelsSyncing 0) = ([SyncChannel demo_announcement], NoSyncRequested)"
proof -
  have "chan (network_graph demo_sync) 0xFFFFFFFFFFFFFFFF = None" "length (channels (network_graph demo_sync)) = 1"
    "length (nodes (network_graph demo_sync)) = 2"
    by (simp_all add: demo_sync_def)
  then have "sync_rounds (network_graph demo_sync) [0, 9, 3, 0, 0] (ChannelsSyncing 0) =
    (concat (map page_messages (List.map_filter page_of (btree_iter (channels (network_graph demo_sync))))) @
       map SyncNode (List.map_filter node_message_of (btree_iter (nodes (network_graph demo_sync)))), NoSyncRequested)"
    by (intro initial_routing_sync_complete demo_sync_ok) (simp_all add: OUTBOUND_BUFFER_LIMIT_READ_PAUSE_def)
  then show ?thesis
    by (simp add: demo_sync_def btree_iter_def map_filter_simps page_of_def demo_channel_def announced_channel_def
        page_messages_def node_message_of_def demo_node_def)
qed

end
