(* ===== verification/Features.thy ===== *)
theory Features
  imports Serialization
begin

text \<open>
  Feature flags, \<open>lightning/src/ln/features.rs\<close>: little-endian bytes in which every feature has an even bit (required)
  and an odd one (optional). The macros \<open>define_feature!\<close> and \<open>define_context!\<close> become functions of the odd bit and of
  the context. The channel type implied by a peer's \<open>init\<close> features is well formed, and the base32 form
  of invoice features can be read back.
\<close>

unbundle bit_operations_syntax

section \<open>Features\<close>

type_synonym features = bytes

definition BYTE_OFFSET :: "nat \<Rightarrow> nat" where "BYTE_OFFSET odd_bit = (odd_bit - 1) div 8"
definition REQUIRED_MASK :: "nat \<Rightarrow> u8" where "REQUIRED_MASK odd_bit = push_bit (odd_bit - 1 - 8 * BYTE_OFFSET odd_bit) 1"
definition OPTIONAL_MASK :: "nat \<Rightarrow> u8" where "OPTIONAL_MASK odd_bit = push_bit (odd_bit - 8 * BYTE_OFFSET odd_bit) 1"

definition requires_feature :: "nat \<Rightarrow> features \<Rightarrow> bool" where
  "requires_feature odd_bit flags \<longleftrightarrow> BYTE_OFFSET odd_bit < length flags \<and> flags ! BYTE_OFFSET odd_bit AND REQUIRED_MASK odd_bit \<noteq> 0"

definition supports_feature :: "nat \<Rightarrow> features \<Rightarrow> bool" where
  "supports_feature odd_bit flags \<longleftrightarrow>
     BYTE_OFFSET odd_bit < length flags \<and> flags ! BYTE_OFFSET odd_bit AND (REQUIRED_MASK odd_bit OR OPTIONAL_MASK odd_bit) \<noteq> 0"

definition resize :: "nat \<Rightarrow> bytes \<Rightarrow> bytes" where
  "resize n bs = take n bs @ replicate (n - length bs) 0"

definition set_bits_at :: "nat \<Rightarrow> u8 \<Rightarrow> features \<Rightarrow> features" where
  "set_bits_at offset m flags =
     (let bs = (if length flags \<le> offset then resize (offset + 1) flags else flags) in bs[offset := bs ! offset OR m])"

definition set_required_bit :: "nat \<Rightarrow> features \<Rightarrow> features" where
  "set_required_bit odd_bit flags = set_bits_at (BYTE_OFFSET odd_bit) (REQUIRED_MASK odd_bit) flags"

definition set_optional_bit :: "nat \<Rightarrow> features \<Rightarrow> features" where
  "set_optional_bit odd_bit flags = set_bits_at (BYTE_OFFSET odd_bit) (OPTIONAL_MASK odd_bit) flags"

definition trim_zeros :: "bytes \<Rightarrow> bytes" where
  "trim_zeros bs = rev (dropWhile (\<lambda>b. b = 0) (rev bs))"

definition clear_bits :: "nat \<Rightarrow> features \<Rightarrow> features" where
  "clear_bits odd_bit flags =
     trim_zeros (if BYTE_OFFSET odd_bit < length flags
                 then flags[BYTE_OFFSET odd_bit := flags ! BYTE_OFFSET odd_bit AND NOT (REQUIRED_MASK odd_bit) AND NOT (OPTIONAL_MASK odd_bit)]
                 else flags)"

definition DataLossProtect :: nat where "DataLossProtect = 1"
definition InitialRoutingSync :: nat where "InitialRoutingSync = 3"
definition UpfrontShutdownScript :: nat where "UpfrontShutdownScript = 5"
definition GossipQueries :: nat where "GossipQueries = 7"
definition VariableLengthOnion :: nat where "VariableLengthOnion = 9"
definition StaticRemoteKey :: nat where "StaticRemoteKey = 13"
definition PaymentSecret :: nat where "PaymentSecret = 15"
definition BasicMPP :: nat where "BasicMPP = 17"
definition Wumbo :: nat where "Wumbo = 19"
definition ShutdownAnySegwit :: nat where "ShutdownAnySegwit = 27"
definition ChannelType :: nat where "ChannelType = 45"
definition SCIDPrivacy :: nat where "SCIDPrivacy = 47"
definition ZeroConf :: nat where "ZeroConf = 51"
definition Keysend :: nat where "Keysend = 55"

lemmas feature_bits = DataLossProtect_def InitialRoutingSync_def UpfrontShutdownScript_def GossipQueries_def VariableLengthOnion_def
  StaticRemoteKey_def PaymentSecret_def BasicMPP_def Wumbo_def ShutdownAnySegwit_def ChannelType_def SCIDPrivacy_def ZeroConf_def Keysend_def

section \<open>Contexts\<close>

datatype feature_context = InitContext | NodeContext | ChannelContext | InvoiceContext | ChannelTypeContext

fun required_features :: "feature_context \<Rightarrow> nat list list" where
  "required_features InitContext = [[], [VariableLengthOnion, StaticRemoteKey, PaymentSecret], [], [], [], [], []]"
| "required_features NodeContext = [[], [VariableLengthOnion, StaticRemoteKey, PaymentSecret], [], [], [], [], []]"
| "required_features ChannelContext = []"
| "required_features InvoiceContext = [[], [VariableLengthOnion, PaymentSecret], []]"
| "required_features ChannelTypeContext = [[], [StaticRemoteKey], [], [], [], [SCIDPrivacy], [ZeroConf]]"

fun optional_features :: "feature_context \<Rightarrow> nat list list" where
  "optional_features InitContext =
     [[DataLossProtect, InitialRoutingSync, UpfrontShutdownScript, GossipQueries], [], [BasicMPP, Wumbo], [ShutdownAnySegwit], [], [ChannelType, SCIDPrivacy], [ZeroConf]]"
| "optional_features NodeContext =
     [[DataLossProtect, UpfrontShutdownScript, GossipQueries], [], [BasicMPP, Wumbo], [ShutdownAnySegwit], [], [ChannelType, SCIDPrivacy], [ZeroConf, Keysend]]"
| "optional_features ChannelContext = []"
| "optional_features InvoiceContext = [[], [], [BasicMPP]]"
| "optional_features ChannelTypeContext = [[], [], [], [], [], [], []]"

definition or_all :: "u8 list \<Rightarrow> u8" where "or_all ms = foldr (OR) ms 0"

definition KNOWN_FEATURE_FLAGS :: "feature_context \<Rightarrow> bytes" where
  "KNOWN_FEATURE_FLAGS ctx =
     map (\<lambda>(rs, os). or_all (map REQUIRED_MASK rs @ map OPTIONAL_MASK os)) (zip (required_features ctx) (optional_features ctx))"

definition KNOWN_FEATURE_MASK :: "feature_context \<Rightarrow> bytes" where
  "KNOWN_FEATURE_MASK ctx =
     map (\<lambda>(rs, os). or_all (concat (map (\<lambda>f. [REQUIRED_MASK f, OPTIONAL_MASK f]) (rs @ os)))) (zip (required_features ctx) (optional_features ctx))"

section \<open>Operations on a set of features\<close>

definition known :: "feature_context \<Rightarrow> features" where "known ctx = KNOWN_FEATURE_FLAGS ctx"

definition features_or :: "features \<Rightarrow> features \<Rightarrow> features" where
  "features_or a b = (let bs = resize (max (length a) (length b)) a in map2 (OR) (take (length b) bs) b @ drop (length b) bs)"

definition to_context :: "feature_context \<Rightarrow> feature_context \<Rightarrow> features \<Rightarrow> features" where
  "to_context from_ctx to_ctx flags =
     (let n = min (length (KNOWN_FEATURE_MASK from_ctx)) (length (KNOWN_FEATURE_MASK to_ctx)) in
      map (\<lambda>(i, byte). byte AND KNOWN_FEATURE_MASK from_ctx ! i AND KNOWN_FEATURE_MASK to_ctx ! i) (zip [0..<n] flags))"

definition required_form :: "u8 \<Rightarrow> u8" where
  "required_form byte = (byte OR drop_bit 1 (byte AND 0xaa)) AND 0x55"

definition from_counterparty_init :: "features \<Rightarrow> features" where
  "from_counterparty_init counterparty_init = map required_form (to_context InitContext ChannelTypeContext counterparty_init)"

definition only_static_remote_key :: features where
  "only_static_remote_key = set_required_bit StaticRemoteKey []"

definition for_keysend :: features where
  "for_keysend = set_optional_bit VariableLengthOnion []"

definition supports_any_optional_bits :: "features \<Rightarrow> bool" where
  "supports_any_optional_bits flags \<longleftrightarrow> (\<exists>byte\<in>set flags. byte AND 0xaa \<noteq> 0)"

definition unknown_features :: "feature_context \<Rightarrow> nat \<Rightarrow> u8" where
  "unknown_features ctx i = (if i < length (KNOWN_FEATURE_MASK ctx) then NOT (KNOWN_FEATURE_MASK ctx ! i) else 0xff)"

definition requires_unknown_bits :: "feature_context \<Rightarrow> features \<Rightarrow> bool" where
  "requires_unknown_bits ctx flags \<longleftrightarrow> (\<exists>i\<in>set [0..<length flags]. flags ! i AND (0x55 AND unknown_features ctx i) \<noteq> 0)"

definition supports_unknown_bits :: "feature_context \<Rightarrow> features \<Rightarrow> bool" where
  "supports_unknown_bits ctx flags \<longleftrightarrow> (\<exists>i\<in>set [0..<length flags]. flags ! i AND unknown_features ctx i \<noteq> 0)"

section \<open>Serialization\<close>

definition write_features :: "features \<Rightarrow> bytes" where
  "write_features flags = be_bytes 2 (word_of_nat (length flags) :: u16) @ rev flags"

definition read_features :: "bytes \<Rightarrow> features parsed" where
  "read_features bs =
     and_then (read_be 2 bs) (\<lambda>(n :: u16, rest). map_ok (\<lambda>(flags, rest'). (rev flags, rest')) (read_exact (unat n) rest))"

definition write_up_to_13 :: "features \<Rightarrow> bytes" where
  "write_up_to_13 flags =
     (let len = min 2 (length flags) in
      be_bytes 2 (word_of_nat len :: u16) @ map (\<lambda>i. if i = 0 then flags ! i else flags ! i AND 0x3f) (rev [0..<len]))"

text \<open>The base32 form of invoice features: five bits per character, the highest first.\<close>

definition or_at :: "nat \<Rightarrow> u8 \<Rightarrow> u8 list \<Rightarrow> u8 list" where
  "or_at i m xs = xs[i := xs ! i OR m]"

definition put_byte :: "nat \<Rightarrow> nat \<times> u8 \<Rightarrow> u8 list \<Rightarrow> u8 list" where
  "put_byte length_u5s = (\<lambda>(byte_idx, byte) res_u5s.
     (let pos = byte_idx * 8;
          new_u5_idx = length_u5s - pos div 5 - 1;
          shifted_chunk_u16 = push_bit (pos mod 5) (ucast byte) :: u16;
          r1 = or_at new_u5_idx (ucast (shifted_chunk_u16 AND 0x1f)) res_u5s;
          r2 = (if new_u5_idx > 0 then or_at (new_u5_idx - 1) (ucast (drop_bit 5 shifted_chunk_u16 AND 0x1f)) r1 else r1)
      in if new_u5_idx > 1 then or_at (new_u5_idx - 2) (ucast (drop_bit 10 shifted_chunk_u16 AND 0x1f)) r2 else r2))"

definition write_base32 :: "features \<Rightarrow> u8 list" where
  "write_base32 flags =
     (let length_u5s = (length flags * 8 + 4) div 5 in
      dropWhile (\<lambda>c. c = 0) (fold (put_byte length_u5s) (zip [0..<length flags] flags) (replicate length_u5s 0)))"

definition put_u5 :: "nat \<Rightarrow> nat \<Rightarrow> nat \<times> u8 \<Rightarrow> bytes \<Rightarrow> bytes" where
  "put_u5 len length_bytes = (\<lambda>(u5_idx, chunk) res_bytes.
     (let pos = (len - u5_idx - 1) * 5;
          new_byte_idx = pos div 8;
          chunk_u16 = ucast chunk :: u16;
          r1 = or_at new_byte_idx (ucast (push_bit (pos mod 8) chunk_u16 AND 0xff)) res_bytes
      in if new_byte_idx \<noteq> length_bytes - 1 then or_at (new_byte_idx + 1) (ucast (drop_bit (8 - pos mod 8) chunk_u16 AND 0xff)) r1 else r1))"

definition from_base32 :: "u8 list \<Rightarrow> features" where
  "from_base32 field_data =
     (let length_bytes = (length field_data * 5 + 7) div 8 in
      trim_zeros (fold (put_u5 (length field_data) length_bytes) (zip [0..<length field_data] field_data) (replicate length_bytes 0)))"


section \<open>Single bits\<close>

text \<open>Bit \<open>j\<close> of a set of features, and of its base32 form counted from the last character.\<close>

definition feature_bit :: "features \<Rightarrow> nat \<Rightarrow> bool" where
  "feature_bit flags j \<longleftrightarrow> j div 8 < length flags \<and> bit (flags ! (j div 8)) (j mod 8)"

definition u5_bit :: "u8 list \<Rightarrow> nat \<Rightarrow> bool" where
  "u5_bit cs j \<longleftrightarrow> j div 5 < length cs \<and> bit (cs ! (length cs - 1 - j div 5)) (j mod 5)"

lemma fold_collects:
  assumes step: "\<And>x s. x \<in> set xs \<Longrightarrow> ok s \<Longrightarrow> ok (f x s) \<and> (obs (f x s) \<longleftrightarrow> obs s \<or> P x)" and "ok s"
  shows "ok (fold f xs s) \<and> (obs (fold f xs s) \<longleftrightarrow> obs s \<or> (\<exists>x\<in>set xs. P x))"
  using assms by (induction xs arbitrary: s) auto

lemma length_or_at [simp]: "length (or_at i m xs) = length xs"
  by (simp add: or_at_def)

lemma bit_or_at: "i < length xs \<Longrightarrow> k < length xs \<Longrightarrow> bit (or_at i m xs ! k) t \<longleftrightarrow> bit (xs ! k) t \<or> k = i \<and> bit m t"
  by (auto simp: or_at_def nth_list_update bit_or_iff)

lemma bit_low5: "t < 5 \<Longrightarrow> bit (ucast ((w :: u16) AND 0x1f) :: u8) t \<longleftrightarrow> bit w t"
proof -
  assume t: "t < 5"
  have m: "(0x1f :: u16) = mask 5" by (simp add: mask_eq_exp_minus_1)
  show ?thesis using t unfolding m by (auto simp: bit_simps)
qed

lemma bit_low8: "t < 8 \<Longrightarrow> bit (ucast ((w :: u16) AND 0xff) :: u8) t \<longleftrightarrow> bit w t"
proof -
  assume t: "t < 8"
  have m: "(0xff :: u16) = mask 8" by (simp add: mask_eq_exp_minus_1)
  show ?thesis using t unfolding m by (auto simp: bit_simps)
qed

lemma bit_u8: "bit (w :: u8) n \<Longrightarrow> n < 8"
  using bit_imp_le_length [of w n] by simp

lemma put_byte_bit:
  assumes len: "length xs = n" and fits: "8 * i + 8 \<le> 5 * n" and p: "p < n" and t: "t < 5"
  shows "length (put_byte n (i, b) xs) = n \<and>
    (bit (put_byte n (i, b) xs ! (n - 1 - p)) t \<longleftrightarrow>
      bit (xs ! (n - 1 - p)) t \<or> (8 * i \<le> 5 * p + t \<and> bit b (5 * p + t - 8 * i)))"
proof -
  define q where "q = i * 8 div 5"
  define r where "r = i * 8 mod 5"
  have qr: "8 * i = 5 * q + r" "r < 5" unfolding q_def r_def by (simp_all add: mult.commute [of i])
  have q: "q < n" using qr fits by linarith
  define w where "w = (push_bit r (ucast b) :: u16)"
  have w: "bit w k \<longleftrightarrow> r \<le> k \<and> bit b (k - r)" for k
    unfolding w_def by (auto simp: bit_simps dest: bit_u8) (use qr(2) in \<open>auto dest!: bit_u8\<close>)
  have chunk: "bit (ucast (drop_bit (5 * k) w AND 0x1f) :: u8) t \<longleftrightarrow> r \<le> 5 * k + t \<and> bit b (5 * k + t - r)" for k
    by (simp only: bit_low5 [OF t] bit_drop_bit_eq o_def w)
  have far: "\<not> bit b (5 * p + t - 8 * i)" if "p \<ge> q + 3"
  proof
    assume "bit b (5 * p + t - 8 * i)"
    then have "5 * p + t - 8 * i < 8" by (rule bit_u8)
    then show False using that qr by linarith
  qed
  have near: "\<not> 8 * i \<le> 5 * p + t" if "p < q" using that qr t by linarith
  have tgt: "r \<le> 5 * k + t \<and> bit b (5 * k + t - r) \<longleftrightarrow> 8 * i \<le> 5 * p + t \<and> bit b (5 * p + t - 8 * i)" if "p = q + k" for k
  proof -
    have "5 * p + t - 8 * i = 5 * k + t - r" "8 * i \<le> 5 * p + t \<longleftrightarrow> r \<le> 5 * k + t" using that qr by auto
    then show ?thesis by simp
  qed
  let ?c = "\<lambda>k. ucast (drop_bit (5 * k) w AND 0x1f) :: u8"
  define r1 where "r1 = or_at (n - q - 1) (?c 0) xs"
  define r2 where "r2 = (if n - q - 1 > 0 then or_at (n - q - 1 - 1) (?c 1) r1 else r1)"
  define r3 where "r3 = (if n - q - 1 > 1 then or_at (n - q - 1 - 2) (?c 2) r2 else r2)"
  have l: "length r1 = n" "length r2 = n" "length r3 = n" using len by (simp_all add: r1_def r2_def r3_def)
  have 1: "bit (r1 ! (n - 1 - p)) t \<longleftrightarrow> bit (xs ! (n - 1 - p)) t \<or> p = q \<and> bit (?c 0) t"
    using bit_or_at [of "n - q - 1" xs "n - 1 - p" "?c 0" t] len p q unfolding r1_def by auto
  have 2: "bit (r2 ! (n - 1 - p)) t \<longleftrightarrow> bit (r1 ! (n - 1 - p)) t \<or> p = q + 1 \<and> bit (?c 1) t"
    using bit_or_at [of "n - q - 1 - 1" r1 "n - 1 - p" "?c 1" t] l p q unfolding r2_def by auto
  have 3: "bit (r3 ! (n - 1 - p)) t \<longleftrightarrow> bit (r2 ! (n - 1 - p)) t \<or> p = q + 2 \<and> bit (?c 2) t"
    using bit_or_at [of "n - q - 1 - 2" r2 "n - 1 - p" "?c 2" t] l p q unfolding r3_def by auto
  have put: "put_byte n (i, b) xs = r3"
    unfolding put_byte_def r3_def r2_def r1_def by (simp add: Let_def q_def r_def w_def)
  have "p < q \<or> p = q \<or> p = q + 1 \<or> p = q + 2 \<or> p \<ge> q + 3" by linarith
  then show ?thesis
    unfolding put 3 2 1 chunk using l(3) near far tgt [of 0] tgt [of 1] tgt [of 2] by auto
qed

lemma less_32_iff: "(c :: u8) < 32 \<longleftrightarrow> (\<forall>k. bit c k \<longrightarrow> k < 5)"
proof
  assume "c < 32"
  then have "unat c < 2 ^ 5" by (simp add: word_less_nat_alt)
  then have "take_bit 5 c = c" by (simp only: word_unat_eq_iff unsigned_take_bit_eq take_bit_nat_eq_self)
  then show "\<forall>k. bit c k \<longrightarrow> k < 5" by (metis bit_take_bit_iff)
next
  assume "\<forall>k. bit c k \<longrightarrow> k < 5"
  then have "take_bit 5 c = c" by (intro bit_eqI) (auto simp: bit_take_bit_iff)
  then have "c = c mod 32" by (simp add: take_bit_eq_mod)
  also have "\<dots> < 32" by (rule word_mod_less_divisor) simp
  finally show "c < 32" .
qed

lemma put_u5_bit:
  assumes len: "length bs = n" and fits: "5 * u + 5 \<le> 8 * n + 4" and small: "c < 32" and p: "p < n" and t: "t < 8"
  shows "length (put_u5 (Suc (v + u)) n (v, c) bs) = n \<and>
    (bit (put_u5 (Suc (v + u)) n (v, c) bs ! p) t \<longleftrightarrow> bit (bs ! p) t \<or> (5 * u \<le> 8 * p + t \<and> bit c (8 * p + t - 5 * u)))"
proof -
  define q where "q = u * 5 div 8"
  define r where "r = u * 5 mod 8"
  have qr: "5 * u = 8 * q + r" "r < 8" unfolding q_def r_def by (simp_all add: mult.commute [of u])
  have q: "q < n" using qr fits by linarith
  have c5: "k < 5" if "bit c k" for k using that small less_32_iff [of c] by blast
  let ?c0 = "ucast (push_bit r (ucast c :: u16) AND 0xff) :: u8" and ?c1 = "ucast (drop_bit (8 - r) (ucast c :: u16) AND 0xff) :: u8"
  have c0: "bit ?c0 t \<longleftrightarrow> r \<le> t \<and> bit c (t - r)"
    unfolding bit_low8 [OF t] using t by (auto simp: bit_simps dest: bit_u8)
  have "8 - r + t = t + 8 - r" using qr(2) by simp
  then have c1: "bit ?c1 t \<longleftrightarrow> bit c (t + 8 - r)"
    unfolding bit_low8 [OF t] by (auto simp: bit_simps dest: bit_u8)
  define r1 where "r1 = or_at q ?c0 bs"
  define r2 where "r2 = (if q \<noteq> n - 1 then or_at (q + 1) ?c1 r1 else r1)"
  have l: "length r1 = n" "length r2 = n" using len by (simp_all add: r1_def r2_def)
  have 1: "bit (r1 ! p) t \<longleftrightarrow> bit (bs ! p) t \<or> p = q \<and> bit ?c0 t"
    using bit_or_at [of q bs p ?c0 t] len p q unfolding r1_def by auto
  have 2: "bit (r2 ! p) t \<longleftrightarrow> bit (r1 ! p) t \<or> p = q + 1 \<and> bit ?c1 t"
    using bit_or_at [of "q + 1" r1 p ?c1 t] l p q unfolding r2_def by auto
  have put: "put_u5 (Suc (v + u)) n (v, c) bs = r2"
    unfolding put_u5_def r2_def r1_def by (simp add: Let_def q_def r_def)
  have far: "\<not> bit c (8 * p + t - 5 * u)" if "p \<ge> q + 2" using that c5 [of "8 * p + t - 5 * u"] qr by auto
  have near: "\<not> 5 * u \<le> 8 * p + t" if "p < q" using that qr t by linarith
  have t0: "r \<le> t \<and> bit c (t - r) \<longleftrightarrow> 5 * u \<le> 8 * p + t \<and> bit c (8 * p + t - 5 * u)" if "p = q" using that qr by auto
  have t1: "bit c (t + 8 - r) \<longleftrightarrow> 5 * u \<le> 8 * p + t \<and> bit c (8 * p + t - 5 * u)" if "p = q + 1"
  proof -
    have "8 * p + t - 5 * u = t + 8 - r" "5 * u \<le> 8 * p + t" using that qr by auto
    then show ?thesis by simp
  qed
  have "p < q \<or> p = q \<or> p = q + 1 \<or> p \<ge> q + 2" by linarith
  then show ?thesis unfolding put 2 1 c0 c1 using l(2) near far t0 t1 by auto
qed


section \<open>Reading back the base32 form\<close>

definition all_u5 :: "u8 list \<Rightarrow> bool" where "all_u5 cs \<longleftrightarrow> (\<forall>c\<in>set cs. c < 32)"

lemma trim_zeros_bit: "feature_bit (trim_zeros bs) j = feature_bit bs j"
proof -
  obtain n where n: "bs = trim_zeros bs @ replicate n 0"
  proof -
    have "rev bs = takeWhile (\<lambda>b. b = 0) (rev bs) @ dropWhile (\<lambda>b. b = 0) (rev bs)" by simp
    moreover have "takeWhile (\<lambda>b. b = 0) (rev bs) = replicate (length (takeWhile (\<lambda>b. b = 0) (rev bs))) 0"
      by (rule replicate_eqI) (auto dest: set_takeWhileD)
    ultimately have "bs = trim_zeros bs @ rev (replicate (length (takeWhile (\<lambda>b. b = 0) (rev bs))) 0)"
      unfolding trim_zeros_def by (metis rev_append rev_rev_ident)
    then show thesis using that by simp
  qed
  have "feature_bit (xs @ replicate n 0) j = feature_bit xs j" for xs
    by (auto simp: feature_bit_def nth_append)
  then show ?thesis using n by metis
qed


lemma trim_zeros_pad: "trim_zeros (bs @ replicate n 0) = trim_zeros bs"
proof -
  have "dropWhile (\<lambda>b. b = 0) (replicate n 0 @ rev bs) = dropWhile (\<lambda>b. b = 0) (rev bs)" by (rule dropWhile_append2) simp
  then show ?thesis by (simp add: trim_zeros_def)
qed

lemma trim_zeros_shorter:
  assumes "\<And>j. feature_bit a j = feature_bit b j" "length a \<le> length b"
  shows "trim_zeros a = trim_zeros b"
proof -
  have "b = a @ replicate (length b - length a) 0"
  proof (rule nth_equalityI)
    fix k assume k: "k < length b"
    have "bit (b ! k) t = bit ((a @ replicate (length b - length a) 0) ! k) t" if t: "t < 8" for t
      using assms(1) [of "8 * k + t"] k t by (auto simp: feature_bit_def nth_append)
    then show "b ! k = (a @ replicate (length b - length a) 0) ! k" by (intro bit_eqI) (auto dest!: bit_u8)
  qed (use assms(2) in simp)
  then show ?thesis using trim_zeros_pad [of a "length b - length a"] by simp
qed

lemma trim_zeros_cong: "(\<And>j. feature_bit a j = feature_bit b j) \<Longrightarrow> trim_zeros a = trim_zeros b"
  using trim_zeros_shorter [of a b] trim_zeros_shorter [of b a] by (cases "length a \<le> length b") auto

lemma zip_upt_iff: "(i, x) \<in> set (zip [0..<length xs] xs) \<longleftrightarrow> i < length xs \<and> x = xs ! i"
  by (auto simp: in_set_zip intro: exI [of _ i])

text \<open>Before trimming, bit \<open>j\<close> of the written characters is bit \<open>j\<close> of the features.\<close>

lemma written_bits:
  fixes flags :: features
  defines "n \<equiv> (length flags * 8 + 4) div 5"
  defines "cs \<equiv> fold (put_byte n) (zip [0..<length flags] flags) (replicate n 0)"
  assumes j: "j div 5 < n"
  shows "length cs = n" "u5_bit cs j = feature_bit flags j"
proof -
  let ?p = "j div 5" and ?t = "j mod 5"
  let ?P = "\<lambda>(i, b). 8 * i \<le> 5 * ?p + ?t \<and> bit b (5 * ?p + ?t - 8 * i)"
  have step: "length (put_byte n x s) = n \<and> (bit (put_byte n x s ! (n - 1 - ?p)) ?t \<longleftrightarrow> bit (s ! (n - 1 - ?p)) ?t \<or> ?P x)"
    if x: "x \<in> set (zip [0..<length flags] flags)" and s: "length s = n" for x s
  proof -
    obtain i b where ib: "x = (i, b)" by (cases x)
    then have "i < length flags" using x by (simp add: zip_upt_iff)
    then have "8 * i + 8 \<le> 5 * n" unfolding n_def by linarith
    then show ?thesis using put_byte_bit [OF s _ j, of i ?t b] ib by simp
  qed
  have r: "length cs = n \<and> (bit (cs ! (n - 1 - ?p)) ?t \<longleftrightarrow> bit (replicate n 0 ! (n - 1 - ?p) :: u8) ?t \<or> (\<exists>x\<in>set (zip [0..<length flags] flags). ?P x))"
    unfolding cs_def by (rule fold_collects [of _ "\<lambda>s. length s = n"]) (use step in auto)
  then show "length cs = n" by simp
  have "(\<exists>x\<in>set (zip [0..<length flags] flags). ?P x) \<longleftrightarrow> feature_bit flags j"
  proof
    assume "\<exists>x\<in>set (zip [0..<length flags] flags). ?P x"
    then obtain i where i: "i < length flags" "8 * i \<le> j" "bit (flags ! i) (j - 8 * i)" by (auto simp: zip_upt_iff)
    then have "j - 8 * i < 8" by (auto dest: bit_u8)
    then have "j div 8 = i" "j mod 8 = j - 8 * i" using i(2) by (auto simp: div_nat_eqI modulo_nat_def)
    then show "feature_bit flags j" using i by (simp add: feature_bit_def)
  next
    assume "feature_bit flags j"
    then have "(j div 8, flags ! (j div 8)) \<in> set (zip [0..<length flags] flags)" "?P (j div 8, flags ! (j div 8))"
      by (auto simp: feature_bit_def zip_upt_iff minus_mult_div_eq_mod)
    then show "\<exists>x\<in>set (zip [0..<length flags] flags). ?P x" by blast
  qed
  moreover have "\<not> bit (replicate n 0 ! (n - 1 - ?p) :: u8) ?t" using j by simp
  ultimately show "u5_bit cs j = feature_bit flags j" using r j by (simp add: u5_bit_def)
qed


lemma put_byte_u5:
  assumes "all_u5 xs"
  shows "all_u5 (put_byte n x xs)"
proof -
  have o: "all_u5 (or_at i m ys)" if "all_u5 ys" "m < 32" for i m ys
  proof (cases "i < length ys")
    case True
    then have "ys ! i < 32" using that(1) by (simp add: all_u5_def)
    then have "ys ! i OR m < 32" using that(2) unfolding less_32_iff by (auto simp: bit_or_iff)
    then show ?thesis using that(1) by (auto simp: all_u5_def or_at_def dest!: subsetD [OF set_update_subset_insert])
  qed (use that(1) in \<open>simp add: or_at_def list_update_beyond\<close>)
  have l: "(ucast ((w :: u16) AND 0x1f) :: u8) < 32" for w
  proof -
    have m: "(0x1f :: u16) = mask 5" by (simp add: mask_eq_exp_minus_1)
    show ?thesis unfolding less_32_iff m by (auto simp: bit_simps)
  qed
  show ?thesis using assms by (cases x) (auto simp: put_byte_def Let_def intro!: o l)
qed

lemma written_u5: "all_u5 (fold (put_byte n) xs (replicate k 0))"
proof -
  have "all_u5 (fold (put_byte n) xs ys)" if "all_u5 ys" for ys
    using that by (induction xs arbitrary: ys) (simp_all add: put_byte_u5)
  from this [of "replicate k 0"] show ?thesis by (simp add: all_u5_def)
qed

lemma leading_zeros_bit: "u5_bit (dropWhile (\<lambda>c. c = 0) cs) j = u5_bit cs j"
proof (induction cs)
  case (Cons c cs)
  have "u5_bit (0 # cs) j = u5_bit cs j"
    by (cases "j div 5 < length cs") (auto simp: u5_bit_def nth_Cons' Suc_diff_Suc)
  then show ?case using Cons by simp
qed simp

text \<open>What is read from characters of five bits has their bits.\<close>

lemma read_bits:
  fixes cs :: "u8 list"
  defines "n \<equiv> (length cs * 5 + 7) div 8"
  defines "bs \<equiv> fold (put_u5 (length cs) n) (zip [0..<length cs] cs) (replicate n 0)"
  assumes u5: "all_u5 cs" and j: "j div 8 < n"
  shows "length bs = n" "feature_bit bs j = u5_bit cs j"
proof -
  let ?p = "j div 8" and ?t = "j mod 8" and ?z = "zip [0..<length cs] cs"
  let ?P = "\<lambda>(v, c). 5 * (length cs - v - 1) \<le> j \<and> bit c (j - 5 * (length cs - v - 1))"
  have step: "length (put_u5 (length cs) n x s) = n \<and> (bit (put_u5 (length cs) n x s ! ?p) ?t \<longleftrightarrow> bit (s ! ?p) ?t \<or> ?P x)"
    if x: "x \<in> set ?z" and s: "length s = n" for x s
  proof -
    obtain v c where vc: "x = (v, c)" by (cases x)
    then have v: "v < length cs" "c < 32" using x u5 by (auto simp: zip_upt_iff all_u5_def)
    define u where "u = length cs - v - 1"
    have "5 * u + 5 \<le> 8 * n + 4" using v(1) unfolding n_def u_def by linarith
    moreover have "length cs = Suc (v + u)" using v(1) by (simp add: u_def)
    ultimately show ?thesis using put_u5_bit [OF s _ v(2) j, of u ?t v] vc by simp
  qed
  have r: "length bs = n \<and> (bit (bs ! ?p) ?t \<longleftrightarrow> bit (replicate n 0 ! ?p :: u8) ?t \<or> (\<exists>x\<in>set ?z. ?P x))"
    unfolding bs_def by (rule fold_collects [of _ "\<lambda>s. length s = n"]) (use step in auto)
  then show "length bs = n" by simp
  have "(\<exists>x\<in>set ?z. ?P x) \<longleftrightarrow> u5_bit cs j"
  proof
    assume "\<exists>x\<in>set ?z. ?P x"
    then obtain v where v: "v < length cs" "5 * (length cs - v - 1) \<le> j" "bit (cs ! v) (j - 5 * (length cs - v - 1))" by (auto simp: zip_upt_iff)
    then have "j - 5 * (length cs - v - 1) < 5" using u5 less_32_iff [of "cs ! v"] by (simp add: all_u5_def)
    then have "j div 5 = length cs - v - 1" "j mod 5 = j - 5 * (length cs - v - 1)" using v(2) by (auto simp: div_nat_eqI modulo_nat_def)
    then show "u5_bit cs j" using v by (simp add: u5_bit_def)
  next
    assume "u5_bit cs j"
    then have "(length cs - 1 - j div 5, cs ! (length cs - 1 - j div 5)) \<in> set ?z" "?P (length cs - 1 - j div 5, cs ! (length cs - 1 - j div 5))"
      by (auto simp: u5_bit_def zip_upt_iff minus_mult_div_eq_mod)
    then show "\<exists>x\<in>set ?z. ?P x" by blast
  qed
  moreover have "\<not> bit (replicate n 0 ! ?p :: u8) ?t" using j by simp
  ultimately show "feature_bit bs j = u5_bit cs j" using r j by (simp add: feature_bit_def)
qed

lemma put_lengths [simp]: "length (put_byte n x xs) = length xs" "length (put_u5 k n x xs) = length xs"
  by (cases x; simp add: put_byte_def put_u5_def Let_def)+

lemma fold_lengths [simp]: "length (fold (put_byte n) zs xs) = length xs" "length (fold (put_u5 k n) zs xs) = length xs"
  by (induction zs arbitrary: xs) simp_all

lemma written_bit: "u5_bit (write_base32 flags) j = feature_bit flags j"
proof (cases "j div 5 < (length flags * 8 + 4) div 5")
  case False
  then have "\<not> j div 8 < length flags" by linarith
  then show ?thesis using False unfolding write_base32_def Let_def leading_zeros_bit by (simp add: feature_bit_def u5_bit_def)
qed (simp add: write_base32_def Let_def leading_zeros_bit written_bits(2))

lemma read_bit:
  assumes "all_u5 cs"
  shows "feature_bit (from_base32 cs) j = u5_bit cs j"
proof (cases "j div 8 < (length cs * 5 + 7) div 8")
  case False
  then have "\<not> j div 5 < length cs" by linarith
  then show ?thesis using False unfolding from_base32_def Let_def trim_zeros_bit by (simp add: feature_bit_def u5_bit_def)
qed (simp add: from_base32_def Let_def trim_zeros_bit read_bits(2) [OF assms])

text \<open>Writing features in base32 and reading the characters back gives the same features without trailing zero bytes.\<close>

theorem features_base32_round_trip: "from_base32 (write_base32 flags) = trim_zeros flags"
proof -
  have "all_u5 (write_base32 flags)"
    using written_u5 unfolding write_base32_def Let_def all_u5_def by (meson set_dropWhileD)
  then have "trim_zeros (from_base32 (write_base32 flags)) = trim_zeros flags"
    by (intro trim_zeros_cong) (simp only: read_bit written_bit)
  moreover have "trim_zeros (from_base32 cs) = from_base32 cs" for cs
    unfolding from_base32_def Let_def trim_zeros_def by simp
  ultimately show ?thesis by simp
qed


section \<open>Supported features\<close>

lemma byte_nonzero: "(w :: u8) \<noteq> 0 \<longleftrightarrow> bit w 0 \<or> bit w 1 \<or> bit w 2 \<or> bit w 3 \<or> bit w 4 \<or> bit w 5 \<or> bit w 6 \<or> bit w 7"
proof
  assume "w \<noteq> 0"
  then obtain n where "bit w n" using bit_eqI [of w 0] by auto
  moreover from this have "n < 8" by (rule bit_u8)
  then have "n = 0 \<or> n = 1 \<or> n = 2 \<or> n = 3 \<or> n = 4 \<or> n = 5 \<or> n = 6 \<or> n = 7" by linarith
  ultimately show "bit w 0 \<or> bit w 1 \<or> bit w 2 \<or> bit w 3 \<or> bit w 4 \<or> bit w 5 \<or> bit w 6 \<or> bit w 7" by blast
qed auto

lemma known_masks:
  "KNOWN_FEATURE_MASK InitContext = [0xff, 0xf3, 0x0f, 0x0c, 0, 0xf0, 0x0c]"
  "KNOWN_FEATURE_MASK ChannelTypeContext = [0, 0x30, 0, 0, 0, 0xc0, 0x0c]"
  by (simp_all add: KNOWN_FEATURE_MASK_def feature_bits or_all_def REQUIRED_MASK_def OPTIONAL_MASK_def BYTE_OFFSET_def)

lemma feature_masks:
  "REQUIRED_MASK StaticRemoteKey = 0x10" "OPTIONAL_MASK StaticRemoteKey = 0x20" "BYTE_OFFSET StaticRemoteKey = 1"
  "REQUIRED_MASK SCIDPrivacy = 0x40" "OPTIONAL_MASK SCIDPrivacy = 0x80" "BYTE_OFFSET SCIDPrivacy = 5"
  "REQUIRED_MASK ZeroConf = 0x04" "OPTIONAL_MASK ZeroConf = 0x08" "BYTE_OFFSET ZeroConf = 6"
  by (simp_all add: feature_bits REQUIRED_MASK_def OPTIONAL_MASK_def BYTE_OFFSET_def)

lemma required_form_kept:
  "required_form (b AND 0x30) AND 0x10 \<noteq> 0 \<longleftrightarrow> b AND 0x30 \<noteq> 0" "required_form (b AND 0xc0) AND 0x40 \<noteq> 0 \<longleftrightarrow> b AND 0xc0 \<noteq> 0"
  "required_form (b AND 0x0c) AND 0x04 \<noteq> 0 \<longleftrightarrow> b AND 0x0c \<noteq> 0" "\<not> required_form b AND 0xaa \<noteq> 0"
  unfolding byte_nonzero by (auto simp: required_form_def bit_simps eval_nat_numeral)

lemma required_form_known:
  "\<not> required_form (b AND 0x30) AND (0x55 AND NOT 0x30) \<noteq> 0" "\<not> required_form (b AND 0xc0) AND (0x55 AND NOT 0xc0) \<noteq> 0"
  "\<not> required_form (b AND 0x0c) AND (0x55 AND NOT 0x0c) \<noteq> 0" "\<not> required_form 0 \<noteq> 0"
  unfolding byte_nonzero by (auto simp: required_form_def bit_simps eval_nat_numeral)


lemma required_form_zero: "required_form 0 = 0"
  by (simp add: required_form_def)

lemma to_context_nth:
  "i < length (KNOWN_FEATURE_MASK a) \<Longrightarrow> i < length (KNOWN_FEATURE_MASK b) \<Longrightarrow> i < length flags \<Longrightarrow>
   to_context a b flags ! i = flags ! i AND KNOWN_FEATURE_MASK a ! i AND KNOWN_FEATURE_MASK b ! i"
  "length (to_context a b flags) = min (min (length (KNOWN_FEATURE_MASK a)) (length (KNOWN_FEATURE_MASK b))) (length flags)"
  by (simp_all add: to_context_def Let_def)

lemma mask_lengths [simp]: "length (KNOWN_FEATURE_MASK InitContext) = 7" "length (KNOWN_FEATURE_MASK ChannelTypeContext) = 7"
  by (simp_all add: known_masks)

lemma implied_type_nth:
  "length (from_counterparty_init flags) = min 7 (length flags)"
  "i < length (from_counterparty_init flags) \<Longrightarrow> from_counterparty_init flags ! i = required_form (flags ! i AND KNOWN_FEATURE_MASK ChannelTypeContext ! i)"
proof -
  show l: "length (from_counterparty_init flags) = min 7 (length flags)"
    by (simp add: from_counterparty_init_def to_context_nth)
  have sub: "KNOWN_FEATURE_MASK InitContext ! k AND KNOWN_FEATURE_MASK ChannelTypeContext ! k = KNOWN_FEATURE_MASK ChannelTypeContext ! k" if "k < 7" for k
  proof -
    have "k = 0 \<or> k = 1 \<or> k = 2 \<or> k = 3 \<or> k = 4 \<or> k = 5 \<or> k = 6" using that by linarith
    then show ?thesis by (auto simp: known_masks)
  qed
  show "from_counterparty_init flags ! i = required_form (flags ! i AND KNOWN_FEATURE_MASK ChannelTypeContext ! i)"
    if "i < length (from_counterparty_init flags)"
  proof -
    have i: "i < 7" "i < length flags" using that l by simp_all
    then have "from_counterparty_init flags ! i = required_form (flags ! i AND KNOWN_FEATURE_MASK InitContext ! i AND KNOWN_FEATURE_MASK ChannelTypeContext ! i)"
      by (simp add: from_counterparty_init_def to_context_nth)
    then show ?thesis using sub [OF i(1)] by (simp add: and.assoc)
  qed
qed

text \<open>C36. The channel type implied by a peer's \<open>init\<close> message is always well formed: it has no optional bit and requires
  nothing unknown, as \<open>new_from_req\<close> demands of a type sent explicitly, and of the three features that make up a
  channel type it requires exactly those the peer supports.\<close>

theorem implied_channel_type:
  "\<not> supports_any_optional_bits (from_counterparty_init flags) \<and> \<not> requires_unknown_bits ChannelTypeContext (from_counterparty_init flags) \<and>
   requires_feature StaticRemoteKey (from_counterparty_init flags) = supports_feature StaticRemoteKey flags \<and>
   requires_feature SCIDPrivacy (from_counterparty_init flags) = supports_feature SCIDPrivacy flags \<and>
   requires_feature ZeroConf (from_counterparty_init flags) = supports_feature ZeroConf flags"
proof -
  let ?t = "from_counterparty_init flags"
  have o: "\<not> ?t ! i AND 0xaa \<noteq> 0" if "i < length ?t" for i
    using implied_type_nth(2) [OF that] required_form_kept(4) by simp
  have u: "\<not> ?t ! i AND (0x55 AND unknown_features ChannelTypeContext i) \<noteq> 0" if i: "i < length ?t" for i
  proof -
    have "i < 7" using i implied_type_nth(1) [of flags] by simp
    then have "i = 0 \<or> i = 1 \<or> i = 2 \<or> i = 3 \<or> i = 4 \<or> i = 5 \<or> i = 6" by linarith
    then show ?thesis using implied_type_nth(2) [OF i] required_form_known
      by (elim disjE) (simp_all only: known_masks unknown_features_def, simp_all)
  qed
  have n: "i < length ?t \<longleftrightarrow> i < length flags" if "i < 7" for i using that implied_type_nth(1) [of flags] by simp
  have "requires_feature StaticRemoteKey ?t = supports_feature StaticRemoteKey flags"
    "requires_feature SCIDPrivacy ?t = supports_feature SCIDPrivacy flags" "requires_feature ZeroConf ?t = supports_feature ZeroConf flags"
    unfolding requires_feature_def supports_feature_def feature_masks
    using n [of 1] n [of 5] n [of 6] implied_type_nth(2) [of 1 flags] implied_type_nth(2) [of 5 flags] implied_type_nth(2) [of 6 flags] required_form_kept
    by (auto simp: known_masks required_form_zero)
  moreover have "\<not> supports_any_optional_bits ?t" using o by (auto simp: supports_any_optional_bits_def in_set_conv_nth)
  moreover have "\<not> requires_unknown_bits ChannelTypeContext ?t" using u by (auto simp: requires_unknown_bits_def)
  ultimately show ?thesis by blast
qed

end
