(* ===== verification/Shutdown_Script.thy ===== *)
theory Shutdown_Script
  imports Features
begin

text \<open>
  Scripts for closing a channel, \<open>lightning/src/ln/script.rs\<close>. The recognisers of script forms and the P2WPKH
  constructor belong to the bitcoin library and are the fields of \<open>script_lib\<close>.
\<close>

record script_lib =
  is_p2pkh :: "bytes \<Rightarrow> bool"
  is_p2sh :: "bytes \<Rightarrow> bool"
  is_v0_p2wpkh :: "bytes \<Rightarrow> bool"
  is_v0_p2wsh :: "bytes \<Rightarrow> bool"
  is_witness_program :: "bytes \<Rightarrow> bool"
  p2wpkh_of_key :: "bytes \<Rightarrow> bytes"
  show_script :: "bytes \<Rightarrow> string"

datatype ShutdownScript = Legacy bytes | Bolt2 bytes

definition is_bolt2_compliant :: "script_lib \<Rightarrow> features \<Rightarrow> bytes \<Rightarrow> (unit, bool) outcome" where
  "is_bolt2_compliant sl feats script =
     (if is_p2pkh sl script \<or> is_p2sh sl script \<or> is_v0_p2wpkh sl script \<or> is_v0_p2wsh sl script then Ok True
      else if supports_feature ShutdownAnySegwit feats
      then (if is_witness_program sl script then (case script of [] \<Rightarrow> Panic | b # _ \<Rightarrow> Ok (b \<noteq> 0)) else Ok False)
      else Ok False)"

fun is_compatible :: "script_lib \<Rightarrow> features \<Rightarrow> ShutdownScript \<Rightarrow> (unit, bool) outcome" where
  "is_compatible sl feats (Legacy _) = Ok True"
| "is_compatible sl feats (Bolt2 script) = is_bolt2_compliant sl feats script"

definition try_from :: "script_lib \<Rightarrow> features \<Rightarrow> bytes \<Rightarrow> (bytes, ShutdownScript) outcome" where
  "try_from sl feats script =
     (case is_bolt2_compliant sl feats script of
        Panic \<Rightarrow> Panic
      | Ok True \<Rightarrow> if is_witness_program sl script then Ok (Bolt2 script) else Err script
      | _ \<Rightarrow> Err script)"

fun into_inner :: "script_lib \<Rightarrow> ShutdownScript \<Rightarrow> bytes" where
  "into_inner sl (Legacy key) = p2wpkh_of_key sl key"
| "into_inner sl (Bolt2 script) = script"

text \<open>A script made from raw bytes is a witness program and acceptable to a peer with the same features.\<close>

lemma try_from_compatible: "try_from sl feats script = Ok s \<Longrightarrow> is_compatible sl feats s = Ok True \<and> into_inner sl s = script \<and> is_witness_program sl script"
  by (auto simp: try_from_def split: outcome.splits bool.splits if_splits)

end
