(* ===== verification/Channel.thy ===== *)
theory Channel
  imports Outbound_Payments Onion_Packet Commitment_Secrets Bitcoind_Client Shutdown_Script Network_Graph
begin

text \<open>
  One payment channel, \<open>lightning/src/ln/channel.rs\<close>: the states of its HTLCs, the commitment transactions built from
  them, the balances and fees the limits are checked against. Amounts are \<open>u64\<close> words and wrap as in a release
  build; \<open>debug_assert!\<close> is not part of one and is left out. Key derivation, scripts and signatures are the
  parameters in \<open>chan_lib\<close>. The source of an HTLC (\<open>'src\<close>) and the forwarding data of an incoming one (\<open>'fwd\<close>) are only
  stored and handed back.
\<close>

section \<open>Messages\<close>

record UpdateAddHTLC =
  ua_channel_id :: bytes
  ua_htlc_id :: u64
  ua_amount_msat :: u64
  ua_payment_hash :: bytes
  ua_cltv_expiry :: u32
  ua_onion_routing_packet :: OnionPacket

record UpdateFulfillHTLC =
  uf_channel_id :: bytes
  uf_htlc_id :: u64
  uf_payment_preimage :: bytes

record UpdateFailHTLC =
  ul_channel_id :: bytes
  ul_htlc_id :: u64
  ul_reason :: bytes

record UpdateFailMalformedHTLC =
  um_channel_id :: bytes
  um_htlc_id :: u64
  um_sha256_of_onion :: bytes
  um_failure_code :: u16

record CommitmentSigned =
  cs_channel_id :: bytes
  cs_signature :: bytes
  cs_htlc_signatures :: "bytes list"

record RevokeAndACK =
  ra_channel_id :: bytes
  ra_per_commitment_secret :: bytes
  ra_next_per_commitment_point :: bytes

record UpdateFee =
  ue_channel_id :: bytes
  ue_feerate_per_kw :: u32

record CommitmentUpdate =
  cu_update_add_htlcs :: "UpdateAddHTLC list"
  cu_update_fulfill_htlcs :: "UpdateFulfillHTLC list"
  cu_update_fail_htlcs :: "UpdateFailHTLC list"
  cu_update_fail_malformed_htlcs :: "UpdateFailMalformedHTLC list"
  cu_update_fee :: "UpdateFee option"
  cu_commitment_signed :: CommitmentSigned

record ChannelReady =
  cr_channel_id :: bytes
  cr_next_per_commitment_point :: bytes
  cr_short_channel_id_alias :: "u64 option"

record ClosingSignedFeeRange =
  fr_min_fee_satoshis :: u64
  fr_max_fee_satoshis :: u64

record ClosingSigned =
  cl_channel_id :: bytes
  cl_fee_satoshis :: u64
  cl_signature :: bytes
  cl_fee_range :: "ClosingSignedFeeRange option"

section \<open>Configuration\<close>

record ChannelHandshakeLimits =
  min_funding_satoshis :: u64
  max_funding_satoshis :: u64
  max_htlc_minimum_msat :: u64
  min_max_htlc_value_in_flight_msat :: u64
  max_channel_reserve_satoshis :: u64
  min_max_accepted_htlcs :: u16
  max_minimum_depth :: u32
  trust_own_funding_0conf :: bool
  force_announced_channel_preference :: bool
  their_to_self_delay :: u16

record ChannelConfig =
  forwarding_fee_proportional_millionths :: u32
  forwarding_fee_base_msat :: u32
  cltv_expiry_delta :: u16
  max_dust_htlc_exposure_msat :: u64
  force_close_avoidance_max_fee_satoshis :: u64

record ChannelPublicKeys =
  funding_pubkey :: bytes
  revocation_basepoint :: bytes
  payment_point :: bytes
  delayed_payment_basepoint :: bytes
  htlc_basepoint :: bytes

section \<open>State of a channel\<close>

datatype FeeUpdateState = FeeRemoteAnnounced | FeeAwaitingRemoteRevokeToAnnounce | FeeOutbound

datatype InboundHTLCRemovalReason = FailRelay bytes | FailMalformed bytes u16 | Fulfill bytes

datatype HTLCFailureMsg = Relay UpdateFailHTLC | Malformed UpdateFailMalformedHTLC

datatype 'fwd PendingHTLCStatus = Forward 'fwd | FailHTLCStatus HTLCFailureMsg

datatype 'fwd InboundHTLCState =
    RemoteAnnounced "'fwd PendingHTLCStatus"
  | AwaitingRemoteRevokeToAnnounce "'fwd PendingHTLCStatus"
  | AwaitingAnnouncedRemoteRevoke "'fwd PendingHTLCStatus"
  | InCommitted
  | LocalRemoved InboundHTLCRemovalReason

record 'fwd InboundHTLCOutput =
  ih_htlc_id :: u64
  ih_amount_msat :: u64
  ih_cltv_expiry :: u32
  ih_payment_hash :: bytes
  ih_state :: "'fwd InboundHTLCState"

datatype OutboundHTLCOutcome = Success "bytes option" | Failure HTLCFailReason

datatype OutboundHTLCState =
    LocalAnnounced OnionPacket
  | OutCommitted
  | RemoteRemoved OutboundHTLCOutcome
  | AwaitingRemoteRevokeToRemove OutboundHTLCOutcome
  | AwaitingRemovedRemoteRevoke OutboundHTLCOutcome

record 'src OutboundHTLCOutput =
  oh_htlc_id :: u64
  oh_amount_msat :: u64
  oh_cltv_expiry :: u32
  oh_payment_hash :: bytes
  oh_state :: OutboundHTLCState
  oh_source :: 'src

datatype 'src HTLCUpdateAwaitingACK =
    AddHTLC u64 u32 bytes 'src OnionPacket
  | ClaimHTLC bytes u64
  | FailHTLC u64 bytes

definition OurInitSent :: u32 where "OurInitSent = 1"
definition TheirInitSent :: u32 where "TheirInitSent = 2"
definition FundingCreatedState :: u32 where "FundingCreatedState = 4"
definition FundingSent :: u32 where "FundingSent = 8"
definition TheirChannelReady :: u32 where "TheirChannelReady = 16"
definition OurChannelReady :: u32 where "OurChannelReady = 32"
definition ChannelFunded :: u32 where "ChannelFunded = 64"
definition PeerDisconnected :: u32 where "PeerDisconnected = 128"
definition MonitorUpdateFailed :: u32 where "MonitorUpdateFailed = 256"
definition AwaitingRemoteRevoke :: u32 where "AwaitingRemoteRevoke = 512"
definition RemoteShutdownSent :: u32 where "RemoteShutdownSent = 1024"
definition LocalShutdownSent :: u32 where "LocalShutdownSent = 2048"
definition ShutdownComplete :: u32 where "ShutdownComplete = 4096"
definition BOTH_SIDES_SHUTDOWN_MASK :: u32 where "BOTH_SIDES_SHUTDOWN_MASK = LocalShutdownSent OR RemoteShutdownSent"
definition MULTI_STATE_FLAGS :: u32 where "MULTI_STATE_FLAGS = BOTH_SIDES_SHUTDOWN_MASK OR PeerDisconnected OR MonitorUpdateFailed"
definition INITIAL_COMMITMENT_NUMBER :: u64 where "INITIAL_COMMITMENT_NUMBER = push_bit 48 1 - 1"

datatype RAACommitmentOrder = CommitmentFirst | RevokeAndACKFirst

datatype AnnouncementSigsState = NotSent | MessageSent | SigsCommitted | PeerReceived

record ('fwd, 'src) channel =
  config_options :: ChannelConfig
  announced_channel :: bool
  prev_config :: "(ChannelConfig \<times> nat) option"
  inbound_handshake_limits_override :: "ChannelHandshakeLimits option"
  channel_id :: bytes
  channel_state :: u32
  announcement_sigs_state :: AnnouncementSigsState
  channel_value_satoshis :: u64
  latest_monitor_update_id :: u64
  shutdown_scriptpubkey :: "ShutdownScript option"
  cur_holder_commitment_transaction_number :: u64
  cur_counterparty_commitment_transaction_number :: u64
  value_to_self_msat :: u64
  pending_inbound_htlcs :: "'fwd InboundHTLCOutput list"
  pending_outbound_htlcs :: "'src OutboundHTLCOutput list"
  holding_cell_htlc_updates :: "'src HTLCUpdateAwaitingACK list"
  resend_order :: RAACommitmentOrder
  monitor_pending_channel_ready :: bool
  monitor_pending_revoke_and_ack :: bool
  monitor_pending_commitment_signed :: bool
  monitor_pending_forwards :: "('fwd \<times> u64) list"
  monitor_pending_failures :: "('src \<times> bytes \<times> HTLCFailReason) list"
  monitor_pending_finalized_fulfills :: "'src list"
  pending_update_fee :: "(u32 \<times> FeeUpdateState) option"
  holding_cell_update_fee :: "u32 option"
  next_holder_htlc_id :: u64
  next_counterparty_htlc_id :: u64
  feerate_per_kw :: u32
  update_time_counter :: u32
  last_sent_closing_fee :: "(u64 \<times> bytes) option"
  target_closing_feerate_sats_per_kw :: "u32 option"
  pending_counterparty_closing_signed :: "ClosingSigned option"
  closing_fee_limits :: "(u64 \<times> u64) option"
  inbound_awaiting_accept :: bool
  funding_tx_confirmed_in :: "bytes option"
  funding_tx_confirmation_height :: u32
  short_channel_id :: "u64 option"
  channel_creation_height :: u32
  counterparty_dust_limit_satoshis :: u64
  holder_dust_limit_satoshis :: u64
  counterparty_max_htlc_value_in_flight_msat :: u64
  holder_max_htlc_value_in_flight_msat :: u64
  counterparty_selected_channel_reserve_satoshis :: "u64 option"
  holder_selected_channel_reserve_satoshis :: u64
  counterparty_htlc_minimum_msat :: u64
  holder_htlc_minimum_msat :: u64
  counterparty_max_accepted_htlcs :: u16
  minimum_depth :: "u32 option"
  holder_pubkeys :: ChannelPublicKeys
  holder_selected_contest_delay :: u16
  counterparty_parameters :: "(ChannelPublicKeys \<times> u16) option"
  funding_outpoint :: "(bytes \<times> u16) option"
  funding_transaction :: "bytes option"
  is_outbound :: bool
  opt_anchors :: bool
  counterparty_cur_commitment_point :: "bytes option"
  counterparty_prev_commitment_point :: "bytes option"
  counterparty_node_id :: bytes
  counterparty_shutdown_scriptpubkey :: "bytes option"
  commitment_secrets :: secrets
  closing_signed_in_flight :: bool
  announcement_sigs :: "(bytes \<times> bytes) option"
  workaround_lnd_bug_4006 :: "ChannelReady option"
  channel_type :: features
  latest_inbound_scid_alias :: "u64 option"
  outbound_scid_alias :: u64

definition get_max_dust_htlc_exposure_msat :: "('fwd, 'src) channel \<Rightarrow> u64" where
  "get_max_dust_htlc_exposure_msat c = max_dust_htlc_exposure_msat (config_options c)"

datatype ChannelError = Ignore string | Warn string | Close string

section \<open>Commitment transactions\<close>

record HTLCOutputInCommitment =
  hc_offered :: bool
  hc_amount_msat :: u64
  hc_cltv_expiry :: u32
  hc_payment_hash :: bytes
  hc_transaction_output_index :: "u32 option"

record 'k commitment_tx =
  ct_number :: u64
  ct_value_a :: u64
  ct_value_b :: u64
  ct_opt_anchors :: bool
  ct_local :: bool
  ct_keys :: 'k
  ct_feerate_per_kw :: u32
  ct_htlcs :: "HTLCOutputInCommitment list"

text \<open>What is taken from key derivation, script building and the signer. \<open>output_indices\<close> are the positions that
  \<open>CommitmentTransaction::new_with_auxiliary_htlc_data\<close> gives to the HTLC outputs of a transaction.\<close>

record 'k chan_lib =
  holder_tx_keys :: "u64 \<Rightarrow> 'k option"
  remote_tx_keys :: "bytes \<Rightarrow> 'k option"
  output_indices :: "'k commitment_tx \<Rightarrow> u32 list"
  tx_id :: "'k commitment_tx \<Rightarrow> bytes"
  verify_commitment_sig :: "'k commitment_tx \<Rightarrow> bytes \<Rightarrow> bool"
  verify_htlc_sig :: "'k commitment_tx \<Rightarrow> HTLCOutputInCommitment \<Rightarrow> bytes \<Rightarrow> bool"
  sign_counterparty_commitment :: "'k commitment_tx \<Rightarrow> bytes list \<Rightarrow> (bytes \<times> bytes list) option"
  validate_holder_commitment :: "'k commitment_tx \<Rightarrow> bytes \<Rightarrow> bytes list \<Rightarrow> bytes list \<Rightarrow> bool"
  get_per_commitment_point :: "u64 \<Rightarrow> bytes"
  release_commitment_secret :: "u64 \<Rightarrow> bytes"
  secret_to_point :: "bytes \<Rightarrow> bytes option"
  validate_counterparty_revocation :: "u64 \<Rightarrow> bytes \<Rightarrow> bool"
  chan_sha256 :: "bytes \<Rightarrow> bytes"

record ('k, 'src) CommitmentStats =
  st_tx :: "'k commitment_tx"
  st_feerate_per_kw :: u32
  st_total_fee_sat :: u64
  st_num_nondust_htlcs :: nat
  st_htlcs_included :: "(HTLCOutputInCommitment \<times> 'src option) list"
  st_local_balance_msat :: u64
  st_remote_balance_msat :: u64
  st_preimages :: "bytes list"

definition commitment_tx_base_weight :: "bool \<Rightarrow> u64" where
  "commitment_tx_base_weight anchors = (if anchors then 1124 else 724)"

definition COMMITMENT_TX_WEIGHT_PER_HTLC :: u64 where "COMMITMENT_TX_WEIGHT_PER_HTLC = 172"
definition ANCHOR_OUTPUT_VALUE_SATOSHI :: u64 where "ANCHOR_OUTPUT_VALUE_SATOSHI = 330"

definition htlc_success_tx_weight :: "bool \<Rightarrow> u64" where
  "htlc_success_tx_weight anchors = (if anchors then 706 else 703)"

definition htlc_timeout_tx_weight :: "bool \<Rightarrow> u64" where
  "htlc_timeout_tx_weight anchors = (if anchors then 666 else 663)"

definition commit_tx_fee_msat :: "u32 \<Rightarrow> nat \<Rightarrow> bool \<Rightarrow> u64" where
  "commit_tx_fee_msat feerate num_htlcs anchors =
     (commitment_tx_base_weight anchors + word_of_nat num_htlcs * COMMITMENT_TX_WEIGHT_PER_HTLC) * ucast feerate div 1000 * 1000"

definition commit_tx_fee_sat :: "u32 \<Rightarrow> nat \<Rightarrow> bool \<Rightarrow> u64" where
  "commit_tx_fee_sat feerate num_htlcs anchors =
     ucast feerate * (commitment_tx_base_weight anchors + word_of_nat num_htlcs * COMMITMENT_TX_WEIGHT_PER_HTLC) div 1000"

fun inbound_included :: "bool \<Rightarrow> 'fwd InboundHTLCState \<Rightarrow> bool" where
  "inbound_included generated_by_local (RemoteAnnounced _) = (\<not> generated_by_local)"
| "inbound_included generated_by_local (AwaitingRemoteRevokeToAnnounce _) = (\<not> generated_by_local)"
| "inbound_included generated_by_local (AwaitingAnnouncedRemoteRevoke _) = True"
| "inbound_included generated_by_local InCommitted = True"
| "inbound_included generated_by_local (LocalRemoved _) = (\<not> generated_by_local)"

fun outbound_included :: "bool \<Rightarrow> OutboundHTLCState \<Rightarrow> bool" where
  "outbound_included generated_by_local (LocalAnnounced _) = generated_by_local"
| "outbound_included generated_by_local OutCommitted = True"
| "outbound_included generated_by_local (RemoteRemoved _) = generated_by_local"
| "outbound_included generated_by_local (AwaitingRemoteRevokeToRemove _) = generated_by_local"
| "outbound_included generated_by_local (AwaitingRemovedRemoteRevoke _) = False"

text \<open>The correction of the own balance for an HTLC that is not included: inbound ones that were claimed, outbound
  ones the peer claimed.\<close>

fun inbound_offset :: "bool \<Rightarrow> 'fwd InboundHTLCState \<Rightarrow> bool" where
  "inbound_offset generated_by_local (LocalRemoved (Fulfill _)) = generated_by_local"
| "inbound_offset generated_by_local _ = False"

fun outbound_offset :: "bool \<Rightarrow> OutboundHTLCState \<Rightarrow> bool" where
  "outbound_offset generated_by_local (RemoteRemoved (Success _)) = (\<not> generated_by_local)"
| "outbound_offset generated_by_local (AwaitingRemoteRevokeToRemove (Success _)) = (\<not> generated_by_local)"
| "outbound_offset generated_by_local (AwaitingRemovedRemoteRevoke (Success _)) = True"
| "outbound_offset generated_by_local _ = False"

fun preimage_of :: "OutboundHTLCState \<Rightarrow> bytes option" where
  "preimage_of (RemoteRemoved (Success p)) = p"
| "preimage_of (AwaitingRemoteRevokeToRemove (Success p)) = p"
| "preimage_of (AwaitingRemovedRemoteRevoke (Success p)) = p"
| "preimage_of _ = None"

definition commitment_feerate :: "bool \<Rightarrow> ('fwd, 'src) channel \<Rightarrow> (ChannelError, u32) outcome" where
  "commitment_feerate generated_by_local c =
     (case pending_update_fee c of
        Some (feerate, FeeRemoteAnnounced) \<Rightarrow> Ok (if \<not> generated_by_local then feerate else feerate_per_kw c)
      | Some (feerate, FeeAwaitingRemoteRevokeToAnnounce) \<Rightarrow> Ok (if \<not> generated_by_local then feerate else feerate_per_kw c)
      | Some (feerate, FeeOutbound) \<Rightarrow>
          if \<not> is_outbound c then Panic else Ok (if generated_by_local then feerate else feerate_per_kw c)
      | None \<Rightarrow> Ok (feerate_per_kw c))"

definition is_nondust :: "u64 \<Rightarrow> u32 \<Rightarrow> bool \<Rightarrow> bool \<Rightarrow> HTLCOutputInCommitment \<Rightarrow> bool" where
  "is_nondust dust_limit feerate anchors offered h =
     (hc_amount_msat h div 1000 \<ge>
        dust_limit + (ucast feerate * (if offered then htlc_timeout_tx_weight anchors else htlc_success_tx_weight anchors) div 1000))"

definition inbound_in_commitment :: "bool \<Rightarrow> 'fwd InboundHTLCOutput \<Rightarrow> HTLCOutputInCommitment" where
  "inbound_in_commitment offered h =
     \<lparr>hc_offered = offered, hc_amount_msat = ih_amount_msat h, hc_cltv_expiry = ih_cltv_expiry h, hc_payment_hash = ih_payment_hash h, hc_transaction_output_index = None\<rparr>"

definition outbound_in_commitment :: "bool \<Rightarrow> 'src OutboundHTLCOutput \<Rightarrow> HTLCOutputInCommitment" where
  "outbound_in_commitment offered h =
     \<lparr>hc_offered = offered, hc_amount_msat = oh_amount_msat h, hc_cltv_expiry = oh_cltv_expiry h, hc_payment_hash = oh_payment_hash h, hc_transaction_output_index = None\<rparr>"

definition included_htlcs :: "bool \<Rightarrow> bool \<Rightarrow> ('fwd, 'src) channel \<Rightarrow> (HTLCOutputInCommitment \<times> 'src option) list" where
  "included_htlcs local generated_by_local c =
     map (\<lambda>h. (inbound_in_commitment (\<not> local) h, None)) (filter (\<lambda>h. inbound_included generated_by_local (ih_state h)) (pending_inbound_htlcs c)) @
     map (\<lambda>h. (outbound_in_commitment local h, Some (oh_source h))) (filter (\<lambda>h. outbound_included generated_by_local (oh_state h)) (pending_outbound_htlcs c))"

definition local_htlc_total :: "bool \<Rightarrow> ('fwd, 'src) channel \<Rightarrow> u64" where
  "local_htlc_total generated_by_local c = (\<Sum>h\<leftarrow>filter (\<lambda>h. outbound_included generated_by_local (oh_state h)) (pending_outbound_htlcs c). oh_amount_msat h)"

definition remote_htlc_total :: "bool \<Rightarrow> ('fwd, 'src) channel \<Rightarrow> u64" where
  "remote_htlc_total generated_by_local c = (\<Sum>h\<leftarrow>filter (\<lambda>h. inbound_included generated_by_local (ih_state h)) (pending_inbound_htlcs c). ih_amount_msat h)"

definition self_offset :: "bool \<Rightarrow> ('fwd, 'src) channel \<Rightarrow> u64" where
  "self_offset generated_by_local c =
     (\<Sum>h\<leftarrow>filter (\<lambda>h. inbound_offset generated_by_local (ih_state h)) (pending_inbound_htlcs c). ih_amount_msat h) -
     (\<Sum>h\<leftarrow>filter (\<lambda>h. outbound_offset generated_by_local (oh_state h)) (pending_outbound_htlcs c). oh_amount_msat h)"

definition div_i64 :: "u64 \<Rightarrow> int \<Rightarrow> u64" where
  "div_i64 w k = word_of_int (sgn (sint w) * (\<bar>sint w\<bar> div k))"

definition trim :: "u64 \<Rightarrow> u64 \<Rightarrow> u64" where
  "trim limit v = (if limit \<le>s v then v else 0)"

definition build_commitment_transaction ::
  "'k chan_lib \<Rightarrow> u64 \<Rightarrow> 'k \<Rightarrow> bool \<Rightarrow> bool \<Rightarrow> ('fwd, 'src) channel \<Rightarrow> (ChannelError, ('k, 'src) CommitmentStats) outcome" where
  "build_commitment_transaction lib commitment_number keys local generated_by_local c =
     and_then (commitment_feerate generated_by_local c) (\<lambda>feerate.
       let dust_limit = (if local then holder_dust_limit_satoshis c else counterparty_dust_limit_satoshis c);
           included = included_htlcs local generated_by_local c;
           nondust = (\<lambda>(h, s). is_nondust dust_limit feerate (opt_anchors c) (hc_offered h) h);
           included_non_dust = filter nondust included;
           included_dust = filter (\<lambda>x. \<not> nondust x) included;
           offset = self_offset generated_by_local c;
           to_self_msat = (value_to_self_msat c - local_htlc_total generated_by_local c) + offset;
           to_remote_msat = channel_value_satoshis c * 1000 - value_to_self_msat c - remote_htlc_total generated_by_local c - offset in
       if \<not> 0 \<le>s to_self_msat then Panic
       else if \<not> 0 \<le>s to_remote_msat then Panic
       else let total_fee_sat = commit_tx_fee_sat feerate (length included_non_dust) (opt_anchors c);
                anchors_val = (if opt_anchors c then ANCHOR_OUTPUT_VALUE_SATOSHI * 2 else 0);
                (value_to_self, value_to_remote) =
                  (if is_outbound c then (div_i64 to_self_msat 1000 - anchors_val - total_fee_sat, div_i64 to_remote_msat 1000)
                   else (div_i64 to_self_msat 1000, div_i64 to_remote_msat 1000 - anchors_val - total_fee_sat));
                value_to_a = trim dust_limit (if local then value_to_self else value_to_remote);
                value_to_b = trim dust_limit (if local then value_to_remote else value_to_self);
                unplaced = \<lparr>ct_number = commitment_number, ct_value_a = value_to_a, ct_value_b = value_to_b, ct_opt_anchors = opt_anchors c,
                            ct_local = local, ct_keys = keys, ct_feerate_per_kw = feerate, ct_htlcs = map fst included_non_dust\<rparr>;
                placed = map (\<lambda>((h, s), i). (h\<lparr>hc_transaction_output_index := Some i\<rparr>, s)) (zip included_non_dust (output_indices lib unplaced));
                tx = unplaced\<lparr>ct_htlcs := map fst placed\<rparr>
            in Ok \<lparr>st_tx = tx, st_feerate_per_kw = feerate, st_total_fee_sat = total_fee_sat, st_num_nondust_htlcs = length included_non_dust,
                   st_htlcs_included = sort_key (\<lambda>(h, s). the (hc_transaction_output_index h)) placed @ included_dust,
                   st_local_balance_msat = (if to_self_msat * 1000 <s dust_limit then 0 else to_self_msat),
                   st_remote_balance_msat = (if to_remote_msat * 1000 <s dust_limit then 0 else to_remote_msat),
                   st_preimages = List.map_filter (\<lambda>h. preimage_of (oh_state h)) (pending_outbound_htlcs c)\<rparr>)"

section \<open>Limits\<close>

record HTLCStats =
  hs_pending_htlcs :: u32
  hs_pending_htlcs_value_msat :: u64
  hs_on_counterparty_tx_dust_exposure_msat :: u64
  hs_on_holder_tx_dust_exposure_msat :: u64
  hs_holding_cell_msat :: u64
  hs_on_holder_tx_holding_cell_htlcs_count :: u32

definition get_dust_buffer_feerate :: "u32 option \<Rightarrow> ('fwd, 'src) channel \<Rightarrow> u32" where
  "get_dust_buffer_feerate outbound_feerate_update c =
     (let f1 = (case pending_update_fee c of Some (feerate, _) \<Rightarrow> max (feerate_per_kw c) feerate | None \<Rightarrow> feerate_per_kw c);
          f2 = (case outbound_feerate_update of Some feerate \<Rightarrow> max f1 feerate | None \<Rightarrow> f1)
      in max 2530 (f2 * 1250 div 1000))"

definition sum_below :: "u64 \<Rightarrow> u64 list \<Rightarrow> u64" where
  "sum_below limit amounts = (\<Sum>a\<leftarrow>filter (\<lambda>a. a div 1000 < limit) amounts. a)"

definition get_inbound_pending_htlc_stats :: "u32 option \<Rightarrow> ('fwd, 'src) channel \<Rightarrow> HTLCStats" where
  "get_inbound_pending_htlc_stats outbound_feerate_update c =
     (let buffer = ucast (get_dust_buffer_feerate outbound_feerate_update c);
          counterparty_dust_limit_timeout_sat = buffer * htlc_timeout_tx_weight (opt_anchors c) div 1000 + counterparty_dust_limit_satoshis c;
          holder_dust_limit_success_sat = buffer * htlc_success_tx_weight (opt_anchors c) div 1000 + holder_dust_limit_satoshis c;
          amounts = map ih_amount_msat (pending_inbound_htlcs c)
      in \<lparr>hs_pending_htlcs = word_of_nat (length amounts), hs_pending_htlcs_value_msat = sum_list amounts,
          hs_on_counterparty_tx_dust_exposure_msat = sum_below counterparty_dust_limit_timeout_sat amounts,
          hs_on_holder_tx_dust_exposure_msat = sum_below holder_dust_limit_success_sat amounts,
          hs_holding_cell_msat = 0, hs_on_holder_tx_holding_cell_htlcs_count = 0\<rparr>)"

definition held_adds :: "'src HTLCUpdateAwaitingACK list \<Rightarrow> u64 list" where
  "held_adds cell = List.map_filter (\<lambda>u. case u of AddHTLC amount_msat _ _ _ _ \<Rightarrow> Some amount_msat | _ \<Rightarrow> None) cell"

definition get_outbound_pending_htlc_stats :: "u32 option \<Rightarrow> ('fwd, 'src) channel \<Rightarrow> HTLCStats" where
  "get_outbound_pending_htlc_stats outbound_feerate_update c =
     (let buffer = ucast (get_dust_buffer_feerate outbound_feerate_update c);
          counterparty_dust_limit_success_sat = buffer * htlc_success_tx_weight (opt_anchors c) div 1000 + counterparty_dust_limit_satoshis c;
          holder_dust_limit_timeout_sat = buffer * htlc_timeout_tx_weight (opt_anchors c) div 1000 + holder_dust_limit_satoshis c;
          held = held_adds (holding_cell_htlc_updates c);
          amounts = map oh_amount_msat (pending_outbound_htlcs c) @ held
      in \<lparr>hs_pending_htlcs = word_of_nat (length amounts), hs_pending_htlcs_value_msat = sum_list amounts,
          hs_on_counterparty_tx_dust_exposure_msat = sum_below counterparty_dust_limit_success_sat amounts,
          hs_on_holder_tx_dust_exposure_msat = sum_below holder_dust_limit_timeout_sat amounts,
          hs_holding_cell_msat = sum_list held,
          hs_on_holder_tx_holding_cell_htlcs_count = word_of_nat (length (filter (\<lambda>a. \<not> a div 1000 < holder_dust_limit_timeout_sat) held))\<rparr>)"

datatype HTLCInitiator = LocalOffered | RemoteOffered

definition next_local_commit_tx_fee_msat :: "u64 \<Rightarrow> HTLCInitiator \<Rightarrow> bool \<Rightarrow> ('fwd, 'src) channel \<Rightarrow> (ChannelError, u64) outcome" where
  "next_local_commit_tx_fee_msat amount_msat origin fee_spike_buffer_htlc c =
     (if \<not> is_outbound c then Panic
      else let success_sat = ucast (feerate_per_kw c) * htlc_success_tx_weight (opt_anchors c) div 1000 + holder_dust_limit_satoshis c;
               timeout_sat = ucast (feerate_per_kw c) * htlc_timeout_tx_weight (opt_anchors c) div 1000 + holder_dust_limit_satoshis c;
               addl = (if fee_spike_buffer_htlc then 1 else 0) +
                      (if amount_msat div 1000 \<ge> (case origin of LocalOffered \<Rightarrow> timeout_sat | RemoteOffered \<Rightarrow> success_sat) then 1 else 0);
               included = length (filter (\<lambda>h. \<not> ih_amount_msat h div 1000 < success_sat) (pending_inbound_htlcs c)) +
                          length (filter (\<lambda>h. \<not> oh_amount_msat h div 1000 < timeout_sat \<and>
                            (case oh_state h of LocalAnnounced _ \<Rightarrow> True | OutCommitted \<Rightarrow> True | RemoteRemoved _ \<Rightarrow> True | _ \<Rightarrow> False)) (pending_outbound_htlcs c)) +
                          length (filter (\<lambda>a. \<not> a div 1000 < timeout_sat) (held_adds (holding_cell_htlc_updates c)))
           in Ok (commit_tx_fee_msat (feerate_per_kw c) (included + addl) (opt_anchors c)))"

definition next_remote_commit_tx_fee_msat :: "u64 \<Rightarrow> HTLCInitiator \<Rightarrow> bool \<Rightarrow> ('fwd, 'src) channel \<Rightarrow> (ChannelError, u64) outcome" where
  "next_remote_commit_tx_fee_msat amount_msat origin fee_spike_buffer_htlc c =
     (if is_outbound c then Panic
      else let success_sat = ucast (feerate_per_kw c) * htlc_success_tx_weight (opt_anchors c) div 1000 + counterparty_dust_limit_satoshis c;
               timeout_sat = ucast (feerate_per_kw c) * htlc_timeout_tx_weight (opt_anchors c) div 1000 + counterparty_dust_limit_satoshis c;
               addl = (if fee_spike_buffer_htlc then 1 else 0) +
                      (if amount_msat div 1000 \<ge> (case origin of LocalOffered \<Rightarrow> success_sat | RemoteOffered \<Rightarrow> timeout_sat) then 1 else 0);
               included = length (filter (\<lambda>h. \<not> ih_amount_msat h div 1000 \<le> timeout_sat) (pending_inbound_htlcs c)) +
                          length (filter (\<lambda>h. \<not> oh_amount_msat h div 1000 \<le> success_sat \<and>
                            (case oh_state h of OutCommitted \<Rightarrow> True | RemoteRemoved _ \<Rightarrow> True | LocalAnnounced _ \<Rightarrow> True | _ \<Rightarrow> False)) (pending_outbound_htlcs c))
           in Ok (commit_tx_fee_msat (feerate_per_kw c) (included + addl) (opt_anchors c)))"

definition OUR_MAX_HTLCS :: u16 where "OUR_MAX_HTLCS = 50"
definition FEE_SPIKE_BUFFER_FEE_INCREASE_MULTIPLE :: u64 where "FEE_SPIKE_BUFFER_FEE_INCREASE_MULTIPLE = 2"
definition CONCURRENT_INBOUND_HTLC_FEE_BUFFER :: u32 where "CONCURRENT_INBOUND_HTLC_FEE_BUFFER = 2"

record AvailableBalances =
  ab_balance_msat :: u64
  ab_inbound_capacity_msat :: u64
  ab_outbound_capacity_msat :: u64
  ab_next_outbound_htlc_limit_msat :: u64

definition max_i64 :: "u64 \<Rightarrow> u64 \<Rightarrow> u64" where "max_i64 a b = (if a \<le>s b then b else a)"
definition min_i64 :: "u64 \<Rightarrow> u64 \<Rightarrow> u64" where "min_i64 a b = (if a \<le>s b then a else b)"

definition get_available_balances :: "('fwd, 'src) channel \<Rightarrow> AvailableBalances" where
  "get_available_balances c =
     (let outbound_stats = get_outbound_pending_htlc_stats None c;
          claimed = (\<Sum>h\<leftarrow>filter (\<lambda>h. inbound_offset True (ih_state h)) (pending_inbound_htlcs c). ih_amount_msat h);
          outbound_capacity = max_i64 (value_to_self_msat c - hs_pending_htlcs_value_msat outbound_stats -
            (case counterparty_selected_channel_reserve_satoshis c of Some r \<Rightarrow> r | None \<Rightarrow> 0) * 1000) 0
      in \<lparr>ab_balance_msat = value_to_self_msat c + claimed - hs_pending_htlcs_value_msat outbound_stats,
          ab_inbound_capacity_msat = max_i64 (channel_value_satoshis c * 1000 - value_to_self_msat c -
            hs_pending_htlcs_value_msat (get_inbound_pending_htlc_stats None c) - holder_selected_channel_reserve_satoshis c * 1000) 0,
          ab_outbound_capacity_msat = outbound_capacity,
          ab_next_outbound_htlc_limit_msat = max_i64 (min_i64 outbound_capacity
            (counterparty_max_htlc_value_in_flight_msat c - hs_pending_htlcs_value_msat outbound_stats)) 0\<rparr>)"

end
