(* ===== verification/Channel_Update.thy ===== *)
theory Channel_Update
  imports Channel
begin

text \<open>
  The operations on an open channel (\<open>lightning/src/ln/channel.rs\<close>): adding, claiming and failing HTLCs from either
  side, fee updates, \<open>commitment_signed\<close> and \<open>revoke_and_ack\<close>, the holding cell, and pausing for a lost connection or a
  failed monitor update. Each takes the channel and returns it with the result, also when the result is an error.
\<close>

section \<open>Monitor updates\<close>

datatype ('k, 'src) ChannelMonitorUpdateStep =
    LatestHolderCommitmentTXInfo "'k commitment_tx" bytes "bytes list" "(HTLCOutputInCommitment \<times> bytes option \<times> 'src option) list"
  | LatestCounterpartyCommitmentTXInfo bytes "(HTLCOutputInCommitment \<times> 'src option) list" u64 bytes
  | PaymentPreimageStep bytes
  | CommitmentSecretStep u64 bytes

record ('k, 'src) ChannelMonitorUpdate =
  mu_update_id :: u64
  mu_updates :: "('k, 'src) ChannelMonitorUpdateStep list"

type_synonym ('fwd, 'src, 'a) chan_result = "('fwd, 'src) channel \<times> (ChannelError, 'a) outcome"

definition in_state :: "u32 \<Rightarrow> ('fwd, 'src) channel \<Rightarrow> bool" where
  "in_state flag c \<longleftrightarrow> channel_state c AND flag = flag"

definition any_state :: "u32 \<Rightarrow> ('fwd, 'src) channel \<Rightarrow> bool" where
  "any_state flags c \<longleftrightarrow> channel_state c AND flags \<noteq> 0"

definition is_usable :: "('fwd, 'src) channel \<Rightarrow> bool" where
  "is_usable c \<longleftrightarrow> channel_state c AND (ChannelFunded OR BOTH_SIDES_SHUTDOWN_MASK) = ChannelFunded \<and> \<not> monitor_pending_channel_ready c"

definition is_live :: "('fwd, 'src) channel \<Rightarrow> bool" where
  "is_live c \<longleftrightarrow> is_usable c \<and> \<not> any_state PeerDisconnected c"

section \<open>Signing a commitment for the peer\<close>

definition build_holder_transaction_keys :: "'k chan_lib \<Rightarrow> u64 \<Rightarrow> (ChannelError, 'k) outcome" where
  "build_holder_transaction_keys lib n =
     (case holder_tx_keys lib n of Some k \<Rightarrow> Ok k | None \<Rightarrow> Err (Close ''Local tx keys generation got bogus keys''))"

definition build_remote_transaction_keys :: "'k chan_lib \<Rightarrow> ('fwd, 'src) channel \<Rightarrow> (ChannelError, 'k) outcome" where
  "build_remote_transaction_keys lib c =
     (case counterparty_cur_commitment_point c of
        None \<Rightarrow> Panic
      | Some p \<Rightarrow> (case remote_tx_keys lib p of Some k \<Rightarrow> Ok k | None \<Rightarrow> Err (Close ''Remote tx keys generation got bogus keys'')))"

definition send_commitment_no_state_update ::
  "'k chan_lib \<Rightarrow> ('fwd, 'src) channel \<Rightarrow> (ChannelError, CommitmentSigned \<times> bytes \<times> (HTLCOutputInCommitment \<times> 'src option) list) outcome" where
  "send_commitment_no_state_update lib c =
     and_then (build_remote_transaction_keys lib c) (\<lambda>keys.
     and_then (build_commitment_transaction lib (cur_counterparty_commitment_transaction_number c) keys False True c) (\<lambda>stats.
       case sign_counterparty_commitment lib (st_tx stats) (st_preimages stats) of
         None \<Rightarrow> Err (Close ''Failed to get signatures for new commitment_signed'')
       | Some (signature, htlc_signatures) \<Rightarrow>
           Ok (\<lparr>cs_channel_id = channel_id c, cs_signature = signature, cs_htlc_signatures = htlc_signatures\<rparr>, tx_id lib (st_tx stats), st_htlcs_included stats)))"

fun announce_inbound :: "'fwd InboundHTLCState \<Rightarrow> 'fwd InboundHTLCState" where
  "announce_inbound (AwaitingRemoteRevokeToAnnounce forward_info) = AwaitingAnnouncedRemoteRevoke forward_info"
| "announce_inbound st = st"

fun announce_removal :: "OutboundHTLCState \<Rightarrow> OutboundHTLCState" where
  "announce_removal (AwaitingRemoteRevokeToRemove outcome) = AwaitingRemovedRemoteRevoke outcome"
| "announce_removal st = st"

definition map_inbound :: "('fwd InboundHTLCState \<Rightarrow> 'fwd InboundHTLCState) \<Rightarrow> ('fwd, 'src) channel \<Rightarrow> ('fwd, 'src) channel" where
  "map_inbound f c = c\<lparr>pending_inbound_htlcs := map (\<lambda>h. h\<lparr>ih_state := f (ih_state h)\<rparr>) (pending_inbound_htlcs c)\<rparr>"

definition map_outbound :: "(OutboundHTLCState \<Rightarrow> OutboundHTLCState) \<Rightarrow> ('fwd, 'src) channel \<Rightarrow> ('fwd, 'src) channel" where
  "map_outbound f c = c\<lparr>pending_outbound_htlcs := map (\<lambda>h. h\<lparr>oh_state := f (oh_state h)\<rparr>) (pending_outbound_htlcs c)\<rparr>"

definition commit_fee_update :: "('fwd, 'src) channel \<Rightarrow> ('fwd, 'src) channel" where
  "commit_fee_update c =
     (case pending_update_fee c of
        Some (feerate, FeeAwaitingRemoteRevokeToAnnounce) \<Rightarrow> c\<lparr>feerate_per_kw := feerate, pending_update_fee := None\<rparr>
      | _ \<Rightarrow> c)"

definition send_commitment_no_status_check ::
  "'k chan_lib \<Rightarrow> ('fwd, 'src) channel \<Rightarrow> ('fwd, 'src, CommitmentSigned \<times> ('k, 'src) ChannelMonitorUpdate) chan_result" where
  "send_commitment_no_status_check lib c =
     (let c1 = (commit_fee_update (map_outbound announce_removal (map_inbound announce_inbound c)))\<lparr>resend_order := RevokeAndACKFirst\<rparr> in
      case send_commitment_no_state_update lib c1 of
        Err e \<Rightarrow> (c1, Err e)
      | Panic \<Rightarrow> (c1, Panic)
      | Ok (res, txid, htlcs) \<Rightarrow>
          (case counterparty_cur_commitment_point c1 of
             None \<Rightarrow> (c1, Panic)
           | Some point \<Rightarrow>
               (let c2 = c1\<lparr>announcement_sigs_state := (if announcement_sigs_state c1 = MessageSent then SigsCommitted else announcement_sigs_state c1),
                            latest_monitor_update_id := latest_monitor_update_id c1 + 1,
                            channel_state := channel_state c1 OR AwaitingRemoteRevoke\<rparr>
                in (c2, Ok (res, \<lparr>mu_update_id = latest_monitor_update_id c2,
                     mu_updates = [LatestCounterpartyCommitmentTXInfo txid htlcs (cur_counterparty_commitment_transaction_number c1) point]\<rparr>)))))"

definition send_commitment ::
  "'k chan_lib \<Rightarrow> ('fwd, 'src) channel \<Rightarrow> ('fwd, 'src, CommitmentSigned \<times> ('k, 'src) ChannelMonitorUpdate) chan_result" where
  "send_commitment lib c =
     (if \<not> in_state ChannelFunded c \<or> in_state AwaitingRemoteRevoke c \<or> in_state PeerDisconnected c \<or> in_state MonitorUpdateFailed c then (c, Panic)
      else if \<not> ((is_outbound c \<and> pending_update_fee c \<noteq> None) \<or>
                 (\<exists>h\<in>set (pending_outbound_htlcs c). case oh_state h of LocalAnnounced _ \<Rightarrow> True | _ \<Rightarrow> False) \<or>
                 (\<exists>h\<in>set (pending_inbound_htlcs c). case ih_state h of LocalRemoved _ \<Rightarrow> True | _ \<Rightarrow> False)) then (c, Panic)
      else send_commitment_no_status_check lib c)"

section \<open>Sending an HTLC\<close>

definition ignore :: "string \<Rightarrow> (ChannelError, 'a) outcome" where "ignore s = Err (Ignore s)"
definition close_with :: "string \<Rightarrow> (ChannelError, 'a) outcome" where "close_with s = Err (Close s)"

definition check_send_fees :: "u64 \<Rightarrow> u64 \<Rightarrow> ('fwd, 'src) channel \<Rightarrow> (ChannelError, unit) outcome" where
  "check_send_fees amount_msat holder_balance_msat c =
     and_then (if is_outbound c then map_ok (\<lambda>fee. FEE_SPIKE_BUFFER_FEE_INCREASE_MULTIPLE * fee) (next_local_commit_tx_fee_msat amount_msat LocalOffered True c) else Ok 0)
       (\<lambda>commit_tx_fee_msat.
       if holder_balance_msat - amount_msat < commit_tx_fee_msat
       then ignore (''Cannot send value that would not leave enough to pay for fees. Pending value to self: '' @ to_string holder_balance_msat @ ''. local_commit_tx_fee '' @ to_string commit_tx_fee_msat)
       else case counterparty_selected_channel_reserve_satoshis c of
              None \<Rightarrow> Panic
            | Some r \<Rightarrow>
                if holder_balance_msat - amount_msat - commit_tx_fee_msat < r * 1000
                then ignore (''Cannot send value that would put our balance under counterparty-announced channel reserve value ('' @ to_string (r * 1000) @ '')'')
                else Ok ())"

definition check_send_dust :: "u64 \<Rightarrow> ('fwd, 'src) channel \<Rightarrow> (ChannelError, unit) outcome" where
  "check_send_dust amount_msat c =
     (let inbound_stats = get_inbound_pending_htlc_stats None c;
          outbound_stats = get_outbound_pending_htlc_stats None c;
          buffer = ucast (get_dust_buffer_feerate None c);
          success_sats = buffer * htlc_success_tx_weight (opt_anchors c) div 1000 + counterparty_dust_limit_satoshis c;
          timeout_sats = buffer * htlc_timeout_tx_weight (opt_anchors c) div 1000 + holder_dust_limit_satoshis c;
          on_counterparty = hs_on_counterparty_tx_dust_exposure_msat inbound_stats + hs_on_counterparty_tx_dust_exposure_msat outbound_stats + amount_msat;
          on_holder = hs_on_holder_tx_dust_exposure_msat inbound_stats + hs_on_holder_tx_dust_exposure_msat outbound_stats + amount_msat in
      if amount_msat div 1000 < success_sats \<and> on_counterparty > get_max_dust_htlc_exposure_msat c
      then ignore (''Cannot send value that would put our exposure to dust HTLCs at '' @ to_string on_counterparty @ '' over the limit '' @ to_string (get_max_dust_htlc_exposure_msat c) @ '' on counterparty commitment tx'')
      else if amount_msat div 1000 < timeout_sats \<and> on_holder > get_max_dust_htlc_exposure_msat c
      then ignore (''Cannot send value that would put our exposure to dust HTLCs at '' @ to_string on_holder @ '' over the limit '' @ to_string (get_max_dust_htlc_exposure_msat c) @ '' on holder commitment tx'')
      else Ok ())"

definition check_send_remote_reserve :: "u64 \<Rightarrow> u64 \<Rightarrow> ('fwd, 'src) channel \<Rightarrow> (ChannelError, unit) outcome" where
  "check_send_remote_reserve amount_msat remote_balance_msat c =
     (if is_outbound c then Ok ()
      else and_then (next_remote_commit_tx_fee_msat amount_msat LocalOffered False c) (\<lambda>fee.
             if remote_balance_msat < fee + holder_selected_channel_reserve_satoshis c * 1000
             then ignore ''Cannot send value that would put counterparty balance under holder-announced channel reserve value''
             else Ok ()))"

definition check_send :: "'k chan_lib \<Rightarrow> u64 \<Rightarrow> ('fwd, 'src) channel \<Rightarrow> (ChannelError, unit) outcome" where
  "check_send lib amount_msat c =
     (if channel_state c AND (ChannelFunded OR BOTH_SIDES_SHUTDOWN_MASK) \<noteq> ChannelFunded
      then ignore ''Cannot send HTLC until channel is fully established and we haven't started shutting down''
      else if amount_msat > channel_value_satoshis c * 1000
      then ignore (''Cannot send amount '' @ to_string amount_msat @ '', because it is more than the total value of the channel '' @ to_string (channel_value_satoshis c * 1000))
      else if amount_msat = 0 then ignore ''Cannot send 0-msat HTLC''
      else if amount_msat < counterparty_htlc_minimum_msat c
      then ignore (''Cannot send less than their minimum HTLC value ('' @ to_string (counterparty_htlc_minimum_msat c) @ '')'')
      else if any_state PeerDisconnected c then ignore ''Cannot send an HTLC while disconnected from channel counterparty''
      else let outbound_stats = get_outbound_pending_htlc_stats None c in
           if hs_pending_htlcs outbound_stats + 1 > ucast (counterparty_max_accepted_htlcs c)
           then ignore (''Cannot push more than their max accepted HTLCs ('' @ to_string (counterparty_max_accepted_htlcs c) @ '')'')
           else if hs_pending_htlcs_value_msat outbound_stats + amount_msat > counterparty_max_htlc_value_in_flight_msat c
           then ignore (''Cannot send value that would put us over the max HTLC value in flight our peer will accept ('' @ to_string (counterparty_max_htlc_value_in_flight_msat c) @ '')'')
           else and_then (build_holder_transaction_keys lib (cur_holder_commitment_transaction_number c)) (\<lambda>keys.
                and_then (build_commitment_transaction lib (cur_holder_commitment_transaction_number c) keys True True c) (\<lambda>stats.
                and_then (check_send_remote_reserve amount_msat (st_remote_balance_msat stats) c) (\<lambda>_.
                and_then (check_send_dust amount_msat c) (\<lambda>_.
                  let holder_balance_msat = st_local_balance_msat stats - hs_holding_cell_msat outbound_stats in
                  if holder_balance_msat < amount_msat
                  then ignore (''Cannot send value that would overdraw remaining funds. Amount: '' @ to_string amount_msat @ '', pending value to self '' @ to_string holder_balance_msat)
                  else check_send_fees amount_msat holder_balance_msat c)))))"

definition send_htlc ::
  "'k chan_lib \<Rightarrow> u64 \<Rightarrow> bytes \<Rightarrow> u32 \<Rightarrow> 'src \<Rightarrow> OnionPacket \<Rightarrow> ('fwd, 'src) channel \<Rightarrow> ('fwd, 'src, UpdateAddHTLC option) chan_result" where
  "send_htlc lib amount_msat payment_hash cltv_expiry src onion c =
     (case check_send lib amount_msat c of
        Err e \<Rightarrow> (c, Err e)
      | Panic \<Rightarrow> (c, Panic)
      | Ok _ \<Rightarrow>
          if any_state (AwaitingRemoteRevoke OR MonitorUpdateFailed) c
          then (c\<lparr>holding_cell_htlc_updates := holding_cell_htlc_updates c @ [AddHTLC amount_msat cltv_expiry payment_hash src onion]\<rparr>, Ok None)
          else (c\<lparr>pending_outbound_htlcs := pending_outbound_htlcs c @
                    [\<lparr>oh_htlc_id = next_holder_htlc_id c, oh_amount_msat = amount_msat, oh_cltv_expiry = cltv_expiry, oh_payment_hash = payment_hash,
                      oh_state = LocalAnnounced onion, oh_source = src\<rparr>],
                  next_holder_htlc_id := next_holder_htlc_id c + 1\<rparr>,
                Ok (Some \<lparr>ua_channel_id = channel_id c, ua_htlc_id = next_holder_htlc_id c, ua_amount_msat = amount_msat,
                          ua_payment_hash = payment_hash, ua_cltv_expiry = cltv_expiry, ua_onion_routing_packet = onion\<rparr>)))"

text \<open>A first operation and, when it succeeds, a second one on the channel it leaves.\<close>

definition then_run :: "('fwd, 'src, 'a) chan_result \<Rightarrow> ('a \<Rightarrow> ('fwd, 'src) channel \<Rightarrow> ('fwd, 'src, 'b) chan_result) \<Rightarrow> ('fwd, 'src, 'b) chan_result" where
  "then_run r f = (case r of (c, Ok a) \<Rightarrow> f a c | (c, Err e) \<Rightarrow> (c, Err e) | (c, Panic) \<Rightarrow> (c, Panic))"

definition send_htlc_and_commit ::
  "'k chan_lib \<Rightarrow> u64 \<Rightarrow> bytes \<Rightarrow> u32 \<Rightarrow> 'src \<Rightarrow> OnionPacket \<Rightarrow> ('fwd, 'src) channel \<Rightarrow>
   ('fwd, 'src, (UpdateAddHTLC \<times> CommitmentSigned \<times> ('k, 'src) ChannelMonitorUpdate) option) chan_result" where
  "send_htlc_and_commit lib amount_msat payment_hash cltv_expiry src onion c =
     then_run (send_htlc lib amount_msat payment_hash cltv_expiry src onion c) (\<lambda>add c1.
       case add of
         None \<Rightarrow> (c1, Ok None)
       | Some msg \<Rightarrow> then_run (send_commitment_no_status_check lib c1) (\<lambda>(cs, mupd) c2. (c2, Ok (Some (msg, cs, mupd)))))"

section \<open>Receiving an HTLC\<close>

definition removed_outbound_total :: "('fwd, 'src) channel \<Rightarrow> u64" where
  "removed_outbound_total c =
     (\<Sum>h\<leftarrow>filter (\<lambda>h. case oh_state h of AwaitingRemoteRevokeToRemove (Success _) \<Rightarrow> True | AwaitingRemovedRemoteRevoke (Success _) \<Rightarrow> True | _ \<Rightarrow> False)
        (pending_outbound_htlcs c). oh_amount_msat h)"

definition dust_status ::
  "('fwd PendingHTLCStatus \<Rightarrow> u16 \<Rightarrow> 'fwd PendingHTLCStatus) \<Rightarrow> u64 \<Rightarrow> ('fwd, 'src) channel \<Rightarrow> 'fwd PendingHTLCStatus \<Rightarrow> 'fwd PendingHTLCStatus" where
  "dust_status fail_status amount_msat c pstatus =
     (let inbound_stats = get_inbound_pending_htlc_stats None c;
          outbound_stats = get_outbound_pending_htlc_stats None c;
          buffer = ucast (get_dust_buffer_feerate None c);
          timeout_sats = buffer * htlc_timeout_tx_weight (opt_anchors c) div 1000 + counterparty_dust_limit_satoshis c;
          success_sats = buffer * htlc_success_tx_weight (opt_anchors c) div 1000 + holder_dust_limit_satoshis c;
          on_counterparty = hs_on_counterparty_tx_dust_exposure_msat inbound_stats + hs_on_counterparty_tx_dust_exposure_msat outbound_stats + amount_msat;
          on_holder = hs_on_holder_tx_dust_exposure_msat inbound_stats + hs_on_holder_tx_dust_exposure_msat outbound_stats + amount_msat;
          s1 = (if amount_msat div 1000 < timeout_sats \<and> on_counterparty > get_max_dust_htlc_exposure_msat c then fail_status pstatus (0x1000 OR 7) else pstatus)
      in if amount_msat div 1000 < success_sats \<and> on_holder > get_max_dust_htlc_exposure_msat c then fail_status s1 (0x1000 OR 7) else s1)"

definition check_add_funds ::
  "('fwd PendingHTLCStatus \<Rightarrow> u16 \<Rightarrow> 'fwd PendingHTLCStatus) \<Rightarrow> u64 \<Rightarrow> 'fwd PendingHTLCStatus \<Rightarrow> ('fwd, 'src) channel \<Rightarrow>
   (ChannelError, 'fwd PendingHTLCStatus) outcome" where
  "check_add_funds fail_status amount_msat pstatus c =
     (let inbound_stats = get_inbound_pending_htlc_stats None c;
          pending_value_to_self_msat = value_to_self_msat c + hs_pending_htlcs_value_msat inbound_stats - removed_outbound_total c;
          pending_remote_value_msat = channel_value_satoshis c * 1000 - pending_value_to_self_msat;
          reserve = holder_selected_channel_reserve_satoshis c * 1000 in
      if pending_remote_value_msat < amount_msat then close_with ''Remote HTLC add would overdraw remaining funds''
      else and_then (if is_outbound c then Ok 0 else next_remote_commit_tx_fee_msat amount_msat RemoteOffered False c) (\<lambda>fee.
        if pending_remote_value_msat - amount_msat < fee then close_with ''Remote HTLC add would not leave enough to pay for fees''
        else if pending_remote_value_msat - amount_msat - fee < reserve then close_with ''Remote HTLC add would put them under remote reserve value''
        else if \<not> is_outbound c
        then map_ok (\<lambda>buffer_fee.
               if pending_remote_value_msat - amount_msat - reserve < 2 * buffer_fee then fail_status pstatus (0x1000 OR 7) else pstatus)
               (next_remote_commit_tx_fee_msat amount_msat RemoteOffered True c)
        else and_then (next_local_commit_tx_fee_msat amount_msat RemoteOffered False c) (\<lambda>local_fee.
               case counterparty_selected_channel_reserve_satoshis c of
                 None \<Rightarrow> Panic
               | Some r \<Rightarrow>
                   if value_to_self_msat c < r * 1000 + local_fee
                   then close_with ''Cannot accept HTLC that would put our balance under counterparty-announced channel reserve value''
                   else Ok pstatus)))"

definition check_add ::
  "('fwd PendingHTLCStatus \<Rightarrow> u16 \<Rightarrow> 'fwd PendingHTLCStatus) \<Rightarrow> UpdateAddHTLC \<Rightarrow> 'fwd PendingHTLCStatus \<Rightarrow> ('fwd, 'src) channel \<Rightarrow>
   (ChannelError, 'fwd PendingHTLCStatus) outcome" where
  "check_add fail_status msg pstatus c =
     (let s1 = (if channel_state c AND (ChannelFunded OR LocalShutdownSent) \<noteq> ChannelFunded then fail_status pstatus (0x4000 OR 8) else pstatus) in
      if channel_state c AND (ChannelFunded OR RemoteShutdownSent) \<noteq> ChannelFunded
      then close_with ''Got add HTLC message when channel was not in an operational state''
      else if in_state PeerDisconnected c then close_with ''Peer sent update_add_htlc when we needed a channel_reestablish''
      else if ua_amount_msat msg > channel_value_satoshis c * 1000
      then close_with ''Remote side tried to send more than the total value of the channel''
      else if ua_amount_msat msg = 0 then close_with ''Remote side tried to send a 0-msat HTLC''
      else if ua_amount_msat msg < holder_htlc_minimum_msat c
      then close_with (''Remote side tried to send less than our minimum HTLC value. Lower limit: ('' @ to_string (holder_htlc_minimum_msat c) @ ''). Actual: ('' @ to_string (ua_amount_msat msg) @ '')'')
      else let inbound_stats = get_inbound_pending_htlc_stats None c in
           if hs_pending_htlcs inbound_stats + 1 > ucast OUR_MAX_HTLCS
           then close_with (''Remote tried to push more than our max accepted HTLCs ('' @ to_string OUR_MAX_HTLCS @ '')'')
           else if hs_pending_htlcs_value_msat inbound_stats + ua_amount_msat msg > holder_max_htlc_value_in_flight_msat c
           then close_with (''Remote HTLC add would put them over our max HTLC value ('' @ to_string (holder_max_htlc_value_in_flight_msat c) @ '')'')
           else and_then (check_add_funds fail_status (ua_amount_msat msg) (dust_status fail_status (ua_amount_msat msg) c s1) c) (\<lambda>s2.
             if next_counterparty_htlc_id c \<noteq> ua_htlc_id msg
             then close_with (''Remote skipped HTLC ID (skipped ID: '' @ to_string (next_counterparty_htlc_id c) @ '')'')
             else if ua_cltv_expiry msg \<ge> 500000000 then close_with ''Remote provided CLTV expiry in seconds instead of block height''
             else if any_state LocalShutdownSent c \<and> (case s2 of Forward _ \<Rightarrow> True | _ \<Rightarrow> False) then Panic
             else Ok s2))"

definition update_add_htlc ::
  "('fwd PendingHTLCStatus \<Rightarrow> u16 \<Rightarrow> 'fwd PendingHTLCStatus) \<Rightarrow> UpdateAddHTLC \<Rightarrow> 'fwd PendingHTLCStatus \<Rightarrow> ('fwd, 'src) channel \<Rightarrow>
   ('fwd, 'src, unit) chan_result" where
  "update_add_htlc fail_status msg pstatus c =
     (case check_add fail_status msg pstatus c of
        Err e \<Rightarrow> (c, Err e)
      | Panic \<Rightarrow> (c, Panic)
      | Ok s \<Rightarrow>
          (c\<lparr>next_counterparty_htlc_id := next_counterparty_htlc_id c + 1,
             pending_inbound_htlcs := pending_inbound_htlcs c @
               [\<lparr>ih_htlc_id = ua_htlc_id msg, ih_amount_msat = ua_amount_msat msg, ih_cltv_expiry = ua_cltv_expiry msg,
                 ih_payment_hash = ua_payment_hash msg, ih_state = RemoteAnnounced s\<rparr>]\<rparr>, Ok ()))"

section \<open>Claiming and failing received HTLCs\<close>

datatype ('k, 'src) UpdateFulfillFetch =
    NewClaim "('k, 'src) ChannelMonitorUpdate" u64 "UpdateFulfillHTLC option"
  | DuplicateClaim

definition htlc_index :: "u64 \<Rightarrow> 'fwd InboundHTLCOutput list \<Rightarrow> nat option" where
  "htlc_index htlc_id hs = find (\<lambda>i. ih_htlc_id (hs ! i) = htlc_id) [0..<length hs]"

definition set_inbound :: "nat \<Rightarrow> 'fwd InboundHTLCState \<Rightarrow> ('fwd, 'src) channel \<Rightarrow> ('fwd, 'src) channel" where
  "set_inbound i st c = c\<lparr>pending_inbound_htlcs := (pending_inbound_htlcs c)[i := (pending_inbound_htlcs c ! i)\<lparr>ih_state := st\<rparr>]\<rparr>"

text \<open>The first entry of the holding cell that already resolves the HTLC: claimed (\<open>True\<close>) or failed (\<open>False\<close>).\<close>

fun held_resolution :: "u64 \<Rightarrow> 'src HTLCUpdateAwaitingACK list \<Rightarrow> bool option" where
  "held_resolution htlc_id [] = None"
| "held_resolution htlc_id (ClaimHTLC p i # us) = (if htlc_id = i then Some True else held_resolution htlc_id us)"
| "held_resolution htlc_id (FailHTLC i e # us) = (if htlc_id = i then Some False else held_resolution htlc_id us)"
| "held_resolution htlc_id (AddHTLC a x h s onion # us) = held_resolution htlc_id us"

definition must_hold :: "('fwd, 'src) channel \<Rightarrow> bool" where
  "must_hold c = any_state (AwaitingRemoteRevoke OR PeerDisconnected OR MonitorUpdateFailed) c"

definition get_update_fulfill_htlc ::
  "'k chan_lib \<Rightarrow> u64 \<Rightarrow> bytes \<Rightarrow> ('fwd, 'src) channel \<Rightarrow> ('fwd, 'src, ('k, 'src) UpdateFulfillFetch) chan_result" where
  "get_update_fulfill_htlc lib htlc_id_arg payment_preimage c =
     (if \<not> in_state ChannelFunded c \<or> any_state ShutdownComplete c then (c, Panic)
      else case htlc_index htlc_id_arg (pending_inbound_htlcs c) of
        None \<Rightarrow> (c, Ok DuplicateClaim)
      | Some i \<Rightarrow>
          (let h = pending_inbound_htlcs c ! i in
           if ih_payment_hash h \<noteq> chan_sha256 lib payment_preimage then (c, Panic)
           else case ih_state h of
             LocalRemoved _ \<Rightarrow> (c, Ok DuplicateClaim)
           | _ \<Rightarrow>
               (let c1 = c\<lparr>latest_monitor_update_id := latest_monitor_update_id c + 1\<rparr>;
                    monitor_update = \<lparr>mu_update_id = latest_monitor_update_id c1, mu_updates = [PaymentPreimageStep payment_preimage]\<rparr> in
                if must_hold c
                then (case held_resolution htlc_id_arg (holding_cell_htlc_updates c) of
                        Some True \<Rightarrow> (c, Ok DuplicateClaim)
                      | Some False \<Rightarrow> (c1, Ok (NewClaim monitor_update (ih_amount_msat h) None))
                      | None \<Rightarrow> (c1\<lparr>holding_cell_htlc_updates := holding_cell_htlc_updates c @ [ClaimHTLC payment_preimage htlc_id_arg]\<rparr>,
                                 Ok (NewClaim monitor_update (ih_amount_msat h) None)))
                else if ih_state h \<noteq> InCommitted then (c1, Ok (NewClaim monitor_update (ih_amount_msat h) None))
                else (set_inbound i (LocalRemoved (Fulfill payment_preimage)) c1,
                      Ok (NewClaim monitor_update (ih_amount_msat h)
                        (Some \<lparr>uf_channel_id = channel_id c, uf_htlc_id = htlc_id_arg, uf_payment_preimage = payment_preimage\<rparr>))))))"

definition get_update_fulfill_htlc_and_commit ::
  "'k chan_lib \<Rightarrow> u64 \<Rightarrow> bytes \<Rightarrow> ('fwd, 'src) channel \<Rightarrow>
   ('fwd, 'src, (('k, 'src) ChannelMonitorUpdate \<times> u64 \<times> (UpdateFulfillHTLC \<times> CommitmentSigned) option) option) chan_result" where
  "get_update_fulfill_htlc_and_commit lib htlc_id payment_preimage c =
     then_run (get_update_fulfill_htlc lib htlc_id payment_preimage c) (\<lambda>fetch c1.
       case fetch of
         DuplicateClaim \<Rightarrow> (c1, Ok None)
       | NewClaim mupd value None \<Rightarrow> (c1, Ok (Some (mupd, value, None)))
       | NewClaim mupd value (Some msg) \<Rightarrow>
           then_run (send_commitment_no_status_check lib c1) (\<lambda>(commitment, additional) c2.
             (c2\<lparr>latest_monitor_update_id := mu_update_id mupd\<rparr>, Ok (Some (mupd\<lparr>mu_updates := mu_updates mupd @ mu_updates additional\<rparr>, value, Some (msg, commitment))))))"

definition claim_htlc_while_disconnected_dropping_mon_update ::
  "'k chan_lib \<Rightarrow> u64 \<Rightarrow> bytes \<Rightarrow> ('fwd, 'src) channel \<Rightarrow> ('fwd, 'src, unit) chan_result" where
  "claim_htlc_while_disconnected_dropping_mon_update lib htlc_id payment_preimage c =
     (if \<not> must_hold c then (c, Panic)
      else then_run (get_update_fulfill_htlc lib htlc_id payment_preimage c) (\<lambda>fetch c1.
        (c1\<lparr>latest_monitor_update_id := latest_monitor_update_id c\<rparr>,
         case fetch of NewClaim mupd value (Some msg) \<Rightarrow> Panic | _ \<Rightarrow> Ok ())))"

definition get_update_fail_htlc :: "u64 \<Rightarrow> bytes \<Rightarrow> ('fwd, 'src) channel \<Rightarrow> ('fwd, 'src, UpdateFailHTLC option) chan_result" where
  "get_update_fail_htlc htlc_id_arg err_packet c =
     (if \<not> in_state ChannelFunded c \<or> any_state ShutdownComplete c then (c, Panic)
      else let hs = pending_inbound_htlcs c; found = filter (\<lambda>i. ih_htlc_id (hs ! i) = htlc_id_arg) [0..<length hs] in
        case find (\<lambda>i. ih_state (hs ! i) \<noteq> InCommitted) found of
          Some i \<Rightarrow>
            (case ih_state (hs ! i) of
               LocalRemoved _ \<Rightarrow> (c, Ok None)
             | _ \<Rightarrow> (c, ignore (''Unable to find a pending HTLC which matched the given HTLC ID ('' @ to_string htlc_id_arg @ '')'')))
        | None \<Rightarrow>
            if found = [] then (c, Ok None)
            else if must_hold c
            then (case held_resolution htlc_id_arg (holding_cell_htlc_updates c) of
                    Some True \<Rightarrow> (c, Ok None)
                  | Some False \<Rightarrow> (c, ignore ''Unable to find a pending HTLC which matched the given HTLC ID'')
                  | None \<Rightarrow> (c\<lparr>holding_cell_htlc_updates := holding_cell_htlc_updates c @ [FailHTLC htlc_id_arg err_packet]\<rparr>, Ok None))
            else (set_inbound (last found) (LocalRemoved (FailRelay err_packet)) c,
                  Ok (Some \<lparr>ul_channel_id = channel_id c, ul_htlc_id = htlc_id_arg, ul_reason = err_packet\<rparr>)))"

section \<open>The peer resolves our HTLCs\<close>

definition outbound_index :: "u64 \<Rightarrow> 'src OutboundHTLCOutput list \<Rightarrow> nat option" where
  "outbound_index htlc_id hs = find (\<lambda>i. oh_htlc_id (hs ! i) = htlc_id) [0..<length hs]"

definition mark_outbound_htlc_removed ::
  "'k chan_lib \<Rightarrow> u64 \<Rightarrow> bytes option \<Rightarrow> HTLCFailReason option \<Rightarrow> ('fwd, 'src) channel \<Rightarrow> ('fwd, 'src, 'src OutboundHTLCOutput) chan_result" where
  "mark_outbound_htlc_removed lib htlc_id check_preimage fail_reason c =
     (if check_preimage \<noteq> None \<and> fail_reason \<noteq> None then (c, Panic)
      else case outbound_index htlc_id (pending_outbound_htlcs c) of
        None \<Rightarrow> (c, close_with ''Remote tried to fulfill/fail an HTLC we couldn't find'')
      | Some i \<Rightarrow>
          (let h = pending_outbound_htlcs c ! i;
               outcome = (case check_preimage of
                            None \<Rightarrow> Some (case fail_reason of None \<Rightarrow> Success None | Some r \<Rightarrow> Failure r)
                          | Some p \<Rightarrow> if chan_sha256 lib p \<noteq> oh_payment_hash h then None else Some (Success (Some p))) in
           case outcome of
             None \<Rightarrow> (c, close_with (''Remote tried to fulfill HTLC ('' @ to_string htlc_id @ '') with an incorrect preimage''))
           | Some out \<Rightarrow>
               (case oh_state h of
                  LocalAnnounced _ \<Rightarrow> (c, close_with (''Remote tried to fulfill/fail HTLC ('' @ to_string htlc_id @ '') before it had been committed''))
                | OutCommitted \<Rightarrow>
                    (let h1 = h\<lparr>oh_state := RemoteRemoved out\<rparr> in (c\<lparr>pending_outbound_htlcs := (pending_outbound_htlcs c)[i := h1]\<rparr>, Ok h1))
                | _ \<Rightarrow> (c, close_with (''Remote tried to fulfill/fail HTLC ('' @ to_string htlc_id @ '') that they'd already fulfilled/failed'')))))"

definition update_fulfill_htlc :: "'k chan_lib \<Rightarrow> UpdateFulfillHTLC \<Rightarrow> ('fwd, 'src) channel \<Rightarrow> ('fwd, 'src, 'src \<times> u64) chan_result" where
  "update_fulfill_htlc lib msg c =
     (if \<not> in_state ChannelFunded c then (c, close_with ''Got fulfill HTLC message when channel was not in an operational state'')
      else if in_state PeerDisconnected c then (c, close_with ''Peer sent update_fulfill_htlc when we needed a channel_reestablish'')
      else then_run (mark_outbound_htlc_removed lib (uf_htlc_id msg) (Some (uf_payment_preimage msg)) None c)
             (\<lambda>h c1. (c1, Ok (oh_source h, oh_amount_msat h))))"

definition update_fail_htlc :: "'k chan_lib \<Rightarrow> UpdateFailHTLC \<Rightarrow> HTLCFailReason \<Rightarrow> ('fwd, 'src) channel \<Rightarrow> ('fwd, 'src, unit) chan_result" where
  "update_fail_htlc lib msg fail_reason c =
     (if \<not> in_state ChannelFunded c then (c, close_with ''Got fail HTLC message when channel was not in an operational state'')
      else if in_state PeerDisconnected c then (c, close_with ''Peer sent update_fail_htlc when we needed a channel_reestablish'')
      else then_run (mark_outbound_htlc_removed lib (ul_htlc_id msg) None (Some fail_reason) c) (\<lambda>h c1. (c1, Ok ())))"

definition update_fail_malformed_htlc ::
  "'k chan_lib \<Rightarrow> UpdateFailMalformedHTLC \<Rightarrow> HTLCFailReason \<Rightarrow> ('fwd, 'src) channel \<Rightarrow> ('fwd, 'src, unit) chan_result" where
  "update_fail_malformed_htlc lib msg fail_reason c =
     (if \<not> in_state ChannelFunded c then (c, close_with ''Got fail malformed HTLC message when channel was not in an operational state'')
      else if in_state PeerDisconnected c then (c, close_with ''Peer sent update_fail_malformed_htlc when we needed a channel_reestablish'')
      else then_run (mark_outbound_htlc_removed lib (um_htlc_id msg) None (Some fail_reason) c) (\<lambda>h c1. (c1, Ok ())))"

section \<open>Fees\<close>

definition check_remote_fee :: "(Target \<Rightarrow> u32) \<Rightarrow> u32 \<Rightarrow> (ChannelError, unit) outcome" where
  "check_remote_fee est feerate =
     (let upper_limit = max (250 * 25) (ucast (est HighPriority) * 10 :: u64); lower_limit = est Background in
      if (ucast feerate :: u64) > upper_limit
      then close_with (''Peer's feerate much too high. Actual: '' @ to_string feerate @ ''. Our expected upper limit: '' @ to_string upper_limit)
      else if feerate + 250 < lower_limit
      then close_with (''Peer's feerate much too low. Actual: '' @ to_string feerate @ ''. Our expected lower limit: '' @ to_string lower_limit @ '' (- 250)'')
      else Ok ())"

definition update_fee :: "(Target \<Rightarrow> u32) \<Rightarrow> UpdateFee \<Rightarrow> ('fwd, 'src) channel \<Rightarrow> ('fwd, 'src, unit) chan_result" where
  "update_fee est msg c =
     (if is_outbound c then (c, close_with ''Non-funding remote tried to update channel fee'')
      else if in_state PeerDisconnected c then (c, close_with ''Peer sent update_fee when we needed a channel_reestablish'')
      else case check_remote_fee est (ue_feerate_per_kw msg) of
        Err e \<Rightarrow> (c, Err e)
      | Panic \<Rightarrow> (c, Panic)
      | Ok _ \<Rightarrow>
          (let c1 = c\<lparr>pending_update_fee := Some (ue_feerate_per_kw msg, FeeRemoteAnnounced), update_time_counter := update_time_counter c + 1\<rparr>;
               inbound_stats = get_inbound_pending_htlc_stats None c1;
               outbound_stats = get_outbound_pending_htlc_stats None c1;
               holder_tx_dust_exposure = hs_on_holder_tx_dust_exposure_msat inbound_stats + hs_on_holder_tx_dust_exposure_msat outbound_stats;
               counterparty_tx_dust_exposure = hs_on_counterparty_tx_dust_exposure_msat inbound_stats + hs_on_counterparty_tx_dust_exposure_msat outbound_stats in
           if ue_feerate_per_kw msg > get_dust_buffer_feerate None c \<and> holder_tx_dust_exposure > get_max_dust_htlc_exposure_msat c
           then (c1, close_with (''Peer sent update_fee with a feerate ('' @ to_string (ue_feerate_per_kw msg) @ '') which may over-expose us to dust-in-flight on our own transactions (totaling '' @ to_string holder_tx_dust_exposure @ '' msat)''))
           else if ue_feerate_per_kw msg > get_dust_buffer_feerate None c \<and> counterparty_tx_dust_exposure > get_max_dust_htlc_exposure_msat c
           then (c1, close_with (''Peer sent update_fee with a feerate ('' @ to_string (ue_feerate_per_kw msg) @ '') which may over-expose us to dust-in-flight on our counterparty's transactions (totaling '' @ to_string counterparty_tx_dust_exposure @ '' msat)''))
           else (c1, Ok ())))"

definition fee_affordable :: "'k chan_lib \<Rightarrow> u32 \<Rightarrow> ('fwd, 'src) channel \<Rightarrow> (ChannelError, bool) outcome" where
  "fee_affordable lib feerate c =
     (let inbound_stats = get_inbound_pending_htlc_stats (Some feerate) c;
          outbound_stats = get_outbound_pending_htlc_stats (Some feerate) c in
      case build_holder_transaction_keys lib (cur_holder_commitment_transaction_number c) of
        Err _ \<Rightarrow> Ok False
      | Panic \<Rightarrow> Panic
      | Ok keys \<Rightarrow>
          and_then (build_commitment_transaction lib (cur_holder_commitment_transaction_number c) keys True True c) (\<lambda>stats.
            let buffer_fee_msat = commit_tx_fee_sat feerate (st_num_nondust_htlcs stats + unat (hs_on_holder_tx_holding_cell_htlcs_count outbound_stats) +
                  unat CONCURRENT_INBOUND_HTLC_FEE_BUFFER) (opt_anchors c) * 1000;
                holder_balance_msat = st_local_balance_msat stats - hs_holding_cell_msat outbound_stats in
            case counterparty_selected_channel_reserve_satoshis c of
              None \<Rightarrow> Panic
            | Some r \<Rightarrow>
                Ok (\<not> holder_balance_msat < buffer_fee_msat + r * 1000 \<and>
                    \<not> hs_on_holder_tx_dust_exposure_msat inbound_stats + hs_on_holder_tx_dust_exposure_msat outbound_stats > get_max_dust_htlc_exposure_msat c \<and>
                    \<not> hs_on_counterparty_tx_dust_exposure_msat inbound_stats + hs_on_counterparty_tx_dust_exposure_msat outbound_stats > get_max_dust_htlc_exposure_msat c)))"

definition send_update_fee :: "'k chan_lib \<Rightarrow> u32 \<Rightarrow> ('fwd, 'src) channel \<Rightarrow> ('fwd, 'src, UpdateFee option) chan_result" where
  "send_update_fee lib feerate c =
     (if \<not> is_outbound c \<or> \<not> is_usable c \<or> \<not> is_live c then (c, Panic)
      else case fee_affordable lib feerate c of
        Err e \<Rightarrow> (c, Err e)
      | Panic \<Rightarrow> (c, Panic)
      | Ok affordable \<Rightarrow>
          if \<not> affordable then (c, Ok None)
          else if any_state (AwaitingRemoteRevoke OR MonitorUpdateFailed) c then (c\<lparr>holding_cell_update_fee := Some feerate\<rparr>, Ok None)
          else (c\<lparr>pending_update_fee := Some (feerate, FeeOutbound)\<rparr>, Ok (Some \<lparr>ue_channel_id = channel_id c, ue_feerate_per_kw = feerate\<rparr>)))"

definition send_update_fee_and_commit ::
  "'k chan_lib \<Rightarrow> u32 \<Rightarrow> ('fwd, 'src) channel \<Rightarrow> ('fwd, 'src, (UpdateFee \<times> CommitmentSigned \<times> ('k, 'src) ChannelMonitorUpdate) option) chan_result" where
  "send_update_fee_and_commit lib feerate c =
     then_run (send_update_fee lib feerate c) (\<lambda>fee c1.
       case fee of
         None \<Rightarrow> (c1, Ok None)
       | Some msg \<Rightarrow> then_run (send_commitment_no_status_check lib c1) (\<lambda>(cs, mupd) c2. (c2, Ok (Some (msg, cs, mupd)))))"

section \<open>A new commitment from the peer\<close>

fun acked_inbound :: "'fwd InboundHTLCState \<Rightarrow> 'fwd InboundHTLCState" where
  "acked_inbound (RemoteAnnounced forward_info) = AwaitingRemoteRevokeToAnnounce forward_info"
| "acked_inbound st = st"

fun acked_outbound :: "OutboundHTLCState \<Rightarrow> OutboundHTLCState" where
  "acked_outbound (RemoteRemoved outcome) = AwaitingRemoteRevokeToRemove outcome"
| "acked_outbound st = st"

definition acked_fee :: "(u32 \<times> FeeUpdateState) option \<Rightarrow> (u32 \<times> FeeUpdateState) option" where
  "acked_fee f = (case f of Some (feerate, FeeRemoteAnnounced) \<Rightarrow> Some (feerate, FeeAwaitingRemoteRevokeToAnnounce) | _ \<Rightarrow> f)"

definition needs_commitment :: "('fwd, 'src) channel \<Rightarrow> bool" where
  "needs_commitment c \<longleftrightarrow>
     (case pending_update_fee c of Some (_, FeeRemoteAnnounced) \<Rightarrow> True | _ \<Rightarrow> False) \<or>
     (\<exists>h\<in>set (pending_inbound_htlcs c). case ih_state h of RemoteAnnounced _ \<Rightarrow> True | _ \<Rightarrow> False) \<or>
     (\<exists>h\<in>set (pending_outbound_htlcs c). case oh_state h of RemoteRemoved _ \<Rightarrow> True | _ \<Rightarrow> False)"

fun check_htlc_sigs ::
  "'k chan_lib \<Rightarrow> 'k commitment_tx \<Rightarrow> bytes list \<Rightarrow> nat \<Rightarrow> (HTLCOutputInCommitment \<times> 'src option) list \<Rightarrow>
   (ChannelError, (HTLCOutputInCommitment \<times> bytes option \<times> 'src option) list) outcome" where
  "check_htlc_sigs lib tx sigs idx [] = Ok []"
| "check_htlc_sigs lib tx sigs idx ((htlc, src) # rest) =
     (case hc_transaction_output_index htlc of
        None \<Rightarrow> map_ok (\<lambda>xs. (htlc, None, src) # xs) (check_htlc_sigs lib tx sigs (idx + 1) rest)
      | Some _ \<Rightarrow>
          if length sigs \<le> idx then Panic
          else if \<not> verify_htlc_sig lib tx htlc (sigs ! idx) then close_with ''Invalid HTLC tx signature from peer''
          else map_ok (\<lambda>xs. (htlc, Some (sigs ! idx), src) # xs) (check_htlc_sigs lib tx sigs (idx + 1) rest))"

definition check_commitment_signed ::
  "'k chan_lib \<Rightarrow> CommitmentSigned \<Rightarrow> ('fwd, 'src) channel \<Rightarrow> (ChannelError, ('k, 'src) ChannelMonitorUpdateStep) outcome" where
  "check_commitment_signed lib msg c =
     (if \<not> in_state ChannelFunded c then close_with ''Got commitment signed message when channel was not in an operational state''
      else if in_state PeerDisconnected c then close_with ''Peer sent commitment_signed when we needed a channel_reestablish''
      else if in_state BOTH_SIDES_SHUTDOWN_MASK c \<and> last_sent_closing_fee c \<noteq> None
      then close_with ''Peer sent commitment_signed after we'd started exchanging closing_signeds''
      else and_then (build_holder_transaction_keys lib (cur_holder_commitment_transaction_number c)) (\<lambda>keys.
           and_then (build_commitment_transaction lib (cur_holder_commitment_transaction_number c) keys True False c) (\<lambda>stats.
             if \<not> verify_commitment_sig lib (st_tx stats) (cs_signature msg) then close_with ''Invalid commitment tx signature from peer''
             else if (case pending_update_fee c of Some (_, FeeRemoteAnnounced) \<Rightarrow> True | _ \<Rightarrow> False) \<and>
                     st_remote_balance_msat stats < st_total_fee_sat stats * 1000 + holder_selected_channel_reserve_satoshis c * 1000
             then close_with ''Funding remote cannot afford proposed new fee''
             else if length (cs_htlc_signatures msg) \<noteq> st_num_nondust_htlcs stats
             then close_with (''Got wrong number of HTLC signatures ('' @ show_nat (length (cs_htlc_signatures msg)) @ '') from remote. It must be '' @ show_nat (st_num_nondust_htlcs stats))
             else and_then (check_htlc_sigs lib (st_tx stats) (cs_htlc_signatures msg) 0 (st_htlcs_included stats)) (\<lambda>htlcs_and_sigs.
               if \<not> validate_holder_commitment lib (st_tx stats) (cs_signature msg) (cs_htlc_signatures msg) (st_preimages stats)
               then close_with ''Failed to validate our commitment''
               else Ok (LatestHolderCommitmentTXInfo (st_tx stats) (cs_signature msg) (cs_htlc_signatures msg) htlcs_and_sigs)))))"

definition commitment_signed ::
  "'k chan_lib \<Rightarrow> CommitmentSigned \<Rightarrow> ('fwd, 'src) channel \<Rightarrow>
   ('fwd, 'src) channel \<times> (('k, 'src) ChannelMonitorUpdate option \<times> ChannelError, RevokeAndACK \<times> CommitmentSigned option \<times> ('k, 'src) ChannelMonitorUpdate) outcome" where
  "commitment_signed lib msg c =
     (case check_commitment_signed lib msg c of
        Err e \<Rightarrow> (c, Err (None, e))
      | Panic \<Rightarrow> (c, Panic)
      | Ok step \<Rightarrow>
          (let raa = \<lparr>ra_channel_id = channel_id c,
                      ra_per_commitment_secret = release_commitment_secret lib (cur_holder_commitment_transaction_number c + 1),
                      ra_next_per_commitment_point = get_per_commitment_point lib (cur_holder_commitment_transaction_number c - 1)\<rparr>;
               need_commitment = needs_commitment c;
               c1 = (map_outbound acked_outbound (map_inbound acked_inbound c))
                      \<lparr>pending_update_fee := acked_fee (pending_update_fee c),
                       latest_monitor_update_id := latest_monitor_update_id c + 1,
                       cur_holder_commitment_transaction_number := cur_holder_commitment_transaction_number c - 1,
                       resend_order := CommitmentFirst\<rparr>;
               mupd = \<lparr>mu_update_id = latest_monitor_update_id c1, mu_updates = [step]\<rparr>;
               sends = need_commitment \<and> \<not> any_state AwaitingRemoteRevoke c1;
               c2 = (if any_state MonitorUpdateFailed c1
                     then c1\<lparr>monitor_pending_revoke_and_ack := True, monitor_pending_commitment_signed := monitor_pending_commitment_signed c1 \<or> sends\<rparr>
                     else c1);
               answer = (\<lambda>cs m c3. if any_state MonitorUpdateFailed c1
                           then (c3, Err (Some m, Ignore ''Previous monitor update failure prevented generation of RAA''))
                           else (c3, Ok (raa, cs, m))) in
           if \<not> sends then answer None mupd c2
           else case send_commitment_no_status_check lib c2 of
                  (c3, Ok (cs, additional)) \<Rightarrow>
                    answer (Some cs) (mupd\<lparr>mu_updates := mu_updates mupd @ mu_updates additional\<rparr>) (c3\<lparr>latest_monitor_update_id := mu_update_id mupd\<rparr>)
                | (c3, Err e) \<Rightarrow> (c3, Err (None, e))
                | (c3, Panic) \<Rightarrow> (c3, Panic)))"

section \<open>The holding cell\<close>

record freed =
  fr_adds :: "UpdateAddHTLC list"
  fr_fulfills :: "UpdateFulfillHTLC list"
  fr_fails :: "UpdateFailHTLC list"

fun free_loop ::
  "'k chan_lib \<Rightarrow> 'src HTLCUpdateAwaitingACK list \<Rightarrow> freed \<times> ('src \<times> bytes) list \<times> ('k, 'src) ChannelMonitorUpdateStep list \<Rightarrow>
   ('fwd, 'src) channel \<Rightarrow> ('fwd, 'src, freed \<times> ('src \<times> bytes) list \<times> ('k, 'src) ChannelMonitorUpdateStep list) chan_result" where
  "free_loop lib [] acc c = (c, Ok acc)"
| "free_loop lib (AddHTLC amount_msat cltv_expiry payment_hash src onion # us) (fr, to_fail, steps) c =
     (case send_htlc lib amount_msat payment_hash cltv_expiry src onion c of
        (c1, Ok (Some msg)) \<Rightarrow> free_loop lib us (fr\<lparr>fr_adds := fr_adds fr @ [msg]\<rparr>, to_fail, steps) c1
      | (c1, Ok None) \<Rightarrow> (c1, Panic)
      | (c1, Err (Ignore _)) \<Rightarrow> free_loop lib us (fr, to_fail @ [(src, payment_hash)], steps) c1
      | (c1, _) \<Rightarrow> (c1, Panic))"
| "free_loop lib (ClaimHTLC payment_preimage htlc_id # us) (fr, to_fail, steps) c =
     (case get_update_fulfill_htlc lib htlc_id payment_preimage c of
        (c1, Ok (NewClaim mupd _ (Some msg))) \<Rightarrow> free_loop lib us (fr\<lparr>fr_fulfills := fr_fulfills fr @ [msg]\<rparr>, to_fail, steps @ mu_updates mupd) c1
      | (c1, _) \<Rightarrow> (c1, Panic))"
| "free_loop lib (FailHTLC htlc_id err_packet # us) (fr, to_fail, steps) c =
     (case get_update_fail_htlc htlc_id err_packet c of
        (c1, Ok (Some msg)) \<Rightarrow> free_loop lib us (fr\<lparr>fr_fails := fr_fails fr @ [msg]\<rparr>, to_fail, steps) c1
      | (c1, Err (Ignore _)) \<Rightarrow> free_loop lib us (fr, to_fail, steps) c1
      | (c1, _) \<Rightarrow> (c1, Panic))"

definition free_holding_cell_htlcs ::
  "'k chan_lib \<Rightarrow> ('fwd, 'src) channel \<Rightarrow>
   ('fwd, 'src, (CommitmentUpdate \<times> ('k, 'src) ChannelMonitorUpdate) option \<times> ('src \<times> bytes) list) chan_result" where
  "free_holding_cell_htlcs lib c =
     (if any_state MonitorUpdateFailed c then (c, Panic)
      else if holding_cell_htlc_updates c = [] \<and> holding_cell_update_fee c = None then (c, Ok (None, []))
      else let update_id = latest_monitor_update_id c + 1 in
        then_run (free_loop lib (holding_cell_htlc_updates c) (\<lparr>fr_adds = [], fr_fulfills = [], fr_fails = []\<rparr>, [], []) (c\<lparr>holding_cell_htlc_updates := []\<rparr>))
          (\<lambda>(fr, to_fail, steps) c1.
            if fr_adds fr = [] \<and> fr_fulfills fr = [] \<and> fr_fails fr = [] \<and> holding_cell_update_fee c1 = None then (c1, Ok (None, to_fail))
            else then_run (case holding_cell_update_fee c1 of
                             Some feerate \<Rightarrow> send_update_fee lib feerate (c1\<lparr>holding_cell_update_fee := None\<rparr>)
                           | None \<Rightarrow> (c1, Ok None)) (\<lambda>fee c2.
                 then_run (send_commitment_no_status_check lib c2) (\<lambda>(cs, additional) c3.
                   (c3\<lparr>latest_monitor_update_id := update_id\<rparr>,
                    Ok (Some (\<lparr>cu_update_add_htlcs = fr_adds fr, cu_update_fulfill_htlcs = fr_fulfills fr, cu_update_fail_htlcs = fr_fails fr,
                               cu_update_fail_malformed_htlcs = [], cu_update_fee = fee, cu_commitment_signed = cs\<rparr>,
                              \<lparr>mu_update_id = update_id, mu_updates = steps @ mu_updates additional\<rparr>), to_fail))))))"

definition maybe_free_holding_cell_htlcs ::
  "'k chan_lib \<Rightarrow> ('fwd, 'src) channel \<Rightarrow>
   ('fwd, 'src, (CommitmentUpdate \<times> ('k, 'src) ChannelMonitorUpdate) option \<times> ('src \<times> bytes) list) chan_result" where
  "maybe_free_holding_cell_htlcs lib c =
     (if channel_state c \<ge> ChannelFunded \<and> \<not> must_hold c then free_holding_cell_htlcs lib c else (c, Ok (None, [])))"

section \<open>The peer revokes its previous commitment\<close>

record ('k, 'fwd, 'src) RAAUpdates =
  raa_commitment_update :: "CommitmentUpdate option"
  raa_accepted_htlcs :: "('fwd \<times> u64) list"
  raa_failed_htlcs :: "('src \<times> bytes \<times> HTLCFailReason) list"
  raa_finalized_claimed_htlcs :: "'src list"
  raa_monitor_update :: "('k, 'src) ChannelMonitorUpdate"
  raa_holding_cell_failed_htlcs :: "('src \<times> bytes) list"

definition check_revoke ::
  "'k chan_lib \<Rightarrow> RevokeAndACK \<Rightarrow> ('fwd, 'src) channel \<Rightarrow> (ChannelError, secrets) outcome" where
  "check_revoke lib msg c =
     (if \<not> in_state ChannelFunded c then close_with ''Got revoke/ACK message when channel was not in an operational state''
      else if in_state PeerDisconnected c then close_with ''Peer sent revoke_and_ack when we needed a channel_reestablish''
      else if in_state BOTH_SIDES_SHUTDOWN_MASK c \<and> last_sent_closing_fee c \<noteq> None
      then close_with ''Peer sent revoke_and_ack after we'd started exchanging closing_signeds''
      else case secret_to_point lib (ra_per_commitment_secret msg) of
        None \<Rightarrow> close_with ''Peer provided an invalid per_commitment_secret''
      | Some point \<Rightarrow>
          if (case counterparty_prev_commitment_point c of Some prev \<Rightarrow> point \<noteq> prev | None \<Rightarrow> False)
          then close_with ''Got a revoke commitment secret which didn't correspond to their current pubkey''
          else if \<not> any_state AwaitingRemoteRevoke c then close_with ''Received an unexpected revoke_and_ack''
          else if \<not> validate_counterparty_revocation lib (cur_counterparty_commitment_transaction_number c + 1) (ra_per_commitment_secret msg)
          then close_with ''Failed to validate revocation from peer''
          else (case provide_secret (chan_sha256 lib) (commitment_secrets c) (cur_counterparty_commitment_transaction_number c + 1) (ra_per_commitment_secret msg) of
                  Ok secrets \<Rightarrow> Ok secrets
                | Err _ \<Rightarrow> close_with ''Previous secrets did not match new one''
                | Panic \<Rightarrow> Panic))"

fun is_local_removed :: "'fwd InboundHTLCState \<Rightarrow> bool" where
  "is_local_removed (LocalRemoved _) = True"
| "is_local_removed _ = False"

fun is_fulfilled_in :: "'fwd InboundHTLCState \<Rightarrow> bool" where
  "is_fulfilled_in (LocalRemoved (Fulfill _)) = True"
| "is_fulfilled_in _ = False"

fun removed_outcome :: "OutboundHTLCState \<Rightarrow> OutboundHTLCOutcome option" where
  "removed_outcome (AwaitingRemovedRemoteRevoke outcome) = Some outcome"
| "removed_outcome _ = None"

fun revoked_inbound :: "'fwd InboundHTLCState \<Rightarrow> 'fwd InboundHTLCState" where
  "revoked_inbound (AwaitingRemoteRevokeToAnnounce forward_info) = AwaitingAnnouncedRemoteRevoke forward_info"
| "revoked_inbound (AwaitingAnnouncedRemoteRevoke (FailHTLCStatus (Relay msg))) = LocalRemoved (FailRelay (ul_reason msg))"
| "revoked_inbound (AwaitingAnnouncedRemoteRevoke (FailHTLCStatus (Malformed msg))) = LocalRemoved (FailMalformed (um_sha256_of_onion msg) (um_failure_code msg))"
| "revoked_inbound (AwaitingAnnouncedRemoteRevoke (Forward _)) = InCommitted"
| "revoked_inbound st = st"

fun revoked_outbound :: "OutboundHTLCState \<Rightarrow> OutboundHTLCState" where
  "revoked_outbound (LocalAnnounced _) = OutCommitted"
| "revoked_outbound (AwaitingRemoteRevokeToRemove outcome) = AwaitingRemovedRemoteRevoke outcome"
| "revoked_outbound st = st"

record ('fwd, 'src) revoked =
  rv_to_forward_infos :: "('fwd \<times> u64) list"
  rv_revoked_htlcs :: "('src \<times> bytes \<times> HTLCFailReason) list"
  rv_finalized_claimed_htlcs :: "'src list"
  rv_update_fail_htlcs :: "UpdateFailHTLC list"
  rv_update_fail_malformed_htlcs :: "UpdateFailMalformedHTLC list"
  rv_require_commitment :: bool

definition revoked_updates :: "('fwd, 'src) channel \<Rightarrow> ('fwd, 'src) revoked" where
  "revoked_updates c =
     \<lparr>rv_to_forward_infos = List.map_filter (\<lambda>h. case ih_state h of AwaitingAnnouncedRemoteRevoke (Forward f) \<Rightarrow> Some (f, ih_htlc_id h) | _ \<Rightarrow> None) (pending_inbound_htlcs c),
      rv_revoked_htlcs = List.map_filter (\<lambda>h. case removed_outcome (oh_state h) of Some (Failure r) \<Rightarrow> Some (oh_source h, oh_payment_hash h, r) | _ \<Rightarrow> None) (pending_outbound_htlcs c),
      rv_finalized_claimed_htlcs = List.map_filter (\<lambda>h. case removed_outcome (oh_state h) of Some (Success _) \<Rightarrow> Some (oh_source h) | _ \<Rightarrow> None) (pending_outbound_htlcs c),
      rv_update_fail_htlcs = List.map_filter (\<lambda>h. case ih_state h of AwaitingAnnouncedRemoteRevoke (FailHTLCStatus (Relay msg)) \<Rightarrow> Some msg | _ \<Rightarrow> None) (pending_inbound_htlcs c),
      rv_update_fail_malformed_htlcs = List.map_filter (\<lambda>h. case ih_state h of AwaitingAnnouncedRemoteRevoke (FailHTLCStatus (Malformed msg)) \<Rightarrow> Some msg | _ \<Rightarrow> None) (pending_inbound_htlcs c),
      rv_require_commitment =
        ((\<exists>h\<in>set (pending_inbound_htlcs c). case ih_state h of
            AwaitingRemoteRevokeToAnnounce _ \<Rightarrow> True | AwaitingAnnouncedRemoteRevoke (FailHTLCStatus _) \<Rightarrow> True | _ \<Rightarrow> False) \<or>
         (\<exists>h\<in>set (pending_outbound_htlcs c). case oh_state h of AwaitingRemoteRevokeToRemove _ \<Rightarrow> True | _ \<Rightarrow> False) \<or>
         (case pending_update_fee c of Some (_, FeeAwaitingRemoteRevokeToAnnounce) \<Rightarrow> True | _ \<Rightarrow> False))\<rparr>"

definition value_diff :: "('fwd, 'src) channel \<Rightarrow> u64" where
  "value_diff c =
     (\<Sum>h\<leftarrow>filter (\<lambda>h. is_fulfilled_in (ih_state h)) (pending_inbound_htlcs c). ih_amount_msat h) -
     (\<Sum>h\<leftarrow>filter (\<lambda>h. case removed_outcome (oh_state h) of Some (Success _) \<Rightarrow> True | _ \<Rightarrow> False) (pending_outbound_htlcs c). oh_amount_msat h)"

definition settle_htlcs :: "('fwd, 'src) channel \<Rightarrow> ('fwd, 'src) channel" where
  "settle_htlcs c =
     (let c1 = c\<lparr>pending_inbound_htlcs := filter (\<lambda>h. \<not> is_local_removed (ih_state h)) (pending_inbound_htlcs c),
                 pending_outbound_htlcs := filter (\<lambda>h. removed_outcome (oh_state h) = None) (pending_outbound_htlcs c),
                 value_to_self_msat := value_to_self_msat c + value_diff c\<rparr>
      in map_outbound revoked_outbound (map_inbound revoked_inbound c1))"

definition settle_fee :: "('fwd, 'src) channel \<Rightarrow> ('fwd, 'src) channel" where
  "settle_fee c =
     (case pending_update_fee c of
        Some (feerate, FeeOutbound) \<Rightarrow> c\<lparr>feerate_per_kw := feerate, pending_update_fee := None\<rparr>
      | Some (feerate, FeeAwaitingRemoteRevokeToAnnounce) \<Rightarrow> c\<lparr>feerate_per_kw := feerate, pending_update_fee := None\<rparr>
      | _ \<Rightarrow> c)"

definition step_revocation :: "RevokeAndACK \<Rightarrow> secrets \<Rightarrow> ('fwd, 'src) channel \<Rightarrow> ('fwd, 'src) channel" where
  "step_revocation msg secrets c =
     settle_fee (settle_htlcs (c\<lparr>commitment_secrets := secrets,
       latest_monitor_update_id := latest_monitor_update_id c + 1,
       channel_state := channel_state c AND NOT AwaitingRemoteRevoke,
       counterparty_prev_commitment_point := counterparty_cur_commitment_point c,
       counterparty_cur_commitment_point := Some (ra_next_per_commitment_point msg),
       cur_counterparty_commitment_transaction_number := cur_counterparty_commitment_transaction_number c - 1,
       announcement_sigs_state := (if announcement_sigs_state c = SigsCommitted then PeerReceived else announcement_sigs_state c)\<rparr>))"

definition hold_revoked ::
  "'k chan_lib \<Rightarrow> ('k, 'src) ChannelMonitorUpdate \<Rightarrow> ('fwd, 'src) revoked \<Rightarrow> ('fwd, 'src) channel \<Rightarrow> ('fwd, 'src, ('k, 'fwd, 'src) RAAUpdates) chan_result" where
  "hold_revoked lib mupd rv c =
     then_run (if rv_require_commitment rv
               then then_run (send_commitment_no_status_check lib (c\<lparr>monitor_pending_commitment_signed := True\<rparr>)) (\<lambda>(_, additional) c1.
                      (c1\<lparr>latest_monitor_update_id := mu_update_id mupd\<rparr>, Ok (mupd\<lparr>mu_updates := mu_updates mupd @ mu_updates additional\<rparr>)))
               else (c, Ok mupd)) (\<lambda>m c1.
       (c1\<lparr>monitor_pending_forwards := monitor_pending_forwards c1 @ rv_to_forward_infos rv,
           monitor_pending_failures := monitor_pending_failures c1 @ rv_revoked_htlcs rv,
           monitor_pending_finalized_fulfills := monitor_pending_finalized_fulfills c1 @ rv_finalized_claimed_htlcs rv\<rparr>,
        Ok \<lparr>raa_commitment_update = None, raa_accepted_htlcs = [], raa_failed_htlcs = [], raa_finalized_claimed_htlcs = [],
            raa_monitor_update = m, raa_holding_cell_failed_htlcs = []\<rparr>))"

definition answer_revoked ::
  "'k chan_lib \<Rightarrow> ('k, 'src) ChannelMonitorUpdate \<Rightarrow> ('fwd, 'src) revoked \<Rightarrow> ('fwd, 'src) channel \<Rightarrow> ('fwd, 'src, ('k, 'fwd, 'src) RAAUpdates) chan_result" where
  "answer_revoked lib mupd rv c =
     then_run (free_holding_cell_htlcs lib c) (\<lambda>(freed, htlcs_to_fail) c1.
       let result = (\<lambda>upd m. \<lparr>raa_commitment_update = upd, raa_accepted_htlcs = rv_to_forward_infos rv, raa_failed_htlcs = rv_revoked_htlcs rv,
                      raa_finalized_claimed_htlcs = rv_finalized_claimed_htlcs rv, raa_monitor_update = m, raa_holding_cell_failed_htlcs = htlcs_to_fail\<rparr>) in
       case freed of
         Some (upd, additional) \<Rightarrow>
           (c1\<lparr>latest_monitor_update_id := mu_update_id mupd\<rparr>,
            Ok (result (Some (upd\<lparr>cu_update_fail_htlcs := cu_update_fail_htlcs upd @ rv_update_fail_htlcs rv,
                                  cu_update_fail_malformed_htlcs := cu_update_fail_malformed_htlcs upd @ rv_update_fail_malformed_htlcs rv\<rparr>))
                  (mupd\<lparr>mu_updates := mu_updates mupd @ mu_updates additional\<rparr>)))
       | None \<Rightarrow>
           if rv_require_commitment rv
           then then_run (send_commitment_no_status_check lib c1) (\<lambda>(cs, additional) c2.
                  (c2\<lparr>latest_monitor_update_id := mu_update_id mupd\<rparr>,
                   Ok (result (Some \<lparr>cu_update_add_htlcs = [], cu_update_fulfill_htlcs = [], cu_update_fail_htlcs = rv_update_fail_htlcs rv,
                                     cu_update_fail_malformed_htlcs = rv_update_fail_malformed_htlcs rv, cu_update_fee = None, cu_commitment_signed = cs\<rparr>)
                         (mupd\<lparr>mu_updates := mu_updates mupd @ mu_updates additional\<rparr>))))
           else (c1, Ok (result None mupd)))"

definition revoke_and_ack ::
  "'k chan_lib \<Rightarrow> RevokeAndACK \<Rightarrow> ('fwd, 'src) channel \<Rightarrow> ('fwd, 'src, ('k, 'fwd, 'src) RAAUpdates) chan_result" where
  "revoke_and_ack lib msg c =
     (case check_revoke lib msg c of
        Err e \<Rightarrow> (c, Err e)
      | Panic \<Rightarrow> (c, Panic)
      | Ok secrets \<Rightarrow>
          (let rv = revoked_updates c;
               c1 = step_revocation msg secrets c;
               mupd = \<lparr>mu_update_id = latest_monitor_update_id c1,
                       mu_updates = [CommitmentSecretStep (cur_counterparty_commitment_transaction_number c + 1) (ra_per_commitment_secret msg)]\<rparr> in
           if in_state MonitorUpdateFailed c1 then hold_revoked lib mupd rv c1 else answer_revoked lib mupd rv c1))"

section \<open>Pausing\<close>

fun unremoved :: "OutboundHTLCState \<Rightarrow> OutboundHTLCState" where
  "unremoved (RemoteRemoved _) = OutCommitted"
| "unremoved st = st"

fun is_remote_announced :: "'fwd InboundHTLCState \<Rightarrow> bool" where
  "is_remote_announced (RemoteAnnounced _) = True"
| "is_remote_announced _ = False"

definition remove_uncommitted_htlcs_and_mark_paused :: "('fwd, 'src) channel \<Rightarrow> ('fwd, 'src, unit) chan_result" where
  "remove_uncommitted_htlcs_and_mark_paused c =
     (if any_state ShutdownComplete c then (c, Panic)
      else if channel_state c < FundingSent then (c\<lparr>channel_state := ShutdownComplete\<rparr>, Ok ())
      else let kept = filter (\<lambda>h. \<not> is_remote_announced (ih_state h)) (pending_inbound_htlcs c);
               dropped = length (pending_inbound_htlcs c) - length kept in
           ((map_outbound unremoved c)
              \<lparr>announcement_sigs_state := (if announcement_sigs_state c = MessageSent \<or> announcement_sigs_state c = SigsCommitted then NotSent else announcement_sigs_state c),
               last_sent_closing_fee := None, pending_counterparty_closing_signed := None, closing_fee_limits := None,
               pending_inbound_htlcs := kept,
               next_counterparty_htlc_id := next_counterparty_htlc_id c - word_of_nat dropped,
               pending_update_fee := (case pending_update_fee c of Some (_, FeeRemoteAnnounced) \<Rightarrow> None | f \<Rightarrow> f),
               channel_state := channel_state c OR PeerDisconnected\<rparr>, Ok ()))"

definition monitor_update_failed ::
  "bool \<Rightarrow> bool \<Rightarrow> bool \<Rightarrow> ('fwd \<times> u64) list \<Rightarrow> ('src \<times> bytes \<times> HTLCFailReason) list \<Rightarrow> 'src list \<Rightarrow> ('fwd, 'src) channel \<Rightarrow> ('fwd, 'src) channel" where
  "monitor_update_failed resend_raa resend_commitment resend_channel_ready pending_forwards pending_fails pending_finalized c =
     c\<lparr>monitor_pending_revoke_and_ack := monitor_pending_revoke_and_ack c \<or> resend_raa,
       monitor_pending_commitment_signed := monitor_pending_commitment_signed c \<or> resend_commitment,
       monitor_pending_channel_ready := monitor_pending_channel_ready c \<or> resend_channel_ready,
       monitor_pending_forwards := monitor_pending_forwards c @ pending_forwards,
       monitor_pending_failures := monitor_pending_failures c @ pending_fails,
       monitor_pending_finalized_fulfills := monitor_pending_finalized_fulfills c @ pending_finalized,
       channel_state := channel_state c OR MonitorUpdateFailed\<rparr>"

definition get_last_revoke_and_ack :: "'k chan_lib \<Rightarrow> ('fwd, 'src) channel \<Rightarrow> RevokeAndACK" where
  "get_last_revoke_and_ack lib c =
     \<lparr>ra_channel_id = channel_id c, ra_per_commitment_secret = release_commitment_secret lib (cur_holder_commitment_transaction_number c + 2),
      ra_next_per_commitment_point = get_per_commitment_point lib (cur_holder_commitment_transaction_number c)\<rparr>"

definition get_last_commitment_update :: "'k chan_lib \<Rightarrow> ('fwd, 'src) channel \<Rightarrow> (ChannelError, CommitmentUpdate) outcome" where
  "get_last_commitment_update lib c =
     (case send_commitment_no_state_update lib c of
        Ok (cs, _) \<Rightarrow>
          Ok \<lparr>cu_update_add_htlcs = List.map_filter (\<lambda>h. case oh_state h of
                 LocalAnnounced onion \<Rightarrow> Some \<lparr>ua_channel_id = channel_id c, ua_htlc_id = oh_htlc_id h, ua_amount_msat = oh_amount_msat h,
                   ua_payment_hash = oh_payment_hash h, ua_cltv_expiry = oh_cltv_expiry h, ua_onion_routing_packet = onion\<rparr>
               | _ \<Rightarrow> None) (pending_outbound_htlcs c),
              cu_update_fulfill_htlcs = List.map_filter (\<lambda>h. case ih_state h of
                 LocalRemoved (Fulfill p) \<Rightarrow> Some \<lparr>uf_channel_id = channel_id c, uf_htlc_id = ih_htlc_id h, uf_payment_preimage = p\<rparr> | _ \<Rightarrow> None) (pending_inbound_htlcs c),
              cu_update_fail_htlcs = List.map_filter (\<lambda>h. case ih_state h of
                 LocalRemoved (FailRelay e) \<Rightarrow> Some \<lparr>ul_channel_id = channel_id c, ul_htlc_id = ih_htlc_id h, ul_reason = e\<rparr> | _ \<Rightarrow> None) (pending_inbound_htlcs c),
              cu_update_fail_malformed_htlcs = List.map_filter (\<lambda>h. case ih_state h of
                 LocalRemoved (FailMalformed sha code) \<Rightarrow> Some \<lparr>um_channel_id = channel_id c, um_htlc_id = ih_htlc_id h, um_sha256_of_onion = sha, um_failure_code = code\<rparr>
               | _ \<Rightarrow> None) (pending_inbound_htlcs c),
              cu_update_fee = (case pending_update_fee c of
                 Some (feerate, _) \<Rightarrow> if is_outbound c then Some \<lparr>ue_channel_id = channel_id c, ue_feerate_per_kw = feerate\<rparr> else None | None \<Rightarrow> None),
              cu_commitment_signed = cs\<rparr>
      | _ \<Rightarrow> Panic)"

end
