(* ===== verification/Channel_Funds.thy ===== *)
theory Channel_Funds
  imports Channel_Update
begin

text \<open>
  The money of a channel. Sums over HTLCs weighted by their state express what each side owns in the transactions
  either side can build. The invariant \<open>funds_ok\<close> is kept by every operation, whatever the peer sends, so that no
  commitment transaction ever pays out more than the channel holds and the assertions of
  \<open>build_commitment_transaction\<close> never fail.
\<close>

section \<open>Weighted sums\<close>

definition in_w :: "('fwd InboundHTLCState \<Rightarrow> int) \<Rightarrow> 'fwd InboundHTLCOutput list \<Rightarrow> int" where
  "in_w w hs = (\<Sum>h\<leftarrow>hs. w (ih_state h) * uint (ih_amount_msat h))"

definition out_w :: "(OutboundHTLCState \<Rightarrow> int) \<Rightarrow> 'src OutboundHTLCOutput list \<Rightarrow> int" where
  "out_w w hs = (\<Sum>h\<leftarrow>hs. w (oh_state h) * uint (oh_amount_msat h))"

definition held_sum :: "'src HTLCUpdateAwaitingACK list \<Rightarrow> int" where
  "held_sum us = (\<Sum>a\<leftarrow>held_adds us. uint a)"

lemma in_w_simps [simp]:
  "in_w w [] = 0" "in_w w (h # hs) = w (ih_state h) * uint (ih_amount_msat h) + in_w w hs" "in_w w (xs @ ys) = in_w w xs + in_w w ys"
  by (simp_all add: in_w_def)

lemma out_w_simps [simp]:
  "out_w w [] = 0" "out_w w (h # hs) = w (oh_state h) * uint (oh_amount_msat h) + out_w w hs" "out_w w (xs @ ys) = out_w w xs + out_w w ys"
  by (simp_all add: out_w_def)

lemma in_w_map: "in_w w (map (\<lambda>h. h\<lparr>ih_state := f (ih_state h)\<rparr>) hs) = in_w (\<lambda>s. w (f s)) hs"
  by (induction hs) simp_all

lemma out_w_map: "out_w w (map (\<lambda>h. h\<lparr>oh_state := f (oh_state h)\<rparr>) hs) = out_w (\<lambda>s. w (f s)) hs"
  by (induction hs) simp_all

lemma in_w_filter: "in_w w (filter (\<lambda>h. P (ih_state h)) hs) = in_w (\<lambda>s. if P s then w s else 0) hs"
  by (induction hs) simp_all

lemma out_w_filter: "out_w w (filter (\<lambda>h. P (oh_state h)) hs) = out_w (\<lambda>s. if P s then w s else 0) hs"
  by (induction hs) simp_all

lemma in_w_add: "in_w (\<lambda>s. f s + g s) hs = in_w f hs + in_w g hs"
  by (induction hs) (simp_all add: algebra_simps)

lemma out_w_add: "out_w (\<lambda>s. f s + g s) hs = out_w f hs + out_w g hs"
  by (induction hs) (simp_all add: algebra_simps)

lemma in_w_mono: "(\<And>s. f s \<le> g s) \<Longrightarrow> in_w f hs \<le> in_w g hs"
  by (induction hs) (simp_all add: add_mono mult_right_mono)

lemma out_w_mono: "(\<And>s. f s \<le> g s) \<Longrightarrow> out_w f hs \<le> out_w g hs"
  by (induction hs) (simp_all add: add_mono mult_right_mono)

lemma in_w_nonneg: "(\<And>s. 0 \<le> f s) \<Longrightarrow> 0 \<le> in_w f hs"
  using in_w_mono [of "\<lambda>s. 0" f hs] by (simp add: in_w_def)

lemma out_w_nonneg: "(\<And>s. 0 \<le> f s) \<Longrightarrow> 0 \<le> out_w f hs"
  using out_w_mono [of "\<lambda>s. 0" f hs] by (simp add: out_w_def)

lemma held_nonneg: "0 \<le> held_sum us"
  by (auto simp: held_sum_def intro!: sum_list_nonneg)

lemma in_w_set:
  assumes "i < length hs"
  shows "in_w w (hs[i := (hs ! i)\<lparr>ih_state := st\<rparr>]) = in_w w hs + (w st - w (ih_state (hs ! i))) * uint (ih_amount_msat (hs ! i))"
  using assms by (induction hs arbitrary: i) (auto simp: algebra_simps split: nat.splits)

lemma out_w_set:
  assumes "i < length hs"
  shows "out_w w (hs[i := (hs ! i)\<lparr>oh_state := st\<rparr>]) = out_w w hs + (w st - w (oh_state (hs ! i))) * uint (oh_amount_msat (hs ! i))"
  using assms by (induction hs arbitrary: i) (auto simp: algebra_simps split: nat.splits)

text \<open>Sums of words are the integer sums read modulo \<open>2^64\<close>.\<close>

lemma word_sum_int: "(\<Sum>x\<leftarrow>xs. f x) = word_of_int (\<Sum>x\<leftarrow>xs. uint (f x))" for f :: "'a \<Rightarrow> u64"
  by (induction xs) (simp_all add: wi_hom_syms)

lemma in_w_sum: "(\<Sum>h\<leftarrow>filter (\<lambda>h. P (ih_state h)) hs. uint (ih_amount_msat h)) = in_w (\<lambda>s. of_bool (P s)) hs"
  by (induction hs) simp_all

lemma out_w_sum: "(\<Sum>h\<leftarrow>filter (\<lambda>h. P (oh_state h)) hs. uint (oh_amount_msat h)) = out_w (\<lambda>s. of_bool (P s)) hs"
  by (induction hs) simp_all

lemma in_sum_word: "(\<Sum>h\<leftarrow>filter (\<lambda>h. P (ih_state h)) hs. ih_amount_msat h) = word_of_int (in_w (\<lambda>s. of_bool (P s)) hs)"
  by (simp only: word_sum_int in_w_sum)

lemma out_sum_word: "(\<Sum>h\<leftarrow>filter (\<lambda>h. P (oh_state h)) hs. oh_amount_msat h) = word_of_int (out_w (\<lambda>s. of_bool (P s)) hs)"
  by (simp only: word_sum_int out_w_sum)

lemma uint_of_range: "0 \<le> k \<Longrightarrow> k < 2 ^ 64 \<Longrightarrow> uint (word_of_int k :: u64) = k"
  by (simp add: uint_word_of_int)

lemma sint_of_range: "- (2 ^ 63) \<le> k \<Longrightarrow> k < 2 ^ 63 \<Longrightarrow> sint (word_of_int k :: u64) = k"
  by (simp add: sint_sbintrunc' signed_take_bit_int_eq_self)

section \<open>The invariant\<close>

fun w_open :: "OutboundHTLCState \<Rightarrow> int" where
  "w_open (AwaitingRemovedRemoteRevoke (Failure _)) = 0"
| "w_open _ = 1"

fun w_settled :: "OutboundHTLCState \<Rightarrow> int" where
  "w_settled (LocalAnnounced _) = 0"
| "w_settled _ = 1"

fun w_paid :: "OutboundHTLCState \<Rightarrow> int" where
  "w_paid (AwaitingRemovedRemoteRevoke (Success _)) = 1"
| "w_paid _ = 0"

fun w_paying :: "OutboundHTLCState \<Rightarrow> int" where
  "w_paying (AwaitingRemovedRemoteRevoke (Success _)) = 1"
| "w_paying (AwaitingRemoteRevokeToRemove (Success _)) = 1"
| "w_paying _ = 0"

fun w_claimed :: "'fwd InboundHTLCState \<Rightarrow> int" where
  "w_claimed (LocalRemoved (Fulfill _)) = 1"
| "w_claimed _ = 0"

fun w_theirs :: "'fwd InboundHTLCState \<Rightarrow> int" where
  "w_theirs (AwaitingAnnouncedRemoteRevoke _) = 1"
| "w_theirs InCommitted = 1"
| "w_theirs (LocalRemoved (Fulfill _)) = 1"
| "w_theirs _ = 0"

abbreviation total_msat :: "('fwd, 'src) channel \<Rightarrow> int" where
  "total_msat c \<equiv> 1000 * uint (channel_value_satoshis c)"

text \<open>
  \<open>C\<close> is the value of the channel, \<open>V\<close> our share of it before pending HTLCs. The first inequality says that what we
  offered and hold back is covered by our share and what we just claimed; the second that what is already
  committed is covered by our share alone; the third and fourth are the same for what the peer offered.
\<close>

definition balanced ::
  "int \<Rightarrow> int \<Rightarrow> 'fwd InboundHTLCOutput list \<Rightarrow> 'src OutboundHTLCOutput list \<Rightarrow> int \<Rightarrow> bool" where
  "balanced C V ins outs held \<longleftrightarrow>
     out_w w_open outs + held \<le> V + in_w w_claimed ins \<and> out_w w_settled outs \<le> V \<and>
     V + in_w (\<lambda>_. 1) ins \<le> C + out_w w_paying outs \<and> V + in_w w_theirs ins \<le> C + out_w w_paid outs \<and> V \<le> C"

definition funds_ok :: "('fwd, 'src) channel \<Rightarrow> bool" where
  "funds_ok c \<longleftrightarrow> total_msat c \<le> 4000000000000000 \<and> uint (holder_dust_limit_satoshis c) \<le> 1000 \<and> uint (counterparty_dust_limit_satoshis c) \<le> 1000 \<and>
     (\<forall>f. pending_update_fee c = Some (f, FeeOutbound) \<longrightarrow> is_outbound c) \<and>
     balanced (total_msat c) (uint (value_to_self_msat c)) (pending_inbound_htlcs c) (pending_outbound_htlcs c) (held_sum (holding_cell_htlc_updates c))"

text \<open>What a transaction gives to either side before fees.\<close>

definition to_self :: "bool \<Rightarrow> ('fwd, 'src) channel \<Rightarrow> int" where
  "to_self g c = uint (value_to_self_msat c) - out_w (\<lambda>s. of_bool (outbound_included g s)) (pending_outbound_htlcs c) +
     in_w (\<lambda>s. of_bool (inbound_offset g s)) (pending_inbound_htlcs c) - out_w (\<lambda>s. of_bool (outbound_offset g s)) (pending_outbound_htlcs c)"

definition to_remote :: "bool \<Rightarrow> ('fwd, 'src) channel \<Rightarrow> int" where
  "to_remote g c = total_msat c - uint (value_to_self_msat c) - in_w (\<lambda>s. of_bool (inbound_included g s)) (pending_inbound_htlcs c) -
     in_w (\<lambda>s. of_bool (inbound_offset g s)) (pending_inbound_htlcs c) + out_w (\<lambda>s. of_bool (outbound_offset g s)) (pending_outbound_htlcs c)"

lemma out_weights:
  "of_bool (outbound_included True s) + of_bool (outbound_offset True s) = w_open s"
  "of_bool (outbound_included False s) + of_bool (outbound_offset False s) \<le> w_settled s"
  "of_bool (outbound_offset True s) = w_paid s" "w_paying s \<le> of_bool (outbound_offset False s)"
  "of_bool (outbound_offset False s) \<le> w_settled s" "w_paid s \<le> w_settled s" "0 \<le> w_open s" "0 \<le> w_settled s" "0 \<le> w_paid s"
  by (cases s; cases "case s of RemoteRemoved x \<Rightarrow> x | AwaitingRemoteRevokeToRemove x \<Rightarrow> x | AwaitingRemovedRemoteRevoke x \<Rightarrow> x | _ \<Rightarrow> Success None"; simp)+

lemma in_weights:
  "of_bool (inbound_included True s) + of_bool (inbound_offset True s) = w_theirs s"
  "of_bool (inbound_included False s) + of_bool (inbound_offset False s) = (1 :: int)"
  "of_bool (inbound_offset True s) = w_claimed s" "of_bool (inbound_offset False s) = (0 :: int)" "0 \<le> w_claimed s" "0 \<le> w_theirs s" "w_claimed s \<le> w_theirs s"
  by (cases s; cases "case s of LocalRemoved r \<Rightarrow> r | _ \<Rightarrow> Fulfill []"; simp)+

lemma to_self_bounds:
  assumes "funds_ok c"
  shows "held_sum (holding_cell_htlc_updates c) \<le> to_self True c" "0 \<le> to_self g c" "to_self g c \<le> 8000000000000000"
proof -
  let ?o = "pending_outbound_htlcs c" and ?i = "pending_inbound_htlcs c" and ?V = "uint (value_to_self_msat c)" and ?C = "total_msat c"
  have b: "out_w w_open ?o + held_sum (holding_cell_htlc_updates c) \<le> ?V + in_w w_claimed ?i" "out_w w_settled ?o \<le> ?V"
    "?V + in_w w_theirs ?i \<le> ?C + out_w w_paid ?o" "?V \<le> ?C" "?C \<le> 4000000000000000"
    using assms by (simp_all add: funds_ok_def balanced_def)
  have t: "to_self True c = ?V + in_w w_claimed ?i - out_w w_open ?o"
    using out_w_add [of "\<lambda>s. of_bool (outbound_included True s)" "\<lambda>s. of_bool (outbound_offset True s)" ?o]
    by (simp add: to_self_def out_weights(1) in_weights(3))
  have f: "to_self False c = ?V - out_w (\<lambda>s. of_bool (outbound_included False s) + of_bool (outbound_offset False s)) ?o"
    by (simp add: to_self_def in_weights(4) out_w_add in_w_def)
  note m = out_w_mono [of "\<lambda>s. of_bool (outbound_included False s) + of_bool (outbound_offset False s)" w_settled ?o, OF out_weights(2)]
  note n = out_w_nonneg [of w_open ?o, OF out_weights(7)] out_w_nonneg [of "\<lambda>s. of_bool (outbound_included False s) + of_bool (outbound_offset False s)" ?o]
  note p = out_w_mono [of w_paid w_settled ?o, OF out_weights(6)] in_w_mono [of w_claimed w_theirs ?i, OF in_weights(7)]
  show h: "held_sum (holding_cell_htlc_updates c) \<le> to_self True c" using b(1) t by linarith
  show "0 \<le> to_self g c"
  proof (cases g)
    case True
    then show ?thesis using h held_nonneg [of "holding_cell_htlc_updates c"] by simp
  next
    case False
    then show ?thesis using f m b(2) by simp
  qed
  show "to_self g c \<le> 8000000000000000"
  proof (cases g)
    case True
    then show ?thesis using t n(1) p b by simp
  next
    case False
    then show ?thesis using f n(2) b by simp
  qed
qed

lemma to_remote_bounds:
  assumes "funds_ok c"
  shows "0 \<le> to_remote g c" "to_remote g c \<le> 8000000000000000"
proof -
  let ?o = "pending_outbound_htlcs c" and ?i = "pending_inbound_htlcs c" and ?V = "uint (value_to_self_msat c)" and ?C = "total_msat c"
  have b: "out_w w_settled ?o \<le> ?V" "?V + in_w (\<lambda>_. 1) ?i \<le> ?C + out_w w_paying ?o"
    "?V + in_w w_theirs ?i \<le> ?C + out_w w_paid ?o" "?V \<le> ?C" "?C \<le> 4000000000000000"
    using assms by (simp_all add: funds_ok_def balanced_def)
  have t: "to_remote True c = ?C - ?V - in_w w_theirs ?i + out_w w_paid ?o"
    using in_w_add [of "\<lambda>s. of_bool (inbound_included True s)" "\<lambda>s. of_bool (inbound_offset True s)" ?i]
    by (simp add: to_remote_def out_weights(3) in_weights(1))
  have f: "to_remote False c = ?C - ?V - in_w (\<lambda>_. 1) ?i + out_w (\<lambda>s. of_bool (outbound_offset False s)) ?o"
    using in_w_add [of "\<lambda>s. of_bool (inbound_included False s)" "\<lambda>s. of_bool (inbound_offset False s)" ?i]
    by (simp add: to_remote_def in_weights(2))
  note m = out_w_mono [of w_paying "\<lambda>s. of_bool (outbound_offset False s)" ?o, OF out_weights(4)]
    out_w_mono [of "\<lambda>s. of_bool (outbound_offset False s)" w_settled ?o, OF out_weights(5)] out_w_mono [of w_paid w_settled ?o, OF out_weights(6)]
  note n = in_w_nonneg [of w_theirs ?i, OF in_weights(6)] in_w_nonneg [of "\<lambda>_. 1" ?i]
  have V: "0 \<le> ?V" by simp
  show "0 \<le> to_remote g c" using t f m(1) b by (cases g) simp_all
  show "to_remote g c \<le> 8000000000000000" using t f m(2,3) n b V by (cases g) simp_all
qed

section \<open>Building a transaction never fails\<close>

lemma to_self_word: "(value_to_self_msat c - local_htlc_total g c) + self_offset g c = word_of_int (to_self g c)"
proof -
  have "value_to_self_msat c = word_of_int (uint (value_to_self_msat c))" by simp
  then show ?thesis
    unfolding local_htlc_total_def self_offset_def to_self_def in_sum_word out_sum_word
    by (simp only: wi_hom_syms) (simp add: algebra_simps)
qed

lemma to_remote_word:
  "channel_value_satoshis c * 1000 - value_to_self_msat c - remote_htlc_total g c - self_offset g c = word_of_int (to_remote g c)"
proof -
  have "value_to_self_msat c = word_of_int (uint (value_to_self_msat c))" "channel_value_satoshis c * 1000 = word_of_int (total_msat c)"
    by (simp_all add: mult.commute)
  then show ?thesis
    unfolding remote_htlc_total_def self_offset_def to_remote_def in_sum_word out_sum_word
    by (simp only: wi_hom_syms) (simp add: algebra_simps)
qed

lemma nonneg_word: "0 \<le> k \<Longrightarrow> k \<le> 8000000000000000 \<Longrightarrow> 0 \<le>s (word_of_int k :: u64)"
  by (simp add: word_sle_eq sint_of_range)

lemma kept_balance:
  assumes "0 \<le> k" "k \<le> 8000000000000000" "uint (d :: u64) \<le> 1000"
  shows "uint (if (word_of_int k :: u64) * 1000 <s d then 0 else word_of_int k :: u64) = k"
proof -
  have "sint (word_of_int (k * 1000) :: u64) = k * 1000" using assms by (intro sint_of_range) simp_all
  moreover have "(word_of_int k :: u64) * 1000 = word_of_int (k * 1000)" by simp
  ultimately have k: "sint ((word_of_int k :: u64) * 1000) = k * 1000" by (simp only:)
  have "sint (word_of_int (uint d) :: u64) = uint d" using assms(3) by (intro sint_of_range) (simp_all add: order_trans [of _ 0])
  then have d: "sint d = uint d" by simp
  show ?thesis
  proof (cases "(word_of_int k :: u64) * 1000 <s d")
    case True
    then have "k * 1000 < uint d" by (simp only: word_sless_alt k d)
    then have "k = 0" using assms(1,3) by linarith
    then show ?thesis by simp
  next
    case False
    then show ?thesis using assms(1,2) uint_of_range [of k] by simp
  qed
qed

lemma feerate_ok: "funds_ok c \<Longrightarrow> \<exists>f. commitment_feerate g c = Ok f"
  by (auto simp: commitment_feerate_def funds_ok_def split: option.splits FeeUpdateState.splits)

lemma sint_dust: "uint (d :: u64) \<le> 1000 \<Longrightarrow> sint d = uint d"
  using sint_of_range [of "uint d"] by (simp add: order_trans [of _ 0])

lemma div_i64_range: "0 \<le> k \<Longrightarrow> k \<le> 8000000000000000 \<Longrightarrow> div_i64 (word_of_int k) 1000 = word_of_int (k div 1000)"
proof -
  assume "0 \<le> k" "k \<le> 8000000000000000"
  moreover then have "sint (word_of_int k :: u64) = k" by (intro sint_of_range) simp_all
  ultimately show "div_i64 (word_of_int k) 1000 = word_of_int (k div 1000)" by (cases "k = 0") (simp_all add: div_i64_def)
qed

text \<open>The fee is below \<open>2^63\<close> whatever the number of HTLCs, because the division comes last: subtracting it never
  turns a small value into a large one.\<close>

lemma fee_range: "0 \<le> uint (commit_tx_fee_sat f n anchors)" "uint (commit_tx_fee_sat f n anchors) \<le> 18446744073709552"
proof -
  define w where "w = (ucast f * (commitment_tx_base_weight anchors + word_of_nat n * COMMITMENT_TX_WEIGHT_PER_HTLC) :: u64)"
  have "uint w < 18446744073709551616" using uint_lt2p [of w] by simp
  then show "uint (commit_tx_fee_sat f n anchors) \<le> 18446744073709552"
    by (simp add: commit_tx_fee_sat_def w_def [symmetric] uint_div_distrib)
qed simp

lemma trim_le:
  assumes "0 \<le> k" "k \<le> 8000000000000" "0 \<le> x" "x \<le> 20000000000000000" "uint d \<le> 1000"
  shows "uint (trim d (word_of_int (k - x))) \<le> k"
proof -
  have "sint (word_of_int (k - x) :: u64) = k - x" using assms by (intro sint_of_range) simp_all
  moreover have "sint d = uint d" "0 \<le> uint d" using assms(5) by (simp_all add: sint_dust)
  moreover have "x \<le> k \<Longrightarrow> uint (word_of_int (k - x) :: u64) = k - x" using assms by (intro uint_of_range) simp_all
  moreover have "uint d \<le> k - x \<Longrightarrow> x \<le> k" using \<open>0 \<le> uint d\<close> by linarith
  ultimately show ?thesis using assms(1,3) unfolding trim_def word_sle_eq by (cases "uint d \<le> k - x") simp_all
qed

text \<open>What the included HTLCs are worth in whole satoshis.\<close>

definition htlc_sats :: "HTLCOutputInCommitment list \<Rightarrow> int" where
  "htlc_sats hs = (\<Sum>h\<leftarrow>hs. uint (hc_amount_msat h) div 1000)"

lemma htlc_sats_simps [simp]: "htlc_sats [] = 0" "htlc_sats (h # hs) = uint (hc_amount_msat h) div 1000 + htlc_sats hs"
  "htlc_sats (xs @ ys) = htlc_sats xs + htlc_sats ys"
  by (simp_all add: htlc_sats_def)

lemma sats_nonneg [simp]: "0 \<le> uint (w :: u64) div 1000"
  by (simp add: pos_imp_zdiv_nonneg_iff)

lemma sats_le: "1000 * (uint (w :: u64) div 1000) \<le> uint w"
  by linarith

lemma htlc_sats_filter: "htlc_sats (map fst (filter P xs)) \<le> htlc_sats (map fst xs)"
  by (induction xs) (auto intro: add_increasing)

lemma htlc_sats_placed:
  "htlc_sats (map fst (map (\<lambda>((h, s), i). (h\<lparr>hc_transaction_output_index := Some i\<rparr>, s)) (zip xs is))) \<le> htlc_sats (map fst xs)"
proof (induction xs arbitrary: "is")
  case (Cons x xs)
  have "0 \<le> htlc_sats (map fst (x # xs))" unfolding htlc_sats_def by (rule sum_list_nonneg) (auto simp del: list.map)
  then show ?case using Cons [of "tl is"] by (cases x; cases "is") simp_all
qed simp

lemma div_sum_le: "0 \<le> a \<Longrightarrow> 1000 * s \<le> b \<Longrightarrow> (a + b) div 1000 \<ge> a div 1000 + s" for a b s :: int
  by linarith

lemma included_in_sats:
  "1000 * htlc_sats (map fst (map (\<lambda>h. (inbound_in_commitment l h, None)) (filter (\<lambda>h. inbound_included g (ih_state h)) hs))) \<le>
   in_w (\<lambda>s. of_bool (inbound_included g s)) hs"
proof (induction hs)
  case (Cons h hs)
  then show ?case using sats_le [of "ih_amount_msat h"] by (simp add: inbound_in_commitment_def)
qed simp

lemma included_out_sats:
  "1000 * htlc_sats (map fst (map (\<lambda>h. (outbound_in_commitment l h, Some (oh_source h))) (filter (\<lambda>h. outbound_included g (oh_state h)) hs))) \<le>
   out_w (\<lambda>s. of_bool (outbound_included g s)) hs"
proof (induction hs)
  case (Cons h hs)
  then show ?case using sats_le [of "oh_amount_msat h"] by (simp add: outbound_in_commitment_def)
qed simp

lemma included_sats:
  "1000 * htlc_sats (map fst (included_htlcs local g c)) \<le>
   in_w (\<lambda>s. of_bool (inbound_included g s)) (pending_inbound_htlcs c) + out_w (\<lambda>s. of_bool (outbound_included g s)) (pending_outbound_htlcs c)"
  unfolding included_htlcs_def map_append htlc_sats_simps distrib_left by (intro add_mono included_in_sats included_out_sats)

text \<open>Every commitment transaction can be built, its balances are exact, and it pays out no more than the channel holds.\<close>

lemma split_outputs:
  fixes a b s C :: int
  assumes "a + b + t = 1000 * C" "1000 * s \<le> t"
  shows "a div 1000 + b div 1000 + s \<le> C"
  using assms by linarith

lemma funder_pays:
  assumes "0 \<le> x" "x \<le> 8000000000000000" "0 \<le> y" "y \<le> 8000000000000000" "uint anchors \<le> 1000" "uint fee \<le> 18446744073709552"
  shows "\<exists>px py. 0 \<le> px \<and> px \<le> 20000000000000000 \<and> 0 \<le> py \<and> py \<le> 20000000000000000 \<and>
    (if outbound then (div_i64 (word_of_int x) 1000 - anchors - fee, div_i64 (word_of_int y) 1000)
     else (div_i64 (word_of_int x) 1000, div_i64 (word_of_int y) 1000 - anchors - fee)) =
    (word_of_int (x div 1000 - px), word_of_int (y div 1000 - py))"
proof -
  define p where "p = uint anchors + uint fee"
  have p: "0 \<le> p" "p \<le> 20000000000000000" using assms(5,6) by (simp_all add: p_def)
  have w: "word_of_int z - anchors - fee = word_of_int (z - p)" for z by (simp add: algebra_simps p_def)
  show ?thesis
  proof (cases outbound)
    case True
    then show ?thesis using p unfolding div_i64_range [OF assms(1,2)] div_i64_range [OF assms(3,4)] w by (intro exI [of _ p] exI [of _ 0]) simp
  next
    case False
    then show ?thesis using p unfolding div_i64_range [OF assms(1,2)] div_i64_range [OF assms(3,4)] w by (intro exI [of _ 0] exI [of _ p]) simp
  qed
qed

lemma trims_le:
  assumes "0 \<le> x" "x \<le> 8000000000000000" "0 \<le> y" "y \<le> 8000000000000000" "0 \<le> px" "px \<le> 20000000000000000" "0 \<le> py" "py \<le> 20000000000000000" "uint d \<le> 1000"
  shows "uint (trim d (if l then word_of_int (x div 1000 - px) else word_of_int (y div 1000 - py))) +
    uint (trim d (if l then word_of_int (y div 1000 - py) else word_of_int (x div 1000 - px))) \<le> x div 1000 + y div 1000"
proof -
  have "uint (trim d (word_of_int (x div 1000 - px))) \<le> x div 1000" "uint (trim d (word_of_int (y div 1000 - py))) \<le> y div 1000"
    using assms by (intro trim_le; simp add: pos_imp_zdiv_nonneg_iff)+
  then show ?thesis by (cases l) simp_all
qed

lemma build_ok:
  assumes "funds_ok c"
  shows "\<exists>stats. build_commitment_transaction lib n keys local g c = Ok stats \<and>
    uint (st_local_balance_msat stats) = to_self g c \<and> uint (st_remote_balance_msat stats) = to_remote g c \<and>
    uint (ct_value_a (st_tx stats)) + uint (ct_value_b (st_tx stats)) + htlc_sats (ct_htlcs (st_tx stats)) \<le> uint (channel_value_satoshis c)"
proof -
  obtain f where f: "commitment_feerate g c = Ok f" using feerate_ok [OF assms] by blast
  define x where "x = to_self g c"
  define y where "y = to_remote g c"
  have x: "0 \<le> x" "x \<le> 8000000000000000" and y: "0 \<le> y" "y \<le> 8000000000000000"
    using to_self_bounds [OF assms] to_remote_bounds [OF assms] by (simp_all add: x_def y_def)
  define dust where "dust = (if local then holder_dust_limit_satoshis c else counterparty_dust_limit_satoshis c)"
  have d: "uint dust \<le> 1000" using assms by (simp add: funds_ok_def dust_def)
  define av where "av = (if opt_anchors c then ANCHOR_OUTPUT_VALUE_SATOSHI * 2 else 0)"
  define nd where "nd = filter (\<lambda>(h, s). is_nondust dust f (opt_anchors c) (hc_offered h) h) (included_htlcs local g c)"
  have av: "uint av \<le> 1000" by (simp add: av_def ANCHOR_OUTPUT_VALUE_SATOSHI_def)
  obtain px py where pp: "0 \<le> px" "px \<le> 20000000000000000" "0 \<le> py" "py \<le> 20000000000000000"
    "(if is_outbound c then (div_i64 (word_of_int x) 1000 - av - commit_tx_fee_sat f (length nd) (opt_anchors c), div_i64 (word_of_int y) 1000)
      else (div_i64 (word_of_int x) 1000, div_i64 (word_of_int y) 1000 - av - commit_tx_fee_sat f (length nd) (opt_anchors c))) =
     (word_of_int (x div 1000 - px), word_of_int (y div 1000 - py))"
    using funder_pays [OF x y av fee_range(2)] by blast
  have sats: "x div 1000 + y div 1000 + htlc_sats (map fst (included_htlcs local g c)) \<le> uint (channel_value_satoshis c)"
    by (rule split_outputs [OF _ included_sats]) (simp add: x_def y_def to_self_def to_remote_def)
  note placed = order_trans [OF htlc_sats_placed [of nd] htlc_sats_filter [of "\<lambda>(h, s). is_nondust dust f (opt_anchors c) (hc_offered h) h" "included_htlcs local g c", folded nd_def]]
  define va where "va = trim dust (if local then word_of_int (x div 1000 - px) else word_of_int (y div 1000 - py))"
  define vb where "vb = trim dust (if local then word_of_int (y div 1000 - py) else word_of_int (x div 1000 - px))"
  have outputs: "uint va + uint vb + htlc_sats (map fst (map (\<lambda>((h, s), i). (h\<lparr>hc_transaction_output_index := Some i\<rparr>, s)) (zip nd is))) \<le> uint (channel_value_satoshis c)" for "is"
    using trims_le [OF x y pp(1-4) d, of local, folded va_def vb_def] sats placed [of "is"] by linarith
  show ?thesis
    unfolding build_commitment_transaction_def f and_then.simps to_self_word to_remote_word x_def [symmetric] y_def [symmetric] dust_def [symmetric]
      av_def [symmetric] Let_def nd_def [symmetric] pp(5) prod.case va_def [symmetric] vb_def [symmetric]
    using nonneg_word [OF x] nonneg_word [OF y] kept_balance [OF x d] kept_balance [OF y d] outputs by (simp del: map_map)
qed

section \<open>Every operation keeps the invariant\<close>

abbreviation keeps :: "('fwd, 'src) channel \<times> 'r \<Rightarrow> bool" where
  "keeps r \<equiv> funds_ok (fst r)"

lemma keeps_then_run: "keeps r \<Longrightarrow> (\<And>a c. funds_ok c \<Longrightarrow> keeps (f a c)) \<Longrightarrow> keeps (then_run r f)"
  by (cases r; cases "snd r") (auto simp: then_run_def)

lemma funds_ok_frame [simp]:
  "funds_ok (c\<lparr>latest_monitor_update_id := i\<rparr>) = funds_ok c" "funds_ok (c\<lparr>channel_state := st\<rparr>) = funds_ok c"
  "funds_ok (c\<lparr>resend_order := ro\<rparr>) = funds_ok c" "funds_ok (c\<lparr>announcement_sigs_state := a\<rparr>) = funds_ok c"
  "funds_ok (c\<lparr>monitor_pending_revoke_and_ack := b\<rparr>) = funds_ok c" "funds_ok (c\<lparr>monitor_pending_commitment_signed := b\<rparr>) = funds_ok c"
  "funds_ok (c\<lparr>monitor_pending_channel_ready := b\<rparr>) = funds_ok c" "funds_ok (c\<lparr>monitor_pending_forwards := x\<rparr>) = funds_ok c"
  "funds_ok (c\<lparr>monitor_pending_failures := y\<rparr>) = funds_ok c" "funds_ok (c\<lparr>monitor_pending_finalized_fulfills := z\<rparr>) = funds_ok c"
  "funds_ok (c\<lparr>commitment_secrets := se\<rparr>) = funds_ok c" "funds_ok (c\<lparr>counterparty_prev_commitment_point := pp\<rparr>) = funds_ok c"
  "funds_ok (c\<lparr>counterparty_cur_commitment_point := pp\<rparr>) = funds_ok c" "funds_ok (c\<lparr>cur_counterparty_commitment_transaction_number := i\<rparr>) = funds_ok c"
  "funds_ok (c\<lparr>cur_holder_commitment_transaction_number := i\<rparr>) = funds_ok c" "funds_ok (c\<lparr>next_counterparty_htlc_id := i\<rparr>) = funds_ok c"
  "funds_ok (c\<lparr>next_holder_htlc_id := i\<rparr>) = funds_ok c" "funds_ok (c\<lparr>feerate_per_kw := fe\<rparr>) = funds_ok c"
  "funds_ok (c\<lparr>holding_cell_update_fee := hf\<rparr>) = funds_ok c" "funds_ok (c\<lparr>update_time_counter := fe\<rparr>) = funds_ok c" "funds_ok (c\<lparr>last_sent_closing_fee := lf\<rparr>) = funds_ok c"
  "funds_ok (c\<lparr>pending_counterparty_closing_signed := pc\<rparr>) = funds_ok c" "funds_ok (c\<lparr>closing_fee_limits := cl\<rparr>) = funds_ok c"
  "funds_ok (c\<lparr>target_closing_feerate_sats_per_kw := tf\<rparr>) = funds_ok c" "funds_ok (c\<lparr>inbound_awaiting_accept := b\<rparr>) = funds_ok c"
  "funds_ok (c\<lparr>funding_tx_confirmed_in := fc\<rparr>) = funds_ok c" "funds_ok (c\<lparr>funding_tx_confirmation_height := fe\<rparr>) = funds_ok c"
  "funds_ok (c\<lparr>short_channel_id := sc\<rparr>) = funds_ok c" "funds_ok (c\<lparr>minimum_depth := hf\<rparr>) = funds_ok c"
  "funds_ok (c\<lparr>funding_outpoint := fo\<rparr>) = funds_ok c" "funds_ok (c\<lparr>funding_transaction := pp\<rparr>) = funds_ok c"
  "funds_ok (c\<lparr>shutdown_scriptpubkey := ss\<rparr>) = funds_ok c" "funds_ok (c\<lparr>counterparty_shutdown_scriptpubkey := pp\<rparr>) = funds_ok c"
  "funds_ok (c\<lparr>closing_signed_in_flight := b\<rparr>) = funds_ok c" "funds_ok (c\<lparr>announcement_sigs := sg\<rparr>) = funds_ok c"
  "funds_ok (c\<lparr>workaround_lnd_bug_4006 := wl\<rparr>) = funds_ok c" "funds_ok (c\<lparr>latest_inbound_scid_alias := sc\<rparr>) = funds_ok c"
  "funds_ok (c\<lparr>channel_id := cid\<rparr>) = funds_ok c" "funds_ok (c\<lparr>config_options := co\<rparr>) = funds_ok c" "funds_ok (c\<lparr>prev_config := pcf\<rparr>) = funds_ok c"
  by (simp_all add: funds_ok_def)

text \<open>A change of states keeps the invariant when it keeps every weight that matters.\<close>

lemma map_outbound_funds:
  assumes "funds_ok c" "\<And>s. w_open (f s) \<le> w_open s" "\<And>s. w_settled (f s) = w_settled s" "\<And>s. w_paying s \<le> w_paying (f s)" "\<And>s. w_paid s \<le> w_paid (f s)"
  shows "funds_ok (map_outbound f c)"
  using assms(1) out_w_mono [of "\<lambda>s. w_open (f s)" w_open "pending_outbound_htlcs c", OF assms(2)]
    out_w_mono [of w_paying "\<lambda>s. w_paying (f s)" "pending_outbound_htlcs c", OF assms(4)]
    out_w_mono [of w_paid "\<lambda>s. w_paid (f s)" "pending_outbound_htlcs c", OF assms(5)]
  by (simp add: funds_ok_def balanced_def map_outbound_def out_w_map assms(3))

lemma map_inbound_funds:
  assumes "funds_ok c" "\<And>s. w_claimed s \<le> w_claimed (f s)" "\<And>s. w_theirs (f s) \<le> w_theirs s"
  shows "funds_ok (map_inbound f c)"
  using assms(1) in_w_mono [of w_claimed "\<lambda>s. w_claimed (f s)" "pending_inbound_htlcs c", OF assms(2)]
    in_w_mono [of "\<lambda>s. w_theirs (f s)" w_theirs "pending_inbound_htlcs c", OF assms(3)]
  by (simp add: funds_ok_def balanced_def map_inbound_def in_w_map)

lemma announced_weights:
  "w_open (announce_removal s) \<le> w_open s" "w_settled (announce_removal s) = w_settled s" "w_paying (announce_removal s) = w_paying s"
  "w_paying s \<le> w_paid (announce_removal s)"
  by (cases s; cases "case s of AwaitingRemoteRevokeToRemove x \<Rightarrow> x | AwaitingRemovedRemoteRevoke x \<Rightarrow> x | _ \<Rightarrow> Success None"; simp)+

lemma announced_in_weights: "w_claimed (announce_inbound s) = w_claimed s" "w_theirs s \<le> 1"
  by (cases s; cases "case s of LocalRemoved r \<Rightarrow> r | _ \<Rightarrow> Fulfill []"; simp)+

lemma announce_funds:
  assumes "funds_ok c"
  shows "funds_ok (map_outbound announce_removal (map_inbound announce_inbound c))"
  using assms out_w_mono [of "\<lambda>s. w_open (announce_removal s)" w_open "pending_outbound_htlcs c", OF announced_weights(1)]
    out_w_mono [of w_paying "\<lambda>s. w_paid (announce_removal s)" "pending_outbound_htlcs c", OF announced_weights(4)]
    in_w_mono [of "\<lambda>s. w_theirs (announce_inbound s)" "\<lambda>_. 1" "pending_inbound_htlcs c", OF announced_in_weights(2)]
  by (simp add: funds_ok_def balanced_def map_outbound_def map_inbound_def in_w_map out_w_map announced_weights(2,3) announced_in_weights(1))

lemma commit_fee_funds [intro]: "funds_ok c \<Longrightarrow> funds_ok (commit_fee_update c)" "funds_ok c \<Longrightarrow> funds_ok (settle_fee c)"
  by (auto simp: funds_ok_def commit_fee_update_def settle_fee_def split: option.splits FeeUpdateState.splits)

lemma send_commitment_funds: "funds_ok c \<Longrightarrow> keeps (send_commitment_no_status_check lib c)"
  using announce_funds [of c] commit_fee_funds
  by (auto simp: send_commitment_no_status_check_def Let_def split: outcome.splits option.splits)

text \<open>Sending: what is checked is what is needed.\<close>

lemma held_adds_append [simp]: "held_adds (xs @ ys) = held_adds xs @ held_adds ys" "held_adds [] = []"
  "held_adds [AddHTLC a x h s onion] = [a]" "held_adds [ClaimHTLC p i] = []" "held_adds [FailHTLC i e] = []"
  by (simp_all add: held_adds_def map_filter_def)

lemma held_sum_append [simp]: "held_sum (xs @ ys) = held_sum xs + held_sum ys" "held_sum [] = 0"
  "held_sum [AddHTLC a x h s onion] = uint a" "held_sum [ClaimHTLC p i] = 0" "held_sum [FailHTLC i e] = 0"
  by (simp_all add: held_sum_def)

lemma held_word: "sum_list (held_adds us) = word_of_int (held_sum us)"
  using word_sum_int [of "\<lambda>x. x" "held_adds us"] by (simp add: held_sum_def)

lemma check_send_balance:
  assumes "funds_ok c" "check_send lib amount_msat c = Ok u"
  shows "uint amount_msat + held_sum (holding_cell_htlc_updates c) \<le> to_self True c"
proof -
  obtain keys where keys: "build_holder_transaction_keys lib (cur_holder_commitment_transaction_number c) = Ok keys"
    using assms(2) by (auto simp: check_send_def Let_def outcome_simps ignore_def split: if_splits)
  obtain stats where st: "build_commitment_transaction lib (cur_holder_commitment_transaction_number c) keys True True c = Ok stats"
    "uint (st_local_balance_msat stats) = to_self True c"
    using build_ok [OF assms(1), of lib "cur_holder_commitment_transaction_number c" keys True True] by auto
  let ?h = "held_sum (holding_cell_htlc_updates c)"
  have le: "\<not> st_local_balance_msat stats - hs_holding_cell_msat (get_outbound_pending_htlc_stats None c) < amount_msat"
    using assms(2) keys st(1) by (auto simp: check_send_def Let_def outcome_simps ignore_def split: if_splits)
  have h: "hs_holding_cell_msat (get_outbound_pending_htlc_stats None c) = word_of_int ?h"
    by (simp add: get_outbound_pending_htlc_stats_def Let_def held_word)
  have b: "0 \<le> ?h" "?h \<le> to_self True c" "to_self True c \<le> 8000000000000000"
    using held_nonneg to_self_bounds [OF assms(1)] by auto
  have "uint (st_local_balance_msat stats - word_of_int ?h) = to_self True c - ?h"
  proof -
    have "st_local_balance_msat stats = word_of_int (to_self True c)" using st(2) by (metis word_of_int_uint)
    then have "st_local_balance_msat stats - word_of_int ?h = word_of_int (to_self True c - ?h)" by simp
    then show ?thesis using b uint_of_range [of "to_self True c - ?h"] by simp
  qed
  then show ?thesis using le h by (simp add: word_less_def)
qed


lemma to_self_True: "to_self True c = uint (value_to_self_msat c) + in_w w_claimed (pending_inbound_htlcs c) - out_w w_open (pending_outbound_htlcs c)"
  using out_w_add [of "\<lambda>s. of_bool (outbound_included True s)" "\<lambda>s. of_bool (outbound_offset True s)" "pending_outbound_htlcs c"]
  by (simp add: to_self_def out_weights(1) in_weights(3))

lemma send_htlc_funds:
  assumes "funds_ok c"
  shows "keeps (send_htlc lib amount_msat payment_hash cltv_expiry src onion c)"
proof (cases "check_send lib amount_msat c")
  case (Ok u)
  from check_send_balance [OF assms this] show ?thesis
    using assms Ok by (auto simp: send_htlc_def funds_ok_def balanced_def to_self_True)
qed (use assms in \<open>simp_all add: send_htlc_def\<close>)

lemma send_htlc_and_commit_funds: "funds_ok c \<Longrightarrow> keeps (send_htlc_and_commit lib amount_msat payment_hash cltv_expiry src onion c)"
  unfolding send_htlc_and_commit_def
  by (auto intro!: keeps_then_run send_htlc_funds send_commitment_funds split: option.splits)

text \<open>Receiving: the word arithmetic of the check is exact, since no sum exceeds twice the value of the channel.\<close>

lemma removed_total_word: "removed_outbound_total c = word_of_int (out_w w_paying (pending_outbound_htlcs c))"
proof -
  have w: "of_bool (case s of AwaitingRemoteRevokeToRemove (Success _) \<Rightarrow> True | AwaitingRemovedRemoteRevoke (Success _) \<Rightarrow> True | _ \<Rightarrow> False) = w_paying s" for s
    by (cases s rule: w_paying.cases) simp_all
  show ?thesis
    unfolding removed_outbound_total_def using out_sum_word [of "\<lambda>s. case s of AwaitingRemoteRevokeToRemove (Success _) \<Rightarrow> True
      | AwaitingRemovedRemoteRevoke (Success _) \<Rightarrow> True | _ \<Rightarrow> False" "pending_outbound_htlcs c"]
    by (simp only: w)
qed

lemma inbound_total_word:
  "hs_pending_htlcs_value_msat (get_inbound_pending_htlc_stats f c) = word_of_int (in_w (\<lambda>_. 1) (pending_inbound_htlcs c))"
  using in_sum_word [of "\<lambda>_. True" "pending_inbound_htlcs c"] by (simp add: get_inbound_pending_htlc_stats_def Let_def)

lemma check_add_funds_room:
  assumes "funds_ok c" "check_add_funds fail_status a ps c = Ok s"
  shows "uint (value_to_self_msat c) + in_w (\<lambda>_. 1) (pending_inbound_htlcs c) + uint a \<le> total_msat c + out_w w_paying (pending_outbound_htlcs c)"
proof -
  let ?I = "in_w (\<lambda>_. 1) (pending_inbound_htlcs c)" and ?P = "out_w w_paying (pending_outbound_htlcs c)" and ?V = "uint (value_to_self_msat c)"
  define k where "k = total_msat c - (?V + ?I - ?P)"
  have P: "?P \<le> ?V" "0 \<le> ?I"
    using assms(1) order_trans [OF out_w_mono [of w_paying w_settled "pending_outbound_htlcs c"]] in_w_nonneg [of "\<lambda>_. 1" "pending_inbound_htlcs c"]
      order_trans [OF out_weights(4) out_weights(5)] by (auto simp: funds_ok_def balanced_def)
  have k: "0 \<le> k" "k < 2 ^ 64" using assms(1) P unfolding k_def by (auto simp: funds_ok_def balanced_def)
  have "channel_value_satoshis c * 1000 - (value_to_self_msat c + word_of_int ?I - word_of_int ?P) = word_of_int k"
  proof -
    have "value_to_self_msat c = word_of_int ?V" "channel_value_satoshis c * 1000 = word_of_int (total_msat c)" by (simp_all add: mult.commute)
    then show ?thesis unfolding k_def by (simp only: wi_hom_syms)
  qed
  then have "\<not> (word_of_int k :: u64) < a"
    using assms(2) by (auto simp: check_add_funds_def Let_def inbound_total_word removed_total_word close_with_def split: if_splits)
  then have "uint a \<le> k" using k by (simp add: word_less_def uint_of_range)
  then show ?thesis by (simp add: k_def)
qed

lemma update_add_funds:
  assumes "funds_ok c"
  shows "keeps (update_add_htlc fail_status msg ps c)"
proof (cases "check_add fail_status msg ps c")
  case (Ok s)
  then obtain ps' s' where "check_add_funds fail_status (ua_amount_msat msg) ps' c = Ok s'"
    by (auto simp: check_add_def Let_def close_with_def outcome_simps split: if_splits)
  from check_add_funds_room [OF assms this] show ?thesis
    using assms Ok by (auto simp: update_add_htlc_def funds_ok_def balanced_def)
qed (use assms in \<open>simp_all add: update_add_htlc_def\<close>)


text \<open>Resolving HTLCs.\<close>

lemma find_index: "find P [0..<n] = Some i \<Longrightarrow> i < n \<and> P i"
  by (auto simp: find_Some_iff)

lemma held_resolve_funds [simp]:
  "funds_ok (c\<lparr>holding_cell_htlc_updates := holding_cell_htlc_updates c @ [ClaimHTLC p i]\<rparr>) = funds_ok c"
  "funds_ok (c\<lparr>holding_cell_htlc_updates := holding_cell_htlc_updates c @ [FailHTLC i e]\<rparr>) = funds_ok c"
  by (simp_all add: funds_ok_def)

lemma set_inbound_funds:
  assumes "funds_ok c" "i < length (pending_inbound_htlcs c)" "ih_state (pending_inbound_htlcs c ! i) = InCommitted"
  shows "funds_ok (set_inbound i (LocalRemoved r) c)"
proof -
  define a where "a = uint (ih_amount_msat (pending_inbound_htlcs c ! i))"
  have "0 \<le> a" by (simp add: a_def)
  then show ?thesis
    using assms by (cases r) (auto simp: set_inbound_def funds_ok_def balanced_def in_w_set a_def [symmetric])
qed

lemma get_update_fulfill_funds:
  assumes "funds_ok c"
  shows "keeps (get_update_fulfill_htlc lib htlc_id payment_preimage c)"
proof (cases "htlc_index htlc_id (pending_inbound_htlcs c)")
  case (Some i)
  then have "i < length (pending_inbound_htlcs c)" unfolding htlc_index_def by (auto dest: find_index)
  then show ?thesis
    using assms Some set_inbound_funds [of "c\<lparr>latest_monitor_update_id := latest_monitor_update_id c + 1\<rparr>" i "Fulfill payment_preimage"]
    by (auto simp: get_update_fulfill_htlc_def Let_def funds_ok_def split: InboundHTLCState.splits option.splits bool.splits)
qed (use assms in \<open>simp add: get_update_fulfill_htlc_def\<close>)

lemma get_update_fail_funds:
  assumes "funds_ok c"
  shows "keeps (get_update_fail_htlc htlc_id err_packet c)"
proof -
  let ?hs = "pending_inbound_htlcs c"
  let ?found = "filter (\<lambda>i. ih_htlc_id (?hs ! i) = htlc_id) [0..<length ?hs]"
  have "funds_ok (set_inbound (last ?found) (LocalRemoved (FailRelay err_packet)) c)"
    if none: "find (\<lambda>i. ih_state (?hs ! i) \<noteq> InCommitted) ?found = None" and ne: "?found \<noteq> []"
  proof -
    have l: "last ?found \<in> set ?found" by (rule last_in_set [OF ne])
    moreover have "\<forall>i\<in>set ?found. ih_state (?hs ! i) = InCommitted" using none unfolding find_None_iff by blast
    ultimately have "ih_state (?hs ! last ?found) = InCommitted" by blast
    moreover have "last ?found < length ?hs" using l by simp
    ultimately show ?thesis using set_inbound_funds [OF assms] by blast
  qed
  then show ?thesis using assms
    by (auto simp: get_update_fail_htlc_def Let_def split: option.splits InboundHTLCState.splits bool.splits)
qed

lemma fulfill_and_commit_funds:
  "funds_ok c \<Longrightarrow> keeps (get_update_fulfill_htlc_and_commit lib htlc_id payment_preimage c)"
  "funds_ok c \<Longrightarrow> keeps (claim_htlc_while_disconnected_dropping_mon_update lib htlc_id payment_preimage c)"
  unfolding get_update_fulfill_htlc_and_commit_def claim_htlc_while_disconnected_dropping_mon_update_def
  by (auto intro!: keeps_then_run get_update_fulfill_funds send_commitment_funds split: UpdateFulfillFetch.splits option.splits)

lemma mark_removed_funds:
  assumes "funds_ok c"
  shows "keeps (mark_outbound_htlc_removed lib htlc_id p r c)"
proof (cases "outbound_index htlc_id (pending_outbound_htlcs c)")
  case (Some i)
  then have i: "i < length (pending_outbound_htlcs c)" unfolding outbound_index_def by (auto dest: find_index)
  have "funds_ok (c\<lparr>pending_outbound_htlcs := (pending_outbound_htlcs c)[i := (pending_outbound_htlcs c ! i)\<lparr>oh_state := RemoteRemoved x\<rparr>]\<rparr>)"
    if "oh_state (pending_outbound_htlcs c ! i) = OutCommitted" for x
    using assms that i by (simp add: funds_ok_def balanced_def out_w_set)
  then show ?thesis
    using assms Some by (auto simp: mark_outbound_htlc_removed_def Let_def split: option.splits OutboundHTLCState.splits)
qed (use assms in \<open>auto simp: mark_outbound_htlc_removed_def split: option.splits\<close>)

lemma peer_resolves_funds:
  "funds_ok c \<Longrightarrow> keeps (update_fulfill_htlc lib fulfill c)" "funds_ok c \<Longrightarrow> keeps (update_fail_htlc lib fail r c)"
  "funds_ok c \<Longrightarrow> keeps (update_fail_malformed_htlc lib malformed r c)"
  unfolding update_fulfill_htlc_def update_fail_htlc_def update_fail_malformed_htlc_def
  by (auto intro!: keeps_then_run mark_removed_funds)

text \<open>Fees.\<close>

lemma update_fee_funds: "funds_ok c \<Longrightarrow> keeps (update_fee est msg c)"
  by (auto simp: update_fee_def Let_def funds_ok_def split: outcome.splits)

lemma send_update_fee_funds: "funds_ok c \<Longrightarrow> keeps (send_update_fee lib feerate c)"
  by (auto simp: send_update_fee_def funds_ok_def split: outcome.splits)

lemma send_update_fee_and_commit_funds: "funds_ok c \<Longrightarrow> keeps (send_update_fee_and_commit lib feerate c)"
  unfolding send_update_fee_and_commit_def
  by (auto intro!: keeps_then_run send_update_fee_funds send_commitment_funds split: option.splits)

lemma send_commitment_checked_funds: "funds_ok c \<Longrightarrow> keeps (send_commitment lib c)"
  by (simp add: send_commitment_def send_commitment_funds)


text \<open>New commitments and revocations.\<close>

lemma acked_weights:
  "w_open (acked_outbound s) = w_open s" "w_settled (acked_outbound s) = w_settled s" "w_paying s \<le> w_paying (acked_outbound s)" "w_paid (acked_outbound s) = w_paid s"
  by (cases s; cases "case s of RemoteRemoved x \<Rightarrow> x | _ \<Rightarrow> Success None"; simp)+

lemma acked_in_weights: "w_claimed (acked_inbound s) = w_claimed s" "w_theirs (acked_inbound s) = w_theirs s"
  by (cases s; simp)+

lemma acked_funds:
  assumes "funds_ok c"
  shows "funds_ok ((map_outbound acked_outbound (map_inbound acked_inbound c))\<lparr>pending_update_fee := acked_fee (pending_update_fee c)\<rparr>)"
proof -
  have "funds_ok (map_outbound acked_outbound (map_inbound acked_inbound c))"
    using assms by (intro map_outbound_funds map_inbound_funds) (simp_all add: acked_weights acked_in_weights)
  then show ?thesis
    by (auto simp: funds_ok_def acked_fee_def map_outbound_def map_inbound_def split: option.splits FeeUpdateState.splits)
qed

lemma send_commitment_result: "send_commitment_no_status_check lib c = (c1, r) \<Longrightarrow> funds_ok c \<Longrightarrow> funds_ok c1"
  using send_commitment_funds [of c lib] by simp

lemma commitment_signed_funds:
  assumes "funds_ok c"
  shows "keeps (commitment_signed lib msg c)"
  using acked_funds [OF assms] assms
  by (auto simp: commitment_signed_def Let_def split: outcome.splits prod.splits dest!: send_commitment_result)

lemma settled_weights:
  "w_open s = w_paid s + of_bool (removed_outcome s = None)"
  "removed_outcome s = None \<Longrightarrow> w_settled (revoked_outbound s) = 1 \<and> w_open (revoked_outbound s) \<le> 1"
  "removed_outcome s = None \<Longrightarrow> w_paying (revoked_outbound s) = w_paying s \<and> w_paid (revoked_outbound s) = w_paying s"
  "removed_outcome s \<noteq> None \<Longrightarrow> w_paying s = w_paid s"
  by (cases s; cases "case s of RemoteRemoved x \<Rightarrow> x | AwaitingRemoteRevokeToRemove x \<Rightarrow> x | AwaitingRemovedRemoteRevoke x \<Rightarrow> x | _ \<Rightarrow> Success None"; simp)+

lemma settled_in_weights:
  "of_bool (\<not> is_local_removed s) + w_claimed s \<le> 1" "\<not> is_local_removed s \<Longrightarrow> w_claimed (revoked_inbound s) = 0" "w_theirs s \<le> 1"
  by (cases s rule: revoked_inbound.cases; cases "case s of LocalRemoved r \<Rightarrow> r | _ \<Rightarrow> Fulfill []"; simp)+


lemma value_diff_word:
  "value_to_self_msat c + value_diff c =
   word_of_int (uint (value_to_self_msat c) + in_w w_claimed (pending_inbound_htlcs c) - out_w w_paid (pending_outbound_htlcs c))"
proof -
  have i: "of_bool (is_fulfilled_in s) = w_claimed s" for s :: "'a InboundHTLCState"
    by (cases s rule: is_fulfilled_in.cases) simp_all
  have o: "of_bool (case removed_outcome s of Some (Success _) \<Rightarrow> True | _ \<Rightarrow> False) = w_paid s" for s
    by (cases s rule: w_paid.cases) simp_all
  have "value_to_self_msat c = word_of_int (uint (value_to_self_msat c))" by simp
  moreover have "value_diff c = word_of_int (in_w w_claimed (pending_inbound_htlcs c)) - word_of_int (out_w w_paid (pending_outbound_htlcs c))"
    unfolding value_diff_def in_sum_word using out_sum_word [of "\<lambda>s. case removed_outcome s of Some (Success _) \<Rightarrow> True | _ \<Rightarrow> False" "pending_outbound_htlcs c"]
    by (simp only: i o)
  ultimately show ?thesis by (simp only: wi_hom_syms) (simp add: algebra_simps)
qed

text \<open>The weights after a settlement in terms of those before it.\<close>

lemma settled_out:
  fixes hs :: "'src OutboundHTLCOutput list"
  defines "kept \<equiv> map (\<lambda>h. h\<lparr>oh_state := revoked_outbound (oh_state h)\<rparr>) (filter (\<lambda>h. removed_outcome (oh_state h) = None) hs)"
  shows "out_w w_open kept \<le> out_w w_open hs - out_w w_paid hs" "out_w w_settled kept = out_w w_open hs - out_w w_paid hs"
    "out_w w_paying kept = out_w w_paying hs - out_w w_paid hs" "out_w w_paid kept = out_w w_paying hs - out_w w_paid hs"
proof -
  have d: "out_w w_open hs - out_w w_paid hs = out_w (\<lambda>s. of_bool (removed_outcome s = None)) hs"
    using out_w_add [of w_paid "\<lambda>s. of_bool (removed_outcome s = None)" hs] by (simp add: settled_weights(1) [symmetric])
  have e: "out_w w_paying hs - out_w w_paid hs = out_w (\<lambda>s. if removed_outcome s = None then w_paying s else 0) hs"
  proof -
    have "w_paying s = w_paid s + (if removed_outcome s = None then w_paying s else 0)" for s
      by (cases s rule: w_paying.cases) simp_all
    then show ?thesis using out_w_add [of w_paid "\<lambda>s. if removed_outcome s = None then w_paying s else 0" hs] by simp
  qed
  have k: "out_w w kept = out_w (\<lambda>s. if removed_outcome s = None then w (revoked_outbound s) else 0) hs" for w
    unfolding kept_def out_w_map by (rule out_w_filter)
  show "out_w w_open kept \<le> out_w w_open hs - out_w w_paid hs"
    unfolding k d by (rule out_w_mono) (simp add: settled_weights(2))
  show "out_w w_settled kept = out_w w_open hs - out_w w_paid hs"
    unfolding k d by (rule arg_cong [of _ _ "\<lambda>w. out_w w hs"]) (auto simp: settled_weights(2))
  show "out_w w_paying kept = out_w w_paying hs - out_w w_paid hs"
    unfolding k e by (rule arg_cong [of _ _ "\<lambda>w. out_w w hs"]) (auto simp: settled_weights(3))
  show "out_w w_paid kept = out_w w_paying hs - out_w w_paid hs"
    unfolding k e by (rule arg_cong [of _ _ "\<lambda>w. out_w w hs"]) (auto simp: settled_weights(3))
qed

lemma settled_in:
  fixes hs :: "'fwd InboundHTLCOutput list"
  defines "kept \<equiv> map (\<lambda>h. h\<lparr>ih_state := revoked_inbound (ih_state h)\<rparr>) (filter (\<lambda>h. \<not> is_local_removed (ih_state h)) hs)"
  shows "in_w w_claimed kept = 0" "in_w (\<lambda>_. 1) kept + in_w w_claimed hs \<le> in_w (\<lambda>_. 1) hs" "in_w w_theirs kept \<le> in_w (\<lambda>_. 1) kept"
proof -
  have k: "in_w w kept = in_w (\<lambda>s. if \<not> is_local_removed s then w (revoked_inbound s) else 0) hs" for w
    unfolding kept_def in_w_map by (rule in_w_filter)
  have "in_w w_claimed kept = in_w (\<lambda>s. 0) hs"
    unfolding k by (rule arg_cong [of _ _ "\<lambda>w. in_w w hs"]) (auto simp: settled_in_weights(2))
  then show "in_w w_claimed kept = 0" by (simp add: in_w_def)
  have "in_w (\<lambda>_. 1) kept + in_w w_claimed hs = in_w (\<lambda>s. of_bool (\<not> is_local_removed s) + w_claimed s) hs"
    unfolding k by (subst in_w_add) (simp add: of_bool_def)
  also have "\<dots> \<le> in_w (\<lambda>_. 1) hs" by (rule in_w_mono) (rule settled_in_weights(1))
  finally show "in_w (\<lambda>_. 1) kept + in_w w_claimed hs \<le> in_w (\<lambda>_. 1) hs" .
  show "in_w w_theirs kept \<le> in_w (\<lambda>_. 1) kept" by (rule in_w_mono) (rule settled_in_weights(3))
qed

lemma settle_funds:
  assumes "funds_ok c"
  shows "funds_ok (settle_htlcs c)"
proof -
  let ?i = "pending_inbound_htlcs c" and ?o = "pending_outbound_htlcs c" and ?V = "uint (value_to_self_msat c)"
  let ?V' = "?V + in_w w_claimed ?i - out_w w_paid ?o"
  have b: "out_w w_open ?o + held_sum (holding_cell_htlc_updates c) \<le> ?V + in_w w_claimed ?i" "out_w w_settled ?o \<le> ?V"
    "?V + in_w (\<lambda>_. 1) ?i \<le> total_msat c + out_w w_paying ?o" "?V + in_w w_theirs ?i \<le> total_msat c + out_w w_paid ?o" "total_msat c \<le> 4000000000000000"
    using assms by (simp_all add: funds_ok_def balanced_def)
  note m = out_w_mono [of w_paid w_settled ?o, OF out_weights(6)] in_w_mono [of w_claimed w_theirs ?i, OF in_weights(7)]
    in_w_nonneg [of w_claimed ?i, OF in_weights(5)]
  have "0 \<le> ?V'" "?V' \<le> total_msat c" using b m by linarith+
  moreover then have "uint (value_to_self_msat c + value_diff c) = ?V'"
    unfolding value_diff_word using b(5) by (intro uint_of_range) simp_all
  moreover note settled_out [of ?o] settled_in [of ?i] b held_nonneg [of "holding_cell_htlc_updates c"]
  ultimately show ?thesis
    using assms by (simp add: funds_ok_def balanced_def settle_htlcs_def Let_def map_outbound_def map_inbound_def)
qed


lemma step_revocation_funds: "funds_ok c \<Longrightarrow> funds_ok (step_revocation msg secrets c)"
  unfolding step_revocation_def by (rule commit_fee_funds(2), rule settle_funds) simp

text \<open>The holding cell is emptied before its updates are sent, so each is checked against a channel without it.\<close>

lemma free_loop_funds: "funds_ok c \<Longrightarrow> keeps (free_loop lib us acc c)"
proof (induction lib us acc c rule: free_loop.induct)
  case (2 lib a x h s onion us fr to_fail steps c)
  then show ?case
    using send_htlc_funds [OF 2(3), of lib a h x s onion] by (auto split: prod.split outcome.split option.split ChannelError.split)
next
  case (3 lib p i us fr to_fail steps c)
  then show ?case
    using get_update_fulfill_funds [OF 3(2), of lib i p] by (auto split: prod.split outcome.split option.split UpdateFulfillFetch.split)
next
  case (4 lib i e us fr to_fail steps c)
  then show ?case
    using get_update_fail_funds [OF 4(3), of i e] by (auto split: prod.split outcome.split option.split ChannelError.split)
qed simp

lemma emptied_cell_funds: "funds_ok c \<Longrightarrow> funds_ok (c\<lparr>holding_cell_htlc_updates := []\<rparr>)"
  using held_nonneg [of "holding_cell_htlc_updates c"] by (simp add: funds_ok_def balanced_def)

lemma free_cell_funds: "funds_ok c \<Longrightarrow> keeps (free_holding_cell_htlcs lib c)" "funds_ok c \<Longrightarrow> keeps (maybe_free_holding_cell_htlcs lib c)"
  unfolding maybe_free_holding_cell_htlcs_def free_holding_cell_htlcs_def Let_def
  by (auto intro!: keeps_then_run free_loop_funds emptied_cell_funds send_commitment_funds send_update_fee_funds split: option.split)

lemma hold_revoked_funds: "funds_ok c \<Longrightarrow> keeps (hold_revoked lib mupd rv c)"
  unfolding hold_revoked_def by (auto intro!: keeps_then_run send_commitment_funds)

lemma answer_revoked_funds: "funds_ok c \<Longrightarrow> keeps (answer_revoked lib mupd rv c)"
  unfolding answer_revoked_def Let_def
  by (auto intro!: keeps_then_run send_commitment_funds free_cell_funds split: option.split)

lemma revoke_and_ack_funds: "funds_ok c \<Longrightarrow> keeps (revoke_and_ack lib msg c)"
  unfolding revoke_and_ack_def Let_def
  by (auto intro!: hold_revoked_funds answer_revoked_funds step_revocation_funds split: outcome.split)

text \<open>Pausing.\<close>

lemma paused_weights: "w_open (unremoved s) = w_open s" "w_settled (unremoved s) = w_settled s" "w_paying (unremoved s) = w_paying s" "w_paid (unremoved s) = w_paid s"
  by (cases s; simp)+

lemma paused_in_weights: "(if \<not> is_remote_announced s then w_claimed s else 0) = w_claimed s" "(if \<not> is_remote_announced s then w_theirs s else 0) = w_theirs s"
  by (cases s; simp)+

lemma paused_total: "in_w (\<lambda>s. if \<not> is_remote_announced s then 1 else 0) hs \<le> in_w (\<lambda>_. 1) hs"
  by (rule in_w_mono) simp

lemma pause_funds: "funds_ok c \<Longrightarrow> keeps (remove_uncommitted_htlcs_and_mark_paused c)"
  using paused_total [of "pending_inbound_htlcs c"]
  by (auto simp: remove_uncommitted_htlcs_and_mark_paused_def Let_def map_outbound_def funds_ok_def balanced_def out_w_map
    in_w_filter [of _ "\<lambda>s. \<not> is_remote_announced s"] paused_weights paused_in_weights split: option.splits FeeUpdateState.splits)

lemma monitor_failed_funds: "funds_ok (monitor_update_failed raa cs ready fw fa fi c) = funds_ok c"
  by (simp add: monitor_update_failed_def)

end
