(* ===== verification/Channel_Open.thy ===== *)
theory Channel_Open
  imports Channel_Funds
begin

text \<open>
  Opening a channel (\<open>lightning/src/ln/channel.rs\<close>): \<open>new_outbound\<close> and \<open>new_from_req\<close>, the \<open>open_channel\<close> and
  \<open>accept_channel\<close> messages and the limits they are checked against, and the exchange of the first commitment
  transactions. A channel that passed these checks starts with balanced funds.
\<close>

section \<open>Limits and messages\<close>

definition MAX_FUNDING_SATOSHIS_NO_WUMBO :: u64 where "MAX_FUNDING_SATOSHIS_NO_WUMBO = push_bit 24 1 - 1"
definition TOTAL_BITCOIN_SUPPLY_SATOSHIS :: u64 where "TOTAL_BITCOIN_SUPPLY_SATOSHIS = 21000000 * 100000000"
definition MAX_STD_OUTPUT_DUST_LIMIT_SATOSHIS :: u64 where "MAX_STD_OUTPUT_DUST_LIMIT_SATOSHIS = 546"
definition MAX_CHAN_DUST_LIMIT_SATOSHIS :: u64 where "MAX_CHAN_DUST_LIMIT_SATOSHIS = MAX_STD_OUTPUT_DUST_LIMIT_SATOSHIS"
definition MIN_CHAN_DUST_LIMIT_SATOSHIS :: u64 where "MIN_CHAN_DUST_LIMIT_SATOSHIS = 354"
definition BREAKDOWN_TIMEOUT :: u16 where "BREAKDOWN_TIMEOUT = 6 * 24"
definition MAX_LOCAL_BREAKDOWN_TIMEOUT :: u16 where "MAX_LOCAL_BREAKDOWN_TIMEOUT = 2 * 6 * 24 * 7"
definition MAX_HTLCS :: u16 where "MAX_HTLCS = 483"
definition MIN_AFFORDABLE_HTLC_COUNT :: nat where "MIN_AFFORDABLE_HTLC_COUNT = 4"

record OpenChannel =
  oc_chain_hash :: bytes
  oc_temporary_channel_id :: bytes
  oc_funding_satoshis :: u64
  oc_push_msat :: u64
  oc_dust_limit_satoshis :: u64
  oc_max_htlc_value_in_flight_msat :: u64
  oc_channel_reserve_satoshis :: u64
  oc_htlc_minimum_msat :: u64
  oc_feerate_per_kw :: u32
  oc_to_self_delay :: u16
  oc_max_accepted_htlcs :: u16
  oc_pubkeys :: ChannelPublicKeys
  oc_first_per_commitment_point :: bytes
  oc_channel_flags :: u8
  oc_shutdown_scriptpubkey :: "bytes option"
  oc_channel_type :: "features option"

record AcceptChannel =
  ac_temporary_channel_id :: bytes
  ac_dust_limit_satoshis :: u64
  ac_max_htlc_value_in_flight_msat :: u64
  ac_channel_reserve_satoshis :: u64
  ac_htlc_minimum_msat :: u64
  ac_minimum_depth :: u32
  ac_to_self_delay :: u16
  ac_max_accepted_htlcs :: u16
  ac_pubkeys :: ChannelPublicKeys
  ac_first_per_commitment_point :: bytes
  ac_shutdown_scriptpubkey :: "bytes option"
  ac_channel_type :: "features option"

record ChannelHandshakeConfig =
  hc_minimum_depth :: u32
  our_to_self_delay :: u16
  our_htlc_minimum_msat :: u64
  max_inbound_htlc_value_in_flight_percent_of_channel :: u8
  negotiate_scid_privacy :: bool
  hc_announced_channel :: bool
  commit_upfront_shutdown_pubkey :: bool

record UserConfig =
  channel_handshake_config :: ChannelHandshakeConfig
  channel_handshake_limits :: ChannelHandshakeLimits
  channel_config :: ChannelConfig

text \<open>What the keys manager provides for a new channel.\<close>

record keys_provider =
  kp_pubkeys :: ChannelPublicKeys
  kp_random_bytes :: bytes
  kp_shutdown_scriptpubkey :: ShutdownScript

definition get_holder_max_htlc_value_in_flight_msat :: "u64 \<Rightarrow> ChannelHandshakeConfig \<Rightarrow> u64" where
  "get_holder_max_htlc_value_in_flight_msat channel_value config =
     (let percent = max_inbound_htlc_value_in_flight_percent_of_channel config in
      channel_value * 10 * (if percent < 1 then 1 else if percent > 100 then 100 else ucast percent))"

definition get_holder_selected_channel_reserve_satoshis :: "u64 \<Rightarrow> u64" where
  "get_holder_selected_channel_reserve_satoshis channel_value = min channel_value (max (channel_value div 100) 1000)"

definition get_initial_channel_type :: "UserConfig \<Rightarrow> features" where
  "get_initial_channel_type config =
     (if \<not> hc_announced_channel (channel_handshake_config config) \<and> negotiate_scid_privacy (channel_handshake_config config)
      then set_required_bit SCIDPrivacy only_static_remote_key else only_static_remote_key)"

section \<open>Opening a channel to a peer\<close>

definition misuse :: "string \<Rightarrow> (APIError, 'a) outcome" where "misuse s = Err (APIMisuseError s)"

text \<open>The shutdown script committed to up front, when the configuration asks for it.\<close>

definition upfront_script :: "script_lib \<Rightarrow> features \<Rightarrow> keys_provider \<Rightarrow> UserConfig \<Rightarrow> (bytes, ShutdownScript option) outcome" where
  "upfront_script sl their_features kp config =
     (if commit_upfront_shutdown_pubkey (channel_handshake_config config)
      then (case is_compatible sl their_features (kp_shutdown_scriptpubkey kp) of
              Ok True \<Rightarrow> Ok (Some (kp_shutdown_scriptpubkey kp))
            | Panic \<Rightarrow> Panic
            | _ \<Rightarrow> Err (into_inner sl (kp_shutdown_scriptpubkey kp)))
      else Ok None)"

text \<open>The fields both constructors set alike.\<close>

definition blank_channel :: "keys_provider \<Rightarrow> UserConfig \<Rightarrow> bytes \<Rightarrow> u32 \<Rightarrow> u64 \<Rightarrow> u64 \<Rightarrow> ('fwd, 'src) channel" where
  "blank_channel kp config counterparty current_chain_height alias value =
     \<lparr>config_options = channel_config config, announced_channel = hc_announced_channel (channel_handshake_config config), prev_config = None,
      inbound_handshake_limits_override = None, channel_id = kp_random_bytes kp, channel_state = OurInitSent, announcement_sigs_state = NotSent,
      channel_value_satoshis = value, latest_monitor_update_id = 0, shutdown_scriptpubkey = None,
      cur_holder_commitment_transaction_number = INITIAL_COMMITMENT_NUMBER, cur_counterparty_commitment_transaction_number = INITIAL_COMMITMENT_NUMBER,
      value_to_self_msat = 0, pending_inbound_htlcs = [], pending_outbound_htlcs = [], holding_cell_htlc_updates = [],
      resend_order = CommitmentFirst, monitor_pending_channel_ready = False, monitor_pending_revoke_and_ack = False,
      monitor_pending_commitment_signed = False, monitor_pending_forwards = [], monitor_pending_failures = [], monitor_pending_finalized_fulfills = [],
      pending_update_fee = None, holding_cell_update_fee = None, next_holder_htlc_id = 0, next_counterparty_htlc_id = 0,
      feerate_per_kw = 0, update_time_counter = 1, last_sent_closing_fee = None, target_closing_feerate_sats_per_kw = None,
      pending_counterparty_closing_signed = None, closing_fee_limits = None, inbound_awaiting_accept = False, funding_tx_confirmed_in = None,
      funding_tx_confirmation_height = 0, short_channel_id = None, channel_creation_height = current_chain_height,
      counterparty_dust_limit_satoshis = 0, holder_dust_limit_satoshis = MIN_CHAN_DUST_LIMIT_SATOSHIS,
      counterparty_max_htlc_value_in_flight_msat = 0,
      holder_max_htlc_value_in_flight_msat = get_holder_max_htlc_value_in_flight_msat value (channel_handshake_config config),
      counterparty_selected_channel_reserve_satoshis = None, holder_selected_channel_reserve_satoshis = get_holder_selected_channel_reserve_satoshis value,
      counterparty_htlc_minimum_msat = 0,
      holder_htlc_minimum_msat = (if our_htlc_minimum_msat (channel_handshake_config config) = 0 then 1 else our_htlc_minimum_msat (channel_handshake_config config)),
      counterparty_max_accepted_htlcs = 0, minimum_depth = None, holder_pubkeys = kp_pubkeys kp,
      holder_selected_contest_delay = our_to_self_delay (channel_handshake_config config), counterparty_parameters = None, funding_outpoint = None,
      funding_transaction = None, is_outbound = True, opt_anchors = False, counterparty_cur_commitment_point = None,
      counterparty_prev_commitment_point = None, counterparty_node_id = counterparty, counterparty_shutdown_scriptpubkey = None,
      commitment_secrets = new_secrets, closing_signed_in_flight = False, announcement_sigs = None, workaround_lnd_bug_4006 = None,
      channel_type = [], latest_inbound_scid_alias = None, outbound_scid_alias = alias\<rparr>"

definition new_outbound ::
  "(Target \<Rightarrow> u32) \<Rightarrow> script_lib \<Rightarrow> keys_provider \<Rightarrow> bytes \<Rightarrow> features \<Rightarrow> u64 \<Rightarrow> u64 \<Rightarrow> UserConfig \<Rightarrow> u32 \<Rightarrow> u64 \<Rightarrow>
   (APIError, ('fwd, 'src) channel) outcome" where
  "new_outbound est sl kp counterparty their_features value push_msat config current_chain_height alias =
     (let feerate = est Normal;
          reserve = get_holder_selected_channel_reserve_satoshis value;
          to_self_msat = value * 1000 - push_msat;
          commitment_tx_fee = commit_tx_fee_msat feerate MIN_AFFORDABLE_HTLC_COUNT False in
      if \<not> supports_feature Wumbo their_features \<and> value > MAX_FUNDING_SATOSHIS_NO_WUMBO
      then misuse (''funding_value must not exceed '' @ to_string MAX_FUNDING_SATOSHIS_NO_WUMBO @ '', it was '' @ to_string value)
      else if value \<ge> TOTAL_BITCOIN_SUPPLY_SATOSHIS
      then misuse (''funding_value must be smaller than the total bitcoin supply, it was '' @ to_string value)
      else if push_msat > value * 1000
      then misuse (''Push value ('' @ to_string push_msat @ '') was larger than channel_value ('' @ to_string (value * 1000) @ '')'')
      else if our_to_self_delay (channel_handshake_config config) < BREAKDOWN_TIMEOUT
      then misuse (''Configured with an unreasonable our_to_self_delay ('' @ to_string (our_to_self_delay (channel_handshake_config config)) @ '') putting user funds at risks'')
      else if reserve < MIN_CHAN_DUST_LIMIT_SATOSHIS
      then misuse (''Holder selected channel  reserve below implemention limit dust_limit_satoshis '' @ to_string reserve)
      else if to_self_msat < commitment_tx_fee
      then misuse (''Funding amount ('' @ to_string (to_self_msat div 1000) @ '') can't even pay fee for initial commitment transaction fee of '' @ to_string (commitment_tx_fee div 1000) @ ''.'')
      else case upfront_script sl their_features kp config of
        Err script \<Rightarrow> Err (IncompatibleShutdownScript script)
      | Panic \<Rightarrow> Panic
      | Ok script \<Rightarrow>
          Ok ((blank_channel kp config counterparty current_chain_height alias value)
                \<lparr>inbound_handshake_limits_override := Some (channel_handshake_limits config), shutdown_scriptpubkey := script,
                 value_to_self_msat := to_self_msat, feerate_per_kw := feerate, channel_type := get_initial_channel_type config\<rparr>))"

definition script_bytes :: "script_lib \<Rightarrow> ShutdownScript option \<Rightarrow> bytes" where
  "script_bytes sl s = (case s of Some script \<Rightarrow> into_inner sl script | None \<Rightarrow> [])"

definition get_open_channel :: "'k chan_lib \<Rightarrow> script_lib \<Rightarrow> bytes \<Rightarrow> ('fwd, 'src) channel \<Rightarrow> (ChannelError, OpenChannel) outcome" where
  "get_open_channel lib sl chain_hash c =
     (if \<not> is_outbound c then Panic
      else if channel_state c \<noteq> OurInitSent then Panic
      else if cur_holder_commitment_transaction_number c \<noteq> INITIAL_COMMITMENT_NUMBER then Panic
      else Ok \<lparr>oc_chain_hash = chain_hash, oc_temporary_channel_id = channel_id c, oc_funding_satoshis = channel_value_satoshis c,
               oc_push_msat = channel_value_satoshis c * 1000 - value_to_self_msat c, oc_dust_limit_satoshis = holder_dust_limit_satoshis c,
               oc_max_htlc_value_in_flight_msat = holder_max_htlc_value_in_flight_msat c,
               oc_channel_reserve_satoshis = holder_selected_channel_reserve_satoshis c, oc_htlc_minimum_msat = holder_htlc_minimum_msat c,
               oc_feerate_per_kw = feerate_per_kw c, oc_to_self_delay = holder_selected_contest_delay c, oc_max_accepted_htlcs = OUR_MAX_HTLCS,
               oc_pubkeys = holder_pubkeys c,
               oc_first_per_commitment_point = get_per_commitment_point lib (cur_holder_commitment_transaction_number c),
               oc_channel_flags = (if announced_channel c then 1 else 0),
               oc_shutdown_scriptpubkey = Some (script_bytes sl (shutdown_scriptpubkey c)), oc_channel_type = Some (channel_type c)\<rparr>)"

definition maybe_handle_error_without_close ::
  "'k chan_lib \<Rightarrow> script_lib \<Rightarrow> bytes \<Rightarrow> ('fwd, 'src) channel \<Rightarrow> ('fwd, 'src) channel \<times> (ChannelError, OpenChannel option) outcome" where
  "maybe_handle_error_without_close lib sl chain_hash c =
     (if \<not> is_outbound c \<or> channel_state c \<noteq> OurInitSent then (c, Ok None)
      else if channel_type c = only_static_remote_key then (c, Ok None)
      else let c1 = c\<lparr>channel_type := only_static_remote_key\<rparr> in (c1, map_ok Some (get_open_channel lib sl chain_hash c1)))"

end
