(* ===== verification/Channel_Accept.thy ===== *)
theory Channel_Accept
  imports Channel_Open
begin

text \<open>
  The other half of opening a channel (\<open>lightning/src/ln/channel.rs\<close>): accepting a peer's \<open>open_channel\<close>
  (\<open>new_from_req\<close>), the peer accepting ours (\<open>accept_channel\<close>), and the funding messages with the first commitment
  transactions.
\<close>

section \<open>A peer opens a channel\<close>

text \<open>The channel type must be one of the four known ones.\<close>

definition requested_type :: "features \<Rightarrow> bool \<Rightarrow> features option \<Rightarrow> (ChannelError, features) outcome" where
  "requested_type their_features announced ty =
     and_then (case ty of
        Some t \<Rightarrow>
          if supports_any_optional_bits t then close_with ''Channel Type field contained optional bits - this is not allowed''
          else if requires_unknown_bits ChannelTypeContext t then close_with ''Channel Type field contains unknown bits''
          else if t \<noteq> only_static_remote_key \<and> \<not> requires_feature SCIDPrivacy t \<and> \<not> requires_feature ZeroConf t then close_with ''Channel Type was not understood''
          else if t \<noteq> only_static_remote_key \<and> requires_feature SCIDPrivacy t \<and> announced
          then close_with ''SCID Alias/Privacy Channel Type cannot be set on a public channel''
          else Ok t
      | None \<Rightarrow> Ok (from_counterparty_init their_features)) (\<lambda>t.
     if \<not> supports_feature StaticRemoteKey t then close_with ''Channel Type was not understood - we require static remote key''
     else Ok t)"

text \<open>The counterparty's own shutdown script; an empty one opts out.\<close>

definition peer_script :: "script_lib \<Rightarrow> features \<Rightarrow> bytes option \<Rightarrow> (ChannelError, bytes option) outcome" where
  "peer_script sl their_features script =
     (if \<not> supports_feature UpfrontShutdownScript their_features then Ok None
      else case script of
        Some s \<Rightarrow>
          if s = [] then Ok None
          else (case is_bolt2_compliant sl their_features s of
                  Ok True \<Rightarrow> Ok (Some s)
                | Panic \<Rightarrow> Panic
                | _ \<Rightarrow> close_with (''Peer is signaling upfront_shutdown but has provided an unacceptable scriptpubkey format: '' @ show_script sl s))
      | None \<Rightarrow> close_with ''Peer is signaling upfront_shutdown but we don't get any script. Use 0-length script to opt-out'')"

definition check_request_sanity :: "(Target \<Rightarrow> u32) \<Rightarrow> UserConfig \<Rightarrow> OpenChannel \<Rightarrow> (ChannelError, unit) outcome" where
  "check_request_sanity est config msg =
     (let limits = channel_handshake_limits config;
          full_channel_value_msat = (oc_funding_satoshis msg - oc_channel_reserve_satoshis msg) * 1000;
          max_delay = min (their_to_self_delay limits) MAX_LOCAL_BREAKDOWN_TIMEOUT in
      if our_to_self_delay (channel_handshake_config config) < BREAKDOWN_TIMEOUT
      then close_with (''Configured with an unreasonable our_to_self_delay ('' @ to_string (our_to_self_delay (channel_handshake_config config)) @ '') putting user funds at risks. It must be greater than '' @ to_string BREAKDOWN_TIMEOUT)
      else if oc_funding_satoshis msg > max_funding_satoshis limits
      then close_with (''Per our config, funding must be at most '' @ to_string (max_funding_satoshis limits) @ ''. It was '' @ to_string (oc_funding_satoshis msg))
      else if oc_funding_satoshis msg \<ge> TOTAL_BITCOIN_SUPPLY_SATOSHIS
      then close_with (''Funding must be smaller than the total bitcoin supply. It was '' @ to_string (oc_funding_satoshis msg))
      else if oc_channel_reserve_satoshis msg > oc_funding_satoshis msg
      then close_with (''Bogus channel_reserve_satoshis ('' @ to_string (oc_channel_reserve_satoshis msg) @ ''). Must be not greater than funding_satoshis: '' @ to_string (oc_funding_satoshis msg))
      else if oc_push_msat msg > full_channel_value_msat
      then close_with (''push_msat '' @ to_string (oc_push_msat msg) @ '' was larger than channel amount minus reserve ('' @ to_string full_channel_value_msat @ '')'')
      else if oc_dust_limit_satoshis msg > oc_funding_satoshis msg
      then close_with (''dust_limit_satoshis '' @ to_string (oc_dust_limit_satoshis msg) @ '' was larger than funding_satoshis '' @ to_string (oc_funding_satoshis msg) @ ''. Peer never wants payout outputs?'')
      else if oc_htlc_minimum_msat msg \<ge> full_channel_value_msat
      then close_with (''Minimum htlc value ('' @ to_string (oc_htlc_minimum_msat msg) @ '') was larger than full channel value ('' @ to_string full_channel_value_msat @ '')'')
      else and_then (check_remote_fee est (oc_feerate_per_kw msg)) (\<lambda>_.
        if oc_to_self_delay msg > max_delay
        then close_with (''They wanted our payments to be delayed by a needlessly long period. Upper limit: '' @ to_string max_delay @ ''. Actual: '' @ to_string (oc_to_self_delay msg))
        else if oc_max_accepted_htlcs msg < 1 then close_with ''0 max_accepted_htlcs makes for a useless channel''
        else if oc_max_accepted_htlcs msg > MAX_HTLCS
        then close_with (''max_accepted_htlcs was '' @ to_string (oc_max_accepted_htlcs msg) @ ''. It must not be larger than '' @ to_string MAX_HTLCS)
        else Ok ()))"

definition check_request_limits :: "UserConfig \<Rightarrow> bool \<Rightarrow> OpenChannel \<Rightarrow> (ChannelError, unit) outcome" where
  "check_request_limits config announced msg =
     (let limits = channel_handshake_limits config in
      if oc_funding_satoshis msg < min_funding_satoshis limits
      then close_with (''Funding satoshis ('' @ to_string (oc_funding_satoshis msg) @ '') is less than the user specified limit ('' @ to_string (min_funding_satoshis limits) @ '')'')
      else if oc_htlc_minimum_msat msg > max_htlc_minimum_msat limits
      then close_with (''htlc_minimum_msat ('' @ to_string (oc_htlc_minimum_msat msg) @ '') is higher than the user specified limit ('' @ to_string (max_htlc_minimum_msat limits) @ '')'')
      else if oc_max_htlc_value_in_flight_msat msg < min_max_htlc_value_in_flight_msat limits
      then close_with (''max_htlc_value_in_flight_msat ('' @ to_string (oc_max_htlc_value_in_flight_msat msg) @ '') is less than the user specified limit ('' @ to_string (min_max_htlc_value_in_flight_msat limits) @ '')'')
      else if oc_channel_reserve_satoshis msg > max_channel_reserve_satoshis limits
      then close_with (''channel_reserve_satoshis ('' @ to_string (oc_channel_reserve_satoshis msg) @ '') is higher than the user specified limit ('' @ to_string (max_channel_reserve_satoshis limits) @ '')'')
      else if oc_max_accepted_htlcs msg < min_max_accepted_htlcs limits
      then close_with (''max_accepted_htlcs ('' @ to_string (oc_max_accepted_htlcs msg) @ '') is less than the user specified limit ('' @ to_string (min_max_accepted_htlcs limits) @ '')'')
      else if oc_dust_limit_satoshis msg < MIN_CHAN_DUST_LIMIT_SATOSHIS
      then close_with (''dust_limit_satoshis ('' @ to_string (oc_dust_limit_satoshis msg) @ '') is less than the implementation limit ('' @ to_string MIN_CHAN_DUST_LIMIT_SATOSHIS @ '')'')
      else if oc_dust_limit_satoshis msg > MAX_CHAN_DUST_LIMIT_SATOSHIS
      then close_with (''dust_limit_satoshis ('' @ to_string (oc_dust_limit_satoshis msg) @ '') is greater than the implementation limit ('' @ to_string MAX_CHAN_DUST_LIMIT_SATOSHIS @ '')'')
      else if force_announced_channel_preference limits \<and> hc_announced_channel (channel_handshake_config config) \<noteq> announced
      then close_with ''Peer tried to open channel but their announcement preference is different from ours''
      else Ok ())"

definition check_request_reserve :: "OpenChannel \<Rightarrow> (ChannelError, unit) outcome" where
  "check_request_reserve msg =
     (let full_channel_value_msat = (oc_funding_satoshis msg - oc_channel_reserve_satoshis msg) * 1000;
          reserve = get_holder_selected_channel_reserve_satoshis (oc_funding_satoshis msg);
          funders_amount_msat = oc_funding_satoshis msg * 1000 - oc_push_msat msg;
          commitment_tx_fee = commit_tx_fee_msat (oc_feerate_per_kw msg) MIN_AFFORDABLE_HTLC_COUNT False div 1000 in
      if reserve < MIN_CHAN_DUST_LIMIT_SATOSHIS
      then close_with (''Suitable channel reserve not found. remote_channel_reserve was ('' @ to_string reserve @ ''). dust_limit_satoshis is ('' @ to_string MIN_CHAN_DUST_LIMIT_SATOSHIS @ '').'')
      else if reserve * 1000 \<ge> full_channel_value_msat
      then close_with (''Suitable channel reserve not found. remote_channel_reserve was ('' @ to_string reserve @ ''). Channel value is ('' @ to_string full_channel_value_msat @ '' - '' @ to_string (oc_push_msat msg) @ '').'')
      else if reserve < oc_dust_limit_satoshis msg
      then close_with (''Dust limit ('' @ to_string (oc_dust_limit_satoshis msg) @ '') too high for the channel reserve we require the remote to keep ('' @ to_string reserve @ '')'')
      else if funders_amount_msat div 1000 < commitment_tx_fee
      then close_with (''Funding amount ('' @ to_string (funders_amount_msat div 1000) @ '' sats) can't even pay fee for initial commitment transaction fee of '' @ to_string commitment_tx_fee @ '' sats.'')
      else if funders_amount_msat div 1000 - commitment_tx_fee < reserve then close_with ''Insufficient funding amount for initial reserve''
      else Ok ())"

definition new_from_req ::
  "(Target \<Rightarrow> u32) \<Rightarrow> script_lib \<Rightarrow> keys_provider \<Rightarrow> bytes \<Rightarrow> features \<Rightarrow> OpenChannel \<Rightarrow> UserConfig \<Rightarrow> u32 \<Rightarrow> u64 \<Rightarrow>
   (ChannelError, ('fwd, 'src) channel) outcome" where
  "new_from_req est sl kp counterparty their_features msg config current_chain_height alias =
     (let announced = (oc_channel_flags msg AND 1 = 1) in
      and_then (requested_type their_features announced (oc_channel_type msg)) (\<lambda>ty.
      and_then (check_request_sanity est config msg) (\<lambda>_.
      and_then (check_request_limits config announced msg) (\<lambda>_.
      and_then (check_request_reserve msg) (\<lambda>_.
      and_then (peer_script sl their_features (oc_shutdown_scriptpubkey msg)) (\<lambda>their_script.
        case upfront_script sl their_features kp config of
          Err script \<Rightarrow> close_with (''Provided a scriptpubkey format not accepted by peer: '' @ show_script sl script)
        | Panic \<Rightarrow> Panic
        | Ok script \<Rightarrow>
            Ok ((blank_channel kp config counterparty current_chain_height alias (oc_funding_satoshis msg))
                  \<lparr>announced_channel := announced, channel_id := oc_temporary_channel_id msg, channel_state := OurInitSent OR TheirInitSent,
                   shutdown_scriptpubkey := script, value_to_self_msat := oc_push_msat msg, inbound_awaiting_accept := True,
                   feerate_per_kw := oc_feerate_per_kw msg, counterparty_dust_limit_satoshis := oc_dust_limit_satoshis msg,
                   counterparty_max_htlc_value_in_flight_msat := min (oc_max_htlc_value_in_flight_msat msg) (oc_funding_satoshis msg * 1000),
                   counterparty_selected_channel_reserve_satoshis := Some (oc_channel_reserve_satoshis msg),
                   counterparty_htlc_minimum_msat := oc_htlc_minimum_msat msg, counterparty_max_accepted_htlcs := oc_max_accepted_htlcs msg,
                   minimum_depth := Some (max (hc_minimum_depth (channel_handshake_config config)) 1),
                   counterparty_parameters := Some (oc_pubkeys msg, oc_to_self_delay msg), is_outbound := False,
                   counterparty_cur_commitment_point := Some (oc_first_per_commitment_point msg),
                   counterparty_shutdown_scriptpubkey := their_script, channel_type := ty\<rparr>)))))))"

definition set_0conf :: "('fwd, 'src) channel \<Rightarrow> ('fwd, 'src, unit) chan_result" where
  "set_0conf c = (if \<not> inbound_awaiting_accept c then (c, Panic) else (c\<lparr>minimum_depth := Some 0\<rparr>, Ok ()))"

definition generate_accept_channel_message :: "'k chan_lib \<Rightarrow> script_lib \<Rightarrow> ('fwd, 'src) channel \<Rightarrow> (ChannelError, AcceptChannel) outcome" where
  "generate_accept_channel_message lib sl c =
     (case minimum_depth c of
        None \<Rightarrow> Panic
      | Some depth \<Rightarrow>
          Ok \<lparr>ac_temporary_channel_id = channel_id c, ac_dust_limit_satoshis = holder_dust_limit_satoshis c,
              ac_max_htlc_value_in_flight_msat = holder_max_htlc_value_in_flight_msat c,
              ac_channel_reserve_satoshis = holder_selected_channel_reserve_satoshis c, ac_htlc_minimum_msat = holder_htlc_minimum_msat c,
              ac_minimum_depth = depth, ac_to_self_delay = holder_selected_contest_delay c, ac_max_accepted_htlcs = OUR_MAX_HTLCS,
              ac_pubkeys = holder_pubkeys c, ac_first_per_commitment_point = get_per_commitment_point lib (cur_holder_commitment_transaction_number c),
              ac_shutdown_scriptpubkey = Some (script_bytes sl (shutdown_scriptpubkey c)), ac_channel_type = Some (channel_type c)\<rparr>)"

definition accept_inbound_channel :: "'k chan_lib \<Rightarrow> script_lib \<Rightarrow> ('fwd, 'src) channel \<Rightarrow> ('fwd, 'src, AcceptChannel) chan_result" where
  "accept_inbound_channel lib sl c =
     (if is_outbound c \<or> channel_state c \<noteq> OurInitSent OR TheirInitSent \<or>
         cur_holder_commitment_transaction_number c \<noteq> INITIAL_COMMITMENT_NUMBER \<or> \<not> inbound_awaiting_accept c then (c, Panic)
      else let c1 = c\<lparr>inbound_awaiting_accept := False\<rparr> in (c1, generate_accept_channel_message lib sl c1))"

section \<open>The peer accepts our channel\<close>

definition check_accept :: "ChannelHandshakeLimits \<Rightarrow> AcceptChannel \<Rightarrow> ('fwd, 'src) channel \<Rightarrow> (ChannelError, unit) outcome" where
  "check_accept limits msg c =
     (let value = channel_value_satoshis c;
          full_channel_value_msat = (value - ac_channel_reserve_satoshis msg) * 1000;
          max_delay = min (their_to_self_delay limits) MAX_LOCAL_BREAKDOWN_TIMEOUT in
      if \<not> is_outbound c then close_with ''Got an accept_channel message from an inbound peer''
      else if channel_state c \<noteq> OurInitSent then close_with ''Got an accept_channel message at a strange time''
      else if ac_dust_limit_satoshis msg > 21000000 * 100000000
      then close_with (''Peer never wants payout outputs? dust_limit_satoshis was '' @ to_string (ac_dust_limit_satoshis msg))
      else if ac_channel_reserve_satoshis msg > value
      then close_with (''Bogus channel_reserve_satoshis ('' @ to_string (ac_channel_reserve_satoshis msg) @ ''). Must not be greater than ('' @ to_string value @ '')'')
      else if ac_dust_limit_satoshis msg > holder_selected_channel_reserve_satoshis c
      then close_with (''Dust limit ('' @ to_string (ac_dust_limit_satoshis msg) @ '') is bigger than our channel reserve ('' @ to_string (holder_selected_channel_reserve_satoshis c) @ '')'')
      else if ac_channel_reserve_satoshis msg > value - holder_selected_channel_reserve_satoshis c
      then close_with (''Bogus channel_reserve_satoshis ('' @ to_string (ac_channel_reserve_satoshis msg) @ ''). Must not be greater than channel value minus our reserve ('' @ to_string (value - holder_selected_channel_reserve_satoshis c) @ '')'')
      else if ac_htlc_minimum_msat msg \<ge> full_channel_value_msat
      then close_with (''Minimum htlc value ('' @ to_string (ac_htlc_minimum_msat msg) @ '') is full channel value ('' @ to_string full_channel_value_msat @ '')'')
      else if ac_to_self_delay msg > max_delay
      then close_with (''They wanted our payments to be delayed by a needlessly long period. Upper limit: '' @ to_string max_delay @ ''. Actual: '' @ to_string (ac_to_self_delay msg))
      else if ac_max_accepted_htlcs msg < 1 then close_with ''0 max_accepted_htlcs makes for a useless channel''
      else if ac_max_accepted_htlcs msg > MAX_HTLCS
      then close_with (''max_accepted_htlcs was '' @ to_string (ac_max_accepted_htlcs msg) @ ''. It must not be larger than '' @ to_string MAX_HTLCS)
      else if ac_htlc_minimum_msat msg > max_htlc_minimum_msat limits
      then close_with (''htlc_minimum_msat ('' @ to_string (ac_htlc_minimum_msat msg) @ '') is higher than the user specified limit ('' @ to_string (max_htlc_minimum_msat limits) @ '')'')
      else if ac_max_htlc_value_in_flight_msat msg < min_max_htlc_value_in_flight_msat limits
      then close_with (''max_htlc_value_in_flight_msat ('' @ to_string (ac_max_htlc_value_in_flight_msat msg) @ '') is less than the user specified limit ('' @ to_string (min_max_htlc_value_in_flight_msat limits) @ '')'')
      else if ac_channel_reserve_satoshis msg > max_channel_reserve_satoshis limits
      then close_with (''channel_reserve_satoshis ('' @ to_string (ac_channel_reserve_satoshis msg) @ '') is higher than the user specified limit ('' @ to_string (max_channel_reserve_satoshis limits) @ '')'')
      else if ac_max_accepted_htlcs msg < min_max_accepted_htlcs limits
      then close_with (''max_accepted_htlcs ('' @ to_string (ac_max_accepted_htlcs msg) @ '') is less than the user specified limit ('' @ to_string (min_max_accepted_htlcs limits) @ '')'')
      else if ac_dust_limit_satoshis msg < MIN_CHAN_DUST_LIMIT_SATOSHIS
      then close_with (''dust_limit_satoshis ('' @ to_string (ac_dust_limit_satoshis msg) @ '') is less than the implementation limit ('' @ to_string MIN_CHAN_DUST_LIMIT_SATOSHIS @ '')'')
      else if ac_dust_limit_satoshis msg > MAX_CHAN_DUST_LIMIT_SATOSHIS
      then close_with (''dust_limit_satoshis ('' @ to_string (ac_dust_limit_satoshis msg) @ '') is greater than the implementation limit ('' @ to_string MAX_CHAN_DUST_LIMIT_SATOSHIS @ '')'')
      else if ac_minimum_depth msg > max_minimum_depth limits
      then close_with (''We consider the minimum depth to be unreasonably large. Expected minimum: ('' @ to_string (max_minimum_depth limits) @ ''). Actual: ('' @ to_string (ac_minimum_depth msg) @ '')'')
      else Ok ())"

definition accepted_type :: "features \<Rightarrow> AcceptChannel \<Rightarrow> ('fwd, 'src) channel \<Rightarrow> (ChannelError, features) outcome" where
  "accepted_type their_features msg c =
     (case ac_channel_type msg of
        Some ty \<Rightarrow> if ty \<noteq> channel_type c then close_with ''Channel Type in accept_channel didn't match the one sent in open_channel.'' else Ok (channel_type c)
      | None \<Rightarrow> if supports_feature ChannelType their_features then Ok (channel_type c) else Ok (from_counterparty_init their_features))"

definition accept_channel ::
  "script_lib \<Rightarrow> AcceptChannel \<Rightarrow> ChannelHandshakeLimits \<Rightarrow> features \<Rightarrow> ('fwd, 'src) channel \<Rightarrow> ('fwd, 'src, unit) chan_result" where
  "accept_channel sl msg default_limits their_features c =
     (let limits = (case inbound_handshake_limits_override c of Some l \<Rightarrow> l | None \<Rightarrow> default_limits) in
      case and_then (check_accept limits msg c) (\<lambda>_. accepted_type their_features msg c) of
        Err e \<Rightarrow> (c, Err e)
      | Panic \<Rightarrow> (c, Panic)
      | Ok ty \<Rightarrow>
          (let c1 = c\<lparr>channel_type := ty\<rparr> in
           case peer_script sl their_features (ac_shutdown_scriptpubkey msg) of
             Err e \<Rightarrow> (c1, Err e)
           | Panic \<Rightarrow> (c1, Panic)
           | Ok their_script \<Rightarrow>
               (c1\<lparr>counterparty_dust_limit_satoshis := ac_dust_limit_satoshis msg,
                   counterparty_max_htlc_value_in_flight_msat := min (ac_max_htlc_value_in_flight_msat msg) (channel_value_satoshis c * 1000),
                   counterparty_selected_channel_reserve_satoshis := Some (ac_channel_reserve_satoshis msg),
                   counterparty_htlc_minimum_msat := ac_htlc_minimum_msat msg, counterparty_max_accepted_htlcs := ac_max_accepted_htlcs msg,
                   minimum_depth := Some (if trust_own_funding_0conf limits then ac_minimum_depth msg else max 1 (ac_minimum_depth msg)),
                   counterparty_parameters := Some (ac_pubkeys msg, ac_to_self_delay msg),
                   counterparty_cur_commitment_point := Some (ac_first_per_commitment_point msg),
                   counterparty_shutdown_scriptpubkey := their_script,
                   channel_state := OurInitSent OR TheirInitSent, inbound_handshake_limits_override := None\<rparr>, Ok ())))"

end
