(* ===== verification/Channel_Chain.thy ===== *)
theory Channel_Chain
  imports Channel_Accept Fake_Scid
begin

text \<open>
  A channel and the chain (\<open>lightning/src/ln/channel.rs\<close>): the funding messages with the first commitment transactions,
  \<open>channel_ready\<close>, confirmations and reorganisations of the funding transaction, and the public announcement.
  The monitor created at funding is represented by the data it is created from.
\<close>

section \<open>Announcements\<close>

record AnnouncementSignatures =
  as_channel_id :: bytes
  as_short_channel_id :: u64
  as_node_signature :: bytes
  as_bitcoin_signature :: bytes

text \<open>Our node id, the chain, and what the signer and the signature library do with an announcement.\<close>

record announce_env =
  ae_node_id :: bytes
  ae_chain_hash :: bytes
  ae_sign :: "UnsignedChannelAnnouncement \<Rightarrow> (bytes \<times> bytes) option"
  ae_hash :: "UnsignedChannelAnnouncement \<Rightarrow> bytes"
  ae_verify :: "bytes \<Rightarrow> bytes \<Rightarrow> bytes \<Rightarrow> bool"
  ae_show :: "UnsignedChannelAnnouncement \<Rightarrow> string"
  ae_show_key :: "bytes \<Rightarrow> string"

fun bytes_less :: "bytes \<Rightarrow> bytes \<Rightarrow> bool" where
  "bytes_less [] ys \<longleftrightarrow> ys \<noteq> []"
| "bytes_less (x # xs) [] \<longleftrightarrow> False"
| "bytes_less (x # xs) (y # ys) \<longleftrightarrow> x < y \<or> x = y \<and> bytes_less xs ys"

definition counterparty_funding_pubkey :: "('fwd, 'src) channel \<Rightarrow> (ChannelError, bytes) outcome" where
  "counterparty_funding_pubkey c = (case counterparty_parameters c of Some (keys, _) \<Rightarrow> Ok (funding_pubkey keys) | None \<Rightarrow> Panic)"

definition get_channel_announcement :: "announce_env \<Rightarrow> ('fwd, 'src) channel \<Rightarrow> (ChannelError, UnsignedChannelAnnouncement) outcome" where
  "get_channel_announcement env c =
     (if \<not> announced_channel c then ignore ''Channel is not available for public announcements''
      else if \<not> is_usable c then ignore ''Cannot get a ChannelAnnouncement if the channel is not currently usable''
      else let were_node_one = bytes_less (ae_node_id env) (counterparty_node_id c) in
        and_then (unwrap (short_channel_id c)) (\<lambda>scid.
        and_then (counterparty_funding_pubkey c) (\<lambda>their_key.
          let our_key = funding_pubkey (holder_pubkeys c) in
          Ok \<lparr>ca_features = known ChannelContext, ca_chain_hash = ae_chain_hash env, ca_short_channel_id = scid,
              ca_node_id_1 = (if were_node_one then ae_node_id env else counterparty_node_id c),
              ca_node_id_2 = (if were_node_one then counterparty_node_id c else ae_node_id env),
              ca_bitcoin_key_1 = (if were_node_one then our_key else their_key),
              ca_bitcoin_key_2 = (if were_node_one then their_key else our_key), ca_excess_data = []\<rparr>)))"

definition deeply_confirmed :: "u32 \<Rightarrow> ('fwd, 'src) channel \<Rightarrow> bool" where
  "deeply_confirmed best_height c \<longleftrightarrow>
     \<not> (funding_tx_confirmation_height c = 0 \<or> funding_tx_confirmation_height c + 5 > best_height)"

definition get_announcement_sigs :: "announce_env \<Rightarrow> u32 \<Rightarrow> ('fwd, 'src) channel \<Rightarrow> ('fwd, 'src, AnnouncementSignatures option) chan_result" where
  "get_announcement_sigs env best_height c =
     (if \<not> deeply_confirmed best_height c then (c, Ok None)
      else if \<not> is_usable c then (c, Ok None)
      else if any_state PeerDisconnected c then (c, Ok None)
      else if announcement_sigs_state c \<noteq> NotSent then (c, Ok None)
      else case get_channel_announcement env c of
        Err _ \<Rightarrow> (c, Ok None)
      | Panic \<Rightarrow> (c, Panic)
      | Ok announcement \<Rightarrow>
          (case ae_sign env announcement of
             None \<Rightarrow> (c, Ok None)
           | Some (our_node_sig, our_bitcoin_sig) \<Rightarrow>
               (c\<lparr>announcement_sigs_state := MessageSent\<rparr>,
                map_ok (\<lambda>scid. Some \<lparr>as_channel_id = channel_id c, as_short_channel_id = scid, as_node_signature = our_node_sig, as_bitcoin_signature = our_bitcoin_sig\<rparr>)
                  (unwrap (short_channel_id c)))))"

definition sign_channel_announcement ::
  "announce_env \<Rightarrow> UnsignedChannelAnnouncement \<Rightarrow> ('fwd, 'src) channel \<Rightarrow> (ChannelError, ChannelAnnouncement) outcome" where
  "sign_channel_announcement env announcement c =
     (case announcement_sigs c of
        None \<Rightarrow> ignore ''Attempted to sign channel announcement before we'd received announcement_signatures''
      | Some (their_node_sig, their_bitcoin_sig) \<Rightarrow>
          (let were_node_one = (ca_node_id_1 announcement = ae_node_id env) in
           case ae_sign env announcement of
             None \<Rightarrow> ignore ''Signer rejected channel_announcement''
           | Some (our_node_sig, our_bitcoin_sig) \<Rightarrow>
               Ok \<lparr>ca_node_signature_1 = (if were_node_one then our_node_sig else their_node_sig),
                   ca_node_signature_2 = (if were_node_one then their_node_sig else our_node_sig),
                   ca_bitcoin_signature_1 = (if were_node_one then our_bitcoin_sig else their_bitcoin_sig),
                   ca_bitcoin_signature_2 = (if were_node_one then their_bitcoin_sig else our_bitcoin_sig), ca_contents = announcement\<rparr>))"

definition announcement_signatures ::
  "announce_env \<Rightarrow> u32 \<Rightarrow> AnnouncementSignatures \<Rightarrow> ('fwd, 'src) channel \<Rightarrow> ('fwd, 'src, ChannelAnnouncement) chan_result" where
  "announcement_signatures env best_height msg c =
     (case and_then (get_channel_announcement env c) (\<lambda>a. map_ok (\<lambda>k. (a, k)) (counterparty_funding_pubkey c)) of
        Err e \<Rightarrow> (c, Err e)
      | Panic \<Rightarrow> (c, Panic)
      | Ok (announcement, their_key) \<Rightarrow>
          (let msghash = ae_hash env announcement in
           if \<not> ae_verify env msghash (as_node_signature msg) (counterparty_node_id c)
           then (c, close_with (''Bad announcement_signatures. Failed to verify node_signature. UnsignedChannelAnnouncement used for verification is '' @ ae_show env announcement @ ''. their_node_key is '' @ ae_show_key env (counterparty_node_id c)))
           else if \<not> ae_verify env msghash (as_bitcoin_signature msg) their_key
           then (c, close_with (''Bad announcement_signatures. Failed to verify bitcoin_signature. UnsignedChannelAnnouncement used for verification is '' @ ae_show env announcement @ ''. their_bitcoin_key is ('' @ ae_show_key env their_key @ '')''))
           else let c1 = c\<lparr>announcement_sigs := Some (as_node_signature msg, as_bitcoin_signature msg)\<rparr> in
             if \<not> deeply_confirmed best_height c1
             then (c1, ignore ''Got announcement_signatures prior to the required six confirmations - we may not have received a block yet that our peer has'')
             else (c1, sign_channel_announcement env announcement c1)))"

definition get_signed_channel_announcement :: "announce_env \<Rightarrow> u32 \<Rightarrow> ('fwd, 'src) channel \<Rightarrow> (unit, ChannelAnnouncement option) outcome" where
  "get_signed_channel_announcement env best_height c =
     (if \<not> deeply_confirmed best_height c then Ok None
      else case get_channel_announcement env c of
        Err _ \<Rightarrow> Ok None
      | Panic \<Rightarrow> Panic
      | Ok announcement \<Rightarrow> (case sign_channel_announcement env announcement c of Ok a \<Rightarrow> Ok (Some a) | Err _ \<Rightarrow> Ok None | Panic \<Rightarrow> Panic))"

section \<open>Readiness\<close>

definition ready_message :: "'k chan_lib \<Rightarrow> u64 \<Rightarrow> ('fwd, 'src) channel \<Rightarrow> ChannelReady" where
  "ready_message lib n c =
     \<lparr>cr_channel_id = channel_id c, cr_next_per_commitment_point = get_per_commitment_point lib n, cr_short_channel_id_alias = Some (outbound_scid_alias c)\<rparr>"

definition non_shutdown_state :: "('fwd, 'src) channel \<Rightarrow> u32" where
  "non_shutdown_state c = channel_state c AND NOT MULTI_STATE_FLAGS"

definition mark_ready :: "('fwd, 'src) channel \<Rightarrow> ('fwd, 'src, bool) chan_result" where
  "mark_ready c =
     (let st = non_shutdown_state c in
      if st = FundingSent then (c\<lparr>channel_state := channel_state c OR OurChannelReady\<rparr>, Ok True)
      else if st = FundingSent OR TheirChannelReady
      then (c\<lparr>channel_state := ChannelFunded OR (channel_state c AND MULTI_STATE_FLAGS), update_time_counter := update_time_counter c + 1\<rparr>, Ok True)
      else if st = FundingSent OR OurChannelReady then (c, Ok False)
      else if channel_state c < ChannelFunded then (c, Panic)
      else (c, Ok False))"

definition check_get_channel_ready :: "'k chan_lib \<Rightarrow> u32 \<Rightarrow> ('fwd, 'src) channel \<Rightarrow> ('fwd, 'src, ChannelReady option) chan_result" where
  "check_get_channel_ready lib height c =
     (if funding_tx_confirmation_height c = 0 \<and> minimum_depth c \<noteq> Some 0 then (c, Ok None)
      else let funding_tx_confirmations = uint height - uint (funding_tx_confirmation_height c) + 1;
               c1 = (if funding_tx_confirmations \<le> 0 then c\<lparr>funding_tx_confirmation_height := 0\<rparr> else c) in
        if funding_tx_confirmations < (case minimum_depth c of Some d \<Rightarrow> uint d | None \<Rightarrow> 0) then (c1, Ok None)
        else then_run (mark_ready c1) (\<lambda>need_commitment_update c2.
          if \<not> need_commitment_update then (c2, Ok None)
          else if any_state MonitorUpdateFailed c2 then (c2\<lparr>monitor_pending_channel_ready := True\<rparr>, Ok None)
          else if any_state PeerDisconnected c2 then (c2, Ok None)
          else (c2, Ok (Some (ready_message lib (INITIAL_COMMITMENT_NUMBER - 1) c2)))))"

definition expected_point :: "'k chan_lib \<Rightarrow> ('fwd, 'src) channel \<Rightarrow> (ChannelError, bytes option) outcome" where
  "expected_point lib c =
     (if cur_counterparty_commitment_transaction_number c = INITIAL_COMMITMENT_NUMBER - 1 then Ok (counterparty_cur_commitment_point c)
      else case get_secret (chan_sha256 lib) (commitment_secrets c) (INITIAL_COMMITMENT_NUMBER - 1) of
        Ok (Some s) \<Rightarrow> map_ok Some (unwrap (secret_to_point lib s))
      | _ \<Rightarrow> Panic)"

definition note_alias :: "ChannelReady \<Rightarrow> ('fwd, 'src) channel \<Rightarrow> ('fwd, 'src) channel" where
  "note_alias msg c =
     (case cr_short_channel_id_alias msg of
        Some scid_alias \<Rightarrow> if Some scid_alias \<noteq> short_channel_id c then c\<lparr>latest_inbound_scid_alias := Some scid_alias\<rparr> else c
      | None \<Rightarrow> c)"

definition channel_ready ::
  "'k chan_lib \<Rightarrow> announce_env \<Rightarrow> u32 \<Rightarrow> ChannelReady \<Rightarrow> ('fwd, 'src) channel \<Rightarrow> ('fwd, 'src, AnnouncementSignatures option) chan_result" where
  "channel_ready lib env best_height msg c =
     (if in_state PeerDisconnected c
      then (c\<lparr>workaround_lnd_bug_4006 := Some msg\<rparr>,
            ignore ''Peer sent channel_ready when we needed a channel_reestablish. The peer is likely lnd, see https://github.com/lightningnetwork/lnd/issues/4006'')
      else let c1 = note_alias msg c;
               st = non_shutdown_state c1;
               accept = (\<lambda>c2. get_announcement_sigs env best_height
                 (c2\<lparr>counterparty_prev_commitment_point := counterparty_cur_commitment_point c2,
                     counterparty_cur_commitment_point := Some (cr_next_per_commitment_point msg)\<rparr>)) in
        if st = FundingSent then accept (c1\<lparr>channel_state := channel_state c1 OR TheirChannelReady\<rparr>)
        else if st = FundingSent OR OurChannelReady
        then accept (c1\<lparr>channel_state := ChannelFunded OR (channel_state c1 AND MULTI_STATE_FLAGS), update_time_counter := update_time_counter c1 + 1\<rparr>)
        else if any_state ChannelFunded c1 \<or> in_state (FundingSent OR TheirChannelReady) c1
        then (case expected_point lib c1 of
                Ok point \<Rightarrow> if point \<noteq> Some (cr_next_per_commitment_point msg) then (c1, close_with ''Peer sent a reconnect channel_ready with a different point'') else (c1, Ok None)
              | Err e \<Rightarrow> (c1, Err e)
              | Panic \<Rightarrow> (c1, Panic))
        else (c1, close_with ''Peer sent a channel_ready at a strange time''))"

section \<open>Funding\<close>

record FundingCreated =
  fc_temporary_channel_id :: bytes
  fc_funding_txid :: bytes
  fc_funding_output_index :: u16
  fc_signature :: bytes

record FundingSigned =
  fs_channel_id :: bytes
  fs_signature :: bytes

record 'k new_monitor =
  nm_holder_tx :: "'k commitment_tx"
  nm_holder_sig :: bytes
  nm_counterparty_txid :: bytes
  nm_counterparty_number :: u64
  nm_counterparty_point :: bytes

definition to_channel_id :: "bytes \<times> u16 \<Rightarrow> bytes" where
  "to_channel_id = (\<lambda>(txid, idx). (txid[30 := txid ! 30 XOR ucast (drop_bit 8 idx AND 0xff)])[31 := txid ! 31 XOR ucast (idx AND 0xff)])"

definition not_advanced :: "('fwd, 'src) channel \<Rightarrow> bool" where
  "not_advanced c \<longleftrightarrow> get_min_seen_secret (commitment_secrets c) = push_bit 48 1 \<and>
     cur_counterparty_commitment_transaction_number c = INITIAL_COMMITMENT_NUMBER \<and> cur_holder_commitment_transaction_number c = INITIAL_COMMITMENT_NUMBER"

definition get_outbound_funding_created_signature :: "'k chan_lib \<Rightarrow> ('fwd, 'src) channel \<Rightarrow> (ChannelError, bytes) outcome" where
  "get_outbound_funding_created_signature lib c =
     and_then (build_remote_transaction_keys lib c) (\<lambda>keys.
     and_then (build_commitment_transaction lib (cur_counterparty_commitment_transaction_number c) keys False False c) (\<lambda>stats.
       case sign_counterparty_commitment lib (st_tx stats) [] of
         None \<Rightarrow> close_with ''Failed to get signatures for new commitment_signed''
       | Some (signature, _) \<Rightarrow> Ok signature))"

definition get_outbound_funding_created ::
  "'k chan_lib \<Rightarrow> bytes \<Rightarrow> bytes \<times> u16 \<Rightarrow> ('fwd, 'src) channel \<Rightarrow> ('fwd, 'src, FundingCreated) chan_result" where
  "get_outbound_funding_created lib tx funding_txo c =
     (if \<not> is_outbound c \<or> channel_state c \<noteq> OurInitSent OR TheirInitSent \<or> \<not> not_advanced c then (c, Panic)
      else let c1 = c\<lparr>funding_outpoint := Some funding_txo\<rparr> in
        case get_outbound_funding_created_signature lib c1 of
          Err e \<Rightarrow> (c1\<lparr>funding_outpoint := None\<rparr>, Err e)
        | Panic \<Rightarrow> (c1, Panic)
        | Ok signature \<Rightarrow>
            (c1\<lparr>channel_state := FundingCreatedState, channel_id := to_channel_id funding_txo, funding_transaction := Some tx\<rparr>,
             Ok \<lparr>fc_temporary_channel_id = channel_id c, fc_funding_txid = fst funding_txo, fc_funding_output_index = snd funding_txo, fc_signature = signature\<rparr>))"

definition funding_created_signature ::
  "'k chan_lib \<Rightarrow> bytes \<Rightarrow> ('fwd, 'src) channel \<Rightarrow> (ChannelError, bytes \<times> 'k commitment_tx \<times> bytes) outcome" where
  "funding_created_signature lib sig c =
     and_then (build_holder_transaction_keys lib (cur_holder_commitment_transaction_number c)) (\<lambda>keys.
     and_then (build_commitment_transaction lib (cur_holder_commitment_transaction_number c) keys True False c) (\<lambda>stats.
       if \<not> verify_commitment_sig lib (st_tx stats) sig then close_with ''Invalid funding_created signature from peer''
       else and_then (build_remote_transaction_keys lib c) (\<lambda>counterparty_keys.
            and_then (build_commitment_transaction lib (cur_counterparty_commitment_transaction_number c) counterparty_keys False False c) (\<lambda>their_stats.
              case sign_counterparty_commitment lib (st_tx their_stats) [] of
                None \<Rightarrow> close_with ''Failed to get signatures for new commitment_signed''
              | Some (signature, _) \<Rightarrow> Ok (tx_id lib (st_tx their_stats), st_tx stats, signature)))))"

definition advance_funded :: "('fwd, 'src) channel \<Rightarrow> ('fwd, 'src) channel" where
  "advance_funded c =
     c\<lparr>channel_state := FundingSent, cur_counterparty_commitment_transaction_number := cur_counterparty_commitment_transaction_number c - 1,
       cur_holder_commitment_transaction_number := cur_holder_commitment_transaction_number c - 1\<rparr>"

definition funding_created ::
  "'k chan_lib \<Rightarrow> FundingCreated \<Rightarrow> ('fwd, 'src) channel \<Rightarrow> ('fwd, 'src, FundingSigned \<times> 'k new_monitor \<times> ChannelReady option) chan_result" where
  "funding_created lib msg c =
     (if is_outbound c then (c, close_with ''Received funding_created for an outbound channel?'')
      else if channel_state c \<noteq> OurInitSent OR TheirInitSent then (c, close_with ''Received funding_created after we got the channel!'')
      else if inbound_awaiting_accept c then (c, close_with ''FundingCreated message received before the channel was accepted'')
      else if \<not> not_advanced c then (c, Panic)
      else let funding_txo = (fc_funding_txid msg, fc_funding_output_index msg); c1 = c\<lparr>funding_outpoint := Some funding_txo\<rparr> in
        case funding_created_signature lib (fc_signature msg) c1 of
          Err (Close e) \<Rightarrow> (c1\<lparr>funding_outpoint := None\<rparr>, Err (Close e))
        | Err _ \<Rightarrow> (c1, Panic)
        | Panic \<Rightarrow> (c1, Panic)
        | Ok (txid, tx, signature) \<Rightarrow>
            if \<not> validate_holder_commitment lib tx (fc_signature msg) [] [] then (c1, close_with ''Failed to validate our commitment'')
            else case counterparty_cur_commitment_point c1 of
              None \<Rightarrow> (c1, Panic)
            | Some point \<Rightarrow>
                then_run (check_get_channel_ready lib 0 ((advance_funded c1)\<lparr>channel_id := to_channel_id funding_txo\<rparr>)) (\<lambda>ready c2.
                  (c2, Ok (\<lparr>fs_channel_id = channel_id c2, fs_signature = signature\<rparr>,
                           \<lparr>nm_holder_tx = tx, nm_holder_sig = fc_signature msg, nm_counterparty_txid = txid,
                            nm_counterparty_number = cur_counterparty_commitment_transaction_number c, nm_counterparty_point = point\<rparr>, ready))))"

definition check_funding_signed :: "'k chan_lib \<Rightarrow> FundingSigned \<Rightarrow> ('fwd, 'src) channel \<Rightarrow> (ChannelError, 'k new_monitor) outcome" where
  "check_funding_signed lib msg c =
     (if \<not> is_outbound c then close_with ''Received funding_signed for an inbound channel?''
      else if channel_state c AND NOT MonitorUpdateFailed \<noteq> FundingCreatedState then close_with ''Received funding_signed in strange state!''
      else if \<not> not_advanced c then Panic
      else and_then (build_remote_transaction_keys lib c) (\<lambda>counterparty_keys.
           and_then (build_commitment_transaction lib (cur_counterparty_commitment_transaction_number c) counterparty_keys False False c) (\<lambda>their_stats.
           and_then (build_holder_transaction_keys lib (cur_holder_commitment_transaction_number c)) (\<lambda>keys.
           and_then (build_commitment_transaction lib (cur_holder_commitment_transaction_number c) keys True False c) (\<lambda>stats.
             if \<not> verify_commitment_sig lib (st_tx stats) (fs_signature msg) then close_with ''Invalid funding_signed signature from peer''
             else if \<not> validate_holder_commitment lib (st_tx stats) (fs_signature msg) [] [] then close_with ''Failed to validate our commitment''
             else if funding_outpoint c = None then Panic
             else case counterparty_cur_commitment_point c of
               None \<Rightarrow> Panic
             | Some point \<Rightarrow>
                 if any_state MonitorUpdateFailed c then Panic
                 else Ok \<lparr>nm_holder_tx = st_tx stats, nm_holder_sig = fs_signature msg, nm_counterparty_txid = tx_id lib (st_tx their_stats),
                          nm_counterparty_number = cur_counterparty_commitment_transaction_number c, nm_counterparty_point = point\<rparr>)))))"

definition funding_signed ::
  "'k chan_lib \<Rightarrow> FundingSigned \<Rightarrow> ('fwd, 'src) channel \<Rightarrow> ('fwd, 'src, 'k new_monitor \<times> bytes \<times> ChannelReady option) chan_result" where
  "funding_signed lib msg c =
     (case check_funding_signed lib msg c of
        Err e \<Rightarrow> (c, Err e)
      | Panic \<Rightarrow> (c, Panic)
      | Ok monitor \<Rightarrow>
          (let c1 = advance_funded c in
           case funding_transaction c1 of
             None \<Rightarrow> (c1, Panic)
           | Some tx \<Rightarrow> then_run (check_get_channel_ready lib 0 c1) (\<lambda>ready c2. (c2, Ok (monitor, tx, ready)))))"

definition unbroadcasted_funding :: "('fwd, 'src) channel \<Rightarrow> bytes option" where
  "unbroadcasted_funding c = (if any_state FundingCreatedState c then funding_transaction c else None)"

section \<open>Blocks\<close>

datatype ClosureReason =
    CounterpartyForceClosed string
  | HolderForceClosed
  | CooperativeClosure
  | CommitmentTxConfirmed
  | FundingTimedOut
  | ProcessingError string
  | DisconnectedPeer
  | OutdatedChannelManager

type_synonym ('fwd, 'src, 'a) chain_result = "('fwd, 'src) channel \<times> (ClosureReason, 'a) outcome"

text \<open>What is read of a confirmed transaction: its id, its outputs, and for each input the output it spends and
  whether its witness is empty.\<close>

record chain_tx =
  tx_txid :: bytes
  tx_outputs :: "(bytes \<times> u64) list"
  tx_inputs :: "((bytes \<times> u32) \<times> bool) list"

definition lift_result :: "('fwd, 'src, 'a) chan_result \<Rightarrow> ('a \<Rightarrow> ('fwd, 'src) channel \<Rightarrow> ('fwd, 'src, 'b) chain_result) \<Rightarrow> ('fwd, 'src, 'b) chain_result" where
  "lift_result r f = (case r of (c, Ok a) \<Rightarrow> f a c | (c, _) \<Rightarrow> (c, Panic))"

definition funding_confirmed ::
  "(bytes \<Rightarrow> bytes \<Rightarrow> bytes) \<Rightarrow> bytes \<Rightarrow> u32 \<Rightarrow> u64 \<Rightarrow> chain_tx \<Rightarrow> bytes \<times> u16 \<Rightarrow> ('fwd, 'src) channel \<Rightarrow> ('fwd, 'src, unit) chain_result" where
  "funding_confirmed script_of block_hash height index_in_block tx funding_txo c =
     (if tx_txid tx \<noteq> fst funding_txo then (c, Ok ())
      else case counterparty_funding_pubkey c of
        Ok their_key \<Rightarrow>
          (let idx = unat (snd funding_txo) in
           if idx \<ge> length (tx_outputs tx) \<or> fst (tx_outputs tx ! idx) \<noteq> script_of (funding_pubkey (holder_pubkeys c)) their_key \<or>
              snd (tx_outputs tx ! idx) \<noteq> channel_value_satoshis c
           then if is_outbound c then (c, Panic)
                else (c\<lparr>update_time_counter := update_time_counter c + 1\<rparr>, Err (ProcessingError ''funding tx had wrong script/value or output index''))
           else if is_outbound c \<and> (\<exists>i\<in>set (tx_inputs tx). snd i) then (c, Panic)
           else let c1 = c\<lparr>funding_tx_confirmation_height := height, funding_tx_confirmed_in := Some block_hash\<rparr> in
             case scid_from_parts_checked (ucast height) index_in_block (word_of_nat idx) of
               Ok scid \<Rightarrow> (c1\<lparr>short_channel_id := Some scid\<rparr>, Ok ())
             | _ \<Rightarrow> (c1, Panic))
      | _ \<Rightarrow> (c, Panic))"

fun confirm_loop ::
  "'k chan_lib \<Rightarrow> announce_env \<Rightarrow> (bytes \<Rightarrow> bytes \<Rightarrow> bytes) \<Rightarrow> bytes \<Rightarrow> u32 \<Rightarrow> bytes \<times> u16 \<Rightarrow> (u64 \<times> chain_tx) list \<Rightarrow> ('fwd, 'src) channel \<Rightarrow>
   ('fwd, 'src, ChannelReady option \<times> AnnouncementSignatures option) chain_result" where
  "confirm_loop lib env script_of block_hash height txo [] c = (c, Ok (None, None))"
| "confirm_loop lib env script_of block_hash height txo ((i, tx) # rest) c =
     (let spent = (\<lambda>c2. if \<exists>inp\<in>set (tx_inputs tx). fst inp = (fst txo, ucast (snd txo)) then (c2, Err CommitmentTxConfirmed)
                        else confirm_loop lib env script_of block_hash height txo rest c2) in
      if funding_tx_confirmation_height c \<noteq> 0 then spent c
      else case funding_confirmed script_of block_hash height i tx txo c of
        (c1, Ok _) \<Rightarrow>
          lift_result (check_get_channel_ready lib height c1) (\<lambda>ready c2.
            case ready of
              Some msg \<Rightarrow> lift_result (get_announcement_sigs env height c2) (\<lambda>sigs c3. (c3, Ok (Some msg, sigs)))
            | None \<Rightarrow> spent c2)
      | (c1, Err e) \<Rightarrow> (c1, Err e)
      | (c1, Panic) \<Rightarrow> (c1, Panic))"

definition transactions_confirmed ::
  "'k chan_lib \<Rightarrow> announce_env \<Rightarrow> (bytes \<Rightarrow> bytes \<Rightarrow> bytes) \<Rightarrow> bytes \<Rightarrow> u32 \<Rightarrow> (u64 \<times> chain_tx) list \<Rightarrow> ('fwd, 'src) channel \<Rightarrow>
   ('fwd, 'src, ChannelReady option \<times> AnnouncementSignatures option) chain_result" where
  "transactions_confirmed lib env script_of block_hash height txdata c =
     (case funding_outpoint c of Some txo \<Rightarrow> confirm_loop lib env script_of block_hash height txo txdata c | None \<Rightarrow> (c, Ok (None, None)))"

definition LATENCY_GRACE_PERIOD_BLOCKS :: u32 where "LATENCY_GRACE_PERIOD_BLOCKS = 3"
definition FUNDING_CONF_DEADLINE_BLOCKS :: u32 where "FUNDING_CONF_DEADLINE_BLOCKS = 2016"

definition drop_held_adds :: "(u32 \<Rightarrow> bool) \<Rightarrow> ('fwd, 'src) channel \<Rightarrow> ('fwd, 'src) channel \<times> ('src \<times> bytes) list" where
  "drop_held_adds drops c =
     (c\<lparr>holding_cell_htlc_updates := filter (\<lambda>u. case u of AddHTLC _ cltv _ _ _ \<Rightarrow> \<not> drops cltv | _ \<Rightarrow> True) (holding_cell_htlc_updates c)\<rparr>,
      List.map_filter (\<lambda>u. case u of AddHTLC _ cltv hash src _ \<Rightarrow> if drops cltv then Some (src, hash) else None | _ \<Rightarrow> None) (holding_cell_htlc_updates c))"

definition check_unconfirmed :: "u32 \<Rightarrow> ('fwd, 'src) channel \<Rightarrow> (ClosureReason, unit) outcome" where
  "check_unconfirmed height c =
     (let st = non_shutdown_state c in
      if st \<ge> ChannelFunded \<or> st AND OurChannelReady = OurChannelReady
      then (let confs = (if funding_tx_confirmation_height c = 0 then 0 else uint height - uint (funding_tx_confirmation_height c) + 1) in
            if confs = 0 \<and> funding_tx_confirmed_in c \<noteq> None
            then (case minimum_depth c of
                    None \<Rightarrow> Panic
                  | Some depth \<Rightarrow> Err (ProcessingError (''Funding transaction was un-confirmed. Locked at '' @ to_string depth @ '' confs, now have 0 confs.'')))
            else Ok ())
      else if \<not> is_outbound c \<and> funding_tx_confirmed_in c = None \<and> height \<ge> channel_creation_height c + FUNDING_CONF_DEADLINE_BLOCKS
      then (if st > ChannelFunded \<or> st AND OurChannelReady \<noteq> 0 then Panic else Err FundingTimedOut)
      else Ok ())"

definition do_best_block_updated ::
  "'k chan_lib \<Rightarrow> announce_env option \<Rightarrow> u32 \<Rightarrow> u32 \<Rightarrow> ('fwd, 'src) channel \<Rightarrow>
   ('fwd, 'src, ChannelReady option \<times> ('src \<times> bytes) list \<times> AnnouncementSignatures option) chain_result" where
  "do_best_block_updated lib env height highest_header_time c =
     (let unforwarded_htlc_cltv_limit = height + LATENCY_GRACE_PERIOD_BLOCKS;
          (c1, timed_out_htlcs) = drop_held_adds (\<lambda>cltv. cltv \<le> unforwarded_htlc_cltv_limit) c;
          c2 = c1\<lparr>update_time_counter := max (update_time_counter c1) highest_header_time\<rparr>;
          announce = (\<lambda>c3. case env of Some e \<Rightarrow> get_announcement_sigs e height c3 | None \<Rightarrow> (c3, Ok None)) in
      lift_result (check_get_channel_ready lib height c2) (\<lambda>ready c3.
        case ready of
          Some msg \<Rightarrow> lift_result (announce c3) (\<lambda>sigs c4. (c4, Ok (Some msg, timed_out_htlcs, sigs)))
        | None \<Rightarrow>
            (case check_unconfirmed height c3 of
               Err e \<Rightarrow> (c3, Err e)
             | Panic \<Rightarrow> (c3, Panic)
             | Ok _ \<Rightarrow> lift_result (announce c3) (\<lambda>sigs c4. (c4, Ok (None, timed_out_htlcs, sigs))))))"

definition best_block_updated ::
  "'k chan_lib \<Rightarrow> announce_env \<Rightarrow> u32 \<Rightarrow> u32 \<Rightarrow> ('fwd, 'src) channel \<Rightarrow>
   ('fwd, 'src, ChannelReady option \<times> ('src \<times> bytes) list \<times> AnnouncementSignatures option) chain_result" where
  "best_block_updated lib env height highest_header_time c = do_best_block_updated lib (Some env) height highest_header_time c"

definition funding_transaction_unconfirmed :: "'k chan_lib \<Rightarrow> ('fwd, 'src) channel \<Rightarrow> ('fwd, 'src, unit) chain_result" where
  "funding_transaction_unconfirmed lib c =
     (if funding_tx_confirmation_height c = 0 then (c, Ok ())
      else case do_best_block_updated lib None (funding_tx_confirmation_height c - 1) (update_time_counter c) c of
        (c1, Ok (ready, timed_out_htlcs, sigs)) \<Rightarrow> if ready \<noteq> None \<or> timed_out_htlcs \<noteq> [] \<or> sigs \<noteq> None then (c1, Panic) else (c1, Ok ())
      | (c1, Err e) \<Rightarrow> (c1, Err e)
      | (c1, Panic) \<Rightarrow> (c1, Panic))"

end
