(* ===== verification/Channel_Reconnect.thy ===== *)
theory Channel_Reconnect
  imports Channel_Chain
begin

text \<open>
  Resuming a channel (\<open>lightning/src/ln/channel.rs\<close>): after a monitor update was persisted at last
  (\<open>monitor_updating_restored\<close>) and after a reconnection (\<open>get_channel_reestablish\<close>, \<open>channel_reestablish\<close>), where both sides
  exchange the commitment numbers they expect next and each resends what the other has missed.
\<close>

section \<open>A monitor update was persisted\<close>

record ('fwd, 'src) MonitorRestoreUpdates =
  mr_raa :: "RevokeAndACK option"
  mr_commitment_update :: "CommitmentUpdate option"
  mr_order :: RAACommitmentOrder
  mr_accepted_htlcs :: "('fwd \<times> u64) list"
  mr_failed_htlcs :: "('src \<times> bytes \<times> HTLCFailReason) list"
  mr_finalized_claimed_htlcs :: "'src list"
  mr_funding_broadcastable :: "bytes option"
  mr_channel_ready :: "ChannelReady option"
  mr_announcement_sigs :: "AnnouncementSignatures option"

definition take_funding :: "('fwd, 'src) channel \<Rightarrow> ('fwd, 'src) channel \<times> bytes option" where
  "take_funding c =
     (let (c1, tx) = (if is_outbound c \<and> non_shutdown_state c \<ge> FundingSent then (c\<lparr>funding_transaction := None\<rparr>, funding_transaction c) else (c, None))
      in (c1, if non_shutdown_state c1 \<ge> ChannelFunded \<and> minimum_depth c1 \<noteq> Some 0 then None else tx))"

definition take_ready :: "'k chan_lib \<Rightarrow> ('fwd, 'src) channel \<Rightarrow> ('fwd, 'src, ChannelReady option) chan_result" where
  "take_ready lib c =
     (if \<not> monitor_pending_channel_ready c then (c, Ok None)
      else if is_outbound c \<and> minimum_depth c \<noteq> Some 0 then (c, Panic)
      else let c1 = c\<lparr>monitor_pending_channel_ready := False\<rparr> in (c1, Ok (Some (ready_message lib (cur_holder_commitment_transaction_number c1) c1))))"

definition monitor_updating_restored ::
  "'k chan_lib \<Rightarrow> announce_env \<Rightarrow> u32 \<Rightarrow> ('fwd, 'src) channel \<Rightarrow> ('fwd, 'src, ('fwd, 'src) MonitorRestoreUpdates) chan_result" where
  "monitor_updating_restored lib env best_height c =
     (if \<not> in_state MonitorUpdateFailed c then (c, Panic)
      else let (c1, funding_broadcastable) = take_funding (c\<lparr>channel_state := channel_state c AND NOT MonitorUpdateFailed\<rparr>) in
        then_run (take_ready lib c1) (\<lambda>ready c2.
        then_run (get_announcement_sigs env best_height c2) (\<lambda>sigs c3.
          let c4 = c3\<lparr>monitor_pending_forwards := [], monitor_pending_failures := [], monitor_pending_finalized_fulfills := []\<rparr>;
              c5 = c4\<lparr>monitor_pending_revoke_and_ack := False, monitor_pending_commitment_signed := False\<rparr>;
              result = (\<lambda>raa upd order. \<lparr>mr_raa = raa, mr_commitment_update = upd, mr_order = order, mr_accepted_htlcs = monitor_pending_forwards c3,
                 mr_failed_htlcs = monitor_pending_failures c3, mr_finalized_claimed_htlcs = monitor_pending_finalized_fulfills c3,
                 mr_funding_broadcastable = funding_broadcastable, mr_channel_ready = ready, mr_announcement_sigs = sigs\<rparr>) in
          if any_state PeerDisconnected c4 then (c5, Ok (result None None RevokeAndACKFirst))
          else let raa = (if monitor_pending_revoke_and_ack c4 then Some (get_last_revoke_and_ack lib c4) else None) in
            if monitor_pending_commitment_signed c4
            then (case get_last_commitment_update lib c4 of
                    Ok upd \<Rightarrow> (c5, Ok (result raa (Some upd) (resend_order c5)))
                  | Err e \<Rightarrow> (c4, Err e)
                  | Panic \<Rightarrow> (c4, Panic))
            else (c5, Ok (result raa None (resend_order c5))))))"

section \<open>Reconnection\<close>

record DataLossProtectInfo =
  dl_your_last_per_commitment_secret :: bytes
  dl_my_current_per_commitment_point :: bytes

record ChannelReestablish =
  re_channel_id :: bytes
  re_next_local_commitment_number :: u64
  re_next_remote_commitment_number :: u64
  re_data_loss_protect :: "DataLossProtectInfo option"

record Shutdown =
  sd_channel_id :: bytes
  sd_scriptpubkey :: bytes

record ('k, 'src) ReestablishResponses =
  rr_channel_ready :: "ChannelReady option"
  rr_raa :: "RevokeAndACK option"
  rr_commitment_update :: "CommitmentUpdate option"
  rr_order :: RAACommitmentOrder
  rr_mon_update :: "('k, 'src) ChannelMonitorUpdate option"
  rr_holding_cell_failed_htlcs :: "('src \<times> bytes) list"
  rr_announcement_sigs :: "AnnouncementSignatures option"
  rr_shutdown_msg :: "Shutdown option"

definition dummy_pubkey :: bytes where
  "dummy_pubkey = (replicate 33 2)[1 := 0xff]"

definition get_channel_reestablish :: "'k chan_lib \<Rightarrow> ('fwd, 'src) channel \<Rightarrow> (ChannelError, ChannelReestablish) outcome" where
  "get_channel_reestablish lib c =
     (if \<not> in_state PeerDisconnected c then Panic
      else if cur_counterparty_commitment_transaction_number c = INITIAL_COMMITMENT_NUMBER then Panic
      else map_ok (\<lambda>secret.
             \<lparr>re_channel_id = channel_id c,
              re_next_local_commitment_number = INITIAL_COMMITMENT_NUMBER - cur_holder_commitment_transaction_number c,
              re_next_remote_commitment_number = INITIAL_COMMITMENT_NUMBER - cur_counterparty_commitment_transaction_number c - 1,
              re_data_loss_protect = Some \<lparr>dl_your_last_per_commitment_secret = secret, dl_my_current_per_commitment_point = dummy_pubkey\<rparr>\<rparr>)
        (if cur_counterparty_commitment_transaction_number c + 1 < INITIAL_COMMITMENT_NUMBER
         then (case get_secret (chan_sha256 lib) (commitment_secrets c) (cur_counterparty_commitment_transaction_number c + 2) of
                 Ok (Some s) \<Rightarrow> Ok s | _ \<Rightarrow> Panic)
         else Ok (replicate 32 0)))"

definition get_closing_scriptpubkey :: "script_lib \<Rightarrow> ('fwd, 'src) channel \<Rightarrow> (ChannelError, bytes) outcome" where
  "get_closing_scriptpubkey sl c = map_ok (into_inner sl) (unwrap (shutdown_scriptpubkey c))"

text \<open>What the message says about our own state: garbage, or proof that we have lost data.\<close>

definition check_data_loss :: "'k chan_lib \<Rightarrow> ChannelReestablish \<Rightarrow> ('fwd, 'src) channel \<Rightarrow> (ChannelError, unit) outcome" where
  "check_data_loss lib msg c =
     (if \<not> any_state PeerDisconnected c then close_with ''Peer sent a loose channel_reestablish not after reconnect''
      else if re_next_local_commitment_number msg \<ge> INITIAL_COMMITMENT_NUMBER \<or> re_next_remote_commitment_number msg \<ge> INITIAL_COMMITMENT_NUMBER \<or>
              re_next_local_commitment_number msg = 0
      then close_with ''Peer sent a garbage channel_reestablish''
      else and_then (case re_data_loss_protect msg of
          Some data_loss \<Rightarrow>
            if re_next_remote_commitment_number msg > 0
            then (case secret_to_point lib (dl_your_last_per_commitment_secret data_loss) of
                    None \<Rightarrow> close_with ''Peer sent a garbage channel_reestablish with unparseable secret key''
                  | Some point \<Rightarrow>
                      if get_per_commitment_point lib (INITIAL_COMMITMENT_NUMBER - re_next_remote_commitment_number msg + 1) \<noteq> point
                      then close_with ''Peer sent a garbage channel_reestablish with secret key not matching the commitment height provided''
                      else if re_next_remote_commitment_number msg > INITIAL_COMMITMENT_NUMBER - cur_holder_commitment_transaction_number c then Panic
                      else Ok ())
            else Ok ()
        | None \<Rightarrow> Ok ()) (\<lambda>_.
        let our_commitment_transaction = INITIAL_COMMITMENT_NUMBER - cur_holder_commitment_transaction_number c - 1 in
        if re_next_remote_commitment_number msg + 1 < our_commitment_transaction
        then Err (Warn (''Peer attempted to reestablish channel with a very old local commitment transaction: '' @ to_string (re_next_remote_commitment_number msg) @ '' (received) vs '' @ to_string our_commitment_transaction @ '' (expected)''))
        else Ok ()))"

definition resend_shutdown :: "script_lib \<Rightarrow> ('fwd, 'src) channel \<Rightarrow> (ChannelError, Shutdown option) outcome" where
  "resend_shutdown sl c =
     (if any_state LocalShutdownSent c
      then map_ok (\<lambda>s. Some \<lparr>sd_channel_id = channel_id c, sd_scriptpubkey = s\<rparr>) (get_closing_scriptpubkey sl c)
      else Ok None)"

definition required_revoke :: "'k chan_lib \<Rightarrow> ChannelReestablish \<Rightarrow> ('fwd, 'src) channel \<Rightarrow> ('fwd, 'src, RevokeAndACK option) chan_result" where
  "required_revoke lib msg c =
     (if re_next_remote_commitment_number msg + 1 = INITIAL_COMMITMENT_NUMBER - cur_holder_commitment_transaction_number c then (c, Ok None)
      else if re_next_remote_commitment_number msg + 1 = (INITIAL_COMMITMENT_NUMBER - 1) - cur_holder_commitment_transaction_number c
      then (if any_state MonitorUpdateFailed c then (c\<lparr>monitor_pending_revoke_and_ack := True\<rparr>, Ok None)
            else (c, Ok (Some (get_last_revoke_and_ack lib c))))
      else (c, close_with ''Peer attempted to reestablish channel with a very old local commitment transaction''))"

definition next_counterparty_commitment_number :: "('fwd, 'src) channel \<Rightarrow> u64" where
  "next_counterparty_commitment_number c =
     INITIAL_COMMITMENT_NUMBER - cur_counterparty_commitment_transaction_number c + (if any_state AwaitingRemoteRevoke c then 1 else 0)"

definition resend_updates ::
  "'k chan_lib \<Rightarrow> ChannelReestablish \<Rightarrow> Shutdown option \<Rightarrow> AnnouncementSignatures option \<Rightarrow> RevokeAndACK option \<Rightarrow> ('fwd, 'src) channel \<Rightarrow>
   ('fwd, 'src, ('k, 'src) ReestablishResponses) chan_result" where
  "resend_updates lib msg shutdown_msg sigs raa c =
     (let n = next_counterparty_commitment_number c;
          ready = (if re_next_local_commitment_number msg = 1 \<and> INITIAL_COMMITMENT_NUMBER - cur_holder_commitment_transaction_number c = 1
                   then Some (ready_message lib (cur_holder_commitment_transaction_number c) c) else None);
          response = (\<lambda>r upd mon failed c'. \<lparr>rr_channel_ready = ready, rr_raa = r, rr_commitment_update = upd, rr_order = resend_order c', rr_mon_update = mon,
             rr_holding_cell_failed_htlcs = failed, rr_announcement_sigs = sigs, rr_shutdown_msg = shutdown_msg\<rparr>) in
      if re_next_local_commitment_number msg = n
      then (if any_state (AwaitingRemoteRevoke OR MonitorUpdateFailed) c then (c, Ok (response raa None None [] c))
            else case free_holding_cell_htlcs lib c of
              (c1, Ok (Some (upd, mon), failed)) \<Rightarrow> (c1, Ok (response raa (Some upd) (Some mon) failed c1))
            | (c1, Ok (None, failed)) \<Rightarrow> (c1, Ok (response raa None None failed c1))
            | (c1, Err (Close e)) \<Rightarrow> (c1, Err (Close e))
            | (c1, _) \<Rightarrow> (c1, Panic))
      else if re_next_local_commitment_number msg = n - 1
      then (if any_state MonitorUpdateFailed c
            then (let c1 = c\<lparr>monitor_pending_commitment_signed := True\<rparr> in (c1, Ok (response None None None [] c1)))
            else case get_last_commitment_update lib c of
              Ok upd \<Rightarrow> (c, Ok (response raa (Some upd) None [] c))
            | Err e \<Rightarrow> (c, Err e)
            | Panic \<Rightarrow> (c, Panic))
      else (c, close_with ''Peer attempted to reestablish channel with a very old remote commitment transaction''))"

definition channel_reestablish ::
  "'k chan_lib \<Rightarrow> script_lib \<Rightarrow> announce_env \<Rightarrow> u32 \<Rightarrow> ChannelReestablish \<Rightarrow> ('fwd, 'src) channel \<Rightarrow>
   ('fwd, 'src, ('k, 'src) ReestablishResponses) chan_result" where
  "channel_reestablish lib sl env best_height msg c =
     (case check_data_loss lib msg c of
        Err e \<Rightarrow> (c, Err e)
      | Panic \<Rightarrow> (c, Panic)
      | Ok _ \<Rightarrow>
          (let c1 = c\<lparr>channel_state := channel_state c AND NOT PeerDisconnected\<rparr> in
           then_run (c1, resend_shutdown sl c1) (\<lambda>shutdown_msg c2.
           then_run (get_announcement_sigs env best_height c2) (\<lambda>sigs c3.
             let early = (\<lambda>ready. \<lparr>rr_channel_ready = ready, rr_raa = None, rr_commitment_update = None, rr_order = CommitmentFirst, rr_mon_update = None,
                   rr_holding_cell_failed_htlcs = [], rr_announcement_sigs = sigs, rr_shutdown_msg = shutdown_msg\<rparr>) in
             if in_state FundingSent c3
             then (if \<not> any_state OurChannelReady c3 \<or> any_state MonitorUpdateFailed c3
                   then (if re_next_remote_commitment_number msg \<noteq> 0
                         then (c3, close_with ''Peer claimed they saw a revoke_and_ack but we haven't sent channel_ready yet'')
                         else (c3, Ok (early None)))
                   else (c3, Ok (early (Some (ready_message lib (cur_holder_commitment_transaction_number c3) c3)))))
             else then_run (required_revoke lib msg c3) (\<lambda>raa c4. resend_updates lib msg shutdown_msg sigs raa c4)))))"

end
