(* ===== verification/Channel_Close.thy ===== *)
theory Channel_Close
  imports Channel_Reconnect
begin

text \<open>
  Closing a channel (\<open>lightning/src/ln/channel.rs\<close>): the \<open>shutdown\<close> exchange, the negotiation of the closing fee
  with \<open>closing_signed\<close>, and the forced closure. The funding script's length and the signatures on closing
  transactions are the fields of \<open>close_lib\<close>.
\<close>

section \<open>The shutdown exchange\<close>

record ClosingTransaction =
  to_holder_value_sat :: u64
  to_counterparty_value_sat :: u64
  to_holder_script :: bytes
  to_counterparty_script :: bytes
  closing_outpoint :: "bytes \<times> u16"

record close_lib =
  redeemscript_len :: u64
  sign_closing_transaction :: "ClosingTransaction \<Rightarrow> bytes option"
  verify_closing_sig :: "ClosingTransaction \<Rightarrow> bytes \<Rightarrow> bool"
  hex_script :: "bytes \<Rightarrow> string"

datatype close_step = ShutdownScriptStep bytes | ChannelForceClosed bool

definition any_drop :: "u32 \<Rightarrow> bool" where "any_drop cltv = True"

definition chosen_script ::
  "script_lib \<Rightarrow> keys_provider \<Rightarrow> features \<Rightarrow> ('fwd, 'src) channel \<Rightarrow> (bytes, ShutdownScript \<times> bool) outcome" where
  "chosen_script sl kp their_features c =
     (case shutdown_scriptpubkey c of
        Some s \<Rightarrow> Ok (s, False)
      | None \<Rightarrow>
          (case is_compatible sl their_features (kp_shutdown_scriptpubkey kp) of
             Ok True \<Rightarrow> Ok (kp_shutdown_scriptpubkey kp, True)
           | Panic \<Rightarrow> Panic
           | _ \<Rightarrow> Err (into_inner sl (kp_shutdown_scriptpubkey kp))))"

definition get_shutdown ::
  "script_lib \<Rightarrow> keys_provider \<Rightarrow> features \<Rightarrow> u32 option \<Rightarrow> ('fwd, 'src) channel \<Rightarrow>
   ('fwd, 'src) channel \<times> (APIError, Shutdown \<times> (u64 \<times> close_step list) option \<times> ('src \<times> bytes) list) outcome" where
  "get_shutdown sl kp their_features target_feerate_sats_per_kw c =
     (if \<exists>h\<in>set (pending_outbound_htlcs c). case oh_state h of LocalAnnounced _ \<Rightarrow> True | _ \<Rightarrow> False
      then (c, misuse ''Cannot begin shutdown with pending HTLCs. Process pending events first'')
      else if in_state LocalShutdownSent c then (c, misuse ''Shutdown already in progress'')
      else if in_state RemoteShutdownSent c then (c, Err (ChannelUnavailable ''Shutdown already in progress by remote''))
      else if any_state ShutdownComplete c then (c, Panic)
      else if any_state (PeerDisconnected OR MonitorUpdateFailed) c
      then (c, Err (ChannelUnavailable ''Cannot begin shutdown while peer is disconnected or we're waiting on a monitor update, maybe force-close instead?''))
      else case chosen_script sl kp their_features c of
        Err script \<Rightarrow> (c, Err (IncompatibleShutdownScript script))
      | Panic \<Rightarrow> (c, Panic)
      | Ok (script, new) \<Rightarrow>
          (let c1 = c\<lparr>shutdown_scriptpubkey := Some script, target_closing_feerate_sats_per_kw := target_feerate_sats_per_kw,
                      channel_state := (if channel_state c < FundingSent then ShutdownComplete else channel_state c OR LocalShutdownSent),
                      update_time_counter := update_time_counter c + 1\<rparr>;
               c2 = (if new then c1\<lparr>latest_monitor_update_id := latest_monitor_update_id c1 + 1\<rparr> else c1);
               (c3, dropped) = drop_held_adds any_drop (c2\<lparr>holding_cell_update_fee := None\<rparr>) in
           (c3, Ok (\<lparr>sd_channel_id = channel_id c, sd_scriptpubkey = into_inner sl script\<rparr>,
                    if new then Some (latest_monitor_update_id c2, [ShutdownScriptStep (into_inner sl script)]) else None, dropped))))"

definition check_shutdown :: "script_lib \<Rightarrow> close_lib \<Rightarrow> features \<Rightarrow> Shutdown \<Rightarrow> ('fwd, 'src) channel \<Rightarrow> (ChannelError, unit) outcome" where
  "check_shutdown sl cl their_features msg c =
     (if in_state PeerDisconnected c then close_with ''Peer sent shutdown when we needed a channel_reestablish''
      else if channel_state c < FundingSent then close_with ''Peer sent shutdown pre-funding generation''
      else if \<exists>h\<in>set (pending_inbound_htlcs c). is_remote_announced (ih_state h) then close_with ''Got shutdown with remote pending HTLCs''
      else if any_state ShutdownComplete c then Panic
      else case is_bolt2_compliant sl their_features (sd_scriptpubkey msg) of
        Ok True \<Rightarrow>
          (case counterparty_shutdown_scriptpubkey c of
             Some s \<Rightarrow> if sd_scriptpubkey msg \<noteq> s
                       then Err (Warn (''Got shutdown request with a scriptpubkey ('' @ hex_script cl (sd_scriptpubkey msg) @ '') which did not match their previous scriptpubkey.''))
                       else Ok ()
           | None \<Rightarrow> Ok ())
      | Panic \<Rightarrow> Panic
      | _ \<Rightarrow> Err (Warn (''Got a nonstandard scriptpubkey ('' @ hex_script cl (sd_scriptpubkey msg) @ '') from remote peer'')))"

definition shutdown ::
  "script_lib \<Rightarrow> close_lib \<Rightarrow> keys_provider \<Rightarrow> features \<Rightarrow> Shutdown \<Rightarrow> ('fwd, 'src) channel \<Rightarrow>
   ('fwd, 'src, Shutdown option \<times> (u64 \<times> close_step list) option \<times> ('src \<times> bytes) list) chan_result" where
  "shutdown sl cl kp their_features msg c =
     (case check_shutdown sl cl their_features msg c of
        Err e \<Rightarrow> (c, Err e)
      | Panic \<Rightarrow> (c, Panic)
      | Ok _ \<Rightarrow>
          (let c1 = c\<lparr>counterparty_shutdown_scriptpubkey := Some (sd_scriptpubkey msg)\<rparr>;
               send_shutdown = (\<not> in_state LocalShutdownSent c1) in
           if shutdown_scriptpubkey c1 = None \<and> \<not> send_shutdown then (c1, Panic)
           else case chosen_script sl kp their_features c1 of
             Err script \<Rightarrow> (c1, close_with (''Provided a scriptpubkey format not accepted by peer: '' @ show_script sl script))
           | Panic \<Rightarrow> (c1, Panic)
           | Ok (script, new) \<Rightarrow>
               (let c2 = c1\<lparr>shutdown_scriptpubkey := Some script, channel_state := channel_state c1 OR RemoteShutdownSent,
                            update_time_counter := update_time_counter c1 + 1\<rparr>;
                    c3 = (if new then c2\<lparr>latest_monitor_update_id := latest_monitor_update_id c2 + 1\<rparr> else c2);
                    (c4, dropped) = drop_held_adds any_drop (c3\<lparr>holding_cell_update_fee := None\<rparr>);
                    c5 = c4\<lparr>channel_state := channel_state c4 OR LocalShutdownSent, update_time_counter := update_time_counter c4 + 1\<rparr> in
                (c5, Ok (if send_shutdown then Some \<lparr>sd_channel_id = channel_id c5, sd_scriptpubkey = into_inner sl script\<rparr> else None,
                         if new then Some (latest_monitor_update_id c3, [ShutdownScriptStep (into_inner sl script)]) else None, dropped)))))"

section \<open>The closing transaction\<close>

definition closing_transaction_weight :: "close_lib \<Rightarrow> bytes \<Rightarrow> bytes \<Rightarrow> u64" where
  "closing_transaction_weight cl a b =
     (4 + 1 + 36 + 1 + 4 + 1 + 4) * 4 + 2 + 1 + 4 + redeemscript_len cl + 2 * (1 + 71) +
     ((8 + 1) + word_of_nat (length a)) * 4 + ((8 + 1) + word_of_nat (length b)) * 4"

definition build_closing_transaction ::
  "script_lib \<Rightarrow> u64 \<Rightarrow> bool \<Rightarrow> ('fwd, 'src) channel \<Rightarrow> (ChannelError, ClosingTransaction \<times> u64) outcome" where
  "build_closing_transaction sl proposed_total_fee_satoshis skip_remote_output c =
     (if pending_inbound_htlcs c \<noteq> [] \<or> pending_outbound_htlcs c \<noteq> [] \<or> pending_update_fee c \<noteq> None then Panic
      else let to_holder = div_i64 (value_to_self_msat c) 1000 - (if is_outbound c then proposed_total_fee_satoshis else 0);
               to_counterparty = div_i64 (channel_value_satoshis c * 1000 - value_to_self_msat c) 1000 - (if is_outbound c then 0 else proposed_total_fee_satoshis) in
        if to_holder <s 0 \<and> \<not> is_outbound c then Panic
        else if \<not> to_holder <s 0 \<and> to_counterparty <s 0 \<and> is_outbound c then Panic
        else let total_fee = proposed_total_fee_satoshis + (if to_holder <s 0 then - to_holder else if to_counterparty <s 0 then - to_counterparty else 0);
                 their_value = (if skip_remote_output \<or> to_counterparty \<le> holder_dust_limit_satoshis c then 0 else to_counterparty);
                 our_value = (if to_holder \<le> holder_dust_limit_satoshis c then 0 else to_holder) in
          and_then (get_closing_scriptpubkey sl c) (\<lambda>our_script.
          and_then (unwrap (counterparty_shutdown_scriptpubkey c)) (\<lambda>their_script.
          and_then (unwrap (funding_outpoint c)) (\<lambda>txo.
            Ok (\<lparr>to_holder_value_sat = our_value, to_counterparty_value_sat = their_value, to_holder_script = our_script,
                 to_counterparty_script = their_script, closing_outpoint = txo\<rparr>, total_fee)))))"

text \<open>The outputs of the transaction: those of value zero are left out.\<close>

definition closing_outputs :: "ClosingTransaction \<Rightarrow> (bytes \<times> u64) list" where
  "closing_outputs tx =
     (if to_counterparty_value_sat tx > 0 then [(to_counterparty_script tx, to_counterparty_value_sat tx)] else []) @
     (if to_holder_value_sat tx > 0 then [(to_holder_script tx, to_holder_value_sat tx)] else [])"

section \<open>Negotiating the fee\<close>

definition closing_negotiation_ready :: "('fwd, 'src) channel \<Rightarrow> bool" where
  "closing_negotiation_ready c \<longleftrightarrow> pending_inbound_htlcs c = [] \<and> pending_outbound_htlcs c = [] \<and>
     channel_state c AND (BOTH_SIDES_SHUTDOWN_MASK OR AwaitingRemoteRevoke OR PeerDisconnected OR MonitorUpdateFailed) = BOTH_SIDES_SHUTDOWN_MASK \<and>
     pending_update_fee c = None"

definition timer_check_closing_negotiation_progress :: "('fwd, 'src) channel \<Rightarrow> ('fwd, 'src, unit) chan_result" where
  "timer_check_closing_negotiation_progress c =
     (if closing_negotiation_ready c
      then (if closing_signed_in_flight c then (c, close_with ''closing_signed negotiation failed to finish within two timer ticks'')
            else (c\<lparr>closing_signed_in_flight := True\<rparr>, Ok ()))
      else (c, Ok ()))"

definition calculate_closing_fee_limits ::
  "script_lib \<Rightarrow> close_lib \<Rightarrow> (Target \<Rightarrow> u32) \<Rightarrow> ('fwd, 'src) channel \<Rightarrow> ('fwd, 'src, u64 \<times> u64) chan_result" where
  "calculate_closing_fee_limits sl cl est c =
     (case closing_fee_limits c of
        Some limits \<Rightarrow> (c, Ok limits)
      | None \<Rightarrow>
          (let normal_feerate = est Normal;
               max0 = (if is_outbound c then normal_feerate else - 1);
               min_feerate = (case target_closing_feerate_sats_per_kw c of
                  Some t \<Rightarrow> Some (if is_outbound c then t else min (feerate_per_kw c) t) | None \<Rightarrow> None);
               proposed_feerate = (case min_feerate of Some m \<Rightarrow> max (est Background) m | None \<Rightarrow> est Background);
               proposed_max_feerate = (case min_feerate of Some m \<Rightarrow> max max0 m | None \<Rightarrow> max0) in
           then_run (c, and_then (get_closing_scriptpubkey sl c) (\<lambda>ours. map_ok (\<lambda>theirs. closing_transaction_weight cl ours theirs) (unwrap (counterparty_shutdown_scriptpubkey c))))
             (\<lambda>tx_weight c1.
               let limits = (ucast proposed_feerate * tx_weight div 1000,
                     if is_outbound c1
                     then max (ucast normal_feerate * tx_weight div 1000 + force_close_avoidance_max_fee_satoshis (config_options c1)) (ucast proposed_max_feerate * tx_weight div 1000)
                     else channel_value_satoshis c1 - (value_to_self_msat c1 + 999) div 1000)
               in (c1\<lparr>closing_fee_limits := Some limits\<rparr>, Ok limits))))"

record signed_closing =
  sc_tx :: ClosingTransaction
  sc_counterparty_sig :: bytes
  sc_sig :: bytes

text \<open>The macro \<open>propose_fee!\<close>: sign the closing transaction at the given fee; when it is the fee of the peer's
  message the channel is closed.\<close>

definition propose_fee ::
  "script_lib \<Rightarrow> close_lib \<Rightarrow> ClosingSigned \<Rightarrow> ClosingTransaction \<Rightarrow> u64 \<times> u64 \<Rightarrow> u64 \<Rightarrow> ('fwd, 'src) channel \<Rightarrow>
   ('fwd, 'src, ClosingSigned option \<times> signed_closing option) chan_result" where
  "propose_fee sl cl msg agreed_tx limits new_fee c =
     then_run (c, if new_fee = cl_fee_satoshis msg then Ok (agreed_tx, new_fee) else build_closing_transaction sl new_fee False c) (\<lambda>(tx, used_fee) c1.
       case sign_closing_transaction cl tx of
         None \<Rightarrow> (c1, close_with ''External signer refused to sign closing transaction'')
       | Some sig \<Rightarrow>
           (let agreed = (new_fee = cl_fee_satoshis msg);
                c2 = (if agreed then c1\<lparr>channel_state := ShutdownComplete, update_time_counter := update_time_counter c1 + 1\<rparr> else c1) in
            (c2\<lparr>last_sent_closing_fee := Some (used_fee, sig)\<rparr>,
             Ok (Some \<lparr>cl_channel_id = channel_id c2, cl_fee_satoshis = used_fee, cl_signature = sig,
                       cl_fee_range = Some \<lparr>fr_min_fee_satoshis = fst limits, fr_max_fee_satoshis = snd limits\<rparr>\<rparr>,
                 if agreed then Some \<lparr>sc_tx = tx, sc_counterparty_sig = cl_signature msg, sc_sig = sig\<rparr> else None))))"

definition counter_proposal :: "ClosingSigned \<Rightarrow> u64 \<times> u64 \<Rightarrow> ('fwd, 'src) channel \<Rightarrow> (ChannelError, u64) outcome" where
  "counter_proposal msg = (\<lambda>(our_min_fee, our_max_fee) c.
     (let fee = cl_fee_satoshis msg in
      case cl_fee_range msg of
        Some r \<Rightarrow>
          if fee < fr_min_fee_satoshis r \<or> fee > fr_max_fee_satoshis r
          then close_with (''Peer sent a bogus closing_signed - suggested fee of '' @ to_string fee @ '' sat was not in their desired range of '' @ to_string (fr_min_fee_satoshis r) @ '' sat - '' @ to_string (fr_max_fee_satoshis r) @ '' sat'')
          else if fr_max_fee_satoshis r < our_min_fee
          then Err (Warn (''Unable to come to consensus about closing feerate, remote's max fee ('' @ to_string (fr_max_fee_satoshis r) @ '' sat) was smaller than our min fee ('' @ to_string our_min_fee @ '' sat)''))
          else if fr_min_fee_satoshis r > our_max_fee
          then Err (Warn (''Unable to come to consensus about closing feerate, remote's min fee ('' @ to_string (fr_min_fee_satoshis r) @ '' sat) was greater than our max fee ('' @ to_string our_max_fee @ '' sat)''))
          else if \<not> is_outbound c then Ok (min (fr_max_fee_satoshis r) our_max_fee)
          else if fee < our_min_fee \<or> fee > our_max_fee
          then close_with (''Peer sent a bogus closing_signed - suggested fee of '' @ to_string fee @ '' sat was not in our desired range of '' @ to_string our_min_fee @ '' sat - '' @ to_string our_max_fee @ '' sat after we informed them of our range.'')
          else Ok fee
      | None \<Rightarrow>
          (case last_sent_closing_fee c of
             Some (last_fee, _) \<Rightarrow>
               if fee > last_fee
               then (if fee < our_max_fee then Ok fee
                     else if last_fee < our_max_fee then Ok our_max_fee
                     else close_with (''Unable to come to consensus about closing feerate, remote wants something ('' @ to_string fee @ '' sat) higher than our max fee ('' @ to_string our_max_fee @ '' sat)''))
               else (if fee > our_min_fee then Ok fee
                     else if last_fee > our_min_fee then Ok our_min_fee
                     else close_with (''Unable to come to consensus about closing feerate, remote wants something ('' @ to_string fee @ '' sat) lower than our min fee ('' @ to_string our_min_fee @ '' sat)''))
           | None \<Rightarrow> if fee < our_min_fee then Ok our_min_fee else if fee > our_max_fee then Ok our_max_fee else Ok fee)))"

definition check_closing_signed :: "ClosingSigned \<Rightarrow> ('fwd, 'src) channel \<Rightarrow> (ChannelError, unit) outcome" where
  "check_closing_signed msg c =
     (if \<not> in_state BOTH_SIDES_SHUTDOWN_MASK c then close_with ''Remote end sent us a closing_signed before both sides provided a shutdown''
      else if in_state PeerDisconnected c then close_with ''Peer sent closing_signed when we needed a channel_reestablish''
      else if pending_inbound_htlcs c \<noteq> [] \<or> pending_outbound_htlcs c \<noteq> []
      then close_with ''Remote end sent us a closing_signed while there were still pending HTLCs''
      else if cl_fee_satoshis msg > TOTAL_BITCOIN_SUPPLY_SATOSHIS then close_with ''Remote tried to send us a closing tx with > 21 million BTC fee''
      else if is_outbound c \<and> last_sent_closing_fee c = None
      then close_with ''Remote tried to send a closing_signed when we were supposed to propose the first one''
      else Ok ())"

definition signed_closing_tx :: "script_lib \<Rightarrow> close_lib \<Rightarrow> ClosingSigned \<Rightarrow> ('fwd, 'src) channel \<Rightarrow> (ChannelError, ClosingTransaction) outcome" where
  "signed_closing_tx sl cl msg c =
     and_then (build_closing_transaction sl (cl_fee_satoshis msg) False c) (\<lambda>(tx, used_total_fee).
       if used_total_fee \<noteq> cl_fee_satoshis msg
       then close_with (''Remote sent us a closing_signed with a fee other than the value they can claim. Fee in message: '' @ to_string (cl_fee_satoshis msg) @ ''. Actual closing tx fee: '' @ to_string used_total_fee)
       else and_then (if verify_closing_sig cl tx (cl_signature msg) then Ok tx
                      else and_then (build_closing_transaction sl (cl_fee_satoshis msg) True c) (\<lambda>(tx2, _).
                        if verify_closing_sig cl tx2 (cl_signature msg) then Ok tx2 else close_with ''Invalid closing tx signature from peer'')) (\<lambda>final.
         if \<exists>(script, value)\<in>set (closing_outputs final). \<not> is_witness_program sl script \<and> value < MAX_STD_OUTPUT_DUST_LIMIT_SATOSHIS
         then close_with ''Remote sent us a closing_signed with a dust output. Always use segwit closing scripts!''
         else if shutdown_scriptpubkey c = None then Panic
         else Ok final))"

definition closing_signed ::
  "script_lib \<Rightarrow> close_lib \<Rightarrow> (Target \<Rightarrow> u32) \<Rightarrow> ClosingSigned \<Rightarrow> ('fwd, 'src) channel \<Rightarrow>
   ('fwd, 'src, ClosingSigned option \<times> signed_closing option) chan_result" where
  "closing_signed sl cl est msg c =
     then_run (c, check_closing_signed msg c) (\<lambda>_ c0.
       if any_state MonitorUpdateFailed c0 then (c0\<lparr>pending_counterparty_closing_signed := Some msg\<rparr>, Ok (None, None))
       else then_run (c0, signed_closing_tx sl cl msg c0) (\<lambda>tx c1.
         let propose = then_run (calculate_closing_fee_limits sl cl est c1) (\<lambda>limits c2.
               then_run (c2, counter_proposal msg limits c2) (\<lambda>new_fee c3. propose_fee sl cl msg tx limits new_fee c3)) in
         case last_sent_closing_fee c1 of
           Some (last_fee, sig) \<Rightarrow>
             if last_fee = cl_fee_satoshis msg
             then (c1\<lparr>channel_state := ShutdownComplete, update_time_counter := update_time_counter c1 + 1\<rparr>,
                   Ok (None, Some \<lparr>sc_tx = tx, sc_counterparty_sig = cl_signature msg, sc_sig = sig\<rparr>))
             else propose
         | None \<Rightarrow> propose))"

definition maybe_propose_closing_signed ::
  "script_lib \<Rightarrow> close_lib \<Rightarrow> (Target \<Rightarrow> u32) \<Rightarrow> ('fwd, 'src) channel \<Rightarrow> ('fwd, 'src, ClosingSigned option \<times> signed_closing option) chan_result" where
  "maybe_propose_closing_signed sl cl est c =
     (if last_sent_closing_fee c \<noteq> None \<or> \<not> closing_negotiation_ready c then (c, Ok (None, None))
      else if \<not> is_outbound c
      then (let c1 = c\<lparr>pending_counterparty_closing_signed := None\<rparr> in
            case pending_counterparty_closing_signed c of Some msg \<Rightarrow> closing_signed sl cl est msg c1 | None \<Rightarrow> (c1, Ok (None, None)))
      else then_run (calculate_closing_fee_limits sl cl est c) (\<lambda>(our_min_fee, our_max_fee) c1.
        then_run (c1, build_closing_transaction sl our_min_fee False c1) (\<lambda>(tx, total_fee_satoshis) c2.
          case sign_closing_transaction cl tx of
            None \<Rightarrow> (c2, close_with ''Failed to get signature for closing transaction.'')
          | Some sig \<Rightarrow>
              (c2\<lparr>last_sent_closing_fee := Some (total_fee_satoshis, sig)\<rparr>,
               Ok (Some \<lparr>cl_channel_id = channel_id c2, cl_fee_satoshis = total_fee_satoshis, cl_signature = sig,
                         cl_fee_range = Some \<lparr>fr_min_fee_satoshis = our_min_fee, fr_max_fee_satoshis = our_max_fee\<rparr>\<rparr>, None)))))"

section \<open>Forced closure\<close>

definition force_shutdown :: "bool \<Rightarrow> ('fwd, 'src) channel \<Rightarrow> ('fwd, 'src, ((bytes \<times> u16) \<times> u64 \<times> close_step list) option \<times> ('src \<times> bytes) list) chan_result" where
  "force_shutdown should_broadcast c =
     (if channel_state c = ShutdownComplete then (c, Panic)
      else let (c1, dropped) = (c\<lparr>holding_cell_htlc_updates := []\<rparr>, snd (drop_held_adds any_drop c));
               c2 = (if funding_outpoint c1 \<noteq> None \<and> any_state (FundingSent OR ChannelFunded OR ShutdownComplete) c1
                     then c1\<lparr>latest_monitor_update_id := latest_monitor_update_id c1 + 1\<rparr> else c1);
               mupd = (case funding_outpoint c1 of
                  Some txo \<Rightarrow> if any_state (FundingSent OR ChannelFunded OR ShutdownComplete) c1
                              then Some (txo, latest_monitor_update_id c2, [ChannelForceClosed should_broadcast]) else None
                | None \<Rightarrow> None) in
           (c2\<lparr>channel_state := ShutdownComplete, update_time_counter := update_time_counter c2 + 1\<rparr>, Ok (mupd, dropped)))"

end
