(* ===== verification/Wire_Format.thy ===== *)
theory Wire_Format
  imports Features Node_Types
begin

text \<open>
  How fields of messages are written and read (\<open>lightning/src/util/ser.rs\<close>, the addresses of \<open>ln/msgs.rs\<close>). Two locales
  state what a format promises: a field is read back whatever follows it, a message when nothing follows. Vectors
  and optional TLV records are proved once for every format.
\<close>

named_theorems wire_back \<open>what is written is read back\<close>
named_theorems wire_total \<open>readers that never panic\<close>

section \<open>Formats\<close>

fun read_n :: "(bytes \<Rightarrow> 'a parsed) \<Rightarrow> nat \<Rightarrow> bytes \<Rightarrow> 'a list parsed" where
  "read_n rd 0 r = Ok ([], r)"
| "read_n rd (Suc n) r = and_then (rd r) (\<lambda>(x, r1). map_ok (\<lambda>(xs, r2). (x # xs, r2)) (read_n rd n r1))"

text \<open>A stream with one optional record, and one without known records.\<close>

definition option_tlv :: "u64 \<Rightarrow> (bytes \<Rightarrow> 'a parsed) \<Rightarrow> 'a option tlv_field" where
  "option_tlv t rd = \<lparr>tf_type = t, tf_required = False, tf_read = (\<lambda>b _. map_ok (\<lambda>(x, r). (Some x, r)) (rd b))\<rparr>"

definition read_tlv_option :: "u64 \<Rightarrow> (bytes \<Rightarrow> 'a parsed) \<Rightarrow> bytes \<Rightarrow> (DecodeError, 'a option) outcome" where
  "read_tlv_option t rd r = decode_tlv_stream [option_tlv t rd] None None r"

definition read_no_tlvs :: "bytes \<Rightarrow> (DecodeError, unit) outcome" where
  "read_no_tlvs r = decode_tlv_stream [] None () r"

locale message_format =
  fixes wr :: "'a \<Rightarrow> bytes" and rd :: "bytes \<Rightarrow> 'a parsed" and ok :: "'a \<Rightarrow> bool"
  assumes whole: "ok x \<Longrightarrow> rd (wr x) = Ok (x, [])"
begin

lemma unambiguous: "ok x \<Longrightarrow> ok y \<Longrightarrow> wr x = wr y \<Longrightarrow> x = y"
  by (metis whole outcome.inject(1) prod.inject)

lemma tlv_back:
  assumes "\<And>x. y = Some x \<Longrightarrow> ok x \<and> length (wr x) < 2 ^ 64"
  shows "read_tlv_option t rd (encode_tlv_option t (map_option wr y)) = Ok y"
proof (cases y)
  case None
  then show ?thesis by (simp add: read_tlv_option_def encode_tlv_option_def decode_tlv_end skipped_def option_tlv_def)
next
  case (Some x)
  have "decode_tlv_stream [option_tlv t rd] None None (encode_tlv t (wr x) @ []) = decode_tlv_stream [option_tlv t rd] (Some t) (Some x) []"
    by (rule decode_tlv_known [where f = "option_tlv t rd"]) (use assms [OF Some] whole [of x] in \<open>simp_all add: option_tlv_def skipped_def\<close>)
  then show ?thesis using Some
    by (simp add: read_tlv_option_def encode_tlv_option_def decode_tlv_end skipped_def option_tlv_def)
qed

end

locale field_format =
  fixes wr :: "'a \<Rightarrow> bytes" and rd :: "bytes \<Rightarrow> 'a parsed" and ok :: "'a \<Rightarrow> bool"
  assumes read_back: "ok x \<Longrightarrow> rd (wr x @ r) = Ok (x, r)"
begin

lemma prefix_free: "ok x \<Longrightarrow> ok y \<Longrightarrow> wr x @ r = wr y @ s \<Longrightarrow> x = y \<and> r = s"
  by (metis read_back outcome.inject(1) prod.inject)

lemma many: "list_all ok xs \<Longrightarrow> read_n rd (length xs) (concat (map wr xs) @ r) = Ok (xs, r)"
  by (induction xs arbitrary: r) (simp_all add: read_back)

end

sublocale field_format \<subseteq> message_format wr rd ok
proof
  show "rd (wr x) = Ok (x, [])" if "ok x" for x using read_back [OF that, of "[]"] by simp
qed

section \<open>Fields\<close>

text \<open>Which bytes the curve library accepts as a compressed point and as a compact signature.\<close>

record wire_lib =
  valid_pubkey :: "bytes \<Rightarrow> bool"
  valid_signature :: "bytes \<Rightarrow> bool"

definition write_u16 :: "u16 \<Rightarrow> bytes" where "write_u16 w = be_bytes 2 w"
definition write_u32 :: "u32 \<Rightarrow> bytes" where "write_u32 w = be_bytes 4 w"
definition write_u64 :: "u64 \<Rightarrow> bytes" where "write_u64 w = be_bytes 8 w"

definition write_bool :: "bool \<Rightarrow> bytes" where "write_bool b = [if b then 1 else 0]"

definition read_bool :: "bytes \<Rightarrow> bool parsed" where
  "read_bool r = and_then (read_u8 r) (\<lambda>(b, r1). if b \<noteq> 0 \<and> b \<noteq> 1 then Err InvalidValue else Ok (b = 1, r1))"

definition write_var_bytes :: "bytes \<Rightarrow> bytes" where
  "write_var_bytes bs = write_u16 (word_of_nat (length bs)) @ bs"

definition read_var_bytes :: "bytes \<Rightarrow> bytes parsed" where
  "read_var_bytes r = and_then (read_u16 r) (\<lambda>(len, r1). read_exact (unat len) r1)"

definition read_pubkey :: "wire_lib \<Rightarrow> bytes \<Rightarrow> bytes parsed" where
  "read_pubkey lib r = and_then (read_exact 33 r) (\<lambda>(b, r1). if valid_pubkey lib b then Ok (b, r1) else Err InvalidValue)"

definition read_signature :: "wire_lib \<Rightarrow> bytes \<Rightarrow> bytes parsed" where
  "read_signature lib r = and_then (read_exact 64 r) (\<lambda>(b, r1). if valid_signature lib b then Ok (b, r1) else Err InvalidValue)"

definition MAX_BUF_SIZE :: nat where "MAX_BUF_SIZE = 64 * 1024"

definition write_signatures :: "bytes list \<Rightarrow> bytes" where
  "write_signatures sigs = write_u16 (word_of_nat (length sigs)) @ concat sigs"

definition read_signatures :: "wire_lib \<Rightarrow> bytes \<Rightarrow> bytes list parsed" where
  "read_signatures lib r =
     and_then (read_u16 r) (\<lambda>(len, r1). if unat len * 64 > MAX_BUF_SIZE then Err BadLengthDescriptor else read_n (read_signature lib) (unat len) r1)"

definition write_optional_script :: "bytes option \<Rightarrow> bytes" where
  "write_optional_script s = (case s of Some script \<Rightarrow> write_var_bytes script | None \<Rightarrow> [])"

definition read_optional_script :: "bytes \<Rightarrow> bytes option parsed" where
  "read_optional_script r =
     (case read_u16 r of
        Ok (len, r1) \<Rightarrow> map_ok (\<lambda>(b, r2). (Some b, r2)) (read_exact (unat len) r1)
      | Err e \<Rightarrow> if e = ShortRead then Ok (None, r) else Err e
      | Panic \<Rightarrow> Panic)"

definition read_to_end :: "bytes \<Rightarrow> bytes parsed" where "read_to_end r = Ok (r, [])"

text \<open>Features inside a TLV record have no length of their own.\<close>

definition write_channel_type :: "features \<Rightarrow> bytes" where "write_channel_type flags = rev flags"
definition read_channel_type :: "bytes \<Rightarrow> features parsed" where "read_channel_type r = map_ok (\<lambda>(b, r1). (rev b, r1)) (read_to_end r)"

section \<open>Text\<close>

definition is_cont :: "u8 \<Rightarrow> bool" where "is_cont b \<longleftrightarrow> 0x80 \<le> b \<and> b \<le> 0xBF"

text \<open>\<open>String::from_utf8\<close> accepts exactly the well-formed byte sequences.\<close>

fun is_utf8 :: "bytes \<Rightarrow> bool" where
  "is_utf8 [] = True"
| "is_utf8 (a # r) =
     (if a < 0x80 then is_utf8 r
      else if 0xC2 \<le> a \<and> a \<le> 0xDF then (case r of b # r1 \<Rightarrow> is_cont b \<and> is_utf8 r1 | _ \<Rightarrow> False)
      else if 0xE0 \<le> a \<and> a \<le> 0xEF
      then (case r of
              b # c # r1 \<Rightarrow> is_cont b \<and> is_cont c \<and> (a = 0xE0 \<longrightarrow> 0xA0 \<le> b) \<and> (a = 0xED \<longrightarrow> b \<le> 0x9F) \<and> is_utf8 r1
            | _ \<Rightarrow> False)
      else if 0xF0 \<le> a \<and> a \<le> 0xF4
      then (case r of
              b # c # d # r1 \<Rightarrow> is_cont b \<and> is_cont c \<and> is_cont d \<and> (a = 0xF0 \<longrightarrow> 0x90 \<le> b) \<and> (a = 0xF4 \<longrightarrow> b \<le> 0x8F) \<and> is_utf8 r1
            | _ \<Rightarrow> False)
      else False)"

definition string_bytes :: "string \<Rightarrow> bytes" where "string_bytes s = map (\<lambda>c. word_of_nat (of_char c)) s"
definition bytes_string :: "bytes \<Rightarrow> string" where "bytes_string bs = map (\<lambda>b. char_of (unat b)) bs"

definition write_string :: "string \<Rightarrow> bytes" where
  "write_string s = write_u16 (word_of_nat (length s)) @ string_bytes s"

definition read_string :: "bytes \<Rightarrow> string parsed" where
  "read_string r = and_then (read_var_bytes r) (\<lambda>(b, r1). if is_utf8 b then Ok (bytes_string b, r1) else Err InvalidValue)"

section \<open>Addresses\<close>

fun address_len :: "NetAddress \<Rightarrow> u16" where
  "address_len (IPv4 addr port) = 6"
| "address_len (IPv6 addr port) = 18"
| "address_len (OnionV2 b) = 12"
| "address_len (OnionV3 key checksum version port) = 37"

fun write_address :: "NetAddress \<Rightarrow> bytes" where
  "write_address (IPv4 addr port) = 1 # addr @ write_u16 port"
| "write_address (IPv6 addr port) = 2 # addr @ write_u16 port"
| "write_address (OnionV2 b) = 3 # b"
| "write_address (OnionV3 key checksum version port) = 4 # key @ write_u16 checksum @ [version] @ write_u16 port"

definition read_any_address :: "bytes \<Rightarrow> (NetAddress + u8) parsed" where
  "read_any_address r =
     and_then (read_u8 r) (\<lambda>(byte, r1).
       if byte = 1 then and_then (read_exact 4 r1) (\<lambda>(addr, r2). map_ok (\<lambda>(port, r3). (Inl (IPv4 addr port), r3)) (read_u16 r2))
       else if byte = 2 then and_then (read_exact 16 r1) (\<lambda>(addr, r2). map_ok (\<lambda>(port, r3). (Inl (IPv6 addr port), r3)) (read_u16 r2))
       else if byte = 3 then map_ok (\<lambda>(b, r2). (Inl (OnionV2 b), r2)) (read_exact 12 r1)
       else if byte = 4
       then and_then (read_exact 32 r1) (\<lambda>(key, r2). and_then (read_u16 r2) (\<lambda>(checksum, r3). and_then (read_u8 r3) (\<lambda>(version, r4).
              map_ok (\<lambda>(port, r5). (Inl (OnionV3 key checksum version port), r5)) (read_u16 r4))))
       else Ok (Inr byte, r1))"

definition read_address :: "bytes \<Rightarrow> NetAddress parsed" where
  "read_address r = and_then (read_any_address r) (\<lambda>(a, r1). case a of Inl addr \<Rightarrow> Ok (addr, r1) | Inr _ \<Rightarrow> Err UnknownVersion)"

fun address_ok :: "NetAddress \<Rightarrow> bool" where
  "address_ok (IPv4 addr port) \<longleftrightarrow> length addr = 4"
| "address_ok (IPv6 addr port) \<longleftrightarrow> length addr = 16"
| "address_ok (OnionV2 b) \<longleftrightarrow> length b = 12"
| "address_ok (OnionV3 key checksum version port) \<longleftrightarrow> length key = 32"

section \<open>What is written is read back\<close>

definition pubkey_ok :: "wire_lib \<Rightarrow> bytes \<Rightarrow> bool" where "pubkey_ok lib b \<longleftrightarrow> length b = 33 \<and> valid_pubkey lib b"
definition signature_ok :: "wire_lib \<Rightarrow> bytes \<Rightarrow> bool" where "signature_ok lib b \<longleftrightarrow> length b = 64 \<and> valid_signature lib b"
definition vec_ok :: "bytes \<Rightarrow> bool" where "vec_ok b \<longleftrightarrow> length b < 65536"
definition string_ok :: "string \<Rightarrow> bool" where "string_ok s \<longleftrightarrow> length s < 65536 \<and> is_utf8 (string_bytes s)"

lemma unat_len [simp]: "n < 65536 \<Longrightarrow> unat (word_of_nat n :: u16) = n"
  by (simp add: unat_of_nat take_bit_nat_eq_self)

lemma integers_back [wire_back]:
  "read_u16 (write_u16 a @ r) = Ok (a, r)" "read_u32 (write_u32 b @ r) = Ok (b, r)" "read_u64 (write_u64 c @ r) = Ok (c, r)"
  by (simp_all add: write_u16_def write_u32_def write_u64_def)

lemma bool_back [wire_back]: "read_bool (write_bool b @ r) = Ok (b, r)"
  by (simp add: read_bool_def write_bool_def)

lemma bytes_string_back [simp]: "bytes_string (string_bytes s) = s"
  by (induction s) (simp_all add: bytes_string_def string_bytes_def unat_of_nat take_bit_nat_eq_self)

interpretation u64_field: field_format write_u64 read_u64 "\<lambda>_. True"
  by unfold_locales (simp add: wire_back)

interpretation pubkey_field: field_format "\<lambda>b. b" "read_pubkey lib" "pubkey_ok lib" for lib
  by unfold_locales (simp add: read_pubkey_def pubkey_ok_def)

interpretation signature_field: field_format "\<lambda>b. b" "read_signature lib" "signature_ok lib" for lib
  by unfold_locales (simp add: read_signature_def signature_ok_def)

interpretation vec_field: field_format write_var_bytes read_var_bytes vec_ok
  by unfold_locales (simp add: read_var_bytes_def write_var_bytes_def vec_ok_def wire_back)

interpretation string_field: field_format write_string read_string string_ok
proof
  fix s r assume "string_ok s"
  moreover have "length (string_bytes s) = length s" by (simp add: string_bytes_def)
  ultimately have "read_var_bytes (write_string s @ r) = Ok (string_bytes s, r)"
    using vec_field.read_back [of "string_bytes s" r] by (simp add: vec_ok_def string_ok_def write_string_def write_var_bytes_def)
  then show "read_string (write_string s @ r) = Ok (s, r)" using \<open>string_ok s\<close> by (simp add: read_string_def string_ok_def)
qed

interpretation address_field: field_format write_address read_address address_ok
proof
  show "read_address (write_address a @ r) = Ok (a, r)" if "address_ok a" for a r
    using that by (cases a) (simp_all add: read_address_def read_any_address_def wire_back)
qed

interpretation channel_type_message: message_format write_channel_type read_channel_type "\<lambda>_. True"
  by unfold_locales (simp add: write_channel_type_def read_channel_type_def read_to_end_def)

lemma signatures_back [wire_back]:
  assumes "list_all (signature_ok lib) sigs" "length sigs \<le> 1024"
  shows "read_signatures lib (write_signatures sigs @ r) = Ok (sigs, r)"
  using signature_field.many [OF assms(1), of r] assms(2)
  by (simp add: read_signatures_def write_signatures_def MAX_BUF_SIZE_def wire_back)

lemma no_tlvs_back [simp]: "read_no_tlvs [] = Ok ()"
  by (simp add: read_no_tlvs_def decode_tlv_end)

lemmas [wire_back] = pubkey_field.read_back signature_field.read_back vec_field.read_back string_field.read_back address_field.read_back

section \<open>No bytes make a reader panic\<close>

lemma read_exact_total [wire_total]: "read_exact n r \<noteq> Panic"
  by (simp add: read_exact_def)

lemma integers_total [wire_total]: "read_be n r \<noteq> Panic" "read_u8 r \<noteq> Panic" "read_bigsize r \<noteq> Panic"
  by (auto simp: read_be_def read_u8_def read_bigsize_def outcome_simps read_exact_total split: if_splits)

lemma fields_total [wire_total]:
  "read_bool r \<noteq> Panic" "read_var_bytes r \<noteq> Panic" "read_pubkey lib r \<noteq> Panic" "read_signature lib r \<noteq> Panic" "read_to_end r \<noteq> Panic" "read_channel_type r \<noteq> Panic"
  by (auto simp: read_bool_def read_var_bytes_def read_pubkey_def read_signature_def read_to_end_def read_channel_type_def outcome_simps wire_total split: if_splits)

lemma read_n_total: "(\<And>r. rd r \<noteq> Panic) \<Longrightarrow> read_n rd n r \<noteq> Panic"
  by (induction n arbitrary: r) (auto simp: outcome_simps)

lemma more_total [wire_total]:
  "read_signatures lib r \<noteq> Panic" "read_optional_script r \<noteq> Panic" "read_string r \<noteq> Panic" "read_any_address r \<noteq> Panic" "read_address r \<noteq> Panic" "read_features r \<noteq> Panic"
  by (auto simp: read_signatures_def read_optional_script_def read_string_def read_any_address_def read_address_def read_features_def outcome_simps wire_total
      read_n_total split: if_splits outcome.splits sum.splits)

lemma decode_tlv_total:
  assumes "\<And>f b s. f \<in> set flds \<Longrightarrow> tf_read f b s \<noteq> Panic"
  shows "decode_tlv_stream flds lst s r \<noteq> Panic"
  using assms
proof (induction flds lst s r rule: decode_tlv_stream.induct)
  case (1 flds lst s r)
  have "f \<in> set flds" if "find (\<lambda>f. tf_type f = ty) flds = Some f" for f ty
    using that by (induction flds) (auto split: if_splits)
  then show ?case
    using 1 by (subst decode_tlv_stream.simps) (fastforce simp: Let_def wire_total split: outcome.splits option.splits if_splits)
qed

lemma tlvs_total [wire_total]: "read_no_tlvs r \<noteq> Panic"
  unfolding read_no_tlvs_def by (rule decode_tlv_total) simp

lemma read_tlv_option_total: "(\<And>b. rd b \<noteq> Panic) \<Longrightarrow> read_tlv_option t rd r \<noteq> Panic"
  unfolding read_tlv_option_def by (rule decode_tlv_total) (auto simp: option_tlv_def outcome_simps)

end
