(* ===== verification/Wire_Messages.thy ===== *)
theory Wire_Messages
  imports Wire_Format Channel_Close Gossip_Sync
begin

text \<open>
  The messages between peers as bytes (\<open>ln/msgs.rs\<close>, \<open>ln/wire.rs\<close>): how each one is written and read, the number that stands for its
  kind, and the dispatch on it. A message whose parts have the sizes their Rust types impose is read back as it was
  written; no bytes at all make the reader panic.
\<close>

section \<open>Messages without state elsewhere\<close>

record Init =
  in_features :: features
  in_remote_network_address :: "NetAddress option"

record ErrorMessage =
  em_channel_id :: bytes
  em_data :: string

record WarningMessage =
  wm_channel_id :: bytes
  wm_data :: string

record Ping =
  ping_ponglen :: u16
  ping_byteslen :: u16

record Pong =
  pong_byteslen :: u16

record QueryShortChannelIds =
  qs_chain_hash :: bytes
  qs_short_channel_ids :: "u64 list"

record ReplyShortChannelIdsEnd =
  se_chain_hash :: bytes
  se_full_information :: bool

text \<open>The end of a message without TLV records of its own: odd unknown ones are skipped.\<close>

definition ended :: "bytes \<Rightarrow> 'a \<Rightarrow> 'a parsed" where
  "ended r x = map_ok (\<lambda>_. (x, [])) (read_no_tlvs r)"

lemma ended_end [simp]: "ended [] x = Ok (x, [])"
  by (simp add: ended_def)

lemma ended_total [wire_total]: "ended r x \<noteq> Panic"
  by (simp add: ended_def outcome_simps wire_total)

section \<open>Setup messages\<close>

definition write_init :: "Init \<Rightarrow> bytes" where
  "write_init m = write_up_to_13 (in_features m) @ write_features (in_features m) @
     encode_tlv_option 3 (map_option write_address (in_remote_network_address m))"

definition read_init :: "bytes \<Rightarrow> Init parsed" where
  "read_init r =
     and_then (read_features r) (\<lambda>(global_features, r1). and_then (read_features r1) (\<lambda>(feats, r2).
       map_ok (\<lambda>addr. (\<lparr>in_features = features_or feats global_features, in_remote_network_address = addr\<rparr>, [])) (read_tlv_option 3 read_address r2)))"

definition write_error_message :: "ErrorMessage \<Rightarrow> bytes" where
  "write_error_message m = em_channel_id m @ write_string (em_data m)"

definition read_error_message :: "bytes \<Rightarrow> ErrorMessage parsed" where
  "read_error_message r =
     and_then (read_exact 32 r) (\<lambda>(i, r1). map_ok (\<lambda>(d, r2). (\<lparr>em_channel_id = i, em_data = d\<rparr>, r2)) (read_string r1))"

definition write_warning_message :: "WarningMessage \<Rightarrow> bytes" where
  "write_warning_message m = wm_channel_id m @ write_string (wm_data m)"

definition read_warning_message :: "bytes \<Rightarrow> WarningMessage parsed" where
  "read_warning_message r =
     and_then (read_exact 32 r) (\<lambda>(i, r1). map_ok (\<lambda>(d, r2). (\<lparr>wm_channel_id = i, wm_data = d\<rparr>, r2)) (read_string r1))"

definition write_ping :: "Ping \<Rightarrow> bytes" where
  "write_ping m = write_u16 (ping_ponglen m) @ write_var_bytes (replicate (unat (ping_byteslen m)) 0)"

definition read_ping :: "bytes \<Rightarrow> Ping parsed" where
  "read_ping r =
     and_then (read_u16 r) (\<lambda>(p, r1). and_then (read_u16 r1) (\<lambda>(n, r2). map_ok (\<lambda>(_, r3). (\<lparr>ping_ponglen = p, ping_byteslen = n\<rparr>, r3)) (read_exact (unat n) r2)))"

definition write_pong :: "Pong \<Rightarrow> bytes" where
  "write_pong m = write_var_bytes (replicate (unat (pong_byteslen m)) 0)"

definition read_pong :: "bytes \<Rightarrow> Pong parsed" where
  "read_pong r = and_then (read_u16 r) (\<lambda>(n, r1). map_ok (\<lambda>(_, r2). (\<lparr>pong_byteslen = n\<rparr>, r2)) (read_exact (unat n) r1))"

section \<open>Messages about channels\<close>

definition write_pubkeys :: "ChannelPublicKeys \<Rightarrow> bytes" where
  "write_pubkeys k = funding_pubkey k @ revocation_basepoint k @ payment_point k @ delayed_payment_basepoint k @ htlc_basepoint k"

definition read_pubkeys :: "wire_lib \<Rightarrow> bytes \<Rightarrow> ChannelPublicKeys parsed" where
  "read_pubkeys lib r =
     and_then (read_pubkey lib r) (\<lambda>(a, r1). and_then (read_pubkey lib r1) (\<lambda>(b, r2). and_then (read_pubkey lib r2) (\<lambda>(c, r3).
     and_then (read_pubkey lib r3) (\<lambda>(d, r4). map_ok (\<lambda>(e, r5). (\<lparr>funding_pubkey = a, revocation_basepoint = b, payment_point = c,
       delayed_payment_basepoint = d, htlc_basepoint = e\<rparr>, r5)) (read_pubkey lib r4)))))"

definition write_open_channel :: "OpenChannel \<Rightarrow> bytes" where
  "write_open_channel m =
     oc_chain_hash m @ oc_temporary_channel_id m @ write_u64 (oc_funding_satoshis m) @ write_u64 (oc_push_msat m) @ write_u64 (oc_dust_limit_satoshis m) @
     write_u64 (oc_max_htlc_value_in_flight_msat m) @ write_u64 (oc_channel_reserve_satoshis m) @ write_u64 (oc_htlc_minimum_msat m) @
     write_u32 (oc_feerate_per_kw m) @ write_u16 (oc_to_self_delay m) @ write_u16 (oc_max_accepted_htlcs m) @ write_pubkeys (oc_pubkeys m) @
     oc_first_per_commitment_point m @ [oc_channel_flags m] @ write_optional_script (oc_shutdown_scriptpubkey m) @
     encode_tlv_option 1 (map_option write_channel_type (oc_channel_type m))"

definition read_open_channel :: "wire_lib \<Rightarrow> bytes \<Rightarrow> OpenChannel parsed" where
  "read_open_channel lib r =
     and_then (read_exact 32 r) (\<lambda>(chain_hash, r). and_then (read_exact 32 r) (\<lambda>(temporary_channel_id, r).
     and_then (read_u64 r) (\<lambda>(funding_satoshis, r). and_then (read_u64 r) (\<lambda>(push_msat, r). and_then (read_u64 r) (\<lambda>(dust_limit_satoshis, r).
     and_then (read_u64 r) (\<lambda>(max_htlc_value_in_flight_msat, r). and_then (read_u64 r) (\<lambda>(channel_reserve_satoshis, r).
     and_then (read_u64 r) (\<lambda>(htlc_minimum_msat, r). and_then (read_u32 r) (\<lambda>(feerate_per_kw, r). and_then (read_u16 r) (\<lambda>(to_self_delay, r).
     and_then (read_u16 r) (\<lambda>(max_accepted_htlcs, r). and_then (read_pubkeys lib r) (\<lambda>(pubkeys, r).
     and_then (read_pubkey lib r) (\<lambda>(first_per_commitment_point, r). and_then (read_u8 r) (\<lambda>(channel_flags, r).
     and_then (read_optional_script r) (\<lambda>(shutdown_scriptpubkey, r).
       map_ok (\<lambda>channel_type.
         (\<lparr>oc_chain_hash = chain_hash, oc_temporary_channel_id = temporary_channel_id, oc_funding_satoshis = funding_satoshis, oc_push_msat = push_msat,
           oc_dust_limit_satoshis = dust_limit_satoshis, oc_max_htlc_value_in_flight_msat = max_htlc_value_in_flight_msat,
           oc_channel_reserve_satoshis = channel_reserve_satoshis, oc_htlc_minimum_msat = htlc_minimum_msat, oc_feerate_per_kw = feerate_per_kw,
           oc_to_self_delay = to_self_delay, oc_max_accepted_htlcs = max_accepted_htlcs, oc_pubkeys = pubkeys,
           oc_first_per_commitment_point = first_per_commitment_point, oc_channel_flags = channel_flags,
           oc_shutdown_scriptpubkey = shutdown_scriptpubkey, oc_channel_type = channel_type\<rparr>, []))
         (read_tlv_option 1 read_channel_type r))))))))))))))))"

definition write_accept_channel :: "AcceptChannel \<Rightarrow> bytes" where
  "write_accept_channel m =
     ac_temporary_channel_id m @ write_u64 (ac_dust_limit_satoshis m) @ write_u64 (ac_max_htlc_value_in_flight_msat m) @
     write_u64 (ac_channel_reserve_satoshis m) @ write_u64 (ac_htlc_minimum_msat m) @ write_u32 (ac_minimum_depth m) @ write_u16 (ac_to_self_delay m) @
     write_u16 (ac_max_accepted_htlcs m) @ write_pubkeys (ac_pubkeys m) @ ac_first_per_commitment_point m @
     write_optional_script (ac_shutdown_scriptpubkey m) @ encode_tlv_option 1 (map_option write_channel_type (ac_channel_type m))"

definition read_accept_channel :: "wire_lib \<Rightarrow> bytes \<Rightarrow> AcceptChannel parsed" where
  "read_accept_channel lib r =
     and_then (read_exact 32 r) (\<lambda>(temporary_channel_id, r). and_then (read_u64 r) (\<lambda>(dust_limit_satoshis, r).
     and_then (read_u64 r) (\<lambda>(max_htlc_value_in_flight_msat, r). and_then (read_u64 r) (\<lambda>(channel_reserve_satoshis, r).
     and_then (read_u64 r) (\<lambda>(htlc_minimum_msat, r). and_then (read_u32 r) (\<lambda>(min_depth, r). and_then (read_u16 r) (\<lambda>(to_self_delay, r).
     and_then (read_u16 r) (\<lambda>(max_accepted_htlcs, r). and_then (read_pubkeys lib r) (\<lambda>(pubkeys, r).
     and_then (read_pubkey lib r) (\<lambda>(first_per_commitment_point, r). and_then (read_optional_script r) (\<lambda>(shutdown_scriptpubkey, r).
       map_ok (\<lambda>channel_type.
         (\<lparr>ac_temporary_channel_id = temporary_channel_id, ac_dust_limit_satoshis = dust_limit_satoshis,
           ac_max_htlc_value_in_flight_msat = max_htlc_value_in_flight_msat, ac_channel_reserve_satoshis = channel_reserve_satoshis,
           ac_htlc_minimum_msat = htlc_minimum_msat, ac_minimum_depth = min_depth, ac_to_self_delay = to_self_delay,
           ac_max_accepted_htlcs = max_accepted_htlcs, ac_pubkeys = pubkeys, ac_first_per_commitment_point = first_per_commitment_point,
           ac_shutdown_scriptpubkey = shutdown_scriptpubkey, ac_channel_type = channel_type\<rparr>, []))
         (read_tlv_option 1 read_channel_type r))))))))))))"

definition write_funding_created :: "FundingCreated \<Rightarrow> bytes" where
  "write_funding_created m = fc_temporary_channel_id m @ fc_funding_txid m @ write_u16 (fc_funding_output_index m) @ fc_signature m"

definition read_funding_created :: "wire_lib \<Rightarrow> bytes \<Rightarrow> FundingCreated parsed" where
  "read_funding_created lib r =
     and_then (read_exact 32 r) (\<lambda>(i, r). and_then (read_exact 32 r) (\<lambda>(txid, r). and_then (read_u16 r) (\<lambda>(k, r). and_then (read_signature lib r) (\<lambda>(sig, r).
       ended r \<lparr>fc_temporary_channel_id = i, fc_funding_txid = txid, fc_funding_output_index = k, fc_signature = sig\<rparr>))))"

definition write_funding_signed :: "FundingSigned \<Rightarrow> bytes" where
  "write_funding_signed m = fs_channel_id m @ fs_signature m"

definition read_funding_signed :: "wire_lib \<Rightarrow> bytes \<Rightarrow> FundingSigned parsed" where
  "read_funding_signed lib r =
     and_then (read_exact 32 r) (\<lambda>(i, r). and_then (read_signature lib r) (\<lambda>(sig, r). ended r \<lparr>fs_channel_id = i, fs_signature = sig\<rparr>))"

definition write_channel_ready :: "ChannelReady \<Rightarrow> bytes" where
  "write_channel_ready m = cr_channel_id m @ cr_next_per_commitment_point m @ encode_tlv_option 1 (map_option write_u64 (cr_short_channel_id_alias m))"

definition read_channel_ready :: "wire_lib \<Rightarrow> bytes \<Rightarrow> ChannelReady parsed" where
  "read_channel_ready lib r =
     and_then (read_exact 32 r) (\<lambda>(i, r). and_then (read_pubkey lib r) (\<lambda>(p, r).
       map_ok (\<lambda>alias. (\<lparr>cr_channel_id = i, cr_next_per_commitment_point = p, cr_short_channel_id_alias = alias\<rparr>, [])) (read_tlv_option 1 read_u64 r)))"

definition write_shutdown :: "Shutdown \<Rightarrow> bytes" where
  "write_shutdown m = sd_channel_id m @ write_var_bytes (sd_scriptpubkey m)"

definition read_shutdown :: "bytes \<Rightarrow> Shutdown parsed" where
  "read_shutdown r = and_then (read_exact 32 r) (\<lambda>(i, r). and_then (read_var_bytes r) (\<lambda>(s, r). ended r \<lparr>sd_channel_id = i, sd_scriptpubkey = s\<rparr>))"

definition write_fee_range :: "ClosingSignedFeeRange \<Rightarrow> bytes" where
  "write_fee_range f = write_u64 (fr_min_fee_satoshis f) @ write_u64 (fr_max_fee_satoshis f)"

definition read_fee_range :: "bytes \<Rightarrow> ClosingSignedFeeRange parsed" where
  "read_fee_range r =
     and_then (read_u64 r) (\<lambda>(a, r). map_ok (\<lambda>(b, r). (\<lparr>fr_min_fee_satoshis = a, fr_max_fee_satoshis = b\<rparr>, r)) (read_u64 r))"

definition write_closing_signed :: "ClosingSigned \<Rightarrow> bytes" where
  "write_closing_signed m =
     cl_channel_id m @ write_u64 (cl_fee_satoshis m) @ cl_signature m @ encode_tlv_option 1 (map_option write_fee_range (cl_fee_range m))"

definition read_closing_signed :: "wire_lib \<Rightarrow> bytes \<Rightarrow> ClosingSigned parsed" where
  "read_closing_signed lib r =
     and_then (read_exact 32 r) (\<lambda>(i, r). and_then (read_u64 r) (\<lambda>(fee, r). and_then (read_signature lib r) (\<lambda>(sig, r).
       map_ok (\<lambda>range. (\<lparr>cl_channel_id = i, cl_fee_satoshis = fee, cl_signature = sig, cl_fee_range = range\<rparr>, [])) (read_tlv_option 1 read_fee_range r))))"

section \<open>Updates\<close>

text \<open>A packet whose key is not a point is written with zeros in its place.\<close>

definition write_onion_packet :: "wire_lib \<Rightarrow> OnionPacket \<Rightarrow> bytes" where
  "write_onion_packet lib p =
     [op_version p] @ (if valid_pubkey lib (op_public_key p) then op_public_key p else replicate 33 0) @ op_hop_data p @ op_hmac p"

definition read_onion_packet :: "bytes \<Rightarrow> OnionPacket parsed" where
  "read_onion_packet r =
     and_then (read_u8 r) (\<lambda>(v, r). and_then (read_exact 33 r) (\<lambda>(k, r). and_then (read_exact 1300 r) (\<lambda>(d, r).
       map_ok (\<lambda>(h, r). (\<lparr>op_version = v, op_public_key = k, op_hop_data = d, op_hmac = h\<rparr>, r)) (read_exact 32 r))))"

definition write_update_add_htlc :: "wire_lib \<Rightarrow> UpdateAddHTLC \<Rightarrow> bytes" where
  "write_update_add_htlc lib m =
     ua_channel_id m @ write_u64 (ua_htlc_id m) @ write_u64 (ua_amount_msat m) @ ua_payment_hash m @ write_u32 (ua_cltv_expiry m) @
     write_onion_packet lib (ua_onion_routing_packet m)"

definition read_update_add_htlc :: "bytes \<Rightarrow> UpdateAddHTLC parsed" where
  "read_update_add_htlc r =
     and_then (read_exact 32 r) (\<lambda>(i, r). and_then (read_u64 r) (\<lambda>(htlc_id, r). and_then (read_u64 r) (\<lambda>(amount_msat, r).
     and_then (read_exact 32 r) (\<lambda>(payment_hash, r). and_then (read_u32 r) (\<lambda>(cltv_expiry, r). and_then (read_onion_packet r) (\<lambda>(packet, r).
       ended r \<lparr>ua_channel_id = i, ua_htlc_id = htlc_id, ua_amount_msat = amount_msat, ua_payment_hash = payment_hash,
         ua_cltv_expiry = cltv_expiry, ua_onion_routing_packet = packet\<rparr>))))))"

definition write_update_fulfill_htlc :: "UpdateFulfillHTLC \<Rightarrow> bytes" where
  "write_update_fulfill_htlc m = uf_channel_id m @ write_u64 (uf_htlc_id m) @ uf_payment_preimage m"

definition read_update_fulfill_htlc :: "bytes \<Rightarrow> UpdateFulfillHTLC parsed" where
  "read_update_fulfill_htlc r =
     and_then (read_exact 32 r) (\<lambda>(i, r). and_then (read_u64 r) (\<lambda>(htlc_id, r). and_then (read_exact 32 r) (\<lambda>(p, r).
       ended r \<lparr>uf_channel_id = i, uf_htlc_id = htlc_id, uf_payment_preimage = p\<rparr>)))"

definition write_update_fail_htlc :: "UpdateFailHTLC \<Rightarrow> bytes" where
  "write_update_fail_htlc m = ul_channel_id m @ write_u64 (ul_htlc_id m) @ write_var_bytes (ul_reason m)"

definition read_update_fail_htlc :: "bytes \<Rightarrow> UpdateFailHTLC parsed" where
  "read_update_fail_htlc r =
     and_then (read_exact 32 r) (\<lambda>(i, r). and_then (read_u64 r) (\<lambda>(htlc_id, r). and_then (read_var_bytes r) (\<lambda>(p, r).
       ended r \<lparr>ul_channel_id = i, ul_htlc_id = htlc_id, ul_reason = p\<rparr>)))"

definition write_update_fail_malformed_htlc :: "UpdateFailMalformedHTLC \<Rightarrow> bytes" where
  "write_update_fail_malformed_htlc m = um_channel_id m @ write_u64 (um_htlc_id m) @ um_sha256_of_onion m @ write_u16 (um_failure_code m)"

definition read_update_fail_malformed_htlc :: "bytes \<Rightarrow> UpdateFailMalformedHTLC parsed" where
  "read_update_fail_malformed_htlc r =
     and_then (read_exact 32 r) (\<lambda>(i, r). and_then (read_u64 r) (\<lambda>(htlc_id, r). and_then (read_exact 32 r) (\<lambda>(h, r). and_then (read_u16 r) (\<lambda>(c, r).
       ended r \<lparr>um_channel_id = i, um_htlc_id = htlc_id, um_sha256_of_onion = h, um_failure_code = c\<rparr>))))"

definition write_commitment_signed :: "CommitmentSigned \<Rightarrow> bytes" where
  "write_commitment_signed m = cs_channel_id m @ cs_signature m @ write_signatures (cs_htlc_signatures m)"

definition read_commitment_signed :: "wire_lib \<Rightarrow> bytes \<Rightarrow> CommitmentSigned parsed" where
  "read_commitment_signed lib r =
     and_then (read_exact 32 r) (\<lambda>(i, r). and_then (read_signature lib r) (\<lambda>(sig, r). and_then (read_signatures lib r) (\<lambda>(sigs, r).
       ended r \<lparr>cs_channel_id = i, cs_signature = sig, cs_htlc_signatures = sigs\<rparr>)))"

definition write_revoke_and_ack :: "RevokeAndACK \<Rightarrow> bytes" where
  "write_revoke_and_ack m = ra_channel_id m @ ra_per_commitment_secret m @ ra_next_per_commitment_point m"

definition read_revoke_and_ack :: "wire_lib \<Rightarrow> bytes \<Rightarrow> RevokeAndACK parsed" where
  "read_revoke_and_ack lib r =
     and_then (read_exact 32 r) (\<lambda>(i, r). and_then (read_exact 32 r) (\<lambda>(s, r). and_then (read_pubkey lib r) (\<lambda>(p, r).
       ended r \<lparr>ra_channel_id = i, ra_per_commitment_secret = s, ra_next_per_commitment_point = p\<rparr>)))"

definition write_update_fee :: "UpdateFee \<Rightarrow> bytes" where
  "write_update_fee m = ue_channel_id m @ write_u32 (ue_feerate_per_kw m)"

definition read_update_fee :: "bytes \<Rightarrow> UpdateFee parsed" where
  "read_update_fee r = and_then (read_exact 32 r) (\<lambda>(i, r). and_then (read_u32 r) (\<lambda>(f, r). ended r \<lparr>ue_channel_id = i, ue_feerate_per_kw = f\<rparr>))"

definition write_channel_reestablish :: "ChannelReestablish \<Rightarrow> bytes" where
  "write_channel_reestablish m =
     re_channel_id m @ write_u64 (re_next_local_commitment_number m) @ write_u64 (re_next_remote_commitment_number m) @
     (case re_data_loss_protect m of Some d \<Rightarrow> dl_your_last_per_commitment_secret d @ dl_my_current_per_commitment_point d | None \<Rightarrow> [])"

definition read_data_loss_protect :: "wire_lib \<Rightarrow> bytes \<Rightarrow> DataLossProtectInfo option parsed" where
  "read_data_loss_protect lib r =
     (case read_exact 32 r of
        Ok (s, r1) \<Rightarrow> map_ok (\<lambda>(p, r2). (Some \<lparr>dl_your_last_per_commitment_secret = s, dl_my_current_per_commitment_point = p\<rparr>, r2)) (read_pubkey lib r1)
      | Err e \<Rightarrow> if e = ShortRead then Ok (None, r) else Err e
      | Panic \<Rightarrow> Panic)"

definition read_channel_reestablish :: "wire_lib \<Rightarrow> bytes \<Rightarrow> ChannelReestablish parsed" where
  "read_channel_reestablish lib r =
     and_then (read_exact 32 r) (\<lambda>(i, r). and_then (read_u64 r) (\<lambda>(a, r). and_then (read_u64 r) (\<lambda>(b, r).
       map_ok (\<lambda>(d, r). (\<lparr>re_channel_id = i, re_next_local_commitment_number = a, re_next_remote_commitment_number = b, re_data_loss_protect = d\<rparr>, r))
         (read_data_loss_protect lib r))))"

definition write_announcement_signatures :: "AnnouncementSignatures \<Rightarrow> bytes" where
  "write_announcement_signatures m = as_channel_id m @ write_u64 (as_short_channel_id m) @ as_node_signature m @ as_bitcoin_signature m"

definition read_announcement_signatures :: "wire_lib \<Rightarrow> bytes \<Rightarrow> AnnouncementSignatures parsed" where
  "read_announcement_signatures lib r =
     and_then (read_exact 32 r) (\<lambda>(i, r). and_then (read_u64 r) (\<lambda>(scid, r). and_then (read_signature lib r) (\<lambda>(a, r). and_then (read_signature lib r) (\<lambda>(b, r).
       ended r \<lparr>as_channel_id = i, as_short_channel_id = scid, as_node_signature = a, as_bitcoin_signature = b\<rparr>))))"

section \<open>Gossip\<close>

definition write_unsigned_channel_announcement :: "UnsignedChannelAnnouncement \<Rightarrow> bytes" where
  "write_unsigned_channel_announcement m =
     write_features (ca_features m) @ ca_chain_hash m @ write_u64 (ca_short_channel_id m) @ ca_node_id_1 m @ ca_node_id_2 m @
     ca_bitcoin_key_1 m @ ca_bitcoin_key_2 m @ ca_excess_data m"

definition read_unsigned_channel_announcement :: "wire_lib \<Rightarrow> bytes \<Rightarrow> UnsignedChannelAnnouncement parsed" where
  "read_unsigned_channel_announcement lib r =
     and_then (read_features r) (\<lambda>(flags, r). and_then (read_exact 32 r) (\<lambda>(h, r). and_then (read_u64 r) (\<lambda>(scid, r).
     and_then (read_pubkey lib r) (\<lambda>(n1, r). and_then (read_pubkey lib r) (\<lambda>(n2, r). and_then (read_pubkey lib r) (\<lambda>(b1, r).
     and_then (read_pubkey lib r) (\<lambda>(b2, r). map_ok (\<lambda>(x, r). (\<lparr>ca_features = flags, ca_chain_hash = h, ca_short_channel_id = scid,
       ca_node_id_1 = n1, ca_node_id_2 = n2, ca_bitcoin_key_1 = b1, ca_bitcoin_key_2 = b2, ca_excess_data = x\<rparr>, r)) (read_to_end r))))))))"

definition write_channel_announcement :: "ChannelAnnouncement \<Rightarrow> bytes" where
  "write_channel_announcement m =
     ca_node_signature_1 m @ ca_node_signature_2 m @ ca_bitcoin_signature_1 m @ ca_bitcoin_signature_2 m @ write_unsigned_channel_announcement (ca_contents m)"

definition read_channel_announcement :: "wire_lib \<Rightarrow> bytes \<Rightarrow> ChannelAnnouncement parsed" where
  "read_channel_announcement lib r =
     and_then (read_signature lib r) (\<lambda>(a, r). and_then (read_signature lib r) (\<lambda>(b, r). and_then (read_signature lib r) (\<lambda>(c, r).
     and_then (read_signature lib r) (\<lambda>(d, r). map_ok (\<lambda>(x, r). (\<lparr>ca_node_signature_1 = a, ca_node_signature_2 = b,
       ca_bitcoin_signature_1 = c, ca_bitcoin_signature_2 = d, ca_contents = x\<rparr>, r)) (read_unsigned_channel_announcement lib r)))))"

definition write_channel_update :: "channel_update \<Rightarrow> bytes" where
  "write_channel_update m =
     (let message_flags = (if cu_htlc_maximum_msat m = None then 0 else 1 :: u16);
          all_flags = ucast (cu_flags m) OR push_bit 8 message_flags in
      cu_signature m @ cu_chain_hash m @ write_u64 (cu_short_channel_id m) @ write_u32 (cu_timestamp m) @ write_u16 all_flags @
      write_u16 (cu_cltv_expiry_delta m) @ write_u64 (cu_htlc_minimum_msat m) @ write_u32 (cu_fee_base_msat m) @ write_u32 (cu_fee_proportional_millionths m) @
      (case cu_htlc_maximum_msat m of Some v \<Rightarrow> write_u64 v | None \<Rightarrow> []) @ cu_excess_data m)"

definition read_channel_update :: "wire_lib \<Rightarrow> bytes \<Rightarrow> channel_update parsed" where
  "read_channel_update lib r =
     and_then (read_signature lib r) (\<lambda>(sig, r). and_then (read_exact 32 r) (\<lambda>(h, r). and_then (read_u64 r) (\<lambda>(scid, r).
     and_then (read_u32 r) (\<lambda>(ts, r). and_then (read_u16 r) (\<lambda>(all_flags, r). and_then (read_u16 r) (\<lambda>(delta, r). and_then (read_u64 r) (\<lambda>(minimum, r).
     and_then (read_u32 r) (\<lambda>(base, r). and_then (read_u32 r) (\<lambda>(prop, r).
     and_then (if drop_bit 8 all_flags AND 1 = 1 then map_ok (\<lambda>(v, r). (Some v, r)) (read_u64 r) else Ok (None, r)) (\<lambda>(maximum, r).
       map_ok (\<lambda>(x, r). (\<lparr>cu_signature = sig, cu_chain_hash = h, cu_short_channel_id = scid, cu_timestamp = ts, cu_flags = ucast all_flags,
         cu_cltv_expiry_delta = delta, cu_htlc_minimum_msat = minimum, cu_htlc_maximum_msat = maximum, cu_fee_base_msat = base,
         cu_fee_proportional_millionths = prop, cu_excess_data = x\<rparr>, r)) (read_to_end r)))))))))))"

text \<open>The addresses of a node: known ones up to the announced length, up to the first unknown one.\<close>

lemma read_any_address_shorter: "read_any_address r = Ok (a, r1) \<Longrightarrow> length r1 < length r"
  by (auto simp: read_any_address_def read_u8_def read_be_def outcome_simps dest!: read_exact_shorter split: if_splits)

function read_addresses :: "u16 \<Rightarrow> u16 \<Rightarrow> NetAddress list \<Rightarrow> bytes \<Rightarrow> (NetAddress list \<times> u16 \<times> u8 option) parsed" where
  "read_addresses addr_len pos addresses r =
     (if addr_len \<le> pos then Ok ((addresses, pos, None), r)
      else case read_any_address r of
        Ok (Inl addr, r1) \<Rightarrow>
          if addr_len < pos + 1 + address_len addr then Err BadLengthDescriptor
          else read_addresses addr_len (pos + (1 + address_len addr)) (addresses @ [addr]) r1
      | Ok (Inr unknown_descriptor, r1) \<Rightarrow> Ok ((addresses, pos, Some unknown_descriptor), r1)
      | Err e \<Rightarrow> Err (if e = ShortRead then BadLengthDescriptor else e)
      | Panic \<Rightarrow> Panic)"
  by pat_completeness auto
termination
  by (relation "measure (\<lambda>(l, p, a, r). length r)") (auto dest: read_any_address_shorter)

declare read_addresses.simps [simp del]

definition write_unsigned_node_announcement :: "UnsignedNodeAnnouncement \<Rightarrow> bytes" where
  "write_unsigned_node_announcement m =
     (let addr_len = foldl (\<lambda>len addr. len + (1 + address_len addr)) 0 (na_addresses m) in
      write_features (na_features m) @ write_u32 (na_timestamp m) @ na_node_id m @ na_rgb m @ na_alias m @
      write_u16 (addr_len + word_of_nat (length (na_excess_address_data m))) @ concat (map write_address (na_addresses m)) @
      na_excess_address_data m @ na_excess_data m)"

definition read_excess :: "u16 \<Rightarrow> u16 \<Rightarrow> u8 option \<Rightarrow> bytes \<Rightarrow> (bytes \<times> bytes) parsed" where
  "read_excess addr_len pos excess r =
     (if pos < addr_len
      then and_then (read_exact (unat (addr_len - pos) - (if excess = None then 0 else 1)) r) (\<lambda>(b, r1).
             map_ok (\<lambda>(x, r2). ((case excess of Some byte \<Rightarrow> byte # b | None \<Rightarrow> b, x), r2)) (read_to_end r1))
      else map_ok (\<lambda>(x, r1). (([], case excess of Some byte \<Rightarrow> byte # x | None \<Rightarrow> x), r1)) (read_to_end r))"

definition read_unsigned_node_announcement :: "wire_lib \<Rightarrow> bytes \<Rightarrow> UnsignedNodeAnnouncement parsed" where
  "read_unsigned_node_announcement lib r =
     and_then (read_features r) (\<lambda>(flags, r). and_then (read_u32 r) (\<lambda>(ts, r). and_then (read_pubkey lib r) (\<lambda>(i, r).
     and_then (read_exact 3 r) (\<lambda>(rgb, r). and_then (read_exact 32 r) (\<lambda>(alias, r). and_then (read_u16 r) (\<lambda>(addr_len, r).
     and_then (read_addresses addr_len 0 [] r) (\<lambda>((addresses, pos, excess), r).
       map_ok (\<lambda>((excess_address_data, excess_data), r). (\<lparr>na_features = flags, na_timestamp = ts, na_node_id = i, na_rgb = rgb, na_alias = alias,
         na_addresses = addresses, na_excess_address_data = excess_address_data, na_excess_data = excess_data\<rparr>, r))
         (read_excess addr_len pos excess r))))))))"

definition write_node_announcement :: "NodeAnnouncement \<Rightarrow> bytes" where
  "write_node_announcement m = na_signature m @ write_unsigned_node_announcement (na_contents m)"

definition read_node_announcement :: "wire_lib \<Rightarrow> bytes \<Rightarrow> NodeAnnouncement parsed" where
  "read_node_announcement lib r =
     and_then (read_signature lib r) (\<lambda>(sig, r). map_ok (\<lambda>(x, r). (\<lparr>na_signature = sig, na_contents = x\<rparr>, r)) (read_unsigned_node_announcement lib r))"

section \<open>Queries\<close>

definition write_scids :: "u64 list \<Rightarrow> bytes" where
  "write_scids ids = write_u16 (1 + word_of_nat (length ids) * 8) @ [0] @ concat (map write_u64 ids)"

definition read_scids :: "bytes \<Rightarrow> u64 list parsed" where
  "read_scids r =
     and_then (read_u16 r) (\<lambda>(encoding_len, r). and_then (read_u8 r) (\<lambda>(encoding_type, r).
       if encoding_type \<noteq> 0 then Err UnsupportedCompression
       else if encoding_len = 0 \<or> (encoding_len - 1) mod 8 \<noteq> 0 then Err InvalidValue
       else read_n read_u64 (unat ((encoding_len - 1) div 8)) r))"

definition write_query_short_channel_ids :: "QueryShortChannelIds \<Rightarrow> bytes" where
  "write_query_short_channel_ids m = qs_chain_hash m @ write_scids (qs_short_channel_ids m)"

definition read_query_short_channel_ids :: "bytes \<Rightarrow> QueryShortChannelIds parsed" where
  "read_query_short_channel_ids r =
     and_then (read_exact 32 r) (\<lambda>(h, r). map_ok (\<lambda>(ids, r). (\<lparr>qs_chain_hash = h, qs_short_channel_ids = ids\<rparr>, r)) (read_scids r))"

definition write_reply_short_channel_ids_end :: "ReplyShortChannelIdsEnd \<Rightarrow> bytes" where
  "write_reply_short_channel_ids_end m = se_chain_hash m @ write_bool (se_full_information m)"

definition read_reply_short_channel_ids_end :: "bytes \<Rightarrow> ReplyShortChannelIdsEnd parsed" where
  "read_reply_short_channel_ids_end r =
     and_then (read_exact 32 r) (\<lambda>(h, r). and_then (read_bool r) (\<lambda>(b, r). ended r \<lparr>se_chain_hash = h, se_full_information = b\<rparr>))"

definition write_query_channel_range :: "QueryChannelRange \<Rightarrow> bytes" where
  "write_query_channel_range m = qr_chain_hash m @ write_u32 (qr_first_blocknum m) @ write_u32 (qr_number_of_blocks m)"

definition read_query_channel_range :: "bytes \<Rightarrow> QueryChannelRange parsed" where
  "read_query_channel_range r =
     and_then (read_exact 32 r) (\<lambda>(h, r). and_then (read_u32 r) (\<lambda>(a, r). and_then (read_u32 r) (\<lambda>(n, r).
       ended r \<lparr>qr_chain_hash = h, qr_first_blocknum = a, qr_number_of_blocks = n\<rparr>)))"

definition write_reply_channel_range :: "ReplyChannelRange \<Rightarrow> bytes" where
  "write_reply_channel_range m =
     rr_chain_hash m @ write_u32 (rr_first_blocknum m) @ write_u32 (rr_number_of_blocks m) @ write_bool (rr_sync_complete m) @ write_scids (rr_short_channel_ids m)"

definition read_reply_channel_range :: "bytes \<Rightarrow> ReplyChannelRange parsed" where
  "read_reply_channel_range r =
     and_then (read_exact 32 r) (\<lambda>(h, r). and_then (read_u32 r) (\<lambda>(a, r). and_then (read_u32 r) (\<lambda>(n, r). and_then (read_bool r) (\<lambda>(c, r).
       map_ok (\<lambda>(ids, r). (\<lparr>rr_chain_hash = h, rr_first_blocknum = a, rr_number_of_blocks = n, rr_sync_complete = c, rr_short_channel_ids = ids\<rparr>, r))
         (read_scids r)))))"

definition write_gossip_timestamp_filter :: "GossipTimestampFilter \<Rightarrow> bytes" where
  "write_gossip_timestamp_filter m = gf_chain_hash m @ write_u32 (gf_first_timestamp m) @ write_u32 (gf_timestamp_range m)"

definition read_gossip_timestamp_filter :: "bytes \<Rightarrow> GossipTimestampFilter parsed" where
  "read_gossip_timestamp_filter r =
     and_then (read_exact 32 r) (\<lambda>(h, r). and_then (read_u32 r) (\<lambda>(a, r). and_then (read_u32 r) (\<lambda>(n, r).
       ended r \<lparr>gf_chain_hash = h, gf_first_timestamp = a, gf_timestamp_range = n\<rparr>)))"

section \<open>Dispatch\<close>

datatype 'c Message =
    MsgInit Init | MsgError ErrorMessage | MsgWarning WarningMessage | MsgPing Ping | MsgPong Pong
  | MsgOpenChannel OpenChannel | MsgAcceptChannel AcceptChannel | MsgFundingCreated FundingCreated | MsgFundingSigned FundingSigned
  | MsgChannelReady ChannelReady | MsgShutdown Shutdown | MsgClosingSigned ClosingSigned
  | MsgUpdateAddHTLC UpdateAddHTLC | MsgUpdateFulfillHTLC UpdateFulfillHTLC | MsgUpdateFailHTLC UpdateFailHTLC
  | MsgUpdateFailMalformedHTLC UpdateFailMalformedHTLC | MsgCommitmentSigned CommitmentSigned | MsgRevokeAndACK RevokeAndACK
  | MsgUpdateFee UpdateFee | MsgChannelReestablish ChannelReestablish | MsgAnnouncementSignatures AnnouncementSignatures
  | MsgChannelAnnouncement ChannelAnnouncement | MsgNodeAnnouncement NodeAnnouncement | MsgChannelUpdate channel_update
  | MsgQueryShortChannelIds QueryShortChannelIds | MsgReplyShortChannelIdsEnd ReplyShortChannelIdsEnd
  | MsgQueryChannelRange QueryChannelRange | MsgReplyChannelRange ReplyChannelRange | MsgGossipTimestampFilter GossipTimestampFilter
  | MsgUnknown u16 | MsgCustom 'c

text \<open>Messages outside the protocol, for which the user of the library supplies the encoding.\<close>

record 'c custom_lib =
  custom_type_id :: "'c \<Rightarrow> u16"
  custom_write :: "'c \<Rightarrow> bytes"
  custom_read :: "u16 \<Rightarrow> bytes \<Rightarrow> (DecodeError, 'c option) outcome"

fun type_id :: "'c custom_lib \<Rightarrow> 'c Message \<Rightarrow> u16" where
  "type_id cu (MsgInit m) = 16"
| "type_id cu (MsgError m) = 17"
| "type_id cu (MsgWarning m) = 1"
| "type_id cu (MsgPing m) = 18"
| "type_id cu (MsgPong m) = 19"
| "type_id cu (MsgOpenChannel m) = 32"
| "type_id cu (MsgAcceptChannel m) = 33"
| "type_id cu (MsgFundingCreated m) = 34"
| "type_id cu (MsgFundingSigned m) = 35"
| "type_id cu (MsgChannelReady m) = 36"
| "type_id cu (MsgShutdown m) = 38"
| "type_id cu (MsgClosingSigned m) = 39"
| "type_id cu (MsgUpdateAddHTLC m) = 128"
| "type_id cu (MsgUpdateFulfillHTLC m) = 130"
| "type_id cu (MsgUpdateFailHTLC m) = 131"
| "type_id cu (MsgUpdateFailMalformedHTLC m) = 135"
| "type_id cu (MsgCommitmentSigned m) = 132"
| "type_id cu (MsgRevokeAndACK m) = 133"
| "type_id cu (MsgUpdateFee m) = 134"
| "type_id cu (MsgChannelReestablish m) = 136"
| "type_id cu (MsgAnnouncementSignatures m) = 259"
| "type_id cu (MsgChannelAnnouncement m) = 256"
| "type_id cu (MsgNodeAnnouncement m) = 257"
| "type_id cu (MsgChannelUpdate m) = 258"
| "type_id cu (MsgQueryShortChannelIds m) = 261"
| "type_id cu (MsgReplyShortChannelIdsEnd m) = 262"
| "type_id cu (MsgQueryChannelRange m) = 263"
| "type_id cu (MsgReplyChannelRange m) = 264"
| "type_id cu (MsgGossipTimestampFilter m) = 265"
| "type_id cu (MsgUnknown t) = t"
| "type_id cu (MsgCustom c) = custom_type_id cu c"

definition is_even :: "'c custom_lib \<Rightarrow> 'c Message \<Rightarrow> bool" where
  "is_even cu m \<longleftrightarrow> type_id cu m AND 1 = 0"

fun write_payload :: "wire_lib \<Rightarrow> 'c custom_lib \<Rightarrow> 'c Message \<Rightarrow> bytes" where
  "write_payload lib cu (MsgInit m) = write_init m"
| "write_payload lib cu (MsgError m) = write_error_message m"
| "write_payload lib cu (MsgWarning m) = write_warning_message m"
| "write_payload lib cu (MsgPing m) = write_ping m"
| "write_payload lib cu (MsgPong m) = write_pong m"
| "write_payload lib cu (MsgOpenChannel m) = write_open_channel m"
| "write_payload lib cu (MsgAcceptChannel m) = write_accept_channel m"
| "write_payload lib cu (MsgFundingCreated m) = write_funding_created m"
| "write_payload lib cu (MsgFundingSigned m) = write_funding_signed m"
| "write_payload lib cu (MsgChannelReady m) = write_channel_ready m"
| "write_payload lib cu (MsgShutdown m) = write_shutdown m"
| "write_payload lib cu (MsgClosingSigned m) = write_closing_signed m"
| "write_payload lib cu (MsgUpdateAddHTLC m) = write_update_add_htlc lib m"
| "write_payload lib cu (MsgUpdateFulfillHTLC m) = write_update_fulfill_htlc m"
| "write_payload lib cu (MsgUpdateFailHTLC m) = write_update_fail_htlc m"
| "write_payload lib cu (MsgUpdateFailMalformedHTLC m) = write_update_fail_malformed_htlc m"
| "write_payload lib cu (MsgCommitmentSigned m) = write_commitment_signed m"
| "write_payload lib cu (MsgRevokeAndACK m) = write_revoke_and_ack m"
| "write_payload lib cu (MsgUpdateFee m) = write_update_fee m"
| "write_payload lib cu (MsgChannelReestablish m) = write_channel_reestablish m"
| "write_payload lib cu (MsgAnnouncementSignatures m) = write_announcement_signatures m"
| "write_payload lib cu (MsgChannelAnnouncement m) = write_channel_announcement m"
| "write_payload lib cu (MsgNodeAnnouncement m) = write_node_announcement m"
| "write_payload lib cu (MsgChannelUpdate m) = write_channel_update m"
| "write_payload lib cu (MsgQueryShortChannelIds m) = write_query_short_channel_ids m"
| "write_payload lib cu (MsgReplyShortChannelIdsEnd m) = write_reply_short_channel_ids_end m"
| "write_payload lib cu (MsgQueryChannelRange m) = write_query_channel_range m"
| "write_payload lib cu (MsgReplyChannelRange m) = write_reply_channel_range m"
| "write_payload lib cu (MsgGossipTimestampFilter m) = write_gossip_timestamp_filter m"
| "write_payload lib cu (MsgUnknown t) = []"
| "write_payload lib cu (MsgCustom c) = custom_write cu c"

definition wire_write :: "wire_lib \<Rightarrow> 'c custom_lib \<Rightarrow> 'c Message \<Rightarrow> bytes" where
  "wire_write lib cu m = write_u16 (type_id cu m) @ write_payload lib cu m"

definition got :: "('a \<Rightarrow> 'c Message) \<Rightarrow> 'a parsed \<Rightarrow> (DecodeError, 'c Message) outcome" where
  "got f p = map_ok (\<lambda>(x, r). f x) p"

definition do_read :: "wire_lib \<Rightarrow> 'c custom_lib \<Rightarrow> bytes \<Rightarrow> u16 \<Rightarrow> (DecodeError, 'c Message) outcome" where
  "do_read lib cu r message_type =
     (if message_type = 16 then got MsgInit (read_init r)
      else if message_type = 17 then got MsgError (read_error_message r)
      else if message_type = 1 then got MsgWarning (read_warning_message r)
      else if message_type = 18 then got MsgPing (read_ping r)
      else if message_type = 19 then got MsgPong (read_pong r)
      else if message_type = 32 then got MsgOpenChannel (read_open_channel lib r)
      else if message_type = 33 then got MsgAcceptChannel (read_accept_channel lib r)
      else if message_type = 34 then got MsgFundingCreated (read_funding_created lib r)
      else if message_type = 35 then got MsgFundingSigned (read_funding_signed lib r)
      else if message_type = 36 then got MsgChannelReady (read_channel_ready lib r)
      else if message_type = 38 then got MsgShutdown (read_shutdown r)
      else if message_type = 39 then got MsgClosingSigned (read_closing_signed lib r)
      else if message_type = 128 then got MsgUpdateAddHTLC (read_update_add_htlc r)
      else if message_type = 130 then got MsgUpdateFulfillHTLC (read_update_fulfill_htlc r)
      else if message_type = 131 then got MsgUpdateFailHTLC (read_update_fail_htlc r)
      else if message_type = 135 then got MsgUpdateFailMalformedHTLC (read_update_fail_malformed_htlc r)
      else if message_type = 132 then got MsgCommitmentSigned (read_commitment_signed lib r)
      else if message_type = 133 then got MsgRevokeAndACK (read_revoke_and_ack lib r)
      else if message_type = 134 then got MsgUpdateFee (read_update_fee r)
      else if message_type = 136 then got MsgChannelReestablish (read_channel_reestablish lib r)
      else if message_type = 259 then got MsgAnnouncementSignatures (read_announcement_signatures lib r)
      else if message_type = 256 then got MsgChannelAnnouncement (read_channel_announcement lib r)
      else if message_type = 257 then got MsgNodeAnnouncement (read_node_announcement lib r)
      else if message_type = 258 then got MsgChannelUpdate (read_channel_update lib r)
      else if message_type = 261 then got MsgQueryShortChannelIds (read_query_short_channel_ids r)
      else if message_type = 262 then got MsgReplyShortChannelIdsEnd (read_reply_short_channel_ids_end r)
      else if message_type = 263 then got MsgQueryChannelRange (read_query_channel_range r)
      else if message_type = 264 then got MsgReplyChannelRange (read_reply_channel_range r)
      else if message_type = 265 then got MsgGossipTimestampFilter (read_gossip_timestamp_filter r)
      else map_ok (\<lambda>c. case c of Some custom \<Rightarrow> MsgCustom custom | None \<Rightarrow> MsgUnknown message_type) (custom_read cu message_type r))"

definition wire_read :: "wire_lib \<Rightarrow> 'c custom_lib \<Rightarrow> bytes \<Rightarrow> (DecodeError \<times> u16 option, 'c Message) outcome" where
  "wire_read lib cu r =
     (case read_u16 r of
        Err e \<Rightarrow> Err (e, None)
      | Panic \<Rightarrow> Panic
      | Ok (message_type, r1) \<Rightarrow>
          (case do_read lib cu r1 message_type of Err e \<Rightarrow> Err (e, Some message_type) | Panic \<Rightarrow> Panic | Ok m \<Rightarrow> Ok m))"

end
