(* ===== verification/Wire_Correct.thy ===== *)
theory Wire_Correct
  imports Wire_Messages
begin

text \<open>
  Every message is read back as written, and every sequence of bytes gives a message or an error.
\<close>

section \<open>Shared parts\<close>

definition features_ok :: "features \<Rightarrow> bool" where "features_ok flags \<longleftrightarrow> length flags < 65536"

interpretation features_field: field_format write_features read_features features_ok
  by unfold_locales (simp add: read_features_def write_features_def features_ok_def)

definition pubkeys_ok :: "wire_lib \<Rightarrow> ChannelPublicKeys \<Rightarrow> bool" where
  "pubkeys_ok lib k \<longleftrightarrow> pubkey_ok lib (funding_pubkey k) \<and> pubkey_ok lib (revocation_basepoint k) \<and> pubkey_ok lib (payment_point k) \<and>
     pubkey_ok lib (delayed_payment_basepoint k) \<and> pubkey_ok lib (htlc_basepoint k)"

interpretation pubkeys_field: field_format write_pubkeys "read_pubkeys lib" "pubkeys_ok lib" for lib
  by unfold_locales (simp add: read_pubkeys_def write_pubkeys_def pubkeys_ok_def wire_back)

definition onion_packet_ok :: "wire_lib \<Rightarrow> OnionPacket \<Rightarrow> bool" where
  "onion_packet_ok lib p \<longleftrightarrow> pubkey_ok lib (op_public_key p) \<and> length (op_hop_data p) = 1300 \<and> length (op_hmac p) = 32"

interpretation onion_packet_field: field_format "write_onion_packet lib" read_onion_packet "onion_packet_ok lib" for lib
  by unfold_locales (simp add: read_onion_packet_def write_onion_packet_def onion_packet_ok_def pubkey_ok_def)

definition scids_ok :: "u64 list \<Rightarrow> bool" where "scids_ok ids \<longleftrightarrow> length ids < 8192"

interpretation scids_field: field_format write_scids read_scids scids_ok
proof
  fix ids r assume "scids_ok ids"
  then have n: "length ids < 8192" by (simp add: scids_ok_def)
  define w :: u16 where "w = 1 + word_of_nat (length ids) * 8"
  have "w = word_of_nat (1 + length ids * 8)" by (simp add: w_def)
  then have w: "unat w = 1 + length ids * 8" using n by (simp only: unat_len)
  then have one: "unat (w - 1) = length ids * 8" by (simp add: unat_sub_if_size word_le_nat_alt)
  then have "(w - 1) mod 8 = 0" "unat ((w - 1) div 8) = length ids" by (simp_all add: word_eq_iff_unsigned unat_div unat_mod flip: unat_eq_zero)
  moreover have "w \<noteq> 0" using w by auto
  ultimately show "read_scids (write_scids ids @ r) = Ok (ids, r)"
    using u64_field.many [of ids r] unfolding write_scids_def w_def [symmetric] by (simp add: read_scids_def wire_back list_all_iff)
qed

interpretation fee_range_field: field_format write_fee_range read_fee_range "\<lambda>_. True"
  by unfold_locales (simp add: read_fee_range_def write_fee_range_def wire_back)

lemmas [wire_back] = features_field.read_back pubkeys_field.read_back onion_packet_field.read_back scids_field.read_back

lemma ends_back [wire_back]:
  "read_u16 (write_u16 a) = Ok (a, [])" "read_u32 (write_u32 b) = Ok (b, [])" "read_u64 (write_u64 c) = Ok (c, [])" "read_bool (write_bool d) = Ok (d, [])"
  "length e = n \<Longrightarrow> read_exact n e = Ok (e, [])"
  using wire_back(1) [of a "[]"] wire_back(2) [of b "[]"] wire_back(3) [of c "[]"] bool_back [of d "[]"] by (simp_all add: read_exact_def)

lemmas [wire_back] = pubkey_field.whole signature_field.whole vec_field.whole string_field.whole onion_packet_field.whole scids_field.whole

lemma signatures_end [wire_back]:
  "list_all (signature_ok lib) sigs \<Longrightarrow> length sigs \<le> 1024 \<Longrightarrow> read_signatures lib (write_signatures sigs) = Ok (sigs, [])"
  using signatures_back [of lib sigs "[]"] by simp

lemma optional_script_back:
  assumes "case s of Some b \<Rightarrow> vec_ok b | None \<Rightarrow> r = []"
  shows "read_optional_script (write_optional_script s @ r) = Ok (s, r)"
proof (cases s)
  case None
  then show ?thesis using assms by (simp add: read_optional_script_def write_optional_script_def read_be_def read_exact_def)
next
  case (Some b)
  then show ?thesis using assms
    by (simp add: read_optional_script_def write_optional_script_def write_var_bytes_def vec_ok_def integers_back)
qed

lemma channel_type_back:
  "(\<And>t. ct = Some t \<Longrightarrow> features_ok t) \<Longrightarrow> read_tlv_option 1 read_channel_type (encode_tlv_option 1 (map_option write_channel_type ct)) = Ok ct"
  by (rule channel_type_message.tlv_back) (auto simp: write_channel_type_def features_ok_def intro: less_trans)

text \<open>A script that is left out is told from one that is there by the end of the message.\<close>

definition script_and_type_ok :: "bytes option \<Rightarrow> features option \<Rightarrow> bool" where
  "script_and_type_ok s ct \<longleftrightarrow> (case s of Some b \<Rightarrow> vec_ok b | None \<Rightarrow> ct = None) \<and> (case ct of Some t \<Rightarrow> features_ok t | None \<Rightarrow> True)"

lemma script_and_type_back:
  assumes "script_and_type_ok s ct"
  shows "read_optional_script (write_optional_script s @ encode_tlv_option 1 (map_option write_channel_type ct)) = Ok (s, encode_tlv_option 1 (map_option write_channel_type ct))"
    "read_tlv_option 1 read_channel_type (encode_tlv_option 1 (map_option write_channel_type ct)) = Ok ct"
proof -
  show "read_optional_script (write_optional_script s @ encode_tlv_option 1 (map_option write_channel_type ct)) = Ok (s, encode_tlv_option 1 (map_option write_channel_type ct))"
    by (rule optional_script_back) (use assms in \<open>auto simp: script_and_type_ok_def encode_tlv_option_def split: option.splits\<close>)
  show "read_tlv_option 1 read_channel_type (encode_tlv_option 1 (map_option write_channel_type ct)) = Ok ct"
    by (rule channel_type_back) (use assms in \<open>auto simp: script_and_type_ok_def split: option.splits\<close>)
qed

section \<open>The initial message\<close>

text \<open>The first 13 features are sent twice; the two fields are joined on arrival.\<close>

definition low_features :: "features \<Rightarrow> features" where
  "low_features flags = map (\<lambda>i. if i = 0 then flags ! i else flags ! i AND 0x3f) [0..<min 2 (length flags)]"

lemma write_low: "write_up_to_13 flags = write_features (low_features flags)"
  by (simp add: write_up_to_13_def write_features_def low_features_def Let_def rev_map)

lemma low_features_or: "features_or flags (low_features flags) = flags"
proof (rule nth_equalityI)
  have n: "length (low_features flags) = min 2 (length flags)" by (simp add: low_features_def)
  then have r: "Features.resize (max (length flags) (length (low_features flags))) flags = flags" by (simp add: Features.resize_def)
  show len: "length (features_or flags (low_features flags)) = length flags" using n r by (simp add: features_or_def Let_def)
  show "features_or flags (low_features flags) ! i = flags ! i" if "i < length (features_or flags (low_features flags))" for i
  proof (cases "i < min 2 (length flags)")
    case True
    then have at: "i < length [0..<min 2 (length flags)]" "[0..<min 2 (length flags)] ! i = i" by simp_all
    have "low_features flags ! i = (if i = 0 then flags ! i else flags ! i AND 0x3f)" by (simp only: low_features_def nth_map [OF at(1)] at(2))
    moreover have "x OR x AND 0x3f = x" for x :: u8 by (simp add: bit_eq_iff bit_simps)
    ultimately show ?thesis using True n r by (auto simp: features_or_def Let_def nth_append)
  next
    case False
    then have "i \<ge> 2" using that len by simp
    then have "Suc (Suc (i - 2)) = i" by simp
    then show ?thesis using False that len n r by (simp add: features_or_def Let_def nth_append)
  qed
qed

definition init_ok :: "Init \<Rightarrow> bool" where
  "init_ok m \<longleftrightarrow> features_ok (in_features m) \<and> (case in_remote_network_address m of Some a \<Rightarrow> address_ok a | None \<Rightarrow> True)"

lemma address_short: "address_ok a \<Longrightarrow> length (write_address a) < 18446744073709551616"
  by (cases a) (simp_all add: write_u16_def)

interpretation init_message: message_format write_init read_init init_ok
proof
  fix m assume "init_ok m"
  moreover from this have "features_ok (low_features (in_features m))" by (simp add: init_ok_def features_ok_def low_features_def)
  moreover have "read_tlv_option 3 read_address (encode_tlv_option 3 (map_option write_address (in_remote_network_address m))) = Ok (in_remote_network_address m)"
    by (rule address_field.tlv_back) (use \<open>init_ok m\<close> in \<open>auto simp: init_ok_def address_short split: option.splits\<close>)
  ultimately show "read_init (write_init m) = Ok (m, [])"
    by (cases m) (simp add: read_init_def write_init_def write_low low_features_or init_ok_def wire_back)
qed

section \<open>Messages of fixed shape\<close>

definition error_message_ok :: "ErrorMessage \<Rightarrow> bool" where "error_message_ok m \<longleftrightarrow> length (em_channel_id m) = 32 \<and> string_ok (em_data m)"
definition warning_message_ok :: "WarningMessage \<Rightarrow> bool" where "warning_message_ok m \<longleftrightarrow> length (wm_channel_id m) = 32 \<and> string_ok (wm_data m)"
definition open_channel_ok :: "wire_lib \<Rightarrow> OpenChannel \<Rightarrow> bool" where
  "open_channel_ok lib m \<longleftrightarrow> length (oc_chain_hash m) = 32 \<and> length (oc_temporary_channel_id m) = 32 \<and> pubkeys_ok lib (oc_pubkeys m) \<and>
     pubkey_ok lib (oc_first_per_commitment_point m) \<and> script_and_type_ok (oc_shutdown_scriptpubkey m) (oc_channel_type m)"
definition accept_channel_ok :: "wire_lib \<Rightarrow> AcceptChannel \<Rightarrow> bool" where
  "accept_channel_ok lib m \<longleftrightarrow> length (ac_temporary_channel_id m) = 32 \<and> pubkeys_ok lib (ac_pubkeys m) \<and>
     pubkey_ok lib (ac_first_per_commitment_point m) \<and> script_and_type_ok (ac_shutdown_scriptpubkey m) (ac_channel_type m)"
definition funding_created_ok :: "wire_lib \<Rightarrow> FundingCreated \<Rightarrow> bool" where
  "funding_created_ok lib m \<longleftrightarrow> length (fc_temporary_channel_id m) = 32 \<and> length (fc_funding_txid m) = 32 \<and> signature_ok lib (fc_signature m)"
definition funding_signed_ok :: "wire_lib \<Rightarrow> FundingSigned \<Rightarrow> bool" where
  "funding_signed_ok lib m \<longleftrightarrow> length (fs_channel_id m) = 32 \<and> signature_ok lib (fs_signature m)"
definition channel_ready_ok :: "wire_lib \<Rightarrow> ChannelReady \<Rightarrow> bool" where
  "channel_ready_ok lib m \<longleftrightarrow> length (cr_channel_id m) = 32 \<and> pubkey_ok lib (cr_next_per_commitment_point m)"
definition shutdown_ok :: "Shutdown \<Rightarrow> bool" where "shutdown_ok m \<longleftrightarrow> length (sd_channel_id m) = 32 \<and> vec_ok (sd_scriptpubkey m)"
definition closing_signed_ok :: "wire_lib \<Rightarrow> ClosingSigned \<Rightarrow> bool" where
  "closing_signed_ok lib m \<longleftrightarrow> length (cl_channel_id m) = 32 \<and> signature_ok lib (cl_signature m)"
definition update_add_htlc_ok :: "wire_lib \<Rightarrow> UpdateAddHTLC \<Rightarrow> bool" where
  "update_add_htlc_ok lib m \<longleftrightarrow> length (ua_channel_id m) = 32 \<and> length (ua_payment_hash m) = 32 \<and> onion_packet_ok lib (ua_onion_routing_packet m)"
definition update_fulfill_htlc_ok :: "UpdateFulfillHTLC \<Rightarrow> bool" where
  "update_fulfill_htlc_ok m \<longleftrightarrow> length (uf_channel_id m) = 32 \<and> length (uf_payment_preimage m) = 32"
definition update_fail_htlc_ok :: "UpdateFailHTLC \<Rightarrow> bool" where "update_fail_htlc_ok m \<longleftrightarrow> length (ul_channel_id m) = 32 \<and> vec_ok (ul_reason m)"
definition update_fail_malformed_htlc_ok :: "UpdateFailMalformedHTLC \<Rightarrow> bool" where
  "update_fail_malformed_htlc_ok m \<longleftrightarrow> length (um_channel_id m) = 32 \<and> length (um_sha256_of_onion m) = 32"
definition commitment_signed_ok :: "wire_lib \<Rightarrow> CommitmentSigned \<Rightarrow> bool" where
  "commitment_signed_ok lib m \<longleftrightarrow> length (cs_channel_id m) = 32 \<and> signature_ok lib (cs_signature m) \<and>
     list_all (signature_ok lib) (cs_htlc_signatures m) \<and> length (cs_htlc_signatures m) \<le> 1024"
definition revoke_and_ack_ok :: "wire_lib \<Rightarrow> RevokeAndACK \<Rightarrow> bool" where
  "revoke_and_ack_ok lib m \<longleftrightarrow> length (ra_channel_id m) = 32 \<and> length (ra_per_commitment_secret m) = 32 \<and> pubkey_ok lib (ra_next_per_commitment_point m)"
definition channel_reestablish_ok :: "wire_lib \<Rightarrow> ChannelReestablish \<Rightarrow> bool" where
  "channel_reestablish_ok lib m \<longleftrightarrow> length (re_channel_id m) = 32 \<and>
     (case re_data_loss_protect m of Some d \<Rightarrow> length (dl_your_last_per_commitment_secret d) = 32 \<and> pubkey_ok lib (dl_my_current_per_commitment_point d) | None \<Rightarrow> True)"
definition announcement_signatures_ok :: "wire_lib \<Rightarrow> AnnouncementSignatures \<Rightarrow> bool" where
  "announcement_signatures_ok lib m \<longleftrightarrow> length (as_channel_id m) = 32 \<and> signature_ok lib (as_node_signature m) \<and> signature_ok lib (as_bitcoin_signature m)"

interpretation error_field: field_format write_error_message read_error_message error_message_ok
  by unfold_locales (simp add: read_error_message_def write_error_message_def error_message_ok_def wire_back)

interpretation warning_field: field_format write_warning_message read_warning_message warning_message_ok
  by unfold_locales (simp add: read_warning_message_def write_warning_message_def warning_message_ok_def wire_back)

interpretation ping_field: field_format write_ping read_ping "\<lambda>_. True"
  by unfold_locales (simp add: read_ping_def write_ping_def write_var_bytes_def wire_back)

interpretation pong_field: field_format write_pong read_pong "\<lambda>_. True"
  by unfold_locales (simp add: read_pong_def write_pong_def write_var_bytes_def wire_back)

interpretation open_channel_message: message_format write_open_channel "read_open_channel lib" "open_channel_ok lib" for lib
proof
  fix m assume "open_channel_ok lib m"
  moreover from this have "script_and_type_ok (oc_shutdown_scriptpubkey m) (oc_channel_type m)" by (simp add: open_channel_ok_def)
  ultimately show "read_open_channel lib (write_open_channel m) = Ok (m, [])"
    by (simp add: read_open_channel_def write_open_channel_def open_channel_ok_def wire_back script_and_type_back(1) script_and_type_back(2) [of "oc_shutdown_scriptpubkey m"])
qed

interpretation accept_channel_message: message_format write_accept_channel "read_accept_channel lib" "accept_channel_ok lib" for lib
proof
  fix m assume "accept_channel_ok lib m"
  moreover from this have "script_and_type_ok (ac_shutdown_scriptpubkey m) (ac_channel_type m)" by (simp add: accept_channel_ok_def)
  ultimately show "read_accept_channel lib (write_accept_channel m) = Ok (m, [])"
    by (simp add: read_accept_channel_def write_accept_channel_def accept_channel_ok_def wire_back script_and_type_back(1) script_and_type_back(2) [of "ac_shutdown_scriptpubkey m"])
qed

interpretation funding_created_message: message_format write_funding_created "read_funding_created lib" "funding_created_ok lib" for lib
  by unfold_locales (simp add: read_funding_created_def write_funding_created_def funding_created_ok_def wire_back)

interpretation funding_signed_message: message_format write_funding_signed "read_funding_signed lib" "funding_signed_ok lib" for lib
  by unfold_locales (simp add: read_funding_signed_def write_funding_signed_def funding_signed_ok_def wire_back)

interpretation channel_ready_message: message_format write_channel_ready "read_channel_ready lib" "channel_ready_ok lib" for lib
proof
  fix m assume "channel_ready_ok lib m"
  moreover have "read_tlv_option 1 read_u64 (encode_tlv_option 1 (map_option write_u64 (cr_short_channel_id_alias m))) = Ok (cr_short_channel_id_alias m)"
    by (rule u64_field.tlv_back) (simp add: write_u64_def)
  ultimately show "read_channel_ready lib (write_channel_ready m) = Ok (m, [])"
    by (simp add: read_channel_ready_def write_channel_ready_def channel_ready_ok_def wire_back)
qed

interpretation shutdown_message: message_format write_shutdown read_shutdown shutdown_ok
  by unfold_locales (simp add: read_shutdown_def write_shutdown_def shutdown_ok_def wire_back)

interpretation closing_signed_message: message_format write_closing_signed "read_closing_signed lib" "closing_signed_ok lib" for lib
proof
  fix m assume "closing_signed_ok lib m"
  moreover have "read_tlv_option 1 read_fee_range (encode_tlv_option 1 (map_option write_fee_range (cl_fee_range m))) = Ok (cl_fee_range m)"
    by (rule fee_range_field.tlv_back) (simp add: write_fee_range_def write_u64_def)
  ultimately show "read_closing_signed lib (write_closing_signed m) = Ok (m, [])"
    by (simp add: read_closing_signed_def write_closing_signed_def closing_signed_ok_def wire_back)
qed

interpretation update_add_htlc_message: message_format "write_update_add_htlc lib" read_update_add_htlc "update_add_htlc_ok lib" for lib
  by unfold_locales (simp add: read_update_add_htlc_def write_update_add_htlc_def update_add_htlc_ok_def wire_back)

interpretation update_fulfill_htlc_message: message_format write_update_fulfill_htlc read_update_fulfill_htlc update_fulfill_htlc_ok
  by unfold_locales (simp add: read_update_fulfill_htlc_def write_update_fulfill_htlc_def update_fulfill_htlc_ok_def wire_back)

interpretation update_fail_htlc_message: message_format write_update_fail_htlc read_update_fail_htlc update_fail_htlc_ok
  by unfold_locales (simp add: read_update_fail_htlc_def write_update_fail_htlc_def update_fail_htlc_ok_def wire_back)

interpretation update_fail_malformed_htlc_message: message_format write_update_fail_malformed_htlc read_update_fail_malformed_htlc update_fail_malformed_htlc_ok
  by unfold_locales (simp add: read_update_fail_malformed_htlc_def write_update_fail_malformed_htlc_def update_fail_malformed_htlc_ok_def wire_back)

interpretation commitment_signed_message: message_format write_commitment_signed "read_commitment_signed lib" "commitment_signed_ok lib" for lib
  by unfold_locales (simp add: read_commitment_signed_def write_commitment_signed_def commitment_signed_ok_def wire_back)

interpretation revoke_and_ack_message: message_format write_revoke_and_ack "read_revoke_and_ack lib" "revoke_and_ack_ok lib" for lib
  by unfold_locales (simp add: read_revoke_and_ack_def write_revoke_and_ack_def revoke_and_ack_ok_def wire_back)

interpretation update_fee_message: message_format write_update_fee read_update_fee "\<lambda>m. length (ue_channel_id m) = 32"
  by unfold_locales (simp add: read_update_fee_def write_update_fee_def wire_back)

interpretation channel_reestablish_message: message_format write_channel_reestablish "read_channel_reestablish lib" "channel_reestablish_ok lib" for lib
proof
  fix m assume "channel_reestablish_ok lib m"
  then show "read_channel_reestablish lib (write_channel_reestablish m) = Ok (m, [])"
    by (cases "re_data_loss_protect m")
      (simp_all add: read_channel_reestablish_def write_channel_reestablish_def channel_reestablish_ok_def read_data_loss_protect_def integers_back ends_back(3)
        pubkey_field.whole, simp add: read_exact_def)
qed

interpretation announcement_signatures_message: message_format write_announcement_signatures "read_announcement_signatures lib" "announcement_signatures_ok lib" for lib
  by unfold_locales (simp add: read_announcement_signatures_def write_announcement_signatures_def announcement_signatures_ok_def wire_back)

section \<open>Gossip\<close>

definition unsigned_channel_announcement_ok :: "wire_lib \<Rightarrow> UnsignedChannelAnnouncement \<Rightarrow> bool" where
  "unsigned_channel_announcement_ok lib m \<longleftrightarrow> features_ok (ca_features m) \<and> length (ca_chain_hash m) = 32 \<and> pubkey_ok lib (ca_node_id_1 m) \<and>
     pubkey_ok lib (ca_node_id_2 m) \<and> pubkey_ok lib (ca_bitcoin_key_1 m) \<and> pubkey_ok lib (ca_bitcoin_key_2 m)"
definition channel_announcement_ok :: "wire_lib \<Rightarrow> ChannelAnnouncement \<Rightarrow> bool" where
  "channel_announcement_ok lib m \<longleftrightarrow> signature_ok lib (ca_node_signature_1 m) \<and> signature_ok lib (ca_node_signature_2 m) \<and>
     signature_ok lib (ca_bitcoin_signature_1 m) \<and> signature_ok lib (ca_bitcoin_signature_2 m) \<and> unsigned_channel_announcement_ok lib (ca_contents m)"
definition channel_update_ok :: "wire_lib \<Rightarrow> channel_update \<Rightarrow> bool" where
  "channel_update_ok lib m \<longleftrightarrow> signature_ok lib (cu_signature m) \<and> length (cu_chain_hash m) = 32"

interpretation unsigned_channel_announcement_message:
  message_format write_unsigned_channel_announcement "read_unsigned_channel_announcement lib" "unsigned_channel_announcement_ok lib" for lib
  by unfold_locales
    (simp add: read_unsigned_channel_announcement_def write_unsigned_channel_announcement_def unsigned_channel_announcement_ok_def read_to_end_def wire_back)

interpretation channel_announcement_message: message_format write_channel_announcement "read_channel_announcement lib" "channel_announcement_ok lib" for lib
  by unfold_locales
    (simp add: read_channel_announcement_def write_channel_announcement_def channel_announcement_ok_def unsigned_channel_announcement_message.whole wire_back)

text \<open>The two bytes of flags: the channel's below, the presence of the maximum above.\<close>

lemma all_flags_back:
  "ucast (ucast (f :: u8) OR push_bit 8 m :: u16) = f"
  "drop_bit 8 (ucast f OR push_bit 8 (if b then 0 else 1 :: u16)) AND 1 = (if b then 0 else 1)"
proof -
  show "ucast (ucast (f :: u8) OR push_bit 8 m :: u16) = f" by (simp add: bit_eq_iff bit_simps)
  have "drop_bit 8 (ucast f :: u16) = 0" by (auto simp: bit_eq_iff bit_simps dest: bit_imp_le_length)
  then show "drop_bit 8 (ucast f OR push_bit 8 (if b then 0 else 1 :: u16)) AND 1 = (if b then 0 else 1)" by simp
qed

interpretation channel_update_message: message_format write_channel_update "read_channel_update lib" "channel_update_ok lib" for lib
proof
  fix m assume "channel_update_ok lib m"
  define no_max where "no_max \<longleftrightarrow> cu_htlc_maximum_msat m = None"
  define all_flags :: u16 where "all_flags = ucast (cu_flags m) OR push_bit 8 (if no_max then 0 else 1)"
  have "ucast all_flags = cu_flags m" "drop_bit 8 all_flags AND 1 = (if no_max then 0 else 1)"
    unfolding all_flags_def by (rule all_flags_back)+
  with \<open>channel_update_ok lib m\<close> show "read_channel_update lib (write_channel_update m) = Ok (m, [])"
    unfolding write_channel_update_def Let_def no_max_def [symmetric] all_flags_def [symmetric]
    by (cases "cu_htlc_maximum_msat m") (simp_all add: read_channel_update_def channel_update_ok_def read_to_end_def wire_back no_max_def)
qed

text \<open>The addresses of a node, and what follows them when a later version of the protocol has more kinds of address.\<close>

definition addresses_len :: "NetAddress list \<Rightarrow> nat" where
  "addresses_len as = (\<Sum>a\<leftarrow>as. 1 + unat (address_len a))"

definition unsigned_node_announcement_ok :: "wire_lib \<Rightarrow> UnsignedNodeAnnouncement \<Rightarrow> bool" where
  "unsigned_node_announcement_ok lib m \<longleftrightarrow> features_ok (na_features m) \<and> pubkey_ok lib (na_node_id m) \<and> length (na_rgb m) = 3 \<and> length (na_alias m) = 32 \<and>
     list_all address_ok (na_addresses m) \<and> addresses_len (na_addresses m) + length (na_excess_address_data m) < 65536 \<and>
     (case na_excess_address_data m of [] \<Rightarrow> True | b # _ \<Rightarrow> b \<notin> {1, 2, 3, 4})"

definition node_announcement_ok :: "wire_lib \<Rightarrow> NodeAnnouncement \<Rightarrow> bool" where
  "node_announcement_ok lib m \<longleftrightarrow> signature_ok lib (na_signature m) \<and> unsigned_node_announcement_ok lib (na_contents m)"

lemma any_address_back: "address_ok a \<Longrightarrow> read_any_address (write_address a @ r) = Ok (Inl a, r)"
  by (cases a) (simp_all add: read_any_address_def wire_back)

lemma address_pos: "unat pos + (1 + unat (address_len a)) < 65536 \<Longrightarrow> unat (pos + (1 + address_len a)) = unat pos + (1 + unat (address_len a))"
  by (cases a) (simp_all add: unat_plus_if_size word_size)

lemma addr_len_sum: "foldl (\<lambda>len a. len + (1 + address_len a)) c as = c + word_of_nat (addresses_len as)"
  by (induction as arbitrary: c) (simp_all add: addresses_len_def)

lemma addresses_back:
  assumes "list_all address_ok as" "unat pos + addresses_len as + length ex = unat addr_len" "case ex of [] \<Rightarrow> True | b # _ \<Rightarrow> b \<notin> {1, 2, 3, 4}"
  shows "read_addresses addr_len pos acc (concat (map write_address as) @ ex @ r) =
    (case ex of [] \<Rightarrow> Ok ((acc @ as, addr_len, None), r) | b # bs \<Rightarrow> Ok ((acc @ as, addr_len - word_of_nat (length ex), Some b), bs @ r))"
  using assms
proof (induction as arbitrary: pos acc)
  case Nil
  then have n: "unat addr_len = unat pos + length ex" by (simp add: addresses_len_def)
  show ?case
  proof (cases ex)
    case Nil
    then have "pos = addr_len" using n by (simp flip: word_unat_eq_iff)
    then show ?thesis using Nil by (subst read_addresses.simps) simp
  next
    case (Cons b bs)
    then have "pos < addr_len" using n by (simp add: word_less_nat_alt)
    moreover have "addr_len = pos + word_of_nat (length ex)" using arg_cong [OF n, of "word_of_nat :: nat \<Rightarrow> u16"] by simp
    moreover have "read_any_address (b # bs @ r) = Ok (Inr b, bs @ r)" using Cons Nil.prems(3) by (simp add: read_any_address_def)
    ultimately show ?thesis using Cons by (subst read_addresses.simps) (simp del: of_nat_Suc)
  qed
next
  case (Cons a as)
  then have n: "unat pos + (1 + unat (address_len a)) + addresses_len as + length ex = unat addr_len" by (simp add: addresses_len_def)
  moreover have "unat addr_len < 65536" using unsigned_less [of addr_len, where ?'a = nat] by simp
  ultimately have p: "unat (pos + (1 + address_len a)) = unat pos + (1 + unat (address_len a))" by (intro address_pos) linarith
  then have "\<not> addr_len \<le> pos" "\<not> addr_len < pos + (1 + address_len a)" using n by (simp_all only: word_less_nat_alt word_le_nat_alt)
  moreover have "read_any_address (write_address a @ concat (map write_address as) @ ex @ r) = Ok (Inl a, concat (map write_address as) @ ex @ r)"
    using Cons.prems(1) by (intro any_address_back) simp
  ultimately show ?case using Cons.IH [of "pos + (1 + address_len a)" "acc @ [a]"] Cons.prems p n
    by (subst read_addresses.simps) (simp add: add.assoc cong: list.case_cong)
qed

interpretation unsigned_node_announcement_message:
  message_format write_unsigned_node_announcement "read_unsigned_node_announcement lib" "unsigned_node_announcement_ok lib" for lib
proof
  fix m assume ok: "unsigned_node_announcement_ok lib m"
  define as ex where "as = na_addresses m" and "ex = na_excess_address_data m"
  define addr_len :: u16 where "addr_len = word_of_nat (addresses_len as + length ex)"
  have n: "unat addr_len = addresses_len as + length ex"
    using ok by (simp only: addr_len_def as_def ex_def unsigned_node_announcement_ok_def unat_len)
  then have "read_addresses addr_len 0 [] (concat (map write_address as) @ ex @ na_excess_data m) =
      (case ex of [] \<Rightarrow> Ok ((as, addr_len, None), na_excess_data m)
       | b # bs \<Rightarrow> Ok ((as, addr_len - word_of_nat (length ex), Some b), bs @ na_excess_data m))"
    using ok addresses_back [of as 0 ex addr_len "[]"] by (simp add: unsigned_node_announcement_ok_def as_def ex_def cong: list.case_cong)
  moreover have "read_excess addr_len (addr_len - word_of_nat (length ex)) (Some b) (bs @ na_excess_data m) = Ok ((ex, na_excess_data m), [])" if "ex = b # bs" for b bs
  proof -
    have "length ex < 65536" using ok by (simp add: unsigned_node_announcement_ok_def ex_def)
    then have len: "unat (word_of_nat (length ex) :: u16) = length ex" by simp
    then have "addr_len - word_of_nat (length ex) < addr_len" using n that by (simp add: word_less_nat_alt unat_sub_if_size)
    then show ?thesis using that len by (simp add: read_excess_def read_to_end_def)
  qed
  moreover have "read_excess addr_len addr_len None r = Ok (([], r), [])" for r by (simp add: read_excess_def read_to_end_def)
  moreover have "foldl (\<lambda>len a. len + (1 + address_len a)) 0 as + word_of_nat (length ex) = addr_len" by (simp add: addr_len_sum addr_len_def)
  ultimately show "read_unsigned_node_announcement lib (write_unsigned_node_announcement m) = Ok (m, [])"
    using ok unfolding write_unsigned_node_announcement_def Let_def as_def [symmetric] ex_def [symmetric]
    by (cases ex) (simp_all add: read_unsigned_node_announcement_def unsigned_node_announcement_ok_def wire_back as_def ex_def)
qed

interpretation node_announcement_message: message_format write_node_announcement "read_node_announcement lib" "node_announcement_ok lib" for lib
  by unfold_locales
    (simp add: read_node_announcement_def write_node_announcement_def node_announcement_ok_def unsigned_node_announcement_message.whole wire_back)


section \<open>Queries\<close>

definition query_short_channel_ids_ok :: "QueryShortChannelIds \<Rightarrow> bool" where
  "query_short_channel_ids_ok m \<longleftrightarrow> length (qs_chain_hash m) = 32 \<and> scids_ok (qs_short_channel_ids m)"
definition reply_channel_range_ok :: "ReplyChannelRange \<Rightarrow> bool" where
  "reply_channel_range_ok m \<longleftrightarrow> length (rr_chain_hash m) = 32 \<and> scids_ok (rr_short_channel_ids m)"

interpretation query_short_channel_ids_field: field_format write_query_short_channel_ids read_query_short_channel_ids query_short_channel_ids_ok
  by unfold_locales (simp add: read_query_short_channel_ids_def write_query_short_channel_ids_def query_short_channel_ids_ok_def wire_back)

interpretation reply_short_channel_ids_end_message:
  message_format write_reply_short_channel_ids_end read_reply_short_channel_ids_end "\<lambda>m. length (se_chain_hash m) = 32"
  by unfold_locales (simp add: read_reply_short_channel_ids_end_def write_reply_short_channel_ids_end_def wire_back)

interpretation query_channel_range_message: message_format write_query_channel_range read_query_channel_range "\<lambda>m. length (qr_chain_hash m) = 32"
  by unfold_locales (simp add: read_query_channel_range_def write_query_channel_range_def wire_back)

interpretation reply_channel_range_field: field_format write_reply_channel_range read_reply_channel_range reply_channel_range_ok
  by unfold_locales (simp add: read_reply_channel_range_def write_reply_channel_range_def reply_channel_range_ok_def wire_back)

interpretation gossip_timestamp_filter_message:
  message_format write_gossip_timestamp_filter read_gossip_timestamp_filter "\<lambda>m. length (gf_chain_hash m) = 32"
  by unfold_locales (simp add: read_gossip_timestamp_filter_def write_gossip_timestamp_filter_def wire_back)

section \<open>Every message\<close>

definition protocol_types :: "u16 list" where
  "protocol_types = [1, 16, 17, 18, 19, 32, 33, 34, 35, 36, 38, 39, 128, 130, 131, 132, 133, 134, 135, 136, 256, 257, 258, 259, 261, 262, 263, 264, 265]"

text \<open>A message is well formed when its parts have the sizes of their Rust types and fit the length fields. An unknown
  message is only ever received; one of the user's own must have its own number and encoding.\<close>

fun message_ok :: "wire_lib \<Rightarrow> 'c custom_lib \<Rightarrow> 'c Message \<Rightarrow> bool" where
  "message_ok lib cu (MsgInit m) \<longleftrightarrow> init_ok m"
| "message_ok lib cu (MsgError m) \<longleftrightarrow> error_message_ok m"
| "message_ok lib cu (MsgWarning m) \<longleftrightarrow> warning_message_ok m"
| "message_ok lib cu (MsgPing m) \<longleftrightarrow> True"
| "message_ok lib cu (MsgPong m) \<longleftrightarrow> True"
| "message_ok lib cu (MsgOpenChannel m) \<longleftrightarrow> open_channel_ok lib m"
| "message_ok lib cu (MsgAcceptChannel m) \<longleftrightarrow> accept_channel_ok lib m"
| "message_ok lib cu (MsgFundingCreated m) \<longleftrightarrow> funding_created_ok lib m"
| "message_ok lib cu (MsgFundingSigned m) \<longleftrightarrow> funding_signed_ok lib m"
| "message_ok lib cu (MsgChannelReady m) \<longleftrightarrow> channel_ready_ok lib m"
| "message_ok lib cu (MsgShutdown m) \<longleftrightarrow> shutdown_ok m"
| "message_ok lib cu (MsgClosingSigned m) \<longleftrightarrow> closing_signed_ok lib m"
| "message_ok lib cu (MsgUpdateAddHTLC m) \<longleftrightarrow> update_add_htlc_ok lib m"
| "message_ok lib cu (MsgUpdateFulfillHTLC m) \<longleftrightarrow> update_fulfill_htlc_ok m"
| "message_ok lib cu (MsgUpdateFailHTLC m) \<longleftrightarrow> update_fail_htlc_ok m"
| "message_ok lib cu (MsgUpdateFailMalformedHTLC m) \<longleftrightarrow> update_fail_malformed_htlc_ok m"
| "message_ok lib cu (MsgCommitmentSigned m) \<longleftrightarrow> commitment_signed_ok lib m"
| "message_ok lib cu (MsgRevokeAndACK m) \<longleftrightarrow> revoke_and_ack_ok lib m"
| "message_ok lib cu (MsgUpdateFee m) \<longleftrightarrow> length (ue_channel_id m) = 32"
| "message_ok lib cu (MsgChannelReestablish m) \<longleftrightarrow> channel_reestablish_ok lib m"
| "message_ok lib cu (MsgAnnouncementSignatures m) \<longleftrightarrow> announcement_signatures_ok lib m"
| "message_ok lib cu (MsgChannelAnnouncement m) \<longleftrightarrow> channel_announcement_ok lib m"
| "message_ok lib cu (MsgNodeAnnouncement m) \<longleftrightarrow> node_announcement_ok lib m"
| "message_ok lib cu (MsgChannelUpdate m) \<longleftrightarrow> channel_update_ok lib m"
| "message_ok lib cu (MsgQueryShortChannelIds m) \<longleftrightarrow> query_short_channel_ids_ok m"
| "message_ok lib cu (MsgReplyShortChannelIdsEnd m) \<longleftrightarrow> length (se_chain_hash m) = 32"
| "message_ok lib cu (MsgQueryChannelRange m) \<longleftrightarrow> length (qr_chain_hash m) = 32"
| "message_ok lib cu (MsgReplyChannelRange m) \<longleftrightarrow> reply_channel_range_ok m"
| "message_ok lib cu (MsgGossipTimestampFilter m) \<longleftrightarrow> length (gf_chain_hash m) = 32"
| "message_ok lib cu (MsgUnknown t) \<longleftrightarrow> False"
| "message_ok lib cu (MsgCustom c) \<longleftrightarrow> custom_type_id cu c \<notin> set protocol_types \<and> custom_read cu (custom_type_id cu c) (custom_write cu c) = Ok (Some c)"

lemmas messages_whole =
  init_message.whole error_field.whole warning_field.whole ping_field.whole pong_field.whole open_channel_message.whole accept_channel_message.whole
  funding_created_message.whole funding_signed_message.whole channel_ready_message.whole shutdown_message.whole closing_signed_message.whole
  update_add_htlc_message.whole update_fulfill_htlc_message.whole update_fail_htlc_message.whole update_fail_malformed_htlc_message.whole
  commitment_signed_message.whole revoke_and_ack_message.whole update_fee_message.whole channel_reestablish_message.whole
  announcement_signatures_message.whole channel_announcement_message.whole node_announcement_message.whole channel_update_message.whole
  query_short_channel_ids_field.whole reply_short_channel_ids_end_message.whole query_channel_range_message.whole reply_channel_range_field.whole
  gossip_timestamp_filter_message.whole

lemma message_back:
  assumes "message_ok lib cu m"
  shows "do_read lib cu (write_payload lib cu m) (type_id cu m) = Ok m"
  using assms by (cases m) (simp_all add: do_read_def got_def messages_whole protocol_types_def)


definition any_lib :: wire_lib where
  "any_lib = \<lparr>valid_pubkey = (\<lambda>b. hd b = 2), valid_signature = (\<lambda>b. True)\<rparr>"

definition text_lib :: "bytes custom_lib" where
  "text_lib = \<lparr>custom_type_id = (\<lambda>_. 32769), custom_write = (\<lambda>b. b), custom_read = (\<lambda>t b. Ok (if t = 32769 then Some b else None))\<rparr>"

definition some_announcement :: NodeAnnouncement where
  "some_announcement = \<lparr>na_signature = replicate 64 7, na_contents = \<lparr>na_features = [2, 8], na_timestamp = 5, na_node_id = replicate 33 2, na_rgb = [1, 2, 3],
     na_alias = replicate 32 65, na_addresses = [IPv4 [127, 0, 0, 1] 9735, OnionV3 (replicate 32 9) 1 3 9735], na_excess_address_data = [9, 1, 2], na_excess_data = [4, 4]\<rparr>\<rparr>"


section \<open>Any bytes\<close>

lemma tlv_records_total [wire_total]:
  "read_tlv_option t read_address r \<noteq> Panic" "read_tlv_option t read_channel_type r \<noteq> Panic" "read_tlv_option t read_u64 r \<noteq> Panic" "read_tlv_option t read_fee_range r \<noteq> Panic"
  by (rule read_tlv_option_total, simp add: read_fee_range_def outcome_simps wire_total)+

lemma parts_total [wire_total]:
  "read_pubkeys lib r \<noteq> Panic" "read_onion_packet r \<noteq> Panic" "read_data_loss_protect lib r \<noteq> Panic" "read_scids r \<noteq> Panic" "read_excess n p x r \<noteq> Panic"
  by (auto simp: read_pubkeys_def read_onion_packet_def read_data_loss_protect_def read_scids_def read_excess_def outcome_simps wire_total read_n_total split: if_splits outcome.splits)

lemma addresses_total [wire_total]: "read_addresses n p as r \<noteq> Panic"
proof (induction n p as r rule: read_addresses.induct)
  case (1 n p as r)
  then show ?case by (subst read_addresses.simps) (auto simp: wire_total split: outcome.splits sum.splits)
qed

lemma setup_total [wire_total]:
  "read_init r \<noteq> Panic" "read_error_message r \<noteq> Panic" "read_warning_message r \<noteq> Panic" "read_ping r \<noteq> Panic" "read_pong r \<noteq> Panic"
  by (auto simp: read_init_def read_error_message_def read_warning_message_def read_ping_def read_pong_def outcome_simps wire_total)

lemma channel_messages_total [wire_total]:
  "read_open_channel lib r \<noteq> Panic" "read_accept_channel lib r \<noteq> Panic" "read_funding_created lib r \<noteq> Panic" "read_funding_signed lib r \<noteq> Panic"
  "read_channel_ready lib r \<noteq> Panic" "read_shutdown r \<noteq> Panic" "read_closing_signed lib r \<noteq> Panic"
  by (auto simp: read_open_channel_def read_accept_channel_def read_funding_created_def read_funding_signed_def read_channel_ready_def read_shutdown_def read_closing_signed_def
      outcome_simps wire_total)

lemma updates_total [wire_total]:
  "read_update_add_htlc r \<noteq> Panic" "read_update_fulfill_htlc r \<noteq> Panic" "read_update_fail_htlc r \<noteq> Panic" "read_update_fail_malformed_htlc r \<noteq> Panic"
  "read_commitment_signed lib r \<noteq> Panic" "read_revoke_and_ack lib r \<noteq> Panic" "read_update_fee r \<noteq> Panic" "read_channel_reestablish lib r \<noteq> Panic"
  "read_announcement_signatures lib r \<noteq> Panic"
  by (auto simp: read_update_add_htlc_def read_update_fulfill_htlc_def read_update_fail_htlc_def read_update_fail_malformed_htlc_def read_commitment_signed_def
      read_revoke_and_ack_def read_update_fee_def read_channel_reestablish_def read_announcement_signatures_def outcome_simps wire_total)

lemma gossip_total [wire_total]:
  "read_channel_announcement lib r \<noteq> Panic" "read_channel_update lib r \<noteq> Panic" "read_node_announcement lib r \<noteq> Panic"
  by (auto simp: read_channel_announcement_def read_unsigned_channel_announcement_def read_channel_update_def read_node_announcement_def
      read_unsigned_node_announcement_def outcome_simps wire_total split: if_splits)

lemma queries_total [wire_total]:
  "read_query_short_channel_ids r \<noteq> Panic" "read_reply_short_channel_ids_end r \<noteq> Panic" "read_query_channel_range r \<noteq> Panic" "read_reply_channel_range r \<noteq> Panic"
  "read_gossip_timestamp_filter r \<noteq> Panic"
  by (auto simp: read_query_short_channel_ids_def read_reply_short_channel_ids_end_def read_query_channel_range_def read_reply_channel_range_def
      read_gossip_timestamp_filter_def outcome_simps wire_total)

lemma got_total: "got f p \<noteq> Panic \<longleftrightarrow> p \<noteq> Panic"
  by (simp add: got_def outcome_simps)

lemma do_read_total: "(\<And>t b. custom_read cu t b \<noteq> Panic) \<Longrightarrow> do_read lib cu r t \<noteq> Panic"
  by (simp add: do_read_def got_total wire_total outcome_simps)

text \<open>No bytes make the reader of messages panic, and it names the kind of the message it could not read unless there are not even
  two bytes.\<close>
theorem message_read_total:
  assumes "\<And>t b. custom_read cu t b \<noteq> Panic"
  shows "wire_read lib cu bs \<noteq> Panic \<and> ((\<exists>e. wire_read lib cu bs = Err (e, None)) \<longleftrightarrow> length bs < 2)"
proof -
  have "read_u16 bs = Err ShortRead \<longleftrightarrow> length bs < 2" "length bs < 2 \<or> (\<exists>w r. read_u16 bs = Ok (w, r))"
    by (simp_all add: read_be_def read_exact_def)
  then show ?thesis using do_read_total [OF assms, where lib = lib] by (auto simp: wire_read_def split: outcome.splits)
qed

theorem message_read_total_witness:
  "wire_read any_lib text_lib [] = Err (ShortRead, None) \<and> wire_read any_lib text_lib [1, 9, 7] = Err (ShortRead, Some 265) \<and>
   wire_read any_lib text_lib [1, 9, 7] \<noteq> Panic \<and> (\<nexists>e. wire_read any_lib text_lib [1, 9, 7] = Err (e, None))"
proof -
  have a: "custom_read text_lib t b \<noteq> Panic" for t b by (simp add: text_lib_def)
  have b: "wire_read any_lib text_lib [] = Err (ShortRead, None)" by (simp add: wire_read_def read_be_def read_exact_def)
  have "read_u16 [1, 9, 7] = Ok (265, [7])" by (simp add: read_be_def read_exact_def from_be_def)
  then have c: "wire_read any_lib text_lib [1, 9, 7] = Err (ShortRead, Some 265)"
    by (simp add: wire_read_def do_read_def got_def read_gossip_timestamp_filter_def read_exact_def)
  have d: "\<not> length [1, 9, 7 :: u8] < 2" by simp
  show ?thesis using b c d message_read_total [OF a, where bs = "[1, 9, 7]" and lib = any_lib] by blast
qed

end
