(* ===== verification/Poly1305.thy ===== *)
theory Poly1305
  imports ChaCha20
begin

text \<open>
  The one-time authenticator of \<open>lightning/src/util/poly1305.rs\<close>: numbers modulo \<open>2^130 - 5\<close> in five limbs of 26
  bits. The definitions follow the limb arithmetic of the source at its widths; the lemmas show that no
  addition or multiplication wraps, and that the result is the polynomial of the message evaluated at the
  clamped key, plus the pad, whatever pieces the message is fed in.
\<close>

section \<open>Definitions\<close>

type_synonym limbs = "u32 \<times> u32 \<times> u32 \<times> u32 \<times> u32"

record Poly1305 =
  po_r :: limbs
  po_h :: limbs
  po_pad :: "u32 \<times> u32 \<times> u32 \<times> u32"
  po_leftover :: nat
  po_buffer :: bytes
  po_finalized :: bool

definition le32_at :: "bytes \<Rightarrow> nat \<Rightarrow> u32" where
  "le32_at m i = u32_from_le_bytes (take 4 (drop i m))"

definition poly_new :: "bytes \<Rightarrow> (unit, Poly1305) outcome" where
  "poly_new key =
     (if length key \<noteq> 32 then Panic
      else Ok \<lparr>po_r = (le32_at key 0 AND 0x3ffffff, drop_bit 2 (le32_at key 3) AND 0x3ffff03, drop_bit 4 (le32_at key 6) AND 0x3ffc0ff,
                        drop_bit 6 (le32_at key 9) AND 0x3f03fff, drop_bit 8 (le32_at key 12) AND 0x00fffff),
               po_h = (0, 0, 0, 0, 0),
               po_pad = (le32_at key 16, le32_at key 20, le32_at key 24, le32_at key 28),
               po_leftover = 0, po_buffer = replicate 16 0, po_finalized = False\<rparr>)"

definition add_message :: "u32 \<Rightarrow> bytes \<Rightarrow> limbs \<Rightarrow> limbs" where
  "add_message hibit m h =
     (case h of (h0, h1, h2, h3, h4) \<Rightarrow>
       (h0 + (le32_at m 0 AND 0x3ffffff), h1 + (drop_bit 2 (le32_at m 3) AND 0x3ffffff), h2 + (drop_bit 4 (le32_at m 6) AND 0x3ffffff),
        h3 + (drop_bit 6 (le32_at m 9) AND 0x3ffffff), h4 + (drop_bit 8 (le32_at m 12) OR hibit)))"

abbreviation wide :: "u32 \<Rightarrow> u64" where "wide \<equiv> ucast"

definition multiply :: "limbs \<Rightarrow> limbs \<Rightarrow> u64 \<times> u64 \<times> u64 \<times> u64 \<times> u64" where
  "multiply r h =
     (case (r, h) of ((r0, r1, r2, r3, r4), (h0, h1, h2, h3, h4)) \<Rightarrow>
       let s1 = r1 * 5; s2 = r2 * 5; s3 = r3 * 5; s4 = r4 * 5 in
       (wide h0 * wide r0 + wide h1 * wide s4 + wide h2 * wide s3 + wide h3 * wide s2 + wide h4 * wide s1,
        wide h0 * wide r1 + wide h1 * wide r0 + wide h2 * wide s4 + wide h3 * wide s3 + wide h4 * wide s2,
        wide h0 * wide r2 + wide h1 * wide r1 + wide h2 * wide r0 + wide h3 * wide s4 + wide h4 * wide s3,
        wide h0 * wide r3 + wide h1 * wide r2 + wide h2 * wide r1 + wide h3 * wide r0 + wide h4 * wide s4,
        wide h0 * wide r4 + wide h1 * wide r3 + wide h2 * wide r2 + wide h3 * wide r1 + wide h4 * wide r0))"

definition partial_reduce :: "u64 \<times> u64 \<times> u64 \<times> u64 \<times> u64 \<Rightarrow> limbs" where
  "partial_reduce d =
     (case d of (d0, d1, d2, d3, d4) \<Rightarrow>
       let c = (ucast (drop_bit 26 d0) :: u32); h0 = (ucast d0 :: u32) AND 0x3ffffff;
           d1 = d1 + wide c; c = (ucast (drop_bit 26 d1) :: u32); h1 = (ucast d1 :: u32) AND 0x3ffffff;
           d2 = d2 + wide c; c = (ucast (drop_bit 26 d2) :: u32); h2 = (ucast d2 :: u32) AND 0x3ffffff;
           d3 = d3 + wide c; c = (ucast (drop_bit 26 d3) :: u32); h3 = (ucast d3 :: u32) AND 0x3ffffff;
           d4 = d4 + wide c; c = (ucast (drop_bit 26 d4) :: u32); h4 = (ucast d4 :: u32) AND 0x3ffffff;
           h0 = h0 + c * 5; c = drop_bit 26 h0; h0 = h0 AND 0x3ffffff;
           h1 = h1 + c
       in (h0, h1, h2, h3, h4))"

definition poly_block :: "bytes \<Rightarrow> Poly1305 \<Rightarrow> Poly1305" where
  "poly_block m p =
     (let hibit = (if po_finalized p then 0 else 0x1000000)
      in p\<lparr>po_h := partial_reduce (multiply (po_r p) (add_message hibit m (po_h p)))\<rparr>)"

definition full_carry :: "limbs \<Rightarrow> limbs" where
  "full_carry h =
     (case h of (h0, h1, h2, h3, h4) \<Rightarrow>
       let c = drop_bit 26 h1; h1 = h1 AND 0x3ffffff;
           h2 = h2 + c; c = drop_bit 26 h2; h2 = h2 AND 0x3ffffff;
           h3 = h3 + c; c = drop_bit 26 h3; h3 = h3 AND 0x3ffffff;
           h4 = h4 + c; c = drop_bit 26 h4; h4 = h4 AND 0x3ffffff;
           h0 = h0 + c * 5; c = drop_bit 26 h0; h0 = h0 AND 0x3ffffff;
           h1 = h1 + c
       in (h0, h1, h2, h3, h4))"

definition select_reduced :: "limbs \<Rightarrow> limbs" where
  "select_reduced h =
     (case h of (h0, h1, h2, h3, h4) \<Rightarrow>
       let g0 = h0 + 5; c = drop_bit 26 g0; g0 = g0 AND 0x3ffffff;
           g1 = h1 + c; c = drop_bit 26 g1; g1 = g1 AND 0x3ffffff;
           g2 = h2 + c; c = drop_bit 26 g2; g2 = g2 AND 0x3ffffff;
           g3 = h3 + c; c = drop_bit 26 g3; g3 = g3 AND 0x3ffffff;
           g4 = h4 + c - 0x4000000;
           m = drop_bit 31 g4 - 1;
           n = NOT m
       in ((h0 AND n) OR (g0 AND m), (h1 AND n) OR (g1 AND m), (h2 AND n) OR (g2 AND m), (h3 AND n) OR (g3 AND m), (h4 AND n) OR (g4 AND m)))"

definition pack_limbs :: "limbs \<Rightarrow> u32 \<times> u32 \<times> u32 \<times> u32" where
  "pack_limbs h =
     (case h of (h0, h1, h2, h3, h4) \<Rightarrow>
       ((h0 OR push_bit 26 h1) AND 0xffffffff, (drop_bit 6 h1 OR push_bit 20 h2) AND 0xffffffff,
        (drop_bit 12 h2 OR push_bit 14 h3) AND 0xffffffff, (drop_bit 18 h3 OR push_bit 8 h4) AND 0xffffffff))"

definition add_pad :: "u32 \<times> u32 \<times> u32 \<times> u32 \<Rightarrow> u32 \<times> u32 \<times> u32 \<times> u32 \<Rightarrow> u32 \<times> u32 \<times> u32 \<times> u32" where
  "add_pad h pad =
     (case (h, pad) of ((h0, h1, h2, h3), (p0, p1, p2, p3)) \<Rightarrow>
       let f = wide h0 + wide p0; h0 = (ucast f :: u32);
           f = wide h1 + wide p1 + drop_bit 32 f; h1 = (ucast f :: u32);
           f = wide h2 + wide p2 + drop_bit 32 f; h2 = (ucast f :: u32);
           f = wide h3 + wide p3 + drop_bit 32 f; h3 = (ucast f :: u32)
       in (h0, h1, h2, h3))"

definition poly_finish :: "Poly1305 \<Rightarrow> Poly1305" where
  "poly_finish p =
     (let p1 = (if po_leftover p > 0
                then let b = take (po_leftover p) (po_buffer p) @ [1] @ replicate (15 - po_leftover p) 0
                     in poly_block b (p\<lparr>po_buffer := b, po_finalized := True\<rparr>)
                else p);
          (h0, h1, h2, h3) = add_pad (pack_limbs (select_reduced (full_carry (po_h p1)))) (po_pad p1)
      in p1\<lparr>po_h := (h0, h1, h2, h3, snd (snd (snd (snd (po_h p1)))))\<rparr>)"

fun poly_blocks :: "bytes \<Rightarrow> Poly1305 \<Rightarrow> Poly1305 \<times> bytes" where
  "poly_blocks m p = (if length m \<ge> 16 then poly_blocks (drop 16 m) (poly_block (take 16 m) p) else (p, m))"

definition overwrite :: "nat \<Rightarrow> bytes \<Rightarrow> bytes \<Rightarrow> bytes" where
  "overwrite i xs buf = take i buf @ xs @ drop (i + length xs) buf"

definition poly_input :: "bytes \<Rightarrow> Poly1305 \<Rightarrow> (unit, Poly1305) outcome" where
  "poly_input data p =
     (if po_finalized p then Panic
      else let want = min (16 - po_leftover p) (length data);
               (p1, m, full) =
                 (if po_leftover p > 0 then
                    let p' = p\<lparr>po_buffer := overwrite (po_leftover p) (take want data) (po_buffer p), po_leftover := po_leftover p + want\<rparr> in
                    if po_leftover p' < 16 then (p', [], False)
                    else ((poly_block (po_buffer p') p')\<lparr>po_leftover := 0\<rparr>, drop want data, True)
                  else (p, data, True)) in
           if \<not> full then Ok p1
           else let (p2, rest) = poly_blocks m p1
                in Ok (p2\<lparr>po_buffer := overwrite 0 rest (po_buffer p2), po_leftover := length rest\<rparr>))"

definition poly_raw_result :: "Poly1305 \<Rightarrow> bytes \<times> Poly1305" where
  "poly_raw_result p =
     (let p1 = (if po_finalized p then p else poly_finish p) in
      case po_h p1 of (h0, h1, h2, h3, h4) \<Rightarrow>
        (u32_to_le_bytes h0 @ u32_to_le_bytes h1 @ u32_to_le_bytes h2 @ u32_to_le_bytes h3, p1))"

section \<open>Numbers and limbs\<close>

fun le_num :: "bytes \<Rightarrow> nat" where
  "le_num [] = 0"
| "le_num (b # bs) = unat b + 256 * le_num bs"

lemma le_num_append: "le_num (xs @ ys) = le_num xs + 256 ^ length xs * le_num ys"
  by (induction xs) (simp_all add: algebra_simps)

lemma le_num_bound: "le_num xs < 256 ^ length xs"
proof (induction xs)
  case (Cons x xs)
  have "unat x < 256" using unsigned_less [where ?'a = nat, of x] by simp
  with Cons show ?case by simp
qed simp

lemma le_num_replicate [simp]: "le_num (replicate n 0) = 0"
  by (induction n) simp_all

lemma le_num_take_drop: "i \<le> length xs \<Longrightarrow> le_num (drop i xs) = le_num xs div 256 ^ i"
  using le_num_append [of "take i xs" "drop i xs"] le_num_bound [of "take i xs"] by (simp add: div_mult_self2)

lemma le_num_take: "i \<le> length xs \<Longrightarrow> le_num (take i xs) = le_num xs mod 256 ^ i"
  using le_num_append [of "take i xs" "drop i xs"] le_num_bound [of "take i xs"] by simp

text \<open>Bits that do not overlap add up.\<close>

lemma or_push_bit_nat:
  assumes "a < 2 ^ k"
  shows "a OR push_bit k b = a + push_bit k (b :: nat)"
proof -
  have a: "take_bit k a = a" using assms by (simp add: take_bit_nat_eq_self)
  have "a AND push_bit k b = take_bit k a AND push_bit k b" by (simp only: a)
  also have "\<dots> = 0" by (auto simp: bit_eq_iff bit_simps)
  finally show ?thesis by (simp add: disjunctive_add_eq_or)
qed

lemma unat_and_mask26: "unat (w AND 0x3ffffff :: u32) = unat w mod 2 ^ 26"
proof -
  have "w AND 0x3ffffff = take_bit 26 w" by (simp add: take_bit_eq_mask mask_eq_exp_minus_1)
  then have "unat (w AND 0x3ffffff) = take_bit 26 (unat w)" by (simp only: unsigned_take_bit_eq)
  then show ?thesis by (simp only: take_bit_eq_mod)
qed

lemma unat_drop: "unat (drop_bit k (w :: 'a::len word)) = unat w div 2 ^ k"
  by (subst unat_drop_bit_eq) (simp add: drop_bit_eq_div)

lemma unat_wide [simp]: "unat (wide w) = unat w"
  by (simp add: unsigned_ucast_eq take_bit_nat_eq_self_iff less_trans [OF unsigned_less])

lemma unat_u32_less: "unat (w :: u32) < 4294967296"
  using unsigned_less [where ?'a = nat, of w] by simp

lemma unat_u32_from_le_bytes:
  assumes "length b = 4"
  shows "unat (u32_from_le_bytes b) = le_num b"
proof -
  obtain b0 b1 b2 b3 where b: "b = [b0, b1, b2, b3]"
    using assms by (auto simp: numeral_eq_Suc length_Suc_conv)
  have bound: "unat (x :: u8) < 256" for x using unsigned_less [where ?'a = nat, of x] by simp
  have u: "unat (ucast x :: u32) = unat x" for x :: u8
    by (simp add: unsigned_ucast_eq take_bit_nat_eq_self_iff less_trans [OF bound])
  have p: "unat (push_bit k (ucast x) :: u32) = push_bit k (unat x)" if "k \<le> 24" for x :: u8 and k
  proof -
    have "(2 :: nat) ^ k \<le> 2 ^ 24" using that by (intro power_increasing) simp_all
    then have "unat x * 2 ^ k < 256 * 2 ^ 24" using bound [of x] by (intro mult_less_le_imp_less) simp_all
    then show ?thesis
      by (subst unsigned_push_bit_eq) (simp add: u push_bit_eq_mult take_bit_nat_eq_self_iff)
  qed
  have "unat (u32_from_le_bytes b) = ((unat b0 OR push_bit 8 (unat b1)) OR push_bit 16 (unat b2)) OR push_bit 24 (unat b3)"
    by (simp add: b u32_from_le_bytes_def unsigned_or_eq u p or.assoc)
  also have "unat b0 OR push_bit 8 (unat b1) = unat b0 + push_bit 8 (unat b1)"
    using bound [of b0] by (intro or_push_bit_nat) simp
  also have "(unat b0 + push_bit 8 (unat b1)) OR push_bit 16 (unat b2) = unat b0 + push_bit 8 (unat b1) + push_bit 16 (unat b2)"
    using bound [of b0] bound [of b1] by (intro or_push_bit_nat) (simp add: push_bit_eq_mult)
  also have "(unat b0 + push_bit 8 (unat b1) + push_bit 16 (unat b2)) OR push_bit 24 (unat b3) =
      unat b0 + push_bit 8 (unat b1) + push_bit 16 (unat b2) + push_bit 24 (unat b3)"
    using bound [of b0] bound [of b1] bound [of b2] by (intro or_push_bit_nat) (simp add: push_bit_eq_mult)
  finally show ?thesis by (simp add: b push_bit_eq_mult algebra_simps)
qed

lemma unat_le32_at:
  assumes "i + 4 \<le> length m"
  shows "unat (le32_at m i) = le_num m div 256 ^ i mod 2 ^ 32"
proof -
  have "unat (le32_at m i) = le_num (take 4 (drop i m))"
    using assms by (simp add: le32_at_def unat_u32_from_le_bytes)
  also have "\<dots> = le_num (drop i m) mod 256 ^ 4" using assms by (simp add: le_num_take)
  also have "le_num (drop i m) = le_num m div 256 ^ i" using assms by (simp add: le_num_take_drop)
  finally show ?thesis by simp
qed

section \<open>One block\<close>

definition limbs_val :: "limbs \<Rightarrow> nat" where
  "limbs_val h = (case h of (h0, h1, h2, h3, h4) \<Rightarrow>
     unat h0 + 2 ^ 26 * unat h1 + 2 ^ 52 * unat h2 + 2 ^ 78 * unat h3 + 2 ^ 104 * unat h4)"

definition poly_prime :: nat where "poly_prime = 2 ^ 130 - 5"

text \<open>The second limb of the accumulator may exceed 26 bits by a little.\<close>

definition acc_ok :: "limbs \<Rightarrow> bool" where
  "acc_ok h \<longleftrightarrow> (case h of (h0, h1, h2, h3, h4) \<Rightarrow>
     unat h0 < 2 ^ 26 \<and> unat h1 < 2 ^ 26 + 64 \<and> unat h2 < 2 ^ 26 \<and> unat h3 < 2 ^ 26 \<and> unat h4 < 2 ^ 26)"

definition key_ok :: "limbs \<Rightarrow> bool" where
  "key_ok r \<longleftrightarrow> (case r of (r0, r1, r2, r3, r4) \<Rightarrow>
     unat r0 < 2 ^ 26 \<and> unat r1 < 2 ^ 26 \<and> unat r2 < 2 ^ 26 \<and> unat r3 < 2 ^ 26 \<and> unat r4 < 2 ^ 20)"

definition sum_ok :: "limbs \<Rightarrow> bool" where
  "sum_ok h \<longleftrightarrow> (case h of (h0, h1, h2, h3, h4) \<Rightarrow>
     unat h0 < 2 ^ 27 \<and> unat h1 < 2 ^ 27 + 64 \<and> unat h2 < 2 ^ 27 \<and> unat h3 < 2 ^ 27 \<and> unat h4 < 2 ^ 27)"

lemma message_limbs:
  assumes "length m = 16"
  defines "N \<equiv> le_num m"
  shows "unat (le32_at m 0 AND 0x3ffffff) = N mod 2 ^ 26"
    "unat (drop_bit 2 (le32_at m 3) AND 0x3ffffff) = N div 2 ^ 26 mod 2 ^ 26"
    "unat (drop_bit 4 (le32_at m 6) AND 0x3ffffff) = N div 2 ^ 52 mod 2 ^ 26"
    "unat (drop_bit 6 (le32_at m 9) AND 0x3ffffff) = N div 2 ^ 78 mod 2 ^ 26"
    "unat (drop_bit 8 (le32_at m 12)) = N div 2 ^ 104"
proof -
  have N: "N < 2 ^ 128" using le_num_bound [of m] assms by simp
  have cut: "x mod 2 ^ 32 div 2 ^ k mod 2 ^ 26 = x div 2 ^ k mod (2 ^ 26 :: nat)" if "k \<le> 6" for x k
  proof -
    have "take_bit 26 (drop_bit k (take_bit 32 x)) = take_bit 26 (drop_bit k x)"
      using that by (auto simp: bit_eq_iff bit_simps)
    then show ?thesis by (simp only: take_bit_eq_mod drop_bit_eq_div)
  qed
  show "unat (le32_at m 0 AND 0x3ffffff) = N mod 2 ^ 26"
    using cut [of 0 N] assms by (simp add: unat_and_mask26 unat_le32_at N_def)
  show "unat (drop_bit 2 (le32_at m 3) AND 0x3ffffff) = N div 2 ^ 26 mod 2 ^ 26"
    using cut [of 2 "N div 256 ^ 3"] assms by (simp add: unat_and_mask26 unat_drop unat_le32_at N_def div_mult2_eq [symmetric])
  show "unat (drop_bit 4 (le32_at m 6) AND 0x3ffffff) = N div 2 ^ 52 mod 2 ^ 26"
    using cut [of 4 "N div 256 ^ 6"] assms by (simp add: unat_and_mask26 unat_drop unat_le32_at N_def div_mult2_eq [symmetric])
  show "unat (drop_bit 6 (le32_at m 9) AND 0x3ffffff) = N div 2 ^ 78 mod 2 ^ 26"
    using cut [of 6 "N div 256 ^ 9"] assms by (simp add: unat_and_mask26 unat_drop unat_le32_at N_def div_mult2_eq [symmetric])
  have "N div 256 ^ 12 < 2 ^ 32" using N by (simp add: div_less_iff_less_mult)
  then show "unat (drop_bit 8 (le32_at m 12)) = N div 2 ^ 104"
    using assms by (simp add: unat_drop unat_le32_at N_def div_mult2_eq [symmetric])
qed

lemma limb_sum:
  fixes N :: nat
  shows "N mod 2 ^ 26 + 2 ^ 26 * (N div 2 ^ 26 mod 2 ^ 26) + 2 ^ 52 * (N div 2 ^ 52 mod 2 ^ 26) +
     2 ^ 78 * (N div 2 ^ 78 mod 2 ^ 26) + 2 ^ 104 * (N div 2 ^ 104) = N"
proof -
  have d: "N div 2 ^ (k + 26) = N div 2 ^ k div 2 ^ 26" for k by (simp add: power_add div_mult2_eq)
  have s: "2 ^ k * (x mod 2 ^ 26) + 2 ^ (k + 26) * (x div 2 ^ 26) = 2 ^ k * x" for k and x :: nat
    by (simp only: power_add mult.assoc distrib_left [symmetric]) simp
  show ?thesis
    using s [of 26 "N div 2 ^ 26"] s [of 52 "N div 2 ^ 52"] s [of 78 "N div 2 ^ 78"] d [of 26] d [of 52] d [of 78]
    by simp (use mod_mult_div_eq [of N 67108864] in linarith)
qed

lemma unat_add_u32: "unat a + unat b < 2 ^ 32 \<Longrightarrow> unat (a + b :: u32) = unat a + unat b"
  by (simp add: unat_word_ariths)

lemma add_message_val:
  assumes "acc_ok h" "length m = 16" "hibit = (if b then 0 else 0x1000000)"
  shows "limbs_val (add_message hibit m h) = limbs_val h + le_num m + (if b then 0 else 2 ^ 128)"
    "sum_ok (add_message hibit m h)"
proof -
  obtain h0 h1 h2 h3 h4 where h: "h = (h0, h1, h2, h3, h4)" by (cases h)
  note l = message_limbs [OF assms(2)]
  let ?N = "le_num m"
  have N: "?N div 2 ^ 104 < 2 ^ 24" using le_num_bound [of m] assms(2) by (simp add: div_less_iff_less_mult)
  have top: "unat (drop_bit 8 (le32_at m 12) OR hibit) = ?N div 2 ^ 104 + (if b then 0 else 2 ^ 24)"
  proof (cases b)
    case False
    have "unat (drop_bit 8 (le32_at m 12) OR 0x1000000) = unat (drop_bit 8 (le32_at m 12)) OR push_bit 24 1"
      by (simp add: unsigned_or_eq push_bit_eq_mult)
    then show ?thesis using False assms(3) N l(5) by (subst (asm) or_push_bit_nat) (simp_all add: push_bit_eq_mult)
  qed (use l(5) assms(3) in simp)
  have b: "unat h0 < 2 ^ 26" "unat h1 < 2 ^ 26 + 64" "unat h2 < 2 ^ 26" "unat h3 < 2 ^ 26" "unat h4 < 2 ^ 26"
    using assms(1) by (simp_all add: acc_ok_def h)
  have m: "x + y mod 2 ^ 26 < k + 2 ^ 26" if "x < k" for x y k :: nat
    using that by (intro add_strict_mono) simp_all
  let ?a = "unat (drop_bit 8 (le32_at m 12) OR hibit)"
  have a: "?a < 2 ^ 26" using top N by (simp split: if_splits)
  have s: "unat (h0 + (le32_at m 0 AND 0x3ffffff)) = unat h0 + ?N mod 2 ^ 26"
    "unat (h1 + (drop_bit 2 (le32_at m 3) AND 0x3ffffff)) = unat h1 + ?N div 2 ^ 26 mod 2 ^ 26"
    "unat (h2 + (drop_bit 4 (le32_at m 6) AND 0x3ffffff)) = unat h2 + ?N div 2 ^ 52 mod 2 ^ 26"
    "unat (h3 + (drop_bit 6 (le32_at m 9) AND 0x3ffffff)) = unat h3 + ?N div 2 ^ 78 mod 2 ^ 26"
    "unat (h4 + (drop_bit 8 (le32_at m 12) OR hibit)) = unat h4 + ?a"
    using a m [OF b(1), of ?N] m [OF b(2), of "?N div 2 ^ 26"] m [OF b(3), of "?N div 2 ^ 52"] m [OF b(4), of "?N div 2 ^ 78"] b(5)
    by (simp_all add: l unat_add_u32)
  show "sum_ok (add_message hibit m h)"
    using a m [OF b(1), of ?N] m [OF b(2), of "?N div 2 ^ 26"] m [OF b(3), of "?N div 2 ^ 52"] m [OF b(4), of "?N div 2 ^ 78"] b(5)
    by (simp add: sum_ok_def add_message_def h s)
  show "limbs_val (add_message hibit m h) = limbs_val h + ?N + (if b then 0 else 2 ^ 128)"
  proof -
    define a0 a1 a2 a3 a4 where a: "a0 = ?N mod 2 ^ 26" "a1 = ?N div 2 ^ 26 mod 2 ^ 26" "a2 = ?N div 2 ^ 52 mod 2 ^ 26"
      "a3 = ?N div 2 ^ 78 mod 2 ^ 26" "a4 = ?N div 2 ^ 104"
    note s' = s [folded a] and top' = top [folded a]
    have "a0 + 2 ^ 26 * a1 + 2 ^ 52 * a2 + 2 ^ 78 * a3 + 2 ^ 104 * a4 = ?N" using limb_sum [of ?N, folded a] .
    then show ?thesis by (simp add: limbs_val_def add_message_def h s' top' distrib_left)
  qed
qed

text \<open>The product. With all limbs in bounds the sums of products fit 64 bits.\<close>

definition wide_val :: "u64 \<times> u64 \<times> u64 \<times> u64 \<times> u64 \<Rightarrow> nat" where
  "wide_val d = (case d of (d0, d1, d2, d3, d4) \<Rightarrow>
     unat d0 + 2 ^ 26 * unat d1 + 2 ^ 52 * unat d2 + 2 ^ 78 * unat d3 + 2 ^ 104 * unat d4)"

definition wide_ok :: "u64 \<times> u64 \<times> u64 \<times> u64 \<times> u64 \<Rightarrow> bool" where
  "wide_ok d \<longleftrightarrow> (case d of (d0, d1, d2, d3, d4) \<Rightarrow>
     unat d0 < 2 ^ 58 - 2 ^ 32 \<and> unat d1 < 2 ^ 58 - 2 ^ 32 \<and> unat d2 < 2 ^ 58 - 2 ^ 32 \<and> unat d3 < 2 ^ 58 - 2 ^ 32 \<and>
     unat d4 < 2 ^ 55 + 2 ^ 49)"

lemma unat_dot5:
  assumes "unat a0 * unat b0 + unat a1 * unat b1 + unat a2 * unat b2 + unat a3 * unat b3 + unat a4 * unat b4 < 2 ^ 64"
  shows "unat (wide a0 * wide b0 + wide a1 * wide b1 + wide a2 * wide b2 + wide a3 * wide b3 + wide a4 * wide b4) =
    unat a0 * unat b0 + unat a1 * unat b1 + unat a2 * unat b2 + unat a3 * unat b3 + unat a4 * unat b4"
  using assms by (simp add: unat_word_ariths mod_add_eq mod_add_left_eq mod_add_right_eq)

lemma dot5_bound:
  fixes a0 :: nat
  assumes "a0 \<le> A" "a1 \<le> A" "a2 \<le> A" "a3 \<le> A" "a4 \<le> A" "b0 \<le> B0" "b1 \<le> B1" "b2 \<le> B2" "b3 \<le> B3" "b4 \<le> B4"
  shows "a0 * b0 + a1 * b1 + a2 * b2 + a3 * b3 + a4 * b4 \<le> A * (B0 + B1 + B2 + B3 + B4)"
  using mult_le_mono [OF assms(1,6)] mult_le_mono [OF assms(2,7)] mult_le_mono [OF assms(3,8)] mult_le_mono [OF assms(4,9)]
    mult_le_mono [OF assms(5,10)] by (simp add: distrib_left)

lemma product_identity:
  fixes h0 :: nat
  shows "(h0 + 2 ^ 26 * h1 + 2 ^ 52 * h2 + 2 ^ 78 * h3 + 2 ^ 104 * h4) * (r0 + 2 ^ 26 * r1 + 2 ^ 52 * r2 + 2 ^ 78 * r3 + 2 ^ 104 * r4) +
     5 * (h1 * r4 + h2 * r3 + h3 * r2 + h4 * r1 + 2 ^ 26 * (h2 * r4 + h3 * r3 + h4 * r2) + 2 ^ 52 * (h3 * r4 + h4 * r3) + 2 ^ 78 * (h4 * r4)) =
   (h0 * r0 + h1 * (r4 * 5) + h2 * (r3 * 5) + h3 * (r2 * 5) + h4 * (r1 * 5)) +
   2 ^ 26 * (h0 * r1 + h1 * r0 + h2 * (r4 * 5) + h3 * (r3 * 5) + h4 * (r2 * 5)) +
   2 ^ 52 * (h0 * r2 + h1 * r1 + h2 * r0 + h3 * (r4 * 5) + h4 * (r3 * 5)) +
   2 ^ 78 * (h0 * r3 + h1 * r2 + h2 * r1 + h3 * r0 + h4 * (r4 * 5)) +
   2 ^ 104 * (h0 * r4 + h1 * r3 + h2 * r2 + h3 * r1 + h4 * r0) +
   2 ^ 130 * (h1 * r4 + h2 * r3 + h3 * r2 + h4 * r1 + 2 ^ 26 * (h2 * r4 + h3 * r3 + h4 * r2) + 2 ^ 52 * (h3 * r4 + h4 * r3) + 2 ^ 78 * (h4 * r4))"
  by (simp add: algebra_simps)

lemma reduce_by_prime: "a + 5 * q = b + 2 ^ 130 * q \<Longrightarrow> a mod poly_prime = b mod poly_prime"
proof -
  assume "a + 5 * q = b + 2 ^ 130 * q"
  moreover have "(2 ^ 130 :: nat) = poly_prime + 5" by (simp add: poly_prime_def)
  ultimately have "a = b + poly_prime * q" by (simp add: algebra_simps)
  then show ?thesis by simp
qed

lemma multiply_val:
  assumes "key_ok r" "sum_ok h"
  shows "wide_val (multiply r h) mod poly_prime = limbs_val h * limbs_val r mod poly_prime" "wide_ok (multiply r h)"
proof -
  obtain r0 r1 r2 r3 r4 where r: "r = (r0, r1, r2, r3, r4)" by (cases r)
  obtain h0 h1 h2 h3 h4 where h: "h = (h0, h1, h2, h3, h4)" by (cases h)
  let ?A = "2 ^ 27 + 64 :: nat" and ?B = "2 ^ 26 :: nat"
  have hb: "unat h0 \<le> ?A" "unat h1 \<le> ?A" "unat h2 \<le> ?A" "unat h3 \<le> ?A" "unat h4 \<le> ?A"
    using assms(2) by (simp_all add: sum_ok_def h)
  have rb: "unat r0 \<le> ?B" "unat r1 \<le> ?B" "unat r2 \<le> ?B" "unat r3 \<le> ?B" "unat r4 \<le> 2 ^ 20"
    using assms(1) by (simp_all add: key_ok_def r)
  have s: "unat (r1 * 5) = unat r1 * 5" "unat (r2 * 5) = unat r2 * 5" "unat (r3 * 5) = unat r3 * 5" "unat (r4 * 5) = unat r4 * 5"
    using rb by (simp_all add: unat_word_ariths)
  have sb: "unat r1 * 5 \<le> ?B * 5" "unat r2 * 5 \<le> ?B * 5" "unat r3 * 5 \<le> ?B * 5" "unat r4 * 5 \<le> 2 ^ 20 * 5"
    using rb by simp_all
  note e0 = dot5_bound [OF hb rb(1) sb(4,3,2,1)]
  note e1 = dot5_bound [OF hb rb(2,1) sb(4,3,2)]
  note e2 = dot5_bound [OF hb rb(3,2,1) sb(4,3)]
  note e3 = dot5_bound [OF hb rb(4,3,2,1) sb(4)]
  note e4 = dot5_bound [OF hb rb(5,4,3,2,1)]
  have d: "multiply r h = (wide h0 * wide r0 + wide h1 * wide (r4 * 5) + wide h2 * wide (r3 * 5) + wide h3 * wide (r2 * 5) + wide h4 * wide (r1 * 5),
      wide h0 * wide r1 + wide h1 * wide r0 + wide h2 * wide (r4 * 5) + wide h3 * wide (r3 * 5) + wide h4 * wide (r2 * 5),
      wide h0 * wide r2 + wide h1 * wide r1 + wide h2 * wide r0 + wide h3 * wide (r4 * 5) + wide h4 * wide (r3 * 5),
      wide h0 * wide r3 + wide h1 * wide r2 + wide h2 * wide r1 + wide h3 * wide r0 + wide h4 * wide (r4 * 5),
      wide h0 * wide r4 + wide h1 * wide r3 + wide h2 * wide r2 + wide h3 * wide r1 + wide h4 * wide r0)"
    by (simp only: multiply_def r h prod.case Let_def)
  have u0: "unat (fst (multiply r h)) = unat h0 * unat r0 + unat h1 * (unat r4 * 5) + unat h2 * (unat r3 * 5) + unat h3 * (unat r2 * 5) + unat h4 * (unat r1 * 5)"
    unfolding d fst_conv snd_conv by (subst unat_dot5; use e0 in \<open>simp add: s\<close>)
  have u1: "unat (fst (snd (multiply r h))) = unat h0 * unat r1 + unat h1 * unat r0 + unat h2 * (unat r4 * 5) + unat h3 * (unat r3 * 5) + unat h4 * (unat r2 * 5)"
    unfolding d fst_conv snd_conv by (subst unat_dot5; use e1 in \<open>simp add: s\<close>)
  have u2: "unat (fst (snd (snd (multiply r h)))) = unat h0 * unat r2 + unat h1 * unat r1 + unat h2 * unat r0 + unat h3 * (unat r4 * 5) + unat h4 * (unat r3 * 5)"
    unfolding d fst_conv snd_conv by (subst unat_dot5; use e2 in \<open>simp add: s\<close>)
  have u3: "unat (fst (snd (snd (snd (multiply r h))))) = unat h0 * unat r3 + unat h1 * unat r2 + unat h2 * unat r1 + unat h3 * unat r0 + unat h4 * (unat r4 * 5)"
    unfolding d fst_conv snd_conv by (subst unat_dot5; use e3 in \<open>simp add: s\<close>)
  have u4: "unat (snd (snd (snd (snd (multiply r h))))) = unat h0 * unat r4 + unat h1 * unat r3 + unat h2 * unat r2 + unat h3 * unat r1 + unat h4 * unat r0"
    unfolding d fst_conv snd_conv by (subst unat_dot5; use e4 in \<open>simp add: s\<close>)
  show "wide_ok (multiply r h)"
    using e0 e1 e2 e3 e4 unfolding wide_ok_def case_prod_unfold u0 u1 u2 u3 u4 by simp
  show "wide_val (multiply r h) mod poly_prime = limbs_val h * limbs_val r mod poly_prime"
    unfolding wide_val_def case_prod_unfold u0 u1 u2 u3 u4
    by (rule reduce_by_prime [OF product_identity, symmetric, THEN trans]) (simp add: limbs_val_def r h)
qed

text \<open>Carrying.\<close>

lemma carry_out: "unat d < 2 ^ 58 \<Longrightarrow> unat (ucast (drop_bit 26 d) :: u32) = unat (d :: u64) div 2 ^ 26"
proof -
  assume "unat d < 2 ^ 58"
  then have "unat d div 2 ^ 26 < 2 ^ 32" by (simp add: div_less_iff_less_mult)
  then show ?thesis by (simp add: unsigned_ucast_eq unat_drop take_bit_nat_eq_self_iff)
qed

lemma low_limb: "unat ((ucast d :: u32) AND 0x3ffffff) = unat (d :: u64) mod 2 ^ 26"
proof -
  have "unat (ucast d :: u32) = unat d mod 2 ^ 32" by (simp add: unsigned_ucast_eq take_bit_eq_mod)
  then show ?thesis by (simp add: unat_and_mask26 mod_mod_cancel)
qed

lemma unat_add_u64: "unat a + unat b < 2 ^ 64 \<Longrightarrow> unat (a + b :: u64) = unat a + unat b"
  by (simp add: unat_word_ariths)

lemma carry_step:
  assumes "unat d < 2 ^ 58 - 2 ^ 32"
  shows "unat (d + wide c) = unat d + unat c" "unat d + unat c < 2 ^ 58"
  using assms unat_u32_less [of c] by (simp_all add: unat_add_u64)

lemma carry_chain:
  fixes d0 :: nat
  assumes "d1' = d1 + d0 div 2 ^ 26" "d2' = d2 + d1' div 2 ^ 26" "d3' = d3 + d2' div 2 ^ 26" "d4' = d4 + d3' div 2 ^ 26"
    and "x = d0 mod 2 ^ 26 + d4' div 2 ^ 26 * 5"
  shows "(d0 + 2 ^ 26 * d1 + 2 ^ 52 * d2 + 2 ^ 78 * d3 + 2 ^ 104 * d4) mod poly_prime =
    (x mod 2 ^ 26 + 2 ^ 26 * (d1' mod 2 ^ 26 + x div 2 ^ 26) + 2 ^ 52 * (d2' mod 2 ^ 26) + 2 ^ 78 * (d3' mod 2 ^ 26) + 2 ^ 104 * (d4' mod 2 ^ 26)) mod poly_prime"
proof -
  have s: "a = a mod 2 ^ 26 + 2 ^ 26 * (a div 2 ^ 26)" for a :: nat by simp
  define q where "q = d4' div 2 ^ 26"
  have "d0 + 2 ^ 26 * d1 + 2 ^ 52 * d2 + 2 ^ 78 * d3 + 2 ^ 104 * d4 + 5 * q =
    (x mod 2 ^ 26 + 2 ^ 26 * (d1' mod 2 ^ 26 + x div 2 ^ 26) + 2 ^ 52 * (d2' mod 2 ^ 26) + 2 ^ 78 * (d3' mod 2 ^ 26) + 2 ^ 104 * (d4' mod 2 ^ 26)) + 2 ^ 130 * q"
  proof -
    define q0 q1 q2 q3 y m0 m1 m2 m3 m4 n where q: "q0 = d0 div 2 ^ 26" "q1 = d1' div 2 ^ 26" "q2 = d2' div 2 ^ 26" "q3 = d3' div 2 ^ 26"
      "y = x div 2 ^ 26" "m0 = d0 mod 2 ^ 26" "m1 = d1' mod 2 ^ 26" "m2 = d2' mod 2 ^ 26" "m3 = d3' mod 2 ^ 26" "m4 = d4' mod 2 ^ 26" "n = x mod 2 ^ 26"
    have "d0 = m0 + 2 ^ 26 * q0" "d1' = m1 + 2 ^ 26 * q1" "d2' = m2 + 2 ^ 26 * q2" "d3' = m3 + 2 ^ 26 * q3" "d4' = m4 + 2 ^ 26 * q" "x = n + 2 ^ 26 * y"
      unfolding q q_def by (rule s)+
    moreover have "d1' = d1 + q0" "d2' = d2 + q1" "d3' = d3 + q2" "d4' = d4 + q3" "x = m0 + q * 5"
      using assms by (simp_all only: q q_def)
    ultimately show ?thesis unfolding q(5,7-11) [symmetric] by simp
  qed
  then show ?thesis by (rule reduce_by_prime)
qed

lemma partial_reduce_val:
  assumes "wide_ok d"
  shows "limbs_val (partial_reduce d) mod poly_prime = wide_val d mod poly_prime" "acc_ok (partial_reduce d)"
proof -
  obtain d0 d1 d2 d3 d4 where d: "d = (d0, d1, d2, d3, d4)" by (cases d)
  have b: "unat d0 < 2 ^ 58 - 2 ^ 32" "unat d1 < 2 ^ 58 - 2 ^ 32" "unat d2 < 2 ^ 58 - 2 ^ 32" "unat d3 < 2 ^ 58 - 2 ^ 32" "unat d4 < 2 ^ 55 + 2 ^ 49"
    using assms by (simp_all add: wide_ok_def d)
  define c0 where "c0 = (ucast (drop_bit 26 d0) :: u32)"
  define e1 where "e1 = d1 + wide c0"
  define c1 where "c1 = (ucast (drop_bit 26 e1) :: u32)"
  define e2 where "e2 = d2 + wide c1"
  define c2 where "c2 = (ucast (drop_bit 26 e2) :: u32)"
  define e3 where "e3 = d3 + wide c2"
  define c3 where "c3 = (ucast (drop_bit 26 e3) :: u32)"
  define e4 where "e4 = d4 + wide c3"
  define c4 where "c4 = (ucast (drop_bit 26 e4) :: u32)"
  define x where "x = (ucast d0 AND 0x3ffffff) + c4 * 5"
  have c0: "unat c0 = unat d0 div 2 ^ 26" unfolding c0_def using b(1) by (intro carry_out) simp
  have e1: "unat e1 = unat d1 + unat c0" "unat e1 < 2 ^ 58" using carry_step [OF b(2), of c0] by (simp_all add: e1_def)
  have c1: "unat c1 = unat e1 div 2 ^ 26" unfolding c1_def by (rule carry_out [OF e1(2)])
  have e2: "unat e2 = unat d2 + unat c1" "unat e2 < 2 ^ 58" using carry_step [OF b(3), of c1] by (simp_all add: e2_def)
  have c2: "unat c2 = unat e2 div 2 ^ 26" unfolding c2_def by (rule carry_out [OF e2(2)])
  have e3: "unat e3 = unat d3 + unat c2" "unat e3 < 2 ^ 58" using carry_step [OF b(4), of c2] by (simp_all add: e3_def)
  have c3: "unat c3 = unat e3 div 2 ^ 26" unfolding c3_def by (rule carry_out [OF e3(2)])
  have e4: "unat e4 = unat d4 + unat c3" "unat e4 < 2 ^ 55 + 2 ^ 49 + 2 ^ 32"
    using carry_step [of d4 c3] b(5) unat_u32_less [of c3] by (simp_all add: e4_def)
  have c4: "unat c4 = unat e4 div 2 ^ 26" unfolding c4_def using e4(2) by (intro carry_out) simp
  then have "unat c4 < 2 ^ 29 + 2 ^ 23 + 64" using e4(2) by (simp add: div_less_iff_less_mult)
  moreover have "unat (ucast d0 AND 0x3ffffff :: u32) < 2 ^ 26" unfolding low_limb by simp
  ultimately have x: "unat x = unat d0 mod 2 ^ 26 + unat e4 div 2 ^ 26 * 5" "unat x div 2 ^ 26 < 64"
    using c4 low_limb [of d0] by (simp_all add: x_def unat_word_ariths)
  define h1 where "h1 = (ucast e1 AND 0x3ffffff) + drop_bit 26 x"
  have h1: "unat h1 = unat e1 mod 2 ^ 26 + unat x div 2 ^ 26" "unat h1 < 2 ^ 26 + 64"
  proof -
    have "unat e1 mod 2 ^ 26 + unat x div 2 ^ 26 < 2 ^ 26 + 64" using x(2) by (intro add_strict_mono) simp_all
    then show "unat h1 = unat e1 mod 2 ^ 26 + unat x div 2 ^ 26" "unat h1 < 2 ^ 26 + 64"
      unfolding h1_def by (simp_all add: unat_add_u32 low_limb unat_drop)
  qed
  have red: "partial_reduce d = (x AND 0x3ffffff, h1, ucast e2 AND 0x3ffffff, ucast e3 AND 0x3ffffff, ucast e4 AND 0x3ffffff)"
    by (simp only: partial_reduce_def d prod.case Let_def h1_def x_def c4_def e4_def c3_def e3_def c2_def e2_def c1_def e1_def c0_def)
  show "acc_ok (partial_reduce d)"
    unfolding red acc_ok_def prod.case unat_and_mask26 low_limb using h1(2) by simp
  have "limbs_val (partial_reduce d) = unat x mod 2 ^ 26 + 2 ^ 26 * (unat e1 mod 2 ^ 26 + unat x div 2 ^ 26) +
      2 ^ 52 * (unat e2 mod 2 ^ 26) + 2 ^ 78 * (unat e3 mod 2 ^ 26) + 2 ^ 104 * (unat e4 mod 2 ^ 26)"
    unfolding red limbs_val_def prod.case low_limb h1(1) unfolding unat_and_mask26 ..
  moreover have "wide_val d = unat d0 + 2 ^ 26 * unat d1 + 2 ^ 52 * unat d2 + 2 ^ 78 * unat d3 + 2 ^ 104 * unat d4"
    by (simp add: wide_val_def d)
  ultimately show "limbs_val (partial_reduce d) mod poly_prime = wide_val d mod poly_prime"
    using carry_chain [OF e1(1) [unfolded c0] e2(1) [unfolded c1] e3(1) [unfolded c2] e4(1) [unfolded c3] x(1)] by simp
qed

section \<open>Finishing\<close>

definition reduced :: "limbs \<Rightarrow> bool" where
  "reduced h \<longleftrightarrow> (case h of (h0, h1, h2, h3, h4) \<Rightarrow>
     unat h0 < 2 ^ 26 \<and> unat h1 < 2 ^ 26 \<and> unat h2 < 2 ^ 26 \<and> unat h3 < 2 ^ 26 \<and> unat h4 < 2 ^ 26)"

lemma full_carry_chain:
  fixes h0 :: nat
  assumes "x2 = h2 + h1 div 2 ^ 26" "x3 = h3 + x2 div 2 ^ 26" "x4 = h4 + x3 div 2 ^ 26" "x0 = h0 + x4 div 2 ^ 26 * 5"
  shows "(h0 + 2 ^ 26 * h1 + 2 ^ 52 * h2 + 2 ^ 78 * h3 + 2 ^ 104 * h4) mod poly_prime =
    (x0 mod 2 ^ 26 + 2 ^ 26 * (h1 mod 2 ^ 26 + x0 div 2 ^ 26) + 2 ^ 52 * (x2 mod 2 ^ 26) + 2 ^ 78 * (x3 mod 2 ^ 26) + 2 ^ 104 * (x4 mod 2 ^ 26)) mod poly_prime"
proof -
  have s: "a = a mod 2 ^ 26 + 2 ^ 26 * (a div 2 ^ 26)" for a :: nat by simp
  define q y c1 c2 c3 m0 m1 m2 m3 m4 where q: "q = x4 div 2 ^ 26" "y = x0 div 2 ^ 26" "c1 = h1 div 2 ^ 26" "c2 = x2 div 2 ^ 26" "c3 = x3 div 2 ^ 26"
    "m0 = x0 mod 2 ^ 26" "m1 = h1 mod 2 ^ 26" "m2 = x2 mod 2 ^ 26" "m3 = x3 mod 2 ^ 26" "m4 = x4 mod 2 ^ 26"
  have "h1 = m1 + 2 ^ 26 * c1" "x2 = m2 + 2 ^ 26 * c2" "x3 = m3 + 2 ^ 26 * c3" "x4 = m4 + 2 ^ 26 * q" "x0 = m0 + 2 ^ 26 * y"
    unfolding q by (rule s)+
  moreover have "x2 = h2 + c1" "x3 = h3 + c2" "x4 = h4 + c3" "x0 = h0 + q * 5" using assms by (simp_all only: q)
  ultimately have "h0 + 2 ^ 26 * h1 + 2 ^ 52 * h2 + 2 ^ 78 * h3 + 2 ^ 104 * h4 + 5 * q =
    (m0 + 2 ^ 26 * (m1 + y) + 2 ^ 52 * m2 + 2 ^ 78 * m3 + 2 ^ 104 * m4) + 2 ^ 130 * q" by simp
  then show ?thesis unfolding q(2,6-10) [symmetric] by (rule reduce_by_prime)
qed

lemma carry_small:
  fixes a c :: nat
  assumes "a < 2 ^ 26" "c \<le> 1"
  shows "(a + c) div 2 ^ 26 \<le> c" "(a + c * 5) div 2 ^ 26 \<le> c"
  using assms less_mult_imp_div_less [of "a + c" 2 "2 ^ 26"] less_mult_imp_div_less [of "a + c * 5" 2 "2 ^ 26"]
  by (auto simp: le_Suc_eq)

lemma full_carry_val:
  assumes "acc_ok h"
  shows "limbs_val (full_carry h) mod poly_prime = limbs_val h mod poly_prime" "reduced (full_carry h)"
proof -
  obtain h0 h1 h2 h3 h4 where h: "h = (h0, h1, h2, h3, h4)" by (cases h)
  have b: "unat h0 < 2 ^ 26" "unat h1 < 2 ^ 26 + 64" "unat h2 < 2 ^ 26" "unat h3 < 2 ^ 26" "unat h4 < 2 ^ 26"
    using assms by (simp_all add: acc_ok_def h)
  define x2 where "x2 = h2 + drop_bit 26 h1"
  define x3 where "x3 = h3 + drop_bit 26 x2"
  define x4 where "x4 = h4 + drop_bit 26 x3"
  define x0 where "x0 = h0 + drop_bit 26 x4 * 5"
  have c1: "unat h1 div 2 ^ 26 \<le> 1" "unat h1 mod 2 ^ 26 + 2 ^ 26 * (unat h1 div 2 ^ 26) < 2 ^ 26 + 64"
    using b(2) less_mult_imp_div_less [of "unat h1" 2 "2 ^ 26"] by simp_all
  have x2: "unat x2 = unat h2 + unat h1 div 2 ^ 26" using b(3) c1(1) by (simp add: x2_def unat_add_u32 unat_drop)
  have c2: "unat x2 div 2 ^ 26 \<le> unat h1 div 2 ^ 26" unfolding x2 by (rule carry_small(1) [OF b(3) c1(1)])
  have x3: "unat x3 = unat h3 + unat x2 div 2 ^ 26" using b(4) c1(1) c2 by (simp add: x3_def unat_add_u32 unat_drop)
  have c3: "unat x3 div 2 ^ 26 \<le> unat x2 div 2 ^ 26" unfolding x3 by (rule carry_small(1) [OF b(4) order.trans [OF c2 c1(1)]])
  have x4: "unat x4 = unat h4 + unat x3 div 2 ^ 26" using b(5) c1(1) c2 c3 by (simp add: x4_def unat_add_u32 unat_drop)
  have c4: "unat x4 div 2 ^ 26 \<le> unat x3 div 2 ^ 26" unfolding x4 by (rule carry_small(1) [OF b(5) order.trans [OF c3 order.trans [OF c2 c1(1)]]])
  have q: "unat x4 div 2 ^ 26 \<le> 1" using c1(1) c2 c3 c4 by linarith
  have x0: "unat x0 = unat h0 + unat x4 div 2 ^ 26 * 5" using b(1) q by (simp add: x0_def unat_word_ariths unat_drop)
  have y: "unat x0 div 2 ^ 26 \<le> unat x4 div 2 ^ 26" unfolding x0 by (rule carry_small(2) [OF b(1) q])
  have h1: "unat h1 mod 2 ^ 26 + unat x0 div 2 ^ 26 < 2 ^ 26"
  proof (cases "unat x0 div 2 ^ 26 = 0")
    case False
    then have "unat h1 div 2 ^ 26 = 1" "unat x0 div 2 ^ 26 = 1" using y q c1(1) c2 c3 c4 by linarith+
    then show ?thesis using c1(2) by simp
  qed simp
  define y1 where "y1 = (h1 AND 0x3ffffff) + drop_bit 26 x0"
  have y1: "unat y1 = unat h1 mod 2 ^ 26 + unat x0 div 2 ^ 26"
    using h1 by (simp add: y1_def unat_add_u32 unat_drop unat_and_mask26)
  have f: "full_carry h = (x0 AND 0x3ffffff, y1, x2 AND 0x3ffffff, x3 AND 0x3ffffff, x4 AND 0x3ffffff)"
    by (simp only: full_carry_def h prod.case Let_def y1_def x0_def x4_def x3_def x2_def)
  show "reduced (full_carry h)" unfolding f reduced_def prod.case unat_and_mask26 y1 using h1 by simp
  have "limbs_val (full_carry h) = unat x0 mod 2 ^ 26 + 2 ^ 26 * (unat h1 mod 2 ^ 26 + unat x0 div 2 ^ 26) +
      2 ^ 52 * (unat x2 mod 2 ^ 26) + 2 ^ 78 * (unat x3 mod 2 ^ 26) + 2 ^ 104 * (unat x4 mod 2 ^ 26)"
    unfolding f limbs_val_def prod.case unat_and_mask26 y1 ..
  then show "limbs_val (full_carry h) mod poly_prime = limbs_val h mod poly_prime"
    using full_carry_chain [OF x2 x3 x4 x0] by (simp add: limbs_val_def h)
qed

lemma reduced_less: "reduced h \<Longrightarrow> limbs_val h < 2 ^ 130"
  by (cases h) (auto simp: reduced_def limbs_val_def)

lemma select_chain:
  fixes h0 :: nat
  assumes "x0 = h0 + 5" "x1 = h1 + x0 div 2 ^ 26" "x2 = h2 + x1 div 2 ^ 26" "x3 = h3 + x2 div 2 ^ 26" "x4 = h4 + x3 div 2 ^ 26"
  shows "h0 + 2 ^ 26 * h1 + 2 ^ 52 * h2 + 2 ^ 78 * h3 + 2 ^ 104 * h4 + 5 =
    x0 mod 2 ^ 26 + 2 ^ 26 * (x1 mod 2 ^ 26) + 2 ^ 52 * (x2 mod 2 ^ 26) + 2 ^ 78 * (x3 mod 2 ^ 26) + 2 ^ 104 * x4"
proof -
  have s: "a = a mod 2 ^ 26 + 2 ^ 26 * (a div 2 ^ 26)" for a :: nat by simp
  define c0 c1 c2 c3 m0 m1 m2 m3 where q: "c0 = x0 div 2 ^ 26" "c1 = x1 div 2 ^ 26" "c2 = x2 div 2 ^ 26" "c3 = x3 div 2 ^ 26"
    "m0 = x0 mod 2 ^ 26" "m1 = x1 mod 2 ^ 26" "m2 = x2 mod 2 ^ 26" "m3 = x3 mod 2 ^ 26"
  have "x0 = m0 + 2 ^ 26 * c0" "x1 = m1 + 2 ^ 26 * c1" "x2 = m2 + 2 ^ 26 * c2" "x3 = m3 + 2 ^ 26 * c3"
    unfolding q by (rule s)+
  moreover have "x0 = h0 + 5" "x1 = h1 + c0" "x2 = h2 + c1" "x3 = h3 + c2" "x4 = h4 + c3" using assms by (simp_all only: q)
  ultimately show ?thesis unfolding q(5-8) [symmetric] by simp
qed

text \<open>The comparison with the prime, from the sign of the highest limb.\<close>

lemma sign_mask:
  assumes "unat a < 2 ^ 27"
  shows "drop_bit 31 (a - 0x4000000 :: u32) - 1 = (if unat a < 2 ^ 26 then 0 else - 1)"
    "2 ^ 26 \<le> unat a \<Longrightarrow> unat (a - 0x4000000) = unat a - 2 ^ 26"
proof -
  show u: "unat (a - 0x4000000) = unat a - 2 ^ 26" if "2 ^ 26 \<le> unat a"
    using that by (simp add: unat_sub word_le_nat_alt)
  show "drop_bit 31 (a - 0x4000000 :: u32) - 1 = (if unat a < 2 ^ 26 then 0 else - 1)"
  proof (cases "unat a < 2 ^ 26")
    case True
    have "unat (a - 0x4000000) = 2 ^ 32 - 2 ^ 26 + unat a"
      using True by (simp add: unat_sub_if' word_le_nat_alt)
    then have "unat (drop_bit 31 (a - 0x4000000)) = 1" using True by (simp add: unat_drop)
    then have "drop_bit 31 (a - 0x4000000) = 1" by (simp add: word_unat_eq_iff)
    then show ?thesis using True by simp
  next
    case False
    then have "unat (drop_bit 31 (a - 0x4000000)) = 0" using u assms by (simp add: unat_drop)
    then have "drop_bit 31 (a - 0x4000000) = 0" by (simp add: unat_eq_0)
    then show ?thesis using False by simp
  qed
qed

lemma select_reduced_val:
  assumes "reduced h"
  shows "limbs_val (select_reduced h) = limbs_val h mod poly_prime" "reduced (select_reduced h)"
proof -
  obtain h0 h1 h2 h3 h4 where h: "h = (h0, h1, h2, h3, h4)" by (cases h)
  have b: "unat h0 < 2 ^ 26" "unat h1 < 2 ^ 26" "unat h2 < 2 ^ 26" "unat h3 < 2 ^ 26" "unat h4 < 2 ^ 26"
    using assms by (simp_all add: reduced_def h)
  define x0 where "x0 = h0 + 5"
  define x1 where "x1 = h1 + drop_bit 26 x0"
  define x2 where "x2 = h2 + drop_bit 26 x1"
  define x3 where "x3 = h3 + drop_bit 26 x2"
  define x4 where "x4 = h4 + drop_bit 26 x3"
  have x0: "unat x0 = unat h0 + 5" using b(1) by (simp add: x0_def unat_add_u32)
  have c0: "unat x0 div 2 ^ 26 \<le> 1" using carry_small(2) [of "unat h0" 1] b(1) by (simp add: x0)
  have x1: "unat x1 = unat h1 + unat x0 div 2 ^ 26" using b(2) c0 by (simp add: x1_def unat_add_u32 unat_drop)
  have c1: "unat x1 div 2 ^ 26 \<le> 1" using carry_small(1) [OF b(2) c0] c0 unfolding x1 by linarith
  have x2: "unat x2 = unat h2 + unat x1 div 2 ^ 26" using b(3) c1 by (simp add: x2_def unat_add_u32 unat_drop)
  have c2: "unat x2 div 2 ^ 26 \<le> 1" using carry_small(1) [OF b(3) c1] c1 unfolding x2 by linarith
  have x3: "unat x3 = unat h3 + unat x2 div 2 ^ 26" using b(4) c2 by (simp add: x3_def unat_add_u32 unat_drop)
  have c3: "unat x3 div 2 ^ 26 \<le> 1" using carry_small(1) [OF b(4) c2] c2 unfolding x3 by linarith
  have x4: "unat x4 = unat h4 + unat x3 div 2 ^ 26" "unat x4 < 2 ^ 27" using b(5) c3 by (simp_all add: x4_def unat_add_u32 unat_drop)
  let ?m = "drop_bit 31 (x4 - 0x4000000) - 1"
  have sel: "select_reduced h = ((h0 AND NOT ?m) OR ((x0 AND 0x3ffffff) AND ?m), (h1 AND NOT ?m) OR ((x1 AND 0x3ffffff) AND ?m),
      (h2 AND NOT ?m) OR ((x2 AND 0x3ffffff) AND ?m), (h3 AND NOT ?m) OR ((x3 AND 0x3ffffff) AND ?m), (h4 AND NOT ?m) OR ((x4 - 0x4000000) AND ?m))"
    by (simp only: select_reduced_def h prod.case Let_def x4_def x3_def x2_def x1_def x0_def)
  define G where "G = unat x0 mod 2 ^ 26 + 2 ^ 26 * (unat x1 mod 2 ^ 26) + 2 ^ 52 * (unat x2 mod 2 ^ 26) + 2 ^ 78 * (unat x3 mod 2 ^ 26)"
  have chain: "limbs_val h + 5 = G + 2 ^ 104 * unat x4"
    using select_chain [OF x0 x1 x2 x3 x4(1)] by (simp only: limbs_val_def h prod.case G_def)
  have small: "a mod 67108864 \<le> 67108863" for a :: nat
  proof -
    have "a mod 67108864 < 67108864" by simp
    then show ?thesis by linarith
  qed
  have G: "G < 2 ^ 104"
    unfolding G_def using small [of "unat x0"] small [of "unat x1"] small [of "unat x2"] small [of "unat x3"] by simp
  have prime: "poly_prime + 5 = 2 ^ 130" by (simp add: poly_prime_def)
  show "limbs_val (select_reduced h) = limbs_val h mod poly_prime"
  proof (cases "unat x4 < 2 ^ 26")
    case True
    then have "?m = 0" using sign_mask(1) [OF x4(2)] by simp
    then have "select_reduced h = h" unfolding sel by (simp add: h)
    moreover have "limbs_val h < poly_prime" using chain G True prime by simp
    ultimately show ?thesis by simp
  next
    case False
    then have m: "?m = - 1" using sign_mask(1) [OF x4(2)] by simp
    have v: "limbs_val (select_reduced h) = G + 2 ^ 104 * (unat x4 - 2 ^ 26)"
      unfolding sel m limbs_val_def prod.case G_def using False sign_mask(2) [OF x4(2)] by (simp add: unat_and_mask26)
    have "2 ^ 104 * unat x4 = 2 ^ 104 * (unat x4 - 2 ^ 26) + 2 ^ 130" using False by (simp add: diff_mult_distrib2)
    then have "limbs_val h = limbs_val (select_reduced h) + poly_prime" using chain prime v by linarith
    moreover have "limbs_val h < 2 ^ 130" by (rule reduced_less [OF assms])
    ultimately have "limbs_val (select_reduced h) < poly_prime" using prime by (simp add: poly_prime_def)
    then show ?thesis using \<open>limbs_val h = limbs_val (select_reduced h) + poly_prime\<close> by simp
  qed
  show "reduced (select_reduced h)"
  proof (cases "unat x4 < 2 ^ 26")
    case True
    then have "?m = 0" using sign_mask(1) [OF x4(2)] by simp
    then have "select_reduced h = h" unfolding sel by (simp add: h)
    then show ?thesis using assms by simp
  next
    case False
    then have m: "?m = - 1" using sign_mask(1) [OF x4(2)] by simp
    show ?thesis unfolding sel m reduced_def prod.case using False sign_mask(2) [OF x4(2)] x4(2) by (simp add: unat_and_mask26)
  qed
qed

definition words_val :: "u32 \<times> u32 \<times> u32 \<times> u32 \<Rightarrow> nat" where
  "words_val w = (case w of (w0, w1, w2, w3) \<Rightarrow> unat w0 + 2 ^ 32 * unat w1 + 2 ^ 64 * unat w2 + 2 ^ 96 * unat w3)"

lemma words_val_less: "words_val w < 2 ^ 128"
proof (cases w)
  case (fields w0 w1 w2 w3)
  then show ?thesis using unat_u32_less [of w0] unat_u32_less [of w1] unat_u32_less [of w2] unat_u32_less [of w3]
    by (simp add: words_val_def)
qed

lemma unat_or_push:
  fixes a b :: u32
  assumes "unat a < 2 ^ k" "k \<le> 32"
  shows "unat ((a OR push_bit k b) AND 0xffffffff) = unat a + 2 ^ k * (unat b mod 2 ^ (32 - k))"
proof -
  have all: "w AND 0xffffffff = w" for w :: u32
  proof -
    have "(0xffffffff :: u32) = - 1" by simp
    then show ?thesis by (metis and.right_neutral)
  qed
  have "unat (push_bit k b) = take_bit 32 (push_bit k (unat b))" by (subst unsigned_push_bit_eq) simp
  also have "\<dots> = push_bit k (take_bit (32 - k) (unat b))" using assms(2) by (simp add: take_bit_push_bit)
  finally have "unat (a OR push_bit k b) = unat a OR push_bit k (take_bit (32 - k) (unat b))" by (simp only: unsigned_or_eq)
  then show ?thesis using assms(1) by (simp only: all or_push_bit_nat) (simp add: push_bit_eq_mult take_bit_eq_mod mult.commute)
qed

lemma pack_limbs_val:
  assumes "reduced h"
  shows "words_val (pack_limbs h) = limbs_val h mod 2 ^ 128"
proof -
  obtain h0 h1 h2 h3 h4 where h: "h = (h0, h1, h2, h3, h4)" by (cases h)
  have b: "unat h0 < 2 ^ 26" "unat (drop_bit 6 h1) < 2 ^ 20" "unat (drop_bit 12 h2) < 2 ^ 14" "unat (drop_bit 18 h3) < 2 ^ 8"
    using assms by (simp_all add: reduced_def h unat_drop div_less_iff_less_mult)
  define a1 b1 a2 b2 a3 b3 a4 b4 where q: "a1 = unat h1 mod 2 ^ 6" "b1 = unat h1 div 2 ^ 6" "a2 = unat h2 mod 2 ^ 12" "b2 = unat h2 div 2 ^ 12"
    "a3 = unat h3 mod 2 ^ 18" "b3 = unat h3 div 2 ^ 18" "a4 = unat h4 mod 2 ^ 24" "b4 = unat h4 div 2 ^ 24"
  have s: "a = a mod 2 ^ k + 2 ^ k * (a div 2 ^ k)" for a k :: nat by simp
  have h': "unat h1 = a1 + 2 ^ 6 * b1" "unat h2 = a2 + 2 ^ 12 * b2" "unat h3 = a3 + 2 ^ 18 * b3" "unat h4 = a4 + 2 ^ 24 * b4"
    unfolding q by (rule s)+
  have p: "words_val (pack_limbs h) = (unat h0 + 2 ^ 26 * a1) + 2 ^ 32 * (b1 + 2 ^ 20 * a2) + 2 ^ 64 * (b2 + 2 ^ 14 * a3) + 2 ^ 96 * (b3 + 2 ^ 8 * a4)"
    unfolding words_val_def pack_limbs_def h prod.case q
    using b by (simp only: unat_or_push) (simp add: unat_drop)
  have "limbs_val h = words_val (pack_limbs h) + 2 ^ 128 * b4"
    using p unfolding limbs_val_def h prod.case h' by simp
  then show ?thesis using words_val_less [of "pack_limbs h"] by simp
qed

lemma add_pad_val: "words_val (add_pad h p) = (words_val h + words_val p) mod 2 ^ 128"
proof -
  obtain h0 h1 h2 h3 where h: "h = (h0, h1, h2, h3)" by (cases h)
  obtain p0 p1 p2 p3 where p: "p = (p0, p1, p2, p3)" by (cases p)
  define f0 where "f0 = wide h0 + wide p0"
  define f1 where "f1 = wide h1 + wide p1 + drop_bit 32 f0"
  define f2 where "f2 = wide h2 + wide p2 + drop_bit 32 f1"
  define f3 where "f3 = wide h3 + wide p3 + drop_bit 32 f2"
  have u: "unat (wide a + wide b + c) = unat a + unat b + unat c" if "unat c < 2 ^ 32" for a b c
    using that unat_u32_less [of a] unat_u32_less [of b] by (simp add: unat_word_ariths)
  have d: "unat (drop_bit 32 f) = unat f div 2 ^ 32" "unat (drop_bit 32 f) < 2 ^ 32" for f :: u64
    using unsigned_less [where ?'a = nat, of f] by (simp_all add: unat_drop div_less_iff_less_mult)
  have f: "unat f0 = unat h0 + unat p0" "unat f1 = unat h1 + unat p1 + unat f0 div 2 ^ 32"
    "unat f2 = unat h2 + unat p2 + unat f1 div 2 ^ 32" "unat f3 = unat h3 + unat p3 + unat f2 div 2 ^ 32"
    using u [of 0 h0 p0] u [OF d(2) [of f0], of h1 p1] u [OF d(2) [of f1], of h2 p2] u [OF d(2) [of f2], of h3 p3]
    by (simp_all add: f0_def f1_def f2_def f3_def d(1))
  have low: "unat (ucast f :: u32) = unat f mod 2 ^ 32" for f :: u64 by (simp add: unsigned_ucast_eq take_bit_eq_mod)
  have a: "add_pad h p = (ucast f0, ucast f1, ucast f2, ucast f3)"
    by (simp only: add_pad_def h p prod.case Let_def f0_def f1_def f2_def f3_def)
  define c0 c1 c2 c3 m0 m1 m2 m3 where q: "c0 = unat f0 div 2 ^ 32" "c1 = unat f1 div 2 ^ 32" "c2 = unat f2 div 2 ^ 32" "c3 = unat f3 div 2 ^ 32"
    "m0 = unat f0 mod 2 ^ 32" "m1 = unat f1 mod 2 ^ 32" "m2 = unat f2 mod 2 ^ 32" "m3 = unat f3 mod 2 ^ 32"
  have s: "a = a mod 2 ^ 32 + 2 ^ 32 * (a div 2 ^ 32)" for a :: nat by simp
  have "unat f0 = m0 + 2 ^ 32 * c0" "unat f1 = m1 + 2 ^ 32 * c1" "unat f2 = m2 + 2 ^ 32 * c2" "unat f3 = m3 + 2 ^ 32 * c3"
    unfolding q by (rule s)+
  moreover have "words_val (add_pad h p) = m0 + 2 ^ 32 * m1 + 2 ^ 64 * m2 + 2 ^ 96 * m3"
    unfolding a words_val_def prod.case low q ..
  ultimately have "words_val h + words_val p = words_val (add_pad h p) + 2 ^ 128 * c3"
    using f [folded q] by (simp add: words_val_def h p)
  then show ?thesis using words_val_less [of "add_pad h p"] by simp
qed

section \<open>The message authentication code\<close>

text \<open>The reference: the message, cut into blocks of sixteen bytes each marked with a final one, is a
  polynomial evaluated at the clamped key.\<close>

fun poly_eval :: "nat \<Rightarrow> nat \<Rightarrow> bytes \<Rightarrow> nat" where
  "poly_eval r acc m =
     (if m = [] then acc else poly_eval r ((acc + le_num (take 16 m @ [1])) * r mod poly_prime) (drop 16 m))"

declare poly_eval.simps [simp del] poly_blocks.simps [simp del]

definition clamp :: "nat \<Rightarrow> nat" where
  "clamp r = r AND 0x0ffffffc0ffffffc0ffffffc0fffffff"

fun le_bytes :: "nat \<Rightarrow> nat \<Rightarrow> bytes" where
  "le_bytes 0 n = []"
| "le_bytes (Suc k) n = word_of_nat n # le_bytes k (n div 256)"

definition poly1305_spec :: "bytes \<Rightarrow> bytes \<Rightarrow> bytes" where
  "poly1305_spec key m =
     le_bytes 16 ((poly_eval (clamp (le_num (take 16 key))) 0 m + le_num (drop 16 key)) mod 2 ^ 128)"

lemma poly_eval_Nil [simp]: "poly_eval r acc [] = acc"
  by (simp add: poly_eval.simps)

lemma poly_eval_block:
  "length b = 16 \<Longrightarrow> poly_eval r acc (b @ m) = poly_eval r ((acc + le_num b + 2 ^ 128) * r mod poly_prime) m"
  by (subst poly_eval.simps) (auto simp: le_num_append add.assoc)

lemma poly_eval_last:
  "b \<noteq> [] \<Longrightarrow> length b \<le> 16 \<Longrightarrow> poly_eval r acc b = (acc + le_num (b @ [1])) * r mod poly_prime"
  by (subst poly_eval.simps) simp

lemma poly_eval_append:
  "16 dvd length m \<Longrightarrow> poly_eval r acc (m @ x) = poly_eval r (poly_eval r acc m) x"
proof (induction r acc m arbitrary: x rule: poly_eval.induct)
  case (1 r acc m)
  show ?case
  proof (cases "m = []")
    case False
    then have len: "16 \<le> length m" using "1.prems" by (simp add: dvd_imp_le)
    then have d: "16 dvd length (drop 16 m)" using "1.prems" by (simp add: dvd_diff_nat)
    have "poly_eval r acc (m @ x) = poly_eval r ((acc + le_num (take 16 m @ [1])) * r mod poly_prime) (drop 16 m @ x)"
      using False len by (subst poly_eval.simps) simp
    also have "\<dots> = poly_eval r (poly_eval r ((acc + le_num (take 16 m @ [1])) * r mod poly_prime) (drop 16 m)) x"
      by (rule "1.IH" [OF False d])
    also have "poly_eval r ((acc + le_num (take 16 m @ [1])) * r mod poly_prime) (drop 16 m) = poly_eval r acc m"
      using False by (subst (2) poly_eval.simps) simp
    finally show ?thesis .
  qed simp
qed

lemma poly_block_val:
  assumes "key_ok (po_r p)" "acc_ok (po_h p)" "length m = 16"
  shows "limbs_val (po_h (poly_block m p)) mod poly_prime =
      (limbs_val (po_h p) + le_num m + (if po_finalized p then 0 else 2 ^ 128)) * limbs_val (po_r p) mod poly_prime"
    "acc_ok (po_h (poly_block m p))"
proof -
  let ?b = "if po_finalized p then 0 else 0x1000000 :: u32"
  note a = add_message_val [OF assms(2,3) refl, of "po_finalized p"]
  note m = multiply_val [OF assms(1) a(2)]
  note r = partial_reduce_val [OF m(2)]
  show "acc_ok (po_h (poly_block m p))" using r(2) by (simp add: poly_block_def)
  show "limbs_val (po_h (poly_block m p)) mod poly_prime =
      (limbs_val (po_h p) + le_num m + (if po_finalized p then 0 else 2 ^ 128)) * limbs_val (po_r p) mod poly_prime"
    using r(1) m(1) a(1) by (simp add: poly_block_def)
qed

lemma poly_block_fields [simp]:
  "po_r (poly_block m p) = po_r p" "po_pad (poly_block m p) = po_pad p" "po_leftover (poly_block m p) = po_leftover p"
  "po_buffer (poly_block m p) = po_buffer p" "po_finalized (poly_block m p) = po_finalized p"
  by (simp_all add: poly_block_def)

lemma poly_block_leftover: "poly_block b (p\<lparr>po_leftover := k\<rparr>) = (poly_block b p)\<lparr>po_leftover := k\<rparr>"
  by (simp add: poly_block_def)

text \<open>A state that has taken in the bytes \<open>d\<close>: the full blocks are in the accumulator, the rest is buffered.\<close>

definition absorbed :: "limbs \<Rightarrow> u32 \<times> u32 \<times> u32 \<times> u32 \<Rightarrow> bytes \<Rightarrow> Poly1305 \<Rightarrow> bool" where
  "absorbed r pad d p \<longleftrightarrow> key_ok r \<and> po_r p = r \<and> po_pad p = pad \<and> \<not> po_finalized p \<and> length (po_buffer p) = 16 \<and> acc_ok (po_h p) \<and>
     po_leftover p < 16 \<and> (\<exists>blocks. 16 dvd length blocks \<and> d = blocks @ take (po_leftover p) (po_buffer p) \<and>
       limbs_val (po_h p) mod poly_prime = poly_eval (limbs_val r) 0 blocks mod poly_prime)"

lemma absorb_block:
  assumes "absorbed r pad d p" "po_leftover p = 0" "length b = 16"
  shows "absorbed r pad (d @ b) (poly_block b p)"
proof -
  have p: "key_ok (po_r p)" "acc_ok (po_h p)" "po_r p = r" "\<not> po_finalized p" "16 dvd length d"
    "limbs_val (po_h p) mod poly_prime = poly_eval (limbs_val r) 0 d mod poly_prime"
    using assms(1,2) by (auto simp: absorbed_def)
  note v = poly_block_val [OF p(1,2) assms(3)]
  have "limbs_val (po_h (poly_block b p)) mod poly_prime = (poly_eval (limbs_val r) 0 d + le_num b + 2 ^ 128) * limbs_val r mod poly_prime"
    using v(1) p(3,4,6) by (simp add: add.assoc) (metis mod_add_left_eq mod_mult_left_eq)
  then have "limbs_val (po_h (poly_block b p)) mod poly_prime = poly_eval (limbs_val r) 0 (d @ b) mod poly_prime"
    using p(5) assms(3) poly_eval_block [of b "limbs_val r" _ "[]"] by (simp add: poly_eval_append)
  moreover have "16 dvd length (d @ b)" using p(5) assms(3) by simp
  ultimately show ?thesis using assms v(2) unfolding absorbed_def by (intro conjI exI [of _ "d @ b"]) auto
qed

lemma absorb_blocks:
  assumes "absorbed r pad d p" "po_leftover p = 0" "poly_blocks m p = (p', rest)"
  shows "\<exists>d'. absorbed r pad d' p' \<and> po_leftover p' = 0 \<and> d @ m = d' @ rest \<and> length rest < 16"
  using assms
proof (induction m p arbitrary: d rule: poly_blocks.induct)
  case (1 m p)
  show ?case
  proof (cases "16 \<le> length m")
    case True
    then have len: "length (take 16 m) = 16" by simp
    have "poly_blocks (drop 16 m) (poly_block (take 16 m) p) = (p', rest)"
      using "1.prems"(3) True by (simp add: poly_blocks.simps [of m])
    from "1.IH" [OF True absorb_block [OF "1.prems"(1,2) len] _ this] "1.prems"(2)
    show ?thesis by (metis append.assoc append_take_drop_id poly_block_fields(3))
  next
    case False
    then show ?thesis using "1.prems" by (auto simp: poly_blocks.simps [of m])
  qed
qed

lemma absorb_rest:
  assumes "absorbed r pad d p" "po_leftover p = 0" "length rest < 16"
  shows "absorbed r pad (d @ rest) (p\<lparr>po_buffer := overwrite 0 rest (po_buffer p), po_leftover := length rest\<rparr>)"
  using assms by (auto simp: absorbed_def overwrite_def)

lemma absorb_input:
  assumes "absorbed r pad d p"
  shows "\<exists>p'. poly_input m p = Ok p' \<and> absorbed r pad (d @ m) p'"
proof -
  define l want where "l = po_leftover p" and "want = min (16 - po_leftover p) (length m)"
  define p1 where "p1 = p\<lparr>po_buffer := overwrite l (take want m) (po_buffer p), po_leftover := l + want\<rparr>"
  have l: "l < 16" "length (po_buffer p) = 16" "\<not> po_finalized p" using assms by (simp_all add: absorbed_def l_def)
  have tail: "\<exists>p'. (case poly_blocks x q of (p2, rest) \<Rightarrow>
      Ok (p2\<lparr>po_buffer := overwrite 0 rest (po_buffer p2), po_leftover := length rest\<rparr>)) = (Ok p' :: (unit, Poly1305) outcome) \<and> absorbed r pad (e @ x) p'"
    if q: "absorbed r pad e q" "po_leftover q = 0" for e q x
  proof (cases "poly_blocks x q")
    case (Pair p2 rest)
    then obtain e' where e': "absorbed r pad e' p2" "po_leftover p2 = 0" "e @ x = e' @ rest" "length rest < 16"
      using absorb_blocks [OF q Pair] by blast
    show ?thesis using absorb_rest [OF e'(1,2,4)] Pair e'(3) by simp
  qed
  show ?thesis
  proof (cases "l = 0")
    case True
    then show ?thesis using tail [OF assms] l(3) by (simp add: poly_input_def l_def Let_def)
  next
    case False
    have w: "want = min (16 - l) (length m)" by (simp add: want_def l_def)
    have buf: "take (l + want) (overwrite l (take want m) (po_buffer p)) = take l (po_buffer p) @ take want m"
      "length (overwrite l (take want m) (po_buffer p)) = 16"
      using l w by (simp_all add: overwrite_def)
    obtain blocks where bl: "16 dvd length blocks" "d = blocks @ take l (po_buffer p)"
      "limbs_val (po_h p) mod poly_prime = poly_eval (limbs_val r) 0 blocks mod poly_prime"
      using assms by (auto simp: absorbed_def l_def)
    show ?thesis
    proof (cases "l + want < 16")
      case True
      then have wl: "want = length m" "po_leftover p + length m < 16" using w l(1) by (simp_all add: l_def)
      then have "absorbed r pad (d @ m) p1"
        using assms bl True buf unfolding absorbed_def p1_def l_def by (auto intro!: exI [of _ blocks])
      moreover have "poly_input m p = Ok p1"
        using False wl l(3) by (simp add: poly_input_def Let_def p1_def l_def)
      ultimately show ?thesis by blast
    next
      case full: False
      then have "l + want = 16" using w l(1) by simp
      then have b16: "po_buffer p1 = take l (po_buffer p) @ take want m" "length (po_buffer p1) = 16"
        using buf by (simp_all add: p1_def)
      have "absorbed r pad blocks (p1\<lparr>po_leftover := 0\<rparr>)"
        using assms bl b16(2) unfolding absorbed_def p1_def l_def by auto
      from absorb_block [OF this _ b16(2)]
      have "absorbed r pad (d @ take want m) ((poly_block (po_buffer p1) p1)\<lparr>po_leftover := 0\<rparr>)"
        using bl(2) b16(1) by (simp add: poly_block_leftover)
      from tail [OF this, of "drop want m"] show ?thesis
        using False full l \<open>l + want = 16\<close> by (simp add: poly_input_def Let_def p1_def l_def want_def)
    qed
  qed
qed

section \<open>Start and end\<close>

lemma clamp_limb:
  fixes N C :: nat
  shows "(N AND C) div 2 ^ k mod 2 ^ 26 = (N div 2 ^ k mod 2 ^ 26) AND (C div 2 ^ k mod 2 ^ 26)"
  by (simp only: take_bit_eq_mod [symmetric] drop_bit_eq_div [symmetric] drop_bit_and take_bit_and)

lemma word_sum:
  fixes N :: nat
  shows "N mod 2 ^ 32 + 2 ^ 32 * (N div 2 ^ 32 mod 2 ^ 32) + 2 ^ 64 * (N div 2 ^ 64 mod 2 ^ 32) + 2 ^ 96 * (N div 2 ^ 96) = N"
proof -
  have d: "N div 2 ^ (k + 32) = N div 2 ^ k div 2 ^ 32" for k by (simp add: power_add div_mult2_eq)
  have s: "2 ^ k * (x mod 2 ^ 32) + 2 ^ (k + 32) * (x div 2 ^ 32) = 2 ^ k * x" for k and x :: nat
    by (simp only: power_add mult.assoc distrib_left [symmetric]) simp
  show ?thesis
    using s [of 32 "N div 2 ^ 32"] s [of 64 "N div 2 ^ 64"] d [of 32] d [of 64]
    by simp (use mod_mult_div_eq [of N 4294967296] in linarith)
qed

lemma clamped_key:
  assumes "length key = 32" "poly_new key = Ok p"
  shows "limbs_val (po_r p) = clamp (le_num (take 16 key))" "key_ok (po_r p)" "words_val (po_pad p) = le_num (drop 16 key)"
proof -
  define m where "m = take 16 key"
  define N where "N = le_num m"
  let ?C = "0x0ffffffc0ffffffc0ffffffc0fffffff :: nat"
  have len: "length m = 16" using assms(1) by (simp add: m_def)
  have at: "le32_at key i = le32_at m i" if "i \<le> 12" for i
    using that by (simp add: le32_at_def m_def drop_take min_def)
  note l = message_limbs [OF len, folded N_def]
  have c: "unat (w AND 0x3ffff03) = unat (w AND 0x3ffffff) AND 0x3ffff03" "unat (w AND 0x3ffc0ff) = unat (w AND 0x3ffffff) AND 0x3ffc0ff"
    "unat (w AND 0x3f03fff) = unat (w AND 0x3ffffff) AND 0x3f03fff" for w :: u32
    by (simp_all add: unsigned_and_eq and.assoc)
  have cc: "?C mod 2 ^ 26 = 0x3ffffff" "?C div 2 ^ 26 mod 2 ^ 26 = 0x3ffff03" "?C div 2 ^ 52 mod 2 ^ 26 = 0x3ffc0ff" "?C div 2 ^ 78 mod 2 ^ 26 = 0x3f03fff"
    by simp_all
  have r: "po_r p = (le32_at m 0 AND 0x3ffffff, drop_bit 2 (le32_at m 3) AND 0x3ffff03, drop_bit 4 (le32_at m 6) AND 0x3ffc0ff,
      drop_bit 6 (le32_at m 9) AND 0x3f03fff, drop_bit 8 (le32_at m 12) AND 0x00fffff)"
    and pad: "po_pad p = (le32_at key 16, le32_at key 20, le32_at key 24, le32_at key 28)"
    using assms by (auto simp: poly_new_def at)
  have top: "(N AND ?C) div 2 ^ 104 = (N div 2 ^ 104) AND 0xfffff"
  proof -
    have "drop_bit 104 (N AND ?C) = drop_bit 104 N AND drop_bit 104 ?C" by (rule drop_bit_and)
    then show ?thesis by (simp add: drop_bit_eq_div)
  qed
  have u: "unat (le32_at m 0 AND 0x3ffffff) = (N AND ?C) mod 2 ^ 26"
    "unat (drop_bit 2 (le32_at m 3) AND 0x3ffff03) = (N AND ?C) div 2 ^ 26 mod 2 ^ 26"
    "unat (drop_bit 4 (le32_at m 6) AND 0x3ffc0ff) = (N AND ?C) div 2 ^ 52 mod 2 ^ 26"
    "unat (drop_bit 6 (le32_at m 9) AND 0x3f03fff) = (N AND ?C) div 2 ^ 78 mod 2 ^ 26"
    "unat (drop_bit 8 (le32_at m 12) AND 0x00fffff) = (N AND ?C) div 2 ^ 104"
  proof -
    have low: "x mod 2 ^ 26 AND 0x3ffffff = x mod 2 ^ 26" for x :: nat
      by (simp only: take_bit_eq_mod [symmetric]) (simp add: take_bit_eq_mask mask_eq_exp_minus_1 and.assoc)
    show "unat (le32_at m 0 AND 0x3ffffff) = (N AND ?C) mod 2 ^ 26" using clamp_limb [of N ?C 0] by (simp only: l(1) cc low power_0 div_by_1)
    show "unat (drop_bit 2 (le32_at m 3) AND 0x3ffff03) = (N AND ?C) div 2 ^ 26 mod 2 ^ 26" by (simp only: c l clamp_limb cc)
    show "unat (drop_bit 4 (le32_at m 6) AND 0x3ffc0ff) = (N AND ?C) div 2 ^ 52 mod 2 ^ 26" by (simp only: c l clamp_limb cc)
    show "unat (drop_bit 6 (le32_at m 9) AND 0x3f03fff) = (N AND ?C) div 2 ^ 78 mod 2 ^ 26" by (simp only: c l clamp_limb cc)
    show "unat (drop_bit 8 (le32_at m 12) AND 0x00fffff) = (N AND ?C) div 2 ^ 104" by (simp only: unsigned_and_eq l top) simp
  qed
  have "limbs_val (po_r p) = N AND ?C"
    unfolding r limbs_val_def prod.case u by (rule limb_sum)
  then show "limbs_val (po_r p) = clamp (le_num (take 16 key))" by (simp add: clamp_def N_def m_def)
  have "(N div 2 ^ 104) AND 0xfffff < 2 ^ 20"
  proof -
    have "(N div 2 ^ 104) AND 0xfffff = take_bit 20 (N div 2 ^ 104)" by (simp add: take_bit_eq_mask mask_eq_exp_minus_1)
    then show ?thesis by (simp only: take_bit_nat_less_exp)
  qed
  then show "key_ok (po_r p)" unfolding r key_ok_def prod.case u top by simp
  define n where "n = drop 16 key"
  have n: "length n = 16" "le32_at key 16 = le32_at n 0" "le32_at key 20 = le32_at n 4" "le32_at key 24 = le32_at n 8" "le32_at key 28 = le32_at n 12"
    using assms(1) by (simp_all add: n_def le32_at_def add.commute)
  have N: "le_num n < 2 ^ 128" using le_num_bound [of n] n(1) by simp
  have "le_num n div 2 ^ 96 mod 2 ^ 32 = le_num n div 2 ^ 96" using N by (simp add: div_less_iff_less_mult)
  then show "words_val (po_pad p) = le_num (drop 16 key)"
    using word_sum [of "le_num n"] unfolding pad words_val_def prod.case n(2-) by (simp add: unat_le32_at n(1) flip: n_def)
qed

lemma full_value:
  assumes "acc_ok h"
  shows "words_val (add_pad (pack_limbs (select_reduced (full_carry h))) pad) = (limbs_val h mod poly_prime + words_val pad) mod 2 ^ 128"
  using full_carry_val [OF assms] select_reduced_val pack_limbs_val
  by (simp add: add_pad_val mod_add_left_eq)

lemma poly_new_absorbed:
  assumes "length key = 32"
  shows "\<exists>p. poly_new key = Ok p \<and> absorbed (po_r p) (po_pad p) [] p \<and> limbs_val (po_r p) = clamp (le_num (take 16 key)) \<and> words_val (po_pad p) = le_num (drop 16 key)"
proof -
  obtain p where p: "poly_new key = Ok p" using assms by (simp add: poly_new_def)
  then have "po_h p = (0, 0, 0, 0, 0)" "po_leftover p = 0" "length (po_buffer p) = 16" "\<not> po_finalized p" by (auto simp: poly_new_def split: if_splits)
  then have "absorbed (po_r p) (po_pad p) [] p"
    using clamped_key(2) [OF assms p] by (auto simp: absorbed_def acc_ok_def limbs_val_def)
  then show ?thesis using p clamped_key [OF assms p] by blast
qed

lemma absorbed_result:
  assumes "absorbed r pad d p"
  shows "\<exists>h0 h1 h2 h3 h4. po_h (poly_finish p) = (h0, h1, h2, h3, h4) \<and>
    words_val (h0, h1, h2, h3) = (poly_eval (limbs_val r) 0 d mod poly_prime + words_val pad) mod 2 ^ 128"
proof -
  let ?l = "po_leftover p"
  define b where "b = take ?l (po_buffer p) @ [1] @ replicate (15 - ?l) 0"
  define p1 where "p1 = (if ?l > 0 then poly_block b (p\<lparr>po_buffer := b, po_finalized := True\<rparr>) else p)"
  obtain blocks where bl: "16 dvd length blocks" "d = blocks @ take ?l (po_buffer p)"
      "limbs_val (po_h p) mod poly_prime = poly_eval (limbs_val r) 0 blocks mod poly_prime"
    and p: "key_ok r" "po_r p = r" "po_pad p = pad" "length (po_buffer p) = 16" "acc_ok (po_h p)" "?l < 16"
    using assms by (auto simp: absorbed_def)
  have fin: "poly_finish p = (case add_pad (pack_limbs (select_reduced (full_carry (po_h p1)))) (po_pad p1) of (h0, h1, h2, h3) \<Rightarrow>
      p1\<lparr>po_h := (h0, h1, h2, h3, snd (snd (snd (snd (po_h p1)))))\<rparr>)"
    by (simp only: poly_finish_def p1_def b_def Let_def)
  have "acc_ok (po_h p1) \<and> limbs_val (po_h p1) mod poly_prime = poly_eval (limbs_val r) 0 d mod poly_prime"
  proof (cases "?l = 0")
    case True
    then show ?thesis using bl p by (simp add: p1_def)
  next
    case False
    let ?q = "p\<lparr>po_buffer := b, po_finalized := True\<rparr>"
    have len: "length b = 16" using p by (simp add: b_def)
    have "key_ok (po_r ?q)" "acc_ok (po_h ?q)" using p by simp_all
    note v = poly_block_val [OF this len]
    have "le_num b = le_num (take ?l (po_buffer p) @ [1])" by (simp add: b_def le_num_append)
    moreover have "poly_eval (limbs_val r) 0 d = (poly_eval (limbs_val r) 0 blocks + le_num (take ?l (po_buffer p) @ [1])) * limbs_val r mod poly_prime"
      unfolding bl(2) poly_eval_append [OF bl(1)] using False p by (intro poly_eval_last) auto
    ultimately have "limbs_val (po_h (poly_block b ?q)) mod poly_prime = poly_eval (limbs_val r) 0 d mod poly_prime"
      using v(1) bl(3) p(2) by simp (metis mod_add_left_eq mod_mult_left_eq)
    then show ?thesis using v(2) False by (simp add: p1_def)
  qed
  moreover have "po_pad p1 = pad" using p by (simp add: p1_def)
  ultimately show ?thesis using full_value [of "po_h p1" pad] unfolding fin by (auto split: prod.splits)
qed

lemma le_bytes_le_num: "le_bytes (length xs) (le_num xs) = xs"
proof (induction xs)
  case (Cons b bs)
  have b: "unat b < 256" using unsigned_less [where ?'a = nat, of b] by simp
  have "unat (word_of_nat (unat b + 256 * le_num bs) :: u8) = unat b"
    using b by (simp only: unat_of_nat take_bit_eq_mod) simp
  then have "word_of_nat (unat b + 256 * le_num bs) = b" by (simp only: word_unat_eq_iff)
  moreover have "(unat b + 256 * le_num bs) div 256 = le_num bs" using b by simp
  ultimately show ?case using Cons by simp
qed simp

lemma le_num_u32: "le_num (u32_to_le_bytes w) = unat w" "length (u32_to_le_bytes w) = 4"
proof -
  define N where "N = unat w"
  have low: "unat (ucast x :: u8) = unat x mod 256" for x :: u32 by (simp add: unsigned_ucast_eq take_bit_eq_mod)
  have N: "N div 16777216 < 256" using unat_u32_less [of w] by (simp add: N_def div_less_iff_less_mult)
  have cut: "a mod 256 + 256 * (a div 256) = a" for a :: nat by simp
  have "N div 65536 = N div 256 div 256" "N div 16777216 = N div 65536 div 256" by (simp_all add: div_mult2_eq [symmetric])
  then have "N = N mod 256 + 256 * (N div 256 mod 256 + 256 * (N div 65536 mod 256 + 256 * (N div 16777216)))"
    using cut [of N] cut [of "N div 256"] cut [of "N div 65536"] by (simp only:)
  then show "le_num (u32_to_le_bytes w) = unat w"
    using N unfolding u32_to_le_bytes_def by (simp add: low unat_drop flip: N_def)
qed (simp add: u32_to_le_bytes_def)

lemma le_bytes_words: "le_bytes 16 (words_val (h0, h1, h2, h3)) = u32_to_le_bytes h0 @ u32_to_le_bytes h1 @ u32_to_le_bytes h2 @ u32_to_le_bytes h3"
proof -
  let ?b = "u32_to_le_bytes h0 @ u32_to_le_bytes h1 @ u32_to_le_bytes h2 @ u32_to_le_bytes h3"
  have "le_num ?b = words_val (h0, h1, h2, h3)" "length ?b = 16" by (simp_all add: le_num_append le_num_u32 words_val_def)
  then show ?thesis by (metis le_bytes_le_num)
qed

lemma poly_eval_less: "acc < poly_prime \<Longrightarrow> poly_eval r acc m < poly_prime"
proof (induction r acc m rule: poly_eval.induct)
  case (1 r acc m)
  then show ?case by (subst poly_eval.simps) (auto simp: poly_prime_def)
qed

lemma absorbed_mac:
  assumes "absorbed r pad d p"
  shows "fst (poly_raw_result p) = le_bytes 16 ((poly_eval (limbs_val r) 0 d + words_val pad) mod 2 ^ 128)"
proof -
  have "poly_eval (limbs_val r) 0 d mod poly_prime = poly_eval (limbs_val r) 0 d"
    using poly_eval_less [of 0 "limbs_val r" d] by (simp add: poly_prime_def)
  moreover obtain h0 h1 h2 h3 h4 where "po_h (poly_finish p) = (h0, h1, h2, h3, h4)"
    "words_val (h0, h1, h2, h3) = (poly_eval (limbs_val r) 0 d mod poly_prime + words_val pad) mod 2 ^ 128"
    using absorbed_result [OF assms] by blast
  moreover have "\<not> po_finalized p" using assms by (simp add: absorbed_def)
  ultimately show ?thesis using le_bytes_words [of h0 h1 h2 h3] by (simp only: poly_raw_result_def Let_def if_False prod.case fst_conv)
qed

fun poly_inputs :: "bytes list \<Rightarrow> Poly1305 \<Rightarrow> (unit, Poly1305) outcome" where
  "poly_inputs [] p = Ok p"
| "poly_inputs (m # ms) p = (case poly_input m p of Ok q \<Rightarrow> poly_inputs ms q | Err e \<Rightarrow> Err e | Panic \<Rightarrow> Panic)"

lemma absorb_inputs:
  "absorbed r pad d p \<Longrightarrow> \<exists>q. poly_inputs ms p = Ok q \<and> absorbed r pad (d @ concat ms) q"
proof (induction ms arbitrary: d p)
  case (Cons m ms)
  obtain q where q: "poly_input m p = Ok q" "absorbed r pad (d @ m) q" using absorb_input [OF Cons.prems] by blast
  then show ?case using Cons.IH [OF q(2)] by simp
qed simp

text \<open>C28. The one-time authenticator computes the polynomial of its message: for every key of 32 bytes and every way of
  cutting a message into pieces, \<open>new\<close>, one \<open>input\<close> per piece and \<open>raw_result\<close> run without panicking, and the
  tag is the value of the message's blocks (each with its final one) as a polynomial at the clamped first half
  of the key, modulo \<open>2^130 - 5\<close>, plus the second half, modulo \<open>2^128\<close>. So the limb arithmetic never wraps and the
  buffering between pieces does not show.\<close>

theorem poly1305_correct:
  assumes "length key = 32"
  shows "\<exists>p q. poly_new key = Ok p \<and> poly_inputs ms p = Ok q \<and> fst (poly_raw_result q) = poly1305_spec key (concat ms)"
proof -
  obtain p where p: "poly_new key = Ok p" "absorbed (po_r p) (po_pad p) [] p"
    "limbs_val (po_r p) = clamp (le_num (take 16 key))" "words_val (po_pad p) = le_num (drop 16 key)"
    using poly_new_absorbed [OF assms] by blast
  then obtain q where q: "poly_inputs ms p = Ok q" "absorbed (po_r p) (po_pad p) (concat ms) q"
    using absorb_inputs [OF p(2), of ms] by auto
  show ?thesis using p q absorbed_mac [OF q(2)] by (simp add: poly1305_spec_def)
qed

theorem poly1305_correct_witness:
  "length (replicate 32 7 :: bytes) = 32 \<and>
   (\<exists>p q. poly_new (replicate 32 7) = Ok p \<and> poly_inputs [[1, 2, 3], replicate 20 9, []] p = Ok q \<and>
     fst (poly_raw_result q) = poly1305_spec (replicate 32 7) (concat [[1, 2, 3], replicate 20 9, []]))"
  using poly1305_correct [of "replicate 32 7" "[[1, 2, 3], replicate 20 9, []]"] by (simp only: length_replicate simp_thms)

end
