(* ===== verification/ChaChaPoly.thy ===== *)
theory ChaChaPoly
  imports Poly1305 Serialization
begin

text \<open>
  The authenticated cipher of \<open>lightning/src/util/chacha20poly1305rfc.rs\<close>: ChaCha20 for the text, Poly1305 keyed
  by the first keystream block for the tag, and the adapters that encrypt while writing and decrypt while
  reading. A failed \<open>assert!\<close> is \<open>Panic\<close>; \<open>debug_assert!\<close> is not part of a release build and is left out. Lengths of buffers are natural
  numbers; where the source converts them to \<open>u64\<close>, the model does.
\<close>

section \<open>Definitions\<close>

record ChaCha20Poly1305RFC =
  ap_cipher :: ChaCha20
  ap_mac :: Poly1305
  ap_finished :: bool
  ap_data_len :: nat
  ap_aad_len :: u64

definition u64_to_le_bytes :: "u64 \<Rightarrow> bytes" where
  "u64_to_le_bytes w = le_bytes 8 (unat w)"

definition pad_mac_16 :: "Poly1305 \<Rightarrow> nat \<Rightarrow> (unit, Poly1305) outcome" where
  "pad_mac_16 mac len = (if len mod 16 \<noteq> 0 then poly_input (replicate (16 - len mod 16) 0) mac else Ok mac)"

definition aead_new :: "bytes \<Rightarrow> bytes \<Rightarrow> bytes \<Rightarrow> (unit, ChaCha20Poly1305RFC) outcome" where
  "aead_new key nonce aad =
     (if \<not> (length key = 16 \<or> length key = 32) \<or> length nonce \<noteq> 12 then Panic
      else if take 4 nonce \<noteq> replicate 4 0 then Panic
      else and_then (chacha_new key (drop 4 nonce)) (\<lambda>cipher.
           and_then (process cipher (replicate 64 0)) (\<lambda>(cipher, mac_key).
           and_then (poly_new (take 32 mac_key)) (\<lambda>mac.
           and_then (poly_input aad mac) (\<lambda>mac.
           and_then (pad_mac_16 mac (length aad)) (\<lambda>mac.
             Ok \<lparr>ap_cipher = cipher, ap_mac = mac, ap_finished = False, ap_data_len = 0, ap_aad_len = word_of_nat (length aad)\<rparr>))))))"

definition close_mac :: "ChaCha20Poly1305RFC \<Rightarrow> (unit, ChaCha20Poly1305RFC \<times> bytes) outcome" where
  "close_mac a =
     and_then (pad_mac_16 (ap_mac a) (ap_data_len a)) (\<lambda>mac.
     and_then (poly_input (u64_to_le_bytes (ap_aad_len a)) mac) (\<lambda>mac.
     and_then (poly_input (u64_to_le_bytes (word_of_nat (ap_data_len a))) mac) (\<lambda>mac.
       let (tag, mac) = poly_raw_result mac in Ok (a\<lparr>ap_mac := mac, ap_finished := True\<rparr>, tag))))"

definition aead_encrypt :: "bytes \<Rightarrow> ChaCha20Poly1305RFC \<Rightarrow> (unit, ChaCha20Poly1305RFC \<times> bytes \<times> bytes) outcome" where
  "aead_encrypt input a =
     (if ap_finished a then Panic
      else and_then (process (ap_cipher a) input) (\<lambda>(cipher, output).
           and_then (poly_input output (ap_mac a)) (\<lambda>mac.
             map_ok (\<lambda>(a, tag). (a, output, tag))
               (close_mac (a\<lparr>ap_cipher := cipher, ap_data_len := ap_data_len a + length input, ap_mac := mac\<rparr>)))))"

definition encrypt_in_place :: "bytes \<Rightarrow> ChaCha20Poly1305RFC \<Rightarrow> (unit, ChaCha20Poly1305RFC \<times> bytes) outcome" where
  "encrypt_in_place input_output a =
     and_then (process_in_place (ap_cipher a) input_output) (\<lambda>(cipher, output).
       map_ok (\<lambda>mac. (a\<lparr>ap_cipher := cipher, ap_data_len := ap_data_len a + length input_output, ap_mac := mac\<rparr>, output))
         (poly_input output (ap_mac a)))"

definition finish_and_get_tag :: "ChaCha20Poly1305RFC \<Rightarrow> (unit, ChaCha20Poly1305RFC \<times> bytes) outcome" where
  "finish_and_get_tag a = close_mac a"

definition fixed_time_eq :: "bytes \<Rightarrow> bytes \<Rightarrow> (unit, bool) outcome" where
  "fixed_time_eq a b = (if length a = length b then Ok (a = b) else Panic)"

text \<open>\<open>decrypt\<close> fills its output only when the tag is right: the answer is the plaintext or \<open>None\<close>.\<close>

definition aead_decrypt :: "bytes \<Rightarrow> bytes \<Rightarrow> ChaCha20Poly1305RFC \<Rightarrow> (unit, ChaCha20Poly1305RFC \<times> bytes option) outcome" where
  "aead_decrypt input tag a =
     (if ap_finished a then Panic
      else and_then (poly_input input (ap_mac a)) (\<lambda>mac.
           and_then (close_mac (a\<lparr>ap_data_len := ap_data_len a + length input, ap_mac := mac\<rparr>)) (\<lambda>(a, calc_tag).
           and_then (fixed_time_eq calc_tag tag) (\<lambda>same.
             if same then map_ok (\<lambda>(cipher, output). (a\<lparr>ap_cipher := cipher\<rparr>, Some output)) (process (ap_cipher a) input)
             else Ok (a, None)))))"

definition decrypt_in_place :: "bytes \<Rightarrow> ChaCha20Poly1305RFC \<Rightarrow> (unit, ChaCha20Poly1305RFC \<times> bytes) outcome" where
  "decrypt_in_place input_output a =
     and_then (poly_input input_output (ap_mac a)) (\<lambda>mac.
       map_ok (\<lambda>(cipher, output). (a\<lparr>ap_mac := mac, ap_data_len := ap_data_len a + length input_output, ap_cipher := cipher\<rparr>, output))
         (process_in_place (ap_cipher a) input_output))"

definition finish_and_check_tag :: "bytes \<Rightarrow> ChaCha20Poly1305RFC \<Rightarrow> (unit, ChaCha20Poly1305RFC \<times> bool) outcome" where
  "finish_and_check_tag tag a =
     and_then (close_mac a) (\<lambda>(a, calc_tag). map_ok (\<lambda>same. (a, same)) (fixed_time_eq calc_tag tag))"

text \<open>
  The writing adapter encrypts what the value writes through a buffer of 8192 bytes; each \<open>write_all\<close> the value
  performs is one element of \<open>srcs\<close>. The reading adapter hands the value's reader the decrypted bytes; what the
  reader leaves unread is skipped in the reader below it, so it reaches neither the cipher nor the tag.
\<close>

function write_chunks :: "bytes \<Rightarrow> ChaCha20Poly1305RFC \<Rightarrow> (unit, ChaCha20Poly1305RFC \<times> bytes) outcome" where
  "write_chunks src a =
     (if src = [] then Ok (a, [])
      else and_then (encrypt_in_place (take 8192 src) a) (\<lambda>(a1, out).
             map_ok (\<lambda>(a2, rest). (a2, out @ rest)) (write_chunks (drop 8192 src) a1)))"
  by auto
termination by (relation "measure (\<lambda>(src, a). length src)") auto

fun write_all_chunks :: "bytes list \<Rightarrow> ChaCha20Poly1305RFC \<Rightarrow> (unit, ChaCha20Poly1305RFC \<times> bytes) outcome" where
  "write_all_chunks [] a = Ok (a, [])"
| "write_all_chunks (src # srcs) a =
     and_then (write_chunks src a) (\<lambda>(a1, out). map_ok (\<lambda>(a2, rest). (a2, out @ rest)) (write_all_chunks srcs a1))"

definition write_adapter :: "bytes \<Rightarrow> bytes list \<Rightarrow> (unit, bytes) outcome" where
  "write_adapter rho srcs =
     and_then (aead_new rho (replicate 12 0) []) (\<lambda>chacha.
     and_then (write_all_chunks srcs chacha) (\<lambda>(chacha, out).
       map_ok (\<lambda>(_, tag). out @ tag) (finish_and_get_tag chacha)))"

definition lift_panic :: "(unit, 'a) outcome \<Rightarrow> ('e, 'a) outcome" where
  "lift_panic r = (case r of Ok a \<Rightarrow> Ok a | _ \<Rightarrow> Panic)"

definition read_adapter :: "(bytes \<Rightarrow> 'a parsed) \<Rightarrow> bytes \<Rightarrow> bytes \<Rightarrow> (DecodeError, 'a) outcome" where
  "read_adapter reader secret r =
     (if length r < 16 then Err InvalidValue
      else and_then (lift_panic (aead_new secret (replicate 12 0) [])) (\<lambda>chacha.
           let s = take (length r - 16) r in
           and_then (lift_panic (process_in_place (ap_cipher chacha) s)) (\<lambda>(_, plain).
           and_then (reader plain) (\<lambda>(readable, unread).
           and_then (lift_panic (decrypt_in_place (take (length s - length unread) s) chacha)) (\<lambda>(chacha, _).
           and_then (lift_panic (finish_and_check_tag (drop (length r - 16) r) chacha)) (\<lambda>(_, valid).
             if valid then Ok readable else Err InvalidValue))))))"

declare write_chunks.simps [simp del]

section \<open>The reference\<close>

text \<open>What the tag covers: the associated data and the cipher text, each padded to sixteen bytes, and their lengths.\<close>

definition pad16 :: "bytes \<Rightarrow> bytes" where
  "pad16 m = m @ (if length m mod 16 = 0 then [] else replicate (16 - length m mod 16) 0)"

definition mac_data :: "bytes \<Rightarrow> bytes \<Rightarrow> bytes" where
  "mac_data aad ct = pad16 aad @ pad16 ct @ u64_to_le_bytes (word_of_nat (length aad)) @ u64_to_le_bytes (word_of_nat (length ct))"

text \<open>The first keystream block keys the tag; the cipher goes on after it.\<close>

definition aead_start :: "bytes \<Rightarrow> bytes \<Rightarrow> (unit, ChaCha20 \<times> bytes) outcome" where
  "aead_start key n = and_then (chacha_new key n) (\<lambda>c. process c (replicate 64 0))"

definition aead_max :: nat where "aead_max = 64 * (2 ^ 32 - 2)"

lemma aead_start_total:
  assumes "length key = 32" "length n = 8" "length xs \<le> aead_max"
  shows "\<exists>c otk c' ys. aead_start key n = Ok (c, otk) \<and> cc_ok c \<and> length otk = 64 \<and> process c xs = Ok (c', ys)"
proof -
  obtain c0 where c0: "chacha_new key n = Ok c0" "cc_ok c0" "budget c0 = 64 * (2 ^ 32 - 1)"
    using chacha_new_short_nonce [OF assms(1,2)] by blast
  have "length (replicate 64 0 @ xs) \<le> budget c0" using assms(3) by (simp add: c0(3) aead_max_def)
  then obtain r where "process c0 (replicate 64 0 @ xs) = Ok r" using process_total [OF c0(2)] by blast
  then obtain c otk c' ys where r: "process c0 (replicate 64 0) = Ok (c, otk)" "process c xs = Ok (c', ys)"
    by (auto simp: process_append [OF c0(2)] outcome_simps)
  then show ?thesis using c0 process_involution [OF r(1) c0(2)] by (auto simp: aead_start_def)
qed

section \<open>The state of a running computation\<close>

definition mac_at :: "bytes \<Rightarrow> bytes \<Rightarrow> Poly1305 \<Rightarrow> bool" where
  "mac_at k d m \<longleftrightarrow> (\<exists>r pad. absorbed r pad d m \<and> limbs_val r = clamp (le_num (take 16 k)) \<and> words_val pad = le_num (drop 16 k))"

lemma mac_new: "length k = 32 \<Longrightarrow> \<exists>m. poly_new k = Ok m \<and> mac_at k [] m"
  using poly_new_absorbed [of k] unfolding mac_at_def by blast

lemma mac_input: "mac_at k d m \<Longrightarrow> \<exists>m'. poly_input x m = Ok m' \<and> mac_at k (d @ x) m'"
  using absorb_input unfolding mac_at_def by blast

lemma mac_result: "mac_at k d m \<Longrightarrow> fst (poly_raw_result m) = poly1305_spec k d"
  using absorbed_mac unfolding mac_at_def poly1305_spec_def by fastforce

lemma mac_pad:
  assumes "mac_at k (d @ x) m" "16 dvd length d"
  shows "\<exists>m'. pad_mac_16 m (length x) = Ok m' \<and> mac_at k (d @ pad16 x) m'"
  using mac_input [OF assms(1), of "replicate (16 - length x mod 16) 0"] assms(1) by (auto simp: pad_mac_16_def pad16_def)

lemma pad16_dvd: "16 dvd length (pad16 m)"
proof (cases "length m mod 16 = 0")
  case False
  define q r where q: "q = length m div 16" "r = length m mod 16"
  have "length m = 16 * q + r" "r < 16" by (simp_all add: q)
  then have "length (pad16 m) = 16 * (q + 1)" using False by (simp add: pad16_def q(2) [symmetric])
  then show ?thesis by simp
qed (simp add: pad16_def mod_eq_0_iff_dvd)

definition aead_at :: "bytes \<Rightarrow> bytes \<Rightarrow> bytes \<Rightarrow> ChaCha20Poly1305RFC \<Rightarrow> bool" where
  "aead_at k aad ct a \<longleftrightarrow> \<not> ap_finished a \<and> ap_data_len a = length ct \<and> ap_aad_len a = word_of_nat (length aad) \<and>
     mac_at k (pad16 aad @ ct) (ap_mac a) \<and> cc_ok (ap_cipher a)"

lemma aead_new_at:
  assumes "aead_start key n = Ok (c, otk)" "length key = 32" "length n = 8"
  shows "\<exists>a. aead_new key (replicate 4 0 @ n) aad = Ok a \<and> ap_cipher a = c \<and> aead_at (take 32 otk) aad [] a"
proof -
  obtain c' otk' where c': "aead_start key n = Ok (c', otk')" "cc_ok c'" "length otk' = 64"
    using aead_start_total [OF assms(2,3), of "[]"] by auto
  obtain c0 where c0: "chacha_new key n = Ok c0" "process c0 (replicate 64 0) = Ok (c, otk)" "cc_ok c" "length otk = 64"
    using assms(1) c' by (auto simp: aead_start_def outcome_simps)
  then obtain m0 where m0: "poly_new (take 32 otk) = Ok m0" "mac_at (take 32 otk) [] m0" using mac_new [of "take 32 otk"] by auto
  obtain m1 where m1: "poly_input aad m0 = Ok m1" "mac_at (take 32 otk) ([] @ aad) m1" using mac_input [OF m0(2), of aad] by auto
  obtain m2 where m2: "pad_mac_16 m1 (length aad) = Ok m2" "mac_at (take 32 otk) ([] @ pad16 aad) m2"
    using mac_pad [OF m1(2)] by auto
  show ?thesis using c0 m0(1) m1(1) m2 assms(2,3) by (simp add: aead_new_def aead_at_def)
qed

lemma close_mac_at:
  assumes "aead_at k aad ct a"
  shows "\<exists>a'. close_mac a = Ok (a', poly1305_spec k (mac_data aad ct)) \<and> ap_cipher a' = ap_cipher a"
proof -
  have a: "ap_data_len a = length ct" "ap_aad_len a = word_of_nat (length aad)" "mac_at k (pad16 aad @ ct) (ap_mac a)"
    using assms by (simp_all add: aead_at_def)
  obtain m1 where m1: "pad_mac_16 (ap_mac a) (length ct) = Ok m1" "mac_at k (pad16 aad @ pad16 ct) m1"
    using mac_pad [OF a(3) pad16_dvd] by auto
  obtain m2 where m2: "poly_input (u64_to_le_bytes (word_of_nat (length aad))) m1 = Ok m2"
      "mac_at k ((pad16 aad @ pad16 ct) @ u64_to_le_bytes (word_of_nat (length aad))) m2" using mac_input [OF m1(2)] by blast
  obtain m3 where m3: "poly_input (u64_to_le_bytes (word_of_nat (length ct))) m2 = Ok m3" "mac_at k (mac_data aad ct) m3"
    using mac_input [OF m2(2), of "u64_to_le_bytes (word_of_nat (length ct))"] by (auto simp: mac_data_def)
  have "fst (poly_raw_result m3) = poly1305_spec k (mac_data aad ct)" by (rule mac_result [OF m3(2)])
  then show ?thesis using m1(1) m2(1) m3(1) a(1,2) by (cases "poly_raw_result m3") (simp add: close_mac_def)
qed

lemma encrypt_in_place_at:
  assumes "aead_at k aad ct a" "process (ap_cipher a) x = Ok (c', y)"
  shows "\<exists>a'. encrypt_in_place x a = Ok (a', y) \<and> ap_cipher a' = c' \<and> aead_at k aad (ct @ y) a'"
proof -
  have a: "mac_at k (pad16 aad @ ct) (ap_mac a)" "cc_ok (ap_cipher a)" "\<not> ap_finished a" using assms(1) by (simp_all add: aead_at_def)
  note y = process_involution [OF assms(2) a(2)]
  obtain m where m: "poly_input y (ap_mac a) = Ok m" "mac_at k (pad16 aad @ ct @ y) m" using mac_input [OF a(1), of y] by auto
  show ?thesis using assms m y a by (simp add: encrypt_in_place_def process_in_place_eq aead_at_def)
qed

lemma decrypt_in_place_at:
  assumes "aead_at k aad ct a" "process (ap_cipher a) x = Ok (c', y)"
  shows "\<exists>a'. decrypt_in_place x a = Ok (a', y) \<and> ap_cipher a' = c' \<and> aead_at k aad (ct @ x) a'"
proof -
  have a: "mac_at k (pad16 aad @ ct) (ap_mac a)" "cc_ok (ap_cipher a)" "\<not> ap_finished a" using assms(1) by (simp_all add: aead_at_def)
  note y = process_involution [OF assms(2) a(2)]
  obtain m where m: "poly_input x (ap_mac a) = Ok m" "mac_at k (pad16 aad @ ct @ x) m" using mac_input [OF a(1), of x] by auto
  show ?thesis using assms m y a by (simp add: decrypt_in_place_def process_in_place_eq aead_at_def)
qed

text \<open>The one-shot operations are the in-place ones followed by the tag.\<close>

lemma aead_encrypt_in_place:
  "cc_ok (ap_cipher a) \<Longrightarrow> \<not> ap_finished a \<Longrightarrow> aead_encrypt x a = and_then (encrypt_in_place x a) (\<lambda>(a1, y). map_ok (\<lambda>(a2, tag). (a2, y, tag)) (close_mac a1))"
  by (simp add: aead_encrypt_def encrypt_in_place_def process_in_place_eq and_then_and_then and_then_map_ok split_def)

lemma length_poly1305_spec [simp]: "length (poly1305_spec k m) = 16"
proof -
  have "length (le_bytes i x) = i" for i x by (induction i arbitrary: x) simp_all
  then show ?thesis by (simp add: poly1305_spec_def)
qed

lemma aead_encrypt_at:
  assumes "aead_at k aad [] a" "process (ap_cipher a) x = Ok (c', y)"
  shows "\<exists>a'. aead_encrypt x a = Ok (a', y, poly1305_spec k (mac_data aad y))"
proof -
  obtain a1 where a1: "encrypt_in_place x a = Ok (a1, y)" "aead_at k aad y a1" using encrypt_in_place_at [OF assms] by auto
  show ?thesis using close_mac_at [OF a1(2)] a1(1) assms(1) by (auto simp: aead_encrypt_in_place aead_at_def)
qed

lemma aead_decrypt_at:
  assumes "aead_at k aad [] a" "process (ap_cipher a) x = Ok (c', y)" "length tag = 16"
  shows "\<exists>a'. aead_decrypt x tag a = Ok (a', if tag = poly1305_spec k (mac_data aad x) then Some y else None)"
proof -
  have a: "mac_at k (pad16 aad) (ap_mac a)" "\<not> ap_finished a" "ap_data_len a = 0" using assms(1) by (simp_all add: aead_at_def)
  obtain m where m: "poly_input x (ap_mac a) = Ok m" "mac_at k (pad16 aad @ x) m" using mac_input [OF a(1), of x] by auto
  let ?a = "a\<lparr>ap_data_len := length x, ap_mac := m\<rparr>"
  have "aead_at k aad x ?a" using assms(1) m(2) by (simp add: aead_at_def)
  then obtain a1 where "close_mac ?a = Ok (a1, poly1305_spec k (mac_data aad x))" "ap_cipher a1 = ap_cipher a"
    using close_mac_at [of k aad x ?a] by auto
  then show ?thesis using a m(1) assms(2,3) by (auto simp: aead_decrypt_def fixed_time_eq_def)
qed

section \<open>Writing and reading through the cipher\<close>

lemma process_split:
  assumes "cc_ok c" "process c (xs @ ys) = Ok (c2, zs)"
  shows "\<exists>c1 us vs. process c xs = Ok (c1, us) \<and> process c1 ys = Ok (c2, vs) \<and> zs = us @ vs"
  using assms(2) by (auto simp: process_append [OF assms(1)] outcome_simps)

lemma write_chunks_at:
  assumes "aead_at k aad ct a" "process (ap_cipher a) src = Ok (c', y)"
  shows "\<exists>a'. write_chunks src a = Ok (a', y) \<and> ap_cipher a' = c' \<and> aead_at k aad (ct @ y) a'"
  using assms
proof (induction src a arbitrary: ct y rule: write_chunks.induct)
  case (1 src a)
  show ?case
  proof (cases "src = []")
    case True
    then show ?thesis using "1.prems" by (simp add: write_chunks.simps)
  next
    case False
    have "cc_ok (ap_cipher a)" using "1.prems"(1) by (simp add: aead_at_def)
    then obtain c1 u v where u: "process (ap_cipher a) (take 8192 src) = Ok (c1, u)" "process c1 (drop 8192 src) = Ok (c', v)" "y = u @ v"
      using process_split [of "ap_cipher a" "take 8192 src" "drop 8192 src" c' y] "1.prems"(2) by auto
    obtain a1 where a1: "encrypt_in_place (take 8192 src) a = Ok (a1, u)" "ap_cipher a1 = c1" "aead_at k aad (ct @ u) a1"
      using encrypt_in_place_at [OF "1.prems"(1) u(1)] by blast
    obtain a2 where "write_chunks (drop 8192 src) a1 = Ok (a2, v)" "ap_cipher a2 = c'" "aead_at k aad ((ct @ u) @ v) a2"
      using "1.IH" [OF False a1(3)] a1(2) u(2) by auto
    then show ?thesis using False a1(1) u(3) by (simp add: write_chunks.simps [of src])
  qed
qed

lemma write_all_chunks_at:
  assumes "aead_at k aad ct a" "process (ap_cipher a) (concat srcs) = Ok (c', y)"
  shows "\<exists>a'. write_all_chunks srcs a = Ok (a', y) \<and> ap_cipher a' = c' \<and> aead_at k aad (ct @ y) a'"
  using assms
proof (induction srcs arbitrary: a ct y)
  case (Cons src srcs)
  have "cc_ok (ap_cipher a)" using Cons.prems(1) by (simp add: aead_at_def)
  then obtain c1 u v where u: "process (ap_cipher a) src = Ok (c1, u)" "process c1 (concat srcs) = Ok (c', v)" "y = u @ v"
    using process_split [of "ap_cipher a" src "concat srcs" c' y] Cons.prems(2) by auto
  obtain a1 where a1: "write_chunks src a = Ok (a1, u)" "ap_cipher a1 = c1" "aead_at k aad (ct @ u) a1"
    using write_chunks_at [OF Cons.prems(1) u(1)] by blast
  obtain a2 where "write_all_chunks srcs a1 = Ok (a2, v)" "ap_cipher a2 = c'" "aead_at k aad ((ct @ u) @ v) a2"
    using Cons.IH [OF a1(3)] a1(2) u(2) by auto
  then show ?case using a1(1) u(3) by simp
qed simp

lemma adapters:
  assumes "length rho = 32" "length (concat srcs) \<le> aead_max"
  shows "\<exists>w ct otk c. write_adapter rho srcs = Ok w \<and> aead_start rho (replicate 8 0) = Ok (c, otk) \<and>
    w = ct @ poly1305_spec (take 32 otk) (mac_data [] ct) \<and> length ct = length (concat srcs) \<and>
    (reader (concat srcs) = Ok (x, []) \<longrightarrow> read_adapter reader rho w = Ok x)"
proof -
  have n: "replicate 12 (0::u8) = replicate 4 0 @ replicate 8 0" by (simp add: replicate_add [symmetric])
  obtain c otk c' ct where c: "aead_start rho (replicate 8 0) = Ok (c, otk)" "cc_ok c" "process c (concat srcs) = Ok (c', ct)"
    using aead_start_total [OF assms(1) _ assms(2), of "replicate 8 0"] by auto
  note inv = process_involution [OF c(3,2)]
  let ?k = "take 32 otk"
  obtain a where a: "aead_new rho (replicate 12 0) [] = Ok a" "ap_cipher a = c" "aead_at ?k [] [] a"
    using aead_new_at [OF c(1) assms(1), of "[]"] by (auto simp: n)
  obtain a1 where a1: "write_all_chunks srcs a = Ok (a1, ct)" "aead_at ?k [] ct a1"
    using write_all_chunks_at [OF a(3), of srcs c' ct] a(2) c(3) by auto
  then obtain a2 where a2: "finish_and_get_tag a1 = Ok (a2, poly1305_spec ?k (mac_data [] ct))"
    using close_mac_at [OF a1(2)] by (auto simp: finish_and_get_tag_def aead_at_def)
  obtain b where b: "decrypt_in_place ct a = Ok (b, concat srcs)" "aead_at ?k [] ct b"
    using decrypt_in_place_at [OF a(3), of ct c' "concat srcs"] a(2) inv by auto
  obtain b' where b': "finish_and_check_tag (poly1305_spec ?k (mac_data [] ct)) b = Ok (b', True)"
    using close_mac_at [OF b(2)] b(2) by (auto simp: finish_and_check_tag_def fixed_time_eq_def aead_at_def)
  show ?thesis using a(1,2) a1(1) a2 b(1) b' c inv
    by (auto simp: write_adapter_def read_adapter_def lift_panic_def process_in_place_eq Let_def)
qed

section \<open>Theorems\<close>



text \<open>A value written through the encrypting writer, in whatever pieces, is read back by the decrypting reader
  when the value's own reader consumes exactly what was written.\<close>

theorem encrypted_stream_round_trip:
  assumes "length rho = 32" "length (concat srcs) \<le> aead_max" "reader (concat srcs) = Ok (x, [])"
  shows "\<exists>w. write_adapter rho srcs = Ok w \<and> length w = length (concat srcs) + 16 \<and> read_adapter reader rho w = Ok x"
  using adapters [OF assms(1,2), of reader x] assms(3) by auto

theorem encrypted_stream_round_trip_witness:
  "length (replicate 32 7 :: bytes) = 32 \<and> length (concat [[1, 2], [3]] :: bytes) \<le> aead_max \<and>
   (\<lambda>b. Ok (b, [])) (concat [[1, 2], [3]]) = (Ok ([1, 2, 3], []) :: bytes parsed) \<and>
   (\<exists>w. write_adapter (replicate 32 7) [[1, 2], [3]] = Ok w \<and> length w = length (concat [[1, 2], [3 :: u8]]) + 16 \<and>
      read_adapter (\<lambda>b. Ok (b, [])) (replicate 32 7) w = Ok [1, 2, 3])"
proof -
  have "length (replicate 32 7 :: bytes) = 32" "length (concat [[1, 2], [3]] :: bytes) \<le> aead_max"
    "(\<lambda>b. Ok (b, [])) (concat [[1, 2], [3]]) = (Ok ([1, 2, 3], []) :: bytes parsed)"
    by (simp_all add: aead_max_def)
  from this encrypted_stream_round_trip [where reader = "\<lambda>b. Ok (b, [])", OF this] show ?thesis by (intro conjI)
qed

end
