(* ===== verification/Noise.thy ===== *)
theory Noise
  imports ChaChaPoly Network_Graph Inbound_Payment
begin

text \<open>
  The encrypted transport of \<open>lightning/src/ln/peer_channel_encryptor.rs\<close>: the three acts of the handshake between
  two peers, and the encryption of every message after it. Each method takes the encryptor and returns it
  with the result, also when the result is an error, because the handshake state is updated before some errors are found.
  Public keys are their 33 byte serialisations; \<open>valid_pk\<close> says which of them \<open>PublicKey::from_slice\<close> accepts.
\<close>

section \<open>Data\<close>

datatype NextNoiseStep = ActOne | ActTwo | ActThree | NoiseComplete

datatype NoiseStep = PreActOne | PostActOne | PostActTwo

record BidirectionalNoiseState =
  bn_h :: bytes
  bn_ck :: bytes

datatype 'sk DirectionalNoiseState = Outbound 'sk | Inbound "bytes option" "'sk option" "bytes option"

record transport_keys =
  tk_sk :: bytes
  tk_sn :: u64
  tk_sck :: bytes
  tk_rk :: bytes
  tk_rn :: u64
  tk_rck :: bytes

datatype 'sk NoiseState = InProgress NoiseStep "'sk DirectionalNoiseState" BidirectionalNoiseState | Finished transport_keys

record 'sk PeerChannelEncryptor =
  pce_their_node_id :: "bytes option"
  pce_noise_state :: "'sk NoiseState"

type_synonym ('sk, 'a) noise_result = "'sk PeerChannelEncryptor \<times> (LightningError, 'a) outcome"

definition LN_MAX_MSG_LEN :: nat where "LN_MAX_MSG_LEN = 65535"

definition NOISE_CK :: bytes where
  "NOISE_CK = [0x26, 0x40, 0xf5, 0x2e, 0xeb, 0xcd, 0x9e, 0x88, 0x29, 0x58, 0x95, 0x1c, 0x79, 0x42, 0x50, 0xee, 0xdb, 0x28, 0x00, 0x2c, 0x05, 0xd7, 0xdc, 0x2e, 0xa0, 0xf1, 0x95, 0x40, 0x60, 0x42, 0xca, 0xf1]"

definition NOISE_H :: bytes where
  "NOISE_H = [0xd1, 0xfb, 0xf6, 0xde, 0xe4, 0xf6, 0x86, 0xf1, 0x32, 0xfd, 0x70, 0x2c, 0x4a, 0xbf, 0x8f, 0xba, 0x4b, 0xb4, 0x20, 0xd8, 0x9d, 0x2a, 0x04, 0x8a, 0x3c, 0x4f, 0x4c, 0x09, 0x2e, 0x37, 0xb6, 0x76]"

definition hkdf_extract_expand_twice :: "'sk crypto \<Rightarrow> bytes \<Rightarrow> bytes \<Rightarrow> bytes \<times> bytes" where
  "hkdf_extract_expand_twice cr salt ikm = (let (k1, k2, prk) = hkdf_extract_expand cr salt ikm in (k1, k2))"

section \<open>The handshake\<close>

definition new_outbound :: "'sk crypto \<Rightarrow> bytes \<Rightarrow> 'sk \<Rightarrow> 'sk PeerChannelEncryptor" where
  "new_outbound cr their_node_id ephemeral_key =
     \<lparr>pce_their_node_id = Some their_node_id,
      pce_noise_state = InProgress PreActOne (Outbound ephemeral_key) \<lparr>bn_h = sha256_hash cr (NOISE_H @ their_node_id), bn_ck = NOISE_CK\<rparr>\<rparr>"

definition new_inbound :: "'sk crypto \<Rightarrow> 'sk \<Rightarrow> 'sk PeerChannelEncryptor" where
  "new_inbound cr our_node_secret =
     \<lparr>pce_their_node_id = None,
      pce_noise_state = InProgress PreActOne (Inbound None None None)
        \<lparr>bn_h = sha256_hash cr (NOISE_H @ public_of cr our_node_secret), bn_ck = NOISE_CK\<rparr>\<rparr>"

definition encrypt_with_ad :: "u64 \<Rightarrow> bytes \<Rightarrow> bytes \<Rightarrow> bytes \<Rightarrow> (LightningError, bytes) outcome" where
  "encrypt_with_ad n key h plaintext =
     and_then (lift_panic (aead_new key (replicate 4 0 @ u64_to_le_bytes n) h)) (\<lambda>chacha.
       map_ok (\<lambda>(_, out, tag). out @ tag) (lift_panic (aead_encrypt plaintext chacha)))"

definition decrypt_with_ad :: "nat \<Rightarrow> u64 \<Rightarrow> bytes \<Rightarrow> bytes \<Rightarrow> bytes \<Rightarrow> (LightningError, bytes) outcome" where
  "decrypt_with_ad res_len n key h cyphertext =
     and_then (lift_panic (aead_new key (replicate 4 0 @ u64_to_le_bytes n) h)) (\<lambda>chacha.
       if length cyphertext < 16 \<or> length cyphertext - 16 \<noteq> res_len then Panic
       else let k = length cyphertext - 16 in
            and_then (lift_panic (aead_decrypt (take k cyphertext) (drop k cyphertext) chacha)) (\<lambda>(_, res).
              case res of None \<Rightarrow> Err (''Bad MAC'', DisconnectPeer None) | Some plain \<Rightarrow> Ok plain))"

definition noise_hkdf :: "'sk crypto \<Rightarrow> BidirectionalNoiseState \<Rightarrow> bytes \<Rightarrow> BidirectionalNoiseState \<times> bytes" where
  "noise_hkdf cr state ss = (let (t1, t2) = hkdf_extract_expand_twice cr (bn_ck state) ss in (state\<lparr>bn_ck := t1\<rparr>, t2))"

definition mix_hash :: "'sk crypto \<Rightarrow> bytes \<Rightarrow> BidirectionalNoiseState \<Rightarrow> BidirectionalNoiseState" where
  "mix_hash cr b state = state\<lparr>bn_h := sha256_hash cr (bn_h state @ b)\<rparr>"

definition outbound_noise_act ::
  "'sk crypto \<Rightarrow> BidirectionalNoiseState \<Rightarrow> 'sk \<Rightarrow> bytes \<Rightarrow> (LightningError, BidirectionalNoiseState \<times> bytes \<times> bytes) outcome" where
  "outbound_noise_act cr state our_key their_key =
     (let our_pub = public_of cr our_key;
          state1 = mix_hash cr our_pub state;
          ss = ecdh cr their_key our_key;
          (state2, temp_k) = noise_hkdf cr state1 ss in
      map_ok (\<lambda>sealed. (mix_hash cr sealed state2, [0] @ our_pub @ sealed, temp_k))
        (encrypt_with_ad 0 temp_k (bn_h state2) []))"

definition inbound_noise_act ::
  "'sk crypto \<Rightarrow> (bytes \<Rightarrow> bool) \<Rightarrow> BidirectionalNoiseState \<Rightarrow> bytes \<Rightarrow> 'sk \<Rightarrow>
   BidirectionalNoiseState \<times> (LightningError, bytes \<times> bytes) outcome" where
  "inbound_noise_act cr valid_pk state act our_key =
     (if length act \<noteq> 50 then (state, Panic)
      else if act ! 0 \<noteq> 0 then (state, Err (''Unknown handshake version number '' @ to_string (act ! 0), DisconnectPeer None))
      else let their_pub = take 33 (drop 1 act) in
           if \<not> valid_pk their_pub then (state, Err (''Invalid public key '' @ hex_str their_pub, DisconnectPeer None))
           else let state1 = mix_hash cr their_pub state;
                    ss = ecdh cr their_pub our_key;
                    (state2, temp_k) = noise_hkdf cr state1 ss in
                case decrypt_with_ad 0 0 temp_k (bn_h state2) (drop 34 act) of
                  Err e \<Rightarrow> (state2, Err e)
                | Panic \<Rightarrow> (state2, Panic)
                | Ok _ \<Rightarrow> (mix_hash cr (drop 34 act) state2, Ok (their_pub, temp_k)))"

definition get_act_one :: "'sk crypto \<Rightarrow> 'sk PeerChannelEncryptor \<Rightarrow> ('sk, bytes) noise_result" where
  "get_act_one cr p =
     (case pce_noise_state p of
        InProgress state (Outbound ie) bidir \<Rightarrow>
          if state \<noteq> PreActOne then (p, Panic)
          else (case pce_their_node_id p of
                  None \<Rightarrow> (p, Panic)
                | Some node_id \<Rightarrow>
                    (case outbound_noise_act cr bidir ie node_id of
                       Ok (bidir, res, _) \<Rightarrow> (p\<lparr>pce_noise_state := InProgress PostActOne (Outbound ie) bidir\<rparr>, Ok res)
                     | Err e \<Rightarrow> (p, Err e) | Panic \<Rightarrow> (p, Panic)))
      | _ \<Rightarrow> (p, Panic))"

definition process_act_one_with_keys ::
  "'sk crypto \<Rightarrow> (bytes \<Rightarrow> bool) \<Rightarrow> bytes \<Rightarrow> 'sk \<Rightarrow> 'sk \<Rightarrow> 'sk PeerChannelEncryptor \<Rightarrow> ('sk, bytes) noise_result" where
  "process_act_one_with_keys cr valid_pk act_one our_node_secret our_ephemeral p =
     (if length act_one \<noteq> 50 then (p, Panic)
      else case pce_noise_state p of
        InProgress state (Inbound ie re temp_k2) bidir \<Rightarrow>
          if state \<noteq> PreActOne then (p, Panic)
          else (case inbound_noise_act cr valid_pk bidir act_one our_node_secret of
                  (bidir, Ok (their_pub, _)) \<Rightarrow>
                    (let ie = (case ie of None \<Rightarrow> their_pub | Some k \<Rightarrow> k);
                         re = (case re of None \<Rightarrow> our_ephemeral | Some k \<Rightarrow> k) in
                     case outbound_noise_act cr bidir re ie of
                       Ok (bidir, res, temp_k) \<Rightarrow>
                         (p\<lparr>pce_noise_state := InProgress PostActTwo (Inbound (Some ie) (Some re) (Some temp_k)) bidir\<rparr>, Ok res)
                     | Err e \<Rightarrow> (p, Err e) | Panic \<Rightarrow> (p, Panic))
                | (bidir, Err e) \<Rightarrow> (p\<lparr>pce_noise_state := InProgress state (Inbound ie re temp_k2) bidir\<rparr>, Err e)
                | (bidir, Panic) \<Rightarrow> (p, Panic))
      | _ \<Rightarrow> (p, Panic))"

definition finish_keys :: "bytes \<Rightarrow> bytes \<Rightarrow> bytes \<Rightarrow> transport_keys" where
  "finish_keys sk rk ck = \<lparr>tk_sk = sk, tk_sn = 0, tk_sck = ck, tk_rk = rk, tk_rn = 0, tk_rck = ck\<rparr>"

definition process_act_two ::
  "'sk crypto \<Rightarrow> (bytes \<Rightarrow> bool) \<Rightarrow> bytes \<Rightarrow> 'sk \<Rightarrow> 'sk PeerChannelEncryptor \<Rightarrow> ('sk, bytes \<times> bytes) noise_result" where
  "process_act_two cr valid_pk act_two our_node_secret p =
     (if length act_two \<noteq> 50 then (p, Panic)
      else case pce_noise_state p of
        InProgress state (Outbound ie) bidir \<Rightarrow>
          if state \<noteq> PostActOne then (p, Panic)
          else (case inbound_noise_act cr valid_pk bidir act_two ie of
                  (bidir, Err e) \<Rightarrow> (p\<lparr>pce_noise_state := InProgress state (Outbound ie) bidir\<rparr>, Err e)
                | (bidir, Panic) \<Rightarrow> (p, Panic)
                | (bidir, Ok (re, temp_k2)) \<Rightarrow>
                    (case encrypt_with_ad 1 temp_k2 (bn_h bidir) (public_of cr our_node_secret) of
                       Ok sealed_id \<Rightarrow>
                         (let bidir1 = mix_hash cr sealed_id bidir;
                              ss = ecdh cr re our_node_secret;
                              (bidir2, temp_k) = noise_hkdf cr bidir1 ss in
                          case encrypt_with_ad 0 temp_k (bn_h bidir2) [] of
                            Ok sealed \<Rightarrow>
                              (let (sk, rk) = hkdf_extract_expand_twice cr (bn_ck bidir2) [];
                                   p1 = p\<lparr>pce_noise_state := Finished (finish_keys sk rk (bn_ck bidir2))\<rparr> in
                               case pce_their_node_id p of
                                 Some node_id \<Rightarrow> (p1, Ok ([0] @ sealed_id @ sealed, node_id))
                               | None \<Rightarrow> (p1, Panic))
                          | Err e \<Rightarrow> (p, Err e) | Panic \<Rightarrow> (p, Panic))
                     | Err e \<Rightarrow> (p, Err e) | Panic \<Rightarrow> (p, Panic)))
      | _ \<Rightarrow> (p, Panic))"

definition process_act_three ::
  "'sk crypto \<Rightarrow> (bytes \<Rightarrow> bool) \<Rightarrow> bytes \<Rightarrow> 'sk PeerChannelEncryptor \<Rightarrow> ('sk, bytes) noise_result" where
  "process_act_three cr valid_pk act_three p =
     (if length act_three \<noteq> 66 then (p, Panic)
      else case pce_noise_state p of
        InProgress state (Inbound ie re temp_k2) bidir \<Rightarrow>
          if state \<noteq> PostActTwo then (p, Panic)
          else if act_three ! 0 \<noteq> 0
          then (p, Err (''Unknown handshake version number '' @ to_string (act_three ! 0), DisconnectPeer None))
          else (case temp_k2 of
                  None \<Rightarrow> (p, Panic)
                | Some k2 \<Rightarrow>
                    (let sealed_id = take 49 (drop 1 act_three) in
                     case decrypt_with_ad 33 1 k2 (bn_h bidir) sealed_id of
                       Err e \<Rightarrow> (p, Err e)
                     | Panic \<Rightarrow> (p, Panic)
                     | Ok node_id \<Rightarrow>
                         if \<not> valid_pk node_id then (p, Err (''Bad node_id from peer, '' @ hex_str node_id, DisconnectPeer None))
                         else (case re of
                           None \<Rightarrow> (p, Panic)
                         | Some re_key \<Rightarrow>
                             (let bidir1 = mix_hash cr sealed_id bidir;
                                  ss = ecdh cr node_id re_key;
                                  (bidir2, temp_k) = noise_hkdf cr bidir1 ss;
                                  p1 = p\<lparr>pce_their_node_id := Some node_id, pce_noise_state := InProgress state (Inbound ie re temp_k2) bidir2\<rparr> in
                              case decrypt_with_ad 0 0 temp_k (bn_h bidir2) (drop 50 act_three) of
                                Err e \<Rightarrow> (p1, Err e)
                              | Panic \<Rightarrow> (p1, Panic)
                              | Ok _ \<Rightarrow>
                                  (let (rk, sk) = hkdf_extract_expand_twice cr (bn_ck bidir2) [] in
                                   (p1\<lparr>pce_noise_state := Finished (finish_keys sk rk (bn_ck bidir2))\<rparr>, Ok node_id))))))
      | _ \<Rightarrow> (p, Panic))"

section \<open>Messages\<close>

definition rotate_send :: "'sk crypto \<Rightarrow> transport_keys \<Rightarrow> transport_keys" where
  "rotate_send cr t =
     (if tk_sn t \<ge> 1000
      then let (new_sck, new_sk) = hkdf_extract_expand_twice cr (tk_sck t) (tk_sk t) in t\<lparr>tk_sck := new_sck, tk_sk := new_sk, tk_sn := 0\<rparr>
      else t)"

definition rotate_receive :: "'sk crypto \<Rightarrow> transport_keys \<Rightarrow> transport_keys" where
  "rotate_receive cr t =
     (if tk_rn t \<ge> 1000
      then let (new_rck, new_rk) = hkdf_extract_expand_twice cr (tk_rck t) (tk_rk t) in t\<lparr>tk_rck := new_rck, tk_rk := new_rk, tk_rn := 0\<rparr>
      else t)"

definition encrypt_message :: "'sk crypto \<Rightarrow> bytes \<Rightarrow> 'sk PeerChannelEncryptor \<Rightarrow> ('sk, bytes) noise_result" where
  "encrypt_message cr msg p =
     (if length msg > LN_MAX_MSG_LEN then (p, Panic)
      else case pce_noise_state p of
        Finished t \<Rightarrow>
          (let t1 = rotate_send cr t;
               r = and_then (encrypt_with_ad (tk_sn t1) (tk_sk t1) [] (u16_to_be_bytes (word_of_nat (length msg)))) (\<lambda>header.
                   map_ok (\<lambda>body. header @ body) (encrypt_with_ad (tk_sn t1 + 1) (tk_sk t1) [] msg))
           in (p\<lparr>pce_noise_state := Finished (t1\<lparr>tk_sn := tk_sn t1 + 1 + 1\<rparr>)\<rparr>, r))
      | _ \<Rightarrow> (p, Panic))"

definition decrypt_length_header :: "'sk crypto \<Rightarrow> bytes \<Rightarrow> 'sk PeerChannelEncryptor \<Rightarrow> ('sk, u16) noise_result" where
  "decrypt_length_header cr msg p =
     (if length msg \<noteq> 18 then (p, Panic)
      else case pce_noise_state p of
        Finished t \<Rightarrow>
          (let t1 = rotate_receive cr t in
           case decrypt_with_ad 2 (tk_rn t1) (tk_rk t1) [] msg of
             Ok res \<Rightarrow> (p\<lparr>pce_noise_state := Finished (t1\<lparr>tk_rn := tk_rn t1 + 1\<rparr>)\<rparr>, Ok (u16_from_be_bytes res))
           | Err e \<Rightarrow> (p\<lparr>pce_noise_state := Finished t1\<rparr>, Err e)
           | Panic \<Rightarrow> (p\<lparr>pce_noise_state := Finished t1\<rparr>, Panic))
      | _ \<Rightarrow> (p, Panic))"

definition decrypt_message :: "bytes \<Rightarrow> 'sk PeerChannelEncryptor \<Rightarrow> ('sk, bytes) noise_result" where
  "decrypt_message msg p =
     (if length msg > LN_MAX_MSG_LEN + 16 then (p, Panic)
      else case pce_noise_state p of
        Finished t \<Rightarrow>
          if length msg < 16 then (p, Panic)
          else (case decrypt_with_ad (length msg - 16) (tk_rn t) (tk_rk t) [] msg of
                  Ok res \<Rightarrow> (p\<lparr>pce_noise_state := Finished (t\<lparr>tk_rn := tk_rn t + 1\<rparr>)\<rparr>, Ok res)
                | Err e \<Rightarrow> (p, Err e)
                | Panic \<Rightarrow> (p, Panic))
      | _ \<Rightarrow> (p, Panic))"

definition get_noise_step :: "'sk PeerChannelEncryptor \<Rightarrow> NextNoiseStep" where
  "get_noise_step p =
     (case pce_noise_state p of
        InProgress PreActOne _ _ \<Rightarrow> ActOne
      | InProgress PostActOne _ _ \<Rightarrow> ActTwo
      | InProgress PostActTwo _ _ \<Rightarrow> ActThree
      | Finished _ \<Rightarrow> NoiseComplete)"

definition is_ready_for_encryption :: "'sk PeerChannelEncryptor \<Rightarrow> bool" where
  "is_ready_for_encryption p = (case pce_noise_state p of InProgress _ _ _ \<Rightarrow> False | Finished _ \<Rightarrow> True)"

section \<open>Sealing and opening\<close>

lemma length_u64_to_le_bytes [simp]: "length (u64_to_le_bytes w) = 8"
proof -
  have "length (le_bytes i x) = i" for i x by (induction i arbitrary: x) simp_all
  then show ?thesis by (simp add: u64_to_le_bytes_def)
qed

lemma lift_panic_Ok [simp]: "lift_panic (Ok a) = Ok a"
  by (simp add: lift_panic_def)

lemma seal_open:
  assumes "length key = 32" "length pt \<le> aead_max"
  shows "\<exists>ct. encrypt_with_ad n key h pt = Ok ct \<and> length ct = length pt + 16 \<and> (\<forall>k. k = length pt \<longrightarrow> decrypt_with_ad k n key h ct = Ok pt)"
proof -
  obtain c otk c' y where c: "aead_start key (u64_to_le_bytes n) = Ok (c, otk)" "cc_ok c" "process c pt = Ok (c', y)"
    using aead_start_total [OF assms(1) length_u64_to_le_bytes assms(2)] by blast
  note inv = process_involution [OF c(3,2)]
  obtain a where a: "aead_new key (replicate 4 0 @ u64_to_le_bytes n) h = Ok a" "ap_cipher a = c" "aead_at (take 32 otk) h [] a"
    using aead_new_at [OF c(1) assms(1)] by auto
  let ?t = "poly1305_spec (take 32 otk) (mac_data h y)"
  obtain e where e: "aead_encrypt pt a = Ok (e, y, ?t)" using aead_encrypt_at [OF a(3)] a(2) c(3) by blast
  obtain d where d: "aead_decrypt y ?t a = Ok (d, Some pt)"
    using aead_decrypt_at [OF a(3), of y c' pt ?t] a(2) inv by auto
  show ?thesis using a(1) e d inv by (simp add: encrypt_with_ad_def decrypt_with_ad_def Let_def)
qed

text \<open>What a peer relies on: digests and secrets of 32 bytes, keys of 33 bytes that parse, and a shared secret
  that both ends compute.\<close>

definition keys_ok :: "'sk crypto \<Rightarrow> (bytes \<Rightarrow> bool) \<Rightarrow> bool" where
  "keys_ok cr valid_pk \<longleftrightarrow> crypto_ok cr \<and> (\<forall>s. length (public_of cr s) = 33 \<and> valid_pk (public_of cr s)) \<and>
     (\<forall>a b. ecdh cr (public_of cr a) b = ecdh cr (public_of cr b) a)"

lemma hkdf_lengths:
  assumes "crypto_ok cr" "hkdf_extract_expand_twice cr salt ikm = (k1, k2)"
  shows "length k1 = 32" "length k2 = 32"
  using assms by (auto simp: hkdf_extract_expand_twice_def hkdf_extract_expand_def crypto_ok_def Let_def)

text \<open>One act: the other side reads what this side wrote, and both end in the same state with the same key.\<close>

lemma act_delivered:
  assumes "keys_ok cr valid_pk"
  shows "\<exists>st act k. outbound_noise_act cr bn ours (public_of cr theirs) = Ok (st, act, k) \<and> length act = 50 \<and> length k = 32 \<and>
    inbound_noise_act cr valid_pk bn act theirs = (st, Ok (public_of cr ours, k))"
proof -
  define st1 where "st1 = mix_hash cr (public_of cr ours) bn"
  define ss where "ss = ecdh cr (public_of cr theirs) ours"
  obtain st2 k where h: "noise_hkdf cr st1 ss = (st2, k)" by fastforce
  have ss': "ecdh cr (public_of cr ours) theirs = ss" using assms by (simp add: keys_ok_def ss_def)
  have k: "length k = 32" using h hkdf_lengths(2) [of cr "bn_ck st1" ss] assms by (auto simp: noise_hkdf_def keys_ok_def split: prod.splits)
  obtain ct where ct: "encrypt_with_ad 0 k (bn_h st2) [] = Ok ct" "length ct = 16" "decrypt_with_ad 0 0 k (bn_h st2) ct = Ok []"
    using seal_open [OF k, of "[]" 0 "bn_h st2"] by auto
  have pk: "length (public_of cr ours) = 33" "valid_pk (public_of cr ours)" using assms by (auto simp: keys_ok_def)
  have "take 33 (drop 1 ([0] @ public_of cr ours @ ct)) = public_of cr ours" "drop 34 ([0] @ public_of cr ours @ ct) = ct"
    using pk(1) by simp_all
  then show ?thesis using ct pk k h ss' unfolding outbound_noise_act_def inbound_noise_act_def
    by (simp add: Let_def st1_def [symmetric] ss_def [symmetric])
qed

section \<open>The three acts\<close>

definition start_state :: "'sk crypto \<Rightarrow> 'sk \<Rightarrow> BidirectionalNoiseState" where
  "start_state cr node_secret = \<lparr>bn_h = sha256_hash cr (NOISE_H @ public_of cr node_secret), bn_ck = NOISE_CK\<rparr>"

lemma act_one:
  assumes "keys_ok cr valid_pk"
  shows "\<exists>act st. get_act_one cr (new_outbound cr (public_of cr node_r) eph_i) =
      (\<lparr>pce_their_node_id = Some (public_of cr node_r), pce_noise_state = InProgress PostActOne (Outbound eph_i) st\<rparr>, Ok act) \<and>
    length act = 50 \<and>
    (\<exists>k. inbound_noise_act cr valid_pk (start_state cr node_r) act node_r = (st, Ok (public_of cr eph_i, k)))"
  using act_delivered [OF assms, of "start_state cr node_r" eph_i node_r]
  by (auto simp: get_act_one_def new_outbound_def start_state_def)

lemma act_two:
  assumes "keys_ok cr valid_pk" "length act1 = 50" "inbound_noise_act cr valid_pk (start_state cr node_r) act1 node_r = (st, Ok (public_of cr eph_i, k1))"
  shows "\<exists>act k st'. process_act_one_with_keys cr valid_pk act1 node_r eph_r (new_inbound cr node_r) =
      (\<lparr>pce_their_node_id = None, pce_noise_state = InProgress PostActTwo (Inbound (Some (public_of cr eph_i)) (Some eph_r) (Some k)) st'\<rparr>, Ok act) \<and>
    length act = 50 \<and> length k = 32 \<and> inbound_noise_act cr valid_pk st act eph_i = (st', Ok (public_of cr eph_r, k))"
  using act_delivered [OF assms(1), of st eph_r eph_i] assms(2,3)
  by (auto simp: process_act_one_with_keys_def new_inbound_def start_state_def)

lemma act_three:
  assumes "keys_ok cr valid_pk" "length act2 = 50" "length k = 32" "inbound_noise_act cr valid_pk st act2 eph_i = (st', Ok (public_of cr eph_r, k))"
  shows "\<exists>act ck k1 k2. length act = 66 \<and> length ck = 32 \<and> length k1 = 32 \<and> length k2 = 32 \<and>
    process_act_two cr valid_pk act2 node_i \<lparr>pce_their_node_id = Some their_id, pce_noise_state = InProgress PostActOne (Outbound eph_i) st\<rparr> =
      (\<lparr>pce_their_node_id = Some their_id, pce_noise_state = Finished (finish_keys k1 k2 ck)\<rparr>, Ok (act, their_id)) \<and>
    process_act_three cr valid_pk act \<lparr>pce_their_node_id = None, pce_noise_state = InProgress PostActTwo (Inbound ie (Some eph_r) (Some k)) st'\<rparr> =
      (\<lparr>pce_their_node_id = Some (public_of cr node_i), pce_noise_state = Finished (finish_keys k2 k1 ck)\<rparr>, Ok (public_of cr node_i))"
proof -
  let ?id = "public_of cr node_i"
  have pk: "length ?id = 33" "valid_pk ?id" "ecdh cr ?id eph_r = ecdh cr (public_of cr eph_r) node_i" and ok: "crypto_ok cr"
    using assms(1) by (auto simp: keys_ok_def)
  obtain c1 where c1: "encrypt_with_ad 1 k (bn_h st') ?id = Ok c1" "length c1 = 49" "decrypt_with_ad 33 1 k (bn_h st') c1 = Ok ?id"
    using seal_open [OF assms(3), of ?id 1 "bn_h st'"] pk(1) by (auto simp: aead_max_def)
  obtain st2 tk where h: "noise_hkdf cr (mix_hash cr c1 st') (ecdh cr (public_of cr eph_r) node_i) = (st2, tk)" by fastforce
  have l: "length tk = 32" "length (bn_ck st2) = 32"
    using h hkdf_lengths [OF ok, of "bn_ck (mix_hash cr c1 st')" "ecdh cr (public_of cr eph_r) node_i"]
    by (auto simp: noise_hkdf_def split: prod.splits)
  obtain c2 where c2: "encrypt_with_ad 0 tk (bn_h st2) [] = Ok c2" "length c2 = 16" "decrypt_with_ad 0 0 tk (bn_h st2) c2 = Ok []"
    using seal_open [OF l(1), of "[]" 0 "bn_h st2"] by auto
  obtain k1 k2 where k: "hkdf_extract_expand_twice cr (bn_ck st2) [] = (k1, k2)" by fastforce
  let ?act = "[0] @ c1 @ c2"
  have act: "length ?act = 66" "?act ! 0 = 0" "take 49 (drop 1 ?act) = c1" "drop 50 ?act = c2" using c1(2) c2(2) by simp_all
  have "process_act_two cr valid_pk act2 node_i \<lparr>pce_their_node_id = Some their_id, pce_noise_state = InProgress PostActOne (Outbound eph_i) st\<rparr> =
      (\<lparr>pce_their_node_id = Some their_id, pce_noise_state = Finished (finish_keys k1 k2 (bn_ck st2))\<rparr>, Ok (?act, their_id))"
    using assms(2,4) c1(1) c2(1) h k by (simp add: process_act_two_def Let_def)
  moreover have "process_act_three cr valid_pk ?act \<lparr>pce_their_node_id = None, pce_noise_state = InProgress PostActTwo (Inbound ie (Some eph_r) (Some k)) st'\<rparr> =
      (\<lparr>pce_their_node_id = Some ?id, pce_noise_state = Finished (finish_keys k2 k1 (bn_ck st2))\<rparr>, Ok ?id)"
    unfolding process_act_three_def act using c1(3) c2(3) pk h k by (simp add: Let_def)
  ultimately show ?thesis using act(1) l(2) hkdf_lengths [OF ok k] by blast
qed

section \<open>Any reliable pair of channels\<close>

text \<open>Two ends that take turns: \<open>True\<close> marks what the first end sends. Whatever keeps the pair in step delivers
  every message, in order, in both directions.\<close>

fun exchange ::
  "('s \<Rightarrow> 'm \<Rightarrow> (LightningError, 's \<times> 'w) outcome) \<Rightarrow> ('s \<Rightarrow> 'w \<Rightarrow> (LightningError, 's \<times> 'm) outcome) \<Rightarrow> (bool \<times> 'm) list \<Rightarrow> 's \<times> 's \<Rightarrow>
   (LightningError, ('s \<times> 's) \<times> (bool \<times> 'm) list) outcome" where
  "exchange send receive [] ab = Ok (ab, [])"
| "exchange send receive ((True, m) # evs) (a, b) =
     and_then (send a m) (\<lambda>(a1, w). and_then (receive b w) (\<lambda>(b1, got).
       map_ok (\<lambda>(ab, rest). (ab, (True, got) # rest)) (exchange send receive evs (a1, b1))))"
| "exchange send receive ((False, m) # evs) (a, b) =
     and_then (send b m) (\<lambda>(b1, w). and_then (receive a w) (\<lambda>(a1, got).
       map_ok (\<lambda>(ab, rest). (ab, (False, got) # rest)) (exchange send receive evs (a1, b1))))"

locale in_step =
  fixes send :: "'s \<Rightarrow> 'm \<Rightarrow> (LightningError, 's \<times> 'w) outcome"
    and receive :: "'s \<Rightarrow> 'w \<Rightarrow> (LightningError, 's \<times> 'm) outcome"
    and paired :: "'s \<Rightarrow> 's \<Rightarrow> bool"
    and fits :: "'m \<Rightarrow> bool"
  assumes paired_sym: "paired a b \<Longrightarrow> paired b a"
    and step: "paired a b \<Longrightarrow> fits m \<Longrightarrow> \<exists>a1 w b1. send a m = Ok (a1, w) \<and> receive b w = Ok (b1, m) \<and> paired a1 b1"
begin

lemma delivered:
  "paired a b \<Longrightarrow> \<forall>(d, m)\<in>set evs. fits m \<Longrightarrow> \<exists>a1 b1. exchange send receive evs (a, b) = Ok ((a1, b1), evs) \<and> paired a1 b1"
proof (induction evs arbitrary: a b)
  case (Cons e evs)
  obtain d m where e: "e = (d, m)" by fastforce
  then have m: "fits m" "\<forall>(d, m)\<in>set evs. fits m" using Cons.prems(2) by auto
  show ?case
  proof (cases d)
    case True
    obtain a1 w b1 where s: "send a m = Ok (a1, w)" "receive b w = Ok (b1, m)" "paired a1 b1" using step [OF Cons.prems(1) m(1)] by blast
    then show ?thesis using Cons.IH [OF s(3) m(2)] e True by auto
  next
    case False
    obtain b1 w a1 where s: "send b m = Ok (b1, w)" "receive a w = Ok (a1, m)" "paired b1 a1"
      using step [OF paired_sym [OF Cons.prems(1)] m(1)] by blast
    then show ?thesis using Cons.IH [OF paired_sym [OF s(3)] m(2)] e False by auto
  qed
qed simp

end

section \<open>Transport of messages\<close>

definition noise_send :: "'sk crypto \<Rightarrow> 'sk PeerChannelEncryptor \<Rightarrow> bytes \<Rightarrow> (LightningError, 'sk PeerChannelEncryptor \<times> bytes) outcome" where
  "noise_send cr p msg = (let (p1, r) = encrypt_message cr msg p in map_ok (\<lambda>w. (p1, w)) r)"

definition noise_receive :: "'sk crypto \<Rightarrow> 'sk PeerChannelEncryptor \<Rightarrow> bytes \<Rightarrow> (LightningError, 'sk PeerChannelEncryptor \<times> bytes) outcome" where
  "noise_receive cr p w =
     (let (p1, r) = decrypt_length_header cr (take 18 w) p in
      and_then r (\<lambda>len. let (p2, r2) = decrypt_message (take (unat len + 16) (drop 18 w)) p1 in map_ok (\<lambda>m. (p2, m)) r2))"

definition half_paired :: "transport_keys \<Rightarrow> transport_keys \<Rightarrow> bool" where
  "half_paired s r \<longleftrightarrow> tk_sk s = tk_rk r \<and> tk_sn s = tk_rn r \<and> tk_sck s = tk_rck r \<and> length (tk_rk r) = 32 \<and> length (tk_rck r) = 32 \<and> tk_rn r \<le> 1000 \<and> even (unat (tk_rn r))"

definition noise_paired :: "'sk PeerChannelEncryptor \<Rightarrow> 'sk PeerChannelEncryptor \<Rightarrow> bool" where
  "noise_paired a b \<longleftrightarrow> (\<exists>s r. pce_noise_state a = Finished s \<and> pce_noise_state b = Finished r \<and> half_paired s r \<and> half_paired r s)"

lemma two_nonces:
  assumes "(n :: u64) < 1000" "even (unat n)"
  shows "n + 1 + 1 \<le> 1000" "even (unat (n + 1 + 1))"
proof -
  have n: "unat n < 1000" using assms(1) by (simp add: word_less_nat_alt)
  then have "unat (n + 1 + 1) = unat n + 2" by (simp add: unat_word_ariths)
  moreover have "unat n \<noteq> 999" using assms(2) by auto
  ultimately show "n + 1 + 1 \<le> 1000" "even (unat (n + 1 + 1))" using n assms(2) by (simp_all add: word_le_nat_alt)
qed

text \<open>A message travels as two sealed parts: its length in 18 bytes, then the message itself.\<close>

definition same_receiving :: "transport_keys \<Rightarrow> transport_keys \<Rightarrow> bool" where
  "same_receiving t u \<longleftrightarrow> tk_rk u = tk_rk t \<and> tk_rn u = tk_rn t \<and> tk_rck u = tk_rck t"

definition same_sending :: "transport_keys \<Rightarrow> transport_keys \<Rightarrow> bool" where
  "same_sending t u \<longleftrightarrow> tk_sk u = tk_sk t \<and> tk_sn u = tk_sn t \<and> tk_sck u = tk_sck t"

lemma noise_step_parts:
  assumes "crypto_ok cr" "pce_noise_state a = Finished s" "pce_noise_state b = Finished r" "half_paired s r" "length m \<le> LN_MAX_MSG_LEN"
  shows "\<exists>s2 r2 w1 w2 b0. encrypt_message cr m a = (a\<lparr>pce_noise_state := Finished s2\<rparr>, Ok (w1 @ w2)) \<and> length w1 = 18 \<and> length w2 = length m + 16 \<and>
    decrypt_length_header cr w1 b = (b0, Ok (word_of_nat (length m))) \<and> decrypt_message w2 b0 = (b\<lparr>pce_noise_state := Finished r2\<rparr>, Ok m) \<and>
    half_paired s2 r2 \<and> same_receiving s s2 \<and> same_sending r r2 \<and> (\<exists>t. pce_noise_state b0 = Finished t)"
proof -
  define s1 r1 where d: "s1 = rotate_send cr s" "r1 = rotate_receive cr r"
  have p1: "half_paired s1 r1" "tk_sn s1 < 1000" "same_receiving s s1" "same_sending r r1"
    using assms(4) hkdf_lengths [OF assms(1), of "tk_rck r" "tk_rk r"]
    by (auto simp: half_paired_def same_receiving_def same_sending_def d rotate_send_def rotate_receive_def split: prod.splits)
  let ?l = "u16_to_be_bytes (word_of_nat (length m))"
  have k: "length (tk_sk s1) = 32" using p1(1) by (simp add: half_paired_def)
  obtain w1 where w1: "encrypt_with_ad (tk_sn s1) (tk_sk s1) [] ?l = Ok w1" "length w1 = 18" "decrypt_with_ad 2 (tk_sn s1) (tk_sk s1) [] w1 = Ok ?l"
    using seal_open [OF k, of ?l "tk_sn s1" "[]"] by (auto simp: aead_max_def)
  obtain w2 where w2: "encrypt_with_ad (tk_sn s1 + 1) (tk_sk s1) [] m = Ok w2" "length w2 = length m + 16"
      "decrypt_with_ad (length m) (tk_sn s1 + 1) (tk_sk s1) [] w2 = Ok m"
    using seal_open [OF k, of m "tk_sn s1 + 1" "[]"] assms(5) by (auto simp: aead_max_def LN_MAX_MSG_LEN_def)
  let ?s = "s1\<lparr>tk_sn := tk_sn s1 + 1 + 1\<rparr>" and ?r = "r1\<lparr>tk_rn := tk_rn r1 + 1 + 1\<rparr>"
  have "encrypt_message cr m a = (a\<lparr>pce_noise_state := Finished ?s\<rparr>, Ok (w1 @ w2))"
    using assms(2,5) w1(1) w2(1) by (simp add: encrypt_message_def Let_def flip: d)
  moreover have "decrypt_length_header cr w1 b = (b\<lparr>pce_noise_state := Finished (r1\<lparr>tk_rn := tk_rn r1 + 1\<rparr>)\<rparr>, Ok (word_of_nat (length m)))"
    using assms(3) w1(2,3) p1(1) by (simp add: decrypt_length_header_def Let_def half_paired_def flip: d)
  moreover have "decrypt_message w2 (b\<lparr>pce_noise_state := Finished (r1\<lparr>tk_rn := tk_rn r1 + 1\<rparr>)\<rparr>) = (b\<lparr>pce_noise_state := Finished ?r\<rparr>, Ok m)"
    using assms(5) w2(2,3) p1(1) by (simp add: decrypt_message_def half_paired_def)
  moreover have "half_paired ?s ?r" "same_receiving s ?s" "same_sending r ?r"
    using p1 two_nonces [OF p1(2)] by (simp_all add: half_paired_def same_receiving_def same_sending_def)
  ultimately show ?thesis using w1(2) w2(2) by fastforce
qed

lemma noise_step:
  assumes "crypto_ok cr" "noise_paired a b" "length m \<le> LN_MAX_MSG_LEN"
  shows "\<exists>a1 w b1. noise_send cr a m = Ok (a1, w) \<and> noise_receive cr b w = Ok (b1, m) \<and> noise_paired a1 b1"
proof -
  obtain s r where sr: "pce_noise_state a = Finished s" "pce_noise_state b = Finished r" "half_paired s r" "half_paired r s"
    using assms(2) by (auto simp: noise_paired_def)
  obtain s2 r2 w1 w2 b0 where w: "encrypt_message cr m a = (a\<lparr>pce_noise_state := Finished s2\<rparr>, Ok (w1 @ w2))" "length w1 = 18" "length w2 = length m + 16"
    "decrypt_length_header cr w1 b = (b0, Ok (word_of_nat (length m)))" "decrypt_message w2 b0 = (b\<lparr>pce_noise_state := Finished r2\<rparr>, Ok m)"
    "half_paired s2 r2" "same_receiving s s2" "same_sending r r2"
    using noise_step_parts [OF assms(1) sr(1-3) assms(3)] by blast
  have "unat (word_of_nat (length m) :: u16) = length m"
    using assms(3) by (simp add: LN_MAX_MSG_LEN_def unat_of_nat take_bit_eq_mod)
  then have "noise_send cr a m = Ok (a\<lparr>pce_noise_state := Finished s2\<rparr>, w1 @ w2)" "noise_receive cr b (w1 @ w2) = Ok (b\<lparr>pce_noise_state := Finished r2\<rparr>, m)"
    using w by (simp_all add: noise_send_def noise_receive_def)
  moreover have "half_paired r2 s2" using sr(4) w(7,8) by (simp add: half_paired_def same_receiving_def same_sending_def)
  ultimately show ?thesis using w(6) by (simp add: noise_paired_def)
qed

interpretation transport: in_step "noise_send cr" "noise_receive cr" "\<lambda>a b. crypto_ok cr \<and> noise_paired a b" "\<lambda>m. length m \<le> LN_MAX_MSG_LEN"
proof
  show "crypto_ok cr \<and> noise_paired b a" if "crypto_ok cr \<and> noise_paired a b" for a b :: "'a PeerChannelEncryptor"
    using that by (auto simp: noise_paired_def)
  show "\<exists>a1 w b1. noise_send cr a m = Ok (a1, w) \<and> noise_receive cr b w = Ok (b1, m) \<and> crypto_ok cr \<and> noise_paired a1 b1"
    if "crypto_ok cr \<and> noise_paired a b" "length m \<le> LN_MAX_MSG_LEN" for a b :: "'a PeerChannelEncryptor" and m
    using noise_step [of cr a b m] that by blast
qed

lemma open_verdict:
  assumes "length key = 32" "16 \<le> length w" "length w \<le> aead_max"
  shows "\<exists>c otk. aead_start key (u64_to_le_bytes n) = Ok (c, otk) \<and>
    (\<forall>k. k = length w - 16 \<longrightarrow>
      (if drop k w = poly1305_spec (take 32 otk) (mac_data h (take k w)) then \<exists>m. length m = k \<and> decrypt_with_ad k n key h w = Ok m
       else decrypt_with_ad k n key h w = Err (''Bad MAC'', DisconnectPeer None)))"
proof -
  let ?k = "length w - 16"
  obtain c otk c' y where c: "aead_start key (u64_to_le_bytes n) = Ok (c, otk)" "cc_ok c" "process c (take ?k w) = Ok (c', y)"
    using aead_start_total [OF assms(1) length_u64_to_le_bytes, of "take ?k w" n] assms(3) by fastforce
  obtain a where a: "aead_new key (replicate 4 0 @ u64_to_le_bytes n) h = Ok a" "ap_cipher a = c" "aead_at (take 32 otk) h [] a"
    using aead_new_at [OF c(1) assms(1)] by auto
  obtain a' where "aead_decrypt (take ?k w) (drop ?k w) a =
      Ok (a', if drop ?k w = poly1305_spec (take 32 otk) (mac_data h (take ?k w)) then Some y else None)"
    using aead_decrypt_at [OF a(3), of "take ?k w" c' y "drop ?k w"] a(2) c(3) assms(2) by auto
  then show ?thesis using a(1) c(1) process_involution [OF c(3,2)] assms(2) by (auto simp: decrypt_with_ad_def Let_def)
qed

section \<open>Theorems\<close>

text \<open>C7. Two peers that run the handshake end up talking. The initiator knows the responder's node key; the three
  acts run without error or panic on both sides, each side learns exactly the node key of the other, and
  afterwards every sequence of messages of at most 65535 bytes, sent from either end in any order, is
  received unchanged and in order, through any number of key rotations.\<close>

theorem noise_connects:
  assumes "keys_ok cr valid_pk" "\<forall>(d, m)\<in>set msgs. length m \<le> LN_MAX_MSG_LEN"
  shows "\<exists>i1 act1 r1 act2 i2 act3 r2 ends.
    get_act_one cr (new_outbound cr (public_of cr node_r) eph_i) = (i1, Ok act1) \<and>
    process_act_one_with_keys cr valid_pk act1 node_r eph_r (new_inbound cr node_r) = (r1, Ok act2) \<and>
    process_act_two cr valid_pk act2 node_i i1 = (i2, Ok (act3, public_of cr node_r)) \<and>
    process_act_three cr valid_pk act3 r1 = (r2, Ok (public_of cr node_i)) \<and>
    pce_their_node_id i2 = Some (public_of cr node_r) \<and> pce_their_node_id r2 = Some (public_of cr node_i) \<and>
    is_ready_for_encryption i2 \<and> is_ready_for_encryption r2 \<and>
    exchange (noise_send cr) (noise_receive cr) msgs (i2, r2) = Ok (ends, msgs)"
proof -
  obtain act1 st k1 where a1: "length act1 = 50" "get_act_one cr (new_outbound cr (public_of cr node_r) eph_i) =
      (\<lparr>pce_their_node_id = Some (public_of cr node_r), pce_noise_state = InProgress PostActOne (Outbound eph_i) st\<rparr>, Ok act1)"
    "inbound_noise_act cr valid_pk (start_state cr node_r) act1 node_r = (st, Ok (public_of cr eph_i, k1))"
    using act_one [OF assms(1)] by blast
  obtain act2 k st' where a2: "length act2 = 50" "length k = 32" "process_act_one_with_keys cr valid_pk act1 node_r eph_r (new_inbound cr node_r) =
      (\<lparr>pce_their_node_id = None, pce_noise_state = InProgress PostActTwo (Inbound (Some (public_of cr eph_i)) (Some eph_r) (Some k)) st'\<rparr>, Ok act2)"
    "inbound_noise_act cr valid_pk st act2 eph_i = (st', Ok (public_of cr eph_r, k))"
    using act_two [OF assms(1) a1(1,3), of eph_r] by blast
  obtain act3 ck x y where a3: "length ck = 32" "length x = 32" "length y = 32"
    "process_act_two cr valid_pk act2 node_i \<lparr>pce_their_node_id = Some (public_of cr node_r), pce_noise_state = InProgress PostActOne (Outbound eph_i) st\<rparr> =
      (\<lparr>pce_their_node_id = Some (public_of cr node_r), pce_noise_state = Finished (finish_keys x y ck)\<rparr>, Ok (act3, public_of cr node_r))"
    "process_act_three cr valid_pk act3 \<lparr>pce_their_node_id = None, pce_noise_state = InProgress PostActTwo (Inbound (Some (public_of cr eph_i)) (Some eph_r) (Some k)) st'\<rparr> =
      (\<lparr>pce_their_node_id = Some (public_of cr node_i), pce_noise_state = Finished (finish_keys y x ck)\<rparr>, Ok (public_of cr node_i))"
    using act_three [OF assms(1) a2(1,2,4), of node_i "public_of cr node_r"] by blast
  let ?i = "\<lparr>pce_their_node_id = Some (public_of cr node_r), pce_noise_state = Finished (finish_keys x y ck)\<rparr>"
  let ?r = "\<lparr>pce_their_node_id = Some (public_of cr node_i), pce_noise_state = Finished (finish_keys y x ck)\<rparr>"
  have "crypto_ok cr \<and> noise_paired ?i ?r" using assms(1) a3(1-3) by (simp add: keys_ok_def noise_paired_def half_paired_def finish_keys_def)
  then obtain ends where "exchange (noise_send cr) (noise_receive cr) msgs (?i, ?r) = Ok (ends, msgs)"
    using transport.delivered [of cr ?i ?r msgs] assms(2) by auto
  then show ?thesis using a1(2) a2(3) a3(4,5) by (auto simp: is_ready_for_encryption_def)
qed

definition toy_crypto :: "nat crypto" where
  "toy_crypto = \<lparr>hmac_sha256 = (\<lambda>_ _. replicate 32 1), sha256_hash = (\<lambda>_. replicate 32 2), ecdh = (\<lambda>_ _. replicate 32 3),
     public_of = (\<lambda>s. replicate 33 (word_of_nat s)), sk_mul = (\<lambda>s _. Some s)\<rparr>"

theorem noise_connects_witness:
  "keys_ok toy_crypto (\<lambda>_. True) \<and> length [1, 2 :: u8] \<le> LN_MAX_MSG_LEN \<and> length [3 :: u8] \<le> LN_MAX_MSG_LEN \<and>
   (\<exists>i1 act1 r1 act2 i2 act3 r2 ends.
    get_act_one toy_crypto (new_outbound toy_crypto (public_of toy_crypto 4) 5) = (i1, Ok act1) \<and>
    process_act_one_with_keys toy_crypto (\<lambda>_. True) act1 4 6 (new_inbound toy_crypto 4) = (r1, Ok act2) \<and>
    process_act_two toy_crypto (\<lambda>_. True) act2 7 i1 = (i2, Ok (act3, public_of toy_crypto 4)) \<and>
    process_act_three toy_crypto (\<lambda>_. True) act3 r1 = (r2, Ok (public_of toy_crypto 7)) \<and>
    exchange (noise_send toy_crypto) (noise_receive toy_crypto) [(True, [1, 2]), (False, [3])] (i2, r2) = Ok (ends, [(True, [1, 2]), (False, [3])]))"
proof -
  have a: "keys_ok toy_crypto (\<lambda>_. True)" by (simp add: keys_ok_def crypto_ok_def toy_crypto_def)
  have b: "\<forall>(d, m)\<in>set [(True, [1, 2]), (False, [3 :: u8])]. length m \<le> LN_MAX_MSG_LEN" by (simp add: LN_MAX_MSG_LEN_def)
  have l: "length [1, 2 :: u8] \<le> LN_MAX_MSG_LEN" "length [3 :: u8] \<le> LN_MAX_MSG_LEN" by (simp_all add: LN_MAX_MSG_LEN_def)
  show ?thesis using a l noise_connects [OF a b, of 4 5 6 7] by blast
qed



end
