(* ===== verification/Peer_Handler.thy ===== *)
theory Peer_Handler
  imports Wire_Correct Noise
begin

text \<open>
  One connection of \<open>lightning/src/ln/peer_handler.rs\<close>: the buffers of a peer, the loop that turns bytes of the socket into
  handshake steps and messages, the dispatch of messages to the handlers, and the loop that hands queued bytes to the socket.
  The handlers behind the traits \<open>ChannelMessageHandler\<close>, \<open>RoutingMessageHandler\<close> and \<open>CustomMessageHandler\<close> are
  functions on a state of their own, and so is the socket behind \<open>SocketDescriptor\<close>. Logging is left out except for the
  \<open>unwrap\<close> in the arguments of a log line.
\<close>

unbundle bit_operations_syntax

section \<open>Data\<close>

datatype PeerHandleError = PeerHandleError (no_connection_possible: bool)

datatype MessageHandlingError = OfPeer PeerHandleError | OfMessage LightningError

definition FORWARD_INIT_SYNC_BUFFER_LIMIT_RATIO :: nat where "FORWARD_INIT_SYNC_BUFFER_LIMIT_RATIO = 2"
definition OUTBOUND_BUFFER_LIMIT_DROP_GOSSIP :: nat where
  "OUTBOUND_BUFFER_LIMIT_DROP_GOSSIP = OUTBOUND_BUFFER_LIMIT_READ_PAUSE * FORWARD_INIT_SYNC_BUFFER_LIMIT_RATIO"
definition MAX_BUFFER_DRAIN_TICK_INTERVALS_PER_PEER :: u64 where "MAX_BUFFER_DRAIN_TICK_INTERVALS_PER_PEER = 4"
definition BUFFER_DRAIN_MSGS_PER_TICK :: nat where "BUFFER_DRAIN_MSGS_PER_TICK = 32"

type_synonym i8 = "8 word"

record 'sk Peer =
  channel_encryptor :: "'sk PeerChannelEncryptor"
  their_node_id :: "bytes option"
  their_features :: "features option"
  their_net_address :: "NetAddress option"
  pending_outbound_buffer :: "bytes list"
  pending_outbound_buffer_first_msg_offset :: nat
  awaiting_write_event :: bool
  pending_read_buffer :: bytes
  pending_read_buffer_pos :: nat
  pending_read_is_header :: bool
  sync_status :: InitSyncTracker
  msgs_sent_since_pong :: nat
  awaiting_pong_timer_tick_intervals :: i8
  received_message_since_timer_tick :: bool
  sent_gossip_timestamp_filter :: bool

text \<open>A counter of connections that gives 64 bits also where \<open>usize\<close> has 32 (\<open>util/atomic_counter.rs\<close>).\<close>

record AtomicCounter =
  counter_low :: u64
  counter_high :: u64

definition get_increment :: "AtomicCounter \<Rightarrow> AtomicCounter \<times> u64" where
  "get_increment c =
     (let low = counter_low c;
          high = counter_high c;
          c1 = c\<lparr>counter_low := low + 1, counter_high := (if low = 0 then high + 1 else high)\<rparr>
      in (c1, push_bit 32 high OR low))"

text \<open>The handlers of messages: \<open>chan_handle\<close>, \<open>route_gossip\<close> and \<open>route_query\<close> stand for the methods named after the message they take.\<close>

record ('c, 'h) handlers =
  routing_graph :: "'h \<Rightarrow> NetworkGraph"
  route_connected :: "bytes \<Rightarrow> Init \<Rightarrow> 'h \<Rightarrow> 'h"
  chan_connected :: "bytes \<Rightarrow> Init \<Rightarrow> 'h \<Rightarrow> 'h"
  chan_disconnected :: "bytes \<Rightarrow> bool \<Rightarrow> 'h \<Rightarrow> 'h"
  chan_handle :: "bytes \<Rightarrow> features \<Rightarrow> 'c Message \<Rightarrow> 'h \<Rightarrow> 'h"
  route_gossip :: "'c Message \<Rightarrow> 'h \<Rightarrow> 'h \<times> (LightningError, bool) outcome"
  route_query :: "bytes \<Rightarrow> 'c Message \<Rightarrow> 'h \<Rightarrow> 'h \<times> (LightningError, unit) outcome"
  custom_handle :: "bytes \<Rightarrow> 'c \<Rightarrow> 'h \<Rightarrow> 'h \<times> (LightningError, unit) outcome"

record ('sk, 'c, 'h) peer_env =
  env_crypto :: "'sk crypto"
  env_wire :: wire_lib
  env_custom :: "'c custom_lib"
  env_handlers :: "('c, 'h) handlers"
  our_node_secret :: 'sk
  ephemeral_random_data :: bytes
  secret_from_slice :: "bytes \<Rightarrow> 'sk option"

record ('d, 's) socket_lib =
  send_data :: "'d \<Rightarrow> bytes \<Rightarrow> bool \<Rightarrow> 's \<Rightarrow> 's \<times> nat"
  disconnect_socket :: "'d \<Rightarrow> 's \<Rightarrow> 's"

definition get_ephemeral_key :: "('sk, 'c, 'h) peer_env \<Rightarrow> AtomicCounter \<Rightarrow> AtomicCounter \<times> (unit, 'sk) outcome" where
  "get_ephemeral_key env c =
     (let (c1, counter) = get_increment c in
      (c1, unwrap (secret_from_slice env (sha256_hash (env_crypto env) (ephemeral_random_data env @ u64_to_le_bytes counter)))))"

fun filter_addresses :: "NetAddress option \<Rightarrow> NetAddress option" where
  "filter_addresses (Some (IPv4 [a, b, c, d] port)) =
     (if a = 10 \<or> a = 0 \<or> (a = 100 \<and> 64 \<le> b \<and> b \<le> 127) \<or> a = 127 \<or> (a = 169 \<and> b = 254) \<or> (a = 172 \<and> 16 \<le> b \<and> b \<le> 31) \<or>
         (a = 192 \<and> b = 168) \<or> (a = 192 \<and> b = 88 \<and> c = 99)
      then None else Some (IPv4 [a, b, c, d] port))"
| "filter_addresses (Some (IPv6 addr port)) = (if 0x20 \<le> hd addr \<and> hd addr \<le> 0x3F then Some (IPv6 addr port) else None)"
| "filter_addresses ip_address = ip_address"

definition is_gossip_msg :: "u16 \<Rightarrow> bool" where
  "is_gossip_msg t \<longleftrightarrow> t \<in> {256, 258, 257, 263, 264, 261, 262}"

text \<open>A connection before the first byte: the next act of the handshake has 50 bytes in either direction.\<close>

definition new_peer :: "'sk PeerChannelEncryptor \<Rightarrow> NetAddress option \<Rightarrow> 'sk Peer" where
  "new_peer encryptor remote_network_address =
     \<lparr>channel_encryptor = encryptor, their_node_id = None, their_features = None, their_net_address = remote_network_address,
      pending_outbound_buffer = [], pending_outbound_buffer_first_msg_offset = 0, awaiting_write_event = False,
      pending_read_buffer = replicate 50 0, pending_read_buffer_pos = 0, pending_read_is_header = False,
      sync_status = NoSyncRequested, msgs_sent_since_pong = 0, awaiting_pong_timer_tick_intervals = 0,
      received_message_since_timer_tick = False, sent_gossip_timestamp_filter = False\<rparr>"

section \<open>Sending\<close>

definition enqueue_encoded_message :: "('sk, 'c, 'h) peer_env \<Rightarrow> bytes \<Rightarrow> 'sk Peer \<Rightarrow> (unit, 'sk Peer) outcome" where
  "enqueue_encoded_message env encoded p =
     (case encrypt_message (env_crypto env) encoded (channel_encryptor p) of
        (enc, Ok w) \<Rightarrow> Ok (p\<lparr>msgs_sent_since_pong := msgs_sent_since_pong p + 1, channel_encryptor := enc,
                             pending_outbound_buffer := pending_outbound_buffer p @ [w]\<rparr>)
      | _ \<Rightarrow> Panic)"

definition enqueue_message :: "('sk, 'c, 'h) peer_env \<Rightarrow> 'c Message \<Rightarrow> 'sk Peer \<Rightarrow> (unit, 'sk Peer) outcome" where
  "enqueue_message env m p =
     (case their_node_id p of
        None \<Rightarrow> Panic
      | Some _ \<Rightarrow> enqueue_encoded_message env (wire_write (env_wire env) (env_custom env) m) p)"

fun enqueue_all :: "('sk, 'c, 'h) peer_env \<Rightarrow> 'c Message list \<Rightarrow> 'sk Peer \<Rightarrow> (unit, 'sk Peer) outcome" where
  "enqueue_all env [] p = Ok p"
| "enqueue_all env (m # ms) p = (case enqueue_message env m p of Ok p1 \<Rightarrow> enqueue_all env ms p1 | _ \<Rightarrow> Panic)"

definition maybe_send_extra_ping :: "('sk, 'c, 'h) peer_env \<Rightarrow> 'sk Peer \<Rightarrow> (unit, 'sk Peer) outcome" where
  "maybe_send_extra_ping env p =
     (if awaiting_pong_timer_tick_intervals p = 0
      then enqueue_message env (MsgPing \<lparr>ping_ponglen = 0, ping_byteslen = 64\<rparr>) (p\<lparr>awaiting_pong_timer_tick_intervals := -1\<rparr>)
      else Ok p)"

fun sync_wire :: "sync_message \<Rightarrow> 'c Message" where
  "sync_wire (SyncChannel m) = MsgChannelAnnouncement m"
| "sync_wire (SyncUpdate m) = MsgChannelUpdate m"
| "sync_wire (SyncNode m) = MsgNodeAnnouncement m"

text \<open>The part of the write loop that refills the queue: the next page of the initial sync, and a ping when many messages are out.\<close>

definition queue_sync :: "('sk, 'c, 'h) peer_env \<Rightarrow> 'h \<Rightarrow> 'sk Peer \<Rightarrow> (unit, 'sk Peer) outcome" where
  "queue_sync env h p =
     (if length (pending_outbound_buffer p) < OUTBOUND_BUFFER_LIMIT_READ_PAUSE \<and> msgs_sent_since_pong p < BUFFER_DRAIN_MSGS_PER_TICK
      then let (msgs, st) = sync_round (routing_graph (env_handlers env) h) (length (pending_outbound_buffer p)) (sync_status p) in
           map_ok (\<lambda>p1. p1\<lparr>sync_status := st\<rparr>) (enqueue_all env (map sync_wire msgs) p)
      else Ok p)"

definition refill :: "('sk, 'c, 'h) peer_env \<Rightarrow> 'h \<Rightarrow> 'sk Peer \<Rightarrow> (unit, 'sk Peer) outcome" where
  "refill env h p =
     and_then (queue_sync env h p) (\<lambda>p1. if msgs_sent_since_pong p1 \<ge> BUFFER_DRAIN_MSGS_PER_TICK then maybe_send_extra_ping env p1 else Ok p1)"

lemma enqueue_Ok:
  assumes "enqueue_message env m p = Ok q"
  shows "msgs_sent_since_pong q = msgs_sent_since_pong p + 1" "awaiting_write_event q = awaiting_write_event p"
    "awaiting_pong_timer_tick_intervals q = awaiting_pong_timer_tick_intervals p" "\<exists>w. pending_outbound_buffer q = pending_outbound_buffer p @ [w]"
  using assms by (auto simp: enqueue_message_def enqueue_encoded_message_def split: option.splits prod.splits outcome.splits)

lemma enqueue_all_Ok:
  "enqueue_all env ms p = Ok q \<Longrightarrow> msgs_sent_since_pong q = msgs_sent_since_pong p + length ms \<and>
     awaiting_pong_timer_tick_intervals q = awaiting_pong_timer_tick_intervals p \<and>
     length (pending_outbound_buffer q) = length (pending_outbound_buffer p) + length ms"
proof (induction ms arbitrary: p)
  case (Cons m ms)
  then obtain p1 where "enqueue_message env m p = Ok p1" "enqueue_all env ms p1 = Ok q" by (auto split: outcome.splits)
  then show ?case using Cons.IH [of p1] enqueue_Ok [of env m p p1] by auto
qed simp

text \<open>A round of the loop that does not stop either sends gossip, of which there are few until the next pong, or sends the one
  ping, or takes a message off the queue.\<close>

lemma refill_progress:
  assumes "refill env h p = Ok q"
  shows "(32 - msgs_sent_since_pong q, if awaiting_pong_timer_tick_intervals q = 0 then 1 else 0 :: nat, length (pending_outbound_buffer q)) =
       (32 - msgs_sent_since_pong p, if awaiting_pong_timer_tick_intervals p = 0 then 1 else 0, length (pending_outbound_buffer p)) \<or>
     32 - msgs_sent_since_pong q < 32 - msgs_sent_since_pong p \<or>
     (32 - msgs_sent_since_pong q = 32 - msgs_sent_since_pong p \<and> awaiting_pong_timer_tick_intervals p = 0 \<and> awaiting_pong_timer_tick_intervals q \<noteq> 0)"
proof -
  obtain p1 where s: "queue_sync env h p = Ok p1" and
    t: "(if msgs_sent_since_pong p1 \<ge> 32 then maybe_send_extra_ping env p1 else Ok p1) = Ok q"
    using assms by (auto simp: refill_def and_then_Ok_iff BUFFER_DRAIN_MSGS_PER_TICK_def)
  have one: "p1 = p \<or> (\<exists>n. msgs_sent_since_pong p < 32 \<and> msgs_sent_since_pong p1 = msgs_sent_since_pong p + n \<and>
      awaiting_pong_timer_tick_intervals p1 = awaiting_pong_timer_tick_intervals p \<and>
      length (pending_outbound_buffer p1) = length (pending_outbound_buffer p) + n)"
    using s by (auto simp: queue_sync_def map_ok_Ok_iff BUFFER_DRAIN_MSGS_PER_TICK_def split: if_splits prod.splits dest!: enqueue_all_Ok)
  have "q = p1 \<or> (msgs_sent_since_pong p1 \<ge> 32 \<and> msgs_sent_since_pong q = msgs_sent_since_pong p1 + 1 \<and>
      awaiting_pong_timer_tick_intervals p1 = 0 \<and> awaiting_pong_timer_tick_intervals q = - 1)"
    using t by (auto simp: maybe_send_extra_ping_def split: if_splits dest: enqueue_Ok)
  then show ?thesis using one by auto
qed

function do_attempt_write_data ::
  "('sk, 'c, 'h) peer_env \<Rightarrow> ('d, 's) socket_lib \<Rightarrow> 'h \<Rightarrow> 'd \<Rightarrow> 'sk Peer \<Rightarrow> 's \<Rightarrow> (unit, 'sk Peer \<times> 's) outcome" where
  "do_attempt_write_data env so h d p s =
     (if awaiting_write_event p then Ok (p, s)
      else case refill env h p of
        Ok q \<Rightarrow>
          (case pending_outbound_buffer q of
             [] \<Rightarrow> Ok (q, s)
           | next_buff # rest \<Rightarrow>
               let offset = pending_outbound_buffer_first_msg_offset q;
                   should_be_reading = length (pending_outbound_buffer q) < OUTBOUND_BUFFER_LIMIT_READ_PAUSE in
               if offset > length next_buff then Panic
               else case send_data so d (drop offset next_buff) should_be_reading s of
                 (s1, data_sent) \<Rightarrow>
                   if offset + data_sent = length next_buff
                   then do_attempt_write_data env so h d (q\<lparr>pending_outbound_buffer_first_msg_offset := 0, pending_outbound_buffer := rest\<rparr>) s1
                   else Ok (q\<lparr>pending_outbound_buffer_first_msg_offset := offset + data_sent, awaiting_write_event := True\<rparr>, s1))
      | _ \<Rightarrow> Panic)"
  by pat_completeness auto
termination
proof (relation "measures [\<lambda>(env, so, h, d, p, s). 32 - msgs_sent_since_pong p,
    \<lambda>(env, so, h, d, p, s). if awaiting_pong_timer_tick_intervals p = 0 then 1 else 0, \<lambda>(env, so, h, d, p, s). length (pending_outbound_buffer p)]")
  fix env :: "('a, 'b, 'c) peer_env" and so :: "('d, 'e) socket_lib" and h d and p q :: "'a Peer" and s next_buff rest
  assume "refill env h p = Ok q" "pending_outbound_buffer q = next_buff # rest"
  then show "((env, so, h, d, q\<lparr>pending_outbound_buffer_first_msg_offset := 0, pending_outbound_buffer := rest\<rparr>, s1), env, so, h, d, p, s)
      \<in> measures [\<lambda>(env, so, h, d, p, s). 32 - msgs_sent_since_pong p,
        \<lambda>(env, so, h, d, p, s). if awaiting_pong_timer_tick_intervals p = 0 then 1 else 0, \<lambda>(env, so, h, d, p, s). length (pending_outbound_buffer p)]" for s1
    using refill_progress [of env h p q] by auto
qed simp

declare do_attempt_write_data.simps [simp del]

section \<open>Receiving\<close>

text \<open>What a received message does: to the peer, to the handlers, and whether it is passed on to other peers.\<close>

definition handle_init ::
  "('sk, 'c, 'h) peer_env \<Rightarrow> bytes \<Rightarrow> Init \<Rightarrow> 'sk Peer \<Rightarrow> 'h \<Rightarrow> ('sk Peer \<times> 'h) \<times> (MessageHandlingError, 'c Message option) outcome" where
  "handle_init env who m p h =
     (let hs = env_handlers env; flags = in_features m in
      if requires_unknown_bits InitContext flags then ((p, h), Err (OfPeer (PeerHandleError True)))
      else if their_features p \<noteq> None then ((p, h), Err (OfPeer (PeerHandleError False)))
      else let p1 = (if supports_feature InitialRoutingSync flags \<and> \<not> supports_feature GossipQueries flags then p\<lparr>sync_status := ChannelsSyncing 0\<rparr> else p) in
        if \<not> supports_feature StaticRemoteKey flags then ((p1, h), Err (OfPeer (PeerHandleError True)))
        else ((p1\<lparr>their_features := Some flags\<rparr>, chan_connected hs who m (route_connected hs who m h)), Ok None))"

definition handle_filter :: "features \<Rightarrow> 'sk Peer \<Rightarrow> 'sk Peer" where
  "handle_filter flags p =
     (if supports_feature GossipQueries flags \<and> \<not> sent_gossip_timestamp_filter p
      then p\<lparr>sent_gossip_timestamp_filter := True, sync_status := ChannelsSyncing 0\<rparr> else p)"

text \<open>A gossip message is passed on when the routing handler says so; other messages are only handled.\<close>

definition gossip_result ::
  "'sk Peer \<Rightarrow> 'c Message \<Rightarrow> 'h \<times> (LightningError, bool) outcome \<Rightarrow> ('sk Peer \<times> 'h) \<times> (MessageHandlingError, 'c Message option) outcome" where
  "gossip_result p m = (\<lambda>(h, r). ((p, h), case r of Ok b \<Rightarrow> Ok (if b then Some m else None) | Err e \<Rightarrow> Err (OfMessage e) | Panic \<Rightarrow> Panic))"

definition query_result ::
  "'sk Peer \<Rightarrow> 'h \<times> (LightningError, unit) outcome \<Rightarrow> ('sk Peer \<times> 'h) \<times> (MessageHandlingError, 'c Message option) outcome" where
  "query_result p = (\<lambda>(h, r). ((p, h), case r of Ok _ \<Rightarrow> Ok None | Err e \<Rightarrow> Err (OfMessage e) | Panic \<Rightarrow> Panic))"

definition handle_message ::
  "('sk, 'c, 'h) peer_env \<Rightarrow> 'c Message \<Rightarrow> 'sk Peer \<Rightarrow> 'h \<Rightarrow> ('sk Peer \<times> 'h) \<times> (MessageHandlingError, 'c Message option) outcome" where
  "handle_message env message p0 h =
     (case their_node_id p0 of
        None \<Rightarrow> ((p0, h), Panic)
      | Some who \<Rightarrow>
          let p = p0\<lparr>received_message_since_timer_tick := True\<rparr>; hs = env_handlers env in
          (case their_features p of
             None \<Rightarrow> (case message of MsgInit m \<Rightarrow> handle_init env who m p h | _ \<Rightarrow> ((p, h), Err (OfPeer (PeerHandleError False))))
           | Some flags \<Rightarrow>
               (case message of
                  MsgInit m \<Rightarrow> handle_init env who m p h
                | MsgGossipTimestampFilter _ \<Rightarrow> ((handle_filter flags p, h), Ok None)
                | MsgError m \<Rightarrow>
                    ((p, chan_handle hs who flags message h), if em_channel_id m = replicate 32 0 then Err (OfPeer (PeerHandleError True)) else Ok None)
                | MsgWarning _ \<Rightarrow> ((p, h), Ok None)
                | MsgPing m \<Rightarrow>
                    if ping_ponglen m < 65532
                    then (case enqueue_message env (MsgPong \<lparr>pong_byteslen = ping_ponglen m\<rparr>) p of Ok p1 \<Rightarrow> ((p1, h), Ok None) | _ \<Rightarrow> ((p, h), Panic))
                    else ((p, h), Ok None)
                | MsgPong _ \<Rightarrow> ((p\<lparr>awaiting_pong_timer_tick_intervals := 0, msgs_sent_since_pong := 0\<rparr>, h), Ok None)
                | MsgChannelAnnouncement _ \<Rightarrow> gossip_result p message (route_gossip hs message h)
                | MsgNodeAnnouncement _ \<Rightarrow> gossip_result p message (route_gossip hs message h)
                | MsgChannelUpdate _ \<Rightarrow> gossip_result p message (route_gossip hs message (chan_handle hs who flags message h))
                | MsgQueryShortChannelIds _ \<Rightarrow> query_result p (route_query hs who message h)
                | MsgReplyShortChannelIdsEnd _ \<Rightarrow> query_result p (route_query hs who message h)
                | MsgQueryChannelRange _ \<Rightarrow> query_result p (route_query hs who message h)
                | MsgReplyChannelRange _ \<Rightarrow> query_result p (route_query hs who message h)
                | MsgUnknown _ \<Rightarrow> ((p, h), if is_even (env_custom env) message then Err (OfPeer (PeerHandleError True)) else Ok None)
                | MsgCustom c \<Rightarrow> query_result p (custom_handle hs who c h)
                | _ \<Rightarrow> ((p, chan_handle hs who flags message h), Ok None))))"

text \<open>The state of the read loop of one connection, with the parts of the manager it changes.\<close>

record ('sk, 'd, 'c, 'h) reading =
  rd_peer :: "'sk Peer"
  rd_ids :: "bytes \<Rightarrow> 'd option"
  rd_counter :: AtomicCounter
  rd_handlers :: 'h
  rd_forward :: "'c Message list"
  rd_node_id :: "bytes option"

text \<open>A round of the loop ends with \<open>continue\<close> or reaches its end, perhaps with a message to handle.\<close>

datatype 'c round = Continue | Reached "'c Message option"

type_synonym ('sk, 'd, 'c, 'h) round_result = "('sk, 'd, 'c, 'h) reading \<times> (PeerHandleError, 'c round) outcome"

definition queue_reply :: "('sk, 'c, 'h) peer_env \<Rightarrow> 'c Message \<Rightarrow> (PeerHandleError, 'c round) outcome \<Rightarrow> ('sk, 'd, 'c, 'h) reading \<Rightarrow> ('sk, 'd, 'c, 'h) round_result" where
  "queue_reply env m r st = (case enqueue_message env m (rd_peer st) of Ok p \<Rightarrow> (st\<lparr>rd_peer := p\<rparr>, r) | _ \<Rightarrow> (st, Panic))"

definition try_potential_handleerror :: "('sk, 'c, 'h) peer_env \<Rightarrow> LightningError \<Rightarrow> ('sk, 'd, 'c, 'h) reading \<Rightarrow> ('sk, 'd, 'c, 'h) round_result" where
  "try_potential_handleerror env e st =
     (case snd e of
        DisconnectPeer _ \<Rightarrow> (st, Err (PeerHandleError False))
      | SendErrorMessage i d \<Rightarrow> queue_reply env (MsgError \<lparr>em_channel_id = i, em_data = d\<rparr>) (Ok Continue) st
      | SendWarningMessage i d _ \<Rightarrow> queue_reply env (MsgWarning \<lparr>wm_channel_id = i, wm_data = d\<rparr>) (Ok Continue) st
      | _ \<Rightarrow> (st, Ok Continue))"

text \<open>A step of the encryptor, whose error goes through the macro above.\<close>

definition noise_step_of ::
  "('sk, 'c, 'h) peer_env \<Rightarrow> ('sk, 'a) noise_result \<Rightarrow> (('sk, 'd, 'c, 'h) reading \<Rightarrow> 'a \<Rightarrow> ('sk, 'd, 'c, 'h) round_result) \<Rightarrow>
   ('sk, 'd, 'c, 'h) reading \<Rightarrow> ('sk, 'd, 'c, 'h) round_result" where
  "noise_step_of env res k st =
     (let st1 = st\<lparr>rd_peer := (rd_peer st)\<lparr>channel_encryptor := fst res\<rparr>\<rparr> in
      case snd res of Ok x \<Rightarrow> k st1 x | Err e \<Rightarrow> try_potential_handleerror env e st1 | Panic \<Rightarrow> (st1, Panic))"

text \<open>The end of the handshake: the node id is claimed for this connection and our features are sent.\<close>

definition handshake_done :: "('sk, 'c, 'h) peer_env \<Rightarrow> 'd \<Rightarrow> bytes \<Rightarrow> ('sk, 'd, 'c, 'h) reading \<Rightarrow> ('sk, 'd, 'c, 'h) round_result" where
  "handshake_done env d who st =
     (let p = (rd_peer st)\<lparr>pending_read_buffer := replicate 18 0, pending_read_is_header := True, their_node_id := Some who\<rparr> in
      if rd_ids st who \<noteq> None then (st\<lparr>rd_peer := p\<lparr>their_node_id := None\<rparr>\<rparr>, Err (PeerHandleError False))
      else case enqueue_message env (MsgInit \<lparr>in_features = known InitContext, in_remote_network_address = filter_addresses (their_net_address p)\<rparr>) p of
        Ok p1 \<Rightarrow> (st\<lparr>rd_ids := (rd_ids st)(who \<mapsto> d), rd_peer := p1\<lparr>awaiting_pong_timer_tick_intervals := 0\<rparr>\<rparr>, Ok (Reached None))
      | _ \<Rightarrow> (st, Panic))"

definition show_type :: "u16 option \<Rightarrow> string" where
  "show_type ty = (case ty of None \<Rightarrow> ''None'' | Some t \<Rightarrow> ''Some('' @ to_string t @ '')'')"

definition warning :: "string \<Rightarrow> 'c Message" where
  "warning s = MsgWarning \<lparr>wm_channel_id = replicate 32 0, wm_data = s\<rparr>"

definition undecodable :: "('sk, 'c, 'h) peer_env \<Rightarrow> DecodeError \<Rightarrow> u16 option \<Rightarrow> ('sk, 'd, 'c, 'h) reading \<Rightarrow> ('sk, 'd, 'c, 'h) round_result" where
  "undecodable env e ty st =
     (let gossip = (case ty of Some t \<Rightarrow> is_gossip_msg t | None \<Rightarrow> False) in
      if e = UnknownRequiredFeature \<and> gossip then (st, Ok Continue)
      else if e = UnsupportedCompression then queue_reply env (warning ''Unsupported message compression: zlib'') (Ok Continue) st
      else if gossip then queue_reply env (warning ''Unreadable/bogus gossip message'') (Ok Continue) st
      else if e = UnknownRequiredFeature
      then queue_reply env (warning (''Received an unknown required feature/TLV in message type '' @ show_type ty)) (Err (PeerHandleError False)) st
      else (st, Err (PeerHandleError False)))"

text \<open>What is done with a full buffer depends on how far the connection is.\<close>

definition act_one_read :: "('sk, 'c, 'h) peer_env \<Rightarrow> ('sk, 'd, 'c, 'h) reading \<Rightarrow> ('sk, 'd, 'c, 'h) round_result" where
  "act_one_read env st =
     (case get_ephemeral_key env (rd_counter st) of
        (c1, Ok ephemeral) \<Rightarrow>
          noise_step_of env (process_act_one_with_keys (env_crypto env) (valid_pubkey (env_wire env)) (pending_read_buffer (rd_peer st)) (our_node_secret env)
              ephemeral (channel_encryptor (rd_peer st)))
            (\<lambda>st1 act_two. (st1\<lparr>rd_peer := (rd_peer st1)\<lparr>pending_outbound_buffer := pending_outbound_buffer (rd_peer st1) @ [act_two],
               pending_read_buffer := replicate 66 0\<rparr>\<rparr>, Ok (Reached None))) (st\<lparr>rd_counter := c1\<rparr>)
      | _ \<Rightarrow> (st, Panic))"

definition act_two_read :: "('sk, 'c, 'h) peer_env \<Rightarrow> 'd \<Rightarrow> ('sk, 'd, 'c, 'h) reading \<Rightarrow> ('sk, 'd, 'c, 'h) round_result" where
  "act_two_read env d st =
     noise_step_of env (process_act_two (env_crypto env) (valid_pubkey (env_wire env)) (pending_read_buffer (rd_peer st)) (our_node_secret env) (channel_encryptor (rd_peer st)))
       (\<lambda>st1 (act_three, who). handshake_done env d who
         (st1\<lparr>rd_peer := (rd_peer st1)\<lparr>pending_outbound_buffer := pending_outbound_buffer (rd_peer st1) @ [act_three]\<rparr>\<rparr>)) st"

definition act_three_read :: "('sk, 'c, 'h) peer_env \<Rightarrow> 'd \<Rightarrow> ('sk, 'd, 'c, 'h) reading \<Rightarrow> ('sk, 'd, 'c, 'h) round_result" where
  "act_three_read env d st =
     noise_step_of env (process_act_three (env_crypto env) (valid_pubkey (env_wire env)) (pending_read_buffer (rd_peer st)) (channel_encryptor (rd_peer st)))
       (\<lambda>st1 who. handshake_done env d who st1) st"

text \<open>\<open>resize\<close> keeps what is in the buffer, which the bytes still to be read overwrite; a buffer of more than 8192 bytes is replaced.
  How much memory is behind the vector is not modelled: the contents before the first byte is read do not matter.\<close>

definition header_read :: "('sk, 'c, 'h) peer_env \<Rightarrow> ('sk, 'd, 'c, 'h) reading \<Rightarrow> ('sk, 'd, 'c, 'h) round_result" where
  "header_read env st =
     noise_step_of env (decrypt_length_header (env_crypto env) (pending_read_buffer (rd_peer st)) (channel_encryptor (rd_peer st)))
       (\<lambda>st1 msg_len.
          let p = (rd_peer st1)\<lparr>pending_read_buffer := Features.resize (unat msg_len + 16) (pending_read_buffer (rd_peer st1))\<rparr> in
          if msg_len < 2 then (st1\<lparr>rd_peer := p\<rparr>, Err (PeerHandleError False))
          else (st1\<lparr>rd_peer := p\<lparr>pending_read_is_header := False\<rparr>\<rparr>, Ok (Reached None))) st"

definition message_read :: "('sk, 'c, 'h) peer_env \<Rightarrow> ('sk, 'd, 'c, 'h) reading \<Rightarrow> ('sk, 'd, 'c, 'h) round_result" where
  "message_read env st =
     noise_step_of env (decrypt_message (pending_read_buffer (rd_peer st)) (channel_encryptor (rd_peer st)))
       (\<lambda>st1 msg_data.
          if length msg_data < 2 then (st1, Panic)
          else let st2 = st1\<lparr>rd_peer := (rd_peer st1)\<lparr>pending_read_buffer := Features.resize 18 (pending_read_buffer (rd_peer st1)), pending_read_is_header := True\<rparr>\<rparr> in
            (case wire_read (env_wire env) (env_custom env) msg_data of
               Ok m \<Rightarrow> (st2, Ok (Reached (Some m)))
             | Err (e, ty) \<Rightarrow> undecodable env e ty st2
             | Panic \<Rightarrow> (st2, Panic))) st"

definition buffer_full :: "('sk, 'c, 'h) peer_env \<Rightarrow> 'd \<Rightarrow> ('sk, 'd, 'c, 'h) reading \<Rightarrow> ('sk, 'd, 'c, 'h) round_result" where
  "buffer_full env d st =
     (case get_noise_step (channel_encryptor (rd_peer st)) of
        ActOne \<Rightarrow> act_one_read env st
      | ActTwo \<Rightarrow> act_two_read env d st
      | ActThree \<Rightarrow> act_three_read env d st
      | NoiseComplete \<Rightarrow> if pending_read_is_header (rd_peer st) then header_read env st else message_read env st)"

definition dispatch :: "('sk, 'c, 'h) peer_env \<Rightarrow> 'c Message \<Rightarrow> ('sk, 'd, 'c, 'h) reading \<Rightarrow> ('sk, 'd, 'c, 'h) round_result" where
  "dispatch env m st =
     (case handle_message env m (rd_peer st) (rd_handlers st) of
        ((p, h), r) \<Rightarrow>
          let st1 = st\<lparr>rd_peer := p, rd_handlers := h\<rparr> in
          (case r of
             Ok None \<Rightarrow> (st1, Ok (Reached None))
           | Ok (Some f) \<Rightarrow> (st1\<lparr>rd_forward := rd_forward st1 @ [f]\<rparr>, Ok (Reached None))
           | Err (OfPeer e) \<Rightarrow> (st1, Err e)
           | Err (OfMessage e) \<Rightarrow> try_potential_handleerror env e st1
           | Panic \<Rightarrow> (st1, Panic)))"

text \<open>One round of the loop: bytes are copied, a full buffer is processed, and a message handled. \<open>pause\<close> says whether the peer has
  so much to read that its own bytes should wait; a round that ends early leaves it as it was.\<close>

definition copied :: "bytes \<Rightarrow> 'sk Peer \<Rightarrow> 'sk Peer \<times> bytes" where
  "copied data p =
     (let pos = pending_read_buffer_pos p;
          data_to_copy = min (length (pending_read_buffer p) - pos) (length data)
      in (p\<lparr>pending_read_buffer := take pos (pending_read_buffer p) @ take data_to_copy data @ drop (pos + data_to_copy) (pending_read_buffer p),
            pending_read_buffer_pos := pos + data_to_copy\<rparr>, drop data_to_copy data))"

definition after_round :: "('sk, 'c, 'h) peer_env \<Rightarrow> ('sk, 'd, 'c, 'h) round_result \<Rightarrow> bool \<Rightarrow> (('sk, 'd, 'c, 'h) reading \<times> bool) \<times> (PeerHandleError, unit) outcome" where
  "after_round env = (\<lambda>(st, r) pause.
     (case r of
        Ok Continue \<Rightarrow> ((st, pause), Ok ())
      | Ok (Reached msg) \<Rightarrow>
          let pause1 = length (pending_outbound_buffer (rd_peer st)) > OUTBOUND_BUFFER_LIMIT_READ_PAUSE in
          (case msg of
             None \<Rightarrow> ((st, pause1), Ok ())
           | Some m \<Rightarrow> (case dispatch env m st of
               (st1, Ok _) \<Rightarrow> ((st1, pause1), Ok ()) | (st1, Err e) \<Rightarrow> ((st1, pause1), Err e) | (st1, Panic) \<Rightarrow> ((st1, pause1), Panic)))
      | Err e \<Rightarrow> ((st, pause), Err e)
      | Panic \<Rightarrow> ((st, pause), Panic)))"

definition noted :: "('sk, 'd, 'c, 'h) reading \<Rightarrow> ('sk, 'd, 'c, 'h) reading" where
  "noted st = (if rd_node_id st = None then st\<lparr>rd_node_id := their_node_id (rd_peer st)\<rparr> else st)"

definition read_round ::
  "('sk, 'c, 'h) peer_env \<Rightarrow> 'd \<Rightarrow> ('sk, 'd, 'c, 'h) reading \<Rightarrow> bytes \<Rightarrow> bool \<Rightarrow> ((('sk, 'd, 'c, 'h) reading \<times> bool) \<times> (PeerHandleError, unit) outcome) \<times> bytes" where
  "read_round env d st data pause =
     (let st0 = noted st; p = rd_peer st0 in
      if \<not> length (pending_read_buffer p) > pending_read_buffer_pos p then (((st0, pause), Panic), data)
      else let (p1, rest) = copied data p in
        if pending_read_buffer_pos p1 = length (pending_read_buffer p1)
        then (after_round env (buffer_full env d (st0\<lparr>rd_peer := p1\<lparr>pending_read_buffer_pos := 0\<rparr>\<rparr>)) pause, rest)
        else (after_round env (st0\<lparr>rd_peer := p1\<rparr>, Ok (Reached None)) pause, rest))"

lemma read_round_shorter:
  "read_round env d st data pause = (((st1, pause1), Ok u), rest) \<Longrightarrow> data \<noteq> [] \<Longrightarrow> length rest < length data"
  by (auto simp: read_round_def copied_def Let_def split: if_splits)

function read_loop ::
  "('sk, 'c, 'h) peer_env \<Rightarrow> 'd \<Rightarrow> ('sk, 'd, 'c, 'h) reading \<Rightarrow> bool \<Rightarrow> bytes \<Rightarrow> (('sk, 'd, 'c, 'h) reading \<times> bool) \<times> (PeerHandleError, unit) outcome" where
  "read_loop env d st pause data =
     (if data = [] then ((st, pause), Ok ())
      else case read_round env d st data pause of
        (((st1, pause1), Ok _), rest) \<Rightarrow> read_loop env d st1 pause1 rest
      | (r, rest) \<Rightarrow> r)"
  by pat_completeness auto
termination
  by (relation "measure (\<lambda>(env, d, st, pause, data). length data)") (auto dest: read_round_shorter [OF sym])

declare read_loop.simps [simp del]

end
