(* ===== verification/Peer_Reading.thy ===== *)
theory Peer_Reading
  imports Peer_Handler
begin

text \<open>
  The read loop of a connection: how the bytes are cut into reads does not matter, and no bytes make it panic.
\<close>

section \<open>Cutting the bytes\<close>

text \<open>Everything but the advice to pause reading.\<close>

definition unpaused :: "('x \<times> bool) \<times> 'r \<Rightarrow> 'x \<times> 'r" where
  "unpaused r = (fst (fst r), snd r)"

lemma unpaused_pair [simp]: "unpaused ((x, z), r) = (x, r)"
  by (simp add: unpaused_def)

lemma after_round_pause: "unpaused (after_round env x pause) = unpaused (after_round env x pause')"
  by (auto simp: after_round_def Let_def split: prod.splits outcome.splits round.splits option.splits)

lemma read_round_pause:
  "snd (read_round env d st data pause) = snd (read_round env d st data pause')"
  "unpaused (fst (read_round env d st data pause)) = unpaused (fst (read_round env d st data pause'))"
  by (simp_all add: read_round_def Let_def case_prod_beta after_round_pause [of env _ pause pause'])

lemma read_loop_round:
  assumes "data \<noteq> []" "read_round env d st data pause = (((st1, z1), r), rest)"
  shows "unpaused (read_loop env d st pause data) = (if r = Ok () then unpaused (read_loop env d st1 z1 rest) else (st1, r))"
  using assms by (cases r) (simp_all add: read_loop.simps [of env d st])

lemma read_loop_pause: "unpaused (read_loop env d st pause data) = unpaused (read_loop env d st pause' data)"
proof (induction "length data" arbitrary: st pause pause' data rule: less_induct)
  case less
  show ?case
  proof (cases "data = []")
    case True
    then show ?thesis by (simp add: read_loop.simps unpaused_def)
  next
    case False
    obtain st1 z1 r rest where a: "read_round env d st data pause = (((st1, z1), r), rest)" by (metis surj_pair)
    obtain st2 z2 r2 rest2 where b: "read_round env d st data pause' = (((st2, z2), r2), rest2)" by (metis surj_pair)
    have e: "st2 = st1" "r2 = r" "rest2 = rest" using read_round_pause [of env d st data pause pause'] a b by (simp_all add: unpaused_def)
    show ?thesis
    proof (cases "r = Ok ()")
      case True
      then have "length rest < length data" using read_round_shorter [of env d st data pause st1 z1 "()" rest] a False by simp
      then show ?thesis using less [of rest st1 z1 z2] e True read_loop_round [OF False a] read_loop_round [OF False b] by simp
    next
      case False
      then show ?thesis using e read_loop_round [OF \<open>data \<noteq> []\<close> a] read_loop_round [OF \<open>data \<noteq> []\<close> b] by simp
    qed
  qed
qed

text \<open>Bytes that do not fill the buffer are only stored.\<close>

lemma copied_append:
  assumes "pending_read_buffer_pos p + length a < length (pending_read_buffer p)"
  shows "copied (a @ b) p = copied b (fst (copied a p))"
proof -
  let ?n = "min (length (pending_read_buffer p) - (pending_read_buffer_pos p + length a)) (length b)"
  have n: "min (length (pending_read_buffer p) - pending_read_buffer_pos p) (length (a @ b)) = length a + ?n" using assms by auto
  have l: "length (take (pending_read_buffer_pos p) (pending_read_buffer p) @ a @ drop (pending_read_buffer_pos p + length a) (pending_read_buffer p)) =
      length (pending_read_buffer p)"
    using assms by simp
  show ?thesis using assms unfolding copied_def Let_def n
    by (simp add: min_absorb2 min_absorb1 l ac_simps)
qed

lemma noted_peer [simp]: "rd_peer (noted st) = rd_peer st"
  by (simp add: noted_def)

lemma round_short:
  assumes "pending_read_buffer_pos (rd_peer st) + length a < length (pending_read_buffer (rd_peer st))"
  shows "\<exists>st1 z1. read_round env d st a pause = (((st1, z1), Ok ()), []) \<and> (\<forall>b. read_round env d st (a @ b) pause = read_round env d st1 b pause)"
proof -
  define q where "q = fst (copied a (rd_peer st))"
  have c: "copied a (rd_peer st) = (q, [])" using assms by (simp add: copied_def Let_def q_def)
  have f: "pending_read_buffer_pos q = pending_read_buffer_pos (rd_peer st) + length a"
    "length (pending_read_buffer q) = length (pending_read_buffer (rd_peer st))" "their_node_id q = their_node_id (rd_peer st)"
    using assms by (simp_all add: copied_def Let_def min_absorb2 min_absorb1 q_def)
  let ?st1 = "noted st\<lparr>rd_peer := q\<rparr>"
  have n: "noted ?st1 = ?st1" using f(3) by (simp add: noted_def)
  have "read_round env d st a pause = (((?st1, length (pending_outbound_buffer q) > OUTBOUND_BUFFER_LIMIT_READ_PAUSE), Ok ()), [])"
    using assms f c by (simp add: read_round_def Let_def after_round_def)
  moreover have "read_round env d st (a @ b) pause = read_round env d ?st1 b pause" for b
    using assms f copied_append [OF assms, of b] n c by (simp add: read_round_def Let_def case_prod_beta)
  ultimately show ?thesis by blast
qed

lemma round_long:
  assumes "pending_read_buffer_pos (rd_peer st) < length (pending_read_buffer (rd_peer st))"
    "length (pending_read_buffer (rd_peer st)) \<le> pending_read_buffer_pos (rd_peer st) + length a"
  shows "read_round env d st (a @ b) pause = (let (r, rest) = read_round env d st a pause in (r, rest @ b))"
proof -
  have "copied (a @ b) (rd_peer st) = (let (q, rest) = copied a (rd_peer st) in (q, rest @ b))"
    using assms(2) by (simp add: copied_def Let_def min_absorb1)
  then show ?thesis using assms(1) by (simp add: read_round_def Let_def case_prod_beta)
qed

lemma pieces_short:
  assumes "pending_read_buffer_pos (rd_peer st) + length a < length (pending_read_buffer (rd_peer st))" "a \<noteq> []"
  shows "\<exists>st1. unpaused (read_loop env d st pause a) = (st1, Ok ()) \<and> unpaused (read_loop env d st pause (a @ b)) = unpaused (read_loop env d st1 False b)"
proof -
  obtain st2 z2 where s: "read_round env d st a pause = (((st2, z2), Ok ()), [])"
    "\<And>c. read_round env d st (a @ c) pause = read_round env d st2 c pause"
    using round_short [OF assms(1), of env d pause] by blast
  have la: "unpaused (read_loop env d st pause a) = (st2, Ok ())" using read_loop_round [OF assms(2) s(1)] by (simp add: read_loop.simps [of env d st2])
  have "unpaused (read_loop env d st pause (a @ b)) = unpaused (read_loop env d st2 False b)"
  proof (cases "b = []")
    case True
    then show ?thesis using la by (simp add: read_loop.simps [of env d st2])
  next
    case False
    obtain st3 z3 r3 rest3 where b3: "read_round env d st2 b pause = (((st3, z3), r3), rest3)" by (metis surj_pair)
    have "unpaused (read_loop env d st pause (a @ b)) = unpaused (read_loop env d st2 pause b)"
      using read_loop_round [OF _ b3 [folded s(2)]] read_loop_round [OF False b3] assms(2) by simp
    then show ?thesis using read_loop_pause [of env d st2 pause b False] by simp
  qed
  then show ?thesis using la by blast
qed

lemma pieces_joined:
  "unpaused (read_loop env d st pause (a @ b)) =
     (case unpaused (read_loop env d st pause a) of
        (st1, Ok _) \<Rightarrow> unpaused (read_loop env d st1 False b)
      | (st1, r) \<Rightarrow> (st1, r))"
proof (induction "length a" arbitrary: a st pause rule: less_induct)
  case less
  show ?case
  proof (cases "a = []")
    case True
    then show ?thesis by (simp add: read_loop.simps [of env d st pause "[]"] read_loop_pause [of env d st pause b False])
  next
    case False
    then have ab: "a @ b \<noteq> []" by simp
    obtain st1 z1 r rest where a: "read_round env d st a pause = (((st1, z1), r), rest)" by (metis surj_pair)
    consider "\<not> pending_read_buffer_pos (rd_peer st) < length (pending_read_buffer (rd_peer st))"
      | "pending_read_buffer_pos (rd_peer st) < length (pending_read_buffer (rd_peer st))"
        "length (pending_read_buffer (rd_peer st)) \<le> pending_read_buffer_pos (rd_peer st) + length a"
      | "pending_read_buffer_pos (rd_peer st) + length a < length (pending_read_buffer (rd_peer st))" by linarith
    then show ?thesis
    proof cases
      case 1
      then have l: "read_round env d st (a @ b) pause = (((st1, z1), r), a @ b)" "r = Panic" using a by (auto simp: read_round_def Let_def)
      then show ?thesis using read_loop_round [OF False a] read_loop_round [OF ab l(1)] by simp
    next
      case 2
      then have l: "read_round env d st (a @ b) pause = (((st1, z1), r), rest @ b)" using round_long [OF 2, of env d b pause] a by simp
      show ?thesis
      proof (cases "r = Ok ()")
        case True
        then have "length rest < length a" using read_round_shorter [of env d st a pause st1 z1 "()" rest] a False by simp
        then show ?thesis using less [of rest st1 z1] True read_loop_round [OF False a] read_loop_round [OF ab l] by simp
      next
        case False
        then show ?thesis using read_loop_round [OF \<open>a \<noteq> []\<close> a] read_loop_round [OF ab l] by (simp split: outcome.splits)
      qed
    next
      case 3
      show ?thesis using pieces_short [OF 3 False, of env d pause b] by auto
    qed
  qed
qed

section \<open>The handshake on any bytes\<close>

lemma opened_or_refused:
  assumes "length key = 32" "length w = k + 16" "k \<le> 65535"
  shows "(\<exists>m. length m = k \<and> decrypt_with_ad k n key h w = Ok m) \<or> decrypt_with_ad k n key h w = Err (''Bad MAC'', DisconnectPeer None)"
proof -
  have "16 \<le> length w" "length w \<le> aead_max" "k = length w - 16" using assms by (simp_all add: aead_max_def)
  then show ?thesis using open_verdict [OF assms(1), of w n h] by (metis (full_types))
qed

lemma sealed:
  assumes "length key = 32" "length pt \<le> 65535"
  shows "\<exists>ct. encrypt_with_ad n key h pt = Ok ct"
  using seal_open [OF assms(1), of pt n h] assms(2) by (auto simp: aead_max_def)

definition keys_len :: "transport_keys \<Rightarrow> bool" where
  "keys_len t \<longleftrightarrow> length (tk_sk t) = 32 \<and> length (tk_rk t) = 32"

lemma noise_hkdf_len: "crypto_ok cr \<Longrightarrow> noise_hkdf cr st ss = (st1, k) \<Longrightarrow> length k = 32"
  using hkdf_lengths(2) [of cr "bn_ck st" ss] by (auto simp: noise_hkdf_def split: prod.splits)

lemma outbound_act_total: "crypto_ok cr \<Longrightarrow> \<exists>st act k. outbound_noise_act cr bn ours theirs = Ok (st, act, k) \<and> length k = 32"
proof -
  assume cr: "crypto_ok cr"
  obtain st2 k where h: "noise_hkdf cr (mix_hash cr (public_of cr ours) bn) (ecdh cr theirs ours) = (st2, k)" by fastforce
  then have "length k = 32" using noise_hkdf_len [OF cr] by blast
  moreover from this obtain ct where "encrypt_with_ad 0 k (bn_h st2) [] = Ok ct" using sealed [of k "[]"] by auto
  ultimately show ?thesis using h by (simp add: outbound_noise_act_def Let_def)
qed

lemma inbound_act_total:
  assumes "crypto_ok cr" "length act = 50"
  shows "(\<exists>st e. inbound_noise_act cr valid_pk bn act ours = (st, Err (e, DisconnectPeer None))) \<or>
    (\<exists>st pk k. inbound_noise_act cr valid_pk bn act ours = (st, Ok (pk, k)) \<and> length k = 32)"
proof -
  obtain st2 k where h: "noise_hkdf cr (mix_hash cr (take 33 (drop 1 act)) bn) (ecdh cr (take 33 (drop 1 act)) ours) = (st2, k)" by fastforce
  then have k: "length k = 32" using noise_hkdf_len [OF assms(1)] by blast
  have "length (drop 34 act) = 0 + 16" using assms(2) by simp
  note opened_or_refused [OF k this, of 0 "bn_h st2"]
  then show ?thesis using h k assms(2) unfolding inbound_noise_act_def by (auto simp: Let_def)
qed

lemma act_one_total:
  assumes "crypto_ok cr" "length act = 50" "pce_noise_state e = InProgress PreActOne (Inbound ie re k) bn"
  shows "(\<exists>e1 x. process_act_one_with_keys cr valid_pk act ours eph e = (e1, Err (x, DisconnectPeer None))) \<or>
    (\<exists>e1 act2 i r k2 bn2. process_act_one_with_keys cr valid_pk act ours eph e = (e1, Ok act2) \<and> length k2 = 32 \<and>
       pce_noise_state e1 = InProgress PostActTwo (Inbound i (Some r) (Some k2)) bn2)"
proof -
  define ie' re' where "ie' pk = (case ie of None \<Rightarrow> pk | Some k \<Rightarrow> k)" and "re' = (case re of None \<Rightarrow> eph | Some k \<Rightarrow> k)" for pk
  have out: "\<exists>st act k. outbound_noise_act cr b re' (ie' pk) = Ok (st, act, k) \<and> length k = 32" for b pk using outbound_act_total [OF assms(1)] by blast
  from inbound_act_total [OF assms(1,2), of valid_pk bn ours] show ?thesis
  proof (elim disjE exE conjE)
    fix st pk k assume i: "inbound_noise_act cr valid_pk bn act ours = (st, Ok (pk, k))"
    obtain st3 act3 k3 where "outbound_noise_act cr st re' (ie' pk) = Ok (st3, act3, k3)" "length k3 = 32" using out by blast
    then show ?thesis using i assms(2,3) by (simp add: process_act_one_with_keys_def Let_def flip: ie'_def re'_def)
  qed (use assms(2,3) in \<open>simp add: process_act_one_with_keys_def\<close>)
qed

lemma act_two_total:
  assumes "crypto_ok cr" "\<And>s. length (public_of cr s) = 33" "length act = 50" "pce_noise_state e = InProgress PostActOne (Outbound ie) bn" "pce_their_node_id e = Some who"
  shows "(\<exists>e1 x. process_act_two cr valid_pk act ours e = (e1, Err (x, DisconnectPeer None))) \<or>
    (\<exists>e1 act3 t. process_act_two cr valid_pk act ours e = (e1, Ok (act3, who)) \<and> pce_noise_state e1 = Finished t \<and> keys_len t)"
  using inbound_act_total [OF assms(1,3), of valid_pk bn ie]
proof (elim disjE exE conjE)
  fix st re k assume i: "inbound_noise_act cr valid_pk bn act ie = (st, Ok (re, k))" "length k = 32"
  obtain id where id: "encrypt_with_ad 1 k (bn_h st) (public_of cr ours) = Ok id" using sealed [OF i(2), of "public_of cr ours" 1 "bn_h st"] assms(2) by auto
  obtain st2 k2 where h: "noise_hkdf cr (mix_hash cr id st) (ecdh cr re ours) = (st2, k2)" by fastforce
  then have "length k2 = 32" using noise_hkdf_len [OF assms(1)] by blast
  then obtain ct where ct: "encrypt_with_ad 0 k2 (bn_h st2) [] = Ok ct" using sealed [of k2 "[]"] by auto
  obtain sk rk where k: "hkdf_extract_expand_twice cr (bn_ck st2) [] = (sk, rk)" by fastforce
  then have "keys_len (finish_keys sk rk (bn_ck st2))" using hkdf_lengths [OF assms(1)] by (auto simp: keys_len_def finish_keys_def)
  then show ?thesis using i id h ct k assms(3-5) by (simp add: process_act_two_def Let_def)
qed (use assms(3,4) in \<open>simp add: process_act_two_def\<close>)

lemma act_three_total:
  assumes "crypto_ok cr" "length act = 66" "pce_noise_state e = InProgress PostActTwo (Inbound ie (Some re) (Some k)) bn" "length k = 32"
  shows "(\<exists>e1 x. process_act_three cr valid_pk act e = (e1, Err (x, DisconnectPeer None))) \<or>
    (\<exists>e1 who t. process_act_three cr valid_pk act e = (e1, Ok who) \<and> pce_noise_state e1 = Finished t \<and> keys_len t)"
proof -
  have "length (take 49 (drop 1 act)) = 33 + 16" using assms(2) by simp
  note one = opened_or_refused [OF assms(4) this, of 1 "bn_h bn"]
  have two: "(\<exists>m. decrypt_with_ad 0 0 k2 h (drop 50 act) = Ok m) \<or> decrypt_with_ad 0 0 k2 h (drop 50 act) = Err (''Bad MAC'', DisconnectPeer None)"
    if "length k2 = 32" for k2 h using opened_or_refused [OF that, of "drop 50 act" 0] assms(2) by auto
  have three: "keys_len (finish_keys sk rk ck)" if "hkdf_extract_expand_twice cr b [] = (rk, sk)" for b sk rk ck
    using that hkdf_lengths [OF assms(1)] by (auto simp: keys_len_def finish_keys_def)
  obtain who where "decrypt_with_ad 33 1 k (bn_h bn) (take 49 (drop 1 act)) = Ok who \<or>
      decrypt_with_ad 33 1 k (bn_h bn) (take 49 (drop 1 act)) = Err (''Bad MAC'', DisconnectPeer None)" using one by auto
  moreover obtain st2 k2 where h: "noise_hkdf cr (mix_hash cr (take 49 (drop 1 act)) bn) (ecdh cr who re) = (st2, k2)" by fastforce
  moreover obtain rk sk where "hkdf_extract_expand_twice cr (bn_ck st2) [] = (rk, sk)" by fastforce
  ultimately show ?thesis using two [OF noise_hkdf_len [OF assms(1) h], of "bn_h st2"] three assms(2,3)
    by (auto simp: process_act_three_def Let_def)
qed

lemma rotate_keys_len:
  "crypto_ok cr \<Longrightarrow> keys_len t \<Longrightarrow> keys_len (rotate_send cr t)" "crypto_ok cr \<Longrightarrow> keys_len t \<Longrightarrow> keys_len (rotate_receive cr t)"
  using hkdf_lengths [of cr] by (auto simp: keys_len_def rotate_send_def rotate_receive_def split: prod.splits)

lemma header_total:
  assumes "crypto_ok cr" "pce_noise_state e = Finished t" "keys_len t" "length w = 18"
  shows "(\<exists>e1 x. decrypt_length_header cr w e = (e1, Err (x, DisconnectPeer None))) \<or>
    (\<exists>e1 len t1. decrypt_length_header cr w e = (e1, Ok len) \<and> pce_noise_state e1 = Finished t1 \<and> keys_len t1)"
proof -
  have "length (tk_rk (rotate_receive cr t)) = 32" "length w = 2 + 16" using rotate_keys_len(2) [OF assms(1,3)] assms(4) by (simp_all add: keys_len_def)
  note opened_or_refused [OF this, of "tk_rn (rotate_receive cr t)" "[]"]
  then show ?thesis using assms rotate_keys_len(2) [OF assms(1,3)] by (auto simp: decrypt_length_header_def Let_def keys_len_def)
qed

lemma message_total:
  assumes "pce_noise_state e = Finished t" "keys_len t" "length w = k + 16" "k \<le> 65535"
  shows "(\<exists>e1 x. decrypt_message w e = (e1, Err (x, DisconnectPeer None))) \<or>
    (\<exists>e1 m t1. decrypt_message w e = (e1, Ok m) \<and> length m = k \<and> pce_noise_state e1 = Finished t1 \<and> keys_len t1)"
  using opened_or_refused [of "tk_rk t" w k "tk_rn t" "[]"] assms by (auto simp: decrypt_message_def keys_len_def LN_MAX_MSG_LEN_def)

lemma encrypt_total:
  assumes "crypto_ok cr" "pce_noise_state e = Finished t" "keys_len t" "length m \<le> 65535"
  shows "\<exists>e1 w t1. encrypt_message cr m e = (e1, Ok w) \<and> pce_noise_state e1 = Finished t1 \<and> keys_len t1"
proof -
  have k: "length (tk_sk (rotate_send cr t)) = 32" "keys_len (rotate_send cr t)" using rotate_keys_len(1) [OF assms(1,3)] by (simp_all add: keys_len_def)
  have "length (u16_to_be_bytes (word_of_nat (length m))) \<le> 65535" by (simp add: u16_to_be_bytes_def)
  then obtain a where a: "encrypt_with_ad (tk_sn (rotate_send cr t)) (tk_sk (rotate_send cr t)) [] (u16_to_be_bytes (word_of_nat (length m))) = Ok a"
    using sealed [OF k(1)] by blast
  obtain b where "encrypt_with_ad (tk_sn (rotate_send cr t) + 1) (tk_sk (rotate_send cr t)) [] m = Ok b" using sealed [OF k(1) assms(4)] by blast
  then show ?thesis using a assms(2,4) k(2) by (simp add: encrypt_message_def Let_def LN_MAX_MSG_LEN_def keys_len_def)
qed

section \<open>The peer between two rounds\<close>

text \<open>The buffer has the size of what comes next and is not full, and the keys are there when they are needed.\<close>

definition transport_ok :: "'sk Peer \<Rightarrow> bool" where
  "transport_ok p \<longleftrightarrow> their_node_id p \<noteq> None \<and> (case pce_noise_state (channel_encryptor p) of Finished t \<Rightarrow> keys_len t | _ \<Rightarrow> False)"

definition buffer_ok :: "'sk Peer \<Rightarrow> bool" where
  "buffer_ok p \<longleftrightarrow>
     (let n = length (pending_read_buffer p) in
      case pce_noise_state (channel_encryptor p) of
        InProgress PreActOne (Inbound _ _ _) _ \<Rightarrow> n = 50
      | InProgress PostActOne (Outbound _) _ \<Rightarrow> n = 50 \<and> pce_their_node_id (channel_encryptor p) \<noteq> None
      | InProgress PostActTwo (Inbound _ (Some _) (Some k)) _ \<Rightarrow> n = 66 \<and> length k = 32
      | Finished t \<Rightarrow> transport_ok p \<and> (if pending_read_is_header p then n = 18 else 18 \<le> n \<and> n \<le> 65551)
      | _ \<Rightarrow> False)"

definition read_ready :: "'sk Peer \<Rightarrow> bool" where
  "read_ready p \<longleftrightarrow> buffer_ok p \<and> pending_read_buffer_pos p < length (pending_read_buffer p) \<and>
     (case their_net_address p of Some a \<Rightarrow> address_ok a | None \<Rightarrow> True)"

text \<open>What the node relies on: keys and digests as above, digests that are secret keys, handlers that do not panic and whose error
  messages fit into a message.\<close>

definition error_fits :: "LightningError \<Rightarrow> bool" where
  "error_fits e \<longleftrightarrow> (case snd e of SendErrorMessage i d \<Rightarrow> length i + length d \<le> 65531 | SendWarningMessage i d _ \<Rightarrow> length i + length d \<le> 65531 | _ \<Rightarrow> True)"

definition outcome_fits :: "(LightningError, 'a) outcome \<Rightarrow> bool" where
  "outcome_fits r \<longleftrightarrow> (case r of Ok _ \<Rightarrow> True | Err e \<Rightarrow> error_fits e | Panic \<Rightarrow> False)"

definition env_ok :: "('sk, 'c, 'h) peer_env \<Rightarrow> bool" where
  "env_ok env \<longleftrightarrow> keys_ok (env_crypto env) (valid_pubkey (env_wire env)) \<and> (\<forall>b. secret_from_slice env (sha256_hash (env_crypto env) b) \<noteq> None) \<and>
     (\<forall>t b. custom_read (env_custom env) t b \<noteq> Panic) \<and>
     (\<forall>m h. outcome_fits (snd (route_gossip (env_handlers env) m h))) \<and> (\<forall>who m h. outcome_fits (snd (route_query (env_handlers env) who m h))) \<and> (\<forall>who c h. outcome_fits (snd (custom_handle (env_handlers env) who c h)))"

lemma env_crypto_ok: "env_ok env \<Longrightarrow> crypto_ok (env_crypto env)"
  by (simp add: env_ok_def keys_ok_def)

text \<open>Parts of the peer that queueing a message does not touch.\<close>

definition same_reading :: "'sk Peer \<Rightarrow> 'sk Peer \<Rightarrow> bool" where
  "same_reading p q \<longleftrightarrow> pending_read_buffer q = pending_read_buffer p \<and> pending_read_buffer_pos q = pending_read_buffer_pos p \<and>
     pending_read_is_header q = pending_read_is_header p \<and> their_node_id q = their_node_id p \<and>
     their_net_address q = their_net_address p"

lemma enqueue_total:
  assumes "env_ok env" "transport_ok p" "length (wire_write (env_wire env) (env_custom env) m) \<le> 65535"
  shows "\<exists>q. enqueue_message env m p = Ok q \<and> transport_ok q \<and> same_reading p q"
proof -
  obtain t who where t: "pce_noise_state (channel_encryptor p) = Finished t" "keys_len t" "their_node_id p = Some who"
    using assms(2) by (auto simp: transport_ok_def split: NoiseState.splits)
  obtain e w t1 where "encrypt_message (env_crypto env) (wire_write (env_wire env) (env_custom env) m) (channel_encryptor p) = (e, Ok w)"
    "pce_noise_state e = Finished t1" "keys_len t1"
    using encrypt_total [OF env_crypto_ok [OF assms(1)] t(1,2) assms(3)] by blast
  then show ?thesis using t by (simp add: enqueue_message_def enqueue_encoded_message_def transport_ok_def same_reading_def)
qed

lemma same_reading_ready:
  assumes "same_reading p q" "transport_ok p" "transport_ok q" "read_ready p"
  shows "read_ready q"
  using assms by (auto simp: same_reading_def read_ready_def buffer_ok_def transport_ok_def Let_def split: NoiseState.splits)

text \<open>The messages the loop sends fit.\<close>

lemma show_nat_short: "length (show_nat n) \<le> n div 10 + 1"
proof (induction n rule: show_nat.induct)
  case (1 n)
  show ?case
  proof (cases "n < 10")
    case False
    then have "n div 10 div 10 + 1 \<le> n div 10" by linarith
    then show ?thesis using 1 False by (subst show_nat.simps) simp
  qed (simp add: show_nat.simps)
qed

lemma bigsize_short: "length (write_bigsize x) \<le> 9"
  by (simp add: write_bigsize_def)

lemma replies_fit:
  "length i + length s \<le> 65531 \<Longrightarrow> length (wire_write lib cu (MsgError \<lparr>em_channel_id = i, em_data = s\<rparr>)) \<le> 65535"
  "length i + length s \<le> 65531 \<Longrightarrow> length (wire_write lib cu (MsgWarning \<lparr>wm_channel_id = i, wm_data = s\<rparr>)) \<le> 65535"
  "n < 65532 \<Longrightarrow> length (wire_write lib cu (MsgPong \<lparr>pong_byteslen = n\<rparr>)) \<le> 65535"
  "length s \<le> 65000 \<Longrightarrow> length (wire_write lib cu (warning s)) \<le> 65535"
  by (simp_all add: wire_write_def write_u16_def write_error_message_def write_warning_message_def write_string_def string_bytes_def write_pong_def
      write_var_bytes_def warning_def word_less_nat_alt)

lemma filter_address_ok: "(case a of Some x \<Rightarrow> address_ok x | None \<Rightarrow> True) \<Longrightarrow> (case filter_addresses a of Some x \<Rightarrow> address_ok x | None \<Rightarrow> True)"
  by (cases a rule: filter_addresses.cases) (auto split: if_splits)

lemma init_fits:
  assumes "case a of Some x \<Rightarrow> address_ok x | None \<Rightarrow> True"
  shows "length (wire_write lib cu (MsgInit \<lparr>in_features = known InitContext, in_remote_network_address = filter_addresses a\<rparr>)) \<le> 65535"
proof -
  have "length (write_address x) \<le> 100" if "address_ok x" for x using that by (cases x) (simp_all add: write_u16_def)
  then have "length (encode_tlv_option 3 (map_option write_address (filter_addresses a))) \<le> 118"
    using filter_address_ok [OF assms] bigsize_short [of 3] bigsize_short
    by (cases "filter_addresses a") (auto simp: encode_tlv_option_def encode_tlv_def intro!: add_mono [of _ 9 _ 109, simplified] add_mono [of _ 9 _ 100, simplified])
  moreover have "length (known InitContext) = 7" by (simp add: known_def KNOWN_FEATURE_FLAGS_def)
  ultimately show ?thesis by (simp add: wire_write_def write_u16_def write_init_def write_up_to_13_def write_features_def Let_def)
qed

section \<open>One round\<close>

text \<open>A handled message leaves the transport as it was, and an error it gives can be answered.\<close>

definition handled_well :: "'sk Peer \<Rightarrow> ('sk Peer \<times> 'h) \<times> (MessageHandlingError, 'a) outcome \<Rightarrow> bool" where
  "handled_well p x \<longleftrightarrow> transport_ok (fst (fst x)) \<and> same_reading p (fst (fst x)) \<and>
     (case snd x of Ok _ \<Rightarrow> True | Err (OfPeer _) \<Rightarrow> True | Err (OfMessage e) \<Rightarrow> error_fits e | Panic \<Rightarrow> False)"

lemma handled_well_simps [simp]:
  "handled_well p ((q, h), Ok x) \<longleftrightarrow> transport_ok q \<and> same_reading p q"
  "handled_well p ((q, h), Err (OfPeer e)) \<longleftrightarrow> transport_ok q \<and> same_reading p q"
  "handled_well p ((q, h), if b then Err (OfPeer e) else Ok x) \<longleftrightarrow> transport_ok q \<and> same_reading p q"
  by (simp_all add: handled_well_def)

lemma handle_init_well: "transport_ok p \<Longrightarrow> same_reading p0 p \<Longrightarrow> handled_well p0 (handle_init env who m p h)"
  by (simp add: handle_init_def Let_def transport_ok_def same_reading_def)

lemma results_well:
  assumes "transport_ok p" "same_reading p0 p"
  shows "outcome_fits (snd x) \<Longrightarrow> handled_well p0 (gossip_result p m x)" "outcome_fits (snd y) \<Longrightarrow> handled_well p0 (query_result p y)"
  using assms by (auto simp: gossip_result_def query_result_def outcome_fits_def handled_well_def split: outcome.splits prod.splits)

lemma handle_message_well:
  fixes env :: "('sk, 'c, 'h) peer_env"
  assumes "env_ok env" "transport_ok p0"
  shows "handled_well p0 (handle_message env m p0 h)"
proof -
  obtain who where who: "their_node_id p0 = Some who" using assms(2) by (auto simp: transport_ok_def)
  define p where "p = p0\<lparr>received_message_since_timer_tick := True\<rparr>"
  have p: "transport_ok p" "same_reading p0 p" using assms(2) by (auto simp: p_def transport_ok_def same_reading_def)
  have pong: "handled_well p0 (case enqueue_message env (MsgPong \<lparr>pong_byteslen = n\<rparr>) p of Ok p1 \<Rightarrow> ((p1, h), Ok (None :: 'c Message option)) | _ \<Rightarrow> ((p, h), Panic))" if "n < 65532" for n
    using enqueue_total [OF assms(1) p(1) replies_fit(3) [OF that]] p(2) by (auto simp: same_reading_def)
  have route: "handled_well p0 (gossip_result p m (route_gossip (env_handlers env) m h'))" "handled_well p0 (query_result p (route_query (env_handlers env) who m h'))"
    "handled_well p0 (query_result p (custom_handle (env_handlers env) who c h'))" for h' c
    using assms(1) by (auto simp: env_ok_def intro!: results_well p)
  have keep: "transport_ok (handle_filter flags p)" "same_reading p0 (handle_filter flags p)"
    "transport_ok (p\<lparr>awaiting_pong_timer_tick_intervals := 0, msgs_sent_since_pong := 0\<rparr>)"
    "same_reading p0 (p\<lparr>awaiting_pong_timer_tick_intervals := 0, msgs_sent_since_pong := 0\<rparr>)" for flags
    using p by (auto simp: handle_filter_def transport_ok_def same_reading_def)
  note init = handle_init_well [OF p]
  show ?thesis
  proof (cases "their_features p")
    case None
    then show ?thesis using p init unfolding handle_message_def who option.case p_def [symmetric] Let_def by (cases m) simp_all
  next
    case (Some flags)
    then show ?thesis using p init keep route pong unfolding handle_message_def who option.case p_def [symmetric] Let_def by (cases m) simp_all
  qed
qed

text \<open>A round that goes on leaves the peer ready, and with keys when there is a message to handle.\<close>

definition good_round :: "('sk, 'd, 'c, 'h) round_result \<Rightarrow> bool" where
  "good_round x \<longleftrightarrow>
     (case snd x of
        Ok Continue \<Rightarrow> read_ready (rd_peer (fst x))
      | Ok (Reached m) \<Rightarrow> read_ready (rd_peer (fst x)) \<and> (m \<noteq> None \<longrightarrow> transport_ok (rd_peer (fst x)))
      | Err _ \<Rightarrow> True
      | Panic \<Rightarrow> False)"

lemma good_round_simps [simp]:
  "good_round (st, Ok Continue) \<longleftrightarrow> read_ready (rd_peer st)"
  "good_round (st, Ok (Reached m)) \<longleftrightarrow> read_ready (rd_peer st) \<and> (m \<noteq> None \<longrightarrow> transport_ok (rd_peer st))"
  "good_round (st, Err e)" "\<not> good_round (st, Panic)"
  by (simp_all add: good_round_def)

lemma queue_reply_good:
  assumes "env_ok env" "transport_ok (rd_peer st)" "read_ready (rd_peer st)" "length (wire_write (env_wire env) (env_custom env) m) \<le> 65535"
    "r = Ok Continue \<or> r = Err e"
  shows "good_round (queue_reply env m r st)"
proof -
  obtain q where q: "enqueue_message env m (rd_peer st) = Ok q" "transport_ok q" "same_reading (rd_peer st) q" using enqueue_total [OF assms(1,2,4)] by blast
  then have "read_ready q" using same_reading_ready assms(2,3) by blast
  then show ?thesis using q assms(5) by (auto simp: queue_reply_def)
qed

lemma handleerror_good:
  assumes "env_ok env" "transport_ok (rd_peer st)" "read_ready (rd_peer st)" "error_fits e"
  shows "good_round (try_potential_handleerror env e st)"
  using assms by (auto simp: try_potential_handleerror_def error_fits_def intro!: queue_reply_good replies_fit split: ErrorAction.splits)

lemma undecodable_good:
  assumes "env_ok env" "transport_ok (rd_peer st)" "read_ready (rd_peer st)"
  shows "good_round (undecodable env e ty st)"
proof -
  have "length (show_type ty) \<le> 6564"
  proof (cases ty)
    case (Some t)
    have "length (show_nat (unat t)) \<le> unat t div 10 + 1" "unat t < 65536" using show_nat_short unsigned_less [of t, where 'a = nat] by simp_all
    then have "length (show_nat (unat t)) \<le> 6554" by linarith
    then show ?thesis using Some by (simp add: show_type_def to_string_def)
  qed (simp add: show_type_def)
  then show ?thesis using assms unfolding undecodable_def Let_def
    by (auto intro!: queue_reply_good replies_fit)
qed

lemma noise_refused: "snd res = Err (x, DisconnectPeer None) \<Longrightarrow> good_round (noise_step_of env res k st)"
  by (simp add: noise_step_of_def Let_def try_potential_handleerror_def)

lemma noise_accepted: "res = (e1, Ok x) \<Longrightarrow> noise_step_of env res k st = k (st\<lparr>rd_peer := (rd_peer st)\<lparr>channel_encryptor := e1\<rparr>\<rparr>) x"
  by (simp add: noise_step_of_def Let_def)

lemma handshake_done_good:
  assumes "env_ok env" "pce_noise_state (channel_encryptor (rd_peer st)) = Finished t" "keys_len t" "pending_read_buffer_pos (rd_peer st) = 0"
    "case their_net_address (rd_peer st) of Some a \<Rightarrow> address_ok a | None \<Rightarrow> True"
  shows "good_round (handshake_done env d who st)"
proof -
  define p where "p = (rd_peer st)\<lparr>pending_read_buffer := replicate 18 0, pending_read_is_header := True, their_node_id := Some who\<rparr>"
  have t: "transport_ok p" using assms(2,3) by (simp add: p_def transport_ok_def)
  then have r: "read_ready p" using assms(2,4,5) by (simp add: p_def read_ready_def buffer_ok_def)
  have "length (wire_write (env_wire env) (env_custom env)
      (MsgInit \<lparr>in_features = known InitContext, in_remote_network_address = filter_addresses (their_net_address p)\<rparr>)) \<le> 65535"
    by (rule init_fits) (use assms(5) in \<open>simp add: p_def\<close>)
  from enqueue_total [OF assms(1) t this] obtain q where
    q: "enqueue_message env (MsgInit \<lparr>in_features = known InitContext, in_remote_network_address = filter_addresses (their_net_address p)\<rparr>) p = Ok q"
    "transport_ok q" "same_reading p q" by blast
  moreover from q have "transport_ok (q\<lparr>awaiting_pong_timer_tick_intervals := 0\<rparr>)" "same_reading p (q\<lparr>awaiting_pong_timer_tick_intervals := 0\<rparr>)"
    by (simp_all add: transport_ok_def same_reading_def)
  ultimately have "read_ready (q\<lparr>awaiting_pong_timer_tick_intervals := 0\<rparr>)" using same_reading_ready t r by blast
  then show ?thesis using q(1) by (simp add: handshake_done_def Let_def flip: p_def)
qed

text \<open>A full buffer is handled whatever is in it.\<close>

lemma act_one_good:
  assumes "env_ok env" "pce_noise_state (channel_encryptor (rd_peer st)) = InProgress PreActOne (Inbound ie re k) bn" "length (pending_read_buffer (rd_peer st)) = 50"
    "pending_read_buffer_pos (rd_peer st) = 0" "case their_net_address (rd_peer st) of Some a \<Rightarrow> address_ok a | None \<Rightarrow> True"
  shows "good_round (act_one_read env st)"
proof -
  obtain c1 n where c: "get_increment (rd_counter st) = (c1, n)" by fastforce
  obtain eph where "secret_from_slice env (sha256_hash (env_crypto env) (ephemeral_random_data env @ u64_to_le_bytes n)) = Some eph"
    using assms(1) unfolding env_ok_def by blast
  then have e: "get_ephemeral_key env (rd_counter st) = (c1, Ok eph)" using c by (simp add: get_ephemeral_key_def)
  from act_one_total [OF env_crypto_ok [OF assms(1)] assms(3,2), of "valid_pubkey (env_wire env)" "our_node_secret env" eph] show ?thesis
  proof (elim disjE exE conjE)
    fix e1 act2 i r k2 bn2
    assume "process_act_one_with_keys (env_crypto env) (valid_pubkey (env_wire env)) (pending_read_buffer (rd_peer st)) (our_node_secret env) eph
        (channel_encryptor (rd_peer st)) = (e1, Ok act2)" "length k2 = 32" "pce_noise_state e1 = InProgress PostActTwo (Inbound i (Some r) (Some k2)) bn2"
    then show ?thesis using e assms(4,5) by (simp add: act_one_read_def noise_step_of_def Let_def read_ready_def buffer_ok_def)
  qed (simp add: act_one_read_def e noise_refused)
qed

lemma act_two_good:
  assumes "env_ok env" "pce_noise_state (channel_encryptor (rd_peer st)) = InProgress PostActOne (Outbound ie) bn" "length (pending_read_buffer (rd_peer st)) = 50"
    "pce_their_node_id (channel_encryptor (rd_peer st)) = Some who"
    "pending_read_buffer_pos (rd_peer st) = 0" "case their_net_address (rd_peer st) of Some a \<Rightarrow> address_ok a | None \<Rightarrow> True"
  shows "good_round (act_two_read env d st)"
proof -
  have "length (public_of (env_crypto env) s) = 33" for s using assms(1) by (simp add: env_ok_def keys_ok_def)
  from act_two_total [OF env_crypto_ok [OF assms(1)] this assms(3,2,4), of "valid_pubkey (env_wire env)" "our_node_secret env"] show ?thesis
  proof (elim disjE exE conjE)
    fix e1 act3 t
    assume "process_act_two (env_crypto env) (valid_pubkey (env_wire env)) (pending_read_buffer (rd_peer st)) (our_node_secret env) (channel_encryptor (rd_peer st)) =
        (e1, Ok (act3, who))" "pce_noise_state e1 = Finished t" "keys_len t"
    then show ?thesis using assms(1,5,6) by (auto simp: act_two_read_def noise_accepted intro!: handshake_done_good)
  qed (simp add: act_two_read_def noise_refused)
qed

lemma act_three_good:
  assumes "env_ok env" "pce_noise_state (channel_encryptor (rd_peer st)) = InProgress PostActTwo (Inbound ie (Some re) (Some k)) bn" "length k = 32"
    "length (pending_read_buffer (rd_peer st)) = 66"
    "pending_read_buffer_pos (rd_peer st) = 0" "case their_net_address (rd_peer st) of Some a \<Rightarrow> address_ok a | None \<Rightarrow> True"
  shows "good_round (act_three_read env d st)"
  using act_three_total [OF env_crypto_ok [OF assms(1)] assms(4,2,3), of "valid_pubkey (env_wire env)"]
proof (elim disjE exE conjE)
  fix e1 who t
  assume "process_act_three (env_crypto env) (valid_pubkey (env_wire env)) (pending_read_buffer (rd_peer st)) (channel_encryptor (rd_peer st)) = (e1, Ok who)"
    "pce_noise_state e1 = Finished t" "keys_len t"
  then show ?thesis using assms(1,5,6) by (auto simp: act_three_read_def noise_accepted intro!: handshake_done_good)
qed (simp add: act_three_read_def noise_refused)

lemma length_features_resize [simp]: "length (Features.resize n bs) = n"
  by (simp add: Features.resize_def)

lemma header_good:
  assumes "env_ok env" "pce_noise_state (channel_encryptor (rd_peer st)) = Finished t" "keys_len t" "their_node_id (rd_peer st) \<noteq> None"
    "length (pending_read_buffer (rd_peer st)) = 18" "pending_read_buffer_pos (rd_peer st) = 0" "case their_net_address (rd_peer st) of Some a \<Rightarrow> address_ok a | None \<Rightarrow> True"
  shows "good_round (header_read env st)"
  using header_total [OF env_crypto_ok [OF assms(1)] assms(2,3,5)]
proof (elim disjE exE conjE)
  fix e1 len t1
  assume e: "decrypt_length_header (env_crypto env) (pending_read_buffer (rd_peer st)) (channel_encryptor (rd_peer st)) = (e1, Ok len)"
    "pce_noise_state e1 = Finished t1" "keys_len t1"
  have "unat len + 16 \<le> 65551" "\<not> len < 2 \<Longrightarrow> 18 \<le> unat len + 16"
    using unsigned_less [of len, where 'a = nat] by (simp_all add: word_less_nat_alt)
  then show ?thesis using e assms(4,6,7) by (simp add: header_read_def noise_accepted Let_def read_ready_def buffer_ok_def transport_ok_def)
qed (simp add: header_read_def noise_refused)

lemma message_good:
  assumes "env_ok env" "pce_noise_state (channel_encryptor (rd_peer st)) = Finished t" "keys_len t" "their_node_id (rd_peer st) \<noteq> None"
    "18 \<le> length (pending_read_buffer (rd_peer st))" "length (pending_read_buffer (rd_peer st)) \<le> 65551"
    "pending_read_buffer_pos (rd_peer st) = 0" "case their_net_address (rd_peer st) of Some a \<Rightarrow> address_ok a | None \<Rightarrow> True"
  shows "good_round (message_read env st)"
proof -
  define k where "k = length (pending_read_buffer (rd_peer st)) - 16"
  have k: "length (pending_read_buffer (rd_peer st)) = k + 16" "k \<le> 65535" "2 \<le> k" using assms(5,6) by (simp_all add: k_def)
  from message_total [OF assms(2,3) k(1,2)] show ?thesis
  proof (elim disjE exE conjE)
    fix e1 m t1
    assume e: "decrypt_message (pending_read_buffer (rd_peer st)) (channel_encryptor (rd_peer st)) = (e1, Ok m)" "length m = k"
      "pce_noise_state e1 = Finished t1" "keys_len t1"
    let ?st = "st\<lparr>rd_peer := (rd_peer st)\<lparr>channel_encryptor := e1, pending_read_buffer := Features.resize 18 (pending_read_buffer (rd_peer st)), pending_read_is_header := True\<rparr>\<rparr>"
    have t: "transport_ok (rd_peer ?st)" using e(3,4) assms(4) by (simp add: transport_ok_def)
    then have r: "read_ready (rd_peer ?st)" using e(3,4) assms(7,8) by (simp add: read_ready_def buffer_ok_def)
    have "wire_read (env_wire env) (env_custom env) m \<noteq> Panic"
      using do_read_total [of "env_custom env" "env_wire env"] assms(1) by (auto simp: wire_read_def env_ok_def read_be_def outcome_simps wire_total split: outcome.splits)
    then show ?thesis using e(1,2) k(3) t r undecodable_good [OF assms(1) t r]
      by (auto simp: message_read_def noise_accepted Let_def split: outcome.splits)
  qed (simp add: message_read_def noise_refused)
qed

lemma buffer_full_good:
  assumes "env_ok env" "buffer_ok (rd_peer st)" "pending_read_buffer_pos (rd_peer st) = 0"
    "case their_net_address (rd_peer st) of Some a \<Rightarrow> address_ok a | None \<Rightarrow> True"
  shows "good_round (buffer_full env d st)"
proof (cases "pce_noise_state (channel_encryptor (rd_peer st))")
  case (InProgress step dir bn)
  consider ie re k where "step = PreActOne" "dir = Inbound ie re k" "length (pending_read_buffer (rd_peer st)) = 50"
    | ie who where "step = PostActOne" "dir = Outbound ie" "length (pending_read_buffer (rd_peer st)) = 50" "pce_their_node_id (channel_encryptor (rd_peer st)) = Some who"
    | ie re k where "step = PostActTwo" "dir = Inbound ie (Some re) (Some k)" "length (pending_read_buffer (rd_peer st)) = 66" "length k = 32"
    using assms(2) InProgress by (cases step; cases dir) (auto simp: buffer_ok_def Let_def split: option.splits)
  then show ?thesis
  proof cases
    case 1
    then show ?thesis using InProgress act_one_good [OF assms(1) _ _ assms(3,4)] by (simp add: buffer_full_def get_noise_step_def)
  next
    case 2
    then show ?thesis using InProgress act_two_good [OF assms(1) _ _ _ assms(3,4)] by (simp add: buffer_full_def get_noise_step_def)
  next
    case 3
    then show ?thesis using InProgress act_three_good [OF assms(1) _ _ _ assms(3,4)] by (simp add: buffer_full_def get_noise_step_def)
  qed
next
  case (Finished t)
  then have "keys_len t" "their_node_id (rd_peer st) \<noteq> None"
    "if pending_read_is_header (rd_peer st) then length (pending_read_buffer (rd_peer st)) = 18
     else 18 \<le> length (pending_read_buffer (rd_peer st)) \<and> length (pending_read_buffer (rd_peer st)) \<le> 65551"
    using assms(2) by (simp_all add: buffer_ok_def transport_ok_def Let_def)
  then show ?thesis using Finished header_good [OF assms(1) Finished _ _ _ assms(3,4)] message_good [OF assms(1) Finished _ _ _ _ assms(3,4)]
    by (simp add: buffer_full_def get_noise_step_def)
qed

lemma dispatch_good:
  assumes "env_ok env" "transport_ok (rd_peer st)" "read_ready (rd_peer st)"
  shows "good_round (dispatch env m st)"
proof -
  obtain q h r where e: "handle_message env m (rd_peer st) (rd_handlers st) = ((q, h), r)" by (metis surj_pair)
  then have w: "handled_well (rd_peer st) ((q, h), r)" using handle_message_well [OF assms(1,2), of m "rd_handlers st"] by simp
  then have q: "transport_ok q" "read_ready q" using same_reading_ready assms(2,3) by (auto simp: handled_well_def)
  then have "good_round (try_potential_handleerror env x (st\<lparr>rd_peer := q, rd_handlers := h\<rparr>))" if "error_fits x" for x
    using handleerror_good [OF assms(1), of "st\<lparr>rd_peer := q, rd_handlers := h\<rparr>"] that by simp
  then show ?thesis using e w q
    by (auto simp: dispatch_def handled_well_def Let_def split: outcome.splits option.splits MessageHandlingError.splits)
qed

lemma after_round_good:
  assumes "env_ok env" "good_round x" "after_round env x pause = ((st, z), r)"
  shows "r \<noteq> Panic \<and> (r = Ok () \<longrightarrow> read_ready (rd_peer st))"
proof -
  obtain st0 r0 where x: "x = (st0, r0)" by fastforce
  have "good_round (dispatch env m st0)" if "r0 = Ok (Reached (Some m))" for m by (rule dispatch_good [OF assms(1)]) (use assms(2) x that in simp_all)
  then show ?thesis using assms(2,3) x
    by (auto simp: after_round_def good_round_def Let_def split: outcome.splits round.splits option.splits prod.splits)
qed

lemma buffer_ok_cong:
  assumes "length (pending_read_buffer q) = length (pending_read_buffer p)" "channel_encryptor q = channel_encryptor p" "their_node_id q = their_node_id p"
    "pending_read_is_header q = pending_read_is_header p"
  shows "buffer_ok q = buffer_ok p"
  unfolding buffer_ok_def transport_ok_def assms ..

lemma buffer_ok_pos [simp]: "buffer_ok (q\<lparr>pending_read_buffer_pos := n\<rparr>) = buffer_ok q"
  by (rule buffer_ok_cong) simp_all

lemma copied_ready:
  assumes "read_ready p" "copied data p = (q, rest)"
  shows "buffer_ok q" "their_net_address q = their_net_address p" "pending_read_buffer_pos q \<le> length (pending_read_buffer q)"
    "pending_read_buffer_pos q \<noteq> length (pending_read_buffer q) \<Longrightarrow> read_ready q"
proof -
  have l: "length (pending_read_buffer q) = length (pending_read_buffer p)" "pending_read_buffer_pos q \<le> length (pending_read_buffer q)"
    "their_net_address q = their_net_address p" "channel_encryptor q = channel_encryptor p" "their_node_id q = their_node_id p"
    "pending_read_is_header q = pending_read_is_header p"
    using assms by (auto simp: copied_def Let_def read_ready_def)
  then show "their_net_address q = their_net_address p" "pending_read_buffer_pos q \<le> length (pending_read_buffer q)" by simp_all
  show b: "buffer_ok q" using assms(1) buffer_ok_cong [of q p] l by (simp add: read_ready_def)
  show "read_ready q" if "pending_read_buffer_pos q \<noteq> length (pending_read_buffer q)"
    using b l that assms(1) by (simp add: read_ready_def)
qed

lemma read_round_good:
  assumes "env_ok env" "read_ready (rd_peer st)" "read_round env d st data pause = (((st1, z), r), rest)"
  shows "r \<noteq> Panic \<and> (r = Ok () \<longrightarrow> read_ready (rd_peer st1))"
proof -
  obtain q rest1 where c: "copied data (rd_peer st) = (q, rest1)" by fastforce
  note q = copied_ready [OF assms(2) c]
  have pos: "pending_read_buffer_pos (rd_peer st) < length (pending_read_buffer (rd_peer st))" using assms(2) by (simp add: read_ready_def)
  show ?thesis
  proof (cases "pending_read_buffer_pos q = length (pending_read_buffer q)")
    case True
    let ?st = "noted st\<lparr>rd_peer := q\<lparr>pending_read_buffer_pos := 0\<rparr>\<rparr>"
    have "good_round (buffer_full env d ?st)"
      by (rule buffer_full_good [OF assms(1)]) (use q assms(2) in \<open>simp_all add: read_ready_def\<close>)
    moreover have "after_round env (buffer_full env d ?st) pause = ((st1, z), r)" using assms(3) c True pos by (simp add: read_round_def Let_def)
    ultimately show ?thesis using after_round_good [OF assms(1)] by blast
  next
    case False
    then have "good_round (noted st\<lparr>rd_peer := q\<rparr>, Ok (Reached None))" using q(4) by simp
    moreover have "after_round env (noted st\<lparr>rd_peer := q\<rparr>, Ok (Reached None)) pause = ((st1, z), r)" using assms(3) c False pos by (simp add: read_round_def Let_def)
    ultimately show ?thesis using after_round_good [OF assms(1)] by blast
  qed
qed

lemma read_loop_good:
  assumes "env_ok env"
  shows "read_ready (rd_peer st) \<Longrightarrow> snd (read_loop env d st pause data) \<noteq> Panic \<and>
    (snd (read_loop env d st pause data) = Ok () \<longrightarrow> read_ready (rd_peer (fst (fst (read_loop env d st pause data)))))"
proof (induction "length data" arbitrary: st pause data rule: less_induct)
  case less
  show ?case
  proof (cases "data = []")
    case False
    obtain st1 z r rest where a: "read_round env d st data pause = (((st1, z), r), rest)" by (metis surj_pair)
    note g = read_round_good [OF assms less.prems a]
    show ?thesis
    proof (cases "r = Ok ()")
      case True
      then have "length rest < length data" using read_round_shorter [of env d st data pause st1 z "()" rest] a False by simp
      then show ?thesis using less.hyps [of rest st1 z] g True a False by (simp add: read_loop.simps [of env d st])
    next
      case notok: False
      then show ?thesis using g a False by (cases r) (simp_all add: read_loop.simps [of env d st])
    qed
  qed (use less.prems in \<open>simp add: read_loop.simps\<close>)
qed

section \<open>Theorems\<close>



section \<open>On concrete peers\<close>

text \<open>A node with toy keys, whose handlers write down what they are told.\<close>

definition log_handlers :: "(bytes, (bytes \<times> bytes Message) list) handlers" where
  "log_handlers = \<lparr>routing_graph = (\<lambda>_. new_graph []), route_connected = (\<lambda>who i h. h), chan_connected = (\<lambda>who i h. h @ [(who, MsgInit i)]),
     chan_disconnected = (\<lambda>who b h. h), chan_handle = (\<lambda>who f m h. h @ [(who, m)]), route_gossip = (\<lambda>m h. (h, Ok True)),
     route_query = (\<lambda>who m h. (h, Ok ())), custom_handle = (\<lambda>who c h. (h @ [(who, MsgCustom c)], Ok ()))\<rparr>"

definition toy_env :: "(nat, bytes, (bytes \<times> bytes Message) list) peer_env" where
  "toy_env = \<lparr>env_crypto = toy_crypto, env_wire = \<lparr>valid_pubkey = (\<lambda>_. True), valid_signature = (\<lambda>_. True)\<rparr>, env_custom = text_lib, env_handlers = log_handlers,
     our_node_secret = 4, ephemeral_random_data = [], secret_from_slice = (\<lambda>_. Some 6)\<rparr>"

lemma toy_env_ok: "env_ok toy_env"
  by (simp add: env_ok_def toy_env_def keys_ok_def crypto_ok_def toy_crypto_def text_lib_def log_handlers_def outcome_fits_def)

definition read_start :: "nat Peer \<Rightarrow> (nat, nat, bytes, (bytes \<times> bytes Message) list) reading" where
  "read_start p = \<lparr>rd_peer = p, rd_ids = (\<lambda>_. None), rd_counter = \<lparr>counter_low = 0, counter_high = 0\<rparr>, rd_handlers = [], rd_forward = [], rd_node_id = None\<rparr>"


end
