(* ===== verification/Peer_Delivery.thy ===== *)
theory Peer_Delivery
  imports Peer_Reading
begin

text \<open>
  From one peer to another: bytes that are queued reach the socket in order, and the messages behind them reach the handlers of
  the other side in order, however the network cuts the bytes. What a connection does with its messages is
  specified by \<open>session\<close>, which knows nothing of bytes, keys and buffers.
\<close>

section \<open>The write loop\<close>

text \<open>What the documentation of \<open>send_data\<close> promises: it takes a prefix of the data and says how long it was. \<open>sent\<close> observes what was taken.\<close>

definition socket_ok :: "('d, 's) socket_lib \<Rightarrow> ('s \<Rightarrow> 'd \<Rightarrow> bytes) \<Rightarrow> bool" where
  "socket_ok so sent \<longleftrightarrow> (\<forall>d data b s. case send_data so d data b s of (s1, n) \<Rightarrow>
     n \<le> length data \<and> sent s1 = (sent s)(d := sent s d @ take n data))"

lemma socket_okD:
  assumes "socket_ok so sent" "send_data so d data b s = (s1, n)"
  shows "n \<le> length data" "sent s1 = (sent s)(d := sent s d @ take n data)"
proof -
  from assms(1) have "case send_data so d data b s of (s1, n) \<Rightarrow> n \<le> length data \<and> sent s1 = (sent s)(d := sent s d @ take n data)"
    unfolding socket_ok_def by (elim allE)
  then show "n \<le> length data" "sent s1 = (sent s)(d := sent s d @ take n data)" using assms(2) by simp_all
qed

definition unsent :: "'sk Peer \<Rightarrow> bytes" where
  "unsent p = drop (pending_outbound_buffer_first_msg_offset p) (concat (pending_outbound_buffer p))"

definition queue_ok :: "'sk Peer \<Rightarrow> bool" where
  "queue_ok p \<longleftrightarrow> (case pending_outbound_buffer p of [] \<Rightarrow> pending_outbound_buffer_first_msg_offset p = 0
     | w # _ \<Rightarrow> pending_outbound_buffer_first_msg_offset p \<le> length w)"

text \<open>Messages are added at the end only.\<close>

definition appended :: "'sk Peer \<Rightarrow> 'sk Peer \<Rightarrow> bytes list \<Rightarrow> bool" where
  "appended p q ws \<longleftrightarrow> pending_outbound_buffer q = pending_outbound_buffer p @ ws \<and>
     pending_outbound_buffer_first_msg_offset q = pending_outbound_buffer_first_msg_offset p"

lemma appended_trans: "appended p q ws \<Longrightarrow> appended q r vs \<Longrightarrow> appended p r (ws @ vs)"
  by (simp add: appended_def)

lemma enqueue_appends: "enqueue_message env m p = Ok q \<Longrightarrow> \<exists>w. appended p q [w]"
  by (auto simp: enqueue_message_def enqueue_encoded_message_def appended_def split: option.splits prod.splits outcome.splits)

lemma enqueue_all_appends: "enqueue_all env ms p = Ok q \<Longrightarrow> \<exists>ws. appended p q ws \<and> length ws = length ms"
proof (induction ms arbitrary: p)
  case Nil
  then show ?case by (simp add: appended_def)
next
  case (Cons m ms)
  then obtain p1 where p1: "enqueue_message env m p = Ok p1" "enqueue_all env ms p1 = Ok q" by (auto split: outcome.splits)
  obtain w where "appended p p1 [w]" using enqueue_appends [OF p1(1)] by blast
  moreover obtain ws where "appended p1 q ws" "length ws = length ms" using Cons.IH [OF p1(2)] by blast
  ultimately show ?case using appended_trans [of p p1 "[w]" q ws] by (intro exI [of _ "w # ws"]) simp
qed

lemma refill_appends:
  assumes "refill env h p = Ok q"
  shows "\<exists>ws. appended p q ws"
proof -
  obtain p1 where p1: "queue_sync env h p = Ok p1" "(if msgs_sent_since_pong p1 \<ge> BUFFER_DRAIN_MSGS_PER_TICK then maybe_send_extra_ping env p1 else Ok p1) = Ok q"
    using assms by (auto simp: refill_def and_then_Ok_iff)
  have "\<exists>ws. appended p p1 ws"
  proof (cases "p1 = p")
    case True
    then show ?thesis by (auto simp: appended_def)
  next
    case False
    then obtain ms p2 st where "enqueue_all env ms p = Ok p2" "p1 = p2\<lparr>sync_status := st\<rparr>"
      using p1(1) by (auto simp: queue_sync_def map_ok_Ok_iff split: if_splits prod.splits)
    then show ?thesis using enqueue_all_appends [of env ms p p2] by (auto simp: appended_def)
  qed
  moreover have "\<exists>ws. appended p1 q ws"
  proof (cases "q = p1")
    case True
    then show ?thesis by (auto simp: appended_def)
  next
    case False
    then obtain m where "enqueue_message env m (p1\<lparr>awaiting_pong_timer_tick_intervals := - 1\<rparr>) = Ok q"
      using p1(2) by (auto simp: maybe_send_extra_ping_def split: if_splits)
    then show ?thesis using enqueue_appends by (fastforce simp: appended_def)
  qed
  ultimately show ?thesis using appended_trans by blast
qed

lemma appended_unsent:
  assumes "appended p q ws" "queue_ok p"
  shows "unsent q = unsent p @ concat ws" "queue_ok q"
proof -
  have "pending_outbound_buffer_first_msg_offset p \<le> length (concat (pending_outbound_buffer p))"
    using assms(2) by (auto simp: queue_ok_def split: list.splits)
  then show "unsent q = unsent p @ concat ws" using assms(1) by (simp add: unsent_def appended_def)
  show "queue_ok q" using assms by (auto simp: queue_ok_def appended_def split: list.splits)
qed


section \<open>What a connection does with its messages\<close>

type_synonym ('c, 'h) view = "features option \<times> 'h \<times> 'c Message list"

fun is_announcement :: "'c Message \<Rightarrow> bool" where
  "is_announcement (MsgChannelAnnouncement _) = True"
| "is_announcement (MsgNodeAnnouncement _) = True"
| "is_announcement (MsgChannelUpdate _) = True"
| "is_announcement _ = False"

fun for_routing :: "'c Message \<Rightarrow> bool" where
  "for_routing (MsgQueryShortChannelIds _) = True"
| "for_routing (MsgReplyShortChannelIdsEnd _) = True"
| "for_routing (MsgQueryChannelRange _) = True"
| "for_routing (MsgReplyChannelRange _) = True"
| "for_routing m = False"

fun for_peer :: "'c Message \<Rightarrow> bool" where
  "for_peer (MsgWarning _) = True"
| "for_peer (MsgPing _) = True"
| "for_peer (MsgPong _) = True"
| "for_peer (MsgGossipTimestampFilter _) = True"
| "for_peer m = False"

text \<open>An error of a handler ends the connection only when it says so.\<close>

definition verdict :: "(LightningError, 'a) outcome \<Rightarrow> (PeerHandleError, unit) outcome" where
  "verdict r = (case r of Ok _ \<Rightarrow> Ok () | Err (_, DisconnectPeer _) \<Rightarrow> Err (PeerHandleError False) | Err _ \<Rightarrow> Ok () | Panic \<Rightarrow> Panic)"

definition session_step :: "('sk, 'c, 'h) peer_env \<Rightarrow> bytes \<Rightarrow> 'c Message \<Rightarrow> ('c, 'h) view \<Rightarrow> ('c, 'h) view \<times> (PeerHandleError, unit) outcome" where
  "session_step env who m = (\<lambda>(f, h, fw).
     (let hs = env_handlers env in
      case (m, f) of
        (MsgInit i, _) \<Rightarrow>
          if requires_unknown_bits InitContext (in_features i) then ((f, h, fw), Err (PeerHandleError True))
          else if f \<noteq> None then ((f, h, fw), Err (PeerHandleError False))
          else if \<not> supports_feature StaticRemoteKey (in_features i) then ((f, h, fw), Err (PeerHandleError True))
          else ((Some (in_features i), chan_connected hs who i (route_connected hs who i h), fw), Ok ())
      | (_, None) \<Rightarrow> ((f, h, fw), Err (PeerHandleError False))
      | (MsgUnknown t, Some _) \<Rightarrow> ((f, h, fw), if t AND 1 = 0 then Err (PeerHandleError True) else Ok ())
      | (MsgCustom c, Some _) \<Rightarrow> (let (h1, r) = custom_handle hs who c h in ((f, h1, fw), verdict r))
      | (MsgError e, Some flags) \<Rightarrow> ((f, chan_handle hs who flags m h, fw), if em_channel_id e = replicate 32 0 then Err (PeerHandleError True) else Ok ())
      | (_, Some flags) \<Rightarrow>
          if for_peer m then ((f, h, fw), Ok ())
          else if for_routing m
          then let (h1, r) = route_query hs who m h in ((f, h1, fw), verdict r)
          else if is_announcement m
          then let (h1, r) = route_gossip hs m (case m of MsgChannelUpdate _ \<Rightarrow> chan_handle hs who flags m h | _ \<Rightarrow> h) in
               ((f, h1, if r = Ok True then fw @ [m] else fw), verdict r)
          else ((f, chan_handle hs who flags m h, fw), Ok ())))"

fun session :: "('sk, 'c, 'h) peer_env \<Rightarrow> bytes \<Rightarrow> 'c Message list \<Rightarrow> ('c, 'h) view \<Rightarrow> ('c, 'h) view \<times> (PeerHandleError, unit) outcome" where
  "session env who [] v = (v, Ok ())"
| "session env who (m # ms) v = (case session_step env who m v of (v1, Ok _) \<Rightarrow> session env who ms v1 | (v1, r) \<Rightarrow> (v1, r))"

definition view :: "('sk, 'd, 'c, 'h) reading \<Rightarrow> ('c, 'h) view" where
  "view st = (their_features (rd_peer st), rd_handlers st, rd_forward st)"

section \<open>The read loop implements it\<close>

definition ended_as :: "(PeerHandleError, 'a) outcome \<Rightarrow> (PeerHandleError, unit) outcome" where
  "ended_as r = (case r of Ok _ \<Rightarrow> Ok () | Err e \<Rightarrow> Err e | Panic \<Rightarrow> Panic)"

lemma enqueue_features: "enqueue_message env m p = Ok q \<Longrightarrow> their_features q = their_features p"
  by (auto simp: enqueue_message_def enqueue_encoded_message_def split: option.splits prod.splits outcome.splits)

lemma queue_reply_view:
  assumes "env_ok env" "transport_ok (rd_peer st)" "length (wire_write (env_wire env) (env_custom env) m) \<le> 65535"
  shows "\<exists>st1. queue_reply env m r st = (st1, r) \<and> view st1 = view st"
  using enqueue_total [OF assms] by (auto simp: queue_reply_def view_def dest: enqueue_features)

lemma handleerror_view:
  assumes "env_ok env" "transport_ok (rd_peer st)" "error_fits e" "try_potential_handleerror env e st = (st1, r)"
  shows "view st1 = view st" "ended_as r = verdict (Err e :: (LightningError, unit) outcome)"
proof -
  have "view st1 = view st \<and> ended_as r = verdict (Err e :: (LightningError, unit) outcome)"
  proof (cases "snd e")
    case (SendErrorMessage i s)
    then show ?thesis using assms(3,4) queue_reply_view [OF assms(1,2) replies_fit(1), of i s "Ok Continue"]
      by (cases e) (auto simp: try_potential_handleerror_def error_fits_def verdict_def ended_as_def)
  next
    case (SendWarningMessage i s l)
    then show ?thesis using assms(3,4) queue_reply_view [OF assms(1,2) replies_fit(2), of i s "Ok Continue"]
      by (cases e) (auto simp: try_potential_handleerror_def error_fits_def verdict_def ended_as_def)
  qed (use assms(4) in \<open>cases e; auto simp: try_potential_handleerror_def verdict_def ended_as_def\<close>)+
  then show "view st1 = view st" "ended_as r = verdict (Err e :: (LightningError, unit) outcome)" by simp_all
qed

text \<open>Before errors are answered, the dispatch does what the specification says.\<close>

definition outcome_view :: "'c Message list \<Rightarrow> ('sk Peer \<times> 'h) \<times> (MessageHandlingError, 'c Message option) outcome \<Rightarrow> ('c, 'h) view \<times> (PeerHandleError, unit) outcome" where
  "outcome_view fw = (\<lambda>((q, h), r).
     ((their_features q, h, case r of Ok (Some f) \<Rightarrow> fw @ [f] | _ \<Rightarrow> fw),
      case r of Ok _ \<Rightarrow> Ok () | Err (OfPeer e) \<Rightarrow> Err e | Err (OfMessage e) \<Rightarrow> verdict (Err e :: (LightningError, unit) outcome) | Panic \<Rightarrow> Panic))"

lemma outcome_view_simps [simp]:
  "outcome_view fw ((q, h), Ok None) = ((their_features q, h, fw), Ok ())"
  "outcome_view fw ((q, h), Err (OfPeer e)) = ((their_features q, h, fw), Err e)"
  "outcome_view fw ((q, h), if b then Err (OfPeer e) else Ok None) = ((their_features q, h, fw), if b then Err e else Ok ())"
  by (simp_all add: outcome_view_def)

lemma results_view:
  "outcome_view fw (gossip_result p m x) = ((their_features p, fst x, if snd x = Ok True then fw @ [m] else fw), verdict (snd x))"
  "outcome_view fw (query_result p y) = ((their_features p, fst y, fw), verdict (snd y))"
  by (auto simp: gossip_result_def query_result_def outcome_view_def verdict_def split: outcome.splits prod.splits ErrorAction.splits)

lemma handle_message_view:
  fixes env :: "('sk, 'c, 'h) peer_env"
  assumes "env_ok env" "transport_ok p0" "their_node_id p0 = Some who"
  shows "outcome_view fw (handle_message env m p0 h) = session_step env who m (their_features p0, h, fw)"
proof -
  define p where "p = p0\<lparr>received_message_since_timer_tick := True\<rparr>"
  have p: "transport_ok p" "their_features p = their_features p0" using assms(2) by (auto simp: p_def transport_ok_def)
  have init: "outcome_view fw (handle_init env who i p h) = session_step env who (MsgInit i) (their_features p, h, fw)" for i
    by (simp add: handle_init_def session_step_def Let_def)
  have pong: "outcome_view fw (case enqueue_message env (MsgPong \<lparr>pong_byteslen = n\<rparr>) p of
      Ok p1 \<Rightarrow> ((p1, h), Ok (None :: 'c Message option)) | _ \<Rightarrow> ((p, h), Panic)) = ((their_features p, h, fw), Ok ())" if "n < 65532" for n
    using enqueue_total [OF assms(1) p(1) replies_fit(3) [OF that]] by (auto dest: enqueue_features)
  have keep: "their_features (handle_filter flags p) = their_features p" for flags by (simp add: handle_filter_def)
  show ?thesis
  proof (cases "their_features p")
    case None
    then show ?thesis using init p(2) unfolding handle_message_def assms(3) option.case p_def [symmetric] Let_def
      by (cases m) (simp_all add: session_step_def Let_def)
  next
    case (Some flags)
    then show ?thesis using init p(2) pong keep unfolding handle_message_def assms(3) option.case p_def [symmetric] Let_def
      by (cases m) (simp_all add: session_step_def Let_def results_view is_even_def case_prod_beta)
  qed
qed

lemma dispatch_view:
  assumes "env_ok env" "transport_ok (rd_peer st)" "their_node_id (rd_peer st) = Some who" "dispatch env m st = (st1, r)"
  shows "session_step env who m (view st) = (view st1, ended_as r)"
proof -
  obtain q h r0 where e: "handle_message env m (rd_peer st) (rd_handlers st) = ((q, h), r0)" by (metis surj_pair)
  then have v: "session_step env who m (view st) = outcome_view (rd_forward st) ((q, h), r0)"
    using handle_message_view [OF assms(1-3), of "rd_forward st" m "rd_handlers st"] by (simp add: view_def)
  have w: "handled_well (rd_peer st) ((q, h), r0)" using handle_message_well [OF assms(1,2), of m "rd_handlers st"] e by simp
  let ?st = "st\<lparr>rd_peer := q, rd_handlers := h\<rparr>"
  show ?thesis
  proof (cases "\<exists>x. r0 = Err (OfMessage x)")
    case True
    then obtain x where x: "r0 = Err (OfMessage x)" by blast
    then have "error_fits x" "transport_ok (rd_peer ?st)" using w by (simp_all add: handled_well_def)
    note t = handleerror_view [OF assms(1) this(2,1), of st1 r]
    have "try_potential_handleerror env x ?st = (st1, r)" using assms(4) e x by (simp add: dispatch_def Let_def)
    then show ?thesis using t v x by (simp add: outcome_view_def view_def)
  next
    case False
    then show ?thesis using assms(4) e v w
      by (auto simp: dispatch_def Let_def outcome_view_def view_def ended_as_def split: outcome.splits option.splits MessageHandlingError.splits)
  qed
qed

section \<open>From queue to handler\<close>

text \<open>The receiving half of one peer follows the sending half of the other.\<close>

definition feeds :: "'sk PeerChannelEncryptor \<Rightarrow> 'sk PeerChannelEncryptor \<Rightarrow> bool" where
  "feeds a b \<longleftrightarrow> (\<exists>s r. pce_noise_state a = Finished s \<and> pce_noise_state b = Finished r \<and> half_paired s r)"

definition at_header :: "'sk Peer \<Rightarrow> bool" where
  "at_header p \<longleftrightarrow> pending_read_is_header p \<and> pending_read_buffer_pos p = 0 \<and> length (pending_read_buffer p) = 18"

text \<open>Sending from the receiving side does not disturb what it receives.\<close>

lemma encrypt_keeps_feeds:
  assumes "feeds a b" "encrypt_message cr m b = (b1, r)"
  shows "feeds a b1"
proof -
  obtain s t where st: "pce_noise_state a = Finished s" "pce_noise_state b = Finished t" "half_paired s t" using assms(1) by (auto simp: feeds_def)
  have "half_paired s ((rotate_send cr t)\<lparr>tk_sn := n\<rparr>)" for n using st(3) by (auto simp: half_paired_def rotate_send_def split: prod.splits)
  then show ?thesis using st assms(2) by (auto simp: encrypt_message_def feeds_def Let_def split: if_splits)
qed

lemma enqueue_keeps_feeds: "feeds a (channel_encryptor p) \<Longrightarrow> enqueue_message env m p = Ok q \<Longrightarrow> feeds a (channel_encryptor q)"
  by (auto simp: enqueue_message_def enqueue_encoded_message_def dest: encrypt_keeps_feeds split: option.splits prod.splits outcome.splits)

lemma handle_keeps_feeds:
  assumes "feeds a (channel_encryptor p)" "handle_message env m p h = ((q, h1), r)"
  shows "feeds a (channel_encryptor q)"
proof -
  have init: "channel_encryptor (fst (fst (handle_init env who i p' h'))) = channel_encryptor p'" for who i p' h' by (simp add: handle_init_def Let_def)
  have route: "fst (fst (gossip_result p' m' x)) = p'" "fst (fst (query_result p' y)) = p'" for p' m' x y
    by (simp_all add: gossip_result_def query_result_def case_prod_beta)
  let ?p = "p\<lparr>received_message_since_timer_tick := True\<rparr>"
  have f: "feeds a (channel_encryptor ?p)" using assms(1) by simp
  have "feeds a (channel_encryptor (fst (fst (handle_message env m p h))))"
  proof (cases "their_node_id p")
    case (Some who)
    show ?thesis
    proof (cases "their_features p")
      case None
      then show ?thesis using f Some init [of who _ ?p] by (cases m) (simp_all add: handle_message_def Let_def)
    next
      case (Some flags)
      then show ?thesis using f \<open>their_node_id p = Some who\<close> init [of who _ ?p] enqueue_keeps_feeds [OF f]
        by (cases m) (auto simp: handle_message_def Let_def route handle_filter_def split: outcome.splits prod.splits)
    qed
  qed (use assms(1) in \<open>simp add: handle_message_def\<close>)
  then show ?thesis using assms(2) by simp
qed

lemma dispatch_keeps:
  assumes "env_ok env" "transport_ok (rd_peer st)" "feeds a (channel_encryptor (rd_peer st))" "at_header (rd_peer st)" "dispatch env m st = (st1, Ok x)"
  shows "feeds a (channel_encryptor (rd_peer st1))" "at_header (rd_peer st1)" "their_node_id (rd_peer st1) = their_node_id (rd_peer st)" "transport_ok (rd_peer st1)"
proof -
  obtain q h r0 where e: "handle_message env m (rd_peer st) (rd_handlers st) = ((q, h), r0)" by (metis surj_pair)
  have w: "handled_well (rd_peer st) ((q, h), r0)" using handle_message_well [OF assms(1,2), of m "rd_handlers st"] e by simp
  have q: "feeds a (channel_encryptor q)" "transport_ok q" "same_reading (rd_peer st) q" using handle_keeps_feeds [OF assms(3) e] w by (simp_all add: handled_well_def)
  have reply: "feeds a (channel_encryptor q1) \<and> same_reading (rd_peer st) q1 \<and> transport_ok q1"
    if "enqueue_message env m1 q = Ok q1" "length (wire_write (env_wire env) (env_custom env) m1) \<le> 65535" for m1 q1
    using enqueue_total [OF assms(1) q(2) that(2)] that(1) enqueue_keeps_feeds [OF q(1) that(1)] q(3) by (auto simp: same_reading_def)
  have "feeds a (channel_encryptor (rd_peer st1)) \<and> same_reading (rd_peer st) (rd_peer st1) \<and> transport_ok (rd_peer st1)"
  proof (cases "\<exists>y. r0 = Err (OfMessage y)")
    case True
    then obtain y where y: "r0 = Err (OfMessage y)" "error_fits y" using w by (auto simp: handled_well_def)
    then have "try_potential_handleerror env y (st\<lparr>rd_peer := q, rd_handlers := h\<rparr>) = (st1, Ok x)" using assms(5) e by (simp add: dispatch_def Let_def)
    then show ?thesis using y(2) q reply [OF _ replies_fit(1)] reply [OF _ replies_fit(2)]
      by (auto simp: try_potential_handleerror_def queue_reply_def error_fits_def split: ErrorAction.splits outcome.splits)
  next
    case False
    then show ?thesis using assms(5) e q by (auto simp: dispatch_def Let_def split: outcome.splits option.splits MessageHandlingError.splits)
  qed
  then show "feeds a (channel_encryptor (rd_peer st1))" "at_header (rd_peer st1)" "their_node_id (rd_peer st1) = their_node_id (rd_peer st)" "transport_ok (rd_peer st1)"
    using assms(4) by (simp_all add: same_reading_def at_header_def)
qed

lemma round_full:
  assumes "pending_read_buffer_pos (rd_peer st) = 0" "length (pending_read_buffer (rd_peer st)) = length w" "w \<noteq> []"
  shows "read_round env d st (w @ rest) pause =
    (after_round env (buffer_full env d (noted st\<lparr>rd_peer := (rd_peer st)\<lparr>pending_read_buffer := w, pending_read_buffer_pos := 0\<rparr>\<rparr>)) pause, rest)"
  using assms by (simp add: read_round_def copied_def Let_def)

lemma view_noted [simp]: "view (noted st) = view st"
  by (simp add: view_def noted_def)

text \<open>A message on the wire: its header is read, then its body, and what is left goes to the dispatch.\<close>

lemma one_message:
  assumes env: "env_ok env" and st: "transport_ok (rd_peer st)" "feeds a (channel_encryptor (rd_peer st))" "at_header (rd_peer st)"
    and m: "message_ok (env_wire env) (env_custom env) m" "length (wire_write (env_wire env) (env_custom env) m) \<le> 65535"
    and w: "encrypt_message (env_crypto env) (wire_write (env_wire env) (env_custom env) m) a = (a1, Ok w)"
  shows "\<exists>st2. feeds a1 (channel_encryptor (rd_peer st2)) \<and> transport_ok (rd_peer st2) \<and> at_header (rd_peer st2) \<and>
    their_node_id (rd_peer st2) = their_node_id (rd_peer st) \<and> view st2 = view st \<and>
    (\<forall>rest z. \<exists>st3 r. dispatch env m st2 = (st3, r) \<and>
      unpaused (read_loop env d st z (w @ rest)) = (case r of Ok _ \<Rightarrow> unpaused (read_loop env d st3 False rest) | _ \<Rightarrow> (st3, ended_as r)))"
proof -
  let ?m = "wire_write (env_wire env) (env_custom env) m"
  obtain s t where k: "pce_noise_state a = Finished s" "pce_noise_state (channel_encryptor (rd_peer st)) = Finished t" "half_paired s t"
    using st(2) by (auto simp: feeds_def)
  obtain s2 t2 w1 w2 b0 t0 where parts: "a1 = a\<lparr>pce_noise_state := Finished s2\<rparr>" "w = w1 @ w2" "length w1 = 18" "length w2 = length ?m + 16"
    "decrypt_length_header (env_crypto env) w1 (channel_encryptor (rd_peer st)) = (b0, Ok (word_of_nat (length ?m)))"
    "decrypt_message w2 b0 = ((channel_encryptor (rd_peer st))\<lparr>pce_noise_state := Finished t2\<rparr>, Ok ?m)" "half_paired s2 t2" "same_sending t t2" "pce_noise_state b0 = Finished t0"
    using noise_step_parts [OF env_crypto_ok [OF env] k, of ?m] m(2) w by (auto simp: LN_MAX_MSG_LEN_def)
  have ne: "w1 \<noteq> []" "w2 \<noteq> []" using parts(3,4) by auto
  define len :: u16 where "len = word_of_nat (length ?m)"
  have two_bytes: "2 \<le> length ?m" by (simp add: wire_write_def write_u16_def)
  have "unat len = length ?m" unfolding len_def by (rule unat_len) (use m(2) in linarith)
  then have len: "unat len = length ?m" "\<not> len < 2" "2 \<le> length ?m" using two_bytes by (simp_all add: word_less_nat_alt)
  let ?p1 = "(rd_peer st)\<lparr>pending_read_buffer := Features.resize (length ?m + 16) w1, pending_read_buffer_pos := 0, channel_encryptor := b0, pending_read_is_header := False\<rparr>"
  let ?st1 = "noted st\<lparr>rd_peer := ?p1\<rparr>"
  let ?st2 = "noted ?st1\<lparr>rd_peer := ?p1\<lparr>pending_read_buffer := Features.resize 18 w2, channel_encryptor := (channel_encryptor (rd_peer st))\<lparr>pce_noise_state := Finished t2\<rparr>,
    pending_read_is_header := True\<rparr>\<rparr>"
  have one: "\<exists>z1. read_round env d st (w1 @ x) z = (((?st1, z1), Ok ()), x)" for x z
  proof -
    have "buffer_full env d (noted st\<lparr>rd_peer := (rd_peer st)\<lparr>pending_read_buffer := w1, pending_read_buffer_pos := 0\<rparr>\<rparr>) = (?st1, Ok (Reached None))"
      using st(3) k(2) parts(5) len by (simp add: buffer_full_def get_noise_step_def at_header_def header_read_def noise_step_of_def Let_def flip: len_def)
    then show ?thesis using round_full [of st w1 env d x z] st(3) parts(3) ne by (auto simp: at_header_def after_round_def Let_def)
  qed
  have two: "read_round env d ?st1 (w2 @ x) z = (after_round env (?st2, Ok (Reached (Some m))) z, x)" for x z
  proof -
    have "wire_read (env_wire env) (env_custom env) ?m = Ok m" using message_back [OF m(1)] by (simp add: wire_read_def wire_write_def wire_back)
    then have "buffer_full env d (noted ?st1\<lparr>rd_peer := (rd_peer ?st1)\<lparr>pending_read_buffer := w2, pending_read_buffer_pos := 0\<rparr>\<rparr>) = (?st2, Ok (Reached (Some m)))"
      using parts(6,9) len(3) by (simp add: buffer_full_def get_noise_step_def message_read_def noise_step_of_def Let_def)
    then show ?thesis using round_full [of ?st1 w2 env d x z] parts(4) ne by auto
  qed
  have loop: "\<exists>st3 r. dispatch env m ?st2 = (st3, r) \<and>
      unpaused (read_loop env d st z (w @ rest)) = (case r of Ok _ \<Rightarrow> unpaused (read_loop env d st3 False rest) | _ \<Rightarrow> (st3, ended_as r))" for rest z
  proof -
    obtain z1 where r1: "read_round env d st (w1 @ w2 @ rest) z = (((?st1, z1), Ok ()), w2 @ rest)" using one by blast
    obtain st3 r where ds: "dispatch env m ?st2 = (st3, r)" by fastforce
    obtain z2 where "after_round env (?st2, Ok (Reached (Some m))) z1 = ((st3, z2), ended_as r)"
      using ds by (cases r) (auto simp: after_round_def ended_as_def Let_def)
    then have r2: "read_round env d ?st1 (w2 @ rest) z1 = (((st3, z2), ended_as r), rest)" using two [of rest z1] by auto
    have "w1 @ w2 @ rest \<noteq> []" "w2 @ rest \<noteq> []" using parts(3,4) by auto
    then have "unpaused (read_loop env d st z (w @ rest)) = (if ended_as r = Ok () then unpaused (read_loop env d st3 z2 rest) else (st3, ended_as r))"
      using read_loop_round [OF _ r1] read_loop_round [OF _ r2] parts(2) by simp
    then show ?thesis using ds read_loop_pause [of env d st3 z2 rest False] by (cases r) (auto simp: ended_as_def)
  qed
  have "keys_len t2" "their_node_id (rd_peer st) \<noteq> None" using st(1) k(2) parts(7,8) by (auto simp: transport_ok_def keys_len_def same_sending_def half_paired_def)
  then have "feeds a1 (channel_encryptor (rd_peer ?st2))" "transport_ok (rd_peer ?st2)" "at_header (rd_peer ?st2)"
    "their_node_id (rd_peer ?st2) = their_node_id (rd_peer st)" "view ?st2 = view st"
    using parts(1,7) by (simp_all add: feeds_def transport_ok_def at_header_def view_def noted_def)
  then show ?thesis using loop by blast
qed

text \<open>Reading piece by piece, until a piece ends the connection.\<close>

fun read_pieces :: "('sk, 'c, 'h) peer_env \<Rightarrow> 'd \<Rightarrow> bytes list \<Rightarrow> ('sk, 'd, 'c, 'h) reading \<Rightarrow> ('sk, 'd, 'c, 'h) reading \<times> (PeerHandleError, unit) outcome" where
  "read_pieces env d [] st = (st, Ok ())"
| "read_pieces env d (x # xs) st = (case unpaused (read_loop env d st False x) of (st1, Ok _) \<Rightarrow> read_pieces env d xs st1 | (st1, r) \<Rightarrow> (st1, r))"

lemma read_pieces_concat: "read_pieces env d xs st = unpaused (read_loop env d st False (concat xs))"
proof (induction xs arbitrary: st)
  case Nil
  then show ?case by (simp add: read_loop.simps)
next
  case (Cons x xs)
  then show ?case by (simp add: pieces_joined split: prod.splits outcome.splits)
qed

lemma messages_read:
  assumes "env_ok env" "env_crypto env' = env_crypto env" "env_wire env' = env_wire env" "env_custom env' = env_custom env"
  shows "transport_ok (rd_peer st) \<Longrightarrow> feeds (channel_encryptor p) (channel_encryptor (rd_peer st)) \<Longrightarrow> at_header (rd_peer st) \<Longrightarrow> their_node_id (rd_peer st) = Some who \<Longrightarrow>
    \<forall>m\<in>set ms. message_ok (env_wire env) (env_custom env) m \<and> length (wire_write (env_wire env) (env_custom env) m) \<le> 65535 \<Longrightarrow>
    enqueue_all env' ms p = Ok q \<Longrightarrow> \<exists>ws. appended p q ws \<and>
      (\<exists>st1 r. unpaused (read_loop env d st False (concat ws)) = (st1, r) \<and> session env who ms (view st) = (view st1, r))"
proof (induction ms arbitrary: p st)
  case Nil
  then show ?case by (intro exI [of _ "[]"]) (simp add: appended_def read_loop.simps)
next
  case (Cons m ms)
  obtain p1 where p1: "enqueue_message env' m p = Ok p1" "enqueue_all env' ms p1 = Ok q" using Cons.prems(6) by (auto split: outcome.splits)
  obtain a1 w where w: "encrypt_message (env_crypto env) (wire_write (env_wire env) (env_custom env) m) (channel_encryptor p) = (a1, Ok w)"
    "channel_encryptor p1 = a1" "appended p p1 [w]"
    using p1(1) assms(2-4) by (auto simp: enqueue_message_def enqueue_encoded_message_def appended_def split: option.splits prod.splits outcome.splits)
  have mok: "message_ok (env_wire env) (env_custom env) m" "length (wire_write (env_wire env) (env_custom env) m) \<le> 65535" using Cons.prems(5) by auto
  obtain st2 where st2: "feeds a1 (channel_encryptor (rd_peer st2))" "transport_ok (rd_peer st2)" "at_header (rd_peer st2)"
    "their_node_id (rd_peer st2) = Some who" "view st2 = view st"
    "\<And>rest. \<exists>st3 r. dispatch env m st2 = (st3, r) \<and>
      unpaused (read_loop env d st False (w @ rest)) = (case r of Ok _ \<Rightarrow> unpaused (read_loop env d st3 False rest) | _ \<Rightarrow> (st3, ended_as r))"
    using one_message [OF assms(1) Cons.prems(1-3) mok w(1), of d] Cons.prems(4) by auto
  obtain st3 r where ds: "dispatch env m st2 = (st3, r)" by fastforce
  have step: "session_step env who m (view st) = (view st3, ended_as r)" using dispatch_view [OF assms(1) st2(2,4) ds] st2(5) by simp
  have all: "\<forall>m\<in>set ms. message_ok (env_wire env) (env_custom env) m \<and> length (wire_write (env_wire env) (env_custom env) m) \<le> 65535" using Cons.prems(5) by simp
  show ?case
  proof (cases r)
    case (Ok x)
    note k = dispatch_keeps [OF assms(1) st2(2,1,3) ds [unfolded Ok]]
    obtain ws st1 r1 where ws: "appended p1 q ws" "unpaused (read_loop env d st3 False (concat ws)) = (st1, r1)" "session env who ms (view st3) = (view st1, r1)"
      using Cons.IH [OF k(4) _ k(2) _ all p1(2)] k(1,3) w(2) st2(4) by auto
    have "unpaused (read_loop env d st False (concat (w # ws))) = (st1, r1)" using st2(6) [of "concat ws"] ds Ok ws(2) by auto
    moreover have "appended p q (w # ws)" using appended_trans [OF w(3) ws(1)] by simp
    ultimately show ?thesis using step ws(3) Ok by (intro exI [of _ "w # ws"]) (simp add: ended_as_def)
  next
    case (Err e)
    obtain ws where ws: "appended p1 q ws" using enqueue_all_appends [OF p1(2)] by blast
    have "unpaused (read_loop env d st False (concat (w # ws))) = (st3, Err e)" using st2(6) [of "concat ws"] ds Err by (auto simp: ended_as_def)
    moreover have "appended p q (w # ws)" using appended_trans [OF w(3) ws] by simp
    ultimately show ?thesis using step Err by (intro exI [of _ "w # ws"]) (simp add: ended_as_def)
  next
    case Panic
    obtain ws where ws: "appended p1 q ws" using enqueue_all_appends [OF p1(2)] by blast
    have "unpaused (read_loop env d st False (concat (w # ws))) = (st3, Panic)" using st2(6) [of "concat ws"] ds Panic by (auto simp: ended_as_def)
    moreover have "appended p q (w # ws)" using appended_trans [OF w(3) ws] by simp
    ultimately show ?thesis using step Panic by (intro exI [of _ "w # ws"]) (simp add: ended_as_def)
  qed
qed

text \<open>C8. What one peer queues is what the other peer's handlers see. The messages a node queues for a peer are encoded, sealed and handed to the socket
  as bytes; when these arrive, in any pieces, the receiver's connection does exactly what the specification \<open>session\<close> does with
  the list of messages: the same calls of the handlers in the same order, the same messages passed on, and the same
  end of the connection.\<close>
theorem messages_delivered:
  assumes "env_ok env" "env_crypto env' = env_crypto env" "env_wire env' = env_wire env" "env_custom env' = env_custom env"
    "transport_ok (rd_peer st)" "at_header (rd_peer st)" "their_node_id (rd_peer st) = Some who"
    "feeds (channel_encryptor p) (channel_encryptor (rd_peer st))"
    "\<forall>m\<in>set ms. message_ok (env_wire env) (env_custom env) m \<and> length (wire_write (env_wire env) (env_custom env) m) \<le> 65535"
    "enqueue_all env' ms p = Ok q" "pending_outbound_buffer q = pending_outbound_buffer p @ ws" "concat pieces = concat ws"
  shows "\<exists>st1 r. read_pieces env d pieces st = (st1, r) \<and> session env who ms (view st) = (view st1, r)"
proof -
  obtain vs st1 r where "appended p q vs" "unpaused (read_loop env d st False (concat vs)) = (st1, r)" "session env who ms (view st) = (view st1, r)"
    using messages_read [OF assms(1-4,5,8,6,7,9,10), of d] by blast
  moreover from this have "vs = ws" using assms(11) by (simp add: appended_def)
  ultimately show ?thesis using assms(12) by (simp add: read_pieces_concat)
qed

section \<open>On concrete peers\<close>

text \<open>A socket that takes two bytes at a time and keeps them.\<close>

definition small_socket :: "(nat, nat \<Rightarrow> bytes) socket_lib" where
  "small_socket = \<lparr>send_data = (\<lambda>d data b s. (s(d := s d @ take 2 data), min 2 (length data))), disconnect_socket = (\<lambda>d s. s)\<rparr>"

definition waiting_peer :: "nat Peer" where
  "waiting_peer = (new_peer (new_inbound toy_crypto 4) None)\<lparr>pending_outbound_buffer := [[1, 2, 3], [4, 5, 6]], pending_outbound_buffer_first_msg_offset := 1\<rparr>"

lemma no_refill: "sync_status p = NoSyncRequested \<Longrightarrow> msgs_sent_since_pong p = 0 \<Longrightarrow> refill env h p = Ok p"
  by (simp add: refill_def queue_sync_def BUFFER_DRAIN_MSGS_PER_TICK_def)


text \<open>Two peers after the handshake, and what one says to the other.\<close>

definition toy_keys :: transport_keys where
  "toy_keys = \<lparr>tk_sk = replicate 32 1, tk_sn = 0, tk_sck = replicate 32 3, tk_rk = replicate 32 1, tk_rn = 0, tk_rck = replicate 32 3\<rparr>"

definition met_peer :: "nat Peer" where
  "met_peer = (new_peer ((new_inbound toy_crypto 4)\<lparr>pce_noise_state := Finished toy_keys\<rparr>) None)\<lparr>their_node_id := Some (replicate 33 7), pending_read_is_header := True, pending_read_buffer := replicate 18 0\<rparr>"

definition first_words :: "bytes Message list" where
  "first_words = [MsgInit \<lparr>in_features = [0, 32], in_remote_network_address = None\<rparr>, MsgCustom [1, 2, 3]]"

lemma toy_features: "\<not> requires_unknown_bits InitContext [0, 32]" "supports_feature StaticRemoteKey [0, 32]"
proof -
  have "(32 :: u8) AND (0x55 AND x) = 0" for x unfolding and.assoc [symmetric] by simp
  then show "\<not> requires_unknown_bits InitContext [0, 32]" by (auto simp: requires_unknown_bits_def less_Suc_eq)
  show "supports_feature StaticRemoteKey [0, 32]" by (simp add: supports_feature_def BYTE_OFFSET_def REQUIRED_MASK_def OPTIONAL_MASK_def StaticRemoteKey_def)
qed

theorem messages_delivered_witness:
  "\<exists>q ws st1. enqueue_all toy_env first_words met_peer = Ok q \<and> pending_outbound_buffer q = ws \<and> length ws = 2 \<and>
     read_pieces toy_env 1 (map (\<lambda>b. [b]) (concat ws)) (read_start met_peer) = (st1, Ok ()) \<and>
     rd_handlers st1 = [(replicate 33 7, MsgInit \<lparr>in_features = [0, 32], in_remote_network_address = None\<rparr>), (replicate 33 7, MsgCustom [1, 2, 3])]"
proof -
  have t: "transport_ok met_peer" by (simp add: transport_ok_def met_peer_def new_peer_def new_inbound_def keys_len_def toy_keys_def)
  have h: "at_header (rd_peer (read_start met_peer))" by (simp add: read_start_def at_header_def met_peer_def new_peer_def)
  have f: "feeds (channel_encryptor met_peer) (channel_encryptor (rd_peer (read_start met_peer)))"
    by (simp add: feeds_def read_start_def met_peer_def new_peer_def half_paired_def toy_keys_def)
  have m: "\<forall>m\<in>set first_words. message_ok (env_wire toy_env) (env_custom toy_env) m \<and> length (wire_write (env_wire toy_env) (env_custom toy_env) m) \<le> 65535"
    by (simp add: first_words_def toy_env_def text_lib_def init_ok_def features_ok_def wire_write_def write_u16_def write_init_def write_features_def write_up_to_13_def Let_def
      encode_tlv_option_def protocol_types_def)
  obtain q where q: "enqueue_all toy_env first_words met_peer = Ok q"
    using enqueue_total [OF toy_env_ok t] enqueue_total [OF toy_env_ok] m by (fastforce simp: first_words_def)
  obtain ws where ws: "appended met_peer q ws" "length ws = 2" using enqueue_all_appends [OF q] by (auto simp: first_words_def)
  have b: "pending_outbound_buffer q = pending_outbound_buffer met_peer @ ws" using ws(1) by (simp add: appended_def)
  have c: "concat (map (\<lambda>b. [b]) (concat ws)) = concat ws" by simp
  obtain st1 r where st1: "read_pieces toy_env 1 (map (\<lambda>b. [b]) (concat ws)) (read_start met_peer) = (st1, r)"
    "session toy_env (replicate 33 7) first_words (view (read_start met_peer)) = (view st1, r)"
    using messages_delivered [OF toy_env_ok refl refl refl _ h _ f m q b c, of "replicate 33 7" 1] t by (auto simp: read_start_def met_peer_def)
  have s: "session toy_env (replicate 33 7) first_words (view (read_start met_peer)) =
    ((Some [0, 32], [(replicate 33 7, MsgInit \<lparr>in_features = [0, 32], in_remote_network_address = None\<rparr>), (replicate 33 7, MsgCustom [1, 2, 3])], []), Ok ())"
    by (simp add: first_words_def session_step_def view_def read_start_def met_peer_def new_peer_def toy_env_def log_handlers_def verdict_def toy_features)
  then have "r = Ok ()" "rd_handlers st1 = [(replicate 33 7, MsgInit \<lparr>in_features = [0, 32], in_remote_network_address = None\<rparr>), (replicate 33 7, MsgCustom [1, 2, 3])]"
    using st1(2) by (simp_all add: view_def)
  then show ?thesis using q b ws(2) st1(1) by (intro exI [of _ q] exI [of _ ws] exI [of _ st1]) (simp add: met_peer_def new_peer_def)
qed

end
