(* ===== verification/Peer_Manager.thy ===== *)
theory Peer_Manager
  imports Peer_Delivery "HOL-Library.AList"
begin

text \<open>
  All connections of a node, \<open>PeerManager\<close> of \<open>lightning/src/ln/peer_handler.rs\<close>: new connections, bytes that arrive, messages
  that handlers want to send, gossip passed on, pings, and the ways a connection ends. The map from node ids to connections
  always agrees with the connections themselves, and a peer that stays silent for two ticks of the timer is dropped.
  A map of Rust is an association list, whose order is that of an iteration; the locks are left out, since
  every operation here runs with the locks it takes.
\<close>

section \<open>Data\<close>

record ('sk, 'd, 'h, 's) manager =
  pm_peers :: "('d \<times> 'sk Peer) list"
  node_id_to_descriptor :: "bytes \<Rightarrow> 'd option"
  peer_counter :: AtomicCounter
  pm_handlers :: 'h
  pm_sockets :: 's

datatype MessageSendEvent =
    EvSendAcceptChannel bytes AcceptChannel | EvSendOpenChannel bytes OpenChannel | EvSendFundingCreated bytes FundingCreated
  | EvSendFundingSigned bytes FundingSigned | EvSendChannelReady bytes ChannelReady | EvSendAnnouncementSignatures bytes AnnouncementSignatures
  | EvUpdateHTLCs bytes CommitmentUpdate | EvSendRevokeAndACK bytes RevokeAndACK | EvSendClosingSigned bytes ClosingSigned
  | EvSendShutdown bytes Shutdown | EvSendChannelReestablish bytes ChannelReestablish
  | EvBroadcastChannelAnnouncement ChannelAnnouncement channel_update | EvBroadcastNodeAnnouncement NodeAnnouncement | EvBroadcastChannelUpdate channel_update
  | EvSendChannelUpdate bytes channel_update | EvHandleError bytes ErrorAction | EvSendChannelRangeQuery bytes QueryChannelRange
  | EvSendShortIdsQuery bytes QueryShortChannelIds | EvSendReplyChannelRange bytes ReplyChannelRange | EvSendGossipTimestampFilter bytes GossipTimestampFilter

text \<open>The queues of the handlers: \<open>get_and_clear_pending_msg_events\<close> of both, and the user's own messages.\<close>

record ('c, 'h) event_lib =
  chan_events :: "'h \<Rightarrow> MessageSendEvent list \<times> 'h"
  route_events :: "'h \<Rightarrow> MessageSendEvent list \<times> 'h"
  custom_events :: "'h \<Rightarrow> (bytes \<times> 'c) list \<times> 'h"

definition new_manager :: "'h \<Rightarrow> 's \<Rightarrow> ('sk, 'd, 'h, 's) manager" where
  "new_manager h s = \<lparr>pm_peers = [], node_id_to_descriptor = (\<lambda>_. None), peer_counter = \<lparr>counter_low = 0, counter_high = 0\<rparr>, pm_handlers = h, pm_sockets = s\<rparr>"

definition put_peer :: "'d \<Rightarrow> 'sk Peer \<Rightarrow> ('sk, 'd, 'h, 's) manager \<Rightarrow> ('sk, 'd, 'h, 's) manager" where
  "put_peer d p m = m\<lparr>pm_peers := AList.update d p (pm_peers m)\<rparr>"

definition get_peer_node_ids :: "('sk, 'd, 'h, 's) manager \<Rightarrow> bytes list" where
  "get_peer_node_ids m = List.map_filter (\<lambda>(d, p).
     if \<not> is_ready_for_encryption (channel_encryptor p) \<or> their_features p = None then None else their_node_id p) (pm_peers m)"

section \<open>Connections\<close>

definition new_outbound_connection ::
  "('sk, 'c, 'h) peer_env \<Rightarrow> bytes \<Rightarrow> 'd \<Rightarrow> NetAddress option \<Rightarrow> ('sk, 'd, 'h, 's) manager \<Rightarrow> (unit, ('sk, 'd, 'h, 's) manager \<times> bytes) outcome" where
  "new_outbound_connection env who d addr m =
     (case get_ephemeral_key env (peer_counter m) of
        (c1, Ok eph) \<Rightarrow>
          (case get_act_one (env_crypto env) (new_outbound (env_crypto env) who eph) of
             (enc, Ok act) \<Rightarrow>
               if map_of (pm_peers m) d \<noteq> None then Panic
               else Ok (put_peer d (new_peer enc addr) (m\<lparr>peer_counter := c1\<rparr>), act)
           | _ \<Rightarrow> Panic)
      | _ \<Rightarrow> Panic)"

definition new_inbound_connection ::
  "('sk, 'c, 'h) peer_env \<Rightarrow> 'd \<Rightarrow> NetAddress option \<Rightarrow> ('sk, 'd, 'h, 's) manager \<Rightarrow> (unit, ('sk, 'd, 'h, 's) manager) outcome" where
  "new_inbound_connection env d addr m =
     (if map_of (pm_peers m) d \<noteq> None then Panic
      else Ok (put_peer d (new_peer (new_inbound (env_crypto env) (our_node_secret env)) addr) m))"

definition write_peer ::
  "('sk, 'c, 'h) peer_env \<Rightarrow> ('d, 's) socket_lib \<Rightarrow> 'd \<Rightarrow> 'sk Peer \<Rightarrow> ('sk, 'd, 'h, 's) manager \<Rightarrow> (unit, ('sk, 'd, 'h, 's) manager) outcome" where
  "write_peer env so d p m =
     map_ok (\<lambda>(q, s). put_peer d q (m\<lparr>pm_sockets := s\<rparr>)) (do_attempt_write_data env so (pm_handlers m) d p (pm_sockets m))"

definition write_buffer_space_avail ::
  "('sk, 'c, 'h) peer_env \<Rightarrow> ('d, 's) socket_lib \<Rightarrow> 'd \<Rightarrow> ('sk, 'd, 'h, 's) manager \<Rightarrow> ('sk, 'd, 'h, 's) manager \<times> (PeerHandleError, unit) outcome" where
  "write_buffer_space_avail env so d m =
     (case map_of (pm_peers m) d of
        None \<Rightarrow> (m, Err (PeerHandleError False))
      | Some p \<Rightarrow> (case write_peer env so d (p\<lparr>awaiting_write_event := False\<rparr>) m of Ok m1 \<Rightarrow> (m1, Ok ()) | _ \<Rightarrow> (m, Panic)))"

section \<open>Passing gossip on\<close>

fun forward_allowed :: "'c Message \<Rightarrow> features \<Rightarrow> 'sk Peer \<Rightarrow> bool" where
  "forward_allowed (MsgChannelAnnouncement c) flags p \<longleftrightarrow>
     should_forward_channel_announcement (Some (supports_feature GossipQueries flags)) (sent_gossip_timestamp_filter p) (sync_status p) (ca_short_channel_id (ca_contents c)) = Ok True"
| "forward_allowed (MsgNodeAnnouncement n) flags p \<longleftrightarrow>
     should_forward_node_announcement (Some (supports_feature GossipQueries flags)) (sent_gossip_timestamp_filter p) (sync_status p) (na_node_id (na_contents n)) = Ok True"
| "forward_allowed (MsgChannelUpdate u) flags p \<longleftrightarrow>
     should_forward_channel_announcement (Some (supports_feature GossipQueries flags)) (sent_gossip_timestamp_filter p) (sync_status p) (cu_short_channel_id u) = Ok True"
| "forward_allowed m flags p \<longleftrightarrow> False"

fun announced_ends :: "'c Message \<Rightarrow> bytes list" where
  "announced_ends (MsgChannelAnnouncement c) = [ca_node_id_1 (ca_contents c), ca_node_id_2 (ca_contents c)]"
| "announced_ends (MsgNodeAnnouncement n) = [na_node_id (na_contents n)]"
| "announced_ends m = []"

definition wants_gossip :: "'c Message \<Rightarrow> bytes option \<Rightarrow> 'sk Peer \<Rightarrow> bool" where
  "wants_gossip msg except_node p \<longleftrightarrow>
     is_ready_for_encryption (channel_encryptor p) \<and>
     (case their_features p of None \<Rightarrow> False | Some flags \<Rightarrow> forward_allowed msg flags p) \<and>
     \<not> (length (pending_outbound_buffer p) > OUTBOUND_BUFFER_LIMIT_DROP_GOSSIP \<or>
        msgs_sent_since_pong p > BUFFER_DRAIN_MSGS_PER_TICK * FORWARD_INIT_SYNC_BUFFER_LIMIT_RATIO) \<and>
     their_node_id p \<notin> Some ` set (announced_ends msg) \<and>
     \<not> (except_node \<noteq> None \<and> their_node_id p = except_node)"

fun over_peers :: "('sk Peer \<Rightarrow> (unit, 'sk Peer) outcome) \<Rightarrow> ('d \<times> 'sk Peer) list \<Rightarrow> (unit, ('d \<times> 'sk Peer) list) outcome" where
  "over_peers f [] = Ok []"
| "over_peers f ((d, p) # ps) = and_then (f p) (\<lambda>q. map_ok (\<lambda>qs. (d, q) # qs) (over_peers f ps))"

definition forward_broadcast_msg ::
  "('sk, 'c, 'h) peer_env \<Rightarrow> 'c Message \<Rightarrow> bytes option \<Rightarrow> ('sk, 'd, 'h, 's) manager \<Rightarrow> (unit, ('sk, 'd, 'h, 's) manager) outcome" where
  "forward_broadcast_msg env msg except_node m =
     map_ok (\<lambda>ps. m\<lparr>pm_peers := ps\<rparr>)
       (over_peers (\<lambda>p. if wants_gossip msg except_node p then enqueue_encoded_message env (wire_write (env_wire env) (env_custom env) msg) p else Ok p) (pm_peers m))"

fun forward_all ::
  "('sk, 'c, 'h) peer_env \<Rightarrow> 'c Message list \<Rightarrow> bytes option \<Rightarrow> ('sk, 'd, 'h, 's) manager \<Rightarrow> (unit, ('sk, 'd, 'h, 's) manager) outcome" where
  "forward_all env [] except_node m = Ok m"
| "forward_all env (msg # msgs) except_node m = and_then (forward_broadcast_msg env msg except_node m) (forward_all env msgs except_node)"

section \<open>Reading\<close>

definition disconnect_event_internal :: "('sk, 'c, 'h) peer_env \<Rightarrow> 'd \<Rightarrow> bool \<Rightarrow> ('sk, 'd, 'h, 's) manager \<Rightarrow> ('sk, 'd, 'h, 's) manager" where
  "disconnect_event_internal env d no_connection m =
     (let m1 = m\<lparr>pm_peers := AList.delete d (pm_peers m)\<rparr> in
      case map_of (pm_peers m) d of
        None \<Rightarrow> m1
      | Some p \<Rightarrow>
          (case their_node_id p of
             None \<Rightarrow> m1
           | Some who \<Rightarrow> m1\<lparr>node_id_to_descriptor := (node_id_to_descriptor m)(who := None),
                             pm_handlers := chan_disconnected (env_handlers env) who no_connection (pm_handlers m)\<rparr>))"

definition socket_disconnected :: "('sk, 'c, 'h) peer_env \<Rightarrow> 'd \<Rightarrow> ('sk, 'd, 'h, 's) manager \<Rightarrow> ('sk, 'd, 'h, 's) manager" where
  "socket_disconnected env d m = disconnect_event_internal env d False m"

definition do_read_event ::
  "('sk, 'c, 'h) peer_env \<Rightarrow> 'd \<Rightarrow> bytes \<Rightarrow> ('sk, 'd, 'h, 's) manager \<Rightarrow> ('sk, 'd, 'h, 's) manager \<times> (PeerHandleError, bool) outcome" where
  "do_read_event env d data m =
     (case map_of (pm_peers m) d of
        None \<Rightarrow> (m, Err (PeerHandleError False))
      | Some p \<Rightarrow>
          (case read_loop env d \<lparr>rd_peer = p, rd_ids = node_id_to_descriptor m, rd_counter = peer_counter m, rd_handlers = pm_handlers m,
               rd_forward = [], rd_node_id = None\<rparr> False data of
             ((st, pause), r) \<Rightarrow>
               let m1 = put_peer d (rd_peer st) (m\<lparr>node_id_to_descriptor := rd_ids st, peer_counter := rd_counter st, pm_handlers := rd_handlers st\<rparr>) in
               (case r of
                  Ok _ \<Rightarrow> (case forward_all env (rd_forward st) (rd_node_id st) m1 of Ok m2 \<Rightarrow> (m2, Ok pause) | _ \<Rightarrow> (m1, Panic))
                | Err e \<Rightarrow> (m1, Err e)
                | Panic \<Rightarrow> (m1, Panic))))"

definition read_event ::
  "('sk, 'c, 'h) peer_env \<Rightarrow> 'd \<Rightarrow> bytes \<Rightarrow> ('sk, 'd, 'h, 's) manager \<Rightarrow> ('sk, 'd, 'h, 's) manager \<times> (PeerHandleError, bool) outcome" where
  "read_event env d data m =
     (case do_read_event env d data m of
        (m1, Err e) \<Rightarrow> (disconnect_event_internal env d (no_connection_possible e) m1, Err e)
      | (m1, r) \<Rightarrow> (m1, r))"

section \<open>Sending what the handlers queued\<close>

type_synonym disconnects = "(bytes \<times> (bytes \<times> string) option) list"

definition get_peer_for_forwarding :: "('sk, 'd, 'h, 's) manager \<Rightarrow> disconnects \<Rightarrow> bytes \<Rightarrow> ('d \<times> 'sk Peer) option" where
  "get_peer_for_forwarding m peers_to_disconnect who =
     (if map_of peers_to_disconnect who \<noteq> None then None
      else case node_id_to_descriptor m who of
        None \<Rightarrow> None
      | Some d \<Rightarrow> (case map_of (pm_peers m) d of None \<Rightarrow> None | Some p \<Rightarrow> if their_features p = None then None else Some (d, p)))"

definition send_to ::
  "('sk, 'c, 'h) peer_env \<Rightarrow> disconnects \<Rightarrow> bytes \<Rightarrow> 'c Message list \<Rightarrow> ('sk, 'd, 'h, 's) manager \<Rightarrow> (unit, ('sk, 'd, 'h, 's) manager) outcome" where
  "send_to env peers_to_disconnect who msgs m =
     (case get_peer_for_forwarding m peers_to_disconnect who of
        None \<Rightarrow> Ok m
      | Some (d, p) \<Rightarrow> map_ok (\<lambda>q. put_peer d q m) (enqueue_all env msgs p))"

definition update_messages :: "CommitmentUpdate \<Rightarrow> 'c Message list" where
  "update_messages u =
     map MsgUpdateAddHTLC (cu_update_add_htlcs u) @ map MsgUpdateFulfillHTLC (cu_update_fulfill_htlcs u) @ map MsgUpdateFailHTLC (cu_update_fail_htlcs u) @
     map MsgUpdateFailMalformedHTLC (cu_update_fail_malformed_htlcs u) @ (case cu_update_fee u of Some f \<Rightarrow> [MsgUpdateFee f] | None \<Rightarrow> []) @
     [MsgCommitmentSigned (cu_commitment_signed u)]"

text \<open>Our own gossip goes through the routing handler first; a duplicate is still sent.\<close>

definition broadcast ::
  "('sk, 'c, 'h) peer_env \<Rightarrow> 'c Message \<Rightarrow> ('sk, 'd, 'h, 's) manager \<Rightarrow> (unit, ('sk, 'd, 'h, 's) manager) outcome" where
  "broadcast env msg m =
     (case route_gossip (env_handlers env) msg (pm_handlers m) of
        (h, r) \<Rightarrow>
          let m1 = m\<lparr>pm_handlers := h\<rparr> in
          (case r of
             Ok _ \<Rightarrow> forward_broadcast_msg env msg None m1
           | Err (_, IgnoreDuplicateGossip) \<Rightarrow> forward_broadcast_msg env msg None m1
           | Err _ \<Rightarrow> Ok m1
           | Panic \<Rightarrow> Panic))"

fun handle_event ::
  "('sk, 'c, 'h) peer_env \<Rightarrow> MessageSendEvent \<Rightarrow> ('sk, 'd, 'h, 's) manager \<times> disconnects \<Rightarrow> (unit, ('sk, 'd, 'h, 's) manager \<times> disconnects) outcome" where
  "handle_event env (EvSendAcceptChannel who x) (m, dc) = map_ok (\<lambda>m1. (m1, dc)) (send_to env dc who [MsgAcceptChannel x] m)"
| "handle_event env (EvSendOpenChannel who x) (m, dc) = map_ok (\<lambda>m1. (m1, dc)) (send_to env dc who [MsgOpenChannel x] m)"
| "handle_event env (EvSendFundingCreated who x) (m, dc) = map_ok (\<lambda>m1. (m1, dc)) (send_to env dc who [MsgFundingCreated x] m)"
| "handle_event env (EvSendFundingSigned who x) (m, dc) = map_ok (\<lambda>m1. (m1, dc)) (send_to env dc who [MsgFundingSigned x] m)"
| "handle_event env (EvSendChannelReady who x) (m, dc) = map_ok (\<lambda>m1. (m1, dc)) (send_to env dc who [MsgChannelReady x] m)"
| "handle_event env (EvSendAnnouncementSignatures who x) (m, dc) = map_ok (\<lambda>m1. (m1, dc)) (send_to env dc who [MsgAnnouncementSignatures x] m)"
| "handle_event env (EvUpdateHTLCs who x) (m, dc) = map_ok (\<lambda>m1. (m1, dc)) (send_to env dc who (update_messages x) m)"
| "handle_event env (EvSendRevokeAndACK who x) (m, dc) = map_ok (\<lambda>m1. (m1, dc)) (send_to env dc who [MsgRevokeAndACK x] m)"
| "handle_event env (EvSendClosingSigned who x) (m, dc) = map_ok (\<lambda>m1. (m1, dc)) (send_to env dc who [MsgClosingSigned x] m)"
| "handle_event env (EvSendShutdown who x) (m, dc) = map_ok (\<lambda>m1. (m1, dc)) (send_to env dc who [MsgShutdown x] m)"
| "handle_event env (EvSendChannelReestablish who x) (m, dc) = map_ok (\<lambda>m1. (m1, dc)) (send_to env dc who [MsgChannelReestablish x] m)"
| "handle_event env (EvBroadcastChannelAnnouncement x u) (m, dc) =
     map_ok (\<lambda>m1. (m1, dc)) (and_then (broadcast env (MsgChannelAnnouncement x) m) (broadcast env (MsgChannelUpdate u)))"
| "handle_event env (EvBroadcastNodeAnnouncement x) (m, dc) = map_ok (\<lambda>m1. (m1, dc)) (broadcast env (MsgNodeAnnouncement x) m)"
| "handle_event env (EvBroadcastChannelUpdate x) (m, dc) = map_ok (\<lambda>m1. (m1, dc)) (broadcast env (MsgChannelUpdate x) m)"
| "handle_event env (EvSendChannelUpdate who x) (m, dc) = map_ok (\<lambda>m1. (m1, dc)) (send_to env dc who [MsgChannelUpdate x] m)"
| "handle_event env (EvHandleError who action) (m, dc) =
     (case action of
        DisconnectPeer msg \<Rightarrow> Ok (m, AList.update who msg dc)
      | SendErrorMessage i s \<Rightarrow> map_ok (\<lambda>m1. (m1, dc)) (send_to env dc who [MsgError \<lparr>em_channel_id = i, em_data = s\<rparr>] m)
      | SendWarningMessage i s _ \<Rightarrow> map_ok (\<lambda>m1. (m1, dc)) (send_to env dc who [MsgWarning \<lparr>wm_channel_id = i, wm_data = s\<rparr>] m)
      | _ \<Rightarrow> Ok (m, dc))"
| "handle_event env (EvSendChannelRangeQuery who x) (m, dc) = map_ok (\<lambda>m1. (m1, dc)) (send_to env dc who [MsgQueryChannelRange x] m)"
| "handle_event env (EvSendShortIdsQuery who x) (m, dc) = map_ok (\<lambda>m1. (m1, dc)) (send_to env dc who [MsgQueryShortChannelIds x] m)"
| "handle_event env (EvSendReplyChannelRange who x) (m, dc) = map_ok (\<lambda>m1. (m1, dc)) (send_to env dc who [MsgReplyChannelRange x] m)"
| "handle_event env (EvSendGossipTimestampFilter who x) (m, dc) = map_ok (\<lambda>m1. (m1, dc)) (send_to env dc who [MsgGossipTimestampFilter x] m)"

fun each :: "('x \<Rightarrow> 'a \<Rightarrow> (unit, 'a) outcome) \<Rightarrow> 'x list \<Rightarrow> 'a \<Rightarrow> (unit, 'a) outcome" where
  "each f [] a = Ok a"
| "each f (x # xs) a = and_then (f x a) (each f xs)"

definition write_all :: "('sk, 'c, 'h) peer_env \<Rightarrow> ('d, 's) socket_lib \<Rightarrow> ('sk, 'd, 'h, 's) manager \<Rightarrow> (unit, ('sk, 'd, 'h, 's) manager) outcome" where
  "write_all env so m =
     each (\<lambda>d m1. case map_of (pm_peers m1) d of None \<Rightarrow> Ok m1 | Some p \<Rightarrow> write_peer env so d p m1) (map fst (pm_peers m)) m"

definition disconnect_with ::
  "('sk, 'c, 'h) peer_env \<Rightarrow> ('d, 's) socket_lib \<Rightarrow> bytes \<times> (bytes \<times> string) option \<Rightarrow> ('sk, 'd, 'h, 's) manager \<Rightarrow> (unit, ('sk, 'd, 'h, 's) manager) outcome" where
  "disconnect_with env so = (\<lambda>(who, msg) m.
     (case node_id_to_descriptor m who of
        None \<Rightarrow> Ok m
      | Some d \<Rightarrow>
          let m1 = m\<lparr>node_id_to_descriptor := (node_id_to_descriptor m)(who := None), pm_peers := AList.delete d (pm_peers m)\<rparr> in
          map_ok (\<lambda>s. m1\<lparr>pm_sockets := disconnect_socket so d s, pm_handlers := chan_disconnected (env_handlers env) who False (pm_handlers m)\<rparr>)
            (case (map_of (pm_peers m) d, msg) of
               (Some p, Some (i, s)) \<Rightarrow>
                 and_then (enqueue_message env (MsgError \<lparr>em_channel_id = i, em_data = s\<rparr>) p) (\<lambda>q.
                   map_ok snd (do_attempt_write_data env so (pm_handlers m) d q (pm_sockets m)))
             | _ \<Rightarrow> Ok (pm_sockets m))))"

definition process_events ::
  "('sk, 'c, 'h) peer_env \<Rightarrow> ('c, 'h) event_lib \<Rightarrow> ('d, 's) socket_lib \<Rightarrow> ('sk, 'd, 'h, 's) manager \<Rightarrow> (unit, ('sk, 'd, 'h, 's) manager) outcome" where
  "process_events env ev so m =
     (let (evs1, h1) = chan_events ev (pm_handlers m); (evs2, h2) = route_events ev h1 in
      and_then (each (handle_event env) (evs1 @ evs2) (m\<lparr>pm_handlers := h2\<rparr>, [])) (\<lambda>(m1, dc).
        let (own, h3) = custom_events ev (pm_handlers m1) in
        and_then (each (\<lambda>(who, c). send_to env dc who [MsgCustom c]) own (m1\<lparr>pm_handlers := h3\<rparr>)) (\<lambda>m2.
          and_then (write_all env so m2) (each (disconnect_with env so) dc))))"

section \<open>Ending connections\<close>

definition disconnect_by_node_id ::
  "('sk, 'c, 'h) peer_env \<Rightarrow> ('d, 's) socket_lib \<Rightarrow> bytes \<Rightarrow> bool \<Rightarrow> ('sk, 'd, 'h, 's) manager \<Rightarrow> ('sk, 'd, 'h, 's) manager" where
  "disconnect_by_node_id env so who no_connection m =
     (case node_id_to_descriptor m who of
        None \<Rightarrow> m
      | Some d \<Rightarrow> m\<lparr>node_id_to_descriptor := (node_id_to_descriptor m)(who := None), pm_peers := AList.delete d (pm_peers m),
                    pm_handlers := chan_disconnected (env_handlers env) who no_connection (pm_handlers m), pm_sockets := disconnect_socket so d (pm_sockets m)\<rparr>)"

fun told_gone :: "('sk, 'c, 'h) peer_env \<Rightarrow> ('d \<times> 'sk Peer) list \<Rightarrow> 'h \<Rightarrow> 'h" where
  "told_gone env [] h = h"
| "told_gone env ((d, p) # ps) h = told_gone env ps (case their_node_id p of Some who \<Rightarrow> chan_disconnected (env_handlers env) who False h | None \<Rightarrow> h)"

definition disconnect_all_peers :: "('sk, 'c, 'h) peer_env \<Rightarrow> ('d, 's) socket_lib \<Rightarrow> ('sk, 'd, 'h, 's) manager \<Rightarrow> ('sk, 'd, 'h, 's) manager" where
  "disconnect_all_peers env so m =
     m\<lparr>node_id_to_descriptor := (\<lambda>_. None), pm_peers := [], pm_handlers := told_gone env (pm_peers m) (pm_handlers m),
       pm_sockets := fold (disconnect_socket so) (map fst (pm_peers m)) (pm_sockets m)\<rparr>"

text \<open>The timer: one tick for one peer says whether to drop it, and pings it when no ping is out.\<close>

definition timer_tick_peer ::
  "('sk, 'c, 'h) peer_env \<Rightarrow> ('d, 's) socket_lib \<Rightarrow> nat \<Rightarrow> 'd \<Rightarrow> 'sk Peer \<Rightarrow> ('sk, 'd, 'h, 's) manager \<Rightarrow> (unit, ('sk, 'd, 'h, 's) manager \<times> bool) outcome" where
  "timer_tick_peer env so n d p m =
     (let ticks = awaiting_pong_timer_tick_intervals p in
      if \<not> is_ready_for_encryption (channel_encryptor p) \<or> their_node_id p = None
      then if ticks \<noteq> 0 then Ok (m, True) else Ok (put_peer d (p\<lparr>awaiting_pong_timer_tick_intervals := 1\<rparr>) m, False)
      else if ticks = -1 then Ok (put_peer d (p\<lparr>awaiting_pong_timer_tick_intervals := 1, received_message_since_timer_tick := False\<rparr>) m, False)
      else if (0 <s ticks \<and> \<not> received_message_since_timer_tick p) \<or> (scast ticks :: u64) > MAX_BUFFER_DRAIN_TICK_INTERVALS_PER_PEER * word_of_nat n
      then Ok (m, True)
      else let p1 = p\<lparr>received_message_since_timer_tick := False\<rparr> in
        if 0 <s ticks then Ok (put_peer d (p1\<lparr>awaiting_pong_timer_tick_intervals := ticks + 1\<rparr>) m, False)
        else and_then (enqueue_message env (MsgPing \<lparr>ping_ponglen = 0, ping_byteslen = 64\<rparr>) (p1\<lparr>awaiting_pong_timer_tick_intervals := 1\<rparr>)) (\<lambda>p2.
               map_ok (\<lambda>m1. (m1, False)) (write_peer env so d p2 m)))"

fun tick_peers ::
  "('sk, 'c, 'h) peer_env \<Rightarrow> ('d, 's) socket_lib \<Rightarrow> nat \<Rightarrow> 'd list \<Rightarrow> ('sk, 'd, 'h, 's) manager \<Rightarrow> (unit, ('sk, 'd, 'h, 's) manager \<times> 'd list) outcome" where
  "tick_peers env so n [] m = Ok (m, [])"
| "tick_peers env so n (d # ds) m =
     (case map_of (pm_peers m) d of
        None \<Rightarrow> tick_peers env so n ds m
      | Some p \<Rightarrow>
          and_then (timer_tick_peer env so n d p m) (\<lambda>(m1, drop_it).
            map_ok (\<lambda>(m2, gone). (m2, if drop_it then d # gone else gone)) (tick_peers env so n ds m1)))"

definition timer_tick_occurred ::
  "('sk, 'c, 'h) peer_env \<Rightarrow> ('d, 's) socket_lib \<Rightarrow> ('sk, 'd, 'h, 's) manager \<Rightarrow> (unit, ('sk, 'd, 'h, 's) manager) outcome" where
  "timer_tick_occurred env so m =
     map_ok (\<lambda>(m1, gone).
         let m2 = fold (\<lambda>d. disconnect_event_internal env d False) gone m1 in
         m2\<lparr>pm_sockets := fold (disconnect_socket so) gone (pm_sockets m2)\<rparr>)
       (tick_peers env so (length (pm_peers m)) (map fst (pm_peers m)) m)"

end
