(* ===== verification/Peer_Consistent.thy ===== *)
theory Peer_Consistent
  imports Peer_Manager
begin

text \<open>
  What holds of all connections together: the map of node ids agrees with the connections after every operation, and silence
  ends a connection.
\<close>

section \<open>What a read keeps\<close>

text \<open>A node id is entered for a connection exactly when its handshake is over.\<close>

definition unnamed :: "'sk Peer \<Rightarrow> bool" where
  "unnamed p \<longleftrightarrow> is_ready_for_encryption (channel_encryptor p) \<or> their_node_id p = None"

definition linked :: "'d \<Rightarrow> (bytes \<Rightarrow> 'd option) \<Rightarrow> (bytes \<Rightarrow> 'd option) \<Rightarrow> 'sk Peer \<Rightarrow> bool" where
  "linked d ids0 ids p \<longleftrightarrow> (\<forall>who. ids who = Some d \<longleftrightarrow> their_node_id p = Some who) \<and> (\<forall>who d'. d' \<noteq> d \<longrightarrow> (ids who = Some d' \<longleftrightarrow> ids0 who = Some d'))"

definition stays :: "('sk, 'd, 'c, 'h) reading \<Rightarrow> ('sk, 'd, 'c, 'h) reading \<Rightarrow> bool" where
  "stays st st1 \<longleftrightarrow> rd_ids st1 = rd_ids st \<and> their_node_id (rd_peer st1) = their_node_id (rd_peer st) \<and>
     (is_ready_for_encryption (channel_encryptor (rd_peer st)) \<longrightarrow> is_ready_for_encryption (channel_encryptor (rd_peer st1)))"

lemma stays_refl [simp]: "stays st st"
  by (simp add: stays_def)

lemma stays_trans: "stays a b \<Longrightarrow> stays b c \<Longrightarrow> stays a c"
  by (auto simp: stays_def)

definition good_link :: "'d \<Rightarrow> (bytes \<Rightarrow> 'd option) \<Rightarrow> ('sk, 'd, 'c, 'h) reading \<Rightarrow> bool" where
  "good_link d ids0 st \<longleftrightarrow> linked d ids0 (rd_ids st) (rd_peer st) \<and> unnamed (rd_peer st)"

lemma stays_link: "stays st st1 \<Longrightarrow> good_link d ids0 st \<Longrightarrow> good_link d ids0 st1"
  by (auto simp: stays_def good_link_def linked_def unnamed_def)

lemma encrypted_ready: "encrypt_message cr w e = (e1, Ok x) \<Longrightarrow> is_ready_for_encryption e1"
  by (auto simp: encrypt_message_def is_ready_for_encryption_def Let_def split: if_splits NoiseState.splits)

lemma enqueue_named: "enqueue_message env m p = Ok q \<Longrightarrow> their_node_id q = their_node_id p \<and> is_ready_for_encryption (channel_encryptor q)"
  by (auto simp: enqueue_message_def enqueue_encoded_message_def dest: encrypted_ready split: option.splits prod.splits outcome.splits)

lemma queue_reply_stays: "stays st (fst (queue_reply env m r st))"
  using enqueue_named [of env m "rd_peer st"] by (auto simp: queue_reply_def stays_def split: outcome.splits)

lemma handleerror_stays: "stays st (fst (try_potential_handleerror env e st))"
  by (auto simp: try_potential_handleerror_def queue_reply_stays split: ErrorAction.splits)

lemma undecodable_stays: "stays st (fst (undecodable env e ty st))"
  by (simp add: undecodable_def Let_def queue_reply_stays)

lemma noise_step_stays:
  assumes "is_ready_for_encryption (channel_encryptor (rd_peer st)) \<Longrightarrow> is_ready_for_encryption (fst res)"
    "\<And>st1 x. snd res = Ok x \<Longrightarrow> stays st st1 \<Longrightarrow> stays st (fst (k st1 x))"
  shows "stays st (fst (noise_step_of env res k st))"
proof -
  let ?st = "st\<lparr>rd_peer := (rd_peer st)\<lparr>channel_encryptor := fst res\<rparr>\<rparr>"
  have s: "stays st ?st" using assms(1) by (simp add: stays_def)
  then have "stays st (fst (try_potential_handleerror env e ?st))" for e using handleerror_stays stays_trans by blast
  then show ?thesis using assms(2) [OF _ s] s by (auto simp: noise_step_of_def Let_def split: outcome.splits)
qed

lemma decrypted_ready:
  "is_ready_for_encryption e \<Longrightarrow> is_ready_for_encryption (fst (decrypt_length_header cr w e))"
  "is_ready_for_encryption e \<Longrightarrow> is_ready_for_encryption (fst (decrypt_message w e))"
  by (auto simp: decrypt_length_header_def decrypt_message_def is_ready_for_encryption_def Let_def split: NoiseState.splits outcome.splits)

lemma transport_reads_stay: "stays st (fst (header_read env st))" "stays st (fst (message_read env st))"
proof -
  show "stays st (fst (header_read env st))" unfolding header_read_def
    by (rule noise_step_stays) (auto simp: decrypted_ready Let_def stays_def)
  show "stays st (fst (message_read env st))" unfolding message_read_def
  proof (rule noise_step_stays)
    fix st1 m assume "stays st st1"
    let ?st2 = "st1\<lparr>rd_peer := (rd_peer st1)\<lparr>pending_read_buffer := Features.resize 18 (pending_read_buffer (rd_peer st1)), pending_read_is_header := True\<rparr>\<rparr>"
    have s: "stays st ?st2" using \<open>stays st st1\<close> by (simp add: stays_def)
    then have "stays st (fst (undecodable env e ty ?st2))" for e ty using undecodable_stays stays_trans by blast
    then show "stays st (fst (if length m < 2 then (st1, Panic) else let st2 = ?st2 in
        case wire_read (env_wire env) (env_custom env) m of Ok m \<Rightarrow> (st2, Ok (Reached (Some m))) | Err (e, ty) \<Rightarrow> undecodable env e ty st2 | Panic \<Rightarrow> (st2, Panic)))"
      using s \<open>stays st st1\<close> by (auto simp: Let_def split: outcome.splits)
  qed (simp add: decrypted_ready)
qed

lemma act_one_stays: "\<not> is_ready_for_encryption (channel_encryptor (rd_peer st)) \<Longrightarrow> stays st (fst (act_one_read env st))"
proof -
  assume n: "\<not> is_ready_for_encryption (channel_encryptor (rd_peer st))"
  have "stays (st\<lparr>rd_counter := c\<rparr>) (fst (noise_step_of env res (\<lambda>st1 act_two. (st1\<lparr>rd_peer := (rd_peer st1)\<lparr>pending_outbound_buffer := pending_outbound_buffer (rd_peer st1) @ [act_two],
               pending_read_buffer := replicate 66 0\<rparr>\<rparr>, Ok (Reached None))) (st\<lparr>rd_counter := c\<rparr>)))" for c res
    by (rule noise_step_stays) (use n in \<open>auto simp: stays_def\<close>)
  moreover have "stays st st1" if "stays (st\<lparr>rd_counter := c\<rparr>) st1" for c st1 using that by (simp add: stays_def)
  ultimately have "stays st (fst (noise_step_of env res (\<lambda>st1 act_two. (st1\<lparr>rd_peer := (rd_peer st1)\<lparr>pending_outbound_buffer := pending_outbound_buffer (rd_peer st1) @ [act_two],
               pending_read_buffer := replicate 66 0\<rparr>\<rparr>, Ok (Reached None))) (st\<lparr>rd_counter := c\<rparr>)))" for c res by blast
  then show ?thesis by (simp add: act_one_read_def split: prod.splits outcome.splits)
qed

text \<open>The end of the handshake enters the node id, unless another connection has it.\<close>

lemma handshake_done_link:
  fixes st :: "('sk, 'd, 'c, 'h) reading"
  assumes "good_link d ids0 st" "their_node_id (rd_peer st) = None"
  shows "good_link d ids0 (fst (handshake_done env d who st))"
proof -
  define p where "p = (rd_peer st)\<lparr>pending_read_buffer := replicate 18 0, pending_read_is_header := True, their_node_id := Some who\<rparr>"
  have named: "their_node_id q = Some who \<and> is_ready_for_encryption (channel_encryptor q)" if "enqueue_message env m p = Ok q" for m q
    using enqueue_named [OF that] by (simp add: p_def)
  have "linked d ids0 ((rd_ids st)(who \<mapsto> d)) q" if "rd_ids st who = None" "their_node_id q = Some who" for q :: "'sk Peer"
    using assms that by (auto simp: good_link_def linked_def) (metis option.distinct(1))
  then have "good_link d ids0 (st\<lparr>rd_ids := (rd_ids st)(who \<mapsto> d), rd_peer := q\<lparr>awaiting_pong_timer_tick_intervals := 0\<rparr>\<rparr>)"
    if "rd_ids st who = None" "enqueue_message env m p = Ok q" for m q
    using that named [OF that(2)] by (simp add: good_link_def unnamed_def)
  moreover have "good_link d ids0 (st\<lparr>rd_peer := p\<lparr>their_node_id := None\<rparr>\<rparr>)" using assms by (simp add: good_link_def linked_def unnamed_def)
  ultimately show ?thesis using assms(1) unfolding handshake_done_def Let_def p_def [symmetric] by (simp split: outcome.split)
qed

lemma noise_step_link:
  assumes "good_link d ids0 st" "\<not> is_ready_for_encryption (channel_encryptor (rd_peer st))"
    "\<And>st1 x. good_link d ids0 st1 \<Longrightarrow> their_node_id (rd_peer st1) = None \<Longrightarrow> good_link d ids0 (fst (k st1 x))"
  shows "good_link d ids0 (fst (noise_step_of env res k st))"
proof -
  define st1 where "st1 = st\<lparr>rd_peer := (rd_peer st)\<lparr>channel_encryptor := fst res\<rparr>\<rparr>"
  have n: "their_node_id (rd_peer st1) = None" using assms(1,2) by (simp add: good_link_def unnamed_def st1_def)
  have "stays st st1" using assms(2) by (simp add: stays_def st1_def)
  then have l: "good_link d ids0 st1" by (rule stays_link [OF _ assms(1)])
  have "good_link d ids0 (fst (try_potential_handleerror env e st1))" for e by (rule stays_link [OF handleerror_stays l])
  then show ?thesis using assms(3) [OF l n] l unfolding noise_step_of_def Let_def st1_def [symmetric] by (simp split: outcome.split)
qed

lemma buffer_full_link:
  assumes "good_link d ids0 st"
  shows "good_link d ids0 (fst (buffer_full env d st))"
proof (cases "get_noise_step (channel_encryptor (rd_peer st)) = NoiseComplete")
  case True
  then show ?thesis using transport_reads_stay [of st env] stays_link [OF _ assms] by (simp add: buffer_full_def)
next
  case False
  then have n: "\<not> is_ready_for_encryption (channel_encryptor (rd_peer st))"
    by (auto simp: get_noise_step_def is_ready_for_encryption_def split: NoiseState.splits NoiseStep.splits)
  have queued: "good_link d ids0 (st1\<lparr>rd_peer := (rd_peer st1)\<lparr>pending_outbound_buffer := ws\<rparr>\<rparr>)" if "good_link d ids0 st1" for st1 ws
    by (rule stays_link [OF _ that]) (simp add: stays_def)
  have "good_link d ids0 (fst (act_two_read env d st))" unfolding act_two_read_def
    by (rule noise_step_link [OF assms n]) (simp add: case_prod_beta handshake_done_link queued)
  moreover have "good_link d ids0 (fst (act_three_read env d st))" unfolding act_three_read_def
    by (rule noise_step_link [OF assms n]) (rule handshake_done_link)
  moreover have "good_link d ids0 (fst (act_one_read env st))" by (rule stays_link [OF act_one_stays [OF n] assms])
  ultimately show ?thesis using False by (auto simp: buffer_full_def split: NextNoiseStep.splits)
qed

definition keeps_name :: "'sk Peer \<Rightarrow> 'sk Peer \<Rightarrow> bool" where
  "keeps_name p q \<longleftrightarrow> their_node_id q = their_node_id p \<and> (is_ready_for_encryption (channel_encryptor p) \<longrightarrow> is_ready_for_encryption (channel_encryptor q))"

lemma handle_message_named: "keeps_name p (fst (fst (handle_message env m p h)))"
proof -
  let ?p = "p\<lparr>received_message_since_timer_tick := True\<rparr>"
  have init: "keeps_name p (fst (fst (handle_init env who i ?p h)))" for who i by (simp add: handle_init_def Let_def keeps_name_def)
  have results: "fst (fst (gossip_result p' m' x)) = p'" "fst (fst (query_result p' y)) = p'" for p' m' x y
    by (simp_all add: gossip_result_def query_result_def case_prod_beta)
  have ping: "keeps_name p q" if "enqueue_message env m1 ?p = Ok q" for m1 q using enqueue_named [OF that] by (simp add: keeps_name_def)
  have same: "keeps_name p ?p" "keeps_name p (handle_filter flags ?p)" "keeps_name p (?p\<lparr>awaiting_pong_timer_tick_intervals := 0, msgs_sent_since_pong := 0\<rparr>)" for flags
    by (simp_all add: keeps_name_def handle_filter_def)
  show ?thesis
  proof (cases "their_node_id p")
    case (Some who)
    show ?thesis
    proof (cases "their_features p")
      case None
      then show ?thesis using Some init same by (cases m) (simp_all add: handle_message_def Let_def)
    next
      case (Some flags)
      then show ?thesis using \<open>their_node_id p = Some who\<close> init ping same by (cases m) (simp_all add: handle_message_def Let_def results split: outcome.split)
    qed
  qed (simp add: handle_message_def keeps_name_def)
qed

lemma dispatch_stays: "stays st (fst (dispatch env m st))"
proof -
  obtain q h r where e: "handle_message env m (rd_peer st) (rd_handlers st) = ((q, h), r)" by (metis surj_pair)
  define st1 where "st1 = st\<lparr>rd_peer := q, rd_handlers := h\<rparr>"
  have s: "stays st st1" using handle_message_named [of "rd_peer st" env m "rd_handlers st"] e by (simp add: stays_def keeps_name_def st1_def)
  have "stays st (fst (try_potential_handleerror env x st1))" for x by (rule stays_trans [OF s handleerror_stays])
  moreover have "stays st (st1\<lparr>rd_forward := f\<rparr>)" for f using s by (simp add: stays_def)
  ultimately show ?thesis using s unfolding dispatch_def e prod.case Let_def st1_def [symmetric]
    by (simp split: outcome.split option.split MessageHandlingError.split)
qed

lemma after_round_link:
  assumes "good_link d ids0 (fst x)"
  shows "good_link d ids0 (fst (fst (after_round env x pause)))"
proof -
  obtain st r where x: "x = (st, r)" by fastforce
  have "good_link d ids0 (fst (dispatch env m st))" for m using assms x stays_link [OF dispatch_stays] by simp
  then have "good_link d ids0 st1" if "dispatch env m st = (st1, r1)" for m st1 r1 using that by (metis fst_conv)
  then show ?thesis using assms x by (auto simp: after_round_def Let_def split: outcome.splits round.splits option.splits prod.splits)
qed

lemma read_round_link:
  assumes "good_link d ids0 st" "read_round env d st data pause = (((st1, z), r), rest)"
  shows "good_link d ids0 st1"
proof -
  have n: "good_link d ids0 (noted st)" using assms(1) by (simp add: good_link_def noted_def)
  obtain q rest1 where c: "copied data (rd_peer st) = (q, rest1)" by fastforce
  then have q: "their_node_id q = their_node_id (rd_peer st)" "channel_encryptor q = channel_encryptor (rd_peer st)" by (auto simp: copied_def Let_def)
  then have l: "good_link d ids0 (noted st\<lparr>rd_peer := q\<rparr>)" "good_link d ids0 (noted st\<lparr>rd_peer := q\<lparr>pending_read_buffer_pos := 0\<rparr>\<rparr>)"
    using n by (simp_all add: good_link_def linked_def unnamed_def)
  have "good_link d ids0 (fst (fst (fst (read_round env d st data pause))))"
    using n c after_round_link [OF buffer_full_link [OF l(2)]] after_round_link [of d ids0 "(noted st\<lparr>rd_peer := q\<rparr>, Ok (Reached None))"] l(1)
    by (simp add: read_round_def Let_def)
  then show ?thesis using assms(2) by simp
qed

lemma read_loop_link: "good_link d ids0 st \<Longrightarrow> good_link d ids0 (fst (fst (read_loop env d st pause data)))"
proof (induction "length data" arbitrary: st pause data rule: less_induct)
  case less
  show ?case
  proof (cases "data = []")
    case False
    obtain st1 z r rest where a: "read_round env d st data pause = (((st1, z), r), rest)" by (metis surj_pair)
    note g = read_round_link [OF less.prems a]
    show ?thesis
    proof (cases r)
      case (Ok u)
      then have "length rest < length data" using read_round_shorter [of env d st data pause st1 z u rest] a False by simp
      then show ?thesis using less.hyps [of rest st1 z] g Ok a False by (simp add: read_loop.simps [of env d st])
    qed (use g a False in \<open>simp_all add: read_loop.simps [of env d st]\<close>)
  qed (use less.prems in \<open>simp add: read_loop.simps\<close>)
qed

section \<open>Connections one by one\<close>

definition conn_ok :: "'sk Peer \<Rightarrow> bool" where
  "conn_ok p \<longleftrightarrow> read_ready p \<and> unnamed p"

text \<open>Whatever is queued or written, a connection keeps its name and can go on reading.\<close>

definition keeps_conn :: "'sk Peer \<Rightarrow> 'sk Peer \<Rightarrow> bool" where
  "keeps_conn p q \<longleftrightarrow> their_node_id q = their_node_id p \<and> (conn_ok p \<longrightarrow> conn_ok q)"

lemma keeps_conn_trans: "keeps_conn p q \<Longrightarrow> keeps_conn q r \<Longrightarrow> keeps_conn p r"
  by (simp add: keeps_conn_def)

lemma keeps_conn_same:
  assumes "same_reading p q" "channel_encryptor q = channel_encryptor p"
  shows "keeps_conn p q"
  using assms buffer_ok_cong [of q p] by (auto simp: keeps_conn_def conn_ok_def same_reading_def read_ready_def unnamed_def)

lemma enqueue_encoded_conn:
  assumes "crypto_ok (env_crypto env)" "enqueue_encoded_message env w p = Ok q"
  shows "keeps_conn p q"
proof -
  obtain e x where e: "encrypt_message (env_crypto env) w (channel_encryptor p) = (e, Ok x)"
    "q = p\<lparr>msgs_sent_since_pong := msgs_sent_since_pong p + 1, channel_encryptor := e, pending_outbound_buffer := pending_outbound_buffer p @ [x]\<rparr>"
    using assms(2) by (auto simp: enqueue_encoded_message_def split: prod.splits outcome.splits)
  obtain t where t: "pce_noise_state (channel_encryptor p) = Finished t" "length w \<le> 65535"
    using e(1) by (auto simp: encrypt_message_def LN_MAX_MSG_LEN_def split: if_splits NoiseState.splits)
  have "conn_ok q" if "conn_ok p"
  proof -
    have k: "keys_len t" "transport_ok p" using that t(1) by (auto simp: conn_ok_def read_ready_def buffer_ok_def transport_ok_def Let_def)
    obtain t1 where "pce_noise_state e = Finished t1" "keys_len t1" using encrypt_total [OF assms(1) t(1) k(1) t(2)] e(1) by auto
    then have "transport_ok q" "unnamed q" using k(2) e(2) by (simp_all add: transport_ok_def unnamed_def is_ready_for_encryption_def)
    moreover have "same_reading p q" using e(2) by (simp add: same_reading_def)
    ultimately show ?thesis using same_reading_ready [of p q] k(2) that by (simp add: conn_ok_def)
  qed
  then show ?thesis using e(2) by (simp add: keeps_conn_def)
qed

lemma enqueue_conn: "crypto_ok (env_crypto env) \<Longrightarrow> enqueue_message env m p = Ok q \<Longrightarrow> keeps_conn p q"
  by (auto simp: enqueue_message_def dest: enqueue_encoded_conn split: option.splits)

lemma enqueue_all_conn: "crypto_ok (env_crypto env) \<Longrightarrow> enqueue_all env ms p = Ok q \<Longrightarrow> keeps_conn p q"
proof (induction ms arbitrary: p)
  case Nil
  then show ?case by (simp add: keeps_conn_def)
next
  case (Cons m ms)
  then obtain p1 where p1: "enqueue_message env m p = Ok p1" "enqueue_all env ms p1 = Ok q" by (auto split: outcome.splits)
  show ?case by (rule keeps_conn_trans [OF enqueue_conn [OF Cons.prems(1) p1(1)] Cons.IH [OF Cons.prems(1) p1(2)]])
qed

lemma refill_conn:
  assumes "crypto_ok (env_crypto env)" "refill env h p = Ok q"
  shows "keeps_conn p q"
proof -
  obtain p1 where p1: "queue_sync env h p = Ok p1" "(if msgs_sent_since_pong p1 \<ge> BUFFER_DRAIN_MSGS_PER_TICK then maybe_send_extra_ping env p1 else Ok p1) = Ok q"
    using assms(2) by (auto simp: refill_def and_then_Ok_iff)
  have status: "keeps_conn x (x\<lparr>sync_status := st\<rparr>)" "keeps_conn x (x\<lparr>awaiting_pong_timer_tick_intervals := n\<rparr>)" for x :: "'a Peer" and st n
    by (rule keeps_conn_same; simp add: same_reading_def)+
  have "keeps_conn p p1"
    using p1(1) enqueue_all_conn [OF assms(1), of _ p] keeps_conn_trans [OF _ status(1)]
    by (auto simp: queue_sync_def map_ok_Ok_iff keeps_conn_def split: if_splits prod.splits)
  moreover have "keeps_conn p1 q"
    using p1(2) keeps_conn_trans [OF status(2) enqueue_conn [OF assms(1)]]
    by (auto simp: maybe_send_extra_ping_def keeps_conn_def split: if_splits)
  ultimately show ?thesis by (rule keeps_conn_trans)
qed

lemma write_conn:
  assumes "crypto_ok (env_crypto env)"
  shows "do_attempt_write_data env so h d p s = Ok (q, s1) \<Longrightarrow> keeps_conn p q"
  using assms
proof (induction env so h d p s rule: do_attempt_write_data.induct)
  case (1 env so h d p s)
  show ?case
  proof (cases "awaiting_write_event p")
    case True
    then show ?thesis using "1.prems" by (simp add: do_attempt_write_data.simps [of env so h d p s] keeps_conn_def)
  next
    case go: False
    then obtain q0 where q0: "refill env h p = Ok q0" using "1.prems"(1) by (auto simp: do_attempt_write_data.simps [of env so h d p s] split: outcome.splits)
    note k = refill_conn [OF "1.prems"(2) q0]
    show ?thesis
    proof (cases "pending_outbound_buffer q0")
      case Nil
      then show ?thesis using "1.prems"(1) go q0 k by (simp add: do_attempt_write_data.simps [of env so h d p s])
    next
      case (Cons nb rest)
      let ?o = "pending_outbound_buffer_first_msg_offset q0"
      let ?p = "q0\<lparr>pending_outbound_buffer_first_msg_offset := 0, pending_outbound_buffer := rest\<rparr>"
      obtain s2 n where n: "send_data so d (drop ?o nb) (length (pending_outbound_buffer q0) < OUTBOUND_BUFFER_LIMIT_READ_PAUSE) s = (s2, n)" by fastforce
      have o: "\<not> length nb < ?o" using "1.prems"(1) go q0 Cons by (auto simp: do_attempt_write_data.simps [of env so h d p s] Let_def split: if_splits)
      have same: "keeps_conn q0 ?p" "keeps_conn q0 (q0\<lparr>pending_outbound_buffer_first_msg_offset := i, awaiting_write_event := True\<rparr>)" for i
        by (rule keeps_conn_same; simp add: same_reading_def)+
      show ?thesis
      proof (cases "?o + n = length nb")
        case True
        have "do_attempt_write_data env so h d ?p s2 = Ok (q, s1)"
          using "1.prems"(1) go q0 Cons n o True by (simp add: do_attempt_write_data.simps [of env so h d p s])
        from "1.IH" [OF go q0 Cons refl refl o n [symmetric] True this "1.prems"(2)] show ?thesis
          by (rule keeps_conn_trans [OF k keeps_conn_trans [OF same(1)]])
      next
        case False
        then have "q = q0\<lparr>pending_outbound_buffer_first_msg_offset := ?o + n, awaiting_write_event := True\<rparr>"
          using "1.prems"(1) go q0 Cons n o by (simp add: do_attempt_write_data.simps [of env so h d p s])
        then show ?thesis using keeps_conn_trans [OF k same(2)] by simp
      qed
    qed
  qed
qed

section \<open>All connections together\<close>

text \<open>The node ids point exactly to the connections that have them.\<close>

definition named :: "(bytes \<Rightarrow> 'd option) \<Rightarrow> ('d \<Rightarrow> 'sk Peer option) \<Rightarrow> bool" where
  "named ids P \<longleftrightarrow> (\<forall>d p. P d = Some p \<longrightarrow> conn_ok p) \<and> (\<forall>who d. ids who = Some d \<longleftrightarrow> (\<exists>p. P d = Some p \<and> their_node_id p = Some who))"

definition consistent :: "(bytes \<Rightarrow> 'd option) \<Rightarrow> ('d \<times> 'sk Peer) list \<Rightarrow> bool" where
  "consistent ids ps \<longleftrightarrow> distinct (map fst ps) \<and> named ids (map_of ps)"

abbreviation manager_ok :: "('sk, 'd, 'h, 's) manager \<Rightarrow> bool" where
  "manager_ok m \<equiv> consistent (node_id_to_descriptor m) (pm_peers m)"

lemma named_kept:
  assumes "named ids P" "\<And>d. rel_option keeps_conn (P d) (Q d)"
  shows "named ids Q"
proof -
  have "Q d = Some q \<Longrightarrow> \<exists>p. P d = Some p \<and> keeps_conn p q" "P d = Some p \<Longrightarrow> \<exists>q. Q d = Some q \<and> keeps_conn p q" for d p q
    using assms(2) [of d] by (auto simp: option_rel_Some1 option_rel_Some2)
  then show ?thesis using assms(1) by (fastforce simp: named_def keeps_conn_def)
qed

lemma named_put: "named ids P \<Longrightarrow> P d = Some p \<Longrightarrow> keeps_conn p q \<Longrightarrow> named ids (P(d \<mapsto> q))"
  by (auto simp: named_def keeps_conn_def)

lemma named_new: "named ids P \<Longrightarrow> P d = None \<Longrightarrow> conn_ok q \<Longrightarrow> their_node_id q = None \<Longrightarrow> named ids (P(d \<mapsto> q))"
  by (auto simp: named_def)

lemma named_without:
  assumes "named ids P" "\<And>who d'. ids1 who = Some d' \<longleftrightarrow> d' \<noteq> d \<and> ids who = Some d'"
  shows "named ids1 (P(d := None))"
  using assms by (auto simp: named_def)

lemma named_removed:
  assumes "named ids P" "P d = Some p"
  shows "named (case their_node_id p of Some who \<Rightarrow> ids(who := None) | None \<Rightarrow> ids) (P(d := None))"
proof (rule named_without [OF assms(1)])
  have "ids who = Some d \<longleftrightarrow> their_node_id p = Some who" for who using assms by (auto simp: named_def)
  then show "(case their_node_id p of Some who \<Rightarrow> ids(who := None) | None \<Rightarrow> ids) who = Some d' \<longleftrightarrow> d' \<noteq> d \<and> ids who = Some d'" for who d'
    by (auto split: option.splits) (metis option.inject)
qed

lemma put_kept: "manager_ok m \<Longrightarrow> map_of (pm_peers m) d = Some p \<Longrightarrow> keeps_conn p q \<Longrightarrow> manager_ok (put_peer d q m)"
  using named_put [of "node_id_to_descriptor m" "map_of (pm_peers m)" d p q] by (simp add: put_peer_def consistent_def update_conv' distinct_update)

lemma put_new: "manager_ok m \<Longrightarrow> map_of (pm_peers m) d = None \<Longrightarrow> conn_ok q \<Longrightarrow> their_node_id q = None \<Longrightarrow> manager_ok (put_peer d q m)"
  using named_new [of "node_id_to_descriptor m" "map_of (pm_peers m)" d q] by (simp add: put_peer_def consistent_def update_conv' distinct_update)

lemma removed:
  assumes "consistent ids ps" "map_of ps d = Some p"
  shows "consistent (case their_node_id p of Some who \<Rightarrow> ids(who := None) | None \<Rightarrow> ids) (AList.delete d ps)"
  using assms named_removed [of ids "map_of ps" d p] by (simp add: consistent_def delete_conv' distinct_delete del: map_of_eq_Some_iff)

lemma removed_absent: "consistent ids ps \<Longrightarrow> map_of ps d = None \<Longrightarrow> consistent ids (AList.delete d ps)"
  by (simp add: consistent_def delete_conv' distinct_delete fun_upd_idem)

lemma disconnect_ok: "manager_ok m \<Longrightarrow> manager_ok (disconnect_event_internal env d b m)"
  using removed [of "node_id_to_descriptor m" "pm_peers m" d] removed_absent [of "node_id_to_descriptor m" "pm_peers m" d]
  by (cases "map_of (pm_peers m) d") (auto simp: disconnect_event_internal_def Let_def split: option.splits)

text \<open>A connection that is about to be closed may be in any state, as long as it claims no name but its own.\<close>

lemma disconnect_after_read:
  assumes "manager_ok m" "linked d (node_id_to_descriptor m) ids q"
  shows "manager_ok (disconnect_event_internal env d b (put_peer d q (m\<lparr>node_id_to_descriptor := ids, peer_counter := c, pm_handlers := h\<rparr>)))"
proof -
  let ?ids = "case their_node_id q of Some who \<Rightarrow> ids(who := None) | None \<Rightarrow> ids"
  have "?ids who = Some d' \<longleftrightarrow> d' \<noteq> d \<and> node_id_to_descriptor m who = Some d'" for who d'
    using assms(2) by (cases "d' = d") (auto simp: linked_def split: option.splits, metis option.inject)
  then have "named ?ids ((map_of (pm_peers m))(d := None))" by (rule named_without [rotated]) (use assms(1) in \<open>simp add: consistent_def\<close>)
  then have "consistent ?ids (AList.delete d (AList.update d q (pm_peers m)))" using assms(1) by (simp add: consistent_def delete_conv' distinct_delete delete_update_same)
  then show ?thesis by (auto simp: disconnect_event_internal_def put_peer_def update_conv' Let_def split: option.splits)
qed

lemma new_peer_ok:
  assumes "case addr of Some a \<Rightarrow> address_ok a | None \<Rightarrow> True"
  shows "conn_ok (new_peer (new_inbound cr sk) addr)" "get_act_one cr (new_outbound cr who eph) = (e, Ok act) \<Longrightarrow> conn_ok (new_peer e addr)"
    "their_node_id (new_peer e addr) = None"
  using assms by (auto simp: conn_ok_def read_ready_def buffer_ok_def unnamed_def new_peer_def new_inbound_def get_act_one_def new_outbound_def split: outcome.splits)

lemma new_connection_ok:
  assumes "manager_ok m" "case addr of Some a \<Rightarrow> address_ok a | None \<Rightarrow> True"
  shows "new_outbound_connection env who d addr m = Ok (m1, act) \<Longrightarrow> manager_ok m1" "new_inbound_connection env d addr m = Ok m2 \<Longrightarrow> manager_ok m2"
  using assms new_peer_ok [OF assms(2)]
  by (auto simp: new_outbound_connection_def new_inbound_connection_def intro!: put_new split: prod.splits outcome.splits if_splits)

lemma write_peer_ok:
  assumes "crypto_ok (env_crypto env)" "manager_ok m" "map_of (pm_peers m) d = Some p" "keeps_conn p p1" "write_peer env so d p1 m = Ok m1"
  shows "manager_ok m1"
proof -
  obtain q s where q: "do_attempt_write_data env so (pm_handlers m) d p1 (pm_sockets m) = Ok (q, s)" "m1 = put_peer d q (m\<lparr>pm_sockets := s\<rparr>)"
    using assms(5) by (auto simp: write_peer_def map_ok_Ok_iff)
  have "keeps_conn p q" by (rule keeps_conn_trans [OF assms(4) write_conn [OF assms(1) q(1)]])
  then show ?thesis using put_kept [of "m\<lparr>pm_sockets := s\<rparr>" d p q] assms(2,3) q(2) by simp
qed

lemma write_avail_ok:
  assumes "crypto_ok (env_crypto env)" "manager_ok m"
  shows "manager_ok (fst (write_buffer_space_avail env so d m))"
proof (cases "map_of (pm_peers m) d")
  case (Some p)
  have "keeps_conn p (p\<lparr>awaiting_write_event := False\<rparr>)" by (rule keeps_conn_same) (simp_all add: same_reading_def)
  from write_peer_ok [OF assms Some this] show ?thesis using Some assms(2) by (simp add: write_buffer_space_avail_def split: outcome.split)
qed (use assms(2) in \<open>simp add: write_buffer_space_avail_def\<close>)

text \<open>Passing on gossip.\<close>

lemma over_peers_keys: "over_peers f ps = Ok qs \<Longrightarrow> map fst qs = map fst ps"
  by (induction ps arbitrary: qs) (auto simp: and_then_Ok_iff map_ok_Ok_iff)

lemma over_peers_kept:
  assumes "\<And>p q. f p = Ok q \<Longrightarrow> keeps_conn p q" "over_peers f ps = Ok qs"
  shows "rel_option keeps_conn (map_of ps d) (map_of qs d)"
  using assms(2)
proof (induction ps arbitrary: qs)
  case (Cons x ps)
  obtain d1 p where x: "x = (d1, p)" by fastforce
  then obtain q qs1 where "f p = Ok q" "over_peers f ps = Ok qs1" "qs = (d1, q) # qs1" using Cons.prems by (auto simp: and_then_Ok_iff map_ok_Ok_iff)
  then show ?case using Cons.IH [of qs1] assms(1) [of p q] x by simp
qed simp

lemma forward_ok:
  assumes "crypto_ok (env_crypto env)" "manager_ok m" "forward_broadcast_msg env msg except m = Ok m1"
  shows "manager_ok m1"
proof -
  let ?f = "\<lambda>p. if wants_gossip msg except p then enqueue_encoded_message env (wire_write (env_wire env) (env_custom env) msg) p else Ok p"
  obtain qs where qs: "over_peers ?f (pm_peers m) = Ok qs" "m1 = m\<lparr>pm_peers := qs\<rparr>" using assms(3) by (auto simp: forward_broadcast_msg_def map_ok_Ok_iff)
  have "keeps_conn p q" if "?f p = Ok q" for p q using that enqueue_encoded_conn [OF assms(1)] by (auto simp: keeps_conn_def split: if_splits)
  then have "rel_option keeps_conn (map_of (pm_peers m) d) (map_of qs d)" for d by (rule over_peers_kept [OF _ qs(1)])
  then have "named (node_id_to_descriptor m) (map_of qs)" using named_kept assms(2) by (auto simp: consistent_def)
  then show ?thesis using assms(2) qs over_peers_keys [OF qs(1)] by (simp add: consistent_def)
qed

lemma forward_all_ok: "crypto_ok (env_crypto env) \<Longrightarrow> manager_ok m \<Longrightarrow> forward_all env msgs except m = Ok m1 \<Longrightarrow> manager_ok m1"
  by (induction msgs arbitrary: m) (auto simp: and_then_Ok_iff dest: forward_ok)

text \<open>Reading.\<close>

lemma read_event_ok:
  assumes "env_ok env" "manager_ok m"
  shows "manager_ok (fst (read_event env d data m)) \<or> snd (read_event env d data m) = Panic"
proof (cases "map_of (pm_peers m) d")
  case None
  then show ?thesis using assms(2) disconnect_ok by (simp add: read_event_def do_read_event_def)
next
  case (Some p)
  define st0 :: "('a, 'd, 'b, 'c) reading" where "st0 = \<lparr>rd_peer = p, rd_ids = node_id_to_descriptor m, rd_counter = peer_counter m, rd_handlers = pm_handlers m,
    rd_forward = [], rd_node_id = None\<rparr>"
  obtain st z r where l: "read_loop env d st0 False data = ((st, z), r)" by (metis surj_pair)
  have n: "named (node_id_to_descriptor m) (map_of (pm_peers m))" using assms(2) by (simp add: consistent_def)
  then have p: "conn_ok p" "good_link d (node_id_to_descriptor m) st0"
    using Some by (auto simp: named_def good_link_def linked_def conn_ok_def st0_def)
  have link: "linked d (node_id_to_descriptor m) (rd_ids st) (rd_peer st)" "unnamed (rd_peer st)"
    using read_loop_link [OF p(2), of env False data] l by (simp_all add: good_link_def)
  let ?m = "put_peer d (rd_peer st) (m\<lparr>node_id_to_descriptor := rd_ids st, peer_counter := rd_counter st, pm_handlers := rd_handlers st\<rparr>)"
  have eq: "do_read_event env d data m = (case r of
      Ok _ \<Rightarrow> (case forward_all env (rd_forward st) (rd_node_id st) ?m of Ok m2 \<Rightarrow> (m2, Ok z) | _ \<Rightarrow> (?m, Panic)) | Err e \<Rightarrow> (?m, Err e) | Panic \<Rightarrow> (?m, Panic))"
    using Some l by (simp add: do_read_event_def st0_def Let_def)
  show ?thesis
  proof (cases r)
    case (Ok u)
    have "conn_ok (rd_peer st)" using read_loop_good [OF assms(1), of st0 d False data] p(1) l Ok link(2) by (simp add: conn_ok_def st0_def)
    then have "named (rd_ids st) ((map_of (pm_peers m))(d \<mapsto> rd_peer st))" using n link(1) by (auto simp: named_def linked_def)
    then have "manager_ok ?m" using assms(2) by (simp add: consistent_def put_peer_def update_conv' distinct_update)
    then show ?thesis using forward_all_ok [OF env_crypto_ok [OF assms(1)]] eq Ok by (auto simp: read_event_def split: outcome.split)
  next
    case (Err e)
    then show ?thesis using disconnect_after_read [OF assms(2) link(1)] eq by (simp add: read_event_def)
  qed (use eq in \<open>simp add: read_event_def\<close>)
qed

text \<open>What the handlers queued.\<close>

lemma each_keeps:
  assumes "\<And>x a b. I a \<Longrightarrow> f x a = Ok b \<Longrightarrow> I b"
  shows "I a \<Longrightarrow> each f xs a = Ok b \<Longrightarrow> I b"
  by (induction xs arbitrary: a) (auto simp: and_then_Ok_iff dest: assms)

lemma send_to_ok:
  assumes "crypto_ok (env_crypto env)" "manager_ok m" "send_to env dc who msgs m = Ok m1"
  shows "manager_ok m1"
proof (cases "get_peer_for_forwarding m dc who")
  case (Some x)
  obtain d p where x: "x = (d, p)" by fastforce
  then have p: "map_of (pm_peers m) d = Some p" using Some by (auto simp: get_peer_for_forwarding_def split: if_splits option.splits)
  obtain q where "enqueue_all env msgs p = Ok q" "m1 = put_peer d q m" using assms(3) Some x by (auto simp: send_to_def map_ok_Ok_iff)
  then show ?thesis using put_kept [OF assms(2) p enqueue_all_conn [OF assms(1)]] by simp
qed (use assms in \<open>simp add: send_to_def\<close>)

lemma broadcast_ok:
  assumes "crypto_ok (env_crypto env)" "manager_ok m" "broadcast env msg m = Ok m1"
  shows "manager_ok m1"
proof -
  have "manager_ok m1" if "forward_broadcast_msg env msg None (m\<lparr>pm_handlers := h\<rparr>) = Ok m1" for h
    by (rule forward_ok [OF assms(1) _ that]) (use assms(2) in simp)
  then show ?thesis using assms(2,3) by (auto simp: broadcast_def Let_def split: prod.splits outcome.splits ErrorAction.splits)
qed

lemma handle_event_ok:
  assumes "crypto_ok (env_crypto env)" "manager_ok (fst x)" "handle_event env ev x = Ok y"
  shows "manager_ok (fst y)"
proof -
  obtain m dc where x: "x = (m, dc)" by fastforce
  have m: "manager_ok m" using assms(2) x by simp
  note keep = send_to_ok [OF assms(1) m] broadcast_ok [OF assms(1) m] broadcast_ok [OF assms(1) broadcast_ok [OF assms(1) m]]
  show ?thesis using m assms(3) x keep by (cases ev) (auto simp: map_ok_Ok_iff and_then_Ok_iff split: ErrorAction.splits)
qed

lemma write_all_ok:
  assumes "crypto_ok (env_crypto env)" "manager_ok m" "write_all env so m = Ok m1"
  shows "manager_ok m1"
proof (rule each_keeps [where I = manager_ok, OF _ assms(2) assms(3) [unfolded write_all_def]])
  fix d a b assume a: "manager_ok a" "(case map_of (pm_peers a) d of None \<Rightarrow> Ok a | Some p \<Rightarrow> write_peer env so d p a) = Ok b"
  show "manager_ok b"
  proof (cases "map_of (pm_peers a) d")
    case (Some p)
    then show ?thesis using write_peer_ok [OF assms(1) a(1) Some, of p so b] a(2) by (simp add: keeps_conn_def)
  qed (use a in simp)
qed

lemma disconnected_by_name:
  assumes "manager_ok m" "node_id_to_descriptor m who = Some d"
  shows "consistent ((node_id_to_descriptor m)(who := None)) (AList.delete d (pm_peers m))"
proof -
  obtain p where p: "map_of (pm_peers m) d = Some p" "their_node_id p = Some who" using assms by (auto simp: consistent_def named_def)
  then show ?thesis using removed [OF assms(1) p(1)] by simp
qed

lemma disconnect_with_ok: "manager_ok m \<Longrightarrow> disconnect_with env so x m = Ok m1 \<Longrightarrow> manager_ok m1"
  using disconnected_by_name [of m "fst x"]
  by (auto simp: disconnect_with_def Let_def map_ok_Ok_iff case_prod_beta split: option.splits)

lemma process_events_ok:
  assumes "crypto_ok (env_crypto env)" "manager_ok m" "process_events env ev so m = Ok m3"
  shows "manager_ok m3"
proof -
  obtain evs1 h1 evs2 h2 where h: "chan_events ev (pm_handlers m) = (evs1, h1)" "route_events ev h1 = (evs2, h2)" by fastforce
  obtain m1 dc where s1: "each (handle_event env) (evs1 @ evs2) (m\<lparr>pm_handlers := h2\<rparr>, []) = Ok (m1, dc)"
    using assms(3) h by (auto simp: process_events_def and_then_Ok_iff)
  obtain own h3 where s2: "custom_events ev (pm_handlers m1) = (own, h3)" by fastforce
  obtain m2 m2' where s: "each (\<lambda>(who, c). send_to env dc who [MsgCustom c]) own (m1\<lparr>pm_handlers := h3\<rparr>) = Ok m2" "write_all env so m2 = Ok m2'"
    "each (disconnect_with env so) dc m2' = Ok m3"
    using assms(3) h s1 s2 by (auto simp: process_events_def and_then_Ok_iff)
  have "manager_ok (fst (m1, dc))"
    by (rule each_keeps [where I = "\<lambda>x. manager_ok (fst x)", OF handle_event_ok [OF assms(1)] _ s1]) (use assms(2) in simp_all)
  then have "manager_ok m2"
    by (intro each_keeps [where I = manager_ok, OF _ _ s(1)]) (auto intro: send_to_ok [OF assms(1)])
  then have m2': "manager_ok m2'" using write_all_ok [OF assms(1) _ s(2)] by blast
  show ?thesis by (rule each_keeps [where I = manager_ok, OF _ m2' s(3)]) (rule disconnect_with_ok)
qed

text \<open>Timer and explicit disconnects.\<close>

lemma tick_peer_ok:
  assumes "crypto_ok (env_crypto env)" "manager_ok m" "map_of (pm_peers m) d = Some p" "timer_tick_peer env so n d p m = Ok (m1, g)"
  shows "manager_ok m1"
proof -
  have same: "keeps_conn p (p\<lparr>awaiting_pong_timer_tick_intervals := i\<rparr>)" "keeps_conn p (p\<lparr>awaiting_pong_timer_tick_intervals := i, received_message_since_timer_tick := False\<rparr>)"
    "keeps_conn p (p\<lparr>received_message_since_timer_tick := False, awaiting_pong_timer_tick_intervals := i\<rparr>)" for i
    by (rule keeps_conn_same; simp add: same_reading_def)+
  have "manager_ok m1" if "enqueue_message env x (p\<lparr>received_message_since_timer_tick := False, awaiting_pong_timer_tick_intervals := 1\<rparr>) = Ok p2" "write_peer env so d p2 m = Ok m1" for x p2
    by (rule write_peer_ok [OF assms(1-3) keeps_conn_trans [OF same(3) enqueue_conn [OF assms(1) that(1)]] that(2)])
  then show ?thesis using assms(2,4) put_kept [OF assms(2,3)] same
    by (auto simp: timer_tick_peer_def Let_def and_then_Ok_iff map_ok_Ok_iff split: if_splits)
qed

lemma tick_peers_ok: "crypto_ok (env_crypto env) \<Longrightarrow> manager_ok m \<Longrightarrow> tick_peers env so n ds m = Ok (m1, gone) \<Longrightarrow> manager_ok m1"
proof (induction ds arbitrary: m gone)
  case (Cons d ds)
  show ?case
  proof (cases "map_of (pm_peers m) d")
    case (Some p)
    then obtain m2 g gone2 where "timer_tick_peer env so n d p m = Ok (m2, g)" "tick_peers env so n ds m2 = Ok (m1, gone2)"
      using Cons.prems(3) by (auto simp: and_then_Ok_iff map_ok_Ok_iff)
    note t = this
    show ?thesis by (rule Cons.IH [OF Cons.prems(1) tick_peer_ok [OF Cons.prems(1,2) Some t(1)] t(2)])
  qed (use Cons in simp)
qed simp

lemma all_disconnected_ok: "manager_ok m \<Longrightarrow> manager_ok (fold (\<lambda>d. disconnect_event_internal env d False) ds m)"
  by (induction ds arbitrary: m) (simp_all add: disconnect_ok)

lemma timer_ok: "crypto_ok (env_crypto env) \<Longrightarrow> manager_ok m \<Longrightarrow> timer_tick_occurred env so m = Ok m1 \<Longrightarrow> manager_ok m1"
  using tick_peers_ok [of env m so "length (pm_peers m)" "map fst (pm_peers m)"] all_disconnected_ok [of _ env]
  by (auto simp: timer_tick_occurred_def map_ok_Ok_iff Let_def)

lemma disconnects_ok:
  assumes "manager_ok m"
  shows "manager_ok (disconnect_by_node_id env so who b m)" "manager_ok (disconnect_all_peers env so m)"
  using assms disconnected_by_name [OF assms, of who]
  by (auto simp: disconnect_by_node_id_def disconnect_all_peers_def consistent_def named_def split: option.splits)

section \<open>Every operation\<close>

text \<open>What a program may ask of the manager, in any order. An error is told to the caller and the manager goes on; a panic ends the run.\<close>

datatype ('d, 'c, 'h) manager_op =
    OpOutbound bytes 'd "NetAddress option"
  | OpInbound 'd "NetAddress option"
  | OpWritable 'd
  | OpRead 'd bytes
  | OpClosed 'd
  | OpProcess "('c, 'h) event_lib"
  | OpDisconnect bytes bool
  | OpDisconnectAll
  | OpTick

definition carried_on :: "'m \<times> ('e, 'a) outcome \<Rightarrow> (unit, 'm) outcome" where
  "carried_on = (\<lambda>(m, r). if r = Panic then Panic else Ok m)"

fun manager_step ::
  "('sk, 'c, 'h) peer_env \<Rightarrow> ('d, 's) socket_lib \<Rightarrow> ('d, 'c, 'h) manager_op \<Rightarrow> ('sk, 'd, 'h, 's) manager \<Rightarrow> (unit, ('sk, 'd, 'h, 's) manager) outcome" where
  "manager_step env so (OpOutbound who d addr) m = map_ok fst (new_outbound_connection env who d addr m)"
| "manager_step env so (OpInbound d addr) m = new_inbound_connection env d addr m"
| "manager_step env so (OpWritable d) m = carried_on (write_buffer_space_avail env so d m)"
| "manager_step env so (OpRead d data) m = carried_on (read_event env d data m)"
| "manager_step env so (OpClosed d) m = Ok (socket_disconnected env d m)"
| "manager_step env so (OpProcess ev) m = process_events env ev so m"
| "manager_step env so (OpDisconnect who b) m = Ok (disconnect_by_node_id env so who b m)"
| "manager_step env so OpDisconnectAll m = Ok (disconnect_all_peers env so m)"
| "manager_step env so OpTick m = timer_tick_occurred env so m"

fun op_address :: "('d, 'c, 'h) manager_op \<Rightarrow> NetAddress option" where
  "op_address (OpOutbound who d addr) = addr"
| "op_address (OpInbound d addr) = addr"
| "op_address x = None"

lemma carried_on_Ok: "carried_on x = Ok m \<longleftrightarrow> fst x = m \<and> snd x \<noteq> Panic"
  by (auto simp: carried_on_def split: prod.splits)

lemma manager_step_ok:
  assumes "env_ok env" "manager_ok m" "case op_address x of Some a \<Rightarrow> address_ok a | None \<Rightarrow> True" "manager_step env so x m = Ok m1"
  shows "manager_ok m1"
proof -
  have c: "crypto_ok (env_crypto env)" using assms(1) by (rule env_crypto_ok)
  show ?thesis
  proof (cases x)
    case (OpRead d data)
    then show ?thesis using read_event_ok [OF assms(1,2), of d data] assms(4) by (auto simp: carried_on_Ok)
  next
    case (OpWritable d)
    then show ?thesis using write_avail_ok [OF c assms(2), of so d] assms(4) by (auto simp: carried_on_Ok)
  next
    case (OpClosed d)
    then show ?thesis using disconnect_ok [OF assms(2)] assms(4) by (auto simp: socket_disconnected_def)
  qed (use assms new_connection_ok [OF assms(2)] process_events_ok [OF c assms(2)] disconnects_ok [OF assms(2)] timer_ok [OF c assms(2)] in
      \<open>auto simp: map_ok_Ok_iff\<close>)
qed

lemma manager_run_ok:
  assumes "env_ok env"
  shows "manager_ok m \<Longrightarrow> \<forall>x\<in>set xs. case op_address x of Some a \<Rightarrow> address_ok a | None \<Rightarrow> True \<Longrightarrow>
    each (manager_step env so) xs m = Ok m1 \<Longrightarrow> manager_ok m1"
proof (induction xs arbitrary: m)
  case (Cons x xs)
  then obtain m2 where m2: "manager_step env so x m = Ok m2" "each (manager_step env so) xs m2 = Ok m1" by (auto simp: and_then_Ok_iff)
  have "manager_ok m2" by (rule manager_step_ok [OF assms Cons.prems(1) _ m2(1)]) (use Cons.prems(2) in simp)
  then show ?case using Cons.IH Cons.prems(2) m2(2) by simp
qed simp

lemma new_manager_ok: "manager_ok (new_manager h s)"
  by (simp add: new_manager_def consistent_def named_def)

text \<open>C10. Whatever sequence of connections, bytes, events, ticks and disconnects the manager goes through, its two tables agree: no descriptor
  is entered twice, a node id leads to a connection exactly when that connection is there and has finished its handshake
  with that node, so that two connections never claim the same node.\<close>
theorem peers_stay_consistent:
  assumes "env_ok env" "\<forall>x\<in>set xs. case op_address x of Some a \<Rightarrow> address_ok a | None \<Rightarrow> True"
    "each (manager_step env so) xs (new_manager h s) = Ok m"
  shows "distinct (map fst (pm_peers m)) \<and>
    (\<forall>who d. node_id_to_descriptor m who = Some d \<longleftrightarrow> (\<exists>p. (d, p) \<in> set (pm_peers m) \<and> their_node_id p = Some who)) \<and>
    (\<forall>d p who. (d, p) \<in> set (pm_peers m) \<longrightarrow> their_node_id p = Some who \<longrightarrow> is_ready_for_encryption (channel_encryptor p))"
proof -
  have "manager_ok m" by (rule manager_run_ok [OF assms(1) new_manager_ok assms(2,3)])
  then show ?thesis unfolding consistent_def named_def conn_ok_def unnamed_def by (fastforce simp: map_of_eq_Some_iff)
qed

section \<open>On concrete peers\<close>

definition two_calls :: "(nat, bytes, (bytes \<times> bytes Message) list) manager_op list" where
  "two_calls = [OpInbound 1 None, OpInbound 2 (Some (IPv4 [10, 0, 0, 1] 9735)), OpTick, OpClosed 1, OpRead 2 [], OpRead 3 [0, 1]]"

theorem peers_stay_consistent_witness:
  "\<exists>m. each (manager_step toy_env small_socket) two_calls (new_manager [] (\<lambda>_. [])) = Ok m \<and> map fst (pm_peers m) = [2] \<and> distinct (map fst (pm_peers m)) \<and>
    (node_id_to_descriptor m (replicate 33 7) = Some 2 \<longleftrightarrow> (\<exists>p. (2, p) \<in> set (pm_peers m) \<and> their_node_id p = Some (replicate 33 7)))"
proof -
  obtain m where m: "each (manager_step toy_env small_socket) two_calls (new_manager [] (\<lambda>_. [])) = Ok m" "map fst (pm_peers m) = [2]"
    by (simp add: two_calls_def new_inbound_connection_def new_manager_def put_peer_def timer_tick_occurred_def timer_tick_peer_def new_peer_def new_inbound_def
        is_ready_for_encryption_def socket_disconnected_def disconnect_event_internal_def carried_on_def read_event_def do_read_event_def read_loop.simps read_round_def copied_def Let_def)
  have a: "\<forall>x\<in>set two_calls. case op_address x of Some a \<Rightarrow> address_ok a | None \<Rightarrow> True" by (simp add: two_calls_def)
  show ?thesis using m peers_stay_consistent [OF toy_env_ok a m(1)] by (intro exI [of _ m]) simp
qed

end
