(* ===== verification/Peer_Timeout.thy ===== *)
theory Peer_Timeout
  imports Peer_Consistent
begin

text \<open>
  The timer of \<open>lightning/src/ln/peer_handler.rs\<close>: a connection from which nothing is read between two ticks is gone after the second,
  whatever else the manager does meanwhile. A tick leaves every connection it keeps \<open>doomed\<close>; only bytes
  read from the connection itself change that.
\<close>

section \<open>Connections that wait for a sign of life\<close>

definition doomed :: "'sk Peer \<Rightarrow> bool" where
  "doomed p \<longleftrightarrow> awaiting_pong_timer_tick_intervals p \<noteq> 0 \<and>
     (\<not> is_ready_for_encryption (channel_encryptor p) \<or> their_node_id p = None \<or>
      (awaiting_pong_timer_tick_intervals p \<noteq> - 1 \<and> \<not> (0 <s awaiting_pong_timer_tick_intervals p \<and> received_message_since_timer_tick p)))"

definition fading :: "'d \<Rightarrow> ('sk, 'd, 'h, 's) manager \<Rightarrow> bool" where
  "fading d m \<longleftrightarrow> (case map_of (pm_peers m) d of None \<Rightarrow> True | Some p \<Rightarrow> doomed p)"

definition keeps_doom :: "'sk Peer \<Rightarrow> 'sk Peer \<Rightarrow> bool" where
  "keeps_doom p q \<longleftrightarrow> (doomed p \<longrightarrow> doomed q)"

lemma keeps_doom_trans: "keeps_doom p q \<Longrightarrow> keeps_doom q r \<Longrightarrow> keeps_doom p r"
  by (simp add: keeps_doom_def)

lemma enqueue_encoded_doom: "enqueue_encoded_message env w p = Ok q \<Longrightarrow> keeps_doom p q"
  by (auto simp: enqueue_encoded_message_def keeps_doom_def doomed_def encrypt_message_def is_ready_for_encryption_def Let_def
      split: prod.splits outcome.splits if_splits NoiseState.splits)

lemma enqueue_doom: "enqueue_message env x p = Ok q \<Longrightarrow> keeps_doom p q"
  by (auto simp: enqueue_message_def dest: enqueue_encoded_doom split: option.splits)

lemma enqueue_all_doom: "enqueue_all env xs p = Ok q \<Longrightarrow> keeps_doom p q"
proof (induction xs arbitrary: p)
  case (Cons x xs)
  then obtain p1 where "enqueue_message env x p = Ok p1" "enqueue_all env xs p1 = Ok q" by (auto split: outcome.splits)
  then show ?case using Cons.IH enqueue_doom keeps_doom_trans by blast
qed (simp add: keeps_doom_def)

text \<open>A connection that waits for a pong gets no extra ping.\<close>

lemma refill_doom:
  assumes "refill env h p = Ok q"
  shows "keeps_doom p q"
proof -
  obtain p1 where p1: "queue_sync env h p = Ok p1" "(if msgs_sent_since_pong p1 \<ge> BUFFER_DRAIN_MSGS_PER_TICK then maybe_send_extra_ping env p1 else Ok p1) = Ok q"
    using assms by (auto simp: refill_def and_then_Ok_iff)
  have "keeps_doom p p1"
  proof (cases "p1 = p")
    case False
    then obtain xs p2 st where "enqueue_all env xs p = Ok p2" "p1 = p2\<lparr>sync_status := st\<rparr>"
      using p1(1) by (auto simp: queue_sync_def map_ok_Ok_iff split: if_splits prod.splits)
    then show ?thesis using enqueue_all_doom [of env xs p p2] by (simp add: keeps_doom_def doomed_def)
  qed (simp add: keeps_doom_def)
  moreover have "keeps_doom p1 q" using p1(2) by (auto simp: maybe_send_extra_ping_def keeps_doom_def doomed_def split: if_splits)
  ultimately show ?thesis by (rule keeps_doom_trans)
qed

lemma write_doom: "do_attempt_write_data env so h d p s = Ok (q, s1) \<Longrightarrow> keeps_doom p q"
proof (induction env so h d p s rule: do_attempt_write_data.induct)
  case (1 env so h d p s)
  show ?case
  proof (cases "awaiting_write_event p")
    case True
    then show ?thesis using "1.prems" by (simp add: do_attempt_write_data.simps [of env so h d p s] keeps_doom_def)
  next
    case go: False
    then obtain q0 where q0: "refill env h p = Ok q0" using "1.prems" by (auto simp: do_attempt_write_data.simps [of env so h d p s] split: outcome.splits)
    note k = refill_doom [OF q0]
    have same: "keeps_doom q0 (q0\<lparr>pending_outbound_buffer_first_msg_offset := i, pending_outbound_buffer := r\<rparr>)"
      "keeps_doom q0 (q0\<lparr>pending_outbound_buffer_first_msg_offset := i, awaiting_write_event := b\<rparr>)" for i r b by (simp_all add: keeps_doom_def doomed_def)
    show ?thesis
    proof (cases "pending_outbound_buffer q0")
      case Nil
      then show ?thesis using "1.prems" go q0 k by (simp add: do_attempt_write_data.simps [of env so h d p s])
    next
      case (Cons nb rest)
      let ?o = "pending_outbound_buffer_first_msg_offset q0"
      obtain s2 n where n: "send_data so d (drop ?o nb) (length (pending_outbound_buffer q0) < OUTBOUND_BUFFER_LIMIT_READ_PAUSE) s = (s2, n)" by fastforce
      have o: "\<not> length nb < ?o" using "1.prems" go q0 Cons by (auto simp: do_attempt_write_data.simps [of env so h d p s] split: if_splits)
      show ?thesis
      proof (cases "?o + n = length nb")
        case True
        have "keeps_doom (q0\<lparr>pending_outbound_buffer_first_msg_offset := 0, pending_outbound_buffer := rest\<rparr>) q"
          using "1.IH" [OF go q0 Cons refl refl o n [symmetric] True] "1.prems" go q0 Cons n o True by (simp add: do_attempt_write_data.simps [of env so h d p s])
        then show ?thesis using k same(1) keeps_doom_trans by blast
      next
        case False
        then show ?thesis using "1.prems" go q0 Cons n o k same(2) keeps_doom_trans by (fastforce simp: do_attempt_write_data.simps [of env so h d p s])
      qed
    qed
  qed
qed

section \<open>Operations of the manager\<close>

lemma put_fading:
  assumes "fading d m" "d' = d \<Longrightarrow> \<exists>p. map_of (pm_peers m) d = Some p \<and> keeps_doom p q"
  shows "fading d (put_peer d' q m)"
  using assms by (cases "d' = d") (auto simp: fading_def put_peer_def keeps_doom_def update_conv')

lemma write_peer_fading:
  assumes "fading d m" "write_peer env so d' p1 m = Ok m1" "map_of (pm_peers m) d' = Some p" "keeps_doom p p1"
  shows "fading d m1"
proof -
  obtain q s where q: "do_attempt_write_data env so (pm_handlers m) d' p1 (pm_sockets m) = Ok (q, s)" "m1 = put_peer d' q (m\<lparr>pm_sockets := s\<rparr>)"
    using assms(2) by (auto simp: write_peer_def map_ok_Ok_iff)
  have "fading d (m\<lparr>pm_sockets := s\<rparr>)" using assms(1) by (simp add: fading_def)
  then show ?thesis using q(2) assms(3) keeps_doom_trans [OF assms(4) write_doom [OF q(1)]] put_fading by fastforce
qed

lemma over_peers_doom:
  assumes "\<And>p q. f p = Ok q \<Longrightarrow> keeps_doom p q"
  shows "over_peers f ps = Ok qs \<Longrightarrow> rel_option keeps_doom (map_of ps d) (map_of qs d)"
proof (induction ps arbitrary: qs)
  case (Cons x ps)
  then show ?case using assms by (cases x) (auto simp: and_then_Ok_iff map_ok_Ok_iff)
qed simp

lemma rel_fading:
  assumes "fading d m" "rel_option keeps_doom (map_of (pm_peers m) d) (map_of (pm_peers m1) d)"
  shows "fading d m1"
  using assms by (cases "map_of (pm_peers m) d"; cases "map_of (pm_peers m1) d") (auto simp: fading_def keeps_doom_def)

lemma forward_fading: "fading d m \<Longrightarrow> forward_broadcast_msg env x e m = Ok m1 \<Longrightarrow> fading d m1"
proof -
  assume a: "fading d m" "forward_broadcast_msg env x e m = Ok m1"
  let ?f = "\<lambda>p. if wants_gossip x e p then enqueue_encoded_message env (wire_write (env_wire env) (env_custom env) x) p else Ok p"
  obtain qs where qs: "over_peers ?f (pm_peers m) = Ok qs" "m1 = m\<lparr>pm_peers := qs\<rparr>" using a(2) by (auto simp: forward_broadcast_msg_def map_ok_Ok_iff)
  have "rel_option keeps_doom (map_of (pm_peers m) d) (map_of qs d)"
  proof (rule over_peers_doom [OF _ qs(1)])
    fix p q assume "?f p = Ok q"
    then show "keeps_doom p q" using enqueue_encoded_doom [of env _ p q] by (cases "wants_gossip x e p") (simp_all add: keeps_doom_def)
  qed
  then show "fading d m1" using qs(2) by (intro rel_fading [OF a(1)]) simp
qed

lemma forward_all_fading: "fading d m \<Longrightarrow> forward_all env xs e m = Ok m1 \<Longrightarrow> fading d m1"
  by (induction xs arbitrary: m) (auto simp: and_then_Ok_iff dest: forward_fading)

lemma fading_fields [simp]:
  "fading d (m\<lparr>node_id_to_descriptor := ids\<rparr>) = fading d m" "fading d (m\<lparr>peer_counter := c\<rparr>) = fading d m"
  "fading d (m\<lparr>pm_handlers := h\<rparr>) = fading d m" "fading d (m\<lparr>pm_sockets := s\<rparr>) = fading d m"
  by (simp_all add: fading_def)

lemma delete_fading [simp]: "fading d m \<Longrightarrow> fading d (m\<lparr>pm_peers := AList.delete d' (pm_peers m)\<rparr>)"
  by (simp add: fading_def delete_conv')

lemma disconnect_fading: "fading d m \<Longrightarrow> fading d (disconnect_event_internal env d' b m)"
  by (auto simp: disconnect_event_internal_def Let_def fading_def delete_conv' split: option.splits)

lemma write_avail_fading: "fading d m \<Longrightarrow> fading d (fst (write_buffer_space_avail env so d' m))"
proof (cases "map_of (pm_peers m) d'")
  case (Some p)
  assume f: "fading d m"
  have "keeps_doom p (p\<lparr>awaiting_write_event := False\<rparr>)" by (simp add: keeps_doom_def doomed_def)
  then show ?thesis using Some f write_peer_fading [OF f _ Some] by (auto simp: write_buffer_space_avail_def split: outcome.splits)
qed (simp add: write_buffer_space_avail_def)

lemma read_event_fading:
  assumes "fading d m" "d' \<noteq> d"
  shows "fading d (fst (read_event env d' data m))"
proof -
  have "fading d (fst (do_read_event env d' data m))"
  proof (cases "map_of (pm_peers m) d'")
    case (Some p)
    have f: "fading d (put_peer d' q (m\<lparr>node_id_to_descriptor := i, peer_counter := c, pm_handlers := h\<rparr>))" for q i c h
      by (rule put_fading) (use assms in simp_all)
    then show ?thesis using Some forward_all_fading [OF f] by (auto simp: do_read_event_def Let_def split: prod.split outcome.split)
  qed (use assms in \<open>simp add: do_read_event_def\<close>)
  then show ?thesis using disconnect_fading by (auto simp: read_event_def split: prod.split outcome.split)
qed

lemma send_to_fading:
  assumes "fading d m" "send_to env dc who msgs m = Ok m1"
  shows "fading d m1"
proof (cases "get_peer_for_forwarding m dc who")
  case (Some x)
  obtain d' p where x: "x = (d', p)" by fastforce
  then have p: "map_of (pm_peers m) d' = Some p" using Some by (auto simp: get_peer_for_forwarding_def split: if_splits option.splits)
  obtain q where "enqueue_all env msgs p = Ok q" "m1 = put_peer d' q m" using assms(2) Some x by (auto simp: send_to_def map_ok_Ok_iff)
  then show ?thesis using put_fading [OF assms(1)] p enqueue_all_doom by fastforce
qed (use assms in \<open>simp add: send_to_def\<close>)

lemma broadcast_fading: "fading d m \<Longrightarrow> broadcast env msg m = Ok m1 \<Longrightarrow> fading d m1"
  using forward_fading [of d "m\<lparr>pm_handlers := h\<rparr>" env msg None m1 for h]
  by (auto simp: broadcast_def Let_def split: prod.splits outcome.splits ErrorAction.splits)

lemma handle_event_fading:
  assumes "fading d (fst x)" "handle_event env ev x = Ok y"
  shows "fading d (fst y)"
proof -
  obtain m dc where x: "x = (m, dc)" by fastforce
  have m: "fading d m" using assms(1) x by simp
  note keep = send_to_fading [OF m] broadcast_fading [OF m] broadcast_fading [OF broadcast_fading [OF m]]
  show ?thesis using m assms(2) x keep by (cases ev) (auto simp: map_ok_Ok_iff and_then_Ok_iff split: ErrorAction.splits)
qed

lemma write_all_fading:
  assumes "fading d m" "write_all env so m = Ok m1"
  shows "fading d m1"
proof (rule each_keeps [where I = "fading d", OF _ assms(1) assms(2) [unfolded write_all_def]])
  fix d' a b assume a: "fading d a" "(case map_of (pm_peers a) d' of None \<Rightarrow> Ok a | Some p \<Rightarrow> write_peer env so d' p a) = Ok b"
  show "fading d b"
  proof (cases "map_of (pm_peers a) d'")
    case (Some p)
    then show ?thesis using write_peer_fading [OF a(1) _ Some, of env so p b] a(2) by (simp add: keeps_doom_def)
  qed (use a in simp)
qed

lemma disconnect_with_fading: "fading d m \<Longrightarrow> disconnect_with env so x m = Ok m1 \<Longrightarrow> fading d m1"
  by (auto simp: disconnect_with_def Let_def map_ok_Ok_iff case_prod_beta fading_def delete_conv' split: option.splits if_splits)

lemma process_events_fading:
  assumes "fading d m" "process_events env ev so m = Ok m3"
  shows "fading d m3"
proof -
  obtain evs1 h1 evs2 h2 where h: "chan_events ev (pm_handlers m) = (evs1, h1)" "route_events ev h1 = (evs2, h2)" by fastforce
  obtain m1 dc where s1: "each (handle_event env) (evs1 @ evs2) (m\<lparr>pm_handlers := h2\<rparr>, []) = Ok (m1, dc)"
    using assms(2) h by (auto simp: process_events_def and_then_Ok_iff)
  obtain own h3 where s2: "custom_events ev (pm_handlers m1) = (own, h3)" by fastforce
  obtain m2 m2' where s: "each (\<lambda>(who, c). send_to env dc who [MsgCustom c]) own (m1\<lparr>pm_handlers := h3\<rparr>) = Ok m2" "write_all env so m2 = Ok m2'"
    "each (disconnect_with env so) dc m2' = Ok m3"
    using assms(2) h s1 s2 by (auto simp: process_events_def and_then_Ok_iff)
  have "fading d (fst (m1, dc))" by (rule each_keeps [where I = "\<lambda>x. fading d (fst x)", OF handle_event_fading _ s1]) (use assms(1) in simp_all)
  then have "fading d m2" by (intro each_keeps [where I = "fading d", OF _ _ s(1)]) (auto intro: send_to_fading)
  then have m2': "fading d m2'" using write_all_fading [OF _ s(2)] by blast
  show ?thesis by (rule each_keeps [where I = "fading d", OF _ m2' s(3)]) (rule disconnect_with_fading)
qed

section \<open>Two ticks\<close>

lemma ticked_on: "0 <s i \<Longrightarrow> i + 1 \<noteq> 0 \<and> i + 1 \<noteq> - 1" for i :: i8
proof -
  assume i: "0 <s i"
  have "i \<noteq> - 1" "i \<noteq> - 2" using i by (auto simp: word_sless_alt)
  moreover have "i + 1 = c \<longleftrightarrow> i = c - 1" for c by (auto simp: algebra_simps)
  ultimately show "i + 1 \<noteq> 0 \<and> i + 1 \<noteq> - 1" by simp
qed

text \<open>A tick either drops a connection or dooms it, and touches only that connection.\<close>

lemma put_doomed: "doomed q \<Longrightarrow> fading d (put_peer d q m)" "d' \<noteq> d \<Longrightarrow> map_of (pm_peers (put_peer d q m)) d' = map_of (pm_peers m) d'"
  by (simp_all add: fading_def put_peer_def update_conv')

lemma tick_peer_dooms:
  assumes "timer_tick_peer env so n d p m = Ok (m1, g)"
  shows "(g \<or> fading d m1) \<and> (\<forall>d'. d' \<noteq> d \<longrightarrow> map_of (pm_peers m1) d' = map_of (pm_peers m) d')"
proof -
  have wr: "fading d m1 \<and> (\<forall>d'. d' \<noteq> d \<longrightarrow> map_of (pm_peers m1) d' = map_of (pm_peers m) d')"
    if w: "enqueue_message env x q = Ok q2" "doomed q" "write_peer env so d q2 m = Ok m1" for x q q2
  proof -
    obtain r s where r: "do_attempt_write_data env so (pm_handlers m) d q2 (pm_sockets m) = Ok (r, s)" "m1 = put_peer d r (m\<lparr>pm_sockets := s\<rparr>)"
      using w(3) by (auto simp: write_peer_def map_ok_Ok_iff)
    have "doomed r" using enqueue_doom [OF w(1)] write_doom [OF r(1)] w(2) by (simp add: keeps_doom_def)
    then show ?thesis using r(2) by (simp add: put_doomed)
  qed
  let ?p = "p\<lparr>received_message_since_timer_tick := False, awaiting_pong_timer_tick_intervals := 1\<rparr>"
  have "doomed ?p" by (simp add: doomed_def)
  from wr [OF _ this] show ?thesis using assms ticked_on
    by (auto simp: timer_tick_peer_def Let_def and_then_Ok_iff map_ok_Ok_iff put_doomed doomed_def split: if_splits)
qed

lemma tick_peers_doom:
  assumes "tick_peers env so n ds m = Ok (m1, gone)" "distinct ds"
  shows "if d \<in> set ds then d \<in> set gone \<or> fading d m1 else map_of (pm_peers m1) d = map_of (pm_peers m) d"
  using assms
proof (induction ds arbitrary: m gone)
  case (Cons x ds)
  show ?case
  proof (cases "map_of (pm_peers m) x")
    case None
    then show ?thesis using Cons.IH [of m gone] Cons.prems by (auto simp: fading_def split: if_splits)
  next
    case (Some p)
    then obtain m2 g gone2 where t: "timer_tick_peer env so n x p m = Ok (m2, g)" "tick_peers env so n ds m2 = Ok (m1, gone2)" "gone = (if g then x # gone2 else gone2)"
      using Cons.prems(1) by (auto simp: and_then_Ok_iff map_ok_Ok_iff)
    show ?thesis using tick_peer_dooms [OF t(1)] Cons.IH [OF t(2)] Cons.prems(2) t(3) by (auto simp: fading_def split: if_splits)
  qed
qed simp

lemma gone_after_tick: "map_of (pm_peers (fold (\<lambda>d. disconnect_event_internal env d b) ds m)) d = (if d \<in> set ds then None else map_of (pm_peers m) d)"
proof (induction ds arbitrary: m)
  case (Cons x ds)
  have "map_of (pm_peers (disconnect_event_internal env x b m)) = (map_of (pm_peers m))(x := None)"
    by (simp add: disconnect_event_internal_def Let_def delete_conv' split: option.split)
  then show ?case using Cons by simp
qed simp

lemma first_tick:
  assumes "distinct (map fst (pm_peers m))" "timer_tick_occurred env so m = Ok m1"
  shows "fading d m1"
proof -
  obtain m2 gone where t: "tick_peers env so (length (pm_peers m)) (map fst (pm_peers m)) m = Ok (m2, gone)"
    "map_of (pm_peers m1) d = map_of (pm_peers (fold (\<lambda>d. disconnect_event_internal env d False) gone m2)) d"
    using assms(2) by (auto simp: timer_tick_occurred_def map_ok_Ok_iff Let_def)
  show ?thesis using tick_peers_doom [OF t(1) assms(1), of d] t(2) gone_after_tick [of env False gone m2 d]
    map_of_SomeD [of "pm_peers m" d] by (force simp: fading_def split: if_splits option.splits)
qed

text \<open>The second tick. An \<open>i8\<close> that went round from 127 to -128 counts as very many ticks.\<close>

lemma negative_ticks:
  fixes i :: i8
  assumes "n < 2 ^ 32" "\<not> 0 <s i" "i \<noteq> 0"
  shows "(scast i :: u64) > 4 * word_of_nat n"
proof -
  define s where "s = sint i"
  have s: "s < 0" "- 128 \<le> s" using assms(2,3) sint_greater_eq [of i] by (auto simp: s_def word_sless_alt not_less le_less signed_eq_0_iff)
  have "s mod 2 ^ 64 = (s + 2 ^ 64) mod 2 ^ 64" by simp
  also have "\<dots> = s + 2 ^ 64" by (rule mod_pos_pos_trivial) (use s in simp_all)
  finally have "uint (scast i :: u64) = s + 2 ^ 64" unfolding scast_eq uint_word_of_int s_def by simp
  moreover have "uint (4 * word_of_nat n :: u64) = 4 * int n"
  proof -
    have "(4 * word_of_nat n :: u64) = word_of_int (4 * int n)" by simp
    moreover have "uint (word_of_int (4 * int n) :: u64) = 4 * int n" unfolding uint_word_of_int by (rule mod_pos_pos_trivial) (use assms(1) in simp_all)
    ultimately show ?thesis by simp
  qed
  ultimately show ?thesis using s(2) assms(1) by (simp add: word_less_def)
qed

lemma tick_drops:
  assumes "doomed p" "n < 2 ^ 32"
  shows "timer_tick_peer env so n d p m = Ok (m, True)"
  using assms negative_ticks [OF assms(2), of "awaiting_pong_timer_tick_intervals p"]
  by (auto simp: timer_tick_peer_def Let_def doomed_def MAX_BUFFER_DRAIN_TICK_INTERVALS_PER_PEER_def)

lemma tick_peers_drop:
  assumes "n < 2 ^ 32" "fading d m" "tick_peers env so n ds m = Ok (m1, gone)" "d \<in> set ds" "map_of (pm_peers m) d \<noteq> None"
  shows "d \<in> set gone"
  using assms(2-)
proof (induction ds arbitrary: m gone)
  case (Cons x ds)
  show ?case
  proof (cases "map_of (pm_peers m) x")
    case None
    then show ?thesis using Cons by auto
  next
    case (Some p)
    then obtain m2 g gone2 where t: "timer_tick_peer env so n x p m = Ok (m2, g)" "tick_peers env so n ds m2 = Ok (m1, gone2)" "gone = (if g then x # gone2 else gone2)"
      using Cons.prems(2) by (auto simp: and_then_Ok_iff map_ok_Ok_iff)
    show ?thesis
    proof (cases "x = d")
      case True
      then have "doomed p" using Cons.prems(1) Some by (simp add: fading_def)
      then show ?thesis using tick_drops [OF _ assms(1), of p env so x m] t(1,3) True by simp
    next
      case False
      have "map_of (pm_peers m2) d = map_of (pm_peers m) d" using tick_peer_dooms [OF t(1)] False by simp
      then have "d \<in> set gone2" using Cons.IH [OF _ t(2)] Cons.prems(1,3,4) False by (simp add: fading_def)
      then show ?thesis using t(3) by simp
    qed
  qed
qed simp

lemma second_tick:
  assumes "fading d m" "length (pm_peers m) < 2 ^ 32" "timer_tick_occurred env so m = Ok m1"
  shows "map_of (pm_peers m1) d = None"
proof -
  obtain m2 gone where t: "tick_peers env so (length (pm_peers m)) (map fst (pm_peers m)) m = Ok (m2, gone)"
    "map_of (pm_peers m1) d = map_of (pm_peers (fold (\<lambda>d. disconnect_event_internal env d False) gone m2)) d"
    using assms(3) by (auto simp: timer_tick_occurred_def map_ok_Ok_iff Let_def)
  have keys: "tick_peers env so n ds a = Ok (b, g) \<Longrightarrow> map_of (pm_peers a) d = None \<Longrightarrow> map_of (pm_peers b) d = None" for n ds a b g
  proof (induction ds arbitrary: a g)
    case (Cons x ds)
    show ?case
    proof (cases "map_of (pm_peers a) x")
      case (Some p)
      then obtain a2 h g2 where u: "timer_tick_peer env so n x p a = Ok (a2, h)" "tick_peers env so n ds a2 = Ok (b, g2)"
        using Cons.prems(1) by (auto simp: and_then_Ok_iff map_ok_Ok_iff)
      have "x \<noteq> d" using Some Cons.prems(2) by auto
      then show ?thesis using Cons.IH [OF u(2)] tick_peer_dooms [OF u(1)] Cons.prems(2) by simp
    qed (use Cons in simp)
  qed simp
  show ?thesis
  proof (cases "map_of (pm_peers m) d")
    case None
    then show ?thesis using keys [OF t(1)] t(2) gone_after_tick [of env False gone m2 d] by simp
  next
    case (Some p)
    then have "d \<in> set (map fst (pm_peers m))" using map_of_SomeD [of "pm_peers m" d p] by force
    then have "d \<in> set gone" using tick_peers_drop [OF assms(2,1) t(1)] Some by simp
    then show ?thesis using t(2) gone_after_tick [of env False gone m2 d] by simp
  qed
qed

text \<open>Anything but bytes from \<open>d\<close>, a new connection \<open>d\<close>, or the next tick.\<close>

fun silence_of :: "'d \<Rightarrow> ('d, 'c, 'h) manager_op \<Rightarrow> bool" where
  "silence_of d (OpRead d' data) \<longleftrightarrow> d' \<noteq> d"
| "silence_of d (OpInbound d' addr) \<longleftrightarrow> d' \<noteq> d"
| "silence_of d (OpOutbound who d' addr) \<longleftrightarrow> d' \<noteq> d"
| "silence_of d OpTick \<longleftrightarrow> False"
| "silence_of d x \<longleftrightarrow> True"

lemma manager_step_fading:
  assumes "fading d m" "silence_of d x" "manager_step env so x m = Ok m1"
  shows "fading d m1"
proof (cases x)
  case (OpOutbound who d' addr)
  have "fading d (put_peer d' q (m\<lparr>peer_counter := c\<rparr>))" for q c by (rule put_fading) (use assms(1,2) OpOutbound in simp_all)
  then show ?thesis using assms(3) OpOutbound by (auto simp: map_ok_Ok_iff new_outbound_connection_def split: prod.splits outcome.splits if_splits)
next
  case (OpInbound d' addr)
  have "fading d (put_peer d' q m)" for q by (rule put_fading) (use assms(1,2) OpInbound in simp_all)
  then show ?thesis using assms(3) OpInbound by (auto simp: new_inbound_connection_def split: if_splits)
next
  case (OpDisconnect who b)
  then show ?thesis using assms(1,3) by (auto simp: disconnect_by_node_id_def fading_def delete_conv' split: option.splits if_splits)
next
  case OpDisconnectAll
  then show ?thesis using assms(3) by (auto simp: disconnect_all_peers_def fading_def)
qed (use assms write_avail_fading read_event_fading disconnect_fading process_events_fading in \<open>auto simp: carried_on_Ok socket_disconnected_def\<close>)

lemma manager_run_fading:
  "fading d m \<Longrightarrow> \<forall>x\<in>set xs. silence_of d x \<Longrightarrow> each (manager_step env so) xs m = Ok m1 \<Longrightarrow> fading d m1"
proof (induction xs arbitrary: m)
  case (Cons x xs)
  then obtain m2 where m2: "manager_step env so x m = Ok m2" "each (manager_step env so) xs m2 = Ok m1" by (auto simp: and_then_Ok_iff)
  have "fading d m2" by (rule manager_step_fading [OF Cons.prems(1) _ m2(1)]) (use Cons.prems(2) in simp)
  then show ?case using Cons.IH Cons.prems(2) m2(2) by simp
qed simp

text \<open>C11. A silent peer is dropped. When a tick of the timer is followed by any operations of the manager that read nothing from a connection
  and the next tick, the connection is gone after it: whether its handshake never ended, its pong never
  came, or only our own messages for it piled up.\<close>
theorem silent_peers_dropped:
  assumes "distinct (map fst (pm_peers m))" "timer_tick_occurred env so m = Ok m1"
    "\<forall>x\<in>set xs. silence_of d x" "each (manager_step env so) xs m1 = Ok m2" "length (pm_peers m2) < 2 ^ 32"
    "timer_tick_occurred env so m2 = Ok m3"
  shows "d \<notin> fst ` set (pm_peers m3)"
proof -
  have "fading d m2" by (rule manager_run_fading [OF first_tick [OF assms(1,2)] assms(3,4)])
  then show ?thesis using second_tick [OF _ assms(5,6)] by (simp add: map_of_eq_None_iff)
qed

section \<open>On concrete peers\<close>

theorem silent_peers_dropped_witness:
  "\<exists>m m1 m2 m3. new_inbound_connection toy_env 1 None (new_manager [] (\<lambda>_. [])) = Ok m \<and> timer_tick_occurred toy_env small_socket m = Ok m1 \<and> map fst (pm_peers m1) = [1] \<and>
    each (manager_step toy_env small_socket) [OpInbound 2 None, OpRead 2 []] m1 = Ok m2 \<and> timer_tick_occurred toy_env small_socket m2 = Ok m3 \<and> 1 \<notin> fst ` set (pm_peers m3)"
proof -
  note step = new_inbound_connection_def new_manager_def put_peer_def timer_tick_occurred_def timer_tick_peer_def new_peer_def new_inbound_def
    is_ready_for_encryption_def disconnect_event_internal_def carried_on_def read_event_def do_read_event_def read_loop.simps Let_def
  define m0 :: "(nat, nat, (bytes \<times> bytes Message) list, nat \<Rightarrow> bytes) manager" where "m0 = new_manager [] (\<lambda>_. [])"
  obtain m where m: "new_inbound_connection toy_env 1 None m0 = Ok m" by (simp add: m0_def step)
  obtain m1 where m1: "timer_tick_occurred toy_env small_socket m = Ok m1" "map fst (pm_peers m1) = [1]" using m by (auto simp: m0_def step)
  obtain m2 where m2: "each (manager_step toy_env small_socket) [OpInbound 2 None, OpRead 2 []] m1 = Ok m2" "length (pm_peers m2) = 2"
    using m m1 by (auto simp: m0_def step)
  obtain m3 where m3: "timer_tick_occurred toy_env small_socket m2 = Ok m3" using m m1 m2 by (auto simp: m0_def step)
  have a: "distinct (map fst (pm_peers m))" using m by (auto simp: m0_def step)
  have b: "\<forall>x\<in>set [OpInbound 2 None, OpRead 2 []]. silence_of (1 :: nat) x" by simp
  have c: "length (pm_peers m2) < 2 ^ 32" using m2(2) by simp
  show ?thesis using m m1 m2(1) m3 silent_peers_dropped [OF a m1(1) b m2(1) c m3] unfolding m0_def
    by (intro exI [of _ m] exI [of _ m1] exI [of _ m2] exI [of _ m3] conjI)
qed

end
