(* ===== verification/Spec2Isabelle.thy ===== *)
theory Spec2Isabelle
  imports Cli Scraper Startup Fake_Scid Commitment_Secrets Payment_Lifecycle Inbound_Payment Initial_Sync Gossip_Sync Channel_Closing Peer_Timeout
begin

text \<open>
  The program. The repository is a prober for unannounced Lightning channels. A scraper joins two dumps of the
  block chain into files of candidate outputs. A node built on a vendored copy of rust-lightning connects to
  bitcoind, restores its keys and channels from disk and offers a prompt; its command \<open>probeall\<close> walks over
  nodes and candidate outputs, turns each output into a short channel id, pays a random hash over a route whose
  last hop is the guessed channel, and reads from the error code that comes back whether the channel exists.
  Answers are rows of an attempt table, which later runs skip and \<open>dump_results\<close> exports.

  The theories, bottom up; \<open>src/src\<close> is the prober, \<open>lightning/src\<close> and its neighbours the library under
  \<open>src/rust-lightning\<close>.

  \<^item> \<open>Prelude\<close>: machine integers, the result type \<open>outcome\<close> (value, error, panic) with its composition, hash maps as
    association lists, decimal and byte conversions.
  \<^item> \<open>Hex_Utils\<close> (\<open>hex_utils.rs\<close>) and \<open>Scid\<close> (\<open>probe.rs\<close>, \<open>util/scid_utils.rs\<close>): parsing of hexadecimal text and keys;
    packing of channel ids, with the round trip on parts in range and the aliasing outside.
  \<^item> \<open>Node_Types\<close>, \<open>Probe\<close>, \<open>Events\<close>, \<open>Attempts\<close>, \<open>Prober\<close> (\<open>probe.rs\<close>, \<open>main.rs\<close>, \<open>cli.rs\<close>): the shared tables, one probe,
    every branch of the event handler, reading and exporting the attempt table, and \<open>probeall\<close> as a step function
    interleaved with events and interrupts. Invariants are proved over all reachable states; \<open>prober_can_finish\<close> and
    \<open>prober_retries_forever\<close> say when the campaign ends.
  \<^item> \<open>Disk\<close>, \<open>Persister\<close>, \<open>Peers\<close> (\<open>disk.rs\<close>, \<open>lightning-persister\<close>, \<open>cli.rs\<close>): a file system with durable and volatile state;
    the sequence of calls of an atomic write and what a crash at each leaves; the monitor and update files of
    channels, and that reading them back gives the monitor in memory; peers and the log.
  \<^item> \<open>Startup_Args\<close>, \<open>Bitcoind_Client\<close>, \<open>Startup\<close>, \<open>Cli\<close>, \<open>Scraper\<close> (\<open>cli.rs\<close>, \<open>bitcoind_client.rs\<close>, \<open>convert.rs\<close>, \<open>main.rs\<close>,
    \<open>scraper/main.rs\<close>): arguments, fee polling and broadcasting, the order of the start, every command of the prompt,
    the join of the dumps.
  \<^item> \<open>ChaCha20\<close>, \<open>Keystream\<close>, \<open>Fake_Scid\<close>, \<open>Serialization\<close>, \<open>Commitment_Secrets\<close> (\<open>util/chacha20.rs\<close>, \<open>util/scid_utils.rs\<close>, \<open>util/ser.rs\<close>,
    \<open>util/ser_macros.rs\<close>, \<open>ln/chan_utils.rs\<close>): the stream cipher with its buffering, the ids of phantom nodes,
    variable-length integers and TLV streams, the compact store of revealed commitment secrets.
  \<^item> \<open>Poly1305\<close>, \<open>ChaChaPoly\<close>, \<open>Noise\<close> (\<open>util/poly1305.rs\<close>, \<open>util/chacha20poly1305rfc.rs\<close>, \<open>ln/peer_channel_encryptor.rs\<close>,
    \<open>util/crypto.rs\<close>): the one-time authenticator in limbs of 26 bits, equal to the polynomial it stands for; the
    authenticated cipher and its stream adapters; the handshake of two peers and the transport of messages
    with rotating keys. The locale \<open>in_step\<close> says what two ends must keep for every message to arrive.
  \<^item> \<open>Onion_Failure\<close>, \<open>Onion_Packet\<close> (\<open>ln/onion_utils.rs\<close>, \<open>ln/msgs.rs\<close>, \<open>ln/channelmanager.rs\<close>): keys along a path, payloads,
    building and peeling the onion, and failure packets from the failing node to the sender.
  \<^item> \<open>Outbound_Payments\<close>, \<open>Payment_Lifecycle\<close>, \<open>Inbound_Payment\<close> (\<open>ln/channelmanager.rs\<close>, \<open>ln/inbound_payment.rs\<close>): the table of
    outgoing payments with all operations on it, their interleavings as an inductive relation, the automaton of
    events it refines and the amounts it keeps; payment secrets that carry their own terms.
  \<^item> \<open>Features\<close>, \<open>Shutdown_Script\<close> (\<open>ln/features.rs\<close>, \<open>ln/script.rs\<close>): feature bits in their contexts, channel types, the base32 form
    of invoices, and which shutdown scripts a peer accepts.
  \<^item> \<open>Channel\<close>, \<open>Channel_Update\<close>, \<open>Channel_Open\<close>, \<open>Channel_Accept\<close>, \<open>Channel_Chain\<close>, \<open>Channel_Reconnect\<close>, \<open>Channel_Close\<close> (\<open>ln/channel.rs\<close>):
    one channel with its peer. The record \<open>channel\<close> has the fields of the struct; there is one definition per method,
    from the first message to the closing transaction, with the checks and messages of the code, the holding cell
    and the pauses for the monitor. \<open>Channel_Funds\<close> states the invariant \<open>funds_ok\<close> on balances and pending HTLCs,
    shows that it makes every commitment transaction well defined, and that every update keeps it;
    \<open>Channel_Safety\<close> gives the step relation \<open>chan_step\<close> with all operations and the property of all reachable states;
    \<open>Channel_Closing\<close> shows that the fee negotiation of two sides ends, what the closing transaction pays, and two
    cases in which the code fails.
  \<^item> \<open>Block_Sync\<close>, \<open>Initial_Sync\<close> (\<open>lightning-block-sync\<close>): the walk to the fork point, the client that polls, and the start
    of several listeners. The interface between walk and source is the locale \<open>header_source\<close>.
  \<^item> \<open>Network_Graph\<close>, \<open>Gossip_Sync\<close> (\<open>routing/gossip.rs\<close>, \<open>ln/peer_handler.rs\<close>): the graph of channels and nodes under gossip,
    failures and ageing, and how it is served to peers.
  \<^item> \<open>Wire_Format\<close>, \<open>Wire_Messages\<close>, \<open>Wire_Correct\<close> (\<open>ln/msgs.rs\<close>, \<open>ln/wire.rs\<close>, \<open>util/ser.rs\<close>): the encoding of every message
    between peers. The locales \<open>field_format\<close> and \<open>message_format\<close> say when something written is read back, and
    each field and message is an interpretation; no bytes make a reader panic.
  \<^item> \<open>Peer_Handler\<close>, \<open>Peer_Manager\<close> (\<open>ln/peer_handler.rs\<close>, \<open>util/atomic_counter.rs\<close>): one connection with its read and write
    loops and the dispatch of messages, and all connections of a node with gossip, events, pings and timeouts.
    \<open>Peer_Reading\<close> shows that the bytes of a peer can be cut in any way and never cause a panic, \<open>Peer_Delivery\<close> that
    queued bytes reach the socket in order and that a connection refines the specification \<open>session\<close> on messages,
    \<open>Peer_Consistent\<close> that the tables of the manager agree after any operations, \<open>Peer_Timeout\<close> that silent
    connections are dropped.
  \<^item> This theory: the composition of onion, payments and event handler from a failing hop to the attempt table.

  How code becomes definitions. A struct is a record, an enum a datatype, integers keep their width as words and
  wrap as a release build does; \<open>unwrap\<close>, \<open>expect\<close>, index and assertion failures are the value \<open>Panic\<close>, errors the
  value \<open>Err\<close>. State is passed explicitly. Code that is not in the repository is a parameter, most often a field
  of a record such as \<open>crypto\<close>, \<open>ldk_env\<close>, \<open>bitcoin_lib\<close> or \<open>gossip_lib\<close>: hash functions, curve operations, JSON and CSV,
  the RPC transport, clocks and random bytes. What a theorem needs of it is a named hypothesis such as
  \<open>crypto_ok\<close>, \<open>codec_ok\<close> or \<open>trusted\<close>, with an instance in the witness.

  Loops and bounds. Recursion is structural or has a measure. Two loops may run forever: the walk of
  \<open>find_difference\<close>, a partial function into \<open>option\<close> that is proved to return for a truthful source because the
  heights fall, and the threads of the prober, which are runs of arbitrary length. No definition uses fuel; the
  bounds in statements (\<open>2^48\<close> secrets, 1300 bytes of onion, 8000 ids in a reply) are those of the code.

  Not modelled: the storage of channels and the forwarding half of the channel manager, on-chain monitoring
  (\<open>chain/channelmonitor.rs\<close>, \<open>chain/onchaintx.rs\<close>), route finding and scoring, invoices; these are parameters
  where the modelled parts call them. Sockets, threads, locks and logging are left out, and so is test code. Debug assertions of the channel and the fee caches of its test builds are left
  out too.
\<close>

section \<open>From a failing hop to the attempt table\<close>

text \<open>The events of the channel manager as the node's event handler receives them, one after the other.\<close>

fun as_handled :: "'pp manager_event \<Rightarrow> 'o event" where
  "as_handled (EvPaymentSent i pre h fee) = PaymentSent pre h fee"
| "as_handled (EvPaymentPathSuccessful i h path) = PaymentPathSuccessful"
| "as_handled (EvPaymentPathFailed pf) = PaymentPathFailed (pf_path pf) (pf_error_code pf)"
| "as_handled (EvPaymentFailed i h) = PaymentFailed h"

fun handle_all :: "('o, 'tx) ldk_env \<Rightarrow> Network \<Rightarrow> 'pp manager_event list \<Rightarrow> node_state \<Rightarrow> (unit, node_state) outcome" where
  "handle_all env n [] s = Ok s"
| "handle_all env n (e # es) s = and_then (handle_ldk_events env n (as_handled e) s) (\<lambda>(s', _). handle_all env n es s')"

lemma handle_full_failure:
  assumes "evs = [] \<or> (\<exists>h. evs = [EvPaymentFailed i h])"
  shows "\<exists>s'. handle_all env n evs s = Ok s' \<and> attempt_table s' = attempt_table s"
proof -
  have "\<exists>s'. handle_all env n [EvPaymentFailed i h] s = Ok s' \<and> attempt_table s' = attempt_table s" for h
    by (cases "hm_contains h (pending_payments s)") (simp_all add: on_payment_failed_def)
  with assms show ?thesis by (auto simp del: handle_all.simps(2))
qed

text \<open>What a failed part of an open payment queues.\<close>

lemma fail_outbound_htlc_open:
  assumes "payment m (or_payment_id src) = Some p" "\<not> is_fulfilled p" "or_session_priv src \<in> set (session_privs p)"
    and "or_path src \<noteq> []"
    and "process_onion_failure cr read (or_path src) (or_session_priv src) (or_first_hop_htlc_msat src) pkt =
           Ok (upd, scid, retryable, Some code, Some data)"
  obtains m' pf evs where "fail_outbound_htlc cr read src h (LightningError pkt) m = Ok m'"
    "pending_events m' = pending_events m @ EvPaymentPathFailed pf # evs"
    "pf_path pf = or_path src" "pf_error_code pf = Some code"
    "evs = [] \<or> (\<exists>h'. evs = [EvPaymentFailed (or_payment_id src) h'])"
proof -
  obtain p' where r: "remove_part p (or_session_priv src) (Some (or_path src)) = Ok (p', True)"
    using assms(3,4) by (cases p) (auto simp: remove_part_def)
  obtain retry where retry: "retry_of src = Ok retry"
    using assms(4) by (cases "or_payment_params src") (auto simp: retry_of_def)
  let ?all = "remaining_parts p' = 0"
  obtain pf where pf: "path_failure_of cr read src h (LightningError pkt) ?all retry = Ok pf"
    "pf_path pf = or_path src" "pf_error_code pf = Some code"
    using assms(5) by (simp add: path_failure_of_def)
  note run = assms(1) r retry pf(1) remove_part_kind(1) [OF r] assms(2)
  show thesis
  proof (cases "?all \<and> abandoned p'")
    case True
    then obtain h' where "payment_hash_of p' = Some h'"
      by (cases p') (auto simp: abandoned_def payment_hash_of_def)
    with True run show thesis
      by (intro that [OF _ _ pf(2,3)]) (auto simp: fail_outbound_htlc_def Let_def)
  next
    case False
    with run show thesis
      by (intro that [OF _ _ pf(2,3)]) (auto simp: fail_outbound_htlc_def Let_def)
  qed
qed


definition demo_probe_source :: "unit outbound_route" where
  "demo_probe_source = demo_source\<lparr>or_path := [demo_final_hop, demo_final_hop]\<rparr>"


end
